(* ===== verification/Prelude.thy ===== *)
theory Prelude
  imports "HOL-Library.Word"
begin

unbundle bit_operations_syntax

text \<open>
  Shared vocabulary of the development: the fixed-width integer types of
  \<^verbatim>\<open>misc/fixed_types.h\<close>, the way the simulator stops (the logging macros of
  \<^verbatim>\<open>misc/log.h\<close> and the C \<^verbatim>\<open>assert\<close>) as values of an error type, the error
  monad, bounded counters, and the generic facts on lists and words that the components use.
\<close>

section \<open>Integer types of \<open>misc/fixed_types.h\<close>\<close>

type_synonym UInt64 = "64 word"
type_synonym UInt32 = "32 word"
type_synonym UInt8 = "8 word"
type_synonym IntPtr = "64 word"

text \<open>
  Thread, core and application identifiers are \<^verbatim>\<open>SInt32\<close> values in the code with \<open>-1\<close>
  as the invalid one; they are compared and used as table indices, never computed with.
\<close>

type_synonym core_id_t = int
type_synonym thread_id_t = int

abbreviation (input) INVALID_CORE_ID :: core_id_t where "INVALID_CORE_ID \<equiv> - 1"
abbreviation (input) INVALID_THREAD_ID :: thread_id_t where "INVALID_THREAD_ID \<equiv> - 1"
abbreviation (input) INVALID_ADDRESS :: IntPtr where "INVALID_ADDRESS \<equiv> - 1"

section \<open>Stopping the simulator\<close>

text \<open>
  \<^verbatim>\<open>LOG_ASSERT_ERROR\<close> with a false condition, \<^verbatim>\<open>LOG_PRINT_ERROR\<close> and a failed
  \<^verbatim>\<open>assert\<close> end the process; a call that would not return, or an access the language
  leaves undefined, is an outcome of its own. An operation that can end in one of these ways
  returns \<open>Inl\<close> of the reason.
\<close>

datatype sim_error =
    LOG_ASSERT_ERROR string
  | LOG_PRINT_ERROR string
  | ASSERT string
  | NONTERMINATION string
  | UNDEFINED string

type_synonym 'a result = "sim_error + 'a"

named_theorems result_simps

definition bindE :: "'a result \<Rightarrow> ('a \<Rightarrow> 'b result) \<Rightarrow> 'b result" where
  "bindE m f = (case m of Inl e \<Rightarrow> Inl e | Inr x \<Rightarrow> f x)"

definition assertE :: "bool \<Rightarrow> sim_error \<Rightarrow> unit result" where
  "assertE b e = (if b then Inr () else Inl e)"

lemma bindE_simps [simp, result_simps]:
  "bindE (Inl e) f = Inl e"
  "bindE (Inr x) f = f x"
  by (simp_all add: bindE_def)

lemma assertE_simps [simp, result_simps]:
  "assertE True e = Inr ()"
  "assertE False e = Inl e"
  by (simp_all add: assertE_def)

lemma assertE_eq_Inr [simp]: "assertE b e = Inr u \<longleftrightarrow> b"
  by (simp add: assertE_def)

lemma bindE_eq_Inr: "bindE m f = Inr y \<longleftrightarrow> (\<exists>x. m = Inr x \<and> f x = Inr y)"
  by (cases m) auto

lemma bindE_eq_InrE [elim!]:
  assumes "bindE m f = Inr y"
  obtains x where "m = Inr x" and "f x = Inr y"
  using assms by (cases m) auto

lemma bindE_assertE [simp]: "bindE (assertE b e) f = (if b then f () else Inl e)"
  by (simp add: assertE_def)

section \<open>Small unsigned counters\<close>

text \<open>
  Counters kept in a \<^verbatim>\<open>UInt8\<close> are natural numbers below 256 and their increment wraps;
  \<open>u32\<close> is the wrap-around of sums computed in a \<^verbatim>\<open>UInt32\<close>.
\<close>

definition u8 :: "nat \<Rightarrow> nat" where
  "u8 n = n mod 256"

definition u8_inc :: "nat \<Rightarrow> nat" where
  "u8_inc n = (n + 1) mod 256"

definition u32 :: "nat \<Rightarrow> nat" where
  "u32 n = n mod 2 ^ 32"

lemma u32_code [code]: "u32 n = unat (of_nat n :: UInt32)"
  by (simp add: u32_def unat_of_nat)

lemma u32_small [simp]: "n < 2 ^ 32 \<Longrightarrow> u32 n = n"
  by (simp add: u32_def)

lemma u8_small [simp]: "n < 256 \<Longrightarrow> u8 n = n"
  by (simp add: u8_def)

lemma u8_inc_small [simp]: "n < 255 \<Longrightarrow> u8_inc n = Suc n"
  by (simp add: u8_inc_def)

lemma u8_bound [simp]: "u8 n < 256"
  by (simp add: u8_def)

lemma u8_inc_bound [simp]: "u8_inc n < 256"
  by (simp add: u8_inc_def)

section \<open>Searching an index range\<close>

text \<open>
  The code's \<open>for (i = 0; i < n; i++) if (p(i)) return i;\<close> is \<open>List.find p [0..<n]\<close>.
\<close>

lemma find_upt_Some_iff:
  "List.find p [0..<n] = Some i \<longleftrightarrow> i < n \<and> p i \<and> (\<forall>j<i. \<not> p j)"
  by (fastforce simp: find_Some_iff)

lemma find_upt_None_iff: "List.find p [0..<n] = None \<longleftrightarrow> (\<forall>i<n. \<not> p i)"
  by (auto simp: find_None_iff)

lemma find_upt_SomeD:
  assumes "List.find p [0..<n] = Some i"
  shows "i < n" and "p i" and "\<And>j. j < i \<Longrightarrow> \<not> p j"
  using assms by (auto simp: find_upt_Some_iff)

lemma find_SomeD: "List.find p xs = Some x \<Longrightarrow> x \<in> set xs \<and> p x"
  by (auto simp: find_Some_iff)

lemma find_NotNone: "x \<in> set xs \<Longrightarrow> p x \<Longrightarrow> \<exists>y. List.find p xs = Some y"
  by (cases "List.find p xs") (auto simp: find_None_iff)

section \<open>Lists updated in an index loop\<close>

lemma foldl_list_update_length [simp]:
  "length (foldl (\<lambda>ys i. ys[g i := h i]) xs is) = length xs"
  by (induction "is" arbitrary: xs) auto

lemma nth_list_update_bound: "j < length xs \<Longrightarrow> xs[i := x] ! j = (if i = j then x else xs ! j)"
  by (cases "i = j") auto

lemma map_upt_nth: "map (\<lambda>i. f (xs ! i)) [0..<length xs] = map f xs"
  by (rule nth_equalityI) auto

section \<open>Words\<close>

lemma unat_mod_lt: "(b::'a::len word) \<noteq> 0 \<Longrightarrow> unat (a mod b) < unat b"
  by (simp add: unat_mod word_neq_0_conv unat_gt_0)

lemma unat_drop_bit: "unat (drop_bit k (w::'a::len word)) = unat w div 2 ^ k"
  by (simp only: unat_drop_bit_eq) (rule drop_bit_eq_div)

lemma unat_ucast_up [simp]: "unat (ucast (n::UInt32) :: 64 word) = unat n"
proof -
  have "unat n < 2 ^ 32" using unsigned_less [of n, where ?'a=nat] by simp
  then show ?thesis by (simp add: unsigned_ucast_eq take_bit_nat_eq_self)
qed

end
