(* ===== verification/Bit_Utils.thy ===== *)
theory Bit_Utils
  imports Prelude
begin

unbundle bit_operations_syntax

text \<open>
  \<^verbatim>\<open>misc/utils.cc\<close> (power-of-two test, integer logarithms, population count), the two
  pseudo-random generators \<^verbatim>\<open>misc/random.h\<close> and \<^verbatim>\<open>misc/rng.h\<close>, and the modular
  counter \<^verbatim>\<open>misc/modulo_num.cc\<close>.
\<close>

section \<open>Definitions\<close>

subsection \<open>\<open>misc/utils.cc\<close>\<close>

definition isPower2 :: "UInt32 \<Rightarrow> bool" where
  "isPower2 n \<longleftrightarrow> n AND (n - 1) = 0"

text \<open>One test of the binary search: if a bit of the mask is set, skip \<open>k\<close> positions.\<close>

definition floorLog2_step :: "UInt32 \<Rightarrow> nat \<Rightarrow> int \<times> UInt32 \<Rightarrow> int \<times> UInt32" where
  "floorLog2_step msk k = (\<lambda>(p, n). if n AND msk \<noteq> 0 then (p + int k, drop_bit k n) else (p, n))"

definition floorLog2 :: "UInt32 \<Rightarrow> int" where
  "floorLog2 n =
     (if n = 0 then - 1
      else
        let s = floorLog2_step 0xffff0000 16 (0, n);
            s = floorLog2_step 0x0000ff00 8 s;
            s = floorLog2_step 0x000000f0 4 s;
            s = floorLog2_step 0x0000000c 2 s;
            (p, n) = s
        in if n AND 0x00000002 \<noteq> 0 then p + 1 else p)"

definition ceilLog2 :: "UInt32 \<Rightarrow> int" where
  "ceilLog2 n = floorLog2 (n - 1) + 1"

text \<open>Kernighan's loop: each round clears the lowest set bit.\<close>

lemma clear_lowest_less: "n \<noteq> 0 \<Longrightarrow> n AND (n - 1) < (n::'a::len word)"
proof -
  assume "n \<noteq> 0"
  then have "n - 1 < n" by (metis measure_unat word_less_nat_alt)
  moreover have "n AND (n - 1) \<le> n - 1" by (simp add: word_and_le1)
  ultimately show ?thesis by (rule le_less_trans [rotated])
qed

function countBits_loop :: "UInt64 \<Rightarrow> UInt64 \<Rightarrow> UInt64" where
  "countBits_loop n r =
     (let n' = n AND (n - 1) in if n' \<noteq> 0 then countBits_loop n' (r + 1) else r)"
  by pat_completeness auto
termination
  by (relation "measure (\<lambda>(n, r). unat n)")
    (auto simp: word_less_nat_alt [symmetric] intro!: clear_lowest_less)

declare countBits_loop.simps [simp del]

definition countBits :: "UInt64 \<Rightarrow> UInt64" where
  "countBits n = (if n = 0 then 0 else countBits_loop n 1)"

subsection \<open>\<open>misc/random.h\<close> and \<open>misc/rng.h\<close>\<close>

text \<open>
  \<^verbatim>\<open>Random::next\<close> returns the draw and the new seed; a zero limit is a division by zero.
\<close>

definition Random_next :: "UInt32 \<Rightarrow> UInt32 \<Rightarrow> (UInt32 \<times> UInt32) result" where
  "Random_next limit seed =
     (let seed' = seed * 1103515245 + 12345
      in if limit = 0 then Inl (UNDEFINED ''division by zero'')
         else Inr ((seed' div 65536) mod limit, seed'))"

abbreviation RNG_A :: UInt64 where "RNG_A \<equiv> 0x5DEECE66D"
abbreviation RNG_C :: UInt64 where "RNG_C \<equiv> 0xB"
abbreviation RNG_M :: UInt64 where "RNG_M \<equiv> push_bit 48 1 - 1"

definition rng_next :: "UInt64 \<Rightarrow> UInt64 \<times> UInt64" where
  "rng_next state = (let state' = (RNG_A * state + RNG_C) AND RNG_M in (drop_bit 16 state', state'))"

definition rng_seed :: "UInt64 \<Rightarrow> UInt64" where
  "rng_seed seed = push_bit 16 seed + 0x330E"

subsection \<open>\<open>misc/modulo_num.cc\<close>\<close>

record modulo_num =
  m_value :: UInt32
  m_max_value :: UInt32

definition ModuloNum :: "UInt32 \<Rightarrow> UInt32 \<Rightarrow> modulo_num" where
  "ModuloNum max_value v = \<lparr>m_value = v, m_max_value = max_value\<rparr>"

definition umod :: "UInt32 \<Rightarrow> UInt32 \<Rightarrow> UInt32 result" where
  "umod a b = (if b = 0 then Inl (UNDEFINED ''division by zero'') else Inr (a mod b))"

definition modulo_add :: "modulo_num \<Rightarrow> modulo_num \<Rightarrow> modulo_num result" where
  "modulo_add a b =
     bindE (assertE (m_max_value a = m_max_value b) (ASSERT ''m_max_value == num.getMaxValue()''))
       (\<lambda>_. bindE (umod (m_value a + m_value b) (m_max_value a))
       (\<lambda>v. Inr ((ModuloNum (m_max_value a) 0)\<lparr>m_value := v\<rparr>)))"

definition modulo_sub :: "modulo_num \<Rightarrow> modulo_num \<Rightarrow> modulo_num result" where
  "modulo_sub a b =
     bindE (assertE (m_max_value a = m_max_value b) (ASSERT ''m_max_value == num.getMaxValue()''))
       (\<lambda>_. let new_num = ModuloNum (m_max_value a) 0 in
         if m_value b \<le> m_value a then Inr (new_num\<lparr>m_value := m_value a - m_value b\<rparr>)
         else Inr (new_num\<lparr>m_value := m_max_value a - m_value b + m_value a\<rparr>))"

definition modulo_add_value :: "modulo_num \<Rightarrow> UInt32 \<Rightarrow> modulo_num result" where
  "modulo_add_value a v =
     bindE (umod v (m_max_value a))
       (\<lambda>r. modulo_add a ((ModuloNum (m_max_value a) 0)\<lparr>m_value := r\<rparr>))"

definition modulo_sub_value :: "modulo_num \<Rightarrow> UInt32 \<Rightarrow> modulo_num result" where
  "modulo_sub_value a v =
     bindE (umod v (m_max_value a))
       (\<lambda>r. modulo_sub a ((ModuloNum (m_max_value a) 0)\<lparr>m_value := r\<rparr>))"

definition modulo_eq :: "modulo_num \<Rightarrow> modulo_num \<Rightarrow> bool" where
  "modulo_eq a b \<longleftrightarrow> m_value a = m_value b \<and> m_max_value a = m_max_value b"

definition modulo_neq :: "modulo_num \<Rightarrow> modulo_num \<Rightarrow> bool" where
  "modulo_neq a b \<longleftrightarrow> \<not> modulo_eq a b"

section \<open>Integer logarithms\<close>

lemma and_mask_zero_iff:
  fixes n :: "'a::len word"
  assumes "take_bit (k + j) n = n"
  shows "n AND push_bit k (mask j) = 0 \<longleftrightarrow> drop_bit k n = 0"
proof -
  have hi: "\<not> bit n (k + i)" if "j \<le> i" for i
  proof -
    have "\<not> bit (take_bit (k + j) n) (k + i)" using that by (simp add: bit_take_bit_iff)
    then show ?thesis by (simp add: assms)
  qed
  show ?thesis
  proof
    assume z: "n AND push_bit k (mask j) = 0"
    show "drop_bit k n = 0"
    proof (rule bit_eqI)
      fix i
      have "\<not> bit n (k + i)"
      proof (cases "j \<le> i")
        case False
        have "\<not> bit (n AND push_bit k (mask j)) (k + i)" by (simp add: z)
        then show ?thesis using False
          by (auto simp: bit_and_iff bit_push_bit_iff bit_mask_iff dest: bit_imp_le_length)
      qed (rule hi)
      then show "bit (drop_bit k n) i = bit 0 i" by (simp add: bit_drop_bit_eq)
    qed
  next
    assume z: "drop_bit k n = 0"
    show "n AND push_bit k (mask j) = 0"
    proof (rule bit_eqI)
      fix i
      have "\<not> bit (drop_bit k n) (i - k)" by (simp add: z)
      then show "bit (n AND push_bit k (mask j)) i = bit 0 i"
        by (auto simp: bit_and_iff bit_push_bit_iff bit_drop_bit_eq)
    qed
  qed
qed

lemma floorLog2_step_char:
  fixes n :: UInt32
  assumes "n \<noteq> 0" "unat n < 2 ^ (k + k)" "msk = push_bit k (mask k)"
      and "floorLog2_step msk k (p, n) = (p', n')"
  shows "n' \<noteq> 0 \<and> unat n' < 2 ^ k \<and> (\<exists>q. p' = p + int q \<and> unat n' = unat n div 2 ^ q)"
proof -
  have "unat (take_bit (k + k) n) = unat n"
    using assms(2) by (simp add: unsigned_take_bit_eq take_bit_nat_eq_self)
  then have "take_bit (k + k) n = n" by (simp only: word_unat_eq_iff)
  then have iff: "n AND msk = 0 \<longleftrightarrow> drop_bit k n = 0"
    using and_mask_zero_iff assms(3) by blast
  have zero: "drop_bit k n = 0 \<longleftrightarrow> unat n < 2 ^ k"
    by (metis unat_drop_bit div_eq_0_iff unat_eq_zero power_not_zero zero_neq_numeral)
  have div: "unat n div 2 ^ k < 2 ^ k"
    using assms(2) by (simp add: less_mult_imp_div_less power_add)
  show ?thesis
    using assms(1,4) iff zero div
    by (auto simp: floorLog2_step_def unat_drop_bit split: if_splits intro: exI [of _ k] exI [of _ 0])
qed

lemma floorLog2_bounds: 
  assumes "n \<noteq> 0"
  shows "0 \<le> floorLog2 n \<and> 2 ^ nat (floorLog2 n) \<le> unat n \<and> unat n < 2 ^ (nat (floorLog2 n) + 1)"
proof -
  obtain p1 n1 where s1: "floorLog2_step 0xffff0000 16 (0, n) = (p1, n1)" by fastforce
  have b: "unat n < 2 ^ (16 + 16)" using unsigned_less [of n, where ?'a=nat] by simp
  obtain q1 where 1: "n1 \<noteq> 0" "unat n1 < 2 ^ 16" "p1 = int q1" "unat n1 = unat n div 2 ^ q1"
    using floorLog2_step_char [OF assms b _ s1] by (auto simp: mask_eq_exp_minus_1)
  obtain p2 n2 where s2: "floorLog2_step 0xff00 8 (p1, n1) = (p2, n2)" by fastforce
  have b: "unat n1 < 2 ^ (8 + 8)" using 1 by simp
  obtain q2 where 2: "n2 \<noteq> 0" "unat n2 < 2 ^ 8" "p2 = p1 + int q2" "unat n2 = unat n1 div 2 ^ q2"
    using floorLog2_step_char [OF 1(1) b _ s2] by (auto simp: mask_eq_exp_minus_1)
  obtain p3 n3 where s3: "floorLog2_step 0xf0 4 (p2, n2) = (p3, n3)" by fastforce
  have b: "unat n2 < 2 ^ (4 + 4)" using 2 by simp
  obtain q3 where 3: "n3 \<noteq> 0" "unat n3 < 2 ^ 4" "p3 = p2 + int q3" "unat n3 = unat n2 div 2 ^ q3"
    using floorLog2_step_char [OF 2(1) b _ s3] by (auto simp: mask_eq_exp_minus_1)
  obtain p4 n4 where s4: "floorLog2_step 0xc 2 (p3, n3) = (p4, n4)" by fastforce
  have b: "unat n3 < 2 ^ (2 + 2)" using 3 by simp
  obtain q4 where 4: "n4 \<noteq> 0" "unat n4 < 2 ^ 2" "p4 = p3 + int q4" "unat n4 = unat n3 div 2 ^ q4"
    using floorLog2_step_char [OF 3(1) b _ s4] by (auto simp: mask_eq_exp_minus_1)
  define q where "q = q1 + q2 + q3 + q4"
  have n4: "unat n4 = unat n div 2 ^ q" and p4: "p4 = int q"
    using 1 2 3 4 by (simp_all add: q_def div_mult2_eq power_add)
  have last: "floorLog2 n = (if n4 AND 2 \<noteq> 0 then int q + 1 else int q)"
    using assms p4 by (simp add: floorLog2_def s1 s2 s3 s4 Let_def)
  have "unat n4 \<noteq> 0" using 4(1) by (simp add: unat_eq_zero)
  then have two: "unat n4 = 1 \<or> unat n4 = 2 \<or> unat n4 = 3" using 4(2) by simp linarith
  have nb: "2 ^ q * unat n4 \<le> unat n \<and> unat n < 2 ^ q * (unat n4 + 1)"
    using n4 by (metis add.commute dividend_less_times_div mult.commute mult_Suc_right plus_1_eq_Suc times_div_less_eq_dividend zero_less_numeral zero_less_power)
  have n4v: "n4 = 1 \<or> n4 = 2 \<or> n4 = 3"
    using two by (simp add: word_unat_eq_iff)
  show ?thesis
    using n4v last nb by (auto simp: nat_add_distrib)
qed

section \<open>Counting bits\<close>

lemma bits_double: "{i. bit (2 * m :: nat) i} = Suc ` {i. bit m i}"
  by (auto simp: bit_double_iff image_iff intro: gr0_implies_Suc) (metis Suc_pred bit_0 not_gr_zero)

lemma bits_odd: "{i. bit (2 * m + 1 :: nat) i} = insert 0 (Suc ` {i. bit m i})"
proof -
  have "bit (2 * m + 1) i \<longleftrightarrow> i = 0 \<or> (\<exists>k. i = Suc k \<and> bit m k)" for i
    by (cases i) (auto simp: bit_0 bit_Suc)
  then show ?thesis by auto
qed

lemma finite_bits_nat: "finite {i. bit (n::nat) i}"
proof (induction n rule: less_induct)
  case (less n)
  show ?case
  proof (cases "n = 0")
    case False
    then have fin: "finite {i. bit (n div 2) i}" by (intro less.IH) simp
    have "n = 2 * (n div 2) \<or> n = 2 * (n div 2) + 1" by presburger
    then have "{i. bit n i} = Suc ` {i. bit (n div 2) i} \<or> {i. bit n i} = insert 0 (Suc ` {i. bit (n div 2) i})"
      by (metis bits_double bits_odd)
    then show ?thesis using fin by auto
  qed simp
qed

lemma card_bits_double: "card {i. bit (2 * m :: nat) i} = card {i. bit m i}"
  by (simp add: bits_double card_image)

lemma card_bits_odd: "card {i. bit (2 * m + 1 :: nat) i} = Suc (card {i. bit m i})"
  unfolding bits_odd by (subst card_insert_disjoint) (auto simp: card_image finite_bits_nat)

lemma clear_lowest_double: "0 < m \<Longrightarrow> (2 * m) AND (2 * m - 1) = 2 * (m AND (m - 1 :: nat))"
proof -
  assume "0 < m"
  then have "2 * m - 1 = 2 * (m - 1) + 1" by simp
  then show ?thesis by (subst and_rec) simp
qed

lemma clear_lowest_odd: "(2 * m + 1) AND (2 * m) = (2 * m :: nat)"
  by (subst and_rec) simp

lemma card_bits_clear_lowest: "0 < n \<Longrightarrow> card {i. bit (n::nat) i} = Suc (card {i. bit (n AND (n - 1)) i})"
proof (induction n rule: less_induct)
  case (less n)
  show ?case
  proof (cases "even n")
    case True
    then obtain m where m: "n = 2 * m" by (rule evenE)
    then have "0 < m" and "m < n" using less.prems by auto
    then show ?thesis using less.IH [of m] m by (simp only: card_bits_double clear_lowest_double)
  next
    case False
    then obtain m where m: "n = 2 * m + 1" by (rule oddE)
    then show ?thesis by (simp only: card_bits_odd add_diff_cancel_right' clear_lowest_odd card_bits_double)
  qed
qed

lemma bits_unat: "{i. bit (w::'a::len word) i} = {i. bit (unat w) i}"
  by (auto simp: bit_unsigned_iff dest: bit_imp_le_length)

lemma unat_clear_lowest: "w \<noteq> 0 \<Longrightarrow> unat (w AND (w - 1)) = unat w AND (unat (w::'a::len word) - 1)"
  by (simp add: unsigned_and_eq unat_minus_one)

lemma card_bits_word_clear_lowest:
  "w \<noteq> 0 \<Longrightarrow> card {i. bit (w::'a::len word) i} = Suc (card {i. bit (w AND (w - 1)) i})"
  using card_bits_clear_lowest [of "unat w"] by (simp add: bits_unat unat_clear_lowest unat_gt_0)

lemma countBits_loop_eq: "n \<noteq> 0 \<Longrightarrow> countBits_loop n r + 1 = r + of_nat (card {i. bit n i})"
proof (induction n r rule: countBits_loop.induct)
  case (1 n r)
  show ?case
  proof (cases "n AND (n - 1) = 0")
    case True
    then have "card {i. bit n i} = 1" using card_bits_word_clear_lowest [OF "1.prems"] by simp
    then show ?thesis using True by (simp add: countBits_loop.simps [of n])
  next
    case False
    have "countBits_loop n r + 1 = countBits_loop (n AND (n - 1)) (r + 1) + 1"
      using False "1.prems" by (simp add: countBits_loop.simps [of n])
    also have "\<dots> = r + 1 + of_nat (card {i. bit (n AND (n - 1)) i})"
      using "1.IH" False "1.prems" by simp
    finally show ?thesis using card_bits_word_clear_lowest [OF "1.prems"] by simp
  qed
qed

lemma isPower2_iff: "isPower2 n \<longleftrightarrow> n = 0 \<or> (\<exists>k<32. n = 2 ^ k)"
proof (cases "n = 0")
  case True
  then show ?thesis by (simp add: isPower2_def)
next
  case False
  note c = card_bits_word_clear_lowest [OF False]
  have fin: "finite {i. bit (n AND (n - 1)) i}" by (simp add: bits_unat finite_bits_nat)
  have "isPower2 n \<longleftrightarrow> {i. bit (n AND (n - 1)) i} = {}"
    by (auto simp: isPower2_def intro: bit_eqI)
  also have "\<dots> \<longleftrightarrow> card {i. bit n i} = 1" using c fin by simp
  also have "\<dots> \<longleftrightarrow> (\<exists>k. {i. bit n i} = {k})" by (simp add: card_1_singleton_iff)
  also have "\<dots> \<longleftrightarrow> (\<exists>k<32. n = 2 ^ k)"
  proof
    assume "\<exists>k. {i. bit n i} = {k}"
    then obtain k where k: "{i. bit n i} = {k}" ..
    then have "bit n k" by auto
    then have lt: "k < 32" using bit_imp_le_length by fastforce
    have "n = 2 ^ k"
      using k lt by (intro bit_word_eqI) (auto simp: bit_exp_iff)
    then show "\<exists>k<32. n = 2 ^ k" using lt by blast
  next
    assume "\<exists>k<32. n = 2 ^ k"
    then show "\<exists>k. {i. bit n i} = {k}" by (auto simp: bit_exp_iff)
  qed
  finally show ?thesis using False by simp
qed

section \<open>Bounds\<close>

lemma floorLog2_zero [simp]: "floorLog2 0 = - 1"
  by (simp add: floorLog2_def)

lemma floorLog2_nonneg: "n \<noteq> 0 \<Longrightarrow> 0 \<le> floorLog2 n"
  using floorLog2_bounds by blast

lemma floorLog2_less_32: "floorLog2 n < 32"
proof (cases "n = 0")
  case True
  then show ?thesis by (simp add: floorLog2_def)
next
  case False
  then have "2 ^ nat (floorLog2 n) \<le> unat n" using floorLog2_bounds by blast
  also have "unat n < 2 ^ 32" using unsigned_less [of n, where ?'a=nat] by simp
  finally have "nat (floorLog2 n) < 32" by (rule power_less_imp_less_exp [rotated]) simp
  then show ?thesis by simp
qed

lemma unat_exp:
  assumes "k < LENGTH('a)"
  shows "unat (2 ^ k :: 'a::len word) = 2 ^ k"
proof -
  have "unat (of_nat (2 ^ k) :: 'a word) = 2 ^ k mod 2 ^ LENGTH('a)"
    by (simp only: unat_of_nat)
  then show ?thesis using assms by simp
qed

lemma floorLog2_exp:
  assumes "k < 32"
  shows "floorLog2 (2 ^ k) = int k"
proof -
  have n: "unat (2 ^ k :: UInt32) = 2 ^ k"
    using assms by (intro unat_exp) simp
  have nz: "(2 ^ k :: UInt32) \<noteq> 0" using assms by simp
  from floorLog2_bounds [OF nz] n
  have "(2::nat) ^ nat (floorLog2 (2 ^ k)) \<le> 2 ^ k" and "(2::nat) ^ k < 2 ^ (nat (floorLog2 (2 ^ k)) + 1)"
    by simp_all
  then have "nat (floorLog2 (2 ^ k)) = k"
    by (metis One_nat_def Suc_1 add.commute less_Suc_eq_le order_antisym plus_1_eq_Suc power_increasing_iff
        power_strict_increasing_iff lessI)
  then show ?thesis using floorLog2_nonneg [OF nz] by simp
qed

lemma rng_next_bound: "fst (rng_next s) < 2 ^ 32"
proof -
  have "unat ((RNG_A * s + RNG_C) AND RNG_M) \<le> unat (RNG_M :: UInt64)"
    by (rule word_le_nat_alt [THEN iffD1]) (rule word_and_le1)
  then have "unat (drop_bit 16 ((RNG_A * s + RNG_C) AND RNG_M)) < 2 ^ 32"
    by (subst unat_drop_bit) simp
  then show ?thesis by (simp add: rng_next_def Let_def word_less_nat_alt)
qed

section \<open>The modular counter\<close>

definition modulo_wf :: "modulo_num \<Rightarrow> bool" where
  "modulo_wf a \<longleftrightarrow> m_value a < m_max_value a \<and> m_max_value a \<le> 2 ^ 31"


lemma modulo_wf_max: "modulo_wf a \<Longrightarrow> m_max_value a \<noteq> 0"
  by (auto simp: modulo_wf_def)

lemma modulo_add_val:
  assumes "modulo_wf a" and "modulo_wf b" and "m_max_value a = m_max_value b"
  shows "\<exists>c. modulo_add a b = Inr c \<and> modulo_wf c \<and> m_max_value c = m_max_value a \<and>
    unat (m_value c) = (unat (m_value a) + unat (m_value b)) mod unat (m_max_value a)"
proof -
  have lt: "unat (m_value a) < unat (m_max_value a)" "unat (m_value b) < unat (m_max_value a)"
      "unat (m_max_value a) \<le> 2 ^ 31"
    using assms by (auto simp: modulo_wf_def word_less_nat_alt word_le_nat_alt)
  then have s: "unat (m_value a + m_value b) = unat (m_value a) + unat (m_value b)"
    by (intro unat_add_lem [THEN iffD1]) simp
  show ?thesis
    using assms modulo_wf_max [OF assms(1)] lt s
    by (auto simp: modulo_add_def umod_def ModuloNum_def modulo_wf_def unat_mod word_less_nat_alt unat_gt_0)
qed

lemma modulo_sub_val:
  assumes "modulo_wf a" and "modulo_wf b" and "m_max_value a = m_max_value b"
  shows "\<exists>c. modulo_sub a b = Inr c \<and> modulo_wf c \<and> m_max_value c = m_max_value a \<and>
    unat (m_value c) = (unat (m_value a) + (unat (m_max_value a) - unat (m_value b))) mod unat (m_max_value a)"
proof -
  have lt: "unat (m_value a) < unat (m_max_value a)" "unat (m_value b) < unat (m_max_value a)"
      "unat (m_max_value a) \<le> 2 ^ 31"
    using assms by (auto simp: modulo_wf_def word_less_nat_alt word_le_nat_alt)
  have le: "m_value b \<le> m_max_value a" using lt(2) by (simp add: word_le_nat_alt)
  show ?thesis
  proof (cases "m_value b \<le> m_value a")
    case True
    then have u: "unat (m_value a - m_value b) = unat (m_value a) - unat (m_value b)"
        and ab: "unat (m_value b) \<le> unat (m_value a)"
      by (simp_all add: unat_sub word_le_nat_alt)
    have "(unat (m_value a) + (unat (m_max_value a) - unat (m_value b))) =
        (unat (m_value a) - unat (m_value b)) + unat (m_max_value a)"
      using ab lt(2) by simp
    then have "unat (m_value a - m_value b) =
        (unat (m_value a) + (unat (m_max_value a) - unat (m_value b))) mod unat (m_max_value a)"
      using u lt(1) by (metis less_imp_diff_less mod_add_self2 mod_less)
    then show ?thesis
      using True assms lt u by (auto simp: modulo_sub_def ModuloNum_def modulo_wf_def word_less_nat_alt)
  next
    case False
    then have ab: "unat (m_value a) < unat (m_value b)" by (simp add: word_le_nat_alt)
    have u1: "unat (m_max_value a - m_value b) = unat (m_max_value a) - unat (m_value b)"
      using le by (rule unat_sub)
    have u: "unat (m_max_value a - m_value b + m_value a) =
        unat (m_max_value a) - unat (m_value b) + unat (m_value a)"
      unfolding u1 [symmetric] using lt ab u1 by (intro unat_add_lem [THEN iffD1]) simp
    then have "unat (m_max_value a - m_value b + m_value a) =
        (unat (m_value a) + (unat (m_max_value a) - unat (m_value b))) mod unat (m_max_value a)"
      using ab lt(2) by simp
    then show ?thesis
      using False assms u ab lt by (auto simp: modulo_sub_def ModuloNum_def modulo_wf_def word_less_nat_alt)
  qed
qed

lemma modulo_wf_value:
  assumes "modulo_wf a"
  shows "modulo_wf ((ModuloNum (m_max_value a) 0)\<lparr>m_value := v mod m_max_value a\<rparr>)"
  using assms modulo_wf_max [OF assms] by (simp add: modulo_wf_def ModuloNum_def word_mod_less_divisor word_neq_0_conv)

lemma modulo_num_eqI: "unat (m_value a) = unat (m_value b) \<Longrightarrow> m_max_value a = m_max_value b \<Longrightarrow> a = (b::modulo_num)"
  by (simp add: word_unat_eq_iff)

text \<open>
  \<^verbatim>\<open>floorLog2\<close> is the position of the highest set bit: for every non-zero
  32-bit \<open>n\<close> the result \<open>p\<close> satisfies \<open>0 \<le> p < 32\<close> and \<open>2 ^ p \<le> n < 2 ^ (p + 1)\<close>, and it
  is \<open>-1\<close> for 0.
\<close>

theorem floorLog2_correct:
  "floorLog2 0 = - 1 \<and>
   (n \<noteq> 0 \<longrightarrow> 0 \<le> floorLog2 n \<and> floorLog2 n < 32 \<and>
      2 ^ nat (floorLog2 n) \<le> unat n \<and> unat n < 2 ^ (nat (floorLog2 n) + 1))"
  using floorLog2_bounds [of n] floorLog2_less_32 [of n] by simp

theorem floorLog2_correct_witness:
  "(1000 :: UInt32) \<noteq> 0 \<and> 2 ^ nat (floorLog2 1000) \<le> unat (1000 :: UInt32) \<and>
   unat (1000 :: UInt32) < 2 ^ (nat (floorLog2 1000) + 1)"
  using floorLog2_correct [of 1000] by simp

text \<open>
  \<^verbatim>\<open>countBits\<close> terminates and returns the number of set bits of its 64-bit argument.
\<close>

theorem countBits_correct: "countBits n = of_nat (card {i. bit n i})"
  using countBits_loop_eq [of n 1] by (simp add: countBits_def)

text \<open>
  Adding a 32-bit amount to a window pointer and subtracting it again gives the pointer
  back, as long as the modulus is at most \<open>2 ^ 31\<close>; neither operation stops the simulator.
\<close>

theorem modulo_add_sub_roundtrip:
  assumes "modulo_wf a"
  shows "\<exists>c. modulo_add_value a v = Inr c \<and> modulo_wf c \<and> modulo_sub_value c v = Inr a"
proof -
  let ?n = "(ModuloNum (m_max_value a) 0)\<lparr>m_value := v mod m_max_value a\<rparr>"
  have n: "modulo_wf ?n" "m_max_value ?n = m_max_value a"
    using modulo_wf_value [OF assms] by (simp_all add: ModuloNum_def)
  obtain c where c: "modulo_add a ?n = Inr c" "modulo_wf c" "m_max_value c = m_max_value a"
      "unat (m_value c) = (unat (m_value a) + unat (m_value ?n)) mod unat (m_max_value a)"
    using modulo_add_val [OF assms n(1)] n(2) by auto
  obtain d where d: "modulo_sub c ?n = Inr d" "m_max_value d = m_max_value c"
      "unat (m_value d) = (unat (m_value c) + (unat (m_max_value c) - unat (m_value ?n))) mod unat (m_max_value c)"
    using modulo_sub_val [OF c(2) n(1)] n(2) c(3) by auto
  have lt: "unat (m_value ?n) < unat (m_max_value a)" "unat (m_value a) < unat (m_max_value a)"
    using n assms by (auto simp: modulo_wf_def word_less_nat_alt)
  have "unat (m_value d) = unat (m_value a)"
    using d(3) c(3,4) lt by (simp add: mod_add_left_eq)
  then have "d = a" using d(2) c(3) by (intro modulo_num_eqI) auto
  moreover have "modulo_add_value a v = Inr c" "modulo_sub_value c v = Inr d"
    using modulo_wf_max [OF assms] c d(1) by (simp_all add: modulo_add_value_def modulo_sub_value_def umod_def)
  ultimately show ?thesis using c(2) by blast
qed

theorem modulo_add_sub_roundtrip_witness:
  "modulo_wf (ModuloNum 65 63) \<and>
   (\<exists>c. modulo_add_value (ModuloNum 65 63) 200 = Inr c \<and> modulo_wf c \<and>
        modulo_sub_value c 200 = Inr (ModuloNum 65 63))"
proof -
  have h: "modulo_wf (ModuloNum 65 63)" by (simp add: modulo_wf_def ModuloNum_def)
  show ?thesis using h modulo_add_sub_roundtrip [OF h, of 200] by blast
qed

end
