(* ===== verification/Cache_Base.thy ===== *)
theory Cache_Base
  imports Bit_Utils
begin

unbundle bit_operations_syntax

text \<open>
  Address arithmetic of the memory subsystem: the home lookup of
  \<^verbatim>\<open>address_home_lookup.cc\<close> (which module an address belongs to, and its dense address
  inside that module) and the tag / set-index split of \<^verbatim>\<open>cache/cache_base.cc\<close>.
  Shift amounts (the \<^verbatim>\<open>m_log_*\<close> and \<^verbatim>\<open>m_ahl_param\<close> fields) are natural numbers; a shift
  the language leaves undefined is the error \<open>UNDEFINED\<close>.
\<close>

section \<open>Address home lookup\<close>

record address_home_lookup =
  m_ahl_param :: nat
  m_ahl_mask :: UInt64
  m_core_list :: "core_id_t list"
  m_total_modules :: UInt32
  ahl_cache_block_size :: UInt32

definition AddressHomeLookup :: "nat \<Rightarrow> core_id_t list \<Rightarrow> UInt32 \<Rightarrow> address_home_lookup result" where
  "AddressHomeLookup ahl_param core_list cache_block_size =
     (if 31 \<le> ahl_param then Inl (UNDEFINED ''shift'')
      else bindE (assertE (sint cache_block_size \<le> 2 ^ ahl_param)
                   (LOG_ASSERT_ERROR ''2^AHL param must be >= Cache Block Size''))
        (\<lambda>_. Inr \<lparr>m_ahl_param = ahl_param, m_ahl_mask = push_bit ahl_param 1 - 1,
                 m_core_list = core_list, m_total_modules = of_nat (length core_list),
                 ahl_cache_block_size = cache_block_size\<rparr>))"

definition ahl_module :: "address_home_lookup \<Rightarrow> IntPtr \<Rightarrow> nat" where
  "ahl_module l address = unat (drop_bit (m_ahl_param l) address mod ucast (m_total_modules l))"

definition getHome :: "address_home_lookup \<Rightarrow> IntPtr \<Rightarrow> core_id_t result" where
  "getHome l address =
     (if m_total_modules l = 0 then Inl (UNDEFINED ''division by zero'')
      else
        let module_num = ahl_module l address in
        bindE (assertE (module_num < unat (m_total_modules l)) (LOG_ASSERT_ERROR ''module_num''))
          (\<lambda>_. Inr (m_core_list l ! module_num)))"

definition getLinearBlock :: "address_home_lookup \<Rightarrow> IntPtr \<Rightarrow> IntPtr" where
  "getLinearBlock l address = drop_bit (m_ahl_param l) address div ucast (m_total_modules l)"

definition getLinearAddress :: "address_home_lookup \<Rightarrow> IntPtr \<Rightarrow> IntPtr" where
  "getLinearAddress l address =
     push_bit (m_ahl_param l) (getLinearBlock l address) OR (address AND m_ahl_mask l)"

section \<open>Cache geometry and address split\<close>

datatype hash_t =
    INVALID_HASH_TYPE
  | HASH_MASK
  | HASH_MOD
  | HASH_RNG1_MOD
  | HASH_RNG2_MOD
  | HASH_PRIME_DIS
  | HASH_XOR_MOD
  | HASH_MER_MOD

datatype access_t = INVALID_ACCESS_TYPE | LOAD | STORE

datatype cache_t = INVALID_CACHE_TYPE | PR_L1_CACHE | PR_L2_CACHE | SHARED_CACHE

record cache_base =
  m_name :: string
  m_cache_size :: UInt64
  cb_associativity :: UInt32
  cb_blocksize :: UInt32
  m_hash :: hash_t
  m_num_sets :: UInt32
  m_ahl :: "address_home_lookup option"
  m_log_blocksize :: nat
  m_log_num_sets :: nat
  m_log_num_blocks :: nat
  block_mask :: IntPtr
  set_mask :: IntPtr

definition CacheBase ::
  "string \<Rightarrow> UInt32 \<Rightarrow> UInt32 \<Rightarrow> UInt32 \<Rightarrow> hash_t \<Rightarrow> address_home_lookup option \<Rightarrow> cache_base result" where
  "CacheBase name num_sets associativity cache_block_size hash ahl =
     (let cache_size = ucast num_sets * ucast associativity * ucast cache_block_size :: UInt64;
          log_blocksize = floorLog2 cache_block_size;
          log_num_sets = floorLog2 num_sets
      in if cache_block_size = 0 then Inl (UNDEFINED ''division by zero'')
         else
           let log_num_blocks = floorLog2 (ucast (cache_size div ucast cache_block_size)) in
           if log_num_blocks < 0 \<or> 31 \<le> log_num_blocks \<or> log_num_sets < 0 \<or> 31 \<le> log_num_sets
           then Inl (UNDEFINED ''shift'')
           else bindE (assertE (unat num_sets = 2 ^ nat (floorLog2 num_sets) \<or> hash \<noteq> HASH_MASK)
                        (LOG_ASSERT_ERROR ''Caches of non-power of 2 size need funky hash function''))
             (\<lambda>_. Inr \<lparr>m_name = name, m_cache_size = cache_size, cb_associativity = associativity,
                      cb_blocksize = cache_block_size, m_hash = hash, m_num_sets = num_sets,
                      m_ahl = ahl, m_log_blocksize = nat log_blocksize,
                      m_log_num_sets = nat log_num_sets, m_log_num_blocks = nat log_num_blocks,
                      block_mask = push_bit (nat log_num_blocks) 1 - 1,
                      set_mask = push_bit (nat log_num_sets) 1 - 1\<rparr>))"

definition parseAddressHash :: "string \<Rightarrow> hash_t result" where
  "parseAddressHash hash_name =
     (if hash_name = ''mask'' then Inr HASH_MASK
      else if hash_name = ''mod'' then Inr HASH_MOD
      else if hash_name = ''rng1_mod'' then Inr HASH_RNG1_MOD
      else if hash_name = ''rng2_mod'' then Inr HASH_RNG2_MOD
      else if hash_name = ''prime_dis'' then Inr HASH_PRIME_DIS
      else if hash_name = ''xor_mod'' then Inr HASH_XOR_MOD
      else if hash_name = ''mersenne_mod'' then Inr HASH_MER_MOD
      else Inl (LOG_PRINT_ERROR ''Invalid address hash function''))"

definition umod64 :: "UInt64 \<Rightarrow> UInt32 \<Rightarrow> UInt64 result" where
  "umod64 a n = (if n = 0 then Inl (UNDEFINED ''division by zero'') else Inr (a mod ucast n))"

definition set_index_of_block :: "cache_base \<Rightarrow> UInt64 \<Rightarrow> UInt32 result" where
  "set_index_of_block c block_num =
     (case m_hash c of
        HASH_MASK \<Rightarrow> Inr (ucast (block_num AND ucast (m_num_sets c - 1)))
      | HASH_MOD \<Rightarrow> bindE (umod64 block_num (m_num_sets c)) (\<lambda>r. Inr (ucast r))
      | HASH_RNG1_MOD \<Rightarrow>
          bindE (umod64 (fst (rng_next (rng_seed block_num))) (m_num_sets c)) (\<lambda>r. Inr (ucast r))
      | HASH_RNG2_MOD \<Rightarrow>
          bindE (umod64 (fst (rng_next (snd (rng_next (rng_seed block_num))))) (m_num_sets c))
            (\<lambda>r. Inr (ucast r))
      | HASH_PRIME_DIS \<Rightarrow>
          bindE (umod64 block_num (m_num_sets c)) (\<lambda>si.
            let Ti = drop_bit (m_log_num_sets c) block_num; rho = 3
            in bindE (umod64 (rho * Ti + si) (m_num_sets c)) (\<lambda>r. Inr (ucast r)))
      | HASH_XOR_MOD \<Rightarrow>
          bindE (umod64 block_num (m_num_sets c)) (\<lambda>si.
          bindE (umod64 (drop_bit (m_log_num_sets c) block_num) (m_num_sets c)) (\<lambda>ti.
            Inr (ucast (si XOR ti))))
      | HASH_MER_MOD \<Rightarrow> bindE (umod64 block_num (m_num_sets c - 1)) (\<lambda>r. Inr (ucast r))
      | INVALID_HASH_TYPE \<Rightarrow> Inl (LOG_PRINT_ERROR ''Invalid hash function''))"

definition block_num_of :: "cache_base \<Rightarrow> IntPtr \<Rightarrow> UInt64" where
  "block_num_of c addr =
     drop_bit (m_log_blocksize c)
       (case m_ahl c of Some l \<Rightarrow> getLinearAddress l addr | None \<Rightarrow> addr)"

definition splitAddress :: "cache_base \<Rightarrow> IntPtr \<Rightarrow> (IntPtr \<times> UInt32) result" where
  "splitAddress c addr =
     (let tag = drop_bit (m_log_blocksize c) addr
      in bindE (set_index_of_block c (block_num_of c addr)) (\<lambda>set_index. Inr (tag, set_index)))"

definition splitAddress_offset :: "cache_base \<Rightarrow> IntPtr \<Rightarrow> (IntPtr \<times> UInt32 \<times> UInt32) result" where
  "splitAddress_offset c addr =
     (let block_offset = ucast (addr AND ucast (cb_blocksize c - 1))
      in bindE (splitAddress c addr) (\<lambda>(tag, set_index). Inr (tag, set_index, block_offset)))"

definition tagToAddress :: "cache_base \<Rightarrow> IntPtr \<Rightarrow> IntPtr" where
  "tagToAddress c tag = push_bit (m_log_blocksize c) tag"

section \<open>Lemmas on the address arithmetic\<close>

lemma bit_exp_minus_1: "k < 64 \<Longrightarrow> bit (2 ^ k - 1 :: 64 word) i \<longleftrightarrow> i < k"
  using bit_mask_iff [of k i, where ?'a = "64 word"] by (auto simp: mask_eq_exp_minus_1)

definition ahl_wf :: "address_home_lookup \<Rightarrow> bool" where
  "ahl_wf l \<longleftrightarrow> m_ahl_param l < 31 \<and> m_ahl_mask l = push_bit (m_ahl_param l) 1 - 1 \<and>
     m_total_modules l = of_nat (length (m_core_list l)) \<and>
     0 < length (m_core_list l) \<and> length (m_core_list l) < 2 ^ 31"

lemma ahl_wf_modules: "ahl_wf l \<Longrightarrow> unat (m_total_modules l) = length (m_core_list l)"
  by (simp add: ahl_wf_def unat_of_nat)

lemma AddressHomeLookup_wf:
  assumes "AddressHomeLookup p cores bs = Inr l" and "cores \<noteq> []" and "length cores < 2 ^ 31"
  shows "ahl_wf l"
  using assms by (auto simp: AddressHomeLookup_def ahl_wf_def split: if_splits)

lemma linear_parts:
  assumes "ahl_wf l"
  shows "drop_bit (m_ahl_param l) (getLinearAddress l a) = getLinearBlock l a"
    and "getLinearAddress l a AND m_ahl_mask l = a AND m_ahl_mask l"
proof -
  let ?p = "m_ahl_param l"
  have p: "?p < 64" using assms by (simp add: ahl_wf_def)
  have m: "bit (m_ahl_mask l) i \<longleftrightarrow> i < ?p" for i using assms p by (simp add: ahl_wf_def bit_exp_minus_1)
  have "unat (getLinearBlock l a) \<le> unat (drop_bit ?p a)"
    by (simp add: getLinearBlock_def unat_div)
  also have "\<dots> < 2 ^ (64 - ?p)" 
  proof -
    have "unat a < 2 ^ (64 - ?p) * 2 ^ ?p" using p unsigned_less [of a, where ?'a=nat] by (simp flip: power_add)
    then show ?thesis by (simp add: unat_drop_bit less_mult_imp_div_less)
  qed
  finally have lb: "unat (getLinearBlock l a) < 2 ^ (64 - ?p)" .
  have hi: "\<not> bit (getLinearBlock l a) i" if "64 - ?p \<le> i" for i
  proof -
    have "take_bit (64 - ?p) (unat (getLinearBlock l a)) = unat (getLinearBlock l a)"
      using lb by (rule take_bit_nat_eq_self)
    then have "\<not> bit (unat (getLinearBlock l a)) i" using that by (metis bit_take_bit_iff leD)
    then show ?thesis by (auto simp: bit_unsigned_iff dest: bit_imp_le_length)
  qed
  show "drop_bit ?p (getLinearAddress l a) = getLinearBlock l a"
  proof (rule bit_word_eqI)
    fix i assume "i < LENGTH(64)"
    show "bit (drop_bit ?p (getLinearAddress l a)) i = bit (getLinearBlock l a) i"
      using hi [of i] p
      by (cases "64 - ?p \<le> i")
        (auto simp add: getLinearAddress_def bit_drop_bit_eq bit_or_iff bit_and_iff bit_push_bit_iff m)
  qed
  show "getLinearAddress l a AND m_ahl_mask l = a AND m_ahl_mask l"
    by (rule bit_word_eqI) (auto simp: getLinearAddress_def bit_or_iff bit_and_iff bit_push_bit_iff m)
qed

lemma word_split_eqI:
  fixes a b :: "64 word"
  assumes "drop_bit p a = drop_bit p b" "a AND m = b AND m" "\<And>i. bit m i \<longleftrightarrow> i < p"
  shows "a = b"
proof (rule bit_word_eqI)
  fix i
  have "bit a i = bit b i" if "i < p" using arg_cong [OF assms(2), of "\<lambda>x. bit x i"] that by (simp add: bit_and_iff assms(3))
  moreover have "bit a i = bit b i" if "\<not> i < p"
    using arg_cong [OF assms(1), of "\<lambda>x. bit x (i - p)"] that by (simp add: bit_drop_bit_eq)
  ultimately show "bit a i = bit b i" by blast
qed

lemma linear_address_inj:
  assumes "ahl_wf l" "ahl_module l a = ahl_module l b" "getLinearAddress l a = getLinearAddress l b"
  shows "a = b"
proof -
  let ?p = "m_ahl_param l" and ?n = "ucast (m_total_modules l) :: 64 word"
  have "getLinearBlock l a = getLinearBlock l b" using assms linear_parts(1) by metis
  moreover have "drop_bit ?p a mod ?n = drop_bit ?p b mod ?n"
    using assms(2) by (simp add: ahl_module_def word_unat_eq_iff)
  ultimately have "drop_bit ?p a = drop_bit ?p b"
    unfolding getLinearBlock_def by (metis div_mult_mod_eq)
  moreover have "a AND m_ahl_mask l = b AND m_ahl_mask l" using assms linear_parts(2) by metis
  moreover have "\<And>i. bit (m_ahl_mask l) i \<longleftrightarrow> i < ?p" using assms(1) by (simp add: ahl_wf_def bit_exp_minus_1)
  ultimately show ?thesis by (rule word_split_eqI)
qed

lemma ucast_eq_0_iff: "(ucast (n::UInt32) :: 64 word) = 0 \<longleftrightarrow> n = 0"
  by (simp add: word_unat_eq_iff)

lemma umod64_Inr: "umod64 a n = Inr r \<Longrightarrow> unat r < unat n"
proof -
  assume r: "umod64 a n = Inr r"
  then have "r = a mod ucast n" "n \<noteq> 0" by (auto simp: umod64_def split: if_splits)
  moreover have "unat (ucast n :: 64 word) = unat n" by simp
  ultimately show ?thesis using unat_mod_lt [of "ucast n :: 64 word" a] by (simp add: ucast_eq_0_iff)
qed

lemma ucast_lessI: "unat (r::64 word) < unat (n::UInt32) \<Longrightarrow> ucast r < n"
proof -
  assume lt: "unat r < unat n"
  also have "unat n < 2 ^ 32" using unsigned_less [of n, where ?'a=nat] by simp
  finally show ?thesis using lt by (simp add: word_less_nat_alt unsigned_ucast_eq take_bit_nat_eq_self)
qed

lemma ucast_umod64: "umod64 a n = Inr r \<Longrightarrow> ucast r < n"
  by (blast intro: ucast_lessI umod64_Inr)

lemma exp_power2: "unat (n::UInt32) = 2 ^ k \<Longrightarrow> k < 32 \<Longrightarrow> n = 2 ^ k"
  by (simp add: word_unat_eq_iff unat_exp)

definition cb_wf :: "cache_base \<Rightarrow> bool" where
  "cb_wf c \<longleftrightarrow> m_num_sets c \<noteq> 0 \<and> cb_blocksize c \<noteq> 0 \<and>
     m_log_blocksize c = nat (floorLog2 (cb_blocksize c)) \<and>
     m_log_num_sets c = nat (floorLog2 (m_num_sets c)) \<and>
     (m_hash c = HASH_MASK \<longrightarrow> unat (m_num_sets c) = 2 ^ m_log_num_sets c)"

lemma CacheBase_wf:
  assumes "CacheBase name ns assoc bs h ahl = Inr c"
  shows "cb_wf c"
  using assms by (auto simp: CacheBase_def cb_wf_def Let_def split: if_splits)

lemma mask_index:
  assumes "unat (n::UInt32) = 2 ^ k" "k < 32"
  shows "ucast (b AND ucast (n - 1) :: 64 word) < n"
proof (rule ucast_lessI)
  have nz: "n \<noteq> 0" using assms by auto
  have "unat (b AND ucast (n - 1)) \<le> unat (ucast (n - 1) :: 64 word)"
    by (rule word_le_nat_alt [THEN iffD1]) (rule word_and_le1)
  also have "\<dots> = unat n - 1" using nz by (simp add: unat_minus_one)
  finally show "unat (b AND ucast (n - 1) :: 64 word) < unat n" using nz unat_gt_0 [of n] by linarith
qed

lemma xor_index:
  assumes "unat (n::UInt32) = 2 ^ k" "unat (a::64 word) < unat n" "unat b < unat n"
  shows "ucast (a XOR b) < n"
proof (rule ucast_lessI)
  have "take_bit k (unat a) = unat a" "take_bit k (unat b) = unat b"
    using assms by (simp_all add: take_bit_nat_eq_self)
  then have "take_bit k (unat a XOR unat b) = unat a XOR unat b" by (simp add: take_bit_xor)
  then have "unat a XOR unat b < 2 ^ k" by (metis take_bit_nat_less_exp)
  then show "unat (a XOR b) < unat n" using assms(1) by (simp add: unsigned_xor_eq)
qed

definition hash_safe :: "cache_base \<Rightarrow> bool" where
  "hash_safe c \<longleftrightarrow> (m_hash c = HASH_XOR_MOD \<longrightarrow> (\<exists>k<32. unat (m_num_sets c) = 2 ^ k))"

lemma set_index_in_range:
  assumes "cb_wf c" "hash_safe c" "set_index_of_block c b = Inr s"
  shows "s < m_num_sets c"
proof (cases "m_hash c")
  case HASH_MASK
  have "m_log_num_sets c < 32" using assms(1) floorLog2_less_32 [of "m_num_sets c"] by (simp add: cb_wf_def)
  then show ?thesis using assms HASH_MASK mask_index by (auto simp: set_index_of_block_def cb_wf_def)
next
  case HASH_XOR_MOD
  then show ?thesis using assms by (auto simp: set_index_of_block_def hash_safe_def dest!: umod64_Inr intro: xor_index)
next
  case HASH_MER_MOD
  then have "s < m_num_sets c - 1" using assms by (auto simp: set_index_of_block_def dest: ucast_umod64)
  moreover have "m_num_sets c - 1 < m_num_sets c" using assms(1) by (metis cb_wf_def measure_unat word_less_nat_alt)
  ultimately show ?thesis by (rule less_trans)
qed (use assms in \<open>auto simp: set_index_of_block_def Let_def dest: ucast_umod64\<close>)


definition cb_ahl_ok :: "cache_base \<Rightarrow> bool" where
  "cb_ahl_ok c \<longleftrightarrow> (case m_ahl c of None \<Rightarrow> True | Some l \<Rightarrow> m_log_blocksize c \<le> m_ahl_param l)"

lemma drop_bit_drop: "k \<le> p \<Longrightarrow> drop_bit p (a::64 word) = drop_bit (p - k) (drop_bit k a)"
  by simp

lemma block_num_cong:
  assumes "cb_ahl_ok c" "drop_bit (m_log_blocksize c) a = drop_bit (m_log_blocksize c) b"
  shows "block_num_of c a = block_num_of c b"
proof (cases "m_ahl c")
  case None
  then show ?thesis using assms by (simp add: block_num_of_def)
next
  case (Some l)
  then have kp: "m_log_blocksize c \<le> m_ahl_param l" using assms by (simp add: cb_ahl_ok_def)
  have "getLinearBlock l a = getLinearBlock l b"
    unfolding getLinearBlock_def drop_bit_drop [OF kp] assms(2) ..
  then show ?thesis using Some assms(2)
    by (simp add: block_num_of_def getLinearAddress_def drop_bit_or drop_bit_and)
qed

lemma drop_push_drop: "k < 64 \<Longrightarrow> drop_bit k (push_bit k (drop_bit k (a::64 word))) = drop_bit k a"
  by (rule bit_word_eqI) (auto simp: bit_drop_bit_eq bit_push_bit_iff dest: bit_imp_le_length)

lemma cb_wf_log: "cb_wf c \<Longrightarrow> m_log_blocksize c < 32"
  using floorLog2_less_32 [of "cb_blocksize c"] by (simp add: cb_wf_def)

lemma splitAddress_of_tag:
  assumes "cb_wf c" "cb_ahl_ok c" "splitAddress c addr = Inr (tag, s)"
  shows "splitAddress c (tagToAddress c tag) = Inr (tag, s)"
proof -
  let ?k = "m_log_blocksize c"
  have tag: "tag = drop_bit ?k addr" using assms(3) by (auto simp: splitAddress_def Let_def)
  have d: "drop_bit ?k (tagToAddress c tag) = drop_bit ?k addr"
    using cb_wf_log [OF assms(1)] by (simp add: tag tagToAddress_def drop_push_drop)
  then show ?thesis
    using assms(3) block_num_cong [OF assms(2) d] by (simp add: splitAddress_def Let_def)
qed

section \<open>Properties\<close>

lemma ahl_module_less: "ahl_wf l \<Longrightarrow> ahl_module l a < length (m_core_list l)"
proof -
  assume wf: "ahl_wf l"
  then have "m_total_modules l \<noteq> 0" using ahl_wf_modules [OF wf] by (auto simp: ahl_wf_def)
  then show ?thesis
    using unat_mod_lt [of "ucast (m_total_modules l) :: 64 word" "drop_bit (m_ahl_param l) a"]
    by (simp add: ahl_module_def ucast_eq_0_iff ahl_wf_modules [OF wf])
qed

lemma getHome_eq: "ahl_wf l \<Longrightarrow> getHome l a = Inr (m_core_list l ! ahl_module l a)"
proof -
  assume wf: "ahl_wf l"
  then have "m_total_modules l \<noteq> 0" using ahl_wf_modules [OF wf] by (auto simp: ahl_wf_def)
  then show ?thesis using ahl_module_less [OF wf] by (simp add: getHome_def ahl_wf_modules [OF wf])
qed

text \<open>
  C24: the home lookup partitions the address space. For a lookup built over distinct cores,
  \<^verbatim>\<open>getHome\<close> always succeeds, and two addresses with the same home core and the same
  linear address inside that home are the same address, so the linear address is unique within
  its home node.
\<close>

theorem home_and_linear_address_unique:
  assumes "ahl_wf l" and "distinct (m_core_list l)"
    and "getHome l a = getHome l b" and "getLinearAddress l a = getLinearAddress l b"
  shows "a = b \<and> (\<exists>core \<in> set (m_core_list l). getHome l a = Inr core)"
proof -
  have "m_core_list l ! ahl_module l a = m_core_list l ! ahl_module l b"
    using assms(1,3) by (simp add: getHome_eq)
  then have "ahl_module l a = ahl_module l b"
    using assms(1,2) ahl_module_less by (simp add: nth_eq_iff_index_eq)
  then show ?thesis
    using linear_address_inj [OF assms(1) _ assms(4)] ahl_module_less [OF assms(1)]
    by (auto simp: getHome_eq [OF assms(1)])
qed

definition example_ahl :: address_home_lookup where
  "example_ahl = \<lparr>m_ahl_param = 6, m_ahl_mask = 63, m_core_list = [0, 4, 8], m_total_modules = 3,
     ahl_cache_block_size = 64\<rparr>"

theorem home_and_linear_address_unique_witness:
  "AddressHomeLookup 6 [0, 4, 8] 64 = Inr example_ahl \<and> getHome example_ahl 0x12345 = Inr 4 \<and>
   getLinearAddress example_ahl 0x12345 = 0x6105 \<and>
   (\<exists>core \<in> set (m_core_list example_ahl). getHome example_ahl 0x12345 = Inr core)"
proof -
  have c: "AddressHomeLookup 6 [0, 4, 8] 64 = Inr example_ahl"
    by (simp add: AddressHomeLookup_def example_ahl_def)
  have wf: "ahl_wf example_ahl" by (rule AddressHomeLookup_wf [OF c]) simp_all
  have d: "distinct (m_core_list example_ahl)" by (simp add: example_ahl_def)
  show ?thesis
    using c home_and_linear_address_unique [OF wf d refl refl, of "0x12345"]
    by (simp add: getHome_def ahl_module_def getLinearAddress_def getLinearBlock_def example_ahl_def Let_def)
qed

text \<open>
  In a cache accepted by the constructor, every address maps to an existing set, for
  every hash function; the XOR hash needs a power-of-two number of sets for it.
\<close>

theorem splitAddress_set_in_range:
  assumes "CacheBase name num_sets associativity block_size hash ahl = Inr c"
    and "hash_safe c" and "splitAddress c addr = Inr (tag, s)"
  shows "s < m_num_sets c"
  using assms by (auto simp: splitAddress_def Let_def intro: set_index_in_range CacheBase_wf)

definition example_cache_base :: cache_base where
  "example_cache_base = \<lparr>m_name = ''L1-D'', m_cache_size = 64 * 8 * 64, cb_associativity = 8,
     cb_blocksize = 64, m_hash = HASH_MASK, m_num_sets = 64, m_ahl = None, m_log_blocksize = 6,
     m_log_num_sets = 6, m_log_num_blocks = 9, block_mask = 511, set_mask = 63\<rparr>"

lemma floorLog2_examples: "floorLog2 3 = 1" "floorLog2 64 = 6" "floorLog2 512 = 9"
  by (simp_all add: floorLog2_def floorLog2_step_def)

lemma example_cache_base_constructed:
  "CacheBase ''L1-D'' 64 8 64 HASH_MASK None = Inr example_cache_base"
  by (simp add: CacheBase_def floorLog2_examples example_cache_base_def)

lemma example_cache_base_split: "splitAddress example_cache_base 0x12345 = Inr (0x48d, 0xd)"
  by (simp add: splitAddress_def example_cache_base_def set_index_of_block_def block_num_of_def Let_def)

theorem splitAddress_set_in_range_witness:
  "splitAddress example_cache_base 0x12345 = Inr (0x48d, 0xd) \<and> 0xd < m_num_sets example_cache_base"
  using example_cache_base_split
    splitAddress_set_in_range [OF example_cache_base_constructed _ example_cache_base_split]
  by (simp add: hash_safe_def example_cache_base_def)

definition xor_cache :: cache_base where
  "xor_cache = \<lparr>m_name = ''xor'', m_cache_size = 3 * 1 * 64, cb_associativity = 1, cb_blocksize = 64,
     m_hash = HASH_XOR_MOD, m_num_sets = 3, m_ahl = None, m_log_blocksize = 6, m_log_num_sets = 1,
     m_log_num_blocks = 1, block_mask = 1, set_mask = 1\<rparr>"

text \<open>
  With the XOR hash the constructor accepts a set count that is not a power of two, and then
  the computed set index can equal the number of sets, one past the end of \<^verbatim>\<open>m_sets\<close>.
\<close>

theorem xor_hash_out_of_range:
  "CacheBase ''xor'' 3 1 64 HASH_XOR_MOD None = Inr xor_cache \<and>
   splitAddress xor_cache 256 = Inr (4, 3) \<and> \<not> 3 < m_num_sets xor_cache"
  by (simp add: CacheBase_def floorLog2_examples splitAddress_def xor_cache_def set_index_of_block_def
      block_num_of_def umod64_def Let_def)

text \<open>
  The address rebuilt from a tag (as for an evicted line) has the tag and the set index of
  the address the tag came from, so the line is found again; with a home lookup this uses that
  the lookup granularity is at least the block size.
\<close>

theorem tag_address_roundtrip:
  assumes "CacheBase name num_sets associativity block_size hash ahl = Inr c"
    and "cb_ahl_ok c" and "splitAddress c addr = Inr (tag, s)"
  shows "splitAddress c (tagToAddress c tag) = Inr (tag, s)"
  using assms by (blast intro: splitAddress_of_tag CacheBase_wf)

theorem tag_address_roundtrip_witness:
  "splitAddress example_cache_base 0x12345 = Inr (0x48d, 0xd) \<and>
   splitAddress example_cache_base (tagToAddress example_cache_base 0x48d) = Inr (0x48d, 0xd)"
  using example_cache_base_split
    tag_address_roundtrip [OF example_cache_base_constructed _ example_cache_base_split]
  by (simp add: cb_ahl_ok_def example_cache_base_def)

end
