(* ===== verification/Cache_Block_Info.thy ===== *)
theory Cache_Block_Info
  imports Cache_Base
begin

unbundle bit_operations_syntax

text \<open>
  Cache line metadata: \<^verbatim>\<open>cache/cache_state.h\<close>, \<^verbatim>\<open>cache/cache_block_info.{h,cc}\<close> and
  its subclasses \<^verbatim>\<open>pr_l1_\<close>, \<^verbatim>\<open>pr_l2_\<close> and \<^verbatim>\<open>shared_cache_block_info\<close>. The dynamic
  class of an object is the field \<open>bi_class\<close>; the virtual methods dispatch on it. The sharing
  bits of \<^verbatim>\<open>SharedCacheBlockInfo\<close> are compiled out
  (\<^verbatim>\<open>ENABLE_TRACK_SHARING_PREVCACHES\<close> is not defined).
\<close>

section \<open>Coherence states\<close>

datatype cstate_t =
    INVALID
  | SHARED
  | SHARED_UPGRADING
  | EXCLUSIVE
  | OWNED
  | MODIFIED
  | INVALID_COLD
  | INVALID_EVICT
  | INVALID_COHERENCY

definition readable :: "cstate_t \<Rightarrow> bool" where
  "readable c \<longleftrightarrow> c = MODIFIED \<or> c = OWNED \<or> c = SHARED \<or> c = EXCLUSIVE"

definition writable :: "cstate_t \<Rightarrow> bool" where
  "writable c \<longleftrightarrow> c = MODIFIED"

section \<open>Block information\<close>

datatype option_t = PREFETCH | WARMUP

primrec option_index :: "option_t \<Rightarrow> nat" where
  "option_index PREFETCH = 0"
| "option_index WARMUP = 1"

primrec getOptionName :: "option_t \<Rightarrow> string" where
  "getOptionName PREFETCH = ''prefetch''"
| "getOptionName WARMUP = ''warmup''"

text \<open>Memory components as the numbers of the enumeration in \<^verbatim>\<open>mem_component.h\<close>.\<close>

type_synonym component_t = nat

abbreviation (input) INVALID_MEM_COMPONENT :: component_t where "INVALID_MEM_COMPONENT \<equiv> 0"
abbreviation (input) CORE_COMPONENT :: component_t where "CORE_COMPONENT \<equiv> 1"
abbreviation (input) L1_ICACHE :: component_t where "L1_ICACHE \<equiv> 2"
abbreviation (input) L1_DCACHE :: component_t where "L1_DCACHE \<equiv> 3"
abbreviation (input) L2_CACHE :: component_t where "L2_CACHE \<equiv> 4"
abbreviation (input) MAX_MEM_COMPONENT :: component_t where "MAX_MEM_COMPONENT \<equiv> 24"

record cache_block_info =
  bi_class :: cache_t
  m_tag :: IntPtr
  m_cstate :: cstate_t
  m_owner :: UInt64
  m_used :: UInt8
  m_options :: UInt8
  m_cached_loc_bitvec :: UInt32

definition CacheBlockInfo :: "cache_t \<Rightarrow> IntPtr \<Rightarrow> cstate_t \<Rightarrow> UInt64 \<Rightarrow> cache_block_info" where
  "CacheBlockInfo cls tag cstate options =
     \<lparr>bi_class = cls, m_tag = tag, m_cstate = cstate, m_owner = 0, m_used = 0,
      m_options = ucast options, m_cached_loc_bitvec = 0\<rparr>"

definition create :: "cache_t \<Rightarrow> cache_block_info result" where
  "create cache_type =
     (case cache_type of
        PR_L1_CACHE \<Rightarrow> Inr (CacheBlockInfo PR_L1_CACHE (NOT 0) INVALID 0)
      | PR_L2_CACHE \<Rightarrow> Inr (CacheBlockInfo PR_L2_CACHE (NOT 0) INVALID 0)
      | SHARED_CACHE \<Rightarrow> Inr (CacheBlockInfo SHARED_CACHE (NOT 0) INVALID 0)
      | INVALID_CACHE_TYPE \<Rightarrow> Inl (LOG_PRINT_ERROR ''Unrecognized cache type''))"

definition base_invalidate :: "cache_block_info \<Rightarrow> cache_block_info" where
  "base_invalidate b = b\<lparr>m_tag := NOT 0, m_cstate := INVALID\<rparr>"

definition invalidate :: "cache_block_info \<Rightarrow> cache_block_info" where
  "invalidate b =
     (if bi_class b = PR_L2_CACHE then base_invalidate (b\<lparr>m_cached_loc_bitvec := 0\<rparr>)
      else base_invalidate b)"

definition base_clone :: "cache_block_info \<Rightarrow> cache_block_info \<Rightarrow> cache_block_info" where
  "base_clone b other =
     b\<lparr>m_tag := m_tag other, m_cstate := m_cstate other, m_owner := m_owner other,
       m_used := m_used other, m_options := m_options other\<rparr>"

definition clone :: "cache_block_info \<Rightarrow> cache_block_info \<Rightarrow> cache_block_info" where
  "clone b other =
     (if bi_class b = PR_L2_CACHE
      then base_clone (b\<lparr>m_cached_loc_bitvec := m_cached_loc_bitvec other\<rparr>) other
      else base_clone b other)"

definition isValid :: "cache_block_info \<Rightarrow> bool" where
  "isValid b \<longleftrightarrow> m_tag b \<noteq> NOT 0"

definition hasOption :: "cache_block_info \<Rightarrow> option_t \<Rightarrow> bool" where
  "hasOption b opt \<longleftrightarrow> m_options b AND push_bit (option_index opt) 1 \<noteq> 0"

definition setOption :: "cache_block_info \<Rightarrow> option_t \<Rightarrow> cache_block_info" where
  "setOption b opt = b\<lparr>m_options := m_options b OR push_bit (option_index opt) 1\<rparr>"

definition clearOption :: "cache_block_info \<Rightarrow> option_t \<Rightarrow> cache_block_info" where
  "clearOption b opt = b\<lparr>m_options := m_options b AND NOT (push_bit (option_index opt) 1)\<rparr>"

definition updateUsage_mask :: "cache_block_info \<Rightarrow> UInt8 \<Rightarrow> bool \<times> cache_block_info" where
  "updateUsage_mask b used =
     (let new_bits_set = (used AND NOT (m_used b) \<noteq> 0)
      in (new_bits_set, b\<lparr>m_used := m_used b OR used\<rparr>))"

abbreviation (input) BitsUsedOffset :: nat where "BitsUsedOffset \<equiv> 3"

definition updateUsage :: "cache_block_info \<Rightarrow> UInt32 \<Rightarrow> UInt32 \<Rightarrow> (bool \<times> cache_block_info) result" where
  "updateUsage b offset sz =
     (let first = unat (drop_bit BitsUsedOffset offset);
          last = unat (drop_bit BitsUsedOffset (offset + sz - 1))
      in if 64 \<le> first \<or> 64 \<le> last + 1 then Inl (UNDEFINED ''shift'')
         else
           let first_mask = push_bit first 1 - 1 :: UInt64;
               last_mask = push_bit (last + 1) 1 - 1 :: UInt64;
               usage_mask = last_mask AND NOT first_mask
           in Inr (updateUsage_mask b (ucast usage_mask)))"

section \<open>Locations recorded by a private L2 line\<close>

definition getCachedLoc :: "cache_block_info \<Rightarrow> component_t result" where
  "getCachedLoc b =
     bindE (assertE (m_cached_loc_bitvec b \<noteq> push_bit L1_ICACHE 1 OR push_bit L1_DCACHE 1)
             (LOG_ASSERT_ERROR ''m_cached_loc_bitvec''))
       (\<lambda>_. if m_cached_loc_bitvec b = push_bit L1_ICACHE 1 then Inr L1_ICACHE
            else if m_cached_loc_bitvec b = push_bit L1_DCACHE 1 then Inr L1_DCACHE
            else if m_cached_loc_bitvec b = 0 then Inr INVALID_MEM_COMPONENT
            else Inl (LOG_PRINT_ERROR ''Error: m_cached_loc_bitvec''))"

definition setCachedLoc :: "component_t \<Rightarrow> cache_block_info \<Rightarrow> cache_block_info result" where
  "setCachedLoc cached_loc b =
     bindE (assertE (cached_loc \<noteq> INVALID_MEM_COMPONENT) (LOG_ASSERT_ERROR ''cached_loc''))
       (\<lambda>_. bindE (assertE (m_cached_loc_bitvec b AND push_bit cached_loc 1 = 0)
                    (LOG_ASSERT_ERROR ''m_cached_loc_bitvec''))
       (\<lambda>_. Inr (b\<lparr>m_cached_loc_bitvec := m_cached_loc_bitvec b OR push_bit cached_loc 1\<rparr>)))"

definition clearCachedLoc :: "component_t \<Rightarrow> cache_block_info \<Rightarrow> cache_block_info result" where
  "clearCachedLoc cached_loc b =
     bindE (assertE (cached_loc \<noteq> INVALID_MEM_COMPONENT) (LOG_ASSERT_ERROR ''cached_loc''))
       (\<lambda>_. bindE (assertE (m_cached_loc_bitvec b AND push_bit cached_loc 1 \<noteq> 0)
                    (LOG_ASSERT_ERROR ''m_cached_loc_bitvec''))
       (\<lambda>_. Inr (b\<lparr>m_cached_loc_bitvec := m_cached_loc_bitvec b AND NOT (push_bit cached_loc 1)\<rparr>)))"

section \<open>Lemmas\<close>

lemma isValid_create: "create t = Inr b \<Longrightarrow> \<not> isValid b \<and> bi_class b = t \<and> m_cstate b = INVALID"
  by (auto simp: create_def isValid_def CacheBlockInfo_def split: cache_t.splits)

lemma isValid_invalidate [simp]: "\<not> isValid (invalidate b)"
  by (simp add: isValid_def invalidate_def base_invalidate_def)

lemma bi_class_invalidate [simp]: "bi_class (invalidate b) = bi_class b"
  by (simp add: invalidate_def base_invalidate_def)

lemma m_tag_invalidate [simp]: "m_tag (invalidate b) = - 1"
  by (simp add: invalidate_def base_invalidate_def)

lemma clone_fields [simp]:
  "m_tag (clone b c) = m_tag c" "m_cstate (clone b c) = m_cstate c" "m_owner (clone b c) = m_owner c"
  "m_used (clone b c) = m_used c" "m_options (clone b c) = m_options c" "bi_class (clone b c) = bi_class b"
  by (simp_all add: clone_def base_clone_def)

lemma isValid_clone [simp]: "isValid (clone b c) = isValid c"
  by (simp add: isValid_def)

lemma clone_same_class:
  assumes "bi_class b = bi_class c" and "bi_class c = PR_L2_CACHE \<or> m_cached_loc_bitvec b = m_cached_loc_bitvec c"
  shows "clone b c = c"
  using assms by (auto simp: clone_def base_clone_def)

lemma isValid_tag_NOT: "isValid b \<longleftrightarrow> m_tag b \<noteq> - 1"
  by (simp add: isValid_def)

lemma and_one_bit: "(w::'a::len word) AND push_bit k 1 = 0 \<longleftrightarrow> \<not> bit w k"
  by (simp add: and_exp_eq_0_iff_not_bit)

lemma option_index_simps [simp]: "option_index q = option_index r \<longleftrightarrow> q = r" "option_index q < 8"
  by (cases q; cases r; simp)+

lemma hasOption_iff: "hasOption b r \<longleftrightarrow> bit (m_options b) (option_index r)"
  by (simp only: hasOption_def and_one_bit not_not)

lemma option_roundtrip: 
  "hasOption (setOption b q) r \<longleftrightarrow> r = q \<or> hasOption b r"
  "hasOption (clearOption b q) r \<longleftrightarrow> r \<noteq> q \<and> hasOption b r"
  unfolding hasOption_iff setOption_def clearOption_def
  by (auto simp: bit_or_iff bit_and_iff bit_not_iff bit_exp_iff)

lemma and_not_zero_iff: "(m AND NOT u \<noteq> 0) = (u OR m \<noteq> (u::'a::len word))"
  by (auto simp: bit_eq_iff bit_and_iff bit_or_iff bit_not_iff)

lemma usage_bits:
  assumes "k < 64" "l < 64"
  shows "bit ((2 ^ l - 1 :: UInt64) AND NOT (2 ^ k - 1)) i \<longleftrightarrow> k \<le> i \<and> i < l"
  using assms by (auto simp: bit_and_iff bit_not_iff bit_exp_minus_1)

text \<open>
  \<^verbatim>\<open>updateUsage\<close> on an access inside a 64-byte line never stops the simulator; it
  marks exactly the 8-byte words the access touches, keeps the ones marked before, and reports
  whether a new word was marked.
\<close>

theorem updateUsage_exact:
  assumes "0 < unat sz" "unat offset + unat sz \<le> 64"
  shows "\<exists>new b'. updateUsage b offset sz = Inr (new, b') \<and> (new \<longleftrightarrow> m_used b' \<noteq> m_used b) \<and>
    (\<forall>i<8. bit (m_used b') i \<longleftrightarrow>
        bit (m_used b) i \<or> (unat offset div 8 \<le> i \<and> i \<le> (unat offset + unat sz - 1) div 8))"
proof -
  let ?f = "unat offset div 8" and ?l = "(unat offset + unat sz - 1) div 8"
  have nz: "offset + sz \<noteq> 0" and s: "unat (offset + sz) = unat offset + unat sz"
    using assms unat_add_lem [of offset sz] by (auto simp: word_unat_eq_iff)
  have e: "unat (offset + sz - 1) = unat offset + unat sz - 1"
    using nz by (simp add: unat_minus_one s)
  have first: "unat (drop_bit 3 offset) = ?f" and last: "unat (drop_bit 3 (offset + sz - 1)) = ?l"
    by (simp_all only: unat_drop_bit e) simp_all
  have small: "?f < 8" "?l < 8" using assms by auto
  let ?m = "ucast ((push_bit (?l + 1) 1 - 1 :: UInt64) AND NOT (push_bit ?f 1 - 1)) :: UInt8"
  have bits: "bit ?m i \<longleftrightarrow> ?f \<le> i \<and> i \<le> ?l" if "i < 8" for i
    using that small by (subst bit_ucast_iff) (auto simp: usage_bits simp del: power_Suc)
  have r: "updateUsage b offset sz = Inr (updateUsage_mask b ?m)"
    using small by (simp add: updateUsage_def Let_def first last)
  have "(?m AND NOT (m_used b) \<noteq> 0) = (m_used b OR ?m \<noteq> m_used b)"
    by (rule and_not_zero_iff)
  then show ?thesis
    using r bits by (auto simp: updateUsage_mask_def bit_or_iff)
qed
theorem updateUsage_exact_witness:
  "\<exists>new b'. updateUsage (CacheBlockInfo PR_L1_CACHE 5 SHARED 0) 12 8 = Inr (new, b') \<and>
    bit (m_used b') 1 \<and> bit (m_used b') 2 \<and> \<not> bit (m_used b') 3"
  using updateUsage_exact [of 8 12 "CacheBlockInfo PR_L1_CACHE 5 SHARED 0"]
  by (auto simp: CacheBlockInfo_def)

lemma cached_loc_roundtrip:
  assumes "c \<noteq> INVALID_MEM_COMPONENT" "c \<le> MAX_MEM_COMPONENT" "\<not> bit (m_cached_loc_bitvec b) c"
  shows "\<exists>b'. setCachedLoc c b = Inr b' \<and> clearCachedLoc c b' = Inr b"
proof -
  have "m_cached_loc_bitvec b AND push_bit c 1 = 0" using assms(3) by (simp only: and_one_bit) simp
  moreover have "(m_cached_loc_bitvec b OR push_bit c 1) AND push_bit c 1 \<noteq> 0"
    using assms(2) by (simp only: and_one_bit) (simp add: bit_or_iff bit_exp_iff)
  moreover have "(m_cached_loc_bitvec b OR push_bit c 1) AND NOT (push_bit c 1) = m_cached_loc_bitvec b"
    using assms(3) by (intro bit_word_eqI) (auto simp: bit_or_iff bit_and_iff bit_not_iff bit_exp_iff)
  ultimately show ?thesis using assms(1) by (simp add: setCachedLoc_def clearCachedLoc_def)
qed

end
