(* ===== verification/Replacement.thy ===== *)
theory Replacement
  imports Cache_Block_Info "HOL-Library.Multiset"
begin

unbundle bit_operations_syntax

text \<open>
  The replacement policies \<^verbatim>\<open>cache/cache_set_{round_robin,lru,mru,nmru,nru,plru,srrip,random}.cc\<close>
  as functions over the base object of a cache set. Each policy class is a record of its own
  fields; \<^verbatim>\<open>getReplacementIndex\<close> and \<^verbatim>\<open>updateReplacementIndex\<close> pass it explicitly,
  together with the environment they write: the per-cache statistics object
  \<^verbatim>\<open>CacheSetInfoLRU\<close> and the number of calls of \<^verbatim>\<open>incrementQBSLookupCost\<close> on the
  controller. The controller itself is an optional predicate, its
  \<^verbatim>\<open>isInLowerLevelCache\<close>. \<^verbatim>\<open>UInt8\<close> counters are numbers below 256.
\<close>

section \<open>The base class and its collaborators\<close>

record cache_set =
  m_cache_block_info_array :: "cache_block_info list"
  m_blocks :: "UInt8 list option"
  m_associativity :: nat
  m_blocksize :: nat

definition isValidReplacement :: "cache_set \<Rightarrow> nat \<Rightarrow> bool" where
  "isValidReplacement s index \<longleftrightarrow> m_cstate (m_cache_block_info_array s ! index) \<noteq> SHARED_UPGRADING"

definition first_invalid :: "cache_set \<Rightarrow> nat option" where
  "first_invalid s =
     List.find (\<lambda>i. \<not> isValid (m_cache_block_info_array s ! i)) [0..<m_associativity s]"

type_synonym cache_cntlr = "(cache_block_info \<Rightarrow> bool) option"

record cache_set_info_lru =
  si_associativity :: nat
  m_access :: "UInt64 list"
  m_attempts :: "UInt64 list option"

definition CacheSetInfoLRU :: "nat \<Rightarrow> nat \<Rightarrow> cache_set_info_lru" where
  "CacheSetInfoLRU associativity num_attempts =
     \<lparr>si_associativity = associativity, m_access = replicate associativity 0,
      m_attempts = (if num_attempts > 1 then Some (replicate num_attempts 0) else None)\<rparr>"

record repl_env =
  env_info :: cache_set_info_lru
  env_qbs :: nat

definition si_increment :: "nat \<Rightarrow> repl_env \<Rightarrow> repl_env result" where
  "si_increment index e =
     (let i = env_info e in
      bindE (assertE (index < si_associativity i) (LOG_ASSERT_ERROR ''Index >= Associativity''))
        (\<lambda>_. Inr (e\<lparr>env_info := i\<lparr>m_access := (m_access i)[index := m_access i ! index + 1]\<rparr>\<rparr>)))"

definition si_incrementAttempt :: "nat \<Rightarrow> repl_env \<Rightarrow> repl_env result" where
  "si_incrementAttempt attempt e =
     (let i = env_info e in
      case m_attempts i of
        Some a \<Rightarrow> Inr (e\<lparr>env_info := i\<lparr>m_attempts := Some (a[attempt := a ! attempt + 1])\<rparr>\<rparr>)
      | None \<Rightarrow> bindE (assertE (attempt = 0)
                  (LOG_ASSERT_ERROR ''No place to store attempt# histogram but attempt != 0''))
                 (\<lambda>_. Inr e))"

definition incrementQBSLookupCost :: "repl_env \<Rightarrow> repl_env" where
  "incrementQBSLookupCost e = e\<lparr>env_qbs := env_qbs e + 1\<rparr>"

text \<open>The query-based-selection test shared by LRU and SRRIP.\<close>

definition qbs_query :: "cache_cntlr \<Rightarrow> cache_set \<Rightarrow> nat \<Rightarrow> nat \<Rightarrow> nat \<Rightarrow> bool result" where
  "qbs_query cntlr s attempt num_attempts index =
     (if int attempt < int num_attempts - 1
      then case cntlr of
             None \<Rightarrow> Inl (LOG_ASSERT_ERROR ''CacheCntlr == NULL, QBS can only be used when cntlr is passed in'')
           | Some isInLowerLevelCache \<Rightarrow> Inr (isInLowerLevelCache (m_cache_block_info_array s ! index))
      else Inr False)"

section \<open>Round robin\<close>

definition round_robin_init :: "nat \<Rightarrow> nat" where
  "round_robin_init associativity = associativity - 1"

partial_function (option) round_robin_getReplacementIndex ::
  "cache_set \<Rightarrow> nat \<Rightarrow> (nat \<times> nat) option" where
  "round_robin_getReplacementIndex s m_replacement_index =
     (let curr_replacement_index = m_replacement_index;
          m_replacement_index' =
            (if m_replacement_index = 0 then m_associativity s - 1 else m_replacement_index - 1)
      in if \<not> isValidReplacement s m_replacement_index'
         then round_robin_getReplacementIndex s m_replacement_index'
         else Some (curr_replacement_index, m_replacement_index'))"

section \<open>Recency counters (LRU, MRU, NMRU)\<close>

text \<open>
  \<^verbatim>\<open>CacheSetLRU::moveToMRU\<close>; the two \<^verbatim>\<open>updateReplacementIndex\<close> of MRU and NMRU
  have the same body.
\<close>

definition moveToMRU :: "nat \<Rightarrow> nat list \<Rightarrow> nat \<Rightarrow> nat list" where
  "moveToMRU n m_lru_bits accessed_index =
     (let bits = foldl (\<lambda>b i. if b ! i < b ! accessed_index then b[i := u8_inc (b ! i)] else b)
                   m_lru_bits [0..<n]
      in bits[accessed_index := 0])"

definition lru_bits_init :: "nat \<Rightarrow> nat list" where
  "lru_bits_init n = map u8 [0..<n]"

record cache_set_lru =
  lru_num_attempts :: nat
  m_lru_bits :: "nat list"

definition CacheSetLRU :: "nat \<Rightarrow> nat \<Rightarrow> cache_set_lru" where
  "CacheSetLRU associativity num_attempts =
     \<lparr>lru_num_attempts = num_attempts, m_lru_bits = lru_bits_init associativity\<rparr>"

text \<open>The scan for the largest counter among the lines that may be replaced.\<close>

definition lru_scan :: "cache_set \<Rightarrow> nat list \<Rightarrow> nat" where
  "lru_scan s bits =
     fst (foldl (\<lambda>(index, max_bits) i.
             if bits ! i > max_bits \<and> isValidReplacement s i then (i, bits ! i) else (index, max_bits))
           (0, 0) [0..<m_associativity s])"

function lru_attempt ::
  "cache_cntlr \<Rightarrow> cache_set \<Rightarrow> nat \<Rightarrow> cache_set_lru \<times> repl_env
     \<Rightarrow> (nat \<times> cache_set_lru \<times> repl_env) result" where
  "lru_attempt cntlr s attempt (p, e) =
     (if attempt < lru_num_attempts p
      then
        let index = lru_scan s (m_lru_bits p) in
        bindE (assertE (index < m_associativity s) (LOG_ASSERT_ERROR ''Error Finding LRU bits''))
          (\<lambda>_. bindE (qbs_query cntlr s attempt (lru_num_attempts p) index)
          (\<lambda>qbs_reject.
             let p' = p\<lparr>m_lru_bits := moveToMRU (m_associativity s) (m_lru_bits p) index\<rparr> in
             if qbs_reject
             then lru_attempt cntlr s (attempt + 1) (p', incrementQBSLookupCost e)
             else bindE (si_incrementAttempt attempt e) (\<lambda>e'. Inr (index, p', e'))))
      else Inl (LOG_PRINT_ERROR ''Should not reach here''))"
  by pat_completeness auto
termination
  by (relation "measure (\<lambda>(cntlr, s, attempt, p, e). lru_num_attempts p - attempt)") auto

declare lru_attempt.simps [simp del]

definition lru_getReplacementIndex ::
  "cache_cntlr \<Rightarrow> cache_set \<Rightarrow> cache_set_lru \<times> repl_env \<Rightarrow> (nat \<times> cache_set_lru \<times> repl_env) result" where
  "lru_getReplacementIndex cntlr s = (\<lambda>(p, e).
     case first_invalid s of
       Some i \<Rightarrow> Inr (i, p\<lparr>m_lru_bits := moveToMRU (m_associativity s) (m_lru_bits p) i\<rparr>, e)
     | None \<Rightarrow> lru_attempt cntlr s 0 (p, e))"

definition lru_updateReplacementIndex ::
  "cache_set \<Rightarrow> nat \<Rightarrow> cache_set_lru \<times> repl_env \<Rightarrow> (cache_set_lru \<times> repl_env) result" where
  "lru_updateReplacementIndex s accessed_index = (\<lambda>(p, e).
     bindE (si_increment (m_lru_bits p ! accessed_index) e)
       (\<lambda>e'. Inr (p\<lparr>m_lru_bits := moveToMRU (m_associativity s) (m_lru_bits p) accessed_index\<rparr>, e')))"

subsection \<open>MRU\<close>

definition mru_updateReplacementIndex :: "cache_set \<Rightarrow> nat \<Rightarrow> nat list \<Rightarrow> nat list" where
  "mru_updateReplacementIndex s accessed_index bits = moveToMRU (m_associativity s) bits accessed_index"

definition mru_getReplacementIndex :: "cache_set \<Rightarrow> nat list \<Rightarrow> (nat \<times> nat list) result" where
  "mru_getReplacementIndex s bits =
     (case first_invalid s of
        Some i \<Rightarrow> Inr (i, mru_updateReplacementIndex s i bits)
      | None \<Rightarrow>
          (case List.find (\<lambda>(target, i). bits ! i = target \<and> isValidReplacement s i)
                  (List.product [0..<m_associativity s] [0..<m_associativity s]) of
             Some (target, i) \<Rightarrow> Inr (i, mru_updateReplacementIndex s i bits)
           | None \<Rightarrow> Inl (LOG_PRINT_ERROR ''Error Finding LRU bits'')))"

subsection \<open>NMRU\<close>

record cache_set_nmru =
  nmru_lru_bits :: "nat list"
  nmru_replacement_pointer :: nat

definition CacheSetNMRU :: "nat \<Rightarrow> cache_set_nmru" where
  "CacheSetNMRU associativity = \<lparr>nmru_lru_bits = lru_bits_init associativity, nmru_replacement_pointer = 0\<rparr>"

definition nmru_updateReplacementIndex :: "cache_set \<Rightarrow> nat \<Rightarrow> cache_set_nmru \<Rightarrow> cache_set_nmru" where
  "nmru_updateReplacementIndex s accessed_index p =
     p\<lparr>nmru_lru_bits := moveToMRU (m_associativity s) (nmru_lru_bits p) accessed_index\<rparr>"

text \<open>The pointer is a \<^verbatim>\<open>UInt8\<close> and advances modulo the associativity.\<close>

definition advance_pointer :: "nat \<Rightarrow> nat \<Rightarrow> nat" where
  "advance_pointer n ptr = u8 ((ptr + 1) mod n)"

fun nmru_search :: "cache_set \<Rightarrow> nat \<Rightarrow> cache_set_nmru \<Rightarrow> (nat \<times> cache_set_nmru) result" where
  "nmru_search s 0 p = Inl (LOG_PRINT_ERROR ''Error Finding LRU bits'')"
| "nmru_search s (Suc rounds) p =
     (let ptr = nmru_replacement_pointer p;
          p' = p\<lparr>nmru_replacement_pointer := advance_pointer (m_associativity s) ptr\<rparr>
      in if nmru_lru_bits p ! ptr \<noteq> 0 \<and> isValidReplacement s ptr
         then Inr (ptr, nmru_updateReplacementIndex s ptr p')
         else nmru_search s rounds p')"

definition nmru_getReplacementIndex :: "cache_set \<Rightarrow> cache_set_nmru \<Rightarrow> (nat \<times> cache_set_nmru) result" where
  "nmru_getReplacementIndex s p =
     (case first_invalid s of
        Some i \<Rightarrow> Inr (i, nmru_updateReplacementIndex s i p)
      | None \<Rightarrow> nmru_search s (m_associativity s) p)"

section \<open>NRU\<close>

record cache_set_nru =
  nru_lru_bits :: "nat list"
  m_num_bits_set :: nat
  nru_replacement_pointer :: nat

definition CacheSetNRU :: "nat \<Rightarrow> cache_set_nru" where
  "CacheSetNRU associativity =
     \<lparr>nru_lru_bits = replicate associativity 0, m_num_bits_set = 0, nru_replacement_pointer = 0\<rparr>"

definition nru_updateReplacementIndex :: "cache_set \<Rightarrow> nat \<Rightarrow> cache_set_nru \<Rightarrow> cache_set_nru" where
  "nru_updateReplacementIndex s accessed_index p =
     (let p' = p\<lparr>nru_lru_bits := (nru_lru_bits p)[accessed_index := 1],
                 m_num_bits_set := u8_inc (m_num_bits_set p)\<rparr>
      in if m_num_bits_set p' = m_associativity s
         then p'\<lparr>m_num_bits_set := 0,
                 nru_lru_bits := foldl (\<lambda>b i. b[i := 0]) (nru_lru_bits p') [0..<m_associativity s]\<rparr>
         else p')"

definition nru_have_zero_bit :: "cache_set \<Rightarrow> cache_set_nru \<Rightarrow> bool" where
  "nru_have_zero_bit s p \<longleftrightarrow>
     (\<exists>i \<in> set [0..<m_associativity s]. nru_lru_bits p ! i = 0 \<and> isValidReplacement s i)"

fun nru_search :: "cache_set \<Rightarrow> bool \<Rightarrow> nat \<Rightarrow> cache_set_nru \<Rightarrow> (nat \<times> cache_set_nru) result" where
  "nru_search s have_zero_bit 0 p = Inl (LOG_PRINT_ERROR ''Error Finding LRU bits'')"
| "nru_search s have_zero_bit (Suc rounds) p =
     (let ptr = nru_replacement_pointer p;
          p' = p\<lparr>nru_replacement_pointer := advance_pointer (m_associativity s) ptr\<rparr>
      in if (nru_lru_bits p ! ptr = 0 \<or> \<not> have_zero_bit) \<and> isValidReplacement s ptr
         then Inr (ptr, nru_updateReplacementIndex s ptr p')
         else nru_search s have_zero_bit rounds p')"

definition nru_getReplacementIndex :: "cache_set \<Rightarrow> cache_set_nru \<Rightarrow> (nat \<times> cache_set_nru) result" where
  "nru_getReplacementIndex s p =
     (case first_invalid s of
        Some i \<Rightarrow> Inr (i, nru_updateReplacementIndex s i p)
      | None \<Rightarrow> nru_search s (nru_have_zero_bit s p) (m_associativity s) p)"

section \<open>PLRU\<close>

definition CacheSetPLRU :: "nat \<Rightarrow> nat list result" where
  "CacheSetPLRU associativity =
     bindE (assertE (associativity = 4 \<or> associativity = 8)
             (LOG_ASSERT_ERROR ''PLRU not implemted for this associativity (only 4, 8)''))
       (\<lambda>_. Inr (replicate 8 0))"

definition plru_updateReplacementIndex :: "cache_set \<Rightarrow> nat \<Rightarrow> nat list \<Rightarrow> nat list result" where
  "plru_updateReplacementIndex s accessed_index b =
     (if m_associativity s = 4 then Inr
        (if accessed_index = 0 then b[0 := 1, 1 := 1]
         else if accessed_index = 1 then b[0 := 1, 1 := 0]
         else if accessed_index = 2 then b[0 := 0, 2 := 1]
         else if accessed_index = 3 then b[0 := 0, 2 := 0]
         else b)
      else if m_associativity s = 8 then Inr
        (if accessed_index = 0 then b[0 := 1, 1 := 1, 2 := 1]
         else if accessed_index = 1 then b[0 := 1, 1 := 1, 2 := 0]
         else if accessed_index = 2 then b[0 := 1, 1 := 0, 3 := 1]
         else if accessed_index = 3 then b[0 := 1, 1 := 0, 3 := 0]
         else if accessed_index = 4 then b[0 := 0, 4 := 1, 5 := 1]
         else if accessed_index = 5 then b[0 := 0, 4 := 1, 5 := 0]
         else if accessed_index = 6 then b[0 := 0, 4 := 0, 6 := 1]
         else if accessed_index = 7 then b[0 := 0, 4 := 0, 6 := 0]
         else b)
      else Inl (LOG_PRINT_ERROR ''PLRU doesn't support associativity''))"

definition plru_victim :: "cache_set \<Rightarrow> nat list \<Rightarrow> nat result" where
  "plru_victim s b =
     (if m_associativity s = 4 then Inr
        (if b ! 0 = 0 then (if b ! 1 = 0 then 0 else 1)
         else (if b ! 2 = 0 then 2 else 3))
      else if m_associativity s = 8 then Inr
        (if b ! 0 = 0 then
           (if b ! 1 = 0 then (if b ! 2 = 0 then 0 else 1)
            else (if b ! 3 = 0 then 2 else 3))
         else
           (if b ! 4 = 0 then (if b ! 5 = 0 then 4 else 5)
            else (if b ! 6 = 0 then 6 else 7)))
      else Inl (LOG_PRINT_ERROR ''PLRU doesn't support associativity''))"

definition plru_getReplacementIndex :: "cache_set \<Rightarrow> nat list \<Rightarrow> (nat \<times> nat list) result" where
  "plru_getReplacementIndex s b =
     (case first_invalid s of
        Some i \<Rightarrow> bindE (plru_updateReplacementIndex s i b) (\<lambda>b'. Inr (i, b'))
      | None \<Rightarrow>
          bindE (plru_victim s b) (\<lambda>retValue.
          bindE (assertE (isValidReplacement s retValue)
                  (LOG_ASSERT_ERROR ''PLRU selected an invalid replacement candidate''))
            (\<lambda>_. bindE (plru_updateReplacementIndex s retValue b) (\<lambda>b'. Inr (retValue, b')))))"

section \<open>Random\<close>

partial_function (option) random_getReplacementIndex ::
  "cache_set \<Rightarrow> UInt32 \<Rightarrow> (nat result \<times> UInt32) option" where
  "random_getReplacementIndex s seed =
     (case first_invalid s of
        Some i \<Rightarrow> Some (Inr i, seed)
      | None \<Rightarrow>
          (case Random_next 32768 seed of
             Inl e \<Rightarrow> Some (Inl e, seed)
           | Inr (draw, seed') \<Rightarrow>
               if m_associativity s = 0 then Some (Inl (UNDEFINED ''division by zero''), seed')
               else
                 let index = unat draw mod m_associativity s in
                 if isValidReplacement s index then Some (Inr index, seed')
                 else random_getReplacementIndex s seed'))"

section \<open>SRRIP\<close>

record cache_set_srrip =
  m_rrip_max :: nat
  m_rrip_insert :: nat
  srrip_num_attempts :: nat
  m_rrip_bits :: "nat list"
  srrip_replacement_pointer :: nat

text \<open>
  The width \<^verbatim>\<open>srrip/bits\<close> comes from the configuration; the derived \<^verbatim>\<open>UInt8\<close> fields
  wrap, so a width of 0 or of 8 and more gives the values the code computes.
\<close>

definition CacheSetSRRIP :: "nat \<Rightarrow> nat \<Rightarrow> nat \<Rightarrow> cache_set_srrip" where
  "CacheSetSRRIP rrip_numbits associativity num_attempts =
     (let rrip_max = u8 (2 ^ rrip_numbits + 255);
          rrip_insert = u8 (rrip_max + 255)
      in \<lparr>m_rrip_max = rrip_max, m_rrip_insert = rrip_insert, srrip_num_attempts = num_attempts,
          m_rrip_bits = replicate associativity rrip_insert, srrip_replacement_pointer = 0\<rparr>)"

text \<open>
  One pass of the inner loop over \<open>i\<close>: \<open>Inl\<close> of the outcome when a victim is returned or an
  assertion fails, \<open>Inr\<close> of the state when the pass finds none.
\<close>

fun srrip_pass ::
  "cache_cntlr \<Rightarrow> cache_set \<Rightarrow> nat \<Rightarrow> nat \<Rightarrow> cache_set_srrip \<times> repl_env
     \<Rightarrow> (nat \<times> cache_set_srrip \<times> repl_env) result + nat \<times> cache_set_srrip \<times> repl_env" where
  "srrip_pass cntlr s 0 attempt (p, e) = Inr (attempt, p, e)"
| "srrip_pass cntlr s (Suc rounds) attempt (p, e) =
     (let ptr = srrip_replacement_pointer p;
          p_adv = p\<lparr>srrip_replacement_pointer := advance_pointer (m_associativity s) ptr\<rparr>
      in if m_rrip_bits p ! ptr \<ge> m_rrip_max p
         then
           (let index = ptr in
            case qbs_query cntlr s attempt (srrip_num_attempts p) index of
              Inl err \<Rightarrow> Inl (Inl err)
            | Inr True \<Rightarrow>
                srrip_pass cntlr s rounds (u8_inc attempt)
                  (p\<lparr>m_rrip_bits := (m_rrip_bits p)[index := 0]\<rparr>, incrementQBSLookupCost e)
            | Inr False \<Rightarrow>
                Inl (bindE (si_incrementAttempt attempt e) (\<lambda>e'.
                  bindE (assertE (isValidReplacement s index)
                          (LOG_ASSERT_ERROR ''SRRIP selected an invalid replacement candidate''))
                    (\<lambda>_. Inr (index, p_adv\<lparr>m_rrip_bits := (m_rrip_bits p)[index := m_rrip_insert p]\<rparr>, e')))))
         else srrip_pass cntlr s rounds attempt (p_adv, e))"

definition srrip_age :: "cache_set \<Rightarrow> cache_set_srrip \<Rightarrow> cache_set_srrip" where
  "srrip_age s p =
     p\<lparr>m_rrip_bits := foldl (\<lambda>b i. if b ! i < m_rrip_max p then b[i := u8_inc (b ! i)] else b)
                        (m_rrip_bits p) [0..<m_associativity s]\<rparr>"

fun srrip_rounds ::
  "cache_cntlr \<Rightarrow> cache_set \<Rightarrow> nat \<Rightarrow> nat \<Rightarrow> cache_set_srrip \<times> repl_env
     \<Rightarrow> (nat \<times> cache_set_srrip \<times> repl_env) result" where
  "srrip_rounds cntlr s 0 attempt (p, e) = Inl (LOG_PRINT_ERROR ''Error finding replacement index'')"
| "srrip_rounds cntlr s (Suc j) attempt (p, e) =
     (case srrip_pass cntlr s (m_associativity s) attempt (p, e) of
        Inl r \<Rightarrow> r
      | Inr (attempt', p', e') \<Rightarrow> srrip_rounds cntlr s j attempt' (srrip_age s p', e'))"

definition srrip_getReplacementIndex ::
  "cache_cntlr \<Rightarrow> cache_set \<Rightarrow> cache_set_srrip \<times> repl_env \<Rightarrow> (nat \<times> cache_set_srrip \<times> repl_env) result" where
  "srrip_getReplacementIndex cntlr s = (\<lambda>(p, e).
     case first_invalid s of
       Some i \<Rightarrow> Inr (i, p\<lparr>m_rrip_bits := (m_rrip_bits p)[i := m_rrip_insert p]\<rparr>, e)
     | None \<Rightarrow> srrip_rounds cntlr s (m_rrip_max p + 1) 0 (p, e))"

definition srrip_updateReplacementIndex ::
  "cache_set \<Rightarrow> nat \<Rightarrow> cache_set_srrip \<times> repl_env \<Rightarrow> (cache_set_srrip \<times> repl_env) result" where
  "srrip_updateReplacementIndex s accessed_index = (\<lambda>(p, e).
     bindE (si_increment (m_rrip_bits p ! accessed_index) e) (\<lambda>e'.
       Inr (if m_rrip_bits p ! accessed_index > 0
            then p\<lparr>m_rrip_bits := (m_rrip_bits p)[accessed_index := m_rrip_bits p ! accessed_index - 1]\<rparr>
            else p, e')))"

section \<open>The two recursive policies as total operations\<close>

definition round_robin_pick :: "cache_set \<Rightarrow> nat \<Rightarrow> (nat \<times> nat) result" where
  "round_robin_pick s p =
     (case round_robin_getReplacementIndex s p of
        Some r \<Rightarrow> Inr r
      | None \<Rightarrow> Inl (NONTERMINATION ''CacheSetRoundRobin::getReplacementIndex''))"

definition random_pick :: "cache_set \<Rightarrow> UInt32 \<Rightarrow> (nat \<times> UInt32) result" where
  "random_pick s seed =
     (case random_getReplacementIndex s seed of
        Some (r, seed') \<Rightarrow> bindE r (\<lambda>i. Inr (i, seed'))
      | None \<Rightarrow> Inl (NONTERMINATION ''CacheSetRandom::getReplacementIndex''))"

section \<open>Recency counters implement a move-to-front list\<close>

definition touched :: "nat list \<Rightarrow> nat \<Rightarrow> nat \<Rightarrow> nat" where
  "touched bits a i = (if i = a then 0 else if bits ! i < bits ! a then Suc (bits ! i) else bits ! i)"

lemma moveToMRU_loop:
  assumes "a < length bits" "k \<le> length bits" "\<forall>b\<in>set bits. b < 256"
  shows "foldl (\<lambda>b i. if b ! i < b ! a then b[i := u8_inc (b ! i)] else b) bits [0..<k] =
    map (\<lambda>i. if i < k \<and> bits ! i < bits ! a then Suc (bits ! i) else bits ! i) [0..<length bits]"
  using assms(2)
proof (induction k)
  case 0
  then show ?case by (simp add: map_nth)
next
  case (Suc k)
  have "bits ! a < 256" using assms(1,3) by simp
  then have inc: "bits ! k < bits ! a \<Longrightarrow> u8_inc (bits ! k) = Suc (bits ! k)" by simp
  show ?case using Suc assms(1) inc
    by (auto simp: upt_Suc_append simp del: upt_Suc intro!: nth_equalityI) (auto simp: nth_list_update less_Suc_eq)
qed

lemma moveToMRU_eq:
  assumes "a < length bits" "\<forall>b\<in>set bits. b < 256" "n = length bits"
  shows "moveToMRU n bits a = map (touched bits a) [0..<length bits]"
  unfolding moveToMRU_def Let_def assms(3) moveToMRU_loop [OF assms(1) le_refl assms(2)]
  by (rule nth_equalityI) (auto simp: touched_def nth_list_update)

definition lru_perm :: "nat \<Rightarrow> nat list \<Rightarrow> bool" where
  "lru_perm n bits \<longleftrightarrow> n \<le> 256 \<and> length bits = n \<and> distinct bits \<and> set bits = {..<n}"

lemma lru_permD:
  assumes "lru_perm n bits"
  shows "length bits = n" "\<forall>b\<in>set bits. b < 256" "\<And>i. i < n \<Longrightarrow> bits ! i < n"
    "\<And>i j. i < n \<Longrightarrow> j < n \<Longrightarrow> bits ! i = bits ! j \<Longrightarrow> i = j"
  using assms nth_mem [of _ bits] by (auto simp: lru_perm_def nth_eq_iff_index_eq)

lemma lru_perm_init: "n \<le> 256 \<Longrightarrow> lru_perm n (lru_bits_init n)"
  by (auto simp: lru_perm_def lru_bits_init_def distinct_map inj_on_def image_iff)

lemma touched_inj:
  assumes "lru_perm n bits" "a < n"
  shows "inj_on (touched bits a) {..<n}"
proof (rule inj_onI)
  fix i j assume "i \<in> {..<n}" "j \<in> {..<n}" and eq: "touched bits a i = touched bits a j"
  then have ij: "i < n" "j < n" by auto
  have "bits ! i \<noteq> bits ! a" if "i \<noteq> a" using lru_permD(4) [OF assms(1) ij(1) assms(2)] that by auto
  moreover have "bits ! j \<noteq> bits ! a" if "j \<noteq> a" using lru_permD(4) [OF assms(1) ij(2) assms(2)] that by auto
  ultimately show "i = j"
    using eq lru_permD(4) [OF assms(1) ij] by (auto simp: touched_def split: if_splits)
qed

lemma touched_less:
  assumes "lru_perm n bits" "a < n" "i < n"
  shows "touched bits a i < n"
  using lru_permD(3) [OF assms(1), of a] lru_permD(3) [OF assms(1), of i] assms by (auto simp: touched_def)

lemma lru_perm_moveToMRU:
  assumes "lru_perm n bits" "a < n"
  shows "lru_perm n (moveToMRU n bits a)"
proof -
  note D = lru_permD [OF assms(1)]
  have eq: "moveToMRU n bits a = map (touched bits a) [0..<n]"
    using D(1,2) assms(2) by (subst moveToMRU_eq) auto
  have d: "distinct (map (touched bits a) [0..<n])"
    using touched_inj [OF assms] by (simp add: distinct_map lessThan_atLeast0)
  have "set (map (touched bits a) [0..<n]) \<subseteq> {..<n}" using touched_less [OF assms] by auto
  moreover have "card (set (map (touched bits a) [0..<n])) = n" using distinct_card [OF d] by simp
  ultimately have "set (map (touched bits a) [0..<n]) = {..<n}" by (intro card_subset_eq) simp_all
  then show ?thesis using d assms(1) by (simp add: eq lru_perm_def)
qed

definition recency :: "nat list \<Rightarrow> nat list" where
  "recency bits = sort_key (\<lambda>i. bits ! i) [0..<length bits]"

lemma recency_moveToMRU:
  assumes "lru_perm n bits" "a < n"
  shows "recency (moveToMRU n bits a) = a # remove1 a (recency bits)"
proof -
  note D = lru_permD [OF assms(1)]
  let ?r = "recency bits" and ?t = "touched bits a"
  have eq: "moveToMRU n bits a = map ?t [0..<n]"
    using D(1,2) assms(2) by (subst moveToMRU_eq) auto
  have set_r: "set ?r = {..<n}" and dist: "distinct ?r" and srt: "sorted (map ((!) bits) ?r)"
    using D(1) by (auto simp: recency_def)
  have rest: "sorted (map ?t (remove1 a ?r))"
  proof -
    have "sorted (map ((!) bits) (remove1 a ?r))" using srt by (rule sorted_map_remove1)
    then have "sorted_wrt (\<lambda>i j. bits ! i \<le> bits ! j) (remove1 a ?r)" by (simp add: sorted_map)
    then have "sorted_wrt (\<lambda>i j. ?t i \<le> ?t j) (remove1 a ?r)"
      by (rule sorted_wrt_mono_rel [rotated]) (use dist in \<open>auto simp: touched_def\<close>)
    then show ?thesis by (simp add: sorted_map)
  qed
  let ?k = "\<lambda>i. map ?t [0..<n] ! i"
  have k: "?k i = ?t i" if "i \<in> {..<n}" for i using that by simp
  have sub: "set (a # remove1 a ?r) \<subseteq> {..<n}" using set_r assms(2) set_remove1_subset by fastforce
  have "sort_key ?k [0..<n] = a # remove1 a ?r"
  proof (rule sort_key_inj_key_eq)
    show "mset [0..<n] = mset (a # remove1 a ?r)"
      using set_r assms(2) D(1) by (simp add: recency_def)
    show "inj_on ?k (set [0..<n])"
      using touched_inj [OF assms] inj_on_cong [of "{..<n}" ?k ?t, OF k] by (simp add: lessThan_atLeast0)
    have "map ?k (a # remove1 a ?r) = map ?t (a # remove1 a ?r)"
      using sub k by (intro map_cong refl) blast
    moreover have "sorted (map ?t (a # remove1 a ?r))" using rest by (simp add: touched_def)
    ultimately show "sorted (map ?k (a # remove1 a ?r))" by (simp only:)
  qed
  then show ?thesis by (simp add: recency_def eq)
qed

lemma lru_scan_loop:
  fixes bits :: "nat list"
  assumes "k \<le> m_associativity s"
    and "foldl (\<lambda>(index, max_bits) i.
             if bits ! i > max_bits \<and> isValidReplacement s i then (i, bits ! i) else (index, max_bits))
           (0, 0) [0..<k] = (index, mx)"
  shows "(\<forall>i<k. isValidReplacement s i \<longrightarrow> bits ! i \<le> mx) \<and>
     (if mx = 0 then index = 0 else index < k \<and> isValidReplacement s index \<and> bits ! index = mx)"
  using assms
proof (induction k arbitrary: index mx)
  case (Suc k)
  obtain i0 m0 where prev: "foldl (\<lambda>(index, max_bits) i.
             if bits ! i > max_bits \<and> isValidReplacement s i then (i, bits ! i) else (index, max_bits))
           (0, 0) [0..<k] = (i0, m0)" by fastforce
  have IH: "(\<forall>i<k. isValidReplacement s i \<longrightarrow> bits ! i \<le> m0) \<and>
     (if m0 = 0 then i0 = 0 else i0 < k \<and> isValidReplacement s i0 \<and> bits ! i0 = m0)"
    using Suc.IH [OF _ prev] Suc.prems(1) by simp
  have step: "(index, mx) = (if bits ! k > m0 \<and> isValidReplacement s k then (k, bits ! k) else (i0, m0))"
    using Suc.prems(2) prev by (simp add: upt_Suc_append del: upt_Suc)
  show ?case
  proof (cases "bits ! k > m0 \<and> isValidReplacement s k")
    case True
    then show ?thesis using step IH by (auto simp: less_Suc_eq dest!: spec le_less_trans)
  next
    case False
    then show ?thesis using step IH by (auto simp: less_Suc_eq split: if_splits)
  qed
qed simp

lemma lru_scan_spec:
  shows "(\<forall>i<m_associativity s. isValidReplacement s i \<longrightarrow> bits ! i \<le> bits ! lru_scan s bits \<or> bits ! i = 0)"
    and "lru_scan s bits = 0 \<or> lru_scan s bits < m_associativity s"
    and "(\<exists>i<m_associativity s. isValidReplacement s i \<and> 0 < bits ! i) \<Longrightarrow>
      lru_scan s bits < m_associativity s \<and> isValidReplacement s (lru_scan s bits) \<and> 0 < bits ! lru_scan s bits"
proof -
  obtain index mx where e: "foldl (\<lambda>(index, max_bits) i.
             if bits ! i > max_bits \<and> isValidReplacement s i then (i, bits ! i) else (index, max_bits))
           (0, 0) [0..<m_associativity s] = (index, mx)" by fastforce
  then have sc: "lru_scan s bits = index" by (simp add: lru_scan_def)
  note L = lru_scan_loop [OF le_refl e]
  show "(\<forall>i<m_associativity s. isValidReplacement s i \<longrightarrow> bits ! i \<le> bits ! lru_scan s bits \<or> bits ! i = 0)"
    using L sc by (auto split: if_splits)
  show "lru_scan s bits = 0 \<or> lru_scan s bits < m_associativity s" using L sc by (auto split: if_splits)
  show "(\<exists>i<m_associativity s. isValidReplacement s i \<and> 0 < bits ! i) \<Longrightarrow>
      lru_scan s bits < m_associativity s \<and> isValidReplacement s (lru_scan s bits) \<and> 0 < bits ! lru_scan s bits"
    using L sc by (auto split: if_splits)
qed

lemma lru_scan_less: "0 < m_associativity s \<Longrightarrow> lru_scan s bits < m_associativity s"
  using lru_scan_spec(2) [of s bits] by auto

lemma lru_scan_oldest:
  assumes "lru_perm (m_associativity s) bits" "0 < m_associativity s"
    and "\<forall>i<m_associativity s. isValidReplacement s i"
  shows "lru_scan s bits = last (recency bits)"
proof -
  let ?n = "m_associativity s" and ?v = "lru_scan s bits"
  note D = lru_permD [OF assms(1)]
  have v: "?v < ?n" using assms(2) by (rule lru_scan_less)
  have mx: "bits ! i \<le> bits ! ?v" if "i < ?n" for i
    using lru_scan_spec(1) [of s bits] assms(3) that by auto
  have set_r: "set (recency bits) = {..<?n}" and srt: "sorted (map ((!) bits) (recency bits))"
    and ne: "recency bits \<noteq> []"
    using D(1) assms(2) by (auto simp: recency_def simp flip: set_empty)
  have "bits ! i \<le> bits ! last (recency bits)" if "i < ?n" for i
  proof -
    have "i \<in> set (recency bits)" using that by (simp add: set_r)
    then obtain k where k: "k < length (recency bits)" "recency bits ! k = i"
      by (auto simp: in_set_conv_nth)
    have "map ((!) bits) (recency bits) ! k \<le> map ((!) bits) (recency bits) ! (length (recency bits) - 1)"
      using k(1) by (intro sorted_nth_mono [OF srt]) auto
    then show ?thesis using k ne by (simp add: last_conv_nth)
  qed
  moreover have "last (recency bits) < ?n" using set_r ne last_in_set by blast
  ultimately have "bits ! ?v = bits ! last (recency bits)" by (intro order_antisym mx) (simp_all add: v)
  then show ?thesis using D(4) [OF v] \<open>last (recency bits) < ?n\<close> by blast
qed

section \<open>The contract of a replacement policy\<close>

definition set_wf :: "cache_set \<Rightarrow> bool" where
  "set_wf s \<longleftrightarrow> 0 < m_associativity s \<and> length (m_cache_block_info_array s) = m_associativity s"

definition quiescent :: "cache_set \<Rightarrow> bool" where
  "quiescent s \<longleftrightarrow> (\<forall>i<m_associativity s. isValidReplacement s i)"

lemma set_wf_pos: "set_wf s \<Longrightarrow> 0 < m_associativity s"
  by (simp add: set_wf_def)

lemma quiescentD: "quiescent s \<Longrightarrow> i < m_associativity s \<Longrightarrow> isValidReplacement s i"
  by (simp add: quiescent_def)

lemma first_invalid_less: "first_invalid s = Some i \<Longrightarrow> i < m_associativity s"
  by (auto simp: first_invalid_def dest: find_upt_SomeD)

locale replacement_policy =
  fixes pick :: "cache_set \<Rightarrow> 'p \<Rightarrow> (nat \<times> 'p) result"
    and touch :: "cache_set \<Rightarrow> nat \<Rightarrow> 'p \<Rightarrow> 'p result"
    and inv :: "nat \<Rightarrow> 'p \<Rightarrow> bool"
  assumes pick_inv: "set_wf s \<Longrightarrow> inv (m_associativity s) p \<Longrightarrow> pick s p = Inr (i, p') \<Longrightarrow>
      i < m_associativity s \<and> inv (m_associativity s) p'"
    and touch_inv: "set_wf s \<Longrightarrow> inv (m_associativity s) p \<Longrightarrow> i < m_associativity s \<Longrightarrow>
      touch s i p = Inr p' \<Longrightarrow> inv (m_associativity s) p'"

locale filling_policy = replacement_policy +
  assumes pick_invalid: "set_wf s \<Longrightarrow> inv (m_associativity s) p \<Longrightarrow> first_invalid s = Some j \<Longrightarrow>
      pick s p = Inr (i, p') \<Longrightarrow> i = j"

locale live_policy = replacement_policy +
  assumes pick_returns: "set_wf s \<Longrightarrow> inv (m_associativity s) p \<Longrightarrow> quiescent s \<Longrightarrow> \<exists>r. pick s p = Inr r"

section \<open>LRU keeps the contract\<close>

definition env_ok :: "nat \<Rightarrow> nat \<Rightarrow> repl_env \<Rightarrow> bool" where
  "env_ok n num_attempts e \<longleftrightarrow>
     si_associativity (env_info e) = n \<and> (m_attempts (env_info e) = None \<longrightarrow> num_attempts \<le> 1)"

lemma si_increment_Inr:
  "si_increment i e = Inr e' \<Longrightarrow> env_ok n k e \<Longrightarrow> env_ok n k e' \<and> i < n"
  by (auto simp: si_increment_def env_ok_def Let_def split: if_splits)

lemma si_increment_returns: "env_ok n k e \<Longrightarrow> i < n \<Longrightarrow> \<exists>e'. si_increment i e = Inr e'"
  by (simp add: si_increment_def env_ok_def Let_def)

lemma si_incrementAttempt_Inr:
  "si_incrementAttempt a e = Inr e' \<Longrightarrow> env_ok n k e \<Longrightarrow> env_ok n k e'"
  by (auto simp: si_incrementAttempt_def env_ok_def Let_def split: option.splits if_splits)

lemma si_incrementAttempt_returns: "env_ok n k e \<Longrightarrow> a < k \<Longrightarrow> \<exists>e'. si_incrementAttempt a e = Inr e'"
  by (auto simp: si_incrementAttempt_def env_ok_def Let_def split: option.splits)

lemma env_ok_qbs [simp]: "env_ok n k (incrementQBSLookupCost e) = env_ok n k e"
  by (simp add: env_ok_def incrementQBSLookupCost_def)

definition lru_inv :: "nat \<Rightarrow> cache_set_lru \<times> repl_env \<Rightarrow> bool" where
  "lru_inv n = (\<lambda>(p, e). lru_perm n (m_lru_bits p) \<and> 0 < lru_num_attempts p \<and> env_ok n (lru_num_attempts p) e)"

lemma lru_attempt_inv:
  assumes "lru_attempt cntlr s k (p, e) = Inr (i, p', e')"
    and "set_wf s" and "lru_inv (m_associativity s) (p, e)"
  shows "i < m_associativity s \<and> lru_inv (m_associativity s) (p', e')"
  using assms
proof (induction cntlr s k "(p, e)" arbitrary: p e rule: lru_attempt.induct)
  case (1 cntlr s k p e)
  let ?i = "lru_scan s (m_lru_bits p)"
  let ?p = "p\<lparr>m_lru_bits := moveToMRU (m_associativity s) (m_lru_bits p) ?i\<rparr>"
  have lt: "?i < m_associativity s" using "1.prems"(2) by (intro lru_scan_less set_wf_pos)
  have inv: "lru_inv (m_associativity s) (?p, f)" if "env_ok (m_associativity s) (lru_num_attempts p) f" for f
    using that lt "1.prems"(3) by (simp add: lru_inv_def lru_perm_moveToMRU)
  have k: "k < lru_num_attempts p" using "1.prems"(1) by (subst (asm) lru_attempt.simps) (auto split: if_splits)
  obtain rej where q: "qbs_query cntlr s k (lru_num_attempts p) ?i = Inr rej"
    using "1.prems"(1) k lt by (subst (asm) lru_attempt.simps) (auto simp: Let_def)
  show ?case
  proof (cases rej)
    case True
    then have "lru_attempt cntlr s (k + 1) (?p, incrementQBSLookupCost e) = Inr (i, p', e')"
      using "1.prems"(1) k lt q by (subst (asm) lru_attempt.simps) (auto simp: Let_def)
    then show ?thesis
      using "1.hyps" [OF k refl refl True] inv [of "incrementQBSLookupCost e"] "1.prems"(2,3)
      unfolding lru_inv_def by simp
  next
    case False
    then have "i = ?i" "p' = ?p" "si_incrementAttempt k e = Inr e'"
      using "1.prems"(1) k lt q by (subst (asm) lru_attempt.simps, auto simp: Let_def)+
    then show ?thesis
      using lt inv si_incrementAttempt_Inr "1.prems"(3) by (auto simp: lru_inv_def)
  qed
qed

lemma lru_attempt_returns:
  assumes "set_wf s" "env_ok (m_associativity s) (lru_num_attempts p) e" "k < lru_num_attempts p"
  shows "\<exists>r. lru_attempt (Some q) s k (p, e) = Inr r"
  using assms
proof (induction "lru_num_attempts p - k" arbitrary: k p e rule: less_induct)
  case less
  let ?i = "lru_scan s (m_lru_bits p)"
  let ?p = "p\<lparr>m_lru_bits := moveToMRU (m_associativity s) (m_lru_bits p) ?i\<rparr>"
  have lt: "?i < m_associativity s" using less.prems(1) by (intro lru_scan_less set_wf_pos)
  obtain e' where e': "si_incrementAttempt k e = Inr e'"
    using si_incrementAttempt_returns [OF less.prems(2,3)] by blast
  show ?case
  proof (cases "k + 1 < lru_num_attempts p \<and> q (m_cache_block_info_array s ! ?i)")
    case True
    then have "\<exists>r. lru_attempt (Some q) s (k + 1) (?p, incrementQBSLookupCost e) = Inr r"
      using less.prems by (intro less.hyps) auto
    then show ?thesis using True lt less.prems(3)
      by (subst lru_attempt.simps) (simp add: qbs_query_def Let_def)
  next
    case False
    then have q: "qbs_query (Some q) s k (lru_num_attempts p) ?i = Inr False"
      using less.prems(3) by (auto simp: qbs_query_def)
    show ?thesis using lt less.prems(3) by (subst lru_attempt.simps) (simp add: q e' Let_def)
  qed
qed

interpretation lru: replacement_policy "lru_getReplacementIndex cntlr" lru_updateReplacementIndex lru_inv for cntlr
proof
  fix s i and p p' :: "cache_set_lru \<times> repl_env"
  assume wf: "set_wf s" and inv: "lru_inv (m_associativity s) p"
  obtain q e where p: "p = (q, e)" by fastforce
  { assume "lru_getReplacementIndex cntlr s p = Inr (i, p')"
    then show "i < m_associativity s \<and> lru_inv (m_associativity s) p'"
      using wf inv lru_attempt_inv [of cntlr s 0 q e i "fst p'" "snd p'"] unfolding p
      by (auto simp: lru_getReplacementIndex_def lru_inv_def first_invalid_less lru_perm_moveToMRU split: option.splits)
  next
    assume "i < m_associativity s" "lru_updateReplacementIndex s i p = Inr p'"
    then show "lru_inv (m_associativity s) p'"
      using inv unfolding p
      by (auto simp: lru_updateReplacementIndex_def lru_inv_def lru_perm_moveToMRU dest: si_increment_Inr) }
qed

interpretation lru_fill: filling_policy "lru_getReplacementIndex cntlr" lru_updateReplacementIndex lru_inv for cntlr
  by unfold_locales (auto simp: lru_getReplacementIndex_def split: prod.splits)

interpretation lru_live: live_policy "lru_getReplacementIndex (Some q)" lru_updateReplacementIndex lru_inv for q
proof
  fix s and p :: "cache_set_lru \<times> repl_env"
  assume wf: "set_wf s" and inv: "lru_inv (m_associativity s) p"
  obtain l e where p: "p = (l, e)" by fastforce
  show "\<exists>r. lru_getReplacementIndex (Some q) s p = Inr r"
    using lru_attempt_returns [OF wf, of l e 0 q] inv
    by (simp add: p lru_getReplacementIndex_def lru_inv_def split: option.split)
qed

section \<open>MRU and NMRU keep the contract\<close>

lemma mru_find_returns:
  assumes "lru_perm n bits" "i < n" "P i"
  shows "\<exists>t j. List.find (\<lambda>(target, i). bits ! i = target \<and> P i) (List.product [0..<n] [0..<n]) = Some (t, j)"
proof -
  have "(bits ! i, i) \<in> set (List.product [0..<n] [0..<n])" using assms lru_permD(3) by simp
  from find_NotNone [OF this, of "\<lambda>(target, i). bits ! i = target \<and> P i"] show ?thesis
    using assms(3) by auto
qed

lemma mru_find_SomeD:
  assumes "List.find (\<lambda>(target, i). bits ! i = target \<and> P i) (List.product [0..<n] [0..<n]) = Some (t, j)"
  shows "j < n" "P j"
  using find_SomeD [OF assms] by auto

lemma mru_pick_inv:
  assumes "lru_perm (m_associativity s) p" "mru_getReplacementIndex s p = Inr (i, p')"
  shows "i < m_associativity s \<and> p' = moveToMRU (m_associativity s) p i"
  using assms mru_find_SomeD(1)
  by (fastforce simp: mru_getReplacementIndex_def mru_updateReplacementIndex_def first_invalid_less split: option.splits)

interpretation mru: filling_policy mru_getReplacementIndex "\<lambda>s i p. Inr (mru_updateReplacementIndex s i p)" lru_perm
proof
  fix s i p p'
  assume "lru_perm (m_associativity s) p" "mru_getReplacementIndex s p = Inr (i, p')"
  then show "i < m_associativity s \<and> lru_perm (m_associativity s) p'"
    using mru_pick_inv lru_perm_moveToMRU by blast
qed (auto simp: mru_getReplacementIndex_def mru_updateReplacementIndex_def lru_perm_moveToMRU)

interpretation mru_live: live_policy mru_getReplacementIndex "\<lambda>s i p. Inr (mru_updateReplacementIndex s i p)" lru_perm
proof
  fix s p
  assume wf: "set_wf s" and inv: "lru_perm (m_associativity s) p" and q: "quiescent s"
  obtain t j where "List.find (\<lambda>(target, i). p ! i = target \<and> isValidReplacement s i)
      (List.product [0..<m_associativity s] [0..<m_associativity s]) = Some (t, j)"
    using mru_find_returns [OF inv set_wf_pos [OF wf], of "isValidReplacement s"] quiescentD [OF q set_wf_pos [OF wf]]
    by blast
  then show "\<exists>r. mru_getReplacementIndex s p = Inr r"
    by (auto simp: mru_getReplacementIndex_def split: option.split)
qed

lemma advance_pointer_eq: "0 < n \<Longrightarrow> n \<le> 256 \<Longrightarrow> advance_pointer n ptr = (ptr + 1) mod n"
  unfolding advance_pointer_def by (rule u8_small) (meson mod_less_divisor order_less_le_trans)

lemma advance_pointer_less: "ptr < n \<Longrightarrow> n \<le> 256 \<Longrightarrow> advance_pointer n ptr < n"
  by (simp add: advance_pointer_eq)

definition nmru_inv :: "nat \<Rightarrow> cache_set_nmru \<Rightarrow> bool" where
  "nmru_inv n p \<longleftrightarrow> lru_perm n (nmru_lru_bits p) \<and> nmru_replacement_pointer p < n"

lemma nmru_touch_inv: "nmru_inv (m_associativity s) p \<Longrightarrow> i < m_associativity s \<Longrightarrow>
    nmru_inv (m_associativity s) (nmru_updateReplacementIndex s i p)"
  by (simp add: nmru_inv_def nmru_updateReplacementIndex_def lru_perm_moveToMRU)

lemma nmru_advance_inv: "nmru_inv n p \<Longrightarrow>
    nmru_inv n (p\<lparr>nmru_replacement_pointer := advance_pointer n (nmru_replacement_pointer p)\<rparr>)"
  by (simp add: nmru_inv_def lru_perm_def advance_pointer_less)

lemma nmru_search_inv:
  "nmru_search s k p = Inr (i, p') \<Longrightarrow> nmru_inv (m_associativity s) p \<Longrightarrow>
     i < m_associativity s \<and> nmru_inv (m_associativity s) p'"
proof (induction s k p rule: nmru_search.induct)
  case (2 s k p)
  let ?c = "nmru_lru_bits p ! nmru_replacement_pointer p \<noteq> 0 \<and> isValidReplacement s (nmru_replacement_pointer p)"
  note adv = nmru_advance_inv [OF "2.prems"(2)]
  have ptr: "nmru_replacement_pointer p < m_associativity s" using "2.prems"(2) by (simp add: nmru_inv_def)
  show ?case
  proof (cases ?c)
    case True
    then show ?thesis using "2.prems"(1) nmru_touch_inv [OF adv ptr] ptr by (auto simp: Let_def)
  next
    case False
    then show ?thesis using "2.IH" [OF refl refl] adv "2.prems"(1) by (auto simp: Let_def split: if_splits)
  qed
qed simp

interpretation nmru: filling_policy nmru_getReplacementIndex "\<lambda>s i p. Inr (nmru_updateReplacementIndex s i p)" nmru_inv
proof
  fix s i p p'
  assume "nmru_inv (m_associativity s) p" "nmru_getReplacementIndex s p = Inr (i, p')"
  then show "i < m_associativity s \<and> nmru_inv (m_associativity s) p'"
    using nmru_search_inv nmru_touch_inv first_invalid_less
    by (fastforce simp: nmru_getReplacementIndex_def split: option.splits)
qed (auto simp: nmru_getReplacementIndex_def nmru_touch_inv)

text \<open>A scan that starts at any pointer and advances \<open>n\<close> times visits every way.\<close>

lemma ring_cover: "i < n \<Longrightarrow> ptr < n \<Longrightarrow> \<exists>k<n. (ptr + k) mod n = (i::nat)"
proof -
  assume i: "i < n" and p: "ptr < n"
  have "(ptr + (i + (n - ptr)) mod n) mod n = (ptr + (i + (n - ptr))) mod n"
    by (rule mod_add_right_eq)
  also have "ptr + (i + (n - ptr)) = i + n" using p by simp
  finally show ?thesis using i by (intro exI [of _ "(i + (n - ptr)) mod n"]) simp
qed

lemma ring_coverE:
  assumes "i < n" "ptr < (n::nat)"
  obtains k where "k < n" "(ptr + k) mod n = i"
  using ring_cover [OF assms] by (elim exE conjE) (rule that)

lemma ring_step:
  assumes "ptr < n" "\<forall>k<r. P (((ptr + 1) mod n + k) mod n)" "P ptr"
  shows "\<forall>k<Suc r. P ((ptr + k) mod n)"
proof (intro allI impI)
  fix k assume "k < Suc r"
  then show "P ((ptr + k) mod n)"
    using assms by (cases k) (auto simp: mod_add_left_eq)
qed

lemma nmru_search_fails:
  assumes "nmru_search s r p = Inl err" "nmru_inv (m_associativity s) p"
  shows "\<forall>k<r. let i = (nmru_replacement_pointer p + k) mod m_associativity s
                in nmru_lru_bits p ! i = 0 \<or> \<not> isValidReplacement s i"
  using assms
proof (induction s r p rule: nmru_search.induct)
  case (2 s r p)
  let ?n = "m_associativity s" and ?ptr = "nmru_replacement_pointer p"
  have n: "0 < ?n" "?n \<le> 256" "?ptr < ?n" using "2.prems"(2) by (auto simp: nmru_inv_def lru_perm_def)
  have c: "nmru_lru_bits p ! ?ptr = 0 \<or> \<not> isValidReplacement s ?ptr"
    using "2.prems"(1) by (auto simp: Let_def split: if_splits)
  show ?case
    unfolding Let_def
    using "2.IH" [OF refl refl] "2.prems"(1) c nmru_advance_inv [OF "2.prems"(2)] n
    by (intro ring_step) (auto simp: Let_def advance_pointer_eq split: if_splits)
qed simp

lemma perm_has_nonzero:
  assumes "lru_perm n bits" "2 \<le> n"
  shows "\<exists>i<n. bits ! i \<noteq> 0"
proof -
  have "bits ! 0 \<noteq> bits ! 1" using lru_permD(4) [OF assms(1), of 0 1] assms(2) by auto
  then have "bits ! 0 \<noteq> 0 \<or> bits ! 1 \<noteq> 0" by auto
  then show ?thesis using assms(2) by (metis less_le_trans one_less_numeral_iff semiring_norm(76) zero_less_numeral)
qed

interpretation nmru_live: live_policy nmru_getReplacementIndex
  "\<lambda>s i p. Inr (nmru_updateReplacementIndex s i p)" "\<lambda>n p. nmru_inv n p \<and> 2 \<le> n"
proof
  fix s p
  assume q: "quiescent s" and inv: "nmru_inv (m_associativity s) p \<and> 2 \<le> m_associativity s"
  obtain i where i: "i < m_associativity s" "nmru_lru_bits p ! i \<noteq> 0"
    using inv perm_has_nonzero by (auto simp: nmru_inv_def)
  obtain k where k: "k < m_associativity s" "(nmru_replacement_pointer p + k) mod m_associativity s = i"
    using ring_cover [OF i(1)] inv by (auto simp: nmru_inv_def)
  show "\<exists>r. nmru_getReplacementIndex s p = Inr r"
  proof (cases "nmru_search s (m_associativity s) p")
    case (Inl e)
    then show ?thesis using nmru_search_fails [OF Inl] inv i k quiescentD [OF q i(1)] by (auto simp: Let_def)
  next
    case (Inr r)
    then show ?thesis by (simp add: nmru_getReplacementIndex_def split: option.split)
  qed
qed (use nmru.pick_inv nmru_touch_inv in auto)

section \<open>NRU keeps the contract\<close>

definition nru_inv :: "nat \<Rightarrow> cache_set_nru \<Rightarrow> bool" where
  "nru_inv n p \<longleftrightarrow> n \<le> 256 \<and> length (nru_lru_bits p) = n \<and> nru_replacement_pointer p < n"

lemma nru_touch_inv: "nru_inv n p \<Longrightarrow> nru_inv n (nru_updateReplacementIndex s i p)"
  by (simp add: nru_inv_def nru_updateReplacementIndex_def Let_def)

lemma nru_advance_inv: "nru_inv n p \<Longrightarrow>
    nru_inv n (p\<lparr>nru_replacement_pointer := advance_pointer n (nru_replacement_pointer p)\<rparr>)"
  by (simp add: nru_inv_def advance_pointer_less)

lemma nru_search_inv:
  "nru_search s z k p = Inr (i, p') \<Longrightarrow> nru_inv (m_associativity s) p \<Longrightarrow>
     i < m_associativity s \<and> nru_inv (m_associativity s) p' \<and> isValidReplacement s i \<and>
     (nru_lru_bits p ! i = 0 \<or> \<not> z)"
proof (induction s z k p rule: nru_search.induct)
  case (2 s z k p)
  let ?ptr = "nru_replacement_pointer p"
  note adv = nru_advance_inv [OF "2.prems"(2)]
  have ptr: "?ptr < m_associativity s" using "2.prems"(2) by (simp add: nru_inv_def)
  show ?case
  proof (cases "(nru_lru_bits p ! ?ptr = 0 \<or> \<not> z) \<and> isValidReplacement s ?ptr")
    case True
    then show ?thesis using "2.prems"(1) nru_touch_inv [OF adv] ptr by (auto simp: Let_def)
  next
    case False
    then show ?thesis using "2.IH" [OF refl refl] adv "2.prems"(1) by (auto simp: Let_def split: if_splits)
  qed
qed simp

lemma nru_search_fails:
  assumes "nru_search s z r p = Inl err" "nru_inv (m_associativity s) p"
  shows "\<forall>k<r. let i = (nru_replacement_pointer p + k) mod m_associativity s
                in (nru_lru_bits p ! i \<noteq> 0 \<and> z) \<or> \<not> isValidReplacement s i"
  using assms
proof (induction s z r p rule: nru_search.induct)
  case (2 s z r p)
  let ?n = "m_associativity s" and ?ptr = "nru_replacement_pointer p"
  have n: "0 < ?n" "?n \<le> 256" "?ptr < ?n" using "2.prems"(2) by (auto simp: nru_inv_def)
  have c: "(nru_lru_bits p ! ?ptr \<noteq> 0 \<and> z) \<or> \<not> isValidReplacement s ?ptr"
    using "2.prems"(1) by (auto simp: Let_def split: if_splits)
  show ?case
    unfolding Let_def
    using "2.IH" [OF refl refl] "2.prems"(1) c nru_advance_inv [OF "2.prems"(2)] n
    by (intro ring_step) (auto simp: Let_def advance_pointer_eq split: if_splits)
qed simp

lemma nru_search_returns:
  assumes "nru_inv (m_associativity s) p" "i < m_associativity s" "isValidReplacement s i"
  shows "\<exists>r. nru_search s (nru_have_zero_bit s p) (m_associativity s) p = Inr r"
proof (cases "nru_search s (nru_have_zero_bit s p) (m_associativity s) p")
  case (Inl e)
  have "\<exists>i<m_associativity s. isValidReplacement s i \<and> (nru_lru_bits p ! i = 0 \<or> \<not> nru_have_zero_bit s p)"
    using assms(2,3) by (cases "nru_have_zero_bit s p") (auto simp: nru_have_zero_bit_def)
  then obtain j where j: "j < m_associativity s" "isValidReplacement s j"
    "nru_lru_bits p ! j = 0 \<or> \<not> nru_have_zero_bit s p" by blast
  obtain k where "k < m_associativity s" "(nru_replacement_pointer p + k) mod m_associativity s = j"
    using ring_cover [OF j(1)] assms(1) by (auto simp: nru_inv_def)
  then show ?thesis using nru_search_fails [OF Inl assms(1)] j by (auto simp: Let_def)
qed simp

interpretation nru: filling_policy nru_getReplacementIndex "\<lambda>s i p. Inr (nru_updateReplacementIndex s i p)" nru_inv
proof
  fix s i p p'
  assume "nru_inv (m_associativity s) p" "nru_getReplacementIndex s p = Inr (i, p')"
  then show "i < m_associativity s \<and> nru_inv (m_associativity s) p'"
    using nru_search_inv nru_touch_inv first_invalid_less
    by (fastforce simp: nru_getReplacementIndex_def split: option.splits)
qed (auto simp: nru_getReplacementIndex_def nru_touch_inv)

interpretation nru_live: live_policy nru_getReplacementIndex "\<lambda>s i p. Inr (nru_updateReplacementIndex s i p)" nru_inv
proof
  fix s p
  assume wf: "set_wf s" and inv: "nru_inv (m_associativity s) p" and q: "quiescent s"
  show "\<exists>r. nru_getReplacementIndex s p = Inr r"
    using nru_search_returns [OF inv set_wf_pos [OF wf] quiescentD [OF q set_wf_pos [OF wf]]]
    by (auto simp: nru_getReplacementIndex_def split: option.split)
qed

section \<open>Round robin and random keep the contract\<close>

lemma round_robin_result:
  assumes "round_robin_getReplacementIndex s p = Some (i, p')" "p < m_associativity s"
  shows "i < m_associativity s \<and> p' < m_associativity s \<and> isValidReplacement s p'"
proof -
  have "p < m_associativity s \<longrightarrow> fst r < m_associativity s \<and> snd r < m_associativity s \<and> isValidReplacement s (snd r)"
    if "round_robin_getReplacementIndex s p = Some r" for r
  proof (rule round_robin_getReplacementIndex.raw_induct [where P = "\<lambda>s p r. p < m_associativity s \<longrightarrow>
        fst r < m_associativity s \<and> snd r < m_associativity s \<and> isValidReplacement s (snd r)", OF _ that])
    fix f s p r
    assume IH: "\<And>s p r. f s p = Some r \<Longrightarrow> p < m_associativity s \<longrightarrow>
        fst r < m_associativity s \<and> snd r < m_associativity s \<and> isValidReplacement s (snd r)"
      and eq: "(let curr_replacement_index = p; m_replacement_index' = if p = 0 then m_associativity s - 1 else p - 1
        in if \<not> isValidReplacement s m_replacement_index' then f s m_replacement_index'
           else Some (curr_replacement_index, m_replacement_index')) = Some r"
    show "p < m_associativity s \<longrightarrow> fst r < m_associativity s \<and> snd r < m_associativity s \<and> isValidReplacement s (snd r)"
    proof
      assume p: "p < m_associativity s"
      let ?q = "if p = 0 then m_associativity s - 1 else p - 1"
      have q: "?q < m_associativity s" using p by auto
      show "fst r < m_associativity s \<and> snd r < m_associativity s \<and> isValidReplacement s (snd r)"
        using IH [of s ?q r] eq q p by (cases "isValidReplacement s ?q") (auto simp: Let_def)
    qed
  qed
  then show ?thesis using assms by fastforce
qed

lemma round_robin_returns:
  assumes "p < m_associativity s" "isValidReplacement s ((p + (m_associativity s - 1 - d)) mod m_associativity s)" "d < m_associativity s"
  shows "\<exists>r. round_robin_getReplacementIndex s p = Some r"
  using assms
proof (induction d arbitrary: p)
  case 0
  have "(p + (m_associativity s - 1)) mod m_associativity s = (if p = 0 then m_associativity s - 1 else p - 1)"
    using 0 by (auto simp: mod_if)
  then show ?case using 0 by (subst round_robin_getReplacementIndex.simps) (simp add: Let_def)
next
  case (Suc d)
  let ?n = "m_associativity s" and ?q = "if p = 0 then m_associativity s - 1 else p - 1"
  have q: "?q < ?n" using Suc.prems(1) by auto
  have "(?q + (?n - 1 - d)) mod ?n = (p + (?n - 1 - Suc d)) mod ?n"
  proof (cases "p = 0")
    case True
    then have "?q + (?n - 1 - d) = (?n - 1 - Suc d) + ?n" using Suc.prems(3) by simp
    then show ?thesis using True by (metis add_0 mod_add_self2)
  next
    case False
    then have "?q + (?n - 1 - d) = p + (?n - 1 - Suc d)" using Suc.prems(3) by simp
    then show ?thesis by simp
  qed
  then have "\<exists>r. round_robin_getReplacementIndex s ?q = Some r"
    using Suc.IH [OF q] Suc.prems by simp
  then show ?case by (subst round_robin_getReplacementIndex.simps) (auto simp: Let_def)
qed

interpretation round_robin: live_policy round_robin_pick "\<lambda>s i p. Inr p" "\<lambda>n p. p < n"
proof
  fix s i p p'
  assume "p < m_associativity s" "round_robin_pick s p = Inr (i, p')"
  then show "i < m_associativity s \<and> p' < m_associativity s"
    using round_robin_result by (auto simp: round_robin_pick_def split: option.splits)
next
  fix s p
  assume p: "p < m_associativity s" and q: "quiescent s"
  have "\<exists>r. round_robin_getReplacementIndex s p = Some r"
    using p q by (intro round_robin_returns [where d = 0]) (auto simp: quiescent_def)
  then show "\<exists>r. round_robin_pick s p = Inr r" by (auto simp: round_robin_pick_def)
qed auto

lemma random_result:
  assumes "random_getReplacementIndex s seed = Some (Inr i, seed')"
  shows "i < m_associativity s \<and> (first_invalid s = None \<longrightarrow> isValidReplacement s i) \<and>
    (\<forall>j. first_invalid s = Some j \<longrightarrow> i = j)"
proof -
  let ?P = "\<lambda>s seed r. \<forall>i seed'. r = (Inr i, seed') \<longrightarrow> i < m_associativity s \<and>
    (first_invalid s = None \<longrightarrow> isValidReplacement s i) \<and> (\<forall>j. first_invalid s = Some j \<longrightarrow> i = j)"
  have "?P s seed r" if "random_getReplacementIndex s seed = Some r" for r
  proof (rule random_getReplacementIndex.raw_induct [where P = ?P, OF _ that])
    fix f s seed r
    assume IH: "\<And>s seed r. f s seed = Some r \<Longrightarrow> ?P s seed r"
      and eq: "(case first_invalid s of
        Some i \<Rightarrow> Some (Inr i, seed)
      | None \<Rightarrow>
          (case Random_next 32768 seed of
             Inl e \<Rightarrow> Some (Inl e, seed)
           | Inr (draw, seed') \<Rightarrow>
               if m_associativity s = 0 then Some (Inl (UNDEFINED ''division by zero''), seed')
               else
                 let index = unat draw mod m_associativity s in
                 if isValidReplacement s index then Some (Inr index, seed')
                 else f s seed')) = Some r"
    show "?P s seed r"
      using eq IH [of s "seed * 1103515245 + 12345" r]
      by (cases "first_invalid s") (auto simp: Random_next_def Let_def first_invalid_less split: if_splits)
  qed
  then show ?thesis using assms by blast
qed

interpretation random: filling_policy random_pick "\<lambda>s i p. Inr p" "\<lambda>n p. True"
  by unfold_locales (auto simp: random_pick_def split: option.splits dest: random_result)

interpretation random_live: live_policy random_pick "\<lambda>s i p. Inr p" "\<lambda>n p. True"
proof
  fix s p
  assume wf: "set_wf s" and q: "quiescent s"
  have v: "isValidReplacement s (k mod m_associativity s)" for k
    using q set_wf_pos [OF wf] by (simp add: quiescent_def)
  show "\<exists>r. random_pick s p = Inr r"
    using set_wf_pos [OF wf] v
    by (auto simp: random_pick_def random_getReplacementIndex.simps [of s p] Random_next_def Let_def split: option.split)
qed

section \<open>PLRU keeps the contract\<close>

definition plru_inv :: "nat \<Rightarrow> nat list \<Rightarrow> bool" where
  "plru_inv n b \<longleftrightarrow> (n = 4 \<or> n = 8) \<and> length b = 8"

lemma plru_touch_inv:
  "plru_inv (m_associativity s) b \<Longrightarrow> plru_updateReplacementIndex s i b = Inr b' \<Longrightarrow> plru_inv (m_associativity s) b'"
  by (auto simp: plru_inv_def plru_updateReplacementIndex_def split: if_splits)

lemma plru_touch_returns:
  "plru_inv (m_associativity s) b \<Longrightarrow> \<exists>b'. plru_updateReplacementIndex s i b = Inr b'"
  by (auto simp: plru_inv_def plru_updateReplacementIndex_def)

lemma plru_victim_less: "plru_victim s b = Inr i \<Longrightarrow> i < m_associativity s"
  by (auto simp: plru_victim_def split: if_splits)

lemma plru_victim_returns: "plru_inv (m_associativity s) b \<Longrightarrow> \<exists>i. plru_victim s b = Inr i"
  by (auto simp: plru_inv_def plru_victim_def)

interpretation plru: filling_policy plru_getReplacementIndex plru_updateReplacementIndex plru_inv
  by unfold_locales
    (auto simp: plru_getReplacementIndex_def first_invalid_less plru_victim_less
      dest: plru_touch_inv split: option.splits if_splits)

interpretation plru_live: live_policy plru_getReplacementIndex plru_updateReplacementIndex plru_inv
proof
  fix s p
  assume inv: "plru_inv (m_associativity s) p" and q: "quiescent s"
  obtain i where i: "plru_victim s p = Inr i" using plru_victim_returns [OF inv] by blast
  obtain b where b: "plru_updateReplacementIndex s i p = Inr b" using plru_touch_returns [OF inv] by blast
  obtain g where g: "plru_updateReplacementIndex s k p = Inr (g k)" for k using plru_touch_returns [OF inv] by metis
  show "\<exists>r. plru_getReplacementIndex s p = Inr r"
    using i b g quiescentD [OF q plru_victim_less [OF i]]
    by (auto simp: plru_getReplacementIndex_def split: option.split)
qed

lemma plru_not_most_recent:
  assumes "plru_inv (m_associativity s) b" "i < m_associativity s"
    and "plru_updateReplacementIndex s i b = Inr b'" "plru_victim s b' = Inr v"
  shows "v \<noteq> i"
proof -
  obtain b0 b1 b2 b3 b4 b5 b6 b7 where b: "b = [b0, b1, b2, b3, b4, b5, b6, b7]"
    using assms(1) by (auto simp: plru_inv_def numeral_eq_Suc length_Suc_conv)
  show ?thesis
    using assms by (auto simp: b plru_inv_def plru_updateReplacementIndex_def plru_victim_def split: if_splits)
qed

section \<open>SRRIP invariant and progress\<close>

definition srrip_inv :: "nat \<Rightarrow> nat \<Rightarrow> cache_set_srrip \<times> repl_env \<Rightarrow> bool" where
  "srrip_inv att n = (\<lambda>(p, e). n \<le> 256 \<and> length (m_rrip_bits p) = n \<and> srrip_replacement_pointer p < n \<and>
     0 < m_rrip_max p \<and> m_rrip_max p < 256 \<and> m_rrip_insert p = m_rrip_max p - 1 \<and>
     (\<forall>b \<in> set (m_rrip_bits p). b \<le> m_rrip_max p) \<and> srrip_num_attempts p = att \<and> 0 < att \<and>
     env_ok n att e)"

lemma CacheSetSRRIP_inv:
  assumes "0 < bits" "bits < 8" "0 < n" "n \<le> 256" "0 < a"
  shows "srrip_inv a n (CacheSetSRRIP bits n a, \<lparr>env_info = CacheSetInfoLRU n a, env_qbs = 0\<rparr>)"
proof -
  have "(2::nat) ^ bits \<le> 2 ^ 7" using assms by (intro power_increasing) auto
  moreover have "(2::nat) ^ 1 \<le> 2 ^ bits" using assms by (intro power_increasing) auto
  ultimately show ?thesis
    using assms by (auto simp: srrip_inv_def CacheSetSRRIP_def Let_def u8_def env_ok_def CacheSetInfoLRU_def mod_if)
qed

lemma set_list_update_le: "\<forall>b \<in> set xs. b \<le> m \<Longrightarrow> v \<le> m \<Longrightarrow> \<forall>b \<in> set (xs[i := v]). b \<le> (m::nat)"
  using set_update_subset_insert [of xs i v] by blast

lemma srrip_reject_inv: "srrip_inv att n (p, e) \<Longrightarrow>
    srrip_inv att n (p\<lparr>m_rrip_bits := (m_rrip_bits p)[i := 0]\<rparr>, incrementQBSLookupCost e)"
  using set_list_update_le [of "m_rrip_bits p" "m_rrip_max p" 0 i] by (simp add: srrip_inv_def)

lemma srrip_insert_inv: "srrip_inv att n (p, e) \<Longrightarrow> env_ok n att e' \<Longrightarrow>
    srrip_inv att n (p\<lparr>m_rrip_bits := (m_rrip_bits p)[i := m_rrip_insert p]\<rparr>, e')"
  using set_list_update_le [of "m_rrip_bits p" "m_rrip_max p" "m_rrip_max p - 1" i] by (simp add: srrip_inv_def)

lemma srrip_advance_inv: "srrip_inv att n (p, e) \<Longrightarrow>
    srrip_inv att n (p\<lparr>srrip_replacement_pointer := advance_pointer n (srrip_replacement_pointer p)\<rparr>, e)"
  by (auto simp: srrip_inv_def advance_pointer_less)

lemma srrip_pass_inv:
  assumes "srrip_inv att (m_associativity s) pe"
  shows "case srrip_pass cntlr s r a pe of
       Inl (Inr (i, pe')) \<Rightarrow> i < m_associativity s \<and> srrip_inv att (m_associativity s) pe'
     | Inl (Inl err) \<Rightarrow> True
     | Inr (a', pe') \<Rightarrow> srrip_inv att (m_associativity s) pe'"
  using assms
proof (induction cntlr s r a pe rule: srrip_pass.induct)
  case (2 cntlr s r a p e)
  let ?n = "m_associativity s" and ?ptr = "srrip_replacement_pointer p"
  let ?adv = "p\<lparr>srrip_replacement_pointer := advance_pointer ?n ?ptr\<rparr>"
  have ptr: "?ptr < ?n" using "2.prems" by (simp add: srrip_inv_def)
  note adv = srrip_advance_inv [OF "2.prems"]
  show ?case
  proof (cases "m_rrip_bits p ! ?ptr \<ge> m_rrip_max p")
    case False
    then show ?thesis using "2.IH"(2) [OF refl refl False] adv by (simp add: Let_def)
  next
    case True
    show ?thesis
    proof (cases "qbs_query cntlr s a (srrip_num_attempts p) ?ptr")
      case (Inl err)
      then show ?thesis using True by (simp add: Let_def)
    next
      case q: (Inr rej)
      show ?thesis
      proof (cases rej)
        case rejT: True
        then show ?thesis
          using "2.IH"(1) [OF refl refl True refl q] srrip_reject_inv [OF "2.prems"] True q by (simp add: Let_def)
      next
        case False
        have eq: "?adv\<lparr>m_rrip_bits := (m_rrip_bits p)[?ptr := m_rrip_insert p]\<rparr> =
            ?adv\<lparr>m_rrip_bits := (m_rrip_bits ?adv)[?ptr := m_rrip_insert ?adv]\<rparr>" by simp
        have "srrip_inv att ?n (?adv\<lparr>m_rrip_bits := (m_rrip_bits p)[?ptr := m_rrip_insert p]\<rparr>, e')"
          if "si_incrementAttempt a e = Inr e'" for e'
          unfolding eq by (rule srrip_insert_inv [OF adv])
            (use si_incrementAttempt_Inr [OF that] "2.prems" in \<open>auto simp: srrip_inv_def\<close>)
        then show ?thesis
          using False True q ptr by (cases "si_incrementAttempt a e") (auto simp: Let_def)
      qed
    qed
  qed
qed simp

lemma srrip_age_loop:
  assumes "k \<le> length bits" "m < 256"
  shows "foldl (\<lambda>b i. if b ! i < m then b[i := u8_inc (b ! i)] else b) bits [0..<k] =
    map (\<lambda>i. if i < k \<and> bits ! i < m then Suc (bits ! i) else bits ! i) [0..<length bits]"
  using assms(1)
proof (induction k)
  case 0
  then show ?case by (simp add: map_nth)
next
  case (Suc k)
  have inc: "bits ! k < m \<Longrightarrow> u8_inc (bits ! k) = Suc (bits ! k)" using assms(2) by simp
  show ?case using Suc inc
    by (auto simp: upt_Suc_append simp del: upt_Suc intro!: nth_equalityI) (auto simp: nth_list_update less_Suc_eq)
qed

lemma srrip_age_bits:
  assumes "srrip_inv att (m_associativity s) (p, e)"
  shows "m_rrip_bits (srrip_age s p) =
    map (\<lambda>b. if b < m_rrip_max p then Suc b else b) (m_rrip_bits p)"
proof -
  have l: "length (m_rrip_bits p) = m_associativity s" and m: "m_rrip_max p < 256"
    using assms by (auto simp: srrip_inv_def)
  show ?thesis
    unfolding srrip_age_def using srrip_age_loop [OF le_refl m, of "m_rrip_bits p"]
    by (auto simp: l intro: nth_equalityI)
qed

lemma srrip_age_inv: "srrip_inv att (m_associativity s) (p, e) \<Longrightarrow> srrip_inv att (m_associativity s) (srrip_age s p, e)"
  using srrip_age_bits [of att s p e] by (auto simp: srrip_inv_def srrip_age_def)

lemma srrip_rounds_inv:
  assumes "srrip_rounds cntlr s j a pe = Inr (i, pe')" "srrip_inv att (m_associativity s) pe"
  shows "i < m_associativity s \<and> srrip_inv att (m_associativity s) pe'"
  using assms
proof (induction cntlr s j a pe rule: srrip_rounds.induct)
  case (2 cntlr s j a p e)
  note P = srrip_pass_inv [OF "2.prems"(2), of cntlr "m_associativity s" a]
  show ?case
  proof (cases "srrip_pass cntlr s (m_associativity s) a (p, e)")
    case (Inl r)
    then show ?thesis using P "2.prems"(1) by (cases r) auto
  next
    case (Inr t)
    obtain a' p' e' where t: "t = (a', p', e')" by (cases t) auto
    have "srrip_inv att (m_associativity s) (srrip_age s p', e')"
      using P Inr t by (auto intro: srrip_age_inv)
    then show ?thesis using "2.IH" [OF Inr t [symmetric] refl] "2.prems"(1) Inr t by auto
  qed
qed simp

lemma srrip_touch_inv:
  assumes "srrip_inv att (m_associativity s) (q, e)" "srrip_updateReplacementIndex s i (q, e) = Inr p'" "i < m_associativity s"
  shows "srrip_inv att (m_associativity s) p'"
proof -
  obtain e' where e': "si_increment (m_rrip_bits q ! i) e = Inr e'"
      and p': "p' = (if m_rrip_bits q ! i > 0 then q\<lparr>m_rrip_bits := (m_rrip_bits q)[i := m_rrip_bits q ! i - 1]\<rparr> else q, e')"
    using assms(2) by (auto simp: srrip_updateReplacementIndex_def split: if_splits)
  have "m_rrip_bits q ! i - 1 \<le> m_rrip_max q"
    using assms(1,3) nth_mem [of i "m_rrip_bits q"] by (fastforce simp: srrip_inv_def intro: le_trans [OF diff_le_self])
  then show ?thesis
    using assms(1) si_increment_Inr [OF e'] p'
      set_list_update_le [of "m_rrip_bits q" "m_rrip_max q" "m_rrip_bits q ! i - 1" i]
    by (simp add: srrip_inv_def)
qed

lemma srrip_pick_inv:
  assumes "srrip_inv att (m_associativity s) (q, e)" "srrip_getReplacementIndex cntlr s (q, e) = Inr (i, p')"
  shows "i < m_associativity s \<and> srrip_inv att (m_associativity s) p'"
proof (cases "first_invalid s")
  case None
  then have "srrip_rounds cntlr s (m_rrip_max q + 1) 0 (q, e) = Inr (i, p')"
    using assms(2) by (simp add: srrip_getReplacementIndex_def del: srrip_rounds.simps)
  then show ?thesis using assms(1) srrip_rounds_inv by blast
next
  case (Some j)
  have "env_ok (m_associativity s) att e" using assms(1) by (simp add: srrip_inv_def)
  then show ?thesis
    using assms srrip_insert_inv [OF assms(1), of e j] first_invalid_less [OF Some]
    by (auto simp: srrip_getReplacementIndex_def Some)
qed

interpretation srrip: filling_policy "srrip_getReplacementIndex cntlr" srrip_updateReplacementIndex "srrip_inv att" for cntlr att
proof
  fix s :: cache_set and i and p p' :: "cache_set_srrip \<times> repl_env"
  assume inv: "srrip_inv att (m_associativity s) p"
  obtain q e where p: "p = (q, e)" by fastforce
  { assume "srrip_getReplacementIndex cntlr s p = Inr (i, p')"
    then show "i < m_associativity s \<and> srrip_inv att (m_associativity s) p'"
      using srrip_pick_inv inv p by blast
  next
    assume "i < m_associativity s" "srrip_updateReplacementIndex s i p = Inr p'"
    then show "srrip_inv att (m_associativity s) p'" using srrip_touch_inv inv p by blast
  next
    fix j
    assume "first_invalid s = Some j" "srrip_getReplacementIndex cntlr s p = Inr (i, p')"
    then show "i = j" by (auto simp: p srrip_getReplacementIndex_def) }
qed

lemma srrip_pass_plain_returns:
  assumes "srrip_inv 1 (m_associativity s) (p, e)" "quiescent s"
  shows "(\<exists>x. srrip_pass cntlr s r 0 (p, e) = Inl (Inr x)) \<or>
    (\<exists>p'. srrip_pass cntlr s r 0 (p, e) = Inr (0, p', e) \<and> m_rrip_bits p' = m_rrip_bits p \<and>
      m_rrip_max p' = m_rrip_max p \<and> srrip_inv 1 (m_associativity s) (p', e) \<and>
      (\<forall>k<r. m_rrip_bits p ! ((srrip_replacement_pointer p + k) mod m_associativity s) < m_rrip_max p))"
  using assms(1)
proof (induction r arbitrary: p)
  case (Suc r)
  let ?n = "m_associativity s" and ?ptr = "srrip_replacement_pointer p"
  let ?adv = "p\<lparr>srrip_replacement_pointer := advance_pointer ?n ?ptr\<rparr>"
  have n: "0 < ?n" "?n \<le> 256" "?ptr < ?n" and env: "env_ok ?n 1 e"
    using Suc.prems by (auto simp: srrip_inv_def)
  show ?case
  proof (cases "m_rrip_bits p ! ?ptr \<ge> m_rrip_max p")
    case True
    have "qbs_query cntlr s 0 (srrip_num_attempts p) ?ptr = Inr False"
      using Suc.prems by (simp add: qbs_query_def srrip_inv_def)
    moreover obtain e' where "si_incrementAttempt 0 e = Inr e'"
      using si_incrementAttempt_returns [OF env] by auto
    ultimately show ?thesis using True quiescentD [OF assms(2) n(3)] by (simp add: Let_def)
  next
    case False
    then have step: "srrip_pass cntlr s (Suc r) 0 (p, e) = srrip_pass cntlr s r 0 (?adv, e)"
      by (simp add: Let_def)
    from Suc.IH [OF srrip_advance_inv [OF Suc.prems]]
    show ?thesis
    proof (elim disjE)
      assume "\<exists>x. srrip_pass cntlr s r 0 (?adv, e) = Inl (Inr x)"
      then show ?thesis unfolding step by blast
    next
      assume "\<exists>p'. srrip_pass cntlr s r 0 (?adv, e) = Inr (0, p', e) \<and> m_rrip_bits p' = m_rrip_bits ?adv \<and>
        m_rrip_max p' = m_rrip_max ?adv \<and> srrip_inv 1 ?n (p', e) \<and>
        (\<forall>k<r. m_rrip_bits ?adv ! ((srrip_replacement_pointer ?adv + k) mod ?n) < m_rrip_max ?adv)"
      then show ?thesis
        using ring_step [OF n(3), of r "\<lambda>i. m_rrip_bits p ! i < m_rrip_max p"] False n
        unfolding step by (auto simp: advance_pointer_eq)
    qed
  qed
qed simp

lemma srrip_rounds_plain_returns:
  assumes "srrip_inv 1 (m_associativity s) (p, e)" "quiescent s"
    and "m_rrip_max p - m_rrip_bits p ! 0 < j"
  shows "\<exists>x. srrip_rounds cntlr s j 0 (p, e) = Inr x"
  using assms(1,3)
proof (induction j arbitrary: p)
  case (Suc j)
  let ?n = "m_associativity s"
  have n: "0 < ?n" "srrip_replacement_pointer p < ?n" "length (m_rrip_bits p) = ?n"
    using Suc.prems by (auto simp: srrip_inv_def)
  from srrip_pass_plain_returns [OF Suc.prems(1) assms(2), of cntlr ?n]
  show ?case
  proof (elim disjE exE conjE)
    fix p'
    assume pass: "srrip_pass cntlr s ?n 0 (p, e) = Inr (0, p', e)" and b: "m_rrip_bits p' = m_rrip_bits p"
      and m: "m_rrip_max p' = m_rrip_max p" and inv: "srrip_inv 1 ?n (p', e)"
      and all: "\<forall>k<?n. m_rrip_bits p ! ((srrip_replacement_pointer p + k) mod ?n) < m_rrip_max p"
    obtain k where k: "k < ?n" and k0: "(srrip_replacement_pointer p + k) mod ?n = 0"
      by (rule ring_coverE [OF n(1,2)])
    have "m_rrip_bits p ! ((srrip_replacement_pointer p + k) mod ?n) < m_rrip_max p" using all k by blast
    then have lt: "m_rrip_bits p ! 0 < m_rrip_max p" by (simp only: k0)
    have "m_rrip_bits (srrip_age s p') ! 0 = Suc (m_rrip_bits p ! 0)"
      using lt n srrip_age_bits [OF inv] b m by simp
    then have "\<exists>x. srrip_rounds cntlr s j 0 (srrip_age s p', e) = Inr x"
      using Suc.prems(2) lt m by (intro Suc.IH srrip_age_inv [OF inv]) (auto simp: srrip_age_def)
    then show ?thesis by (simp add: pass)
  next
    fix x
    assume "srrip_pass cntlr s ?n 0 (p, e) = Inl (Inr x)"
    then show ?thesis by (cases x) simp
  qed
qed simp

interpretation srrip_live: live_policy "srrip_getReplacementIndex cntlr" srrip_updateReplacementIndex "srrip_inv 1" for cntlr
proof
  fix s :: cache_set and p :: "cache_set_srrip \<times> repl_env"
  assume inv: "srrip_inv 1 (m_associativity s) p" and q: "quiescent s"
  obtain l e where p: "p = (l, e)" by fastforce
  have "\<exists>x. srrip_rounds cntlr s (m_rrip_max l + 1) 0 (l, e) = Inr x"
    using inv q by (intro srrip_rounds_plain_returns) (auto simp: p)
  then show "\<exists>r. srrip_getReplacementIndex cntlr s p = Inr r"
    by (auto simp: p srrip_getReplacementIndex_def simp del: srrip_rounds.simps split: option.split)
qed

end
