(* ===== verification/Replacement_Properties.thy ===== *)
theory Replacement_Properties
  imports Replacement
begin

text \<open>
  What the replacement policies promise a cache set: LRU refines a move-to-front list and evicts
  its end, tree PLRU avoids the last way used, and the places where a policy chooses a line it
  should not, or stops the simulator.
\<close>

section \<open>Example sets\<close>

definition line :: "IntPtr \<Rightarrow> cstate_t \<Rightarrow> cache_block_info" where
  "line tag st = CacheBlockInfo PR_L1_CACHE tag st 0"

definition example_set :: "cstate_t list \<Rightarrow> cache_set" where
  "example_set sts = \<lparr>m_cache_block_info_array = map (\<lambda>i. line (of_nat i) (sts ! i)) [0..<length sts],
     m_blocks = None, m_associativity = length sts, m_blocksize = 64\<rparr>"

definition example_env :: "nat \<Rightarrow> nat \<Rightarrow> repl_env" where
  "example_env n num_attempts = \<lparr>env_info = CacheSetInfoLRU n num_attempts, env_qbs = 0\<rparr>"

abbreviation (input) full4 :: cache_set where
  "full4 \<equiv> example_set [SHARED, MODIFIED, SHARED, SHARED]"

lemma example_set_assoc [simp]: "m_associativity (example_set sts) = length sts"
  by (simp add: example_set_def)

lemma example_set_valid [simp]: "i < length sts \<Longrightarrow> isValidReplacement (example_set sts) i \<longleftrightarrow> sts ! i \<noteq> SHARED_UPGRADING"
  by (simp add: example_set_def isValidReplacement_def line_def CacheBlockInfo_def)

lemma example_set_wf [simp]: "set_wf (example_set sts) \<longleftrightarrow> sts \<noteq> []"
  by (simp add: set_wf_def example_set_def)

lemma example_set_quiescent: "SHARED_UPGRADING \<notin> set sts \<Longrightarrow> quiescent (example_set sts)"
  by (auto simp: quiescent_def in_set_conv_nth)

lemma example_set_full: "length sts \<le> 256 \<Longrightarrow> first_invalid (example_set sts) = None"
proof -
  assume l: "length sts \<le> 256"
  have "(of_nat i :: IntPtr) \<noteq> - 1" if "i < length sts" for i
  proof
    assume "(of_nat i :: IntPtr) = - 1"
    then have "unat (of_nat i :: IntPtr) = unat (- 1 :: IntPtr)" by (rule arg_cong)
    then show False using that l by (simp add: unat_of_nat unsigned_minus_1_eq_mask mask_eq_exp_minus_1)
  qed
  then show ?thesis
    by (auto simp: first_invalid_def find_upt_None_iff example_set_def line_def CacheBlockInfo_def isValid_def)
qed

lemma full4_assoc: "m_associativity full4 = 4"
  by simp

lemmas example_simps = example_set_def line_def CacheBlockInfo_def first_invalid_def isValid_def
  isValidReplacement_def example_env_def CacheSetInfoLRU_def

text \<open>
  C23: recording a use of way \<open>i\<close> in an LRU set succeeds and moves \<open>i\<close> to the front of the
  recency order that the counters encode, leaving the order of the other ways unchanged: the
  counters refine a move-to-front list.
\<close>

theorem lru_update_moves_to_front:
  assumes "lru_inv (m_associativity s) (p, e)" and "i < m_associativity s"
  shows "\<exists>p' e'. lru_updateReplacementIndex s i (p, e) = Inr (p', e') \<and> lru_inv (m_associativity s) (p', e') \<and>
    recency (m_lru_bits p') = i # remove1 i (recency (m_lru_bits p))"
proof -
  have perm: "lru_perm (m_associativity s) (m_lru_bits p)" and env: "env_ok (m_associativity s) (lru_num_attempts p) e"
    using assms(1) by (auto simp: lru_inv_def)
  obtain e' where e': "si_increment (m_lru_bits p ! i) e = Inr e'"
    using si_increment_returns [OF env] lru_permD(3) [OF perm assms(2)] by blast
  then show ?thesis
    using recency_moveToMRU [OF perm assms(2)] lru_perm_moveToMRU [OF perm assms(2)]
      si_increment_Inr [OF e' env] assms(1)
    by (auto simp: lru_updateReplacementIndex_def lru_inv_def)
qed

lemma lru_inv_init: "0 < n \<Longrightarrow> n \<le> 256 \<Longrightarrow> 0 < a \<Longrightarrow> lru_inv n (CacheSetLRU n a, example_env n a)"
  by (simp add: lru_inv_def CacheSetLRU_def lru_perm_init env_ok_def example_env_def CacheSetInfoLRU_def)

theorem lru_update_moves_to_front_witness:
  "\<exists>p' e'. lru_updateReplacementIndex full4 2 (CacheSetLRU 4 1, example_env 4 1)
     = Inr (p', e') \<and> recency (m_lru_bits p') = 2 # remove1 2 (recency (m_lru_bits (CacheSetLRU 4 1)))"
proof -
  have i: "lru_inv (m_associativity full4) (CacheSetLRU 4 1, example_env 4 1)" unfolding full4_assoc by (rule lru_inv_init) simp_all
  show ?thesis using lru_update_moves_to_front [OF i, of 2] by force
qed

lemma remove1_last: "xs \<noteq> [] \<Longrightarrow> distinct xs \<Longrightarrow> remove1 (last xs) xs = butlast xs"
  by (induction xs rule: rev_induct) (auto simp: remove1_append)

text \<open>
  C22: in a full set with no line in the middle of an upgrade, LRU without query-based selection
  always returns, evicts the way at the end of the recency order, and makes it the most recent.
\<close>

theorem lru_evicts_least_recent:
  assumes "set_wf s" and "first_invalid s = None" and "quiescent s"
    and "lru_inv (m_associativity s) (p, e)" and "lru_num_attempts p = 1"
  shows "\<exists>p' e'. lru_getReplacementIndex cntlr s (p, e) = Inr (last (recency (m_lru_bits p)), p', e') \<and>
    recency (m_lru_bits p') = last (recency (m_lru_bits p)) # butlast (recency (m_lru_bits p))"
proof -
  let ?n = "m_associativity s" and ?b = "m_lru_bits p"
  let ?v = "last (recency ?b)"
  have perm: "lru_perm ?n ?b" and env: "env_ok ?n (lru_num_attempts p) e" using assms(4) by (auto simp: lru_inv_def)
  have sc: "lru_scan s ?b = ?v"
    using lru_scan_oldest [OF perm set_wf_pos [OF assms(1)]] assms(3) by (simp add: quiescent_def)
  have v: "?v < ?n" using lru_scan_less [OF set_wf_pos [OF assms(1)], of ?b] by (simp add: sc)
  obtain e' where e': "si_incrementAttempt 0 e = Inr e'"
    using si_incrementAttempt_returns [OF env, of 0] assms(5) by auto
  have "length (recency ?b) = ?n" using lru_permD(1) [OF perm] by (simp add: recency_def)
  then have ne: "recency ?b \<noteq> []" using set_wf_pos [OF assms(1)] by auto
  moreover have "distinct (recency ?b)" by (simp add: recency_def)
  ultimately have "remove1 ?v (recency ?b) = butlast (recency ?b)"
    by (rule remove1_last)
  then show ?thesis
    using recency_moveToMRU [OF perm v] v sc e' assms(2,5)
    by (simp add: lru_getReplacementIndex_def lru_attempt.simps [of cntlr s 0] qbs_query_def Let_def)
qed

theorem lru_evicts_least_recent_witness:
  "\<exists>p' e'. lru_getReplacementIndex None full4 (CacheSetLRU 4 1, example_env 4 1)
     = Inr (last (recency (m_lru_bits (CacheSetLRU 4 1))), p', e')"
proof -
  let ?s = full4
  have h: "set_wf ?s" "first_invalid ?s = None" "quiescent ?s"
    by (simp_all add: example_set_quiescent example_set_full)
  have i: "lru_inv (m_associativity ?s) (CacheSetLRU 4 1, example_env 4 1)"
    unfolding full4_assoc by (rule lru_inv_init) simp_all
  show ?thesis using lru_evicts_least_recent [OF h i, of None] by (auto simp: CacheSetLRU_def)
qed

definition upgrading_set :: cache_set where
  "upgrading_set = example_set [SHARED_UPGRADING, MODIFIED]"

text \<open>
  The LRU scan starts from way 0 and takes a way only when its counter exceeds 0, so when the
  most recent way is the only one that may be replaced, it returns way 0 even though that line is
  in the middle of an upgrade; the most-recently-used policy does not have this gap.
\<close>

theorem lru_may_evict_upgrading_line:
  "lru_inv 2 (\<lparr>lru_num_attempts = 1, m_lru_bits = [1, 0]\<rparr>, example_env 2 1) \<and>
   \<not> isValidReplacement upgrading_set 0 \<and> isValidReplacement upgrading_set 1 \<and>
   (\<exists>p' e'. lru_getReplacementIndex None upgrading_set
      (\<lparr>lru_num_attempts = 1, m_lru_bits = [1, 0]\<rparr>, example_env 2 1) = Inr (0, p', e')) \<and>
   mru_getReplacementIndex upgrading_set [1, 0] = Inr (1, [1, 0])"
proof -
  have "lru_inv 2 (\<lparr>lru_num_attempts = 1, m_lru_bits = [1, 0]\<rparr>, example_env 2 1)"
    by (auto simp: lru_inv_def lru_perm_def env_ok_def example_env_def CacheSetInfoLRU_def)
  moreover have "lru_getReplacementIndex None upgrading_set
      (\<lparr>lru_num_attempts = 1, m_lru_bits = [1, 0]\<rparr>, example_env 2 1) =
      Inr (0, \<lparr>lru_num_attempts = 1, m_lru_bits = [0, 1]\<rparr>, example_env 2 1)"
    by code_simp
  moreover have "mru_getReplacementIndex upgrading_set [1, 0] = Inr (1, [1, 0])" by code_simp
  ultimately show ?thesis by (auto simp: upgrading_set_def)
qed

text \<open>
  Round robin tests the next pointer instead of the victim it returns: a fresh 2-way set whose
  last line is in the middle of an upgrade has exactly that line chosen.
\<close>

theorem round_robin_may_evict_upgrading_line:
  "\<not> isValidReplacement (example_set [SHARED, SHARED_UPGRADING]) 1 \<and>
   round_robin_pick (example_set [SHARED, SHARED_UPGRADING]) (round_robin_init 2) = Inr (1, 0)"
  by (simp add: round_robin_pick_def round_robin_getReplacementIndex.simps round_robin_init_def example_simps)

text \<open>
  SRRIP records the prediction value of an accessed way in the access histogram, which has one
  entry per way; a freshly filled 2-way set with 2-bit predictions therefore stops the simulator on
  its first hit.
\<close>

theorem srrip_hit_fails_assertion:
  "srrip_updateReplacementIndex (example_set [SHARED, SHARED]) 0 (CacheSetSRRIP 2 2 1, example_env 2 1)
     = Inl (LOG_ASSERT_ERROR ''Index >= Associativity'')"
  by (simp add: srrip_updateReplacementIndex_def CacheSetSRRIP_def si_increment_def example_simps Let_def u8_def)

text \<open>
  SRRIP with query-based selection can end in the error branch although every line is
  replaceable: a rejected way keeps the pointer and costs a second round, so with two ways and two
  attempts the second way is never examined in the last pass.
\<close>

theorem srrip_qbs_may_fail:
  "quiescent (example_set [SHARED, SHARED]) \<and>
   srrip_getReplacementIndex (Some (\<lambda>b. m_tag b = 0)) (example_set [SHARED, SHARED])
     ((CacheSetSRRIP 2 2 2)\<lparr>m_rrip_bits := [0, 0]\<rparr>, example_env 2 2)
   = Inl (LOG_PRINT_ERROR ''Error finding replacement index'')"
proof
  show "quiescent (example_set [SHARED, SHARED])" by (simp add: example_set_quiescent)
qed code_simp

text \<open>
  NRU counts uses, not set bits: four uses of one way of a fresh 4-way set clear all
  not-recently-used bits although three ways were never used.
\<close>

theorem nru_resets_by_use_count:
  "foldl (\<lambda>p i. nru_updateReplacementIndex full4 i p) (CacheSetNRU 4) [0, 0, 0, 0]
   = \<lparr>nru_lru_bits = [0, 0, 0, 0], m_num_bits_set = 0, nru_replacement_pointer = 0\<rparr> \<and>
   nru_lru_bits (foldl (\<lambda>p i. nru_updateReplacementIndex full4 i p) (CacheSetNRU 4) [0, 0, 0]) = [1, 0, 0, 0]"
  by code_simp

text \<open>
  After way \<open>i\<close> of a 4- or 8-way tree-PLRU set is used, the tree never points at \<open>i\<close>: the
  victim of the next eviction is another way.
\<close>

theorem plru_never_evicts_last_used:
  assumes "plru_inv (m_associativity s) b" and "i < m_associativity s"
  shows "\<exists>b' v. plru_updateReplacementIndex s i b = Inr b' \<and> plru_victim s b' = Inr v \<and>
    v < m_associativity s \<and> v \<noteq> i"
proof -
  obtain b' where b': "plru_updateReplacementIndex s i b = Inr b'"
    using plru_touch_returns [OF assms(1)] by blast
  obtain v where v: "plru_victim s b' = Inr v"
    using plru_victim_returns [OF plru_touch_inv [OF assms(1) b']] by blast
  show ?thesis
    using b' v plru_victim_less [OF v] plru_not_most_recent [OF assms b' v] by blast
qed

theorem plru_never_evicts_last_used_witness:
  "plru_inv 4 (replicate 8 0) \<and>
   (\<exists>b' v. plru_updateReplacementIndex full4 2 (replicate 8 0) = Inr b' \<and>
      plru_victim full4 b' = Inr v \<and> v < 4 \<and> v \<noteq> 2)"
proof -
  have i: "plru_inv (m_associativity full4) (replicate 8 0)" by (simp add: plru_inv_def)
  show ?thesis using i plru_never_evicts_last_used [OF i, of 2] unfolding full4_assoc by simp
qed
end
