(* ===== verification/Cache_Set.thy ===== *)
theory Cache_Set
  imports Replacement_Properties
begin

unbundle bit_operations_syntax

text \<open>
  \<^verbatim>\<open>cache/cache_set.{h,cc}\<close>: the operations of the base class \<^verbatim>\<open>CacheSet\<close>, the factory
  functions, and the virtual dispatch to the replacement policies. The line data
  \<^verbatim>\<open>m_blocks\<close> exist only when fault injection is configured.
\<close>

section \<open>Policy objects\<close>

datatype ReplacementPolicy =
    ROUND_ROBIN
  | LRU
  | LRU_QBS
  | NRU
  | MRU
  | NMRU
  | PLRU
  | SRRIP
  | SRRIP_QBS
  | RANDOM

datatype policy =
    P_RoundRobin nat
  | P_LRU cache_set_lru
  | P_NRU cache_set_nru
  | P_MRU "nat list"
  | P_NMRU cache_set_nmru
  | P_PLRU "nat list"
  | P_SRRIP cache_set_srrip
  | P_Random UInt32

definition parsePolicyType :: "string \<Rightarrow> ReplacementPolicy result" where
  "parsePolicyType policy =
     (if policy = ''round_robin'' then Inr ROUND_ROBIN
      else if policy = ''lru'' then Inr LRU
      else if policy = ''lru_qbs'' then Inr LRU_QBS
      else if policy = ''nru'' then Inr NRU
      else if policy = ''mru'' then Inr MRU
      else if policy = ''nmru'' then Inr NMRU
      else if policy = ''plru'' then Inr PLRU
      else if policy = ''srrip'' then Inr SRRIP
      else if policy = ''srrip_qbs'' then Inr SRRIP_QBS
      else if policy = ''random'' then Inr RANDOM
      else Inl (LOG_PRINT_ERROR ''Unknown replacement policy''))"

text \<open>
  The configuration values the factory reads (\<^verbatim>\<open>qbs/attempts\<close>, \<^verbatim>\<open>srrip/bits\<close>) and the
  clock used as the random seed are arguments.
\<close>

record set_config =
  cfg_qbs_attempts :: nat
  cfg_srrip_bits :: nat
  cfg_time :: UInt32

definition getNumQBSAttempts :: "ReplacementPolicy \<Rightarrow> set_config \<Rightarrow> nat" where
  "getNumQBSAttempts policy cfg =
     (case policy of LRU_QBS \<Rightarrow> u8 (cfg_qbs_attempts cfg) | SRRIP_QBS \<Rightarrow> u8 (cfg_qbs_attempts cfg) | _ \<Rightarrow> 1)"

definition createCacheSet_policy :: "ReplacementPolicy \<Rightarrow> set_config \<Rightarrow> nat \<Rightarrow> policy result" where
  "createCacheSet_policy policy cfg associativity =
     (case policy of
        ROUND_ROBIN \<Rightarrow> Inr (P_RoundRobin (round_robin_init associativity))
      | LRU \<Rightarrow> Inr (P_LRU (CacheSetLRU associativity (getNumQBSAttempts policy cfg)))
      | LRU_QBS \<Rightarrow> Inr (P_LRU (CacheSetLRU associativity (getNumQBSAttempts policy cfg)))
      | NRU \<Rightarrow> Inr (P_NRU (CacheSetNRU associativity))
      | MRU \<Rightarrow> Inr (P_MRU (lru_bits_init associativity))
      | NMRU \<Rightarrow> Inr (P_NMRU (CacheSetNMRU associativity))
      | PLRU \<Rightarrow> bindE (CacheSetPLRU associativity) (\<lambda>b. Inr (P_PLRU b))
      | SRRIP \<Rightarrow> Inr (P_SRRIP (CacheSetSRRIP (cfg_srrip_bits cfg) associativity (getNumQBSAttempts policy cfg)))
      | SRRIP_QBS \<Rightarrow> Inr (P_SRRIP (CacheSetSRRIP (cfg_srrip_bits cfg) associativity (getNumQBSAttempts policy cfg)))
      | RANDOM \<Rightarrow> Inr (P_Random (cfg_time cfg)))"

text \<open>
  \<^verbatim>\<open>createCacheSetInfo\<close>: the statistics object exists for the LRU and SRRIP families only;
  for the others the environment holds one that is never used.
\<close>

definition createCacheSetInfo :: "ReplacementPolicy \<Rightarrow> set_config \<Rightarrow> nat \<Rightarrow> cache_set_info_lru option" where
  "createCacheSetInfo policy cfg associativity =
     (case policy of
        LRU \<Rightarrow> Some (CacheSetInfoLRU associativity (getNumQBSAttempts policy cfg))
      | LRU_QBS \<Rightarrow> Some (CacheSetInfoLRU associativity (getNumQBSAttempts policy cfg))
      | SRRIP \<Rightarrow> Some (CacheSetInfoLRU associativity (getNumQBSAttempts policy cfg))
      | SRRIP_QBS \<Rightarrow> Some (CacheSetInfoLRU associativity (getNumQBSAttempts policy cfg))
      | _ \<Rightarrow> None)"

definition getReplacementIndex ::
  "cache_cntlr \<Rightarrow> cache_set \<Rightarrow> policy \<times> repl_env \<Rightarrow> (nat \<times> policy \<times> repl_env) result" where
  "getReplacementIndex cntlr s = (\<lambda>(p, e).
     case p of
       P_RoundRobin r \<Rightarrow> bindE (round_robin_pick s r) (\<lambda>(i, r'). Inr (i, P_RoundRobin r', e))
     | P_LRU l \<Rightarrow> bindE (lru_getReplacementIndex cntlr s (l, e)) (\<lambda>(i, l', e'). Inr (i, P_LRU l', e'))
     | P_NRU q \<Rightarrow> bindE (nru_getReplacementIndex s q) (\<lambda>(i, q'). Inr (i, P_NRU q', e))
     | P_MRU b \<Rightarrow> bindE (mru_getReplacementIndex s b) (\<lambda>(i, b'). Inr (i, P_MRU b', e))
     | P_NMRU q \<Rightarrow> bindE (nmru_getReplacementIndex s q) (\<lambda>(i, q'). Inr (i, P_NMRU q', e))
     | P_PLRU b \<Rightarrow> bindE (plru_getReplacementIndex s b) (\<lambda>(i, b'). Inr (i, P_PLRU b', e))
     | P_SRRIP q \<Rightarrow> bindE (srrip_getReplacementIndex cntlr s (q, e)) (\<lambda>(i, q', e'). Inr (i, P_SRRIP q', e'))
     | P_Random r \<Rightarrow> bindE (random_pick s r) (\<lambda>(i, r'). Inr (i, P_Random r', e)))"

definition updateReplacementIndex ::
  "cache_set \<Rightarrow> nat \<Rightarrow> policy \<times> repl_env \<Rightarrow> (policy \<times> repl_env) result" where
  "updateReplacementIndex s i = (\<lambda>(p, e).
     case p of
       P_RoundRobin r \<Rightarrow> Inr (P_RoundRobin r, e)
     | P_LRU l \<Rightarrow> bindE (lru_updateReplacementIndex s i (l, e)) (\<lambda>(l', e'). Inr (P_LRU l', e'))
     | P_NRU q \<Rightarrow> Inr (P_NRU (nru_updateReplacementIndex s i q), e)
     | P_MRU b \<Rightarrow> Inr (P_MRU (mru_updateReplacementIndex s i b), e)
     | P_NMRU q \<Rightarrow> Inr (P_NMRU (nmru_updateReplacementIndex s i q), e)
     | P_PLRU b \<Rightarrow> bindE (plru_updateReplacementIndex s i b) (\<lambda>b'. Inr (P_PLRU b', e))
     | P_SRRIP q \<Rightarrow> bindE (srrip_updateReplacementIndex s i (q, e)) (\<lambda>(q', e'). Inr (P_SRRIP q', e'))
     | P_Random r \<Rightarrow> Inr (P_Random r, e))"

section \<open>Operations of the base class\<close>

definition CacheSet :: "bool \<Rightarrow> cache_t \<Rightarrow> nat \<Rightarrow> nat \<Rightarrow> cache_set result" where
  "CacheSet fault_injection cache_type associativity blocksize =
     bindE (if associativity = 0 then Inr [] else bindE (create cache_type) (\<lambda>b. Inr (replicate associativity b)))
       (\<lambda>info_array.
         Inr \<lparr>m_cache_block_info_array = info_array,
              m_blocks = (if fault_injection then Some (replicate (associativity * blocksize) 0) else None),
              m_associativity = associativity, m_blocksize = blocksize\<rparr>)"

text \<open>\<open>splice i ys xs\<close> is \<^verbatim>\<open>memcpy(&xs[i], ys, |ys|)\<close>; \<open>slice\<close> reads the same range.\<close>

definition slice :: "nat \<Rightarrow> nat \<Rightarrow> 'a list \<Rightarrow> 'a list" where
  "slice i n xs = take n (drop i xs)"

definition splice :: "nat \<Rightarrow> 'a list \<Rightarrow> 'a list \<Rightarrow> 'a list" where
  "splice i ys xs = take i xs @ ys @ drop (i + length ys) xs"

definition read_line ::
  "(cache_set \<Rightarrow> nat \<Rightarrow> 'p \<Rightarrow> 'p result) \<Rightarrow> cache_set \<Rightarrow> nat \<Rightarrow> nat \<Rightarrow> bool \<Rightarrow> nat \<Rightarrow> bool \<Rightarrow> 'p
     \<Rightarrow> (UInt8 list option \<times> 'p) result" where
  "read_line touch s line_index offset out_buff bytes update_replacement p =
     bindE (assertE (u32 (offset + bytes) \<le> m_blocksize s) (ASSERT ''offset + bytes <= m_blocksize''))
       (\<lambda>_.
          let data = (case m_blocks s of
                        Some bl \<Rightarrow> if out_buff then Some (slice (line_index * m_blocksize s + offset) bytes bl) else None
                      | None \<Rightarrow> None)
          in bindE (if update_replacement then touch s line_index p else Inr p) (\<lambda>p'. Inr (data, p')))"

definition write_line ::
  "(cache_set \<Rightarrow> nat \<Rightarrow> 'p \<Rightarrow> 'p result) \<Rightarrow> cache_set \<Rightarrow> nat \<Rightarrow> nat \<Rightarrow> UInt8 list option \<Rightarrow> nat \<Rightarrow> bool \<Rightarrow> 'p
     \<Rightarrow> (cache_set \<times> 'p) result" where
  "write_line touch s line_index offset in_buff bytes update_replacement p =
     bindE (assertE (u32 (offset + bytes) \<le> m_blocksize s) (ASSERT ''offset + bytes <= m_blocksize''))
       (\<lambda>_.
          let s' = (case (in_buff, m_blocks s) of
                      (Some buf, Some bl) \<Rightarrow>
                        s\<lparr>m_blocks := Some (splice (line_index * m_blocksize s + offset) (take bytes buf) bl)\<rparr>
                    | _ \<Rightarrow> s)
          in bindE (if update_replacement then touch s' line_index p else Inr p) (\<lambda>p'. Inr (s', p')))"

definition find_line :: "cache_set \<Rightarrow> IntPtr \<Rightarrow> nat option" where
  "find_line s tag =
     List.find (\<lambda>index. m_tag (m_cache_block_info_array s ! index) = tag) (rev [0..<m_associativity s])"

definition set_invalidate :: "cache_set \<Rightarrow> IntPtr \<Rightarrow> bool \<times> cache_set" where
  "set_invalidate s tag =
     (case find_line s tag of
        Some index \<Rightarrow>
          (True, s\<lparr>m_cache_block_info_array :=
                     (m_cache_block_info_array s)[index := invalidate (m_cache_block_info_array s ! index)]\<rparr>)
      | None \<Rightarrow> (False, s))"

text \<open>
  \<^verbatim>\<open>CacheSet::insert\<close>, over the virtual \<^verbatim>\<open>getReplacementIndex\<close>. It returns the eviction
  flag, the block information written to \<^verbatim>\<open>evict_block_info\<close>, the bytes copied to
  \<^verbatim>\<open>evict_buff\<close>, and the new set.
\<close>

definition set_insert ::
  "(cache_set \<Rightarrow> 'p \<Rightarrow> (nat \<times> 'p) result) \<Rightarrow> cache_set \<Rightarrow> 'p \<Rightarrow> cache_block_info \<Rightarrow> UInt8 list option
     \<Rightarrow> cache_block_info \<Rightarrow> bool \<Rightarrow> ((bool \<times> cache_block_info \<times> UInt8 list option) \<times> cache_set \<times> 'p) result" where
  "set_insert pick s p cache_block_info fill_buff evict_block_info evict_buff =
     bindE (pick s p) (\<lambda>(index, p').
     bindE (assertE (index < m_associativity s) (ASSERT ''index < m_associativity'')) (\<lambda>_.
       let old = m_cache_block_info_array s ! index;
           eviction = isValid old;
           evicted = (if eviction then clone evict_block_info old else evict_block_info);
           evicted_data = (case m_blocks s of
                             Some bl \<Rightarrow> if eviction \<and> evict_buff then Some (slice (index * m_blocksize s) (m_blocksize s) bl) else None
                           | None \<Rightarrow> None);
           s1 = s\<lparr>m_cache_block_info_array := (m_cache_block_info_array s)[index := clone old cache_block_info]\<rparr>;
           s2 = (case (fill_buff, m_blocks s1) of
                   (Some buf, Some bl) \<Rightarrow> s1\<lparr>m_blocks := Some (splice (index * m_blocksize s) (take (m_blocksize s) buf) bl)\<rparr>
                 | _ \<Rightarrow> s1)
       in Inr ((eviction, evicted, evicted_data), s2, p')))"

section \<open>The dispatch keeps the contract of the policies\<close>

definition policy_inv :: "nat \<Rightarrow> policy \<times> repl_env \<Rightarrow> bool" where
  "policy_inv n = (\<lambda>(p, e).
     case p of
       P_RoundRobin r \<Rightarrow> r < n
     | P_LRU l \<Rightarrow> lru_inv n (l, e)
     | P_NRU q \<Rightarrow> nru_inv n q
     | P_MRU b \<Rightarrow> lru_perm n b
     | P_NMRU q \<Rightarrow> nmru_inv n q
     | P_PLRU b \<Rightarrow> plru_inv n b
     | P_SRRIP q \<Rightarrow> srrip_inv (srrip_num_attempts q) n (q, e)
     | P_Random r \<Rightarrow> True)"

lemma srrip_inv_attempts: "srrip_inv att n (q, e) \<Longrightarrow> srrip_num_attempts q = att"
  by (simp add: srrip_inv_def)

lemma getReplacementIndex_inv:
  assumes "set_wf s" "policy_inv (m_associativity s) (p, e)"
    and "getReplacementIndex cntlr s (p, e) = Inr (i, p', e')"
  shows "i < m_associativity s \<and> policy_inv (m_associativity s) (p', e')"
proof (cases p)
  case (P_RoundRobin r)
  then obtain r' where r': "p' = P_RoundRobin r'" "round_robin_pick s r = Inr (i, r')"
    using assms(3) by (auto simp: getReplacementIndex_def)
  then show ?thesis using round_robin.pick_inv [OF assms(1) _ r'(2)] assms(2) P_RoundRobin
    by (simp add: policy_inv_def)
next
  case (P_LRU l)
  then show ?thesis using assms lru.pick_inv [OF assms(1), of "(l, e)"]
    by (auto simp: getReplacementIndex_def policy_inv_def)
next
  case (P_NRU q)
  then show ?thesis using assms nru.pick_inv [OF assms(1), of q]
    by (auto simp: getReplacementIndex_def policy_inv_def)
next
  case (P_MRU b)
  then show ?thesis using assms mru.pick_inv [OF assms(1), of b]
    by (auto simp: getReplacementIndex_def policy_inv_def)
next
  case (P_NMRU q)
  then show ?thesis using assms nmru.pick_inv [OF assms(1), of q]
    by (auto simp: getReplacementIndex_def policy_inv_def)
next
  case (P_PLRU b)
  then show ?thesis using assms plru.pick_inv [OF assms(1), of b]
    by (auto simp: getReplacementIndex_def policy_inv_def)
next
  case (P_SRRIP q)
  obtain q' where q': "p' = P_SRRIP q'" "srrip_getReplacementIndex cntlr s (q, e) = Inr (i, q', e')"
    using assms(3) P_SRRIP by (auto simp: getReplacementIndex_def)
  have "i < m_associativity s \<and> srrip_inv (srrip_num_attempts q) (m_associativity s) (q', e')"
    using srrip.pick_inv [OF assms(1) _ q'(2)] assms(2) P_SRRIP by (simp add: policy_inv_def)
  then show ?thesis using srrip_inv_attempts by (auto simp: policy_inv_def q'(1))
next
  case (P_Random r)
  then show ?thesis using assms random.pick_inv [OF assms(1), of r]
    by (auto simp: getReplacementIndex_def policy_inv_def)
qed

lemma updateReplacementIndex_inv:
  assumes "set_wf s" "policy_inv (m_associativity s) (p, e)" "i < m_associativity s"
    and "updateReplacementIndex s i (p, e) = Inr (p', e')"
  shows "policy_inv (m_associativity s) (p', e')"
proof (cases p)
  case (P_LRU l)
  then show ?thesis using assms lru.touch_inv [OF assms(1), of "(l, e)" i]
    by (auto simp: updateReplacementIndex_def policy_inv_def)
next
  case (P_NRU q)
  then show ?thesis using assms nru_touch_inv by (fastforce simp: updateReplacementIndex_def policy_inv_def)
next
  case (P_MRU b)
  then show ?thesis using assms mru.touch_inv by (fastforce simp: updateReplacementIndex_def policy_inv_def)
next
  case (P_NMRU q)
  then show ?thesis using assms nmru.touch_inv by (fastforce simp: updateReplacementIndex_def policy_inv_def)
next
  case (P_PLRU b)
  then show ?thesis using assms plru.touch_inv by (fastforce simp: updateReplacementIndex_def policy_inv_def)
next
  case (P_SRRIP q)
  obtain q' where q': "p' = P_SRRIP q'" "srrip_updateReplacementIndex s i (q, e) = Inr (q', e')"
    using assms(4) P_SRRIP by (auto simp: updateReplacementIndex_def)
  have "srrip_inv (srrip_num_attempts q) (m_associativity s) (q', e')"
    using srrip.touch_inv [OF assms(1) _ assms(3) q'(2)] assms(2) P_SRRIP by (simp add: policy_inv_def)
  then show ?thesis using srrip_inv_attempts by (auto simp: policy_inv_def q'(1))
qed (use assms in \<open>auto simp: updateReplacementIndex_def policy_inv_def\<close>)

interpretation sets: replacement_policy "getReplacementIndex cntlr" updateReplacementIndex policy_inv for cntlr
  proof
  fix s i and p p' :: "policy \<times> repl_env"
  assume wf: "set_wf s" and inv: "policy_inv (m_associativity s) p"
  { assume "getReplacementIndex cntlr s p = Inr (i, p')"
    then show "i < m_associativity s \<and> policy_inv (m_associativity s) p'"
      using getReplacementIndex_inv [OF wf, of "fst p" "snd p" cntlr i "fst p'" "snd p'"] inv by simp
  next
    assume "i < m_associativity s" "updateReplacementIndex s i p = Inr p'"
    then show "policy_inv (m_associativity s) p'"
      using updateReplacementIndex_inv [OF wf, of "fst p" "snd p" i "fst p'" "snd p'"] inv by simp }
qed

definition plain_policy :: "nat \<Rightarrow> policy \<Rightarrow> bool" where
  "plain_policy n p =
     (case p of P_NMRU q \<Rightarrow> 2 \<le> n | P_SRRIP q \<Rightarrow> srrip_num_attempts q = 1 | _ \<Rightarrow> True)"

lemma getReplacementIndex_returns:
  assumes "set_wf s" "policy_inv (m_associativity s) (p, e)" "plain_policy (m_associativity s) p" "quiescent s"
  shows "\<exists>r. getReplacementIndex (Some q) s (p, e) = Inr r"
proof (cases p)
  case (P_RoundRobin r)
  then show ?thesis using assms round_robin.pick_returns [OF assms(1), of r]
    by (auto simp: getReplacementIndex_def policy_inv_def)
next
  case (P_LRU l)
  then show ?thesis using assms lru_live.pick_returns [OF assms(1), of "(l, e)" q]
    by (auto simp: getReplacementIndex_def policy_inv_def)
next
  case (P_NRU q)
  then show ?thesis using assms nru_live.pick_returns [OF assms(1), of q]
    by (auto simp: getReplacementIndex_def policy_inv_def)
next
  case (P_MRU b)
  then show ?thesis using assms mru_live.pick_returns [OF assms(1), of b]
    by (auto simp: getReplacementIndex_def policy_inv_def)
next
  case (P_NMRU q)
  then show ?thesis using assms nmru_live.pick_returns [OF assms(1), of q]
    by (auto simp: getReplacementIndex_def policy_inv_def plain_policy_def)
next
  case (P_PLRU b)
  then show ?thesis using assms plru_live.pick_returns [OF assms(1), of b]
    by (auto simp: getReplacementIndex_def policy_inv_def)
next
  case (P_SRRIP r)
  then show ?thesis using assms srrip_live.pick_returns [OF assms(1), of "(r, e)" "Some q"]
    by (auto simp: getReplacementIndex_def policy_inv_def plain_policy_def)
next
  case (P_Random r)
  then show ?thesis using assms random_live.pick_returns [OF assms(1), of r]
    by (auto simp: getReplacementIndex_def policy_inv_def)
qed

lemma plain_policy_pick:
  assumes "set_wf s" "policy_inv (m_associativity s) (p, e)"
    and "getReplacementIndex cntlr s (p, e) = Inr (i, p', e')" "plain_policy n p"
  shows "plain_policy n p'"
proof (cases p)
  case (P_SRRIP q)
  obtain q' where q': "p' = P_SRRIP q'" "srrip_getReplacementIndex cntlr s (q, e) = Inr (i, q', e')"
    using assms(3) P_SRRIP by (auto simp: getReplacementIndex_def)
  have "srrip_inv (srrip_num_attempts q) (m_associativity s) (q', e')"
    using srrip.pick_inv [OF assms(1) _ q'(2)] assms(2) P_SRRIP by (simp add: policy_inv_def)
  then show ?thesis using srrip_inv_attempts assms(4) by (auto simp: plain_policy_def q'(1) P_SRRIP)
qed (use assms(3,4) in \<open>auto simp: getReplacementIndex_def plain_policy_def\<close>)

lemma plain_policy_touch:
  assumes "updateReplacementIndex s i (p, e) = Inr (p', e')" "plain_policy n p"
  shows "plain_policy n p'"
  using assms
  by (auto simp: updateReplacementIndex_def plain_policy_def srrip_updateReplacementIndex_def
      split: policy.splits if_splits)

interpretation sets_live: live_policy "getReplacementIndex (Some q)" updateReplacementIndex
  "\<lambda>n x. policy_inv n x \<and> plain_policy n (fst x)" for q
proof
  fix s i and p p' :: "policy \<times> repl_env"
  assume wf: "set_wf s" and inv: "policy_inv (m_associativity s) p \<and> plain_policy (m_associativity s) (fst p)"
  { assume "getReplacementIndex (Some q) s p = Inr (i, p')"
    then show "i < m_associativity s \<and> policy_inv (m_associativity s) p' \<and> plain_policy (m_associativity s) (fst p')"
      using sets.pick_inv [OF wf, of p "Some q" i p'] inv
        plain_policy_pick [OF wf, of "fst p" "snd p" "Some q" i "fst p'" "snd p'"] by simp
  next
    assume "i < m_associativity s" "updateReplacementIndex s i p = Inr p'"
    then show "policy_inv (m_associativity s) p' \<and> plain_policy (m_associativity s) (fst p')"
      using sets.touch_inv [OF wf, of p i p'] inv
        plain_policy_touch [of s i "fst p" "snd p" "fst p'" "snd p'"] by simp
  next
    assume "quiescent s"
    then show "\<exists>r. getReplacementIndex (Some q) s p = Inr r"
      using getReplacementIndex_returns [OF wf, of "fst p" "snd p"] inv by simp }
qed

section \<open>A set holds a finite collection of tags\<close>

definition cached :: "cache_set \<Rightarrow> IntPtr set" where
  "cached s = m_tag ` {b \<in> set (m_cache_block_info_array s). isValid b}"

definition set_inv :: "cache_set \<Rightarrow> bool" where
  "set_inv s \<longleftrightarrow> set_wf s \<and> distinct (filter (\<lambda>t. t \<noteq> - 1) (map m_tag (m_cache_block_info_array s)))"

lemma distinct_filter_iff:
  "distinct (filter P xs) \<longleftrightarrow> (\<forall>i<length xs. \<forall>j<length xs. i \<noteq> j \<longrightarrow> P (xs ! i) \<longrightarrow> xs ! i \<noteq> xs ! j)"
proof (induction xs rule: rev_induct)
  case (snoc x xs)
  show ?case
    by (auto simp: snoc.IH nth_append less_Suc_eq in_set_conv_nth)
qed simp

lemma set_inv_iff: "set_inv s \<longleftrightarrow> set_wf s \<and>
    (\<forall>i<m_associativity s. \<forall>j<m_associativity s. i \<noteq> j \<longrightarrow>
      isValid (m_cache_block_info_array s ! i) \<longrightarrow>
      m_tag (m_cache_block_info_array s ! i) \<noteq> m_tag (m_cache_block_info_array s ! j))"
  unfolding set_inv_def distinct_filter_iff set_wf_def isValid_tag_NOT by (auto; metis)

lemma set_inv_wf: "set_inv s \<Longrightarrow> set_wf s"
  by (simp add: set_inv_def)

lemma in_cached_iff: "set_wf s \<Longrightarrow>
    t \<in> cached s \<longleftrightarrow> t \<noteq> - 1 \<and> (\<exists>i<m_associativity s. m_tag (m_cache_block_info_array s ! i) = t)"
  by (auto simp: cached_def set_wf_def isValid_def in_set_conv_nth image_iff)

lemma find_line_iff:
  assumes "set_inv s" "t \<noteq> - 1"
  shows "find_line s t = Some i \<longleftrightarrow> i < m_associativity s \<and> m_tag (m_cache_block_info_array s ! i) = t"
proof
  assume "find_line s t = Some i"
  then show "i < m_associativity s \<and> m_tag (m_cache_block_info_array s ! i) = t"
    unfolding find_line_def by (auto dest: find_SomeD)
next
  assume i: "i < m_associativity s \<and> m_tag (m_cache_block_info_array s ! i) = t"
  then obtain j where j: "find_line s t = Some j"
    unfolding find_line_def using find_NotNone [of i "rev [0..<m_associativity s]" "\<lambda>k. m_tag (m_cache_block_info_array s ! k) = t"] by auto
  then have "j < m_associativity s" "m_tag (m_cache_block_info_array s ! j) = t"
    unfolding find_line_def by (auto dest: find_SomeD)
  then show "find_line s t = Some i"
    using j i assms unfolding set_inv_iff isValid_tag_NOT by metis
qed

lemma find_line_None_iff: "set_inv s \<Longrightarrow> t \<noteq> - 1 \<Longrightarrow> find_line s t = None \<longleftrightarrow> t \<notin> cached s"
  using find_line_iff [of s t] in_cached_iff [of s t] set_inv_wf [of s] by (cases "find_line s t") auto

lemma first_invalid_None_full: "first_invalid s = None \<longleftrightarrow>
    (\<forall>i<m_associativity s. isValid (m_cache_block_info_array s ! i))"
  by (simp add: first_invalid_def find_upt_None_iff)

text \<open>Replacing the information of one way.\<close>

lemma set_inv_update:
  assumes "set_inv s" "i < m_associativity s" "isValid b \<longrightarrow> m_tag b \<notin> cached s - {m_tag (m_cache_block_info_array s ! i)}"
    and "m_cache_block_info_array s' = (m_cache_block_info_array s)[i := b]" "m_associativity s' = m_associativity s"
  shows "set_inv s'"
proof -
  have wf: "set_wf s" "set_wf s'" using assms by (auto simp: set_inv_def set_wf_def)
  then have len: "length (m_cache_block_info_array s) = m_associativity s" by (simp add: set_wf_def)
  have "m_tag b \<noteq> m_tag (m_cache_block_info_array s ! j)"
    if "isValid b \<or> isValid (m_cache_block_info_array s ! j)" "j < m_associativity s" "j \<noteq> i" for j
  proof
    assume eq: "m_tag b = m_tag (m_cache_block_info_array s ! j)"
    then have v: "isValid b" "isValid (m_cache_block_info_array s ! j)" using that(1) by (auto simp: isValid_def)
    then have "m_tag b \<in> cached s" using eq that(2) by (auto simp: in_cached_iff [OF wf(1)] isValid_def)
    moreover have "m_tag (m_cache_block_info_array s ! j) \<noteq> m_tag (m_cache_block_info_array s ! i)"
      using assms(1,2) that v(2) by (auto simp: set_inv_iff)
    ultimately show False using assms(3) v(1) eq by auto
  qed
  then show ?thesis
    using assms(1,2) wf(2) len by (auto simp: set_inv_iff assms(4,5) nth_list_update) (metis)
qed

lemma cached_update:
  assumes "set_inv s" "i < m_associativity s" 
    and "m_cache_block_info_array s' = (m_cache_block_info_array s)[i := b]" "m_associativity s' = m_associativity s"
  shows "cached s' = (cached s - {m_tag (m_cache_block_info_array s ! i)}) \<union> (if isValid b then {m_tag b} else {})"
proof -
  have wf: "set_wf s" "set_wf s'" using assms by (auto simp: set_inv_def set_wf_def)
  then have len: "length (m_cache_block_info_array s) = m_associativity s" by (simp add: set_wf_def)
  have "t \<in> cached s' \<longleftrightarrow> t \<in> (cached s - {m_tag (m_cache_block_info_array s ! i)}) \<union> (if isValid b then {m_tag b} else {})" for t
    using assms(1,2) len
    by (auto simp: in_cached_iff [OF wf(1)] in_cached_iff [OF wf(2)] assms(3,4) nth_list_update isValid_def set_inv_iff
        split: if_splits)
  then show ?thesis by blast
qed


lemma set_invalidate_correct:
  assumes "set_inv s" "t \<noteq> - 1" "set_invalidate s t = (found, s')"
  shows "set_inv s' \<and> (found \<longleftrightarrow> t \<in> cached s) \<and> cached s' = cached s - {t}"
proof (cases "find_line s t")
  case None
  then have "t \<notin> cached s" "\<not> found" "s' = s"
    using assms find_line_None_iff [OF assms(1,2)] by (auto simp: set_invalidate_def)
  then show ?thesis using assms(1) by simp
next
  case (Some i)
  let ?s = "s\<lparr>m_cache_block_info_array := (m_cache_block_info_array s)[i := invalidate (m_cache_block_info_array s ! i)]\<rparr>"
  have i: "i < m_associativity s" "m_tag (m_cache_block_info_array s ! i) = t"
    using Some find_line_iff [OF assms(1,2)] by auto
  have eq: "found" "s' = ?s" using Some assms(3) by (auto simp: set_invalidate_def)
  have "set_inv ?s" using assms(1) i(1) by (rule set_inv_update) auto
  moreover have "cached ?s = cached s - {t}"
    using cached_update [OF assms(1) i(1), of ?s "invalidate (m_cache_block_info_array s ! i)"] i by simp
  moreover have "t \<in> cached s" using i assms(2) in_cached_iff [OF set_inv_wf [OF assms(1)]] by auto
  ultimately show ?thesis using eq by simp
qed

context replacement_policy
begin

lemma set_insertE:
  assumes "set_wf s" "inv (m_associativity s) p"
    and "set_insert pick s p b fill eb ebuf = Inr ((ev, einfo, edata), s', p')"
  obtains i where "pick s p = Inr (i, p')" "i < m_associativity s" "inv (m_associativity s) p'"
    "ev = isValid (m_cache_block_info_array s ! i)"
    "einfo = (if ev then clone eb (m_cache_block_info_array s ! i) else eb)"
    "m_cache_block_info_array s' = (m_cache_block_info_array s)[i := clone (m_cache_block_info_array s ! i) b]"
    "m_associativity s' = m_associativity s" "m_blocksize s' = m_blocksize s"
  using assms pick_inv [OF assms(1,2)]
  by (fastforce simp: set_insert_def Let_def split: option.splits if_splits)

lemma set_insert_correct:
  assumes "set_inv s" "inv (m_associativity s) p" "isValid b" "m_tag b \<notin> cached s"
    and "set_insert pick s p b fill eb ebuf = Inr ((ev, einfo, edata), s', p')"
  shows "set_inv s' \<and> inv (m_associativity s') p' \<and>
    cached s' = insert (m_tag b) (if ev then cached s - {m_tag einfo} else cached s) \<and>
    (ev \<longrightarrow> m_tag einfo \<in> cached s)"
proof (rule set_insertE [OF set_inv_wf [OF assms(1)] assms(2,5)])
  fix i
  let ?old = "m_cache_block_info_array s ! i"
  assume i: "i < m_associativity s" and inv: "inv (m_associativity s) p'" and ev: "ev = isValid ?old"
    and info: "einfo = (if ev then clone eb ?old else eb)"
    and arr: "m_cache_block_info_array s' = (m_cache_block_info_array s)[i := clone ?old b]"
    and n: "m_associativity s' = m_associativity s"
  have "set_inv s'" using assms(1) i _ arr n by (rule set_inv_update) (use assms(4) in auto)
  moreover have "cached s' = insert (m_tag b) (cached s - {m_tag ?old})"
    using cached_update [OF assms(1) i arr n] assms(3) by auto
  moreover have "m_tag ?old \<in> cached s \<longleftrightarrow> ev"
    using i ev in_cached_iff [OF set_inv_wf [OF assms(1)]] by (auto simp: isValid_def)
  ultimately show ?thesis using inv n info by auto
qed

lemma set_insert_asserts_hold:
  assumes "set_wf s" "inv (m_associativity s) p" "pick s p = Inr r"
  shows "\<exists>r. set_insert pick s p b fill eb ebuf = Inr r"
  using assms pick_inv [OF assms(1,2)] by (cases r) (auto simp: set_insert_def Let_def)

end

context filling_policy
begin

lemma set_insert_evicts_only_when_full:
  assumes "set_inv s" "inv (m_associativity s) p"
    and "set_insert pick s p b fill eb ebuf = Inr ((True, einfo, edata), s', p')"
  shows "first_invalid s = None"
proof (rule set_insertE [OF set_inv_wf [OF assms(1)] assms(2,3)])
  fix i
  assume i: "pick s p = Inr (i, p')" and v: "True = isValid (m_cache_block_info_array s ! i)"
  show "first_invalid s = None"
  proof (cases "first_invalid s")
    case (Some j)
    then show ?thesis using pick_invalid [OF set_inv_wf [OF assms(1)] assms(2) Some i] v
      by (auto simp: first_invalid_def dest: find_upt_SomeD)
  qed
qed

end

context live_policy
begin

lemma set_insert_returns:
  assumes "set_wf s" "inv (m_associativity s) p" "quiescent s"
  shows "\<exists>r. set_insert pick s p b fill eb ebuf = Inr r"
  using pick_returns [OF assms] set_insert_asserts_hold [OF assms(1,2)] by blast

end

section \<open>What the operations keep of the shared statistics object\<close>

definition env_shape :: "repl_env \<Rightarrow> nat \<times> bool" where
  "env_shape e = (si_associativity (env_info e), m_attempts (env_info e) = None)"

lemma si_increment_shape: "si_increment i e = Inr e' \<Longrightarrow> env_shape e' = env_shape e"
  by (auto simp: si_increment_def env_shape_def Let_def split: if_splits)

lemma si_incrementAttempt_shape: "si_incrementAttempt i e = Inr e' \<Longrightarrow> env_shape e' = env_shape e"
  by (auto simp: si_incrementAttempt_def env_shape_def Let_def split: if_splits option.splits)

lemma qbs_shape [simp]: "env_shape (incrementQBSLookupCost e) = env_shape e"
  by (simp add: env_shape_def incrementQBSLookupCost_def)

lemma lru_attempt_shape:
  "lru_attempt cntlr s k (p, e) = Inr (i, p', e') \<Longrightarrow> env_shape e' = env_shape e"
proof (induction cntlr s k "(p, e)" arbitrary: p e rule: lru_attempt.induct)
  case (1 cntlr s k p e)
  show ?case
    using "1.prems" by (subst (asm) lru_attempt.simps)
      (auto simp: Let_def split: if_splits dest!: si_incrementAttempt_shape "1.hyps" [OF _ refl refl])
qed

lemma srrip_pass_shape:
  "srrip_pass cntlr s r k (p, e) = Inl (Inr (i, p', e')) \<Longrightarrow> env_shape e' = env_shape e"
  "srrip_pass cntlr s r k (p, e) = Inr (k', p', e') \<Longrightarrow> env_shape e' = env_shape e"
proof (induction r arbitrary: k p e)
  case (Suc r)
  {
    case 1
    then show ?case
      by (auto simp: Let_def split: if_splits sum.splits bool.splits dest!: si_incrementAttempt_shape Suc.IH(1))
  next
    case 2
    then show ?case
      by (auto simp: Let_def split: if_splits sum.splits bool.splits dest!: Suc.IH(2))
  }
qed auto

lemma srrip_rounds_shape:
  "srrip_rounds cntlr s j k (p, e) = Inr (i, p', e') \<Longrightarrow> env_shape e' = env_shape e"
proof (induction j arbitrary: k p e)
  case (Suc j)
  then show ?case
    by (auto split: sum.splits dest: srrip_pass_shape)
qed simp

lemma getReplacementIndex_shape:
  assumes "getReplacementIndex cntlr s (p, e) = Inr (i, p', e')"
  shows "env_shape e' = env_shape e"
  using assms
  by (cases p) (auto simp: getReplacementIndex_def lru_getReplacementIndex_def srrip_getReplacementIndex_def
      simp del: srrip_rounds.simps
      split: option.splits dest: lru_attempt_shape srrip_rounds_shape)

lemma updateReplacementIndex_shape:
  assumes "updateReplacementIndex s i (p, e) = Inr (p', e')"
  shows "env_shape e' = env_shape e"
  using assms
  by (cases p) (auto simp: updateReplacementIndex_def lru_updateReplacementIndex_def srrip_updateReplacementIndex_def
      dest: si_increment_shape)

lemma policy_inv_shape:
  "policy_inv n (p, e) \<Longrightarrow> env_shape e' = env_shape e \<Longrightarrow> policy_inv n (p, e')"
  by (cases p) (auto simp: policy_inv_def lru_inv_def srrip_inv_def env_ok_def env_shape_def)

lemma slice_splice: "i + length ys \<le> length xs \<Longrightarrow> slice i (length ys) (splice i ys xs) = ys"
  by (simp add: slice_def splice_def)

lemma splice_length [simp]: "i + length ys \<le> length xs \<Longrightarrow> length (splice i ys xs) = length xs"
  by (simp add: splice_def)

lemma line_fits:
  assumes "k < n" "off + m \<le> (b::nat)"
  shows "k * b + off + m \<le> n * b"
proof -
  have "k * b + off + m \<le> Suc k * b" using assms(2) by simp
  also have "\<dots> \<le> n * b" using assms(1) by (intro mult_le_mono1) simp
  finally show ?thesis .
qed

section \<open>Properties\<close>

text \<open>
  With line data present, bytes written into a line inside its block are the bytes a read of the
  same range returns, and neither call stops the simulator when it does not update the replacement state (with the update,
  SRRIP can fail its assertion, lemma \<open>srrip_hit_fails_assertion\<close>).
\<close>

theorem line_data_roundtrip:
  assumes "m_blocks s = Some bl" "length bl = m_associativity s * m_blocksize s" "k < m_associativity s"
    and "off + length buf \<le> m_blocksize s" "m_blocksize s < 2 ^ 32"
  shows "\<exists>s'. write_line touch s k off (Some buf) (length buf) False p = Inr (s', p) \<and>
    read_line touch s' k off True (length buf) False p = Inr (Some buf, p) \<and>
    m_cache_block_info_array s' = m_cache_block_info_array s"
  using assms slice_splice [of "k * m_blocksize s + off" buf bl] line_fits [OF assms(3,4)]
  by (simp add: write_line_def read_line_def)

theorem line_data_roundtrip_witness:
  "\<exists>s'. write_line updateReplacementIndex (full4\<lparr>m_blocks := Some (replicate 256 0)\<rparr>) 2 8 (Some [1, 2, 3]) 3 False
      (P_RoundRobin 0, example_env 4 1) = Inr (s', (P_RoundRobin 0, example_env 4 1)) \<and>
    read_line updateReplacementIndex s' 2 8 True 3 False (P_RoundRobin 0, example_env 4 1) =
      Inr (Some [1, 2, 3], (P_RoundRobin 0, example_env 4 1))"
  using line_data_roundtrip [of "full4\<lparr>m_blocks := Some (replicate 256 0)\<rparr>" "replicate 256 0" 2 8 "[1, 2, 3]"
      updateReplacementIndex "(P_RoundRobin 0, example_env 4 1)"]
  by (auto simp: example_set_def numeral_3_eq_3)

text \<open>
  C20: for every replacement policy the chosen way exists, so the assertion in
  \<^verbatim>\<open>CacheSet::insert\<close> never fails, and choosing a victim or recording a use keeps the policy
  state well formed.
\<close>

theorem victim_in_range:
  assumes "set_wf s" "policy_inv (m_associativity s) p"
  shows "(\<forall>i p'. getReplacementIndex cntlr s p = Inr (i, p') \<longrightarrow>
      i < m_associativity s \<and> policy_inv (m_associativity s) p' \<and>
      (\<exists>r. set_insert (getReplacementIndex cntlr) s p b fill eb ebuf = Inr r)) \<and>
    (\<forall>i<m_associativity s. \<forall>p'. updateReplacementIndex s i p = Inr p' \<longrightarrow> policy_inv (m_associativity s) p')"
  using sets.pick_inv [OF assms] sets.touch_inv [OF assms] sets.set_insert_asserts_hold [OF assms] by blast

theorem victim_in_range_witness:
  "\<exists>r. set_insert (getReplacementIndex None) full4 (P_RoundRobin 3, example_env 4 1) (line 9 SHARED) None (line 0 INVALID) False = Inr r"
proof -
  have "getReplacementIndex None full4 (P_RoundRobin 3, example_env 4 1) = Inr (3, P_RoundRobin 2, example_env 4 1)"
    by (simp add: getReplacementIndex_def round_robin_pick_def round_robin_getReplacementIndex.simps [of full4 3] Let_def)
  moreover have "set_wf full4" "policy_inv (m_associativity full4) (P_RoundRobin 3, example_env 4 1)"
    by (simp_all add: policy_inv_def)
  ultimately show ?thesis
    using victim_in_range [of full4 "(P_RoundRobin 3, example_env 4 1)" None "line 9 SHARED" None "line 0 INVALID" False] by blast
qed

end
