(* ===== verification/Fault_Injection.thy ===== *)
theory Fault_Injection
  imports Cache_Block_Info
begin

unbundle bit_operations_syntax

text \<open>
  \<^verbatim>\<open>fault_injection/fault_injection.cc\<close> and \<^verbatim>\<open>fault_injector_random.cc\<close>. With fault
  injection enabled a cache stores a fault mask per byte of its lines; the injector updates the
  mask before a read and after a write, and the manager applies a mask to data. A pointer into the
  mask is the list of bytes from that address on.
\<close>

datatype fault_type_t = FAULT_TYPE_TOGGLE | FAULT_TYPE_SET0 | FAULT_TYPE_SET1

datatype fault_injector_t = FAULT_INJECTOR_NONE | FAULT_INJECTOR_RANDOM

record faultinjection_manager =
  m_type :: fault_type_t
  m_injector :: fault_injector_t

definition FaultinjectionManager_create :: "string \<Rightarrow> string \<Rightarrow> faultinjection_manager option result" where
  "FaultinjectionManager_create s_type s_injector =
     bindE (if s_type = ''toggle'' then Inr (Some FAULT_TYPE_TOGGLE)
            else if s_type = ''set0'' then Inr (Some FAULT_TYPE_SET0)
            else if s_type = ''set1'' then Inr (Some FAULT_TYPE_SET1)
            else if s_type = ''none'' then Inr None
            else Inl (LOG_PRINT_ERROR ''Unknown fault-injection scheme''))
       (\<lambda>t. case t of
              None \<Rightarrow> Inr None
            | Some type \<Rightarrow>
                bindE (if s_injector = ''none'' then Inr FAULT_INJECTOR_NONE
                       else if s_injector = ''random'' then Inr FAULT_INJECTOR_RANDOM
                       else Inl (LOG_PRINT_ERROR ''Unknown fault injector''))
                  (\<lambda>injector. Inr (Some \<lparr>m_type = type, m_injector = injector\<rparr>)))"

text \<open>The two injector classes: the base class, and \<open>FaultInjectorRandom m_active m_rng\<close>.\<close>

datatype fault_injector =
    FaultInjector
  | FaultInjectorRandom bool UInt64

definition new_FaultInjectorRandom :: "component_t \<Rightarrow> fault_injector" where
  "new_FaultInjectorRandom mem_component = FaultInjectorRandom (mem_component = L1_DCACHE) (rng_seed 0)"

definition getFaultInjector :: "faultinjection_manager \<Rightarrow> component_t \<Rightarrow> fault_injector" where
  "getFaultInjector m mem_component =
     (case m_injector m of
        FAULT_INJECTOR_NONE \<Rightarrow> FaultInjector
      | FAULT_INJECTOR_RANDOM \<Rightarrow> new_FaultInjectorRandom mem_component)"

definition fault_op :: "fault_type_t \<Rightarrow> UInt8 \<Rightarrow> UInt8 \<Rightarrow> UInt8" where
  "fault_op t d f =
     (case t of FAULT_TYPE_TOGGLE \<Rightarrow> d XOR f | FAULT_TYPE_SET0 \<Rightarrow> d AND NOT f | FAULT_TYPE_SET1 \<Rightarrow> d OR f)"

fun applyFault_loop :: "fault_type_t \<Rightarrow> nat \<Rightarrow> nat \<Rightarrow> UInt8 list \<Rightarrow> UInt8 list \<Rightarrow> UInt8 list result" where
  "applyFault_loop t i 0 data fault = Inr data"
| "applyFault_loop t i (Suc k) data fault =
     (if i < length data \<and> i < length fault
      then applyFault_loop t (i + 1) k (data[i := fault_op t (data ! i) (fault ! i)]) fault
      else Inl (UNDEFINED ''out of bounds''))"

definition applyFault :: "faultinjection_manager \<Rightarrow> nat \<Rightarrow> UInt8 list \<Rightarrow> UInt8 list \<Rightarrow> UInt8 list result" where
  "applyFault m data_size data fault = applyFault_loop (m_type m) 0 data_size data fault"

definition preRead :: "fault_injector \<Rightarrow> UInt32 \<Rightarrow> UInt8 list \<Rightarrow> (fault_injector \<times> UInt8 list) result" where
  "preRead fi data_size fault =
     (case fi of
        FaultInjector \<Rightarrow> Inr (fi, fault)
      | FaultInjectorRandom active rng \<Rightarrow>
          if \<not> active then Inr (fi, fault)
          else
            let (r, rng1) = rng_next rng in
            if r mod 0xffff \<noteq> 0 then Inr (FaultInjectorRandom active rng1, fault)
            else if data_size = 0 then Inl (UNDEFINED ''division by zero'')
            else
              let (r2, rng2) = rng_next rng1;
                  bit_location = unat (r2 mod ucast data_size);
                  k = bit_location div 8
              in if length fault \<le> k then Inl (UNDEFINED ''out of bounds'')
                 else Inr (FaultInjectorRandom active rng2,
                           fault[k := fault ! k OR push_bit (bit_location mod 8) 1]))"

definition postWrite :: "fault_injector \<Rightarrow> UInt32 \<Rightarrow> UInt8 list \<Rightarrow> (fault_injector \<times> UInt8 list) result" where
  "postWrite fi data_size fault = Inr (fi, fault)"

section \<open>Lemmas\<close>

lemma applyFault_loop_eq:
  assumes "i + k \<le> length data" "i + k \<le> length fault"
  shows "applyFault_loop t i k data fault =
    Inr (map (\<lambda>j. if i \<le> j \<and> j < i + k then fault_op t (data ! j) (fault ! j) else data ! j) [0..<length data])"
  using assms
proof (induction k arbitrary: i data)
  case 0
  then show ?case by (auto intro!: nth_equalityI)
next
  case (Suc k)
  then have "i < length data" "i < length fault" by auto
  then show ?case
    using Suc.IH [of "i + 1" "data[i := fault_op t (data ! i) (fault ! i)]"] Suc.prems
    by (auto simp: nth_list_update intro!: nth_equalityI)
qed

lemma applyFault_eq:
  assumes "n \<le> length data" "n \<le> length fault"
  shows "applyFault m n data fault =
    Inr (map (\<lambda>j. if j < n then fault_op (m_type m) (data ! j) (fault ! j) else data ! j) [0..<length data])"
  using assms by (simp add: applyFault_def applyFault_loop_eq)

lemma fault_op_bits:
  "bit (fault_op t d f) i \<longleftrightarrow>
     (if i < 8 \<and> bit f i then (case t of FAULT_TYPE_TOGGLE \<Rightarrow> \<not> bit d i | FAULT_TYPE_SET0 \<Rightarrow> False | FAULT_TYPE_SET1 \<Rightarrow> True)
      else bit d i)"
  by (cases t) (auto simp: fault_op_def bit_xor_iff bit_and_iff bit_or_iff bit_not_iff dest: bit_imp_le_length)

lemma preRead_effect:
  assumes "preRead fi data_size fault = Inr (fi', fault')"
  shows "length fault' = length fault \<and>
    (\<forall>j<length fault. fault' ! j \<noteq> fault ! j \<longrightarrow> 8 * j < unat data_size) \<and>
    (\<forall>j<length fault. \<forall>i. bit (fault ! j) i \<longrightarrow> bit (fault' ! j) i)"
proof (cases fi)
  case FaultInjector
  then show ?thesis using assms by (simp add: preRead_def)
next
  case (FaultInjectorRandom active rng)
  obtain r rng1 where r: "rng_next rng = (r, rng1)" by fastforce
  obtain r2 rng2 where r2: "rng_next rng1 = (r2, rng2)" by fastforce
  let ?b = "unat (r2 mod ucast data_size)"
  have *: "fault' = fault \<or> (data_size \<noteq> 0 \<and>
      fault' = fault[?b div 8 := fault ! (?b div 8) OR push_bit (?b mod 8) 1])"
    using assms FaultInjectorRandom by (auto simp: preRead_def r r2 Let_def split: if_splits)
  have lt: "?b < unat data_size" if "data_size \<noteq> 0"
    using unat_mod_lt [of "ucast data_size :: 64 word" r2] that by (simp add: ucast_eq_0_iff)
  have k: "8 * (?b div 8) \<le> ?b" by simp
  show ?thesis
    using * 
  proof (elim disjE conjE)
    assume "data_size \<noteq> 0" and f: "fault' = fault[?b div 8 := fault ! (?b div 8) OR push_bit (?b mod 8) 1]"
    then have "8 * (?b div 8) < unat data_size" using lt k by (meson le_less_trans)
    moreover have "fault' ! j = (if j = ?b div 8 then fault ! j OR push_bit (?b mod 8) 1 else fault ! j)"
      if "j < length fault" for j using that by (simp add: f nth_list_update)
    ultimately show ?thesis by (auto simp: f bit_or_iff split: if_splits)
  qed simp
qed

section \<open>Properties\<close>

text \<open>
  \<^verbatim>\<open>applyFault\<close> on buffers of at least \<^verbatim>\<open>data_size\<close> bytes succeeds; a bit inside the range
  changes exactly as the fault type says where the mask has a 1, and every other bit of the data
  stays as it was.
\<close>

theorem applyFault_exact:
  assumes "data_size \<le> length data" "data_size \<le> length fault"
  shows "\<exists>data'. applyFault m data_size data fault = Inr data' \<and> length data' = length data \<and>
    (\<forall>j<length data. \<forall>i<8. bit (data' ! j) i \<longleftrightarrow>
       (if j < data_size \<and> bit (fault ! j) i
        then (case m_type m of FAULT_TYPE_TOGGLE \<Rightarrow> \<not> bit (data ! j) i | FAULT_TYPE_SET0 \<Rightarrow> False | FAULT_TYPE_SET1 \<Rightarrow> True)
        else bit (data ! j) i))"
  using assms by (simp add: applyFault_eq fault_op_bits)

theorem applyFault_exact_witness:
  "\<exists>data'. applyFault \<lparr>m_type = FAULT_TYPE_SET0, m_injector = FAULT_INJECTOR_NONE\<rparr> 1 [255, 7] [4, 7] = Inr data' \<and>
     length data' = 2 \<and> \<not> bit (data' ! 0) 2 \<and> bit (data' ! 1) 2"
  using applyFault_exact [of 1 "[255, 7]" "[4, 7]" "\<lparr>m_type = FAULT_TYPE_SET0, m_injector = FAULT_INJECTOR_NONE\<rparr>"]
  by (auto simp: eval_nat_numeral All_less_Suc2)

text \<open>
  The random injector only ever adds faults, and although \<^verbatim>\<open>data_size\<close> counts bytes it draws
  its bit number below \<^verbatim>\<open>data_size\<close>: a byte at index \<open>data_size / 8\<close> or beyond (rounding up)
  can never become faulty.
\<close>

theorem random_fault_confined:
  assumes "preRead fi data_size fault = Inr (fi', fault')"
  shows "length fault' = length fault \<and>
    (\<forall>j<length fault. \<forall>i. bit (fault ! j) i \<longrightarrow> bit (fault' ! j) i) \<and>
    (\<forall>j<length fault. unat data_size \<le> 8 * j \<longrightarrow> fault' ! j = fault ! j)"
  using preRead_effect [OF assms] by (meson not_less)

definition unlucky_rng :: UInt64 where
  "unlucky_rng = 0x615c0e462aa9"

theorem random_fault_confined_witness:
  "\<exists>fi' fault'. preRead (FaultInjectorRandom True unlucky_rng) 64 (replicate 64 0) = Inr (fi', fault') \<and>
     fault' \<noteq> replicate 64 0 \<and> fault' ! 63 = 0"
proof -
  have e: "preRead (FaultInjectorRandom True unlucky_rng) 64 (replicate 64 0) =
      Inr (FaultInjectorRandom True 11, (replicate 64 0)[0 := 1])"
    by code_simp
  have "(replicate 64 (0::UInt8))[0 := 1] ! 63 = replicate 64 0 ! 63"
    using random_fault_confined [OF e] by simp
  moreover have "(replicate 64 (0::UInt8))[0 := 1] \<noteq> replicate 64 0"
    by (metis length_replicate nth_list_update_eq nth_replicate zero_less_numeral zero_neq_one)
  ultimately show ?thesis unfolding e by simp
qed

end
