(* ===== verification/Cache.thy ===== *)
theory Cache
  imports Cache_Set Fault_Injection
begin

unbundle bit_operations_syntax

text \<open>
  \<^verbatim>\<open>cache/cache.{h,cc}\<close>: a cache is its geometry (\<^verbatim>\<open>CacheBase\<close>), an array of cache sets
  each with its replacement policy object, the statistics object the policies share, access
  counters and an optional fault injector. A returned \<^verbatim>\<open>CacheBlockInfo*\<close> is the index of the
  line in its set; \<open>None\<close> is \<^verbatim>\<open>NULL\<close>. The \<^verbatim>\<open>now\<close>, \<^verbatim>\<open>eip\<close> and \<^verbatim>\<open>path\<close> arguments
  are not used by the code.
\<close>

section \<open>State and operations\<close>

definition createCacheSet ::
  "bool \<Rightarrow> set_config \<Rightarrow> string \<Rightarrow> cache_t \<Rightarrow> nat \<Rightarrow> nat \<Rightarrow> (cache_set \<times> policy) result" where
  "createCacheSet fault_injection cfg policy_name cache_type associativity blocksize =
     bindE (parsePolicyType policy_name) (\<lambda>policy.
     bindE (CacheSet fault_injection cache_type associativity blocksize) (\<lambda>s.
     bindE (createCacheSet_policy policy cfg associativity) (\<lambda>p. Inr (s, p))))"

definition initial_env :: "ReplacementPolicy \<Rightarrow> set_config \<Rightarrow> nat \<Rightarrow> repl_env" where
  "initial_env policy cfg associativity =
     \<lparr>env_info = (case createCacheSetInfo policy cfg associativity of
                    Some i \<Rightarrow> i | None \<Rightarrow> CacheSetInfoLRU associativity 1),
      env_qbs = 0\<rparr>"

record cache =
  base :: cache_base
  m_enabled :: bool
  m_num_accesses :: UInt64
  m_num_hits :: UInt64
  m_cache_type :: cache_t
  m_sets :: "(cache_set \<times> policy) list"
  m_set_info :: repl_env
  m_fault_injector :: "fault_injector option"

definition Cache ::
  "string \<Rightarrow> bool \<Rightarrow> set_config \<Rightarrow> UInt32 \<Rightarrow> UInt32 \<Rightarrow> UInt32 \<Rightarrow> string \<Rightarrow> cache_t \<Rightarrow> hash_t
     \<Rightarrow> fault_injector option \<Rightarrow> address_home_lookup option \<Rightarrow> cache result" where
  "Cache name fault_injection cfg num_sets associativity cache_block_size policy_name cache_type
      hash fault_injector ahl =
     bindE (CacheBase name num_sets associativity cache_block_size hash ahl) (\<lambda>b.
     bindE (parsePolicyType policy_name) (\<lambda>policy.
     bindE (if num_sets = 0 then Inr []
            else bindE (createCacheSet fault_injection cfg policy_name cache_type
                          (unat associativity) (unat cache_block_size))
                   (\<lambda>s. Inr (replicate (unat num_sets) s))) (\<lambda>sets.
       Inr \<lparr>base = b, m_enabled = False, m_num_accesses = 0, m_num_hits = 0, m_cache_type = cache_type,
            m_sets = sets, m_set_info = initial_env policy cfg (unat associativity),
            m_fault_injector = fault_injector\<rparr>)))"

text \<open>The set an address maps to; indexing past the array is undefined.\<close>

definition get_set :: "cache \<Rightarrow> UInt32 \<Rightarrow> (cache_set \<times> policy) result" where
  "get_set c set_index =
     (if unat set_index < length (m_sets c) then Inr (m_sets c ! unat set_index)
      else Inl (UNDEFINED ''m_sets out of bounds''))"

definition put_set :: "cache \<Rightarrow> UInt32 \<Rightarrow> cache_set \<Rightarrow> policy \<Rightarrow> repl_env \<Rightarrow> cache" where
  "put_set c set_index s p e = c\<lparr>m_sets := (m_sets c)[unat set_index := (s, p)], m_set_info := e\<rparr>"

definition getSetLock :: "cache \<Rightarrow> IntPtr \<Rightarrow> UInt32 result" where
  "getSetLock c addr =
     bindE (splitAddress (base c) addr) (\<lambda>(tag, set_index).
     bindE (assertE (set_index < m_num_sets (base c)) (ASSERT ''set_index < m_num_sets'')) (\<lambda>_. Inr set_index))"

definition invalidateSingleLine :: "cache \<Rightarrow> IntPtr \<Rightarrow> (bool \<times> cache) result" where
  "invalidateSingleLine c addr =
     bindE (splitAddress (base c) addr) (\<lambda>(tag, set_index).
     bindE (assertE (set_index < m_num_sets (base c)) (ASSERT ''set_index < m_num_sets'')) (\<lambda>_.
     bindE (get_set c set_index) (\<lambda>(s, p).
       let (found, s') = set_invalidate s tag
       in Inr (found, put_set c set_index s' p (m_set_info c)))))"

text \<open>
  A call of the fault injector on the bytes of one line: \<^verbatim>\<open>getDataPtr\<close> is a pointer into
  \<^verbatim>\<open>m_blocks\<close>, which must exist.
\<close>

definition inject ::
  "(fault_injector \<Rightarrow> UInt32 \<Rightarrow> UInt8 list \<Rightarrow> (fault_injector \<times> UInt8 list) result) \<Rightarrow> fault_injector option
     \<Rightarrow> UInt32 \<Rightarrow> nat \<Rightarrow> nat \<Rightarrow> cache_set \<Rightarrow> (fault_injector option \<times> cache_set) result" where
  "inject hook fi data_size line_index offset s =
     (case fi of
        None \<Rightarrow> Inr (None, s)
      | Some injector \<Rightarrow>
          (case m_blocks s of
             None \<Rightarrow> Inl (UNDEFINED ''getDataPtr of NULL'')
           | Some bl \<Rightarrow>
               let ptr = line_index * m_blocksize s + offset in
               bindE (hook injector data_size (drop ptr bl)) (\<lambda>(injector', fault).
                 Inr (Some injector', s\<lparr>m_blocks := Some (take ptr bl @ fault)\<rparr>))))"

definition accessSingleLine ::
  "cache \<Rightarrow> IntPtr \<Rightarrow> access_t \<Rightarrow> UInt8 list option \<Rightarrow> UInt32 \<Rightarrow> bool
     \<Rightarrow> (nat option \<times> UInt8 list option \<times> cache) result" where
  "accessSingleLine c addr access_type buff bytes update_replacement =
     bindE (splitAddress_offset (base c) addr) (\<lambda>(tag, set_index, block_offset).
     bindE (get_set c set_index) (\<lambda>(s, p).
       case find_line s tag of
         None \<Rightarrow> Inr (None, buff, c)
       | Some line_index \<Rightarrow>
           if access_type = LOAD
           then
             bindE (inject preRead (m_fault_injector c) bytes line_index (unat block_offset) s) (\<lambda>(fi, s1).
             bindE (read_line updateReplacementIndex s1 line_index (unat block_offset) (buff \<noteq> None) (unat bytes)
                      update_replacement (p, m_set_info c)) (\<lambda>(data, p', e').
               Inr (Some line_index, (case data of Some d \<Rightarrow> Some d | None \<Rightarrow> buff),
                    put_set (c\<lparr>m_fault_injector := fi\<rparr>) set_index s1 p' e')))
           else
             bindE (write_line updateReplacementIndex s line_index (unat block_offset) buff (unat bytes)
                      update_replacement (p, m_set_info c)) (\<lambda>(s1, p', e').
             bindE (inject postWrite (m_fault_injector c) bytes line_index (unat block_offset) s1) (\<lambda>(fi, s2).
               Inr (Some line_index, buff, put_set (c\<lparr>m_fault_injector := fi\<rparr>) set_index s2 p' e')))))"

definition insertSingleLine ::
  "cache_cntlr \<Rightarrow> cache \<Rightarrow> IntPtr \<Rightarrow> UInt8 list option \<Rightarrow> cache_block_info \<Rightarrow> bool
     \<Rightarrow> (bool \<times> IntPtr \<times> cache_block_info \<times> UInt8 list option \<times> cache) result" where
  "insertSingleLine cntlr c addr fill_buff evict_block_info evict_buff =
     bindE (splitAddress (base c) addr) (\<lambda>(tag, set_index).
     bindE (create (m_cache_type c)) (\<lambda>b0.
     bindE (get_set c set_index) (\<lambda>(s, p).
     bindE (set_insert (getReplacementIndex cntlr) s (p, m_set_info c) (b0\<lparr>m_tag := tag\<rparr>)
              fill_buff evict_block_info evict_buff) (\<lambda>((eviction, evicted, evicted_data), s1, p', e').
       let evict_addr = tagToAddress (base c) (m_tag evicted) in
       bindE (case m_fault_injector c of
                None \<Rightarrow> Inr (None, s1)
              | Some _ \<Rightarrow>
                  (case find_line s1 tag of
                     None \<Rightarrow> Inl (LOG_ASSERT_ERROR ''Inserted line no longer there?'')
                   | Some line_index \<Rightarrow>
                       inject postWrite (m_fault_injector c) (of_nat (m_blocksize s1)) line_index 0 s1))
         (\<lambda>(fi, s2).
            Inr (eviction, evict_addr, evicted, evicted_data,
                 put_set (c\<lparr>m_fault_injector := fi\<rparr>) set_index s2 p' e'))))))"

definition peekSingleLine :: "cache \<Rightarrow> IntPtr \<Rightarrow> cache_block_info option result" where
  "peekSingleLine c addr =
     bindE (splitAddress (base c) addr) (\<lambda>(tag, set_index).
     bindE (get_set c set_index) (\<lambda>(s, p).
       Inr (map_option (\<lambda>i. m_cache_block_info_array s ! i) (find_line s tag))))"

definition updateCounters :: "cache \<Rightarrow> bool \<Rightarrow> cache" where
  "updateCounters c cache_hit =
     (if m_enabled c
      then let c1 = c\<lparr>m_num_accesses := m_num_accesses c + 1\<rparr>
           in if cache_hit then c1\<lparr>m_num_hits := m_num_hits c1 + 1\<rparr> else c1
      else c)"

definition updateHits :: "cache \<Rightarrow> UInt64 \<Rightarrow> cache" where
  "updateHits c hits =
     (if m_enabled c
      then c\<lparr>m_num_accesses := m_num_accesses c + hits, m_num_hits := m_num_hits c + hits\<rparr>
      else c)"

definition cache_enable :: "cache \<Rightarrow> cache" where
  "cache_enable c = c\<lparr>m_enabled := True\<rparr>"

definition cache_disable :: "cache \<Rightarrow> cache" where
  "cache_disable c = c\<lparr>m_enabled := False\<rparr>"

section \<open>The cache as a set of lines\<close>

definition set_ok :: "cache_base \<Rightarrow> repl_env \<Rightarrow> nat \<Rightarrow> cache_set \<times> policy \<Rightarrow> bool" where
  "set_ok b e i = (\<lambda>(s, p). set_inv s \<and> m_associativity s = unat (cb_associativity b) \<and>
     m_blocksize s = unat (cb_blocksize b) \<and> policy_inv (m_associativity s) (p, e) \<and>
     (\<forall>t \<in> cached s. splitAddress b (tagToAddress b t) = Inr (t, of_nat i)))"

definition cache_inv :: "cache \<Rightarrow> bool" where
  "cache_inv c \<longleftrightarrow> cb_wf (base c) \<and> hash_safe (base c) \<and> cb_ahl_ok (base c) \<and> 0 < m_log_blocksize (base c) \<and>
     m_cache_type c \<noteq> INVALID_CACHE_TYPE \<and> length (m_sets c) = unat (m_num_sets (base c)) \<and>
     (\<forall>i<length (m_sets c). set_ok (base c) (m_set_info c) i (m_sets c ! i))"

definition contents :: "cache \<Rightarrow> IntPtr set" where
  "contents c = (\<Union>(s, p) \<in> set (m_sets c). cached s)"

lemma set_ok_shape: "set_ok b e i x \<Longrightarrow> env_shape e' = env_shape e \<Longrightarrow> set_ok b e' i x"
  by (auto simp: set_ok_def dest: policy_inv_shape)

lemma split_tag: "splitAddress b addr = Inr (tag, si) \<Longrightarrow> tag = drop_bit (m_log_blocksize b) addr"
  by (auto simp: splitAddress_def Let_def)

lemma split_tag_valid:
  assumes "splitAddress b addr = Inr (tag, si)" "0 < m_log_blocksize b"
  shows "tag \<noteq> - 1"
proof
  assume "tag = - 1"
  then have "bit (drop_bit (m_log_blocksize b) addr) 63"
    using split_tag [OF assms(1)] by simp
  then show False using assms(2) by (auto simp: bit_drop_bit_eq dest: bit_imp_le_length)
qed

lemma cache_set_at:
  assumes "cache_inv c" "splitAddress (base c) addr = Inr (tag, si)"
  obtains s p where "get_set c si = Inr (s, p)" "unat si < length (m_sets c)" "m_sets c ! unat si = (s, p)"
    "set_ok (base c) (m_set_info c) (unat si) (s, p)" "si < m_num_sets (base c)" "tag \<noteq> - 1"
proof -
  have "si < m_num_sets (base c)"
    using assms by (auto simp: cache_inv_def splitAddress_def Let_def intro: set_index_in_range)
  moreover then have lt: "unat si < length (m_sets c)" using assms(1) by (simp add: cache_inv_def word_less_nat_alt)
  moreover obtain s p where "m_sets c ! unat si = (s, p)" by fastforce
  moreover then have "set_ok (base c) (m_set_info c) (unat si) (s, p)" using assms(1) lt by (auto simp: cache_inv_def)
  moreover have "tag \<noteq> - 1" using assms split_tag_valid by (auto simp: cache_inv_def)
  ultimately show ?thesis using that by (simp add: get_set_def)
qed

lemma contents_iff:
  "t \<in> contents c \<longleftrightarrow> (\<exists>i<length (m_sets c). t \<in> cached (fst (m_sets c ! i)))"
proof -
  have "t \<in> contents c \<longleftrightarrow> (\<exists>x \<in> set (m_sets c). t \<in> cached (fst x))" by (simp add: contents_def split_beta)
  then show ?thesis by (metis in_set_conv_nth)
qed

lemma cached_own_set:
  assumes "cache_inv c" "t \<in> cached (fst (m_sets c ! i))" "i < length (m_sets c)"
  shows "splitAddress (base c) (tagToAddress (base c) t) = Inr (t, of_nat i)" "unat (of_nat i :: UInt32) = i"
proof -
  show "splitAddress (base c) (tagToAddress (base c) t) = Inr (t, of_nat i)"
    using assms by (auto simp: cache_inv_def set_ok_def split_beta)
  have "i < 2 ^ 32"
    using assms(1,3) unsigned_less [of "m_num_sets (base c)", where ?'a=nat] by (simp add: cache_inv_def)
  then show "unat (of_nat i :: UInt32) = i" by (simp add: unat_of_nat)
qed

lemma tag_in_own_set:
  assumes "cache_inv c" "splitAddress (base c) addr = Inr (tag, si)" "i < length (m_sets c)"
    "tag \<in> cached (fst (m_sets c ! i))"
  shows "i = unat si"
proof -
  have "splitAddress (base c) (tagToAddress (base c) tag) = Inr (tag, si)"
    using assms(1,2) by (intro splitAddress_of_tag) (auto simp: cache_inv_def)
  then show ?thesis using cached_own_set [OF assms(1,4,3)] by auto
qed

lemma contents_own_set:
  assumes "cache_inv c" "splitAddress (base c) addr = Inr (tag, si)" "m_sets c ! unat si = (s, p)" "unat si < length (m_sets c)"
  shows "tag \<in> contents c \<longleftrightarrow> tag \<in> cached s"
proof
  assume "tag \<in> contents c"
  then obtain i where i: "i < length (m_sets c)" "tag \<in> cached (fst (m_sets c ! i))" by (auto simp: contents_iff)
  then show "tag \<in> cached s" using tag_in_own_set [OF assms(1,2) i] assms(3) by simp
next
  assume "tag \<in> cached s"
  then show "tag \<in> contents c" unfolding contents_iff using assms(3,4) by (intro exI [of _ "unat si"]) simp
qed

text \<open>Writing back one set: what the new set must satisfy, and the new contents.\<close>

lemma put_set_inv:
  assumes "cache_inv c" "unat si < length (m_sets c)" "env_shape e' = env_shape (m_set_info c)"
    and "set_ok (base c) e' (unat si) (s', p')"
  shows "cache_inv (put_set c si s' p' e')"
proof -
  have "set_ok (base c) e' i (m_sets c ! i)" if "i < length (m_sets c)" for i
    using assms(1,3) that set_ok_shape by (auto simp: cache_inv_def intro: set_ok_shape)
  then show ?thesis using assms by (auto simp: cache_inv_def put_set_def nth_list_update)
qed

lemma put_set_contents:
  assumes "cache_inv c" "unat si < length (m_sets c)" "m_sets c ! unat si = (s, p)"
  shows "contents (put_set c si s' p' e') = (contents c - cached s) \<union> cached s'"
proof -
  have disj: "i = unat si" if "i < length (m_sets c)" "t \<in> cached (fst (m_sets c ! i))" "t \<in> cached s" for i t
  proof -
    have "unat (of_nat i :: UInt32) = i" "of_nat i = (of_nat (unat si) :: UInt32)"
      using cached_own_set [OF assms(1) that(2,1)] cached_own_set [OF assms(1), of t "unat si"] assms(2,3) that(3) by auto
    then show ?thesis by simp
  qed
  have new: "t \<in> contents (put_set c si s' p' e') \<longleftrightarrow>
      t \<in> cached s' \<or> (\<exists>i<length (m_sets c). i \<noteq> unat si \<and> t \<in> cached (fst (m_sets c ! i)))" for t
    unfolding contents_iff put_set_def using assms(2)
    by (auto simp: nth_list_update split: if_splits) (metis+)
  have old: "t \<in> contents c \<longleftrightarrow>
      t \<in> cached s \<or> (\<exists>i<length (m_sets c). i \<noteq> unat si \<and> t \<in> cached (fst (m_sets c ! i)))" for t
    unfolding contents_iff using assms(2,3) by (metis fst_conv)
  show ?thesis using new old disj by blast
qed

section \<open>The operations refine operations on the set of lines\<close>

definition same_lines :: "cache_set \<Rightarrow> cache_set \<Rightarrow> bool" where
  "same_lines s s' \<longleftrightarrow> m_cache_block_info_array s' = m_cache_block_info_array s \<and>
     m_associativity s' = m_associativity s \<and> m_blocksize s' = m_blocksize s"

lemma same_linesD:
  assumes "same_lines s s'"
  shows "cached s' = cached s" "set_inv s' = set_inv s" "set_wf s' = set_wf s" "find_line s' t = find_line s t"
  using assms by (auto simp: same_lines_def cached_def set_inv_def set_wf_def find_line_def)

lemma set_ok_same_lines: "same_lines s s' \<Longrightarrow> set_ok b e i (s, p) \<Longrightarrow> policy_inv (m_associativity s) (p', e')
    \<Longrightarrow> set_ok b e' i (s', p')"
  by (auto simp: set_ok_def same_linesD) (auto simp: same_lines_def)

lemma inject_same_lines: "inject hook fi n k off s = Inr (fi', s') \<Longrightarrow> same_lines s s'"
  by (auto simp: inject_def same_lines_def Let_def split: option.splits)

lemma write_line_same_lines:
  "write_line touch s k off buf n upd p = Inr (s', p') \<Longrightarrow> same_lines s s'"
  by (auto simp: write_line_def same_lines_def Let_def split: option.splits if_splits)

lemma same_lines_refl [simp]: "same_lines s s"
  by (simp add: same_lines_def)

lemma same_lines_trans: "same_lines s s' \<Longrightarrow> same_lines s' s'' \<Longrightarrow> same_lines s s''"
  by (simp add: same_lines_def)

lemma cached_subset_contents: "m_sets c ! i = (s, p) \<Longrightarrow> i < length (m_sets c) \<Longrightarrow> cached s \<subseteq> contents c"
  by (auto simp: contents_iff intro!: exI [of _ i])

lemma peek_correct:
  assumes "cache_inv c" "splitAddress (base c) addr = Inr (tag, si)"
  shows "\<exists>r. peekSingleLine c addr = Inr r \<and> (r \<noteq> None \<longleftrightarrow> tag \<in> contents c) \<and> (\<forall>b. r = Some b \<longrightarrow> m_tag b = tag)"
proof (rule cache_set_at [OF assms])
  fix s p
  assume g: "get_set c si = Inr (s, p)" and lt: "unat si < length (m_sets c)" and at: "m_sets c ! unat si = (s, p)"
    and ok: "set_ok (base c) (m_set_info c) (unat si) (s, p)" and tag: "tag \<noteq> - 1"
  have inv: "set_inv s" using ok by (simp add: set_ok_def)
  have "peekSingleLine c addr = Inr (map_option (\<lambda>i. m_cache_block_info_array s ! i) (find_line s tag))"
    by (simp add: peekSingleLine_def assms(2) g)
  then show ?thesis
    using find_line_None_iff [OF inv tag] find_line_iff [OF inv tag] contents_own_set [OF assms at lt]
    by (cases "find_line s tag") auto
qed

lemma invalidate_correct:
  assumes "cache_inv c" "splitAddress (base c) addr = Inr (tag, si)"
  shows "\<exists>c'. invalidateSingleLine c addr = Inr (tag \<in> contents c, c') \<and> cache_inv c' \<and> base c' = base c \<and>
    contents c' = contents c - {tag}"
proof (rule cache_set_at [OF assms])
  fix s p
  assume g: "get_set c si = Inr (s, p)" and lt: "unat si < length (m_sets c)" and at: "m_sets c ! unat si = (s, p)"
    and ok: "set_ok (base c) (m_set_info c) (unat si) (s, p)" and tag: "tag \<noteq> - 1"
    and si: "si < m_num_sets (base c)"
  obtain found s' where i: "set_invalidate s tag = (found, s')" by fastforce
  have inv: "set_inv s" using ok by (simp add: set_ok_def)
  note s' = set_invalidate_correct [OF inv tag i]
  have fields: "m_associativity s' = m_associativity s" "m_blocksize s' = m_blocksize s"
    using i by (auto simp: set_invalidate_def split: option.splits)
  let ?c = "put_set c si s' p (m_set_info c)"
  have "invalidateSingleLine c addr = Inr (found, ?c)"
    by (simp add: invalidateSingleLine_def assms(2) si g i)
  moreover have "found \<longleftrightarrow> tag \<in> contents c" using s' contents_own_set [OF assms at lt] by simp
  moreover have "cache_inv ?c" using assms(1) lt refl by (rule put_set_inv) (use ok s' fields in \<open>auto simp: set_ok_def\<close>)
  moreover have "contents ?c = contents c - {tag}"
    using s' put_set_contents [OF assms(1) lt at, of s' p "m_set_info c"] cached_subset_contents [OF at lt]
      contents_own_set [OF assms at lt] by blast
  ultimately show ?thesis by (simp add: put_set_def)
qed

lemma read_line_result:
  "read_line touch s k off ob n upd p = Inr (d, p') \<Longrightarrow> p' = p \<or> touch s k p = Inr p'"
  by (auto simp: read_line_def Let_def split: if_splits)

lemma write_line_result:
  "write_line touch s k off buf n upd p = Inr (s', p') \<Longrightarrow> p' = p \<or> touch s' k p = Inr p'"
  by (auto simp: write_line_def Let_def split: if_splits)

lemma access_hit_result:
  assumes "splitAddress (base c) addr = Inr (tag, si)" "get_set c si = Inr (s, p)" "find_line s tag = Some k"
    and "accessSingleLine c addr access_type buff bytes upd = Inr (l, out, c')"
  obtains fi s1 s2 p' e' where "c' = put_set (c\<lparr>m_fault_injector := fi\<rparr>) si s2 p' e'" "l = Some k"
    "same_lines s s1" "same_lines s s2"
    "(p', e') = (p, m_set_info c) \<or> updateReplacementIndex s1 k (p, m_set_info c) = Inr (p', e')"
proof (cases "access_type = LOAD")
  case True
  then obtain off fi s1 d p' e' where "inject preRead (m_fault_injector c) bytes k off s = Inr (fi, s1)"
    and r: "read_line updateReplacementIndex s1 k off (buff \<noteq> None) (unat bytes) upd (p, m_set_info c) = Inr (d, p', e')"
    and "l = Some k" "c' = put_set (c\<lparr>m_fault_injector := fi\<rparr>) si s1 p' e'"
    using assms by (auto simp: accessSingleLine_def splitAddress_offset_def)
  then show ?thesis using that [of fi s1 p' e' s1] inject_same_lines read_line_result [OF r] by blast
next
  case False
  then obtain off fi s1 s2 p' e' where
      w: "write_line updateReplacementIndex s k off buff (unat bytes) upd (p, m_set_info c) = Inr (s1, p', e')"
    and "inject postWrite (m_fault_injector c) bytes k off s1 = Inr (fi, s2)"
    and "l = Some k" "c' = put_set (c\<lparr>m_fault_injector := fi\<rparr>) si s2 p' e'"
    using assms by (auto simp: accessSingleLine_def splitAddress_offset_def)
  then show ?thesis
    using that [of fi s2 p' e' s1] inject_same_lines write_line_same_lines [OF w] same_lines_trans write_line_result [OF w]
    by blast
qed

lemma cache_inv_injector [simp]: "cache_inv (c\<lparr>m_fault_injector := fi\<rparr>) = cache_inv c"
  by (simp add: cache_inv_def)

lemma contents_injector [simp]: "contents (c\<lparr>m_fault_injector := fi\<rparr>) = contents c"
  by (simp add: contents_def)

lemma base_put_set [simp]: "base (put_set c si s p e) = base c"
  by (simp add: put_set_def)

lemma access_correct:
  assumes "cache_inv c" "splitAddress (base c) addr = Inr (tag, si)"
    and "accessSingleLine c addr access_type buff bytes upd = Inr (l, out, c')"
  shows "cache_inv c' \<and> base c' = base c \<and> contents c' = contents c \<and> (l \<noteq> None \<longleftrightarrow> tag \<in> contents c)"
proof (rule cache_set_at [OF assms(1,2)])
  fix s p
  assume g: "get_set c si = Inr (s, p)" and lt: "unat si < length (m_sets c)" and at: "m_sets c ! unat si = (s, p)"
    and ok: "set_ok (base c) (m_set_info c) (unat si) (s, p)" and tag: "tag \<noteq> - 1"
  have inv: "set_inv s" and pinv: "policy_inv (m_associativity s) (p, m_set_info c)" using ok by (auto simp: set_ok_def)
  note hit = find_line_None_iff [OF inv tag] contents_own_set [OF assms(1,2) at lt]
  show ?thesis
  proof (cases "find_line s tag")
    case None
    then show ?thesis using assms hit by (auto simp: accessSingleLine_def splitAddress_offset_def g)
  next
    case (Some k)
    then have k: "k < m_associativity s" using find_line_iff [OF inv tag] by blast
    show ?thesis
    proof (rule access_hit_result [OF assms(2) g Some assms(3)])
      fix fi s1 s2 p' e'
      assume c': "c' = put_set (c\<lparr>m_fault_injector := fi\<rparr>) si s2 p' e'" and l: "l = Some k"
        and s1: "same_lines s s1" and s2: "same_lines s s2"
        and upd: "(p', e') = (p, m_set_info c) \<or> updateReplacementIndex s1 k (p, m_set_info c) = Inr (p', e')"
      have wf: "set_wf s1" "m_associativity s1 = m_associativity s"
        using set_inv_wf [OF inv] s1 same_linesD(3) [OF s1] by (auto simp: same_lines_def)
      have p': "policy_inv (m_associativity s) (p', e')" "env_shape e' = env_shape (m_set_info c)"
        using upd pinv updateReplacementIndex_inv [OF wf(1), of p "m_set_info c" k p' e'] k wf(2)
          updateReplacementIndex_shape [of s1 k p "m_set_info c" p' e'] by auto
      have "cache_inv c'"
        unfolding c' using set_ok_same_lines [OF s2 ok p'(1)] assms(1) lt p'(2) by (intro put_set_inv) auto
      moreover have "contents c' = contents c"
        using put_set_contents [of "c\<lparr>m_fault_injector := fi\<rparr>" si s p s2 p' e'] assms(1) lt at same_linesD(1) [OF s2]
          cached_subset_contents [OF at lt] unfolding c' by auto
      ultimately show ?thesis using l Some hit by (simp add: c')
    qed
  qed
qed

lemma insert_result:
  assumes "splitAddress (base c) addr = Inr (tag, si)" "get_set c si = Inr (s, p)"
    and "insertSingleLine cntlr c addr fill eb ebuf = Inr (ev, eaddr, einfo, edata, c')"
  obtains b fi s1 s2 p' e' where "c' = put_set (c\<lparr>m_fault_injector := fi\<rparr>) si s2 p' e'" "m_tag b = tag"
    "same_lines s1 s2" "eaddr = tagToAddress (base c) (m_tag einfo)"
    "set_insert (getReplacementIndex cntlr) s (p, m_set_info c) b fill eb ebuf =
       Inr ((ev, einfo, edata), s1, p', e')"
proof -
  obtain b0 fi s1 s2 p' e' where
      ins: "set_insert (getReplacementIndex cntlr) s (p, m_set_info c) (b0\<lparr>m_tag := tag\<rparr>) fill eb ebuf =
        Inr ((ev, einfo, edata), s1, p', e')"
    and c': "c' = put_set (c\<lparr>m_fault_injector := fi\<rparr>) si s2 p' e'" and ea: "eaddr = tagToAddress (base c) (m_tag einfo)"
    and fi: "(case m_fault_injector c of
                None \<Rightarrow> Inr (None, s1)
              | Some _ \<Rightarrow>
                  (case find_line s1 tag of
                     None \<Rightarrow> Inl (LOG_ASSERT_ERROR ''Inserted line no longer there?'')
                   | Some line_index \<Rightarrow>
                       inject postWrite (m_fault_injector c) (of_nat (m_blocksize s1)) line_index 0 s1)) = Inr (fi, s2)"
    using assms(3) by (auto simp: insertSingleLine_def assms(1,2) Let_def)
  have "same_lines s1 s2" using fi by (auto split: option.splits dest: inject_same_lines)
  then show ?thesis using that [OF c' _ _ ea ins] by simp
qed

lemma insert_fields:
  assumes "set_insert pick s p b fill eb ebuf = Inr (r, s', p')"
  shows "m_associativity s' = m_associativity s \<and> m_blocksize s' = m_blocksize s"
  using assms by (auto simp: set_insert_def Let_def split: option.splits if_splits)

lemma insert_shape:
  assumes "set_insert (getReplacementIndex cntlr) s (p, e) b fill eb ebuf = Inr (r, s', p', e')"
  shows "env_shape e' = env_shape e"
  using assms by (auto simp: set_insert_def Let_def split: if_splits dest: getReplacementIndex_shape)

lemma insert_correct:
  assumes "cache_inv c" "splitAddress (base c) addr = Inr (tag, si)" "tag \<notin> contents c"
    and "insertSingleLine cntlr c addr fill eb ebuf = Inr (ev, eaddr, einfo, edata, c')"
  shows "cache_inv c' \<and> base c' = base c \<and>
    contents c' = insert tag (if ev then contents c - {m_tag einfo} else contents c) \<and>
    (ev \<longrightarrow> m_tag einfo \<in> contents c \<and> splitAddress (base c) eaddr = Inr (m_tag einfo, si))"
proof (rule cache_set_at [OF assms(1,2)])
  fix s p
  assume g: "get_set c si = Inr (s, p)" and lt: "unat si < length (m_sets c)" and at: "m_sets c ! unat si = (s, p)"
    and ok: "set_ok (base c) (m_set_info c) (unat si) (s, p)" and tag: "tag \<noteq> - 1"
  have inv: "set_inv s" and pinv: "policy_inv (m_associativity s) (p, m_set_info c)" using ok by (auto simp: set_ok_def)
  show ?thesis
  proof (rule insert_result [OF assms(2) g assms(4)])
    fix b fi s1 s2 p' e'
    assume c': "c' = put_set (c\<lparr>m_fault_injector := fi\<rparr>) si s2 p' e'" and b: "m_tag b = tag" and s2: "same_lines s1 s2"
      and ea: "eaddr = tagToAddress (base c) (m_tag einfo)"
      and ins: "set_insert (getReplacementIndex cntlr) s (p, m_set_info c) b fill eb ebuf = Inr ((ev, einfo, edata), s1, p', e')"
    have absent: "m_tag b \<notin> cached s" using assms(3) contents_own_set [OF assms(1,2) at lt] b by simp
    have bv: "isValid b" using tag b by (simp add: isValid_tag_NOT)
    note s1 = sets.set_insert_correct [OF inv pinv bv absent ins]
    have own: "splitAddress (base c) (tagToAddress (base c) tag) = Inr (tag, si)"
      using assms(1,2) by (intro splitAddress_of_tag) (auto simp: cache_inv_def)
    have old: "splitAddress (base c) (tagToAddress (base c) t) = Inr (t, si)" if "t \<in> cached s" for t
      using ok that by (simp add: set_ok_def)
    have "set_ok (base c) e' (unat si) (s1, p')"
      using s1 ok insert_fields [OF ins] own old b by (auto simp: set_ok_def split: if_splits)
    then have "set_ok (base c) e' (unat si) (s2, p')" using set_ok_same_lines [OF s2] s1 by blast
    then have "cache_inv c'"
      unfolding c' using assms(1) lt insert_shape [OF ins] by (intro put_set_inv) auto
    moreover have "cached s \<subseteq> contents c" by (rule cached_subset_contents [OF at lt])
    moreover have "contents c' = (contents c - cached s) \<union> cached s1"
      using put_set_contents [of "c\<lparr>m_fault_injector := fi\<rparr>" si s p s2 p' e'] assms(1) lt at same_linesD(1) [OF s2]
      unfolding c' by simp
    ultimately show ?thesis using s1 b ea old by (auto simp: c' split: if_splits)
  qed
qed

lemma insert_returns:
  assumes "cache_inv c" "splitAddress (base c) addr = Inr (tag, si)" "m_fault_injector c = None"
    and "\<forall>(s, p) \<in> set (m_sets c). quiescent s \<and> plain_policy (m_associativity s) p"
  shows "\<exists>r. insertSingleLine (Some q) c addr fill eb ebuf = Inr r"
proof (rule cache_set_at [OF assms(1,2)])
  fix s p
  assume g: "get_set c si = Inr (s, p)" and lt: "unat si < length (m_sets c)" and at: "m_sets c ! unat si = (s, p)"
    and ok: "set_ok (base c) (m_set_info c) (unat si) (s, p)"
  have "(s, p) \<in> set (m_sets c)" using lt at nth_mem by metis
  then have live: "quiescent s" "plain_policy (m_associativity s) p" using assms(4) by auto
  obtain b0 where b0: "create (m_cache_type c) = Inr b0"
    using assms(1) by (cases "m_cache_type c") (auto simp: create_def cache_inv_def)
  obtain ev einfo edata s' p' e' where
    "set_insert (getReplacementIndex (Some q)) s (p, m_set_info c) (b0\<lparr>m_tag := tag\<rparr>) fill eb ebuf =
       Inr ((ev, einfo, edata), s', p', e')"
    using sets_live.set_insert_returns [of s "(p, m_set_info c)" q "b0\<lparr>m_tag := tag\<rparr>" fill eb ebuf]
      ok live set_inv_wf by (fastforce simp: set_ok_def)
  then show ?thesis by (simp add: insertSingleLine_def assms(2,3) g b0 Let_def)
qed

section \<open>Construction\<close>

lemma CacheSet_result:
  assumes "CacheSet f t n bs = Inr s" "0 < n"
  shows "set_inv s" "cached s = {}" "m_associativity s = n" "m_blocksize s = bs" "quiescent s"
  using assms isValid_create [of t]
  by (auto simp: CacheSet_def set_inv_def set_wf_def cached_def quiescent_def isValidReplacement_def isValid_tag_NOT
      filter_empty_conv)

definition config_ok :: "ReplacementPolicy \<Rightarrow> set_config \<Rightarrow> nat \<Rightarrow> bool" where
  "config_ok policy cfg n \<longleftrightarrow> 0 < n \<and> n \<le> 256 \<and> 0 < getNumQBSAttempts policy cfg \<and>
     0 < cfg_srrip_bits cfg \<and> cfg_srrip_bits cfg < 8"

lemma initial_env_LRU:
  "policy \<in> {LRU, LRU_QBS, SRRIP, SRRIP_QBS} \<Longrightarrow>
     initial_env policy cfg n = \<lparr>env_info = CacheSetInfoLRU n (getNumQBSAttempts policy cfg), env_qbs = 0\<rparr>"
  by (auto simp: initial_env_def createCacheSetInfo_def)

lemma CacheSetSRRIP_attempts [simp]: "srrip_num_attempts (CacheSetSRRIP b n a) = a"
  by (simp add: CacheSetSRRIP_def Let_def)

lemma createCacheSet_policy_inv:
  assumes "config_ok policy cfg n" "createCacheSet_policy policy cfg n = Inr p"
  shows "policy_inv n (p, initial_env policy cfg n)"
proof (cases policy)
  case LRU
  then show ?thesis using assms
    by (auto simp: createCacheSet_policy_def policy_inv_def initial_env_LRU config_ok_def lru_inv_def CacheSetLRU_def
        lru_perm_init env_ok_def CacheSetInfoLRU_def)
next
  case LRU_QBS
  then show ?thesis using assms
    by (auto simp: createCacheSet_policy_def policy_inv_def initial_env_LRU config_ok_def lru_inv_def CacheSetLRU_def
        lru_perm_init env_ok_def CacheSetInfoLRU_def)
next
  case SRRIP
  then show ?thesis using assms CacheSetSRRIP_inv
    by (auto simp: createCacheSet_policy_def policy_inv_def initial_env_LRU config_ok_def)
next
  case SRRIP_QBS
  then show ?thesis using assms CacheSetSRRIP_inv
    by (auto simp: createCacheSet_policy_def policy_inv_def initial_env_LRU config_ok_def)
qed (use assms in \<open>auto simp: createCacheSet_policy_def policy_inv_def config_ok_def round_robin_init_def
    CacheSetNRU_def nru_inv_def lru_perm_init nmru_inv_def CacheSetNMRU_def CacheSetPLRU_def plru_inv_def
    split: if_splits\<close>)

lemma Cache_inv:
  assumes "Cache name f cfg ns assoc bs pname t h fi ahl = Inr c" "parsePolicyType pname = Inr policy"
    and "config_ok policy cfg (unat assoc)" "hash_safe (base c)" "cb_ahl_ok (base c)" "1 < bs"
  shows "cache_inv c \<and> contents c = {}"
proof -
  obtain b sets where b: "CacheBase name ns assoc bs h ahl = Inr b"
    and sets: "(if ns = 0 then Inr [] else bindE (createCacheSet f cfg pname t (unat assoc) (unat bs))
                   (\<lambda>s. Inr (replicate (unat ns) s))) = Inr sets"
    and c: "c = \<lparr>base = b, m_enabled = False, m_num_accesses = 0, m_num_hits = 0, m_cache_type = t,
            m_sets = sets, m_set_info = initial_env policy cfg (unat assoc), m_fault_injector = fi\<rparr>"
    using assms(1,2) unfolding Cache_def by fastforce
  have wf: "cb_wf b" by (rule CacheBase_wf [OF b])
  have fields: "m_num_sets b = ns" "cb_associativity b = assoc" "cb_blocksize b = bs"
    using b by (auto simp: CacheBase_def Let_def split: if_splits)
  have ns: "ns \<noteq> 0" using wf fields by (simp add: cb_wf_def)
  obtain s p where s: "CacheSet f t (unat assoc) (unat bs) = Inr s"
    and p: "createCacheSet_policy policy cfg (unat assoc) = Inr p" and sets_eq: "sets = replicate (unat ns) (s, p)"
    using sets ns assms(2) by (auto simp: createCacheSet_def)
  have n: "0 < unat assoc" using assms(3) by (simp add: config_ok_def)
  have "t \<noteq> INVALID_CACHE_TYPE" using s n by (auto simp: CacheSet_def create_def)
  moreover have "0 < m_log_blocksize b"
  proof (rule ccontr)
    assume "\<not> 0 < m_log_blocksize b"
    then have "nat (floorLog2 bs) = 0" using wf fields by (auto simp: cb_wf_def)
    then show False using floorLog2_bounds [of bs] assms(6) by (cases "bs = 0") (auto simp: word_less_nat_alt simp del: nat_0_iff)
  qed
  moreover have "set_ok b (initial_env policy cfg (unat assoc)) i (s, p)" for i
    using CacheSet_result [OF s n] createCacheSet_policy_inv [OF assms(3) p] fields by (simp add: set_ok_def)
  ultimately show ?thesis
    using assms(4,5) wf fields CacheSet_result(2) [OF s n]
    by (auto simp: cache_inv_def c sets_eq contents_def)
qed

section \<open>Sequences of operations\<close>

text \<open>
  The states a cache goes through: lookups, invalidations, counter updates and enabling, and
  insertions of lines that are not present. \<^verbatim>\<open>insertSingleLine\<close> does not look whether the line is there; its
  callers must, and an insertion of a line that is present stores it twice (lemma \<open>double_insert_duplicates\<close>). The
  cache and NUCA controllers insert after a lookup missed, and the victims of a TLB, which are inserted without one, are
  the counterexample of theory \<open>Tlb\<close>.
\<close>

inductive cache_step :: "cache \<Rightarrow> cache \<Rightarrow> bool" where
  access: "splitAddress (base c) addr = Inr (tag, si) \<Longrightarrow>
     accessSingleLine c addr access_type buff bytes upd = Inr (l, out, c') \<Longrightarrow> cache_step c c'"
| insert: "peekSingleLine c addr = Inr None \<Longrightarrow>
     insertSingleLine cntlr c addr fill eb ebuf = Inr (ev, eaddr, einfo, edata, c') \<Longrightarrow> cache_step c c'"
| invalidate: "invalidateSingleLine c addr = Inr (found, c') \<Longrightarrow> cache_step c c'"
| counters: "cache_step c (updateCounters c hit)"
| hits: "cache_step c (updateHits c n)"
| enable: "cache_step c (cache_enable c)"
| disable: "cache_step c (cache_disable c)"

lemma cache_inv_counters [simp]:
  "cache_inv (updateCounters c hit) = cache_inv c" "cache_inv (updateHits c n) = cache_inv c"
  "cache_inv (cache_enable c) = cache_inv c" "cache_inv (cache_disable c) = cache_inv c"
  by (simp_all add: cache_inv_def updateCounters_def updateHits_def cache_enable_def cache_disable_def Let_def)

lemma base_counters [simp]:
  "base (updateCounters c hit) = base c" "base (updateHits c n) = base c"
  "base (cache_enable c) = base c" "base (cache_disable c) = base c"
  by (simp_all add: updateCounters_def updateHits_def cache_enable_def cache_disable_def Let_def)

lemma peek_splits: "peekSingleLine c addr = Inr r \<Longrightarrow> \<exists>tag si. splitAddress (base c) addr = Inr (tag, si)"
  by (auto simp: peekSingleLine_def)

lemma invalidate_splits: "invalidateSingleLine c addr = Inr r \<Longrightarrow> \<exists>tag si. splitAddress (base c) addr = Inr (tag, si)"
  by (auto simp: invalidateSingleLine_def)

lemma cache_step_inv:
  assumes "cache_step c c'" "cache_inv c"
  shows "cache_inv c' \<and> base c' = base c"
  using assms
proof (cases rule: cache_step.cases)
  case (access addr tag si access_type buff bytes upd l out)
  then show ?thesis using access_correct assms(2) by blast
next
  case (insert addr cntlr fill eb ebuf ev eaddr einfo edata)
  obtain tag si where sp: "splitAddress (base c) addr = Inr (tag, si)" using peek_splits insert(1) by blast
  then have "tag \<notin> contents c" using peek_correct [OF assms(2) sp] insert(1) by auto
  then show ?thesis using insert_correct [OF assms(2) sp _ insert(2)] by blast
next
  case (invalidate addr found)
  obtain tag si where sp: "splitAddress (base c) addr = Inr (tag, si)" using invalidate_splits invalidate by blast
  then show ?thesis using invalidate_correct [OF assms(2) sp] invalidate by auto
qed (use assms in simp_all)

lemma cache_steps_inv: "cache_step\<^sup>*\<^sup>* c c' \<Longrightarrow> cache_inv c \<Longrightarrow> cache_inv c' \<and> base c' = base c"
  by (induction rule: rtranclp_induct) (auto dest: cache_step_inv)

lemma Cache_assoc: "Cache name f cfg ns assoc bs pname t h fi ahl = Inr c \<Longrightarrow> cb_associativity (base c) = assoc"
  by (auto simp: Cache_def CacheBase_def Let_def split: if_splits)

section \<open>Properties\<close>

text \<open>An example: a two-way, four-set LRU cache with 64-byte lines.\<close>

definition example_config :: set_config where
  "example_config = \<lparr>cfg_qbs_attempts = 1, cfg_srrip_bits = 2, cfg_time = 0\<rparr>"

definition example_cache :: cache where
  "example_cache = (case Cache ''L1-D'' False example_config 4 2 64 ''lru'' PR_L1_CACHE HASH_MASK None None of
     Inr c \<Rightarrow> c)"

definition example_eb :: cache_block_info where
  "example_eb = CacheBlockInfo PR_L1_CACHE (NOT 0) INVALID 0"

lemma example_cache_constructed:
  "Cache ''L1-D'' False example_config 4 2 64 ''lru'' PR_L1_CACHE HASH_MASK None None = Inr example_cache"
  by code_simp

lemma example_cache_base [simp]: "m_hash (base example_cache) = HASH_MASK" "m_ahl (base example_cache) = None"
  by code_simp+

lemma example_cache_config: "config_ok LRU example_config (unat (2 :: UInt32))" "parsePolicyType ''lru'' = Inr LRU"
  by (simp_all add: config_ok_def example_config_def getNumQBSAttempts_def parsePolicyType_def)

lemma example_cache_inv: "cache_inv example_cache" "contents example_cache = {}"
  using Cache_inv [OF example_cache_constructed example_cache_config(2,1)]
  by (simp_all add: hash_safe_def cb_ahl_ok_def)

text \<open>
  C16: whatever sequence of lookups, invalidations, counter updates and insertions of absent lines follows construction,
  in every state the lines of a set have pairwise distinct tags, each line is stored in the set its address maps to, and
  the state of each set's replacement policy is well formed. The configuration must fit the policy (\<open>config_ok\<close>:
  between 1 and 256 ways, some attempt of query-based selection, between 1 and 7 bits of re-reference prediction), blocks
  must be larger than a byte, with \<^verbatim>\<open>HASH_XOR_MOD\<close> the number of sets must be a power of two
  (\<open>hash_safe\<close>), and an address home lookup, if there is one, must interleave whole blocks
  (\<open>cb_ahl_ok\<close>).
\<close>

theorem cache_invariant_reachable:
  assumes "Cache name f cfg ns assoc bs pname t h fi ahl = Inr c0" "parsePolicyType pname = Inr policy"
    and "config_ok policy cfg (unat assoc)" "hash_safe (base c0)" "cb_ahl_ok (base c0)" "1 < bs"
    and "cache_step\<^sup>*\<^sup>* c0 c" "i < length (m_sets c)" "m_sets c ! i = (s, p)"
  shows "distinct (filter (\<lambda>t. t \<noteq> - 1) (map m_tag (m_cache_block_info_array s))) \<and>
    (\<forall>t \<in> cached s. splitAddress (base c) (tagToAddress (base c) t) = Inr (t, of_nat i)) \<and>
    policy_inv (unat assoc) (p, m_set_info c)"
proof -
  have "cache_inv c \<and> base c = base c0"
    using cache_steps_inv [OF assms(7)] Cache_inv [OF assms(1-6)] by blast
  then show ?thesis
    using assms(8,9) Cache_assoc [OF assms(1)] by (force simp: cache_inv_def set_ok_def set_inv_def)
qed

definition example_cache1 :: cache where
  "example_cache1 = (case insertSingleLine (Some (\<lambda>_. False)) example_cache 0x1000 None example_eb False of
     Inr (ev, ea, ei, ed, c) \<Rightarrow> c)"

lemma example_insert:
  "insertSingleLine (Some (\<lambda>_. False)) example_cache 0x1000 None example_eb False =
     Inr (False, tagToAddress (base example_cache) (- 1), example_eb, None, example_cache1)"
  "splitAddress (base example_cache) 0x1000 = Inr (0x40, 0)"
  "peekSingleLine example_cache 0x1000 = Inr None"
  by code_simp+

text \<open>Without the restriction to absent lines the invariant fails.\<close>

lemma double_insert_duplicates:
  "case insertSingleLine (Some (\<lambda>_. False)) example_cache1 0x1000 None example_eb False of
     Inr (ev, ea, ei, ed, c) \<Rightarrow> map m_tag (m_cache_block_info_array (fst (m_sets c ! 0))) = [0x40, 0x40]
   | Inl e \<Rightarrow> False"
  by code_simp

lemma example_step: "cache_step\<^sup>*\<^sup>* example_cache example_cache1"
  by (rule r_into_rtranclp, rule cache_step.insert [OF example_insert(3,1)])

theorem cache_invariant_reachable_witness:
  "policy_inv 2 (snd (m_sets example_cache1 ! 0), m_set_info example_cache1) \<and>
   cached (fst (m_sets example_cache1 ! 0)) \<noteq> {}"
proof -
  have "0 < length (m_sets example_cache1)" by code_simp
  then have "policy_inv 2 (snd (m_sets example_cache1 ! 0), m_set_info example_cache1)"
    using cache_invariant_reachable [OF example_cache_constructed example_cache_config(2,1) _ _ _ example_step, of 0]
    by (simp add: hash_safe_def cb_ahl_ok_def prod_eq_iff)
  moreover have "cached (fst (m_sets example_cache1 ! 0)) = {0x40}" by code_simp
  ultimately show ?thesis by simp
qed

text \<open>
  C17: inserting a line that is not in the cache makes a lookup of its address hit, with the inserted
  tag. If it evicted a line, that line was in the same set, its reported address no longer hits, and
  for every other address whether it hits is unchanged.
\<close>

theorem insert_then_peek:
  assumes "cache_inv c" "peekSingleLine c addr = Inr None"
    and "insertSingleLine cntlr c addr fill eb ebuf = Inr (ev, evict_addr, einfo, edata, c')"
    and "splitAddress (base c) other = Inr (tag, si)"
  shows "\<exists>line. peekSingleLine c' addr = Inr (Some line) \<and> m_tag line = drop_bit (m_log_blocksize (base c)) addr \<and>
    (ev \<longrightarrow> getSetLock c evict_addr = getSetLock c addr \<and> peekSingleLine c' evict_addr = Inr None) \<and>
    (tag \<noteq> m_tag line \<and> (ev \<longrightarrow> tag \<noteq> m_tag einfo) \<longrightarrow>
       (peekSingleLine c' other = Inr None) = (peekSingleLine c other = Inr None))"
proof -
  obtain t s where sp: "splitAddress (base c) addr = Inr (t, s)" using peek_splits assms(2) by blast
  have absent: "t \<notin> contents c" using peek_correct [OF assms(1) sp] assms(2) by auto
  note ins = insert_correct [OF assms(1) sp absent assms(3)]
  then have inv: "cache_inv c'" and b: "base c' = base c" by auto
  have peek: "(peekSingleLine d a = Inr None) = (u \<notin> contents d)"
    if "cache_inv d" "splitAddress (base d) a = Inr (u, i)" for d a u i
    using peek_correct [OF that] by auto
  have "t \<in> contents c'" using ins by simp
  then obtain line where line: "peekSingleLine c' addr = Inr (Some line)" "m_tag line = t"
    using peek_correct [OF inv, of addr t s] sp b by auto
  have "getSetLock c evict_addr = getSetLock c addr \<and> peekSingleLine c' evict_addr = Inr None" if ev
  proof -
    have ea: "splitAddress (base c) evict_addr = Inr (m_tag einfo, s)" "m_tag einfo \<in> contents c"
      using ins that by auto
    then have "m_tag einfo \<noteq> t" using absent by auto
    then show ?thesis using ea ins that peek [OF inv, of evict_addr] b by (simp add: getSetLock_def sp)
  qed
  moreover have "(peekSingleLine c' other = Inr None) = (peekSingleLine c other = Inr None)"
    if "tag \<noteq> t" "ev \<longrightarrow> tag \<noteq> m_tag einfo"
    using that ins peek [OF inv, of other tag si] peek [OF assms(1,4)] assms(4) b by (auto split: if_splits)
  ultimately show ?thesis using line split_tag [OF sp] by auto
qed

theorem insert_then_peek_witness:
  "\<exists>line. peekSingleLine example_cache1 0x1000 = Inr (Some line) \<and> m_tag line = 0x40 \<and>
     (peekSingleLine example_cache1 0x2000 = Inr None) = (peekSingleLine example_cache 0x2000 = Inr None)"
proof -
  have b: "drop_bit (m_log_blocksize (base example_cache)) 0x1000 = (0x40 :: IntPtr)" by code_simp
  have sp: "splitAddress (base example_cache) 0x2000 = Inr (0x80, 0)" by code_simp
  show ?thesis
    using insert_then_peek [OF example_cache_inv(1) example_insert(3,1) sp] unfolding b by auto
qed

text \<open>
  C18: an insertion does not stop the simulator. In a consistent cache without fault injection, with no line being
  upgraded and a cache controller given, whatever it answers to the queries of query-based selection,
  a way is found and the insertion completes, for every policy except SRRIP with query-based selection and NMRU on a
  direct-mapped cache. (Without a controller query-based selection fails the assertion that there is one.)
\<close>

theorem insert_completes:
  assumes "cache_inv c" "splitAddress (base c) addr = Inr (tag, si)" "m_fault_injector c = None"
    and "\<forall>(s, p) \<in> set (m_sets c). quiescent s \<and> plain_policy (m_associativity s) p"
  shows "\<exists>r. insertSingleLine (Some q) c addr fill eb ebuf = Inr r"
  using assms by (rule insert_returns)

theorem insert_completes_witness:
  "\<exists>r. insertSingleLine (Some (\<lambda>_. True)) example_cache 0x1000 None example_eb False = Inr r"
proof (rule insert_completes [OF example_cache_inv(1) example_insert(2)])
  show "m_fault_injector example_cache = None" by code_simp
  have "list_all (\<lambda>(s, p). list_all (isValidReplacement s) [0..<m_associativity s] \<and> plain_policy (m_associativity s) p)
      (m_sets example_cache)" by code_simp
  then show "\<forall>(s, p) \<in> set (m_sets example_cache). quiescent s \<and> plain_policy (m_associativity s) p"
    by (auto simp: list_all_iff quiescent_def)
qed

text \<open>
  C19: \<^verbatim>\<open>invalidateSingleLine\<close> always returns, reports whether the line was present, and removes
  exactly that line; \<^verbatim>\<open>accessSingleLine\<close> hits exactly the lines present and changes none.
\<close>

theorem invalidate_and_access_refine:
  assumes "cache_inv c" "splitAddress (base c) addr = Inr (tag, si)"
  shows "(\<exists>c'. invalidateSingleLine c addr = Inr (tag \<in> contents c, c') \<and> contents c' = contents c - {tag}) \<and>
    (\<forall>l out c'. accessSingleLine c addr access_type buff bytes upd = Inr (l, out, c') \<longrightarrow>
       (l \<noteq> None) = (tag \<in> contents c) \<and> contents c' = contents c)"
proof (intro conjI allI impI)
  show "\<exists>c'. invalidateSingleLine c addr = Inr (tag \<in> contents c, c') \<and> contents c' = contents c - {tag}"
    using invalidate_correct [OF assms] by blast
qed (drule access_correct [OF assms]; simp)+

theorem invalidate_and_access_refine_witness:
  "(\<exists>c'. invalidateSingleLine example_cache1 0x1000 = Inr (0x40 \<in> contents example_cache1, c') \<and>
      contents c' = contents example_cache1 - {0x40})"
proof -
  have i: "cache_inv example_cache1" using cache_steps_inv [OF example_step] example_cache_inv by blast
  have "splitAddress (base example_cache1) 0x1000 = Inr (0x40, 0)" by code_simp
  from invalidate_and_access_refine [OF i this] show ?thesis by blast
qed

end
