(* ===== verification/Nuca_Cache.thy ===== *)
theory Nuca_Cache
  imports Cache
begin

unbundle bit_operations_syntax

text \<open>
  \<^verbatim>\<open>parametric_dram_directory_msi/nuca_cache.cc\<close>: the non-uniform cache beside a tag directory, over
  the cache of theory \<open>Cache\<close>. The latency of the data array, which goes through a queue model, is a
  function of the access and its start time given as a field; the \<^verbatim>\<open>ShmemPerf\<close> accounting is left
  out. \<^verbatim>\<open>write\<close> reports its \<^verbatim>\<open>eviction\<close> output as an option: \<open>None\<close> when it leaves the caller's
  variable unassigned.
\<close>

record nuca_cache =
  nc_cache :: cache
  nc_cache_block_size :: UInt32
  nc_tags_access_time :: UInt64
  nc_accessDataArray :: "access_t \<Rightarrow> UInt64 \<Rightarrow> UInt64"
  m_reads :: UInt64
  m_writes :: UInt64
  m_read_misses :: UInt64
  m_write_misses :: UInt64

definition NucaCache ::
  "bool \<Rightarrow> set_config \<Rightarrow> UInt32 \<Rightarrow> UInt32 \<Rightarrow> UInt32 \<Rightarrow> string \<Rightarrow> string \<Rightarrow> address_home_lookup \<Rightarrow> UInt64
     \<Rightarrow> (access_t \<Rightarrow> UInt64 \<Rightarrow> UInt64) \<Rightarrow> nuca_cache result" where
  "NucaCache fault_injection cfg num_sets associativity cache_block_size policy_name hash_function home_lookup
      tags_access_time data_array =
     bindE (parseAddressHash hash_function) (\<lambda>hash.
     bindE (Cache ''nuca-cache'' fault_injection cfg num_sets associativity cache_block_size policy_name PR_L1_CACHE
              hash None (Some home_lookup)) (\<lambda>c.
       Inr \<lparr>nc_cache = c, nc_cache_block_size = cache_block_size, nc_tags_access_time = tags_access_time,
            nc_accessDataArray = data_array, m_reads = 0, m_writes = 0, m_read_misses = 0, m_write_misses = 0\<rparr>))"

text \<open>\<^verbatim>\<open>setCState\<close> on the line a lookup of \<^verbatim>\<open>address\<close> returned.\<close>

definition set_line_cstate :: "cache \<Rightarrow> IntPtr \<Rightarrow> cstate_t \<Rightarrow> cache result" where
  "set_line_cstate c address st =
     bindE (splitAddress (base c) address) (\<lambda>(tag, set_index).
     bindE (get_set c set_index) (\<lambda>(s, p).
       case find_line s tag of
         None \<Rightarrow> Inr c
       | Some i \<Rightarrow>
           Inr (put_set c set_index
                  (s\<lparr>m_cache_block_info_array :=
                      (m_cache_block_info_array s)[i := (m_cache_block_info_array s ! i)\<lparr>m_cstate := st\<rparr>]\<rparr>)
                  p (m_set_info c))))"

definition nuca_read ::
  "nuca_cache \<Rightarrow> IntPtr \<Rightarrow> UInt8 list \<Rightarrow> UInt64 \<Rightarrow> bool \<Rightarrow> (UInt64 \<times> bool \<times> UInt8 list \<times> nuca_cache) result" where
  "nuca_read n address data_buf now cnt =
     bindE (peekSingleLine (nc_cache n) address) (\<lambda>block_info.
       let latency = nc_tags_access_time n in
       bindE (case block_info of
                Some _ \<Rightarrow>
                  bindE (accessSingleLine (nc_cache n) address LOAD (Some data_buf) (nc_cache_block_size n) True)
                    (\<lambda>(_, out, c').
                      Inr (latency + nc_accessDataArray n LOAD (now + latency), True,
                           (case out of Some d \<Rightarrow> d | None \<Rightarrow> data_buf), n\<lparr>nc_cache := c'\<rparr>))
              | None \<Rightarrow>
                  Inr (latency, False, data_buf,
                       if cnt then n\<lparr>m_read_misses := m_read_misses n + 1\<rparr> else n))
         (\<lambda>(lat, hit, data, n').
            Inr (lat, hit, data, if cnt then n'\<lparr>m_reads := m_reads n' + 1\<rparr> else n')))"

definition nuca_write ::
  "nuca_cache \<Rightarrow> IntPtr \<Rightarrow> UInt8 list \<Rightarrow> UInt64 \<Rightarrow> bool
     \<Rightarrow> ((UInt64 \<times> bool) \<times> (bool option \<times> IntPtr \<times> UInt8 list option) \<times> nuca_cache) result" where
  "nuca_write n address data_buf now cnt =
     bindE (peekSingleLine (nc_cache n) address) (\<lambda>block_info.
       let latency = nc_tags_access_time n in
       bindE (case block_info of
                Some _ \<Rightarrow>
                  bindE (set_line_cstate (nc_cache n) address MODIFIED) (\<lambda>c1.
                  bindE (accessSingleLine c1 address STORE (Some data_buf) (nc_cache_block_size n) True)
                    (\<lambda>(_, _, c').
                      Inr ((latency + nc_accessDataArray n STORE (now + latency), True), (None, 0, None), n\<lparr>nc_cache := c'\<rparr>)))
              | None \<Rightarrow>
                  bindE (insertSingleLine None (nc_cache n) address (Some data_buf)
                           (CacheBlockInfo PR_L1_CACHE (NOT 0) INVALID 0) True)
                    (\<lambda>(eviction, evict_address, evict_block_info, evict_buf, c').
                      let eviction' = (eviction \<and> m_cstate evict_block_info = MODIFIED)
                      in Inr ((latency, False), (Some eviction', evict_address, evict_buf),
                              if cnt then n\<lparr>nc_cache := c', m_write_misses := m_write_misses n + 1\<rparr>
                              else n\<lparr>nc_cache := c'\<rparr>)))
         (\<lambda>(res, ev, n'). Inr (res, ev, if cnt then n'\<lparr>m_writes := m_writes n' + 1\<rparr> else n')))"

section \<open>Properties\<close>

lemma set_line_cstate_same:
  assumes "cache_inv c" "splitAddress (base c) addr = Inr (tag, si)" "set_line_cstate c addr st = Inr c'"
  shows "cache_inv c' \<and> base c' = base c \<and> contents c' = contents c"
proof (rule cache_set_at [OF assms(1,2)])
  fix s p
  assume g: "get_set c si = Inr (s, p)" and lt: "unat si < length (m_sets c)" and at: "m_sets c ! unat si = (s, p)"
    and ok: "set_ok (base c) (m_set_info c) (unat si) (s, p)" and tag: "tag \<noteq> - 1"
  have inv: "set_inv s" using ok by (simp add: set_ok_def)
  show ?thesis
  proof (cases "find_line s tag")
    case None
    then show ?thesis using assms g by (auto simp: set_line_cstate_def)
  next
    case (Some i)
    let ?s = "s\<lparr>m_cache_block_info_array := (m_cache_block_info_array s)[i := (m_cache_block_info_array s ! i)\<lparr>m_cstate := st\<rparr>]\<rparr>"
    have c': "c' = put_set c si ?s p (m_set_info c)" using assms(2,3) g Some by (auto simp: set_line_cstate_def)
    have i: "i < m_associativity s" using Some find_line_iff [OF inv tag] by blast
    have tags: "map m_tag (m_cache_block_info_array ?s) = map m_tag (m_cache_block_info_array s)"
      using i inv by (simp add: map_update set_inv_def set_wf_def) (metis list_update_id nth_map)
    have wf: "set_inv ?s" using inv tags unfolding set_inv_def by (auto simp: set_wf_def)
    have cached_tags: "cached x = set (map m_tag (m_cache_block_info_array x)) - {- 1}" for x
      by (auto simp: cached_def isValid_tag_NOT)
    have same: "cached ?s = cached s" using tags unfolding cached_tags by simp
    have "cache_inv c'"
      unfolding c' using assms(1) lt refl by (rule put_set_inv) (use ok wf same in \<open>auto simp: set_ok_def\<close>)
    moreover have "contents c' = contents c"
      unfolding c' using put_set_contents [OF assms(1) lt at] same cached_subset_contents [OF at lt] by auto
    ultimately show ?thesis by (simp add: c')
  qed
qed

text \<open>
  A NUCA write keeps the cache well formed and leaves the written line resident; when the line
  was already resident, \<^verbatim>\<open>NucaCache::write\<close> returns without assigning its \<^verbatim>\<open>eviction\<close> output.
\<close>

theorem nuca_write_resident:
  assumes "cache_inv (nc_cache n)" "splitAddress (base (nc_cache n)) addr = Inr (tag, si)"
    and "nuca_write n addr data now cnt = Inr (res, (eviction, evict_addr, evict_buf), n')"
  shows "cache_inv (nc_cache n') \<and> tag \<in> contents (nc_cache n') \<and>
    (eviction = None \<longleftrightarrow> tag \<in> contents (nc_cache n))"
proof -
  obtain r where r: "peekSingleLine (nc_cache n) addr = Inr r" "r \<noteq> None \<longleftrightarrow> tag \<in> contents (nc_cache n)"
    using peek_correct [OF assms(1,2)] by blast
  show ?thesis
  proof (cases r)
    case None
    then obtain ev ea ei ed c' where ins: "insertSingleLine None (nc_cache n) addr (Some data)
          (CacheBlockInfo PR_L1_CACHE (NOT 0) INVALID 0) True = Inr (ev, ea, ei, ed, c')"
        and "nc_cache n' = c'" "eviction \<noteq> None"
      using assms(3) r(1) by (auto simp: nuca_write_def Let_def split: if_splits)
    then show ?thesis using insert_correct [OF assms(1,2) _ ins] r(2) None by auto
  next
    case (Some b)
    then obtain c1 l out c' where c1: "set_line_cstate (nc_cache n) addr MODIFIED = Inr c1"
        and acc: "accessSingleLine c1 addr STORE (Some data) (nc_cache_block_size n) True = Inr (l, out, c')"
        and "nc_cache n' = c'" "eviction = None"
      using assms(3) r(1) by (auto simp: nuca_write_def Let_def split: if_splits)
    moreover note same = set_line_cstate_same [OF assms(1,2) c1]
    moreover have "splitAddress (base c1) addr = Inr (tag, si)" using same assms(2) by simp
    ultimately show ?thesis using access_correct [OF _ _ acc] r(2) Some by auto
  qed
qed

definition example_nuca :: nuca_cache where
  "example_nuca = \<lparr>nc_cache = example_cache1, nc_cache_block_size = 64, nc_tags_access_time = 2000000,
     nc_accessDataArray = (\<lambda>_ _. 6000000), m_reads = 0, m_writes = 0, m_read_misses = 0, m_write_misses = 0\<rparr>"

definition example_nuca1 :: nuca_cache where
  "example_nuca1 = (case nuca_write example_nuca 0x1000 [] 0 True of Inr (r, ev, n) \<Rightarrow> n)"

theorem nuca_write_resident_witness:
  "cache_inv (nc_cache example_nuca1) \<and> 0x40 \<in> contents (nc_cache example_nuca1)"
proof -
  have i: "cache_inv (nc_cache example_nuca)"
    using cache_steps_inv [OF example_step] example_cache_inv by (simp add: example_nuca_def)
  have sp: "splitAddress (base (nc_cache example_nuca)) 0x1000 = Inr (0x40, 0)" by code_simp
  have "case nuca_write example_nuca 0x1000 [] 0 True of Inr x \<Rightarrow> True | Inl e \<Rightarrow> False" by code_simp
  then obtain res eviction ea eb n' where w: "nuca_write example_nuca 0x1000 [] 0 True = Inr (res, (eviction, ea, eb), n')"
    by (auto split: sum.splits)
  then have "example_nuca1 = n'" by (simp add: example_nuca1_def)
  with nuca_write_resident [OF i sp w] show ?thesis by simp
qed

definition small_nuca :: nuca_cache where
  "small_nuca = (case NucaCache False example_config 1 1 64 ''lru'' ''mask''
       \<lparr>m_ahl_param = 6, m_ahl_mask = 63, m_core_list = [0], m_total_modules = 1, ahl_cache_block_size = 64\<rparr>
       2000000 (\<lambda>_ _. 6000000) of Inr n \<Rightarrow> n)"

text \<open>
  Dirty data written back into the NUCA cache is lost to the memory system when it misses there:
  the line is inserted in state \<^verbatim>\<open>INVALID\<close>, not \<^verbatim>\<open>MODIFIED\<close>, so when it is evicted later the caller
  is told there is nothing to write to DRAM. In the example a direct-mapped NUCA cache takes a
  write-back of line \<open>0x1000\<close> and then one of line \<open>0x2000\<close>, which evicts the first.
\<close>

theorem nuca_drops_dirty_line:
  "(case nuca_write small_nuca 0x1000 [] 0 True of
      Inr (_, (ev1, _, _), n1) \<Rightarrow>
        ev1 = Some False \<and> map_option m_cstate (case peekSingleLine (nc_cache n1) 0x1000 of Inr r \<Rightarrow> r) = Some INVALID \<and>
        (case nuca_write n1 0x2000 [] 0 True of
           Inr (_, (ev2, evict_address, _), n2) \<Rightarrow>
             ev2 = Some False \<and> evict_address = 0x1000 \<and> peekSingleLine (nc_cache n2) 0x1000 = Inr None))"
  by code_simp

end
