(* ===== verification/Directory.thy ===== *)
theory Directory
  imports Bit_Utils
begin

text \<open>
  \<^verbatim>\<open>directory_schemes/\<close>: directory entries (the full-map / limited and the LimitLESS scheme)
  and the \<^verbatim>\<open>Directory\<close> that allocates them on demand. The sharer set of an entry is the list of
  the bits of its \<^verbatim>\<open>std::bitset\<close> or \<^verbatim>\<open>std::vector<bool>\<close>; indexing it out of range is
  undefined. \<^verbatim>\<open>m_forwarder_id\<close> is not initialised by the constructor: the value it happens to have
  is an argument.
\<close>

section \<open>Entries\<close>

datatype dstate_t = D_UNCACHED | D_SHARED | D_OWNED | D_MODIFIED | D_EXCLUSIVE

text \<open>
  The dynamic class: \<^verbatim>\<open>DirectoryEntryLimitedNoBroadcast\<close> with the seed of its \<^verbatim>\<open>m_rand_num\<close>, or
  \<^verbatim>\<open>DirectoryEntryLimitless\<close> with its trap flag and penalty.
\<close>

datatype entry_class =
    LimitedNoBroadcast UInt32
  | Limitless bool UInt64

record directory_entry =
  de_class :: entry_class
  m_address :: IntPtr
  m_dstate :: dstate_t
  m_owner_id :: core_id_t
  m_forwarder_id :: core_id_t
  m_sharers :: "bool list"

definition DirectoryEntry :: "entry_class \<Rightarrow> nat \<Rightarrow> core_id_t \<Rightarrow> directory_entry" where
  "DirectoryEntry cls num_bits uninit =
     \<lparr>de_class = cls, m_address = INVALID_ADDRESS, m_dstate = D_UNCACHED, m_owner_id = INVALID_CORE_ID,
      m_forwarder_id = uninit, m_sharers = replicate num_bits False\<rparr>"

definition sharer_bit :: "directory_entry \<Rightarrow> core_id_t \<Rightarrow> nat result" where
  "sharer_bit d c =
     (if 0 \<le> c \<and> nat c < length (m_sharers d) then Inr (nat c) else Inl (UNDEFINED ''m_sharers out of range''))"

definition hasSharer :: "directory_entry \<Rightarrow> core_id_t \<Rightarrow> bool result" where
  "hasSharer d sharer_id = bindE (sharer_bit d sharer_id) (\<lambda>k. Inr (m_sharers d ! k))"

definition getNumSharers :: "directory_entry \<Rightarrow> nat" where
  "getNumSharers d = foldl (\<lambda>num j. if m_sharers d ! j then num + 1 else num) 0 [0..<length (m_sharers d)]"

text \<open>
  \<^verbatim>\<open>addSharer\<close>: the limited scheme refuses at \<^verbatim>\<open>max_hw_sharers\<close> sharers; the LimitLESS one compares
  the width of the bit set and always adds.
\<close>

definition addSharer :: "directory_entry \<Rightarrow> core_id_t \<Rightarrow> nat \<Rightarrow> (bool \<times> directory_entry) result" where
  "addSharer d sharer_id max_hw_sharers =
     bindE (sharer_bit d sharer_id) (\<lambda>k.
     bindE (assertE (\<not> m_sharers d ! k) (ASSERT ''! m_sharers[sharer_id]'')) (\<lambda>_.
       case de_class d of
         LimitedNoBroadcast seed \<Rightarrow>
           if getNumSharers d \<ge> max_hw_sharers then Inr (False, d)
           else Inr (True, d\<lparr>m_sharers := (m_sharers d)[k := True]\<rparr>)
       | Limitless trap penalty \<Rightarrow>
           let trap' = (trap \<or> length (m_sharers d) = max_hw_sharers)
           in Inr (True, d\<lparr>de_class := Limitless trap' penalty, m_sharers := (m_sharers d)[k := True]\<rparr>)))"

definition removeSharer :: "directory_entry \<Rightarrow> core_id_t \<Rightarrow> bool \<Rightarrow> directory_entry result" where
  "removeSharer d sharer_id reply_expected =
     bindE (assertE (\<not> reply_expected) (ASSERT ''!reply_expected'')) (\<lambda>_.
     bindE (sharer_bit d sharer_id) (\<lambda>k.
     bindE (assertE (m_sharers d ! k) (ASSERT ''m_sharers[sharer_id]'')) (\<lambda>_.
       Inr (d\<lparr>m_sharers := (m_sharers d)[k := False]\<rparr>))))"

definition setOwner :: "directory_entry \<Rightarrow> core_id_t \<Rightarrow> directory_entry result" where
  "setOwner d owner_id =
     bindE (if owner_id \<noteq> INVALID_CORE_ID
            then bindE (sharer_bit d owner_id) (\<lambda>k. assertE (m_sharers d ! k) (ASSERT ''m_sharers[owner_id]''))
            else Inr ())
       (\<lambda>_. Inr (d\<lparr>m_owner_id := owner_id\<rparr>))"

definition setForwarder :: "directory_entry \<Rightarrow> core_id_t \<Rightarrow> directory_entry" where
  "setForwarder d c = d\<lparr>m_forwarder_id := c\<rparr>"

definition setDState :: "directory_entry \<Rightarrow> dstate_t \<Rightarrow> directory_entry" where
  "setDState d s = d\<lparr>m_dstate := s\<rparr>"

definition setAddress :: "directory_entry \<Rightarrow> IntPtr \<Rightarrow> directory_entry" where
  "setAddress d a = d\<lparr>m_address := a\<rparr>"

definition getSharersList :: "directory_entry \<Rightarrow> bool \<times> core_id_t list" where
  "getSharersList d = (False, map int (filter (\<lambda>j. m_sharers d ! j) [0..<length (m_sharers d)]))"

definition getOneSharer :: "directory_entry \<Rightarrow> (core_id_t \<times> directory_entry) result" where
  "getOneSharer d =
     (case de_class d of
        LimitedNoBroadcast seed \<Rightarrow>
          let sharers_list = snd (getSharersList d) in
          bindE (assertE (length sharers_list > 0) (ASSERT ''sharers_list.second.size() > 0'')) (\<lambda>_.
          bindE (Random_next (of_nat (length sharers_list)) seed) (\<lambda>(index, seed').
            Inr (sharers_list ! unat index, d\<lparr>de_class := LimitedNoBroadcast seed'\<rparr>)))
      | Limitless trap penalty \<Rightarrow>
          (case List.find (\<lambda>j. m_sharers d ! j) [0..<length (m_sharers d)] of
             Some j \<Rightarrow> Inr (int j, d)
           | None \<Rightarrow> Inl (ASSERT ''sharer_id != -1'')))"

definition entry_getLatency :: "directory_entry \<Rightarrow> UInt64" where
  "entry_getLatency d =
     (case de_class d of
        LimitedNoBroadcast seed \<Rightarrow> 0
      | Limitless trap penalty \<Rightarrow> if trap then penalty else 0)"

section \<open>The directory\<close>

datatype DirectoryType = FULL_MAP | LIMITED_NO_BROADCAST | LIMITLESS

record directory =
  m_directory_type :: DirectoryType
  m_num_entries :: nat
  m_num_entries_allocated :: UInt64
  m_max_hw_sharers :: nat
  m_use_max_hw_sharers :: nat
  m_max_num_sharers :: nat
  m_limitless_software_trap_penalty :: UInt64
  m_directory_entry_list :: "directory_entry option list"
  uninit_core :: core_id_t

definition parseDirectoryType :: "string \<Rightarrow> DirectoryType result" where
  "parseDirectoryType directory_type_str =
     (if directory_type_str = ''full_map'' then Inr FULL_MAP
      else if directory_type_str = ''limited_no_broadcast'' then Inr LIMITED_NO_BROADCAST
      else if directory_type_str = ''limitless'' then Inr LIMITLESS
      else Inl (LOG_PRINT_ERROR ''Unsupported Directory Type''))"

text \<open>
  The configured trap penalty (in nanoseconds; \<open>None\<close> if it cannot be read) and the uninitialised
  core number are arguments. A nanosecond is a million femtoseconds.
\<close>

definition Directory :: "string \<Rightarrow> nat \<Rightarrow> nat \<Rightarrow> nat \<Rightarrow> UInt64 option \<Rightarrow> core_id_t \<Rightarrow> directory result" where
  "Directory directory_type_str num_entries max_hw_sharers max_num_sharers penalty_ns uninit =
     bindE (parseDirectoryType directory_type_str) (\<lambda>ty.
     bindE (if ty = LIMITLESS
            then case penalty_ns of
                   Some p \<Rightarrow> Inr (1000000 * p)
                 | None \<Rightarrow> Inl (LOG_PRINT_ERROR ''Could not read software_trap_penalty'')
            else Inr 0) (\<lambda>penalty.
       Inr \<lparr>m_directory_type = ty, m_num_entries = num_entries, m_num_entries_allocated = 0,
            m_max_hw_sharers = max_hw_sharers, m_use_max_hw_sharers = max_hw_sharers,
            m_max_num_sharers = max_num_sharers, m_limitless_software_trap_penalty = penalty,
            m_directory_entry_list = replicate num_entries None, uninit_core = uninit\<rparr>))"

definition sharers_width :: "nat \<Rightarrow> nat" where
  "sharers_width max_num_sharers =
     (if max_num_sharers \<le> 64 then 64
      else if max_num_sharers \<le> 128 then 128
      else if max_num_sharers \<le> 256 then 256
      else if max_num_sharers \<le> 1024 then 1024
      else max_num_sharers)"

definition createDirectoryEntry :: "directory \<Rightarrow> directory_entry \<times> directory" where
  "createDirectoryEntry D =
     (let width = sharers_width (m_max_num_sharers D) in
      case m_directory_type D of
        FULL_MAP \<Rightarrow>
          (DirectoryEntry (LimitedNoBroadcast 1) width (uninit_core D),
           D\<lparr>m_use_max_hw_sharers := m_max_num_sharers D\<rparr>)
      | LIMITED_NO_BROADCAST \<Rightarrow> (DirectoryEntry (LimitedNoBroadcast 1) width (uninit_core D), D)
      | LIMITLESS \<Rightarrow>
          (DirectoryEntry (Limitless False (m_limitless_software_trap_penalty D)) width (uninit_core D), D))"

definition getDirectoryEntry :: "directory \<Rightarrow> nat \<Rightarrow> (directory_entry \<times> directory) result" where
  "getDirectoryEntry D entry_num =
     bindE (assertE (entry_num < m_num_entries D) (LOG_ASSERT_ERROR ''Invalid entry_num >= num_entries'')) (\<lambda>_.
       case m_directory_entry_list D ! entry_num of
         Some d \<Rightarrow> Inr (d, D)
       | None \<Rightarrow>
           let (d, D1) = createDirectoryEntry D
           in Inr (d, D1\<lparr>m_directory_entry_list := (m_directory_entry_list D1)[entry_num := Some d],
                         m_num_entries_allocated := m_num_entries_allocated D1 + 1\<rparr>))"

definition setDirectoryEntry :: "directory \<Rightarrow> nat \<Rightarrow> directory_entry \<Rightarrow> directory" where
  "setDirectoryEntry D entry_num d =
     D\<lparr>m_directory_entry_list := (m_directory_entry_list D)[entry_num := Some d]\<rparr>"

definition getMaxHwSharers :: "directory \<Rightarrow> nat" where
  "getMaxHwSharers D = m_use_max_hw_sharers D"

section \<open>Sharers\<close>

definition sharer_set :: "directory_entry \<Rightarrow> nat set" where
  "sharer_set d = {k. k < length (m_sharers d) \<and> m_sharers d ! k}"

lemma finite_sharer_set [simp]: "finite (sharer_set d)"
  by (simp add: sharer_set_def)

lemma count_loop: "foldl (\<lambda>num j. if P j then num + 1 else num) a xs = a + length (filter P xs)"
  by (induction xs arbitrary: a) auto

lemma getNumSharers_card: "getNumSharers d = card (sharer_set d)"
proof -
  have "sharer_set d = set (filter (\<lambda>j. m_sharers d ! j) [0..<length (m_sharers d)])"
    by (auto simp: sharer_set_def)
  then show ?thesis by (simp only: getNumSharers_def count_loop) (simp flip: distinct_card)
qed

lemma getSharersList_set: "snd (getSharersList d) = map int (sorted_list_of_set (sharer_set d))"
proof -
  have "sorted_list_of_set (sharer_set d) = filter (\<lambda>j. m_sharers d ! j) [0..<length (m_sharers d)]"
    by (rule sorted_distinct_set_unique) (auto simp: sharer_set_def sorted_wrt_filter)
  then show ?thesis by (simp add: getSharersList_def)
qed

lemma sharer_bit_Inr: "sharer_bit d c = Inr k \<longleftrightarrow> c = int k \<and> k < length (m_sharers d)"
  by (auto simp: sharer_bit_def)

lemma addSharer_Inr:
  assumes "addSharer d c n = Inr (r, d')"
  shows "0 \<le> c \<and> nat c \<notin> sharer_set d \<and> sharer_set d' = (if r then insert (nat c) (sharer_set d) else sharer_set d) \<and>
    m_dstate d' = m_dstate d \<and> m_owner_id d' = m_owner_id d \<and> m_address d' = m_address d \<and> m_forwarder_id d' = m_forwarder_id d"
  using assms
  by (auto simp: addSharer_def sharer_bit_Inr sharer_set_def nth_list_update Let_def split: entry_class.splits if_splits)

lemma removeSharer_Inr:
  assumes "removeSharer d c b = Inr d'"
  shows "nat c \<in> sharer_set d \<and> sharer_set d' = sharer_set d - {nat c} \<and>
    m_dstate d' = m_dstate d \<and> m_owner_id d' = m_owner_id d \<and> m_address d' = m_address d \<and> m_forwarder_id d' = m_forwarder_id d"
  using assms by (auto simp: removeSharer_def sharer_bit_Inr sharer_set_def nth_list_update split: if_splits)

lemma setOwner_Inr:
  assumes "setOwner d c = Inr d'"
  shows "d' = d\<lparr>m_owner_id := c\<rparr> \<and> (c \<noteq> - 1 \<longrightarrow> 0 \<le> c \<and> nat c \<in> sharer_set d)"
  using assms by (auto simp: setOwner_def sharer_bit_Inr sharer_set_def split: if_splits)

lemma hasSharer_Inr: "hasSharer d c = Inr b \<Longrightarrow> 0 \<le> c \<and> (b \<longleftrightarrow> nat c \<in> sharer_set d)"
  by (auto simp: hasSharer_def sharer_bit_Inr sharer_set_def)

lemma getOneSharer_Inr:
  assumes "getOneSharer d = Inr (c, d')"
  shows "sharer_set d' = sharer_set d \<and> m_dstate d' = m_dstate d \<and> m_owner_id d' = m_owner_id d \<and>
    m_address d' = m_address d"
  using assms by (auto simp: getOneSharer_def sharer_set_def Let_def split: entry_class.splits option.splits if_splits)

lemma sharer_set_simps [simp]:
  "sharer_set (d\<lparr>m_owner_id := c\<rparr>) = sharer_set d" "sharer_set (setForwarder d c) = sharer_set d"
  "sharer_set (setDState d s) = sharer_set d" "sharer_set (setAddress d a) = sharer_set d"
  "sharer_set (DirectoryEntry cls n u) = {}"
  by (auto simp: sharer_set_def setForwarder_def setDState_def setAddress_def DirectoryEntry_def)

lemma entry_fields [simp]:
  "m_dstate (setForwarder d c) = m_dstate d" "m_owner_id (setForwarder d c) = m_owner_id d"
  "m_address (setForwarder d c) = m_address d" "m_forwarder_id (setForwarder d c) = c"
  "m_dstate (setDState d s) = s" "m_owner_id (setDState d s) = m_owner_id d" "m_address (setDState d s) = m_address d"
  "m_dstate (setAddress d a) = m_dstate d" "m_owner_id (setAddress d a) = m_owner_id d" "m_address (setAddress d a) = a"
  "m_dstate (DirectoryEntry cls n u) = D_UNCACHED"
  by (simp_all add: setForwarder_def setDState_def setAddress_def DirectoryEntry_def)

section \<open>Coherent entries\<close>

text \<open>
  The single-writer condition of one entry: no sharers when uncached, some when shared, and exactly
  the owner when one cache has the line exclusively.
\<close>

definition entry_ok :: "directory_entry \<Rightarrow> bool" where
  "entry_ok d =
     (case m_dstate d of
        D_UNCACHED \<Rightarrow> sharer_set d = {}
      | D_SHARED \<Rightarrow> sharer_set d \<noteq> {}
      | D_OWNED \<Rightarrow> False
      | D_MODIFIED \<Rightarrow> 0 \<le> m_owner_id d \<and> sharer_set d = {nat (m_owner_id d)}
      | D_EXCLUSIVE \<Rightarrow> 0 \<le> m_owner_id d \<and> sharer_set d = {nat (m_owner_id d)})"

lemma entry_ok_setAddress [simp]: "entry_ok (setAddress d a) = entry_ok d"
  by (simp add: entry_ok_def split: dstate_t.split)

lemma entry_ok_setForwarder [simp]: "entry_ok (setForwarder d a) = entry_ok d"
  by (simp add: entry_ok_def split: dstate_t.split)

lemma entry_ok_new [simp]: "entry_ok (DirectoryEntry cls n u)"
  by (simp add: entry_ok_def)

end
