(* ===== verification/Dram_Directory_Cache.thy ===== *)
theory Dram_Directory_Cache
  imports Directory
begin

unbundle bit_operations_syntax

text \<open>
  \<^verbatim>\<open>pr_l1_pr_l2_dram_directory_msi/dram_directory_cache.cc\<close>, the set-associative cache of
  directory entries, with the list of entries that were replaced and wait for their sharers to be
  invalidated, and \<^verbatim>\<open>shmem_perf_model.cc\<close>'s clock of the simulation thread. A
  \<^verbatim>\<open>DirectoryEntry*\<close> is the slot of the directory or the position in the replaced list where the
  object lives. The array \<^verbatim>\<open>m_replacement_ptrs\<close> is not initialised by the constructor; its contents
  are an argument.
\<close>

section \<open>The clock\<close>

definition incrElapsedTime :: "UInt64 \<Rightarrow> UInt64 \<Rightarrow> UInt64 result" where
  "incrElapsedTime time elapsed =
     bindE (assertE (elapsed + time \<ge> elapsed) (LOG_ASSERT_ERROR ''t_elapsed_time < i_elapsed_time''))
       (\<lambda>_. Inr (elapsed + time))"

definition updateElapsedTime :: "UInt64 \<Rightarrow> UInt64 \<Rightarrow> UInt64" where
  "updateElapsedTime time elapsed = (if elapsed < time then time else elapsed)"

section \<open>State and operations\<close>

datatype entry_ptr = Slot nat | Replaced nat

record dram_directory_cache =
  m_directory :: directory
  m_replacement_ptrs :: "UInt32 list"
  m_replaced_directory_entry_list :: "directory_entry list"
  m_total_entries :: UInt32
  dc_associativity :: UInt32
  dc_num_sets :: UInt32
  dc_log_num_sets :: nat
  dc_log_cache_block_size :: nat
  m_dram_directory_cache_access_time :: UInt64

definition DramDirectoryCache ::
  "directory \<Rightarrow> UInt32 \<Rightarrow> UInt32 \<Rightarrow> UInt32 \<Rightarrow> UInt64 \<Rightarrow> (nat \<Rightarrow> UInt32) \<Rightarrow> dram_directory_cache result" where
  "DramDirectoryCache dir total_entries associativity cache_block_size access_time uninit =
     (if associativity = 0 then Inl (UNDEFINED ''division by zero'')
      else
        let num_sets = total_entries div associativity in
        if num_sets = 0 \<or> cache_block_size = 0 then Inl (UNDEFINED ''shift'')
        else Inr \<lparr>m_directory = dir, m_replacement_ptrs = map uninit [0..<unat num_sets],
                  m_replaced_directory_entry_list = [], m_total_entries = total_entries,
                  dc_associativity = associativity, dc_num_sets = num_sets,
                  dc_log_num_sets = nat (floorLog2 num_sets),
                  dc_log_cache_block_size = nat (floorLog2 cache_block_size),
                  m_dram_directory_cache_access_time = access_time\<rparr>)"

definition dc_splitAddress :: "dram_directory_cache \<Rightarrow> IntPtr \<Rightarrow> IntPtr \<times> UInt32" where
  "dc_splitAddress c address =
     (let cache_block_address = drop_bit (dc_log_cache_block_size c) address;
          tag = drop_bit (dc_log_num_sets c) cache_block_address
      in (tag, ucast cache_block_address AND (dc_num_sets c - 1)))"

definition entry_num :: "dram_directory_cache \<Rightarrow> UInt32 \<Rightarrow> UInt32 \<Rightarrow> nat" where
  "entry_num c set_index way = unat (set_index * dc_associativity c + way)"

text \<open>
  The loops over the ways of a set: the first way whose entry satisfies a condition. Looking at a
  way allocates its entry.
\<close>

fun find_way :: "dram_directory_cache \<Rightarrow> UInt32 \<Rightarrow> (directory_entry \<Rightarrow> bool) \<Rightarrow> nat list
     \<Rightarrow> (nat option \<times> dram_directory_cache) result" where
  "find_way c set_index P [] = Inr (None, c)"
| "find_way c set_index P (i # ways) =
     (let k = entry_num c set_index (of_nat i) in
      bindE (getDirectoryEntry (m_directory c) k) (\<lambda>(d, D).
        let c' = c\<lparr>m_directory := D\<rparr>
        in if P d then Inr (Some k, c') else find_way c' set_index P ways))"

abbreviation (input) all_ways :: "dram_directory_cache \<Rightarrow> nat list" where
  "all_ways c \<equiv> [0..<unat (dc_associativity c)]"

definition slot_entry :: "dram_directory_cache \<Rightarrow> nat \<Rightarrow> directory_entry option" where
  "slot_entry c k =
     (if k < length (m_directory_entry_list (m_directory c)) then m_directory_entry_list (m_directory c) ! k else None)"

definition dc_getDirectoryEntry ::
  "dram_directory_cache \<Rightarrow> IntPtr \<Rightarrow> bool \<Rightarrow> UInt64 \<Rightarrow> (entry_ptr option \<times> dram_directory_cache \<times> UInt64) result" where
  "dc_getDirectoryEntry c address modeled t =
     bindE (if modeled then incrElapsedTime (m_dram_directory_cache_access_time c) t else Inr t) (\<lambda>t1.
       let (tag, set_index) = dc_splitAddress c address in
       bindE (find_way c set_index (\<lambda>d. m_address d = address) (all_ways c)) (\<lambda>(hit, c1).
         case hit of
           Some k \<Rightarrow>
             bindE (if modeled
                    then case slot_entry c1 k of
                           Some d \<Rightarrow> incrElapsedTime (entry_getLatency d) t1
                         | None \<Rightarrow> Inr t1
                    else Inr t1) (\<lambda>t2. Inr (Some (Slot k), c1, t2))
         | None \<Rightarrow>
             bindE (find_way c1 set_index (\<lambda>d. m_address d = INVALID_ADDRESS) (all_ways c1)) (\<lambda>(free, c2).
               case free of
                 Some k \<Rightarrow>
                   (case slot_entry c2 k of
                      Some d \<Rightarrow>
                        Inr (Some (Slot k),
                             c2\<lparr>m_directory := setDirectoryEntry (m_directory c2) k (setAddress d address)\<rparr>, t1)
                    | None \<Rightarrow> Inr (Some (Slot k), c2, t1))
               | None \<Rightarrow>
                   (case List.find (\<lambda>i. m_address (m_replaced_directory_entry_list c2 ! i) = address)
                           [0..<length (m_replaced_directory_entry_list c2)] of
                      Some i \<Rightarrow> Inr (Some (Replaced i), c2, t1)
                    | None \<Rightarrow> Inr (None, c2, t1)))))"

text \<open>Reading and writing the object a pointer stands for.\<close>

definition deref :: "dram_directory_cache \<Rightarrow> entry_ptr \<Rightarrow> directory_entry result" where
  "deref c p =
     (case p of
        Slot k \<Rightarrow> (case slot_entry c k of Some d \<Rightarrow> Inr d | None \<Rightarrow> Inl (UNDEFINED ''NULL entry''))
      | Replaced i \<Rightarrow>
          if i < length (m_replaced_directory_entry_list c) then Inr (m_replaced_directory_entry_list c ! i)
          else Inl (UNDEFINED ''dangling entry''))"

definition store :: "dram_directory_cache \<Rightarrow> entry_ptr \<Rightarrow> directory_entry \<Rightarrow> dram_directory_cache" where
  "store c p d =
     (case p of
        Slot k \<Rightarrow> c\<lparr>m_directory := setDirectoryEntry (m_directory c) k d\<rparr>
      | Replaced i \<Rightarrow> c\<lparr>m_replaced_directory_entry_list := (m_replaced_directory_entry_list c)[i := d]\<rparr>)"

fun candidates :: "dram_directory_cache \<Rightarrow> UInt32 \<Rightarrow> UInt32 \<Rightarrow> nat list
     \<Rightarrow> (entry_ptr list \<times> dram_directory_cache) result" where
  "candidates c set_index rptr [] = Inr ([], c)"
| "candidates c set_index rptr (i # ways) =
     (let k = entry_num c set_index ((of_nat i + rptr) mod dc_associativity c) in
      bindE (getDirectoryEntry (m_directory c) k) (\<lambda>(d, D).
      bindE (candidates (c\<lparr>m_directory := D\<rparr>) set_index rptr ways) (\<lambda>(ks, c').
        Inr (Slot k # ks, c'))))"

definition getReplacementCandidates ::
  "dram_directory_cache \<Rightarrow> IntPtr \<Rightarrow> UInt64 \<Rightarrow> (entry_ptr list \<times> dram_directory_cache) result" where
  "getReplacementCandidates c address t =
     bindE (dc_getDirectoryEntry c address False t) (\<lambda>(e, c0, _).
     bindE (assertE (e = None) (ASSERT ''getDirectoryEntry(address) == NULL'')) (\<lambda>_.
       let (tag, set_index) = dc_splitAddress c0 address;
           rptr = m_replacement_ptrs c0 ! unat set_index
       in bindE (candidates c0 set_index rptr (all_ways c0)) (\<lambda>(ks, c1).
            Inr (ks, c1\<lparr>m_replacement_ptrs := (m_replacement_ptrs c1)[unat set_index := rptr + 1]\<rparr>))))"

definition replaceDirectoryEntry ::
  "dram_directory_cache \<Rightarrow> IntPtr \<Rightarrow> IntPtr \<Rightarrow> bool \<Rightarrow> UInt64 \<Rightarrow> (entry_ptr \<times> dram_directory_cache \<times> UInt64) result" where
  "replaceDirectoryEntry c replaced_address address modeled t =
     bindE (if modeled then incrElapsedTime (m_dram_directory_cache_access_time c) t else Inr t) (\<lambda>t1.
       let (tag, set_index) = dc_splitAddress c replaced_address in
       bindE (find_way c set_index (\<lambda>d. m_address d = replaced_address) (all_ways c)) (\<lambda>(hit, c1).
         case hit of
           Some k \<Rightarrow>
             bindE (deref c1 (Slot k)) (\<lambda>replaced.
               let (d, D) = createDirectoryEntry (m_directory c1)
               in Inr (Slot k,
                       c1\<lparr>m_replaced_directory_entry_list := m_replaced_directory_entry_list c1 @ [replaced],
                          m_directory := setDirectoryEntry D k (setAddress d address)\<rparr>, t1))
         | None \<Rightarrow> Inl (LOG_PRINT_ERROR '''')))"

definition invalidateDirectoryEntry :: "dram_directory_cache \<Rightarrow> IntPtr \<Rightarrow> dram_directory_cache result" where
  "invalidateDirectoryEntry c address =
     (let l = m_replaced_directory_entry_list c in
      case List.find (\<lambda>i. m_address (l ! i) = address) [0..<length l] of
        Some i \<Rightarrow> Inr (c\<lparr>m_replaced_directory_entry_list := take i l @ drop (Suc i) l\<rparr>)
      | None \<Rightarrow> Inl (LOG_PRINT_ERROR ''''))"

section \<open>Predicates on all entries\<close>

definition all_entries :: "(directory_entry \<Rightarrow> bool) \<Rightarrow> dram_directory_cache \<Rightarrow> bool" where
  "all_entries P c \<longleftrightarrow> (\<forall>k d. slot_entry c k = Some d \<longrightarrow> P d) \<and> (\<forall>d \<in> set (m_replaced_directory_entry_list c). P d)"

lemma all_entries_deref: "all_entries P c \<Longrightarrow> deref c p = Inr d \<Longrightarrow> P d"
  by (auto simp: all_entries_def deref_def split: entry_ptr.splits option.splits if_splits)

lemma slot_entry_set [simp]:
  "slot_entry (c\<lparr>m_directory := setDirectoryEntry D k d\<rparr>) j =
     (if j = k \<and> k < length (m_directory_entry_list D) then Some d
      else slot_entry (c\<lparr>m_directory := D\<rparr>) j)"
  by (auto simp: slot_entry_def setDirectoryEntry_def nth_list_update)

lemma slot_entry_upd [simp]:
  "slot_entry (c\<lparr>m_replaced_directory_entry_list := l\<rparr>) k = slot_entry c k"
  "slot_entry (c\<lparr>m_replacement_ptrs := ps\<rparr>) k = slot_entry c k"
  by (simp_all add: slot_entry_def)

lemma slot_entry_self [simp]: "slot_entry (c\<lparr>m_directory := m_directory c\<rparr>) k = slot_entry c k"
  by (simp add: slot_entry_def)

lemma all_entries_store: "all_entries P c \<Longrightarrow> P d \<Longrightarrow> all_entries P (store c p d)"
  by (cases p) (auto simp: all_entries_def store_def split: if_splits dest!: set_update_subset_insert [THEN subsetD])

lemma createDirectoryEntry_new: "createDirectoryEntry D = (d, D') \<Longrightarrow>
    (\<exists>cls n u. d = DirectoryEntry cls n u) \<and> m_directory_entry_list D' = m_directory_entry_list D"
  by (auto simp: createDirectoryEntry_def Let_def split: DirectoryType.splits)

lemma getDirectoryEntry_all:
  assumes "getDirectoryEntry (m_directory c) k = Inr (d, D)" "all_entries P c" "\<And>cls n u. P (DirectoryEntry cls n u)"
  shows "all_entries P (c\<lparr>m_directory := D\<rparr>)"
proof -
  obtain e D1 where n: "createDirectoryEntry (m_directory c) = (e, D1)" by fastforce
  note new = createDirectoryEntry_new [OF n]
  show ?thesis
    using assms new n
    by (auto simp: getDirectoryEntry_def all_entries_def slot_entry_def nth_list_update_bound Let_def
        split: option.splits if_splits)
qed

lemma find_way_all:
  assumes "find_way c si Q ways = Inr (r, c')" "all_entries P c" "\<And>cls n u. P (DirectoryEntry cls n u)"
  shows "all_entries P c'"
  using assms(1,2)
proof (induction ways arbitrary: c)
  case (Cons i ways)
  then show ?case
    using getDirectoryEntry_all [of c "entry_num c si (of_nat i)" _ _ P] assms(3)
    by (auto simp: Let_def split: if_splits)
qed simp

lemma dc_getDirectoryEntry_all:
  assumes "dc_getDirectoryEntry c a m t = Inr (e, c', t')" "all_entries P c"
    and "\<And>cls n u. P (DirectoryEntry cls n u)" "\<And>d a. P d \<Longrightarrow> P (setAddress d a)"
  shows "all_entries P c'"
proof -
  obtain hit c1 where h: "find_way c (snd (dc_splitAddress c a)) (\<lambda>d. m_address d = a) (all_ways c) = Inr (hit, c1)"
    using assms(1) by (auto simp: dc_getDirectoryEntry_def Let_def split_beta)
  have c1: "all_entries P c1" by (rule find_way_all [OF h assms(2,3)])
  show ?thesis
  proof (cases hit)
    case (Some k)
    then have "c' = c1"
      using assms(1) h by (auto simp: dc_getDirectoryEntry_def Let_def split_beta split: if_splits option.splits)
    then show ?thesis using c1 by simp
  next
    case None
    obtain free c2 where f: "find_way c1 (snd (dc_splitAddress c a)) (\<lambda>d. m_address d = - 1) (all_ways c1) = Inr (free, c2)"
      using assms(1) h None by (auto simp: dc_getDirectoryEntry_def Let_def split_beta)
    have c2: "all_entries P c2" by (rule find_way_all [OF f c1 assms(3)])
    have "c' = c2 \<or> (\<exists>k d. slot_entry c2 k = Some d \<and>
        c' = c2\<lparr>m_directory := setDirectoryEntry (m_directory c2) k (setAddress d a)\<rparr>)"
      using assms(1) h f None
      by (auto simp: dc_getDirectoryEntry_def Let_def split_beta split: option.splits) blast
    then show ?thesis using c2 assms(4) by (auto simp: all_entries_def split: if_splits)
  qed
qed

lemma candidates_all:
  assumes "candidates c si r ways = Inr (ps, c')" "all_entries P c" "\<And>cls n u. P (DirectoryEntry cls n u)"
  shows "all_entries P c'"
  using assms(1,2)
proof (induction ways arbitrary: c ps)
  case (Cons i ways)
  then show ?case
    using getDirectoryEntry_all [of c _ _ _ P] assms(3) by (auto simp: Let_def)
qed simp

lemma getReplacementCandidates_all:
  assumes "getReplacementCandidates c a t = Inr (ps, c')" "all_entries P c"
    and "\<And>cls n u. P (DirectoryEntry cls n u)" "\<And>d a. P d \<Longrightarrow> P (setAddress d a)"
  shows "all_entries P c'"
proof -
  obtain e c0 t0 where g: "dc_getDirectoryEntry c a False t = Inr (e, c0, t0)"
    using assms(1) by (auto simp: getReplacementCandidates_def)
  then obtain c1 where
      k: "candidates c0 (snd (dc_splitAddress c0 a)) (m_replacement_ptrs c0 ! unat (snd (dc_splitAddress c0 a))) (all_ways c0) = Inr (ps, c1)"
    and c': "\<exists>l. c' = c1\<lparr>m_replacement_ptrs := l\<rparr>"
    using assms(1) by (auto simp: getReplacementCandidates_def Let_def split_beta split: if_splits)
  have "all_entries P c1"
    by (rule candidates_all [OF k dc_getDirectoryEntry_all [OF g assms(2-4)] assms(3)])
  then show ?thesis using c' by (auto simp: all_entries_def)
qed

lemma replaceDirectoryEntry_all:
  assumes "replaceDirectoryEntry c ra a m t = Inr (p, c', t')" "all_entries P c"
    and "\<And>cls n u. P (DirectoryEntry cls n u)" "\<And>d a. P d \<Longrightarrow> P (setAddress d a)"
  shows "all_entries P c'"
proof -
  obtain k c1 where h: "find_way c (snd (dc_splitAddress c ra)) (\<lambda>d. m_address d = ra) (all_ways c) = Inr (Some k, c1)"
    using assms(1) by (auto simp: replaceDirectoryEntry_def Let_def split_beta split: option.splits)
  obtain e D where n: "createDirectoryEntry (m_directory c1) = (e, D)" by fastforce
  obtain d where d: "deref c1 (Slot k) = Inr d"
    and c': "c' = c1\<lparr>m_replaced_directory_entry_list := m_replaced_directory_entry_list c1 @ [d],
                     m_directory := setDirectoryEntry D k (setAddress e a)\<rparr>"
    using assms(1) h n by (auto simp: replaceDirectoryEntry_def Let_def split_beta)
  have c1: "all_entries P c1" by (rule find_way_all [OF h assms(2,3)])
  have "P d" by (rule all_entries_deref [OF c1 d])
  moreover have "P (setAddress e a)" using createDirectoryEntry_new [OF n] assms(3,4) by blast
  moreover have "m_directory_entry_list D = m_directory_entry_list (m_directory c1)" using createDirectoryEntry_new [OF n] by blast
  ultimately show ?thesis using c1 by (auto simp: all_entries_def c' slot_entry_def setDirectoryEntry_def nth_list_update_bound split: if_splits)
qed

lemma invalidateDirectoryEntry_all:
  assumes "invalidateDirectoryEntry c a = Inr c'" "all_entries P c"
  shows "all_entries P c'"
  using assms
  by (auto simp: invalidateDirectoryEntry_def all_entries_def Let_def split: option.splits)
    (meson in_set_takeD in_set_dropD)+

end
