(* ===== verification/Circular_Queue.thy ===== *)
theory Circular_Queue
  imports Prelude
begin

text \<open>
  \<^verbatim>\<open>misc/circular_queue.h\<close>, the bounded ring buffer used by the reorder buffer and the
  instruction queues, and \<^verbatim>\<open>cache/req_queue_list_template.h\<close>, the per-address request queues of
  the directory and cache controllers. Both keep the contract of a first-in first-out queue, stated
  as the locale \<open>fifo\<close>. \<^verbatim>\<open>UInt32\<close> index arithmetic is written out modulo \<open>2 ^ 32\<close>.
\<close>

section \<open>The ring buffer\<close>

record 'a circular_queue =
  m_size :: nat
  m_first :: nat
  m_last :: nat
  m_queue :: "'a list"

abbreviation (input) w32 :: "nat \<Rightarrow> nat" where
  "w32 n \<equiv> n mod 2 ^ 32"

text \<open>The elements of the fresh array have the value \<open>dflt\<close>.\<close>

definition CircularQueue :: "'a \<Rightarrow> nat \<Rightarrow> 'a circular_queue" where
  "CircularQueue dflt sz =
     \<lparr>m_size = w32 (sz + 1), m_first = 0, m_last = 0, m_queue = replicate (w32 (sz + 1)) dflt\<rparr>"

definition cq_full :: "'a circular_queue \<Rightarrow> bool" where
  "cq_full q \<longleftrightarrow> w32 (m_first q + 1) mod m_size q = m_last q"

definition cq_empty :: "'a circular_queue \<Rightarrow> bool" where
  "cq_empty q \<longleftrightarrow> m_first q = m_last q"

definition cq_size :: "'a circular_queue \<Rightarrow> nat" where
  "cq_size q = w32 (m_first q + m_size q + (2 ^ 32 - m_last q)) mod m_size q"

definition cq_push :: "'a \<Rightarrow> 'a circular_queue \<Rightarrow> 'a circular_queue result" where
  "cq_push t q =
     bindE (assertE (\<not> cq_full q) (ASSERT ''!full()'')) (\<lambda>_.
       Inr (q\<lparr>m_queue := (m_queue q)[m_first q := t], m_first := w32 (m_first q + 1) mod m_size q\<rparr>))"

definition cq_pop :: "'a circular_queue \<Rightarrow> ('a \<times> 'a circular_queue) result" where
  "cq_pop q =
     bindE (assertE (\<not> cq_empty q) (ASSERT ''!empty()'')) (\<lambda>_.
       let idx = m_last q
       in Inr (m_queue q ! idx, q\<lparr>m_last := w32 (m_last q + 1) mod m_size q\<rparr>))"

definition cq_pushCircular :: "'a \<Rightarrow> 'a circular_queue \<Rightarrow> 'a circular_queue result" where
  "cq_pushCircular t q =
     bindE (if cq_full q then bindE (cq_pop q) (\<lambda>(_, q'). Inr q') else Inr q) (cq_push t)"

text \<open>\<^verbatim>\<open>next\<close> returns a reference to the slot it advances over: the slot index here.\<close>

definition cq_next :: "'a circular_queue \<Rightarrow> (nat \<times> 'a circular_queue) result" where
  "cq_next q =
     bindE (assertE (\<not> cq_full q) (ASSERT ''!full()'')) (\<lambda>_.
       Inr (m_first q, q\<lparr>m_first := w32 (m_first q + 1) mod m_size q\<rparr>))"

definition cq_front :: "'a circular_queue \<Rightarrow> 'a result" where
  "cq_front q = bindE (assertE (\<not> cq_empty q) (ASSERT ''!empty()'')) (\<lambda>_. Inr (m_queue q ! m_last q))"

definition cq_back :: "'a circular_queue \<Rightarrow> 'a result" where
  "cq_back q =
     bindE (assertE (\<not> cq_empty q) (ASSERT ''!empty()''))
       (\<lambda>_. Inr (m_queue q ! (w32 (m_first q + m_size q + (2 ^ 32 - 1)) mod m_size q)))"

definition cq_index :: "'a circular_queue \<Rightarrow> nat \<Rightarrow> 'a" where
  "cq_index q idx = m_queue q ! (w32 (m_last q + idx) mod m_size q)"

definition cq_at :: "'a circular_queue \<Rightarrow> nat \<Rightarrow> 'a result" where
  "cq_at q idx = bindE (assertE (idx < cq_size q) (ASSERT ''idx < size()'')) (\<lambda>_. Inr (cq_index q idx))"

section \<open>Request queues per address\<close>

type_synonym 'r req_queue_list = "IntPtr \<Rightarrow> 'r list option"

definition enqueue :: "IntPtr \<Rightarrow> 'r \<Rightarrow> 'r req_queue_list \<Rightarrow> 'r req_queue_list" where
  "enqueue address shmem_req l =
     (let l1 = (if l address = None then l(address := Some []) else l)
      in l1(address := map_option (\<lambda>q. q @ [shmem_req]) (l1 address)))"

definition dequeue :: "IntPtr \<Rightarrow> 'r req_queue_list \<Rightarrow> ('r \<times> 'r req_queue_list) result" where
  "dequeue address l =
     (case l address of
        None \<Rightarrow> Inl (LOG_ASSERT_ERROR ''Could not find a request with address'')
      | Some [] \<Rightarrow> Inl (UNDEFINED ''front of an empty queue'')
      | Some (r # rs) \<Rightarrow> Inr (r, if rs = [] then l(address := None) else l(address := Some rs)))"

definition rq_front :: "IntPtr \<Rightarrow> 'r req_queue_list \<Rightarrow> 'r result" where
  "rq_front address l =
     (case l address of
        None \<Rightarrow> Inl (LOG_ASSERT_ERROR ''Could not find a request with address'')
      | Some [] \<Rightarrow> Inl (UNDEFINED ''front of an empty queue'')
      | Some (r # rs) \<Rightarrow> Inr r)"

definition rq_back :: "IntPtr \<Rightarrow> 'r req_queue_list \<Rightarrow> 'r result" where
  "rq_back address l =
     (case l address of
        None \<Rightarrow> Inl (LOG_ASSERT_ERROR ''Could not find a request with address'')
      | Some [] \<Rightarrow> Inl (UNDEFINED ''back of an empty queue'')
      | Some (r # rs) \<Rightarrow> Inr (last (r # rs)))"

definition rq_size :: "IntPtr \<Rightarrow> 'r req_queue_list \<Rightarrow> nat" where
  "rq_size address l = (case l address of None \<Rightarrow> 0 | Some q \<Rightarrow> length q)"

definition rq_empty :: "IntPtr \<Rightarrow> 'r req_queue_list \<Rightarrow> bool" where
  "rq_empty address l \<longleftrightarrow> l address = None"

section \<open>The contract of a queue\<close>

locale fifo =
  fixes inv :: "'q \<Rightarrow> bool"
    and abs :: "'q \<Rightarrow> 'a list"
    and is_full :: "'q \<Rightarrow> bool"
    and push :: "'a \<Rightarrow> 'q \<Rightarrow> 'q result"
    and pop :: "'q \<Rightarrow> ('a \<times> 'q) result"
  assumes push_abs: "inv q \<Longrightarrow> \<not> is_full q \<Longrightarrow> \<exists>q'. push x q = Inr q' \<and> inv q' \<and> abs q' = abs q @ [x]"
    and pop_abs: "inv q \<Longrightarrow> abs q = x # xs \<Longrightarrow> \<exists>q'. pop q = Inr (x, q') \<and> inv q' \<and> abs q' = xs \<and> \<not> is_full q'"
begin

primrec pop_n :: "nat \<Rightarrow> 'q \<Rightarrow> ('a list \<times> 'q) result" where
  "pop_n 0 q = Inr ([], q)"
| "pop_n (Suc n) q = bindE (pop q) (\<lambda>(x, q'). bindE (pop_n n q') (\<lambda>(xs, q''). Inr (x # xs, q'')))"

lemma pop_all: "inv q \<Longrightarrow> \<exists>q'. pop_n (length (abs q)) q = Inr (abs q, q') \<and> inv q' \<and> abs q' = []"
proof (induction "abs q" arbitrary: q)
  case Nil
  then show ?case by (metis list.size(3) pop_n.simps(1))
next
  case (Cons x xs)
  obtain q1 where q1: "pop q = Inr (x, q1)" "inv q1" "abs q1 = xs"
    using pop_abs [OF Cons.prems Cons.hyps(2) [symmetric]] by blast
  then obtain q' where "pop_n (length xs) q1 = Inr (xs, q')" "inv q'" "abs q' = []"
    using Cons.hyps(1) [of q1] by auto
  then show ?case using q1(1) Cons.hyps(2) [symmetric] by auto
qed

end

section \<open>The ring buffer keeps the contract\<close>

definition cq_inv :: "'a circular_queue \<Rightarrow> bool" where
  "cq_inv q \<longleftrightarrow> 0 < m_size q \<and> m_size q \<le> 2 ^ 31 \<and> length (m_queue q) = m_size q \<and>
     m_first q < m_size q \<and> m_last q < m_size q"

definition cq_len :: "'a circular_queue \<Rightarrow> nat" where
  "cq_len q = (if m_last q \<le> m_first q then m_first q - m_last q else m_first q + m_size q - m_last q)"

definition cq_list :: "'a circular_queue \<Rightarrow> 'a list" where
  "cq_list q = map (\<lambda>i. m_queue q ! ((m_last q + i) mod m_size q)) [0..<cq_len q]"

lemma CircularQueue_inv: "sz < 2 ^ 31 \<Longrightarrow> cq_inv (CircularQueue d sz) \<and> cq_list (CircularQueue d sz) = []"
  by (auto simp: cq_inv_def CircularQueue_def cq_list_def cq_len_def)

lemma cq_size_len: "cq_inv q \<Longrightarrow> cq_size q = cq_len q"
proof -
  assume inv: "cq_inv q"
  then have b: "m_first q < 2 ^ 31" "m_size q \<le> 2 ^ 31" "m_last q < m_size q" by (auto simp: cq_inv_def)
  have "m_first q + m_size q + (2 ^ 32 - m_last q) = 2 ^ 32 + (m_first q + m_size q - m_last q)" using b by simp
  moreover have "w32 (2 ^ 32 + (m_first q + m_size q - m_last q)) = m_first q + m_size q - m_last q"
    using b by (simp only: mod_add_self1) (intro mod_less, simp)
  ultimately have e: "w32 (m_first q + m_size q + (2 ^ 32 - m_last q)) = m_first q + m_size q - m_last q" by metis
  show ?thesis
  proof (cases "m_last q \<le> m_first q")
    case True
    then have s: "m_first q + m_size q - m_last q = (m_first q - m_last q) + m_size q" by simp
    have "m_first q - m_last q < m_size q" using inv by (auto simp: cq_inv_def)
    then show ?thesis using True unfolding cq_size_def e s mod_add_self2 by (simp add: cq_len_def)
  next
    case False
    then have "m_first q + m_size q - m_last q < m_size q" using inv by (auto simp: cq_inv_def)
    then show ?thesis using False unfolding cq_size_def e by (simp add: cq_len_def)
  qed
qed

lemma wrap_inc: "i < n \<Longrightarrow> n \<le> 2 ^ 31 \<Longrightarrow> w32 (i + 1) mod n = (if Suc i = n then 0 else Suc i)"
  by (auto simp: mod_if)

lemma cq_full_iff: "cq_inv q \<Longrightarrow> cq_full q \<longleftrightarrow> Suc (cq_len q) = m_size q"
  using wrap_inc [of "m_first q" "m_size q"] by (auto simp: cq_full_def cq_len_def cq_inv_def split: if_splits)

lemma cq_empty_iff: "cq_inv q \<Longrightarrow> cq_empty q \<longleftrightarrow> cq_len q = 0"
  by (auto simp: cq_empty_def cq_len_def cq_inv_def)

lemma cq_len_less: "cq_inv q \<Longrightarrow> cq_len q < m_size q"
  by (auto simp: cq_len_def cq_inv_def)

lemma cq_last_pos: "cq_inv q \<Longrightarrow> (m_last q + cq_len q) mod m_size q = m_first q"
  by (auto simp: cq_len_def cq_inv_def)

lemma ring_distinct:
  assumes "(l + i) mod n = (l + j) mod n" "i < n" "j < (n::nat)"
  shows "i = j"
proof -
  obtain a b where "l + i + n * a = l + j + n * b" using assms(1) unfolding nat_mod_eq_iff by blast
  then have "i mod n = j mod n" unfolding nat_mod_eq_iff by (intro exI [of _ a] exI [of _ b]) simp
  then show ?thesis using assms(2,3) by simp
qed

lemma cq_push_abs:
  assumes "cq_inv q" "\<not> cq_full q"
  shows "\<exists>q'. cq_push x q = Inr q' \<and> cq_inv q' \<and> cq_list q' = cq_list q @ [x]"
proof -
  define q' where "q' = q\<lparr>m_queue := (m_queue q)[m_first q := x], m_first := w32 (m_first q + 1) mod m_size q\<rparr>"
  have b: "m_first q < m_size q" "m_size q \<le> 2 ^ 31" "m_last q < m_size q" "length (m_queue q) = m_size q"
    using assms(1) by (auto simp: cq_inv_def)
  have f: "m_size q' = m_size q" "m_last q' = m_last q" "m_queue q' = (m_queue q)[m_first q := x]"
    "m_first q' = (if Suc (m_first q) = m_size q then 0 else Suc (m_first q))"
    using wrap_inc [OF b(1,2)] by (simp_all add: q'_def)
  have len: "cq_len q' = Suc (cq_len q)"
    using cq_full_iff [OF assms(1)] assms(2) b unfolding cq_len_def f by (auto split: if_splits)
  have other: "(m_last q + i) mod m_size q \<noteq> m_first q" if "i < cq_len q" for i
    using ring_distinct [of "m_last q" i "m_size q" "cq_len q"] cq_last_pos [OF assms(1)] cq_len_less [OF assms(1)] that by auto
  have "cq_list q' = cq_list q @ [x]"
    unfolding cq_list_def len f using other b
    by (auto simp: cq_last_pos [OF assms(1)] intro!: nth_list_update_neq) (metis other)
  moreover have "cq_inv q'" using b unfolding cq_inv_def f by auto
  ultimately show ?thesis using assms(2) by (simp add: cq_push_def q'_def)
qed

lemma cq_pop_abs:
  assumes "cq_inv q" "cq_list q = x # xs"
  shows "\<exists>q'. cq_pop q = Inr (x, q') \<and> cq_inv q' \<and> cq_list q' = xs \<and> \<not> cq_full q'"
proof -
  define q' where "q' = q\<lparr>m_last := w32 (m_last q + 1) mod m_size q\<rparr>"
  have b: "m_first q < m_size q" "m_size q \<le> 2 ^ 31" "m_last q < m_size q" "length (m_queue q) = m_size q"
    using assms(1) by (auto simp: cq_inv_def)
  have f: "m_size q' = m_size q" "m_first q' = m_first q" "m_queue q' = m_queue q"
    "m_last q' = (if Suc (m_last q) = m_size q then 0 else Suc (m_last q))"
    using wrap_inc [OF b(3,2)] by (simp_all add: q'_def)
  have pos: "0 < cq_len q" using assms(2) by (cases "cq_len q") (auto simp: cq_list_def)
  then have len: "cq_len q' = cq_len q - 1" and inv: "cq_inv q'"
    using b unfolding cq_len_def cq_inv_def f by (auto split: if_splits)
  have step: "(m_last q' + i) mod m_size q = (m_last q + Suc i) mod m_size q" for i
  proof (cases "Suc (m_last q) = m_size q")
    case True
    then have e: "m_last q + Suc i = m_size q + i" by simp
    show ?thesis unfolding e using f(4) True by simp
  qed (use f(4) in simp)
  have split: "[0..<cq_len q] = 0 # map Suc [0..<cq_len q - 1]" using pos by (simp add: upt_conv_Cons map_Suc_upt)
  have "cq_list q = m_queue q ! m_last q # cq_list q'"
    unfolding cq_list_def split len f(1-3) step using b by simp
  then have "x = m_queue q ! m_last q" "xs = cq_list q'" using assms(2) by auto
  moreover have "\<not> cq_full q'" using cq_full_iff [OF inv] len f pos cq_len_less [OF assms(1)] by simp
  moreover have "\<not> cq_empty q" using cq_empty_iff [OF assms(1)] pos by simp
  ultimately show ?thesis using inv by (simp add: cq_pop_def Let_def q'_def)
qed

interpretation ring: fifo cq_inv cq_list cq_full cq_push cq_pop
  using cq_push_abs cq_pop_abs by unfold_locales

section \<open>The request queues keep the contract\<close>

definition rq_inv :: "'r req_queue_list \<Rightarrow> bool" where
  "rq_inv l \<longleftrightarrow> (\<forall>a. l a \<noteq> Some [])"

definition rq_list :: "IntPtr \<Rightarrow> 'r req_queue_list \<Rightarrow> 'r list" where
  "rq_list a l = (case l a of None \<Rightarrow> [] | Some q \<Rightarrow> q)"

lemma rq_list_enqueue [simp]: "rq_list b (enqueue a r l) = (if b = a then rq_list a l @ [r] else rq_list b l)"
  by (auto simp: rq_list_def enqueue_def Let_def split: option.splits)

lemma rq_inv_enqueue: "rq_inv l \<Longrightarrow> rq_inv (enqueue a r l)"
  by (auto simp: rq_inv_def enqueue_def Let_def)

lemma rq_size_list: "rq_size a l = length (rq_list a l)"
  by (simp add: rq_size_def rq_list_def split: option.split)

lemma rq_empty_list: "rq_inv l \<Longrightarrow> rq_empty a l \<longleftrightarrow> rq_list a l = []"
  by (auto simp: rq_empty_def rq_list_def rq_inv_def split: option.split)

lemma rq_front_list: "rq_list a l = r # rs \<Longrightarrow> rq_front a l = Inr r"
  by (auto simp: rq_front_def rq_list_def split: option.splits)

lemma rq_front_Inr: "rq_front a l = Inr r \<Longrightarrow> \<exists>rs. rq_list a l = r # rs"
  by (auto simp: rq_front_def rq_list_def split: option.splits list.splits)

lemma dequeue_list:
  assumes "rq_inv l" "rq_list a l = r # rs"
  shows "\<exists>l'. dequeue a l = Inr (r, l') \<and> rq_inv l' \<and> rq_list a l' = rs \<and> (\<forall>b. b \<noteq> a \<longrightarrow> l' b = l b)"
proof -
  have "l a = Some (r # rs)" using assms(2) by (auto simp: rq_list_def split: option.splits)
  then show ?thesis using assms(1) by (auto simp: dequeue_def rq_inv_def rq_list_def)
qed

lemma dequeue_Inr: "dequeue a l = Inr (r, l') \<Longrightarrow> \<exists>rs. rq_list a l = r # rs"
  by (auto simp: dequeue_def rq_list_def split: option.splits list.splits)

interpretation rq: fifo rq_inv "rq_list a" "\<lambda>l. False" "\<lambda>r l. Inr (enqueue a r l)" "dequeue a" for a
proof
  fix q :: "'r req_queue_list" and x xs
  assume "rq_inv q" "rq_list a q = x # xs"
  from dequeue_list [OF this] show "\<exists>q'. dequeue a q = Inr (x, q') \<and> rq_inv q' \<and> rq_list a q' = xs \<and> \<not> False" by blast
qed (simp add: rq_inv_enqueue)

section \<open>Properties\<close>

lemma cq_list_length [simp]: "length (cq_list q) = cq_len q"
  by (simp add: cq_list_def)

lemma cq_index_list: "cq_inv q \<Longrightarrow> i < cq_len q \<Longrightarrow> cq_index q i = cq_list q ! i"
  using cq_len_less [of q] by (simp add: cq_index_def cq_list_def cq_inv_def)

lemma cq_front_list: "cq_inv q \<Longrightarrow> 0 < cq_len q \<Longrightarrow> cq_front q = Inr (cq_list q ! 0)"
  by (simp add: cq_front_def cq_empty_iff cq_list_def cq_inv_def)

lemma cq_back_list:
  assumes "cq_inv q" "0 < cq_len q"
  shows "cq_back q = Inr (cq_list q ! (cq_len q - 1))"
proof -
  have b: "m_first q < m_size q" "m_size q \<le> 2 ^ 31" "m_last q < m_size q" using assms(1) by (auto simp: cq_inv_def)
  have "m_first q + m_size q + (2 ^ 32 - 1) = 2 ^ 32 + (m_first q + m_size q - 1)" using b by simp
  moreover have "w32 (2 ^ 32 + (m_first q + m_size q - 1)) = m_first q + m_size q - 1"
    using b by (simp only: mod_add_self1) (intro mod_less, simp)
  ultimately have e: "w32 (m_first q + m_size q + (2 ^ 32 - 1)) = m_first q + m_size q - 1" by metis
  have "(m_first q + m_size q - 1) mod m_size q = (m_last q + (cq_len q - 1)) mod m_size q"
  proof (cases "m_last q \<le> m_first q")
    case True
    then have "m_first q + m_size q - 1 = m_size q + (m_last q + (cq_len q - 1))"
      using assms(2) by (simp add: cq_len_def)
    then show ?thesis by (simp only: mod_add_self1)
  next
    case False
    then have "m_first q + m_size q - 1 = m_last q + (cq_len q - 1)" using b by (simp add: cq_len_def)
    then show ?thesis by simp
  qed
  then show ?thesis using assms unfolding cq_back_def e by (simp add: cq_empty_iff cq_list_def)
qed

lemma cq_pushCircular_list:
  assumes "cq_inv q" "1 < m_size q"
  shows "\<exists>q'. cq_pushCircular x q = Inr q' \<and> cq_inv q' \<and> cq_list q' = (if cq_full q then tl (cq_list q) else cq_list q) @ [x]"
proof (cases "cq_full q")
  case True
  then have "cq_list q \<noteq> []" using assms cq_full_iff [OF assms(1)] cq_list_length [of q] by force
  then obtain y ys where l: "cq_list q = y # ys" by (cases "cq_list q") auto
  obtain q1 where q1: "cq_pop q = Inr (y, q1)" "cq_inv q1" "cq_list q1 = ys" "\<not> cq_full q1"
    using cq_pop_abs [OF assms(1) l] by blast
  then show ?thesis using cq_push_abs [OF q1(2,4), of x] True l by (auto simp: cq_pushCircular_def)
next
  case False
  then show ?thesis using cq_push_abs [OF assms(1) False] by (simp add: cq_pushCircular_def)
qed

text \<open>
  C25: a circular queue behaves as a bounded list: size, empty and full agree with the list, a push
  into a queue that is not full appends, \<^verbatim>\<open>pushCircular\<close> drops the oldest element when full, and
  front, back, \<^verbatim>\<open>at\<close> and pop read the list, for every position of the two wrapping indices.
\<close>

theorem circular_queue_refines_list:
  assumes "cq_inv q" "1 < m_size q"
  shows "cq_size q = length (cq_list q) \<and> (cq_empty q \<longleftrightarrow> cq_list q = []) \<and>
    (cq_full q \<longleftrightarrow> length (cq_list q) = m_size q - 1) \<and>
    (\<not> cq_full q \<longrightarrow> (\<exists>q'. cq_push x q = Inr q' \<and> cq_inv q' \<and> cq_list q' = cq_list q @ [x])) \<and>
    (\<exists>q'. cq_pushCircular x q = Inr q' \<and> cq_inv q' \<and>
       cq_list q' = (if cq_full q then tl (cq_list q) else cq_list q) @ [x]) \<and>
    (\<forall>i<length (cq_list q). cq_at q i = Inr (cq_list q ! i)) \<and>
    (cq_list q \<noteq> [] \<longrightarrow> cq_front q = Inr (hd (cq_list q)) \<and> cq_back q = Inr (last (cq_list q)) \<and>
       (\<exists>q'. cq_pop q = Inr (hd (cq_list q), q') \<and> cq_inv q' \<and> cq_list q' = tl (cq_list q)))"
proof -
  have pop: "\<exists>q'. cq_pop q = Inr (hd (cq_list q), q') \<and> cq_inv q' \<and> cq_list q' = tl (cq_list q)" if "cq_list q \<noteq> []"
    using cq_pop_abs [OF assms(1), of "hd (cq_list q)" "tl (cq_list q)"] that by auto
  have len: "cq_len q = 0 \<longleftrightarrow> cq_list q = []" by (metis cq_list_length length_0_conv)
  have fb: "cq_front q = Inr (hd (cq_list q)) \<and> cq_back q = Inr (last (cq_list q))" if "cq_list q \<noteq> []"
    using cq_front_list [OF assms(1)] cq_back_list [OF assms(1)] that len by (simp add: hd_conv_nth last_conv_nth)
  have "cq_full q \<longleftrightarrow> cq_len q = m_size q - 1" using cq_full_iff [OF assms(1)] assms(2) by auto
  then show ?thesis
    using cq_size_len [OF assms(1)] cq_empty_iff [OF assms(1)] cq_push_abs [OF assms(1)]
      cq_pushCircular_list [OF assms, of x] cq_index_list [OF assms(1)] pop fb len
    by (simp add: cq_at_def)
qed

definition example_ring :: "nat circular_queue" where
  "example_ring = \<lparr>m_size = 3, m_first = 1, m_last = 2, m_queue = [7, 8, 9]\<rparr>"

theorem circular_queue_refines_list_witness:
  "cq_list example_ring = [9, 7] \<and> cq_full example_ring \<and> cq_back example_ring = Inr 7 \<and>
   (\<exists>q'. cq_pushCircular 5 example_ring = Inr q' \<and> cq_list q' = [7, 5])"
proof -
  have l: "cq_list example_ring = [9, 7]" "cq_full example_ring"
    by (simp_all add: cq_list_def cq_len_def cq_full_def example_ring_def upt_rec)
  have "cq_inv example_ring" "1 < m_size example_ring" by (simp_all add: cq_inv_def example_ring_def)
  from circular_queue_refines_list [OF this, of 5] show ?thesis using l by auto
qed

lemma dequeue_frame:
  assumes "dequeue a l = Inr (r, l')" "b \<noteq> a" shows "rq_list b l' = rq_list b l"
  using assms by (auto simp: dequeue_def rq_list_def split: option.splits list.splits if_splits)

lemma pop_n_frame: "rq.pop_n a n l = Inr (rs, l') \<Longrightarrow> b \<noteq> a \<Longrightarrow> rq_list b l' = rq_list b l"
proof (induction n arbitrary: l rs)
  case (Suc n)
  from Suc.prems(1) obtain r l1 rs1 where "dequeue a l = Inr (r, l1)" "rq.pop_n a n l1 = Inr (rs1, l')" by auto
  with Suc.IH Suc.prems(2) dequeue_frame show ?case by metis
qed simp

text \<open>
  C26: the request queues of the directory are a map from addresses to first-in first-out queues. Enqueueing appends to
  the queue of its address and dequeueing removes the head of it, which is also what the front reports; neither changes
  the queue of any other address, and on an address without requests both end in an error. Size and emptiness are those
  of the queue. So after a request is enqueued at the end, the requests for its address leave in the order they came, and
  the queues of all other addresses are as before.
\<close>

theorem req_queue_fifo:
  assumes "rq_inv l"
  shows "rq_inv (enqueue a r l) \<and> (\<forall>b. rq_list b (enqueue a r l) = (if b = a then rq_list a l @ [r] else rq_list b l)) \<and>
    (case rq_list a l of
       [] \<Rightarrow> isl (rq_front a l) \<and> isl (dequeue a l)
     | x # xs \<Rightarrow> rq_front a l = Inr x \<and>
         (\<exists>l'. dequeue a l = Inr (x, l') \<and> rq_inv l' \<and> (\<forall>b. rq_list b l' = (if b = a then xs else rq_list b l)))) \<and>
    rq_size a l = length (rq_list a l) \<and> (rq_empty a l \<longleftrightarrow> rq_list a l = []) \<and>
    (\<exists>l'. rq.pop_n a (length (rq_list a l) + 1) (enqueue a r l) = Inr (rq_list a l @ [r], l') \<and>
       (\<forall>b. rq_list b l' = (if b = a then [] else rq_list b l)))"
proof (intro conjI allI)
  show "case rq_list a l of
       [] \<Rightarrow> isl (rq_front a l) \<and> isl (dequeue a l)
     | x # xs \<Rightarrow> rq_front a l = Inr x \<and>
         (\<exists>l'. dequeue a l = Inr (x, l') \<and> rq_inv l' \<and> (\<forall>b. rq_list b l' = (if b = a then xs else rq_list b l)))"
  proof (cases "rq_list a l")
    case Nil
    then show ?thesis by (auto simp: rq_front_def dequeue_def rq_list_def split: option.splits)
  next
    case (Cons x xs)
    obtain l' where l': "dequeue a l = Inr (x, l')" "rq_inv l'" "rq_list a l' = xs"
      using dequeue_list [OF assms Cons] by blast
    with Cons rq_front_list [OF Cons] dequeue_frame [OF l'(1)] show ?thesis by auto
  qed
  obtain l' where "rq.pop_n a (length (rq_list a (enqueue a r l))) (enqueue a r l) = Inr (rq_list a (enqueue a r l), l')" "rq_list a l' = []"
    using rq.pop_all [OF rq_inv_enqueue [OF assms], of a a r] by blast
  with pop_n_frame [OF this(1)]
  show "\<exists>l'. rq.pop_n a (length (rq_list a l) + 1) (enqueue a r l) = Inr (rq_list a l @ [r], l') \<and>
      (\<forall>b. rq_list b l' = (if b = a then [] else rq_list b l))" by auto
qed (use assms in \<open>simp_all add: rq_inv_enqueue rq_size_list rq_empty_list\<close>)

theorem req_queue_fifo_witness:
  "\<exists>l'. rq.pop_n 5 2 (enqueue 5 (2::nat) (enqueue 5 1 (\<lambda>_. None))) = Inr ([1, 2], l') \<and> rq_list 5 l' = []"
proof -
  have "rq_inv (enqueue 5 (1::nat) (\<lambda>_. None))" by (intro rq_inv_enqueue) (simp add: rq_inv_def)
  moreover have "rq_list 5 (enqueue 5 (1::nat) (\<lambda>_. None)) = [1]" by code_simp
  ultimately show ?thesis
    using req_queue_fifo [of "enqueue 5 (1::nat) (\<lambda>_. None)" 5 2] by (auto simp: numeral_2_eq_2 simp del: rq.pop_n.simps)
qed

end
