(* ===== verification/Dram_Directory_Cntlr.thy ===== *)
theory Dram_Directory_Cntlr
  imports Dram_Directory_Cache Circular_Queue Nuca_Cache
begin

text \<open>
  \<^verbatim>\<open>pr_l1_pr_l2_dram_directory_msi/dram_directory_cntlr.cc\<close> with \<^verbatim>\<open>shmem_msg.h\<close> and
  \<^verbatim>\<open>shmem_req.{h,cc}\<close>: the tag directory controller that keeps the private caches coherent (MSI,
  MESI and MESIF). A handler takes the controller and returns it changed; the messages it sends are
  appended to \<open>m_sent\<close> with their send time. The time attribution of \<^verbatim>\<open>ShmemPerf\<close> is left out; the
  clock \<open>m_elapsed\<close> of the simulation thread is kept.

  The mutual recursion between \<^verbatim>\<open>processNextReqFromL2Cache\<close> and the request handlers is cut at the
  former: the handlers take it as the argument \<open>next\<close>, and \<open>processNextReqFromL2Cache\<close> is defined by
  recursion on a bound for the number of requests it can still complete. Running out of the bound
  is the outcome \<open>NONTERMINATION\<close>; the handlers start with a bound that is one more than the length of
  the queue.
\<close>

section \<open>Messages and requests\<close>

datatype msg_t =
    INVALID_MSG_TYPE
  | EX_REQ | SH_REQ | UPGRADE_REQ | INV_REQ | FLUSH_REQ | WB_REQ
  | EX_REP | SH_REP | UPGRADE_REP | INV_REP | FLUSH_REP | WB_REP | NULLIFY_REQ
  | DRAM_READ_REQ | DRAM_WRITE_REQ | DRAM_READ_REP

datatype where_t =
    WHERE_FIRST | L1I | L1_OWN | L2_OWN | L3_OWN | L4_OWN | MISS | NUCA_CACHE | DRAM_CACHE | DRAM
  | DRAM_LOCAL | DRAM_REMOTE | CACHE_REMOTE | SIBLING | L1_SIBLING | L2_SIBLING | L3_SIBLING
  | L4_SIBLING | UNKNOWN | PREDICATE_FALSE | PREFETCH_NO_MAPPING

abbreviation (input) TAG_DIR :: component_t where "TAG_DIR \<equiv> 21"
abbreviation (input) DRAM_COMPONENT :: component_t where "DRAM_COMPONENT \<equiv> 24"

record shmem_msg =
  m_msg_type :: msg_t
  m_sender_mem_component :: component_t
  m_receiver_mem_component :: component_t
  m_requester :: core_id_t
  msg_address :: IntPtr
  m_data_buf :: "UInt8 list option"
  m_where :: where_t

record shmem_req =
  m_shmem_msg :: shmem_msg
  m_time :: UInt64
  m_wait_for_data :: bool
  m_forwarding_from :: core_id_t

definition ShmemReq :: "shmem_msg \<Rightarrow> UInt64 \<Rightarrow> shmem_req result" where
  "ShmemReq shmem_msg time =
     bindE (assertE (m_data_buf shmem_msg = None) (LOG_ASSERT_ERROR ''Shmem Reqs should not have data payloads'')) (\<lambda>_.
       Inr \<lparr>m_shmem_msg = shmem_msg, m_time = time, m_wait_for_data = False, m_forwarding_from = INVALID_CORE_ID\<rparr>)"

definition isForwarding :: "shmem_req \<Rightarrow> bool" where
  "isForwarding r \<longleftrightarrow> m_forwarding_from r \<noteq> INVALID_CORE_ID"

definition updateTime :: "UInt64 \<Rightarrow> shmem_req \<Rightarrow> shmem_req" where
  "updateTime time r = (if time > m_time r then r\<lparr>m_time := time\<rparr> else r)"

section \<open>The controller\<close>

datatype protocol_t = MSI | MESI | MESIF

datatype receiver_t = To core_id_t | Broadcast

record cntlr =
  m_dram_directory_cache :: dram_directory_cache
  m_req_queue :: "shmem_req req_queue_list"
  m_nuca_cache :: "nuca_cache option"
  m_home_lookup :: address_home_lookup
  m_core_id :: core_id_t
  m_protocol :: protocol_t
  evict :: "dstate_t \<Rightarrow> UInt64"
  forward :: UInt64
  forward_failed :: UInt64
  m_elapsed :: UInt64
  m_sent :: "(receiver_t \<times> shmem_msg \<times> UInt64) list"
  uninit_buf :: "UInt8 list"

definition parse_protocol :: "string \<Rightarrow> protocol_t result" where
  "parse_protocol protocol =
     (if protocol = ''msi'' then Inr MSI
      else if protocol = ''mesi'' then Inr MESI
      else if protocol = ''mesif'' then Inr MESIF
      else Inl (LOG_PRINT_ERROR ''Invalid coherency protocol, must be msi, mesi or mesif''))"

definition DramDirectoryCntlr ::
  "core_id_t \<Rightarrow> dram_directory_cache \<Rightarrow> nuca_cache option \<Rightarrow> address_home_lookup \<Rightarrow> string \<Rightarrow> UInt64 \<Rightarrow> UInt8 list
     \<Rightarrow> cntlr result" where
  "DramDirectoryCntlr core_id dc nuca_cache home_lookup protocol uninit_evict uninit =
     bindE (parse_protocol protocol) (\<lambda>pr.
       Inr \<lparr>m_dram_directory_cache = dc, m_req_queue = (\<lambda>_. None), m_nuca_cache = nuca_cache,
            m_home_lookup = home_lookup, m_core_id = core_id, m_protocol = pr,
            evict = (\<lambda>s. if s = D_UNCACHED then uninit_evict else 0), forward = 0, forward_failed = 0,
            m_elapsed = 0, m_sent = [], uninit_buf = uninit\<rparr>)"

definition sendMsg ::
  "msg_t \<Rightarrow> component_t \<Rightarrow> core_id_t \<Rightarrow> core_id_t \<Rightarrow> IntPtr \<Rightarrow> UInt8 list option \<Rightarrow> where_t \<Rightarrow> cntlr \<Rightarrow> cntlr" where
  "sendMsg msg_type receiver_mem_component requester receiver address data where c =
     c\<lparr>m_sent := m_sent c @
        [(To receiver,
          \<lparr>m_msg_type = msg_type, m_sender_mem_component = TAG_DIR,
           m_receiver_mem_component = receiver_mem_component, m_requester = requester,
           msg_address = address, m_data_buf = data, m_where = where\<rparr>, m_elapsed c)]\<rparr>"

definition broadcastMsg :: "msg_t \<Rightarrow> component_t \<Rightarrow> core_id_t \<Rightarrow> IntPtr \<Rightarrow> cntlr \<Rightarrow> cntlr" where
  "broadcastMsg msg_type receiver_mem_component requester address c =
     c\<lparr>m_sent := m_sent c @
        [(Broadcast,
          \<lparr>m_msg_type = msg_type, m_sender_mem_component = TAG_DIR,
           m_receiver_mem_component = receiver_mem_component, m_requester = requester,
           msg_address = address, m_data_buf = None, m_where = UNKNOWN\<rparr>, m_elapsed c)]\<rparr>"

text \<open>Lookup, read and update of the entry a request is about, and of the request at the front.\<close>

definition getEntry :: "IntPtr \<Rightarrow> bool \<Rightarrow> cntlr \<Rightarrow> (entry_ptr option \<times> cntlr) result" where
  "getEntry address modeled c =
     bindE (dc_getDirectoryEntry (m_dram_directory_cache c) address modeled (m_elapsed c)) (\<lambda>(p, dc, t).
       Inr (p, c\<lparr>m_dram_directory_cache := dc, m_elapsed := t\<rparr>))"

definition readEntry :: "entry_ptr \<Rightarrow> cntlr \<Rightarrow> directory_entry result" where
  "readEntry p c = deref (m_dram_directory_cache c) p"

definition updEntry :: "entry_ptr \<Rightarrow> (directory_entry \<Rightarrow> directory_entry result) \<Rightarrow> cntlr \<Rightarrow> cntlr result" where
  "updEntry p f c =
     bindE (readEntry p c) (\<lambda>d. bindE (f d) (\<lambda>d'.
       Inr (c\<lparr>m_dram_directory_cache := store (m_dram_directory_cache c) p d'\<rparr>)))"

definition updFront :: "IntPtr \<Rightarrow> (shmem_req \<Rightarrow> shmem_req) \<Rightarrow> cntlr \<Rightarrow> cntlr" where
  "updFront address f c =
     (case m_req_queue c address of
        Some (r # rs) \<Rightarrow> c\<lparr>m_req_queue := (m_req_queue c)(address := Some (f r # rs))\<rparr>
      | _ \<Rightarrow> c)"

definition sendInvalidations :: "core_id_t \<Rightarrow> IntPtr \<Rightarrow> bool \<times> core_id_t list \<Rightarrow> cntlr \<Rightarrow> cntlr" where
  "sendInvalidations requester address sharers_list_pair c =
     (if fst sharers_list_pair then broadcastMsg INV_REQ L2_CACHE requester address c
      else foldl (\<lambda>c sharer. sendMsg INV_REQ L2_CACHE requester sharer address None UNKNOWN c)
             c (snd sharers_list_pair))"

type_synonym next_fn = "IntPtr \<Rightarrow> cntlr \<Rightarrow> cntlr result"

definition sendDataToNUCA :: "IntPtr \<Rightarrow> UInt8 list option \<Rightarrow> bool \<Rightarrow> cntlr \<Rightarrow> cntlr result" where
  "sendDataToNUCA address data_buf cnt c =
     (case m_nuca_cache c of
        None \<Rightarrow> Inr c
      | Some n \<Rightarrow>
          bindE (nuca_write n address (case data_buf of Some d \<Rightarrow> d | None \<Rightarrow> uninit_buf c) (m_elapsed c) cnt)
            (\<lambda>(_, (eviction, evict_address, evict_buf), n').
              let c1 = c\<lparr>m_nuca_cache := Some n'\<rparr> in
              case eviction of
                None \<Rightarrow> Inl (UNDEFINED ''eviction is not initialised'')
              | Some False \<Rightarrow> Inr c1
              | Some True \<Rightarrow>
                  bindE (getHome (m_home_lookup c1) evict_address) (\<lambda>dram_node.
                    Inr (sendMsg DRAM_WRITE_REQ DRAM_COMPONENT (m_core_id c1) dram_node evict_address
                           (Some (case evict_buf of Some d \<Rightarrow> d | None \<Rightarrow> uninit_buf c1)) UNKNOWN c1))))"

definition sendDataToDram :: "IntPtr \<Rightarrow> core_id_t \<Rightarrow> UInt8 list option \<Rightarrow> cntlr \<Rightarrow> cntlr result" where
  "sendDataToDram address requester data_buf c =
     (case m_nuca_cache c of
        Some _ \<Rightarrow> sendDataToNUCA address data_buf True c
      | None \<Rightarrow>
          bindE (getHome (m_home_lookup c) address) (\<lambda>dram_node.
            Inr (sendMsg DRAM_WRITE_REQ DRAM_COMPONENT requester dram_node address data_buf UNKNOWN c)))"

definition processNullifyReq :: "next_fn \<Rightarrow> shmem_req \<Rightarrow> cntlr \<Rightarrow> cntlr result" where
  "processNullifyReq next shmem_req c =
     (let address = msg_address (m_shmem_msg shmem_req);
          requester = m_requester (m_shmem_msg shmem_req)
      in bindE (getEntry address False c) (\<lambda>(e, c1).
           case e of
             None \<Rightarrow> Inl (ASSERT ''directory_entry'')
           | Some p \<Rightarrow>
               bindE (readEntry p c1) (\<lambda>d.
                 case m_dstate d of
                   D_EXCLUSIVE \<Rightarrow> Inr (sendMsg FLUSH_REQ L2_CACHE requester (m_owner_id d) address None UNKNOWN c1)
                 | D_MODIFIED \<Rightarrow> Inr (sendMsg FLUSH_REQ L2_CACHE requester (m_owner_id d) address None UNKNOWN c1)
                 | D_SHARED \<Rightarrow> Inr (sendInvalidations requester address (getSharersList d) c1)
                 | D_UNCACHED \<Rightarrow>
                     bindE (invalidateDirectoryEntry (m_dram_directory_cache c1) address) (\<lambda>dc.
                       next address (c1\<lparr>m_dram_directory_cache := dc\<rparr>))
                 | D_OWNED \<Rightarrow> Inl (LOG_PRINT_ERROR ''Unsupported Directory State''))))"

text \<open>The candidate with the fewest sharers among those without outstanding requests.\<close>

fun pick_candidate :: "cntlr \<Rightarrow> directory_entry option \<Rightarrow> entry_ptr list \<Rightarrow> directory_entry option result" where
  "pick_candidate c best [] = Inr best"
| "pick_candidate c best (p # ps) =
     bindE (readEntry p c) (\<lambda>d.
       pick_candidate c
         (if (case best of None \<Rightarrow> True | Some b \<Rightarrow> getNumSharers b > getNumSharers d) \<and>
             rq_size (m_address d) (m_req_queue c) = 0
          then Some d else best) ps)"

definition processDirectoryEntryAllocationReq ::
  "next_fn \<Rightarrow> shmem_req \<Rightarrow> cntlr \<Rightarrow> (entry_ptr \<times> cntlr) result" where
  "processDirectoryEntryAllocationReq next shmem_req c =
     (let address = msg_address (m_shmem_msg shmem_req);
          requester = m_requester (m_shmem_msg shmem_req);
          msg_time = m_elapsed c
      in bindE (getReplacementCandidates (m_dram_directory_cache c) address (m_elapsed c)) (\<lambda>(cands, dc).
         let c1 = c\<lparr>m_dram_directory_cache := dc\<rparr> in
         bindE (pick_candidate c1 None cands) (\<lambda>best.
           case best of
             None \<Rightarrow> Inl (LOG_ASSERT_ERROR ''Cannot find a directory entry to be replaced with a non-zero request list'')
           | Some d \<Rightarrow>
               let c2 = c1\<lparr>evict := (evict c1)(m_dstate d := evict c1 (m_dstate d) + 1)\<rparr>;
                   replaced_address = m_address d
               in bindE (replaceDirectoryEntry (m_dram_directory_cache c2) replaced_address address True (m_elapsed c2))
                    (\<lambda>(p, dc', t).
                      let c3 = c2\<lparr>m_dram_directory_cache := dc', m_elapsed := t\<rparr> in
                      bindE (ShmemReq \<lparr>m_msg_type = NULLIFY_REQ, m_sender_mem_component = TAG_DIR,
                                       m_receiver_mem_component = TAG_DIR, m_requester = requester,
                                       msg_address = replaced_address, m_data_buf = None, m_where = UNKNOWN\<rparr> msg_time)
                        (\<lambda>nullify_req.
                          let c4 = c3\<lparr>m_req_queue := enqueue replaced_address nullify_req (m_req_queue c3)\<rparr> in
                          bindE (assertE (rq_size replaced_address (m_req_queue c4) = 1) (ASSERT ''size(replaced_address) == 1''))
                            (\<lambda>_. bindE (processNullifyReq next nullify_req c4) (\<lambda>c5. Inr (p, c5)))))))) "

definition entryFor :: "next_fn \<Rightarrow> shmem_req \<Rightarrow> cntlr \<Rightarrow> (entry_ptr \<times> cntlr) result" where
  "entryFor next shmem_req c =
     bindE (getEntry (msg_address (m_shmem_msg shmem_req)) False c) (\<lambda>(e, c1).
       case e of
         Some p \<Rightarrow> Inr (p, c1)
       | None \<Rightarrow> processDirectoryEntryAllocationReq next shmem_req c1)"

definition retrieveDataAndSendToL2Cache ::
  "next_fn \<Rightarrow> msg_t \<Rightarrow> core_id_t \<Rightarrow> IntPtr \<Rightarrow> UInt8 list option \<Rightarrow> cntlr \<Rightarrow> cntlr result" where
  "retrieveDataAndSendToL2Cache next reply_msg_type receiver address cached_data_buf c =
     bindE (getEntry address False c) (\<lambda>(e, c1).
       case e of
         None \<Rightarrow> Inl (ASSERT ''directory_entry != NULL'')
       | Some p \<Rightarrow>
           if cached_data_buf \<noteq> None
           then
             bindE (updEntry p (\<lambda>d. Inr (setForwarder d receiver)) c1) (\<lambda>c2.
               next address (sendMsg reply_msg_type L2_CACHE receiver receiver address cached_data_buf CACHE_REMOTE c2))
           else
             bindE (case m_nuca_cache c1 of
                      None \<Rightarrow> Inr (None, c1)
                    | Some n \<Rightarrow>
                        bindE (nuca_read n address (uninit_buf c1) (m_elapsed c1) True) (\<lambda>(nuca_latency, hit, data, n').
                        bindE (incrElapsedTime nuca_latency (m_elapsed c1)) (\<lambda>t.
                          Inr (if hit then Some data else None, c1\<lparr>m_nuca_cache := Some n', m_elapsed := t\<rparr>))))
               (\<lambda>(nuca_data, c2).
                 case nuca_data of
                   Some data \<Rightarrow>
                     next address (sendMsg reply_msg_type L2_CACHE receiver receiver address (Some data) NUCA_CACHE c2)
                 | None \<Rightarrow>
                     bindE (assertE (rq_size address (m_req_queue c2) > 0) (ASSERT ''size(address) > 0'')) (\<lambda>_.
                     bindE (rq_front address (m_req_queue c2)) (\<lambda>shmem_req.
                     bindE (readEntry p c2) (\<lambda>d.
                       if m_protocol c2 = MESIF \<and> m_forwarding_from shmem_req = INVALID_CORE_ID \<and>
                          m_dstate d = D_SHARED \<and> m_forwarder_id d \<noteq> INVALID_CORE_ID
                       then
                         let fwd = m_forwarder_id d in
                         Inr (sendMsg WB_REQ L2_CACHE receiver fwd address None UNKNOWN
                                (updFront address (\<lambda>r. r\<lparr>m_forwarding_from := fwd\<rparr>) c2))
                       else
                         let c3 = updFront address (\<lambda>r. r\<lparr>m_wait_for_data := True\<rparr>) c2 in
                         bindE (getHome (m_home_lookup c3) address) (\<lambda>dram_node.
                           Inr (sendMsg DRAM_READ_REQ DRAM_COMPONENT receiver dram_node address None UNKNOWN c3)))))))"

definition takeOwnership :: "dstate_t \<Rightarrow> core_id_t \<Rightarrow> nat \<Rightarrow> directory_entry \<Rightarrow> directory_entry result" where
  "takeOwnership st requester max_hw_sharers d =
     bindE (addSharer d requester max_hw_sharers) (\<lambda>(add_result, d1).
     bindE (assertE add_result (ASSERT ''add_result == true'')) (\<lambda>_.
     bindE (setOwner d1 requester) (\<lambda>d2. Inr (setDState d2 st))))"

definition maxHwSharers :: "cntlr \<Rightarrow> nat" where
  "maxHwSharers c = getMaxHwSharers (m_directory (m_dram_directory_cache c))"

definition processExReqFromL2Cache :: "next_fn \<Rightarrow> shmem_req \<Rightarrow> UInt8 list option \<Rightarrow> cntlr \<Rightarrow> cntlr result" where
  "processExReqFromL2Cache next shmem_req cached_data_buf c =
     (let address = msg_address (m_shmem_msg shmem_req);
          requester = m_requester (m_shmem_msg shmem_req)
      in bindE (entryFor next shmem_req c) (\<lambda>(p, c1).
         bindE (readEntry p c1) (\<lambda>d.
           if m_dstate d = D_EXCLUSIVE \<or> m_dstate d = D_MODIFIED then
             bindE (assertE (cached_data_buf = None) (ASSERT ''cached_data_buf == NULL'')) (\<lambda>_.
               Inr (sendMsg FLUSH_REQ L2_CACHE requester (m_owner_id d) address None UNKNOWN c1))
           else if m_dstate d = D_SHARED then
             bindE (assertE (cached_data_buf = None) (ASSERT ''cached_data_buf == NULL'')) (\<lambda>_.
               Inr (sendInvalidations requester address (getSharersList d) c1))
           else if m_dstate d = D_UNCACHED then
             bindE (updEntry p (takeOwnership D_MODIFIED requester (maxHwSharers c1)) c1) (\<lambda>c2.
               retrieveDataAndSendToL2Cache next EX_REP requester address cached_data_buf c2)
           else Inl (LOG_PRINT_ERROR ''Unsupported Directory State''))))"

definition processShReqFromL2Cache :: "next_fn \<Rightarrow> shmem_req \<Rightarrow> UInt8 list option \<Rightarrow> cntlr \<Rightarrow> cntlr result" where
  "processShReqFromL2Cache next shmem_req cached_data_buf c =
     (let address = msg_address (m_shmem_msg shmem_req);
          requester = m_requester (m_shmem_msg shmem_req)
      in bindE (entryFor next shmem_req c) (\<lambda>(p, c1).
         bindE (readEntry p c1) (\<lambda>d.
           if m_dstate d = D_EXCLUSIVE then
             bindE (assertE (requester \<noteq> m_owner_id d) (ASSERT ''requester != getOwner()'')) (\<lambda>_.
             bindE (assertE (cached_data_buf = None) (ASSERT ''cached_data_buf == NULL'')) (\<lambda>_.
               Inr (sendMsg WB_REQ L2_CACHE requester (m_owner_id d) address None UNKNOWN c1)))
           else if m_dstate d = D_MODIFIED then
             bindE (assertE (cached_data_buf = None) (ASSERT ''cached_data_buf == NULL'')) (\<lambda>_.
               Inr (sendMsg WB_REQ L2_CACHE requester (m_owner_id d) address None UNKNOWN c1))
           else if m_dstate d = D_SHARED then
             bindE (hasSharer d requester) (\<lambda>is_sharer.
               if is_sharer
               then retrieveDataAndSendToL2Cache next SH_REP requester address cached_data_buf
                      (c1\<lparr>forward := forward c1 + 1,
                          forward_failed := (if cached_data_buf = None then forward_failed c1 + 1 else forward_failed c1)\<rparr>)
               else
                 bindE (addSharer d requester (maxHwSharers c1)) (\<lambda>(add_result, d1).
                   if \<not> add_result
                   then
                     bindE (getOneSharer d1) (\<lambda>(sharer_id, d2).
                     bindE (updEntry p (\<lambda>_. Inr d2) c1) (\<lambda>c2.
                       Inr (sendMsg INV_REQ L2_CACHE requester sharer_id address None UNKNOWN c2)))
                   else
                     bindE (updEntry p (\<lambda>_. Inr d1) c1) (\<lambda>c2.
                       retrieveDataAndSendToL2Cache next SH_REP requester address cached_data_buf c2)))
           else if m_dstate d = D_UNCACHED then
             (if m_protocol c1 = MSI
              then bindE (updEntry p (takeOwnership D_SHARED requester (maxHwSharers c1)) c1) (\<lambda>c2.
                     retrieveDataAndSendToL2Cache next SH_REP requester address cached_data_buf c2)
              else bindE (updEntry p (takeOwnership D_EXCLUSIVE requester (maxHwSharers c1)) c1) (\<lambda>c2.
                     retrieveDataAndSendToL2Cache next EX_REP requester address cached_data_buf c2))
           else Inl (LOG_PRINT_ERROR ''Unsupported Directory State''))))"

text \<open>
  The invalidations of an upgrade: every sharer but the requester, the first of the list being asked to
  flush when the requester has lost its copy.
\<close>

definition sendUpgradeInvalidations :: "core_id_t \<Rightarrow> IntPtr \<Rightarrow> bool \<Rightarrow> core_id_t list \<Rightarrow> cntlr \<Rightarrow> cntlr" where
  "sendUpgradeInvalidations requester address requesterHasCopy sharers c =
     foldl (\<lambda>c i. if sharers ! i \<noteq> requester
                  then sendMsg (if \<not> requesterHasCopy \<and> i = 0 then FLUSH_REQ else INV_REQ) L2_CACHE requester
                         (sharers ! i) address None UNKNOWN c
                  else c) c [0..<length sharers]"

definition processUpgradeReqFromL2Cache :: "next_fn \<Rightarrow> shmem_req \<Rightarrow> UInt8 list option \<Rightarrow> cntlr \<Rightarrow> cntlr result" where
  "processUpgradeReqFromL2Cache next shmem_req cached_data_buf c =
     (let address = msg_address (m_shmem_msg shmem_req);
          requester = m_requester (m_shmem_msg shmem_req)
      in bindE (entryFor next shmem_req c) (\<lambda>(p, c1).
         bindE (readEntry p c1) (\<lambda>d.
           let (bcast, sharers) = getSharersList d in
           if m_dstate d = D_EXCLUSIVE \<or> m_dstate d = D_MODIFIED then
             (case sharers of
                [] \<Rightarrow> Inl (UNDEFINED ''sharers_list_pair.second[0]'')
              | sharer # _ \<Rightarrow>
                  if sharer = requester
                  then
                    bindE (assertE (m_owner_id d = requester) (ASSERT ''getOwner() == requester'')) (\<lambda>_.
                    bindE (updEntry p (\<lambda>d. Inr (setDState d D_MODIFIED))
                             (sendMsg UPGRADE_REP L2_CACHE requester requester address None UNKNOWN c1)) (\<lambda>c2.
                      next address c2))
                  else Inr (sendMsg FLUSH_REQ L2_CACHE requester (m_owner_id d) address None UNKNOWN c1))
           else if m_dstate d = D_SHARED then
             (if sharers = [requester]
              then
                bindE (updEntry p (\<lambda>d. bindE (setOwner d requester) (\<lambda>d. Inr (setDState d D_MODIFIED))) c1) (\<lambda>c2.
                  next address (sendMsg UPGRADE_REP L2_CACHE requester requester address None UNKNOWN c2))
              else
                bindE (hasSharer d requester) (\<lambda>requesterHasCopy.
                  Inr (if bcast then broadcastMsg INV_REQ L2_CACHE requester address c1
                       else sendUpgradeInvalidations requester address requesterHasCopy sharers c1)))
           else if m_dstate d = D_UNCACHED then
             bindE (assertE (sharers = []) (ASSERT ''sharers_list_pair.second.size() == 0'')) (\<lambda>_.
             bindE (updEntry p (takeOwnership D_MODIFIED requester (maxHwSharers c1)) c1) (\<lambda>c2.
               retrieveDataAndSendToL2Cache next EX_REP requester address
                 (case cached_data_buf of
                    Some b \<Rightarrow> Some b
                  | None \<Rightarrow> m_data_buf (m_shmem_msg shmem_req)) c2))
           else Inl (LOG_PRINT_ERROR ''Unsupported Directory State''))))"

primrec processNextReqFromL2Cache :: "nat \<Rightarrow> IntPtr \<Rightarrow> cntlr \<Rightarrow> cntlr result" where
  "processNextReqFromL2Cache 0 address c = Inl (NONTERMINATION ''processNextReqFromL2Cache'')"
| "processNextReqFromL2Cache (Suc n) address c =
     bindE (assertE (rq_size address (m_req_queue c) \<ge> 1) (ASSERT ''size(address) >= 1'')) (\<lambda>_.
     bindE (dequeue address (m_req_queue c)) (\<lambda>(completed_shmem_req, q).
       let c1 = c\<lparr>m_req_queue := q\<rparr> in
       if rq_empty address (m_req_queue c1) then Inr c1
       else
         bindE (rq_front address (m_req_queue c1)) (\<lambda>shmem_req.
           let c2 = c1\<lparr>m_elapsed := m_time shmem_req\<rparr>;
               ty = m_msg_type (m_shmem_msg shmem_req)
           in if ty = EX_REQ then processExReqFromL2Cache (processNextReqFromL2Cache n) shmem_req None c2
              else if ty = SH_REQ then processShReqFromL2Cache (processNextReqFromL2Cache n) shmem_req None c2
              else if ty = UPGRADE_REQ then processUpgradeReqFromL2Cache (processNextReqFromL2Cache n) shmem_req None c2
              else Inl (LOG_PRINT_ERROR ''Unrecognized Request''))))"

definition nextReq :: "cntlr \<Rightarrow> IntPtr \<Rightarrow> next_fn" where
  "nextReq c address = processNextReqFromL2Cache (Suc (rq_size address (m_req_queue c)))"

section \<open>Replies from the caches and from DRAM\<close>

text \<open>
  Both clocks move to the later of the two: the request's own time stamp and the simulation thread.
\<close>

definition touchFront :: "IntPtr \<Rightarrow> cntlr \<Rightarrow> (shmem_req \<times> cntlr) result" where
  "touchFront address c =
     bindE (rq_front address (m_req_queue c)) (\<lambda>r.
       let r' = updateTime (m_elapsed c) r;
           c1 = updFront address (\<lambda>_. r') c
       in Inr (r', c1\<lparr>m_elapsed := updateElapsedTime (m_time r') (m_elapsed c1)\<rparr>))"

definition processDRAMReply :: "core_id_t \<Rightarrow> shmem_msg \<Rightarrow> cntlr \<Rightarrow> cntlr result" where
  "processDRAMReply sender shmem_msg c =
     (let address = msg_address shmem_msg in
      bindE (assertE (rq_size address (m_req_queue c) \<ge> 1) (ASSERT ''size(address) >= 1'')) (\<lambda>_.
      bindE (rq_front address (m_req_queue c)) (\<lambda>shmem_req.
      bindE (getEntry address False c) (\<lambda>(e, c1).
        case e of
          None \<Rightarrow> Inl (ASSERT ''directory_entry'')
        | Some p \<Rightarrow>
            bindE (readEntry p c1) (\<lambda>d.
              let ty = m_msg_type (m_shmem_msg shmem_req);
                  requester = m_requester (m_shmem_msg shmem_req)
              in bindE (if ty = SH_REQ then
                          bindE (assertE (m_dstate d = D_SHARED \<or> m_dstate d = D_EXCLUSIVE) (ASSERT ''curr_dstate''))
                            (\<lambda>_. Inr (if m_dstate d = D_EXCLUSIVE then EX_REP else SH_REP))
                        else if ty = EX_REQ then
                          bindE (assertE (m_dstate d = D_MODIFIED) (ASSERT ''curr_dstate == MODIFIED'')) (\<lambda>_. Inr EX_REP)
                        else if ty = UPGRADE_REQ then Inr EX_REP
                        else Inl (LOG_PRINT_ERROR ''Unsupported request type''))
                   (\<lambda>reply_msg_type.
                     let hit_where = (if m_where shmem_msg = DRAM
                                      then if sender = m_requester shmem_msg then DRAM_LOCAL else DRAM_REMOTE
                                      else m_where shmem_msg);
                         c2 = sendMsg reply_msg_type L2_CACHE requester requester address (m_data_buf shmem_msg) hit_where c1
                     in bindE (sendDataToNUCA address (m_data_buf shmem_msg) False c2) (\<lambda>c3.
                          nextReq c3 address address c3)))))))"

definition processInvRepFromL2Cache :: "core_id_t \<Rightarrow> shmem_msg \<Rightarrow> cntlr \<Rightarrow> cntlr result" where
  "processInvRepFromL2Cache sender shmem_msg c =
     (let address = msg_address shmem_msg in
      bindE (getEntry address False c) (\<lambda>(e, c1).
        case e of
          None \<Rightarrow> Inl (ASSERT ''directory_entry'')
        | Some p \<Rightarrow>
            bindE (updEntry p (\<lambda>d.
                bindE (assertE (m_dstate d = D_SHARED \<or> m_dstate d = D_EXCLUSIVE) (LOG_ASSERT_ERROR ''Ooops'')) (\<lambda>_.
                bindE (removeSharer d sender False) (\<lambda>d1.
                  let d2 = (if m_forwarder_id d1 = sender then setForwarder d1 INVALID_CORE_ID else d1)
                  in Inr (if getNumSharers d2 = 0 then setDState d2 D_UNCACHED else d2)))) c1) (\<lambda>c2.
            if rq_size address (m_req_queue c2) > 0
            then
              bindE (touchFront address c2) (\<lambda>(shmem_req, c3).
              bindE (readEntry p c3) (\<lambda>d.
                let ty = m_msg_type (m_shmem_msg shmem_req);
                    next = nextReq c3 address
                in if ty = EX_REQ then
                     (if m_dstate d = D_UNCACHED then processExReqFromL2Cache next shmem_req None c3 else Inr c3)
                   else if ty = UPGRADE_REQ then
                     (if getNumSharers d = 1
                      then bindE (hasSharer d (m_requester (m_shmem_msg shmem_req))) (\<lambda>has.
                             if has then processUpgradeReqFromL2Cache next shmem_req None c3 else Inr c3)
                      else if getNumSharers d = 0
                      then bindE (updEntry p (\<lambda>d. Inr (setDState d D_UNCACHED)) c3) (\<lambda>c4.
                             processUpgradeReqFromL2Cache next shmem_req None c4)
                      else Inr c3)
                   else if ty = SH_REQ then
                     (if m_wait_for_data shmem_req then Inr c3
                      else if isForwarding shmem_req \<and> sender \<noteq> m_forwarding_from shmem_req then Inr c3
                      else processShReqFromL2Cache next shmem_req None c3)
                   else
                     (if m_dstate d = D_UNCACHED then processNullifyReq next shmem_req c3 else Inr c3)))
            else Inr c2)))"

definition processFlushRepFromL2Cache :: "core_id_t \<Rightarrow> shmem_msg \<Rightarrow> cntlr \<Rightarrow> cntlr result" where
  "processFlushRepFromL2Cache sender shmem_msg c =
     (let address = msg_address shmem_msg;
          data = m_data_buf shmem_msg
      in bindE (getEntry address False c) (\<lambda>(e, c1).
        case e of
          None \<Rightarrow> Inl (ASSERT ''directory_entry'')
        | Some p \<Rightarrow>
            bindE (updEntry p (\<lambda>d.
                bindE (hasSharer d sender) (\<lambda>has.
                bindE (assertE has (ASSERT ''hasSharer(sender)'')) (\<lambda>_.
                bindE (removeSharer d sender False) (\<lambda>d1.
                bindE (setOwner (setForwarder d1 INVALID_CORE_ID) INVALID_CORE_ID) (\<lambda>d2.
                  if getNumSharers d2 = 0 then Inr (setDState d2 D_UNCACHED)
                  else bindE (assertE (m_dstate d2 = D_SHARED) (ASSERT ''getDState() == SHARED'')) (\<lambda>_. Inr d2)))))) c1)
              (\<lambda>c2.
            if rq_size address (m_req_queue c2) \<noteq> 0
            then
              bindE (touchFront address c2) (\<lambda>(shmem_req, c3).
              bindE (readEntry p c3) (\<lambda>d.
                let ty = m_msg_type (m_shmem_msg shmem_req);
                    next = nextReq c3 address
                in if ty = EX_REQ then processExReqFromL2Cache next shmem_req data c3
                   else if ty = SH_REQ then
                     bindE (sendDataToDram address (m_requester shmem_msg) data c3) (\<lambda>c4.
                       processShReqFromL2Cache next shmem_req data c4)
                   else if ty = UPGRADE_REQ then
                     (if getNumSharers d = 0
                      then bindE (updEntry p (\<lambda>d. Inr (setDState d D_UNCACHED)) c3) (\<lambda>c4.
                             processUpgradeReqFromL2Cache next shmem_req data c4)
                      else Inr (updFront address (\<lambda>r. r\<lparr>m_shmem_msg := (m_shmem_msg r)\<lparr>m_data_buf := data\<rparr>\<rparr>) c3))
                   else
                     bindE (sendDataToDram address (m_requester shmem_msg) data c3) (\<lambda>c4.
                       processNullifyReq next shmem_req c4)))
            else sendDataToDram address (m_requester shmem_msg) data c2)))"

definition processWbRepFromL2Cache :: "core_id_t \<Rightarrow> shmem_msg \<Rightarrow> cntlr \<Rightarrow> cntlr result" where
  "processWbRepFromL2Cache sender shmem_msg c =
     (let address = msg_address shmem_msg in
      bindE (getEntry address False c) (\<lambda>(e, c1).
        case e of
          None \<Rightarrow> Inl (ASSERT ''directory_entry'')
        | Some p \<Rightarrow>
            bindE (updEntry p (\<lambda>d.
                bindE (hasSharer d sender) (\<lambda>has.
                bindE (assertE has (ASSERT ''hasSharer(sender)'')) (\<lambda>_.
                bindE (setOwner d INVALID_CORE_ID) (\<lambda>d1. Inr (setDState d1 D_SHARED))))) c1) (\<lambda>c2.
            if rq_size address (m_req_queue c2) \<noteq> 0
            then
              bindE (touchFront address c2) (\<lambda>(shmem_req, c3).
              bindE (assertE (m_msg_type (m_shmem_msg shmem_req) = SH_REQ) (LOG_ASSERT_ERROR ''Address, Req'')) (\<lambda>_.
                processShReqFromL2Cache (nextReq c3 address) shmem_req (m_data_buf shmem_msg) c3))
            else Inl (LOG_PRINT_ERROR ''Should not reach here''))))"

section \<open>Message entry points\<close>

definition enqueueReq :: "shmem_msg \<Rightarrow> UInt64 \<Rightarrow> cntlr \<Rightarrow> (shmem_req \<times> cntlr) result" where
  "enqueueReq shmem_msg msg_time c =
     bindE (ShmemReq shmem_msg msg_time) (\<lambda>r.
       Inr (r, c\<lparr>m_req_queue := enqueue (msg_address shmem_msg) r (m_req_queue c)\<rparr>))"

definition handleMsgFromL2Cache :: "core_id_t \<Rightarrow> shmem_msg \<Rightarrow> cntlr \<Rightarrow> cntlr result" where
  "handleMsgFromL2Cache sender shmem_msg c =
     (let msg_time = m_elapsed c;
          address = msg_address shmem_msg;
          ty = m_msg_type shmem_msg
      in bindE (getEntry address True c) (\<lambda>(_, c1).
           if ty = EX_REQ then
             bindE (enqueueReq shmem_msg msg_time c1) (\<lambda>(r, c2).
               if rq_size address (m_req_queue c2) = 1
               then processExReqFromL2Cache (nextReq c2 address) r None c2 else Inr c2)
           else if ty = SH_REQ then
             bindE (enqueueReq shmem_msg msg_time c1) (\<lambda>(r, c2).
               if rq_size address (m_req_queue c2) = 1
               then processShReqFromL2Cache (nextReq c2 address) r None c2 else Inr c2)
           else if ty = INV_REP then processInvRepFromL2Cache sender shmem_msg c1
           else if ty = FLUSH_REP then processFlushRepFromL2Cache sender shmem_msg c1
           else if ty = WB_REP then processWbRepFromL2Cache sender shmem_msg c1
           else if ty = UPGRADE_REQ then
             bindE (enqueueReq shmem_msg msg_time c1) (\<lambda>(r, c2).
               if rq_size address (m_req_queue c2) = 1
               then processUpgradeReqFromL2Cache (nextReq c2 address) r None c2 else Inr c2)
           else Inl (LOG_PRINT_ERROR ''Unrecognized Shmem Msg Type'')))"

definition handleMsgFromDRAM :: "core_id_t \<Rightarrow> shmem_msg \<Rightarrow> cntlr \<Rightarrow> cntlr result" where
  "handleMsgFromDRAM sender shmem_msg c =
     (if m_msg_type shmem_msg = DRAM_READ_REP then processDRAMReply sender shmem_msg c
      else Inl (LOG_PRINT_ERROR ''Unrecognized Shmem Msg Type''))"

end
