(* ===== verification/Directory_Uniqueness.thy ===== *)
theory Directory_Uniqueness
  imports Dram_Directory_Cache
begin

unbundle bit_operations_syntax

text \<open>
  The directory cache holds at most one entry object for an address, in the set the address maps to or
  in the list of replaced entries. A replaced entry only exists while its set is full, which is what
  keeps the lookup, which tries a free way before it searches the list, from making a second object.
\<close>

section \<open>Looking at a way fills it\<close>

definition geometry :: "dram_directory_cache \<Rightarrow> UInt32 \<times> UInt32 \<times> nat \<times> nat \<times> nat \<times> nat" where
  "geometry c = (dc_associativity c, dc_num_sets c, dc_log_num_sets c, dc_log_cache_block_size c,
     m_num_entries (m_directory c), length (m_directory_entry_list (m_directory c)))"

definition fills :: "dram_directory_cache \<Rightarrow> dram_directory_cache \<Rightarrow> bool" where
  "fills c c' \<longleftrightarrow> m_replaced_directory_entry_list c' = m_replaced_directory_entry_list c \<and> geometry c' = geometry c \<and>
     (\<forall>k. slot_entry c' k = slot_entry c k \<or>
          slot_entry c k = None \<and> (\<exists>cls n u. slot_entry c' k = Some (DirectoryEntry cls n u)))"

definition dc_wf :: "dram_directory_cache \<Rightarrow> bool" where
  "dc_wf c \<longleftrightarrow> length (m_directory_entry_list (m_directory c)) = m_num_entries (m_directory c)"

definition in_set :: "dram_directory_cache \<Rightarrow> nat \<Rightarrow> IntPtr \<Rightarrow> bool" where
  "in_set c k a \<longleftrightarrow> (\<exists>i<unat (dc_associativity c). k = entry_num c (snd (dc_splitAddress c a)) (of_nat i))"

lemma fills_refl [simp]: "fills c c"
  by (simp add: fills_def)

lemma fills_trans: "fills a b \<Longrightarrow> fills b c \<Longrightarrow> fills a c"
  unfolding fills_def by (metis option.distinct(1))

lemma fills_keeps: "fills c c' \<Longrightarrow> slot_entry c k = Some d \<Longrightarrow> slot_entry c' k = Some d"
  by (auto simp: fills_def) (metis option.distinct(1))

lemma geometry_D:
  assumes "geometry c' = geometry c"
  shows "dc_associativity c' = dc_associativity c" "dc_splitAddress c' a = dc_splitAddress c a"
    "entry_num c' si w = entry_num c si w" "dc_wf c' = dc_wf c" "in_set c' k a = in_set c k a"
  using assms by (auto simp: geometry_def dc_splitAddress_def entry_num_def dc_wf_def in_set_def)

lemma fills_geometry: "fills c c' \<Longrightarrow> geometry c' = geometry c"
  by (simp add: fills_def)

lemma address_new [simp]: "m_address (DirectoryEntry cls n u) = - 1"
  by (simp add: DirectoryEntry_def)

lemma getDirectoryEntry_fills:
  assumes "getDirectoryEntry (m_directory c) k = Inr (d, D)" "dc_wf c"
  shows "fills c (c\<lparr>m_directory := D\<rparr>) \<and> slot_entry (c\<lparr>m_directory := D\<rparr>) k = Some d"
proof -
  obtain e D1 where n: "createDirectoryEntry (m_directory c) = (e, D1)" by fastforce
  have D1: "m_num_entries D1 = m_num_entries (m_directory c)"
    using n by (auto simp: createDirectoryEntry_def Let_def split: DirectoryType.splits)
  show ?thesis
    using assms n D1 createDirectoryEntry_new [OF n]
    by (auto simp: getDirectoryEntry_def dc_wf_def fills_def geometry_def slot_entry_def nth_list_update Let_def
        split: option.splits if_splits) blast
qed

lemma find_way_spec:
  assumes "find_way c si P ways = Inr (r, c')" "dc_wf c"
  shows "fills c c' \<and> (case r of
      None \<Rightarrow> \<forall>i \<in> set ways. \<exists>d. slot_entry c' (entry_num c si (of_nat i)) = Some d \<and> \<not> P d
    | Some k \<Rightarrow> \<exists>i \<in> set ways. k = entry_num c si (of_nat i) \<and> (\<exists>d. slot_entry c' k = Some d \<and> P d))"
  using assms
proof (induction ways arbitrary: c)
  case (Cons i ways)
  let ?k = "entry_num c si (of_nat i)"
  obtain d D where g: "getDirectoryEntry (m_directory c) ?k = Inr (d, D)" using Cons.prems(1) by (auto simp: Let_def)
  let ?c = "c\<lparr>m_directory := D\<rparr>"
  note f = getDirectoryEntry_fills [OF g Cons.prems(2)]
  have geo: "geometry ?c = geometry c" using f fills_geometry by blast
  show ?case
  proof (cases "P d")
    case True
    then show ?thesis using Cons.prems(1) g f by (auto simp: Let_def)
  next
    case False
    then have "find_way ?c si P ways = Inr (r, c')" using Cons.prems(1) g by (simp add: Let_def)
    note ih = Cons.IH [OF this]
    have wf: "dc_wf ?c" using geometry_D(4) [OF geo] Cons.prems(2) by simp
    have "slot_entry c' ?k = Some d" using ih [OF wf] f fills_keeps by blast
    then show ?thesis
      using ih [OF wf] f False fills_trans [of c ?c c'] by (auto simp: geometry_D(3) [OF geo] split: option.splits)
  qed
qed simp

lemma candidates_spec:
  assumes "candidates c si rptr ways = Inr (ps, c')" "dc_wf c"
  shows "fills c c' \<and> (\<forall>p \<in> set ps. \<exists>i. p = Slot (entry_num c si ((of_nat i + rptr) mod dc_associativity c)))"
  using assms
proof (induction ways arbitrary: c ps)
  case (Cons i ways)
  let ?k = "entry_num c si ((of_nat i + rptr) mod dc_associativity c)"
  obtain d D ks where g: "getDirectoryEntry (m_directory c) ?k = Inr (d, D)"
    and r: "candidates (c\<lparr>m_directory := D\<rparr>) si rptr ways = Inr (ks, c')" "ps = Slot ?k # ks"
    using Cons.prems(1) by (auto simp: Let_def)
  note f = getDirectoryEntry_fills [OF g Cons.prems(2)]
  have geo: "geometry (c\<lparr>m_directory := D\<rparr>) = geometry c" using f fills_geometry by blast
  have wf: "dc_wf (c\<lparr>m_directory := D\<rparr>)" using geometry_D(4) [OF geo] Cons.prems(2) by simp
  show ?case
    using Cons.IH [OF r(1) wf] f fills_trans [of c "c\<lparr>m_directory := D\<rparr>" c'] r(2)
    by (auto simp: geometry_D(1,3) [OF geo])
qed simp

section \<open>One object per address\<close>

definition dc_unique :: "dram_directory_cache \<Rightarrow> bool" where
  "dc_unique c \<longleftrightarrow> dc_wf c \<and> 0 < dc_associativity c \<and> 0 < dc_num_sets c \<and>
     unat (dc_num_sets c) * unat (dc_associativity c) < 2 ^ 32 \<and>
     (\<forall>k d. slot_entry c k = Some d \<longrightarrow> m_address d \<noteq> - 1 \<longrightarrow> in_set c k (m_address d)) \<and>
     (\<forall>k j d e. slot_entry c k = Some d \<longrightarrow> slot_entry c j = Some e \<longrightarrow> m_address d = m_address e \<longrightarrow> m_address d \<noteq> - 1 \<longrightarrow> k = j) \<and>
     distinct (map m_address (m_replaced_directory_entry_list c)) \<and>
     (\<forall>d \<in> set (m_replaced_directory_entry_list c). m_address d \<noteq> - 1 \<and>
        (\<forall>k. in_set c k (m_address d) \<longrightarrow> (\<exists>e. slot_entry c k = Some e \<and> m_address e \<noteq> - 1 \<and> m_address e \<noteq> m_address d)))"

lemma set_index_less: "0 < dc_num_sets c \<Longrightarrow> unat (snd (dc_splitAddress c a)) < unat (dc_num_sets c)"
proof -
  assume pos: "0 < dc_num_sets c"
  have "snd (dc_splitAddress c a) \<le> dc_num_sets c - 1" by (simp add: dc_splitAddress_def Let_def word_and_le1)
  then have "unat (snd (dc_splitAddress c a)) \<le> unat (dc_num_sets c) - 1"
    using pos by (simp add: word_le_nat_alt unat_minus_one word_gt_0)
  then show ?thesis using pos by (simp add: word_less_nat_alt)
qed

lemma entry_num_eq:
  assumes "0 < dc_num_sets c" "unat (dc_num_sets c) * unat (dc_associativity c) < 2 ^ 32" "i < unat (dc_associativity c)"
  shows "entry_num c (snd (dc_splitAddress c a)) (of_nat i) = unat (snd (dc_splitAddress c a)) * unat (dc_associativity c) + i"
proof -
  let ?s = "snd (dc_splitAddress c a)" and ?A = "dc_associativity c"
  have "unat ?s * unat ?A + i < (unat ?s + 1) * unat ?A" using assms(3) by simp
  also have "\<dots> \<le> unat (dc_num_sets c) * unat ?A" using set_index_less [OF assms(1), of a] by (intro mult_right_mono) auto
  finally have lt: "unat ?s * unat ?A + i < 2 ^ 32" using assms(2) by linarith
  have i: "unat (of_nat i :: UInt32) = i" using lt by (simp add: unat_of_nat)
  have m: "unat (?s * ?A) = unat ?s * unat ?A" using lt by (subst unat_mult_lem [THEN iffD1]) auto
  have "unat (?s * ?A + of_nat i) = unat (?s * ?A) + unat (of_nat i :: UInt32)"
    using lt by (subst unat_add_lem [THEN iffD1]) (auto simp: m i)
  then show ?thesis by (simp add: entry_num_def m i)
qed

lemma in_set_div:
  assumes "dc_unique c" "in_set c k a"
  shows "k div unat (dc_associativity c) = unat (snd (dc_splitAddress c a))"
proof -
  obtain i where i: "i < unat (dc_associativity c)" "k = entry_num c (snd (dc_splitAddress c a)) (of_nat i)"
    using assms(2) by (auto simp: in_set_def)
  show ?thesis using i assms(1) by (simp add: entry_num_eq dc_unique_def)
qed

lemma same_set:
  assumes "dc_unique c" "in_set c k a" "in_set c k b"
  shows "in_set c j a = in_set c j b"
proof -
  have "snd (dc_splitAddress c a) = snd (dc_splitAddress c b)"
    using in_set_div [OF assms(1,2)] in_set_div [OF assms(1,3)] by (simp add: word_unat_eq_iff)
  then show ?thesis by (simp add: in_set_def)
qed

lemma unique_fills:
  assumes "dc_unique c" "fills c c'"
  shows "dc_unique c'"
proof -
  note geo = fills_geometry [OF assms(2)]
  have old: "slot_entry c k = Some d" if "slot_entry c' k = Some d" "m_address d \<noteq> - 1" for k d
    using assms(2) that by (auto simp: fills_def) (metis address_new option.inject)
  have eq: "dc_num_sets c' = dc_num_sets c" using geo by (simp add: geometry_def)
  have rl: "m_replaced_directory_entry_list c' = m_replaced_directory_entry_list c" using assms(2) by (simp add: fills_def)
  show ?thesis
    using assms(1) unfolding dc_unique_def geometry_D [OF geo] eq rl
    by (auto dest: old intro: fills_keeps [OF assms(2)]) (metis old fills_keeps [OF assms(2)])+
qed

text \<open>Writing an entry into a slot.\<close>

lemma unique_full:
  "dc_unique c \<Longrightarrow> x \<in> set (m_replaced_directory_entry_list c) \<Longrightarrow> in_set c j (m_address x) \<Longrightarrow>
     \<exists>f. slot_entry c j = Some f \<and> m_address f \<noteq> - 1 \<and> m_address f \<noteq> m_address x"
  by (simp add: dc_unique_def)

definition put_slot :: "dram_directory_cache \<Rightarrow> nat \<Rightarrow> directory_entry \<Rightarrow> dram_directory_cache" where
  "put_slot c k d = c\<lparr>m_directory := setDirectoryEntry (m_directory c) k d\<rparr>"

lemma put_slot_simps [simp]:
  "geometry (put_slot c k d) = geometry c" "m_replaced_directory_entry_list (put_slot c k d) = m_replaced_directory_entry_list c"
  by (simp_all add: put_slot_def geometry_def setDirectoryEntry_def)

lemma put_slot_entry: "slot_entry c k = Some e \<Longrightarrow> slot_entry (put_slot c k d) j = (if j = k then Some d else slot_entry c j)"
  by (auto simp: put_slot_def slot_entry_def setDirectoryEntry_def nth_list_update split: if_splits)

lemma unique_put:
  assumes "dc_unique c" "slot_entry c k = Some e" "m_address d \<noteq> - 1" "in_set c k (m_address d)"
    and "\<And>j f. slot_entry c j = Some f \<Longrightarrow> m_address d = m_address f \<Longrightarrow> j = k"
    and "\<And>f. f \<in> set (m_replaced_directory_entry_list c) \<Longrightarrow> m_address f \<noteq> m_address d"
  shows "dc_unique (put_slot c k d)"
proof -
  have geo: "geometry (put_slot c k d) = geometry c" by simp
  have eq: "dc_num_sets (put_slot c k d) = dc_num_sets c" by (simp add: put_slot_def)
  have full: "\<exists>f. slot_entry (put_slot c k d) j = Some f \<and> m_address f \<noteq> - 1 \<and> m_address f \<noteq> m_address x"
    if "x \<in> set (m_replaced_directory_entry_list c)" "in_set c j (m_address x)" for x j
    using unique_full [OF assms(1) that] assms(3) assms(6) [OF that(1)] by (auto simp: put_slot_entry [OF assms(2)])
  show ?thesis
    using assms(1) full assms(3-5) unfolding dc_unique_def geometry_D [OF geo] eq
    by (auto simp: put_slot_entry [OF assms(2)] split: if_splits)
qed

lemma unique_update:
  assumes "dc_unique c" "slot_entry c k = Some e" "m_address d = m_address e"
  shows "dc_unique (put_slot c k d)"
proof (cases "m_address e = - 1")
  case True
  have geo: "geometry (put_slot c k d) = geometry c" by simp
  have eq: "dc_num_sets (put_slot c k d) = dc_num_sets c" by (simp add: put_slot_def)
  have full: "\<exists>f. slot_entry (put_slot c k d) j = Some f \<and> m_address f \<noteq> - 1 \<and> m_address f \<noteq> m_address x"
    if "x \<in> set (m_replaced_directory_entry_list c)" "in_set c j (m_address x)" for x j
    using unique_full [OF assms(1) that] assms(2) True by (auto simp: put_slot_entry [OF assms(2)])
  show ?thesis
    using assms(1,3) full True unfolding dc_unique_def geometry_D [OF geo] eq
    by (auto simp: put_slot_entry [OF assms(2)] split: if_splits)
next
  case False
  have loc: "in_set c k (m_address e)" using assms(1,2) False by (simp add: dc_unique_def)
  have slots: "j = k" if "slot_entry c j = Some f" "m_address e = m_address f" for j f
    using assms(1,2) False that by (auto simp: dc_unique_def)
  have repl: "m_address f \<noteq> m_address e" if "f \<in> set (m_replaced_directory_entry_list c)" for f
    using unique_full [OF assms(1) that, of k] assms(2) loc by auto
  show ?thesis
    using False loc slots repl by (intro unique_put [OF assms(1,2)]) (auto simp: assms(3))
qed

lemma unique_replaced:
  assumes "dc_unique c" "distinct (map m_address l)" "m_address ` set l \<subseteq> m_address ` set (m_replaced_directory_entry_list c)"
  shows "dc_unique (c\<lparr>m_replaced_directory_entry_list := l\<rparr>)"
proof -
  have geo: "geometry (c\<lparr>m_replaced_directory_entry_list := l\<rparr>) = geometry c" by (simp add: geometry_def)
  have full: "m_address d \<noteq> - 1 \<and>
        (\<forall>k. in_set c k (m_address d) \<longrightarrow> (\<exists>e. slot_entry c k = Some e \<and> m_address e \<noteq> - 1 \<and> m_address e \<noteq> m_address d))"
    if "d \<in> set l" for d
  proof -
    have "m_address d \<in> m_address ` set (m_replaced_directory_entry_list c)"
      by (rule subsetD [OF assms(3) imageI [OF that]])
    then obtain f where "f \<in> set (m_replaced_directory_entry_list c)" "m_address d = m_address f" by (rule imageE)
    then show ?thesis using assms(1) by (auto simp: dc_unique_def)
  qed
  show ?thesis
    using assms(1,2) full unfolding dc_unique_def geometry_D [OF geo] by auto
qed

lemma unique_store:
  assumes "dc_unique c" "deref c p = Inr e" "m_address d = m_address e"
  shows "dc_unique (store c p d)"
proof (cases p)
  case (Slot k)
  then show ?thesis
    using unique_update [OF assms(1) _ assms(3), of k] assms(2) by (auto simp: store_def deref_def put_slot_def split: option.splits)
next
  case (Replaced i)
  let ?l = "m_replaced_directory_entry_list c"
  have i: "i < length ?l" "?l ! i = e" using assms(2) Replaced by (auto simp: deref_def split: if_splits)
  then have "map m_address (?l[i := d]) = map m_address ?l" by (simp add: map_update assms(3) list_update_same_conv)
  then have "distinct (map m_address (?l[i := d]))" "m_address ` set (?l[i := d]) = m_address ` set ?l"
    using assms(1) by (simp add: dc_unique_def, metis list.set_map)
  then show ?thesis using unique_replaced [OF assms(1), of "?l[i := d]"] by (simp add: store_def Replaced)
qed

lemma unique_invalidate:
  assumes "invalidateDirectoryEntry c a = Inr c'" "dc_unique c"
  shows "dc_unique c'"
proof -
  let ?l = "m_replaced_directory_entry_list c"
  obtain i where c': "c' = c\<lparr>m_replaced_directory_entry_list := take i ?l @ drop (Suc i) ?l\<rparr>"
    using assms(1) by (auto simp: invalidateDirectoryEntry_def Let_def split: option.splits)
  have "distinct (map m_address (take i ?l @ drop (Suc i) ?l))"
    using assms(2) set_take_disj_set_drop_if_distinct [of "map m_address ?l" i "Suc i"]
    by (simp add: dc_unique_def flip: take_map drop_map)
  moreover have "set (take i ?l @ drop (Suc i) ?l) \<subseteq> set ?l" by (auto dest: in_set_takeD in_set_dropD)
  ultimately show ?thesis unfolding c' using assms(2) by (intro unique_replaced image_mono)
qed

section \<open>Lookup and replacement\<close>

lemma unique_claim:
  assumes "dc_unique c" "slot_entry c k = Some d" "m_address d = - 1" "in_set c k a"
    and absent: "\<And>j. in_set c j a \<Longrightarrow> \<exists>d. slot_entry c j = Some d \<and> m_address d \<noteq> a"
  shows "dc_unique (put_slot c k (setAddress d a))"
proof (cases "a = - 1")
  case True
  then show ?thesis using unique_update [OF assms(1,2), of "setAddress d a"] assms(3) by simp
next
  case False
  have "in_set c j a" if "slot_entry c j = Some x" "a = m_address x" for j x
    using assms(1) that False by (auto simp: dc_unique_def)
  then have "j = k" if "slot_entry c j = Some x" "a = m_address x" for j x
    using absent [of j] that by auto
  moreover have "m_address x \<noteq> a" if "x \<in> set (m_replaced_directory_entry_list c)" for x
    using unique_full [OF assms(1) that, of k] assms(2-4) by auto
  ultimately show ?thesis using assms(4) False by (intro unique_put [OF assms(1,2)]) auto
qed

definition crowded :: "dram_directory_cache \<Rightarrow> IntPtr \<Rightarrow> bool" where
  "crowded c a \<longleftrightarrow> (\<forall>k. in_set c k a \<longrightarrow> (\<exists>d. slot_entry c k = Some d \<and> m_address d \<noteq> - 1 \<and> m_address d \<noteq> a)) \<and>
     (\<forall>d \<in> set (m_replaced_directory_entry_list c). m_address d \<noteq> a)"

lemma unique_lookup:
  assumes "dc_getDirectoryEntry c a m t = Inr (e, c', t')" "dc_unique c"
  shows "dc_unique c' \<and> geometry c' = geometry c \<and>
    (e = None \<longrightarrow> crowded c' a)"
proof -
  let ?si = "snd (dc_splitAddress c a)"
  have wf: "dc_wf c" using assms(2) by (simp add: dc_unique_def)
  obtain hit c1 where h: "find_way c ?si (\<lambda>d. m_address d = a) (all_ways c) = Inr (hit, c1)"
    using assms(1) by (auto simp: dc_getDirectoryEntry_def Let_def split_beta)
  note f1 = find_way_spec [OF h wf]
  have u1: "dc_unique c1" using unique_fills [OF assms(2)] f1 by blast
  have g1: "geometry c1 = geometry c" using f1 fills_geometry by blast
  show ?thesis
  proof (cases hit)
    case (Some k)
    then have "c' = c1" "e = Some (Slot k)"
      using assms(1) h by (auto simp: dc_getDirectoryEntry_def Let_def split_beta split: if_splits option.splits)
    then show ?thesis using u1 g1 by simp
  next
    case None
    obtain free c2 where f: "find_way c1 ?si (\<lambda>d. m_address d = - 1) (all_ways c1) = Inr (free, c2)"
      using assms(1) h None by (auto simp: dc_getDirectoryEntry_def Let_def split_beta)
    have wf1: "dc_wf c1" using u1 by (simp add: dc_unique_def)
    note f2 = find_way_spec [OF f wf1]
    have u2: "dc_unique c2" using unique_fills [OF u1] f2 by blast
    have g2: "geometry c2 = geometry c" using f2 fills_geometry g1 by metis
    have absent: "\<exists>d. slot_entry c2 k = Some d \<and> m_address d \<noteq> a" if k: "in_set c2 k a" for k
    proof -
      obtain d where "slot_entry c1 k = Some d" "m_address d \<noteq> a"
        using k f1 unfolding None by (auto simp: geometry_D [OF g2] in_set_def Ball_def)
      then show ?thesis using fills_keeps f2 by blast
    qed
    show ?thesis
    proof (cases free)
      case (Some k)
      then obtain d where d: "slot_entry c2 k = Some d" "m_address d = - 1" and k: "in_set c2 k a"
        using f2 by (auto simp: geometry_D [OF g1] geometry_D [OF g2] in_set_def) blast
      have e: "e = Some (Slot k)" and c': "c' = put_slot c2 k (setAddress d a)"
        using assms(1) h f None Some d(1) by (auto simp: dc_getDirectoryEntry_def Let_def split_beta put_slot_def)
      have "dc_unique (put_slot c2 k (setAddress d a))" by (rule unique_claim [OF u2 d k absent])
      then show ?thesis using e c' g2 by simp
    next
      case no_free: None
      have c': "c' = c2"
        using assms(1) h f None no_free by (auto simp: dc_getDirectoryEntry_def Let_def split_beta split: option.splits)
      have full: "\<exists>d. slot_entry c2 k = Some d \<and> m_address d \<noteq> - 1 \<and> m_address d \<noteq> a" if "in_set c2 k a" for k
        using absent [OF that] that f2 unfolding no_free
        by (auto simp: geometry_D [OF g1] geometry_D [OF g2] in_set_def) force
      have "m_address d \<noteq> a" if "e = None" "d \<in> set (m_replaced_directory_entry_list c2)" for d
        using assms(1) h f None no_free that
        by (auto simp: dc_getDirectoryEntry_def Let_def split_beta find_None_iff in_set_conv_nth split: option.splits)
      then show ?thesis using u2 g2 full c' by (auto simp: crowded_def)
    qed
  qed
qed

lemma unique_candidates:
  assumes "getReplacementCandidates c a t = Inr (ps, c')" "dc_unique c"
  shows "dc_unique c' \<and> crowded c' a \<and> (\<forall>p \<in> set ps. \<exists>k. p = Slot k \<and> in_set c' k a)"
proof -
  obtain c0 t0 where g: "dc_getDirectoryEntry c a False t = Inr (None, c0, t0)"
    using assms(1) by (auto simp: getReplacementCandidates_def split: if_splits)
  let ?si = "snd (dc_splitAddress c0 a)"
  obtain c1 l where k: "candidates c0 ?si (m_replacement_ptrs c0 ! unat ?si) (all_ways c0) = Inr (ps, c1)"
    and c': "c' = c1\<lparr>m_replacement_ptrs := l\<rparr>"
    using assms(1) g by (auto simp: getReplacementCandidates_def Let_def split_beta)
  have u0: "dc_unique c0" and cr: "crowded c0 a" using unique_lookup [OF g assms(2)] by auto
  have "dc_wf c0" and A: "0 < unat (dc_associativity c0)" using u0 by (auto simp: dc_unique_def word_less_nat_alt)
  note ks = candidates_spec [OF k this(1)]
  have f: "fills c0 c'" using ks by (simp add: c' fills_def geometry_def)
  have geo: "geometry c' = geometry c0" using fills_geometry f by blast
  have rep: "m_replaced_directory_entry_list c' = m_replaced_directory_entry_list c0" using f by (simp add: fills_def)
  have "crowded c' a" using cr fills_keeps [OF f] unfolding crowded_def geometry_D [OF geo] rep by blast
  moreover have "\<exists>k. p = Slot k \<and> in_set c' k a" if p: "p \<in> set ps" for p
  proof -
    obtain w where w: "p = Slot (entry_num c0 ?si (w mod dc_associativity c0))" using ks p by blast
    have "unat (w mod dc_associativity c0) < unat (dc_associativity c0)" using A by (simp add: unat_mod)
    then have "in_set c0 (entry_num c0 ?si (w mod dc_associativity c0)) a"
      unfolding in_set_def by (intro exI [of _ "unat (w mod dc_associativity c0)"]) simp
    then show ?thesis using w by (simp add: geometry_D [OF geo])
  qed
  ultimately show ?thesis using unique_fills [OF u0 f] by blast
qed

lemma unique_cong:
  assumes "geometry c' = geometry c" "\<And>k. slot_entry c' k = slot_entry c k"
    and "m_replaced_directory_entry_list c' = m_replaced_directory_entry_list c"
  shows "dc_unique c' = dc_unique c"
proof -
  have "dc_num_sets c' = dc_num_sets c" using assms(1) by (simp add: geometry_def)
  then show ?thesis by (simp only: dc_unique_def geometry_D [OF assms(1)] assms(2,3))
qed

lemma unique_push:
  assumes "dc_unique c" "m_address d \<noteq> - 1"
    and full: "\<And>k. in_set c k (m_address d) \<Longrightarrow> \<exists>e. slot_entry c k = Some e \<and> m_address e \<noteq> - 1 \<and> m_address e \<noteq> m_address d"
    and "m_address d \<notin> m_address ` set (m_replaced_directory_entry_list c)"
  shows "dc_unique (c\<lparr>m_replaced_directory_entry_list := m_replaced_directory_entry_list c @ [d]\<rparr>)"
proof -
  have geo: "geometry (c\<lparr>m_replaced_directory_entry_list := l\<rparr>) = geometry c" for l by (simp add: geometry_def)
  show ?thesis
    using assms(1,2,4) full unfolding dc_unique_def geometry_D [OF geo] by simp
qed

lemma crowded_D: "crowded c a \<Longrightarrow> in_set c k a \<Longrightarrow> \<exists>d. slot_entry c k = Some d \<and> m_address d \<noteq> - 1 \<and> m_address d \<noteq> a"
  by (simp add: crowded_def)

lemma unique_swap:
  assumes "dc_unique c" "crowded c a" "a \<noteq> - 1" "in_set c k a" "slot_entry c k = Some d" "m_address e = a"
  shows "dc_unique ((put_slot c k e)\<lparr>m_replaced_directory_entry_list := m_replaced_directory_entry_list c @ [d]\<rparr>)"
proof -
  have ra: "m_address d \<noteq> - 1" "m_address d \<noteq> a" using crowded_D [OF assms(2,4)] assms(5) by auto
  have loc: "in_set c k (m_address d)" using assms(1,5) ra by (simp add: dc_unique_def)
  have "in_set c j a" if "slot_entry c j = Some x" "a = m_address x" for j x
    using assms(1,3) that by (auto simp: dc_unique_def)
  then have "j = k" if "slot_entry c j = Some x" "a = m_address x" for j x
    using crowded_D [OF assms(2), of j] that by auto
  then have up: "dc_unique (put_slot c k e)"
    using assms(2-4,6) by (intro unique_put [OF assms(1,5)]) (auto simp: crowded_def)
  have full: "\<exists>x. slot_entry (put_slot c k e) j = Some x \<and> m_address x \<noteq> - 1 \<and> m_address x \<noteq> m_address d"
    if "in_set c j (m_address d)" for j
  proof -
    have "in_set c j a" using same_set [OF assms(1) loc assms(4)] that by simp
    then obtain x where x: "slot_entry c j = Some x" "m_address x \<noteq> - 1" using crowded_D [OF assms(2)] by blast
    have "m_address x \<noteq> m_address d" if "j \<noteq> k" using assms(1,5) x ra(1) that unfolding dc_unique_def by metis
    then show ?thesis using x ra assms(3,6) by (auto simp: put_slot_entry [OF assms(5)])
  qed
  have "m_address d \<noteq> m_address x" if "x \<in> set (m_replaced_directory_entry_list c)" for x
    using unique_full [OF assms(1) that, of k] loc assms(5) by auto
  then show ?thesis
    using unique_push [OF up ra(1)] full by (auto simp: geometry_D [OF put_slot_simps(1)])
qed

lemma unique_replace:
  assumes "replaceDirectoryEntry c (m_address d) a m t = Inr (p, c', t')" "dc_unique c" "crowded c a" "a \<noteq> - 1"
    and "in_set c k a" "slot_entry c k = Some d"
  shows "dc_unique c'"
proof -
  let ?ra = "m_address d"
  have wf: "dc_wf c" using assms(2) by (simp add: dc_unique_def)
  have ra: "?ra \<noteq> - 1" "?ra \<noteq> a" using assms(3,5,6) by (auto simp: crowded_def)
  have loc: "in_set c k ?ra" using assms(2,6) ra by (simp add: dc_unique_def)
  obtain j c1 where h: "find_way c (snd (dc_splitAddress c ?ra)) (\<lambda>d. m_address d = ?ra) (all_ways c) = Inr (Some j, c1)"
    using assms(1) by (auto simp: replaceDirectoryEntry_def Let_def split_beta split: option.splits)
  note f = find_way_spec [OF h wf]
  have u1: "dc_unique c1" using unique_fills [OF assms(2)] f by blast
  have fl: "fills c c1" using f by blast
  note geo = fills_geometry [OF fl]
  have kd: "slot_entry c1 k = Some d" by (rule fills_keeps [OF fl assms(6)])
  then have jk: "j = k" using f u1 ra by (auto simp: dc_unique_def)
  have rep: "m_replaced_directory_entry_list c1 = m_replaced_directory_entry_list c" using fl by (simp add: fills_def)
  have cr: "crowded c1 a" using assms(3) fills_keeps [OF fl] unfolding crowded_def geometry_D [OF geo] rep by blast
  obtain e D where n: "createDirectoryEntry (m_directory c1) = (e, D)" by fastforce
  let ?new = "setAddress e a" and ?l = "m_replaced_directory_entry_list c1"
  have D: "m_directory_entry_list D = m_directory_entry_list (m_directory c1)" "m_num_entries D = m_num_entries (m_directory c1)"
    using n by (auto simp: createDirectoryEntry_def Let_def split: DirectoryType.splits)
  have c': "c' = c1\<lparr>m_replaced_directory_entry_list := ?l @ [d], m_directory := setDirectoryEntry D k ?new\<rparr>"
    using assms(1) h n kd by (auto simp: replaceDirectoryEntry_def Let_def split_beta deref_def jk)
  have in1: "in_set c1 k a" using assms(5) by (simp add: geometry_D [OF geo])
  have "dc_unique ((put_slot c1 k ?new)\<lparr>m_replaced_directory_entry_list := ?l @ [d]\<rparr>)"
    by (rule unique_swap [OF u1 cr assms(4) in1 kd]) simp
  then show ?thesis
    unfolding c' using D
    by (subst (asm) unique_cong [symmetric]) (auto simp: put_slot_def geometry_def slot_entry_def setDirectoryEntry_def)
qed

lemma unique_constructed:
  assumes "Directory ty (unat num) hw mx pen u = Inr D" "DramDirectoryCache D num assoc bs at r = Inr c"
  shows "dc_unique c \<and> all_entries P c"
proof -
  have D: "m_directory_entry_list D = replicate (unat num) None" "m_num_entries D = unat num"
    using assms(1) by (auto simp: Directory_def split: if_splits option.splits)
  have c: "m_directory c = D" "dc_associativity c = assoc" "dc_num_sets c = num div assoc" "assoc \<noteq> 0" "num div assoc \<noteq> 0"
    "m_replaced_directory_entry_list c = []"
    using assms(2) by (auto simp: DramDirectoryCache_def Let_def split: if_splits)
  have "unat (num div assoc) * unat assoc \<le> unat num" by (simp add: unat_div)
  then have lt: "unat (num div assoc) * unat assoc < 2 ^ 32" using unsigned_less [of num, where ?'a = nat] by simp
  have none: "slot_entry c k \<noteq> Some d" for k d by (simp add: slot_entry_def c D)
  show ?thesis
    unfolding dc_unique_def all_entries_def using none lt c D by (simp add: dc_wf_def word_gt_0)
qed

end
