(* ===== verification/Dram_Directory_Invariants.thy ===== *)
theory Dram_Directory_Invariants
  imports Dram_Directory_Cntlr Directory_Uniqueness
begin

text \<open>
  What every handler of the directory controller preserves. The locale \<open>cntlr_invariant\<close> is the
  contract an invariant has with the primitive steps the handlers are made of: looking up, updating,
  replacing and dropping a directory entry, sending, and moving requests through the queues. Inside it
  the handlers are shown once to keep any such invariant; the interpretations at the end give it for
  the coherence of the entries, for the queues and for the uniqueness of an address.
\<close>

section \<open>The contract\<close>

definition keeps :: "(cntlr \<Rightarrow> bool) \<Rightarrow> next_fn \<Rightarrow> bool" where
  "keeps I next \<longleftrightarrow> (\<forall>a c c'. I c \<longrightarrow> next a c = Inr c' \<longrightarrow> I c')"

lemma keepsD: "keeps I next \<Longrightarrow> next a c = Inr c' \<Longrightarrow> I c \<Longrightarrow> I c'"
  by (auto simp: keeps_def)

definition live :: "shmem_req \<Rightarrow> bool" where
  "live r \<longleftrightarrow> msg_address (m_shmem_msg r) \<noteq> INVALID_ADDRESS"

lemma takeOwnership_ok:
  assumes "takeOwnership st rq n d = Inr d'" "entry_ok d" "m_dstate d = D_UNCACHED" "st \<in> {D_SHARED, D_EXCLUSIVE, D_MODIFIED}"
  shows "entry_ok d' \<and> m_address d' = m_address d"
proof -
  obtain d1 d2 where a: "addSharer d rq n = Inr (True, d1)" and o: "setOwner d1 rq = Inr d2" and d': "d' = setDState d2 st"
    using assms(1) by (auto simp: takeOwnership_def split: if_splits)
  have "sharer_set d = {}" using assms(2,3) by (simp add: entry_ok_def)
  then have "sharer_set d1 = {nat rq}" "0 \<le> rq" using addSharer_Inr [OF a] by auto
  then show ?thesis using setOwner_Inr [OF o] addSharer_Inr [OF a] assms(4) by (auto simp: d' entry_ok_def split: dstate_t.splits)
qed

lemma uncached_ok: "getNumSharers d = 0 \<Longrightarrow> entry_ok (setDState d D_UNCACHED)"
  by (simp add: entry_ok_def getNumSharers_card)

locale cntlr_invariant =
  fixes I :: "cntlr \<Rightarrow> bool"
  assumes I_read: "I c \<Longrightarrow> readEntry p c = Inr d \<Longrightarrow> entry_ok d"
    and I_front: "I c \<Longrightarrow> rq_front a (m_req_queue c) = Inr r \<Longrightarrow> live r"
    and I_getEntry: "getEntry a m c = Inr (e, c') \<Longrightarrow> I c \<Longrightarrow> I c'"
    and I_updEntry: "updEntry p f c = Inr c' \<Longrightarrow> I c \<Longrightarrow>
      (\<And>d d'. readEntry p c = Inr d \<Longrightarrow> entry_ok d \<Longrightarrow> f d = Inr d' \<Longrightarrow> entry_ok d' \<and> m_address d' = m_address d) \<Longrightarrow> I c'"
    and I_replace: "I c \<Longrightarrow> getReplacementCandidates (m_dram_directory_cache c) a t = Inr (ps, dc) \<Longrightarrow> a \<noteq> - 1 \<Longrightarrow>
      pick_candidate (c\<lparr>m_dram_directory_cache := dc\<rparr>) None ps = Inr (Some d) \<Longrightarrow>
      replaceDirectoryEntry dc (m_address d) a True t' = Inr (p, dc', t'') \<Longrightarrow>
      m_address d \<noteq> - 1 \<and> I (c\<lparr>m_dram_directory_cache := dc'\<rparr>)"
    and I_invalidate: "invalidateDirectoryEntry (m_dram_directory_cache c) a = Inr dc \<Longrightarrow> I c \<Longrightarrow>
      I (c\<lparr>m_dram_directory_cache := dc\<rparr>)"
    and I_enqueue: "I c \<Longrightarrow> live r \<Longrightarrow> I (c\<lparr>m_req_queue := enqueue (msg_address (m_shmem_msg r)) r (m_req_queue c)\<rparr>)"
    and I_dequeue: "dequeue a (m_req_queue c) = Inr (r, q) \<Longrightarrow> I c \<Longrightarrow> I (c\<lparr>m_req_queue := q\<rparr>)"
    and I_updFront: "I c \<Longrightarrow>
      (\<And>r. rq_front a (m_req_queue c) = Inr r \<Longrightarrow> msg_address (m_shmem_msg (g r)) = msg_address (m_shmem_msg r)) \<Longrightarrow>
      I (updFront a g c)"
    and I_nuca: "I c \<Longrightarrow> m_nuca_cache c = Some n \<Longrightarrow> I (c\<lparr>m_nuca_cache := Some n'\<rparr>)"
    and I_sent: "I (c\<lparr>m_sent := s\<rparr>) = I c"
    and I_elapsed: "I (c\<lparr>m_elapsed := t\<rparr>) = I c"
    and I_counters: "I (c\<lparr>evict := ev\<rparr>) = I c" "I (c\<lparr>forward := fw\<rparr>) = I c" "I (c\<lparr>forward_failed := fw\<rparr>) = I c"
begin

lemmas I_frame [simp] = I_sent I_elapsed I_counters

lemma I_sendMsg [simp]: "I (sendMsg t rc r v a d w c) = I c"
  by (simp add: sendMsg_def)

lemma I_broadcastMsg [simp]: "I (broadcastMsg t rc r a c) = I c"
  by (simp add: broadcastMsg_def)

lemma I_sendInvalidations [simp]: "I (sendInvalidations r a sl c) = I c"
proof -
  have "I (foldl (\<lambda>c sharer. sendMsg INV_REQ L2_CACHE r sharer a None UNKNOWN c) c xs) = I c" for xs
    by (induction xs arbitrary: c) auto
  then show ?thesis by (simp add: sendInvalidations_def)
qed

lemma I_sendUpgradeInvalidations [simp]: "I (sendUpgradeInvalidations r a h sl c) = I c"
proof -
  have "I (foldl (\<lambda>c i. if sl ! i \<noteq> r
                  then sendMsg (if \<not> h \<and> i = 0 then FLUSH_REQ else INV_REQ) L2_CACHE r (sl ! i) a None UNKNOWN c
                  else c) c xs) = I c" for xs
    by (induction xs arbitrary: c) auto
  then show ?thesis unfolding sendUpgradeInvalidations_def .
qed

lemma sendDataToNUCA_keeps: "sendDataToNUCA a d n c = Inr c' \<Longrightarrow> I c \<Longrightarrow> I c'"
  by (auto simp: sendDataToNUCA_def Let_def I_nuca split: option.splits bool.splits)

lemma sendDataToDram_keeps: "sendDataToDram a r d c = Inr c' \<Longrightarrow> I c \<Longrightarrow> I c'"
  by (auto simp: sendDataToDram_def split: option.splits dest: sendDataToNUCA_keeps)

lemma processNullifyReq_keeps:
  assumes "processNullifyReq next r c = Inr c'" "I c" "keeps I next"
  shows "I c'"
proof -
  obtain p c1 d where g: "getEntry (msg_address (m_shmem_msg r)) False c = Inr (Some p, c1)" and d: "readEntry p c1 = Inr d"
    using assms(1) by (auto simp: processNullifyReq_def Let_def split: option.splits)
  show ?thesis
    using assms(1) I_getEntry [OF g assms(2)] I_invalidate keepsD [OF assms(3)]
    by (auto simp: processNullifyReq_def Let_def g d split: dstate_t.splits)
qed

lemma allocation_keeps:
  assumes "processDirectoryEntryAllocationReq next r c = Inr (p, c')" "I c" "keeps I next" "live r"
  shows "I c'"
proof -
  let ?a = "msg_address (m_shmem_msg r)"
  obtain cands dc d where k: "getReplacementCandidates (m_dram_directory_cache c) ?a (m_elapsed c) = Inr (cands, dc)"
    and d: "pick_candidate (c\<lparr>m_dram_directory_cache := dc\<rparr>) None cands = Inr (Some d)"
    using assms(1) by (auto simp: processDirectoryEntryAllocationReq_def Let_def split: option.splits)
  obtain q dc' t where rp: "replaceDirectoryEntry dc (m_address d) ?a True (m_elapsed c) = Inr (q, dc', t)"
    using assms(1) k d by (auto simp: processDirectoryEntryAllocationReq_def Let_def)
  let ?ev = "(evict c)(m_dstate d := evict c (m_dstate d) + 1)"
  let ?c3 = "c\<lparr>evict := ?ev, m_dram_directory_cache := dc', m_elapsed := t\<rparr>"
  have *: "m_address d \<noteq> - 1 \<and> I (c\<lparr>m_dram_directory_cache := dc'\<rparr>)"
    using I_replace [OF assms(2) k _ d rp] assms(4) by (simp add: live_def)
  have "?c3 = c\<lparr>m_dram_directory_cache := dc'\<rparr>\<lparr>evict := ?ev\<rparr>\<lparr>m_elapsed := t\<rparr>" by simp
  then have c3: "I ?c3" using * by (simp only: I_elapsed I_counters simp_thms)
  let ?nr = "\<lparr>m_shmem_msg = \<lparr>m_msg_type = NULLIFY_REQ, m_sender_mem_component = TAG_DIR,
      m_receiver_mem_component = TAG_DIR, m_requester = m_requester (m_shmem_msg r), msg_address = m_address d,
      m_data_buf = None, m_where = UNKNOWN\<rparr>, m_time = m_elapsed c, m_wait_for_data = False,
      m_forwarding_from = INVALID_CORE_ID\<rparr>"
  have "processNullifyReq next ?nr (?c3\<lparr>m_req_queue := enqueue (m_address d) ?nr (m_req_queue c)\<rparr>) = Inr c'"
    using assms(1) k d rp
    by (auto simp: processDirectoryEntryAllocationReq_def Let_def ShmemReq_def split: if_splits)
  then show ?thesis
    using processNullifyReq_keeps [OF _ _ assms(3)] I_enqueue [OF c3, of ?nr] * by (simp add: live_def)
qed

lemma entryFor_keeps:
  assumes "entryFor next r c = Inr (p, c')" "I c" "keeps I next" "live r"
  shows "I c'"
proof -
  obtain e c1 where g: "getEntry (msg_address (m_shmem_msg r)) False c = Inr (e, c1)"
    using assms(1) by (auto simp: entryFor_def)
  show ?thesis
    using assms(1) g I_getEntry [OF g assms(2)] allocation_keeps [OF _ _ assms(3,4)]
    by (auto simp: entryFor_def split: option.splits)
qed

lemma retrieve_keeps:
  assumes "retrieveDataAndSendToL2Cache next ty rc a data c = Inr c'" "I c" "keeps I next"
  shows "I c'"
proof -
  obtain p c1 where g: "getEntry a False c = Inr (Some p, c1)"
    using assms(1) by (auto simp: retrieveDataAndSendToL2Cache_def split: option.splits)
  note c1 = I_getEntry [OF g assms(2)]
  have fwd: "I c2" if "updEntry p (\<lambda>d. Inr (setForwarder d rc)) c1 = Inr c2" for c2
    by (rule I_updEntry [OF that c1]) auto
  have nuca: "I (c1\<lparr>m_nuca_cache := Some n', m_elapsed := t\<rparr>)" if "m_nuca_cache c1 = Some n" for n n' t
    using I_elapsed [of t "c1\<lparr>m_nuca_cache := Some n'\<rparr>"] I_nuca [OF c1 that] by simp
  show ?thesis
    using assms(1) c1 fwd nuca keepsD [OF assms(3)]
    by (auto simp: retrieveDataAndSendToL2Cache_def g Let_def I_updFront split: if_splits option.splits)
qed

lemma processExReq_keeps:
  assumes "processExReqFromL2Cache next r data c = Inr c'" "I c" "keeps I next" "live r"
  shows "I c'"
proof -
  let ?a = "msg_address (m_shmem_msg r)" and ?q = "m_requester (m_shmem_msg r)"
  obtain p c1 d where g: "entryFor next r c = Inr (p, c1)" and d: "readEntry p c1 = Inr d"
    using assms(1) by (auto simp: processExReqFromL2Cache_def Let_def)
  note c1 = entryFor_keeps [OF g assms(2-4)]
  have own: "I c2" if "updEntry p (takeOwnership D_MODIFIED ?q n) c1 = Inr c2" "m_dstate d = D_UNCACHED" for c2 n
    using that(2) d takeOwnership_ok by (intro I_updEntry [OF that(1) c1]) auto
  show ?thesis
    using assms(1) c1 own retrieve_keeps [OF _ _ assms(3)]
    by (auto simp: processExReqFromL2Cache_def Let_def g d split: if_splits)
qed

lemma processShReq_keeps:
  assumes "processShReqFromL2Cache next r data c = Inr c'" "I c" "keeps I next" "live r"
  shows "I c'"
proof -
  let ?a = "msg_address (m_shmem_msg r)" and ?q = "m_requester (m_shmem_msg r)"
  obtain p c1 d where g: "entryFor next r c = Inr (p, c1)" and d: "readEntry p c1 = Inr d"
    using assms(1) by (auto simp: processShReqFromL2Cache_def Let_def)
  note c1 = entryFor_keeps [OF g assms(2-4)]
  note dok = I_read [OF c1 d]
  have own: "I c2"
    if "updEntry p (takeOwnership st ?q n) c1 = Inr c2" "m_dstate d = D_UNCACHED" "st \<in> {D_SHARED, D_EXCLUSIVE}" for c2 n st
    using that(2,3) d takeOwnership_ok by (intro I_updEntry [OF that(1) c1]) auto
  have add: "entry_ok d1 \<and> m_address d1 = m_address d" if "addSharer d ?q n = Inr (b, d1)" "m_dstate d = D_SHARED" for b d1 n
    using addSharer_Inr [OF that(1)] that(2) dok by (auto simp: entry_ok_def split: if_splits)
  have one: "entry_ok d2 \<and> m_address d2 = m_address d1" if "getOneSharer d1 = Inr (s, d2)" "entry_ok d1" for s d1 d2
    using getOneSharer_Inr [OF that(1)] that(2) by (auto simp: entry_ok_def split: dstate_t.splits)
  have put: "I c2" if "updEntry p (\<lambda>_. Inr e) c1 = Inr c2" "entry_ok e" "m_address e = m_address d" for e c2
    using that(2,3) d by (intro I_updEntry [OF that(1) c1]) auto
  show ?thesis
    using assms(1) c1 own add one put retrieve_keeps [OF _ _ assms(3)]
    by (auto simp: processShReqFromL2Cache_def Let_def g d split: if_splits; blast)
qed

lemma processUpgradeReq_keeps:
  assumes "processUpgradeReqFromL2Cache next r data c = Inr c'" "I c" "keeps I next" "live r"
  shows "I c'"
proof -
  let ?a = "msg_address (m_shmem_msg r)" and ?q = "m_requester (m_shmem_msg r)"
  obtain p c1 d where g: "entryFor next r c = Inr (p, c1)" and d: "readEntry p c1 = Inr d"
    using assms(1) by (auto simp: processUpgradeReqFromL2Cache_def Let_def)
  note c1 = entryFor_keeps [OF g assms(2-4)]
  note dok = I_read [OF c1 d]
  have own: "I c2" if "updEntry p (takeOwnership D_MODIFIED ?q n) c1 = Inr c2" "m_dstate d = D_UNCACHED" for c2 n
    using that(2) d takeOwnership_ok by (intro I_updEntry [OF that(1) c1]) auto
  have upg: "I c2" if "updEntry p (\<lambda>d. Inr (setDState d D_MODIFIED)) (sendMsg t rc q v a dt w c1) = Inr c2"
    "m_dstate d \<in> {D_EXCLUSIVE, D_MODIFIED}" for c2 t rc q v a dt w
    using that(2) d c1
    by (intro I_updEntry [OF that(1)]) (auto simp: entry_ok_def readEntry_def sendMsg_def split: dstate_t.splits)
  have single: "I c2"
    if "updEntry p (\<lambda>d. bindE (setOwner d ?q) (\<lambda>d. Inr (setDState d D_MODIFIED))) c1 = Inr c2" "snd (getSharersList d) = [?q]" for c2
  proof (rule I_updEntry [OF that(1) c1])
    fix e e'
    assume "readEntry p c1 = Inr e" and u: "bindE (setOwner e ?q) (\<lambda>d. Inr (setDState d D_MODIFIED)) = Inr e'"
    then have e: "e = d" using d by simp
    have "map int (sorted_list_of_set (sharer_set d)) = [?q]" using that(2) by (simp add: getSharersList_set)
    then have "set (map int (sorted_list_of_set (sharer_set d))) = {?q}" by simp
    then have "int ` sharer_set d = {?q}" by simp
    then have s: "sharer_set d = {nat ?q}" "0 \<le> ?q" by (auto simp: image_iff set_eq_iff) force+
    show "entry_ok e' \<and> m_address e' = m_address e" using u s by (auto simp: e entry_ok_def dest!: setOwner_Inr)
  qed
  show ?thesis
    using assms(1) c1 own upg single retrieve_keeps [OF _ _ assms(3)] keepsD [OF assms(3)]
    by (auto simp: processUpgradeReqFromL2Cache_def Let_def g d split_beta split: if_splits list.splits; blast)
qed


lemma dequeue_keeps:
  assumes "dequeue a (m_req_queue c) = Inr (r, q)" "I c"
  shows "I (c\<lparr>m_req_queue := q\<rparr>)" "I (c\<lparr>m_req_queue := q, m_elapsed := t\<rparr>)" "rq_front a q = Inr x \<Longrightarrow> live x"
  using I_dequeue [OF assms] I_elapsed [of t "c\<lparr>m_req_queue := q\<rparr>"] I_front [of "c\<lparr>m_req_queue := q\<rparr>" a x] by simp_all

lemma processNextReq_keeps: "keeps I (processNextReqFromL2Cache n)"
proof (induction n)
  case (Suc n)
  note step = processExReq_keeps [OF _ _ Suc] processShReq_keeps [OF _ _ Suc] processUpgradeReq_keeps [OF _ _ Suc]
  show ?case
    unfolding keeps_def
  proof (intro allI impI)
    fix a c c'
    assume c: "I c" and n: "processNextReqFromL2Cache (Suc n) a c = Inr c'"
    obtain r q where d: "dequeue a (m_req_queue c) = Inr (r, q)" using n by (auto split: if_splits)
    note k = dequeue_keeps [OF d c]
    show "I c'" using n d k(1,3) step(1) [OF _ k(2)] step(2) [OF _ k(2)] step(3) [OF _ k(2)]
      by (auto simp: Let_def split: if_splits)
  qed
qed (simp add: keeps_def)

lemma nextReq_keeps: "keeps I (nextReq c a)"
  by (simp add: nextReq_def processNextReq_keeps)

lemma touchFront_keeps:
  assumes "touchFront a c = Inr (r, c')" "I c"
  shows "I c'" "live r"
proof -
  obtain x where x: "rq_front a (m_req_queue c) = Inr x" "r = updateTime (m_elapsed c) x"
    using assms(1) by (auto simp: touchFront_def Let_def)
  have "I (updFront a (\<lambda>_. r) c)" using x by (intro I_updFront assms(2)) (simp add: updateTime_def)
  then show "I c'" using assms(1) x by (auto simp: touchFront_def Let_def)
  show "live r" using I_front [OF assms(2) x(1)] by (simp add: x(2) live_def updateTime_def)
qed

lemma processDRAMReply_keeps:
  assumes "processDRAMReply s m c = Inr c'" "I c"
  shows "I c'"
proof -
  obtain p c1 where g: "getEntry (msg_address m) False c = Inr (Some p, c1)"
    using assms(1) by (auto simp: processDRAMReply_def Let_def split: option.splits if_splits)
  obtain c2 c3 where "I c2 = I c1" and n: "sendDataToNUCA (msg_address m) (m_data_buf m) False c2 = Inr c3"
    and "nextReq c3 (msg_address m) (msg_address m) c3 = Inr c'"
    using assms(1) by (auto simp: processDRAMReply_def Let_def g split: if_splits; metis I_sendMsg)
  then show ?thesis
    using I_getEntry [OF g assms(2)] sendDataToNUCA_keeps [OF n] keepsD [OF nextReq_keeps] by blast
qed

lemma processInvRep_keeps:
  assumes "processInvRepFromL2Cache s m c = Inr c'" "I c"
  shows "I c'"
proof -
  let ?a = "msg_address m"
  let ?f = "\<lambda>d. bindE (assertE (m_dstate d = D_SHARED \<or> m_dstate d = D_EXCLUSIVE) (LOG_ASSERT_ERROR ''Ooops'')) (\<lambda>_.
                bindE (removeSharer d s False) (\<lambda>d1.
                  let d2 = (if m_forwarder_id d1 = s then setForwarder d1 INVALID_CORE_ID else d1)
                  in Inr (if getNumSharers d2 = 0 then setDState d2 D_UNCACHED else d2)))"
  obtain p c1 c2 where g: "getEntry ?a False c = Inr (Some p, c1)" and u: "updEntry p ?f c1 = Inr c2"
    using assms(1) unfolding processInvRepFromL2Cache_def Let_def by (auto split: option.splits)
  have c2: "I c2"
  proof (rule I_updEntry [OF u I_getEntry [OF g assms(2)]])
    fix d d'
    assume ok: "entry_ok d" and f: "?f d = Inr d'"
    obtain d1 where r: "removeSharer d s False = Inr d1" and st: "m_dstate d = D_SHARED \<or> m_dstate d = D_EXCLUSIVE"
      and d': "d' = (if getNumSharers (if m_forwarder_id d1 = s then setForwarder d1 INVALID_CORE_ID else d1) = 0
                     then setDState (if m_forwarder_id d1 = s then setForwarder d1 INVALID_CORE_ID else d1) D_UNCACHED
                     else (if m_forwarder_id d1 = s then setForwarder d1 INVALID_CORE_ID else d1))"
      using f by (auto simp: Let_def split: if_splits)
    show "entry_ok d' \<and> m_address d' = m_address d"
      using removeSharer_Inr [OF r] ok st
      by (auto simp: d' getNumSharers_card entry_ok_def split: dstate_t.splits if_splits)
  qed
  have unc: "I c4" if "updEntry p (\<lambda>d. Inr (setDState d D_UNCACHED)) c3 = Inr c4" "I c3" "readEntry p c3 = Inr d"
    "getNumSharers d = 0" for c3 c4 d
    using that(3,4) uncached_ok by (intro I_updEntry [OF that(1,2)]) auto
  show ?thesis
    using assms(1) g u c2 touchFront_keeps unc
      processExReq_keeps [OF _ _ nextReq_keeps] processUpgradeReq_keeps [OF _ _ nextReq_keeps] processShReq_keeps [OF _ _ nextReq_keeps]
      processNullifyReq_keeps [OF _ _ nextReq_keeps]
    unfolding processInvRepFromL2Cache_def Let_def
    by (auto split: if_splits; blast)
qed

lemma processFlushRep_keeps:
  assumes "processFlushRepFromL2Cache s m c = Inr c'" "I c"
  shows "I c'"
proof -
  let ?a = "msg_address m"
  let ?f = "\<lambda>d. bindE (hasSharer d s) (\<lambda>has.
                bindE (assertE has (ASSERT ''hasSharer(sender)'')) (\<lambda>_.
                bindE (removeSharer d s False) (\<lambda>d1.
                bindE (setOwner (setForwarder d1 INVALID_CORE_ID) INVALID_CORE_ID) (\<lambda>d2.
                  if getNumSharers d2 = 0 then Inr (setDState d2 D_UNCACHED)
                  else bindE (assertE (m_dstate d2 = D_SHARED) (ASSERT ''getDState() == SHARED'')) (\<lambda>_. Inr d2)))))"
  obtain p c1 c2 where g: "getEntry ?a False c = Inr (Some p, c1)" and u: "updEntry p ?f c1 = Inr c2"
    using assms(1) unfolding processFlushRepFromL2Cache_def Let_def by (auto split: option.splits)
  have c2: "I c2"
  proof (rule I_updEntry [OF u I_getEntry [OF g assms(2)]])
    fix d d'
    assume ok: "entry_ok d" and f: "?f d = Inr d'"
    obtain d1 d2 where r: "removeSharer d s False = Inr d1"
      and o: "setOwner (setForwarder d1 INVALID_CORE_ID) INVALID_CORE_ID = Inr d2"
      and d': "getNumSharers d2 = 0 \<and> d' = setDState d2 D_UNCACHED \<or>
        getNumSharers d2 \<noteq> 0 \<and> m_dstate d2 = D_SHARED \<and> d' = d2"
      using f by (auto split: if_splits)
    have "m_address d2 = m_address d" using setOwner_Inr [OF o] removeSharer_Inr [OF r] by simp
    then show "entry_ok d' \<and> m_address d' = m_address d" using d' uncached_ok by (auto simp: entry_ok_def getNumSharers_card)
  qed
  have unc: "I c4" if "updEntry p (\<lambda>d. Inr (setDState d D_UNCACHED)) c3 = Inr c4" "I c3" "readEntry p c3 = Inr d"
    "getNumSharers d = 0" for c3 c4 d
    using that(3,4) uncached_ok by (intro I_updEntry [OF that(1,2)]) auto
  have buf: "I (updFront ?a (\<lambda>r. r\<lparr>m_shmem_msg := (m_shmem_msg r)\<lparr>m_data_buf := data\<rparr>\<rparr>) c3)" if "I c3" for c3 data
    by (rule I_updFront [OF that]) simp
  show ?thesis
    using assms(1) g u c2 touchFront_keeps unc buf sendDataToDram_keeps
      processExReq_keeps [OF _ _ nextReq_keeps] processUpgradeReq_keeps [OF _ _ nextReq_keeps] processShReq_keeps [OF _ _ nextReq_keeps]
      processNullifyReq_keeps [OF _ _ nextReq_keeps]
    unfolding processFlushRepFromL2Cache_def Let_def
    by (auto split: if_splits; blast)
qed

lemma processWbRep_keeps:
  assumes "processWbRepFromL2Cache s m c = Inr c'" "I c"
  shows "I c'"
proof -
  let ?f = "\<lambda>d. bindE (hasSharer d s) (\<lambda>has.
                bindE (assertE has (ASSERT ''hasSharer(sender)'')) (\<lambda>_.
                bindE (setOwner d INVALID_CORE_ID) (\<lambda>d1. Inr (setDState d1 D_SHARED))))"
  obtain p c1 c2 where g: "getEntry (msg_address m) False c = Inr (Some p, c1)" and u: "updEntry p ?f c1 = Inr c2"
    using assms(1) unfolding processWbRepFromL2Cache_def Let_def by (auto split: option.splits)
  have c2: "I c2"
    by (rule I_updEntry [OF u I_getEntry [OF g assms(2)]])
      (auto simp: entry_ok_def dest!: hasSharer_Inr setOwner_Inr split: if_splits)
  show ?thesis
    using assms(1) g u c2 touchFront_keeps processShReq_keeps [OF _ _ nextReq_keeps]
    unfolding processWbRepFromL2Cache_def Let_def by (auto split: if_splits; blast)
qed

lemma enqueueReq_keeps:
  assumes "enqueueReq m t c = Inr (r, c')" "I c" "msg_address m \<noteq> - 1"
  shows "I c'" "live r"
proof -
  have r: "msg_address (m_shmem_msg r) = msg_address m"
    and c': "c' = c\<lparr>m_req_queue := enqueue (msg_address m) r (m_req_queue c)\<rparr>"
    using assms(1) by (auto simp: enqueueReq_def ShmemReq_def split: if_splits)
  show l: "live r" using r assms(3) by (simp add: live_def)
  show "I c'" using I_enqueue [OF assms(2) l] by (simp add: r c')
qed

lemma handleMsgFromL2Cache_keeps:
  assumes "handleMsgFromL2Cache s m c = Inr c'" "I c" "msg_address m \<noteq> - 1"
  shows "I c'"
proof -
  obtain e c1 where g: "getEntry (msg_address m) True c = Inr (e, c1)"
    using assms(1) by (auto simp: handleMsgFromL2Cache_def Let_def)
  show ?thesis
    using assms(1) I_getEntry [OF g assms(2)] enqueueReq_keeps [OF _ _ assms(3)]
      processInvRep_keeps [of s m] processFlushRep_keeps [of s m] processWbRep_keeps [of s m]
      processExReq_keeps [OF _ _ nextReq_keeps] processUpgradeReq_keeps [OF _ _ nextReq_keeps] processShReq_keeps [OF _ _ nextReq_keeps]
    by (auto simp: handleMsgFromL2Cache_def Let_def g split: if_splits; blast)
qed

lemma handleMsgFromDRAM_keeps: "handleMsgFromDRAM s m c = Inr c' \<Longrightarrow> I c \<Longrightarrow> I c'"
  by (auto simp: handleMsgFromDRAM_def dest: processDRAMReply_keeps split: if_splits)

end

section \<open>Entries, addresses and queues\<close>

text \<open>Every request is queued under its own address.\<close>

definition queues_ok :: "shmem_req req_queue_list \<Rightarrow> bool" where
  "queues_ok q \<longleftrightarrow> rq_inv q \<and> (\<forall>b. \<forall>r \<in> set (rq_list b q). msg_address (m_shmem_msg r) = b)"

lemma queues_ok_inv: "queues_ok q \<Longrightarrow> rq_inv q"
  by (simp add: queues_ok_def)

lemma queues_ok_enqueue: "queues_ok q \<Longrightarrow> msg_address (m_shmem_msg r) = a \<Longrightarrow> queues_ok (enqueue a r q)"
  by (auto simp: queues_ok_def rq_inv_enqueue)

lemma queues_ok_remove: "queues_ok q \<Longrightarrow> queues_ok (q(a := None))"
  by (auto simp: queues_ok_def rq_inv_def rq_list_def)

lemma queues_ok_dequeue: "queues_ok q \<Longrightarrow> dequeue a q = Inr (r, q') \<Longrightarrow> queues_ok q'"
  by (auto simp: queues_ok_def dequeue_def rq_inv_def rq_list_def split: option.splits list.splits if_splits; metis)

definition queues_live :: "shmem_req req_queue_list \<Rightarrow> bool" where
  "queues_live q \<longleftrightarrow> queues_ok q \<and> (\<forall>b. rq_list b q \<noteq> [] \<longrightarrow> b \<noteq> - 1)"

lemma queues_front: "queues_live q \<Longrightarrow> rq_front a q = Inr r \<Longrightarrow> msg_address (m_shmem_msg r) = a \<and> a \<noteq> - 1"
  using rq_front_Inr [of a q r] unfolding queues_live_def queues_ok_def
  by (metis list.distinct(1) list.set_intros(1))

lemma queues_live_enqueue: "queues_live q \<Longrightarrow> live r \<Longrightarrow> queues_live (enqueue (msg_address (m_shmem_msg r)) r q)"
  by (auto simp: queues_live_def live_def queues_ok_enqueue)

lemma dequeue_lists: "dequeue a q = Inr (r, q') \<Longrightarrow> set (rq_list b q') \<subseteq> set (rq_list b q)"
  by (auto simp: dequeue_def rq_list_def split: option.splits list.splits if_splits)

lemma queues_live_dequeue:
  assumes "queues_live q" "dequeue a q = Inr (r, q')"
  shows "queues_live q'"
proof -
  have "rq_list b q \<noteq> []" if "rq_list b q' \<noteq> []" for b using dequeue_lists [OF assms(2), of b] that by auto
  then show ?thesis using assms queues_ok_dequeue [of q a r q'] by (auto simp: queues_live_def)
qed

lemma updFront_fields [simp]:
  "m_dram_directory_cache (updFront a f c) = m_dram_directory_cache c" "m_nuca_cache (updFront a f c) = m_nuca_cache c"
  by (simp_all add: updFront_def split: option.split list.split)

lemma updFront_list:
  "rq_list b (m_req_queue (updFront a f c)) =
     (if b = a then (case rq_list a (m_req_queue c) of [] \<Rightarrow> [] | r # rs \<Rightarrow> f r # rs) else rq_list b (m_req_queue c))"
  by (auto simp: updFront_def rq_list_def split: option.split list.split)

lemma queues_ok_updFront:
  assumes "queues_ok (m_req_queue c)"
    and "\<And>r. rq_front a (m_req_queue c) = Inr r \<Longrightarrow> msg_address (m_shmem_msg (f r)) = msg_address (m_shmem_msg r)"
  shows "queues_ok (m_req_queue (updFront a f c))"
proof (cases "rq_list a (m_req_queue c)")
  case Nil
  then have "updFront a f c = c" by (auto simp: updFront_def rq_list_def split: option.splits list.splits)
  then show ?thesis using assms(1) by simp
next
  case (Cons r rs)
  have "rq_inv (m_req_queue (updFront a f c))"
    using assms(1) by (auto simp: updFront_def queues_ok_def rq_inv_def split: option.split list.split)
  moreover have "msg_address (m_shmem_msg (f r)) = a"
    using assms(2) [OF rq_front_list [OF Cons]] assms(1) Cons by (auto simp: queues_ok_def)
  ultimately show ?thesis
    using assms(1) Cons unfolding queues_ok_def updFront_list by auto
qed

lemma updFront_size [simp]: "rq_size b (m_req_queue (updFront a f c)) = rq_size b (m_req_queue c)"
  by (simp add: rq_size_list updFront_list split: list.split)

lemma queues_live_updFront:
  assumes "queues_live (m_req_queue c)"
    and "\<And>r. rq_front a (m_req_queue c) = Inr r \<Longrightarrow> msg_address (m_shmem_msg (f r)) = msg_address (m_shmem_msg r)"
  shows "queues_live (m_req_queue (updFront a f c))"
  using assms queues_ok_updFront [of c a f]
  by (auto simp: queues_live_def updFront_list split: list.splits) 

definition dir_ok :: "cntlr \<Rightarrow> bool" where
  "dir_ok c \<longleftrightarrow> all_entries entry_ok (m_dram_directory_cache c)"

definition cntlr_inv :: "cntlr \<Rightarrow> bool" where
  "cntlr_inv c \<longleftrightarrow> dir_ok c \<and> dc_unique (m_dram_directory_cache c) \<and> queues_live (m_req_queue c)"

lemma pick_candidate_from:
  "pick_candidate c best ps = Inr (Some d) \<Longrightarrow> best = Some d \<or> (\<exists>p \<in> set ps. readEntry p c = Inr d)"
proof (induction c best ps rule: pick_candidate.induct)
  case (2 c best p ps)
  obtain e where e: "readEntry p c = Inr e" using "2.prems" by auto
  show ?case using "2.IH" [of e] "2.prems" e by (auto split: if_splits)
qed simp

lemma replace_inv:
  assumes "cntlr_inv c" "getReplacementCandidates (m_dram_directory_cache c) a t = Inr (ps, dc)" "a \<noteq> - 1"
    and "pick_candidate (c\<lparr>m_dram_directory_cache := dc\<rparr>) None ps = Inr (Some d)"
    and "replaceDirectoryEntry dc (m_address d) a True t' = Inr (p, dc', t'')"
  shows "m_address d \<noteq> - 1 \<and> cntlr_inv (c\<lparr>m_dram_directory_cache := dc'\<rparr>)"
proof -
  have u: "dc_unique dc" "crowded dc a" and ps: "\<forall>p \<in> set ps. \<exists>k. p = Slot k \<and> in_set dc k a"
    using unique_candidates [OF assms(2)] assms(1) by (auto simp: cntlr_inv_def)
  obtain q where q: "q \<in> set ps" "deref dc q = Inr d" using pick_candidate_from [OF assms(4)] by (auto simp: readEntry_def)
  then obtain k where k: "in_set dc k a" "slot_entry dc k = Some d"
    using ps by (auto simp: deref_def split: option.splits)
  have "m_address d \<noteq> - 1" using crowded_D [OF u(2) k(1)] k(2) by simp
  moreover have "dc_unique dc'" by (rule unique_replace [OF assms(5) u assms(3) k])
  moreover have "all_entries entry_ok dc'"
    using replaceDirectoryEntry_all [OF assms(5), of entry_ok] getReplacementCandidates_all [OF assms(2), of entry_ok] assms(1)
    by (simp add: cntlr_inv_def dir_ok_def)
  ultimately show ?thesis using assms(1) by (simp add: cntlr_inv_def dir_ok_def)
qed

interpretation coherent: cntlr_invariant cntlr_inv
proof
  fix c c' :: cntlr and a m e p f d
  show "cntlr_inv c \<Longrightarrow> readEntry p c = Inr d \<Longrightarrow> entry_ok d"
    by (auto simp: cntlr_inv_def dir_ok_def readEntry_def intro: all_entries_deref)
  show "getEntry a m c = Inr (e, c') \<Longrightarrow> cntlr_inv c \<Longrightarrow> cntlr_inv c'"
    by (auto simp: cntlr_inv_def dir_ok_def getEntry_def dest: unique_lookup intro: dc_getDirectoryEntry_all)
  assume u: "updEntry p f c = Inr c'" and c: "cntlr_inv c"
    and k: "\<And>d d'. readEntry p c = Inr d \<Longrightarrow> entry_ok d \<Longrightarrow> f d = Inr d' \<Longrightarrow> entry_ok d' \<and> m_address d' = m_address d"
  obtain x x' where x: "readEntry p c = Inr x" "f x = Inr x'"
      "c' = c\<lparr>m_dram_directory_cache := store (m_dram_directory_cache c) p x'\<rparr>"
    using u by (auto simp: updEntry_def)
  have "entry_ok x" using c x(1) by (auto simp: cntlr_inv_def dir_ok_def readEntry_def intro: all_entries_deref)
  then show "cntlr_inv c'"
    using c x k [OF x(1)] all_entries_store [of entry_ok _ x' p] unique_store [of _ p x x']
    by (auto simp: cntlr_inv_def dir_ok_def readEntry_def)
next
  fix c :: cntlr and a t ps dc d t' p dc' t''
  assume "cntlr_inv c" "getReplacementCandidates (m_dram_directory_cache c) a t = Inr (ps, dc)" "a \<noteq> - 1"
    "pick_candidate (c\<lparr>m_dram_directory_cache := dc\<rparr>) None ps = Inr (Some d)"
    "replaceDirectoryEntry dc (m_address d) a True t' = Inr (p, dc', t'')"
  then show "m_address d \<noteq> - 1 \<and> cntlr_inv (c\<lparr>m_dram_directory_cache := dc'\<rparr>)" by (rule replace_inv)
qed (auto simp: cntlr_inv_def dir_ok_def live_def queues_front queues_live_enqueue queues_live_updFront
    dest: queues_live_dequeue unique_invalidate invalidateDirectoryEntry_all)

end
