(* ===== verification/Dram_Directory_Progress.thy ===== *)
theory Dram_Directory_Progress
  imports Dram_Directory_Invariants
begin

text \<open>
  Completing a request lets \<^verbatim>\<open>processNextReqFromL2Cache\<close> start the next one of the same address, which
  may complete at once and recurse. Without a NUCA cache the recursion always ends: the only other
  address it touches is that of a replaced entry, whose queue is empty, so each round shortens the
  queue of the address and the bound the handlers pass is never used up.
\<close>

section \<open>Completing the queued requests terminates\<close>

definition nonterm :: "'a result \<Rightarrow> bool" where
  "nonterm r \<longleftrightarrow> (\<exists>s. r = Inl (NONTERMINATION s))"

lemma nonterm_simps [simp]:
  "\<not> nonterm (Inr x)" "\<not> nonterm (Inl (ASSERT s))" "\<not> nonterm (Inl (LOG_ASSERT_ERROR s))"
  "\<not> nonterm (Inl (LOG_PRINT_ERROR s))" "\<not> nonterm (Inl (UNDEFINED s))" "nonterm (Inl (NONTERMINATION s))"
  by (simp_all add: nonterm_def)

lemma nonterm_bindE: "nonterm (bindE m f) \<longleftrightarrow> nonterm m \<or> (\<exists>x. m = Inr x \<and> nonterm (f x))"
  by (cases m) (auto simp: nonterm_def)

lemma nonterm_assertE: "nonterm (assertE b e) \<longleftrightarrow> \<not> b \<and> nonterm (Inl e :: unit result)"
  by (simp add: assertE_def)

lemma term_sharer_bit [simp]: "\<not> nonterm (sharer_bit d c)"
  by (simp add: sharer_bit_def)

lemma term_entry_ops [simp]:
  "\<not> nonterm (incrElapsedTime t e)" "\<not> nonterm (hasSharer d c)"
  "\<not> nonterm (addSharer d c n)" "\<not> nonterm (removeSharer d c b)" "\<not> nonterm (setOwner d c)"
  "\<not> nonterm (getOneSharer d)"
  by (auto simp: nonterm_bindE nonterm_assertE incrElapsedTime_def hasSharer_def addSharer_def removeSharer_def setOwner_def
      getOneSharer_def Random_next_def Let_def split: entry_class.splits option.splits)

lemma term_takeOwnership [simp]: "\<not> nonterm (takeOwnership st c n d)"
  by (auto simp: nonterm_bindE takeOwnership_def)

lemma term_dc_ops [simp]:
  "\<not> nonterm (getDirectoryEntry D k)" "\<not> nonterm (deref dc p)" "\<not> nonterm (invalidateDirectoryEntry dc a)"
  "\<not> nonterm (rq_front a q)" "\<not> nonterm (getHome l a)" "\<not> nonterm (ShmemReq m t)"
  by (auto simp: nonterm_bindE getDirectoryEntry_def deref_def invalidateDirectoryEntry_def rq_front_def getHome_def
      ShmemReq_def Let_def split_beta split: option.splits entry_ptr.splits list.splits)

lemma term_find_way [simp]: "\<not> nonterm (find_way c si P ways)"
  by (induction c si P ways rule: find_way.induct) (auto simp: nonterm_bindE Let_def)

lemma term_candidates [simp]: "\<not> nonterm (candidates c si r ways)"
  by (induction c si r ways rule: candidates.induct) (auto simp: nonterm_bindE Let_def)

lemma term_dc_getDirectoryEntry [simp]: "\<not> nonterm (dc_getDirectoryEntry c a m t)"
  by (auto simp: dc_getDirectoryEntry_def nonterm_bindE Let_def split_beta split: option.splits)

lemma term_cache_ops [simp]:
  "\<not> nonterm (getReplacementCandidates c a t)" "\<not> nonterm (replaceDirectoryEntry c ra a m t)"
  by (auto simp: getReplacementCandidates_def replaceDirectoryEntry_def nonterm_bindE Let_def split_beta split: option.splits)

lemma term_readEntry [simp]: "\<not> nonterm (readEntry p c)"
  by (simp add: readEntry_def)

lemma term_getEntry [simp]: "\<not> nonterm (getEntry a m c)"
  by (auto simp: nonterm_bindE getEntry_def)

lemma term_pick_candidate [simp]: "\<not> nonterm (pick_candidate c b ps)"
  by (induction c b ps rule: pick_candidate.induct) (auto simp: nonterm_bindE)

lemma term_updEntry: "(\<And>d. \<not> nonterm (f d)) \<Longrightarrow> \<not> nonterm (updEntry p f c)"
  by (auto simp: updEntry_def nonterm_bindE)

definition same_queues :: "cntlr \<Rightarrow> cntlr \<Rightarrow> bool" where
  "same_queues c c' \<longleftrightarrow> m_req_queue c' = m_req_queue c \<and> m_nuca_cache c' = m_nuca_cache c"

lemma same_queues_refl [simp]: "same_queues c c"
  by (simp add: same_queues_def)

lemma same_queues_trans: "same_queues a b \<Longrightarrow> same_queues b c \<Longrightarrow> same_queues a c"
  by (simp add: same_queues_def)

lemma send_fields [simp]:
  "m_req_queue (sendMsg t rc r v a d w c) = m_req_queue c" "m_nuca_cache (sendMsg t rc r v a d w c) = m_nuca_cache c"
  "m_req_queue (broadcastMsg t rc r a c) = m_req_queue c" "m_nuca_cache (broadcastMsg t rc r a c) = m_nuca_cache c"
  by (simp_all add: sendMsg_def broadcastMsg_def)

lemma foldl_field: "(\<And>c x. f (g c x) = f c) \<Longrightarrow> f (foldl g c xs) = f c"
  by (induction xs arbitrary: c) auto

lemma sendInvalidations_fields [simp]:
  "m_req_queue (sendInvalidations r a sl c) = m_req_queue c" "m_nuca_cache (sendInvalidations r a sl c) = m_nuca_cache c"
  by (simp_all add: sendInvalidations_def foldl_field)

lemma sendUpgradeInvalidations_fields [simp]:
  "m_req_queue (sendUpgradeInvalidations r a h sl c) = m_req_queue c"
  "m_nuca_cache (sendUpgradeInvalidations r a h sl c) = m_nuca_cache c"
  by (simp_all add: sendUpgradeInvalidations_def foldl_field)

lemma getEntry_queues: "getEntry a m c = Inr (e, c') \<Longrightarrow> same_queues c c'"
  by (auto simp: getEntry_def same_queues_def)

lemma updEntry_queues: "updEntry p f c = Inr c' \<Longrightarrow> same_queues c c'"
  by (auto simp: updEntry_def same_queues_def)

definition Q :: "IntPtr \<Rightarrow> nat \<Rightarrow> cntlr \<Rightarrow> bool" where
  "Q a n c \<longleftrightarrow> queues_ok (m_req_queue c) \<and> m_nuca_cache c = None \<and> rq_size a (m_req_queue c) = n"

lemma Q_same: "same_queues c c' \<Longrightarrow> Q a n c' = Q a n c"
  by (simp add: Q_def same_queues_def)

definition next_good :: "next_fn \<Rightarrow> bool" where
  "next_good next \<longleftrightarrow> (\<forall>a c r. queues_ok (m_req_queue c) \<longrightarrow> rq_list a (m_req_queue c) = [r] \<longrightarrow>
     next a c = Inr (c\<lparr>m_req_queue := (m_req_queue c)(a := None)\<rparr>))"

lemma processNextReq_good: "next_good (processNextReqFromL2Cache (Suc n))"
  unfolding next_good_def
proof (intro allI impI)
  fix a and c :: cntlr and r
  assume inv: "queues_ok (m_req_queue c)" and l: "rq_list a (m_req_queue c) = [r]"
  have q: "m_req_queue c a = Some [r]" using l by (auto simp: rq_list_def split: option.splits)
  show "processNextReqFromL2Cache (Suc n) a c = Inr (c\<lparr>m_req_queue := (m_req_queue c)(a := None)\<rparr>)"
    by (simp add: rq_size_def q dequeue_def rq_empty_def Let_def)
qed

lemma processNullifyReq_single:
  assumes "next_good next" "queues_ok (m_req_queue c)" "rq_list (msg_address (m_shmem_msg r)) (m_req_queue c) = [r']"
  shows "\<not> nonterm (processNullifyReq next r c) \<and>
    (\<forall>c'. processNullifyReq next r c = Inr c' \<longrightarrow> queues_ok (m_req_queue c') \<and> m_nuca_cache c' = m_nuca_cache c \<and>
       (\<forall>b. b \<noteq> msg_address (m_shmem_msg r) \<longrightarrow> m_req_queue c' b = m_req_queue c b))"
proof -
  let ?a = "msg_address (m_shmem_msg r)"
  have sq: "queues_ok (m_req_queue c') \<and> m_nuca_cache c' = m_nuca_cache c \<and> (\<forall>b. b \<noteq> ?a \<longrightarrow> m_req_queue c' b = m_req_queue c b)"
    if "same_queues c c'" for c'
    using assms(2) that by (simp add: same_queues_def)
  show ?thesis
  proof (cases "getEntry ?a False c")
    case (Inl e)
    then have "processNullifyReq next r c = Inl e" by (simp add: processNullifyReq_def Let_def)
    then show ?thesis using term_getEntry [of ?a False c] by (simp add: Inl nonterm_def)
  next
    case (Inr x)
    obtain e c1 where x: "x = (e, c1)" by fastforce
    have c1: "same_queues c c1" using getEntry_queues Inr x by blast
    have inval: "next ?a (c1\<lparr>m_dram_directory_cache := dc\<rparr>) =
        Inr (c1\<lparr>m_dram_directory_cache := dc, m_req_queue := (m_req_queue c)(?a := None)\<rparr>)" for dc
      using assms c1 by (simp add: next_good_def same_queues_def)
    have inv': "queues_ok ((m_req_queue c)(?a := None))" using assms(2) by (rule queues_ok_remove)
    have nt: "\<not> nonterm (processNullifyReq next r c)"
      by (auto simp: processNullifyReq_def Let_def Inr x inval nonterm_bindE split: option.splits dstate_t.splits)
    have post: "same_queues c c' \<or> (m_req_queue c' = (m_req_queue c)(?a := None) \<and> m_nuca_cache c' = m_nuca_cache c)"
      if "processNullifyReq next r c = Inr c'" for c'
      using that c1
      by (auto simp: processNullifyReq_def Let_def Inr x inval same_queues_def split: option.splits dstate_t.splits)
    have "queues_ok (m_req_queue c') \<and> m_nuca_cache c' = m_nuca_cache c \<and> (\<forall>b. b \<noteq> ?a \<longrightarrow> m_req_queue c' b = m_req_queue c b)"
      if "processNullifyReq next r c = Inr c'" for c'
      using post [OF that]
    proof
      assume "same_queues c c'"
      then show ?thesis by (rule sq)
    next
      assume "m_req_queue c' = (m_req_queue c)(?a := None) \<and> m_nuca_cache c' = m_nuca_cache c"
      then show ?thesis using inv' by simp
    qed
    then show ?thesis using nt by blast
  qed
qed

lemma pick_candidate_free:
  "pick_candidate c best ps = Inr (Some d) \<Longrightarrow> (\<forall>b. best = Some b \<longrightarrow> rq_size (m_address b) (m_req_queue c) = 0) \<Longrightarrow>
     rq_size (m_address d) (m_req_queue c) = 0"
proof (induction c best ps rule: pick_candidate.induct)
  case (2 c best p ps)
  obtain e where e: "readEntry p c = Inr e" using "2.prems"(1) by auto
  show ?case
    by (rule "2.IH" [of e]) (use "2.prems" e in \<open>auto split: if_splits\<close>)
qed simp

lemma allocation_queues:
  assumes "next_good next" "queues_ok (m_req_queue c)" "a = msg_address (m_shmem_msg r)" "rq_size a (m_req_queue c) \<ge> 1"
  shows "\<not> nonterm (processDirectoryEntryAllocationReq next r c) \<and>
    (\<forall>p c'. processDirectoryEntryAllocationReq next r c = Inr (p, c') \<longrightarrow> queues_ok (m_req_queue c') \<and>
       m_nuca_cache c' = m_nuca_cache c \<and> m_req_queue c' a = m_req_queue c a)"
proof -
  have single: "\<not> nonterm (processNullifyReq next nr c4) \<and>
    (\<forall>c'. processNullifyReq next nr c4 = Inr c' \<longrightarrow> queues_ok (m_req_queue c') \<and> m_nuca_cache c' = m_nuca_cache c4 \<and>
       m_req_queue c' a = m_req_queue c a)"
    if "pick_candidate c1 None cands = Inr (Some d)" "m_req_queue c1 = m_req_queue c"
      "m_req_queue c4 = enqueue (m_address d) nr (m_req_queue c)" "msg_address (m_shmem_msg nr) = m_address d" for c1 cands d nr c4
  proof -
    have "rq_size (m_address d) (m_req_queue c) = 0" using pick_candidate_free [OF that(1)] that(2) by simp
    then have l: "rq_list (m_address d) (m_req_queue c) = []" and ne: "m_address d \<noteq> a"
      using assms(4) by (auto simp: rq_size_list)
    have "rq_list (msg_address (m_shmem_msg nr)) (m_req_queue c4) = [nr]" by (simp add: that(3,4) l)
    moreover have "queues_ok (m_req_queue c4)" using assms(2) that(4) by (simp add: that(3) queues_ok_enqueue)
    moreover have "m_req_queue c4 a = m_req_queue c a" using ne by (simp add: that(3) enqueue_def Let_def)
    ultimately show ?thesis using processNullifyReq_single [OF assms(1), of c4 nr nr] ne that(4) by auto
  qed
  show ?thesis
  proof (intro conjI allI impI)
    show "\<not> nonterm (processDirectoryEntryAllocationReq next r c)"
      using single
      by (auto simp: processDirectoryEntryAllocationReq_def Let_def nonterm_bindE ShmemReq_def split: option.splits)
    fix p c'
    assume e: "processDirectoryEntryAllocationReq next r c = Inr (p, c')"
    then obtain cands dc d q dc' t nr c4 where
        pk: "pick_candidate (c\<lparr>m_dram_directory_cache := dc\<rparr>) None cands = Inr (Some d)"
      and nul: "processNullifyReq next nr c4 = Inr c'" and nr: "msg_address (m_shmem_msg nr) = m_address d"
      and c4: "m_req_queue c4 = enqueue (m_address d) nr (m_req_queue c)" "m_nuca_cache c4 = m_nuca_cache c"
      by (auto simp: processDirectoryEntryAllocationReq_def Let_def ShmemReq_def split: option.splits if_splits)
    have "queues_ok (m_req_queue c') \<and> m_nuca_cache c' = m_nuca_cache c4 \<and> m_req_queue c' a = m_req_queue c a"
      using single [OF pk _ c4(1) nr] nul by simp
    then show "queues_ok (m_req_queue c')" "m_nuca_cache c' = m_nuca_cache c" "m_req_queue c' a = m_req_queue c a"
      using c4(2) by simp_all
  qed
qed

lemma entryFor_Q:
  assumes "next_good next" "Q (msg_address (m_shmem_msg r)) n c" "1 \<le> n"
  shows "\<not> nonterm (entryFor next r c) \<and>
    (\<forall>p c'. entryFor next r c = Inr (p, c') \<longrightarrow> Q (msg_address (m_shmem_msg r)) n c')"
proof (cases "getEntry (msg_address (m_shmem_msg r)) False c")
  case (Inl e)
  then show ?thesis using term_getEntry [of "msg_address (m_shmem_msg r)" False c] by (simp add: entryFor_def nonterm_def)
next
  case (Inr x)
  obtain e c1 where x: "x = (e, c1)" by fastforce
  then have c1: "Q (msg_address (m_shmem_msg r)) n c1" using Inr getEntry_queues Q_same assms(2) by blast
  note al = allocation_queues [OF assms(1), of c1 "msg_address (m_shmem_msg r)" r]
  show ?thesis
  proof (cases e)
    case None
    then show ?thesis using al c1 assms(3) by (auto simp: entryFor_def Inr x Q_def rq_size_def)
  next
    case (Some p)
    then show ?thesis using c1 by (simp add: entryFor_def Inr x)
  qed
qed

definition tail_ok :: "next_fn \<Rightarrow> IntPtr \<Rightarrow> nat \<Rightarrow> bool" where
  "tail_ok next a n \<longleftrightarrow> (\<forall>c. Q a n c \<longrightarrow> \<not> nonterm (next a c))"

lemma Q_upd [simp]:
  "Q a n (sendMsg t rc r v b d w c) = Q a n c"
  "Q a n (c\<lparr>forward := f\<rparr>) = Q a n c" "Q a n (c\<lparr>forward_failed := f\<rparr>) = Q a n c" "Q a n (c\<lparr>m_elapsed := e\<rparr>) = Q a n c"
  by (simp_all add: Q_def)

lemma updEntry_Q: "updEntry p f c = Inr c' \<Longrightarrow> Q a n c' = Q a n c"
  using updEntry_queues Q_same by blast

lemma retrieve_term:
  assumes "tail_ok next a n" "Q a n c"
  shows "\<not> nonterm (retrieveDataAndSendToL2Cache next ty rc a data c)"
proof -
  have g: "Q a n c1" if "getEntry a False c = Inr (e, c1)" for e c1
    using that getEntry_queues Q_same assms(2) by blast
  have t: "\<not> nonterm (next a c2)" if "Q a n c2" for c2 using assms(1) that by (simp add: tail_ok_def)
  have u: "\<not> nonterm (updEntry p (\<lambda>d. Inr (setForwarder d rc)) c1)" for p c1 by (rule term_updEntry) simp
  show ?thesis
    using g t u updEntry_Q
    by (auto simp: retrieveDataAndSendToL2Cache_def nonterm_bindE Let_def Q_def split: option.splits)
qed

lemma processExReq_term:
  assumes "next_good next" "tail_ok next (msg_address (m_shmem_msg r)) n" "Q (msg_address (m_shmem_msg r)) n c" "1 \<le> n"
  shows "\<not> nonterm (processExReqFromL2Cache next r data c)"
proof -
  note en = entryFor_Q [OF assms(1,3,4)] and rt = retrieve_term [OF assms(2)]
  have u: "\<not> nonterm (updEntry p (takeOwnership st q k) c1)" for p st q k c1 by (rule term_updEntry) simp
  show ?thesis
    using en rt u updEntry_Q by (auto simp: processExReqFromL2Cache_def Let_def nonterm_bindE)
qed

lemma processShReq_term:
  assumes "next_good next" "tail_ok next (msg_address (m_shmem_msg r)) n" "Q (msg_address (m_shmem_msg r)) n c" "1 \<le> n"
  shows "\<not> nonterm (processShReqFromL2Cache next r data c)"
proof -
  note en = entryFor_Q [OF assms(1,3,4)] and rt = retrieve_term [OF assms(2)]
  have u: "\<not> nonterm (updEntry p (takeOwnership st q k) c1)" "\<not> nonterm (updEntry p (\<lambda>_. Inr d) c1)" for p st q k c1 d
    by (rule term_updEntry, simp)+
  show ?thesis
    using en rt u updEntry_Q by (auto simp: processShReqFromL2Cache_def Let_def nonterm_bindE)
qed

lemma processUpgradeReq_term:
  assumes "next_good next" "tail_ok next (msg_address (m_shmem_msg r)) n" "Q (msg_address (m_shmem_msg r)) n c" "1 \<le> n"
  shows "\<not> nonterm (processUpgradeReqFromL2Cache next r data c)"
proof -
  note en = entryFor_Q [OF assms(1,3,4)] and rt = retrieve_term [OF assms(2)]
  have u: "\<not> nonterm (updEntry p (takeOwnership st q k) c1)" "\<not> nonterm (updEntry p (\<lambda>d. Inr (g d)) c1)"
    "\<not> nonterm (updEntry p (\<lambda>d. bindE (setOwner d q) (\<lambda>d. Inr (g d))) c1)" for p st q k c1 g
    by (rule term_updEntry, simp, rule term_updEntry, simp, rule term_updEntry, simp add: nonterm_bindE)
  have t: "\<not> nonterm (next (msg_address (m_shmem_msg r)) c2)" if "Q (msg_address (m_shmem_msg r)) n c2" for c2
    using assms(2) that by (simp add: tail_ok_def)
  show ?thesis
    using en rt u t updEntry_Q
    by (auto simp: processUpgradeReqFromL2Cache_def Let_def nonterm_bindE split_beta split: list.splits)
qed

lemma processNextReq_term: "1 \<le> n \<Longrightarrow> n \<le> k \<Longrightarrow> tail_ok (processNextReqFromL2Cache k) a n"
proof (induction k arbitrary: n)
  case (Suc k)
  show ?case
    unfolding tail_ok_def
  proof (intro allI impI)
    fix c
    assume q: "Q a n c"
    then obtain r rs where l: "rq_list a (m_req_queue c) = r # rs" "length rs = n - 1"
      using Suc.prems by (cases "rq_list a (m_req_queue c)") (auto simp: Q_def rq_size_list)
    obtain q' where d: "dequeue a (m_req_queue c) = Inr (r, q')" "rq_inv q'" "rq_list a q' = rs"
      using dequeue_list [OF _ l(1)] q queues_ok_inv by (auto simp: Q_def)
    have q'ok: "queues_ok q'" using queues_ok_dequeue [OF _ d(1)] q by (simp add: Q_def)
    show "\<not> nonterm (processNextReqFromL2Cache (Suc k) a c)"
    proof (cases rs)
      case Nil
      then show ?thesis using d rq_empty_list [OF d(2), of a] by (auto simp: nonterm_bindE Let_def)
    next
      case (Cons r1 rs1)
      then have n: "1 \<le> n - 1" "n - 1 \<le> k" "k \<noteq> 0" using l(2) Suc.prems by auto
      obtain j where j: "k = Suc j" using n(3) by (cases k) auto
      have good: "next_good (processNextReqFromL2Cache k)" unfolding j by (rule processNextReq_good)
      have fr: "rq_front a q' = Inr r1" using d(3) Cons by (simp add: rq_front_list)
      have a: "msg_address (m_shmem_msg r1) = a" using q'ok d(3) Cons by (auto simp: queues_ok_def)
      have Q': "Q (msg_address (m_shmem_msg r1)) (n - 1) (c\<lparr>m_req_queue := q', m_elapsed := m_time r1\<rparr>)"
        using q'ok q d(3) l(2) by (simp add: Q_def a rq_size_list)
      have tl: "tail_ok (processNextReqFromL2Cache k) (msg_address (m_shmem_msg r1)) (n - 1)"
        unfolding a by (rule Suc.IH [OF n(1,2)])
      show ?thesis
        using d(1) fr processExReq_term [OF good tl Q' n(1)] processShReq_term [OF good tl Q' n(1)]
          processUpgradeReq_term [OF good tl Q' n(1)]
        by (auto simp: nonterm_bindE Let_def)
    qed
  qed
qed simp

lemma nextReq_tail:
  assumes "Q a n c" "1 \<le> n"
  shows "next_good (nextReq c a)" "tail_ok (nextReq c a) a n"
  using processNextReq_good processNextReq_term [of n "Suc n" a] assms by (auto simp: nextReq_def Q_def)

lemma processNullifyReq_term:
  assumes "tail_ok next (msg_address (m_shmem_msg r)) n" "Q (msg_address (m_shmem_msg r)) n c"
  shows "\<not> nonterm (processNullifyReq next r c)"
proof -
  have g: "Q (msg_address (m_shmem_msg r)) n (c1\<lparr>m_dram_directory_cache := dc\<rparr>)"
    if "getEntry (msg_address (m_shmem_msg r)) False c = Inr (e, c1)" for e c1 dc
    using getEntry_queues [OF that] assms(2) by (simp add: Q_def same_queues_def)
  show ?thesis
    using assms(1) g by (auto simp: processNullifyReq_def nonterm_bindE Let_def tail_ok_def split: option.splits dstate_t.splits)
qed

lemma touchFront_Q:
  assumes "touchFront a c = Inr (r, c')" "Q b n c"
  shows "Q b n c'" "msg_address (m_shmem_msg r) = a"
proof -
  obtain x where x: "rq_front a (m_req_queue c) = Inr x" "r = updateTime (m_elapsed c) x"
    and c': "Q b n c' = Q b n (updFront a (\<lambda>_. r) c)"
    using assms(1) by (auto simp: touchFront_def Let_def)
  have "queues_ok (m_req_queue (updFront a (\<lambda>_. r) c))"
    using assms(2) x by (intro queues_ok_updFront) (auto simp: Q_def updateTime_def)
  then show "Q b n c'" using assms(2) unfolding c' by (simp add: Q_def)
  obtain rs where "rq_list a (m_req_queue c) = x # rs" using rq_front_Inr [OF x(1)] by blast
  then show "msg_address (m_shmem_msg r) = a" using assms(2) x(2) by (auto simp: Q_def queues_ok_def updateTime_def)
qed

lemma term_touchFront [simp]: "\<not> nonterm (touchFront a c)"
  by (auto simp: touchFront_def nonterm_bindE Let_def)

text \<open>
  The handlers of the replies look the entry up, update it, and go on with the request at the front of
  the queue.
\<close>

definition quiet :: "cntlr \<Rightarrow> bool" where
  "quiet c \<longleftrightarrow> queues_ok (m_req_queue c) \<and> m_nuca_cache c = None"

lemma quiet_Q: "quiet c \<longleftrightarrow> Q a (rq_size a (m_req_queue c)) c"
  by (simp add: quiet_def Q_def)

lemma quiet_lookup:
  "getEntry a m c = Inr (e, c') \<Longrightarrow> quiet c \<Longrightarrow> quiet c'" "updEntry p f c = Inr c' \<Longrightarrow> quiet c \<Longrightarrow> quiet c'"
  by (auto simp: quiet_def same_queues_def dest!: getEntry_queues updEntry_queues)

lemma front_term:
  assumes "touchFront a c = Inr (r, c')" "quiet c" "same_queues c' c''"
  shows "\<not> nonterm (processExReqFromL2Cache (nextReq c' a) r data c'')"
    "\<not> nonterm (processShReqFromL2Cache (nextReq c' a) r data c'')"
    "\<not> nonterm (processUpgradeReqFromL2Cache (nextReq c' a) r data c'')"
    "\<not> nonterm (processNullifyReq (nextReq c' a) r c'')"
proof -
  let ?n = "rq_size a (m_req_queue c)"
  have q: "Q a ?n c" using assms(2) quiet_Q by blast
  note r = touchFront_Q [OF assms(1) q]
  have n: "1 \<le> ?n" using assms(1) by (auto simp: touchFront_def rq_front_def rq_size_def split: option.splits list.splits)
  have q'': "Q a ?n c''" using r(1) Q_same [OF assms(3)] by simp
  note t = nextReq_tail [OF r(1) n]
  show "\<not> nonterm (processExReqFromL2Cache (nextReq c' a) r data c'')"
    using processExReq_term [of "nextReq c' a" r ?n c''] t q'' n by (simp add: r(2))
  show "\<not> nonterm (processShReqFromL2Cache (nextReq c' a) r data c'')"
    using processShReq_term [of "nextReq c' a" r ?n c''] t q'' n by (simp add: r(2))
  show "\<not> nonterm (processUpgradeReqFromL2Cache (nextReq c' a) r data c'')"
    using processUpgradeReq_term [of "nextReq c' a" r ?n c''] t q'' n by (simp add: r(2))
  show "\<not> nonterm (processNullifyReq (nextReq c' a) r c'')"
    using processNullifyReq_term [of "nextReq c' a" r ?n c''] t q'' by (simp add: r(2))
qed

lemma term_sendDataToDram:
  assumes "m_nuca_cache c = None"
  shows "\<not> nonterm (sendDataToDram a r d c)" "sendDataToDram a r d c = Inr c' \<Longrightarrow> same_queues c c'"
  using assms by (auto simp: sendDataToDram_def nonterm_bindE same_queues_def)

lemma touchFront_nuca: "touchFront a c = Inr (r, c') \<Longrightarrow> m_nuca_cache c' = m_nuca_cache c"
  by (auto simp: touchFront_def Let_def)

lemma term_drop [simp]: "\<not> nonterm (updEntry p (\<lambda>d. Inr (g d)) c)"
  by (rule term_updEntry) simp

lemma reply_term:
  assumes "quiet c" "\<And>d. \<not> nonterm (f d)" "\<And>p c2. quiet c2 \<Longrightarrow> \<not> nonterm (k p c2)"
  shows "\<not> nonterm (bindE (getEntry a m c) (\<lambda>(e, c1).
     case e of None \<Rightarrow> Inl (ASSERT x) | Some p \<Rightarrow> bindE (updEntry p f c1) (k p)))"
proof -
  have u: "\<not> nonterm (updEntry p f c1)" for p c1 by (rule term_updEntry) (rule assms(2))
  show ?thesis using u assms(3) quiet_lookup assms(1) by (auto simp: nonterm_bindE split: option.splits)
qed

lemma processInvRep_term:
  assumes "quiet c"
  shows "\<not> nonterm (processInvRepFromL2Cache s m c)"
  unfolding processInvRepFromL2Cache_def Let_def
proof (rule reply_term [OF assms], goal_cases)
  case (2 p c2)
  then show ?case
    using front_term [OF _ 2] front_term [OF _ 2 same_queues_refl] updEntry_queues by (auto simp: nonterm_bindE)
qed (auto simp: nonterm_bindE nonterm_assertE)

lemma processFlushRep_term:
  assumes "quiet c"
  shows "\<not> nonterm (processFlushRepFromL2Cache s m c)"
  unfolding processFlushRepFromL2Cache_def Let_def
proof (rule reply_term [OF assms], goal_cases)
  case (2 p c2)
  have nuca: "m_nuca_cache c2 = None" using 2 by (simp add: quiet_def)
  then have "m_nuca_cache c3 = None" if "touchFront a c2 = Inr (r, c3)" for a r c3 using touchFront_nuca [OF that] by simp
  then show ?case
    using nuca front_term [OF _ 2] front_term [OF _ 2 same_queues_refl] updEntry_queues term_sendDataToDram
    by (auto simp: nonterm_bindE)
qed (auto simp: nonterm_bindE nonterm_assertE)

lemma processWbRep_term:
  assumes "quiet c"
  shows "\<not> nonterm (processWbRepFromL2Cache s m c)"
  unfolding processWbRepFromL2Cache_def Let_def
proof (rule reply_term [OF assms], goal_cases)
  case (2 p c2)
  then show ?case
    using front_term(2) [OF _ 2 same_queues_refl] by (auto simp: nonterm_bindE nonterm_assertE)
qed (auto simp: nonterm_bindE nonterm_assertE)

lemma processDRAMReply_term:
  assumes "quiet c"
  shows "\<not> nonterm (processDRAMReply s m c)"
proof -
  have n: "\<not> nonterm (nextReq c2 a a c2)" if "quiet c2" "1 \<le> rq_size a (m_req_queue c2)" for c2 a
    using nextReq_tail(2) [of a "rq_size a (m_req_queue c2)" c2] that quiet_Q [of c2 a] by (auto simp: tail_ok_def)
  have g: "quiet c1" "m_nuca_cache c1 = None" "m_req_queue c1 = m_req_queue c" if "getEntry a b c = Inr (e, c1)" for a b e c1
    using quiet_lookup(1) [OF that assms] getEntry_queues [OF that] by (auto simp: quiet_def same_queues_def)
  show ?thesis
    using g n by (auto simp: processDRAMReply_def nonterm_bindE nonterm_assertE sendDataToNUCA_def quiet_def Let_def split: option.splits)
qed

lemma enqueueReq_term:
  assumes "enqueueReq m t c = Inr (r, c')" "quiet c" "rq_size (msg_address m) (m_req_queue c') = 1"
  shows "\<not> nonterm (processExReqFromL2Cache (nextReq c' (msg_address m)) r data c')"
    "\<not> nonterm (processShReqFromL2Cache (nextReq c' (msg_address m)) r data c')"
    "\<not> nonterm (processUpgradeReqFromL2Cache (nextReq c' (msg_address m)) r data c')"
proof -
  have r: "msg_address (m_shmem_msg r) = msg_address m"
    and c': "m_req_queue c' = enqueue (msg_address m) r (m_req_queue c)" "m_nuca_cache c' = m_nuca_cache c"
    using assms(1) by (auto simp: enqueueReq_def ShmemReq_def split: if_splits)
  have q: "Q (msg_address m) 1 c'" using assms(2,3) r c' queues_ok_enqueue by (auto simp: Q_def quiet_def)
  note t = nextReq_tail [OF q]
  show "\<not> nonterm (processExReqFromL2Cache (nextReq c' (msg_address m)) r data c')"
    using processExReq_term [of "nextReq c' (msg_address m)" r 1 c'] t q by (simp add: r)
  show "\<not> nonterm (processShReqFromL2Cache (nextReq c' (msg_address m)) r data c')"
    using processShReq_term [of "nextReq c' (msg_address m)" r 1 c'] t q by (simp add: r)
  show "\<not> nonterm (processUpgradeReqFromL2Cache (nextReq c' (msg_address m)) r data c')"
    using processUpgradeReq_term [of "nextReq c' (msg_address m)" r 1 c'] t q by (simp add: r)
qed

lemma term_enqueueReq [simp]: "\<not> nonterm (enqueueReq m t c)"
  by (simp add: enqueueReq_def nonterm_bindE)

lemma handlers_term:
  assumes "quiet c"
  shows "\<not> nonterm (handleMsgFromL2Cache s m c)" "\<not> nonterm (handleMsgFromDRAM s m c)"
proof -
  have q: "quiet c1" if "getEntry a b c = Inr (e, c1)" for a b e c1 using quiet_lookup(1) [OF that assms] .
  show "\<not> nonterm (handleMsgFromL2Cache s m c)"
    unfolding handleMsgFromL2Cache_def Let_def nonterm_bindE
    using q enqueueReq_term processInvRep_term processFlushRep_term processWbRep_term
    by (auto simp: nonterm_bindE)
  show "\<not> nonterm (handleMsgFromDRAM s m c)"
    using processDRAMReply_term [OF assms] by (simp add: handleMsgFromDRAM_def)
qed

end
