(* ===== verification/Dram_Directory_Properties.thy ===== *)
theory Dram_Directory_Properties
  imports Dram_Directory_Progress
begin

text \<open>
  The directory controller as a state machine: construction, then messages from the caches and from
  DRAM in any order. The properties hold in every reachable state and for every sequence of messages,
  the ones no cache would send included; a message is only required not to be about the reserved
  address \<^verbatim>\<open>INVALID_ADDRESS\<close>, which no cache line has.
\<close>

section \<open>Reachable states\<close>

inductive cntlr_step :: "cntlr \<Rightarrow> cntlr \<Rightarrow> bool" where
  from_l2: "handleMsgFromL2Cache s m c = Inr c' \<Longrightarrow> msg_address m \<noteq> INVALID_ADDRESS \<Longrightarrow> cntlr_step c c'"
| from_dram: "handleMsgFromDRAM s m c = Inr c' \<Longrightarrow> cntlr_step c c'"
| clock: "cntlr_step c (c\<lparr>m_elapsed := t\<rparr>)"

inductive_cases cntlr_stepE: "cntlr_step c c'"

definition new_cntlr ::
  "string \<Rightarrow> UInt32 \<Rightarrow> nat \<Rightarrow> nat \<Rightarrow> UInt64 option \<Rightarrow> core_id_t \<Rightarrow> UInt32 \<Rightarrow> UInt32 \<Rightarrow> UInt64 \<Rightarrow> (nat \<Rightarrow> UInt32)
     \<Rightarrow> core_id_t \<Rightarrow> nuca_cache option \<Rightarrow> address_home_lookup \<Rightarrow> string \<Rightarrow> UInt64 \<Rightarrow> UInt8 list \<Rightarrow> cntlr result" where
  "new_cntlr directory_type total_entries max_hw_sharers max_num_sharers penalty uninit associativity
      cache_block_size access_time uninit_ptrs core_id nuca home protocol uninit_evict uninit_buffer =
     bindE (Directory directory_type (unat total_entries) max_hw_sharers max_num_sharers penalty uninit) (\<lambda>D.
     bindE (DramDirectoryCache D total_entries associativity cache_block_size access_time uninit_ptrs) (\<lambda>dc.
       DramDirectoryCntlr core_id dc nuca home protocol uninit_evict uninit_buffer))"

lemma new_cntlr_inv:
  assumes "new_cntlr ty n hw mx pen u assoc bs at ps core nuca home pr ue ub = Inr c"
  shows "cntlr_inv c" "m_nuca_cache c = nuca"
proof -
  obtain D dc where d: "Directory ty (unat n) hw mx pen u = Inr D" "DramDirectoryCache D n assoc bs at ps = Inr dc"
    and c: "m_dram_directory_cache c = dc" "m_req_queue c = (\<lambda>_. None)" "m_nuca_cache c = nuca"
    using assms by (auto simp: new_cntlr_def DramDirectoryCntlr_def)
  show "cntlr_inv c" "m_nuca_cache c = nuca"
    using unique_constructed [OF d, of entry_ok] c
    by (simp_all add: cntlr_inv_def dir_ok_def queues_live_def queues_ok_def rq_inv_def rq_list_def)
qed

lemma cntlr_step_inv: "cntlr_step c c' \<Longrightarrow> cntlr_inv c \<Longrightarrow> cntlr_inv c'"
  by (auto elim!: cntlr_stepE intro: coherent.handleMsgFromL2Cache_keeps coherent.handleMsgFromDRAM_keeps
      simp: coherent.I_elapsed)

lemma cntlr_reachable_inv: "cntlr_step\<^sup>*\<^sup>* c c' \<Longrightarrow> cntlr_inv c \<Longrightarrow> cntlr_inv c'"
  by (induction rule: rtranclp_induct) (auto intro: cntlr_step_inv)

lemma nuca_lookup:
  "getEntry a m c = Inr (e, c') \<Longrightarrow> m_nuca_cache c' = m_nuca_cache c" "updEntry p f c = Inr c' \<Longrightarrow> m_nuca_cache c' = m_nuca_cache c"
  by (auto simp: same_queues_def dest!: getEntry_queues updEntry_queues)

interpretation bare: cntlr_invariant "\<lambda>c. cntlr_inv c \<and> m_nuca_cache c = None"
proof
  fix c c' :: cntlr and a m e p f g d r
  assume c: "cntlr_inv c \<and> m_nuca_cache c = None"
  show "readEntry p c = Inr d \<Longrightarrow> entry_ok d" using coherent.I_read c by blast
  show "rq_front a (m_req_queue c) = Inr r \<Longrightarrow> live r" using coherent.I_front c by blast
  show "getEntry a m c = Inr (e, c') \<Longrightarrow> cntlr_inv c' \<and> m_nuca_cache c' = None"
    using coherent.I_getEntry nuca_lookup(1) c by metis
  show "cntlr_inv c' \<and> m_nuca_cache c' = None"
    if u: "updEntry p f c = Inr c'"
      and k: "\<And>d d'. readEntry p c = Inr d \<Longrightarrow> entry_ok d \<Longrightarrow> f d = Inr d' \<Longrightarrow> entry_ok d' \<and> m_address d' = m_address d"
  proof
    show "cntlr_inv c'" by (rule coherent.I_updEntry [OF u conjunct1 [OF c]]) (rule k)
    show "m_nuca_cache c' = None" using nuca_lookup(2) [OF u] c by simp
  qed
  show "(\<And>r. rq_front a (m_req_queue c) = Inr r \<Longrightarrow> msg_address (m_shmem_msg (g r)) = msg_address (m_shmem_msg r)) \<Longrightarrow>
      cntlr_inv (updFront a g c) \<and> m_nuca_cache (updFront a g c) = None"
    using coherent.I_updFront [of c a g] c by simp
next
  fix c :: cntlr and a t ps dc d t' p dc' t''
  assume *: "cntlr_inv c \<and> m_nuca_cache c = None" "getReplacementCandidates (m_dram_directory_cache c) a t = Inr (ps, dc)" "a \<noteq> - 1"
    "pick_candidate (c\<lparr>m_dram_directory_cache := dc\<rparr>) None ps = Inr (Some d)"
    "replaceDirectoryEntry dc (m_address d) a True t' = Inr (p, dc', t'')"
  show "m_address d \<noteq> - 1 \<and> cntlr_inv (c\<lparr>m_dram_directory_cache := dc'\<rparr>) \<and> m_nuca_cache (c\<lparr>m_dram_directory_cache := dc'\<rparr>) = None"
    using replace_inv [OF conjunct1 [OF *(1)] *(2-5)] *(1) by simp
qed (simp_all add: coherent.I_frame coherent.I_invalidate coherent.I_enqueue coherent.I_dequeue)

lemma quiet_step:
  assumes "cntlr_step c c'" "cntlr_inv c \<and> m_nuca_cache c = None"
  shows "cntlr_inv c' \<and> m_nuca_cache c' = None"
  using assms(1)
proof cases
  case (from_l2 s m)
  then show ?thesis using bare.handleMsgFromL2Cache_keeps assms(2) by blast
next
  case (from_dram s m)
  then show ?thesis using bare.handleMsgFromDRAM_keeps assms(2) by blast
next
  case (clock t)
  then show ?thesis using assms(2) by (simp add: coherent.I_elapsed)
qed

lemma quiet_reachable:
  "cntlr_step\<^sup>*\<^sup>* c c' \<Longrightarrow> cntlr_inv c \<and> m_nuca_cache c = None \<Longrightarrow> cntlr_inv c' \<and> m_nuca_cache c' = None"
  by (induction rule: rtranclp_induct) (auto dest: quiet_step)

lemma entry_ok_list:
  assumes "entry_ok d"
  shows "(m_dstate d \<in> {D_MODIFIED, D_EXCLUSIVE} \<longrightarrow> snd (getSharersList d) = [m_owner_id d]) \<and>
    (m_dstate d = D_UNCACHED \<longrightarrow> snd (getSharersList d) = []) \<and>
    (m_dstate d = D_SHARED \<longrightarrow> snd (getSharersList d) \<noteq> []) \<and> m_dstate d \<noteq> D_OWNED"
  using assms by (auto simp: entry_ok_def getSharersList_set)

lemma unique_entry:
  assumes "dc_unique c" "deref c p = Inr d" "deref c q = Inr e" "m_address d = m_address e" "m_address d \<noteq> - 1"
  shows "p = q"
proof -
  let ?l = "m_replaced_directory_entry_list c"
  have split: False if "slot_entry c k = Some x" "i < length ?l" "m_address x = m_address (?l ! i)" for k x i
  proof -
    have i: "?l ! i \<in> set ?l" using that(2) by simp
    then have "m_address (?l ! i) \<noteq> - 1" using assms(1) by (simp add: dc_unique_def)
    then have "in_set c k (m_address (?l ! i))" using assms(1) that(1,3) by (metis dc_unique_def)
    then show False using unique_full [OF assms(1) i] that(1,3) by (metis option.inject)
  qed
  have same: "k = j" if "slot_entry c k = Some x" "slot_entry c j = Some y" "m_address x = m_address y" "m_address y \<noteq> - 1" for k j x y
    using assms(1) that by (auto simp: dc_unique_def)
  show ?thesis
  proof (cases p; cases q)
    fix i j
    assume p: "p = Replaced i" "q = Replaced j"
    then have "i < length ?l" "j < length ?l" "m_address (?l ! i) = m_address (?l ! j)"
      using assms(2-4) by (auto simp: deref_def split: if_splits)
    moreover have "distinct (map m_address ?l)" using assms(1) by (simp add: dc_unique_def)
    ultimately show ?thesis using nth_eq_iff_index_eq [of "map m_address ?l" i j] by (simp add: p)
  qed (use assms split split [OF _ _ sym] same in \<open>auto simp: deref_def split: option.splits if_splits\<close>)
qed

section \<open>An example\<close>

definition example_home :: address_home_lookup where
  "example_home = \<lparr>m_ahl_param = 6, m_ahl_mask = 63, m_core_list = [0], m_total_modules = 1, ahl_cache_block_size = 64\<rparr>"

definition example_new :: "cntlr result" where
  "example_new = new_cntlr ''full_map'' 4 2 2 None (- 1) 2 64 10 (\<lambda>_. 0) 0 None example_home ''mesi'' 0 []"

definition ex_req :: "core_id_t \<Rightarrow> IntPtr \<Rightarrow> shmem_msg" where
  "ex_req core a = \<lparr>m_msg_type = EX_REQ, m_sender_mem_component = L2_CACHE, m_receiver_mem_component = TAG_DIR,
     m_requester = core, msg_address = a, m_data_buf = None, m_where = UNKNOWN\<rparr>"

definition example_cntlr :: cntlr where
  "example_cntlr = (case example_new of Inr c \<Rightarrow> c)"

definition example_owned :: cntlr where
  "example_owned = (case handleMsgFromL2Cache 1 (ex_req 1 0x1000) example_cntlr of Inr c \<Rightarrow> c)"

lemma case_Inr: "case r of Inl e \<Rightarrow> False | Inr x \<Rightarrow> True \<Longrightarrow> r = Inr (case r of Inr x \<Rightarrow> x)"
  by (cases r) auto

lemma example_new_eq: "new_cntlr ''full_map'' 4 2 2 None (- 1) 2 64 10 (\<lambda>_. 0) 0 None example_home ''mesi'' 0 [] = Inr example_cntlr"
proof -
  have "case example_new of Inl e \<Rightarrow> False | Inr x \<Rightarrow> True" by code_simp
  from case_Inr [OF this] show ?thesis by (simp add: example_new_def example_cntlr_def)
qed

lemma example_owned_eq: "handleMsgFromL2Cache 1 (ex_req 1 0x1000) example_cntlr = Inr example_owned"
proof -
  have "case handleMsgFromL2Cache 1 (ex_req 1 0x1000) example_cntlr of Inl e \<Rightarrow> False | Inr x \<Rightarrow> True" by code_simp
  from case_Inr [OF this] show ?thesis by (simp add: example_owned_def)
qed

lemma example_reach: "cntlr_step\<^sup>*\<^sup>* example_cntlr example_owned"
  using from_l2 [OF example_owned_eq] by (simp add: ex_req_def)

lemma example_entry:
  "case readEntry (Slot 0) example_owned of Inl e \<Rightarrow> False
   | Inr d \<Rightarrow> m_dstate d = D_MODIFIED \<and> m_owner_id d = 1 \<and> m_address d = 0x1000"
  by code_simp

section \<open>Properties\<close>

text \<open>
  C1: the single-writer invariant of the coherence protocol. In every state reachable from
  construction by any sequence of messages, under MSI, MESI and MESIF and for every directory type,
  an entry in state MODIFIED or EXCLUSIVE has exactly one sharer, the owner it records; an UNCACHED
  entry has none, a SHARED entry at least one, and the state OWNED never occurs.
\<close>

theorem directory_single_writer:
  assumes "new_cntlr ty n hw mx pen u assoc bs at ps core nuca home pr ue ub = Inr c0"
    and "cntlr_step\<^sup>*\<^sup>* c0 c" "readEntry p c = Inr d"
  shows "(m_dstate d \<in> {D_MODIFIED, D_EXCLUSIVE} \<longrightarrow> snd (getSharersList d) = [m_owner_id d]) \<and>
    (m_dstate d = D_UNCACHED \<longrightarrow> snd (getSharersList d) = []) \<and>
    (m_dstate d = D_SHARED \<longrightarrow> snd (getSharersList d) \<noteq> []) \<and> m_dstate d \<noteq> D_OWNED"
  using entry_ok_list coherent.I_read cntlr_reachable_inv assms(2,3) new_cntlr_inv(1) [OF assms(1)] by blast

theorem directory_single_writer_witness:
  "\<exists>d. readEntry (Slot 0) example_owned = Inr d \<and> m_dstate d = D_MODIFIED \<and> snd (getSharersList d) = [1]"
proof -
  obtain d where d: "readEntry (Slot 0) example_owned = Inr d" "m_dstate d = D_MODIFIED" "m_owner_id d = 1"
    using example_entry by (auto split: sum.splits)
  then show ?thesis using directory_single_writer [OF example_new_eq example_reach d(1)] by simp
qed

text \<open>
  C2: an address has at most one directory entry: in every reachable state two pointers to entries
  with the same valid address, in the set-associative array or in the list of replaced entries, are
  the same pointer. Together with the single-writer invariant of an entry this gives one writer per
  line.
\<close>

theorem directory_entry_unique:
  assumes "new_cntlr ty n hw mx pen u assoc bs at ps core nuca home pr ue ub = Inr c0"
    and "cntlr_step\<^sup>*\<^sup>* c0 c" "readEntry p c = Inr d" "readEntry q c = Inr e"
    and "m_address d = m_address e" "m_address d \<noteq> INVALID_ADDRESS"
  shows "p = q"
proof -
  have "dc_unique (m_dram_directory_cache c)"
    using cntlr_reachable_inv [OF assms(2)] new_cntlr_inv(1) [OF assms(1)] by (simp add: cntlr_inv_def)
  then show ?thesis using assms(3-6) unique_entry by (auto simp: readEntry_def)
qed

theorem directory_entry_unique_witness:
  "\<not> (\<exists>q e. q \<noteq> Slot 0 \<and> readEntry q example_owned = Inr e \<and> m_address e = 0x1000)"
proof
  assume "\<exists>q e. q \<noteq> Slot 0 \<and> readEntry q example_owned = Inr e \<and> m_address e = 0x1000"
  then obtain q e where e: "q \<noteq> Slot 0" "readEntry q example_owned = Inr e" "m_address e = 0x1000" by blast
  obtain d where d: "readEntry (Slot 0) example_owned = Inr d" "m_address d = 0x1000"
    using example_entry by (auto split: sum.splits)
  show False
    using directory_entry_unique [OF example_new_eq example_reach e(2) d(1)] e(1,3) d(2) by simp
qed

text \<open>
  C3: handling a message always ends: in every reachable state of a directory without NUCA cache the
  chain of queued requests that a message completes, each of which can start the next, is never longer
  than the queue, so the bound the handlers run with is not used up.
\<close>

theorem directory_handlers_terminate:
  assumes "new_cntlr ty n hw mx pen u assoc bs at ps core None home pr ue ub = Inr c0" "cntlr_step\<^sup>*\<^sup>* c0 c"
  shows "handleMsgFromL2Cache s m c \<noteq> Inl (NONTERMINATION e) \<and> handleMsgFromDRAM s m c \<noteq> Inl (NONTERMINATION e)"
proof -
  have "cntlr_inv c" "m_nuca_cache c = None"
    using quiet_reachable [OF assms(2)] new_cntlr_inv [OF assms(1)] by simp_all
  then have "quiet c" by (simp add: cntlr_inv_def queues_live_def quiet_def)
  then show ?thesis using handlers_term [of c s m] by (auto simp: nonterm_def)
qed

theorem directory_handlers_terminate_witness:
  "handleMsgFromL2Cache 0 (ex_req 0 0x1000) example_owned \<noteq> Inl (NONTERMINATION ''processNextReqFromL2Cache'')"
  using directory_handlers_terminate [OF example_new_eq example_reach] by blast

end
