(* ===== verification/Thread_Manager.thy ===== *)
theory Thread_Manager
  imports Prelude
begin

text \<open>
  The part of \<^verbatim>\<open>system/thread_manager.{h,cc}\<close> through which threads are put to sleep and woken: the state
  of each thread and the time and message it was last signalled with (\<^verbatim>\<open>Thread::signal\<close> of
  \<^verbatim>\<open>core/thread.h\<close>; the message is a \<^verbatim>\<open>void*\<close> used as a Boolean and null by default). The vector \<^verbatim>\<open>m_thread_state\<close> is a function of
  the thread number. All of it runs under \<^verbatim>\<open>m_thread_lock\<close>, so an operation is atomic up to the point
  where it waits: \<^verbatim>\<open>stallThread\<close> marks the caller stalled, and its return value is the time passed to the
  \<^verbatim>\<open>resumeThread\<close> that wakes the caller later. The hooks and the loop that advances the clock when no
  thread is running are left out.
\<close>

datatype core_state = RUNNING | INITIALIZING | STALLED | SLEEPING | WAKING_UP | IDLE | BROKEN

datatype stall_type_t =
    STALL_UNSCHEDULED | STALL_BROKEN | STALL_JOIN | STALL_MUTEX | STALL_COND | STALL_BARRIER
  | STALL_FUTEX | STALL_PAUSE | STALL_SLEEP | STALL_SYSCALL

record thread_state =
  status :: core_state
  stalled_reason :: stall_type_t
  waiter :: thread_id_t

record thread_manager =
  m_thread_state :: "thread_id_t \<Rightarrow> thread_state"
  m_wakeup_time :: "thread_id_t \<Rightarrow> UInt64"
  m_wakeup_msg :: "thread_id_t \<Rightarrow> bool"

definition stallThread_async :: "thread_id_t \<Rightarrow> stall_type_t \<Rightarrow> thread_manager \<Rightarrow> thread_manager" where
  "stallThread_async thread_id reason tm =
     tm\<lparr>m_thread_state := (m_thread_state tm)
          (thread_id := (m_thread_state tm thread_id)\<lparr>status := STALLED, stalled_reason := reason\<rparr>)\<rparr>"

text \<open>
  The caller goes to sleep: \<^verbatim>\<open>Thread::wait\<close> clears the message of an earlier wake-up. The threads the clock
  wakes while no thread is running are woken by later calls of \<open>resumeThread\<close> here, so the branch that
  returns at once because the caller is running again is that later wake-up.
\<close>

definition stallThread :: "thread_id_t \<Rightarrow> stall_type_t \<Rightarrow> thread_manager \<Rightarrow> thread_manager" where
  "stallThread thread_id reason tm =
     (let tm1 = stallThread_async thread_id reason tm in tm1\<lparr>m_wakeup_msg := (m_wakeup_msg tm1)(thread_id := False)\<rparr>)"

definition resumeThread_async :: "thread_id_t \<Rightarrow> thread_manager \<Rightarrow> thread_manager" where
  "resumeThread_async thread_id tm =
     tm\<lparr>m_thread_state := (m_thread_state tm)(thread_id := (m_thread_state tm thread_id)\<lparr>status := RUNNING\<rparr>)\<rparr>"

definition signal :: "thread_id_t \<Rightarrow> UInt64 \<Rightarrow> bool \<Rightarrow> thread_manager \<Rightarrow> thread_manager" where
  "signal thread_id time msg tm =
     tm\<lparr>m_wakeup_time := (m_wakeup_time tm)(thread_id := time), m_wakeup_msg := (m_wakeup_msg tm)(thread_id := msg)\<rparr>"

definition resumeThread :: "thread_id_t \<Rightarrow> UInt64 \<Rightarrow> bool \<Rightarrow> thread_manager \<Rightarrow> thread_manager" where
  "resumeThread thread_id time msg tm = resumeThread_async thread_id (signal thread_id time msg tm)"

definition isThreadRunning :: "thread_id_t \<Rightarrow> thread_manager \<Rightarrow> bool" where
  "isThreadRunning thread_id tm \<longleftrightarrow> status (m_thread_state tm thread_id) = RUNNING"

definition isThreadInitializing :: "thread_id_t \<Rightarrow> thread_manager \<Rightarrow> bool" where
  "isThreadInitializing thread_id tm \<longleftrightarrow> status (m_thread_state tm thread_id) = INITIALIZING"

definition anyThreadRunning :: "nat \<Rightarrow> thread_manager \<Rightarrow> bool" where
  "anyThreadRunning num_threads tm \<longleftrightarrow>
     list_ex (\<lambda>i. isThreadRunning (int i) tm \<or> isThreadInitializing (int i) tm) [0..<num_threads]"

definition areAllCoresRunning :: "nat \<Rightarrow> thread_manager \<Rightarrow> bool" where
  "areAllCoresRunning num_threads tm \<longleftrightarrow>
     list_all (\<lambda>i. status (m_thread_state tm (int i)) \<noteq> IDLE) [0..<num_threads]"

definition joinThread :: "thread_id_t \<Rightarrow> thread_id_t \<Rightarrow> thread_manager \<Rightarrow> (bool \<times> thread_manager) result" where
  "joinThread thread_id join_thread_id tm =
     (let js = m_thread_state tm join_thread_id in
      if status js = IDLE then Inr (False, tm)
      else
        bindE (assertE (waiter js = INVALID_THREAD_ID) (LOG_ASSERT_ERROR ''Multiple threads joining on thread'')) (\<lambda>_.
          Inr (True, stallThread thread_id STALL_JOIN
                 (tm\<lparr>m_thread_state := (m_thread_state tm)(join_thread_id := js\<lparr>waiter := thread_id\<rparr>)\<rparr>))))"

definition wakeUpWaiter :: "thread_id_t \<Rightarrow> UInt64 \<Rightarrow> thread_manager \<Rightarrow> thread_manager" where
  "wakeUpWaiter thread_id time tm =
     (let w = waiter (m_thread_state tm thread_id) in
      if w \<noteq> INVALID_THREAD_ID
      then let tm1 = resumeThread w time False tm
           in tm1\<lparr>m_thread_state := (m_thread_state tm1)
                    (thread_id := (m_thread_state tm1 thread_id)\<lparr>waiter := INVALID_THREAD_ID\<rparr>)\<rparr>
      else tm)"

lemma status_stall [simp]:
  "status (m_thread_state (stallThread t r tm) u) = (if u = t then STALLED else status (m_thread_state tm u))"
  by (simp add: stallThread_def stallThread_async_def Let_def)

lemma status_resume [simp]:
  "status (m_thread_state (resumeThread t time msg tm) u) = (if u = t then RUNNING else status (m_thread_state tm u))"
  by (simp add: resumeThread_def signal_def resumeThread_async_def)

lemma wakeup_resume [simp]: "m_wakeup_time (resumeThread t time msg tm) u = (if u = t then time else m_wakeup_time tm u)"
  by (simp add: resumeThread_def signal_def resumeThread_async_def)

lemma wakeup_msg_resume [simp]: "m_wakeup_msg (resumeThread t time msg tm) u = (if u = t then msg else m_wakeup_msg tm u)"
  by (simp add: resumeThread_def signal_def resumeThread_async_def)

lemma wakeup_stall [simp]:
  "m_wakeup_time (stallThread t r tm) = m_wakeup_time tm"
  "m_wakeup_msg (stallThread t r tm) u = (u \<noteq> t \<and> m_wakeup_msg tm u)"
  by (simp_all add: stallThread_def stallThread_async_def Let_def)

end
