(* ===== verification/Wait_Queues.thy ===== *)
theory Wait_Queues
  imports Thread_Manager
begin

text \<open>
  Queues of sleeping threads. The synchronisation server and the system call server keep their sleepers in
  several queues and tell the thread manager why a thread sleeps. This theory states once that the two
  agree, as a relation between a family of queues and the set of threads stalled for one of the
  server's reasons, and proves it kept by the moves the servers make: the caller goes to sleep at the end of
  a queue, a sleeper is woken, a sleeper at the front goes over to the end of another queue, a whole queue
  is woken.
\<close>

definition queues_inv :: "('q \<Rightarrow> 't list) \<Rightarrow> 't set \<Rightarrow> bool" where
  "queues_inv Q S \<longleftrightarrow> (\<forall>q. distinct (Q q)) \<and> (\<forall>q q' t. t \<in> set (Q q) \<longrightarrow> t \<in> set (Q q') \<longrightarrow> q = q') \<and>
     (\<forall>t. (\<exists>q. t \<in> set (Q q)) \<longleftrightarrow> t \<in> S)"

lemma queues_sleep: "queues_inv Q S \<Longrightarrow> t \<notin> S \<Longrightarrow> queues_inv (Q(q := Q q @ [t])) (insert t S)"
  unfolding queues_inv_def by (auto split: if_splits)

lemma queues_clear:
  assumes "queues_inv Q S"
  shows "queues_inv (Q(q := [])) (S - set (Q q))"
  using assms unfolding queues_inv_def by (auto split: if_splits)

lemma queues_remove:
  assumes "queues_inv Q S" "Q q = us @ t # ts"
  shows "queues_inv (Q(q := us @ ts)) (S - {t})"
proof -
  have t: "distinct (Q q)" "\<And>q'. q' \<noteq> q \<Longrightarrow> t \<notin> set (Q q')" "\<And>q'. distinct (Q q')"
    using assms unfolding queues_inv_def by (metis in_set_conv_decomp)+
  then have d: "distinct (us @ ts)" "t \<notin> set (us @ ts)" "set (Q q) = insert t (set (us @ ts))"
    by (auto simp: assms(2))
  have "\<forall>v. (\<exists>q'. v \<in> set ((Q(q := us @ ts)) q')) \<longleftrightarrow> v \<in> S - {t}"
    using assms(1) t d unfolding queues_inv_def by (metis Diff_iff fun_upd_apply insert_iff empty_iff)
  then show ?thesis
    using assms(1) t d unfolding queues_inv_def by (simp del: distinct_append set_append) (metis insertCI)
qed

lemma queues_wake: "queues_inv Q S \<Longrightarrow> Q q = t # ts \<Longrightarrow> queues_inv (Q(q := ts)) (S - {t})"
  using queues_remove [of Q S q "[]"] by simp

lemma queues_move:
  assumes "queues_inv Q S" "Q q = t # ts" "q' \<noteq> q"
  shows "queues_inv (Q(q := ts, q' := Q q' @ [t])) S"
proof -
  have "t \<in> S" using assms(1,2) unfolding queues_inv_def by (metis list.set_intros(1))
  then show ?thesis
    using queues_sleep [OF queues_wake [OF assms(1,2)], of t q'] assms(3) by (simp add: insert_absorb fun_upd_twist)
qed

text \<open>The threads stalled for one of the given reasons.\<close>

definition stalled_for :: "stall_type_t set \<Rightarrow> thread_manager \<Rightarrow> thread_id_t set" where
  "stalled_for R tm = {t. status (m_thread_state tm t) = STALLED \<and> stalled_reason (m_thread_state tm t) \<in> R}"

lemma stalled_for_stall: "stalled_for R (stallThread t r tm) = (if r \<in> R then insert t (stalled_for R tm) else stalled_for R tm - {t})"
  by (auto simp: stalled_for_def stallThread_def stallThread_async_def Let_def)

lemma stalled_for_resume: "stalled_for R (resumeThread t time msg tm) = stalled_for R tm - {t}"
  by (auto simp: stalled_for_def resumeThread_def signal_def resumeThread_async_def)

lemma running_not_stalled: "isThreadRunning t tm \<Longrightarrow> t \<notin> stalled_for R tm"
  by (auto simp: stalled_for_def isThreadRunning_def)

end
