(* ===== verification/Sync_Server.thy ===== *)
theory Sync_Server
  imports Wait_Queues
begin

text \<open>
  \<^verbatim>\<open>system/sync_server.{h,cc}\<close>: the mutexes, condition variables and barriers the simulator provides to
  the application. Every entry point takes the lock of the thread manager and runs atomically until it
  returns or puts the caller to sleep; a result \<open>None\<close> stands for a call that sleeps. The call then
  returns when the caller is resumed, with the time in \<^verbatim>\<open>m_wakeup_time\<close>. Mutexes and condition
  variables are found by the address of the application's object and made on first use;
  \<^verbatim>\<open>NO_OWNER\<close> is \<^verbatim>\<open>UINT_MAX\<close> in a \<^verbatim>\<open>thread_id_t\<close>, hence \<open>-1\<close>.
\<close>

section \<open>Mutexes\<close>

abbreviation (input) NO_OWNER :: thread_id_t where "NO_OWNER \<equiv> - 1"

record sim_mutex =
  m_waiting :: "thread_id_t list"
  m_owner :: thread_id_t

definition SimMutex :: sim_mutex where
  "SimMutex = \<lparr>m_waiting = [], m_owner = NO_OWNER\<rparr>"

definition isLocked :: "sim_mutex \<Rightarrow> thread_id_t \<Rightarrow> bool" where
  "isLocked m thread_id =
     (if m_owner m = NO_OWNER then False else if m_owner m = thread_id then False else True)"

definition mutex_lock ::
  "sim_mutex \<Rightarrow> thread_id_t \<Rightarrow> UInt64 \<Rightarrow> thread_manager \<Rightarrow> UInt64 option \<times> sim_mutex \<times> thread_manager" where
  "mutex_lock m thread_id time tm =
     (if m_owner m = NO_OWNER then (Some time, m\<lparr>m_owner := thread_id\<rparr>, tm)
      else (None, m\<lparr>m_waiting := m_waiting m @ [thread_id]\<rparr>, stallThread thread_id STALL_MUTEX tm))"

definition lock_async ::
  "sim_mutex \<Rightarrow> thread_id_t \<Rightarrow> UInt64 \<Rightarrow> thread_manager \<Rightarrow> bool \<times> sim_mutex \<times> thread_manager" where
  "lock_async m thread_id time tm =
     (if m_owner m = NO_OWNER then (True, m\<lparr>m_owner := thread_id\<rparr>, resumeThread thread_id time False tm)
      else (False, m\<lparr>m_waiting := m_waiting m @ [thread_id]\<rparr>, tm))"

definition unlock ::
  "sim_mutex \<Rightarrow> thread_id_t \<Rightarrow> UInt64 \<Rightarrow> thread_manager \<Rightarrow> (thread_id_t \<times> sim_mutex \<times> thread_manager) result" where
  "unlock m thread_id time tm =
     bindE (assertE (m_owner m = thread_id) (ASSERT ''m_owner == thread_id'')) (\<lambda>_.
       case m_waiting m of
         [] \<Rightarrow> Inr (NO_OWNER, m\<lparr>m_owner := NO_OWNER\<rparr>, tm)
       | w # ws \<Rightarrow> Inr (w, m\<lparr>m_waiting := ws, m_owner := w\<rparr>, resumeThread w time False tm))"

section \<open>Condition variables and barriers\<close>

text \<open>A waiter of a condition variable with the address of the mutex it gave up.\<close>

type_synonym cond_waiter = "thread_id_t \<times> IntPtr"

record sim_barrier =
  b_waiting :: "thread_id_t list"
  m_count :: UInt32

definition SimBarrier :: "UInt32 \<Rightarrow> sim_barrier" where
  "SimBarrier count = \<lparr>b_waiting = [], m_count = count\<rparr>"

definition barrier_wait ::
  "sim_barrier \<Rightarrow> thread_id_t \<Rightarrow> UInt64 \<Rightarrow> thread_manager \<Rightarrow> UInt64 option \<times> sim_barrier \<times> thread_manager" where
  "barrier_wait b thread_id time tm =
     (if length (b_waiting b) = unat (m_count b - 1)
      then (Some time, b\<lparr>b_waiting := []\<rparr>, foldl (\<lambda>tm w. resumeThread w time False tm) tm (b_waiting b))
      else (None, b\<lparr>b_waiting := b_waiting b @ [thread_id]\<rparr>, stallThread thread_id STALL_BARRIER tm))"

section \<open>The server\<close>

record sync_server =
  m_mutexes :: "IntPtr \<Rightarrow> sim_mutex option"
  m_conds :: "IntPtr \<Rightarrow> cond_waiter list option"
  m_barriers :: "sim_barrier list"
  m_reschedule_cost :: UInt64
  thread_mgr :: thread_manager

definition SyncServer :: "UInt64 \<Rightarrow> thread_manager \<Rightarrow> sync_server" where
  "SyncServer reschedule_cost_ns tm =
     \<lparr>m_mutexes = (\<lambda>_. None), m_conds = (\<lambda>_. None), m_barriers = [],
      m_reschedule_cost = 1000000 * reschedule_cost_ns, thread_mgr = tm\<rparr>"

definition getMutex :: "IntPtr \<Rightarrow> bool \<Rightarrow> sync_server \<Rightarrow> (sim_mutex \<times> sync_server) result" where
  "getMutex mux canCreate s =
     (case m_mutexes s mux of
        Some m \<Rightarrow> Inr (m, s)
      | None \<Rightarrow>
          if canCreate then Inr (SimMutex, s\<lparr>m_mutexes := (m_mutexes s)(mux \<mapsto> SimMutex)\<rparr>)
          else Inl (LOG_ASSERT_ERROR ''Invalid mutex id passed''))"

definition getCond :: "IntPtr \<Rightarrow> bool \<Rightarrow> sync_server \<Rightarrow> (cond_waiter list \<times> sync_server) result" where
  "getCond cnd canCreate s =
     (case m_conds s cnd of
        Some ws \<Rightarrow> Inr (ws, s)
      | None \<Rightarrow>
          if canCreate then Inr ([], s\<lparr>m_conds := (m_conds s)(cnd \<mapsto> [])\<rparr>)
          else Inl (LOG_ASSERT_ERROR ''Invalid cond id passed''))"

definition mutexInit :: "IntPtr \<Rightarrow> sync_server \<Rightarrow> sync_server result" where
  "mutexInit mux s = bindE (getMutex mux True s) (\<lambda>(_, s1). Inr s1)"

definition put_mutex :: "IntPtr \<Rightarrow> sim_mutex \<Rightarrow> thread_manager \<Rightarrow> sync_server \<Rightarrow> sync_server" where
  "put_mutex mux m tm s = s\<lparr>m_mutexes := (m_mutexes s)(mux \<mapsto> m), thread_mgr := tm\<rparr>"

definition mutexLock ::
  "thread_id_t \<Rightarrow> IntPtr \<Rightarrow> bool \<Rightarrow> UInt64 \<Rightarrow> sync_server \<Rightarrow> ((UInt64 \<times> bool) option \<times> sync_server) result" where
  "mutexLock thread_id mux tryLock time s =
     bindE (getMutex mux True s) (\<lambda>(m, s1).
       if tryLock \<and> isLocked m thread_id then Inr (Some (time, False), s1)
       else
         let (r, m', tm) = mutex_lock m thread_id time (thread_mgr s1)
         in Inr (map_option (\<lambda>time_end. (time_end + m_reschedule_cost s1, True)) r, put_mutex mux m' tm s1))"

definition mutexUnlock :: "thread_id_t \<Rightarrow> IntPtr \<Rightarrow> UInt64 \<Rightarrow> sync_server \<Rightarrow> (UInt64 \<times> sync_server) result" where
  "mutexUnlock thread_id mux time s =
     bindE (getMutex mux False s) (\<lambda>(m, s1).
     bindE (unlock m thread_id (time + m_reschedule_cost s1) (thread_mgr s1)) (\<lambda>(new_owner, m', tm).
       Inr (time + (if new_owner = NO_OWNER then 0 else m_reschedule_cost s1), put_mutex mux m' tm s1)))"

definition condInit :: "IntPtr \<Rightarrow> sync_server \<Rightarrow> sync_server result" where
  "condInit cnd s = bindE (getCond cnd True s) (\<lambda>(_, s1). Inr s1)"

definition condWait ::
  "thread_id_t \<Rightarrow> IntPtr \<Rightarrow> IntPtr \<Rightarrow> UInt64 \<Rightarrow> sync_server \<Rightarrow> (UInt64 option \<times> sync_server) result" where
  "condWait thread_id cnd mux time s =
     bindE (getMutex mux True s) (\<lambda>(m, s1).
     bindE (getCond cnd True s1) (\<lambda>(ws, s2).
     bindE (unlock m thread_id time (thread_mgr s2)) (\<lambda>(_, m', tm).
       let s3 = put_mutex mux m' tm s2
       in Inr (None, s3\<lparr>m_conds := (m_conds s3)(cnd \<mapsto> ws @ [(thread_id, mux)]),
                        thread_mgr := stallThread thread_id STALL_COND (thread_mgr s3)\<rparr>))))"

text \<open>Waking one waiter: it takes its mutex if that is free and is queued for it otherwise.\<close>

definition wake_waiter :: "cond_waiter \<Rightarrow> UInt64 \<Rightarrow> sync_server \<Rightarrow> sync_server" where
  "wake_waiter w time s =
     (case m_mutexes s (snd w) of
        Some m \<Rightarrow> let (_, m', tm) = lock_async m (fst w) time (thread_mgr s) in put_mutex (snd w) m' tm s
      | None \<Rightarrow> s)"

definition condSignal :: "IntPtr \<Rightarrow> UInt64 \<Rightarrow> sync_server \<Rightarrow> (UInt64 \<times> sync_server) result" where
  "condSignal cnd time s =
     bindE (getCond cnd True s) (\<lambda>(ws, s1).
       case ws of
         [] \<Rightarrow> Inr (time, s1)
       | w # ws' \<Rightarrow> Inr (time, wake_waiter w time (s1\<lparr>m_conds := (m_conds s1)(cnd \<mapsto> ws')\<rparr>)))"

fun broadcast_loop :: "IntPtr \<Rightarrow> UInt64 \<Rightarrow> cond_waiter list \<Rightarrow> sync_server \<Rightarrow> sync_server" where
  "broadcast_loop cnd time [] s = s"
| "broadcast_loop cnd time (w # ws) s =
     broadcast_loop cnd time ws (wake_waiter w time (s\<lparr>m_conds := (m_conds s)(cnd \<mapsto> ws)\<rparr>))"

definition condBroadcast :: "IntPtr \<Rightarrow> UInt64 \<Rightarrow> sync_server \<Rightarrow> (UInt64 \<times> sync_server) result" where
  "condBroadcast cnd time s =
     bindE (getCond cnd True s) (\<lambda>(ws, s1). Inr (time, broadcast_loop cnd time ws s1))"

definition barrierInit :: "UInt32 \<Rightarrow> sync_server \<Rightarrow> int \<times> sync_server" where
  "barrierInit count s =
     (let bs = m_barriers s @ [SimBarrier count] in (int (length bs) - 1, s\<lparr>m_barriers := bs\<rparr>))"

definition barrierWait ::
  "thread_id_t \<Rightarrow> int \<Rightarrow> UInt64 \<Rightarrow> sync_server \<Rightarrow> (UInt64 option \<times> sync_server) result" where
  "barrierWait thread_id barrier time s =
     (if 0 \<le> barrier \<and> nat barrier < length (m_barriers s)
      then let (r, b, tm) = barrier_wait (m_barriers s ! nat barrier) thread_id time (thread_mgr s)
           in Inr (r, s\<lparr>m_barriers := (m_barriers s)[nat barrier := b], thread_mgr := tm\<rparr>)
      else Inl (UNDEFINED ''m_barriers out of range''))"

section \<open>Sleeping threads and queues\<close>

datatype queue_id = Mutex_Queue IntPtr | Cond_Queue IntPtr | Barrier_Queue nat

definition sleepers :: "sync_server \<Rightarrow> queue_id \<Rightarrow> thread_id_t list" where
  "sleepers s q =
     (case q of
        Mutex_Queue a \<Rightarrow> (case m_mutexes s a of Some m \<Rightarrow> m_waiting m | None \<Rightarrow> [])
      | Cond_Queue a \<Rightarrow> (case m_conds s a of Some ws \<Rightarrow> map fst ws | None \<Rightarrow> [])
      | Barrier_Queue i \<Rightarrow> if i < length (m_barriers s) then b_waiting (m_barriers s ! i) else [])"

definition stalled :: "sync_server \<Rightarrow> thread_id_t set" where
  "stalled s = stalled_for {STALL_MUTEX, STALL_COND, STALL_BARRIER} (thread_mgr s)"

definition sync_inv :: "sync_server \<Rightarrow> bool" where
  "sync_inv s \<longleftrightarrow> queues_inv (sleepers s) (stalled s) \<and> (\<forall>t \<in> stalled s. 0 \<le> t) \<and>
     (\<forall>a m. m_mutexes s a = Some m \<longrightarrow> m_owner m = NO_OWNER \<longrightarrow> m_waiting m = []) \<and>
     (\<forall>a ws w. m_conds s a = Some ws \<longrightarrow> w \<in> set ws \<longrightarrow> m_mutexes s (snd w) \<noteq> None) \<and>
     (\<forall>b \<in> set (m_barriers s). length (b_waiting b) \<le> unat (m_count b - 1))"

lemma stalled_stall: "stalled (s\<lparr>thread_mgr := stallThread t r (thread_mgr s)\<rparr>) =
    (if r \<in> {STALL_MUTEX, STALL_COND, STALL_BARRIER} then insert t (stalled s) else stalled s - {t})"
  by (simp add: stalled_def stalled_for_stall)

lemma stalled_resume: "stalled (s\<lparr>thread_mgr := resumeThread t time False (thread_mgr s)\<rparr>) = stalled s - {t}"
  by (simp add: stalled_def stalled_for_resume)

lemma stalled_cong: "thread_mgr s' = thread_mgr s \<Longrightarrow> stalled s' = stalled s"
  by (simp add: stalled_def)

lemma sleepers_put_mutex:
  "sleepers (put_mutex a m tm s) = (sleepers s)(Mutex_Queue a := m_waiting m)"
  by (auto simp: sleepers_def put_mutex_def fun_eq_iff split: queue_id.split)

lemma getMutex_inv:
  assumes "getMutex a b s = Inr (m, s1)" "sync_inv s"
  shows "sync_inv s1 \<and> m_mutexes s1 a = Some m \<and> thread_mgr s1 = thread_mgr s \<and> m_conds s1 = m_conds s \<and>
    m_reschedule_cost s1 = m_reschedule_cost s"
proof -
  have "sync_inv (s\<lparr>m_mutexes := (m_mutexes s)(a \<mapsto> SimMutex)\<rparr>)" if "m_mutexes s a = None"
  proof -
    have "sleepers (s\<lparr>m_mutexes := (m_mutexes s)(a \<mapsto> SimMutex)\<rparr>) = sleepers s"
      using that by (auto simp: sleepers_def SimMutex_def fun_eq_iff split: queue_id.split)
    then show ?thesis using assms(2) stalled_cong [of "s\<lparr>m_mutexes := (m_mutexes s)(a \<mapsto> SimMutex)\<rparr>" s]
      by (auto simp: sync_inv_def SimMutex_def)
  qed
  then show ?thesis using assms by (auto simp: getMutex_def split: option.splits if_splits)
qed

lemma getCond_inv:
  assumes "getCond a b s = Inr (ws, s1)" "sync_inv s"
  shows "sync_inv s1 \<and> m_conds s1 a = Some ws \<and> thread_mgr s1 = thread_mgr s \<and> m_mutexes s1 = m_mutexes s"
proof -
  have "sync_inv (s\<lparr>m_conds := (m_conds s)(a \<mapsto> [])\<rparr>)" if "m_conds s a = None"
  proof -
    have "sleepers (s\<lparr>m_conds := (m_conds s)(a \<mapsto> [])\<rparr>) = sleepers s"
      using that by (auto simp: sleepers_def fun_eq_iff split: queue_id.split)
    then show ?thesis using assms(2) stalled_cong [of "s\<lparr>m_conds := (m_conds s)(a \<mapsto> [])\<rparr>" s]
      by (auto simp: sync_inv_def)
  qed
  then show ?thesis using assms by (auto simp: getCond_def split: option.splits if_splits)
qed

section \<open>Every call keeps the invariant\<close>

lemma sync_inv_put_mutex:
  assumes "sync_inv s" "queues_inv ((sleepers s)(Mutex_Queue a := m_waiting m)) (stalled (put_mutex a m tm s))"
    and "\<forall>t \<in> stalled (put_mutex a m tm s). 0 \<le> t" "m_owner m = NO_OWNER \<longrightarrow> m_waiting m = []"
  shows "sync_inv (put_mutex a m tm s)"
  using assms by (auto simp: sync_inv_def sleepers_put_mutex) (auto simp: put_mutex_def split: if_splits)

lemma stalled_put_mutex:
  "stalled (put_mutex a m (thread_mgr s) s) = stalled s"
  "stalled (put_mutex a m (resumeThread t time False (thread_mgr s)) s) = stalled s - {t}"
  "stalled (put_mutex a m (stallThread t STALL_MUTEX (thread_mgr s)) s) = insert t (stalled s)"
  by (simp_all add: put_mutex_def stalled_def stalled_for_stall stalled_for_resume)

lemma sleepers_mutex: "m_mutexes s a = Some m \<Longrightarrow> sleepers s (Mutex_Queue a) = m_waiting m"
  by (simp add: sleepers_def)

lemma mutex_lock_inv:
  assumes "sync_inv s" "m_mutexes s a = Some m" "t \<notin> stalled s" "0 \<le> t" "mutex_lock m t time (thread_mgr s) = (r, m', tm)"
  shows "sync_inv (put_mutex a m' tm s)"
proof (cases "m_owner m = NO_OWNER")
  case True
  then have e: "m' = m\<lparr>m_owner := t\<rparr>" "tm = thread_mgr s" and w: "m_waiting m = []"
    using assms by (auto simp: mutex_lock_def sync_inv_def)
  have "(sleepers s)(Mutex_Queue a := []) = sleepers s" using sleepers_mutex [OF assms(2)] w by (simp add: fun_upd_idem)
  then show ?thesis
    using assms(1,4) w unfolding e
    by (intro sync_inv_put_mutex) (auto simp: stalled_put_mutex sync_inv_def)
next
  case False
  then have e: "m' = m\<lparr>m_waiting := m_waiting m @ [t]\<rparr>" "tm = stallThread t STALL_MUTEX (thread_mgr s)"
    using assms(5) by (auto simp: mutex_lock_def)
  have "queues_inv ((sleepers s)(Mutex_Queue a := m_waiting m @ [t])) (insert t (stalled s))"
    using queues_sleep [of "sleepers s" "stalled s" t "Mutex_Queue a"] assms(1,3) sleepers_mutex [OF assms(2)]
    by (simp add: sync_inv_def)
  then show ?thesis
    using assms(1,4) False unfolding e
    by (intro sync_inv_put_mutex) (auto simp: stalled_put_mutex sync_inv_def)
qed

lemma unlock_inv:
  assumes "sync_inv s" "m_mutexes s a = Some m" "unlock m t time (thread_mgr s) = Inr (w, m', tm)"
  shows "sync_inv (put_mutex a m' tm s) \<and> m_owner m = t \<and> stalled (put_mutex a m' tm s) \<subseteq> stalled s"
proof (cases "m_waiting m")
  case Nil
  then have e: "m' = m\<lparr>m_owner := NO_OWNER\<rparr>" "tm = thread_mgr s" and t: "m_owner m = t"
    using assms(3) by (auto simp: unlock_def split: if_splits)
  have "(sleepers s)(Mutex_Queue a := []) = sleepers s" using sleepers_mutex [OF assms(2)] Nil by (simp add: fun_upd_idem)
  then have "sync_inv (put_mutex a m' tm s)"
    using assms(1) Nil unfolding e by (intro sync_inv_put_mutex) (auto simp: stalled_put_mutex sync_inv_def)
  then show ?thesis using t by (simp add: e stalled_put_mutex)
next
  case (Cons u us)
  then have e: "m' = m\<lparr>m_waiting := us, m_owner := u\<rparr>" "tm = resumeThread u time False (thread_mgr s)" and t: "m_owner m = t"
    using assms(3) by (auto simp: unlock_def split: if_splits)
  have q: "queues_inv ((sleepers s)(Mutex_Queue a := us)) (stalled s - {u})"
    using assms(1) sleepers_mutex [OF assms(2)] Cons by (intro queues_wake) (auto simp: sync_inv_def)
  have "u \<in> set (sleepers s (Mutex_Queue a))" using sleepers_mutex [OF assms(2)] Cons by simp
  then have "u \<in> stalled s" using assms(1) by (auto simp: sync_inv_def queues_inv_def)
  then have "0 \<le> u" using assms(1) by (simp add: sync_inv_def)
  then have "sync_inv (put_mutex a m' tm s)"
    using assms(1) q unfolding e by (intro sync_inv_put_mutex) (auto simp: stalled_put_mutex sync_inv_def)
  then show ?thesis using t by (auto simp: e stalled_put_mutex)
qed

lemma sleepers_conds: "sleepers (s\<lparr>m_conds := (m_conds s)(c \<mapsto> ws)\<rparr>) = (sleepers s)(Cond_Queue c := map fst ws)"
  by (auto simp: sleepers_def fun_eq_iff split: queue_id.split)

lemma sleepers_thread_mgr [simp]: "sleepers (s\<lparr>thread_mgr := tm\<rparr>) = sleepers s"
  by (simp add: sleepers_def fun_eq_iff split: queue_id.split)

lemma cond_sleep_inv:
  assumes "sync_inv s" "m_conds s c = Some ws" "t \<notin> stalled s" "0 \<le> t" "m_mutexes s a \<noteq> None"
  shows "sync_inv (s\<lparr>m_conds := (m_conds s)(c \<mapsto> ws @ [(t, a)]), thread_mgr := stallThread t STALL_COND (thread_mgr s)\<rparr>)"
proof -
  let ?s = "s\<lparr>m_conds := (m_conds s)(c \<mapsto> ws @ [(t, a)])\<rparr>"
  have st: "stalled (?s\<lparr>thread_mgr := stallThread t STALL_COND (thread_mgr ?s)\<rparr>) = insert t (stalled s)"
    unfolding stalled_stall using stalled_cong [of ?s s] by simp
  have "sleepers s (Cond_Queue c) = map fst ws" using assms(2) by (simp add: sleepers_def)
  then have "queues_inv ((sleepers s)(Cond_Queue c := map fst ws @ [t])) (insert t (stalled s))"
    using queues_sleep [of "sleepers s" "stalled s" t "Cond_Queue c"] assms(1,3) by (simp add: sync_inv_def)
  then show ?thesis
    using assms st by (auto simp: sync_inv_def sleepers_conds split: if_splits)
qed

lemma wake_waiter_inv:
  assumes "sync_inv s" "m_conds s c = Some ((t, a) # ws)"
  shows "sync_inv (wake_waiter (t, a) time (s\<lparr>m_conds := (m_conds s)(c \<mapsto> ws)\<rparr>))"
proof -
  let ?s = "s\<lparr>m_conds := (m_conds s)(c \<mapsto> ws)\<rparr>"
  have q: "queues_inv (sleepers s) (stalled s)" and sl: "sleepers s (Cond_Queue c) = t # map fst ws"
    using assms by (auto simp: sync_inv_def sleepers_def)
  obtain m where m: "m_mutexes s a = Some m" using assms by (fastforce simp: sync_inv_def)
  have t0: "t \<in> stalled s" "0 \<le> t" using q sl assms(1) unfolding sync_inv_def queues_inv_def by (metis list.set_intros(1))+
  show ?thesis
  proof (cases "m_owner m = NO_OWNER")
    case True
    then have w: "m_waiting m = []" using assms(1) m by (simp add: sync_inv_def)
    let ?m = "m\<lparr>m_owner := t\<rparr>" and ?tm = "resumeThread t time False (thread_mgr s)"
    have e: "wake_waiter (t, a) time ?s = put_mutex a ?m ?tm ?s" using m True by (simp add: wake_waiter_def lock_async_def)
    have st: "stalled (put_mutex a ?m ?tm ?s) = stalled s - {t}"
      using stalled_put_mutex(2) [of a ?m t time ?s] stalled_cong [of ?s s] by simp
    have "sleepers (put_mutex a ?m ?tm ?s) = (sleepers s)(Cond_Queue c := map fst ws)"
      using sleepers_mutex [OF m] w unfolding sleepers_put_mutex sleepers_conds by (auto simp: fun_eq_iff)
    then show ?thesis
      using queues_wake [OF q sl] assms st t0(2) w unfolding e sync_inv_def
      by (auto simp: put_mutex_def split: if_splits)
  next
    case False
    let ?m = "m\<lparr>m_waiting := m_waiting m @ [t]\<rparr>"
    have e: "wake_waiter (t, a) time ?s = put_mutex a ?m (thread_mgr ?s) ?s" using m False by (simp add: wake_waiter_def lock_async_def)
    have st: "stalled (put_mutex a ?m (thread_mgr ?s) ?s) = stalled s"
      using stalled_put_mutex(1) [of a ?m ?s] stalled_cong [of ?s s] by simp
    have "sleepers (put_mutex a ?m (thread_mgr ?s) ?s) =
        (sleepers s)(Cond_Queue c := map fst ws, Mutex_Queue a := sleepers s (Mutex_Queue a) @ [t])"
      using sleepers_mutex [OF m] unfolding sleepers_put_mutex sleepers_conds by simp
    then show ?thesis
      using queues_move [OF q sl, of "Mutex_Queue a"] assms st False unfolding e sync_inv_def
      by (auto simp: put_mutex_def split: if_splits)
  qed
qed

lemma wake_waiter_conds [simp]: "m_conds (wake_waiter w time s) = m_conds s"
  by (simp add: wake_waiter_def put_mutex_def split_beta split: option.split)

lemma broadcast_loop_inv: "sync_inv s \<Longrightarrow> m_conds s c = Some ws \<Longrightarrow> sync_inv (broadcast_loop c time ws s)"
proof (induction ws arbitrary: s)
  case (Cons w ws)
  obtain t a where w: "w = (t, a)" by fastforce
  show ?case using wake_waiter_inv [OF Cons.prems(1), of c t a ws time] Cons.prems(2) Cons.IH by (simp add: w)
qed simp

lemma stalled_foldl_resume:
  "stalled (s\<lparr>thread_mgr := foldl (\<lambda>tm w. resumeThread w time False tm) (thread_mgr s) ws\<rparr>) = stalled s - set ws"
proof (induction ws arbitrary: s)
  case (Cons w ws)
  have "foldl (\<lambda>tm w. resumeThread w time False tm) (thread_mgr s) (w # ws) =
      foldl (\<lambda>tm w. resumeThread w time False tm) (thread_mgr (s\<lparr>thread_mgr := resumeThread w time False (thread_mgr s)\<rparr>)) ws" by simp
  then show ?case
    using Cons [of "s\<lparr>thread_mgr := resumeThread w time False (thread_mgr s)\<rparr>"] by (auto simp: stalled_resume)
qed simp

lemma sleepers_barriers:
  "i < length (m_barriers s) \<Longrightarrow>
     sleepers (s\<lparr>m_barriers := (m_barriers s)[i := b]\<rparr>) = (sleepers s)(Barrier_Queue i := b_waiting b)"
  by (auto simp: sleepers_def fun_eq_iff nth_list_update split: queue_id.split)

lemma barrierWait_inv:
  assumes "barrierWait t i time s = Inr (r, s')" "sync_inv s" "t \<notin> stalled s" "0 \<le> t"
  shows "sync_inv s'"
proof -
  let ?b = "m_barriers s ! nat i"
  have i: "nat i < length (m_barriers s)" using assms(1) by (simp add: barrierWait_def split: if_splits)
  then have sl: "sleepers s (Barrier_Queue (nat i)) = b_waiting ?b" and len: "length (b_waiting ?b) \<le> unat (m_count ?b - 1)"
    using assms(2) by (auto simp: sleepers_def sync_inv_def)
  have keep: "\<forall>x \<in> set ((m_barriers s)[nat i := b]). length (b_waiting x) \<le> unat (m_count x - 1)"
    if "length (b_waiting b) \<le> unat (m_count b - 1)" for b
    using assms(2) that by (auto simp: sync_inv_def dest: set_update_subset_insert [THEN subsetD])
  show ?thesis
  proof (cases "length (b_waiting ?b) = unat (m_count ?b - 1)")
    case True
    let ?s = "s\<lparr>m_barriers := (m_barriers s)[nat i := ?b\<lparr>b_waiting := []\<rparr>]\<rparr>"
    have s': "s' = ?s\<lparr>thread_mgr := foldl (\<lambda>tm w. resumeThread w time False tm) (thread_mgr ?s) (b_waiting ?b)\<rparr>"
      using assms(1) True i by (auto simp: barrierWait_def barrier_wait_def split: if_splits)
    have st: "stalled s' = stalled s - set (b_waiting ?b)"
      unfolding s' stalled_foldl_resume using stalled_cong [of ?s s] by simp
    have "sleepers s' = (sleepers s)(Barrier_Queue (nat i) := [])" unfolding s' by (simp add: sleepers_barriers i)
    then show ?thesis
      using queues_clear [of "sleepers s" "stalled s" "Barrier_Queue (nat i)"] assms(2) st keep [of "?b\<lparr>b_waiting := []\<rparr>"]
      unfolding sync_inv_def by (simp add: sl) (simp add: s')
  next
    case False
    let ?b' = "?b\<lparr>b_waiting := b_waiting ?b @ [t]\<rparr>"
    let ?s = "s\<lparr>m_barriers := (m_barriers s)[nat i := ?b']\<rparr>"
    have s': "s' = ?s\<lparr>thread_mgr := stallThread t STALL_BARRIER (thread_mgr ?s)\<rparr>"
      using assms(1) False i by (auto simp: barrierWait_def barrier_wait_def split: if_splits)
    have st: "stalled s' = insert t (stalled s)"
      unfolding s' stalled_stall using stalled_cong [of ?s s] by simp
    have "sleepers s' = (sleepers s)(Barrier_Queue (nat i) := sleepers s (Barrier_Queue (nat i)) @ [t])"
      unfolding s' by (simp add: sleepers_barriers i sl)
    then show ?thesis
      using queues_sleep [of "sleepers s" "stalled s" t "Barrier_Queue (nat i)"] assms(2-4) st keep [of ?b'] len False
      unfolding sync_inv_def by simp (simp add: s')
  qed
qed

section \<open>The server as a state machine\<close>

text \<open>
  A call is made by a thread that is running. Between calls other parts of the simulator may start, stall
  and resume threads for reasons of their own.
\<close>

definition runs :: "sync_server \<Rightarrow> thread_id_t \<Rightarrow> bool" where
  "runs s t \<longleftrightarrow> 0 \<le> t \<and> isThreadRunning t (thread_mgr s)"

lemma runs_not_stalled: "runs s t \<Longrightarrow> t \<notin> stalled s \<and> 0 \<le> t"
  by (auto simp: runs_def stalled_def running_not_stalled)

inductive sync_step :: "sync_server \<Rightarrow> sync_server \<Rightarrow> bool" where
  mutex_init: "mutexInit a s = Inr s' \<Longrightarrow> sync_step s s'"
| lock: "mutexLock t a try time s = Inr (r, s') \<Longrightarrow> runs s t \<Longrightarrow> sync_step s s'"
| unlock: "mutexUnlock t a time s = Inr (r, s') \<Longrightarrow> runs s t \<Longrightarrow> sync_step s s'"
| cond_init: "condInit c s = Inr s' \<Longrightarrow> sync_step s s'"
| cond_wait: "condWait t c a time s = Inr (r, s') \<Longrightarrow> runs s t \<Longrightarrow> sync_step s s'"
| cond_signal: "condSignal c time s = Inr (r, s') \<Longrightarrow> sync_step s s'"
| cond_broadcast: "condBroadcast c time s = Inr (r, s') \<Longrightarrow> sync_step s s'"
| barrier_init: "barrierInit n s = (i, s') \<Longrightarrow> sync_step s s'"
| barrier_wait: "barrierWait t i time s = Inr (r, s') \<Longrightarrow> runs s t \<Longrightarrow> sync_step s s'"
| other: "stalled (s\<lparr>thread_mgr := tm\<rparr>) = stalled s \<Longrightarrow> sync_step s (s\<lparr>thread_mgr := tm\<rparr>)"

lemma mutexLock_inv:
  assumes "mutexLock t a try time s = Inr (r, s')" "sync_inv s" "runs s t"
  shows "sync_inv s'"
proof -
  obtain m s1 where g: "getMutex a True s = Inr (m, s1)" using assms(1) by (auto simp: mutexLock_def)
  have s1: "sync_inv s1" "m_mutexes s1 a = Some m" "thread_mgr s1 = thread_mgr s" using getMutex_inv [OF g assms(2)] by auto
  obtain r' m' tm where l: "mutex_lock m t time (thread_mgr s1) = (r', m', tm)" by (metis prod_cases3)
  have "t \<notin> stalled s1 \<and> 0 \<le> t" using runs_not_stalled [OF assms(3)] stalled_cong [OF s1(3)] by simp
  then have "sync_inv (put_mutex a m' tm s1)" using mutex_lock_inv [OF s1(1,2) _ _ l] by blast
  then show ?thesis using assms(1) s1(1) l by (auto simp: mutexLock_def g split: if_splits)
qed

lemma mutexUnlock_inv:
  assumes "mutexUnlock t a time s = Inr (r, s')" "sync_inv s"
  shows "sync_inv s'"
proof -
  obtain m s1 where g: "getMutex a False s = Inr (m, s1)" using assms(1) by (auto simp: mutexUnlock_def)
  have s1: "sync_inv s1" "m_mutexes s1 a = Some m" using getMutex_inv [OF g assms(2)] by auto
  obtain w m' tm where u: "unlock m t (time + m_reschedule_cost s1) (thread_mgr s1) = Inr (w, m', tm)"
    using assms(1) by (auto simp: mutexUnlock_def g)
  show ?thesis using unlock_inv [OF s1 u] assms(1) by (auto simp: mutexUnlock_def g u)
qed

lemma condWait_inv:
  assumes "condWait t c a time s = Inr (r, s')" "sync_inv s" "runs s t"
  shows "sync_inv s'"
proof -
  obtain m s1 ws s2 where g: "getMutex a True s = Inr (m, s1)" "getCond c True s1 = Inr (ws, s2)"
    using assms(1) by (auto simp: condWait_def)
  have s1: "sync_inv s1" "m_mutexes s1 a = Some m" "thread_mgr s1 = thread_mgr s" using getMutex_inv [OF g(1) assms(2)] by auto
  have s2: "sync_inv s2" "m_conds s2 c = Some ws" "thread_mgr s2 = thread_mgr s" "m_mutexes s2 a = Some m"
    using getCond_inv [OF g(2) s1(1)] s1 by auto
  obtain w m' tm where u: "unlock m t time (thread_mgr s2) = Inr (w, m', tm)"
    using assms(1) by (auto simp: condWait_def g)
  let ?s = "put_mutex a m' tm s2"
  have s': "s' = ?s\<lparr>m_conds := (m_conds ?s)(c \<mapsto> ws @ [(t, a)]), thread_mgr := stallThread t STALL_COND (thread_mgr ?s)\<rparr>"
    using assms(1) by (auto simp: condWait_def g u Let_def)
  have k: "sync_inv ?s" "stalled ?s \<subseteq> stalled s2" using unlock_inv [OF s2(1,4) u] by auto
  have "t \<notin> stalled ?s" "0 \<le> t" using runs_not_stalled [OF assms(3)] stalled_cong [OF s2(3)] k(2) by auto
  then show ?thesis unfolding s' using k(1) s2(2) by (intro cond_sleep_inv) (auto simp: put_mutex_def)
qed

lemma condSignal_inv:
  assumes "condSignal c time s = Inr (r, s')" "sync_inv s"
  shows "sync_inv s'"
proof -
  obtain ws s1 where g: "getCond c True s = Inr (ws, s1)" using assms(1) by (auto simp: condSignal_def)
  have s1: "sync_inv s1" "m_conds s1 c = Some ws" using getCond_inv [OF g assms(2)] by auto
  show ?thesis
    using assms(1) s1 wake_waiter_inv [OF s1(1)] by (auto simp: condSignal_def g split: list.splits)
qed

lemma condBroadcast_inv:
  assumes "condBroadcast c time s = Inr (r, s')" "sync_inv s"
  shows "sync_inv s'"
proof -
  obtain ws s1 where g: "getCond c True s = Inr (ws, s1)" using assms(1) by (auto simp: condBroadcast_def)
  show ?thesis
    using assms(1) getCond_inv [OF g assms(2)] broadcast_loop_inv by (auto simp: condBroadcast_def g)
qed

lemma barrierInit_inv: "barrierInit n s = (i, s') \<Longrightarrow> sync_inv s \<Longrightarrow> sync_inv s'"
proof -
  assume b: "barrierInit n s = (i, s')" and s: "sync_inv s"
  have s': "s' = s\<lparr>m_barriers := m_barriers s @ [SimBarrier n]\<rparr>" using b by (simp add: barrierInit_def Let_def)
  have "sleepers s' = sleepers s" by (auto simp: s' sleepers_def SimBarrier_def fun_eq_iff nth_append split: queue_id.split)
  then show ?thesis using s stalled_cong [of s' s] by (auto simp: sync_inv_def s' SimBarrier_def)
qed

lemma sync_step_inv: "sync_step s s' \<Longrightarrow> sync_inv s \<Longrightarrow> sync_inv s'"
proof (induction rule: sync_step.induct)
  case (mutex_init a s s')
  then show ?case by (auto simp: mutexInit_def dest: getMutex_inv)
next
  case (cond_init c s s')
  then show ?case by (auto simp: condInit_def dest: getCond_inv)
next
  case (barrier_wait t i time s r s')
  then show ?case using barrierWait_inv runs_not_stalled by blast
next
  case (other s tm)
  then show ?case by (auto simp: sync_inv_def)
qed (blast intro: mutexLock_inv mutexUnlock_inv condWait_inv condSignal_inv condBroadcast_inv barrierInit_inv)+

lemma sync_steps_inv: "sync_step\<^sup>*\<^sup>* s s' \<Longrightarrow> sync_inv s \<Longrightarrow> sync_inv s'"
  by (induction rule: rtranclp_induct) (auto intro: sync_step_inv)

lemma SyncServer_inv: "stalled (SyncServer n tm) = {} \<Longrightarrow> sync_inv (SyncServer n tm)"
  by (auto simp: sync_inv_def queues_inv_def sleepers_def SyncServer_def split: queue_id.splits)

section \<open>Handing over\<close>

fun unlocks :: "nat \<Rightarrow> UInt64 \<Rightarrow> sim_mutex \<Rightarrow> thread_manager \<Rightarrow> (sim_mutex \<times> thread_manager) result" where
  "unlocks 0 time m tm = Inr (m, tm)"
| "unlocks (Suc k) time m tm = bindE (unlock m (m_owner m) time tm) (\<lambda>(_, m', tm'). unlocks k time m' tm')"

lemma unlocks_fifo:
  "k \<le> length (m_waiting m) \<Longrightarrow> \<exists>m' tm'. unlocks k time m tm = Inr (m', tm') \<and>
     m_owner m' = (m_owner m # m_waiting m) ! k \<and> m_waiting m' = drop k (m_waiting m) \<and>
     (\<forall>t. isThreadRunning t tm' \<longleftrightarrow> t \<in> set (take k (m_waiting m)) \<or> isThreadRunning t tm)"
proof (induction k arbitrary: m tm)
  case (Suc k)
  obtain w ws where w: "m_waiting m = w # ws" using Suc.prems by (cases "m_waiting m") auto
  let ?m = "m\<lparr>m_waiting := ws, m_owner := w\<rparr>" and ?tm = "resumeThread w time False tm"
  have u: "unlock m (m_owner m) time tm = Inr (w, ?m, ?tm)" by (simp add: unlock_def w)
  show ?case using Suc.IH [of ?m ?tm] Suc.prems by (auto simp: u w isThreadRunning_def)
qed simp

text \<open>A sequence of arrivals at a barrier, with what each call returned.\<close>

fun arrivals :: "sim_barrier \<Rightarrow> (thread_id_t \<times> UInt64) list \<Rightarrow> thread_manager
     \<Rightarrow> UInt64 option list \<times> sim_barrier \<times> thread_manager" where
  "arrivals b [] tm = ([], b, tm)"
| "arrivals b ((t, time) # as) tm =
     (let (r, b', tm') = barrier_wait b t time tm; (rs, b'', tm'') = arrivals b' as tm' in (r # rs, b'', tm''))"

lemma arrivals_before:
  assumes "length (b_waiting b) + length as \<le> unat (m_count b - 1)"
  shows "\<exists>tm'. arrivals b as tm = (replicate (length as) None, b\<lparr>b_waiting := b_waiting b @ map fst as\<rparr>, tm') \<and>
    (\<forall>t. t \<notin> set (map fst as) \<longrightarrow> m_thread_state tm' t = m_thread_state tm t \<and> m_wakeup_time tm' t = m_wakeup_time tm t)"
  using assms
proof (induction as arbitrary: b tm)
  case (Cons a as)
  obtain t time where a: "a = (t, time)" by fastforce
  let ?b = "b\<lparr>b_waiting := b_waiting b @ [t]\<rparr>" and ?tm = "stallThread t STALL_BARRIER tm"
  have w: "barrier_wait b t time tm = (None, ?b, ?tm)" using Cons.prems by (simp add: barrier_wait_def)
  show ?case
    using Cons.IH [of ?b ?tm] Cons.prems by (auto simp: a w stallThread_def stallThread_async_def Let_def)
qed simp

lemma arrivals_append:
  "arrivals b (as @ as') tm =
     (let (rs, b', tm') = arrivals b as tm; (rs', b'', tm'') = arrivals b' as' tm' in (rs @ rs', b'', tm''))"
  by (induction b as tm rule: arrivals.induct) (auto simp: Let_def split: prod.splits)

lemma foldl_resume:
  "isThreadRunning t (foldl (\<lambda>tm w. resumeThread w time False tm) tm ws) \<longleftrightarrow> t \<in> set ws \<or> isThreadRunning t tm"
  "t \<in> set ws \<Longrightarrow> m_wakeup_time (foldl (\<lambda>tm w. resumeThread w time False tm) tm ws) t = time"
  "t \<notin> set ws \<Longrightarrow> m_wakeup_time (foldl (\<lambda>tm w. resumeThread w time False tm) tm ws) t = m_wakeup_time tm t"
  by (induction ws rule: rev_induct) (auto simp: isThreadRunning_def)

section \<open>Examples\<close>

definition all_running :: thread_manager where
  "all_running = \<lparr>m_thread_state = (\<lambda>_. \<lparr>status = RUNNING, stalled_reason = STALL_UNSCHEDULED, waiter = INVALID_THREAD_ID\<rparr>),
     m_wakeup_time = (\<lambda>_. 0), m_wakeup_msg = (\<lambda>_. False)\<rparr>"

lemma no_one_stalled: "stalled (SyncServer n all_running) = {}"
  by (simp add: stalled_def stalled_for_def SyncServer_def all_running_def)

definition contended :: sync_server where
  "contended = (case mutexLock 1 0x10 False 5 (SyncServer 1 all_running) of
      Inr (_, s) \<Rightarrow> (case mutexLock 2 0x10 False 6 s of Inr (_, s') \<Rightarrow> s'))"

lemma contended_eq: "contended = \<lparr>m_mutexes = [0x10 \<mapsto> \<lparr>m_waiting = [2], m_owner = 1\<rparr>], m_conds = (\<lambda>_. None), m_barriers = [],
    m_reschedule_cost = 1000000, thread_mgr = stallThread 2 STALL_MUTEX all_running\<rparr>"
  by (simp add: contended_def mutexLock_def getMutex_def SyncServer_def SimMutex_def isLocked_def mutex_lock_def put_mutex_def)

lemma contended_reachable: "sync_step\<^sup>*\<^sup>* (SyncServer 1 all_running) contended"
proof -
  let ?s1 = "\<lparr>m_mutexes = [0x10 \<mapsto> \<lparr>m_waiting = [], m_owner = 1\<rparr>], m_conds = (\<lambda>_. None), m_barriers = [],
    m_reschedule_cost = 1000000, thread_mgr = all_running\<rparr>"
  have "mutexLock 1 0x10 False 5 (SyncServer 1 all_running) = Inr (Some (1000005, True), ?s1)"
    by (simp add: mutexLock_def getMutex_def SyncServer_def SimMutex_def isLocked_def mutex_lock_def put_mutex_def)
  moreover have "mutexLock 2 0x10 False 6 ?s1 = Inr (None, contended)"
    by (simp add: contended_eq mutexLock_def getMutex_def isLocked_def mutex_lock_def put_mutex_def)
  moreover have "runs (SyncServer 1 all_running) 1" "runs ?s1 2"
    by (simp_all add: runs_def isThreadRunning_def SyncServer_def all_running_def)
  ultimately show ?thesis by (meson lock rtranclp.rtrancl_into_rtrancl rtranclp.rtrancl_refl)
qed

section \<open>Properties\<close>

text \<open>
  C27: no sleeping thread is forgotten. In every state reachable by calls of running threads, a thread is
  stalled on a mutex, condition variable or barrier exactly when it is in one of their queues, it is in
  only one of them and only once; a free mutex has no waiters; and a barrier for \<open>n > 0\<close> threads holds fewer
  than \<open>n\<close> of them.
\<close>

theorem sync_no_lost_sleepers:
  assumes "stalled (SyncServer cost tm) = {}" "sync_step\<^sup>*\<^sup>* (SyncServer cost tm) s"
  shows "(t \<in> stalled s \<longleftrightarrow> (\<exists>q. t \<in> set (sleepers s q))) \<and>
    (t \<in> set (sleepers s q) \<and> t \<in> set (sleepers s q') \<longrightarrow> q = q') \<and> distinct (sleepers s q) \<and>
    (m_mutexes s a = Some m \<and> m_owner m = NO_OWNER \<longrightarrow> m_waiting m = []) \<and>
    (b \<in> set (m_barriers s) \<and> 0 < m_count b \<longrightarrow> length (b_waiting b) < unat (m_count b))"
proof -
  have inv: "sync_inv s" using sync_steps_inv [OF assms(2)] SyncServer_inv [OF assms(1)] by blast
  have "unat (m_count b - 1) < unat (m_count b)" if "0 < m_count b" using that by (simp add: unat_minus_one word_gt_0 unat_gt_0)
  then have "b \<in> set (m_barriers s) \<and> 0 < m_count b \<longrightarrow> length (b_waiting b) < unat (m_count b)"
    using inv by (auto simp: sync_inv_def)
  moreover have "queues_inv (sleepers s) (stalled s)" "m_mutexes s a = Some m \<and> m_owner m = NO_OWNER \<longrightarrow> m_waiting m = []"
    using inv by (auto simp: sync_inv_def)
  ultimately show ?thesis unfolding queues_inv_def by blast
qed

theorem sync_no_lost_sleepers_witness:
  "2 \<in> stalled contended \<and> (\<exists>q. 2 \<in> set (sleepers contended q))"
proof
  show "2 \<in> stalled contended" by (simp add: contended_eq stalled_def stalled_for_stall)
  then show "\<exists>q. 2 \<in> set (sleepers contended q)"
    using sync_no_lost_sleepers [OF no_one_stalled contended_reachable] by blast
qed

text \<open>
  A mutex is handed over first-come first-served: with \<open>k\<close> or more waiters, \<open>k\<close> unlocks by the
  respective owner succeed, make the \<open>k\<close>-th waiter the owner, leave the later waiters queued, and resume
  exactly the first \<open>k\<close> waiters.
\<close>

theorem mutex_handover_fifo:
  assumes "k \<le> length (m_waiting m)"
  shows "\<exists>m' tm'. unlocks k time m tm = Inr (m', tm') \<and> m_owner m' = (m_owner m # m_waiting m) ! k \<and>
    m_waiting m' = drop k (m_waiting m) \<and>
    (\<forall>t. isThreadRunning t tm' \<longleftrightarrow> t \<in> set (take k (m_waiting m)) \<or> isThreadRunning t tm)"
  using assms by (rule unlocks_fifo)

theorem mutex_handover_fifo_witness:
  "\<exists>m' tm'. unlocks 2 7 \<lparr>m_waiting = [5, 6, 8], m_owner = 4\<rparr> all_running = Inr (m', tm') \<and> m_owner m' = 6 \<and> m_waiting m' = [8]"
  using mutex_handover_fifo [of 2 "\<lparr>m_waiting = [5, 6, 8], m_owner = 4\<rparr>" 7 all_running] by auto

text \<open>
  C28: a barrier for \<open>n\<close> threads lets nobody through before the \<open>n\<close>-th arrival, which releases all:
  of \<open>n\<close> arrivals by different threads at an empty barrier the first \<open>n - 1\<close> sleep, the last returns at its
  own time, every earlier one is running again with that wake-up time, and the barrier is empty and
  ready for the next round.
\<close>

theorem barrier_releases_together:
  assumes "0 < n" "length as = unat n - 1" "last_t \<notin> fst ` set as"
  shows "\<exists>tm'. arrivals (SimBarrier n) (as @ [(last_t, time)]) tm =
      (replicate (unat n - 1) None @ [Some time], SimBarrier n, tm') \<and>
    (\<forall>t \<in> fst ` set as. isThreadRunning t tm' \<and> m_wakeup_time tm' t = time) \<and>
    isThreadRunning last_t tm' = isThreadRunning last_t tm"
proof -
  have n: "unat (n - 1) = unat n - 1" using assms(1) by (simp add: unat_minus_one word_gt_0)
  obtain tm1 where a: "arrivals (SimBarrier n) as tm = (replicate (length as) None, (SimBarrier n)\<lparr>b_waiting := map fst as\<rparr>, tm1)"
    and k: "\<forall>t. t \<notin> set (map fst as) \<longrightarrow> m_thread_state tm1 t = m_thread_state tm t"
    using arrivals_before [of "SimBarrier n" as tm] assms(2) n by (auto simp: SimBarrier_def)
  have "isThreadRunning last_t tm1 = isThreadRunning last_t tm" using k assms(3) by (simp add: isThreadRunning_def)
  then show ?thesis
    using assms(2,3) n unfolding arrivals_append a by (simp add: barrier_wait_def SimBarrier_def foldl_resume)
qed

theorem barrier_releases_together_witness:
  "\<exists>tm'. arrivals (SimBarrier 3) [(1, 10), (2, 30), (0, 20)] all_running = ([None, None, Some 20], SimBarrier 3, tm') \<and>
     m_wakeup_time tm' 2 = 20"
proof -
  have "replicate (unat (3 :: UInt32) - 1) None = [None, None :: UInt64 option]" by code_simp
  then show ?thesis
    using barrier_releases_together [of 3 "[(1, 10), (2, 30)]" 0 20 all_running] by (auto simp del: arrivals.simps)
qed

text \<open>
  A \<^verbatim>\<open>pthread_mutex_trylock\<close> by the thread that already holds the mutex does not return: because
  \<^verbatim>\<open>isLocked\<close> answers no for the owner, the call goes on to \<^verbatim>\<open>lock\<close>, which puts the owner to sleep in the
  queue of its own mutex.
\<close>

theorem trylock_by_owner_sleeps:
  assumes "m_mutexes s a = Some m" "m_owner m = t" "t \<noteq> NO_OWNER"
  shows "\<exists>s'. mutexLock t a True time s = Inr (None, s') \<and> t \<in> stalled s' \<and>
    sleepers s' (Mutex_Queue a) = m_waiting m @ [t] \<and> map_option m_owner (m_mutexes s' a) = Some t"
  using assms
  by (auto simp: mutexLock_def getMutex_def isLocked_def mutex_lock_def sleepers_put_mutex stalled_put_mutex)
    (simp add: put_mutex_def)

theorem trylock_by_owner_sleeps_witness:
  "\<exists>s'. mutexLock 1 0x10 True 9 contended = Inr (None, s') \<and> sleepers s' (Mutex_Queue 0x10) = [2, 1]"
  using trylock_by_owner_sleeps [where s = contended and a = "0x10" and m = "\<lparr>m_waiting = [2], m_owner = 1\<rparr>" and t = 1 and time = 9] by (auto simp: contended_eq)

end
