(* ===== verification/Barrier_Sync.thy ===== *)
theory Barrier_Sync
  imports Thread_Manager
begin

text \<open>
  \<^verbatim>\<open>system/barrier_sync_server.{h,cc}\<close>: the barrier that keeps the clocks of the simulated cores within one
  quantum of each other. The vectors of the class are lists indexed by the core number. The number of threads
  that wait on the condition variable of a core is its entry in \<open>m_core_waiting\<close>: a wait adds one, and a signal takes one
  away when there is one, for it wakes a single thread and is lost when none waits.
  The rest of the simulator that the barrier looks at is the field \<open>world\<close>, read through the functions of
  \<open>barrier_env\<close>: the state and the thread of a core, the thread manager, the system call server, the
  periodic hooks (which may change the barrier too, for instance disable it), the order chosen by
  \<^verbatim>\<open>std::random_shuffle\<close> and the number of host cores. The notifications to the performance models are
  left out.
\<close>

section \<open>State\<close>

record 'w barrier_server =
  m_barrier_interval :: UInt64
  m_next_barrier_time :: UInt64
  m_local_clock_list :: "UInt64 list"
  m_barrier_acquire_list :: "bool list"
  m_core_waiting :: "nat list"
  m_to_release :: "nat list"
  m_core_group :: "core_id_t list"
  m_core_thread :: "thread_id_t list"
  m_global_time :: UInt64
  m_fastforward :: bool
  m_disable :: bool
  world :: 'w

record 'w barrier_env =
  hook_periodic :: "UInt64 \<Rightarrow> 'w barrier_server \<Rightarrow> 'w barrier_server"
  core_state_of :: "'w \<Rightarrow> nat \<Rightarrow> core_state"
  core_thread_of :: "'w \<Rightarrow> nat \<Rightarrow> thread_id_t option"
  thread_running :: "'w \<Rightarrow> thread_id_t \<Rightarrow> bool"
  any_thread_running :: "'w \<Rightarrow> bool"
  next_timeout :: "UInt64 \<Rightarrow> 'w \<Rightarrow> UInt64"
  random_shuffle :: "nat list \<Rightarrow> nat list"
  num_host_cores :: int

abbreviation num_cores :: "'w barrier_server \<Rightarrow> nat" where
  "num_cores s \<equiv> length (m_barrier_acquire_list s)"

definition BarrierSyncServer :: "nat \<Rightarrow> UInt64 \<Rightarrow> 'w \<Rightarrow> 'w barrier_server" where
  "BarrierSyncServer cores quantum w =
     \<lparr>m_barrier_interval = 1000000 * quantum, m_next_barrier_time = 1000000 * quantum,
      m_local_clock_list = replicate cores 0, m_barrier_acquire_list = replicate cores False,
      m_core_waiting = replicate cores 0, m_to_release = [],
      m_core_group = replicate cores INVALID_CORE_ID, m_core_thread = replicate cores INVALID_THREAD_ID,
      m_global_time = 0, m_fastforward = False, m_disable = False, world = w\<rparr>"

section \<open>Who is running\<close>

definition isCoreRunning_alone :: "'w barrier_env \<Rightarrow> 'w barrier_server \<Rightarrow> nat \<Rightarrow> bool result" where
  "isCoreRunning_alone e s core_id =
     (if core_state_of e (world s) core_id = RUNNING
      then case core_thread_of e (world s) core_id of
             None \<Rightarrow> Inl (LOG_ASSERT_ERROR ''Core is running but has no thread'')
           | Some t \<Rightarrow> Inr (thread_running e (world s) t)
      else Inr False)"

fun any_sibling_running :: "'w barrier_env \<Rightarrow> 'w barrier_server \<Rightarrow> nat \<Rightarrow> nat list \<Rightarrow> bool result" where
  "any_sibling_running e s core_id [] = Inr False"
| "any_sibling_running e s core_id (c # cs) =
     (if m_core_group s ! c = int core_id
      then bindE (isCoreRunning_alone e s c) (\<lambda>r. if r then Inr True else any_sibling_running e s core_id cs)
      else any_sibling_running e s core_id cs)"

definition isCoreRunning :: "'w barrier_env \<Rightarrow> 'w barrier_server \<Rightarrow> nat \<Rightarrow> bool result" where
  "isCoreRunning e s core_id =
     bindE (isCoreRunning_alone e s core_id) (\<lambda>r.
       if r then Inr True
       else if \<not> m_fastforward s then any_sibling_running e s core_id [0..<num_cores s]
       else Inr False)"

fun reached_loop :: "'w barrier_env \<Rightarrow> 'w barrier_server \<Rightarrow> bool \<Rightarrow> nat list \<Rightarrow> bool result" where
  "reached_loop e s reached [] = Inr reached"
| "reached_loop e s reached (c # cs) =
     (if m_fastforward s
      then if m_barrier_acquire_list s ! c then reached_loop e s True cs
           else bindE (isCoreRunning e s c) (\<lambda>r. if r then Inr False else reached_loop e s reached cs)
      else if m_core_group s ! c \<noteq> INVALID_CORE_ID then reached_loop e s reached cs
      else bindE (isCoreRunning e s c) (\<lambda>r.
        if r
        then if m_local_clock_list s ! c < m_next_barrier_time s then Inr False
             else reached_loop e s True cs
        else reached_loop e s reached cs))"

definition isBarrierReached :: "'w barrier_env \<Rightarrow> 'w barrier_server \<Rightarrow> bool result" where
  "isBarrierReached e s = reached_loop e s False [0..<num_cores s]"

section \<open>Releasing\<close>

definition signal_core :: "nat \<Rightarrow> 'w barrier_server \<Rightarrow> 'w barrier_server" where
  "signal_core c s = s\<lparr>m_core_waiting := (m_core_waiting s)[c := m_core_waiting s ! c - 1]\<rparr>"

function doRelease :: "int \<Rightarrow> 'w barrier_server \<Rightarrow> 'w barrier_server" where
  "doRelease n s =
     (if m_to_release s \<noteq> [] \<and> n \<noteq> 0
      then doRelease (n - 1) (signal_core (last (m_to_release s)) (s\<lparr>m_to_release := butlast (m_to_release s)\<rparr>))
      else s)"
  by pat_completeness auto
termination by (relation "measure (\<lambda>(n, s). length (m_to_release s))") (auto simp: signal_core_def)

declare doRelease.simps [simp del]

text \<open>The scan over the cores in \<^verbatim>\<open>barrierRelease\<close>: the state is \<^verbatim>\<open>(core_resumed, must_wait)\<close> and the server.\<close>

fun release_scan :: "thread_id_t \<Rightarrow> nat list \<Rightarrow> bool \<Rightarrow> bool \<Rightarrow> 'w barrier_server \<Rightarrow> bool \<times> bool \<times> 'w barrier_server" where
  "release_scan caller [] resumed must_wait s = (resumed, must_wait, s)"
| "release_scan caller (c # cs) resumed must_wait s =
     (if m_local_clock_list s ! c < m_next_barrier_time s \<and> m_barrier_acquire_list s ! c
      then let s1 = s\<lparr>m_barrier_acquire_list := (m_barrier_acquire_list s)[c := False]\<rparr>
           in if m_core_thread s ! c = caller then release_scan caller cs True False s1
              else release_scan caller cs True must_wait (s1\<lparr>m_to_release := m_to_release s1 @ [c]\<rparr>)
      else release_scan caller cs resumed must_wait s)"

text \<open>
  The loop \<^verbatim>\<open>while (!core_resumed)\<close>, with the early returns. \<open>None\<close> is a loop that never ends; the Boolean
  beside the result of \<open>must_wait\<close> tells whether the loop was left at its condition, so that the release
  follows, or by a \<^verbatim>\<open>return\<close>.
\<close>

partial_function (option) release_loop ::
  "'w barrier_env \<Rightarrow> thread_id_t \<Rightarrow> bool \<Rightarrow> bool \<Rightarrow> 'w barrier_server \<Rightarrow> (bool \<times> bool \<times> 'w barrier_server) result option" where
  "release_loop e caller continue_until_release must_wait s =
     (let s1 = hook_periodic e (m_next_barrier_time s) (s\<lparr>m_global_time := m_next_barrier_time s\<rparr>) in
      if continue_until_release \<and> any_thread_running e (world s1) then Some (Inr (False, False, s1))
      else if continue_until_release \<and> \<not> next_timeout e (m_global_time s1) (world s1) < - 1
      then Some (Inl (LOG_ASSERT_ERROR ''No threads running, no timeout. Application has deadlocked''))
      else if m_disable s1 then Some (Inr (False, False, s1))
      else
        (let s2 = s1\<lparr>m_next_barrier_time := m_next_barrier_time s1 + m_barrier_interval s1\<rparr>;
             (resumed, must_wait', s3) = release_scan caller [0..<num_cores s2] False must_wait s2
         in if resumed then Some (Inr (True, must_wait', s3))
            else release_loop e caller continue_until_release must_wait' s3))"

fun skip_slots :: "nat list \<Rightarrow> 'w barrier_server \<Rightarrow> 'w barrier_server" where
  "skip_slots [] s = s"
| "skip_slots (c # cs) s =
     skip_slots cs (if m_local_clock_list s ! c > m_next_barrier_time s
                    then s\<lparr>m_next_barrier_time := m_local_clock_list s ! c\<rparr> else s)"

definition barrierRelease ::
  "'w barrier_env \<Rightarrow> thread_id_t \<Rightarrow> bool \<Rightarrow> 'w barrier_server \<Rightarrow> (bool \<times> 'w barrier_server) result" where
  "barrierRelease e caller_id continue_until_release s =
     bindE (assertE (m_to_release s = [])
       (LOG_ASSERT_ERROR ''Reached the barrier while some threads haven't even restarted?'')) (\<lambda>_.
     let s0 = (if m_fastforward s then skip_slots [0..<num_cores s] s else s)
     in case release_loop e caller_id continue_until_release True s0 of
          None \<Rightarrow> Inl (NONTERMINATION ''barrierRelease'')
        | Some r \<Rightarrow>
            bindE r (\<lambda>(completed, must_wait, s1).
              if completed
              then Inr (must_wait, doRelease (if m_fastforward s1 then - 1 else num_host_cores e)
                     (s1\<lparr>m_to_release := random_shuffle e (m_to_release s1)\<rparr>))
              else Inr (must_wait, s1)))"

section \<open>Entry points\<close>

definition signal_barrier :: "'w barrier_env \<Rightarrow> 'w barrier_server \<Rightarrow> 'w barrier_server result" where
  "signal_barrier e s =
     (if m_disable s then Inr s
      else bindE (isBarrierReached e s) (\<lambda>b.
        if b then bindE (barrierRelease e INVALID_THREAD_ID False s) (\<lambda>(_, s1). Inr s1) else Inr s))"

text \<open>
  \<^verbatim>\<open>synchronize\<close>: the result tells whether the caller waits for the condition variable of its core.
  \<open>enter_barrier\<close> is the part after the early returns.
\<close>

definition enter_barrier ::
  "'w barrier_env \<Rightarrow> nat \<Rightarrow> thread_id_t \<Rightarrow> UInt64 \<Rightarrow> 'w barrier_server \<Rightarrow> (bool \<times> 'w barrier_server) result" where
  "enter_barrier e master_core_id thread_me time s =
     (let s1 = doRelease 1 s;
          s2 = s1\<lparr>m_local_clock_list := (m_local_clock_list s1)[master_core_id := time],
                  m_barrier_acquire_list := (m_barrier_acquire_list s1)[master_core_id := True],
                  m_core_thread := (m_core_thread s1)[master_core_id := thread_me]\<rparr>
      in bindE (isBarrierReached e s2) (\<lambda>reached.
         bindE (if reached then barrierRelease e thread_me False s2 else Inr (True, s2)) (\<lambda>(must_wait, s3).
           Inr (must_wait, if must_wait
                           then s3\<lparr>m_core_waiting := (m_core_waiting s3)[master_core_id := m_core_waiting s3 ! master_core_id + 1]\<rparr>
                           else s3))))"

definition master_core :: "nat \<Rightarrow> 'w barrier_server \<Rightarrow> nat" where
  "master_core core_id s =
     (if m_fastforward s then core_id
      else if m_core_group s ! core_id = INVALID_CORE_ID then core_id else nat (m_core_group s ! core_id))"

definition synchronize :: "'w barrier_env \<Rightarrow> nat \<Rightarrow> UInt64 \<Rightarrow> 'w barrier_server \<Rightarrow> (bool \<times> 'w barrier_server) result" where
  "synchronize e core_id time s =
     (if m_disable s then Inr (False, s)
      else if \<not> core_id < num_cores s then Inl (UNDEFINED ''core_id out of range'')
      else
        case core_thread_of e (world s) core_id of
          None \<Rightarrow> Inl (UNDEFINED ''core->getThread() is NULL'')
        | Some thread_me \<Rightarrow>
          bindE (assertE (core_state_of e (world s) core_id \<in> {RUNNING, INITIALIZING})
            (LOG_ASSERT_ERROR ''Core is not running or initializing'')) (\<lambda>_.
          bindE (assertE (master_core core_id s < num_cores s) (UNDEFINED ''master_core_id out of range'')) (\<lambda>_.
          bindE (assertE (\<not> m_barrier_acquire_list s ! master_core core_id s)
            (LOG_ASSERT_ERROR ''Core or its sibling is already in the barrier'')) (\<lambda>_.
          if time < m_next_barrier_time s \<and> \<not> m_fastforward s then Inr (False, s)
          else enter_barrier e (master_core core_id s) thread_me time s))))"

definition releaseThread :: "thread_id_t \<Rightarrow> 'w barrier_server \<Rightarrow> 'w barrier_server" where
  "releaseThread thread_id s =
     doRelease 1 (s\<lparr>m_local_clock_list :=
       map (\<lambda>c. if m_barrier_acquire_list s ! c \<and> m_core_thread s ! c = thread_id then 0 else m_local_clock_list s ! c)
         [0..<num_cores s]\<rparr>)"

definition threadExit :: "'w barrier_env \<Rightarrow> thread_id_t \<Rightarrow> 'w barrier_server \<Rightarrow> 'w barrier_server result" where
  "threadExit e thread_id s = signal_barrier e (releaseThread thread_id s)"

definition threadStall :: "'w barrier_env \<Rightarrow> thread_id_t \<Rightarrow> 'w barrier_server \<Rightarrow> 'w barrier_server result" where
  "threadStall e thread_id s = signal_barrier e (releaseThread thread_id s)"

definition threadMigrate :: "thread_id_t \<Rightarrow> 'w barrier_server \<Rightarrow> 'w barrier_server" where
  "threadMigrate thread_id s = releaseThread thread_id s"

definition advance :: "'w barrier_env \<Rightarrow> 'w barrier_server \<Rightarrow> 'w barrier_server result" where
  "advance e s = bindE (barrierRelease e INVALID_THREAD_ID True s) (\<lambda>(_, s1). Inr s1)"

fun abort_loop :: "nat list \<Rightarrow> 'w barrier_server \<Rightarrow> 'w barrier_server" where
  "abort_loop [] s = s"
| "abort_loop (c # cs) s =
     abort_loop cs (if m_barrier_acquire_list s ! c
       then signal_core c (s\<lparr>m_barrier_acquire_list := (m_barrier_acquire_list s)[c := False]\<rparr>) else s)"

definition abortBarrier :: "'w barrier_server \<Rightarrow> 'w barrier_server" where
  "abortBarrier s = abort_loop [0..<num_cores s] s"

definition setDisable :: "bool \<Rightarrow> 'w barrier_server \<Rightarrow> 'w barrier_server" where
  "setDisable disable s = (let s1 = s\<lparr>m_disable := disable\<rparr> in if disable then abortBarrier s1 else s1)"

definition setGroup :: "nat \<Rightarrow> core_id_t \<Rightarrow> 'w barrier_server \<Rightarrow> 'w barrier_server result" where
  "setGroup core_id master_core_id s =
     bindE (if master_core_id \<noteq> INVALID_CORE_ID
            then assertE (\<not> m_barrier_acquire_list s ! core_id) (LOG_ASSERT_ERROR ''Core is in the barrier'')
            else Inr ()) (\<lambda>_.
       Inr (s\<lparr>m_core_group := (m_core_group s)[core_id := master_core_id]\<rparr>))"

definition setFastForward :: "bool \<Rightarrow> UInt64 \<Rightarrow> 'w barrier_server \<Rightarrow> 'w barrier_server" where
  "setFastForward fastforward next_barrier_time s =
     (let s1 = s\<lparr>m_fastforward := fastforward\<rparr>
      in if next_barrier_time \<noteq> - 1
         then s1\<lparr>m_next_barrier_time := max (m_next_barrier_time s1) next_barrier_time\<rparr> else s1)"

end
