(* ===== verification/Barrier_Properties.thy ===== *)
theory Barrier_Properties
  imports Barrier_Sync "HOL-Library.Multiset"
begin

text \<open>
  The barrier never forgets a waiting thread, lets threads go only when the slowest running core has caught
  up, and its release loop ends. What the barrier relies on of the rest of the simulator is the locale
  \<open>barrier_environment\<close>.
\<close>

section \<open>Waiting threads\<close>

abbreviation acquired :: "'w barrier_server \<Rightarrow> nat \<Rightarrow> bool" where
  "acquired s c \<equiv> m_barrier_acquire_list s ! c"

text \<open>
  For every core, the threads waiting on its condition variable are the one that is in the barrier for it, if
  any, and one for every time the core is on the list of cores to be released. The two can coincide: a thread that was
  let go but not woken yet may have been preempted by another that enters the barrier for the same core. While
  \<^verbatim>\<open>synchronize\<close> runs, the caller's core \<open>me\<close> is in the barrier but its thread does not wait yet.
\<close>

definition barrier_inv :: "nat option \<Rightarrow> 'w barrier_server \<Rightarrow> bool" where
  "barrier_inv me s \<longleftrightarrow>
     length (m_local_clock_list s) = num_cores s \<and> length (m_core_waiting s) = num_cores s \<and>
     length (m_core_group s) = num_cores s \<and> length (m_core_thread s) = num_cores s \<and>
     (\<forall>c \<in> set (m_to_release s). c < num_cores s) \<and>
     (\<forall>c < num_cores s. m_core_waiting s ! c = of_bool (acquired s c \<and> me \<noteq> Some c) + count_list (m_to_release s) c) \<and>
     (\<forall>c < num_cores s. acquired s c \<longrightarrow> 0 \<le> m_core_thread s ! c) \<and>
     (\<forall>c < num_cores s. \<forall>d < num_cores s. acquired s c \<longrightarrow> acquired s d \<longrightarrow>
        m_core_thread s ! c = m_core_thread s ! d \<longrightarrow> c = d) \<and>
     (m_disable s \<longrightarrow> (\<forall>c < num_cores s. \<not> acquired s c)) \<and>
     (\<forall>c. me = Some c \<longrightarrow> c < num_cores s)"

lemma doRelease_fields:
  "m_local_clock_list (doRelease n s) = m_local_clock_list s" "m_barrier_acquire_list (doRelease n s) = m_barrier_acquire_list s"
  "m_core_thread (doRelease n s) = m_core_thread s" "m_core_group (doRelease n s) = m_core_group s"
  "m_next_barrier_time (doRelease n s) = m_next_barrier_time s" "m_disable (doRelease n s) = m_disable s"
  "m_fastforward (doRelease n s) = m_fastforward s" "m_barrier_interval (doRelease n s) = m_barrier_interval s"
  "world (doRelease n s) = world s" "length (m_core_waiting (doRelease n s)) = length (m_core_waiting s)"
  "m_global_time (doRelease n s) = m_global_time s"
  by (induction n s rule: doRelease.induct; subst doRelease.simps; simp add: signal_core_def)+

lemma doRelease_inv: "barrier_inv me s \<Longrightarrow> barrier_inv me (doRelease n s)"
proof (induction n s rule: doRelease.induct)
  case (1 n s)
  show ?case
  proof (cases "m_to_release s \<noteq> [] \<and> n \<noteq> 0")
    case True
    let ?s = "signal_core (last (m_to_release s)) (s\<lparr>m_to_release := butlast (m_to_release s)\<rparr>)"
    obtain cs c where r: "m_to_release s = cs @ [c]" using True by (metis append_butlast_last_id)
    have "c < num_cores s" using "1.prems" by (auto simp: barrier_inv_def r)
    then have "barrier_inv me ?s"
      using "1.prems" by (auto simp: barrier_inv_def signal_core_def r nth_list_update split: if_splits)
    then show ?thesis using "1.IH" True by (subst doRelease.simps) simp
  next
    case False
    then have "doRelease n s = s" by (subst doRelease.simps) auto
    then show ?thesis using "1.prems" by simp
  qed
qed

lemma doRelease_subset: "set (m_to_release (doRelease n s)) \<subseteq> set (m_to_release s)"
proof (induction n s rule: doRelease.induct)
  case (1 n s)
  then show ?case by (subst doRelease.simps) (auto simp: signal_core_def dest: in_set_butlastD)
qed

lemma doRelease_all: "n < 0 \<Longrightarrow> m_to_release (doRelease n s) = []"
proof (induction n s rule: doRelease.induct)
  case (1 n s)
  then show ?case by (subst doRelease.simps) auto
qed

section \<open>The scan\<close>

definition due :: "'w barrier_server \<Rightarrow> nat \<Rightarrow> bool" where
  "due s c \<longleftrightarrow> m_local_clock_list s ! c < m_next_barrier_time s \<and> acquired s c"

lemma release_scan_eq:
  assumes "distinct cs" "\<forall>c \<in> set cs. c < num_cores s"
  shows "release_scan caller cs resumed must_wait s =
    (resumed \<or> (\<exists>c \<in> set cs. due s c), must_wait \<and> \<not> (\<exists>c \<in> set cs. due s c \<and> m_core_thread s ! c = caller),
     s\<lparr>m_barrier_acquire_list := map (\<lambda>c. acquired s c \<and> \<not> (c \<in> set cs \<and> due s c)) [0..<num_cores s],
       m_to_release := m_to_release s @ filter (\<lambda>c. due s c \<and> m_core_thread s ! c \<noteq> caller) cs\<rparr>)"
  using assms
proof (induction cs arbitrary: resumed must_wait s)
  case Nil
  then show ?case by (simp add: map_nth)
next
  case (Cons c cs)
  show ?case
  proof (cases "due s c")
    case False
    then have "release_scan caller (c # cs) resumed must_wait s = release_scan caller cs resumed must_wait s"
      by (auto simp: due_def)
    then show ?thesis using Cons False by (auto intro!: arg_cong [where f = "\<lambda>l. s\<lparr>m_barrier_acquire_list := l, m_to_release := _\<rparr>"])
  next
    case True
    define s1 where "s1 = s\<lparr>m_barrier_acquire_list := (m_barrier_acquire_list s)[c := False]\<rparr>"
    define s2 where "s2 = (if m_core_thread s ! c = caller then s1 else s1\<lparr>m_to_release := m_to_release s1 @ [c]\<rparr>)"
    have c: "c < num_cores s" "c \<notin> set cs" using Cons.prems by auto
    have d: "due s2 e = due s e" if "e \<in> set cs" for e
      using that c by (auto simp: due_def s1_def s2_def nth_list_update)
    have "release_scan caller (c # cs) resumed must_wait s =
        release_scan caller cs True (must_wait \<and> m_core_thread s ! c \<noteq> caller) s2"
      using True by (simp add: due_def s1_def s2_def)
    also have "\<dots> = (True \<or> (\<exists>c \<in> set cs. due s2 c),
        (must_wait \<and> m_core_thread s ! c \<noteq> caller) \<and> \<not> (\<exists>c \<in> set cs. due s2 c \<and> m_core_thread s2 ! c = caller),
       s2\<lparr>m_barrier_acquire_list := map (\<lambda>c. acquired s2 c \<and> \<not> (c \<in> set cs \<and> due s2 c)) [0..<num_cores s2],
         m_to_release := m_to_release s2 @ filter (\<lambda>c. due s2 c \<and> m_core_thread s2 ! c \<noteq> caller) cs\<rparr>)"
      using Cons.prems by (intro Cons.IH) (auto simp: s1_def s2_def)
    also have "map (\<lambda>e. acquired s2 e \<and> \<not> (e \<in> set cs \<and> due s2 e)) [0..<num_cores s2] =
        map (\<lambda>e. acquired s e \<and> \<not> (e \<in> set (c # cs) \<and> due s e)) [0..<num_cores s]"
      using d True c by (auto simp: s1_def s2_def nth_list_update)
    also have "filter (\<lambda>e. due s2 e \<and> m_core_thread s2 ! e \<noteq> caller) cs = filter (\<lambda>e. due s e \<and> m_core_thread s ! e \<noteq> caller) cs"
      using d by (intro filter_cong) (auto simp: s1_def s2_def)
    finally show ?thesis using True d by (auto simp: s1_def s2_def)
  qed
qed

lemma barrier_inv_thread: "barrier_inv me s \<Longrightarrow> c < num_cores s \<Longrightarrow> acquired s c \<Longrightarrow> 0 \<le> m_core_thread s ! c"
  by (simp add: barrier_inv_def)

lemma barrier_inv_inj:
  "barrier_inv me s \<Longrightarrow> c < num_cores s \<Longrightarrow> d < num_cores s \<Longrightarrow> acquired s c \<Longrightarrow> acquired s d \<Longrightarrow>
     m_core_thread s ! c = m_core_thread s ! d \<Longrightarrow> c = d"
  by (simp add: barrier_inv_def)

lemma barrier_inv_wait:
  "barrier_inv me s \<Longrightarrow> c < num_cores s \<Longrightarrow>
     m_core_waiting s ! c = of_bool (acquired s c \<and> me \<noteq> Some c) + count_list (m_to_release s) c"
  by (simp add: barrier_inv_def)

lemma barrier_inv_list: "barrier_inv me s \<Longrightarrow> c \<in> set (m_to_release s) \<Longrightarrow> c < num_cores s"
  by (simp add: barrier_inv_def)

lemma barrier_invI:
  assumes "length (m_local_clock_list s) = num_cores s" "length (m_core_waiting s) = num_cores s"
    "length (m_core_group s) = num_cores s" "length (m_core_thread s) = num_cores s"
    "\<And>c. c \<in> set (m_to_release s) \<Longrightarrow> c < num_cores s"
    "\<And>c. c < num_cores s \<Longrightarrow> m_core_waiting s ! c = of_bool (acquired s c \<and> me \<noteq> Some c) + count_list (m_to_release s) c"
    "\<And>c. c < num_cores s \<Longrightarrow> acquired s c \<Longrightarrow> 0 \<le> m_core_thread s ! c"
    "\<And>c d. c < num_cores s \<Longrightarrow> d < num_cores s \<Longrightarrow> acquired s c \<Longrightarrow> acquired s d \<Longrightarrow>
        m_core_thread s ! c = m_core_thread s ! d \<Longrightarrow> c = d"
    "\<And>c. m_disable s \<Longrightarrow> c < num_cores s \<Longrightarrow> \<not> acquired s c"
    "\<And>c. me = Some c \<Longrightarrow> c < num_cores s"
  shows "barrier_inv me s"
  using assms unfolding barrier_inv_def by blast

lemma count_list_filter_upt: "count_list (filter P [0..<n]) c = of_bool (c < n \<and> P c)"
  by (induction n) auto

text \<open>The caller of a release: either no thread at all, or the thread of the core that is entering.\<close>

definition caller_ok :: "nat option \<Rightarrow> thread_id_t \<Rightarrow> 'w barrier_server \<Rightarrow> bool" where
  "caller_ok me caller s \<longleftrightarrow>
     (case me of None \<Rightarrow> caller < 0 | Some c \<Rightarrow> c < num_cores s \<and> acquired s c \<and> m_core_thread s ! c = caller)"

lemma release_scan_all:
  "release_scan caller [0..<num_cores s] resumed must_wait s =
    (resumed \<or> (\<exists>c < num_cores s. due s c), must_wait \<and> \<not> (\<exists>c < num_cores s. due s c \<and> m_core_thread s ! c = caller),
     s\<lparr>m_barrier_acquire_list := map (\<lambda>c. acquired s c \<and> \<not> due s c) [0..<num_cores s],
       m_to_release := m_to_release s @ filter (\<lambda>c. due s c \<and> m_core_thread s ! c \<noteq> caller) [0..<num_cores s]\<rparr>)"
proof -
  have "map (\<lambda>c. acquired s c \<and> \<not> (c \<in> set [0..<num_cores s] \<and> due s c)) [0..<num_cores s] =
      map (\<lambda>c. acquired s c \<and> \<not> due s c) [0..<num_cores s]" by auto
  then show ?thesis by (subst release_scan_eq) (auto simp del: map_eq_conv)
qed

lemma release_scan_idle: "\<forall>c \<in> set cs. \<not> acquired s c \<Longrightarrow> release_scan caller cs resumed must_wait s = (resumed, must_wait, s)"
  by (induction cs) auto

lemma scan_keeps:
  assumes inv: "barrier_inv me s" and ok: "caller_ok me caller s"
    and scan: "release_scan caller [0..<num_cores s] False must_wait s = (resumed, must_wait', s')"
  shows "barrier_inv me s' \<and> num_cores s' = num_cores s \<and> m_core_thread s' = m_core_thread s \<and>
    m_next_barrier_time s' = m_next_barrier_time s \<and> m_local_clock_list s' = m_local_clock_list s \<and>
    (resumed \<longleftrightarrow> (\<exists>c < num_cores s. due s c)) \<and> (\<not> resumed \<longrightarrow> must_wait' = must_wait \<and> caller_ok me caller s') \<and>
    (\<forall>c < num_cores s. acquired s' c = (acquired s c \<and> \<not> due s c)) \<and>
    (\<forall>c. me = Some c \<longrightarrow> must_wait \<longrightarrow> must_wait' = acquired s' c)"
proof -
  have s': "s' = s\<lparr>m_barrier_acquire_list := map (\<lambda>c. acquired s c \<and> \<not> due s c) [0..<num_cores s],
       m_to_release := m_to_release s @ filter (\<lambda>c. due s c \<and> m_core_thread s ! c \<noteq> caller) [0..<num_cores s]\<rparr>"
    and r: "resumed \<longleftrightarrow> (\<exists>c < num_cores s. due s c)"
    and m: "must_wait' \<longleftrightarrow> must_wait \<and> \<not> (\<exists>c < num_cores s. due s c \<and> m_core_thread s ! c = caller)"
    using scan by (auto simp: release_scan_all)
  have acq: "acquired s' c = (acquired s c \<and> \<not> due s c)" if "c < num_cores s" for c using that by (simp add: s')
  have mine: "me = Some c" if "c < num_cores s" "due s c" "m_core_thread s ! c = caller" for c
  proof (cases me)
    case None
    then show ?thesis using barrier_inv_thread [OF inv that(1)] that(2,3) ok by (simp add: caller_ok_def due_def)
  next
    case (Some d)
    then show ?thesis using barrier_inv_inj [OF inv that(1), of d] that(2,3) ok by (simp add: caller_ok_def due_def)
  qed
  have self: "m_core_thread s ! c = caller" "acquired s c" "c < num_cores s" if "me = Some c" for c
    using ok that by (auto simp: caller_ok_def)
  have "barrier_inv me s'"
  proof (rule barrier_invI)
    fix c assume c: "c < num_cores s'"
    then have n: "c < num_cores s" by (simp add: s')
    show "m_core_waiting s' ! c = of_bool (acquired s' c \<and> me \<noteq> Some c) + count_list (m_to_release s') c"
    proof (cases "due s c")
      case True
      then have "me = Some c \<longleftrightarrow> m_core_thread s ! c = caller" using mine [OF n] self by auto
      then show ?thesis using True n barrier_inv_wait [OF inv n] by (auto simp: s' due_def count_list_filter_upt)
    next
      case False
      then show ?thesis using n barrier_inv_wait [OF inv n] by (simp add: s' count_list_filter_upt)
    qed
  next
    fix c assume "c \<in> set (m_to_release s')"
    then show "c < num_cores s'" using barrier_inv_list [OF inv] by (auto simp: s')
  qed (use inv in \<open>auto simp: s' barrier_inv_def\<close>)
  moreover have "must_wait' = acquired s' c" if "me = Some c" must_wait for c
    using that self [OF that(1)] acq m mine by (metis option.inject)
  moreover have "must_wait' = must_wait \<and> caller_ok me caller s'" if "\<not> resumed"
    using that r m ok acq by (auto simp: caller_ok_def s' split: option.splits)
  ultimately show ?thesis using r acq by (simp add: s')
qed

section \<open>What the barrier relies on\<close>

text \<open>
  The periodic hooks keep the barrier's lists together, leave the threads of the cores alone, and take cores
  out of the barrier only by disabling it; the shuffle is a permutation.
\<close>

lemmas release_loop_induct = release_loop.raw_induct [rotated, consumes 1, case_names step]

locale barrier_environment =
  fixes e :: "'w barrier_env"
  assumes hook_inv: "barrier_inv me s \<Longrightarrow> barrier_inv me (hook_periodic e t s)"
    and hook_cores: "num_cores (hook_periodic e t s) = num_cores s"
    and hook_thread: "m_core_thread (hook_periodic e t s) = m_core_thread s"
    and hook_acquire: "\<not> m_disable (hook_periodic e t s) \<Longrightarrow>
      m_barrier_acquire_list (hook_periodic e t s) = m_barrier_acquire_list s"
    and shuffle: "mset (random_shuffle e xs) = mset xs"
begin

definition released :: "nat option \<Rightarrow> bool \<Rightarrow> bool \<Rightarrow> bool \<Rightarrow> 'w barrier_server \<Rightarrow> 'w barrier_server \<Rightarrow> bool" where
  "released me cont completed must_wait s s' \<longleftrightarrow>
     barrier_inv me s' \<and> num_cores s' = num_cores s \<and>
     (if completed
      then (\<forall>c. me = Some c \<longrightarrow> must_wait = acquired s' c) \<and>
           (\<forall>c < num_cores s. acquired s' c \<longrightarrow> acquired s c \<and> m_next_barrier_time s' \<le> m_local_clock_list s' ! c) \<and>
           (\<forall>c < num_cores s. acquired s c \<longrightarrow> \<not> acquired s' c \<longrightarrow> m_local_clock_list s' ! c < m_next_barrier_time s') \<and>
           (\<exists>c < num_cores s. acquired s c \<and> \<not> acquired s' c)
      else \<not> must_wait \<and> (\<not> cont \<longrightarrow> m_disable s'))"

lemma released_cong:
  assumes "num_cores s3 = num_cores s" "\<And>c. c < num_cores s \<Longrightarrow> acquired s3 c = acquired s c"
    and "released me cont completed must_wait s3 s'"
  shows "released me cont completed must_wait s s'"
  using assms(3) unfolding released_def assms(1) by (cases completed) (auto simp: assms(2))

lemma release_loop_keeps:
  assumes "release_loop e' caller cont must_wait s = Some r" "e' = e" "r = Inr (completed, must_wait', s')"
    and "barrier_inv me s" "caller_ok me caller s" must_wait
  shows "released me cont completed must_wait' s s'"
  using assms
proof (induction arbitrary: completed must_wait' s' rule: release_loop_induct)
  case (step loop e' caller cont must_wait s r)
  define s1 where "s1 = hook_periodic e (m_next_barrier_time s) (s\<lparr>m_global_time := m_next_barrier_time s\<rparr>)"
  have i1: "barrier_inv me s1" using step.prems(3) unfolding s1_def by (intro hook_inv) (simp add: barrier_inv_def)
  have n1: "num_cores s1 = num_cores s" "m_core_thread s1 = m_core_thread s"
    by (simp_all add: s1_def hook_cores hook_thread)
  show ?case
  proof (cases "cont \<and> any_thread_running e (world s1) \<or> m_disable s1")
    case True
    then show ?thesis
      using step.hyps step.prems(1,2) i1 n1 by (auto simp: s1_def released_def Let_def split: if_splits)
  next
    case False
    then have a1: "m_barrier_acquire_list s1 = m_barrier_acquire_list s" using hook_acquire [of _ "s\<lparr>m_global_time := m_next_barrier_time s\<rparr>"] by (auto simp: s1_def)
    define s2 where "s2 = s1\<lparr>m_next_barrier_time := m_next_barrier_time s1 + m_barrier_interval s1\<rparr>"
    have i2: "barrier_inv me s2" using i1 by (simp add: s2_def barrier_inv_def)
    have ok2: "caller_ok me caller s2" using step.prems(4) n1 a1 by (simp add: s2_def caller_ok_def split: option.splits)
    obtain resumed mw s3 where sc: "release_scan caller [0..<num_cores s2] False must_wait s2 = (resumed, mw, s3)" by (metis prod_cases3)
    note k = scan_keeps [OF i2 ok2 sc]
    have a2: "acquired s2 c = acquired s c" for c using a1 by (simp add: s2_def)
    have n2: "num_cores s2 = num_cores s" using n1 by (simp add: s2_def)
    show ?thesis
    proof (cases resumed)
      case True
      have "r = Inr (True, mw, s3)" using step.hyps step.prems(1,2) False True sc by (auto simp: s1_def [symmetric] s2_def [symmetric] Let_def split: if_splits)
      then have r: "completed" "must_wait' = mw" "s' = s3" using step.prems(2) by auto
      show ?thesis using k True step.prems(5) a2 n2 r(1) unfolding released_def r(2,3) by (auto simp: due_def not_less)
    next
      case nr: False
      then have l: "loop e' caller cont mw s3 = Some r"
        using step.hyps step.prems(1,2) False sc by (auto simp: s1_def [symmetric] s2_def [symmetric] Let_def split: if_splits)
      have "released me cont completed must_wait' s3 s'"
        using k nr step.prems by (intro step.IH [OF l]) auto
      moreover have "acquired s3 c = acquired s c" if "c < num_cores s" for c using k nr that a2 n2 by auto
      moreover have "num_cores s3 = num_cores s" using k n2 by simp
      ultimately show ?thesis using released_cong by blast
    qed
  qed
qed

lemma skip_slots_fields:
  "skip_slots cs s = s\<lparr>m_next_barrier_time := m_next_barrier_time (skip_slots cs s)\<rparr>"
proof (induction cs arbitrary: s)
  case (Cons c cs)
  show ?case using Cons [of "s\<lparr>m_next_barrier_time := m_local_clock_list s ! c\<rparr>"] Cons [of s] by (auto simp del: skip_slots.simps(1))
qed simp

lemma shuffle_set: "set (random_shuffle e xs) = set xs" "count_list (random_shuffle e xs) c = count_list xs c"
  using shuffle [of xs] by (metis set_mset_mset, metis count_mset)

lemma barrierRelease_keeps:
  assumes r: "barrierRelease e caller cont s = Inr (must_wait, s')" and inv: "barrier_inv me s" "caller_ok me caller s"
  shows "\<exists>completed. released me cont completed must_wait s s'"
proof -
  define s0 where "s0 = (if m_fastforward s then skip_slots [0..<num_cores s] s else s)"
  have s0: "\<exists>t. s0 = s\<lparr>m_next_barrier_time := t\<rparr>" unfolding s0_def using skip_slots_fields [of "[0..<num_cores s]" s]
    by (cases "m_fastforward s") (auto intro: exI [of _ "m_next_barrier_time s"])
  then have i0: "barrier_inv me s0" "caller_ok me caller s0" and a0: "m_barrier_acquire_list s0 = m_barrier_acquire_list s"
    using inv by (auto simp: barrier_inv_def caller_ok_def split: option.splits)
  obtain completed mw s1 where l: "release_loop e caller cont True s0 = Some (Inr (completed, mw, s1))"
    using r by (auto simp: barrierRelease_def s0_def [symmetric] split: option.splits if_splits)
  have k: "released me cont completed mw s0 s1" using release_loop_keeps [OF l refl refl i0] by simp
  show ?thesis
  proof (cases completed)
    case True
    define s2 where "s2 = s1\<lparr>m_to_release := random_shuffle e (m_to_release s1)\<rparr>"
    have s': "s' = doRelease (if m_fastforward s1 then - 1 else num_host_cores e) s2" "mw = must_wait"
      using r l True by (auto simp: barrierRelease_def s0_def [symmetric] s2_def split: if_splits)
    have "barrier_inv me s1" using k by (simp add: released_def)
    then have "barrier_inv me s2" by (simp add: barrier_inv_def s2_def shuffle_set)
    then have "barrier_inv me s'" unfolding s' by (rule doRelease_inv)
    then have "released me cont True must_wait s s'"
      using k True a0 unfolding released_def s' by (simp add: doRelease_fields s2_def)
    then show ?thesis by blast
  next
    case False
    then have "s' = s1" "must_wait = mw" using r l by (auto simp: barrierRelease_def s0_def [symmetric] split: if_splits)
    then show ?thesis using k False a0 unfolding released_def by auto
  qed
qed

lemma signal_barrier_inv: "signal_barrier e s = Inr s' \<Longrightarrow> barrier_inv None s \<Longrightarrow> barrier_inv None s'"
  using barrierRelease_keeps [of "- 1" False s _ s' None]
  by (auto simp: signal_barrier_def caller_ok_def released_def split: if_splits)

lemma advance_inv: "advance e s = Inr s' \<Longrightarrow> barrier_inv None s \<Longrightarrow> barrier_inv None s'"
  using barrierRelease_keeps [of "- 1" True s _ s' None] by (auto simp: advance_def caller_ok_def released_def)

lemma releaseThread_inv: "barrier_inv None s \<Longrightarrow> barrier_inv None (releaseThread t s)"
  unfolding releaseThread_def by (rule doRelease_inv) (simp add: barrier_inv_def)

lemma threadStall_inv: "threadStall e t s = Inr s' \<Longrightarrow> barrier_inv None s \<Longrightarrow> barrier_inv None s'"
  unfolding threadStall_def by (blast intro: signal_barrier_inv releaseThread_inv)

lemma threadExit_inv: "threadExit e t s = Inr s' \<Longrightarrow> barrier_inv None s \<Longrightarrow> barrier_inv None s'"
  unfolding threadExit_def by (blast intro: signal_barrier_inv releaseThread_inv)

lemma enter_inv:
  assumes "barrier_inv None s" "m < num_cores s" "\<not> acquired s m" "0 \<le> t" "\<not> m_disable s"
    and "\<And>c. c < num_cores s \<Longrightarrow> acquired s c \<Longrightarrow> m_core_thread s ! c \<noteq> t"
  shows "barrier_inv (Some m) (s\<lparr>m_local_clock_list := (m_local_clock_list s)[m := time],
      m_barrier_acquire_list := (m_barrier_acquire_list s)[m := True], m_core_thread := (m_core_thread s)[m := t]\<rparr>)"
  using assms by (auto simp: barrier_inv_def nth_list_update split: if_splits)

lemma enter_barrier_inv:
  assumes "enter_barrier e m t time s = Inr (w, s')" "barrier_inv None s" "m < num_cores s" "\<not> m_disable s" "0 \<le> t"
    and free: "\<not> acquired s m" "\<And>d. d < num_cores s \<Longrightarrow> acquired s d \<Longrightarrow> m_core_thread s ! d \<noteq> t"
  shows "barrier_inv None s'"
proof -
  define s1 where "s1 = doRelease 1 s"
  define s2 where "s2 = s1\<lparr>m_local_clock_list := (m_local_clock_list s1)[m := time],
      m_barrier_acquire_list := (m_barrier_acquire_list s1)[m := True], m_core_thread := (m_core_thread s1)[m := t]\<rparr>"
  have i1: "barrier_inv None s1" unfolding s1_def by (rule doRelease_inv) (rule assms(2))
  have f1: "m_barrier_acquire_list s1 = m_barrier_acquire_list s" "m_core_thread s1 = m_core_thread s" "m_disable s1 = m_disable s"
    by (simp_all add: s1_def doRelease_fields)
  have w1: "\<not> acquired s1 m" using free(1) by (simp add: f1)
  have "length (m_core_thread s1) = num_cores s1" using i1 by (simp add: barrier_inv_def)
  then have m2: "m < num_cores s2" "acquired s2 m" "m_core_thread s2 ! m = t" using assms(3) f1 by (simp_all add: s2_def)
  have i2: "barrier_inv (Some m) s2"
    unfolding s2_def using assms(3,4) free(2) f1 by (intro enter_inv [OF i1 _ w1 assms(5)]) simp_all
  have eq: "enter_barrier e m t time s = bindE (isBarrierReached e s2) (\<lambda>reached.
      bindE (if reached then barrierRelease e t False s2 else Inr (True, s2)) (\<lambda>(must_wait, s3).
        Inr (must_wait, if must_wait then s3\<lparr>m_core_waiting := (m_core_waiting s3)[m := m_core_waiting s3 ! m + 1]\<rparr> else s3)))"
    unfolding enter_barrier_def Let_def s2_def s1_def ..
  obtain b s3 where b: "isBarrierReached e s2 = Inr b"
    and r: "(if b then barrierRelease e t False s2 else Inr (True, s2)) = Inr (w, s3)"
    and s': "s' = (if w then s3\<lparr>m_core_waiting := (m_core_waiting s3)[m := m_core_waiting s3 ! m + 1]\<rparr> else s3)"
    using assms(1) unfolding eq by auto
  have k: "barrier_inv (Some m) s3 \<and> (w = acquired s3 m)"
  proof (cases b)
    case True
    obtain completed where "released (Some m) False completed w s2 s3"
      using barrierRelease_keeps [of t False s2 w s3 "Some m"] r True i2 m2 by (auto simp: caller_ok_def)
    then show ?thesis using m2(1) by (cases completed) (auto simp: released_def barrier_inv_def)
  qed (use r i2 m2 in auto)
  then show ?thesis unfolding s' by (auto simp: barrier_inv_def nth_list_update)
qed

lemma synchronize_inv:
  assumes "synchronize e c time s = Inr (w, s')" "barrier_inv None s" "core_thread_of e (world s) c = Some t" "0 \<le> t"
    and "\<And>d. d < num_cores s \<Longrightarrow> acquired s d \<Longrightarrow> m_core_thread s ! d \<noteq> t"
  shows "barrier_inv None s'"
  using assms(1,3) enter_barrier_inv [OF _ assms(2) _ _ assms(4) _ assms(5)] assms(2)
  by (auto simp: synchronize_def split: if_splits)

end

section \<open>The other entry points\<close>

lemma abort_step_inv:
  assumes "barrier_inv None s" "c < num_cores s" "acquired s c"
  shows "barrier_inv None (signal_core c (s\<lparr>m_barrier_acquire_list := (m_barrier_acquire_list s)[c := False]\<rparr>))"
proof -
  show ?thesis using assms by (auto simp: barrier_inv_def signal_core_def nth_list_update split: if_splits)
qed

lemma abort_loop_inv: "barrier_inv None s \<Longrightarrow> \<forall>c \<in> set cs. c < num_cores s \<Longrightarrow> barrier_inv None (abort_loop cs s)"
proof (induction cs arbitrary: s)
  case (Cons c cs)
  then show ?case using abort_step_inv [of s c] by (auto simp: signal_core_def)
qed simp

lemma abort_loop_acquired:
  "\<forall>c \<in> set cs. c < num_cores s \<Longrightarrow> num_cores (abort_loop cs s) = num_cores s \<and>
     (\<forall>c < num_cores s. acquired (abort_loop cs s) c = (acquired s c \<and> c \<notin> set cs))"
  by (induction cs arbitrary: s) (auto simp: signal_core_def nth_list_update)

lemma abort_loop_disable [simp]: "m_disable (abort_loop cs s) = m_disable s"
  by (induction cs arbitrary: s) (auto simp: signal_core_def)

lemma barrier_inv_set_disable:
  "barrier_inv me (s\<lparr>m_disable := d\<rparr>) \<longleftrightarrow> barrier_inv me (s\<lparr>m_disable := False\<rparr>) \<and> (d \<longrightarrow> (\<forall>c < num_cores s. \<not> acquired s c))"
  unfolding barrier_inv_def by auto

lemma abort_loop_set_disable: "abort_loop cs (s\<lparr>m_disable := d\<rparr>) = (abort_loop cs s)\<lparr>m_disable := d\<rparr>"
proof (induction cs arbitrary: s)
  case (Cons c cs)
  have "signal_core c (s\<lparr>m_disable := d, m_barrier_acquire_list := l\<rparr>) = (signal_core c (s\<lparr>m_barrier_acquire_list := l\<rparr>))\<lparr>m_disable := d\<rparr>" for l
    by (simp add: signal_core_def)
  then show ?case by (simp add: Cons)
qed simp

lemma setDisable_inv: "barrier_inv None s \<Longrightarrow> barrier_inv None (setDisable d s)"
proof -
  assume i: "barrier_inv None s"
  then have i': "barrier_inv None (s\<lparr>m_disable := False\<rparr>)" by (simp add: barrier_inv_def)
  show ?thesis
  proof (cases d)
    case True
    let ?a = "abort_loop [0..<num_cores s] s"
    have a: "num_cores ?a = num_cores s" "\<forall>c < num_cores s. \<not> acquired ?a c"
      using abort_loop_acquired [of "[0..<num_cores s]" s] by auto
    have "barrier_inv None (?a\<lparr>m_disable := False\<rparr>)"
      using abort_loop_inv [OF i', of "[0..<num_cores s]"] by (simp add: abort_loop_set_disable)
    then have "barrier_inv None (?a\<lparr>m_disable := True\<rparr>)" using a barrier_inv_set_disable [where s = ?a and d = True and me = None] by simp
    then show ?thesis using True by (simp add: setDisable_def abortBarrier_def abort_loop_set_disable)
  qed (use i' in \<open>simp add: setDisable_def\<close>)
qed

lemma setGroup_inv: "setGroup c m s = Inr s' \<Longrightarrow> barrier_inv None s \<Longrightarrow> barrier_inv None s'"
  by (auto simp: setGroup_def barrier_inv_def)

lemma setFastForward_inv: "barrier_inv None s \<Longrightarrow> barrier_inv None (setFastForward f t s)"
  by (simp add: setFastForward_def barrier_inv_def Let_def)

lemma BarrierSyncServer_inv: "barrier_inv None (BarrierSyncServer n q w)"
  by (simp add: barrier_inv_def BarrierSyncServer_def)

section \<open>When the barrier is reached\<close>

definition runs_on :: "'w barrier_env \<Rightarrow> 'w barrier_server \<Rightarrow> nat \<Rightarrow> bool" where
  "runs_on e s c \<longleftrightarrow> core_state_of e (world s) c = RUNNING \<and>
     (\<exists>t. core_thread_of e (world s) c = Some t \<and> thread_running e (world s) t)"

definition group_runs :: "'w barrier_env \<Rightarrow> 'w barrier_server \<Rightarrow> nat \<Rightarrow> bool" where
  "group_runs e s c \<longleftrightarrow> runs_on e s c \<or> (\<exists>d < num_cores s. m_core_group s ! d = int c \<and> runs_on e s d)"

lemma isCoreRunning_alone_eq: "isCoreRunning_alone e s c = Inr r \<Longrightarrow> r = runs_on e s c"
  by (auto simp: isCoreRunning_alone_def runs_on_def split: if_splits option.splits)

lemma any_sibling_running_eq:
  "any_sibling_running e s c ds = Inr r \<Longrightarrow> r \<longleftrightarrow> (\<exists>d \<in> set ds. m_core_group s ! d = int c \<and> runs_on e s d)"
  by (induction ds) (auto dest!: isCoreRunning_alone_eq split: if_splits)

lemma isCoreRunning_eq: "isCoreRunning e s c = Inr r \<Longrightarrow> \<not> m_fastforward s \<Longrightarrow> r \<longleftrightarrow> group_runs e s c"
  by (auto simp: isCoreRunning_def group_runs_def dest!: isCoreRunning_alone_eq any_sibling_running_eq split: if_splits)

abbreviation (input) counted :: "'w barrier_env \<Rightarrow> 'w barrier_server \<Rightarrow> nat \<Rightarrow> bool" where
  "counted e s c \<equiv> m_core_group s ! c = INVALID_CORE_ID \<and> group_runs e s c"

lemma reached_loop_eq:
  "reached_loop e s b cs = Inr r \<Longrightarrow> \<not> m_fastforward s \<Longrightarrow>
     r \<longleftrightarrow> (b \<or> (\<exists>c \<in> set cs. counted e s c)) \<and> (\<forall>c \<in> set cs. counted e s c \<longrightarrow> m_next_barrier_time s \<le> m_local_clock_list s ! c)"
proof (induction cs arbitrary: b)
  case (Cons c cs)
  show ?case
  proof (cases "m_core_group s ! c = INVALID_CORE_ID")
    case True
    then obtain r' where r': "isCoreRunning e s c = Inr r'" using Cons.prems by auto
    have "r' = group_runs e s c" using isCoreRunning_eq [OF r' Cons.prems(2)] .
    then show ?thesis
      using Cons.prems True r' Cons.IH [of True] Cons.IH [of b]
      by (cases r'; cases "m_local_clock_list s ! c < m_next_barrier_time s") (auto simp: not_less)
  qed (use Cons.prems Cons.IH [of b] in auto)
qed simp

section \<open>The release loop ends\<close>

text \<open>
  For progress the hooks must not move the barrier time, and may lower the recorded clock of a core (which
  \<^verbatim>\<open>releaseThread\<close> sets to zero) but not raise it.
\<close>

locale steady_barrier_environment = barrier_environment +
  assumes hook_next: "m_next_barrier_time (hook_periodic e t s) = m_next_barrier_time s"
    and hook_interval: "m_barrier_interval (hook_periodic e t s) = m_barrier_interval s"
    and hook_clock: "m_local_clock_list (hook_periodic e t s) ! c \<le> m_local_clock_list s ! c"
begin

lemma release_loop_ends:
  assumes "unat (m_local_clock_list s ! c) \<le> K" "K + unat (m_barrier_interval s) < 2 ^ 64"
    and "unat (m_next_barrier_time s) + unat (m_barrier_interval s) < 2 ^ 64" "0 < m_barrier_interval s"
    and "c < num_cores s" "acquired s c"
  shows "\<exists>r. release_loop e caller cont must_wait s = Some r"
  using assms
proof (induction "K - unat (m_next_barrier_time s)" arbitrary: s must_wait rule: less_induct)
  case less
  define s1 where "s1 = hook_periodic e (m_next_barrier_time s) (s\<lparr>m_global_time := m_next_barrier_time s\<rparr>)"
  define s2 where "s2 = s1\<lparr>m_next_barrier_time := m_next_barrier_time s1 + m_barrier_interval s1\<rparr>"
  have f1: "m_next_barrier_time s1 = m_next_barrier_time s" "m_barrier_interval s1 = m_barrier_interval s" "num_cores s1 = num_cores s"
    by (simp_all add: s1_def hook_next hook_interval hook_cores)
  have nxt: "unat (m_next_barrier_time s2) = unat (m_next_barrier_time s) + unat (m_barrier_interval s)"
    using less.prems(3) f1 by (simp add: s2_def unat_word_ariths)
  have "m_local_clock_list s1 ! c \<le> m_local_clock_list s ! c"
    using hook_clock [of _ "s\<lparr>m_global_time := m_next_barrier_time s\<rparr>" c] by (simp add: s1_def)
  then have clock: "unat (m_local_clock_list s2 ! c) \<le> K" using less.prems(1) by (simp add: s2_def word_le_nat_alt)
  obtain resumed mw s3 where sc: "release_scan caller [0..<num_cores s2] False must_wait s2 = (resumed, mw, s3)" by (metis prod_cases3)
  have unfold: "release_loop e caller cont must_wait s =
     (if cont \<and> any_thread_running e (world s1) then Some (Inr (False, False, s1))
      else if cont \<and> \<not> next_timeout e (m_global_time s1) (world s1) < - 1
      then Some (Inl (LOG_ASSERT_ERROR ''No threads running, no timeout. Application has deadlocked''))
      else if m_disable s1 then Some (Inr (False, False, s1))
      else if resumed then Some (Inr (True, mw, s3)) else release_loop e caller cont mw s3)"
    by (subst release_loop.simps) (simp add: s1_def [symmetric] s2_def [symmetric] sc Let_def)
  have "\<exists>r. release_loop e caller cont mw s3 = Some r" if d: "\<not> m_disable s1" and nr: "\<not> resumed"
  proof -
    have a: "m_barrier_acquire_list s2 = m_barrier_acquire_list s"
      using hook_acquire [of _ "s\<lparr>m_global_time := m_next_barrier_time s\<rparr>"] d by (simp add: s1_def s2_def)
    have nd: "\<not> due s2 d" if "d < num_cores s2" for d using sc nr that by (auto simp: release_scan_all)
    have "s3 = s2\<lparr>m_barrier_acquire_list := map (\<lambda>c. acquired s2 c \<and> \<not> due s2 c) [0..<num_cores s2],
       m_to_release := m_to_release s2 @ filter (\<lambda>c. due s2 c \<and> m_core_thread s2 ! c \<noteq> caller) [0..<num_cores s2]\<rparr>"
      using sc by (auto simp: release_scan_all)
    then have s3: "m_next_barrier_time s3 = m_next_barrier_time s2" "m_local_clock_list s3 = m_local_clock_list s2"
        "m_barrier_interval s3 = m_barrier_interval s" "num_cores s3 = num_cores s" "acquired s3 c"
      using nd less.prems(5,6) a f1 by (simp_all add: s2_def)
    have le: "m_next_barrier_time s2 \<le> m_local_clock_list s2 ! c"
      using nd [of c] less.prems(5,6) a by (simp add: due_def not_less)
    then have "unat (m_next_barrier_time s2) \<le> K" using clock by (simp add: word_le_nat_alt)
    moreover have "0 < unat (m_barrier_interval s)" using less.prems(4) by (simp add: unat_gt_0 word_gt_0)
    ultimately show ?thesis
      using less.prems clock nxt s3 by (intro less.hyps) simp_all
  qed
  then show ?case unfolding unfold by auto
qed

lemma release_loop_error: "release_loop e' caller cont must_wait s = Some r \<Longrightarrow> \<not> cont \<Longrightarrow> isl r \<Longrightarrow> False"
proof (induction rule: release_loop_induct)
  case (step loop e' caller cont must_wait s r)
  then show ?case by (auto simp: Let_def split: if_splits prod.splits)
qed

lemma barrierRelease_ends:
  assumes "unat (m_local_clock_list s ! c) + unat (m_barrier_interval s) < 2 ^ 64"
    and "unat (m_next_barrier_time s) + unat (m_barrier_interval s) < 2 ^ 64" "0 < m_barrier_interval s"
    and "c < num_cores s" "acquired s c" "m_to_release s = []" "\<not> m_fastforward s"
  shows "\<exists>must_wait s'. barrierRelease e caller False s = Inr (must_wait, s')"
proof -
  obtain r where r: "release_loop e caller False True s = Some r"
    using release_loop_ends [OF order_refl assms(1-5)] by blast
  moreover obtain x where "r = Inr x" using release_loop_error [OF r] by (cases r) auto
  ultimately show ?thesis using assms(6,7) by (auto simp: barrierRelease_def split_beta)
qed

end

end
