(* ===== verification/Futex.thy ===== *)
theory Futex
  imports Wait_Queues "HOL-Library.AList"
begin

text \<open>
  \<^verbatim>\<open>system/syscall_server.{h,cc}\<close>: the futex system call and sleeping threads. A futex is the list of its
  waiters, and the table of futexes is an association list in its order of iteration. The code hands out
  pointers into the table, so the operations here name a futex by its key: two pointers are the same futex
  when the keys are equal. What the server reads of other parts is in the record too: the translation of
  user addresses (\<^verbatim>\<open>Thread::va2pa\<close>, a function installed by the front end), the instruction count of the
  core a thread runs on (no core: \<open>None\<close>), the start of emulated time, and the 32-bit words of application
  memory. \<^verbatim>\<open>int\<close> is a 32-bit word, compared through \<open>sint\<close>. The constants of \<^verbatim>\<open>linux/futex.h\<close> and the
  error numbers are those of Linux.
\<close>

unbundle bit_operations_syntax

section \<open>Waiters of one futex\<close>

record futex_waiter =
  thread_id :: thread_id_t
  mask :: UInt32
  timeout :: UInt64

type_synonym sim_futex = "futex_waiter list"

abbreviation (input) MaxTime :: UInt64 where "MaxTime \<equiv> - 1"

definition enqueueWaiter ::
  "thread_id_t \<Rightarrow> UInt32 \<Rightarrow> UInt64 \<Rightarrow> sim_futex \<Rightarrow> thread_manager \<Rightarrow> sim_futex \<times> thread_manager" where
  "enqueueWaiter t msk timeout_time q tm =
     (q @ [\<lparr>thread_id = t, mask = msk, timeout = timeout_time\<rparr>], stallThread t STALL_FUTEX tm)"

text \<open>The loops over \<^verbatim>\<open>m_waiting\<close> that erase the first waiter with some property and stop.\<close>

fun erase_first :: "('a \<Rightarrow> bool) \<Rightarrow> 'a list \<Rightarrow> ('a \<times> 'a list) option" where
  "erase_first P [] = None"
| "erase_first P (w # ws) =
     (if P w then Some (w, ws) else map_option (\<lambda>(u, us). (u, w # us)) (erase_first P ws))"

definition dequeueWaiter ::
  "UInt32 \<Rightarrow> UInt64 \<Rightarrow> sim_futex \<Rightarrow> thread_manager \<Rightarrow> thread_id_t \<times> sim_futex \<times> thread_manager" where
  "dequeueWaiter msk time q tm =
     (case erase_first (\<lambda>w. msk AND mask w \<noteq> 0) q of
        Some (w, q') \<Rightarrow> (thread_id w, q', resumeThread (thread_id w) time True tm)
      | None \<Rightarrow> (INVALID_THREAD_ID, q, tm))"

definition wakeTimedOut :: "UInt64 \<Rightarrow> sim_futex \<Rightarrow> thread_manager \<Rightarrow> sim_futex \<times> thread_manager" where
  "wakeTimedOut time q tm =
     (case erase_first (\<lambda>w. timeout w \<le> time) q of
        Some (w, q') \<Rightarrow> (q', resumeThread (thread_id w) time False tm)
      | None \<Rightarrow> (q, tm))"

text \<open>The loop of both \<^verbatim>\<open>getNextTimeout\<close>: each finite timeout overwrites the one found before.\<close>

definition last_timeout :: "sim_futex \<Rightarrow> UInt64" where
  "last_timeout q = foldl (\<lambda>nxt w. if timeout w < MaxTime then timeout w else nxt) MaxTime q"

section \<open>The server\<close>

record syscall_server =
  m_sleeping :: sim_futex
  m_futexes :: "(IntPtr \<times> sim_futex) list"
  m_resched_cost :: UInt64
  m_threads :: thread_manager
  memory :: "IntPtr \<Rightarrow> UInt32"
  va2pa :: "thread_id_t \<Rightarrow> IntPtr \<Rightarrow> IntPtr"
  instruction_count :: "thread_id_t \<Rightarrow> UInt64 option"
  osemu_time_start :: UInt64

definition SyscallServer :: "UInt64 \<Rightarrow> thread_manager \<Rightarrow> (IntPtr \<Rightarrow> UInt32) \<Rightarrow> (thread_id_t \<Rightarrow> IntPtr \<Rightarrow> IntPtr) \<Rightarrow>
    (thread_id_t \<Rightarrow> UInt64 option) \<Rightarrow> UInt64 \<Rightarrow> syscall_server" where
  "SyscallServer reschedule_cost_ns tm mem translate icount start =
     \<lparr>m_sleeping = [], m_futexes = [], m_resched_cost = 1000000 * reschedule_cost_ns, m_threads = tm,
      memory = mem, va2pa = translate, instruction_count = icount, osemu_time_start = start\<rparr>"

definition futex_at :: "syscall_server \<Rightarrow> IntPtr \<Rightarrow> sim_futex" where
  "futex_at s a = (case map_of (m_futexes s) a of Some q \<Rightarrow> q | None \<Rightarrow> [])"

definition put_futex :: "IntPtr \<Rightarrow> sim_futex \<Rightarrow> syscall_server \<Rightarrow> syscall_server" where
  "put_futex a q s = s\<lparr>m_futexes := AList.update a q (m_futexes s)\<rparr>"

definition findFutexByUaddr :: "IntPtr \<Rightarrow> thread_id_t \<Rightarrow> syscall_server \<Rightarrow> IntPtr \<times> syscall_server" where
  "findFutexByUaddr uaddr t s = (let a = va2pa s t uaddr in (a, put_futex a (futex_at s a) s))"

definition applyRescheduleCost :: "thread_id_t \<Rightarrow> bool \<Rightarrow> syscall_server \<Rightarrow> UInt64" where
  "applyRescheduleCost t conditional s =
     (if \<not> conditional then 0 else if instruction_count s t = Some 0 then 0 else m_resched_cost s)"

text \<open>
  The outcome of a call: a return value with the end time, or the caller sleeps. A waiter that was put to
  sleep returns later, when it is resumed, with \<open>futexWait_resumed\<close>.
\<close>

datatype futex_outcome = Returns UInt64 UInt64 | Sleeps

definition "EAGAIN = (11 :: UInt64)"

definition "ETIMEDOUT = (110 :: UInt64)"

definition handleSleepCall :: "thread_id_t \<Rightarrow> UInt64 \<Rightarrow> syscall_server \<Rightarrow> futex_outcome \<times> syscall_server" where
  "handleSleepCall t wake_time s =
     (Sleeps, s\<lparr>m_sleeping := m_sleeping s @ [\<lparr>thread_id = t, mask = 0, timeout = wake_time\<rparr>],
                m_threads := stallThread t STALL_SLEEP (m_threads s)\<rparr>)"

definition futexWait ::
  "thread_id_t \<Rightarrow> IntPtr \<Rightarrow> UInt32 \<Rightarrow> UInt32 \<Rightarrow> UInt32 \<Rightarrow> UInt64 \<Rightarrow> UInt64 \<Rightarrow> syscall_server
     \<Rightarrow> futex_outcome \<times> syscall_server" where
  "futexWait t uaddr val act_val msk curr_time timeout_time s =
     (let (a, s1) = findFutexByUaddr uaddr t s in
      if val \<noteq> act_val then (Returns (- EAGAIN) curr_time, s1)
      else let (q, tm) = enqueueWaiter t msk timeout_time (futex_at s1 a) (m_threads s1)
           in (Sleeps, (put_futex a q s1)\<lparr>m_threads := tm\<rparr>))"

definition futexWait_resumed :: "thread_id_t \<Rightarrow> syscall_server \<Rightarrow> futex_outcome" where
  "futexWait_resumed t s =
     Returns (if m_wakeup_msg (m_threads s) t then 0 else - ETIMEDOUT) (m_wakeup_time (m_threads s) t)"

text \<open>The call \<open>dequeueWaiter\<close> on the futex with key \<open>a\<close>.\<close>

definition dequeue_at :: "IntPtr \<Rightarrow> UInt32 \<Rightarrow> UInt64 \<Rightarrow> syscall_server \<Rightarrow> thread_id_t \<times> syscall_server" where
  "dequeue_at a msk time s =
     (let (w, q, tm) = dequeueWaiter msk time (futex_at s a) (m_threads s)
      in (w, (put_futex a q s)\<lparr>m_threads := tm\<rparr>))"

definition wakeFutexOne :: "IntPtr \<Rightarrow> thread_id_t \<Rightarrow> UInt32 \<Rightarrow> UInt64 \<Rightarrow> syscall_server \<Rightarrow> thread_id_t \<times> syscall_server" where
  "wakeFutexOne a thread_by msk curr_time s = dequeue_at a msk (curr_time + applyRescheduleCost thread_by True s) s"

text \<open>The loops that wake up to \<open>nr\<close> waiters and stop at the first call that finds none.\<close>

fun wake_loop ::
  "(syscall_server \<Rightarrow> thread_id_t \<times> syscall_server) \<Rightarrow> nat \<Rightarrow> nat \<Rightarrow> syscall_server \<Rightarrow> nat \<times> syscall_server" where
  "wake_loop one 0 woken s = (woken, s)"
| "wake_loop one (Suc n) woken s =
     (let (w, s1) = one s in if w = INVALID_THREAD_ID then (woken, s1) else wake_loop one n (woken + 1) s1)"

definition iterations :: "UInt32 \<Rightarrow> nat" where
  "iterations nr = nat (sint nr)"

definition futexWake ::
  "thread_id_t \<Rightarrow> IntPtr \<Rightarrow> UInt32 \<Rightarrow> UInt32 \<Rightarrow> UInt64 \<Rightarrow> syscall_server \<Rightarrow> futex_outcome \<times> syscall_server" where
  "futexWake t uaddr nr_wake msk curr_time s =
     (let (a, s1) = findFutexByUaddr uaddr t s;
          (woken, s2) = wake_loop (wakeFutexOne a t msk curr_time) (iterations nr_wake) 0 s1
      in (Returns (of_nat woken) (curr_time + applyRescheduleCost t (woken > 0) s2), s2))"

definition futexDoOp :: "UInt32 \<Rightarrow> IntPtr \<Rightarrow> syscall_server \<Rightarrow> (bool \<times> syscall_server) result" where
  "futexDoOp encoded_op uaddr s =
     (let opn = signed_drop_bit 28 encoded_op AND 7;
          cmp = signed_drop_bit 24 encoded_op AND 15;
          oparg0 = signed_drop_bit 20 (push_bit 8 encoded_op);
          cmparg = signed_drop_bit 20 (push_bit 20 encoded_op);
          oldval = memory s uaddr
      in bindE
          (if encoded_op AND push_bit 28 8 \<noteq> 0
           then if 0 \<le> sint oparg0 \<and> sint oparg0 < 32 then Inr (push_bit (unat oparg0) 1)
                else Inl (UNDEFINED ''shift count of 1 << oparg'')
           else Inr oparg0) (\<lambda>oparg.
         bindE
          (if opn = 0 then Inr oparg
           else if opn = 1 then Inr (oldval + oparg)
           else if opn = 2 then Inr (oldval OR oparg)
           else if opn = 3 then Inr (oldval AND NOT oparg)
           else if opn = 4 then Inr (oldval XOR oparg)
           else Inl (LOG_ASSERT_ERROR ''futexWakeOp: unknown op'')) (\<lambda>newval.
         bindE
          (if cmp = 0 then Inr (oldval = cmparg)
           else if cmp = 1 then Inr (oldval \<noteq> cmparg)
           else if cmp = 2 then Inr (sint oldval < sint cmparg)
           else if cmp = 5 then Inr (sint oldval \<ge> sint cmparg)
           else if cmp = 3 then Inr (sint oldval \<le> sint cmparg)
           else if cmp = 4 then Inr (sint oldval > sint cmparg)
           else Inl (LOG_ASSERT_ERROR ''futexWakeOp: unknown cmp'')) (\<lambda>ret.
         Inr (ret, s\<lparr>memory := (memory s)(uaddr := newval)\<rparr>)))))"

definition FUTEX_BITSET_MATCH_ANY :: UInt32 where "FUTEX_BITSET_MATCH_ANY = 0xffffffff"

definition futexWakeOp ::
  "thread_id_t \<Rightarrow> IntPtr \<Rightarrow> IntPtr \<Rightarrow> UInt32 \<Rightarrow> UInt32 \<Rightarrow> UInt32 \<Rightarrow> UInt64 \<Rightarrow> syscall_server
     \<Rightarrow> (futex_outcome \<times> syscall_server) result" where
  "futexWakeOp t uaddr uaddr2 nr_wake nr_wake2 opn curr_time s =
     (let (a, s1) = findFutexByUaddr uaddr t s; (a2, s2) = findFutexByUaddr uaddr2 t s1 in
      bindE (assertE (instruction_count s2 t \<noteq> None)
        (LOG_ASSERT_ERROR ''Cannot execute futexWakeOp() for a thread that is unscheduled'')) (\<lambda>_.
      bindE (futexDoOp opn uaddr2 s2) (\<lambda>(op_ret, s3).
        let (woken, s4) = wake_loop (wakeFutexOne a t FUTEX_BITSET_MATCH_ANY curr_time) (iterations nr_wake) 0 s3;
            (woken', s5) = (if op_ret
               then wake_loop (wakeFutexOne a2 t FUTEX_BITSET_MATCH_ANY curr_time) (iterations nr_wake2) woken s4
               else (woken, s4))
        in Inr (Returns (of_nat woken') (curr_time + applyRescheduleCost t (woken' > 0) s5), s5))))"

text \<open>
  \<^verbatim>\<open>requeueWaiter\<close> pops the front waiter of one futex and pushes it at the back of the other; the futexes
  are the same object when their keys are equal, and then the loop that calls it may run forever.
\<close>

definition requeueWaiter :: "IntPtr \<Rightarrow> IntPtr \<Rightarrow> syscall_server \<Rightarrow> thread_id_t \<times> syscall_server" where
  "requeueWaiter a b s =
     (case futex_at s a of
        [] \<Rightarrow> (INVALID_THREAD_ID, s)
      | w # ws \<Rightarrow> let s1 = put_futex a ws s in (thread_id w, put_futex b (futex_at s1 b @ [w]) s1))"

partial_function (option) requeue_loop :: "IntPtr \<Rightarrow> IntPtr \<Rightarrow> syscall_server \<Rightarrow> syscall_server option" where
  "requeue_loop a b s =
     (let (w, s1) = requeueWaiter a b s in if w = INVALID_THREAD_ID then Some s1 else requeue_loop a b s1)"

definition futexCmpRequeue ::
  "thread_id_t \<Rightarrow> IntPtr \<Rightarrow> UInt32 \<Rightarrow> IntPtr \<Rightarrow> UInt32 \<Rightarrow> UInt32 \<Rightarrow> UInt64 \<Rightarrow> syscall_server
     \<Rightarrow> (futex_outcome \<times> syscall_server) result" where
  "futexCmpRequeue t uaddr val uaddr2 val3 act_val curr_time s =
     (let (a, s1) = findFutexByUaddr uaddr t s in
      if val3 \<noteq> act_val then Inr (Returns (- EAGAIN) curr_time, s1)
      else
        let (woken, s2) = wake_loop (dequeue_at a FUTEX_BITSET_MATCH_ANY curr_time) (iterations val) 0 s1;
            (b, s3) = findFutexByUaddr uaddr2 t s2
        in case requeue_loop a b s3 of
             Some s4 \<Rightarrow> Inr (Returns (of_nat woken) curr_time, s4)
           | None \<Rightarrow> Inl (NONTERMINATION ''futexCmpRequeue''))"

section \<open>The system call\<close>

record futex_args_t =
  uaddr :: IntPtr
  opcode :: UInt32
  val :: UInt32
  timespec :: "(UInt64 \<times> UInt64) option"
  val2 :: UInt32
  uaddr2 :: IntPtr
  val3 :: UInt32

abbreviation (input) "FUTEX_WAIT \<equiv> 0 :: UInt32"
abbreviation (input) "FUTEX_WAKE \<equiv> 1 :: UInt32"
abbreviation (input) "FUTEX_CMP_REQUEUE \<equiv> 4 :: UInt32"
abbreviation (input) "FUTEX_WAKE_OP \<equiv> 5 :: UInt32"
abbreviation (input) "FUTEX_WAIT_BITSET \<equiv> 9 :: UInt32"
abbreviation (input) "FUTEX_WAKE_BITSET \<equiv> 10 :: UInt32"
abbreviation (input) "FUTEX_PRIVATE_FLAG \<equiv> 128 :: UInt32"

text \<open>The time a waiter gives up: \<^verbatim>\<open>timespec\<close> holds the seconds and nanoseconds read from \<^verbatim>\<open>args.timeout\<close>.\<close>

definition timeout_of :: "UInt32 \<Rightarrow> (UInt64 \<times> UInt64) option \<Rightarrow> UInt64 \<Rightarrow> syscall_server \<Rightarrow> UInt64" where
  "timeout_of cmd ts curr_time s =
     (if cmd = FUTEX_WAIT \<or> cmd = FUTEX_WAIT_BITSET
      then case ts of
             None \<Rightarrow> MaxTime
           | Some (tv_sec, tv_nsec) \<Rightarrow>
               let timeout_val = (tv_sec - osemu_time_start s) * 1000000000000000 + tv_nsec * 1000000
               in if cmd = FUTEX_WAIT_BITSET then timeout_val else curr_time + timeout_val
      else MaxTime)"

definition handleFutexCall ::
  "thread_id_t \<Rightarrow> futex_args_t \<Rightarrow> UInt64 \<Rightarrow> syscall_server \<Rightarrow> (futex_outcome \<times> syscall_server) result" where
  "handleFutexCall t args curr_time s =
     (let cmd = (opcode args AND 0x7f) AND NOT FUTEX_PRIVATE_FLAG in
      bindE (assertE (instruction_count s t \<noteq> None) (LOG_ASSERT_ERROR ''Core should not be NULL'')) (\<lambda>_.
      bindE (assertE (cmd \<in> {FUTEX_WAIT, FUTEX_WAIT_BITSET, FUTEX_WAKE, FUTEX_WAKE_BITSET, FUTEX_WAKE_OP, FUTEX_CMP_REQUEUE})
        (LOG_ASSERT_ERROR ''op'')) (\<lambda>_.
        let timeout_time = timeout_of cmd (timespec args) curr_time s;
            act_val = memory s (uaddr args)
        in if cmd = FUTEX_WAIT \<or> cmd = FUTEX_WAIT_BITSET
           then Inr (futexWait t (uaddr args) (val args) act_val
                  (if cmd = FUTEX_WAIT_BITSET then val3 args else FUTEX_BITSET_MATCH_ANY) curr_time timeout_time s)
           else if cmd = FUTEX_WAKE \<or> cmd = FUTEX_WAKE_BITSET
           then Inr (futexWake t (uaddr args) (val args)
                  (if cmd = FUTEX_WAIT_BITSET then val3 args else FUTEX_BITSET_MATCH_ANY) curr_time s)
           else if cmd = FUTEX_WAKE_OP
           then futexWakeOp t (uaddr args) (uaddr2 args) (val args) (val2 args) (val3 args) curr_time s
           else
             bindE (assertE (uaddr args \<noteq> uaddr2 args) (LOG_ASSERT_ERROR ''FUTEX_CMP_REQUEUE: uaddr == uaddr2'')) (\<lambda>_.
               futexCmpRequeue t (uaddr args) (val args) (uaddr2 args) (val3 args) act_val curr_time s))))"

section \<open>Timeouts\<close>

fun wake_all_timed_out :: "UInt64 \<Rightarrow> (IntPtr \<times> sim_futex) list \<Rightarrow> thread_manager \<Rightarrow> (IntPtr \<times> sim_futex) list \<times> thread_manager" where
  "wake_all_timed_out time [] tm = ([], tm)"
| "wake_all_timed_out time ((a, q) # F) tm =
     (let (q', tm1) = wakeTimedOut time q tm; (F', tm2) = wake_all_timed_out time F tm1 in ((a, q') # F', tm2))"

definition futexPeriodic :: "UInt64 \<Rightarrow> syscall_server \<Rightarrow> syscall_server" where
  "futexPeriodic time s =
     (let (sl, tm1) = wakeTimedOut time (m_sleeping s) (m_threads s);
          (F, tm2) = wake_all_timed_out time (m_futexes s) tm1
      in s\<lparr>m_sleeping := sl, m_futexes := F, m_threads := tm2\<rparr>)"

definition getNextTimeout :: "syscall_server \<Rightarrow> UInt64" where
  "getNextTimeout s =
     foldl (\<lambda>nxt (a, q). let u = last_timeout q in if u < nxt then u else nxt) (last_timeout (m_sleeping s)) (m_futexes s)"

end
