(* ===== verification/Futex_Properties.thy ===== *)
theory Futex_Properties
  imports Futex "HOL-Library.Sublist"
begin

text \<open>
  What the futex calls guarantee: which waiters a wake-up takes and in which order, that requeueing loses
  nobody, that the waiting lists and the thread manager agree in every reachable state, and that expired
  waiters are woken by the periodic hook.
\<close>

section \<open>Taking waiters off a queue\<close>

lemma erase_first_Some:
  "erase_first P xs = Some (w, ys) \<Longrightarrow> \<exists>us vs. xs = us @ w # vs \<and> ys = us @ vs \<and> P w \<and> (\<forall>u \<in> set us. \<not> P u)"
proof (induction xs arbitrary: ys)
  case (Cons x xs)
  show ?case
  proof (cases "P x")
    case False
    then obtain zs where "erase_first P xs = Some (w, zs)" "ys = x # zs" using Cons.prems by (auto split: prod.splits)
    then show ?thesis using Cons.IH False by (metis append_Cons set_ConsD)
  qed (use Cons.prems in \<open>force intro: exI [of _ "[]"]\<close>)
qed simp

lemma erase_first_None: "erase_first P xs = None \<longleftrightarrow> (\<forall>x \<in> set xs. \<not> P x)"
  by (induction xs) auto

lemma erase_first_cases:
  obtains (None) "erase_first P xs = None" "filter P xs = []"
  | (Some) w us vs where "erase_first P xs = Some (w, us @ vs)" "xs = us @ w # vs" "P w" "filter P us = []"
proof (cases "erase_first P xs")
  case (Some p)
  obtain w ys where p: "p = (w, ys)" by fastforce
  show ?thesis using erase_first_Some [of P xs w ys] Some that(2) by (auto simp: p)
qed (use that(1) in \<open>simp add: erase_first_None\<close>)

lemma futex_at_put [simp]: "futex_at (put_futex a q s) b = (if b = a then q else futex_at s b)"
  by (simp add: futex_at_def put_futex_def AList.update_conv')

lemma put_futex_fields [simp]:
  "m_sleeping (put_futex a q s) = m_sleeping s" "m_threads (put_futex a q s) = m_threads s"
  "memory (put_futex a q s) = memory s" "va2pa (put_futex a q s) = va2pa s"
  "instruction_count (put_futex a q s) = instruction_count s" "m_resched_cost (put_futex a q s) = m_resched_cost s"
  by (simp_all add: put_futex_def)

lemma futex_at_threads [simp]: "futex_at (s\<lparr>m_threads := tm\<rparr>) = futex_at s" "futex_at (s\<lparr>memory := m\<rparr>) = futex_at s"
  by (simp_all add: futex_at_def fun_eq_iff)

lemma put_futex_twice [simp]: "put_futex a q (put_futex a q' s) = put_futex a q s"
  by (simp add: put_futex_def)

lemma put_futex_threads: "put_futex a q (s\<lparr>m_threads := tm\<rparr>) = (put_futex a q s)\<lparr>m_threads := tm\<rparr>"
  by (simp add: put_futex_def)

definition known :: "syscall_server \<Rightarrow> IntPtr \<Rightarrow> bool" where
  "known s a \<longleftrightarrow> a \<in> fst ` set (m_futexes s)"

lemma put_futex_same: "known s a \<Longrightarrow> put_futex a (futex_at s a) s = s"
proof -
  assume "known s a"
  then obtain q where "map_of (m_futexes s) a = Some q" by (metis known_def map_of_eq_None_iff not_Some_eq)
  then show ?thesis by (simp add: put_futex_def futex_at_def AList.update_triv)
qed

lemma update_commute:
  "a \<noteq> b \<Longrightarrow> a \<in> fst ` set F \<Longrightarrow> AList.update a x (AList.update b y F) = AList.update b y (AList.update a x F)"
  by (induction F) auto

lemma put_futex_commute:
  "a \<noteq> b \<Longrightarrow> known s a \<Longrightarrow> put_futex a x (put_futex b y s) = put_futex b y (put_futex a x s)"
  using update_commute [of a b "m_futexes s" x y] by (simp add: put_futex_def known_def)

lemma known_put [simp]: "known (put_futex a q s) b \<longleftrightarrow> b = a \<or> known s b"
  by (auto simp: known_def put_futex_def AList.dom_update)

lemma known_threads [simp]: "known (s\<lparr>m_threads := tm\<rparr>) b = known s b" "known (s\<lparr>memory := m\<rparr>) b = known s b"
  by (simp_all add: known_def)

text \<open>Resuming the waiters of a list one after the other.\<close>

definition resume_all :: "UInt64 \<Rightarrow> futex_waiter list \<Rightarrow> thread_manager \<Rightarrow> thread_manager" where
  "resume_all time ws tm = foldl (\<lambda>tm w. resumeThread (thread_id w) time True tm) tm ws"

lemma resume_all_simps [simp]:
  "resume_all time [] tm = tm"
  "resume_all time (w # ws) tm = resume_all time ws (resumeThread (thread_id w) time True tm)"
  by (simp_all add: resume_all_def)

lemma resume_all_running:
  "isThreadRunning u (resume_all time ws tm) \<longleftrightarrow> u \<in> thread_id ` set ws \<or> isThreadRunning u tm"
  by (induction ws arbitrary: tm) (auto simp: isThreadRunning_def)

lemma resume_all_keeps:
  "u \<notin> thread_id ` set ws \<Longrightarrow> m_wakeup_time (resume_all time ws tm) u = m_wakeup_time tm u"
  "u \<notin> thread_id ` set ws \<Longrightarrow> m_wakeup_msg (resume_all time ws tm) u = m_wakeup_msg tm u"
  by (induction ws arbitrary: tm) auto

lemma resume_all_woken:
  assumes "u \<in> thread_id ` set ws"
  shows "m_wakeup_time (resume_all time ws tm) u = time \<and> m_wakeup_msg (resume_all time ws tm) u"
  using assms
proof (induction ws arbitrary: tm)
  case (Cons w ws)
  then show ?case by (cases "u \<in> thread_id ` set ws") (auto simp: resume_all_keeps)
qed simp

text \<open>The queue \<open>q'\<close> is \<open>q\<close> without its first \<open>n\<close> members that satisfy \<open>P\<close>.\<close>

definition without_first :: "nat \<Rightarrow> ('a \<Rightarrow> bool) \<Rightarrow> 'a list \<Rightarrow> 'a list \<Rightarrow> bool" where
  "without_first n P q q' \<longleftrightarrow> filter P q' = drop n (filter P q) \<and> filter (\<lambda>x. \<not> P x) q' = filter (\<lambda>x. \<not> P x) q \<and> subseq q' q"

lemma without_first_0 [simp]: "without_first 0 P q q"
  by (simp add: without_first_def)

lemma without_first_none: "filter P q = [] \<Longrightarrow> without_first n P q q"
  by (simp add: without_first_def)

lemma without_first_Suc:
  assumes "without_first n P (us @ vs) q'" "P w" "filter P us = []"
  shows "without_first (Suc n) P (us @ w # vs) q'"
proof -
  have "subseq (us @ vs) (us @ w # vs)" by (intro list_emb_append_mono) auto
  then show ?thesis using assms unfolding without_first_def by (auto intro: subseq_order.trans)
qed

lemma without_first_subset:
  assumes "without_first n P q q'"
  shows "set q' \<subseteq> set q"
proof -
  have "set q' = set (filter P q') \<union> set (filter (\<lambda>x. \<not> P x) q')" by auto
  also have "\<dots> = set (drop n (filter P q)) \<union> set (filter (\<lambda>x. \<not> P x) q)" using assms by (simp add: without_first_def)
  also have "\<dots> \<subseteq> set q" by (auto dest: in_set_dropD)
  finally show ?thesis .
qed

abbreviation wanted :: "UInt32 \<Rightarrow> futex_waiter \<Rightarrow> bool" where
  "wanted msk \<equiv> \<lambda>w. msk AND mask w \<noteq> 0"

lemma wake_loop_dequeue:
  assumes "known s a" "\<forall>w \<in> set (futex_at s a). thread_id w \<noteq> INVALID_THREAD_ID"
  shows "\<exists>q'. wake_loop (dequeue_at a msk time) n m s =
      (m + length (take n (filter (wanted msk) (futex_at s a))),
       (put_futex a q' s)\<lparr>m_threads := resume_all time (take n (filter (wanted msk) (futex_at s a))) (m_threads s)\<rparr>) \<and>
     without_first n (wanted msk) (futex_at s a) q'"
  using assms
proof (induction n arbitrary: m s)
  case 0
  then show ?case by (intro exI [of _ "futex_at s a"]) (simp add: put_futex_same)
next
  case (Suc n)
  show ?case
  proof (cases "wanted msk" "futex_at s a" rule: erase_first_cases)
    case f: None
    have "dequeue_at a msk time s = (INVALID_THREAD_ID, s)"
      using f(1) put_futex_same [OF Suc.prems(1)] by (simp add: dequeue_at_def dequeueWaiter_def)
    then show ?thesis
      using put_futex_same [OF Suc.prems(1)] without_first_none [OF f(2)] f by (intro exI [of _ "futex_at s a"]) simp
  next
    case (Some w us vs)
    note e = Some(1) and q = Some(2) and w = Some(3) and f = Some(4)
    let ?s = "(put_futex a (us @ vs) s)\<lparr>m_threads := resumeThread (thread_id w) time True (m_threads s)\<rparr>"
    have st: "dequeue_at a msk time s = (thread_id w, ?s)" by (simp add: dequeue_at_def dequeueWaiter_def e)
    obtain q' where IH: "wake_loop (dequeue_at a msk time) n (m + 1) ?s =
        (m + 1 + length (take n (filter (wanted msk) (us @ vs))),
         (put_futex a q' ?s)\<lparr>m_threads := resume_all time (take n (filter (wanted msk) (us @ vs))) (m_threads ?s)\<rparr>)"
        "without_first n (wanted msk) (us @ vs) q'"
      using Suc.IH [of ?s "m + 1"] Suc.prems by (auto simp: q)
    have "thread_id w \<noteq> INVALID_THREAD_ID" using Suc.prems(2) by (auto simp: q)
    then show ?thesis
      using IH(1) without_first_Suc [OF IH(2) w f] w f unfolding q
      by (intro exI [of _ q'] conjI) (simp_all add: st put_futex_threads)
  qed
qed

lemma dequeue_at_cost: "applyRescheduleCost t b (snd (dequeue_at a msk time s)) = applyRescheduleCost t b s"
  by (simp add: dequeue_at_def applyRescheduleCost_def split: prod.split)

lemma wake_loop_cost:
  "wake_loop (wakeFutexOne a t msk c) n m s = wake_loop (dequeue_at a msk (c + applyRescheduleCost t True s)) n m s"
proof (induction n arbitrary: m s)
  case (Suc n)
  obtain w s1 where d: "dequeue_at a msk (c + applyRescheduleCost t True s) s = (w, s1)" by fastforce
  then have "applyRescheduleCost t True s1 = applyRescheduleCost t True s" using dequeue_at_cost by (metis snd_conv)
  then show ?case using Suc.IH [of _ s1] by (simp add: wakeFutexOne_def d)
qed simp

section \<open>Requeueing\<close>

lemma requeue_loop_moves:
  assumes "a \<noteq> b" "\<forall>w \<in> set (futex_at s a). thread_id w \<noteq> INVALID_THREAD_ID" "known s a" "known s b"
  shows "requeue_loop a b s = Some (put_futex b (futex_at s b @ futex_at s a) (put_futex a [] s))"
  using assms
proof (induction "futex_at s a" arbitrary: s)
  case Nil
  then have "put_futex a [] s = s" using put_futex_same [of s a] by simp
  then show ?case
    using Nil put_futex_same [of s b] by (subst requeue_loop.simps) (simp add: requeueWaiter_def)
next
  case (Cons w ws)
  let ?s = "put_futex b (futex_at s b @ [w]) (put_futex a ws s)"
  have r: "requeueWaiter a b s = (thread_id w, ?s)" using Cons.hyps(2) Cons.prems(1) by (simp add: requeueWaiter_def flip: Cons.hyps(2))
  have w: "thread_id w \<noteq> INVALID_THREAD_ID" using Cons.prems(2) Cons.hyps(2) by (metis list.set_intros(1))
  have at: "futex_at ?s a = ws" "futex_at ?s b = futex_at s b @ [w]" using Cons.prems(1) by auto
  have IH: "requeue_loop a b ?s = Some (put_futex b (futex_at ?s b @ futex_at ?s a) (put_futex a [] ?s))"
    using Cons.prems by (intro Cons.hyps(1)) (auto simp: at simp flip: Cons.hyps(2))
  have "put_futex b q (put_futex a [] ?s) = put_futex b q (put_futex a [] s)" for q
    using Cons.prems(1,3) put_futex_commute [of a b "put_futex a ws s" "[]" "futex_at s b @ [w]"] by simp
  then show ?case using IH w Cons.hyps(2) unfolding at by (subst requeue_loop.simps) (simp add: r)
qed

lemmas requeue_loop_induct = requeue_loop.raw_induct [rotated, consumes 1, case_names step]

lemma requeue_loop_self:
  assumes "futex_at s a \<noteq> []" "\<forall>w \<in> set (futex_at s a). thread_id w \<noteq> INVALID_THREAD_ID"
  shows "requeue_loop a a s = None"
proof -
  have "\<not> (futex_at s a \<noteq> [] \<and> (\<forall>w \<in> set (futex_at s a). thread_id w \<noteq> INVALID_THREAD_ID))"
    if "requeue_loop a b s = Some s'" "b = a" for b s'
    using that
  proof (induction rule: requeue_loop_induct)
    case (step loop a b s s')
    show ?case
    proof (cases "futex_at s a")
      case (Cons w ws)
      let ?s = "put_futex a (ws @ [w]) s"
      have r: "requeueWaiter a a s = (thread_id w, ?s)" using Cons by (simp add: requeueWaiter_def)
      show ?thesis using step.IH [of a b ?s s'] step.hyps step.prems Cons by (auto simp: r split: if_splits)
    qed simp
  qed
  then show ?thesis using assms by (cases "requeue_loop a a s") auto
qed

section \<open>The waiting lists and the thread manager\<close>

datatype wait_list = Sleep_List | Futex_List IntPtr

definition waiters :: "syscall_server \<Rightarrow> wait_list \<Rightarrow> thread_id_t list" where
  "waiters s l = map thread_id (case l of Sleep_List \<Rightarrow> m_sleeping s | Futex_List a \<Rightarrow> futex_at s a)"

abbreviation blocked :: "syscall_server \<Rightarrow> thread_id_t set" where
  "blocked s \<equiv> stalled_for {STALL_FUTEX, STALL_SLEEP} (m_threads s)"

definition futex_inv :: "syscall_server \<Rightarrow> bool" where
  "futex_inv s \<longleftrightarrow> queues_inv (waiters s) (blocked s) \<and> (\<forall>t \<in> blocked s. 0 \<le> t \<and> \<not> m_wakeup_msg (m_threads s) t) \<and>
     distinct (map fst (m_futexes s))"

lemma waiters_simps [simp]:
  "waiters (put_futex a q s) = (waiters s)(Futex_List a := map thread_id q)"
  "waiters (s\<lparr>m_threads := tm\<rparr>) = waiters s" "waiters (s\<lparr>memory := m\<rparr>) = waiters s"
  "waiters (s\<lparr>m_sleeping := q\<rparr>) = (waiters s)(Sleep_List := map thread_id q)"
  by (auto simp: waiters_def fun_eq_iff split: wait_list.split) (auto simp: futex_at_def)

lemma waiters_at: "waiters s (Futex_List a) = map thread_id (futex_at s a)" "waiters s Sleep_List = map thread_id (m_sleeping s)"
  by (simp_all add: waiters_def)

lemma distinct_put [simp]: "distinct (map fst (m_futexes (put_futex a q s))) = distinct (map fst (m_futexes s))"
  by (auto simp: put_futex_def AList.update_keys)

lemma futex_inv_valid: "futex_inv s \<Longrightarrow> w \<in> set (futex_at s a) \<Longrightarrow> thread_id w \<noteq> INVALID_THREAD_ID"
proof -
  assume i: "futex_inv s" and "w \<in> set (futex_at s a)"
  then have "thread_id w \<in> set (waiters s (Futex_List a))" by (simp add: waiters_at)
  then have "0 \<le> thread_id w" using i unfolding futex_inv_def queues_inv_def by blast
  then show ?thesis by simp
qed

lemma find_inv: "futex_inv s \<Longrightarrow> findFutexByUaddr u t s = (a, s1) \<Longrightarrow> futex_inv s1"
  by (auto simp: findFutexByUaddr_def Let_def futex_inv_def fun_upd_idem waiters_at)

lemma enqueue_inv:
  assumes "futex_inv s" "isThreadRunning t (m_threads s)" "0 \<le> t"
  shows "futex_inv ((put_futex a (futex_at s a @ [\<lparr>thread_id = t, mask = msk, timeout = u\<rparr>]) s)
    \<lparr>m_threads := stallThread t STALL_FUTEX (m_threads s)\<rparr>)"
  using assms queues_sleep [of "waiters s" "blocked s" t "Futex_List a"] running_not_stalled [OF assms(2)]
  by (simp add: futex_inv_def stalled_for_stall waiters_at)

lemma sleep_inv:
  assumes "futex_inv s" "isThreadRunning t (m_threads s)" "0 \<le> t"
  shows "futex_inv (snd (handleSleepCall t u s))"
proof -
  have "queues_inv ((waiters s)(Sleep_List := waiters s Sleep_List @ [t])) (insert t (blocked s))"
    using assms queues_sleep [of "waiters s" "blocked s" t Sleep_List] running_not_stalled [OF assms(2)]
    by (simp add: futex_inv_def)
  then show ?thesis using assms by (simp add: handleSleepCall_def futex_inv_def stalled_for_stall waiters_at)
qed

text \<open>Removing one waiter and resuming it keeps the lists and the states together.\<close>

lemma remove_inv:
  assumes "futex_inv s" "waiters s l = us @ t # vs"
    and "waiters s' = (waiters s)(l := us @ vs)" "m_threads s' = resumeThread t time msg (m_threads s)"
    and "distinct (map fst (m_futexes s'))"
  shows "futex_inv s'"
  using assms queues_remove [of "waiters s" "blocked s" l us t vs] by (auto simp: futex_inv_def stalled_for_resume)

lemma dequeue_at_inv:
  assumes "futex_inv s"
  shows "futex_inv (snd (dequeue_at a msk time s))"
proof (cases "wanted msk" "futex_at s a" rule: erase_first_cases)
  case None
  then show ?thesis
    using assms by (simp add: dequeue_at_def dequeueWaiter_def futex_inv_def fun_upd_idem waiters_at)
next
  case (Some w us vs)
  show ?thesis
    using assms Some
    by (intro remove_inv [OF assms, of "Futex_List a" "map thread_id us" "thread_id w" "map thread_id vs" _ time True])
      (simp_all add: waiters_at dequeue_at_def dequeueWaiter_def futex_inv_def)
qed

lemma wake_loop_inv:
  assumes "\<And>s. futex_inv s \<Longrightarrow> futex_inv (snd (one s))"
  shows "futex_inv s \<Longrightarrow> wake_loop one n m s = (k, s') \<Longrightarrow> futex_inv s'"
proof (induction n arbitrary: m s)
  case (Suc n)
  obtain w s1 where o: "one s = (w, s1)" by fastforce
  then have "futex_inv s1" using assms [OF Suc.prems(1)] by simp
  then show ?case using Suc by (auto simp: o split: if_splits)
qed simp

lemma wake_loop_keeps:
  assumes "\<And>s. f (snd (one s)) = f s"
  shows "f (snd (wake_loop one n m s)) = f s"
proof (induction n arbitrary: m s)
  case (Suc n)
  obtain w s1 where "one s = (w, s1)" by fastforce
  then show ?case using Suc assms [of s] by simp
qed simp

lemma dequeue_at_va2pa: "va2pa (snd (dequeue_at a msk time s)) = va2pa s"
  by (simp add: dequeue_at_def split: prod.split)

lemma requeue_loop_inv: "requeue_loop a b s = Some s' \<Longrightarrow> futex_inv s \<Longrightarrow> a \<noteq> b \<Longrightarrow> futex_inv s'"
proof (induction rule: requeue_loop_induct)
  case (step loop a b s s')
  show ?case
  proof (cases "futex_at s a")
    case Nil
    then show ?thesis using step.hyps step.prems by (simp add: requeueWaiter_def)
  next
    case (Cons w ws)
    let ?s = "put_futex b (futex_at s b @ [w]) (put_futex a ws s)"
    have r: "requeueWaiter a b s = (thread_id w, ?s)" using Cons step.prems by (simp add: requeueWaiter_def)
    have "futex_inv ?s"
      using step.prems queues_move [of "waiters s" "blocked s" "Futex_List a" "thread_id w" "map thread_id ws" "Futex_List b"]
      by (simp add: futex_inv_def waiters_at Cons)
    then show ?thesis using step by (auto simp: r split: if_splits)
  qed
qed

lemma findFutex_eqs:
  assumes "findFutexByUaddr u t s = (a, s1)"
  shows "a = va2pa s t u" "known s1 a" "futex_at s1 = futex_at s" "m_threads s1 = m_threads s" "va2pa s1 = va2pa s"
    "memory s1 = memory s" "instruction_count s1 = instruction_count s" "m_resched_cost s1 = m_resched_cost s"
    "m_sleeping s1 = m_sleeping s" "known s b \<Longrightarrow> known s1 b"
  using assms by (auto simp: findFutexByUaddr_def Let_def fun_eq_iff)

lemma futexWait_inv:
  assumes "futexWait t u v av msk c tt s = (r, s')" "futex_inv s" "isThreadRunning t (m_threads s)" "0 \<le> t"
  shows "futex_inv s'"
proof -
  obtain a s1 where f: "findFutexByUaddr u t s = (a, s1)" by fastforce
  note i = find_inv [OF assms(2) f]
  show ?thesis
    using assms(1,3,4) i enqueue_inv [OF i, of t a msk tt] findFutex_eqs(4) [OF f]
    by (auto simp: futexWait_def f enqueueWaiter_def split: if_splits)
qed

lemma wakeFutexOne_inv: "futex_inv s \<Longrightarrow> futex_inv (snd (wakeFutexOne a t msk c s))"
  by (simp add: wakeFutexOne_def dequeue_at_inv)

lemma wake_futex_loop_inv: "wake_loop (wakeFutexOne a t msk c) n m s = (k, s') \<Longrightarrow> futex_inv s \<Longrightarrow> futex_inv s'"
  by (rule wake_loop_inv [OF wakeFutexOne_inv])

lemma futexWake_inv: "futexWake t u n msk c s = (r, s') \<Longrightarrow> futex_inv s \<Longrightarrow> futex_inv s'"
  by (auto simp: futexWake_def split: prod.splits dest!: wake_futex_loop_inv dest: find_inv)

lemma futexDoOp_inv: "futexDoOp e u s = Inr (b, s') \<Longrightarrow> futex_inv s \<Longrightarrow> futex_inv s'"
  by (auto simp: futexDoOp_def Let_def futex_inv_def)

lemma futexWakeOp_inv:
  assumes "futexWakeOp t u u2 n n2 e c s = Inr (r, s')" "futex_inv s"
  shows "futex_inv s'"
proof -
  obtain a s1 a2 s2 where f: "findFutexByUaddr u t s = (a, s1)" "findFutexByUaddr u2 t s1 = (a2, s2)" by fastforce
  have "futex_inv s2" using find_inv [OF find_inv [OF assms(2) f(1)] f(2)] .
  then show ?thesis
    using assms(1) by (auto simp: futexWakeOp_def f split: prod.splits if_splits
      dest!: futexDoOp_inv wake_futex_loop_inv)
qed

lemma futexCmpRequeue_inv:
  assumes "futexCmpRequeue t u v u2 v3 av c s = Inr (r, s')" "futex_inv s" "va2pa s t u \<noteq> va2pa s t u2"
  shows "futex_inv s'"
proof -
  obtain a s1 where f: "findFutexByUaddr u t s = (a, s1)" by fastforce
  note i = find_inv [OF assms(2) f]
  obtain k s2 where w: "wake_loop (dequeue_at a FUTEX_BITSET_MATCH_ANY c) (iterations v) 0 s1 = (k, s2)" by fastforce
  obtain b s3 where f2: "findFutexByUaddr u2 t s2 = (b, s3)" by fastforce
  have "futex_inv s3" using find_inv [OF wake_loop_inv [OF dequeue_at_inv i w] f2] .
  moreover have "va2pa s2 = va2pa s"
    using wake_loop_keeps [of va2pa "dequeue_at a FUTEX_BITSET_MATCH_ANY c" "iterations v" 0 s1] dequeue_at_va2pa w
      findFutex_eqs(5) [OF f] by simp
  ultimately have "futex_inv s4" if "requeue_loop a b s3 = Some s4" for s4
    using assms(3) findFutex_eqs(1) [OF f] findFutex_eqs(1) [OF f2] requeue_loop_inv [OF that] by simp
  then show ?thesis
    using assms(1) i by (auto simp: futexCmpRequeue_def f w f2 split: if_splits option.splits)
qed

lemma handleFutexCall_inv:
  assumes "handleFutexCall t args c s = Inr (r, s')" "futex_inv s" "isThreadRunning t (m_threads s)" "0 \<le> t" "inj (va2pa s t)"
  shows "futex_inv s'"
  using assms
  by (auto simp: handleFutexCall_def Let_def inj_eq split: if_splits
    dest: futexWait_inv futexWake_inv futexWakeOp_inv futexCmpRequeue_inv)

section \<open>Timeouts\<close>

abbreviation expired :: "UInt64 \<Rightarrow> futex_waiter \<Rightarrow> bool" where
  "expired time \<equiv> \<lambda>w. timeout w \<le> time"

lemma update_middle:
  "a \<notin> fst ` set pre \<Longrightarrow> AList.update a q' (pre @ (a, q) # F) = pre @ (a, q') # F"
  by (induction pre) auto

lemma wakeTimedOut_inv:
  assumes "futex_inv s" "known s a" "wakeTimedOut time (futex_at s a) (m_threads s) = (q', tm')"
  shows "futex_inv ((put_futex a q' s)\<lparr>m_threads := tm'\<rparr>)"
proof (cases "expired time" "futex_at s a" rule: erase_first_cases)
  case None
  then have "q' = futex_at s a" "tm' = m_threads s" using assms(3) by (auto simp: wakeTimedOut_def)
  then show ?thesis using assms(1) put_futex_same [OF assms(2)] by simp
next
  case (Some w us vs)
  show ?thesis
    using assms Some
    by (intro remove_inv [OF assms(1), of "Futex_List a" "map thread_id us" "thread_id w" "map thread_id vs" _ time False])
      (auto simp: waiters_at wakeTimedOut_def futex_inv_def)
qed

lemma wake_all_inv:
  assumes "futex_inv (s\<lparr>m_futexes := pre @ F, m_threads := tm\<rparr>)" "wake_all_timed_out time F tm = (F', tm')"
  shows "futex_inv (s\<lparr>m_futexes := pre @ F', m_threads := tm'\<rparr>)"
  using assms
proof (induction F arbitrary: pre tm F' tm')
  case (Cons p F)
  obtain a q where p: "p = (a, q)" by fastforce
  let ?s = "s\<lparr>m_futexes := pre @ (a, q) # F, m_threads := tm\<rparr>"
  have d: "a \<notin> fst ` set pre" using Cons.prems(1) by (auto simp: futex_inv_def p)
  have "map_of pre a = None" using d by (simp add: map_of_eq_None_iff)
  then have at: "futex_at (s\<lparr>m_futexes := pre @ (a, q) # F\<rparr>) a = q" "known ?s a" by (auto simp: futex_at_def known_def map_add_def)
  obtain q1 tm1 where w: "wakeTimedOut time q tm = (q1, tm1)" by fastforce
  obtain F2 tm2 where r: "wake_all_timed_out time F tm1 = (F2, tm2)" by fastforce
  have i: "futex_inv ?s" using Cons.prems(1) by (simp add: p)
  have "futex_inv (s\<lparr>m_futexes := (pre @ [(a, q1)]) @ F, m_threads := tm1\<rparr>)"
    using wakeTimedOut_inv [OF i at(2), of time q1 tm1] w by (simp add: at put_futex_def update_middle d)
  then have "futex_inv (s\<lparr>m_futexes := (pre @ [(a, q1)]) @ F2, m_threads := tm2\<rparr>)" using r by (rule Cons.IH)
  then show ?case using Cons.prems(2) by (simp add: p w r)
qed simp

lemma futexPeriodic_inv:
  assumes "futex_inv s"
  shows "futex_inv (futexPeriodic time s)"
proof -
  obtain q tm where w: "wakeTimedOut time (m_sleeping s) (m_threads s) = (q, tm)" by fastforce
  obtain F tm' where r: "wake_all_timed_out time (m_futexes s) tm = (F, tm')" by fastforce
  let ?s = "s\<lparr>m_sleeping := q, m_threads := tm\<rparr>"
  have "futex_inv ?s"
  proof (cases "expired time" "m_sleeping s" rule: erase_first_cases)
    case None
    then show ?thesis using assms w by (auto simp: wakeTimedOut_def)
  next
    case (Some w us vs)
    show ?thesis
      using assms Some w
      by (intro remove_inv [OF assms, of Sleep_List "map thread_id us" "thread_id w" "map thread_id vs" _ time False])
        (auto simp: waiters_at wakeTimedOut_def futex_inv_def)
  qed
  then have "futex_inv (?s\<lparr>m_futexes := [] @ F, m_threads := tm'\<rparr>)"
    using wake_all_inv [where s = ?s and pre = "[]" and F = "m_futexes s" and tm = tm and time = time and F' = F and tm' = tm'] r by simp
  then show ?thesis by (simp add: futexPeriodic_def w r)
qed

text \<open>One call of the hook takes the first expired waiter off each list.\<close>

definition drop_first :: "('a \<Rightarrow> bool) \<Rightarrow> 'a list \<Rightarrow> 'a list" where
  "drop_first P q = (case erase_first P q of Some (w, q') \<Rightarrow> q' | None \<Rightarrow> q)"

lemma drop_first_facts: "filter P (drop_first P q) = tl (filter P q)" "filter (\<lambda>x. \<not> P x) (drop_first P q) = filter (\<lambda>x. \<not> P x) q"
  by (cases P q rule: erase_first_cases; simp add: drop_first_def)+

lemma drop_first_iterate:
  assumes "length (filter P q) \<le> n"
  shows "(drop_first P ^^ n) q = filter (\<lambda>x. \<not> P x) q"
  using assms
proof (induction n arbitrary: q)
  case 0
  then show ?case by (metis filter_False filter_True le_zero_eq length_0_conv filter_empty_conv funpow_0)
next
  case (Suc n)
  then show ?case using Suc.IH [of "drop_first P q"] by (simp add: funpow_swap1 drop_first_facts del: funpow.simps add: funpow_Suc_right)
qed

lemma drop_first_subset: "set ((drop_first P ^^ n) q) \<subseteq> set q"
proof (induction n)
  case (Suc n)
  have "set (drop_first P q') \<subseteq> set q'" for q' by (cases P q' rule: erase_first_cases) (auto simp: drop_first_def)
  then show ?case using Suc by force
qed simp

lemma wakeTimedOut_list: "fst (wakeTimedOut time q tm) = drop_first (expired time) q"
  by (simp add: wakeTimedOut_def drop_first_def split: option.split)

lemma wake_all_lists: "fst (wake_all_timed_out time F tm) = map (\<lambda>(a, q). (a, drop_first (expired time) q)) F"
proof (induction F arbitrary: tm)
  case (Cons p F)
  obtain a q where p: "p = (a, q)" by fastforce
  obtain q1 tm1 where w: "wakeTimedOut time q tm = (q1, tm1)" by fastforce
  show ?case using Cons [of tm1] wakeTimedOut_list [of time q tm] by (simp add: p w split_beta)
qed simp

lemma map_of_map_snd: "map_of (map (\<lambda>(a, q). (a, f q)) F) a = map_option f (map_of F a)"
  by (induction F) auto

lemma periodic_lists:
  "m_sleeping (futexPeriodic time s) = drop_first (expired time) (m_sleeping s)"
  "futex_at (futexPeriodic time s) a = drop_first (expired time) (futex_at s a)"
proof -
  obtain q tm where w: "wakeTimedOut time (m_sleeping s) (m_threads s) = (q, tm)" by fastforce
  obtain F tm' where r: "wake_all_timed_out time (m_futexes s) tm = (F, tm')" by fastforce
  have F: "F = map (\<lambda>(a, q). (a, drop_first (expired time) q)) (m_futexes s)" "q = drop_first (expired time) (m_sleeping s)"
    using wake_all_lists [of time "m_futexes s" tm] wakeTimedOut_list [of time "m_sleeping s" "m_threads s"] by (simp_all add: w r)
  have e: "futexPeriodic time s = s\<lparr>m_sleeping := q, m_futexes := F, m_threads := tm'\<rparr>" by (simp add: futexPeriodic_def w r)
  show "m_sleeping (futexPeriodic time s) = drop_first (expired time) (m_sleeping s)" by (simp add: e F)
  show "futex_at (futexPeriodic time s) a = drop_first (expired time) (futex_at s a)"
    by (simp add: e futex_at_def F(1) map_of_map_snd drop_first_def split: option.split)
qed

text \<open>What the hook may do to a thread: leave it alone or make it run without the wake-up message.\<close>

definition left_or_resumed :: "thread_manager \<Rightarrow> thread_manager \<Rightarrow> bool" where
  "left_or_resumed tm tm' \<longleftrightarrow> (\<forall>t. stalled_reason (m_thread_state tm' t) = stalled_reason (m_thread_state tm t) \<and>
     (status (m_thread_state tm' t) = status (m_thread_state tm t) \<or> status (m_thread_state tm' t) = RUNNING) \<and>
     (m_wakeup_msg tm' t \<longrightarrow> m_wakeup_msg tm t))"

lemma left_or_resumed_trans [trans]: "left_or_resumed x y \<Longrightarrow> left_or_resumed y z \<Longrightarrow> left_or_resumed x z"
  unfolding left_or_resumed_def by metis

lemma left_or_resumed_refl [simp]: "left_or_resumed x x"
  by (simp add: left_or_resumed_def)

lemma wakeTimedOut_threads: "left_or_resumed tm (snd (wakeTimedOut time q tm))"
  by (auto simp: wakeTimedOut_def left_or_resumed_def resumeThread_def signal_def resumeThread_async_def split: option.split)

lemma wake_all_threads: "left_or_resumed tm (snd (wake_all_timed_out time F tm))"
proof (induction F arbitrary: tm)
  case (Cons p F)
  obtain a q where p: "p = (a, q)" by fastforce
  obtain q1 tm1 where w: "wakeTimedOut time q tm = (q1, tm1)" by fastforce
  show ?case
    using Cons [of tm1] wakeTimedOut_threads [of tm time q] by (auto simp: p w split: prod.split intro: left_or_resumed_trans)
qed simp

lemma periodic_threads: "left_or_resumed (m_threads s) (m_threads (futexPeriodic time s))"
proof -
  obtain q tm where w: "wakeTimedOut time (m_sleeping s) (m_threads s) = (q, tm)" by fastforce
  have "left_or_resumed (m_threads s) tm" using wakeTimedOut_threads [of "m_threads s" time "m_sleeping s"] by (simp add: w)
  then show ?thesis
    using wake_all_threads [of tm time "m_futexes s"] by (auto simp: futexPeriodic_def w split: prod.split intro: left_or_resumed_trans)
qed

lemma periodic_iterate:
  "futex_inv s \<Longrightarrow> futex_inv ((futexPeriodic time ^^ n) s)"
  "left_or_resumed (m_threads s) (m_threads ((futexPeriodic time ^^ n) s))"
  "m_sleeping ((futexPeriodic time ^^ n) s) = (drop_first (expired time) ^^ n) (m_sleeping s)"
  "futex_at ((futexPeriodic time ^^ n) s) a = (drop_first (expired time) ^^ n) (futex_at s a)"
  by (induction n) (auto simp: periodic_lists futexPeriodic_inv intro: left_or_resumed_trans periodic_threads)

lemma waiters_periodic: "set (waiters ((futexPeriodic time ^^ n) s) l) \<subseteq> set (waiters s l)"
  by (cases l) (auto simp: waiters_def periodic_iterate(3,4) intro!: imageI dest: drop_first_subset [THEN subsetD])

lemma last_timeout_finite: "last_timeout q < MaxTime \<longleftrightarrow> (\<exists>w \<in> set q. timeout w < MaxTime)"
  unfolding last_timeout_def by (induction q rule: rev_induct) auto

lemma min_timeout_finite:
  "foldl (\<lambda>nxt (a, q). let u = last_timeout q in if u < nxt then u else nxt) x F < MaxTime \<longleftrightarrow>
     x < MaxTime \<or> (\<exists>p \<in> set F. last_timeout (snd p) < MaxTime)"
  by (induction F rule: rev_induct) (auto simp: Let_def split: if_splits)

lemma next_timeout_iff:
  "getNextTimeout s \<noteq> MaxTime \<longleftrightarrow>
     (\<exists>w \<in> set (m_sleeping s). timeout w \<noteq> MaxTime) \<or> (\<exists>(a, q) \<in> set (m_futexes s). \<exists>w \<in> set q. timeout w \<noteq> MaxTime)"
proof -
  have m: "x \<noteq> MaxTime \<longleftrightarrow> x < MaxTime" for x :: UInt64 by (metis word_not_simps(3) word_order.not_eq_extremum)
  show ?thesis
    unfolding m getNextTimeout_def min_timeout_finite last_timeout_finite by (simp add: case_prod_beta')
qed

section \<open>The server as a state machine\<close>

inductive futex_step :: "syscall_server \<Rightarrow> syscall_server \<Rightarrow> bool" where
  call: "handleFutexCall t args time s = Inr (r, s') \<Longrightarrow> isThreadRunning t (m_threads s) \<Longrightarrow> 0 \<le> t \<Longrightarrow>
     inj (va2pa s t) \<Longrightarrow> futex_step s s'"
| sleep: "handleSleepCall t wake_time s = (r, s') \<Longrightarrow> isThreadRunning t (m_threads s) \<Longrightarrow> 0 \<le> t \<Longrightarrow> futex_step s s'"
| periodic: "futex_step s (futexPeriodic time s)"
| memory_write: "futex_step s (s\<lparr>memory := m\<rparr>)"

lemma futex_step_inv: "futex_step s s' \<Longrightarrow> futex_inv s \<Longrightarrow> futex_inv s'"
proof (induction rule: futex_step.induct)
  case (sleep t wake_time s r s')
  then show ?case using sleep_inv [of s t wake_time] by simp
next
  case (memory_write s m)
  then show ?case by (simp add: futex_inv_def)
qed (blast intro: handleFutexCall_inv futexPeriodic_inv)+

lemma futex_steps_inv: "futex_step\<^sup>*\<^sup>* s s' \<Longrightarrow> futex_inv s \<Longrightarrow> futex_inv s'"
  by (induction rule: rtranclp_induct) (auto intro: futex_step_inv)

lemma SyscallServer_inv: "stalled_for {STALL_FUTEX, STALL_SLEEP} tm = {} \<Longrightarrow> futex_inv (SyscallServer n tm mem tr ic st)"
  by (auto simp: futex_inv_def queues_inv_def waiters_def SyscallServer_def futex_at_def split: wait_list.splits)

section \<open>Examples\<close>

definition idle_server :: syscall_server where
  "idle_server = SyscallServer 1
     \<lparr>m_thread_state = (\<lambda>_. \<lparr>status = RUNNING, stalled_reason = STALL_UNSCHEDULED, waiter = INVALID_THREAD_ID\<rparr>),
      m_wakeup_time = (\<lambda>_. 0), m_wakeup_msg = (\<lambda>_. False)\<rparr> (\<lambda>_. 0) (\<lambda>_ a. a) (\<lambda>_. Some 7) 0"

definition wait_call :: "(UInt64 \<times> UInt64) option \<Rightarrow> futex_args_t" where
  "wait_call ts = \<lparr>uaddr = 0x10, opcode = 0, val = 0, timespec = ts, val2 = 0, uaddr2 = 0, val3 = 0\<rparr>"

definition one_waiting :: syscall_server where
  "one_waiting = snd (projr (handleFutexCall 1 (wait_call None) 5 idle_server))"

definition two_waiting :: syscall_server where
  "two_waiting = snd (projr (handleFutexCall 2 (wait_call (Some (0, 3))) 5 one_waiting))"

lemma two_waiting_at:
  "futex_at two_waiting 0x10 = [\<lparr>thread_id = 1, mask = 0xffffffff, timeout = MaxTime\<rparr>, \<lparr>thread_id = 2, mask = 0xffffffff, timeout = 3000005\<rparr>]"
  by code_simp

lemma wait_call_sleeps:
  assumes "memory s 0x10 = 0" "instruction_count s t \<noteq> None"
  shows "handleFutexCall t (wait_call ts) c s = Inr (Sleeps, snd (projr (handleFutexCall t (wait_call ts) c s)))"
  using assms
  by (simp add: handleFutexCall_def wait_call_def futexWait_def findFutexByUaddr_def enqueueWaiter_def Let_def)

lemma one_waiting_fields:
  "memory one_waiting 0x10 = 0" "instruction_count one_waiting 2 = Some 7" "va2pa one_waiting 2 = (\<lambda>a. a)" "isThreadRunning 2 (m_threads one_waiting)"
  by (simp_all add: one_waiting_def idle_server_def SyscallServer_def handleFutexCall_def wait_call_def futexWait_def
    findFutexByUaddr_def enqueueWaiter_def isThreadRunning_def)

lemma two_waiting_reachable: "futex_step\<^sup>*\<^sup>* idle_server two_waiting"
proof -
  have "futex_step idle_server one_waiting"
    using wait_call_sleeps [of idle_server 1 None 5]
    by (intro futex_step.call [of 1 "wait_call None" 5 _ Sleeps])
      (simp_all add: one_waiting_def idle_server_def SyscallServer_def isThreadRunning_def)
  moreover have "futex_step one_waiting two_waiting"
    using wait_call_sleeps [of one_waiting 2 "Some (0, 3)" 5] one_waiting_fields
    by (intro futex_step.call [of 2 "wait_call (Some (0, 3))" 5 _ Sleeps]) (simp_all add: two_waiting_def)
  ultimately show ?thesis by simp
qed

lemma two_waiting_valid: "\<forall>w \<in> set (futex_at two_waiting 0x10). thread_id w \<noteq> INVALID_THREAD_ID"
  by (simp add: two_waiting_at)

lemma none_blocked: "stalled_for {STALL_FUTEX, STALL_SLEEP} \<lparr>m_thread_state = (\<lambda>_. \<lparr>status = RUNNING, stalled_reason = STALL_UNSCHEDULED, waiter = INVALID_THREAD_ID\<rparr>),
      m_wakeup_time = (\<lambda>_. 0), m_wakeup_msg = (\<lambda>_. False)\<rparr> = {}"
  by (simp add: stalled_for_def)

section \<open>Properties\<close>

text \<open>
  C29: no sleeping thread is forgotten by the system call server. After any sequence of futex and sleep
  calls by running threads, periodic wake-ups and writes to memory, a thread is stalled on a futex or
  asleep exactly when it is in one of the waiting lists, and it is in only one list and only once.
\<close>

theorem futex_no_lost_waiters:
  assumes "stalled_for {STALL_FUTEX, STALL_SLEEP} tm = {}" "futex_step\<^sup>*\<^sup>* (SyscallServer cost tm mem translate icount start) s"
  shows "(t \<in> stalled_for {STALL_FUTEX, STALL_SLEEP} (m_threads s) \<longleftrightarrow> (\<exists>l. t \<in> set (waiters s l))) \<and>
    (t \<in> set (waiters s l) \<and> t \<in> set (waiters s l') \<longrightarrow> l = l') \<and> distinct (waiters s l)"
  using futex_steps_inv [OF assms(2) SyscallServer_inv [OF assms(1)]] unfolding futex_inv_def queues_inv_def by blast

theorem futex_no_lost_waiters_witness:
  "2 \<in> stalled_for {STALL_FUTEX, STALL_SLEEP} (m_threads two_waiting)"
proof -
  have "2 \<in> set (waiters two_waiting (Futex_List 0x10))" by (simp add: waiters_at two_waiting_at)
  then show ?thesis
    using futex_no_lost_waiters [OF none_blocked two_waiting_reachable [unfolded idle_server_def]] by blast
qed

text \<open>
  C30: a futex wake-up takes the waiters in order of arrival. It wakes the first \<open>nr\<close> waiters whose mask
  meets the given one, or all of them if there are fewer, and nobody else; it returns their number; each of
  them returns 0 from its wait at the waker's time plus the rescheduling cost; the other waiters keep
  their places and other futexes are untouched.
\<close>

theorem futex_wake_first_matching:
  fixes s t u msk n
  defines "a \<equiv> va2pa s t u"
  defines "M \<equiv> take (iterations n) (filter (wanted msk) (futex_at s a))"
  assumes "\<forall>w \<in> set (futex_at s a). thread_id w \<noteq> INVALID_THREAD_ID"
  shows "\<exists>q' s'. futexWake t u n msk time s =
      (Returns (of_nat (length M)) (time + applyRescheduleCost t (M \<noteq> []) s), s') \<and>
    futex_at s' = (futex_at s)(a := q') \<and> without_first (iterations n) (wanted msk) (futex_at s a) q' \<and>
    (\<forall>v. isThreadRunning v (m_threads s') \<longleftrightarrow> v \<in> thread_id ` set M \<or> isThreadRunning v (m_threads s)) \<and>
    (\<forall>v \<in> thread_id ` set M. futexWait_resumed v s' = Returns 0 (time + applyRescheduleCost t True s))"
proof -
  obtain s1 where f: "findFutexByUaddr u t s = (a, s1)" by (simp add: findFutexByUaddr_def a_def Let_def)
  note e = findFutex_eqs [OF f]
  have c: "applyRescheduleCost t x s1 = applyRescheduleCost t x s" for x by (simp add: applyRescheduleCost_def e)
  let ?time = "time + applyRescheduleCost t True s"
  obtain q' where w: "wake_loop (dequeue_at a msk ?time) (iterations n) 0 s1 =
      (length M, (put_futex a q' s1)\<lparr>m_threads := resume_all ?time M (m_threads s)\<rparr>)"
      and q': "without_first (iterations n) (wanted msk) (futex_at s a) q'"
    using wake_loop_dequeue [of s1 a msk ?time "iterations n" 0] assms(3) by (auto simp: e(2,3,4) M_def)
  let ?s = "(put_futex a q' s1)\<lparr>m_threads := resume_all ?time M (m_threads s)\<rparr>"
  have "futexWake t u n msk time s = (Returns (of_nat (length M)) (time + applyRescheduleCost t (M \<noteq> []) s), ?s)"
    by (simp add: futexWake_def f wake_loop_cost c w) (simp add: applyRescheduleCost_def e)
  moreover have "futex_at ?s = (futex_at s)(a := q')" by (auto simp: fun_eq_iff e(3))
  ultimately show ?thesis using q' by (auto simp: resume_all_running futexWait_resumed_def resume_all_woken)
qed

theorem futex_wake_first_matching_witness:
  "\<exists>s'. futexWake 0 0x10 1 0xffffffff 9 two_waiting = (Returns 1 1000009, s') \<and> futexWait_resumed 1 s' = Returns 0 1000009"
proof -
  have "take (iterations 1) (filter (wanted 0xffffffff) (futex_at two_waiting 0x10)) =
      [\<lparr>thread_id = 1, mask = 0xffffffff, timeout = MaxTime\<rparr>]" "va2pa two_waiting 0 0x10 = 0x10"
    "9 + applyRescheduleCost 0 True two_waiting = 1000009"
    unfolding two_waiting_at by code_simp+
  then show ?thesis using futex_wake_first_matching [of two_waiting 0 "0x10" 1 "0xffffffff" 9] two_waiting_valid by auto
qed

text \<open>
  \<^verbatim>\<open>FUTEX_CMP_REQUEUE\<close> loses no waiter. When the two addresses name different futexes the call
  returns; it wakes the first \<open>val\<close> waiters and moves all others, in order, behind the waiters of the second
  futex.
\<close>

theorem futex_requeue_keeps_waiters:
  fixes s t u u2 n
  defines "a \<equiv> va2pa s t u" and "b \<equiv> va2pa s t u2" and "P \<equiv> wanted FUTEX_BITSET_MATCH_ANY"
  defines "M \<equiv> take (iterations n) (filter P (futex_at s a))"
  assumes "\<forall>w \<in> set (futex_at s a). thread_id w \<noteq> INVALID_THREAD_ID" "a \<noteq> b"
  shows "\<exists>q' s'. futexCmpRequeue t u n u2 v v time s = Inr (Returns (of_nat (length M)) time, s') \<and>
    without_first (iterations n) P (futex_at s a) q' \<and>
    futex_at s' = (futex_at s)(a := [], b := futex_at s b @ q') \<and>
    (\<forall>x. isThreadRunning x (m_threads s') \<longleftrightarrow> x \<in> thread_id ` set M \<or> isThreadRunning x (m_threads s))"
proof -
  obtain s1 where f: "findFutexByUaddr u t s = (a, s1)" by (simp add: findFutexByUaddr_def a_def Let_def)
  note e = findFutex_eqs [OF f]
  obtain q' where w: "wake_loop (dequeue_at a FUTEX_BITSET_MATCH_ANY time) (iterations n) 0 s1 =
      (length M, (put_futex a q' s1)\<lparr>m_threads := resume_all time M (m_threads s)\<rparr>)"
      and q': "without_first (iterations n) P (futex_at s a) q'"
    using wake_loop_dequeue [of s1 a FUTEX_BITSET_MATCH_ANY time "iterations n" 0] assms(5) by (auto simp: e(2,3,4) M_def P_def)
  let ?s2 = "(put_futex a q' s1)\<lparr>m_threads := resume_all time M (m_threads s)\<rparr>"
  obtain s3 where f2: "findFutexByUaddr u2 t ?s2 = (b, s3)" by (simp add: findFutexByUaddr_def b_def Let_def e)
  note e2 = findFutex_eqs [OF f2]
  have q: "futex_at s3 a = q'" "futex_at s3 b = futex_at s b" "m_threads s3 = resume_all time M (m_threads s)"
    using assms(6) by (simp_all add: e2(3,4) e(3))
  have k: "known s3 a" "known s3 b" using e2(2) e2(10) [of a] e(2) by simp_all
  have "set q' \<subseteq> set (futex_at s a)" using without_first_subset [OF q'] .
  then have "requeue_loop a b s3 = Some (put_futex b (futex_at s b @ q') (put_futex a [] s3))"
    using requeue_loop_moves [OF assms(6), of s3] assms(5) q k by auto
  then have "futexCmpRequeue t u n u2 v v time s =
      Inr (Returns (of_nat (length M)) time, put_futex b (futex_at s b @ q') (put_futex a [] s3))"
    by (simp add: futexCmpRequeue_def f w f2)
  moreover have "futex_at s3 = (futex_at s)(a := q')" by (auto simp: e2(3) e(3) fun_eq_iff)
  ultimately show ?thesis using q' q(3) by (auto simp: resume_all_running fun_eq_iff)
qed

theorem futex_requeue_keeps_waiters_witness:
  "\<exists>q' s'. futexCmpRequeue 0 0x10 1 0x20 0 0 9 two_waiting = Inr (Returns 1 9, s') \<and> futex_at s' 0x10 = [] \<and> futex_at s' 0x20 = q' \<and>
     without_first 1 (wanted FUTEX_BITSET_MATCH_ANY) (futex_at two_waiting 0x10) q'"
proof -
  have "length (take (iterations 1) (filter (wanted FUTEX_BITSET_MATCH_ANY) (futex_at two_waiting 0x10))) = 1"
    "va2pa two_waiting 0 0x10 = 0x10" "va2pa two_waiting 0 0x20 = 0x20" "futex_at two_waiting 0x20 = []" "iterations 1 = 1"
    by code_simp+
  then show ?thesis
    using futex_requeue_keeps_waiters [of two_waiting 0 "0x10" "0x20" 1 0 9] two_waiting_valid by auto
qed

text \<open>
  \<^verbatim>\<open>FUTEX_CMP_REQUEUE\<close> with two different user addresses that translate to the same address never
  returns when a waiter is left to move: it is popped and pushed back on the same list forever.
\<close>

theorem futex_requeue_self_hangs:
  assumes "va2pa s t u = va2pa s t u2" "futex_at s (va2pa s t u) \<noteq> []"
    and "\<forall>w \<in> set (futex_at s (va2pa s t u)). thread_id w \<noteq> INVALID_THREAD_ID"
  shows "futexCmpRequeue t u 0 u2 v v time s = Inl (NONTERMINATION ''futexCmpRequeue'')"
proof -
  let ?a = "va2pa s t u"
  obtain s1 where f: "findFutexByUaddr u t s = (?a, s1)" by (simp add: findFutexByUaddr_def Let_def)
  obtain s2 where f2: "findFutexByUaddr u2 t s1 = (?a, s2)"
    using assms(1) findFutex_eqs(5) [OF f] by (simp add: findFutexByUaddr_def Let_def)
  have "requeue_loop ?a ?a s2 = None"
    using assms(2,3) by (intro requeue_loop_self) (simp_all add: findFutex_eqs(3) [OF f] findFutex_eqs(3) [OF f2])
  then show ?thesis by (simp add: futexCmpRequeue_def f f2 iterations_def)
qed

theorem futex_requeue_self_hangs_witness:
  "futexCmpRequeue 0 0x10 0 0x20 0 0 9 (two_waiting\<lparr>va2pa := \<lambda>_ _. 0x10\<rparr>) = Inl (NONTERMINATION ''futexCmpRequeue'')"
proof -
  have "futex_at (two_waiting\<lparr>va2pa := \<lambda>_ _. 0x10\<rparr>) 0x10 = futex_at two_waiting 0x10" by (simp add: futex_at_def)
  then show ?thesis
    using futex_requeue_self_hangs [of "two_waiting\<lparr>va2pa := \<lambda>_ _. 0x10\<rparr>" 0 "0x10" "0x20" 0 9] by (simp add: two_waiting_at)
qed

definition list_at :: "syscall_server \<Rightarrow> wait_list \<Rightarrow> sim_futex" where
  "list_at s l = (case l of Sleep_List \<Rightarrow> m_sleeping s | Futex_List a \<Rightarrow> futex_at s a)"

lemma list_at_simps [simp]: "list_at s Sleep_List = m_sleeping s" "list_at s (Futex_List a) = futex_at s a"
  by (simp_all add: list_at_def)

lemma waiters_list_at: "waiters s l = map thread_id (list_at s l)"
  by (simp add: waiters_def list_at_def)

lemma drop_first_length: "length q \<le> length (drop_first P q) + 1"
  by (cases P q rule: erase_first_cases) (simp_all add: drop_first_def)

lemma list_at_iterate: "list_at ((futexPeriodic time ^^ n) s) l = (drop_first (expired time) ^^ n) (list_at s l)"
  by (cases l) (simp_all add: periodic_iterate(3,4))

lemma expired_run:
  assumes "futex_inv s" "length (filter (expired time) (list_at s l)) \<le> n" "w \<in> set (list_at s l)" "expired time w"
  shows "list_at ((futexPeriodic time ^^ n) s) l = filter (\<lambda>w. \<not> expired time w) (list_at s l)"
    and "isThreadRunning (thread_id w) (m_threads ((futexPeriodic time ^^ n) s))"
    and "\<not> m_wakeup_msg (m_threads ((futexPeriodic time ^^ n) s)) (thread_id w)"
proof -
  let ?s = "(futexPeriodic time ^^ n) s"
  show at: "list_at ?s l = filter (\<lambda>w. \<not> expired time w) (list_at s l)"
    using drop_first_iterate [OF assms(2)] by (simp add: list_at_iterate)
  have i: "futex_inv ?s" using periodic_iterate(1) [OF assms(1)] .
  have lr: "left_or_resumed (m_threads s) (m_threads ?s)" by (rule periodic_iterate(2))
  have lst: "thread_id w \<in> set (waiters s l)" using assms(3) by (simp add: waiters_list_at)
  then have b: "thread_id w \<in> blocked s" "\<not> m_wakeup_msg (m_threads s) (thread_id w)"
    using assms(1) unfolding futex_inv_def queues_inv_def by blast+
  have "thread_id w \<notin> set (waiters ?s l')" for l'
  proof
    assume t: "thread_id w \<in> set (waiters ?s l')"
    then have "thread_id w \<in> set (waiters s l')" using waiters_periodic by blast
    then have "l' = l" using lst assms(1) unfolding futex_inv_def queues_inv_def by blast
    then obtain w' where w': "w' \<in> set (list_at s l)" "\<not> expired time w'" "thread_id w' = thread_id w"
      using t by (auto simp: waiters_list_at at)
    have "inj_on thread_id (set (list_at s l))"
      using assms(1) by (auto simp: futex_inv_def queues_inv_def waiters_list_at distinct_map dest: spec [of _ l])
    then show False using assms(3,4) w' by (metis inj_onD)
  qed
  then have "thread_id w \<notin> blocked ?s" using i unfolding futex_inv_def queues_inv_def by blast
  moreover note lr [unfolded left_or_resumed_def, THEN spec, of "thread_id w"]
  ultimately show "isThreadRunning (thread_id w) (m_threads ?s)" "\<not> m_wakeup_msg (m_threads ?s) (thread_id w)"
    using b unfolding stalled_for_def isThreadRunning_def by auto
qed

text \<open>
  C31: expired waiters are woken. A call of the hook takes at most one waiter from the list of a futex and at most one
  from the list of sleeping threads; but after as many calls as there are expired waiters in either list, all of them have
  left both lists, the others are still there in their order, every expired thread runs, and a thread that waited for the
  futex returns from its wait with \<^verbatim>\<open>ETIMEDOUT\<close>.
\<close>

theorem expired_waiters_woken:
  assumes "futex_inv s" "length (filter (expired time) (futex_at s a)) \<le> n" "length (filter (expired time) (m_sleeping s)) \<le> n"
  shows "length (futex_at s a) \<le> length (futex_at (futexPeriodic time s) a) + 1 \<and>
    length (m_sleeping s) \<le> length (m_sleeping (futexPeriodic time s)) + 1 \<and>
    (let s' = (futexPeriodic time ^^ n) s in
       futex_at s' a = filter (\<lambda>w. \<not> expired time w) (futex_at s a) \<and>
       m_sleeping s' = filter (\<lambda>w. \<not> expired time w) (m_sleeping s) \<and>
       (\<forall>w \<in> set (m_sleeping s). expired time w \<longrightarrow> isThreadRunning (thread_id w) (m_threads s')) \<and>
       (\<forall>w \<in> set (futex_at s a). expired time w \<longrightarrow> isThreadRunning (thread_id w) (m_threads s') \<and>
          (\<exists>end_time. futexWait_resumed (thread_id w) s' = Returns (- ETIMEDOUT) end_time)))"
proof -
  have "length (list_at s l) \<le> length (list_at (futexPeriodic time s) l) + 1" for l
    using list_at_iterate [of 1 time s l] drop_first_length [of "list_at s l" "expired time"] by simp
  from this [of "Futex_List a"] this [of Sleep_List]
  have one: "length (futex_at s a) \<le> length (futex_at (futexPeriodic time s) a) + 1"
    "length (m_sleeping s) \<le> length (m_sleeping (futexPeriodic time s)) + 1" by simp_all
  have at: "futex_at ((futexPeriodic time ^^ n) s) a = filter (\<lambda>w. \<not> expired time w) (futex_at s a)"
    "m_sleeping ((futexPeriodic time ^^ n) s) = filter (\<lambda>w. \<not> expired time w) (m_sleeping s)"
    using drop_first_iterate [OF assms(2)] drop_first_iterate [OF assms(3)] by (simp_all add: periodic_iterate(3,4))
  show ?thesis
    unfolding Let_def using one at expired_run(2,3) [OF assms(1), of time "Futex_List a" n] expired_run(2) [OF assms(1), of time Sleep_List n] assms(2,3)
    by (auto simp: futexWait_resumed_def)
qed

theorem expired_waiters_woken_witness:
  "futex_at ((futexPeriodic 4000000 ^^ 1) two_waiting) 0x10 = [\<lparr>thread_id = 1, mask = 0xffffffff, timeout = MaxTime\<rparr>] \<and>
   isThreadRunning 2 (m_threads ((futexPeriodic 4000000 ^^ 1) two_waiting))"
proof -
  have "futex_inv two_waiting"
    using futex_steps_inv [OF two_waiting_reachable] SyscallServer_inv [OF none_blocked] by (simp add: idle_server_def)
  moreover have "\<not> (- 1 :: UInt64) \<le> 4000000" "m_sleeping two_waiting = []" by code_simp+
  ultimately show ?thesis using expired_waiters_woken [of two_waiting 4000000 "0x10" 1] by (simp add: two_waiting_at Let_def)
qed

text \<open>
  The deadlock check is right. When no thread is running, the barrier stops the simulation as
  deadlocked if \<^verbatim>\<open>getNextTimeout\<close> answers \<^verbatim>\<open>MaxTime\<close>; that is the case exactly when no sleeping thread and
  no futex waiter has a timeout.
\<close>

theorem next_timeout_detects_deadlock:
  "getNextTimeout s \<noteq> MaxTime \<longleftrightarrow>
     (\<exists>w \<in> set (m_sleeping s). timeout w \<noteq> MaxTime) \<or> (\<exists>(a, q) \<in> set (m_futexes s). \<exists>w \<in> set q. timeout w \<noteq> MaxTime)"
  by (rule next_timeout_iff)

text \<open>
  \<^verbatim>\<open>FUTEX_WAKE_BITSET\<close> ignores its bit mask: the call has the effect of \<^verbatim>\<open>FUTEX_WAKE\<close> for every
  mask, because the mask argument is selected by a test for \<^verbatim>\<open>FUTEX_WAIT_BITSET\<close>.
\<close>

theorem wake_bitset_ignores_mask:
  "handleFutexCall t (args\<lparr>opcode := FUTEX_WAKE_BITSET, val3 := m\<rparr>) time s =
   handleFutexCall t (args\<lparr>opcode := FUTEX_WAKE\<rparr>) time s"
  by (simp add: handleFutexCall_def Let_def)

end
