(* ===== verification/Barrier_Futex.thy ===== *)
theory Barrier_Futex
  imports Barrier_Properties Futex_Properties
begin

text \<open>
  The barrier together with the system call server: the periodic hook is \<^verbatim>\<open>SyscallServer::futexPeriodic\<close>, the
  deadlock check asks \<^verbatim>\<open>SyscallServer::getNextTimeout\<close> and the thread manager is the one in which the futex
  calls stall and resume threads. The states and threads of the cores stay parameters. The theory also states
  the properties of the barrier over every step of its entry points.
\<close>

section \<open>The composed system\<close>

text \<open>
  The environment of the barrier when the only periodic hook is that of the system call server and the shuffle of the
  released cores keeps their order.
\<close>

definition futex_env ::
  "(syscall_server \<Rightarrow> nat \<Rightarrow> core_state) \<Rightarrow> (syscall_server \<Rightarrow> nat \<Rightarrow> thread_id_t option) \<Rightarrow> nat \<Rightarrow> int \<Rightarrow> syscall_server barrier_env" where
  "futex_env st th threads host_cores =
     \<lparr>hook_periodic = (\<lambda>time s. s\<lparr>world := futexPeriodic time (world s)\<rparr>), core_state_of = st, core_thread_of = th,
      thread_running = (\<lambda>w t. isThreadRunning t (m_threads w)),
      any_thread_running = (\<lambda>w. anyThreadRunning threads (m_threads w)),
      next_timeout = (\<lambda>time w. getNextTimeout w), random_shuffle = (\<lambda>xs. xs), num_host_cores = host_cores\<rparr>"

interpretation kernel: steady_barrier_environment "futex_env st th threads host_cores"
  by unfold_locales (auto simp: futex_env_def barrier_inv_def)

section \<open>Sleepers are woken\<close>

text \<open>An expired waiter at the time of the hook means that some waiter of that futex runs afterwards.\<close>

lemma periodic_wakes_one:
  assumes "futex_inv w" "u \<in> set (futex_at w a)" "expired time u" "\<And>t. t \<in> blocked w \<Longrightarrow> t < int threads"
  shows "anyThreadRunning threads (m_threads (futexPeriodic time w))"
proof -
  obtain v us vs where q: "futex_at w a = us @ v # vs" "expired time v" and d: "drop_first (expired time) (futex_at w a) = us @ vs"
    using assms(2,3) by (cases "expired time" "futex_at w a" rule: erase_first_cases) (auto simp: filter_empty_conv drop_first_def)
  let ?w = "futexPeriodic time w"
  have v: "thread_id v \<in> set (waiters w (Futex_List a))" by (simp add: waiters_at q)
  have b: "thread_id v \<in> blocked w" using assms(1) v unfolding futex_inv_def queues_inv_def by blast
  have "thread_id v \<notin> set (waiters ?w l)" for l
  proof (cases "l = Futex_List a")
    case True
    have "distinct (waiters w (Futex_List a))" using assms(1) unfolding futex_inv_def queues_inv_def by blast
    then have "thread_id v \<notin> thread_id ` set (us @ vs)" by (auto simp: waiters_at q)
    then show ?thesis using True by (auto simp: waiters_at periodic_lists d)
  next
    case False
    then have "thread_id v \<notin> set (waiters w l)" using assms(1) v unfolding futex_inv_def queues_inv_def by blast
    then show ?thesis using waiters_periodic [of 1 time w l] by auto
  qed
  then have "thread_id v \<notin> blocked ?w" using futexPeriodic_inv [OF assms(1)] unfolding futex_inv_def queues_inv_def by blast
  moreover note periodic_threads [of w time, unfolded left_or_resumed_def, THEN spec, of "thread_id v"]
  ultimately have "isThreadRunning (thread_id v) (m_threads ?w)" using b unfolding stalled_for_def isThreadRunning_def by auto
  moreover have "0 \<le> thread_id v" "thread_id v < int threads" using assms(1,4) b unfolding futex_inv_def by auto
  ultimately show ?thesis
    unfolding anyThreadRunning_def list_ex_iff by (intro bexI [of _ "nat (thread_id v)"]) auto
qed

lemma blocked_periodic: "blocked (futexPeriodic time w) \<subseteq> blocked w"
proof
  fix t assume "t \<in> blocked (futexPeriodic time w)"
  then show "t \<in> blocked w"
    using periodic_threads [of w time, unfolded left_or_resumed_def, THEN spec, of t] by (auto simp: stalled_for_def)
qed

lemma advance_loop_wakes:
  fixes st th threads host_cores
  defines "e \<equiv> futex_env st th threads host_cores"
  assumes "unat (timeout u) + 2 * unat (m_barrier_interval s) < 2 ^ 64" "0 < m_barrier_interval s"
    and "u \<in> set (futex_at (world s) a)" "futex_inv (world s)" "\<And>t. t \<in> blocked (world s) \<Longrightarrow> t < int threads"
    and "\<forall>c < num_cores s. \<not> acquired s c" "\<not> m_disable s"
  shows "\<exists>s'. release_loop e caller True must_wait s = Some (Inr (False, False, s')) \<and> anyThreadRunning threads (m_threads (world s'))"
  using assms(2-)
proof (induction "unat (timeout u) - unat (m_next_barrier_time s)" arbitrary: s must_wait rule: less_induct)
  case less
  define s1 where "s1 = hook_periodic e (m_next_barrier_time s) (s\<lparr>m_global_time := m_next_barrier_time s\<rparr>)"
  define s2 where "s2 = s1\<lparr>m_next_barrier_time := m_next_barrier_time s1 + m_barrier_interval s1\<rparr>"
  let ?w = "futexPeriodic (m_next_barrier_time s) (world s)"
  have s1: "s1 = s\<lparr>m_global_time := m_next_barrier_time s, world := ?w\<rparr>" by (simp add: s1_def e_def futex_env_def)
  show ?case
  proof (cases "anyThreadRunning threads (m_threads ?w)")
    case True
    then show ?thesis
      by (subst release_loop.simps) (simp add: s1_def [symmetric] Let_def, simp add: s1 e_def futex_env_def)
  next
    case False
    then have late: "\<not> expired (m_next_barrier_time s) u" using periodic_wakes_one less.prems(3-5) by blast
    have "set (filter (\<lambda>x. \<not> expired (m_next_barrier_time s) x) (futex_at ?w a)) =
        set (filter (\<lambda>x. \<not> expired (m_next_barrier_time s) x) (futex_at (world s) a))"
      unfolding periodic_lists drop_first_facts ..
    then have u: "u \<in> set (futex_at ?w a)" using late less.prems(3) by auto
    have i0: "0 < unat (m_barrier_interval s)" using less.prems(2) by (simp add: unat_gt_0 word_gt_0)
    have "getNextTimeout ?w \<noteq> - 1"
    proof -
      have "unat (- 1 :: UInt64) = 2 ^ 64 - 1" by (simp add: unsigned_minus_1_eq_mask mask_eq_exp_minus_1)
      then have "timeout u \<noteq> - 1" using less.prems(1) i0 by auto
      moreover obtain q where "map_of (m_futexes ?w) a = Some q" "u \<in> set q" using u by (cases "map_of (m_futexes ?w) a") (auto simp: futex_at_def)
      ultimately show ?thesis unfolding next_timeout_iff by (auto dest!: map_of_SomeD)
    qed
    then have nt: "getNextTimeout ?w < - 1" by (metis word_order.not_eq_extremum)
    have "release_scan caller [0..<num_cores s2] False must_wait s2 = (False, must_wait, s2)"
      using less.prems(6) by (intro release_scan_idle) (auto simp: s2_def s1)
    then have "release_loop e caller True must_wait s = release_loop e caller True must_wait s2"
      using False nt less.prems(7)
      by (subst release_loop.simps) (simp add: s1_def [symmetric] s2_def [symmetric] Let_def, simp add: s1 e_def futex_env_def)
    moreover have "\<exists>s'. release_loop e caller True must_wait s2 = Some (Inr (False, False, s')) \<and> anyThreadRunning threads (m_threads (world s'))"
    proof (rule less.hyps)
      have l: "unat (m_next_barrier_time s) < unat (timeout u)" using late by (simp add: word_less_nat_alt not_le)
      then have "unat (m_next_barrier_time s2) = unat (m_next_barrier_time s) + unat (m_barrier_interval s)"
        using less.prems(1) by (simp add: s2_def s1 unat_word_ariths)
      then show "unat (timeout u) - unat (m_next_barrier_time s2) < unat (timeout u) - unat (m_next_barrier_time s)"
        using l i0 by simp
    qed (use less.prems u futexPeriodic_inv in \<open>auto simp: s2_def s1 dest!: blocked_periodic [THEN subsetD]\<close>)
    ultimately show ?thesis by simp
  qed
qed

section \<open>Steps of the barrier\<close>

text \<open>
  A call of \<^verbatim>\<open>synchronize\<close> comes from a running thread, so this thread is not itself waiting in the barrier. Other
  threads may still wait on the caller's core. Between calls the rest of the simulator changes the world.
\<close>

inductive barrier_step :: "'w barrier_env \<Rightarrow> 'w barrier_server \<Rightarrow> 'w barrier_server \<Rightarrow> bool" for e where
  sync: "synchronize e c time s = Inr (w, s') \<Longrightarrow> core_thread_of e (world s) c = Some t \<Longrightarrow> 0 \<le> t \<Longrightarrow>
    (\<And>d. d < num_cores s \<Longrightarrow> acquired s d \<Longrightarrow> m_core_thread s ! d \<noteq> t) \<Longrightarrow> barrier_step e s s'"
| exit: "threadExit e t s = Inr s' \<Longrightarrow> barrier_step e s s'"
| stall: "threadStall e t s = Inr s' \<Longrightarrow> barrier_step e s s'"
| migrate: "barrier_step e s (threadMigrate t s)"
| advance: "advance e s = Inr s' \<Longrightarrow> barrier_step e s s'"
| disable: "barrier_step e s (setDisable d s)"
| group: "setGroup c m s = Inr s' \<Longrightarrow> barrier_step e s s'"
| fast_forward: "barrier_step e s (setFastForward f time s)"
| other: "barrier_step e s (s\<lparr>world := w\<rparr>)"

lemma barrier_step_inv:
  assumes "barrier_environment e"
  shows "barrier_step e s s' \<Longrightarrow> barrier_inv None s \<Longrightarrow> barrier_inv None s'"
proof (induction rule: barrier_step.induct)
  case (sync c time s w s' t)
  then show ?case using barrier_environment.synchronize_inv [OF assms] by blast
next
  case (migrate s t)
  then show ?case using barrier_environment.releaseThread_inv [OF assms] by (simp add: threadMigrate_def)
next
  case (other s w)
  then show ?case by (simp add: barrier_inv_def)
qed (blast intro: setDisable_inv setGroup_inv setFastForward_inv barrier_environment.threadExit_inv [OF assms]
  barrier_environment.threadStall_inv [OF assms] barrier_environment.advance_inv [OF assms])+

lemma barrier_steps_inv:
  assumes "barrier_environment e"
  shows "(barrier_step e)\<^sup>*\<^sup>* s s' \<Longrightarrow> barrier_inv None s \<Longrightarrow> barrier_inv None s'"
  by (induction rule: rtranclp_induct) (auto intro: barrier_step_inv [OF assms])

section \<open>Examples\<close>

text \<open>Two cores with one running thread each; the first has entered the barrier at 120 ns with a quantum of 100 ns.\<close>

definition two_core_env :: "syscall_server barrier_env" where
  "two_core_env = futex_env (\<lambda>_ _. RUNNING) (\<lambda>_ c. Some (int c)) 2 4"

definition both_running :: "syscall_server barrier_server" where
  "both_running = BarrierSyncServer 2 100 idle_server"

definition first_waits :: "syscall_server barrier_server" where
  "first_waits = both_running\<lparr>m_local_clock_list := [120000000, 0], m_barrier_acquire_list := [True, False],
     m_core_waiting := [1, 0], m_core_thread := [0, - 1]\<rparr>"

lemma both_running_fields:
  "m_barrier_acquire_list both_running = [False, False]" "m_core_waiting both_running = [0, 0]"
  "m_core_group both_running = [- 1, - 1]" "m_next_barrier_time both_running = 100000000" "m_fastforward both_running = False"
  "m_disable both_running = False" "m_to_release both_running = []" "world both_running = idle_server"
  "m_local_clock_list both_running = [0, 0]" "m_core_thread both_running = [- 1, - 1]"
  by (simp_all add: both_running_def BarrierSyncServer_def numeral_2_eq_2)

lemma idle_runs: "isThreadRunning t (m_threads idle_server)"
  by (simp add: idle_server_def SyscallServer_def isThreadRunning_def)

lemma first_enters: "synchronize two_core_env 0 120000000 both_running = Inr (True, first_waits)"
proof -
  have d: "doRelease 1 both_running = both_running" by (subst doRelease.simps) (simp add: both_running_fields)
  have "isBarrierReached two_core_env (both_running\<lparr>m_local_clock_list := [120000000, 0], m_barrier_acquire_list := [True, False],
      m_core_thread := [0, - 1]\<rparr>) = Inr False"
    by (simp add: isBarrierReached_def both_running_fields two_core_env_def futex_env_def isCoreRunning_def
      isCoreRunning_alone_def idle_runs)
  then show ?thesis
    by (simp add: synchronize_def both_running_fields two_core_env_def [THEN arg_cong [where f = core_state_of]]
      two_core_env_def [THEN arg_cong [where f = core_thread_of]] futex_env_def master_core_def enter_barrier_def d first_waits_def)
qed

lemma two_core_ok: "barrier_environment two_core_env"
  unfolding two_core_env_def by (rule kernel.barrier_environment_axioms)

lemma two_core_step: "(barrier_step two_core_env)\<^sup>*\<^sup>* both_running first_waits"
proof -
  have "barrier_step two_core_env both_running first_waits"
    by (rule barrier_step.sync [OF first_enters, of 0])
      (auto simp: two_core_env_def futex_env_def both_running_fields master_core_def less_Suc_eq)
  then show ?thesis by simp
qed

lemma first_waits_fields:
  "m_barrier_acquire_list first_waits = [True, False]" "m_core_thread first_waits = [0, - 1]" "m_to_release first_waits = []"
  "m_local_clock_list first_waits = [120000000, 0]" "m_next_barrier_time first_waits = 100000000" "m_fastforward first_waits = False"
  "m_barrier_interval first_waits = 100000000" "m_core_group first_waits = [- 1, - 1]" "world first_waits = idle_server"
  by (simp_all add: first_waits_def both_running_fields both_running_def BarrierSyncServer_def numeral_2_eq_2)

definition both_in :: "syscall_server barrier_server" where
  "both_in = first_waits\<lparr>m_local_clock_list := [120000000, 150000000], m_barrier_acquire_list := [True, True], m_core_thread := [0, 1]\<rparr>"

lemma both_in_inv: "barrier_inv (Some 1) both_in"
  by (auto simp: barrier_inv_def both_in_def first_waits_def both_running_fields less_Suc_eq nth_Cons')

lemma both_in_eq: "both_in = \<lparr>m_barrier_interval = 100000000, m_next_barrier_time = 100000000,
    m_local_clock_list = [120000000, 150000000], m_barrier_acquire_list = [True, True], m_core_waiting = [1, 0],
    m_to_release = [], m_core_group = [- 1, - 1], m_core_thread = [0, 1], m_global_time = 0, m_fastforward = False,
    m_disable = False, world = idle_server\<rparr>"
  by (simp add: both_in_def first_waits_def both_running_def BarrierSyncServer_def numeral_2_eq_2)

lemma both_in_release: "\<exists>s'. barrierRelease two_core_env 1 False both_in = Inr (False, s') \<and> \<not> m_disable s'"
proof -
  let ?s = "both_in\<lparr>m_next_barrier_time := 200000000, m_global_time := 100000000, m_barrier_acquire_list := [False, False],
     m_to_release := [0], world := futexPeriodic 100000000 idle_server\<rparr>"
  have "release_loop two_core_env 1 False True both_in = Some (Inr (True, False, ?s))"
    by (subst release_loop.simps) (simp add: both_in_eq two_core_env_def futex_env_def)
  then have "barrierRelease two_core_env 1 False both_in = Inr (False, doRelease 4 ?s)"
    by (simp add: barrierRelease_def both_in_eq) (simp add: two_core_env_def futex_env_def)
  then show ?thesis by (simp add: doRelease_fields both_in_eq)
qed

lemma two_waiting_inv: "futex_inv two_waiting"
  using futex_steps_inv [OF two_waiting_reachable] SyscallServer_inv [OF none_blocked] by (simp add: idle_server_def)

lemma two_waiting_blocked: "blocked two_waiting \<subseteq> {1, 2}"
proof
  fix t assume "t \<in> blocked two_waiting"
  then obtain l where l: "t \<in> set (waiters two_waiting l)" using two_waiting_inv unfolding futex_inv_def queues_inv_def by blast
  have "m_sleeping two_waiting = []" "map fst (m_futexes two_waiting) = [0x10]" by code_simp+
  then have "l = Futex_List 0x10"
    using l by (cases l) (auto simp: waiters_at futex_at_def split: option.splits dest!: map_of_SomeD)
  then show "t \<in> {1, 2}" using l by (auto simp: waiters_at two_waiting_at)
qed

section \<open>Properties\<close>

text \<open>
  C32: the barrier forgets no thread and sends no signal into the void. In every state reachable by calls of its entry
  points, the number of threads that wait on the condition variable of a core is one if the core is in the barrier, plus
  the number of times the core is on the list of cores still to be released; so every waiting thread is due one signal and
  every entry of the list finds a thread to wake, also when a thread was let go, not woken yet, and preempted by another that
  entered for the same core. No thread is in the barrier for two cores, and none is while the barrier is disabled. Assumed
  are that a caller of \<^verbatim>\<open>synchronize\<close> has a thread with a valid number that is not itself waiting in the barrier
  (\<open>barrier_step\<close>), and of the rest of the simulator that the periodic hooks keep this accounting and the threads of
  the cores and empty the barrier only by disabling it, and that the shuffle is a permutation (\<open>barrier_environment\<close>,
  which holds for the hook of the system call server).
\<close>

theorem barrier_no_lost_threads:
  assumes "barrier_environment e" "(barrier_step e)\<^sup>*\<^sup>* (BarrierSyncServer n quantum w) s" "c < num_cores s"
  shows "m_core_waiting s ! c = of_bool (acquired s c) + count_list (m_to_release s) c \<and>
    set (m_to_release s) \<subseteq> {..<num_cores s} \<and> (m_disable s \<longrightarrow> \<not> acquired s c) \<and>
    (\<forall>d < num_cores s. acquired s c \<and> acquired s d \<and> m_core_thread s ! c = m_core_thread s ! d \<longrightarrow> c = d)"
proof -
  have i: "barrier_inv None s" using barrier_steps_inv [OF assms(1,2) BarrierSyncServer_inv] .
  then have "m_disable s \<longrightarrow> \<not> acquired s c" using assms(3) by (simp add: barrier_inv_def)
  then show ?thesis using barrier_inv_wait [OF i assms(3)] barrier_inv_list [OF i] barrier_inv_inj [OF i assms(3)] by auto
qed

theorem barrier_no_lost_threads_witness: "m_core_waiting first_waits ! 0 = 1 \<and> acquired first_waits 0"
  using barrier_no_lost_threads [OF two_core_ok two_core_step [unfolded both_running_def], of 0] by (simp add: first_waits_fields)

text \<open>
  The barrier is reached exactly when the slowest core has caught up. In detailed mode, with no assertion
  failing, \<^verbatim>\<open>isBarrierReached\<close> answers yes if and only if some group of cores is running and the recorded
  clock of every running group has reached the barrier time.
\<close>

theorem barrier_reached_iff_all_caught_up:
  assumes "isBarrierReached e s = Inr r" "\<not> m_fastforward s"
  shows "r \<longleftrightarrow> (\<exists>c < num_cores s. counted e s c) \<and>
    (\<forall>c < num_cores s. counted e s c \<longrightarrow> m_next_barrier_time s \<le> m_local_clock_list s ! c)"
  using reached_loop_eq [OF assms(1) [unfolded isBarrierReached_def] assms(2)] by auto

theorem barrier_reached_iff_all_caught_up_witness:
  "\<exists>r. isBarrierReached two_core_env first_waits = Inr r \<and> \<not> r"
proof -
  have "isBarrierReached two_core_env first_waits = Inr False"
    by (simp add: isBarrierReached_def first_waits_fields two_core_env_def futex_env_def isCoreRunning_def
      isCoreRunning_alone_def idle_runs)
  then show ?thesis using barrier_reached_iff_all_caught_up [of two_core_env first_waits] by (auto simp: first_waits_fields)
qed

text \<open>
  C33: a release lets go exactly the cores that are behind. When the release at the end of a quantum
  completes without the barrier being disabled, at least one core leaves, every core that leaves has a
  recorded clock before the new barrier time, every core that stays has reached it, nobody enters, and
  the caller has to wait exactly when its own core stays.
\<close>

theorem barrier_release_bounds_skew:
  assumes "barrier_environment e" "barrier_inv (Some m) s" "acquired s m" "m_core_thread s ! m = t"
    and "barrierRelease e t False s = Inr (must_wait, s')" "\<not> m_disable s'"
  shows "(\<exists>c < num_cores s. acquired s c \<and> \<not> acquired s' c) \<and>
    (\<forall>c < num_cores s. acquired s c \<and> \<not> acquired s' c \<longrightarrow> m_local_clock_list s' ! c < m_next_barrier_time s') \<and>
    (\<forall>c < num_cores s. acquired s' c \<longrightarrow> acquired s c \<and> m_next_barrier_time s' \<le> m_local_clock_list s' ! c) \<and>
    (must_wait \<longleftrightarrow> acquired s' m)"
proof -
  have "caller_ok (Some m) t s" using assms(2-4) by (auto simp: caller_ok_def barrier_inv_def)
  then obtain completed where "barrier_environment.released (Some m) False completed must_wait s s'"
    using barrier_environment.barrierRelease_keeps [OF assms(1,5,2)] by blast
  then show ?thesis
    using assms(6) by (auto simp: barrier_environment.released_def [OF assms(1)] split: if_splits)
qed

theorem barrier_release_bounds_skew_witness:
  "\<exists>must_wait s'. barrierRelease two_core_env 1 False both_in = Inr (must_wait, s') \<and> (must_wait \<longleftrightarrow> acquired s' 1)"
proof -
  obtain s' where r: "barrierRelease two_core_env 1 False both_in = Inr (False, s')" "\<not> m_disable s'"
    using both_in_release by blast
  then show ?thesis using barrier_release_bounds_skew [OF two_core_ok both_in_inv _ _ r] by (auto simp: both_in_eq)
qed

text \<open>
  C34: the release loop ends. Called in detailed mode (not fast-forwarding), without \<^verbatim>\<open>continue_until_release\<close>,
  with no core left on the list of cores to be released (otherwise the assertion at its start fails) and with some core in
  the barrier, \<^verbatim>\<open>barrierRelease\<close> returns if the quantum is not zero and neither the barrier time nor that core's
  clock is within one quantum of the largest time. The periodic hooks may do anything to the rest of the simulator; of the
  barrier they keep the accounting, the quantum, the barrier time and the threads of the cores, do not move a clock
  forward and empty the barrier only by disabling it (\<open>steady_barrier_environment\<close>).
\<close>

theorem barrier_release_terminates:
  assumes "steady_barrier_environment e" "c < num_cores s" "acquired s c" "m_to_release s = []" "\<not> m_fastforward s"
    and "0 < m_barrier_interval s" "unat (m_next_barrier_time s) + unat (m_barrier_interval s) < 2 ^ 64"
    and "unat (m_local_clock_list s ! c) + unat (m_barrier_interval s) < 2 ^ 64"
  shows "\<exists>must_wait s'. barrierRelease e t False s = Inr (must_wait, s')"
  using steady_barrier_environment.barrierRelease_ends [OF assms(1,8,7,6,2,3,4,5)] .

theorem barrier_release_terminates_witness:
  "\<exists>must_wait s'. barrierRelease two_core_env (- 1) False first_waits = Inr (must_wait, s')"
proof -
  have "steady_barrier_environment two_core_env"
    unfolding two_core_env_def by (rule kernel.steady_barrier_environment_axioms)
  then show ?thesis
    using barrier_release_terminates [of two_core_env 0 first_waits "- 1"] by (simp add: first_waits_fields)
qed

text \<open>
  C40: sleeping is not deadlock. When no core is in the barrier or on the list of cores to be released and a thread waits
  for a futex with a timeout, \<^verbatim>\<open>advance\<close> ends with a running thread: the barrier and the system call server together
  neither loop forever nor report a deadlock. This is for an enabled barrier in detailed mode (not fast-forwarding) with a
  quantum that is not zero and a timeout at least two quanta below the largest time, in a state where the queues of the
  system call server are consistent and the blocked threads are among those of the thread manager; the periodic hook is
  that of the system call server.
\<close>

theorem advance_wakes_timed_waiter:
  assumes "u \<in> set (futex_at (world s) a)" "futex_inv (world s)" "\<forall>t \<in> blocked (world s). t < int threads"
    and "\<forall>c < num_cores s. \<not> acquired s c" "m_to_release s = []" "\<not> m_disable s" "\<not> m_fastforward s"
    and "0 < m_barrier_interval s" "unat (timeout u) + 2 * unat (m_barrier_interval s) < 2 ^ 64"
  shows "\<exists>s'. advance (futex_env st th threads host_cores) s = Inr s' \<and> anyThreadRunning threads (m_threads (world s'))"
  using advance_loop_wakes [OF assms(9,8,1,2) bspec [OF assms(3)] assms(4,6), of st th host_cores INVALID_THREAD_ID True] assms(5,7)
  by (auto simp: advance_def barrierRelease_def)

theorem advance_wakes_timed_waiter_witness:
  "\<exists>s'. advance (futex_env (\<lambda>_ _. RUNNING) (\<lambda>_ c. Some (int c)) 3 4) (both_running\<lparr>world := two_waiting\<rparr>) = Inr s' \<and>
     anyThreadRunning 3 (m_threads (world s'))"
  by (rule advance_wakes_timed_waiter [of "\<lparr>thread_id = 2, mask = 0xffffffff, timeout = 3000005\<rparr>" _ "0x10"])
    (use two_waiting_inv two_waiting_blocked in \<open>auto simp: both_running_fields two_waiting_at less_Suc_eq both_running_def BarrierSyncServer_def\<close>)

end
