(* ===== verification/Contention_Model.thy ===== *)
theory Contention_Model
  imports Prelude
begin

text \<open>
  \<^verbatim>\<open>performance_model/contention_model.{h,cc}\<close>: a resource with a number of identical units, such as the ports
  of a cache. For each unit the model keeps the time at which it becomes free and the tag of its last
  request. The overloads that take cycles convert to times and back and are given as \<open>_cycles\<close>, with the
  clock period as a field.
\<close>

section \<open>Definitions\<close>

record contention_model =
  m_num_outstanding :: nat
  m_unit_time :: "(UInt64 \<times> UInt64) list"
  m_t_last :: UInt64
  m_proc_period :: UInt64
  m_n_requests :: UInt64
  m_n_barriers :: UInt64
  m_n_outoforder :: UInt64
  m_n_simultaneous :: UInt64
  m_n_hasfreefail :: UInt64
  m_total_delay :: UInt64
  m_total_barrier_delay :: UInt64

definition ContentionModel :: "nat \<Rightarrow> UInt64 \<Rightarrow> contention_model" where
  "ContentionModel num_outstanding period =
     \<lparr>m_num_outstanding = num_outstanding, m_unit_time = replicate num_outstanding (0, 0), m_t_last = 0,
      m_proc_period = period, m_n_requests = 0, m_n_barriers = 0, m_n_outoforder = 0, m_n_simultaneous = 0,
      m_n_hasfreefail = 0, m_total_delay = 0, m_total_barrier_delay = 0\<rparr>"

definition getNumUsed :: "UInt64 \<Rightarrow> contention_model \<Rightarrow> nat" where
  "getNumUsed t_start c = length (filter (\<lambda>(t, _). t > t_start) (m_unit_time c))"

definition getTagCompletionTime :: "UInt64 \<Rightarrow> contention_model \<Rightarrow> UInt64" where
  "getTagCompletionTime tag c = (case find (\<lambda>(_, g). g = tag) (m_unit_time c) of Some (t, _) \<Rightarrow> t | None \<Rightarrow> - 1)"

definition hasFreeSlot :: "UInt64 \<Rightarrow> UInt64 \<Rightarrow> contention_model \<Rightarrow> bool \<times> contention_model" where
  "hasFreeSlot t_start tag c =
     (if list_ex (\<lambda>(t, g). t \<le> t_start \<or> g = tag) (m_unit_time c) then (True, c)
      else (False, c\<lparr>m_n_hasfreefail := m_n_hasfreefail c + 1\<rparr>))"

definition hasTag :: "UInt64 \<Rightarrow> contention_model \<Rightarrow> bool" where
  "hasTag tag c = list_ex (\<lambda>(_, g). g = tag) (m_unit_time c)"

definition getBarrierCompletionTime :: "UInt64 \<Rightarrow> UInt64 \<Rightarrow> UInt64 \<Rightarrow> contention_model \<Rightarrow> UInt64 \<times> contention_model" where
  "getBarrierCompletionTime t_start t_delay tag c =
     (if m_num_outstanding c = 0 then (t_start + t_delay, c)
      else
        let max_time = foldl (\<lambda>m (t, _). if t > m then t else m) t_start (m_unit_time c)
        in (max_time + t_delay,
            c\<lparr>m_unit_time := map (\<lambda>_. (max_time + t_delay, tag)) (m_unit_time c),
              m_total_barrier_delay := m_total_barrier_delay c + (max_time - t_start),
              m_n_barriers := m_n_barriers c + 1\<rparr>))"

text \<open>The loop that looks for a free unit, or for the one that is free first.\<close>

fun find_unit :: "UInt64 \<Rightarrow> UInt64 list \<Rightarrow> nat list \<Rightarrow> nat \<Rightarrow> nat" where
  "find_unit t_start ts [] u = u"
| "find_unit t_start ts (i # is) u =
     (if ts ! i \<le> t_start then i
      else if ts ! i < ts ! u then find_unit t_start ts is i
      else find_unit t_start ts is u)"

definition getCompletionTime :: "UInt64 \<Rightarrow> UInt64 \<Rightarrow> UInt64 \<Rightarrow> contention_model \<Rightarrow> UInt64 \<times> contention_model" where
  "getCompletionTime t_start t_delay tag c =
     (if m_num_outstanding c = 0 then (t_start + t_delay, c)
      else
        let (t_end, c1) =
          (if t_start = 0 then (t_delay, c)
           else if t_start < m_t_last c
           then (t_start + t_delay, c\<lparr>m_n_outoforder := m_n_outoforder c + 1\<rparr>)
           else
             let c0 = (if t_start = m_t_last c then c\<lparr>m_n_simultaneous := m_n_simultaneous c + 1\<rparr> else c);
                 ts = map fst (m_unit_time c);
                 u = find_unit t_start ts [0..<m_num_outstanding c] 0;
                 t_begin = (if t_start < ts ! u then ts ! u else t_start)
             in (t_begin + t_delay,
                 c0\<lparr>m_unit_time := (m_unit_time c0)[u := (t_begin + t_delay, tag)],
                    m_total_delay := m_total_delay c0 + (t_begin - t_start), m_t_last := t_start\<rparr>))
        in (t_end, c1\<lparr>m_n_requests := m_n_requests c1 + 1\<rparr>))"

definition getStartTime :: "UInt64 \<Rightarrow> contention_model \<Rightarrow> UInt64" where
  "getStartTime t_start c =
     (if m_num_outstanding c = 0 then t_start
      else if t_start < m_t_last c then t_start
      else
        let ts = map fst (m_unit_time c); u = find_unit t_start ts [0..<m_num_outstanding c] 0
        in if t_start < ts ! u then ts ! u else t_start)"

definition getCompletionTime_cycles :: "UInt64 \<Rightarrow> UInt64 \<Rightarrow> UInt64 \<Rightarrow> contention_model \<Rightarrow> UInt64 \<times> contention_model" where
  "getCompletionTime_cycles t_start t_delay tag c =
     (let (r, c') = getCompletionTime (m_proc_period c * t_start) (m_proc_period c * t_delay) tag c
      in (r div m_proc_period c, c'))"

definition getBarrierCompletionTime_cycles :: "UInt64 \<Rightarrow> UInt64 \<Rightarrow> UInt64 \<Rightarrow> contention_model \<Rightarrow> UInt64 \<times> contention_model" where
  "getBarrierCompletionTime_cycles t_start t_delay tag c =
     (let (r, c') = getBarrierCompletionTime (m_proc_period c * t_start) (m_proc_period c * t_delay) tag c
      in (r div m_proc_period c, c'))"

definition getStartTime_cycles :: "UInt64 \<Rightarrow> contention_model \<Rightarrow> UInt64" where
  "getStartTime_cycles t_start c = getStartTime (m_proc_period c * t_start) c div m_proc_period c"

definition hasFreeSlot_cycles :: "UInt64 \<Rightarrow> UInt64 \<Rightarrow> contention_model \<Rightarrow> bool \<times> contention_model" where
  "hasFreeSlot_cycles t_start tag c = hasFreeSlot (m_proc_period c * t_start) tag c"

definition getNumUsed_cycles :: "UInt64 \<Rightarrow> contention_model \<Rightarrow> nat" where
  "getNumUsed_cycles t_start c = getNumUsed (m_proc_period c * t_start) c"

section \<open>Which unit is taken\<close>

lemma find_unit_range: "u < n \<Longrightarrow> \<forall>i \<in> set is. i < n \<Longrightarrow> find_unit t ts is u < n"
  by (induction "is" arbitrary: u) auto

lemma find_unit_best:
  "ts ! find_unit t ts is u \<le> t \<or> (\<forall>i \<in> insert u (set is). ts ! find_unit t ts is u \<le> ts ! i)"
proof (induction "is" arbitrary: u)
  case (Cons i "is")
  show ?case using Cons [of i] Cons [of u] by (auto simp: not_less not_le)
qed simp

lemma find_unit_free: "\<exists>i \<in> set is. ts ! i \<le> t \<Longrightarrow> ts ! find_unit t ts is u \<le> t"
  by (induction "is" arbitrary: u) auto

definition slots_ok :: "contention_model \<Rightarrow> bool" where
  "slots_ok c \<longleftrightarrow> length (m_unit_time c) = m_num_outstanding c"

text \<open>The unit chosen and the time service begins, for a request that is not out of order.\<close>

definition chosen :: "UInt64 \<Rightarrow> contention_model \<Rightarrow> nat" where
  "chosen t c = find_unit t (map fst (m_unit_time c)) [0..<m_num_outstanding c] 0"

definition begins :: "UInt64 \<Rightarrow> contention_model \<Rightarrow> UInt64" where
  "begins t c = max t (map fst (m_unit_time c) ! chosen t c)"

lemma chosen_range: "0 < m_num_outstanding c \<Longrightarrow> chosen t c < m_num_outstanding c"
  by (simp add: chosen_def find_unit_range)

lemma completion_eq:
  assumes "0 < m_num_outstanding c" "t \<noteq> 0" "m_t_last c \<le> t"
  shows "fst (getCompletionTime t d tag c) = begins t c + d"
    "m_unit_time (snd (getCompletionTime t d tag c)) = (m_unit_time c)[chosen t c := (begins t c + d, tag)]"
    "m_t_last (snd (getCompletionTime t d tag c)) = t"
    "m_num_outstanding (snd (getCompletionTime t d tag c)) = m_num_outstanding c"
  using assms by (auto simp: getCompletionTime_def begins_def chosen_def Let_def max_def not_le)

lemma begins_earliest:
  assumes "slots_ok c" "0 < m_num_outstanding c"
  shows "begins t c = max t (Min (fst ` set (m_unit_time c)))"
proof -
  let ?ts = "map fst (m_unit_time c)" and ?u = "chosen t c"
  have ne: "m_unit_time c \<noteq> []" using assms by (auto simp: slots_ok_def)
  have len: "length ?ts = m_num_outstanding c" using assms(1) by (simp add: slots_ok_def)
  then have u: "?ts ! ?u \<in> set ?ts" using chosen_range [OF assms(2)] by (metis nth_mem)
  have m: "Min (set ?ts) \<in> set ?ts" using ne by (intro Min_in) auto
  then obtain i where i: "i < m_num_outstanding c" "?ts ! i = Min (set ?ts)" using len by (metis in_set_conv_nth)
  have "?ts ! ?u \<le> t \<or> ?ts ! ?u \<le> Min (set ?ts)"
    using find_unit_best [of ?ts t "[0..<m_num_outstanding c]" 0] i unfolding chosen_def by (metis atLeastLessThan_iff insertI2 le0 set_upt)
  moreover have "Min (set ?ts) \<le> ?ts ! ?u" using u by (intro Min_le) auto
  ultimately show ?thesis unfolding begins_def by (auto simp: max_def)
qed

section \<open>A run of requests\<close>

text \<open>Requests as pairs of start time and service time; the result lists begin and end of each service.\<close>

fun serve :: "(UInt64 \<times> UInt64) list \<Rightarrow> contention_model \<Rightarrow> (UInt64 \<times> UInt64) list \<times> contention_model" where
  "serve [] c = ([], c)"
| "serve ((t, d) # rs) c =
     (let (t_end, c1) = getCompletionTime t d 0 c; (ss, c2) = serve rs c1 in ((t_end - d, t_end) # ss, c2))"

text \<open>The same run with the unit of each service, for the proof.\<close>

fun units :: "(UInt64 \<times> UInt64) list \<Rightarrow> contention_model \<Rightarrow> (nat \<times> UInt64 \<times> UInt64) list" where
  "units [] c = []"
| "units ((t, d) # rs) c =
     (chosen t c, begins t c, begins t c + d) # units rs (snd (getCompletionTime t d 0 c))"

definition in_order :: "UInt64 \<Rightarrow> (UInt64 \<times> UInt64) list \<Rightarrow> bool" where
  "in_order t rs \<longleftrightarrow> sorted (t # map fst rs) \<and> (\<forall>r \<in> set rs. 0 < fst r)"

lemma in_order_Cons: "in_order t ((u, d) # rs) \<longleftrightarrow> t \<le> u \<and> 0 < u \<and> in_order u rs"
  by (auto simp: in_order_def)

lemma serve_units:
  assumes "in_order (m_t_last c) rs" "0 < m_num_outstanding c"
  shows "fst (serve rs c) = map snd (units rs c)"
  using assms
proof (induction rs arbitrary: c)
  case (Cons r rs)
  obtain t d where r: "r = (t, d)" by fastforce
  let ?c = "snd (getCompletionTime t d 0 c)"
  have o: "m_t_last c \<le> t" "t \<noteq> 0" "in_order t rs" using Cons.prems(1) by (auto simp: r in_order_Cons)
  note e = completion_eq [OF Cons.prems(2) o(2,1), of d 0]
  have "fst (serve rs ?c) = map snd (units rs ?c)" using Cons.prems(2) o(3) by (intro Cons.IH) (simp_all add: e)
  then show ?case by (simp add: r e split_beta)
qed simp

text \<open>
  Services on one unit do not overlap: each begins after the time kept for its unit, which is the end of the
  last one. No time wraps around as long as the starts plus all service times stay below the word size.
\<close>

definition busy_until :: "nat \<Rightarrow> contention_model \<Rightarrow> UInt64" where
  "busy_until u c = fst (m_unit_time c ! u)"

definition active :: "UInt64 \<Rightarrow> nat \<times> UInt64 \<times> UInt64 \<Rightarrow> bool" where
  "active x s \<longleftrightarrow> fst (snd s) \<le> x \<and> x < snd (snd s)"

definition fits :: "(UInt64 \<times> UInt64) list \<Rightarrow> contention_model \<Rightarrow> bool" where
  "fits rs c \<longleftrightarrow> (\<exists>B. (\<forall>p \<in> set (m_unit_time c). unat (fst p) \<le> B) \<and> (\<forall>r \<in> set rs. unat (fst r) \<le> B) \<and>
     B + sum_list (map (unat \<circ> snd) rs) < 2 ^ 64)"

lemma fits_Cons:
  assumes "fits ((t, d) # rs) c" "slots_ok c" "0 < m_num_outstanding c" "t \<noteq> 0" "m_t_last c \<le> t"
  shows "begins t c \<le> begins t c + d" "fits rs (snd (getCompletionTime t d 0 c))" "slots_ok (snd (getCompletionTime t d 0 c))"
proof -
  obtain B where B: "\<forall>p \<in> set (m_unit_time c). unat (fst p) \<le> B" "unat t \<le> B" "\<forall>r \<in> set rs. unat (fst r) \<le> B"
      "B + (unat d + sum_list (map (unat \<circ> snd) rs)) < 2 ^ 64"
    using assms(1) by (auto simp: fits_def)
  have u: "chosen t c < length (m_unit_time c)" using chosen_range [OF assms(3)] assms(2) by (simp add: slots_ok_def)
  then have "unat (fst (m_unit_time c ! chosen t c)) \<le> B" using B(1) by auto
  then have b: "unat (begins t c) \<le> B" using B(2) u by (simp add: begins_def max_def)
  then have e: "unat (begins t c + d) = unat (begins t c) + unat d" using B(4) by (simp add: unat_word_ariths)
  then show "begins t c \<le> begins t c + d" by (simp add: word_le_nat_alt)
  note q = completion_eq [OF assms(3-5), of d 0]
  show "slots_ok (snd (getCompletionTime t d 0 c))" using assms(2) by (simp add: slots_ok_def q)
  have "\<forall>p \<in> set (m_unit_time (snd (getCompletionTime t d 0 c))). unat (fst p) \<le> B + unat d"
    using B(1) b e by (auto simp: q dest!: set_update_subset_insert [THEN subsetD] intro: trans_le_add1)
  then show "fits rs (snd (getCompletionTime t d 0 c))"
    unfolding fits_def using B(3,4) by (intro exI [of _ "B + unat d"]) (auto intro: trans_le_add1)
qed

lemma units_after:
  assumes "fits rs c" "slots_ok c" "0 < m_num_outstanding c" "in_order (m_t_last c) rs" "s \<in> set (units rs c)"
  shows "fst s < m_num_outstanding c \<and> busy_until (fst s) c \<le> fst (snd s)"
  using assms
proof (induction rs arbitrary: c)
  case (Cons r rs)
  obtain t d where r: "r = (t, d)" by fastforce
  let ?c = "snd (getCompletionTime t d 0 c)"
  have o: "m_t_last c \<le> t" "t \<noteq> 0" "in_order t rs" using Cons.prems(4) by (auto simp: r in_order_Cons)
  note e = completion_eq [OF Cons.prems(3) o(2,1), of d 0]
  note f = fits_Cons [OF Cons.prems(1) [unfolded r] Cons.prems(2,3) o(2,1)]
  have u: "chosen t c < m_num_outstanding c" "length (m_unit_time c) = m_num_outstanding c"
    using chosen_range [OF Cons.prems(3)] Cons.prems(2) by (auto simp: slots_ok_def)
  have b: "busy_until (chosen t c) c \<le> begins t c" using u by (simp add: busy_until_def begins_def)
  have mono: "busy_until v c \<le> busy_until v ?c" if "v < m_num_outstanding c" for v
    using that u b f(1) by (auto simp: busy_until_def e nth_list_update)
  consider "s = (chosen t c, begins t c, begins t c + d)" | "s \<in> set (units rs ?c)" using Cons.prems(5) by (auto simp: r)
  then show ?case
  proof cases
    case 1
    then show ?thesis using u b by simp
  next
    case 2
    then have "fst s < m_num_outstanding ?c \<and> busy_until (fst s) ?c \<le> fst (snd s)"
      using Cons.prems(3) o(3) f by (intro Cons.IH) (simp_all add: e)
    then show ?thesis using mono [of "fst s"] by (auto simp: e intro: order_trans)
  qed
qed simp

lemma one_active_per_unit:
  assumes "fits rs c" "slots_ok c" "0 < m_num_outstanding c" "in_order (m_t_last c) rs"
  shows "length (filter (\<lambda>s. fst s = u \<and> active x s) (units rs c)) \<le> 1"
  using assms
proof (induction rs arbitrary: c)
  case (Cons r rs)
  obtain t d where r: "r = (t, d)" by fastforce
  let ?c = "snd (getCompletionTime t d 0 c)"
  have o: "m_t_last c \<le> t" "t \<noteq> 0" "in_order t rs" using Cons.prems(4) by (auto simp: r in_order_Cons)
  note e = completion_eq [OF Cons.prems(3) o(2,1), of d 0]
  note f = fits_Cons [OF Cons.prems(1) [unfolded r] Cons.prems(2,3) o(2,1)]
  have IH: "length (filter (\<lambda>s. fst s = u \<and> active x s) (units rs ?c)) \<le> 1"
    using Cons.prems(3) o(3) f by (intro Cons.IH) (simp_all add: e)
  have "filter (\<lambda>s. fst s = u \<and> active x s) (units rs ?c) = []"
    if a: "chosen t c = u" "active x (chosen t c, begins t c, begins t c + d)"
  proof -
    have l: "length (m_unit_time c) = m_num_outstanding c" using Cons.prems(2) by (simp add: slots_ok_def)
    have "busy_until u ?c = begins t c + d"
      using chosen_range [OF Cons.prems(3), of t] a(1) l by (simp add: busy_until_def e)
    then have "\<not> active x s" if "s \<in> set (units rs ?c)" "fst s = u" for s
      using units_after [of rs ?c s] that a(2) Cons.prems(3) o(3) f by (auto simp: active_def e)
    then show ?thesis by (auto simp: filter_empty_conv)
  qed
  then show ?case using IH by (auto simp: r)
qed simp

lemma filter_sum:
  fixes n :: nat
  shows "(\<And>s. s \<in> set S \<Longrightarrow> fst s < n) \<Longrightarrow>
    length (filter P S) = (\<Sum>u < n. length (filter (\<lambda>s. fst s = u \<and> P s) S))"
proof (induction S)
  case (Cons s S)
  have "(\<Sum>u < n. length (filter (\<lambda>s. fst s = u \<and> P s) (s # S))) =
      (\<Sum>u < n. (if fst s = u \<and> P s then 1 else 0) + length (filter (\<lambda>s. fst s = u \<and> P s) S))" by (intro sum.cong) auto
  also have "\<dots> = (if P s then 1 else 0) + length (filter P S)"
  proof -
    have "fst s < n" using Cons.prems [of s] by simp
    then have "(\<Sum>u < n. (if fst s = u then 1 else 0 :: nat)) = 1" by (simp add: sum.delta')
    then show ?thesis using Cons by (auto simp: sum.distrib)
  qed
  finally show ?case by simp
qed simp

section \<open>Properties\<close>

text \<open>
  C36: a resource with \<open>n\<close> units never serves more than \<open>n\<close> requests at once. For any requests in
  order of their (non-zero) start times, at every instant at most \<open>n\<close> of the services the model returns
  are in progress, and no service begins before its request; the times must not reach the word size.
\<close>

theorem contention_never_oversubscribed:
  assumes "0 < n" "in_order 0 rs" "fits rs (ContentionModel n period)"
  shows "length (filter (\<lambda>(b, e). b \<le> x \<and> x < e) (fst (serve rs (ContentionModel n period)))) \<le> n \<and>
    list_all2 (\<lambda>(t, d) (b, e). t \<le> b \<and> e = b + d) rs (fst (serve rs (ContentionModel n period)))"
proof
  let ?c = "ContentionModel n period"
  have c: "slots_ok ?c" "m_num_outstanding ?c = n" "m_t_last ?c = 0" by (simp_all add: slots_ok_def ContentionModel_def)
  have s: "fst (serve rs ?c) = map snd (units rs ?c)" using assms c by (intro serve_units) simp_all
  have "length (filter (active x) (units rs ?c)) = (\<Sum>u < n. length (filter (\<lambda>s. fst s = u \<and> active x s) (units rs ?c)))"
    using units_after [OF assms(3)] assms(1,2) c by (intro filter_sum) auto
  also have "\<dots> \<le> (\<Sum>u < n. 1)" using one_active_per_unit [OF assms(3)] assms(1,2) c by (intro sum_mono) simp
  finally have "length (filter (active x) (units rs ?c)) \<le> n" by simp
  moreover have "active x = (\<lambda>s. fst (snd s) \<le> x \<and> x < snd (snd s))" by (simp add: active_def fun_eq_iff)
  ultimately show "length (filter (\<lambda>(b, e). b \<le> x \<and> x < e) (fst (serve rs ?c))) \<le> n"
    unfolding s by (simp add: filter_map comp_def case_prod_beta)
  have "list_all2 (\<lambda>(t, d) (b, e). t \<le> b \<and> e = b + d) rs (map snd (units rs c))" for c
    by (induction rs arbitrary: c) (auto simp: begins_def)
  then show "list_all2 (\<lambda>(t, d) (b, e). t \<le> b \<and> e = b + d) rs (fst (serve rs ?c))" unfolding s .
qed

theorem contention_never_oversubscribed_witness:
  "fst (serve [(10, 5), (11, 5), (12, 5)] (ContentionModel 2 1)) = [(10, 15), (11, 16), (15, 20)] \<and>
   length (filter (\<lambda>(b, e). b \<le> 14 \<and> 14 < e) (fst (serve [(10, 5), (11, 5), (12, 5)] (ContentionModel 2 1)))) \<le> 2"
proof -
  have "fits [(10, 5), (11, 5), (12, 5)] (ContentionModel 2 1)"
    unfolding fits_def by (intro exI [of _ 12]) (simp add: ContentionModel_def)
  moreover have "in_order 0 [(10, 5), (11, 5), (12, 5)]" by (simp add: in_order_def)
  moreover have "fst (serve [(10, 5), (11, 5), (12, 5)] (ContentionModel 2 1)) = [(10, 15), (11, 16), (15, 20)]" by code_simp
  ultimately show ?thesis using contention_never_oversubscribed [of 2 "[(10, 5), (11, 5), (12, 5)]" 1 14] by (metis zero_less_numeral)
qed

text \<open>
  A request is served by the unit that is free first: the time announced by \<^verbatim>\<open>getStartTime\<close> is
  the later of the request and the earliest time a unit is free, and it is the time at which
  \<^verbatim>\<open>getCompletionTime\<close> lets the service begin.
\<close>

theorem contention_first_free_unit:
  assumes "slots_ok c" "0 < m_num_outstanding c" "m_t_last c \<le> t" "t \<noteq> 0"
  shows "getStartTime t c = max t (Min (fst ` set (m_unit_time c))) \<and>
    fst (getCompletionTime t d tag c) = getStartTime t c + d"
proof -
  have "getStartTime t c = begins t c"
    using assms(2,3) by (auto simp: getStartTime_def begins_def chosen_def Let_def max_def not_le)
  then show ?thesis using begins_earliest [OF assms(1,2)] completion_eq(1) [OF assms(2,4,3)] by simp
qed

theorem contention_first_free_unit_witness:
  "getStartTime 12 (snd (serve [(10, 5), (11, 5)] (ContentionModel 2 1))) = 15"
proof -
  let ?c = "snd (serve [(10, 5), (11, 5)] (ContentionModel 2 1))"
  have "m_unit_time ?c = [(15, 0), (16, 0)]" "m_num_outstanding ?c = 2" "m_t_last ?c = 11" by code_simp+
  then show ?thesis using contention_first_free_unit [of ?c 12 0 0] by (simp add: slots_ok_def del: serve.simps)
qed

end
