(* ===== verification/Subsecond_Time.thy ===== *)
theory Subsecond_Time
  imports Prelude
begin

text \<open>
  \<^verbatim>\<open>misc/subsecond_time.h\<close>: simulated time in femtoseconds, a 64-bit number whose operators wrap around, and
  the component classes that turn cycles, bits and frequencies into times. A \<^verbatim>\<open>SubsecondTime\<close> is a
  \<open>UInt64\<close>; its overloaded operators are those of the word. A pointer to a period is the period itself.
  Division by zero is undefined in the source and an error here.
\<close>

section \<open>Times\<close>

abbreviation (input) FS_1 :: UInt64 where "FS_1 \<equiv> 1"
abbreviation (input) PS_1 :: UInt64 where "PS_1 \<equiv> 1000"
abbreviation (input) NS_1 :: UInt64 where "NS_1 \<equiv> 1000000"
abbreviation (input) US_1 :: UInt64 where "US_1 \<equiv> 1000000000"
abbreviation (input) MS_1 :: UInt64 where "MS_1 \<equiv> 1000000000000"
abbreviation (input) SEC_1 :: UInt64 where "SEC_1 \<equiv> 1000000000000000"
abbreviation (input) MaxTime :: UInt64 where "MaxTime \<equiv> - 1"

definition FS :: "UInt64 \<Rightarrow> UInt64" where "FS fs = fs * FS_1"
definition PS :: "UInt64 \<Rightarrow> UInt64" where "PS ps = ps * PS_1"
definition NS :: "UInt64 \<Rightarrow> UInt64" where "NS ns = ns * NS_1"
definition US :: "UInt64 \<Rightarrow> UInt64" where "US us = us * US_1"
definition MS :: "UInt64 \<Rightarrow> UInt64" where "MS ms = ms * MS_1"
definition SEC :: "UInt64 \<Rightarrow> UInt64" where "SEC sec = sec * SEC_1"

definition getFS :: "UInt64 \<Rightarrow> UInt64" where "getFS t = t div FS_1"
definition getPS :: "UInt64 \<Rightarrow> UInt64" where "getPS t = t div PS_1"
definition getNS :: "UInt64 \<Rightarrow> UInt64" where "getNS t = t div NS_1"
definition getUS :: "UInt64 \<Rightarrow> UInt64" where "getUS t = t div US_1"
definition getMS :: "UInt64 \<Rightarrow> UInt64" where "getMS t = t div MS_1"
definition getSEC :: "UInt64 \<Rightarrow> UInt64" where "getSEC t = t div SEC_1"

definition divideE :: "UInt64 \<Rightarrow> UInt64 \<Rightarrow> UInt64 result" where
  "divideE a b = (if b = 0 then Inl (UNDEFINED ''division by zero'') else Inr (a div b))"

definition divideRounded :: "UInt64 \<Rightarrow> UInt64 \<Rightarrow> UInt64 result" where
  "divideRounded lhs rhs = divideE (lhs + (rhs div 2 + 1)) rhs"

section \<open>Periods and cycles\<close>

definition fromFreqHz :: "UInt64 \<Rightarrow> UInt64 result" where
  "fromFreqHz freq_in_hz = divideE (SEC 1) freq_in_hz"

definition getPeriodInFreqMHz :: "UInt64 \<Rightarrow> UInt64 result" where
  "getPeriodInFreqMHz period = divideE US_1 period"

definition cyclesToSubsecondTime :: "UInt64 \<Rightarrow> UInt64 \<Rightarrow> UInt64" where
  "cyclesToSubsecondTime period cycles = period * cycles"

definition subsecondTimeToCycles :: "UInt64 \<Rightarrow> UInt64 \<Rightarrow> UInt64 result" where
  "subsecondTimeToCycles period time = divideE time period"

section \<open>Bandwidths and latencies\<close>

text \<open>The constructor of \<^verbatim>\<open>ComponentBandwidth\<close> takes a float; the model starts from the integer it stores.\<close>

definition bw_getLatency :: "UInt64 \<Rightarrow> UInt64 \<Rightarrow> UInt64 result" where
  "bw_getLatency bw_in_bits_per_us bits_transmitted = divideE (bits_transmitted * US 1) bw_in_bits_per_us"

definition bw_getRoundedLatency :: "UInt64 \<Rightarrow> UInt64 \<Rightarrow> UInt64 result" where
  "bw_getRoundedLatency bw_in_bits_per_us bits_transmitted =
     divideE (bits_transmitted * US 1 + US 1 div 2) bw_in_bits_per_us"

record component_bandwidth_per_cycle =
  bw_period :: UInt64
  m_bw_in_bits_per_cycle :: UInt64

definition isInfinite :: "component_bandwidth_per_cycle \<Rightarrow> bool" where
  "isInfinite b \<longleftrightarrow> m_bw_in_bits_per_cycle b = 0"

definition bwpc_getLatency :: "component_bandwidth_per_cycle \<Rightarrow> UInt64 \<Rightarrow> UInt64 result" where
  "bwpc_getLatency b bits_transmitted = divideE (bits_transmitted * bw_period b) (m_bw_in_bits_per_cycle b)"

definition bwpc_getRoundedLatency :: "component_bandwidth_per_cycle \<Rightarrow> UInt64 \<Rightarrow> UInt64 result" where
  "bwpc_getRoundedLatency b bits_transmitted =
     divideE (bits_transmitted * bw_period b + bw_period b div 2) (m_bw_in_bits_per_cycle b)"

record component_latency =
  cl_period :: UInt64
  m_fixed_cycle_latency :: UInt64

definition cl_getLatency :: "component_latency \<Rightarrow> UInt64" where
  "cl_getLatency l = cl_period l * m_fixed_cycle_latency l"

definition cl_add :: "component_latency \<Rightarrow> UInt64 \<Rightarrow> component_latency" where
  "cl_add l n = l\<lparr>m_fixed_cycle_latency := m_fixed_cycle_latency l + n\<rparr>"

section \<open>Component times\<close>

record component_time =
  ct_period :: UInt64
  ct_time :: UInt64

definition ComponentTime :: "UInt64 \<Rightarrow> component_time" where
  "ComponentTime period = \<lparr>ct_period = period, ct_time = 0\<rparr>"

definition addCycleLatency :: "UInt64 \<Rightarrow> component_time \<Rightarrow> component_time" where
  "addCycleLatency num_cycles c = c\<lparr>ct_time := ct_time c + ct_period c * num_cycles\<rparr>"

definition addLatency :: "UInt64 \<Rightarrow> component_time \<Rightarrow> component_time" where
  "addLatency time_to_add c = c\<lparr>ct_time := ct_time c + time_to_add\<rparr>"

definition addLatency_component :: "component_time \<Rightarrow> component_time \<Rightarrow> component_time result" where
  "addLatency_component time_to_add c =
     bindE (assertE (ct_period time_to_add = ct_period c) (ASSERT ''time_to_add.m_period == this->m_period'')) (\<lambda>_.
       Inr (addLatency (ct_time time_to_add) c))"

definition ct_reset :: "component_time \<Rightarrow> component_time" where
  "ct_reset c = c\<lparr>ct_time := 0\<rparr>"

definition getLatencyGenerator :: "component_time \<Rightarrow> component_time" where
  "getLatencyGenerator c = ComponentTime (ct_period c)"

definition ct_getCycleCount :: "component_time \<Rightarrow> UInt64 result" where
  "ct_getCycleCount c = divideRounded (ct_time c) (ct_period c)"

definition ct_setElapsedTime :: "UInt64 \<Rightarrow> component_time \<Rightarrow> component_time" where
  "ct_setElapsedTime new_time c = c\<lparr>ct_time := new_time\<rparr>"

section \<open>Properties\<close>

lemma unat_mult_small: "unat a * unat b < 2 ^ 64 \<Longrightarrow> unat ((a :: UInt64) * b) = unat a * unat b"
  by (simp add: unat_mult_lem [THEN iffD1])

lemma divideRounded_eq:
  assumes "3 \<le> unat p" "unat n * unat p + unat p < 2 ^ 64"
  shows "divideRounded (n * p) p = Inr n"
proof -
  have np: "unat (n * p) = unat n * unat p" using assms(2) by (intro unat_mult_small) simp
  have h: "unat (p div 2 + 1) = unat p div 2 + 1"
    using assms by (simp add: unat_div unat_plus_simple [THEN iffD1] no_olen_add_nat)
  have "unat (n * p + (p div 2 + 1)) = unat n * unat p + (unat p div 2 + 1)"
    using assms np h by (subst unat_plus_simple [THEN iffD1]) (auto simp: no_olen_add_nat)
  moreover have "(unat n * unat p + (unat p div 2 + 1)) div unat p = unat n + (unat p div 2 + 1) div unat p"
    using assms(1) by (intro div_mult_self3) simp
  moreover have "(unat p div 2 + 1) div unat p = 0" using assms(1) by (intro div_less) linarith
  ultimately have "unat ((n * p + (p div 2 + 1)) div p) = unat n" by (simp only: unat_div add_0_right)
  then show ?thesis using assms(1) by (auto simp: divideRounded_def divideE_def word_unat_eq_iff)
qed

text \<open>
  The cycle count of a component is exact: for a period of at least three femtoseconds, the cycles added
  are the cycles counted, however many additions they came in, as long as the time plus one period fits 64 bits.
\<close>

theorem cycle_count_roundtrip:
  assumes "3 \<le> unat p" "sum_list (map unat ns) * unat p + unat p < 2 ^ 64"
  shows "ct_getCycleCount (foldl (\<lambda>c n. addCycleLatency n c) (ComponentTime p) ns) = Inr (sum_list ns)"
proof -
  have f: "foldl (\<lambda>c n. addCycleLatency n c) c ns = c\<lparr>ct_time := ct_time c + ct_period c * sum_list ns\<rparr>" for c
    by (induction ns arbitrary: c) (auto simp: addCycleLatency_def algebra_simps)
  have "unat (sum_list ns) = sum_list (map unat ns)"
  proof -
    have "sum_list (map unat ns) * 1 \<le> sum_list (map unat ns) * unat p" using assms(1) by (intro mult_le_mono2) simp
    then have "sum_list (map unat ns) < 2 ^ 64" using assms(2) by linarith
    then show ?thesis
      by (induction ns) (auto simp: unat_plus_simple [THEN iffD1] no_olen_add_nat)
  qed
  then show ?thesis
    using divideRounded_eq [of p "sum_list ns"] assms
    by (simp add: f ct_getCycleCount_def ComponentTime_def mult.commute)
qed

theorem cycle_count_roundtrip_witness:
  "ct_getCycleCount (foldl (\<lambda>c n. addCycleLatency n c) (ComponentTime 500000) [7, 0, 12]) = Inr 19"
  using cycle_count_roundtrip [of 500000 "[7, 0, 12]"] by simp

text \<open>With a period of one or two femtoseconds the rounding adds a cycle.\<close>

lemma divideRounded_tiny_period: "divideRounded 0 1 = Inr 1" "divideRounded 0 2 = Inr 1"
  by (simp_all add: divideRounded_def divideE_def)

end
