(* ===== verification/Queue_Models.thy ===== *)
theory Queue_Models
  imports Contention_Model Subsecond_Time
begin

text \<open>
  The models of queueing delay of \<^verbatim>\<open>performance_model/queue_model*.{h,cc}\<close> and the moving averages of
  \<^verbatim>\<open>misc/moving_average.h\<close> they use. Every model answers the question how long a packet that arrives at some
  time and needs some processing time has to wait. Times are 64-bit words that wrap around. The window of a
  moving average is a ring buffer of one more slot than the window size; its \<^verbatim>\<open>ModuloNum\<close> indices are natural
  numbers below that length. The geometric mean (a floating point power) and the formula of the M/G/1 model
  (floating point) are parameters.
\<close>

section \<open>Moving averages\<close>

datatype avg_type = ARITHMETIC_MEAN | GEOMETRIC_MEAN | MEDIAN

record moving_average =
  m_avg_type :: avg_type
  m_num_list :: "UInt64 list"
  m_max_window_size :: nat
  m_window_front :: nat
  m_window_back :: nat
  m_sum :: UInt64

definition createAvgType :: "avg_type \<Rightarrow> nat \<Rightarrow> moving_average" where
  "createAvgType ty max_window_size =
     \<lparr>m_avg_type = ty, m_num_list = replicate (max_window_size + 1) 0, m_max_window_size = max_window_size,
      m_window_front = 0, m_window_back = 0, m_sum = 0\<rparr>"

definition parseAvgType :: "string \<Rightarrow> avg_type result" where
  "parseAvgType s =
     (if s = ''arithmetic_mean'' then Inr ARITHMETIC_MEAN
      else if s = ''geometric_mean'' then Inr GEOMETRIC_MEAN
      else if s = ''median'' then Inr MEDIAN
      else Inl (LOG_PRINT_ERROR ''Unsupported Average Type''))"

definition ring_step :: "nat \<Rightarrow> moving_average \<Rightarrow> nat" where
  "ring_step i a = (i + 1) mod (m_max_window_size a + 1)"

definition window_size :: "moving_average \<Rightarrow> nat" where
  "window_size a =
     (if m_window_front a \<le> m_window_back a then m_window_back a - m_window_front a
      else m_max_window_size a + 1 - m_window_front a + m_window_back a)"

definition addToWindow :: "UInt64 \<Rightarrow> moving_average \<Rightarrow> moving_average" where
  "addToWindow next_num a =
     (let a1 = a\<lparr>m_num_list := (m_num_list a)[m_window_back a := next_num], m_window_back := ring_step (m_window_back a) a\<rparr>
      in if m_window_back a1 = m_window_front a1 then a1\<lparr>m_window_front := ring_step (m_window_front a1) a1\<rparr> else a1)"

definition ma_update :: "UInt64 \<Rightarrow> moving_average \<Rightarrow> moving_average" where
  "ma_update next_num a =
     (case m_avg_type a of
        ARITHMETIC_MEAN \<Rightarrow>
          let s0 = (if window_size a = m_max_window_size a then m_sum a - m_num_list a ! m_window_front a else m_sum a)
          in addToWindow next_num (a\<lparr>m_sum := s0 + next_num\<rparr>)
      | _ \<Rightarrow> addToWindow next_num a)"

text \<open>The elements of the window, oldest first.\<close>

definition window :: "moving_average \<Rightarrow> UInt64 list" where
  "window a = map (\<lambda>i. m_num_list a ! ((m_window_front a + i) mod (m_max_window_size a + 1))) [0..<window_size a]"

definition ma_compute :: "(UInt64 list \<Rightarrow> UInt64) \<Rightarrow> moving_average \<Rightarrow> UInt64 result" where
  "ma_compute geometric a =
     (case m_avg_type a of
        ARITHMETIC_MEAN \<Rightarrow>
          if window_size a = 0 then Inl (UNDEFINED ''division by zero'') else Inr (m_sum a div of_nat (window_size a))
      | MEDIAN \<Rightarrow> Inr (m_num_list a ! ((m_window_front a + window_size a div 2) mod (m_max_window_size a + 1)))
      | GEOMETRIC_MEAN \<Rightarrow> Inr (geometric (window a)))"

section \<open>The basic model\<close>

record queue_model_basic =
  m_queue_time :: UInt64
  m_moving_average :: "moving_average option"

definition QueueModelBasic :: "bool \<Rightarrow> nat \<Rightarrow> string \<Rightarrow> queue_model_basic result" where
  "QueueModelBasic moving_avg_enabled moving_avg_window_size moving_avg_type_str =
     (if moving_avg_enabled
      then bindE (parseAvgType moving_avg_type_str) (\<lambda>ty.
             Inr \<lparr>m_queue_time = 0, m_moving_average = Some (createAvgType ty moving_avg_window_size)\<rparr>)
      else Inr \<lparr>m_queue_time = 0, m_moving_average = None\<rparr>)"

definition basic_computeQueueDelay ::
  "(UInt64 list \<Rightarrow> UInt64) \<Rightarrow> UInt64 \<Rightarrow> UInt64 \<Rightarrow> queue_model_basic \<Rightarrow> (UInt64 \<times> queue_model_basic) result" where
  "basic_computeQueueDelay geometric pkt_time processing_time q =
     bindE (case m_moving_average q of
              None \<Rightarrow> Inr (pkt_time, None)
            | Some a \<Rightarrow> let a1 = ma_update pkt_time a in bindE (ma_compute geometric a1) (\<lambda>r. Inr (r, Some a1)))
       (\<lambda>(ref_time, ma).
         Inr (if m_queue_time q > ref_time then m_queue_time q - ref_time else 0,
              \<lparr>m_queue_time = max (m_queue_time q) ref_time + processing_time, m_moving_average = ma\<rparr>))"

section \<open>The history list\<close>

record queue_model_history_list =
  m_min_processing_time :: UInt64
  m_max_free_interval_list_size :: nat
  m_free_interval_list :: "(UInt64 \<times> UInt64) list"
  m_utilized_time :: UInt64
  m_total_queue_delay :: UInt64
  m_average_delay :: moving_average
  m_analytical_model_enabled :: bool
  m_total_requests :: UInt64
  m_total_requests_using_analytical_model :: UInt64

definition QueueModelHistoryList :: "UInt64 \<Rightarrow> bool \<Rightarrow> nat \<Rightarrow> queue_model_history_list" where
  "QueueModelHistoryList min_processing_time analytical max_list_size =
     \<lparr>m_min_processing_time = min_processing_time, m_max_free_interval_list_size = max_list_size,
      m_free_interval_list = [(0, push_bit 63 1)], m_utilized_time = 0, m_total_queue_delay = 0,
      m_average_delay = createAvgType ARITHMETIC_MEAN max_list_size, m_analytical_model_enabled = analytical,
      m_total_requests = 0, m_total_requests_using_analytical_model = 0\<rparr>"

text \<open>The loop over the free intervals: the delay found, if any, and the list with the interval split.\<close>

fun allocate :: "UInt64 \<Rightarrow> UInt64 \<Rightarrow> UInt64 \<Rightarrow> (UInt64 \<times> UInt64) list \<Rightarrow> UInt64 option \<times> (UInt64 \<times> UInt64) list" where
  "allocate min_time pkt_time processing_time [] = (None, [])"
| "allocate min_time pkt_time processing_time ((f, s) # is) =
     (if f \<le> pkt_time \<and> pkt_time + processing_time \<le> s
      then (Some 0,
            (if min_time \<le> pkt_time - f then [(f, pkt_time)] else []) @
            (if min_time \<le> s - (pkt_time + processing_time) then [(pkt_time + processing_time, s)] else []) @ is)
      else if pkt_time < f
      then (Some (f - pkt_time),
            (if min_time \<le> s - (f + processing_time) then [(f + processing_time, s)] else []) @ is)
      else let (r, is') = allocate min_time pkt_time processing_time is in (r, (f, s) # is'))"

definition computeUsingHistoryList ::
  "UInt64 \<Rightarrow> UInt64 \<Rightarrow> queue_model_history_list \<Rightarrow> (UInt64 \<times> queue_model_history_list) result" where
  "computeUsingHistoryList pkt_time processing_time q =
     bindE (assertE (length (m_free_interval_list q) \<le> m_max_free_interval_list_size q)
       (LOG_ASSERT_ERROR ''Free Interval list size'')) (\<lambda>_.
       case allocate (m_min_processing_time q) pkt_time processing_time (m_free_interval_list q) of
         (None, _) \<Rightarrow> Inl (LOG_ASSERT_ERROR ''free interval not found'')
       | (Some queue_delay, l) \<Rightarrow>
           if queue_delay = - 1 then Inl (LOG_ASSERT_ERROR ''free interval not found'')
           else Inr (queue_delay,
             q\<lparr>m_free_interval_list := if length l > m_max_free_interval_list_size q then tl l else l\<rparr>))"

definition history_computeQueueDelay ::
  "(UInt64 list \<Rightarrow> UInt64) \<Rightarrow> UInt64 \<Rightarrow> UInt64 \<Rightarrow> queue_model_history_list \<Rightarrow> (UInt64 \<times> queue_model_history_list) result" where
  "history_computeQueueDelay geometric pkt_time processing_time q =
     (case m_free_interval_list q of
        [] \<Rightarrow> Inl (LOG_ASSERT_ERROR ''Free Interval list size < 1'')
      | oldest # _ \<Rightarrow>
          bindE
            (if m_analytical_model_enabled q \<and> pkt_time + processing_time \<le> fst oldest
             then bindE (ma_compute geometric (m_average_delay q)) (\<lambda>d.
                    Inr (d, q\<lparr>m_total_requests_using_analytical_model := m_total_requests_using_analytical_model q + 1\<rparr>))
             else bindE (computeUsingHistoryList pkt_time processing_time q) (\<lambda>(d, q1).
                    Inr (d, q1\<lparr>m_average_delay := ma_update d (m_average_delay q1)\<rparr>)))
            (\<lambda>(queue_delay, q2).
              Inr (queue_delay, q2\<lparr>m_utilized_time := m_utilized_time q2 + processing_time,
                                    m_total_requests := m_total_requests q2 + 1,
                                    m_total_queue_delay := m_total_queue_delay q2 + queue_delay\<rparr>)))"

section \<open>The windowed M/G/1 model\<close>

text \<open>The multimap \<^verbatim>\<open>m_window\<close> is a list sorted by the first component; an insertion goes behind equal keys.\<close>

record queue_model_windowed_mg1 =
  mg_window_size :: UInt64
  mg_window :: "(UInt64 \<times> UInt64) list"
  m_num_arrivals :: UInt64
  m_service_time_sum :: UInt64
  m_service_time_sum2 :: UInt64
  mg_total_requests :: UInt64
  mg_total_utilized_time :: UInt64
  mg_total_queue_delay :: UInt64

definition QueueModelWindowedMG1 :: "UInt64 \<Rightarrow> queue_model_windowed_mg1" where
  "QueueModelWindowedMG1 window_size_ns =
     \<lparr>mg_window_size = NS window_size_ns, mg_window = [], m_num_arrivals = 0, m_service_time_sum = 0,
      m_service_time_sum2 = 0, mg_total_requests = 0, mg_total_utilized_time = 0, mg_total_queue_delay = 0\<rparr>"

fun multimap_insert :: "UInt64 \<times> UInt64 \<Rightarrow> (UInt64 \<times> UInt64) list \<Rightarrow> (UInt64 \<times> UInt64) list" where
  "multimap_insert p [] = [p]"
| "multimap_insert p (q # qs) = (if fst q \<le> fst p then q # multimap_insert p qs else p # q # qs)"

definition addItem :: "UInt64 \<Rightarrow> UInt64 \<Rightarrow> queue_model_windowed_mg1 \<Rightarrow> queue_model_windowed_mg1" where
  "addItem pkt_time service_time q =
     q\<lparr>mg_window := multimap_insert (pkt_time, service_time) (mg_window q), m_num_arrivals := m_num_arrivals q + 1,
       m_service_time_sum := m_service_time_sum q + getPS service_time,
       m_service_time_sum2 := m_service_time_sum2 q + getPS service_time * getPS service_time\<rparr>"

fun remove_loop :: "UInt64 \<Rightarrow> (UInt64 \<times> UInt64) list \<Rightarrow> queue_model_windowed_mg1 \<Rightarrow> queue_model_windowed_mg1" where
  "remove_loop earliest_time [] q = q\<lparr>mg_window := []\<rparr>"
| "remove_loop earliest_time (e # es) q =
     (if fst e < earliest_time
      then remove_loop earliest_time es
             (q\<lparr>m_num_arrivals := m_num_arrivals q - 1, m_service_time_sum := m_service_time_sum q - getPS (snd e),
                m_service_time_sum2 := m_service_time_sum2 q - getPS (snd e) * getPS (snd e)\<rparr>)
      else q\<lparr>mg_window := e # es\<rparr>)"

definition removeItems :: "UInt64 \<Rightarrow> queue_model_windowed_mg1 \<Rightarrow> queue_model_windowed_mg1" where
  "removeItems earliest_time q = remove_loop earliest_time (mg_window q) q"

definition mg1_computeQueueDelay ::
  "(UInt64 \<Rightarrow> UInt64 \<Rightarrow> UInt64 \<Rightarrow> UInt64 \<Rightarrow> UInt64) \<Rightarrow> UInt64 \<Rightarrow> UInt64 \<Rightarrow> UInt64 \<Rightarrow> queue_model_windowed_mg1
     \<Rightarrow> UInt64 \<times> queue_model_windowed_mg1" where
  "mg1_computeQueueDelay formula global_time pkt_time processing_time q =
     (let q1 = removeItems (max (global_time - mg_window_size q) (pkt_time - 10 * mg_window_size q)) q;
          t_queue =
            (if m_num_arrivals q1 > 1
             then min (formula (m_num_arrivals q1) (m_service_time_sum q1) (m_service_time_sum2 q1) (mg_window_size q1))
                    (mg_window_size q1)
             else 0);
          q2 = addItem pkt_time processing_time q1
      in (t_queue, q2\<lparr>mg_total_requests := mg_total_requests q2 + 1,
                      mg_total_utilized_time := mg_total_utilized_time q2 + processing_time,
                      mg_total_queue_delay := mg_total_queue_delay q2 + t_queue\<rparr>))"

section \<open>The contention model as a queue model\<close>

definition contention_computeQueueDelay :: "UInt64 \<Rightarrow> UInt64 \<Rightarrow> contention_model \<Rightarrow> UInt64 \<times> contention_model" where
  "contention_computeQueueDelay pkt_time processing_time c =
     (let (t_complete, c1) = getCompletionTime pkt_time processing_time 0 c
      in (t_complete - pkt_time - processing_time, c1))"

section \<open>Construction and dispatch\<close>

datatype queue_model =
    Basic queue_model_basic
  | HistoryList queue_model_history_list
  | Contention contention_model
  | WindowedMG1 queue_model_windowed_mg1

record queue_cfg =
  moving_avg_enabled :: bool
  moving_avg_window_size :: nat
  moving_avg_type :: string
  analytical_model_enabled :: bool
  history_max_list_size :: nat
  mg1_window_ns :: UInt64
  cfg_core_period :: UInt64

definition QueueModel_create :: "queue_cfg \<Rightarrow> string \<Rightarrow> UInt64 \<Rightarrow> queue_model result" where
  "QueueModel_create cfg model_type min_processing_time =
     (if model_type = ''basic''
      then bindE (QueueModelBasic (moving_avg_enabled cfg) (moving_avg_window_size cfg) (moving_avg_type cfg)) (\<lambda>q. Inr (Basic q))
      else if model_type = ''history_list''
      then Inr (HistoryList (QueueModelHistoryList min_processing_time (analytical_model_enabled cfg) (history_max_list_size cfg)))
      else if model_type = ''contention'' then Inr (Contention (ContentionModel 1 (cfg_core_period cfg)))
      else if model_type = ''windowed_mg1'' then Inr (WindowedMG1 (QueueModelWindowedMG1 (mg1_window_ns cfg)))
      else Inl (LOG_PRINT_ERROR ''Unrecognized Queue Model Type''))"

text \<open>The virtual call, with the floating point functions and the global time as one environment.\<close>

record queue_env =
  geometric_mean_of :: "UInt64 list \<Rightarrow> UInt64"
  mg1_formula :: "UInt64 \<Rightarrow> UInt64 \<Rightarrow> UInt64 \<Rightarrow> UInt64 \<Rightarrow> UInt64"
  queue_global_time :: UInt64

definition computeQueueDelay :: "queue_env \<Rightarrow> UInt64 \<Rightarrow> UInt64 \<Rightarrow> queue_model \<Rightarrow> (UInt64 \<times> queue_model) result" where
  "computeQueueDelay env pkt_time processing_time q =
     (case q of
        Basic b \<Rightarrow> bindE (basic_computeQueueDelay (geometric_mean_of env) pkt_time processing_time b) (\<lambda>(d, b1). Inr (d, Basic b1))
      | HistoryList h \<Rightarrow>
          bindE (history_computeQueueDelay (geometric_mean_of env) pkt_time processing_time h) (\<lambda>(d, h1). Inr (d, HistoryList h1))
      | Contention c \<Rightarrow> let (d, c1) = contention_computeQueueDelay pkt_time processing_time c in Inr (d, Contention c1)
      | WindowedMG1 g \<Rightarrow>
          let (d, g1) = mg1_computeQueueDelay (mg1_formula env) (queue_global_time env) pkt_time processing_time g
          in Inr (d, WindowedMG1 g1))"

end
