(* ===== verification/Queue_Properties.thy ===== *)
theory Queue_Properties
  imports Queue_Models
begin

text \<open>
  What the queue models guarantee: a moving average is the mean of the last entries, the history list books the
  resource at most once at any time as long as requests fit the interval they get, it always finds an
  interval, and the M/G/1 window keeps its sums. Two consequences of wrap-around are shown as well.
\<close>

section \<open>The ring buffer of a moving average\<close>

lemma ring_inj:
  fixes f :: nat
  assumes "(f + i) mod N = (f + j) mod N" "i < N" "j < N"
  shows "i = j"
proof -
  have "a = b" if "a \<le> b" "(f + b) mod N = (f + a) mod N" "b < N" for a b
  proof -
    have "N dvd b - a" using that(1,2) mod_eq_dvd_iff_nat [of "f + a" "f + b" N] by simp
    then show ?thesis using that(1,3) by (metis diff_is_0_eq dvd_imp_le gr0I le_antisym less_imp_diff_less linorder_not_less)
  qed
  then show ?thesis using assms by (metis nat_le_linear)
qed

definition ring_ok :: "moving_average \<Rightarrow> bool" where
  "ring_ok a \<longleftrightarrow> 0 < m_max_window_size a \<and> m_window_front a \<le> m_max_window_size a \<and> m_window_back a \<le> m_max_window_size a \<and>
     length (m_num_list a) = m_max_window_size a + 1"

lemma ring_back: "ring_ok a \<Longrightarrow> m_window_back a = (m_window_front a + window_size a) mod (m_max_window_size a + 1) \<and> window_size a \<le> m_max_window_size a"
  by (auto simp: ring_ok_def window_size_def mod_if)

lemma window_size_eq:
  assumes "f \<le> W" "k \<le> W"
  shows "(if f \<le> (f + k) mod (W + 1) then (f + k) mod (W + 1) - f else W + 1 - f + (f + k) mod (W + 1)) = (k :: nat)"
proof (cases "f + k \<le> W")
  case False
  then have "(f + k) mod (W + 1) = f + k - (W + 1)" using assms by (simp add: mod_if)
  then show ?thesis using False assms by auto
qed (use assms in simp)

definition win :: "'a list \<Rightarrow> nat \<Rightarrow> nat \<Rightarrow> nat \<Rightarrow> 'a list" where
  "win l f k N = map (\<lambda>i. l ! ((f + i) mod N)) [0..<k]"

lemma win_mod: "win l (f mod N) k N = win l f k N"
  by (simp add: win_def mod_simps)

lemma win_tl: "tl (win l f (Suc k) N) = win l (Suc f) k N"
  by (simp add: win_def upt_conv_Cons map_Suc_upt [symmetric] comp_def del: upt_Suc)

lemma win_push:
  assumes "k < N" "length l = N"
  shows "win (l[(f + k) mod N := x]) f (Suc k) N = win l f k N @ [x]"
proof -
  have "(f + i) mod N \<noteq> (f + k) mod N" if "i < k" for i using ring_inj [of f i N k] that assms(1) by auto
  then have "map (\<lambda>i. l[(f + k) mod N := x] ! ((f + i) mod N)) [0..<k] = map (\<lambda>i. l ! ((f + i) mod N)) [0..<k]"
    by (intro map_cong refl nth_list_update_neq) (metis atLeastLessThan_iff set_upt)
  then show ?thesis using assms by (simp add: win_def)
qed

lemma window_win: "window a = win (m_num_list a) (m_window_front a) (window_size a) (m_max_window_size a + 1)"
  by (simp add: window_def win_def)

lemma window_length [simp]: "length (window a) = window_size a"
  by (simp add: window_def)

lemma window_add:
  assumes "ring_ok a"
  shows "ring_ok (addToWindow x a) \<and> m_max_window_size (addToWindow x a) = m_max_window_size a \<and>
    m_sum (addToWindow x a) = m_sum a \<and> m_avg_type (addToWindow x a) = m_avg_type a \<and>
    window (addToWindow x a) = (if window_size a = m_max_window_size a then tl (window a) else window a) @ [x]"
proof -
  define f where "f = m_window_front a"
  define W where "W = m_max_window_size a"
  define k where "k = window_size a"
  note d = f_def [symmetric] W_def [symmetric] k_def [symmetric]
  have r: "0 < W" "f \<le> W" "k \<le> W" "length (m_num_list a) = W + 1" "m_window_back a = (f + k) mod (W + 1)"
    using assms ring_back [OF assms] by (auto simp: ring_ok_def d)
  have step: "ring_step (m_window_back a) a = (f + k + 1) mod (W + 1)"
    using r(5) by (simp add: ring_step_def d mod_Suc_eq)
  have full: "(f + k + 1) mod (W + 1) = f \<longleftrightarrow> k = W"
  proof
    assume "(f + k + 1) mod (W + 1) = f"
    then have "(f + (k + 1)) mod (W + 1) = (f + 0) mod (W + 1)" using r(2) by simp
    then show "k = W" using ring_inj [of f "k + 1" "W + 1" 0] r(3) by (cases "k = W") auto
  next
    assume "k = W"
    then show "(f + k + 1) mod (W + 1) = f" using r(2) mod_add_self2 [of f "W + 1"] by (simp add: add.assoc del: mod_add_self2)
  qed
  have wa: "window a = win (m_num_list a) f k (W + 1)" by (simp add: window_win d)
  show ?thesis
  proof (cases "k = W")
    case True
    let ?a = "a\<lparr>m_num_list := (m_num_list a)[(f + k) mod (W + 1) := x], m_window_back := f, m_window_front := (f + 1) mod (W + 1)\<rparr>"
    have e: "addToWindow x a = ?a" using step full True r by (simp add: addToWindow_def ring_step_def d Let_def)
    have s: "window_size ?a = W"
      using r(2) by (cases "f = W") (auto simp: window_size_def d)
    obtain j where j: "k = Suc j" using True r(1) by (cases k) auto
    have "window ?a = win ((m_num_list a)[(f + k) mod (W + 1) := x]) (Suc f) k (W + 1)"
      using s True by (simp add: window_win d win_mod)
    also have "\<dots> = tl (win (m_num_list a) f k (W + 1) @ [x])"
      using win_push [of k "W + 1" "m_num_list a" f x] r by (simp flip: win_tl)
    also have "\<dots> = tl (window a) @ [x]" unfolding wa by (rule tl_append2) (simp add: j win_def)
    finally show ?thesis using e True r by (auto simp: ring_ok_def d)
  next
    case False
    let ?a = "a\<lparr>m_num_list := (m_num_list a)[(f + k) mod (W + 1) := x], m_window_back := (f + k + 1) mod (W + 1)\<rparr>"
    have e: "addToWindow x a = ?a" using step full False r by (simp add: addToWindow_def d Let_def)
    have s: "window_size ?a = k + 1"
      using window_size_eq [of f W "k + 1"] r(2,3) False by (auto simp: window_size_def d)
    have "window ?a = window a @ [x]"
      using win_push [of k "W + 1" "m_num_list a" f x] r s by (simp add: window_win d)
    then show ?thesis using e False r by (auto simp: ring_ok_def d less_Suc_eq_le intro: order.trans [OF _ less_imp_le])
  qed
qed

text \<open>The state reached from a fresh average by a list of updates, oldest first.\<close>

definition lastn :: "nat \<Rightarrow> 'a list \<Rightarrow> 'a list" where
  "lastn n xs = drop (length xs - n) xs"

lemma lastn_snoc: "0 < n \<Longrightarrow> lastn n (xs @ [x]) = (if length (lastn n xs) = n then tl (lastn n xs) else lastn n xs) @ [x]"
  by (auto simp: lastn_def Suc_diff_le drop_Suc tl_drop)

lemma sum_list_tl: "xs \<noteq> [] \<Longrightarrow> sum_list (tl xs) = sum_list xs - (hd xs :: UInt64)"
  by (cases xs) auto

lemma ma_updates:
  assumes "0 < W" "a = foldl (\<lambda>a x. ma_update x a) (createAvgType ARITHMETIC_MEAN W) xs"
  shows "ring_ok a \<and> m_max_window_size a = W \<and> m_avg_type a = ARITHMETIC_MEAN \<and> window a = lastn W xs \<and> m_sum a = sum_list (lastn W xs)"
  using assms(2)
proof (induction xs arbitrary: a rule: rev_induct)
  case Nil
  then show ?case using assms(1) by (simp add: createAvgType_def ring_ok_def window_def window_size_def lastn_def)
next
  case (snoc x xs)
  define b where "b = foldl (\<lambda>a x. ma_update x a) (createAvgType ARITHMETIC_MEAN W) xs"
  have b: "ring_ok b" "m_max_window_size b = W" "m_avg_type b = ARITHMETIC_MEAN" "window b = lastn W xs" "m_sum b = sum_list (lastn W xs)"
    using snoc.IH [OF b_def] by auto
  have k: "window_size b = length (lastn W xs)" using b(4) window_length [of b] by simp
  define s where "s = (if window_size b = W then m_sum b - m_num_list b ! m_window_front b else m_sum b) + x"
  have ok: "ring_ok (b\<lparr>m_sum := s\<rparr>)" and ws: "window_size (b\<lparr>m_sum := z\<rparr>) = window_size b" "window (b\<lparr>m_sum := z\<rparr>) = window b" for z
    using b(1) by (simp_all add: ring_ok_def window_size_def window_def)
  have "a = ma_update x b" using snoc.prems by (simp add: b_def)
  then have a: "a = addToWindow x (b\<lparr>m_sum := s\<rparr>)" using b(2,3) by (simp add: ma_update_def s_def Let_def)
  have "m_num_list b ! m_window_front b = hd (window b)" if "window_size b = W"
    using that assms(1) b(1,2) by (simp add: window_def ring_ok_def hd_map upt_conv_Cons)
  then have "s = sum_list ((if window_size b = W then tl (lastn W xs) else lastn W xs) @ [x])"
    using b(4,5) k assms(1) sum_list_tl [of "lastn W xs"] by (cases "lastn W xs") (auto simp: s_def)
  then show ?case
    using window_add [OF ok, of x] b lastn_snoc [OF assms(1), of xs x] k unfolding a by (simp add: ws)
qed

section \<open>The M/G/1 window\<close>

definition mg1_sums :: "(UInt64 \<times> UInt64) list \<Rightarrow> queue_model_windowed_mg1 \<Rightarrow> bool" where
  "mg1_sums l q \<longleftrightarrow> sorted (map fst l) \<and> m_num_arrivals q = of_nat (length l) \<and>
     m_service_time_sum q = sum_list (map (getPS \<circ> snd) l) \<and>
     m_service_time_sum2 q = sum_list (map (\<lambda>p. getPS (snd p) * getPS (snd p)) l)"

definition mg1_ok :: "queue_model_windowed_mg1 \<Rightarrow> bool" where
  "mg1_ok q \<longleftrightarrow> mg1_sums (mg_window q) q"

lemma multimap_insert_facts:
  "set (multimap_insert p l) = insert p (set l)" "length (multimap_insert p l) = Suc (length l)"
  "sorted (map fst l) \<Longrightarrow> sorted (map fst (multimap_insert p l))"
  "sum_list (map (g :: _ \<Rightarrow> UInt64) (multimap_insert p l)) = g p + sum_list (map g l)"
proof -
  show 1: "set (multimap_insert p l) = insert p (set l)" for l by (induction l) auto
  show "sorted (map fst l) \<Longrightarrow> sorted (map fst (multimap_insert p l))" by (induction l) (auto simp: 1)
qed (induction l; simp)+

lemma addItem_ok: "mg1_ok q \<Longrightarrow> mg1_ok (addItem t d q)"
  by (simp add: mg1_ok_def mg1_sums_def addItem_def multimap_insert_facts comp_def add.commute)

lemma remove_loop_ok:
  "mg1_sums l q \<Longrightarrow> mg1_ok (remove_loop t l q) \<and> mg_window (remove_loop t l q) = dropWhile (\<lambda>p. fst p < t) l \<and>
    mg_window_size (remove_loop t l q) = mg_window_size q"
proof (induction l arbitrary: q)
  case (Cons e l)
  show ?case
  proof (cases "fst e < t")
    case True
    have "mg1_sums l (q\<lparr>m_num_arrivals := m_num_arrivals q - 1, m_service_time_sum := m_service_time_sum q - getPS (snd e),
        m_service_time_sum2 := m_service_time_sum2 q - getPS (snd e) * getPS (snd e)\<rparr>)"
      using Cons.prems by (simp add: mg1_sums_def)
    from Cons.IH [OF this] True show ?thesis by simp
  next
    case False
    then show ?thesis using Cons.prems by (simp add: mg1_ok_def mg1_sums_def)
  qed
qed (simp add: mg1_ok_def mg1_sums_def)

lemma removeItems_ok:
  assumes "mg1_ok q"
  shows "mg1_ok (removeItems t q)" "mg_window (removeItems t q) = dropWhile (\<lambda>p. fst p < t) (mg_window q)"
  using assms remove_loop_ok [of "mg_window q" q t] unfolding mg1_ok_def removeItems_def by blast+

section \<open>The free intervals of the history list\<close>

fun chain :: "nat \<Rightarrow> nat \<Rightarrow> (UInt64 \<times> UInt64) list \<Rightarrow> bool" where
  "chain lo m [] = True"
| "chain lo m ((f, s) # is) = (lo \<le> unat f \<and> unat f + m \<le> unat s \<and> unat s \<le> 2 ^ 63 \<and> chain (unat s) m is)"

definition free_times :: "(UInt64 \<times> UInt64) list \<Rightarrow> nat set" where
  "free_times l = (\<Union>(f, s) \<in> set l. {unat f ..< unat s})"

lemma free_times_simps [simp]:
  "free_times [] = {}" "free_times ((f, s) # l) = {unat f ..< unat s} \<union> free_times l"
  "free_times (l @ l') = free_times l \<union> free_times l'"
  by (auto simp: free_times_def)

lemma chain_mono: "chain lo m l \<Longrightarrow> lo' \<le> lo \<Longrightarrow> chain lo' m l"
  by (cases "(lo, m, l)" rule: chain.cases) auto

lemma chain_free_times: "chain lo m l \<Longrightarrow> t \<in> free_times l \<Longrightarrow> lo \<le> t"
  by (induction lo m l rule: chain.induct) fastforce+

lemma chain_tl: "chain lo m l \<Longrightarrow> chain lo m (tl l)"
  by (cases "(lo, m, l)" rule: chain.cases) (auto intro: chain_mono)

lemma unat_add_63: "unat (a :: UInt64) \<le> 2 ^ 63 \<Longrightarrow> unat b < 2 ^ 63 \<Longrightarrow> unat (a + b) = unat a + unat b"
  by (simp add: unat_plus_simple [THEN iffD1] no_olen_add_nat)

lemma allocate_books:
  assumes "chain lo (unat m) l" "unat p \<le> 2 ^ 63" "unat d \<le> unat m" "unat m < 2 ^ 63"
    "allocate m p d l = (Some q, l')"
  shows "chain lo (unat m) l' \<and> {unat p + unat q ..< unat p + unat q + unat d} \<subseteq> free_times l \<and>
    free_times l' \<subseteq> free_times l - {unat p + unat q ..< unat p + unat q + unat d}"
  using assms
proof (induction m p d l arbitrary: lo l' rule: allocate.induct)
  case (2 m p d f s "is")
  have c: "lo \<le> unat f" "unat f + unat m \<le> unat s" "unat s \<le> 2 ^ 63" "chain (unat s) (unat m) is"
    using "2.prems"(1) by auto
  have pd: "unat (p + d) = unat p + unat d" and fd: "unat (f + d) = unat f + unat d"
    using "2.prems"(2,3,4) c by (auto intro!: unat_add_63)
  have rest: "unat s \<le> t" if "t \<in> free_times is" for t using chain_free_times [OF c(4) that] .
  consider (hit) "f \<le> p \<and> p + d \<le> s" | (wait) "\<not> (f \<le> p \<and> p + d \<le> s)" "p < f" | (skip) "\<not> (f \<le> p \<and> p + d \<le> s)" "\<not> p < f"
    by blast
  then show ?case
  proof cases
    case hit
    have q: "q = 0" and l': "l' = (if m \<le> p - f then [(f, p)] else []) @ (if m \<le> s - (p + d) then [(p + d, s)] else []) @ is"
      using "2.prems"(5) hit by auto
    have n: "unat f \<le> unat p" "unat p + unat d \<le> unat s" using hit pd by (auto simp: word_le_nat_alt)
    have "m \<le> p - f \<longleftrightarrow> unat f + unat m \<le> unat p" "m \<le> s - (p + d) \<longleftrightarrow> unat p + unat d + unat m \<le> unat s"
      using n hit pd by (auto simp: word_le_nat_alt unat_sub)
    then show ?thesis using n c pd q rest unfolding l'
      by (auto intro: chain_mono dest: rest)
  next
    case wait
    have q: "q = f - p" and l': "l' = (if m \<le> s - (f + d) then [(f + d, s)] else []) @ is"
      using "2.prems"(5) wait by auto
    have n: "unat p + unat q = unat f" "unat f + unat d \<le> unat s"
      using wait(2) c(2) "2.prems"(3) unfolding q by (auto simp: unat_sub word_less_nat_alt word_le_nat_alt)
    then have "m \<le> s - (f + d) \<longleftrightarrow> unat f + unat d + unat m \<le> unat s"
      using fd by (auto simp: word_le_nat_alt unat_sub)
    then show ?thesis using n c fd rest unfolding l'
      by (auto intro: chain_mono dest: rest)
  next
    case skip
    obtain l1 where l1: "allocate m p d is = (Some q, l1)" "l' = (f, s) # l1"
      using "2.prems"(5) skip by (auto split: prod.splits)
    from "2.IH" [OF skip c(4) "2.prems"(2,3,4) l1(1)] show ?thesis
      using c rest unfolding l1(2) by fastforce
  qed
qed simp

lemma allocate_found:
  assumes "chain lo (unat m) l" "l \<noteq> []" "last l = (x, push_bit 63 1)" "unat p + unat d + unat m \<le> 2 ^ 63"
    "unat x + unat d + unat m \<le> 2 ^ 63" "unat m < 2 ^ 63"
  shows "\<exists>q l' x'. allocate m p d l = (Some q, l') \<and> l' \<noteq> [] \<and> last l' = (x', push_bit 63 1) \<and>
    unat x' \<le> max (unat p) (unat x) + unat d \<and> unat q \<le> 2 ^ 63"
  using assms
proof (induction m p d l arbitrary: lo rule: allocate.induct)
  case (2 m p d f s "is")
  have c: "chain (unat s) (unat m) is" "unat f \<le> unat s" "unat s \<le> 2 ^ 63" using "2.prems"(1) by auto
  have pd: "unat (p + d) = unat p + unat d" and xd: "unat (x + d) = unat x + unat d"
    using "2.prems"(4,5) by (auto simp: unat_plus_simple [THEN iffD1] no_olen_add_nat)
  have big: "unat (push_bit 63 1 :: UInt64) = 2 ^ 63" by simp
  show ?case
  proof (cases "is = []")
    case True
    then have fs: "f = x" "s = push_bit 63 1" using "2.prems"(3) by auto
    have "p + d \<le> s" using "2.prems"(4) pd big unfolding fs by (simp add: word_le_nat_alt)
    moreover have "m \<le> s - (p + d)" "m \<le> s - (x + d)"
      using "2.prems"(4,5) pd xd big unfolding fs by (auto simp: word_le_nat_alt unat_sub)
    moreover have "unat (x - p) \<le> 2 ^ 63" if "p < x"
      using that "2.prems"(5) by (simp add: unat_sub word_less_nat_alt word_le_nat_alt)
    ultimately show ?thesis using True fs pd xd by (auto simp: max_def not_le)
  next
    case False
    then have l: "last is = (x, push_bit 63 1)" using "2.prems"(3) by simp
    show ?thesis
    proof (cases "f \<le> p \<and> p + d \<le> s \<or> p < f")
      case True
      moreover have "unat (f - p) \<le> 2 ^ 63" if "p < f"
        using that c(2,3) by (simp add: unat_sub word_less_nat_alt word_le_nat_alt)
      ultimately show ?thesis using False l by (auto simp: max_def)
    next
      case no: False
      then have "\<not> (f \<le> p \<and> p + d \<le> s)" "\<not> p < f" by auto
      from "2.IH" [OF this c(1) False l "2.prems"(4,5,6)] no show ?thesis by fastforce
    qed
  qed
qed simp

text \<open>Requests served one after the other: the times at which the resource is in use, as natural numbers.\<close>

fun history_run :: "(UInt64 \<times> UInt64) list \<Rightarrow> queue_model_history_list \<Rightarrow> (nat \<times> nat) list result" where
  "history_run [] q = Inr []"
| "history_run ((p, d) # rs) q =
     bindE (history_computeQueueDelay (\<lambda>_. 0) p d q) (\<lambda>(delay, q1).
       bindE (history_run rs q1) (\<lambda>ss. Inr ((unat p + unat delay, unat p + unat delay + unat d) # ss)))"

definition service :: "nat \<times> nat \<Rightarrow> nat set" where
  "service u = {fst u ..< snd u}"

definition history_ok :: "nat \<Rightarrow> queue_model_history_list \<Rightarrow> bool" where
  "history_ok P q \<longleftrightarrow> (let l = m_free_interval_list q in
     chain 0 (unat (m_min_processing_time q)) l \<and> l \<noteq> [] \<and> length l \<le> m_max_free_interval_list_size q \<and>
     snd (last l) = push_bit 63 1 \<and> unat (fst (last l)) \<le> P \<and> unat (m_min_processing_time q) < 2 ^ 63 \<and>
     \<not> m_analytical_model_enabled q)"

lemma history_step:
  assumes "history_ok P q" "unat p \<le> P" "unat d \<le> unat (m_min_processing_time q)"
    "P + unat d + unat (m_min_processing_time q) \<le> 2 ^ 63"
  shows "\<exists>delay q1. history_computeQueueDelay g p d q = Inr (delay, q1) \<and> history_ok (P + unat d) q1 \<and>
    m_min_processing_time q1 = m_min_processing_time q \<and>
    {unat p + unat delay ..< unat p + unat delay + unat d} \<subseteq> free_times (m_free_interval_list q) \<and>
    free_times (m_free_interval_list q1) \<subseteq> free_times (m_free_interval_list q) - {unat p + unat delay ..< unat p + unat delay + unat d}"
proof -
  define l where "l = m_free_interval_list q"
  obtain x where x: "last l = (x, push_bit 63 1)" using assms(1) unfolding history_ok_def Let_def l_def by (metis prod.collapse)
  have h: "chain 0 (unat (m_min_processing_time q)) l" "l \<noteq> []" "length l \<le> m_max_free_interval_list_size q" "unat x \<le> P"
    "unat (m_min_processing_time q) < 2 ^ 63" "\<not> m_analytical_model_enabled q"
    using assms(1) x by (auto simp: history_ok_def l_def Let_def)
  obtain delay l' x' where a: "allocate (m_min_processing_time q) p d l = (Some delay, l')" "l' \<noteq> []"
    "last l' = (x', push_bit 63 1)" "unat x' \<le> max (unat p) (unat x) + unat d" "unat delay \<le> 2 ^ 63"
    using allocate_found [OF h(1,2) x, of p d] h assms by fastforce
  have b: "chain 0 (unat (m_min_processing_time q)) l'" "{unat p + unat delay ..< unat p + unat delay + unat d} \<subseteq> free_times l"
    "free_times l' \<subseteq> free_times l - {unat p + unat delay ..< unat p + unat delay + unat d}"
    using allocate_books [OF h(1) _ assms(3) h(5) a(1)] assms(2,4) by auto
  define l2 where "l2 = (if length l' > m_max_free_interval_list_size q then tl l' else l')"
  have l2: "chain 0 (unat (m_min_processing_time q)) l2" "free_times l2 \<subseteq> free_times l'"
    using chain_tl [OF b(1)] b(1) by (auto simp: l2_def free_times_def dest: list.set_sel(2) [OF a(2)])
  have len: "length l' \<le> Suc (length l)" using a(1)
  proof (induction "m_min_processing_time q" p d l arbitrary: l' rule: allocate.induct)
    case (2 p d f s "is")
    then show ?case by (force split: if_splits prod.splits)
  qed simp
  have l2': "l2 \<noteq> []" "length l2 \<le> m_max_free_interval_list_size q" "last l2 = (x', push_bit 63 1)"
  proof -
    obtain y ys where "l' = y # ys" using a(2) by (cases l') auto
    moreover have "0 < m_max_free_interval_list_size q" using h(2,3) by (cases l) auto
    ultimately show "l2 \<noteq> []" "length l2 \<le> m_max_free_interval_list_size q" "last l2 = (x', push_bit 63 1)"
      using a(3) len h(3) by (auto simp: l2_def split: if_splits)
  qed
  have "delay \<noteq> - 1" using a(5) by (auto simp: unsigned_minus_1_eq_mask mask_eq_exp_minus_1)
  then have "computeUsingHistoryList p d q = Inr (delay, q\<lparr>m_free_interval_list := l2\<rparr>)"
    using h(3) a(1) unfolding computeUsingHistoryList_def l_def [symmetric] by (simp add: l2_def)
  then show ?thesis
    using h a(4) b l2 l2' assms(2) unfolding history_computeQueueDelay_def l_def [symmetric]
    by (cases l) (auto simp: history_ok_def Let_def)
qed

lemma history_run_disjoint:
  assumes "history_ok P q" "list_all (\<lambda>(p, d). unat p \<le> P \<and> unat d \<le> unat (m_min_processing_time q)) rs"
    "P + sum_list (map (unat \<circ> snd) rs) + unat (m_min_processing_time q) \<le> 2 ^ 63"
  shows "\<exists>ss. history_run rs q = Inr ss \<and> length ss = length rs \<and> list_all (\<lambda>u. service u \<subseteq> free_times (m_free_interval_list q)) ss \<and>
    sorted_wrt (\<lambda>u v. service u \<inter> service v = {}) ss"
  using assms
proof (induction rs arbitrary: q P)
  case (Cons r rs)
  obtain p d where r: "r = (p, d)" by fastforce
  obtain delay q1 where h: "history_computeQueueDelay (\<lambda>_. 0) p d q = Inr (delay, q1)" "history_ok (P + unat d) q1"
    "m_min_processing_time q1 = m_min_processing_time q"
    "{unat p + unat delay ..< unat p + unat delay + unat d} \<subseteq> free_times (m_free_interval_list q)"
    "free_times (m_free_interval_list q1) \<subseteq> free_times (m_free_interval_list q) - {unat p + unat delay ..< unat p + unat delay + unat d}"
    using history_step [OF Cons.prems(1), of p d "\<lambda>_. 0"] Cons.prems(2,3) by (auto simp: r)
  obtain ss where ss: "history_run rs q1 = Inr ss" "length ss = length rs"
    "list_all (\<lambda>u. service u \<subseteq> free_times (m_free_interval_list q1)) ss" "sorted_wrt (\<lambda>u v. service u \<inter> service v = {}) ss"
    using Cons.IH [OF h(2)] Cons.prems(2,3) h(3) by (force simp: r list_all_iff)
  have new: "service (unat p + unat delay, unat p + unat delay + unat d) = {unat p + unat delay ..< unat p + unat delay + unat d}"
    by (simp add: service_def)
  show ?case using ss h(1,4,5) unfolding new [symmetric] by (auto simp: r list_all_iff)
qed simp

text \<open>
  C35: A fresh history-list queue with the analytical model switched off answers every request and books no
  instant of the resource twice, provided no request needs more than the minimum processing time the queue was
  built with and the latest arrival plus all the processing time stays within the simulated range of \<open>2 ^ 63\<close>
  femtoseconds; requests may arrive out of order.
\<close>

theorem history_list_no_double_booking:
  assumes "0 < max_list_size" "unat m < 2 ^ 63"
    "list_all (\<lambda>(p, d). unat p \<le> P \<and> unat d \<le> unat m) rs" "P + sum_list (map (unat \<circ> snd) rs) + unat m \<le> 2 ^ 63"
  shows "\<exists>ss. history_run rs (QueueModelHistoryList m False max_list_size) = Inr ss \<and> length ss = length rs \<and>
    sorted_wrt (\<lambda>u v. service u \<inter> service v = {}) ss"
proof -
  let ?q = "QueueModelHistoryList m False max_list_size"
  have "history_ok P ?q" using assms(1,2) by (simp add: history_ok_def QueueModelHistoryList_def)
  moreover have "m_min_processing_time ?q = m" by (simp add: QueueModelHistoryList_def)
  ultimately show ?thesis using history_run_disjoint [of P ?q rs] assms(3,4) by auto
qed

theorem history_list_no_double_booking_witness:
  "\<exists>ss. history_run [(20, 5), (0, 5), (18, 4), (17, 5)] (QueueModelHistoryList 5 False 3) = Inr ss \<and> length ss = length [20, 0, 18, 17 :: nat] \<and>
    sorted_wrt (\<lambda>u v. service u \<inter> service v = {}) ss"
  using history_list_no_double_booking [of 3 5 20 "[(20, 5), (0, 5), (18, 4), (17, 5)]"] by (simp del: history_run.simps)

text \<open>
  The guard for a request that fits is missing where the request arrives before a free interval. A queue with
  minimum processing time 1 that serves a long request in front of an earlier one books the same instants twice:
  the gap of two units that is left is given to a request of five units, the free length wraps around and the
  inverted interval stays in the list.
\<close>

theorem history_list_inverted_interval:
  "history_run [(12, 88), (0, 10), (0, 5)] (QueueModelHistoryList 1 False 8) = Inr [(12, 100), (0, 10), (10, 15)] \<and>
    14 \<in> service (12, 100) \<inter> service (10, 15) \<and>
    allocate 1 0 5 [(10, 12), (100, push_bit 63 1)] = (Some 10, [(15, 12), (100, push_bit 63 1)])"
proof (intro conjI)
  show "history_run [(12, 88), (0, 10), (0, 5)] (QueueModelHistoryList 1 False 8) = Inr [(12, 100), (0, 10), (10, 15)]"
    by code_simp
  show "allocate 1 0 5 [(10, 12), (100, push_bit 63 1)] = (Some 10, [(15, 12), (100, push_bit 63 1)])" by code_simp
qed (simp add: service_def)

text \<open>
  An arithmetic moving average of window size \<open>W\<close> computes the sum of the last \<open>W\<close> numbers (all numbers, when
  there are fewer) divided by how many they are, in 64-bit arithmetic; its ring buffer holds exactly those numbers.
\<close>

theorem moving_average_is_mean_of_last:
  assumes "0 < W" "xs \<noteq> []"
  shows "ma_compute g (foldl (\<lambda>a x. ma_update x a) (createAvgType ARITHMETIC_MEAN W) xs) =
    Inr (sum_list (drop (length xs - W) xs) div of_nat (min W (length xs)))"
proof -
  define a where "a = foldl (\<lambda>a x. ma_update x a) (createAvgType ARITHMETIC_MEAN W) xs"
  have u: "m_avg_type a = ARITHMETIC_MEAN" "window a = lastn W xs" "m_sum a = sum_list (lastn W xs)"
    using ma_updates [OF assms(1) a_def] by auto
  have "window_size a = min W (length xs)" using window_length [of a] u(2) by (simp add: lastn_def)
  then show ?thesis using u assms unfolding ma_compute_def a_def [symmetric] by (simp add: lastn_def)
qed

theorem moving_average_is_mean_of_last_witness:
  "ma_compute (\<lambda>_. 0) (foldl (\<lambda>a x. ma_update x a) (createAvgType ARITHMETIC_MEAN 3) [10, 2, 4, 9]) = Inr 5"
  using moving_average_is_mean_of_last [of 3 "[10, 2, 4, 9]" "\<lambda>_. 0"] by simp

text \<open>
  The M/G/1 window keeps its sums: after any request the counters are the number, the sum and the sum of squares
  of the service times in the window.
\<close>

lemma mg1_computeQueueDelay_ok:
  assumes "mg1_ok q"
  shows "mg1_ok (snd (mg1_computeQueueDelay formula g p d q))"
proof -
  from addItem_ok [OF removeItems_ok(1) [OF assms]] show ?thesis by (simp add: mg1_computeQueueDelay_def Let_def mg1_ok_def mg1_sums_def)
qed

text \<open>
  Wrap-around at the start of a simulation: a request that arrives within the first ten window sizes computes a
  negative start of the window, which wraps around to a time no earlier request has reached, so that the M/G/1
  model forgets them all and returns no queueing delay, whatever the load and the formula.
\<close>

theorem mg1_no_delay_during_warmup:
  assumes "mg1_ok q" "p < 10 * mg_window_size q" "unat (10 * mg_window_size q) \<le> 2 ^ 63"
    "list_all (\<lambda>e. unat (fst e) < 2 ^ 63) (mg_window q)"
  shows "fst (mg1_computeQueueDelay formula g p d q) = 0 \<and> mg_window (snd (mg1_computeQueueDelay formula g p d q)) = [(p, d)]"
proof -
  let ?t = "max (g - mg_window_size q) (p - 10 * mg_window_size q)"
  have r: "mg1_ok (removeItems ?t q)" "mg_window (removeItems ?t q) = dropWhile (\<lambda>e. fst e < ?t) (mg_window q)"
    using removeItems_ok [OF assms(1)] by auto
  have "2 ^ 63 \<le> unat (p - 10 * mg_window_size q)"
    using assms(2,3) by (simp add: unat_sub_if' word_less_nat_alt word_le_nat_alt)
  then have "fst e < p - 10 * mg_window_size q" if "e \<in> set (mg_window q)" for e
    using assms(4) that by (auto simp: list_all_iff word_less_nat_alt)
  then have "fst e < ?t" if "e \<in> set (mg_window q)" for e using that by (simp add: less_max_iff_disj)
  then have "dropWhile (\<lambda>e. fst e < ?t) (mg_window q) = []" by (simp add: dropWhile_eq_Nil_conv)
  then have "mg_window (removeItems ?t q) = []" using r(2) by simp
  moreover from this have "m_num_arrivals (removeItems ?t q) = 0" using r(1) by (simp add: mg1_ok_def mg1_sums_def)
  ultimately show ?thesis by (simp add: mg1_computeQueueDelay_def Let_def addItem_def)
qed

theorem mg1_no_delay_during_warmup_witness:
  "fst (mg1_computeQueueDelay (\<lambda>_ _ _ _. 77) 9 30 5
      (addItem 20 5 (addItem 10 5 ((QueueModelWindowedMG1 0)\<lparr>mg_window_size := 100\<rparr>)))) = 0"
proof -
  let ?q = "addItem 20 5 (addItem 10 5 ((QueueModelWindowedMG1 0)\<lparr>mg_window_size := 100\<rparr>))"
  have "mg1_ok ?q" by (intro addItem_ok) (simp add: mg1_ok_def mg1_sums_def QueueModelWindowedMG1_def)
  then show ?thesis
    using mg1_no_delay_during_warmup [of ?q 30 "\<lambda>_ _ _ _. 77" 9 5] by (simp add: addItem_def QueueModelWindowedMG1_def)
qed

end
