(* ===== verification/Shmem_Perf.thy ===== *)
theory Shmem_Perf
  imports Dram_Directory_Cntlr Subsecond_Time
begin

text \<open>
  \<^verbatim>\<open>pr_l1_pr_l2_dram_directory_msi/shmem_perf.{h,cc}\<close>: the record of where the time of a memory request went. Every
  component a request passes through reports the moment it is done with it; the time since the last report is charged to
  the reason it gives. Reports can be stale, from a path that was overtaken, and those must not count. \<open>reason_at\<close> is the
  specification: which reason a moment belongs to, given the reports.
\<close>

section \<open>Attribution of time\<close>

datatype shmem_times_type_t =
    NOC_BASE | NOC_QUEUE | TD_ACCESS | INV_IMBALANCE | REMOTE_CACHE_INV | REMOTE_CACHE_FWD | REMOTE_CACHE_WB | PENDING_HIT
  | NUCA_TAGS | NUCA_QUEUE | NUCA_BUS | NUCA_DATA | T_DRAM_CACHE | DRAM_CACHE_TAGS | DRAM_CACHE_QUEUE | DRAM_CACHE_BUS
  | DRAM_CACHE_DATA | T_DRAM | DRAM_QUEUE | DRAM_BUS | DRAM_DEVICE | T_UNKNOWN

text \<open>The reasons in the order of the enumeration, and the names under which their counters are registered.\<close>

definition shmem_times :: "shmem_times_type_t list" where
  "shmem_times =
     [NOC_BASE, NOC_QUEUE, TD_ACCESS, INV_IMBALANCE, REMOTE_CACHE_INV, REMOTE_CACHE_FWD, REMOTE_CACHE_WB, PENDING_HIT,
      NUCA_TAGS, NUCA_QUEUE, NUCA_BUS, NUCA_DATA, T_DRAM_CACHE, DRAM_CACHE_TAGS, DRAM_CACHE_QUEUE, DRAM_CACHE_BUS,
      DRAM_CACHE_DATA, T_DRAM, DRAM_QUEUE, DRAM_BUS, DRAM_DEVICE, T_UNKNOWN]"

definition shmem_reason_names :: "string list" where
  "shmem_reason_names =
     [''noc-base'', ''noc-queue'', ''td-access'', ''inv-imbalance'', ''remote-cache-inv'', ''remote-cache-fwd'', ''remote-cache-wb'',
      ''pending-hit'', ''nuca-tags'', ''nuca-bus'', ''nuca-queue'', ''nuca-data'', ''dram-cache'', ''dram-cache-tags'',
      ''dram-cache-queue'', ''dram-cache-bus'', ''dram-cache-data'', ''dram'', ''dram-queue'', ''dram-bus'', ''dram-device'',
      ''unknown'']"

text \<open>A value of the enumeration is always in range, so the assertion of the source cannot fail here.\<close>

definition ShmemReasonString :: "shmem_times_type_t \<Rightarrow> string" where
  "ShmemReasonString reason = the (map_of (zip shmem_times shmem_reason_names) reason)"

text \<open>The counters of the queue and of the bus of the NUCA cache carry each other's names.\<close>

lemma nuca_names_swapped: "ShmemReasonString NUCA_QUEUE = ''nuca-bus'' \<and> ShmemReasonString NUCA_BUS = ''nuca-queue''"
  by (simp add: ShmemReasonString_def shmem_times_def shmem_reason_names_def)

record shmem_perf =
  sp_core_id :: core_id_t
  m_time_begin :: UInt64
  m_time_last :: UInt64
  m_times :: "shmem_times_type_t \<Rightarrow> UInt64"

definition ShmemPerf :: shmem_perf where
  "ShmemPerf = \<lparr>sp_core_id = INVALID_CORE_ID, m_time_begin = 0, m_time_last = 0, m_times = (\<lambda>_. 0)\<rparr>"

definition sp_disable :: "shmem_perf \<Rightarrow> shmem_perf" where
  "sp_disable p = p\<lparr>m_time_last := MaxTime\<rparr>"

definition sp_reset :: "UInt64 \<Rightarrow> core_id_t \<Rightarrow> shmem_perf \<Rightarrow> shmem_perf" where
  "sp_reset time core_id p = p\<lparr>sp_core_id := core_id, m_time_begin := time, m_time_last := time, m_times := (\<lambda>_. 0)\<rparr>"

definition sp_updateTime :: "UInt64 \<Rightarrow> shmem_times_type_t \<Rightarrow> shmem_perf \<Rightarrow> shmem_perf" where
  "sp_updateTime time reason p =
     (if time > m_time_last p
      then p\<lparr>m_times := (m_times p)(reason := m_times p reason + (time - m_time_last p)), m_time_last := time\<rparr>
      else p)"

definition sp_updatePacket :: "UInt64 \<Rightarrow> UInt64 \<Rightarrow> shmem_perf \<Rightarrow> shmem_perf" where
  "sp_updatePacket packet_time packet_queue_delay p =
     (if packet_time > m_time_last p
      then sp_updateTime packet_time NOC_BASE
             (p\<lparr>m_times := (m_times p)(NOC_QUEUE := m_times p NOC_QUEUE + packet_queue_delay),
                m_time_last := m_time_last p + packet_queue_delay\<rparr>)
      else p)"

definition sp_add :: "shmem_perf \<Rightarrow> shmem_perf \<Rightarrow> shmem_perf" where
  "sp_add perf p = p\<lparr>m_times := (\<lambda>r. m_times p r + m_times perf r)\<rparr>"

section \<open>Every moment is charged to one reason\<close>

text \<open>The reports a request collects after its record was reset.\<close>

datatype perf_event = At UInt64 shmem_times_type_t | Packet UInt64 UInt64

fun event_time :: "perf_event \<Rightarrow> UInt64" where
  "event_time (At t _) = t"
| "event_time (Packet t _) = t"

fun apply_event :: "perf_event \<Rightarrow> shmem_perf \<Rightarrow> shmem_perf" where
  "apply_event (At t r) p = sp_updateTime t r p"
| "apply_event (Packet t d) p = sp_updatePacket t d p"

text \<open>
  The moment \<open>x\<close> belongs to the first report that is later than it. A packet that arrives after everything accounted so
  far, up to \<open>since\<close>, spent the first part of the time in queues and the rest on the links.
\<close>

fun reason_at :: "nat \<Rightarrow> perf_event list \<Rightarrow> nat \<Rightarrow> shmem_times_type_t option" where
  "reason_at since [] x = None"
| "reason_at since (e # es) x =
     (if x < unat (event_time e)
      then Some (case e of At _ r \<Rightarrow> r | Packet _ d \<Rightarrow> if x < since + unat d then NOC_QUEUE else NOC_BASE)
      else reason_at (max since (unat (event_time e))) es x)"

text \<open>No packet reports more time in queues than has passed since the last moment accounted for.\<close>

fun delays_fit :: "nat \<Rightarrow> perf_event list \<Rightarrow> bool" where
  "delays_fit since [] = True"
| "delays_fit since (e # es) =
     ((case e of At _ _ \<Rightarrow> True | Packet t d \<Rightarrow> since < unat t \<longrightarrow> since + unat d \<le> unat t) \<and>
      delays_fit (max since (unat (event_time e))) es)"

definition charged :: "nat \<Rightarrow> perf_event list \<Rightarrow> shmem_times_type_t \<Rightarrow> nat set" where
  "charged since es r = {x. since \<le> x \<and> reason_at since es x = Some r}"

lemma charged_below: "charged since es r \<subseteq> {..<2 ^ 64 - 1}"
proof -
  have "reason_at since es x = Some r \<Longrightarrow> x < 2 ^ 64 - 1" for x
  proof (induction es arbitrary: since)
    case (Cons e es)
    have "unat (event_time e) < 2 ^ 64" using unsigned_less [of "event_time e", where 'a = nat] by simp
    then show ?case using Cons by (auto split: if_splits)
  qed simp
  then show ?thesis by (auto simp: charged_def)
qed

lemma finite_charged [simp]: "finite (charged since es r)"
  by (rule finite_subset [OF charged_below]) (rule finite_lessThan)

lemma charged_stale: "unat (event_time e) \<le> since \<Longrightarrow> charged since (e # es) r = charged since es r"
  by (auto simp: charged_def max_def)

lemma charged_At:
  "since < unat t \<Longrightarrow> charged since (At t r1 # es) r = (if r = r1 then {since..<unat t} else {}) \<union> charged (unat t) es r"
  by (auto simp: charged_def)

lemma charged_Packet:
  "since < unat t \<Longrightarrow> since + unat d \<le> unat t \<Longrightarrow>
   charged since (Packet t d # es) r =
     (if r = NOC_QUEUE then {since..<since + unat d} else if r = NOC_BASE then {since + unat d..<unat t} else {}) \<union> charged (unat t) es r"
  by (auto simp: charged_def)

lemma card_charged_split:
  "X \<subseteq> {..<m} \<Longrightarrow> card (X \<union> charged m es r) = card X + card (charged m es r)"
  by (rule card_Un_disjoint) (simp_all add: finite_subset [of X "{..<m}"], auto simp: charged_def)

lemma times_charged:
  "delays_fit (unat (m_time_last p)) es \<Longrightarrow>
   m_times (fold apply_event es p) r = m_times p r + of_nat (card (charged (unat (m_time_last p)) es r))"
proof (induction es arbitrary: p)
  case Nil
  then show ?case by (simp add: charged_def)
next
  case (Cons e es)
  let ?l = "m_time_last p"
  show ?case
  proof (cases "unat (event_time e) \<le> unat ?l")
    case True
    then have "\<not> ?l < event_time e" by (simp add: word_less_nat_alt)
    then have "apply_event e p = p" by (cases e) (simp_all add: sp_updateTime_def sp_updatePacket_def)
    then show ?thesis using Cons True by (simp add: charged_stale max_def)
  next
    case False
    then have less: "?l < event_time e" "unat ?l < unat (event_time e)" by (simp_all add: word_less_nat_alt)
    have diff: "of_nat (unat (event_time e) - unat ?l) = event_time e - ?l"
      using less by (simp add: of_nat_diff word_less_nat_alt)
    show ?thesis
    proof (cases e)
      case (At t r1)
      let ?p = "apply_event e p"
      have p: "m_time_last ?p = t" "m_times ?p r = m_times p r + (if r = r1 then t - ?l else 0)"
        using less At by (simp_all add: sp_updateTime_def)
      have "delays_fit (unat (m_time_last ?p)) es" using Cons.prems At less p by (simp add: max_def)
      from Cons.IH [OF this]
      have "m_times (fold apply_event (e # es) p) r = m_times ?p r + of_nat (card (charged (unat t) es r))" using p by simp
      moreover have "card (charged (unat ?l) (e # es) r) = (if r = r1 then unat t - unat ?l else 0) + card (charged (unat t) es r)"
      proof -
        have "{unat ?l..<unat t} \<subseteq> {..<unat t}" by auto
        from card_charged_split [OF this, of es r] show ?thesis using less At by (auto simp: charged_At)
      qed
      ultimately show ?thesis using p(2) diff At by (auto simp: algebra_simps)
    next
      case (Packet t d)
      let ?p = "apply_event e p"
      have fit: "unat ?l + unat d \<le> unat t" using Cons.prems Packet less by simp
      moreover have "unat t < 2 ^ 64" using unsigned_less [of t, where 'a = nat] by simp
      ultimately have sum: "unat (?l + d) = unat ?l + unat d" by (simp add: unat_word_ariths)
      have diff2: "of_nat (unat t - (unat ?l + unat d)) = t - (?l + d)"
        using fit by (simp add: of_nat_diff)
      have cond: "?l + d < t \<longleftrightarrow> t \<noteq> ?l + d" using fit sum word_unat_eq_iff [of t "?l + d"] by (auto simp: word_less_nat_alt nat_less_le)
      have p: "m_time_last ?p = t"
        "m_times ?p r = m_times p r + (if r = NOC_QUEUE then d else if r = NOC_BASE then t - (?l + d) else 0)"
        using less Packet cond by (auto simp: sp_updatePacket_def sp_updateTime_def)
      have "delays_fit (unat (m_time_last ?p)) es" using Cons.prems Packet less p by (simp add: max_def)
      from Cons.IH [OF this]
      have "m_times (fold apply_event (e # es) p) r = m_times ?p r + of_nat (card (charged (unat t) es r))" using p by simp
      moreover have "card (charged (unat ?l) (e # es) r) =
          (if r = NOC_QUEUE then unat d else if r = NOC_BASE then unat t - (unat ?l + unat d) else 0) + card (charged (unat t) es r)"
      proof -
        have "{unat ?l..<unat ?l + unat d} \<subseteq> {..<unat t}" "{unat ?l + unat d..<unat t} \<subseteq> {..<unat t}" using fit by auto
        then show ?thesis using less Packet fit by (auto simp: charged_Packet card_charged_split)
      qed
      ultimately show ?thesis using p(2) diff2 Packet by (auto simp: algebra_simps)
    qed
  qed
qed

text \<open>
  C14: The breakdown of a request's latency is exact. After any sequence of reports, in and out of order, the component of a
  reason is the number of moments since the start of the request that belong to it, where a moment belongs to the first
  report later than it, and of a packet to the queues or the links; a report that is not later than all before it
  adds nothing. The condition is that no packet claims more queueing than the time that passed since the last moment
  accounted for.
\<close>

theorem latency_breakdown_by_moment:
  assumes "delays_fit (unat t) es"
  shows "unat (m_times (fold apply_event es (sp_reset t core p)) r) = card {x. unat t \<le> x \<and> reason_at (unat t) es x = Some r}"
proof -
  have "card (charged (unat t) es r) \<le> card {..<2 ^ 64 - 1 :: nat}" by (intro card_mono charged_below) simp
  then have "card (charged (unat t) es r) < 2 ^ 64" by simp
  moreover have "m_times (fold apply_event es (sp_reset t core p)) r = of_nat (card (charged (unat t) es r))"
    using times_charged [of "sp_reset t core p" es r] assms by (simp add: sp_reset_def)
  ultimately show ?thesis by (simp add: unsigned_of_nat take_bit_nat_eq_self charged_def)
qed

theorem latency_breakdown_by_moment_witness:
  "card {x. 10 \<le> x \<and> reason_at 10 [At 30 TD_ACCESS, Packet 50 7, At 45 DRAM_DEVICE] x = Some NOC_QUEUE} = 7"
  using latency_breakdown_by_moment [of 10 "[At 30 TD_ACCESS, Packet 50 7, At 45 DRAM_DEVICE]" 0 ShmemPerf NOC_QUEUE]
  by (simp add: sp_updatePacket_def sp_updateTime_def sp_reset_def)

end
