(* ===== verification/Dram_Cntlr.thy ===== *)
theory Dram_Cntlr
  imports Shmem_Perf Queue_Models
begin

text \<open>
  The memory side of a directory node: \<^verbatim>\<open>pr_l1_pr_l2_dram_directory_msi/dram_cntlr.{h,cc}\<close>, its message
  handler in \<^verbatim>\<open>dram/dram_cntlr_interface.cc\<close> and the latency models
  \<^verbatim>\<open>performance_model/dram_perf_model*.{h,cc}\<close>. The controller keeps the contents of memory only when
  fault injection is on; otherwise it hands out whatever its buffer held, the parameter \<open>uninit\<close>. The cost
  drawn from a normal distribution is a parameter indexed by the number of draws. The record of times an access is
  accounted to is an argument, \<open>None\<close> for the pointer \<^verbatim>\<open>NULL\<close>, and returned updated. The access log of
  \<^verbatim>\<open>loggingDRAM\<close> is left out, its counters are kept.
\<close>

section \<open>Latency models\<close>

datatype dram_access_t = DRAM_READ | DRAM_WRITE

record dram_env =
  denv_queue :: queue_env
  application_cores :: core_id_t
  normal_cost :: "nat \<Rightarrow> UInt64"

record dram_perf_model =
  dp_enabled :: bool
  dp_num_accesses :: UInt64
  m_dram_bandwidth :: UInt64
  dp_total_access_latency :: UInt64

record dram_perf_model_constant = dram_perf_model +
  dc_queue_model :: "queue_model option"
  dc_dram_access_cost :: UInt64
  dc_total_queueing_delay :: UInt64

record dram_perf_model_normal = dram_perf_model +
  dn_queue_model :: "queue_model option"
  dn_draws :: nat
  dn_total_queueing_delay :: UInt64

record dram_perf_model_readwrite = dram_perf_model +
  m_queue_model_read :: "queue_model option"
  m_queue_model_write :: "queue_model option"
  rw_dram_access_cost :: UInt64
  m_shared_readwrite :: bool
  m_total_read_queueing_delay :: UInt64
  m_total_write_queueing_delay :: UInt64

record dram_cfg =
  cfg_dram_type :: string
  cfg_bandwidth :: UInt64
  cfg_latency :: UInt64
  cfg_queue_enabled :: bool
  cfg_queue_type :: string
  cfg_shared :: bool
  cfg_queue :: queue_cfg

definition create_queue :: "dram_cfg \<Rightarrow> UInt32 \<Rightarrow> queue_model option result" where
  "create_queue cfg cache_block_size =
     (if cfg_queue_enabled cfg
      then bindE (bw_getRoundedLatency (cfg_bandwidth cfg) (ucast (8 * cache_block_size))) (\<lambda>t.
           bindE (QueueModel_create (cfg_queue cfg) (cfg_queue_type cfg) t) (\<lambda>q. Inr (Some q)))
      else Inr None)"

definition DramPerfModelConstant :: "dram_cfg \<Rightarrow> UInt32 \<Rightarrow> dram_perf_model_constant result" where
  "DramPerfModelConstant cfg cache_block_size =
     bindE (create_queue cfg cache_block_size) (\<lambda>q.
       Inr \<lparr>dp_enabled = False, dp_num_accesses = 0, m_dram_bandwidth = cfg_bandwidth cfg, dp_total_access_latency = 0,
            dc_queue_model = q, dc_dram_access_cost = cfg_latency cfg, dc_total_queueing_delay = 0\<rparr>)"

definition DramPerfModelNormal :: "dram_cfg \<Rightarrow> UInt32 \<Rightarrow> dram_perf_model_normal result" where
  "DramPerfModelNormal cfg cache_block_size =
     bindE (create_queue cfg cache_block_size) (\<lambda>q.
       Inr \<lparr>dp_enabled = False, dp_num_accesses = 0, m_dram_bandwidth = cfg_bandwidth cfg, dp_total_access_latency = 0,
            dn_queue_model = q, dn_draws = 0, dn_total_queueing_delay = 0\<rparr>)"

definition DramPerfModelReadWrite :: "dram_cfg \<Rightarrow> UInt32 \<Rightarrow> dram_perf_model_readwrite result" where
  "DramPerfModelReadWrite cfg cache_block_size =
     bindE (create_queue cfg cache_block_size) (\<lambda>q.
       Inr \<lparr>dp_enabled = False, dp_num_accesses = 0, m_dram_bandwidth = cfg_bandwidth cfg, dp_total_access_latency = 0,
            m_queue_model_read = q, m_queue_model_write = q, rw_dram_access_cost = cfg_latency cfg,
            m_shared_readwrite = cfg_shared cfg, m_total_read_queueing_delay = 0, m_total_write_queueing_delay = 0\<rparr>)"

text \<open>A request to a queue that may be absent.\<close>

definition queue_delay_of :: "dram_env \<Rightarrow> UInt64 \<Rightarrow> UInt64 \<Rightarrow> queue_model option \<Rightarrow> (UInt64 \<times> queue_model option) result" where
  "queue_delay_of env pkt_time processing_time q =
     (case q of
        None \<Rightarrow> Inr (0, None)
      | Some m \<Rightarrow> bindE (computeQueueDelay (denv_queue env) pkt_time processing_time m) (\<lambda>(d, m1). Inr (d, Some m1)))"

text \<open>
  The four calls of \<^verbatim>\<open>perf->updateTime\<close> at the end of \<^verbatim>\<open>getAccessLatency\<close>, the same in every model.
\<close>

definition account_access :: "UInt64 \<Rightarrow> UInt64 \<Rightarrow> UInt64 \<Rightarrow> UInt64 \<Rightarrow> shmem_perf option \<Rightarrow> shmem_perf option result" where
  "account_access pkt_time queue_delay processing_time cost perf =
     (case perf of
        None \<Rightarrow> Inl (UNDEFINED ''perf is NULL'')
      | Some p \<Rightarrow> Inr (Some
          (sp_updateTime (pkt_time + queue_delay + processing_time + cost) DRAM_DEVICE
          (sp_updateTime (pkt_time + queue_delay + processing_time) DRAM_BUS
          (sp_updateTime (pkt_time + queue_delay) DRAM_QUEUE
          (sp_updateTime pkt_time T_UNKNOWN p))))))"

definition constant_getAccessLatency ::
  "dram_env \<Rightarrow> UInt64 \<Rightarrow> UInt64 \<Rightarrow> core_id_t \<Rightarrow> shmem_perf option \<Rightarrow> dram_perf_model_constant
     \<Rightarrow> (UInt64 \<times> shmem_perf option \<times> dram_perf_model_constant) result" where
  "constant_getAccessLatency env pkt_time pkt_size requester perf m =
     (if \<not> dp_enabled m \<or> requester \<ge> application_cores env then Inr (0, perf, m)
      else
        bindE (bw_getRoundedLatency (m_dram_bandwidth m) (8 * pkt_size)) (\<lambda>processing_time.
        bindE (queue_delay_of env pkt_time processing_time (dc_queue_model m)) (\<lambda>(queue_delay, q).
          let access_latency = queue_delay + processing_time + dc_dram_access_cost m
          in bindE (account_access pkt_time queue_delay processing_time (dc_dram_access_cost m) perf) (\<lambda>perf1. Inr (access_latency, perf1,
               m\<lparr>dc_queue_model := q, dp_num_accesses := dp_num_accesses m + 1,
                 dp_total_access_latency := dp_total_access_latency m + access_latency,
                 dc_total_queueing_delay := dc_total_queueing_delay m + queue_delay\<rparr>)))))"

definition normal_getAccessLatency ::
  "dram_env \<Rightarrow> UInt64 \<Rightarrow> UInt64 \<Rightarrow> core_id_t \<Rightarrow> shmem_perf option \<Rightarrow> dram_perf_model_normal
     \<Rightarrow> (UInt64 \<times> shmem_perf option \<times> dram_perf_model_normal) result" where
  "normal_getAccessLatency env pkt_time pkt_size requester perf m =
     (if \<not> dp_enabled m \<or> requester \<ge> application_cores env then Inr (0, perf, m)
      else
        bindE (bw_getRoundedLatency (m_dram_bandwidth m) (8 * pkt_size)) (\<lambda>processing_time.
        bindE (queue_delay_of env pkt_time processing_time (dn_queue_model m)) (\<lambda>(queue_delay, q).
          let dram_access_cost = normal_cost env (dn_draws m);
              access_latency = queue_delay + processing_time + dram_access_cost
          in bindE (account_access pkt_time queue_delay processing_time dram_access_cost perf) (\<lambda>perf1. Inr (access_latency, perf1,
               m\<lparr>dn_queue_model := q, dn_draws := dn_draws m + 1, dp_num_accesses := dp_num_accesses m + 1,
                 dp_total_access_latency := dp_total_access_latency m + access_latency,
                 dn_total_queueing_delay := dn_total_queueing_delay m + queue_delay\<rparr>)))))"

definition readwrite_getAccessLatency ::
  "dram_env \<Rightarrow> UInt64 \<Rightarrow> UInt64 \<Rightarrow> core_id_t \<Rightarrow> dram_access_t \<Rightarrow> shmem_perf option \<Rightarrow> dram_perf_model_readwrite
     \<Rightarrow> (UInt64 \<times> shmem_perf option \<times> dram_perf_model_readwrite) result" where
  "readwrite_getAccessLatency env pkt_time pkt_size requester access_type perf m =
     (if \<not> dp_enabled m \<or> requester \<ge> application_cores env then Inr (0, perf, m)
      else
        bindE (bw_getRoundedLatency (m_dram_bandwidth m) (8 * pkt_size)) (\<lambda>processing_time.
        bindE
          (case m_queue_model_read m of
             None \<Rightarrow> Inr (0, m)
           | Some _ \<Rightarrow>
               if access_type = DRAM_READ
               then bindE (queue_delay_of env pkt_time processing_time (m_queue_model_read m)) (\<lambda>(queue_delay, q).
                      if m_shared_readwrite m
                      then bindE (queue_delay_of env pkt_time processing_time (m_queue_model_write m)) (\<lambda>(_, w).
                             Inr (queue_delay, m\<lparr>m_queue_model_read := q, m_queue_model_write := w\<rparr>))
                      else Inr (queue_delay, m\<lparr>m_queue_model_read := q\<rparr>))
               else bindE (queue_delay_of env pkt_time processing_time (m_queue_model_write m)) (\<lambda>(queue_delay, w).
                      Inr (queue_delay, m\<lparr>m_queue_model_write := w\<rparr>)))
          (\<lambda>(queue_delay, m1).
            let access_latency = queue_delay + processing_time + rw_dram_access_cost m1;
                m2 = m1\<lparr>dp_num_accesses := dp_num_accesses m1 + 1,
                        dp_total_access_latency := dp_total_access_latency m1 + access_latency\<rparr>
            in bindE (account_access pkt_time queue_delay processing_time (rw_dram_access_cost m1) perf) (\<lambda>perf1. Inr (access_latency, perf1,
                 if access_type = DRAM_READ
                 then m2\<lparr>m_total_read_queueing_delay := m_total_read_queueing_delay m2 + queue_delay\<rparr>
                 else m2\<lparr>m_total_write_queueing_delay := m_total_write_queueing_delay m2 + queue_delay\<rparr>)))))"

datatype dram_perf =
    PerfConstant dram_perf_model_constant
  | PerfNormal dram_perf_model_normal
  | PerfReadWrite dram_perf_model_readwrite

definition createDramPerfModel :: "dram_cfg \<Rightarrow> UInt32 \<Rightarrow> dram_perf result" where
  "createDramPerfModel cfg cache_block_size =
     (if cfg_dram_type cfg = ''constant''
      then bindE (DramPerfModelConstant cfg cache_block_size) (\<lambda>m. Inr (PerfConstant m))
      else if cfg_dram_type cfg = ''readwrite''
      then bindE (DramPerfModelReadWrite cfg cache_block_size) (\<lambda>m. Inr (PerfReadWrite m))
      else if cfg_dram_type cfg = ''normal''
      then bindE (DramPerfModelNormal cfg cache_block_size) (\<lambda>m. Inr (PerfNormal m))
      else Inl (LOG_PRINT_ERROR ''Invalid DRAM model type''))"

definition getAccessLatency ::
  "dram_env \<Rightarrow> UInt64 \<Rightarrow> UInt64 \<Rightarrow> core_id_t \<Rightarrow> dram_access_t \<Rightarrow> shmem_perf option \<Rightarrow> dram_perf
     \<Rightarrow> (UInt64 \<times> shmem_perf option \<times> dram_perf) result" where
  "getAccessLatency env pkt_time pkt_size requester access_type perf p =
     (case p of
        PerfConstant m \<Rightarrow>
          bindE (constant_getAccessLatency env pkt_time pkt_size requester perf m) (\<lambda>(l, perf1, m1). Inr (l, perf1, PerfConstant m1))
      | PerfNormal m \<Rightarrow>
          bindE (normal_getAccessLatency env pkt_time pkt_size requester perf m) (\<lambda>(l, perf1, m1). Inr (l, perf1, PerfNormal m1))
      | PerfReadWrite m \<Rightarrow>
          bindE (readwrite_getAccessLatency env pkt_time pkt_size requester access_type perf m) (\<lambda>(l, perf1, m1). Inr (l, perf1, PerfReadWrite m1)))"

definition dram_perf_enable :: "bool \<Rightarrow> dram_perf \<Rightarrow> dram_perf" where
  "dram_perf_enable b p =
     (case p of
        PerfConstant m \<Rightarrow> PerfConstant (m\<lparr>dp_enabled := b\<rparr>)
      | PerfNormal m \<Rightarrow> PerfNormal (m\<lparr>dp_enabled := b\<rparr>)
      | PerfReadWrite m \<Rightarrow> PerfReadWrite (m\<lparr>dp_enabled := b\<rparr>))"

section \<open>The controller\<close>

record dram_cntlr =
  m_data_map :: "IntPtr \<Rightarrow> UInt8 list option"
  m_dram_perf_model :: dram_perf
  dr_fault_injection :: bool
  dr_fault_injector :: "fault_injector option"
  dr_reads :: UInt64
  dr_writes :: UInt64
  dr_cache_block_size :: UInt32
  dr_logged :: bool
  totalAccess :: UInt64
  totalLoads :: UInt64
  totalStores :: UInt64

definition DramCntlr :: "dram_cfg \<Rightarrow> UInt32 \<Rightarrow> bool \<Rightarrow> fault_injector option \<Rightarrow> bool \<Rightarrow> UInt64 \<times> UInt64 \<times> UInt64 \<Rightarrow> dram_cntlr result" where
  "DramCntlr cfg cache_block_size fault_injection fault_injector logged uninit =
     bindE (createDramPerfModel cfg cache_block_size) (\<lambda>p.
       Inr \<lparr>m_data_map = (\<lambda>_. None), m_dram_perf_model = p, dr_fault_injection = fault_injection,
            dr_fault_injector = (if fault_injection then fault_injector else None), dr_reads = 0, dr_writes = 0,
            dr_cache_block_size = cache_block_size, dr_logged = logged, totalAccess = fst uninit, totalLoads = fst (snd uninit),
            totalStores = snd (snd uninit)\<rparr>)"

definition runDramPerfModel ::
  "dram_env \<Rightarrow> core_id_t \<Rightarrow> UInt64 \<Rightarrow> dram_access_t \<Rightarrow> shmem_perf option \<Rightarrow> dram_cntlr
     \<Rightarrow> (UInt64 \<times> shmem_perf option \<times> dram_cntlr) result" where
  "runDramPerfModel env requester time access_type perf d =
     bindE (getAccessLatency env time (ucast (dr_cache_block_size d)) requester access_type perf (m_dram_perf_model d)) (\<lambda>(l, perf1, p).
       Inr (l, perf1, d\<lparr>m_dram_perf_model := p\<rparr>))"

definition inject_dram ::
  "(fault_injector \<Rightarrow> UInt32 \<Rightarrow> UInt8 list \<Rightarrow> (fault_injector \<times> UInt8 list) result) \<Rightarrow> IntPtr \<Rightarrow> UInt8 list
     \<Rightarrow> dram_cntlr \<Rightarrow> dram_cntlr result" where
  "inject_dram hook address data d =
     (case dr_fault_injector d of
        None \<Rightarrow> Inr (d\<lparr>m_data_map := (m_data_map d)(address \<mapsto> data)\<rparr>)
      | Some fi \<Rightarrow> bindE (hook fi (dr_cache_block_size d) data) (\<lambda>(fi1, data1).
          Inr (d\<lparr>dr_fault_injector := Some fi1, m_data_map := (m_data_map d)(address \<mapsto> data1)\<rparr>)))"

text \<open>The counters of accesses are kept when the level is selected for logging, which also records the access.\<close>

definition loggingDRAM :: "dram_access_t \<Rightarrow> dram_cntlr \<Rightarrow> dram_cntlr" where
  "loggingDRAM access d =
     (if dr_logged d
      then (if access = DRAM_READ then d\<lparr>totalLoads := totalLoads d + 1\<rparr> else d\<lparr>totalStores := totalStores d + 1\<rparr>)
             \<lparr>totalAccess := totalAccess d + 1\<rparr>
      else d)"

lemma loggingDRAM_keeps [simp]:
  "m_data_map (loggingDRAM a d) = m_data_map d" "dr_fault_injection (loggingDRAM a d) = dr_fault_injection d"
  "dr_fault_injector (loggingDRAM a d) = dr_fault_injector d" "dr_cache_block_size (loggingDRAM a d) = dr_cache_block_size d"
  by (simp_all add: loggingDRAM_def)

definition getDataFromDram ::
  "dram_env \<Rightarrow> UInt8 list \<Rightarrow> IntPtr \<Rightarrow> core_id_t \<Rightarrow> UInt64 \<Rightarrow> shmem_perf option \<Rightarrow> dram_cntlr
     \<Rightarrow> (UInt64 \<times> where_t \<times> UInt8 list \<times> shmem_perf option \<times> dram_cntlr) result" where
  "getDataFromDram env data_buf address requester now perf d =
     bindE (if dr_fault_injection d
            then
              let block = (case m_data_map d address of None \<Rightarrow> replicate (unat (dr_cache_block_size d)) 0 | Some b \<Rightarrow> b)
              in bindE (inject_dram preRead address block d) (\<lambda>d1. Inr (the (m_data_map d1 address), d1))
            else Inr (data_buf, d)) (\<lambda>(data, d1).
     bindE (runDramPerfModel env requester now DRAM_READ perf d1) (\<lambda>(dram_access_latency, perf1, d2).
       Inr (dram_access_latency, DRAM, data, perf1,
            (loggingDRAM DRAM_READ d2)\<lparr>dr_reads := dr_reads d2 + 1\<rparr>)))"

text \<open>A write is accounted to \<^verbatim>\<open>m_dummy_shmem_perf\<close>, which nobody reads.\<close>

definition putDataToDram ::
  "dram_env \<Rightarrow> IntPtr \<Rightarrow> core_id_t \<Rightarrow> UInt8 list option \<Rightarrow> UInt64 \<Rightarrow> dram_cntlr \<Rightarrow> (UInt64 \<times> where_t \<times> dram_cntlr) result" where
  "putDataToDram env address requester data_buf now d =
     bindE (if dr_fault_injection d
            then
              (case m_data_map d address of
                 None \<Rightarrow> Inl (LOG_PRINT_ERROR ''Data Buffer does not exist'')
               | Some _ \<Rightarrow>
                   (case data_buf of
                      None \<Rightarrow> Inl (UNDEFINED ''memcpy of NULL'')
                    | Some data \<Rightarrow> inject_dram postWrite address (take (unat (dr_cache_block_size d)) data) d))
            else Inr d) (\<lambda>d1.
     bindE (runDramPerfModel env requester now DRAM_WRITE (Some ShmemPerf) d1) (\<lambda>(dram_access_latency, _, d2).
       Inr (dram_access_latency, DRAM,
            (loggingDRAM DRAM_WRITE d2)\<lparr>dr_writes := dr_writes d2 + 1\<rparr>)))"

text \<open>
  The message handler: the clock of the simulation thread and the messages sent are threaded through. The record of times
  of the request comes with the message, never as \<^verbatim>\<open>NULL\<close>; its updates do not come back here.
\<close>

definition handleMsgFromTagDirectory ::
  "dram_env \<Rightarrow> UInt8 list \<Rightarrow> core_id_t \<Rightarrow> shmem_msg \<Rightarrow> UInt64 \<Rightarrow> dram_cntlr
     \<Rightarrow> (UInt64 \<times> (receiver_t \<times> shmem_msg \<times> UInt64) list \<times> dram_cntlr) result" where
  "handleMsgFromTagDirectory env uninit sender msg elapsed d =
     (case m_msg_type msg of
        DRAM_READ_REQ \<Rightarrow>
          bindE (getDataFromDram env uninit (msg_address msg) (m_requester msg) elapsed (Some ShmemPerf) d) (\<lambda>(dram_latency, hit_where, data, _, d1).
          bindE (incrElapsedTime dram_latency elapsed) (\<lambda>elapsed1.
            Inr (elapsed1,
                 [(To sender,
                   \<lparr>m_msg_type = DRAM_READ_REP, m_sender_mem_component = DRAM_COMPONENT, m_receiver_mem_component = TAG_DIR,
                    m_requester = m_requester msg, msg_address = msg_address msg, m_data_buf = Some data,
                    m_where = hit_where\<rparr>, elapsed1)], d1)))
      | DRAM_WRITE_REQ \<Rightarrow>
          bindE (putDataToDram env (msg_address msg) (m_requester msg) (m_data_buf msg) elapsed d) (\<lambda>(_, _, d1).
            Inr (elapsed, [], d1))
      | _ \<Rightarrow> Inl (LOG_PRINT_ERROR ''Unrecognized Shmem Msg Type''))"

section \<open>Memory keeps what is written\<close>

lemma runDramPerfModel_data:
  "runDramPerfModel env r t a perf d = Inr (l, perf1, d1) \<Longrightarrow> m_data_map d1 = m_data_map d \<and> dr_fault_injection d1 = dr_fault_injection d \<and>
    dr_fault_injector d1 = dr_fault_injector d \<and> dr_cache_block_size d1 = dr_cache_block_size d"
  by (auto simp: runDramPerfModel_def elim!: bindE_eq_InrE)

lemma dram_write_before_read:
  "dr_fault_injection d \<Longrightarrow> m_data_map d a = None \<Longrightarrow> putDataToDram env a r data t d = Inl (LOG_PRINT_ERROR ''Data Buffer does not exist'')"
  by (simp add: putDataToDram_def)

text \<open>
  C39: A block written to memory is what a later read of its address returns, reads of other addresses do not see
  the write, and a read of an address that was never written returns zeros; this holds whenever contents are kept
  and no faults are injected. A write to an address that was never read is the error the code reports.
\<close>

theorem dram_read_after_write:
  assumes "dr_fault_injection d" "dr_fault_injector d = None" "length data = unat (dr_cache_block_size d)"
  shows "case putDataToDram env a r (Some data) t d of
      Inl e \<Rightarrow> m_data_map d a = None \<longrightarrow> e = LOG_PRINT_ERROR ''Data Buffer does not exist''
    | Inr (l, w, d1) \<Rightarrow> m_data_map d a \<noteq> None \<and>
        (\<forall>b buf r2 t2 perf l2 w2 data2 perf2 d2. getDataFromDram env buf b r2 t2 perf d1 = Inr (l2, w2, data2, perf2, d2) \<longrightarrow>
           data2 = (if b = a then data else case m_data_map d b of None \<Rightarrow> replicate (unat (dr_cache_block_size d)) 0 | Some x \<Rightarrow> x))"
proof (cases "putDataToDram env a r (Some data) t d")
  case (Inl e)
  then show ?thesis using dram_write_before_read [OF assms(1), of a env r "Some data" t] by (cases "m_data_map d a") simp_all
next
  case (Inr res)
  obtain l w d1 where res: "res = (l, w, d1)" by (cases res)
  obtain x where x: "m_data_map d a = Some x" using Inr dram_write_before_read [OF assms(1), of a env r "Some data" t] by fastforce
  obtain perf d0 where d0: "runDramPerfModel env r t DRAM_WRITE (Some ShmemPerf) (d\<lparr>m_data_map := (m_data_map d)(a \<mapsto> data)\<rparr>) = Inr (l, perf, d0)"
    "d1 = (loggingDRAM DRAM_WRITE d0)\<lparr>dr_writes := dr_writes d0 + 1\<rparr>"
    using assms Inr x by (auto simp: putDataToDram_def inject_dram_def res elim!: bindE_eq_InrE)
  have d1: "m_data_map d1 = (m_data_map d)(a \<mapsto> data)" "dr_fault_injection d1" "dr_fault_injector d1 = None"
    "dr_cache_block_size d1 = dr_cache_block_size d"
    using runDramPerfModel_data [OF d0(1)] d0(2) assms(1,2) by simp_all
  have "data2 = (if b = a then data else case m_data_map d b of None \<Rightarrow> replicate (unat (dr_cache_block_size d)) 0 | Some x \<Rightarrow> x)"
    if "getDataFromDram env buf b r2 t2 perf d1 = Inr (l2, w2, data2, perf2, d2)" for b buf r2 t2 perf l2 w2 data2 perf2 d2
    using that d1 by (auto simp: getDataFromDram_def inject_dram_def Let_def split: option.split elim!: bindE_eq_InrE)
  then show ?thesis unfolding Inr res sum.case prod.case using x by blast
qed

definition example_dram :: dram_cntlr where
  "example_dram =
     \<lparr>m_data_map = [64 \<mapsto> [0, 0]],
      m_dram_perf_model = PerfConstant \<lparr>dp_enabled = True, dp_num_accesses = 0, m_dram_bandwidth = 1000, dp_total_access_latency = 0,
        dc_queue_model = None, dc_dram_access_cost = 100, dc_total_queueing_delay = 0\<rparr>,
      dr_fault_injection = True, dr_fault_injector = None, dr_reads = 0, dr_writes = 0, dr_cache_block_size = 2,
      dr_logged = True, totalAccess = 0, totalLoads = 0, totalStores = 0\<rparr>"

definition example_dram_env :: dram_env where
  "example_dram_env = \<lparr>denv_queue = \<lparr>geometric_mean_of = (\<lambda>_. 0), mg1_formula = (\<lambda>_ _ _ _. 0), queue_global_time = 0\<rparr>,
     application_cores = 4, normal_cost = (\<lambda>_. 0)\<rparr>"

lemmas dram_eval = loggingDRAM_def getDataFromDram_def putDataToDram_def runDramPerfModel_def getAccessLatency_def constant_getAccessLatency_def
  account_access_def queue_delay_of_def bw_getRoundedLatency_def divideE_def inject_dram_def Let_def example_dram_def example_dram_env_def US_def

theorem dram_read_after_write_witness:
  "\<exists>l w d1 l2 w2 perf2 d2. putDataToDram example_dram_env 64 0 (Some [7, 9]) 5 example_dram = Inr (l, w, d1) \<and>
    getDataFromDram example_dram_env [] 64 1 8 (Some ShmemPerf) d1 = Inr (l2, w2, [7, 9], perf2, d2)"
proof -
  obtain l w d1 l2 w2 data2 perf2 d2 where *: "putDataToDram example_dram_env 64 0 (Some [7, 9]) 5 example_dram = Inr (l, w, d1)"
    "getDataFromDram example_dram_env [] 64 1 8 (Some ShmemPerf) d1 = Inr (l2, w2, data2, perf2, d2)"
    by (simp add: dram_eval)
  have "dr_fault_injection example_dram" "dr_fault_injector example_dram = None" "length [7, 9 :: UInt8] = unat (dr_cache_block_size example_dram)"
    by (simp_all add: example_dram_def)
  from dram_read_after_write [OF this, of 64 example_dram_env 0 5] have "data2 = [7, 9]" unfolding *(1) sum.case prod.case using *(2) by (metis (full_types))
  then show ?thesis using * by blast
qed

end
