(* ===== verification/Prefetchers.thy ===== *)
theory Prefetchers
  imports Prelude
begin

text \<open>
  The prefetchers of \<^verbatim>\<open>parametric_dram_directory_msi\<close>: \<^verbatim>\<open>simple_prefetcher.{h,cc}\<close>,
  \<^verbatim>\<open>ghb_prefetcher.{h,cc}\<close>, \<^verbatim>\<open>a53prefetcher.{h,cc}\<close> and the factory \<^verbatim>\<open>prefetcher.cc\<close>. Each turns the
  address of an access into a list of addresses to fetch. Addresses and strides are 64-bit words; table
  indices are natural numbers. An index outside a table is undefined behaviour and an error here;
  \<^verbatim>\<open>vector::at\<close> out of range throws, which ends the process.
\<close>

section \<open>The simple stride prefetcher\<close>

abbreviation (input) PAGE_SIZE :: IntPtr where "PAGE_SIZE \<equiv> 4096"
abbreviation (input) PAGE_MASK :: IntPtr where "PAGE_MASK \<equiv> NOT (4096 - 1)"

record simple_prefetcher =
  sp_core_id :: core_id_t
  sp_shared_cores :: nat
  n_flows :: nat
  flows_per_core :: bool
  num_prefetches :: nat
  stop_at_page :: bool
  n_flow_next :: nat
  m_prev_address :: "IntPtr list list"

definition SimplePrefetcher :: "core_id_t \<Rightarrow> nat \<Rightarrow> nat \<Rightarrow> bool \<Rightarrow> nat \<Rightarrow> bool \<Rightarrow> simple_prefetcher" where
  "SimplePrefetcher core_id shared_cores flows per_core prefetches stop =
     \<lparr>sp_core_id = core_id, sp_shared_cores = shared_cores, n_flows = flows, flows_per_core = per_core,
      num_prefetches = prefetches, stop_at_page = stop, n_flow_next = 0,
      m_prev_address = replicate (if per_core then shared_cores else 1) (replicate flows 0)\<rparr>"

definition abs_dist :: "IntPtr \<Rightarrow> IntPtr \<Rightarrow> IntPtr" where
  "abs_dist a b = (if sint (a - b) < 0 then b - a else a - b)"

text \<open>The loop over the flows: the nearest previous address closer than a page, else the one to replace.\<close>

fun nearest_flow :: "IntPtr \<Rightarrow> IntPtr list \<Rightarrow> nat \<Rightarrow> nat \<Rightarrow> IntPtr \<Rightarrow> nat" where
  "nearest_flow current_address [] i n_flow min_dist = n_flow"
| "nearest_flow current_address (a # as) i n_flow min_dist =
     (let dist = abs_dist current_address a
      in if dist < min_dist then nearest_flow current_address as (i + 1) i dist
         else nearest_flow current_address as (i + 1) n_flow min_dist)"

definition simple_getNextAddress :: "IntPtr \<Rightarrow> core_id_t \<Rightarrow> simple_prefetcher \<Rightarrow> (IntPtr list \<times> simple_prefetcher) result" where
  "simple_getNextAddress current_address core_id s =
     (let idx = (if flows_per_core s then core_id - sp_core_id s else 0) in
      if \<not> (0 \<le> idx \<and> nat idx < length (m_prev_address s)) then Inl (ASSERT ''vector::at'')
      else if n_flows s = 0 then Inl (UNDEFINED ''division by zero'')
      else
        let prev = m_prev_address s ! nat idx;
            n_flow = nearest_flow current_address prev 0 (n_flow_next s) PAGE_SIZE;
            stride = current_address - prev ! n_flow;
            addresses =
              (if stride = 0 then []
               else filter (\<lambda>a. \<not> stop_at_page s \<or> a AND PAGE_MASK = current_address AND PAGE_MASK)
                      (map (\<lambda>i. current_address + of_nat i * stride) [0..<num_prefetches s]))
        in Inr (addresses,
                s\<lparr>n_flow_next := (n_flow_next s + 1) mod n_flows s,
                  m_prev_address := (m_prev_address s)[nat idx := prev[n_flow := current_address]]\<rparr>))"

section \<open>The Cortex-A53 prefetcher\<close>

record a53_prefetcher =
  m_cacheLineSize :: UInt32
  m_patternLength :: UInt32
  m_consecutivePatternLength :: UInt32
  m_numPrefetches :: UInt32
  firstAddress :: bool
  a53_stride :: IntPtr
  prevAddress :: IntPtr
  currentPatternLength :: UInt32
  currentConsecutivePatternLength :: UInt32

definition A53Prefetcher :: "UInt32 \<Rightarrow> UInt32 \<Rightarrow> UInt32 \<Rightarrow> UInt32 \<Rightarrow> IntPtr \<Rightarrow> a53_prefetcher" where
  "A53Prefetcher cache_block_size pattern_length consecutive_pattern_length prefetches uninit =
     \<lparr>m_cacheLineSize = cache_block_size, m_patternLength = pattern_length - 1,
      m_consecutivePatternLength = consecutive_pattern_length - 1, m_numPrefetches = prefetches,
      firstAddress = True, a53_stride = 0, prevAddress = uninit, currentPatternLength = 0,
      currentConsecutivePatternLength = 0\<rparr>"

definition myAbs :: "IntPtr \<Rightarrow> IntPtr" where
  "myAbs a = (if sint a < 0 then - a else a)"

text \<open>The first loop multiplies two 32-bit numbers, the second a 64-bit stride and a 32-bit one.\<close>

definition a53_getNextAddress :: "IntPtr \<Rightarrow> a53_prefetcher \<Rightarrow> IntPtr list \<times> a53_prefetcher" where
  "a53_getNextAddress currentAddress a =
     (let (l, a1) =
        (if firstAddress a then ([], a\<lparr>firstAddress := False\<rparr>)
         else
           let dist = currentAddress - prevAddress a in
           if dist = 0 then ([], a)
           else if myAbs dist = ucast (m_cacheLineSize a)
           then
             let a1 = (if dist = a53_stride a
                       then a\<lparr>currentConsecutivePatternLength := currentConsecutivePatternLength a + 1\<rparr>
                       else a\<lparr>a53_stride := dist, currentConsecutivePatternLength := 1\<rparr>)
             in (if m_consecutivePatternLength a1 \<le> currentConsecutivePatternLength a1
                 then map (\<lambda>i. currentAddress + ucast (m_cacheLineSize a1 * of_nat i)) [1..<unat (m_numPrefetches a1) + 1]
                 else [], a1)
           else
             let a1 = (if dist = a53_stride a
                       then a\<lparr>currentPatternLength := currentPatternLength a + 1\<rparr>
                       else a\<lparr>a53_stride := dist, currentPatternLength := 1\<rparr>)
             in (if m_patternLength a1 \<le> currentPatternLength a1
                 then map (\<lambda>i. currentAddress + a53_stride a1 * of_nat i) [1..<unat (m_numPrefetches a1) + 1]
                 else [], a1))
      in (l, a1\<lparr>prevAddress := currentAddress\<rparr>))"

section \<open>The global history buffer prefetcher\<close>

abbreviation (input) INVALID_DELTA :: IntPtr where "INVALID_DELTA \<equiv> 0x7FFFFFFFFFFFFFFF"
abbreviation (input) INVALID_INDEX :: nat where "INVALID_INDEX \<equiv> 4294967295"

record ghb_entry =
  nextIndex :: nat
  ge_delta :: IntPtr
  ge_generation :: nat

record table_entry =
  ghbIndex :: nat
  te_delta :: IntPtr
  te_generation :: nat

record ghb_prefetcher =
  m_prefetchWidth :: nat
  m_prefetchDepth :: nat
  m_lastAddress :: IntPtr
  m_ghbSize :: nat
  m_ghbHead :: nat
  m_generation :: nat
  m_ghb :: "ghb_entry list"
  m_tableSize :: nat
  m_tableHead :: nat
  m_ghbTable :: "table_entry list"

definition GhbPrefetcher :: "nat \<Rightarrow> nat \<Rightarrow> nat \<Rightarrow> nat \<Rightarrow> ghb_prefetcher" where
  "GhbPrefetcher width depth ghb_size ghb_table_size =
     \<lparr>m_prefetchWidth = width, m_prefetchDepth = depth, m_lastAddress = INVALID_ADDRESS, m_ghbSize = ghb_size,
      m_ghbHead = 0, m_generation = 0,
      m_ghb = replicate ghb_size \<lparr>nextIndex = INVALID_INDEX, ge_delta = INVALID_DELTA, ge_generation = 0\<rparr>,
      m_tableSize = ghb_table_size, m_tableHead = 0,
      m_ghbTable = replicate ghb_table_size \<lparr>ghbIndex = INVALID_INDEX, te_delta = INVALID_DELTA, te_generation = 0\<rparr>\<rparr>"

text \<open>The search of the table: the first entry that is free or has the delta; the table size when there is none.\<close>

definition table_search :: "IntPtr \<Rightarrow> table_entry list \<Rightarrow> nat" where
  "table_search delta t = length (takeWhile (\<lambda>e. te_delta e \<noteq> INVALID_DELTA \<and> te_delta e \<noteq> delta) t)"

definition ghb_at :: "ghb_prefetcher \<Rightarrow> nat \<Rightarrow> ghb_entry result" where
  "ghb_at g i = (if i < length (m_ghb g) then Inr (m_ghb g ! i) else Inl (UNDEFINED ''m_ghb out of bounds''))"

fun ghb_depth_loop :: "ghb_prefetcher \<Rightarrow> nat \<Rightarrow> nat \<Rightarrow> nat \<Rightarrow> IntPtr \<Rightarrow> IntPtr list \<Rightarrow> IntPtr list result" where
  "ghb_depth_loop g index depth 0 newAddress l = Inr l"
| "ghb_depth_loop g index depth (Suc n) newAddress l =
     (if m_ghbSize g = 0 then Inl (UNDEFINED ''division by zero'')
      else
        bindE (ghb_at g (u32 (index + depth) mod m_ghbSize g)) (\<lambda>e.
          if ge_delta e = INVALID_DELTA then Inr l
          else
            let a = newAddress + ge_delta e
            in ghb_depth_loop g index (depth + 1) n a (if a \<in> set l then l else l @ [a])))"

fun ghb_width_loop :: "ghb_prefetcher \<Rightarrow> nat \<Rightarrow> IntPtr \<Rightarrow> nat \<Rightarrow> IntPtr list \<Rightarrow> IntPtr list result" where
  "ghb_width_loop g index currentAddress 0 l = Inr l"
| "ghb_width_loop g index currentAddress (Suc n) l =
     (if index = INVALID_INDEX then Inr l
      else
        bindE (ghb_depth_loop g index 0 (m_prefetchDepth g) currentAddress l) (\<lambda>l1.
        bindE (ghb_at g index) (\<lambda>e.
          ghb_width_loop g
            (if (index < nextIndex e \<or> m_ghbHead g < index) \<and> nextIndex e < m_ghbHead g
             then INVALID_INDEX else nextIndex e) currentAddress n l1)))"

text \<open>The link of the new entry into the table, for the delta of the entry before the head.\<close>

definition ghb_link :: "ghb_prefetcher \<Rightarrow> ghb_prefetcher result" where
  "ghb_link g =
     bindE (ghb_at g (if 0 < m_ghbHead g then m_ghbHead g - 1 else m_ghbSize g - 1)) (\<lambda>prev.
       let prevDelta = ge_delta prev in
       if prevDelta = INVALID_DELTA then Inr g
       else
         let i = table_search prevDelta (m_ghbTable g) in
         if i \<noteq> m_tableSize g \<and> te_delta (m_ghbTable g ! i) = prevDelta
         then
           bindE (ghb_at g (ghbIndex (m_ghbTable g ! i))) (\<lambda>e.
             let t = m_ghbTable g ! i;
                 link = (if te_generation t = ge_generation e then ghbIndex t else INVALID_INDEX);
                 h = m_ghbHead g
             in Inr (g\<lparr>m_ghb := (m_ghb g)[h := (m_ghb g ! h)\<lparr>nextIndex := link\<rparr>],
                       m_ghbTable := (m_ghbTable g)[i := t\<lparr>ghbIndex := h, te_generation := m_generation g\<rparr>]\<rparr>))
         else if m_tableSize g = 0 then Inl (UNDEFINED ''m_ghbTable out of bounds'')
         else Inr (g\<lparr>m_ghbTable := (m_ghbTable g)[m_tableHead g :=
                       \<lparr>ghbIndex = m_ghbHead g, te_delta = prevDelta, te_generation = m_generation g\<rparr>],
                     m_tableHead := (m_tableHead g + 1) mod m_tableSize g\<rparr>))"

definition ghb_getNextAddress :: "IntPtr \<Rightarrow> ghb_prefetcher \<Rightarrow> (IntPtr list \<times> ghb_prefetcher) result" where
  "ghb_getNextAddress currentAddress g0 =
     (if m_lastAddress g0 = INVALID_ADDRESS then Inr ([], g0\<lparr>m_lastAddress := currentAddress\<rparr>)
      else
        let delta = currentAddress - m_lastAddress g0;
            g = g0\<lparr>m_lastAddress := currentAddress\<rparr>;
            i = table_search delta (m_ghbTable g)
        in
        bindE (if i \<noteq> m_tableSize g \<and> te_delta (m_ghbTable g ! i) = delta
               then bindE (ghb_at g (ghbIndex (m_ghbTable g ! i))) (\<lambda>e.
                      if te_generation (m_ghbTable g ! i) = ge_generation e
                      then ghb_width_loop g (ghbIndex (m_ghbTable g ! i)) currentAddress (m_prefetchWidth g) []
                      else Inr [])
               else Inr []) (\<lambda>prefetchList.
        bindE (ghb_at g (m_ghbHead g)) (\<lambda>_.
        bindE (ghb_link (g\<lparr>m_ghb := (m_ghb g)[m_ghbHead g :=
                  \<lparr>nextIndex = INVALID_INDEX, ge_delta = delta, ge_generation = m_generation g\<rparr>]\<rparr>)) (\<lambda>g1.
          let h = m_ghbHead g1 + 1
          in Inr (prefetchList,
                  if h = m_ghbSize g1 then g1\<lparr>m_ghbHead := 0, m_generation := (m_generation g1 + 1) mod 4\<rparr>
                  else g1\<lparr>m_ghbHead := h\<rparr>)))))"

section \<open>Construction and dispatch\<close>

datatype prefetcher = Simple simple_prefetcher | Ghb ghb_prefetcher | A53 a53_prefetcher

record prefetch_cfg =
  cfg_flows :: nat
  cfg_flows_per_core :: bool
  cfg_num_prefetches :: nat
  cfg_stop_at_page :: bool
  cfg_ghb_width :: nat
  cfg_ghb_depth :: nat
  cfg_ghb_size :: nat
  cfg_ghb_table_size :: nat
  cfg_a53_block_size :: UInt32
  cfg_a53_pattern :: UInt32
  cfg_a53_consecutive :: UInt32
  cfg_a53_num :: UInt32
  cfg_a53_uninit :: IntPtr

definition createPrefetcher :: "prefetch_cfg \<Rightarrow> string \<Rightarrow> core_id_t \<Rightarrow> nat \<Rightarrow> prefetcher option result" where
  "createPrefetcher cfg type core_id shared_cores =
     (if type = ''none'' then Inr None
      else if type = ''simple''
      then Inr (Some (Simple (SimplePrefetcher core_id shared_cores (cfg_flows cfg) (cfg_flows_per_core cfg)
                                (cfg_num_prefetches cfg) (cfg_stop_at_page cfg))))
      else if type = ''ghb''
      then Inr (Some (Ghb (GhbPrefetcher (cfg_ghb_width cfg) (cfg_ghb_depth cfg) (cfg_ghb_size cfg) (cfg_ghb_table_size cfg))))
      else if type = ''a53prefetcher''
      then Inr (Some (A53 (A53Prefetcher (cfg_a53_block_size cfg) (cfg_a53_pattern cfg) (cfg_a53_consecutive cfg)
                             (cfg_a53_num cfg) (cfg_a53_uninit cfg))))
      else Inl (LOG_PRINT_ERROR ''Invalid prefetcher type''))"

definition getNextAddress :: "IntPtr \<Rightarrow> core_id_t \<Rightarrow> prefetcher \<Rightarrow> (IntPtr list \<times> prefetcher) result" where
  "getNextAddress current_address core_id p =
     (case p of
        Simple s \<Rightarrow> bindE (simple_getNextAddress current_address core_id s) (\<lambda>(l, s1). Inr (l, Simple s1))
      | Ghb g \<Rightarrow> bindE (ghb_getNextAddress current_address g) (\<lambda>(l, g1). Inr (l, Ghb g1))
      | A53 a \<Rightarrow> let (l, a1) = a53_getNextAddress current_address a in Inr (l, A53 a1))"

section \<open>The history buffer is never read out of bounds\<close>

definition ghb_wf :: "ghb_prefetcher \<Rightarrow> bool" where
  "ghb_wf g \<longleftrightarrow> 0 < m_ghbSize g \<and> m_ghbSize g \<le> INVALID_INDEX \<and> length (m_ghb g) = m_ghbSize g \<and>
     m_ghbHead g < m_ghbSize g \<and> 0 < m_tableSize g \<and> length (m_ghbTable g) = m_tableSize g \<and>
     m_tableHead g < m_tableSize g \<and>
     list_all (\<lambda>e. nextIndex e = INVALID_INDEX \<or> nextIndex e < m_ghbSize g) (m_ghb g) \<and>
     list_all (\<lambda>t. te_delta t = INVALID_DELTA \<or> ghbIndex t < m_ghbSize g) (m_ghbTable g)"

lemma list_all_update: "list_all P l \<Longrightarrow> P x \<Longrightarrow> list_all P (l[i := x])"
  by (auto simp: list_all_iff dest: set_update_subset_insert [THEN subsetD])

lemma list_all_nth: "list_all P l \<Longrightarrow> i < length l \<Longrightarrow> P (l ! i)"
  by (simp add: list_all_length)

lemma ghb_at_ok: "ghb_wf g \<Longrightarrow> i < m_ghbSize g \<Longrightarrow> ghb_at g i = Inr (m_ghb g ! i)"
  by (simp add: ghb_wf_def ghb_at_def)

lemma table_search_le: "table_search d t \<le> length t"
  by (simp add: table_search_def length_takeWhile_le)

lemma GhbPrefetcher_wf: "0 < n \<Longrightarrow> n \<le> INVALID_INDEX \<Longrightarrow> 0 < m \<Longrightarrow> ghb_wf (GhbPrefetcher w d n m)"
  by (simp add: ghb_wf_def GhbPrefetcher_def list_all_length)

lemma ghb_depth_loop_ok:
  "ghb_wf g \<Longrightarrow> distinct l \<Longrightarrow> \<exists>l'. ghb_depth_loop g index depth n a l = Inr l' \<and> distinct l' \<and> length l' \<le> length l + n"
proof (induction g index depth n a l rule: ghb_depth_loop.induct)
  case (2 g index depth n a l)
  have e: "ghb_at g (u32 (index + depth) mod m_ghbSize g) = Inr (m_ghb g ! (u32 (index + depth) mod m_ghbSize g))"
    using "2.prems"(1) by (intro ghb_at_ok) (auto simp: ghb_wf_def)
  have s: "m_ghbSize g \<noteq> 0" using "2.prems"(1) by (simp add: ghb_wf_def)
  let ?e = "m_ghb g ! (u32 (index + depth) mod m_ghbSize g)"
  show ?case
  proof (cases "ge_delta ?e = INVALID_DELTA")
    case False
    let ?a = "a + ge_delta ?e"
    let ?l = "if ?a \<in> set l then l else l @ [?a]"
    have "distinct ?l" using "2.prems"(2) by simp
    from "2.IH" [OF s False refl "2.prems"(1) this] obtain l' where
      "ghb_depth_loop g index (depth + 1) n ?a ?l = Inr l'" "distinct l'" "length l' \<le> length ?l + n" by blast
    then show ?thesis using e s False by (auto simp: Let_def split: if_splits)
  qed (use e s "2.prems"(2) in simp)
qed simp

lemma ghb_width_loop_ok:
  "ghb_wf g \<Longrightarrow> index = INVALID_INDEX \<or> index < m_ghbSize g \<Longrightarrow> distinct l \<Longrightarrow>
    \<exists>l'. ghb_width_loop g index a n l = Inr l' \<and> distinct l' \<and> length l' \<le> length l + n * m_prefetchDepth g"
proof (induction g index a n l rule: ghb_width_loop.induct)
  case (2 g index a n l)
  show ?case
  proof (cases "index = INVALID_INDEX")
    case False
    then have i: "index < m_ghbSize g" using "2.prems"(2) by simp
    obtain l1 where l1: "ghb_depth_loop g index 0 (m_prefetchDepth g) a l = Inr l1" "distinct l1"
      "length l1 \<le> length l + m_prefetchDepth g" using ghb_depth_loop_ok [OF "2.prems"(1,3)] by blast
    have e: "ghb_at g index = Inr (m_ghb g ! index)" using ghb_at_ok [OF "2.prems"(1) i] .
    have "list_all (\<lambda>e. nextIndex e = INVALID_INDEX \<or> nextIndex e < m_ghbSize g) (m_ghb g)" "length (m_ghb g) = m_ghbSize g"
      using "2.prems"(1) by (auto simp: ghb_wf_def)
    then have "nextIndex (m_ghb g ! index) = INVALID_INDEX \<or> nextIndex (m_ghb g ! index) < m_ghbSize g"
      using i by (auto simp: list_all_length)
    then have "\<exists>l'. ghb_width_loop g (if (index < nextIndex (m_ghb g ! index) \<or> m_ghbHead g < index) \<and> nextIndex (m_ghb g ! index) < m_ghbHead g
        then INVALID_INDEX else nextIndex (m_ghb g ! index)) a n l1 = Inr l' \<and> distinct l' \<and> length l' \<le> length l1 + n * m_prefetchDepth g"
      by (intro "2.IH" [OF False "2.prems"(1) _ l1(2)]) auto
    then show ?thesis using False l1 e by fastforce
  qed (use "2.prems"(3) in simp)
qed simp

lemma ghb_link_ok:
  assumes "ghb_wf g"
  shows "\<exists>g1. ghb_link g = Inr g1 \<and> ghb_wf g1 \<and> m_ghbHead g1 = m_ghbHead g \<and> m_ghbSize g1 = m_ghbSize g \<and>
    m_prefetchWidth g1 = m_prefetchWidth g \<and> m_prefetchDepth g1 = m_prefetchDepth g \<and> m_lastAddress g1 = m_lastAddress g"
proof -
  define prev where "prev = m_ghb g ! (if 0 < m_ghbHead g then m_ghbHead g - 1 else m_ghbSize g - 1)"
  define i where "i = table_search (ge_delta prev) (m_ghbTable g)"
  have p: "ghb_at g (if 0 < m_ghbHead g then m_ghbHead g - 1 else m_ghbSize g - 1) = Inr prev"
    unfolding prev_def using assms by (intro ghb_at_ok) (auto simp: ghb_wf_def)
  note link = ghb_link_def p Let_def prev_def [symmetric] i_def [symmetric]
  consider "ge_delta prev = INVALID_DELTA"
    | (old) "ge_delta prev \<noteq> INVALID_DELTA" "i \<noteq> m_tableSize g" "te_delta (m_ghbTable g ! i) = ge_delta prev"
    | (new) "ge_delta prev \<noteq> INVALID_DELTA" "\<not> (i \<noteq> m_tableSize g \<and> te_delta (m_ghbTable g ! i) = ge_delta prev)"
    by blast
  then show ?thesis
  proof cases
    case old
    have i: "i < length (m_ghbTable g)" using old(2) table_search_le [of "ge_delta prev" "m_ghbTable g"] assms
      by (auto simp: i_def ghb_wf_def)
    have t: "ghbIndex (m_ghbTable g ! i) < m_ghbSize g" using assms i old by (auto simp: ghb_wf_def list_all_length)
    then have "ghb_at g (ghbIndex (m_ghbTable g ! i)) = Inr (m_ghb g ! ghbIndex (m_ghbTable g ! i))" using ghb_at_ok [OF assms] by simp
    then show ?thesis using old t assms by (auto simp: link ghb_wf_def intro!: list_all_update)
  next
    case new
    then show ?thesis using assms by (auto simp: link ghb_wf_def intro!: list_all_update)
  qed (use assms in \<open>simp add: link\<close>)
qed

lemma ghb_next_ok:
  assumes "ghb_wf g0" "m_lastAddress g0 = INVALID_ADDRESS \<or> a - m_lastAddress g0 \<noteq> INVALID_DELTA"
  shows "\<exists>l g1. ghb_getNextAddress a g0 = Inr (l, g1) \<and> ghb_wf g1 \<and> distinct l \<and>
    length l \<le> m_prefetchWidth g0 * m_prefetchDepth g0 \<and> m_prefetchWidth g1 = m_prefetchWidth g0 \<and> m_prefetchDepth g1 = m_prefetchDepth g0 \<and> m_lastAddress g1 = a"
proof (cases "m_lastAddress g0 = INVALID_ADDRESS")
  case True
  then show ?thesis using assms(1) by (simp add: ghb_getNextAddress_def ghb_wf_def)
next
  case False
  define g where "g = g0\<lparr>m_lastAddress := a\<rparr>"
  define d where "d = a - m_lastAddress g0"
  define i where "i = table_search d (m_ghbTable g)"
  define g2 where "g2 = g\<lparr>m_ghb := (m_ghb g)[m_ghbHead g := \<lparr>nextIndex = INVALID_INDEX, ge_delta = d, ge_generation = m_generation g\<rparr>]\<rparr>"
  have wf: "ghb_wf g" and wd: "m_prefetchWidth g = m_prefetchWidth g0" "m_prefetchDepth g = m_prefetchDepth g0"
    using assms(1) by (simp_all add: g_def ghb_wf_def)
  have wf2: "ghb_wf g2" using wf by (auto simp: g2_def ghb_wf_def intro!: list_all_update)
  have "\<exists>l. (if i \<noteq> m_tableSize g \<and> te_delta (m_ghbTable g ! i) = d
      then bindE (ghb_at g (ghbIndex (m_ghbTable g ! i))) (\<lambda>e.
             if te_generation (m_ghbTable g ! i) = ge_generation e
             then ghb_width_loop g (ghbIndex (m_ghbTable g ! i)) a (m_prefetchWidth g) [] else Inr [])
      else Inr []) = Inr l \<and> distinct l \<and> length l \<le> m_prefetchWidth g * m_prefetchDepth g" (is "\<exists>l. ?m = Inr l \<and> _")
  proof (cases "i \<noteq> m_tableSize g \<and> te_delta (m_ghbTable g ! i) = d")
    case True
    then have "i < length (m_ghbTable g)" using table_search_le [of d "m_ghbTable g"] wf by (auto simp: i_def ghb_wf_def)
    then have t: "ghbIndex (m_ghbTable g ! i) < m_ghbSize g"
      using wf True assms(2) False by (auto simp: ghb_wf_def list_all_length d_def)
    from ghb_width_loop_ok [OF wf disjI2 [OF t], of "[]" a "m_prefetchWidth g"] ghb_at_ok [OF wf t] True
    show ?thesis by auto
  qed auto
  then obtain l where l: "?m = Inr l" "distinct l" "length l \<le> m_prefetchWidth g * m_prefetchDepth g" by blast
  obtain g3 where g3: "ghb_link g2 = Inr g3" "ghb_wf g3" "m_ghbHead g3 = m_ghbHead g2" "m_ghbSize g3 = m_ghbSize g2"
    "m_prefetchWidth g3 = m_prefetchWidth g2" "m_prefetchDepth g3 = m_prefetchDepth g2" "m_lastAddress g3 = m_lastAddress g2"
    using ghb_link_ok [OF wf2] by blast
  have h: "ghb_at g (m_ghbHead g) = Inr (m_ghb g ! m_ghbHead g)" using wf by (intro ghb_at_ok) (auto simp: ghb_wf_def)
  have "ghb_getNextAddress a g0 = Inr (l, if m_ghbHead g3 + 1 = m_ghbSize g3
      then g3\<lparr>m_ghbHead := 0, m_generation := (m_generation g3 + 1) mod 4\<rparr> else g3\<lparr>m_ghbHead := m_ghbHead g3 + 1\<rparr>)"
    unfolding ghb_getNextAddress_def Let_def g_def [symmetric] d_def [symmetric] i_def [symmetric] l(1)
    using False h g3(1) by (simp add: g2_def [symmetric])
  moreover have "m_prefetchWidth g2 = m_prefetchWidth g" "m_prefetchDepth g2 = m_prefetchDepth g" "m_lastAddress g2 = a"
    by (simp_all add: g2_def g_def)
  ultimately show ?thesis using l g3 wd by (auto simp: ghb_wf_def)
qed

fun ghb_run :: "IntPtr list \<Rightarrow> ghb_prefetcher \<Rightarrow> IntPtr list list result" where
  "ghb_run [] g = Inr []"
| "ghb_run (a # as) g = bindE (ghb_getNextAddress a g) (\<lambda>(l, g1). bindE (ghb_run as g1) (\<lambda>ls. Inr (l # ls)))"

fun no_invalid_delta :: "IntPtr \<Rightarrow> IntPtr list \<Rightarrow> bool" where
  "no_invalid_delta l [] = True"
| "no_invalid_delta l (a # as) = (a - l \<noteq> INVALID_DELTA \<and> no_invalid_delta a as)"

lemma ghb_run_ok:
  "ghb_wf g \<Longrightarrow> no_invalid_delta (m_lastAddress g) as \<Longrightarrow>
    \<exists>ls. ghb_run as g = Inr ls \<and> list_all (\<lambda>l. distinct l \<and> length l \<le> m_prefetchWidth g * m_prefetchDepth g) ls"
proof (induction as arbitrary: g)
  case (Cons a as)
  obtain l g1 where "ghb_getNextAddress a g = Inr (l, g1)" "ghb_wf g1" "distinct l"
    "length l \<le> m_prefetchWidth g * m_prefetchDepth g" "m_prefetchWidth g1 = m_prefetchWidth g"
    "m_prefetchDepth g1 = m_prefetchDepth g" "m_lastAddress g1 = a"
    using ghb_next_ok [OF Cons.prems(1), of a] Cons.prems(2) by auto
  then show ?case using Cons.IH [of g1] Cons.prems(2) by fastforce
qed simp

text \<open>
  The global history buffer prefetcher never leaves its tables: from a fresh prefetcher with non-empty tables,
  any sequence of accesses none of which is \<open>2 ^ 63 - 1\<close> bytes after the one before is answered without an
  out-of-bounds access; each answer has no duplicates and at most width times depth addresses.
\<close>

theorem ghb_stays_in_bounds:
  assumes "0 < n" "n \<le> INVALID_INDEX" "0 < m" "no_invalid_delta a as"
  shows "\<exists>ls. ghb_run (a # as) (GhbPrefetcher w d n m) = Inr ls \<and> list_all (\<lambda>l. distinct l \<and> length l \<le> w * d) ls"
proof -
  let ?g = "GhbPrefetcher w d n m"
  have wf: "ghb_wf ?g" using GhbPrefetcher_wf assms by blast
  have l: "m_lastAddress ?g = INVALID_ADDRESS" "m_prefetchWidth ?g = w" "m_prefetchDepth ?g = d" by (simp_all add: GhbPrefetcher_def)
  obtain l1 g1 where "ghb_getNextAddress a ?g = Inr (l1, g1)" "ghb_wf g1" "distinct l1" "length l1 \<le> w * d"
    "m_prefetchWidth g1 = w" "m_prefetchDepth g1 = d" "m_lastAddress g1 = a"
    using ghb_next_ok [OF wf disjI1 [OF l(1)], of a] l by auto
  then show ?thesis using ghb_run_ok [of g1 as] assms(4) by fastforce
qed

theorem ghb_stays_in_bounds_witness:
  "\<exists>ls. ghb_run [0, 64, 128, 192, 256] (GhbPrefetcher 2 2 8 4) = Inr ls \<and> list_all (\<lambda>l. distinct l \<and> length l \<le> 2 * 2) ls"
  using ghb_stays_in_bounds [of 8 4 0 "[64, 128, 192, 256]" 2 2] by (simp del: ghb_run.simps)

text \<open>
  The delta \<open>2 ^ 63 - 1\<close> is the mark of a free table entry: an access that far from the one before is taken to match
  a free entry, whose index is not a place of the buffer.
\<close>

lemma ghb_invalid_delta_out_of_bounds:
  assumes "n \<le> INVALID_INDEX" "0 < m"
  shows "ghb_run [0, INVALID_DELTA] (GhbPrefetcher w d n m) = Inl (UNDEFINED ''m_ghb out of bounds'')"
proof -
  obtain k where "m = Suc k" using assms(2) by (cases m) auto
  then show ?thesis using assms(1) by (simp add: GhbPrefetcher_def ghb_getNextAddress_def Let_def table_search_def ghb_at_def)
qed

section \<open>The stride prefetchers\<close>

text \<open>
  The simple prefetcher's list starts with the address of the access itself, and the Cortex-A53 prefetcher follows a
  descending run of lines upwards.
\<close>

lemma simple_prefetches_current_address:
  "map_sum id fst (bindE (simple_getNextAddress 4096 0 (SimplePrefetcher 0 1 1 False 3 True)) (\<lambda>(_, s). simple_getNextAddress 4160 0 s)) =
    Inr [4160, 4224, 4288]"
  by code_simp

lemma a53_descending_run_prefetched_upwards:
  "fst (a53_getNextAddress 3968 (snd (a53_getNextAddress 4032 (snd (a53_getNextAddress 4096 (A53Prefetcher 64 4 3 2 0)))))) = [4032, 4096]"
  by code_simp

lemma simple_stays_in_page:
  assumes "simple_getNextAddress a c s = Inr (l, s1)" "stop_at_page s"
  shows "list_all (\<lambda>x. x AND PAGE_MASK = a AND PAGE_MASK) l \<and> length l \<le> num_prefetches s"
  using assms by (auto simp: simple_getNextAddress_def Let_def list_all_iff split: if_splits
      intro: order.trans [OF length_filter_le])

end
