(* ===== verification/Sim_Monad.thy ===== *)
theory Sim_Monad
  imports Prelude
begin

text \<open>
  Stateful operations that may fail, for components that thread one state through many calls: an operation maps a
  state to an error or to a value and the state after it. The loops of the source over lists are
  \<open>foldS\<close>. \<open>specS P m Q\<close> says that \<open>m\<close>, started where \<open>P\<close> holds, either fails or ends in a value and a state
  with \<open>Q\<close>; its rules follow the structure of an operation.
\<close>

type_synonym ('s, 'a) op = "'s \<Rightarrow> ('a \<times> 's) result"

definition returnS :: "'a \<Rightarrow> ('s, 'a) op" where
  "returnS x = (\<lambda>s. Inr (x, s))"

definition bindS :: "('s, 'a) op \<Rightarrow> ('a \<Rightarrow> ('s, 'b) op) \<Rightarrow> ('s, 'b) op" where
  "bindS m f = (\<lambda>s. bindE (m s) (\<lambda>(x, s1). f x s1))"

definition thenS :: "('s, 'a) op \<Rightarrow> ('s, 'b) op \<Rightarrow> ('s, 'b) op" where
  "thenS m k = bindS m (\<lambda>_. k)"

definition failS :: "sim_error \<Rightarrow> ('s, 'a) op" where
  "failS e = (\<lambda>s. Inl e)"

definition getS :: "('s \<Rightarrow> 'a) \<Rightarrow> ('s, 'a) op" where
  "getS f = (\<lambda>s. Inr (f s, s))"

definition modifyS :: "('s \<Rightarrow> 's) \<Rightarrow> ('s, unit) op" where
  "modifyS f = (\<lambda>s. Inr ((), f s))"

definition assertS :: "bool \<Rightarrow> sim_error \<Rightarrow> ('s, unit) op" where
  "assertS b e = (if b then returnS () else failS e)"

definition liftS :: "('s \<Rightarrow> 'a result) \<Rightarrow> ('s, 'a) op" where
  "liftS f = (\<lambda>s. bindE (f s) (\<lambda>x. Inr (x, s)))"

definition whenS :: "bool \<Rightarrow> ('s, unit) op \<Rightarrow> ('s, unit) op" where
  "whenS b m = (if b then m else returnS ())"

fun foldS :: "('b \<Rightarrow> 'a \<Rightarrow> ('s, 'b) op) \<Rightarrow> 'b \<Rightarrow> 'a list \<Rightarrow> ('s, 'b) op" where
  "foldS f b [] = returnS b"
| "foldS f b (x # xs) = bindS (f b x) (\<lambda>b1. foldS f b1 xs)"

fun repeatS :: "nat \<Rightarrow> ('s, unit) op \<Rightarrow> ('s, unit) op" where
  "repeatS 0 m = returnS ()"
| "repeatS (Suc n) m = thenS m (repeatS n m)"

lemmas op_defs = returnS_def bindS_def thenS_def failS_def getS_def modifyS_def assertS_def liftS_def whenS_def

section \<open>Partial correctness\<close>

definition specS :: "('s \<Rightarrow> bool) \<Rightarrow> ('s, 'a) op \<Rightarrow> ('a \<Rightarrow> 's \<Rightarrow> bool) \<Rightarrow> bool" where
  "specS P m Q \<longleftrightarrow> (\<forall>s x s'. P s \<longrightarrow> m s = Inr (x, s') \<longrightarrow> Q x s')"

named_theorems specS_rules

lemma specSI: "(\<And>s x s'. P s \<Longrightarrow> m s = Inr (x, s') \<Longrightarrow> Q x s') \<Longrightarrow> specS P m Q"
  by (auto simp: specS_def)

lemma specSD: "specS P m Q \<Longrightarrow> P s \<Longrightarrow> m s = Inr (x, s') \<Longrightarrow> Q x s'"
  by (auto simp: specS_def)

lemma specS_weaken: "specS P m Q \<Longrightarrow> (\<And>s. P' s \<Longrightarrow> P s) \<Longrightarrow> (\<And>x s. Q x s \<Longrightarrow> Q' x s) \<Longrightarrow> specS P' m Q'"
  unfolding specS_def by blast

lemma specS_pre: "specS P m Q \<Longrightarrow> (\<And>s. P' s \<Longrightarrow> P s) \<Longrightarrow> specS P' m Q"
  by (auto simp: specS_def)

lemma specS_post: "specS P m Q \<Longrightarrow> (\<And>x s. Q x s \<Longrightarrow> Q' x s) \<Longrightarrow> specS P m Q'"
  by (auto simp: specS_def)

lemma specS_return [specS_rules]: "(\<And>s. P s \<Longrightarrow> Q x s) \<Longrightarrow> specS P (returnS x) Q"
  by (auto simp: specS_def returnS_def)

lemma specS_bind: "specS P m R \<Longrightarrow> (\<And>x. specS (R x) (f x) Q) \<Longrightarrow> specS P (bindS m f) Q"
  unfolding specS_def bindS_def by (fastforce elim!: bindE_eq_InrE)

lemma specS_then: "specS P m (\<lambda>_. R) \<Longrightarrow> specS R k Q \<Longrightarrow> specS P (thenS m k) Q"
  unfolding thenS_def by (rule specS_bind)

lemma specS_fail [specS_rules]: "specS P (failS e) Q"
  by (simp add: specS_def failS_def)

lemma specS_get [specS_rules]: "(\<And>s. P s \<Longrightarrow> Q (f s) s) \<Longrightarrow> specS P (getS f) Q"
  by (auto simp: specS_def getS_def)

lemma specS_modify [specS_rules]: "(\<And>s. P s \<Longrightarrow> Q () (f s)) \<Longrightarrow> specS P (modifyS f) Q"
  by (auto simp: specS_def modifyS_def)

lemma specS_assert [specS_rules]: "(\<And>s. P s \<Longrightarrow> b \<Longrightarrow> Q () s) \<Longrightarrow> specS P (assertS b e) Q"
  by (auto simp: specS_def op_defs split: if_splits)

lemma specS_lift [specS_rules]: "(\<And>s x. P s \<Longrightarrow> f s = Inr x \<Longrightarrow> Q x s) \<Longrightarrow> specS P (liftS f) Q"
  by (auto simp: specS_def liftS_def elim!: bindE_eq_InrE)

lemma specS_when [specS_rules]: "(b \<Longrightarrow> specS P m Q) \<Longrightarrow> (\<not> b \<Longrightarrow> (\<And>s. P s \<Longrightarrow> Q () s)) \<Longrightarrow> specS P (whenS b m) Q"
  by (auto simp: whenS_def returnS_def specS_def)

lemma specS_if: "(b \<Longrightarrow> specS P m Q) \<Longrightarrow> (\<not> b \<Longrightarrow> specS P k Q) \<Longrightarrow> specS P (if b then m else k) Q"
  by simp

lemma specS_fold: "(\<And>b x. x \<in> set xs \<Longrightarrow> specS (I b) (f b x) I) \<Longrightarrow> specS (I b) (foldS f b xs) I"
proof (induction xs arbitrary: b)
  case (Cons x xs)
  show ?case unfolding foldS.simps
  proof (rule specS_bind)
    show "specS (I b) (f b x) I" using Cons.prems by simp
    show "specS (I b1) (foldS f b1 xs) I" for b1 using Cons.prems by (intro Cons.IH) simp
  qed
qed (auto intro: specS_return)

lemma specS_repeat: "specS P m (\<lambda>_. P) \<Longrightarrow> specS P (repeatS n m) (\<lambda>_. P)"
  by (induction n) (auto intro: specS_return specS_then)

text \<open>An assumption on the state that does not depend on it can be drawn out.\<close>

lemma specS_prop: "(A \<Longrightarrow> specS P m Q) \<Longrightarrow> specS (\<lambda>s. A \<and> P s) m Q"
  by (auto simp: specS_def)

lemma specS_conj: "specS P m Q \<Longrightarrow> specS P' m Q' \<Longrightarrow> specS (\<lambda>s. P s \<and> P' s) m (\<lambda>x s. Q x s \<and> Q' x s)"
  by (auto simp: specS_def)

end
