(* ===== verification/Cache_Hierarchy.thy ===== *)
theory Cache_Hierarchy
  imports Dram_Cntlr Prefetchers Sim_Monad
begin

text \<open>
  \<^verbatim>\<open>parametric_dram_directory_msi/cache_cntlr.{h,cc}\<close>: the controllers of the private and shared caches
  between the cores and the tag directories. Every core has one controller per level; controllers that
  share a cache share a master with the cache itself. What the constructor and the set-up functions fix for
  good is the configuration (\<open>hier_cfg\<close>): per controller its level, core, flags and latencies, its master and the
  controller of the next level; per master the controllers of the previous level. Controllers and masters are
  numbered; a pointer is a number. The state (\<open>hier\<close>) holds the masters, the counters, the clocks of the two
  threads of each core and the messages sent.

  An operation of the source that runs under the lock of the line's set is one operation here. A user thread that
  has to wait for the directory stops at the wait and is kept in \<open>h_pending\<close>; the handler that wakes it up runs the
  rest of it, as the stack lock is handed over. The locks themselves, the bodies compiled under
  \<^verbatim>\<open>ENABLE_TRACK_SHARING_PREVCACHES\<close>, \<^verbatim>\<open>ENABLE_TRANSITIONS\<close>, \<^verbatim>\<open>TRACK_LATENCY_BY_HITWHERE\<close> and
  \<^verbatim>\<open>PRIVATE_L2_OPTIMIZATION\<close> (all switched off), the attribution of time in \<^verbatim>\<open>ShmemPerf\<close>, the
  auxiliary tag directories, the cache efficiency callbacks, the access log and the bookkeeping of program counters and access paths that goes
  with it (an operation whose program counter was not announced before it ends the process) are left out. Calls that follow the chain of levels carry a bound on
  the number of levels; running out of it is \<open>NONTERMINATION\<close>.
\<close>

abbreviation (input) LAST_LEVEL_CACHE :: component_t where "LAST_LEVEL_CACHE \<equiv> 20"

section \<open>Configuration and state\<close>

datatype mem_op_t = READ | READ_EX | WRITE

datatype lock_signal_t = NO_LOCK | LOCK | UNLOCK

datatype reason_t = CORE_RD | CORE_WR | CORE_RDEX | UPGRADE | EVICT | BACK_INVAL | COHERENCY

datatype prefetch_type_t = PF_NONE | PF_OWN | PF_OTHER

datatype thread_t = USER_THREAD | SIM_THREAD

datatype cache_access_t = ACCESS_CACHE_DATA_AND_TAGS | ACCESS_CACHE_DATA | ACCESS_CACHE_TAGS

datatype perf_model_t = CACHE_PERF_MODEL_PARALLEL | CACHE_PERF_MODEL_SEQUENTIAL

record cache_perf_model =
  cpm_type :: perf_model_t
  m_cache_data_access_time :: component_latency
  m_cache_tags_access_time :: component_latency
  cpm_enabled :: bool

definition parseModelType :: "string \<Rightarrow> perf_model_t result" where
  "parseModelType model_type =
     (if model_type = ''parallel'' then Inr CACHE_PERF_MODEL_PARALLEL
      else if model_type = ''sequential'' then Inr CACHE_PERF_MODEL_SEQUENTIAL
      else Inl (LOG_PRINT_ERROR ''Unsupported CacheModel type''))"

definition CachePerfModel_create :: "string \<Rightarrow> component_latency \<Rightarrow> component_latency \<Rightarrow> cache_perf_model result" where
  "CachePerfModel_create model_type data_time tags_time =
     bindE (parseModelType model_type) (\<lambda>ty.
       Inr \<lparr>cpm_type = ty, m_cache_data_access_time = data_time, m_cache_tags_access_time = tags_time, cpm_enabled = False\<rparr>)"

definition cpm_getLatency :: "cache_perf_model \<Rightarrow> cache_access_t \<Rightarrow> UInt64" where
  "cpm_getLatency m access =
     (if \<not> cpm_enabled m then 0
      else
        case access of
          ACCESS_CACHE_TAGS \<Rightarrow> cl_getLatency (m_cache_tags_access_time m)
        | ACCESS_CACHE_DATA \<Rightarrow> cl_getLatency (m_cache_data_access_time m)
        | ACCESS_CACHE_DATA_AND_TAGS \<Rightarrow>
            (case cpm_type m of
               CACHE_PERF_MODEL_PARALLEL \<Rightarrow> cl_getLatency (m_cache_data_access_time m)
             | CACHE_PERF_MODEL_SEQUENTIAL \<Rightarrow>
                 cl_getLatency (m_cache_data_access_time m) + cl_getLatency (m_cache_tags_access_time m)))"

record cntlr_cfg =
  cc_mem_component :: component_t
  cc_core_id :: core_id_t
  cc_core_id_master :: core_id_t
  cc_master :: nat
  cc_next :: "nat option"
  cc_perfect :: bool
  cc_passthrough :: bool
  cc_coherent :: bool
  cc_prefetch_on_prefetch_hit :: bool
  cc_train_prefetcher_on_hit :: bool
  cc_prefetch_delay :: bool
  cc_l1_mshr :: bool
  cc_cache_block_size :: UInt32
  cc_writethrough :: bool
  cc_writeback_time :: component_latency
  cc_next_level_read_bandwidth :: component_bandwidth_per_cycle
  cc_perf_model :: cache_perf_model
  cc_logged :: bool

record hier_cfg =
  hc_cntlrs :: "nat \<Rightarrow> cntlr_cfg"
  hc_prevs :: "nat \<Rightarrow> nat list"
  hc_home :: address_home_lookup
  hc_cache_only :: bool
  hc_get_owner :: "(core_id_t \<Rightarrow> IntPtr \<Rightarrow> UInt64) option"
  hc_dram_env :: dram_env
  hc_uninit :: "UInt8 list"
  hc_levels :: nat

record cache_directory_waiter =
  cdw_exclusive :: bool
  cdw_isPrefetch :: bool
  cdw_cache_cntlr :: nat
  cdw_t_issue :: UInt64

record cache_master =
  m_cache :: cache
  m_prefetcher :: "prefetcher option"
  m_dram_cntlr :: "dram_cntlr option"
  m_dram_outstanding_writebacks :: "contention_model option"
  m_mshr :: "(IntPtr \<times> UInt64 \<times> UInt64) list"
  m_l1_mshr :: contention_model
  m_next_level_read :: contention_model
  m_directory_waiters :: "cache_directory_waiter req_queue_list"
  m_evicting_address :: IntPtr
  m_evicting_buf :: "UInt8 list option"
  m_prefetch_list :: "IntPtr list"
  m_prefetch_next :: UInt64

datatype stat =
    TOTAL_ACCESS | TOTAL_LOADS | TOTAL_STORES
  | LOADS | STORES | LOAD_MISSES | STORE_MISSES | LOAD_OVERLAPPING_MISSES | STORE_OVERLAPPING_MISSES
  | LOADS_STATE cstate_t | STORES_STATE cstate_t | LOADS_WHERE where_t | STORES_WHERE where_t
  | LOAD_MISSES_STATE cstate_t | STORE_MISSES_STATE cstate_t | LOADS_PREFETCH | STORES_PREFETCH
  | HITS_PREFETCH | EVICT_PREFETCH | INVALIDATE_PREFETCH | EVICT_STATE cstate_t | BACKINVAL_STATE cstate_t
  | HITS_WARMUP | EVICT_WARMUP | INVALIDATE_WARMUP
  | TOTAL_LATENCY | SNOOP_LATENCY | QBS_QUERY_LATENCY | MSHR_LATENCY | PREFETCHES
  | COHERENCY_DOWNGRADES | COHERENCY_UPGRADES | COHERENCY_INVALIDATES | COHERENCY_WRITEBACKS

text \<open>What a user thread was doing when it started to wait for the network thread.\<close>

record mem_op =
  mo_cntlr :: nat
  mo_lock_signal :: lock_signal_t
  mo_mem_op_type :: mem_op_t
  mo_ca_address :: IntPtr
  mo_offset :: UInt32
  mo_data_buf :: "UInt8 list option"
  mo_data_length :: UInt32
  mo_modeled :: bool
  mo_count :: bool
  mo_t_start :: UInt64
  mo_t_miss_begin :: UInt64
  mo_t_mshr_avail :: UInt64

datatype pending =
    InMemOp mem_op
  | InPrefetch nat IntPtr UInt64 UInt64 UInt64

record hier =
  h_masters :: "nat \<Rightarrow> cache_master"
  h_stats :: "nat \<Rightarrow> stat \<Rightarrow> UInt64"
  h_last_remote_hit_where :: "nat \<Rightarrow> where_t"
  h_elapsed :: "core_id_t \<Rightarrow> thread_t \<Rightarrow> UInt64"
  h_sent :: "(core_id_t \<times> receiver_t \<times> shmem_msg \<times> UInt64) list"
  h_pending :: "core_id_t \<Rightarrow> pending option"
  h_done :: "(core_id_t \<times> where_t \<times> UInt8 list option) list"

type_synonym 'a hop = "(hier, 'a) op"

section \<open>Access to the state\<close>

abbreviation (input) CFG :: "hier_cfg \<Rightarrow> nat \<Rightarrow> cntlr_cfg" where "CFG g i \<equiv> hc_cntlrs g i"

definition the_master :: "hier_cfg \<Rightarrow> nat \<Rightarrow> hier \<Rightarrow> cache_master" where
  "the_master g i h = h_masters h (cc_master (CFG g i))"

definition updMaster :: "hier_cfg \<Rightarrow> nat \<Rightarrow> (cache_master \<Rightarrow> cache_master) \<Rightarrow> unit hop" where
  "updMaster g i f = modifyS (\<lambda>h. h\<lparr>h_masters := (h_masters h)(cc_master (CFG g i) := f (the_master g i h))\<rparr>)"

definition the_cache :: "hier_cfg \<Rightarrow> nat \<Rightarrow> hier \<Rightarrow> cache" where
  "the_cache g i h = m_cache (the_master g i h)"

definition setCache :: "hier_cfg \<Rightarrow> nat \<Rightarrow> cache \<Rightarrow> unit hop" where
  "setCache g i c = updMaster g i (m_cache_update (\<lambda>_. c))"

definition prevs :: "hier_cfg \<Rightarrow> nat \<Rightarrow> nat list" where
  "prevs g i = hc_prevs g (cc_master (CFG g i))"

definition theNext :: "hier_cfg \<Rightarrow> nat \<Rightarrow> nat hop" where
  "theNext g i = (case cc_next (CFG g i) of None \<Rightarrow> failS (UNDEFINED ''m_next_cache_cntlr is NULL'') | Some j \<Rightarrow> returnS j)"

definition addStat :: "nat \<Rightarrow> stat \<Rightarrow> UInt64 \<Rightarrow> unit hop" where
  "addStat i x n = modifyS (\<lambda>h. h\<lparr>h_stats := (h_stats h)(i := (h_stats h i)(x := h_stats h i x + n))\<rparr>)"

definition getElapsed :: "hier_cfg \<Rightarrow> nat \<Rightarrow> thread_t \<Rightarrow> UInt64 hop" where
  "getElapsed g i th = getS (\<lambda>h. h_elapsed h (cc_core_id (CFG g i)) th)"

definition setElapsed :: "hier_cfg \<Rightarrow> nat \<Rightarrow> thread_t \<Rightarrow> UInt64 \<Rightarrow> unit hop" where
  "setElapsed g i th t =
     modifyS (\<lambda>h. h\<lparr>h_elapsed := (h_elapsed h)(cc_core_id (CFG g i) := (h_elapsed h (cc_core_id (CFG g i)))(th := t))\<rparr>)"

definition incrElapsed :: "hier_cfg \<Rightarrow> nat \<Rightarrow> UInt64 \<Rightarrow> thread_t \<Rightarrow> unit hop" where
  "incrElapsed g i latency th =
     bindS (getElapsed g i th) (\<lambda>t0. bindS (liftS (\<lambda>_. incrElapsedTime latency t0)) (\<lambda>t. setElapsed g i th t))"

definition incrElapsed_access :: "hier_cfg \<Rightarrow> nat \<Rightarrow> cache_access_t \<Rightarrow> thread_t \<Rightarrow> unit hop" where
  "incrElapsed_access g i access th = incrElapsed g i (cpm_getLatency (cc_perf_model (CFG g i)) access) th"

definition cc_sendMsg ::
  "hier_cfg \<Rightarrow> nat \<Rightarrow> msg_t \<Rightarrow> core_id_t \<Rightarrow> core_id_t \<Rightarrow> IntPtr \<Rightarrow> UInt8 list option \<Rightarrow> thread_t \<Rightarrow> unit hop" where
  "cc_sendMsg g i ty requester receiver address data th =
     bindS (getElapsed g i th) (\<lambda>t. modifyS (\<lambda>h. h\<lparr>h_sent := h_sent h @
       [(cc_core_id_master (CFG g i), To receiver,
         \<lparr>m_msg_type = ty, m_sender_mem_component = LAST_LEVEL_CACHE, m_receiver_mem_component = TAG_DIR,
          m_requester = requester, msg_address = address, m_data_buf = data, m_where = UNKNOWN\<rparr>, t)]\<rparr>))"

definition home_of :: "hier_cfg \<Rightarrow> IntPtr \<Rightarrow> core_id_t hop" where
  "home_of g address = liftS (\<lambda>_. getHome (hc_home g) address)"

text \<open>The enumerator of \<^verbatim>\<open>HitWhere\<close> with the number of a component; 7 and up are not cache levels.\<close>

definition where_of_nat :: "nat \<Rightarrow> where_t" where
  "where_of_nat n =
     (if n = 2 then L1I else if n = 3 then L1_OWN else if n = 4 then L2_OWN else if n = 5 then L3_OWN
      else if n = 6 then L4_OWN else if n = 7 then MISS else if n = 8 then NUCA_CACHE else if n = 9 then DRAM_CACHE
      else if n = 10 then DRAM else if n = 11 then DRAM_LOCAL else if n = 12 then DRAM_REMOTE
      else if n = 13 then CACHE_REMOTE else if n = 14 then SIBLING else if n = 17 then L1_SIBLING
      else if n = 18 then L2_SIBLING else if n = 19 then L3_SIBLING else if n = 20 then L4_SIBLING
      else if n = 0 then WHERE_FIRST else UNKNOWN)"

abbreviation (input) SIBLING_OFFSET :: nat where "SIBLING_OFFSET \<equiv> 14"

end
