(* ===== verification/Cache_Cntlr.thy ===== *)
theory Cache_Cntlr
  imports Cache_Hierarchy
begin

text \<open>
  The operations of a cache controller on its own lines and on the levels around it
  (\<^verbatim>\<open>cache_cntlr.cc\<close>): looking lines up, inserting, updating and writing them, and the requests to the directory.
\<close>

section \<open>Lines of one cache\<close>

text \<open>A change of a line through the pointer that a lookup returned.\<close>

definition updLine :: "cache \<Rightarrow> IntPtr \<Rightarrow> (cache_block_info \<Rightarrow> cache_block_info) \<Rightarrow> cache result" where
  "updLine c addr f =
     bindE (splitAddress (base c) addr) (\<lambda>(tag, set_index).
     bindE (get_set c set_index) (\<lambda>(s, p).
       case find_line s tag of
         None \<Rightarrow> Inl (UNDEFINED ''cache_block_info is NULL'')
       | Some line_index \<Rightarrow>
           Inr (put_set c set_index
                  (s\<lparr>m_cache_block_info_array := (m_cache_block_info_array s)[line_index := f (m_cache_block_info_array s ! line_index)]\<rparr>)
                  p (m_set_info c))))"

definition getCacheBlockInfo :: "hier_cfg \<Rightarrow> nat \<Rightarrow> IntPtr \<Rightarrow> cache_block_info option hop" where
  "getCacheBlockInfo g i address = liftS (\<lambda>h. peekSingleLine (the_cache g i h) address)"

definition state_of :: "cache_block_info option \<Rightarrow> cstate_t" where
  "state_of b = (case b of None \<Rightarrow> INVALID | Some x \<Rightarrow> m_cstate x)"

definition getCacheState :: "hier_cfg \<Rightarrow> nat \<Rightarrow> IntPtr \<Rightarrow> cstate_t hop" where
  "getCacheState g i address = bindS (getCacheBlockInfo g i address) (\<lambda>b. returnS (state_of b))"

definition updBlock :: "hier_cfg \<Rightarrow> nat \<Rightarrow> IntPtr \<Rightarrow> (cache_block_info \<Rightarrow> cache_block_info) \<Rightarrow> unit hop" where
  "updBlock g i address f = bindS (liftS (\<lambda>h. updLine (the_cache g i h) address f)) (\<lambda>c. setCache g i c)"

definition setCacheState :: "hier_cfg \<Rightarrow> nat \<Rightarrow> IntPtr \<Rightarrow> cstate_t \<Rightarrow> unit hop" where
  "setCacheState g i address cstate = updBlock g i address (\<lambda>b. b\<lparr>m_cstate := cstate\<rparr>)"

definition permissible :: "cstate_t \<Rightarrow> mem_op_t \<Rightarrow> bool" where
  "permissible cstate op = (case op of READ \<Rightarrow> readable cstate | READ_EX \<Rightarrow> writable cstate | WRITE \<Rightarrow> writable cstate)"

definition operationPermissibleinCache :: "hier_cfg \<Rightarrow> nat \<Rightarrow> IntPtr \<Rightarrow> mem_op_t \<Rightarrow> bool hop" where
  "operationPermissibleinCache g i address op =
     bindS (getCacheState g i address) (\<lambda>cstate. returnS (permissible cstate op))"

definition invalidateCacheBlock :: "hier_cfg \<Rightarrow> nat \<Rightarrow> IntPtr \<Rightarrow> unit hop" where
  "invalidateCacheBlock g i address =
     bindS (getCacheState g i address) (\<lambda>old_cstate.
     thenS (assertS (old_cstate \<noteq> MODIFIED) (ASSERT ''old_cstate != MODIFIED''))
    (thenS (assertS (old_cstate \<noteq> INVALID) (ASSERT ''old_cstate != INVALID''))
    (bindS (liftS (\<lambda>h. invalidateSingleLine (the_cache g i h) address)) (\<lambda>(_, c). setCache g i c))))"

definition retrieveCacheBlock :: "hier_cfg \<Rightarrow> nat \<Rightarrow> IntPtr \<Rightarrow> bool \<Rightarrow> UInt8 list hop" where
  "retrieveCacheBlock g i address update_replacement =
     bindS (liftS (\<lambda>h. accessSingleLine (the_cache g i h) address LOAD (Some (hc_uninit g))
                        (cc_cache_block_size (CFG g i)) update_replacement)) (\<lambda>(line, data, c).
     thenS (setCache g i c)
    (thenS (assertS (line \<noteq> None) (LOG_ASSERT_ERROR ''Expected block to be there but it wasn't''))
       (returnS (case data of Some d \<Rightarrow> d | None \<Rightarrow> hc_uninit g))))"

section \<open>Writing to the next level\<close>

definition write_line_here :: "hier_cfg \<Rightarrow> nat \<Rightarrow> IntPtr \<Rightarrow> UInt32 \<Rightarrow> UInt8 list option \<Rightarrow> UInt32 \<Rightarrow> unit hop" where
  "write_line_here g i address offset data data_length =
     bindS (liftS (\<lambda>h. accessSingleLine (the_cache g i h) (address + ucast offset) STORE data data_length False)) (\<lambda>(line, _, c).
     thenS (setCache g i c)
    (thenS (assertS (line \<noteq> None) (LOG_ASSERT_ERROR ''writethrough expected a hit at next-level cache but got miss''))
    (bindS (getCacheState g i (address + ucast offset)) (\<lambda>cstate.
       assertS (cstate = MODIFIED) (LOG_ASSERT_ERROR ''Got writeback for non-MODIFIED line'')))))"

primrec writeCacheBlock :: "nat \<Rightarrow> hier_cfg \<Rightarrow> nat \<Rightarrow> IntPtr \<Rightarrow> UInt32 \<Rightarrow> UInt8 list option \<Rightarrow> UInt32 \<Rightarrow> unit hop" where
  "writeCacheBlock 0 g i address offset data data_length = failS (NONTERMINATION ''writeCacheBlock'')"
| "writeCacheBlock (Suc n) g i address offset data data_length =
     thenS
       (bindS (getS (the_master g i)) (\<lambda>m.
          case m_evicting_buf m of
            Some buf \<Rightarrow>
              if address = m_evicting_address m
              then
                thenS (assertS (offset = 0) (ASSERT ''offset==0''))
               (thenS (assertS (data_length = cc_cache_block_size (CFG g i)) (ASSERT ''data_length==getCacheBlockSize()''))
                  (case data of
                     None \<Rightarrow> returnS ()
                   | Some d \<Rightarrow> updMaster g i (m_evicting_buf_update (\<lambda>_. Some (take (unat data_length) d @ drop (unat data_length) buf)))))
              else write_line_here g i address offset data data_length
          | None \<Rightarrow> write_line_here g i address offset data data_length))
       (if cc_writethrough (CFG g i)
        then bindS (theNext g i) (\<lambda>j. writeCacheBlock n g j address offset data data_length)
        else returnS ())"

section \<open>Changing the state of a line in this and the previous levels\<close>

text \<open>
  The part of \<^verbatim>\<open>updateCacheBlock\<close> after the previous levels have been updated. \<open>want_data\<close> says that a buffer for the
  data was passed; the result is the latency, whether data was found, and the data.
\<close>

definition count_update :: "nat \<Rightarrow> cache_block_info \<Rightarrow> cstate_t \<Rightarrow> reason_t \<Rightarrow> unit hop" where
  "count_update i b new_cstate reason =
     thenS
       (whenS (reason = COHERENCY)
          (thenS (addStat i (if new_cstate = SHARED then COHERENCY_DOWNGRADES
                             else if m_cstate b = MODIFIED then COHERENCY_WRITEBACKS else COHERENCY_INVALIDATES) 1)
          (thenS (whenS (hasOption b PREFETCH \<and> new_cstate = INVALID) (addStat i INVALIDATE_PREFETCH 1))
                 (whenS (hasOption b WARMUP \<and> new_cstate = INVALID) (addStat i INVALIDATE_WARMUP 1)))))
       (if reason = UPGRADE then addStat i COHERENCY_UPGRADES 1
        else whenS (reason = BACK_INVAL) (addStat i (BACKINVAL_STATE (m_cstate b)) 1))"

definition write_back :: "hier_cfg \<Rightarrow> nat \<Rightarrow> IntPtr \<Rightarrow> bool \<Rightarrow> bool \<times> UInt8 list option \<Rightarrow> (bool \<times> UInt8 list option) hop" where
  "write_back g i address want_data r =
     bindS
       (if cc_writethrough (CFG g i) then returnS r
        else
          case cc_next (CFG g i) of
            Some j \<Rightarrow>
              bindS (retrieveCacheBlock g i address False) (\<lambda>data.
              thenS (writeCacheBlock (hc_levels g) g j address 0 (Some data) (cc_cache_block_size (CFG g i)))
                (returnS (True, snd r)))
          | None \<Rightarrow>
              if want_data then bindS (retrieveCacheBlock g i address False) (\<lambda>data. returnS (True, Some data))
              else failS (LOG_ASSERT_ERROR ''MODIFIED data is about to get lost!''))
       (\<lambda>r1. thenS (setCacheState g i address SHARED) (returnS r1))"

definition change_state :: "hier_cfg \<Rightarrow> nat \<Rightarrow> IntPtr \<Rightarrow> cstate_t \<Rightarrow> bool \<Rightarrow> bool \<times> UInt8 list option \<Rightarrow> (bool \<times> UInt8 list option) hop" where
  "change_state g i address new_cstate want_data r =
     (if new_cstate = INVALID
      then
        bindS (if want_data then bindS (retrieveCacheBlock g i address False) (\<lambda>data. returnS (True, Some data)) else returnS r) (\<lambda>r1.
        thenS (whenS (cc_coherent (CFG g i)) (invalidateCacheBlock g i address)) (returnS r1))
      else if new_cstate = SHARED
      then
        bindS (if want_data then bindS (retrieveCacheBlock g i address False) (\<lambda>data. returnS (True, Some data)) else returnS r) (\<lambda>r1.
        thenS (setCacheState g i address SHARED) (returnS r1))
      else if new_cstate = MODIFIED then thenS (setCacheState g i address MODIFIED) (returnS r)
      else failS (LOG_ASSERT_ERROR ''Cannot change block status''))"

definition update_here :: "hier_cfg \<Rightarrow> nat \<Rightarrow> IntPtr \<Rightarrow> cstate_t \<Rightarrow> reason_t \<Rightarrow> bool \<Rightarrow> (bool \<times> UInt8 list option) hop" where
  "update_here g i address new_cstate reason want_data =
     bindS (getCacheBlockInfo g i address) (\<lambda>block.
       case block of
         None \<Rightarrow> returnS (False, None)
       | Some b \<Rightarrow>
           if new_cstate = m_cstate b \<and> want_data
           then bindS (retrieveCacheBlock g i address False) (\<lambda>data. returnS (True, Some data))
           else
             thenS (count_update i b new_cstate reason)
            (bindS (if m_cstate b = MODIFIED then write_back g i address want_data (False, None) else returnS (False, None)) (\<lambda>r.
               change_state g i address new_cstate want_data r)))"

primrec updateCacheBlock ::
  "nat \<Rightarrow> hier_cfg \<Rightarrow> nat \<Rightarrow> IntPtr \<Rightarrow> cstate_t \<Rightarrow> reason_t \<Rightarrow> bool \<Rightarrow> (UInt64 \<times> bool \<times> UInt8 list option) hop" where
  "updateCacheBlock 0 g i address new_cstate reason want_data = failS (NONTERMINATION ''updateCacheBlock'')"
| "updateCacheBlock (Suc n) g i address new_cstate reason want_data =
     thenS (assertS (new_cstate \<notin> {INVALID_COLD, INVALID_EVICT, INVALID_COHERENCY}) (LOG_ASSERT_ERROR ''Invalid new cstate''))
    (bindS (foldS (\<lambda>sibling_hit p.
              bindS (updateCacheBlock n g p address new_cstate (if reason = EVICT then BACK_INVAL else reason) False)
                (\<lambda>(_, hit, _). returnS (sibling_hit \<or> hit))) False (prevs g i)) (\<lambda>sibling_hit.
     bindS (update_here g i address new_cstate reason want_data) (\<lambda>(is_writeback, data).
     bindS (getCacheState g i address) (\<lambda>cstate.
     thenS (assertS (cstate = INVALID \<or> cstate = new_cstate \<or> \<not> cc_coherent (CFG g i)) (LOG_ASSERT_ERROR ''state didn't change as we wanted''))
    (thenS (assertS (want_data \<longrightarrow> data \<noteq> None) (LOG_ASSERT_ERROR ''out_buf passed in but never written to''))
       (returnS (if is_writeback then cl_getLatency (cc_writeback_time (CFG g i)) else 0, sibling_hit \<or> is_writeback, data)))))))"

section \<open>Inserting a line\<close>

definition isInLowerLevelCache :: "hier_cfg \<Rightarrow> nat \<Rightarrow> hier \<Rightarrow> cache_block_info \<Rightarrow> bool" where
  "isInLowerLevelCache g i h b =
     (let address = tagToAddress (base (the_cache g i h)) (m_tag b)
      in list_ex (\<lambda>p. case peekSingleLine (the_cache g p h) address of Inr (Some _) \<Rightarrow> True | _ \<Rightarrow> False) (prevs g i))"

definition qbsLookupCost :: "hier_cfg \<Rightarrow> nat \<Rightarrow> unit hop" where
  "qbsLookupCost g i =
     (let latency = cl_getLatency (cc_writeback_time (CFG g i))
      in thenS (incrElapsed g i latency USER_THREAD) (addStat i QBS_QUERY_LATENCY latency))"

definition accessDRAM :: "hier_cfg \<Rightarrow> nat \<Rightarrow> mem_op_t \<Rightarrow> IntPtr \<Rightarrow> UInt8 list \<Rightarrow> (where_t \<times> UInt64 \<times> UInt8 list) hop" where
  "accessDRAM g i op address data =
     bindS (getElapsed g i USER_THREAD) (\<lambda>t_issue.
     bindS (liftS (\<lambda>h.
       case m_dram_cntlr (the_master g i h) of
         None \<Rightarrow> Inl (UNDEFINED ''m_dram_cntlr is NULL'')
       | Some d \<Rightarrow>
           if op = READ
           then bindE (getDataFromDram (hc_dram_env g) data address (cc_core_id_master (CFG g i)) t_issue (Some ShmemPerf) d) (\<lambda>(l, w, buf, _, d1).
                  Inr (w, l, buf, d1))
           else bindE (putDataToDram (hc_dram_env g) address (cc_core_id_master (CFG g i)) (Some data) t_issue d) (\<lambda>(l, w, d1).
                  Inr (w, l, data, d1)))) (\<lambda>(w, l, buf, d1).
     thenS (updMaster g i (m_dram_cntlr_update (\<lambda>_. Some d1))) (returnS (w, l, buf))))"

definition evict_previous :: "hier_cfg \<Rightarrow> nat \<Rightarrow> IntPtr \<Rightarrow> UInt8 list \<Rightarrow> thread_t \<Rightarrow> UInt8 list hop" where
  "evict_previous g i evict_address evict_buf th =
     (if prevs g i = [] then returnS evict_buf
      else
        thenS (updMaster g i (\<lambda>m. m\<lparr>m_evicting_address := evict_address, m_evicting_buf := Some evict_buf\<rparr>))
       (bindS (foldS (\<lambda>latency p.
                 bindS (updateCacheBlock (hc_levels g) g p evict_address INVALID BACK_INVAL False)
                   (\<lambda>(l, _, _). returnS (max latency l))) 0 (prevs g i)) (\<lambda>latency.
        thenS (incrElapsed g i latency th)
       (thenS (addStat i SNOOP_LATENCY latency)
       (bindS (getS (\<lambda>h. m_evicting_buf (the_master g i h))) (\<lambda>buf.
        thenS (updMaster g i (\<lambda>m. m\<lparr>m_evicting_address := 0, m_evicting_buf := None\<rparr>))
          (returnS (case buf of Some b \<Rightarrow> b | None \<Rightarrow> evict_buf))))))))"

definition dispose :: "hier_cfg \<Rightarrow> nat \<Rightarrow> IntPtr \<Rightarrow> cstate_t \<Rightarrow> UInt8 list \<Rightarrow> thread_t \<Rightarrow> unit hop" where
  "dispose g i evict_address evict_state evict_buf th =
     (let c = CFG g i in
      if cc_perfect c then returnS ()
      else if \<not> cc_coherent c
      then whenS (\<not> cc_writethrough c) (assertS (evict_state \<noteq> MODIFIED) (LOG_ASSERT_ERROR ''Non-coherent cache is throwing away dirty data''))
      else
        case cc_next c of
          Some j \<Rightarrow>
            whenS (\<not> cc_writethrough c \<and> evict_state = MODIFIED)
              (writeCacheBlock (hc_levels g) g j evict_address 0 (Some evict_buf) (cc_cache_block_size c))
        | None \<Rightarrow>
            bindS (getS (\<lambda>h. m_dram_cntlr (the_master g i h) \<noteq> None)) (\<lambda>has_dram.
              if has_dram
              then
                whenS (evict_state = MODIFIED)
                  (bindS (getElapsed g i USER_THREAD) (\<lambda>t_now.
                   bindS (getS (\<lambda>h. m_dram_outstanding_writebacks (the_master g i h))) (\<lambda>wb.
                   thenS (case wb of None \<Rightarrow> returnS () | Some q \<Rightarrow> incrElapsed g i (getStartTime t_now q - t_now) USER_THREAD)
                  (bindS (accessDRAM g i WRITE evict_address evict_buf) (\<lambda>(_, dram_latency, _).
                     case wb of
                       None \<Rightarrow> returnS ()
                     | Some q \<Rightarrow> updMaster g i (m_dram_outstanding_writebacks_update
                                    (\<lambda>_. Some (snd (getCompletionTime t_now dram_latency 0 q)))))))))
              else
                bindS (home_of g evict_address) (\<lambda>home_node_id.
                  if evict_state = MODIFIED
                  then cc_sendMsg g i FLUSH_REP (cc_core_id c) home_node_id evict_address (Some evict_buf) th
                  else thenS (assertS (evict_state = SHARED \<or> evict_state = EXCLUSIVE) (LOG_ASSERT_ERROR ''evict_state''))
                         (cc_sendMsg g i INV_REP (cc_core_id c) home_node_id evict_address None th))))"

definition evict_line :: "hier_cfg \<Rightarrow> nat \<Rightarrow> IntPtr \<Rightarrow> cache_block_info \<Rightarrow> UInt8 list option \<Rightarrow> thread_t \<Rightarrow> unit hop" where
  "evict_line g i evict_address evicted evicted_data th =
     thenS (addStat i (EVICT_STATE (m_cstate evicted)) 1)
    (thenS (whenS (hasOption evicted PREFETCH) (addStat i EVICT_PREFETCH 1))
    (thenS (whenS (hasOption evicted WARMUP) (addStat i EVICT_WARMUP 1))
    (bindS (evict_previous g i evict_address (case evicted_data of Some d \<Rightarrow> d | None \<Rightarrow> hc_uninit g) th) (\<lambda>evict_buf.
     thenS (dispose g i evict_address (m_cstate evicted) evict_buf th)
    (bindS (getCacheState g i evict_address) (\<lambda>s.
       assertS (s = INVALID) (LOG_ASSERT_ERROR ''Evicted address did not become invalid'')))))))"

definition annotate_line :: "hier_cfg \<Rightarrow> nat \<Rightarrow> IntPtr \<Rightarrow> core_id_t \<Rightarrow> unit hop" where
  "annotate_line g i address requester =
     thenS (whenS (hc_cache_only g) (updBlock g i address (\<lambda>b. setOption b WARMUP)))
       (case hc_get_owner g of
          None \<Rightarrow> returnS ()
        | Some owner \<Rightarrow> updBlock g i address (\<lambda>b. b\<lparr>m_owner := owner requester address\<rparr>))"

definition insertCacheBlock :: "hier_cfg \<Rightarrow> nat \<Rightarrow> IntPtr \<Rightarrow> cstate_t \<Rightarrow> UInt8 list option \<Rightarrow> core_id_t \<Rightarrow> thread_t \<Rightarrow> unit hop" where
  "insertCacheBlock g i address cstate data requester th =
     bindS (getCacheState g i address) (\<lambda>old.
     thenS (assertS (old = INVALID) (LOG_ASSERT_ERROR ''we already have this line, can't add it again''))
    (bindS (getS (\<lambda>h. env_qbs (m_set_info (the_cache g i h)))) (\<lambda>qbs0.
     bindS (liftS (\<lambda>h. insertSingleLine (Some (isInLowerLevelCache g i h)) (the_cache g i h) address data
                          (CacheBlockInfo SHARED_CACHE (NOT 0) INVALID 0) True)) (\<lambda>(eviction, evict_address, evicted, evicted_data, c).
     thenS (setCache g i c)
    (thenS (repeatS (env_qbs (m_set_info c) - qbs0) (qbsLookupCost g i))
    (thenS (setCacheState g i address cstate)
    (thenS (annotate_line g i address requester)
       (whenS eviction (evict_line g i evict_address evicted evicted_data th)))))))))"

section \<open>Requests to the directory\<close>

definition processExReqToDirectory :: "hier_cfg \<Rightarrow> nat \<Rightarrow> IntPtr \<Rightarrow> unit hop" where
  "processExReqToDirectory g i address =
     bindS (getCacheState g i address) (\<lambda>cstate.
     thenS (assertS (cstate \<noteq> SHARED) (LOG_ASSERT_ERROR ''ExReq for a Cacheblock in S, should be a UpgradeReq''))
    (thenS (assertS (cstate = INVALID) (ASSERT ''cstate == INVALID''))
    (bindS (home_of g address) (\<lambda>home.
       cc_sendMsg g i EX_REQ (cc_core_id_master (CFG g i)) home address None USER_THREAD))))"

definition processUpgradeReqToDirectory :: "hier_cfg \<Rightarrow> nat \<Rightarrow> IntPtr \<Rightarrow> thread_t \<Rightarrow> unit hop" where
  "processUpgradeReqToDirectory g i address th =
     bindS (getCacheState g i address) (\<lambda>cstate.
     thenS (assertS (cstate = SHARED) (ASSERT ''cstate == SHARED''))
    (thenS (setCacheState g i address SHARED_UPGRADING)
    (bindS (home_of g address) (\<lambda>home.
       cc_sendMsg g i UPGRADE_REQ (cc_core_id_master (CFG g i)) home address None th))))"

definition processShReqToDirectory :: "hier_cfg \<Rightarrow> nat \<Rightarrow> IntPtr \<Rightarrow> unit hop" where
  "processShReqToDirectory g i address =
     bindS (home_of g address) (\<lambda>home.
       cc_sendMsg g i SH_REQ (cc_core_id_master (CFG g i)) home address None USER_THREAD)"

definition initiateDirectoryAccess :: "hier_cfg \<Rightarrow> nat \<Rightarrow> mem_op_t \<Rightarrow> IntPtr \<Rightarrow> bool \<Rightarrow> UInt64 \<Rightarrow> unit hop" where
  "initiateDirectoryAccess g i op address isPrefetch t_issue =
     (let exclusive = (op \<noteq> READ) in
      thenS (updMaster g i (\<lambda>m. m\<lparr>m_directory_waiters := enqueue address
               \<lparr>cdw_exclusive = exclusive, cdw_isPrefetch = isPrefetch, cdw_cache_cntlr = i, cdw_t_issue = t_issue\<rparr>
               (m_directory_waiters m)\<rparr>))
     (bindS (getS (\<lambda>h. rq_size address (m_directory_waiters (the_master g i h)))) (\<lambda>n.
        whenS (n = 1)
          (if exclusive
           then bindS (getCacheState g i address) (\<lambda>cstate.
                  if cstate = SHARED then processUpgradeReqToDirectory g i address USER_THREAD
                  else processExReqToDirectory g i address)
           else processShReqToDirectory g i address))))"

end
