(* ===== verification/Cache_Lines.thy ===== *)
theory Cache_Lines
  imports Cache_Cntlr
begin

text \<open>
  A cache as a map from tags to lines. Every operation of \<^verbatim>\<open>cache.cc\<close> that the controllers use is an
  update of this map; the laws are stated once, as the locale \<open>line_store\<close>, and proved for the cache model. The
  controllers are verified against the laws only.
\<close>

section \<open>The lines of a set and of a cache\<close>

definition set_lines :: "cache_set \<Rightarrow> IntPtr \<Rightarrow> cache_block_info option" where
  "set_lines s t = (if t = - 1 then None else map_option (\<lambda>i. m_cache_block_info_array s ! i) (find_line s t))"

definition lines :: "cache \<Rightarrow> IntPtr \<Rightarrow> cache_block_info option" where
  "lines c t = (case List.find (\<lambda>(s, p). set_lines s t \<noteq> None) (m_sets c) of None \<Rightarrow> None | Some (s, p) \<Rightarrow> set_lines s t)"

lemma set_lines_Some_iff:
  "set_inv s \<Longrightarrow> set_lines s t = Some b \<longleftrightarrow>
     t \<noteq> - 1 \<and> (\<exists>i<m_associativity s. m_cache_block_info_array s ! i = b \<and> m_tag b = t)"
  by (auto simp: set_lines_def find_line_iff)

lemma set_lines_None_iff: "set_inv s \<Longrightarrow> set_lines s t = None \<longleftrightarrow> t \<notin> cached s"
  by (auto simp: set_lines_def find_line_None_iff in_cached_iff set_inv_wf)

lemma set_lines_same: "same_lines s s' \<Longrightarrow> set_lines s' = set_lines s"
  by (auto simp: set_lines_def same_linesD fun_eq_iff) (simp add: same_lines_def)

lemma option_ext: "(\<And>x. a = Some x \<longleftrightarrow> b = Some x) \<Longrightarrow> a = b"
  by (cases a; cases b) auto

lemma set_lines_update:
  assumes "set_inv s" "set_inv s'" "i < m_associativity s"
    and "m_cache_block_info_array s' = (m_cache_block_info_array s)[i := b]" "m_associativity s' = m_associativity s"
  shows "set_lines s' t =
    (if isValid b \<and> t = m_tag b then Some b else if t = m_tag (m_cache_block_info_array s ! i) then None else set_lines s t)"
proof (rule option_ext)
  fix x
  have len: "length (m_cache_block_info_array s) = m_associativity s" using set_inv_wf [OF assms(1)] by (simp add: set_wf_def)
  show "set_lines s' t = Some x \<longleftrightarrow>
    (if isValid b \<and> t = m_tag b then Some b else if t = m_tag (m_cache_block_info_array s ! i) then None else set_lines s t) = Some x"
  proof (cases "isValid b \<and> t = m_tag b")
    case True
    then have "set_lines s' t = Some b"
      using assms(3) len by (auto simp: set_lines_Some_iff [OF assms(2)] assms(4,5) isValid_tag_NOT intro!: exI [of _ i])
    then show ?thesis using True by auto
  next
    case False
    have own: "m_tag (m_cache_block_info_array s ! j) \<noteq> m_tag (m_cache_block_info_array s ! i)"
      if "j < m_associativity s" "j \<noteq> i" "m_tag (m_cache_block_info_array s ! j) \<noteq> - 1" for j
      using assms(1,3) that by (auto simp: set_inv_iff isValid_tag_NOT)
    show ?thesis
      using False own assms(3) len
      by (auto simp: set_lines_Some_iff [OF assms(2)] set_lines_Some_iff [OF assms(1)] assms(4,5) nth_list_update isValid_tag_NOT
          split: if_splits) (metis+)
  qed
qed

lemma set_at_inv: "cache_inv c \<Longrightarrow> i < length (m_sets c) \<Longrightarrow> set_inv (fst (m_sets c ! i))"
  by (auto simp: cache_inv_def set_ok_def split_beta)

lemma lines_at:
  assumes "cache_inv c" "i < length (m_sets c)" "t \<in> cached (fst (m_sets c ! i))"
  shows "lines c t = set_lines (fst (m_sets c ! i)) t"
proof -
  let ?P = "\<lambda>(s, p). set_lines s t \<noteq> None"
  have "?P (m_sets c ! i)" using assms(3) set_lines_None_iff [OF set_at_inv [OF assms(1,2)], of t] by (simp add: split_beta)
  then have "List.find ?P (m_sets c) \<noteq> None" using nth_mem [OF assms(2)] by (metis (no_types, lifting) find_None_iff)
  then obtain x where x: "List.find ?P (m_sets c) = Some x" by blast
  then obtain j where j: "j < length (m_sets c)" "?P (m_sets c ! j)" "x = m_sets c ! j" by (auto simp: find_Some_iff)
  then have "t \<in> cached (fst (m_sets c ! j))"
    using set_lines_None_iff [OF set_at_inv [OF assms(1) j(1)], of t] by (auto simp: split_beta)
  then have "of_nat i = (of_nat j :: UInt32)" "unat (of_nat i :: UInt32) = i" "unat (of_nat j :: UInt32) = j"
    using cached_own_set [OF assms(1,3,2)] cached_own_set [OF assms(1), of t j] j(1) by auto
  then have "i = j" by metis
  then show ?thesis using x j(3) by (simp add: lines_def split_beta)
qed

lemma lines_absent:
  assumes "cache_inv c" "t \<notin> contents c"
  shows "lines c t = None"
proof -
  have "List.find (\<lambda>(s, p). set_lines s t \<noteq> None) (m_sets c) = None"
  proof (rule ccontr)
    assume "\<not> ?thesis"
    then obtain i where i: "i < length (m_sets c)" "set_lines (fst (m_sets c ! i)) t \<noteq> None"
      by (auto simp: find_None_iff in_set_conv_nth split_beta)
    then have "t \<in> contents c" using set_lines_None_iff [OF set_at_inv [OF assms(1) i(1)], of t] by (auto simp: contents_iff)
    then show False using assms(2) by simp
  qed
  then show ?thesis by (simp add: lines_def)
qed

lemma lines_own:
  assumes "cache_inv c" "splitAddress (base c) addr = Inr (tag, si)" "m_sets c ! unat si = (s, p)" "unat si < length (m_sets c)"
  shows "lines c tag = set_lines s tag"
proof (cases "tag \<in> cached s")
  case True
  then show ?thesis using lines_at [OF assms(1,4), of tag] assms(3) by simp
next
  case False
  then have "tag \<notin> contents c" using contents_own_set [OF assms] by simp
  then show ?thesis using lines_absent [OF assms(1)] set_lines_None_iff [of s tag] set_at_inv [OF assms(1,4)] assms(3) False by simp
qed

lemma lines_contents: "cache_inv c \<Longrightarrow> lines c t \<noteq> None \<longleftrightarrow> t \<in> contents c"
  by (metis lines_absent contents_iff lines_at set_lines_None_iff set_at_inv)

lemma lines_put:
  assumes "cache_inv c" "cache_inv (put_set c si s' p' e')" "unat si < length (m_sets c)" "m_sets c ! unat si = (s, p)"
  shows "lines (put_set c si s' p' e') t = (if t \<in> cached s \<or> t \<in> cached s' then set_lines s' t else lines c t)"
proof -
  let ?c = "put_set c si s' p' e'"
  have len: "length (m_sets ?c) = length (m_sets c)" and at: "m_sets ?c ! unat si = (s', p')"
    using assms(3) by (simp_all add: put_set_def)
  have other: "m_sets ?c ! i = m_sets c ! i" if "i \<noteq> unat si" for i using that by (simp add: put_set_def)
  have inv': "set_inv s'" using set_at_inv [OF assms(2), of "unat si"] len at assms(3) by simp
  note cont = put_set_contents [OF assms(1,3,4), of s' p' e']
  consider (new) "t \<in> cached s'" | (gone) "t \<notin> cached s'" "t \<in> cached s" | (kept) "t \<notin> cached s'" "t \<notin> cached s" by blast
  then show ?thesis
  proof cases
    case new
    then show ?thesis using lines_at [OF assms(2), of "unat si" t] len at assms(3) by simp
  next
    case gone
    then have "t \<notin> contents ?c" using cont by blast
    then show ?thesis using lines_absent [OF assms(2)] gone set_lines_None_iff [OF inv', of t] by simp
  next
    case kept
    show ?thesis
    proof (cases "t \<in> contents c")
      case True
      then obtain i where i: "i < length (m_sets c)" "t \<in> cached (fst (m_sets c ! i))" by (auto simp: contents_iff)
      then have "i \<noteq> unat si" using kept assms(4) by auto
      then show ?thesis using lines_at [OF assms(1) i] lines_at [OF assms(2), of i t] i len other kept by simp
    next
      case False
      then have "t \<notin> contents ?c" using cont kept by blast
      then show ?thesis using lines_absent [OF assms(1) False] lines_absent [OF assms(2)] kept by simp
    qed
  qed
qed

section \<open>The laws\<close>

text \<open>
  \<open>tag_of\<close> is the tag of an address. \<open>peek\<close>, \<open>upd\<close>, \<open>inval\<close>, \<open>access\<close> and \<open>ins\<close> are the operations of a store of
  lines; \<open>ins\<close> returns the line that had to make place.
\<close>

locale line_store =
  fixes ok :: "'c \<Rightarrow> bool"
    and view :: "'c \<Rightarrow> IntPtr \<Rightarrow> cache_block_info option"
    and width :: "'c \<Rightarrow> nat"
    and peek :: "'c \<Rightarrow> IntPtr \<Rightarrow> cache_block_info option result"
    and upd :: "'c \<Rightarrow> IntPtr \<Rightarrow> (cache_block_info \<Rightarrow> cache_block_info) \<Rightarrow> 'c result"
    and inval :: "'c \<Rightarrow> IntPtr \<Rightarrow> (bool \<times> 'c) result"
    and access :: "'c \<Rightarrow> IntPtr \<Rightarrow> access_t \<Rightarrow> UInt8 list option \<Rightarrow> UInt32 \<Rightarrow> bool \<Rightarrow> (nat option \<times> UInt8 list option \<times> 'c) result"
    and ins :: "cache_cntlr \<Rightarrow> 'c \<Rightarrow> IntPtr \<Rightarrow> UInt8 list option \<Rightarrow> cache_block_info \<Rightarrow> bool
                  \<Rightarrow> (bool \<times> IntPtr \<times> cache_block_info \<times> UInt8 list option \<times> 'c) result"
  assumes peek_view: "ok c \<Longrightarrow> peek c a = Inr r \<Longrightarrow> r = view c (drop_bit (width c) a)"
    and upd_view: "ok c \<Longrightarrow> (\<And>b. m_tag (f b) = m_tag b) \<Longrightarrow> upd c a f = Inr c' \<Longrightarrow>
      ok c' \<and> width c' = width c \<and> (\<exists>b. view c (drop_bit (width c) a) = Some b \<and> view c' = (view c)(drop_bit (width c) a \<mapsto> f b))"
    and drop_view: "ok c \<Longrightarrow> upd c a invalidate = Inr c' \<Longrightarrow>
      ok c' \<and> width c' = width c \<and> view c' = (view c)(drop_bit (width c) a := None)"
    and inval_view: "ok c \<Longrightarrow> inval c a = Inr (found, c') \<Longrightarrow>
      ok c' \<and> width c' = width c \<and> view c' = (view c)(drop_bit (width c) a := None)"
    and access_view: "ok c \<Longrightarrow> access c a ty buf n repl = Inr (l, out, c') \<Longrightarrow>
      ok c' \<and> width c' = width c \<and> view c' = view c \<and> (l \<noteq> None \<longleftrightarrow> view c (drop_bit (width c) a) \<noteq> None)"
    and ins_view: "ok c \<Longrightarrow> view c (drop_bit (width c) a) = None \<Longrightarrow> ins q c a fill eb ebuf = Inr (ev, ea, einfo, edata, c') \<Longrightarrow>
      ok c' \<and> width c' = width c \<and>
      (\<exists>b. m_tag b = drop_bit (width c) a \<and>
        view c' = (if ev then (view c)(m_tag einfo := None) else view c)(drop_bit (width c) a \<mapsto> b)) \<and>
      (ev \<longrightarrow> drop_bit (width c) ea = m_tag einfo \<and> view c (m_tag einfo) \<noteq> None)"
begin

text \<open>No operation but an insertion brings a line in, and lines of other tags never notice.\<close>

lemma upd_absent: "ok c \<Longrightarrow> view c t = None \<Longrightarrow> (\<And>b. m_tag (f b) = m_tag b) \<Longrightarrow> upd c a f = Inr c' \<Longrightarrow> view c' t = None"
  using upd_view [of c f a c'] by auto

lemma inval_absent: "ok c \<Longrightarrow> view c t = None \<Longrightarrow> inval c a = Inr (found, c') \<Longrightarrow> view c' t = None"
  using inval_view [of c a found c'] by auto

lemma access_absent: "ok c \<Longrightarrow> view c t = None \<Longrightarrow> access c a ty buf n repl = Inr (l, out, c') \<Longrightarrow> view c' t = None"
  using access_view [of c a ty buf n repl l out c'] by auto

lemma evicted_is_gone:
  assumes "ok c" "view c (drop_bit (width c) a) = None" "ins q c a fill eb ebuf = Inr (True, ea, einfo, edata, c')"
  shows "view c' (drop_bit (width c) ea) = None" "m_tag einfo \<noteq> drop_bit (width c) a"
  using ins_view [OF assms] assms(2) by auto

end

lemma updLineE:
  assumes "cache_inv c" "updLine c a f = Inr c'"
  obtains si s p i where "splitAddress (base c) a = Inr (drop_bit (m_log_blocksize (base c)) a, si)" "m_sets c ! unat si = (s, p)"
    "unat si < length (m_sets c)" "set_ok (base c) (m_set_info c) (unat si) (s, p)"
    "find_line s (drop_bit (m_log_blocksize (base c)) a) = Some i" "drop_bit (m_log_blocksize (base c)) a \<noteq> - 1"
    "c' = put_set c si (s\<lparr>m_cache_block_info_array := (m_cache_block_info_array s)[i := f (m_cache_block_info_array s ! i)]\<rparr>) p (m_set_info c)"
proof -
  obtain tag si where sp: "splitAddress (base c) a = Inr (tag, si)" using assms(2) by (auto simp: updLine_def)
  note tag = split_tag [OF sp]
  show ?thesis
    by (rule cache_set_at [OF assms(1) sp]) (use assms(2) sp tag that in \<open>auto simp: updLine_def split: option.splits\<close>)
qed

lemma updLine_lines:
  assumes "cache_inv c" "\<And>b. m_tag (f b) = m_tag b" "updLine c a f = Inr c'"
  shows "cache_inv c' \<and> base c' = base c \<and> (\<exists>b. lines c (drop_bit (m_log_blocksize (base c)) a) = Some b \<and>
    lines c' = (lines c)(drop_bit (m_log_blocksize (base c)) a \<mapsto> f b))"
proof (rule updLineE [OF assms(1,3)])
  fix si p i and s :: cache_set
  let ?t = "drop_bit (m_log_blocksize (base c)) a" and ?b = "m_cache_block_info_array s ! i"
  let ?s = "s\<lparr>m_cache_block_info_array := (m_cache_block_info_array s)[i := f ?b]\<rparr>"
  assume sp: "splitAddress (base c) a = Inr (?t, si)" and at: "m_sets c ! unat si = (s, p)" and lt: "unat si < length (m_sets c)"
    and ok: "set_ok (base c) (m_set_info c) (unat si) (s, p)" and f: "find_line s ?t = Some i" and t: "?t \<noteq> - 1"
    and c': "c' = put_set c si ?s p (m_set_info c)"
  have inv: "set_inv s" using ok by (simp add: set_ok_def)
  have i: "i < m_associativity s" "m_tag ?b = ?t" using f find_line_iff [OF inv t] by auto
  have v: "isValid ?b" "isValid (f ?b)" using i t assms(2) by (simp_all add: isValid_tag_NOT)
  have inv': "set_inv ?s" using inv i(1) by (rule set_inv_update) (use assms(2) in auto)
  have cached: "cached ?s = cached s"
    using cached_update [OF inv i(1), of ?s "f ?b"] v i assms(2) t in_cached_iff [OF set_inv_wf [OF inv], of ?t] by auto
  have inv_c: "cache_inv c'" unfolding c' using assms(1) lt refl
    by (rule put_set_inv) (use ok inv' cached in \<open>auto simp: set_ok_def\<close>)
  have own: "lines c ?t = Some ?b" using lines_own [OF assms(1) sp at lt] f t by (simp add: set_lines_def)
  have tc: "?t \<in> cached s" using i t in_cached_iff [OF set_inv_wf [OF inv], of ?t] by auto
  have "lines c' x = ((lines c)(?t \<mapsto> f ?b)) x" for x
  proof -
    have "lines c' x = (if x \<in> cached s then set_lines ?s x else lines c x)"
      unfolding c' using lines_put [OF assms(1) inv_c [unfolded c'] lt at, of x] cached by simp
    also have "\<dots> = ((lines c)(?t \<mapsto> f ?b)) x"
      using set_lines_update [OF inv inv' i(1), of "f ?b" x] v i assms(2) tc lines_at [OF assms(1) lt, of x] at by auto
    finally show ?thesis .
  qed
  then show ?thesis using inv_c own by (auto simp: c')
qed

lemma put_invalidated:
  assumes "cache_inv c" "splitAddress (base c) a = Inr (tag, si)" "m_sets c ! unat si = (s, p)" "unat si < length (m_sets c)"
    "set_ok (base c) (m_set_info c) (unat si) (s, p)" "tag \<noteq> - 1" "set_invalidate s tag = (found, s')"
  shows "cache_inv (put_set c si s' p (m_set_info c)) \<and> lines (put_set c si s' p (m_set_info c)) = (lines c)(tag := None)"
proof -
  let ?c = "put_set c si s' p (m_set_info c)"
  have inv: "set_inv s" using assms(5) by (simp add: set_ok_def)
  have s': "set_inv s'" "cached s' = cached s - {tag}" using set_invalidate_correct [OF inv assms(6,7)] by auto
  have fields: "m_associativity s' = m_associativity s" "m_blocksize s' = m_blocksize s"
    using assms(7) by (auto simp: set_invalidate_def split: option.splits)
  have ic: "cache_inv ?c" using assms(1,4) refl by (rule put_set_inv) (use assms(5) s' fields in \<open>auto simp: set_ok_def\<close>)
  have keep: "set_lines s' x = set_lines s x" if "x \<noteq> tag" for x
  proof (cases "find_line s tag")
    case (Some i)
    then have i: "i < m_associativity s" "m_tag (m_cache_block_info_array s ! i) = tag" using find_line_iff [OF inv assms(6)] by auto
    show ?thesis using set_lines_update [OF inv s'(1) i(1), of "invalidate (m_cache_block_info_array s ! i)" x] i that Some assms(7)
      by (auto simp: set_invalidate_def)
  qed (use assms(7) in \<open>simp add: set_invalidate_def\<close>)
  have "lines ?c x = ((lines c)(tag := None)) x" for x
    using lines_put [OF assms(1) ic assms(4,3), of x] s' keep [of x] lines_at [OF assms(1,4), of x] assms(3)
      lines_own [OF assms(1-4)] set_lines_None_iff [OF s'(1), of tag] set_lines_None_iff [OF inv, of tag] by auto
  then show ?thesis using ic by blast
qed

lemma drop_lines:
  assumes "cache_inv c" "updLine c a invalidate = Inr c'"
  shows "cache_inv c' \<and> base c' = base c \<and> lines c' = (lines c)(drop_bit (m_log_blocksize (base c)) a := None)"
proof (rule updLineE [OF assms])
  fix si p i and s :: cache_set
  let ?t = "drop_bit (m_log_blocksize (base c)) a"
  let ?s = "s\<lparr>m_cache_block_info_array := (m_cache_block_info_array s)[i := invalidate (m_cache_block_info_array s ! i)]\<rparr>"
  assume sp: "splitAddress (base c) a = Inr (?t, si)" and at: "m_sets c ! unat si = (s, p)" and lt: "unat si < length (m_sets c)"
    and ok: "set_ok (base c) (m_set_info c) (unat si) (s, p)" and f: "find_line s ?t = Some i" and t: "?t \<noteq> - 1"
    and c': "c' = put_set c si ?s p (m_set_info c)"
  have "set_invalidate s ?t = (True, ?s)" using f by (simp add: set_invalidate_def)
  then show ?thesis using put_invalidated [OF assms(1) sp at lt ok, of True ?s] t by (simp add: c')
qed

lemma inval_lines:
  assumes "cache_inv c" "invalidateSingleLine c a = Inr (found, c')"
  shows "cache_inv c' \<and> base c' = base c \<and> lines c' = (lines c)(drop_bit (m_log_blocksize (base c)) a := None)"
proof -
  obtain tag si where sp: "splitAddress (base c) a = Inr (tag, si)" using assms(2) by (auto simp: invalidateSingleLine_def)
  show ?thesis
  proof (rule cache_set_at [OF assms(1) sp])
    fix s p
    assume g: "get_set c si = Inr (s, p)" and lt: "unat si < length (m_sets c)" and at: "m_sets c ! unat si = (s, p)"
      and ok: "set_ok (base c) (m_set_info c) (unat si) (s, p)" and tag: "tag \<noteq> - 1"
    obtain s' where "set_invalidate s tag = (found, s')" "c' = put_set c si s' p (m_set_info c)"
      using assms(2) sp g by (auto simp: invalidateSingleLine_def Let_def split: prod.splits if_splits)
    then show ?thesis using put_invalidated [OF assms(1) sp at lt ok] tag split_tag [OF sp] by simp
  qed
qed

lemma lines_injector [simp]: "lines (c\<lparr>m_fault_injector := fi\<rparr>) = lines c"
  by (simp add: lines_def fun_eq_iff)

lemma put_set_injector: "put_set (c\<lparr>m_fault_injector := fi\<rparr>) si s p e = (put_set c si s p e)\<lparr>m_fault_injector := fi\<rparr>"
  by (simp add: put_set_def)

lemma access_lines:
  assumes "cache_inv c" "accessSingleLine c a ty buf n repl = Inr (l, out, c')"
  shows "cache_inv c' \<and> base c' = base c \<and> lines c' = lines c \<and> (l \<noteq> None \<longleftrightarrow> lines c (drop_bit (m_log_blocksize (base c)) a) \<noteq> None)"
proof -
  obtain tag si where sp: "splitAddress (base c) a = Inr (tag, si)"
    using assms(2) by (auto simp: accessSingleLine_def splitAddress_offset_def)
  note correct = access_correct [OF assms(1) sp assms(2)]
  have "lines c' = lines c"
  proof (rule cache_set_at [OF assms(1) sp])
    fix s p
    assume g: "get_set c si = Inr (s, p)" and lt: "unat si < length (m_sets c)" and at: "m_sets c ! unat si = (s, p)"
    show ?thesis
    proof (cases "find_line s tag")
      case None
      then show ?thesis using assms(2) by (auto simp: accessSingleLine_def splitAddress_offset_def sp g)
    next
      case (Some k)
      show ?thesis
      proof (rule access_hit_result [OF sp g Some assms(2)])
        fix fi s1 s2 p' e'
        assume c': "c' = put_set (c\<lparr>m_fault_injector := fi\<rparr>) si s2 p' e'" and same: "same_lines s s2"
        have "cache_inv (put_set c si s2 p' e')" using correct c' by (simp add: put_set_injector)
        then show ?thesis
          using lines_put [OF assms(1) _ lt at, of s2 p' e'] same_linesD(1) [OF same] set_lines_same [OF same]
            lines_at [OF assms(1) lt] at by (auto simp: c' put_set_injector fun_eq_iff)
      qed
    qed
  qed
  then show ?thesis using correct lines_contents [OF assms(1)] split_tag [OF sp] by simp
qed

lemma insert_lines:
  assumes "cache_inv c" "lines c (drop_bit (m_log_blocksize (base c)) a) = None"
    "insertSingleLine q c a fill eb ebuf = Inr (ev, ea, einfo, edata, c')"
  shows "cache_inv c' \<and> base c' = base c \<and>
    (\<exists>b. m_tag b = drop_bit (m_log_blocksize (base c)) a \<and>
      lines c' = (if ev then (lines c)(m_tag einfo := None) else lines c)(drop_bit (m_log_blocksize (base c)) a \<mapsto> b)) \<and>
    (ev \<longrightarrow> drop_bit (m_log_blocksize (base c)) ea = m_tag einfo \<and> lines c (m_tag einfo) \<noteq> None)"
proof -
  obtain tag si where sp: "splitAddress (base c) a = Inr (tag, si)" using assms(3) by (auto simp: insertSingleLine_def)
  note tag = split_tag [OF sp]
  have absent: "tag \<notin> contents c" using assms(2) tag lines_contents [OF assms(1), of tag] by auto
  note correct = insert_correct [OF assms(1) sp absent assms(3)]
  have "\<exists>b. m_tag b = tag \<and> lines c' = (if ev then (lines c)(m_tag einfo := None) else lines c)(tag \<mapsto> b)"
  proof (rule cache_set_at [OF assms(1) sp])
    fix s p
    assume g: "get_set c si = Inr (s, p)" and lt: "unat si < length (m_sets c)" and at: "m_sets c ! unat si = (s, p)"
      and ok: "set_ok (base c) (m_set_info c) (unat si) (s, p)" and t: "tag \<noteq> - 1"
    have inv: "set_inv s" and pinv: "policy_inv (m_associativity s) (p, m_set_info c)" using ok by (auto simp: set_ok_def)
    show ?thesis
    proof (rule insert_result [OF sp g assms(3)])
      fix b fi s1 s2 p' e'
      assume c': "c' = put_set (c\<lparr>m_fault_injector := fi\<rparr>) si s2 p' e'" and b: "m_tag b = tag" and same: "same_lines s1 s2"
        and ins: "set_insert (getReplacementIndex q) s (p, m_set_info c) b fill eb ebuf = Inr ((ev, einfo, edata), s1, p', e')"
      have tc: "m_tag b \<notin> cached s" using absent b contents_own_set [OF assms(1) sp at lt] by simp
      have bv: "isValid b" using b t by (simp add: isValid_tag_NOT)
      have s1: "set_inv s1" "cached s1 = insert tag (if ev then cached s - {m_tag einfo} else cached s)" "ev \<longrightarrow> m_tag einfo \<in> cached s"
        using sets.set_insert_correct [OF inv pinv bv tc ins] b by auto
      show ?thesis
      proof (rule sets.set_insertE [OF set_inv_wf [OF inv] pinv ins])
        fix i
        let ?old = "m_cache_block_info_array s ! i"
        assume i: "i < m_associativity s" and ev: "ev = isValid ?old" and info: "einfo = (if ev then clone eb ?old else eb)"
          and arr: "m_cache_block_info_array s1 = (m_cache_block_info_array s)[i := clone ?old b]"
          and n: "m_associativity s1 = m_associativity s"
        have new: "isValid (clone ?old b)" "m_tag (clone ?old b) = tag" using b t by (simp_all add: isValid_tag_NOT)
        have upd: "set_lines s2 x = (if x = tag then Some (clone ?old b) else if x = m_tag ?old then None else set_lines s x)" for x
          using set_lines_update [OF inv s1(1) i arr n, of x] new set_lines_same [OF same] by simp
        have info': "ev \<Longrightarrow> m_tag einfo = m_tag ?old" using info by simp
        have ic: "cache_inv (put_set c si s2 p' e')" using correct c' by (simp add: put_set_injector)
        have put: "lines c' x = (if x \<in> cached s \<or> x \<in> cached s2 then set_lines s2 x else lines c x)" for x
          using lines_put [OF assms(1) ic lt at, of x] by (simp add: c' put_set_injector)
        have own: "lines c x = set_lines s x" if "x \<in> cached s" for x using lines_at [OF assms(1) lt, of x] at that by simp
        have "lines c' x = ((if ev then (lines c)(m_tag einfo := None) else lines c)(tag \<mapsto> clone ?old b)) x" for x
        proof (cases "x = tag")
          case True
          then show ?thesis using put [of x] upd [of x] s1(2) same_linesD(1) [OF same] by simp
        next
          case False
          show ?thesis
          proof (cases "x \<in> cached s")
            case True
            then have "x \<noteq> - 1" using in_cached_iff [OF set_inv_wf [OF inv]] by blast
            then show ?thesis using put [of x] upd [of x] own [OF True] True False info' ev by (auto simp: isValid_tag_NOT)
          next
            case out: False
            then have "x \<notin> cached s2" using s1(2) same_linesD(1) [OF same] False by (simp split: if_splits)
            moreover have "ev \<Longrightarrow> x \<noteq> m_tag einfo" using out s1(3) by auto
            ultimately show ?thesis using put [of x] out False by auto
          qed
        qed
        then show ?thesis using new(2) by blast
      qed
    qed
  qed
  moreover have "ev \<longrightarrow> drop_bit (m_log_blocksize (base c)) ea = m_tag einfo \<and> lines c (m_tag einfo) \<noteq> None"
    using correct split_tag lines_contents [OF assms(1)] by metis
  ultimately show ?thesis using correct tag by simp
qed

lemma peek_lines:
  assumes "cache_inv c" "peekSingleLine c a = Inr r"
  shows "r = lines c (drop_bit (m_log_blocksize (base c)) a)"
proof -
  obtain tag si where sp: "splitAddress (base c) a = Inr (tag, si)" using assms(2) by (auto simp: peekSingleLine_def)
  show ?thesis
    by (rule cache_set_at [OF assms(1) sp])
      (use assms sp split_tag [OF sp] lines_own [OF assms(1) sp] in \<open>auto simp: peekSingleLine_def set_lines_def\<close>)
qed

interpretation cache_store: line_store cache_inv lines "\<lambda>c. m_log_blocksize (base c)" peekSingleLine updLine
  invalidateSingleLine accessSingleLine insertSingleLine
proof
  fix c c' :: cache and a f r found ty buf n repl l out q fill eb ebuf ev ea einfo edata
  assume ok: "cache_inv c"
  show "peekSingleLine c a = Inr r \<Longrightarrow> r = lines c (drop_bit (m_log_blocksize (base c)) a)" using peek_lines [OF ok] .
  show "(\<And>b. m_tag (f b) = m_tag b) \<Longrightarrow> updLine c a f = Inr c' \<Longrightarrow>
      cache_inv c' \<and> m_log_blocksize (base c') = m_log_blocksize (base c) \<and>
      (\<exists>b. lines c (drop_bit (m_log_blocksize (base c)) a) = Some b \<and> lines c' = (lines c)(drop_bit (m_log_blocksize (base c)) a \<mapsto> f b))"
    using updLine_lines [OF ok, of f a c'] by auto
  show "updLine c a invalidate = Inr c' \<Longrightarrow> cache_inv c' \<and> m_log_blocksize (base c') = m_log_blocksize (base c) \<and>
      lines c' = (lines c)(drop_bit (m_log_blocksize (base c)) a := None)"
    using drop_lines [OF ok, of a c'] by auto
  show "invalidateSingleLine c a = Inr (found, c') \<Longrightarrow> cache_inv c' \<and> m_log_blocksize (base c') = m_log_blocksize (base c) \<and>
      lines c' = (lines c)(drop_bit (m_log_blocksize (base c)) a := None)"
    using inval_lines [OF ok, of a found c'] by auto
  show "accessSingleLine c a ty buf n repl = Inr (l, out, c') \<Longrightarrow> cache_inv c' \<and> m_log_blocksize (base c') = m_log_blocksize (base c) \<and>
      lines c' = lines c \<and> (l \<noteq> None \<longleftrightarrow> lines c (drop_bit (m_log_blocksize (base c)) a) \<noteq> None)"
    using access_lines [OF ok, of a ty buf n repl l out c'] by auto
  show "lines c (drop_bit (m_log_blocksize (base c)) a) = None \<Longrightarrow> insertSingleLine q c a fill eb ebuf = Inr (ev, ea, einfo, edata, c') \<Longrightarrow>
      cache_inv c' \<and> m_log_blocksize (base c') = m_log_blocksize (base c) \<and>
      (\<exists>b. m_tag b = drop_bit (m_log_blocksize (base c)) a \<and>
        lines c' = (if ev then (lines c)(m_tag einfo := None) else lines c)(drop_bit (m_log_blocksize (base c)) a \<mapsto> b)) \<and>
      (ev \<longrightarrow> drop_bit (m_log_blocksize (base c)) ea = m_tag einfo \<and> lines c (m_tag einfo) \<noteq> None)"
    using insert_lines [OF ok, of a q fill eb ebuf ev ea einfo edata c'] by simp
qed

end
