(* ===== verification/Cache_Requests.thy ===== *)
theory Cache_Requests
  imports Cache_Cntlr
begin

text \<open>
  The flows through the hierarchy (\<^verbatim>\<open>cache_cntlr.cc\<close>): a memory operation of a core, a request from the previous
  level, prefetches, and the messages of the tag directory handled by the network thread.
\<close>

section \<open>Outstanding misses\<close>

text \<open>
  The table of recent misses is an \<^verbatim>\<open>unordered_map\<close>; here it is a list of pairs, searched in the order of the
  list. An iteration of the clean-up that finds no entry to erase would be repeated for ever.
\<close>

definition mshr_min :: "(IntPtr \<times> UInt64 \<times> UInt64) list \<Rightarrow> IntPtr" where
  "mshr_min l = fst (foldl (\<lambda>(a, t) (address, _, t_complete). if t_complete < t then (address, t_complete) else (a, t)) (0, - 1) l)"

function cleanupMshr :: "(IntPtr \<times> UInt64 \<times> UInt64) list \<Rightarrow> (IntPtr \<times> UInt64 \<times> UInt64) list result" where
  "cleanupMshr l =
     (if length l \<le> 8 then Inr l
      else if mshr_min l \<in> set (map fst l) then cleanupMshr (filter (\<lambda>e. fst e \<noteq> mshr_min l) l)
      else Inl (NONTERMINATION ''cleanupMshr''))"
  by auto
termination
proof (relation "measure length")
  fix l :: "(IntPtr \<times> UInt64 \<times> UInt64) list"
  assume "mshr_min l \<in> set (map fst l)"
  then obtain e where "e \<in> set l" "fst e = mshr_min l" by auto
  then show "(filter (\<lambda>e. fst e \<noteq> mshr_min l) l, l) \<in> measure length"
    by (auto intro: length_filter_less)
qed simp

declare cleanupMshr.simps [simp del]

definition setMshr :: "hier_cfg \<Rightarrow> nat \<Rightarrow> IntPtr \<Rightarrow> UInt64 \<Rightarrow> UInt64 \<Rightarrow> unit hop" where
  "setMshr g i address t_issue t_complete =
     updMaster g i (\<lambda>m. m\<lparr>m_mshr := (address, t_issue, t_complete) # filter (\<lambda>e. fst e \<noteq> address) (m_mshr m)\<rparr>)"

definition cleanMshr :: "hier_cfg \<Rightarrow> nat \<Rightarrow> unit hop" where
  "cleanMshr g i =
     bindS (liftS (\<lambda>h. cleanupMshr (m_mshr (the_master g i h)))) (\<lambda>l. updMaster g i (m_mshr_update (\<lambda>_. l)))"

text \<open>The time an overlapping miss to the line is still going to take, if there is one at the time.\<close>

definition overlap :: "IntPtr \<Rightarrow> UInt64 \<Rightarrow> cache_master \<Rightarrow> UInt64 option" where
  "overlap address t_now m =
     (case map_of (m_mshr m) address of
        Some (t_issue, t_complete) \<Rightarrow> if t_issue < t_now \<and> t_complete > t_now then Some (t_complete - t_now) else None
      | None \<Rightarrow> None)"

section \<open>Counters\<close>

definition cc_updateCounters ::
  "hier_cfg \<Rightarrow> nat \<Rightarrow> mem_op_t \<Rightarrow> IntPtr \<Rightarrow> bool \<Rightarrow> cstate_t \<Rightarrow> prefetch_type_t \<Rightarrow> unit hop" where
  "cc_updateCounters g i op address cache_hit cstate isPrefetch =
     bindS (getElapsed g i USER_THREAD) (\<lambda>t_now.
     bindS (getS (\<lambda>h. overlap address t_now (the_master g i h) \<noteq> None)) (\<lambda>overlapping.
     thenS
       (if op = WRITE
        then
          thenS (whenS (isPrefetch \<noteq> PF_NONE) (addStat i STORES_PREFETCH 1))
            (whenS (isPrefetch \<noteq> PF_OWN)
              (thenS (addStat i STORES 1)
              (thenS (addStat i (STORES_STATE cstate) 1)
                (whenS (\<not> cache_hit \<or> overlapping)
                  (thenS (addStat i STORE_MISSES 1)
                  (thenS (addStat i (STORE_MISSES_STATE cstate) 1)
                    (whenS overlapping (addStat i STORE_OVERLAPPING_MISSES 1))))))))
        else
          thenS (whenS (isPrefetch \<noteq> PF_NONE) (addStat i LOADS_PREFETCH 1))
            (whenS (isPrefetch \<noteq> PF_OWN)
              (thenS (addStat i LOADS 1)
              (thenS (addStat i (LOADS_STATE cstate) 1)
                (whenS (\<not> cache_hit)
                  (thenS (addStat i LOAD_MISSES 1)
                  (thenS (addStat i (LOAD_MISSES_STATE cstate) 1)
                    (whenS overlapping (addStat i LOAD_OVERLAPPING_MISSES 1)))))))))
       (cleanMshr g i)))"

definition countCache :: "hier_cfg \<Rightarrow> nat \<Rightarrow> bool \<Rightarrow> unit hop" where
  "countCache g i cache_hit = updMaster g i (m_cache_update (\<lambda>c. updateCounters c cache_hit))"

definition loggingLevel :: "hier_cfg \<Rightarrow> nat \<Rightarrow> mem_op_t \<Rightarrow> unit hop" where
  "loggingLevel g i op =
     whenS (cc_logged (CFG g i)) (thenS (addStat i (if op = WRITE then TOTAL_STORES else TOTAL_LOADS) 1) (addStat i TOTAL_ACCESS 1))"

definition updateUncoreStatistics :: "nat \<Rightarrow> where_t \<Rightarrow> unit hop" where
  "updateUncoreStatistics i hit_where = modifyS (\<lambda>h. h\<lparr>h_last_remote_hit_where := (h_last_remote_hit_where h)(i := hit_where)\<rparr>)"

primrec cc_updateHits :: "nat \<Rightarrow> hier_cfg \<Rightarrow> nat \<Rightarrow> mem_op_t \<Rightarrow> unit hop" where
  "cc_updateHits 0 g i op = returnS ()"
| "cc_updateHits (Suc hits) g i op =
     thenS (countCache g i True)
    (thenS (cc_updateCounters g i op 0 True (if op = READ then SHARED else MODIFIED) PF_NONE)
       (cc_updateHits hits g i op))"

section \<open>Filling from the next level\<close>

definition copyDataFromNextLevel :: "hier_cfg \<Rightarrow> nat \<Rightarrow> mem_op_t \<Rightarrow> IntPtr \<Rightarrow> bool \<Rightarrow> UInt64 \<Rightarrow> unit hop" where
  "copyDataFromNextLevel g i op address modeled t_now =
     bindS (theNext g i) (\<lambda>j.
     bindS (operationPermissibleinCache g j address op) (\<lambda>ok.
     thenS (assertS ok (LOG_ASSERT_ERROR ''Tried to read from next-level cache, but data is already gone''))
    (bindS (retrieveCacheBlock g j address False) (\<lambda>data.
     bindS (getCacheState g j address) (\<lambda>cstate.
     thenS
       (whenS (modeled \<and> \<not> isInfinite (cc_next_level_read_bandwidth (CFG g i)))
         (bindS (liftS (\<lambda>_. bwpc_getRoundedLatency (cc_next_level_read_bandwidth (CFG g i)) (ucast (cc_cache_block_size (CFG g i) * 8)))) (\<lambda>delay.
          bindS (getS (\<lambda>h. getCompletionTime t_now delay 0 (m_next_level_read (the_master g i h)))) (\<lambda>(t_done, q).
          thenS (updMaster g i (m_next_level_read_update (\<lambda>_. q)))
         (thenS (assertS (t_done \<ge> t_now + delay) (LOG_ASSERT_ERROR ''Did not expect next-level cache to be this fast''))
            (incrElapsed g i (t_done - t_now - delay) USER_THREAD))))))
    (bindS (getCacheBlockInfo g i address) (\<lambda>block.
       if block \<noteq> None
       then thenS (updateCacheBlock (hc_levels g) g i address cstate UPGRADE False) (returnS ())
       else insertCacheBlock g i address cstate (Some data) (cc_core_id (CFG g i)) USER_THREAD)))))))"

section \<open>Prefetching\<close>

abbreviation (input) PREFETCH_MAX_QUEUE_LENGTH :: nat where "PREFETCH_MAX_QUEUE_LENGTH \<equiv> 32"
abbreviation (input) PREFETCH_INTERVAL :: UInt64 where "PREFETCH_INTERVAL \<equiv> 1000000"

definition trainPrefetcher :: "hier_cfg \<Rightarrow> nat \<Rightarrow> IntPtr \<Rightarrow> bool \<Rightarrow> bool \<Rightarrow> bool \<Rightarrow> UInt64 \<Rightarrow> unit hop" where
  "trainPrefetcher g i address cache_hit prefetch_hit prefetch_own t_issue =
     (let c = CFG g i in
      if cc_train_prefetcher_on_hit c \<or> (\<not> prefetch_own \<and> \<not> cache_hit)
      then
        bindS (liftS (\<lambda>h.
          case m_prefetcher (the_master g i h) of
            None \<Rightarrow> Inl (UNDEFINED ''m_prefetcher is NULL'')
          | Some p \<Rightarrow> getNextAddress address (cc_core_id c) p)) (\<lambda>(prefetchList, p1).
        thenS (updMaster g i (m_prefetcher_update (\<lambda>_. Some p1)))
          (whenS (\<not> cache_hit \<or> (cc_prefetch_on_prefetch_hit c \<and> prefetch_hit))
            (thenS (updMaster g i (\<lambda>m. m\<lparr>m_prefetch_list := [],
                      m_prefetch_next := if cc_prefetch_delay c then t_issue + PREFETCH_INTERVAL else t_issue\<rparr>))
              (foldS (\<lambda>_ a.
                 bindS (getS (\<lambda>h. length (m_prefetch_list (the_master g i h)))) (\<lambda>n.
                   if n > PREFETCH_MAX_QUEUE_LENGTH then returnS ()
                   else bindS (operationPermissibleinCache g i a READ) (\<lambda>ok.
                          whenS (\<not> ok) (updMaster g i (\<lambda>m. m\<lparr>m_prefetch_list := m_prefetch_list m @ [a]\<rparr>))))) () prefetchList))))
      else returnS ())"

text \<open>The loop that takes the next address worth prefetching from the list.\<close>

primrec next_prefetch :: "IntPtr list \<Rightarrow> hier_cfg \<Rightarrow> nat \<Rightarrow> IntPtr option hop" where
  "next_prefetch [] g i = returnS None"
| "next_prefetch (a # as) g i =
     thenS (updMaster g i (m_prefetch_list_update (\<lambda>_. as)))
    (bindS (operationPermissibleinCache g i a READ) (\<lambda>ok. if ok then next_prefetch as g i else returnS (Some a)))"

section \<open>Requests from the previous level\<close>

text \<open>
  One pass over the previous levels other than the requester, with the state they have to take; the result is the
  greatest latency and whether one of them had the data.
\<close>

definition snoop_previous :: "hier_cfg \<Rightarrow> nat \<Rightarrow> nat \<Rightarrow> IntPtr \<Rightarrow> cstate_t \<Rightarrow> reason_t \<Rightarrow> bool hop" where
  "snoop_previous g i requester address new_cstate reason =
     bindS (foldS (\<lambda>(latency, sibling_hit) p.
              if p = requester then returnS (latency, sibling_hit)
              else bindS (updateCacheBlock (hc_levels g) g p address new_cstate reason False)
                     (\<lambda>(l, hit, _). returnS (max latency l, sibling_hit \<or> hit))) (0, False) (prevs g i)) (\<lambda>(latency, sibling_hit).
     thenS (incrElapsed g i latency USER_THREAD)
    (thenS (addStat i SNOOP_LATENCY latency) (returnS sibling_hit)))"

definition perfect_line :: "hier_cfg \<Rightarrow> nat \<Rightarrow> mem_op_t \<Rightarrow> IntPtr \<Rightarrow> bool \<Rightarrow> unit hop" where
  "perfect_line g i op address present =
     (if present then setCacheState g i address MODIFIED
      else insertCacheBlock g i address (if op = READ then SHARED else MODIFIED) None (cc_core_id (CFG g i)) USER_THREAD)"

definition option_hit :: "hier_cfg \<Rightarrow> nat \<Rightarrow> IntPtr \<Rightarrow> option_t \<Rightarrow> stat \<Rightarrow> bool \<Rightarrow> bool hop" where
  "option_hit g i address opt x enabled =
     bindS (getCacheBlockInfo g i address) (\<lambda>block.
       case block of
         None \<Rightarrow> failS (UNDEFINED ''cache_block_info is NULL'')
       | Some b \<Rightarrow>
           if enabled \<and> hasOption b opt
           then thenS (addStat i x 1) (thenS (updBlock g i address (\<lambda>b. clearOption b opt)) (returnS True))
           else returnS False)"

definition shmem_hit ::
  "hier_cfg \<Rightarrow> nat \<Rightarrow> nat \<Rightarrow> mem_op_t \<Rightarrow> IntPtr \<Rightarrow> bool \<Rightarrow> prefetch_type_t \<Rightarrow> (bool \<times> where_t) hop" where
  "shmem_hit g i requester op address modeled isPrefetch =
     bindS (option_hit g i address PREFETCH HITS_PREFETCH (isPrefetch = PF_NONE)) (\<lambda>prefetch_hit.
     thenS (option_hit g i address WARMUP HITS_WARMUP (\<not> hc_cache_only g))
    (thenS
       (whenS modeled
         (bindS (getElapsed g i USER_THREAD) (\<lambda>t_now.
          bindS (getS (\<lambda>h. overlap address t_now (the_master g i h))) (\<lambda>l.
            case l of
              Some latency \<Rightarrow> thenS (addStat i MSHR_LATENCY latency) (incrElapsed g i latency USER_THREAD)
            | None \<Rightarrow> incrElapsed_access g i ACCESS_CACHE_DATA_AND_TAGS USER_THREAD))))
    (bindS (getCacheState g i address) (\<lambda>cstate.
     bindS (if op \<noteq> READ then snoop_previous g i requester address INVALID COHERENCY
            else if cstate = MODIFIED \<or> cstate = EXCLUSIVE then snoop_previous g i requester address SHARED COHERENCY
            else returnS False) (\<lambda>sibling_hit.
     bindS (getS (\<lambda>h. h_last_remote_hit_where h i)) (\<lambda>remote.
       if remote \<noteq> UNKNOWN
       then thenS (updateUncoreStatistics i UNKNOWN) (returnS (prefetch_hit, remote))
       else returnS (prefetch_hit, where_of_nat (cc_mem_component (CFG g i) + (if sibling_hit then SIBLING_OFFSET else 0)))))))))"

definition fill_from_dram :: "hier_cfg \<Rightarrow> nat \<Rightarrow> mem_op_t \<Rightarrow> IntPtr \<Rightarrow> prefetch_type_t \<Rightarrow> where_t hop" where
  "fill_from_dram g i op address isPrefetch =
     bindS (accessDRAM g i READ address (hc_uninit g)) (\<lambda>(hit_where, latency, data).
     thenS (incrElapsed g i latency USER_THREAD)
    (thenS (insertCacheBlock g i address (if op = READ then SHARED else MODIFIED) (Some data) (cc_core_id (CFG g i)) USER_THREAD)
    (thenS (whenS (isPrefetch \<noteq> PF_NONE) (updBlock g i address (\<lambda>b. setOption b PREFETCH)))
    (thenS (updateUncoreStatistics i hit_where) (returnS hit_where)))))"

definition shmem_last_level ::
  "hier_cfg \<Rightarrow> nat \<Rightarrow> nat \<Rightarrow> mem_op_t \<Rightarrow> IntPtr \<Rightarrow> cache_block_info option \<Rightarrow> prefetch_type_t \<Rightarrow> UInt64 \<Rightarrow> (bool \<times> where_t) hop" where
  "shmem_last_level g i requester op address block isPrefetch t_issue =
     (if state_of block = EXCLUSIVE
      then thenS (snoop_previous g i requester address INVALID UPGRADE)
          (thenS (setCacheState g i address MODIFIED) (returnS (True, where_of_nat (cc_mem_component (CFG g i)))))
      else
        bindS (getS (\<lambda>h. m_dram_cntlr (the_master g i h) \<noteq> None)) (\<lambda>has_dram.
          if has_dram
          then
            (if block \<noteq> None
             then thenS (setCacheState g i address MODIFIED) (returnS (True, where_of_nat (cc_mem_component (CFG g i))))
             else bindS (fill_from_dram g i op address isPrefetch) (\<lambda>w. returnS (True, w)))
          else thenS (initiateDirectoryAccess g i op address (isPrefetch \<noteq> PF_NONE) t_issue) (returnS (False, MISS))))"

definition shmem_lookup ::
  "hier_cfg \<Rightarrow> nat \<Rightarrow> mem_op_t \<Rightarrow> IntPtr \<Rightarrow> bool \<Rightarrow> prefetch_type_t \<Rightarrow> (bool \<times> bool) hop" where
  "shmem_lookup g i op address cnt isPrefetch =
     bindS (operationPermissibleinCache g i address op) (\<lambda>hit.
     bindS (getCacheBlockInfo g i address) (\<lambda>block.
     bindS
       (if \<not> hit \<and> cc_perfect (CFG g i) then thenS (perfect_line g i op address (block \<noteq> None)) (returnS (True, hit))
        else if hit \<and> cc_passthrough (CFG g i) \<and> cnt
        then thenS (updBlock g i address invalidate)
            (thenS (assertS (cc_next (CFG g i) \<noteq> None) (LOG_ASSERT_ERROR ''Cannot do passthrough on an LLC'')) (returnS (False, False)))
        else returnS (hit, hit)) (\<lambda>(cache_hit, first_hit).
     thenS
       (whenS cnt
         (thenS (whenS (isPrefetch = PF_NONE) (countCache g i cache_hit))
         (bindS (getCacheState g i address) (\<lambda>cstate. cc_updateCounters g i op address cache_hit cstate isPrefetch))))
       (returnS (cache_hit, first_hit)))))"

definition after_hit :: "hier_cfg \<Rightarrow> nat \<Rightarrow> IntPtr \<Rightarrow> bool \<Rightarrow> bool \<Rightarrow> bool \<Rightarrow> UInt64 \<Rightarrow> unit hop" where
  "after_hit g i address first_hit modeled cnt t_issue =
     thenS (retrieveCacheBlock g i address (first_hit \<and> cnt))
       (whenS (modeled \<and> \<not> first_hit \<and> \<not> cc_passthrough (CFG g i))
         (bindS (getElapsed g i USER_THREAD) (\<lambda>t. thenS (setMshr g i address t_issue t) (cleanMshr g i))))"

primrec processShmemReqFromPrevCache ::
  "nat \<Rightarrow> hier_cfg \<Rightarrow> nat \<Rightarrow> nat \<Rightarrow> mem_op_t \<Rightarrow> IntPtr \<Rightarrow> bool \<Rightarrow> bool \<Rightarrow> prefetch_type_t \<Rightarrow> UInt64 \<Rightarrow> where_t hop" where
  "processShmemReqFromPrevCache 0 g i requester op address modeled cnt isPrefetch t_issue =
     failS (NONTERMINATION ''processShmemReqFromPrevCache'')"
| "processShmemReqFromPrevCache (Suc n) g i requester op address modeled cnt isPrefetch t_issue =
     thenS (whenS (modeled \<and> cnt) (loggingLevel g i op))
    (bindS (shmem_lookup g i op address cnt isPrefetch) (\<lambda>(hit, first_hit).
     bindS
       (if hit
        then bindS (shmem_hit g i requester op address modeled isPrefetch) (\<lambda>(prefetch_hit, w). returnS (True, prefetch_hit, w))
        else
          thenS (whenS modeled (incrElapsed_access g i ACCESS_CACHE_TAGS USER_THREAD))
         (bindS (getCacheBlockInfo g i address) (\<lambda>block.
          thenS (whenS (state_of block = SHARED) (thenS (snoop_previous g i requester address INVALID UPGRADE) (returnS ())))
            (case cc_next (CFG g i) of
               Some j \<Rightarrow>
                 thenS (whenS (block \<noteq> None) (invalidateCacheBlock g i address))
                (bindS (processShmemReqFromPrevCache n g j i op address modeled cnt
                          (if isPrefetch = PF_NONE then PF_NONE else PF_OTHER) t_issue) (\<lambda>w.
                   if w = MISS then returnS (False, False, w)
                   else
                     bindS (getElapsed g i USER_THREAD) (\<lambda>t_now.
                     thenS (copyDataFromNextLevel g i op address modeled t_now)
                    (thenS (whenS (isPrefetch \<noteq> PF_NONE) (updBlock g i address (\<lambda>b. setOption b PREFETCH)))
                       (returnS (True, False, w))))))
             | None \<Rightarrow>
                 bindS (shmem_last_level g i requester op address block isPrefetch t_issue) (\<lambda>(cache_hit, w).
                   returnS (cache_hit, False, w)))))) (\<lambda>(cache_hit, prefetch_hit, hit_where).
     thenS (whenS cache_hit (after_hit g i address first_hit modeled cnt t_issue))
    (bindS (getS (\<lambda>h. m_prefetcher (the_master g i h) \<noteq> None)) (\<lambda>has_prefetcher.
     thenS (whenS (modeled \<and> has_prefetcher) (trainPrefetcher g i address cache_hit prefetch_hit (isPrefetch = PF_OWN) t_issue))
       (returnS hit_where))))))"

end
