(* ===== verification/Cache_Messages.thy ===== *)
theory Cache_Messages
  imports Cache_Requests
begin

text \<open>
  The entry points of the cache controllers (\<^verbatim>\<open>cache_cntlr.cc\<close>): \<^verbatim>\<open>processMemOpFromCore\<close> and \<^verbatim>\<open>Prefetch\<close>, called
  by the user thread of a core, and \<^verbatim>\<open>handleMsgFromDramDirectory\<close>, called by the network thread. A completed
  memory operation is recorded in \<open>h_done\<close>.
\<close>

section \<open>Prefetch\<close>

definition setPending :: "hier_cfg \<Rightarrow> nat \<Rightarrow> pending option \<Rightarrow> unit hop" where
  "setPending g i p = modifyS (\<lambda>h. h\<lparr>h_pending := (h_pending h)(cc_core_id (CFG g i) := p)\<rparr>)"

primrec Prefetch :: "nat \<Rightarrow> hier_cfg \<Rightarrow> nat \<Rightarrow> UInt64 \<Rightarrow> unit hop" where
  "Prefetch 0 g i t_now = failS (NONTERMINATION ''Prefetch'')"
| "Prefetch (Suc n) g i t_now =
     bindS (getS (the_master g i)) (\<lambda>m.
     bindS (if m_prefetch_next m \<le> t_now then next_prefetch (m_prefetch_list m) g i else returnS None) (\<lambda>a.
     bindS
       (if a = None \<or> a = Some INVALID_ADDRESS then returnS True
        else
          thenS (addStat i PREFETCHES 1)
         (bindS (getElapsed g i USER_THREAD) (\<lambda>t_before.
          bindS (getS (\<lambda>h. m_prefetch_next (the_master g i h))) (\<lambda>t_start.
          thenS (setElapsed g i USER_THREAD t_start)
         (bindS (processShmemReqFromPrevCache (hc_levels g) g i i READ (the a) True True PF_OWN t_start) (\<lambda>w.
            if w = MISS then thenS (setPending g i (Some (InPrefetch i (the a) t_start t_before t_now))) (returnS False)
            else
              thenS (setElapsed g i USER_THREAD t_before)
             (thenS (updMaster g i (\<lambda>m. m\<lparr>m_prefetch_next := m_prefetch_next m + PREFETCH_INTERVAL\<rparr>)) (returnS True))))))))
       (\<lambda>go_on.
         if go_on then (case cc_next (CFG g i) of None \<Rightarrow> returnS () | Some j \<Rightarrow> Prefetch n g j t_now)
         else returnS ())))"

definition resumePrefetch :: "hier_cfg \<Rightarrow> nat \<Rightarrow> IntPtr \<Rightarrow> UInt64 \<Rightarrow> UInt64 \<Rightarrow> UInt64 \<Rightarrow> unit hop" where
  "resumePrefetch g i a t_start t_before t_now =
     bindS (processShmemReqFromPrevCache (hc_levels g) g i i READ a False False PF_OWN t_start) (\<lambda>w.
     thenS (assertS (w \<noteq> MISS) (LOG_ASSERT_ERROR ''Line was not there after prefetch''))
    (thenS (setElapsed g i USER_THREAD t_before)
    (thenS (updMaster g i (\<lambda>m. m\<lparr>m_prefetch_next := m_prefetch_next m + PREFETCH_INTERVAL\<rparr>))
       (case cc_next (CFG g i) of None \<Rightarrow> returnS () | Some j \<Rightarrow> Prefetch (hc_levels g) g j t_now))))"

section \<open>Memory operations of a core\<close>

primrec updateUsageBits :: "nat \<Rightarrow> hier_cfg \<Rightarrow> nat \<Rightarrow> IntPtr \<Rightarrow> UInt8 \<Rightarrow> unit hop" where
  "updateUsageBits 0 g i address used = failS (NONTERMINATION ''updateUsageBits'')"
| "updateUsageBits (Suc n) g i address used =
     bindS (getCacheBlockInfo g i address) (\<lambda>block.
       case block of
         None \<Rightarrow> failS (UNDEFINED ''cache_block_info is NULL'')
       | Some b \<Rightarrow>
           thenS (updBlock g i address (\<lambda>b. snd (updateUsage_mask b used)))
             (case cc_next (CFG g i) of
                Some j \<Rightarrow> whenS (fst (updateUsage_mask b used) \<and> \<not> cc_perfect (CFG g i)) (updateUsageBits n g j address used)
              | None \<Rightarrow> returnS ()))"

definition accessCache :: "hier_cfg \<Rightarrow> nat \<Rightarrow> mem_op_t \<Rightarrow> IntPtr \<Rightarrow> UInt32 \<Rightarrow> UInt8 list option \<Rightarrow> UInt32 \<Rightarrow> bool \<Rightarrow> UInt8 list option hop" where
  "accessCache g i op ca_address offset data data_length update_replacement =
     bindS (liftS (\<lambda>h. accessSingleLine (the_cache g i h) (ca_address + ucast offset) (if op = WRITE then STORE else LOAD) data
                         data_length update_replacement)) (\<lambda>(_, buf, c).
     thenS (setCache g i c)
    (thenS (whenS (op = WRITE \<and> cc_writethrough (CFG g i))
              (case cc_next (CFG g i) of
                 None \<Rightarrow> failS (LOG_ASSERT_ERROR ''Writethrough enabled on last-level cache !?'')
               | Some j \<Rightarrow> writeCacheBlock (hc_levels g) g j ca_address offset data data_length))
       (returnS buf)))"

definition memop_usage :: "hier_cfg \<Rightarrow> mem_op \<Rightarrow> unit hop" where
  "memop_usage g mo =
     (let i = mo_cntlr mo; a = mo_ca_address mo in
      case cc_next (CFG g i) of
        None \<Rightarrow> returnS ()
      | Some j \<Rightarrow>
          whenS (mo_modeled mo \<and> \<not> cc_perfect (CFG g i) \<and> hc_get_owner g \<noteq> None)
            (bindS (getCacheBlockInfo g i a) (\<lambda>block.
               case block of
                 None \<Rightarrow> failS (UNDEFINED ''cache_block_info is NULL'')
               | Some b \<Rightarrow>
                   bindS (liftS (\<lambda>_. updateUsage b (mo_offset mo) (mo_data_length mo))) (\<lambda>(new_bits, b1).
                   thenS (updBlock g i a (\<lambda>_. b1)) (whenS new_bits (updateUsageBits (hc_levels g) g j a (m_used b1)))))))"

definition memop_finish :: "hier_cfg \<Rightarrow> mem_op \<Rightarrow> bool \<Rightarrow> bool \<Rightarrow> where_t \<Rightarrow> unit hop" where
  "memop_finish g mo cache_hit prefetch_hit hit_where =
     (let i = mo_cntlr mo; a = mo_ca_address mo; op = mo_mem_op_type mo in
      thenS (memop_usage g mo)
     (bindS (accessCache g i op a (mo_offset mo) (mo_data_buf mo) (mo_data_length mo)
               (hit_where = where_of_nat (cc_mem_component (CFG g i)) \<and> mo_count mo)) (\<lambda>data.
      bindS (getElapsed g i USER_THREAD) (\<lambda>t_now.
      thenS (whenS (\<not> cache_hit \<and> mo_count mo) (addStat i TOTAL_LATENCY (t_now - mo_t_start mo)))
     (thenS (addStat i (if op = WRITE then STORES_WHERE hit_where else LOADS_WHERE hit_where) 1)
     (bindS (getS (\<lambda>h. m_prefetcher (the_master g i h) \<noteq> None)) (\<lambda>has_prefetcher.
      thenS (whenS (mo_modeled mo \<and> has_prefetcher) (trainPrefetcher g i a cache_hit prefetch_hit False (mo_t_start mo)))
     (thenS (modifyS (\<lambda>h. h\<lparr>h_done := h_done h @ [(cc_core_id (CFG g i), hit_where, data)]\<rparr>))
        (whenS (mo_lock_signal mo \<noteq> LOCK \<and> mo_modeled mo) (Prefetch (hc_levels g) g i (mo_t_start mo)))))))))))"

definition memop_hit :: "hier_cfg \<Rightarrow> mem_op \<Rightarrow> unit hop" where
  "memop_hit g mo =
     (let i = mo_cntlr mo; a = mo_ca_address mo in
      thenS (incrElapsed_access g i ACCESS_CACHE_DATA_AND_TAGS USER_THREAD)
     (thenS (option_hit g i a WARMUP HITS_WARMUP (\<not> hc_cache_only g))
     (bindS (option_hit g i a PREFETCH HITS_PREFETCH True) (\<lambda>prefetch_hit.
      thenS (whenS (mo_modeled mo \<and> cc_l1_mshr (CFG g i))
              (bindS (getElapsed g i USER_THREAD) (\<lambda>t_now.
               bindS (getS (\<lambda>h. getTagCompletionTime a (m_l1_mshr (the_master g i h)))) (\<lambda>t_completed.
                 whenS (t_completed \<noteq> MaxTime \<and> t_completed > t_now)
                   (thenS (addStat i (if mo_mem_op_type mo = WRITE then STORE_OVERLAPPING_MISSES else LOAD_OVERLAPPING_MISSES) 1)
                      (incrElapsed g i (t_completed - t_now) USER_THREAD))))))
     (thenS (whenS (mo_modeled mo)
              (bindS (getElapsed g i USER_THREAD) (\<lambda>t_now.
               bindS (getS (\<lambda>h. overlap a t_now (the_master g i h))) (\<lambda>l.
                 case l of
                   None \<Rightarrow> returnS ()
                 | Some latency \<Rightarrow> thenS (addStat i MSHR_LATENCY latency) (incrElapsed g i latency USER_THREAD)))))
        (memop_finish g mo True prefetch_hit (where_of_nat (cc_mem_component (CFG g i)))))))))"

text \<open>The rest of a miss once the data is in the next level.\<close>

definition memop_fill :: "hier_cfg \<Rightarrow> mem_op \<Rightarrow> where_t \<Rightarrow> unit hop" where
  "memop_fill g mo hit_where =
     (let i = mo_cntlr mo; a = mo_ca_address mo in
      bindS (getElapsed g i USER_THREAD) (\<lambda>t_now.
      thenS (copyDataFromNextLevel g i (mo_mem_op_type mo) a (mo_modeled mo) t_now)
     (bindS (operationPermissibleinCache g i a (mo_mem_op_type mo)) (\<lambda>ok.
      thenS (assertS ok (LOG_ASSERT_ERROR ''Expected address to be valid in L1''))
     (thenS (whenS (mo_modeled mo \<and> cc_l1_mshr (CFG g i) \<and> \<not> cc_passthrough (CFG g i))
              (bindS (getElapsed g i USER_THREAD) (\<lambda>t_miss_end.
                 updMaster g i (\<lambda>m. m\<lparr>m_l1_mshr := snd (getCompletionTime (mo_t_miss_begin mo) (t_miss_end - mo_t_mshr_avail mo) a (m_l1_mshr m))\<rparr>))))
        (memop_finish g mo False False hit_where))))))"

definition memop_miss :: "hier_cfg \<Rightarrow> mem_op \<Rightarrow> unit hop" where
  "memop_miss g mo =
     (let i = mo_cntlr mo; a = mo_ca_address mo; c = CFG g i in
      thenS (whenS (\<not> cc_passthrough c) (incrElapsed_access g i ACCESS_CACHE_TAGS USER_THREAD))
     (bindS (getElapsed g i USER_THREAD) (\<lambda>t_miss_begin.
      bindS (if mo_modeled mo \<and> cc_l1_mshr c \<and> \<not> cc_passthrough c
             then
               bindS (getS (\<lambda>h. getStartTime t_miss_begin (m_l1_mshr (the_master g i h)))) (\<lambda>t.
               thenS (assertS (t \<ge> t_miss_begin) (LOG_ASSERT_ERROR ''t_mshr_avail < t_miss_begin''))
              (thenS (incrElapsed g i (t - t_miss_begin) USER_THREAD)
              (thenS (addStat i MSHR_LATENCY (t - t_miss_begin)) (returnS t))))
             else returnS t_miss_begin) (\<lambda>t_mshr_avail.
      thenS (assertS (mo_lock_signal mo \<noteq> UNLOCK) (LOG_PRINT_ERROR ''Expected to find address in L1 Cache''))
     (bindS (getCacheState g i a) (\<lambda>cstate.
      thenS (whenS (cstate \<noteq> INVALID) (invalidateCacheBlock g i a))
     (bindS (theNext g i) (\<lambda>j.
      bindS (processShmemReqFromPrevCache (hc_levels g) g j i (mo_mem_op_type mo) a (mo_modeled mo) (mo_count mo) PF_NONE (mo_t_start mo)) (\<lambda>w.
        let mo1 = mo\<lparr>mo_t_miss_begin := t_miss_begin, mo_t_mshr_avail := t_mshr_avail\<rparr>
        in if w = MISS then setPending g i (Some (InMemOp mo1)) else memop_fill g mo1 w))))))))) "

definition resumeMemOp :: "hier_cfg \<Rightarrow> mem_op \<Rightarrow> unit hop" where
  "resumeMemOp g mo =
     bindS (theNext g (mo_cntlr mo)) (\<lambda>j.
     bindS (processShmemReqFromPrevCache (hc_levels g) g j (mo_cntlr mo) (mo_mem_op_type mo) (mo_ca_address mo) False False PF_NONE (mo_t_start mo)) (\<lambda>w.
     thenS (assertS (w \<noteq> MISS) (LOG_ASSERT_ERROR ''Tried to read in next-level cache, but data is already gone''))
       (memop_fill g mo w)))"

definition processMemOpFromCore ::
  "hier_cfg \<Rightarrow> nat \<Rightarrow> lock_signal_t \<Rightarrow> mem_op_t \<Rightarrow> IntPtr \<Rightarrow> UInt32 \<Rightarrow> UInt8 list option \<Rightarrow> UInt32 \<Rightarrow> bool \<Rightarrow> bool \<Rightarrow> unit hop" where
  "processMemOpFromCore g i lock_signal op ca_address offset data data_length modeled cnt =
     thenS (assertS (ca_address AND (ucast (cc_cache_block_size (CFG g i)) - 1) = 0) (LOG_ASSERT_ERROR ''address at cache line''))
    (thenS (assertS (offset + data_length \<le> cc_cache_block_size (CFG g i)) (LOG_ASSERT_ERROR ''access until''))
    (bindS (getElapsed g i USER_THREAD) (\<lambda>t_start.
     bindS (getCacheBlockInfo g i ca_address) (\<lambda>block.
     let hit = permissible (state_of block) op in
     thenS (loggingLevel g i op)
    (bindS
       (if \<not> hit \<and> cc_perfect (CFG g i) then thenS (perfect_line g i op ca_address (block \<noteq> None)) (returnS True)
        else if hit \<and> cc_passthrough (CFG g i) then thenS (updBlock g i ca_address invalidate) (returnS False)
        else returnS hit) (\<lambda>cache_hit.
     thenS
       (whenS cnt
         (thenS (countCache g i cache_hit)
         (bindS (getCacheState g i ca_address) (\<lambda>cstate. cc_updateCounters g i op ca_address cache_hit cstate PF_NONE))))
       (let mo = \<lparr>mo_cntlr = i, mo_lock_signal = lock_signal, mo_mem_op_type = op, mo_ca_address = ca_address, mo_offset = offset,
                  mo_data_buf = data, mo_data_length = data_length, mo_modeled = modeled, mo_count = cnt, mo_t_start = t_start,
                  mo_t_miss_begin = 0, mo_t_mshr_avail = 0\<rparr>
        in if cache_hit then memop_hit g mo else memop_miss g mo)))))))"

text \<open>The user thread of a core, woken up by the network thread.\<close>

definition resumeUserThread :: "hier_cfg \<Rightarrow> nat \<Rightarrow> unit hop" where
  "resumeUserThread g i =
     bindS (getS (\<lambda>h. h_pending h (cc_core_id (CFG g i)))) (\<lambda>p.
       case p of
         None \<Rightarrow> failS (UNDEFINED ''no thread waits'')
       | Some (InMemOp mo) \<Rightarrow> thenS (setPending g i None) (resumeMemOp g mo)
       | Some (InPrefetch k a t_start t_before t_now) \<Rightarrow> thenS (setPending g i None) (resumePrefetch g k a t_start t_before t_now))"

section \<open>Messages from the directory\<close>

definition processExRepFromDramDirectory :: "hier_cfg \<Rightarrow> nat \<Rightarrow> core_id_t \<Rightarrow> shmem_msg \<Rightarrow> unit hop" where
  "processExRepFromDramDirectory g i requester msg =
     insertCacheBlock g i (msg_address msg) EXCLUSIVE (m_data_buf msg) requester SIM_THREAD"

definition processShRepFromDramDirectory :: "hier_cfg \<Rightarrow> nat \<Rightarrow> core_id_t \<Rightarrow> shmem_msg \<Rightarrow> unit hop" where
  "processShRepFromDramDirectory g i requester msg =
     insertCacheBlock g i (msg_address msg) SHARED (m_data_buf msg) requester SIM_THREAD"

definition processUpgradeRepFromDramDirectory :: "hier_cfg \<Rightarrow> nat \<Rightarrow> shmem_msg \<Rightarrow> unit hop" where
  "processUpgradeRepFromDramDirectory g i msg =
     (let address = msg_address msg in
      bindS (getCacheState g i address) (\<lambda>cstate.
        if cstate = INVALID
        then thenS (assertS (m_data_buf msg \<noteq> None) (LOG_ASSERT_ERROR ''Trying to upgrade a block that is now INV and no data in the shmem_msg''))
            (thenS (updateCacheBlock (hc_levels g) g i address MODIFIED UPGRADE True) (returnS ()))
        else if cstate = SHARED_UPGRADING
        then thenS (updateCacheBlock (hc_levels g) g i address MODIFIED UPGRADE False) (returnS ())
        else failS (LOG_PRINT_ERROR ''Trying to upgrade a block that is not SHARED_UPGRADING'')))"

definition processInvReqFromDramDirectory :: "hier_cfg \<Rightarrow> nat \<Rightarrow> core_id_t \<Rightarrow> shmem_msg \<Rightarrow> unit hop" where
  "processInvReqFromDramDirectory g i sender msg =
     (let address = msg_address msg in
      bindS (getCacheState g i address) (\<lambda>cstate.
        if cstate \<noteq> INVALID
        then
          thenS (incrElapsed_access g i ACCESS_CACHE_TAGS SIM_THREAD)
         (thenS (updateCacheBlock (hc_levels g) g i address INVALID COHERENCY False)
            (cc_sendMsg g i INV_REP (m_requester msg) sender address None SIM_THREAD))
        else incrElapsed_access g i ACCESS_CACHE_TAGS SIM_THREAD))"

definition processFlushReqFromDramDirectory :: "hier_cfg \<Rightarrow> nat \<Rightarrow> core_id_t \<Rightarrow> shmem_msg \<Rightarrow> unit hop" where
  "processFlushReqFromDramDirectory g i sender msg =
     (let address = msg_address msg in
      bindS (getCacheState g i address) (\<lambda>cstate.
        if cstate \<noteq> INVALID
        then
          thenS (incrElapsed_access g i ACCESS_CACHE_DATA_AND_TAGS SIM_THREAD)
         (bindS (updateCacheBlock (hc_levels g) g i address INVALID COHERENCY True) (\<lambda>(_, _, data).
            cc_sendMsg g i FLUSH_REP (m_requester msg) sender address data SIM_THREAD))
        else incrElapsed_access g i ACCESS_CACHE_TAGS SIM_THREAD))"

definition processWbReqFromDramDirectory :: "hier_cfg \<Rightarrow> nat \<Rightarrow> core_id_t \<Rightarrow> shmem_msg \<Rightarrow> unit hop" where
  "processWbReqFromDramDirectory g i sender msg =
     (let address = msg_address msg in
      bindS (getCacheState g i address) (\<lambda>cstate.
        if cstate \<noteq> INVALID
        then
          thenS (incrElapsed_access g i ACCESS_CACHE_DATA_AND_TAGS SIM_THREAD)
         (bindS (if cstate \<noteq> SHARED_UPGRADING
                 then bindS (updateCacheBlock (hc_levels g) g i address SHARED COHERENCY True) (\<lambda>(_, _, data). returnS data)
                 else returnS (Some (hc_uninit g))) (\<lambda>data.
            cc_sendMsg g i WB_REP (m_requester msg) sender address data SIM_THREAD))
        else incrElapsed_access g i ACCESS_CACHE_TAGS SIM_THREAD))"

text \<open>The loop over the threads that wait for the line, started with the number of them as its bound.\<close>

primrec waiter_loop :: "nat \<Rightarrow> hier_cfg \<Rightarrow> nat \<Rightarrow> IntPtr \<Rightarrow> where_t \<Rightarrow> unit hop" where
  "waiter_loop 0 g i address hit_where =
     bindS (getS (\<lambda>h. rq_empty address (m_directory_waiters (the_master g i h)))) (\<lambda>e.
       if e then returnS () else failS (NONTERMINATION ''handleMsgFromDramDirectory''))"
| "waiter_loop (Suc n) g i address hit_where =
     bindS (getS (\<lambda>h. rq_empty address (m_directory_waiters (the_master g i h)))) (\<lambda>e.
       if e then returnS ()
       else
         bindS (liftS (\<lambda>h. rq_front address (m_directory_waiters (the_master g i h)))) (\<lambda>request.
         bindS (getCacheState g i address) (\<lambda>cstate.
           if cdw_exclusive request \<and> cstate = SHARED then processUpgradeReqToDirectory g i address SIM_THREAD
           else
             (let k = cdw_cache_cntlr request in
              thenS (whenS (cdw_isPrefetch request) (updBlock g i address (\<lambda>b. setOption b PREFETCH)))
             (bindS (getElapsed g k USER_THREAD) (\<lambda>t_core.
              bindS (getElapsed g i SIM_THREAD) (\<lambda>t_here.
              thenS (whenS (t_here > t_core) (setElapsed g k USER_THREAD t_here))
             (thenS (updateUncoreStatistics k hit_where)
             (thenS (resumeUserThread g k)
             (bindS (getElapsed g i SIM_THREAD) (\<lambda>t_complete.
              thenS (setMshr g k address (cdw_t_issue request) t_complete)
             (thenS (cleanMshr g i)
             (bindS (liftS (\<lambda>h. dequeue address (m_directory_waiters (the_master g i h)))) (\<lambda>(_, q).
              thenS (updMaster g i (m_directory_waiters_update (\<lambda>_. q)))
                (waiter_loop n g i address hit_where)))))))))))))))"

definition is_reply :: "msg_t \<Rightarrow> bool" where
  "is_reply ty \<longleftrightarrow> ty = EX_REP \<or> ty = SH_REP \<or> ty = UPGRADE_REP"

definition handleMsgFromDramDirectory :: "hier_cfg \<Rightarrow> nat \<Rightarrow> core_id_t \<Rightarrow> shmem_msg \<Rightarrow> unit hop" where
  "handleMsgFromDramDirectory g i sender msg =
     (let ty = m_msg_type msg; address = msg_address msg in
      bindS (if is_reply ty
             then bindS (liftS (\<lambda>h. rq_front address (m_directory_waiters (the_master g i h)))) (\<lambda>request.
                    returnS (cc_core_id (CFG g (cdw_cache_cntlr request))))
             else returnS INVALID_CORE_ID) (\<lambda>requester.
      thenS
        (case ty of
           EX_REP \<Rightarrow> processExRepFromDramDirectory g i requester msg
         | SH_REP \<Rightarrow> processShRepFromDramDirectory g i requester msg
         | UPGRADE_REP \<Rightarrow> processUpgradeRepFromDramDirectory g i msg
         | INV_REQ \<Rightarrow> processInvReqFromDramDirectory g i sender msg
         | FLUSH_REQ \<Rightarrow> processFlushReqFromDramDirectory g i sender msg
         | WB_REQ \<Rightarrow> processWbReqFromDramDirectory g i sender msg
         | _ \<Rightarrow> failS (LOG_PRINT_ERROR ''Unrecognized msg type''))
        (whenS (is_reply ty)
          (bindS (getS (\<lambda>h. rq_size address (m_directory_waiters (the_master g i h)))) (\<lambda>n.
             waiter_loop n g i address (m_where msg))))))"

end
