(* ===== verification/Cache_Coherence.thy ===== *)
theory Cache_Coherence
  imports Cache_Lines Cache_Messages
begin

text \<open>
  What the operations of the cache controllers do to the lines of all caches. \<open>seen w L ms\<close> describes a
  hierarchy whose caches are well formed with blocks of \<open>2 ^ w\<close> bytes, hold the lines \<open>L\<close> and have sent the messages
  \<open>ms\<close>. An operation is \<open>quiet\<close> when it leaves all of this alone; the others are described by how they change it.
\<close>

section \<open>The lines of a hierarchy\<close>

type_synonym lines_map = "nat \<Rightarrow> IntPtr \<Rightarrow> cache_block_info option"

definition Lines :: "hier \<Rightarrow> lines_map" where
  "Lines h m = lines (m_cache (h_masters h m))"

definition caches_ok :: "nat \<Rightarrow> hier \<Rightarrow> bool" where
  "caches_ok w h \<longleftrightarrow> (\<forall>m. cache_inv (m_cache (h_masters h m)) \<and> m_log_blocksize (base (m_cache (h_masters h m))) = w)"

definition seen :: "nat \<Rightarrow> lines_map \<Rightarrow> (core_id_t \<times> receiver_t \<times> shmem_msg \<times> UInt64) list \<Rightarrow> hier \<Rightarrow> bool" where
  "seen w L ms h \<longleftrightarrow> caches_ok w h \<and> Lines h = L \<and> h_sent h = ms"

abbreviation (input) MST :: "hier_cfg \<Rightarrow> nat \<Rightarrow> nat" where "MST g i \<equiv> cc_master (CFG g i)"

definition quiet :: "nat \<Rightarrow> 'a hop \<Rightarrow> bool" where
  "quiet w m \<longleftrightarrow> (\<forall>L ms. specS (seen w L ms) m (\<lambda>_. seen w L ms))"

named_theorems quiet_rules

lemma quietD: "quiet w m \<Longrightarrow> specS (seen w L ms) m (\<lambda>_. seen w L ms)"
  by (simp add: quiet_def)

lemma quiet_return [quiet_rules]: "quiet w (returnS x)"
  by (auto simp: quiet_def intro: specS_return)

lemma quiet_bind [quiet_rules]: "quiet w m \<Longrightarrow> (\<And>x. quiet w (f x)) \<Longrightarrow> quiet w (bindS m f)"
  unfolding quiet_def by (blast intro: specS_bind)

lemma quiet_then [quiet_rules]: "quiet w m \<Longrightarrow> quiet w k \<Longrightarrow> quiet w (thenS m k)"
  unfolding quiet_def by (blast intro: specS_then)

lemma quiet_fail [quiet_rules]: "quiet w (failS e)"
  by (simp add: quiet_def specS_fail)

lemma quiet_get [quiet_rules]: "quiet w (getS f)"
  by (auto simp: quiet_def intro: specS_get)

lemma quiet_assert [quiet_rules]: "quiet w (assertS b e)"
  by (auto simp: quiet_def intro: specS_assert)

lemma quiet_lift [quiet_rules]: "quiet w (liftS f)"
  by (auto simp: quiet_def intro: specS_lift)

lemma quiet_when [quiet_rules]: "quiet w m \<Longrightarrow> quiet w (whenS b m)"
  by (auto simp: quiet_def intro: specS_when)

lemma quiet_if [quiet_rules]: "quiet w m \<Longrightarrow> quiet w k \<Longrightarrow> quiet w (if b then m else k)"
  by simp

lemma quiet_option [quiet_rules]: "quiet w m \<Longrightarrow> (\<And>x. quiet w (f x)) \<Longrightarrow> quiet w (case x of None \<Rightarrow> m | Some x \<Rightarrow> f x)"
  by (simp split: option.split)

lemma quiet_prod [quiet_rules]: "(\<And>x y. quiet w (f x y)) \<Longrightarrow> quiet w (case p of (x, y) \<Rightarrow> f x y)"
  by (simp split: prod.split)

lemma quiet_repeat [quiet_rules]: "quiet w m \<Longrightarrow> quiet w (repeatS n m)"
  by (simp add: quiet_def specS_repeat)

lemma quiet_modify:
  "(\<And>h m. m_cache (h_masters (f h) m) = m_cache (h_masters h m)) \<Longrightarrow> (\<And>h. h_sent (f h) = h_sent h) \<Longrightarrow> quiet w (modifyS f)"
  unfolding quiet_def seen_def caches_ok_def Lines_def by (auto intro!: specS_modify simp: fun_eq_iff)

lemma quiet_master: "(\<And>m. m_cache (f m) = m_cache m) \<Longrightarrow> quiet w (updMaster g i f)"
  unfolding updMaster_def by (rule quiet_modify) (auto simp: the_master_def)

lemma quiet_addStat [quiet_rules]: "quiet w (addStat i x n)"
  unfolding addStat_def by (rule quiet_modify) auto

lemma quiet_elapsed [quiet_rules]:
  "quiet w (getElapsed g i th)" "quiet w (setElapsed g i th t)" "quiet w (incrElapsed g i l th)" "quiet w (incrElapsed_access g i x th)"
proof -
  show s: "quiet w (setElapsed g i th t)" for t unfolding setElapsed_def by (rule quiet_modify) auto
  show g: "quiet w (getElapsed g i th)" unfolding getElapsed_def by (rule quiet_get)
  show "quiet w (incrElapsed g i l th)" for l unfolding incrElapsed_def by (intro quiet_rules s g)
  then show "quiet w (incrElapsed_access g i x th)" unfolding incrElapsed_access_def .
qed

lemma quiet_misc [quiet_rules]: "quiet w (theNext g i)" "quiet w (home_of g a)" "quiet w (getCacheBlockInfo g i a)"
  "quiet w (getCacheState g i a)" "quiet w (operationPermissibleinCache g i a op)"
  unfolding theNext_def home_of_def getCacheBlockInfo_def getCacheState_def operationPermissibleinCache_def
  by (intro quiet_rules)+

section \<open>Reading and changing lines\<close>

lemma specS_ex: "(\<And>x. specS (P x) m Q) \<Longrightarrow> specS (\<lambda>s. \<exists>x. P x s) m Q"
  unfolding specS_def by blast

lemma specS_bind_quiet: "quiet w m \<Longrightarrow> (\<And>x. specS (seen w L ms) (f x) Q) \<Longrightarrow> specS (seen w L ms) (bindS m f) Q"
  by (rule specS_bind [OF quietD])

lemma specS_then_quiet: "quiet w m \<Longrightarrow> specS (seen w L ms) k Q \<Longrightarrow> specS (seen w L ms) (thenS m k) Q"
  by (rule specS_then [OF quietD])

lemma seen_cache:
  "seen w L ms h \<Longrightarrow> cache_inv (the_cache g i h) \<and> m_log_blocksize (base (the_cache g i h)) = w \<and> lines (the_cache g i h) = L (MST g i)"
  by (auto simp: seen_def caches_ok_def Lines_def the_cache_def the_master_def)

lemma block_spec: "specS (seen w L ms) (getCacheBlockInfo g i a) (\<lambda>b h. b = L (MST g i) (drop_bit w a) \<and> seen w L ms h)"
  unfolding getCacheBlockInfo_def by (rule specS_lift) (metis seen_cache cache_store.peek_view)

lemma state_spec: "specS (seen w L ms) (getCacheState g i a) (\<lambda>s h. s = state_of (L (MST g i) (drop_bit w a)) \<and> seen w L ms h)"
  unfolding getCacheState_def by (rule specS_bind [OF block_spec]) (auto intro: specS_return)

lemma setCache_spec:
  assumes "cache_inv c" "m_log_blocksize (base c) = w"
  shows "specS (seen w L ms) (setCache g i c) (\<lambda>_. seen w (L(MST g i := lines c)) ms)"
  unfolding setCache_def updMaster_def
  by (rule specS_modify) (use assms in \<open>auto simp: seen_def caches_ok_def Lines_def the_master_def fun_eq_iff\<close>)

lemma lift_setCache:
  assumes "\<And>c r h. cache_inv c \<Longrightarrow> m_log_blocksize (base c) = w \<Longrightarrow> lines c = L (MST g i) \<Longrightarrow> f h c = Inr r \<Longrightarrow>
      cache_inv (new r) \<and> m_log_blocksize (base (new r)) = w \<and> P r (lines (new r))"
    and "\<And>r l. P r l \<Longrightarrow> specS (seen w (L(MST g i := l)) ms) (k r) Q"
  shows "specS (seen w L ms) (bindS (liftS (\<lambda>h. f h (the_cache g i h))) (\<lambda>r. thenS (setCache g i (new r)) (k r))) Q"
proof (rule specS_bind)
  show "specS (seen w L ms) (liftS (\<lambda>h. f h (the_cache g i h)))
      (\<lambda>r h. (cache_inv (new r) \<and> m_log_blocksize (base (new r)) = w \<and> P r (lines (new r))) \<and> seen w L ms h)"
    by (rule specS_lift) (use assms(1) seen_cache in blast)
  show "specS (\<lambda>h. (cache_inv (new r) \<and> m_log_blocksize (base (new r)) = w \<and> P r (lines (new r))) \<and> seen w L ms h)
      (thenS (setCache g i (new r)) (k r)) Q" for r
    by (rule specS_prop, rule specS_then [OF setCache_spec assms(2)]) auto
qed

lemma access_spec:
  assumes "\<And>l out. (l \<noteq> None \<longleftrightarrow> L (MST g i) (drop_bit w a) \<noteq> None) \<Longrightarrow> specS (seen w L ms) (k l out) Q"
  shows "specS (seen w L ms)
    (bindS (liftS (\<lambda>h. accessSingleLine (the_cache g i h) a ty buf n repl)) (\<lambda>(l, out, c). thenS (setCache g i c) (k l out))) Q"
proof -
  have "specS (seen w L ms) (bindS (liftS (\<lambda>h. accessSingleLine (the_cache g i h) a ty buf n repl))
      (\<lambda>r. thenS (setCache g i (snd (snd r))) (k (fst r) (fst (snd r))))) Q"
  proof (rule lift_setCache)
    fix c r
    assume "cache_inv c" "m_log_blocksize (base c) = w" "lines c = L (MST g i)" "accessSingleLine c a ty buf n repl = Inr r"
    then show "cache_inv (snd (snd r)) \<and> m_log_blocksize (base (snd (snd r))) = w \<and>
        (lines (snd (snd r)) = L (MST g i) \<and> (fst r \<noteq> None \<longleftrightarrow> L (MST g i) (drop_bit w a) \<noteq> None))"
      using cache_store.access_view [of c a ty buf n repl "fst r" "fst (snd r)" "snd (snd r)"] by (cases r) auto
  next
    fix r :: "nat option \<times> UInt8 list option \<times> cache" and l
    assume "l = L (MST g i) \<and> (fst r \<noteq> None \<longleftrightarrow> L (MST g i) (drop_bit w a) \<noteq> None)"
    then show "specS (seen w (L(MST g i := l)) ms) (k (fst r) (fst (snd r))) Q" using assms [of "fst r"] by simp
  qed
  moreover have "(\<lambda>r. thenS (setCache g i (snd (snd r))) (k (fst r) (fst (snd r)))) = (\<lambda>(l, out, c). thenS (setCache g i c) (k l out))"
    by (auto simp: fun_eq_iff)
  ultimately show ?thesis by simp
qed

lemma updBlock_spec:
  assumes "\<And>b. m_tag (f b) = m_tag b"
  shows "specS (seen w L ms) (updBlock g i a f) (\<lambda>_ h. \<exists>b. L (MST g i) (drop_bit w a) = Some b \<and>
    seen w (L(MST g i := (L (MST g i))(drop_bit w a \<mapsto> f b))) ms h)"
proof -
  have eq: "updBlock g i a f = bindS (liftS (\<lambda>h. updLine (the_cache g i h) a f)) (\<lambda>c. thenS (setCache g i c) (returnS ()))"
    by (auto simp: updBlock_def thenS_def bindS_def returnS_def fun_eq_iff bindE_def split: sum.split)
  show ?thesis unfolding eq
  proof (rule lift_setCache)
    fix c r
    assume "cache_inv c" "m_log_blocksize (base c) = w" "lines c = L (MST g i)" "updLine c a f = Inr r"
    then show "cache_inv r \<and> m_log_blocksize (base r) = w \<and>
        (\<exists>b. L (MST g i) (drop_bit w a) = Some b \<and> lines r = (L (MST g i))(drop_bit w a \<mapsto> f b))"
      using cache_store.upd_view [of c f a r] assms by auto
  qed (rule specS_return, blast)
qed

lemma setCacheState_spec:
  "specS (seen w L ms) (setCacheState g i a s) (\<lambda>_ h. \<exists>b. L (MST g i) (drop_bit w a) = Some b \<and>
    seen w (L(MST g i := (L (MST g i))(drop_bit w a \<mapsto> b\<lparr>m_cstate := s\<rparr>))) ms h)"
  unfolding setCacheState_def by (rule updBlock_spec) simp

lemma invalidateCacheBlock_spec:
  "specS (seen w L ms) (invalidateCacheBlock g i a)
    (\<lambda>_. seen w (L(MST g i := (L (MST g i))(drop_bit w a := None))) ms)"
proof -
  have eq: "(bindS (liftS (\<lambda>h. invalidateSingleLine (the_cache g i h) a)) (\<lambda>(_, c). setCache g i c)) =
      bindS (liftS (\<lambda>h. invalidateSingleLine (the_cache g i h) a)) (\<lambda>r. thenS (setCache g i (snd r)) (returnS ()))"
    by (auto simp: thenS_def bindS_def returnS_def fun_eq_iff bindE_def split: sum.split)
  have inval: "specS (seen w L ms)
      (bindS (liftS (\<lambda>h. invalidateSingleLine (the_cache g i h) a)) (\<lambda>r. thenS (setCache g i (snd r)) (returnS ())))
      (\<lambda>_. seen w (L(MST g i := (L (MST g i))(drop_bit w a := None))) ms)"
  proof (rule lift_setCache)
    fix c r
    assume "cache_inv c" "m_log_blocksize (base c) = w" "lines c = L (MST g i)" "invalidateSingleLine c a = Inr r"
    then show "cache_inv (snd r) \<and> m_log_blocksize (base (snd r)) = w \<and> lines (snd r) = (L (MST g i))(drop_bit w a := None)"
      using cache_store.inval_view [of c a "fst r" "snd r"] by (cases r) auto
  qed (rule specS_return, simp only:)
  show ?thesis unfolding invalidateCacheBlock_def eq
    by (rule specS_bind_quiet [OF quiet_misc(4)], rule specS_then_quiet [OF quiet_assert], rule specS_then_quiet [OF quiet_assert], rule inval)
qed

lemma quiet_accessing:
  assumes "\<And>l out. quiet w (k l out)"
  shows "quiet w (bindS (liftS (\<lambda>h. accessSingleLine (the_cache g i h) a ty buf n repl)) (\<lambda>(l, out, c). thenS (setCache g i c) (k l out)))"
  unfolding quiet_def by (intro allI access_spec quietD assms)

lemma quiet_retrieve [quiet_rules]: "quiet w (retrieveCacheBlock g i a repl)"
  unfolding retrieveCacheBlock_def by (intro quiet_accessing quiet_rules)

lemma quiet_write_line [quiet_rules]: "quiet w (write_line_here g i a off data n)"
  unfolding write_line_here_def by (intro quiet_accessing quiet_rules)

lemma quiet_writeCacheBlock [quiet_rules]: "quiet w (writeCacheBlock n g i a off data len)"
proof (induction n arbitrary: i)
  case (Suc n)
  show ?case unfolding writeCacheBlock.simps by (intro quiet_rules Suc quiet_master) auto
qed (simp add: quiet_fail)

lemma quiet_count_update [quiet_rules]: "quiet w (count_update i b s r)"
  unfolding count_update_def by (intro quiet_rules)

section \<open>Changing the state of a line in a subtree\<close>

text \<open>
  The masters of a controller and of the controllers above it, and what an update of line \<open>t\<close> to state \<open>s\<close> leaves
  behind in a set of masters: every copy is gone or in the wanted state, and nothing else has changed.
\<close>

primrec above :: "nat \<Rightarrow> hier_cfg \<Rightarrow> nat \<Rightarrow> nat set" where
  "above 0 g i = {}"
| "above (Suc n) g i = insert (MST g i) (\<Union>p \<in> set (prevs g i). above n g p)"

definition settled :: "cstate_t \<Rightarrow> IntPtr \<Rightarrow> nat set \<Rightarrow> lines_map \<Rightarrow> lines_map \<Rightarrow> bool" where
  "settled s t S L L' \<longleftrightarrow>
     (\<forall>m x. x \<noteq> t \<or> m \<notin> S \<longrightarrow> L' m x = L m x) \<and>
     (\<forall>m \<in> S. state_of (L' m t) = INVALID \<or> state_of (L' m t) = s) \<and>
     (\<forall>m. L' m t = L m t \<or> L' m t = None \<or> (\<exists>b. L m t = Some b \<and> L' m t = Some (b\<lparr>m_cstate := s\<rparr>)))"

definition coherent :: "hier_cfg \<Rightarrow> bool" where
  "coherent g \<longleftrightarrow> (\<forall>i. cc_coherent (CFG g i))"

lemma settled_refl: "settled s t {} L L"
  by (simp add: settled_def)

lemma settled_trans:
  assumes "settled s t S L L1" "settled s t S1 L1 L2"
  shows "settled s t (S \<union> S1) L L2"
proof -
  have "state_of (L2 m t) = INVALID \<or> state_of (L2 m t) = s" if "m \<in> S \<union> S1" for m
    using assms that by (cases "m \<in> S1") (auto simp: settled_def)
  moreover have "L2 m t = L m t \<or> L2 m t = None \<or> (\<exists>b. L m t = Some b \<and> L2 m t = Some (b\<lparr>m_cstate := s\<rparr>))" for m
  proof -
    have "L1 m t = L m t \<or> L1 m t = None \<or> (\<exists>b. L m t = Some b \<and> L1 m t = Some (b\<lparr>m_cstate := s\<rparr>))"
      "L2 m t = L1 m t \<or> L2 m t = None \<or> (\<exists>b. L1 m t = Some b \<and> L2 m t = Some (b\<lparr>m_cstate := s\<rparr>))"
      using assms unfolding settled_def by blast+
    then show ?thesis by (auto; metis)
  qed
  ultimately show ?thesis using assms unfolding settled_def by auto
qed

definition moved :: "cstate_t \<Rightarrow> IntPtr \<Rightarrow> nat \<Rightarrow> lines_map \<Rightarrow> lines_map \<Rightarrow> bool" where
  "moved s t m L L' \<longleftrightarrow> (\<forall>k x. k \<noteq> m \<or> x \<noteq> t \<longrightarrow> L' k x = L k x) \<and>
     (L' m t = L m t \<or> L' m t = None \<or> (\<exists>b. L m t = Some b \<and> L' m t = Some (b\<lparr>m_cstate := s\<rparr>)))"

lemma moved_refl: "moved s t m L L"
  by (simp add: moved_def)

lemma moved_gone: "moved s t m L (L(m := (L m)(t := None)))"
  by (simp add: moved_def)

lemma moved_set: "L m t = Some b \<Longrightarrow> moved s t m L (L(m := (L m)(t \<mapsto> b\<lparr>m_cstate := s\<rparr>)))"
  by (simp add: moved_def)

lemma moved_settled: "moved s t m L L' \<Longrightarrow> state_of (L' m t) = INVALID \<or> state_of (L' m t) = s \<Longrightarrow> settled s t {m} L L'"
  unfolding moved_def settled_def by (intro conjI allI impI ballI) (blast, simp, metis)

lemma write_back_spec:
  "specS (seen w L ms) (write_back g i a want r) (\<lambda>_ h. \<exists>b. L (MST g i) (drop_bit w a) = Some b \<and>
    seen w (L(MST g i := (L (MST g i))(drop_bit w a \<mapsto> b\<lparr>m_cstate := SHARED\<rparr>))) ms h)"
  unfolding write_back_def
proof (rule specS_bind_quiet)
  show "specS (seen w L ms) (thenS (setCacheState g i a SHARED) (returnS r1)) (\<lambda>_ h. \<exists>b. L (MST g i) (drop_bit w a) = Some b \<and>
    seen w (L(MST g i := (L (MST g i))(drop_bit w a \<mapsto> b\<lparr>m_cstate := SHARED\<rparr>))) ms h)" for r1
    by (rule specS_then [OF setCacheState_spec specS_return])
qed (intro quiet_rules)

text \<open>The last part of an update, in a state where a modified line has been written back.\<close>

lemma change_state_spec:
  assumes "cc_coherent (CFG g i)" "L (MST g i) (drop_bit w a) = Some b" "L0 = L \<or> L = L0(MST g i := (L0 (MST g i))(drop_bit w a \<mapsto> b))"
    "L0 (MST g i) (drop_bit w a) = Some b0" "b0\<lparr>m_cstate := s\<rparr> = b\<lparr>m_cstate := s\<rparr>"
  shows "specS (seen w L ms) (change_state g i a s want r) (\<lambda>_ h. \<exists>L'. moved s (drop_bit w a) (MST g i) L0 L' \<and> seen w L' ms h)"
proof -
  let ?t = "drop_bit w a" and ?m = "MST g i"
  have "moved s ?t ?m L0 (L(?m := (L ?m)(?t \<mapsto> b\<lparr>m_cstate := s\<rparr>)))" "moved s ?t ?m L0 (L(?m := (L ?m)(?t := None)))"
    using assms by (auto simp: moved_def)
  note L' = this
  have set: "specS (seen w L ms) (thenS (setCacheState g i a s) (returnS x)) (\<lambda>_ h. \<exists>L'. moved s ?t ?m L0 L' \<and> seen w L' ms h)" for x
    by (rule specS_then [OF setCacheState_spec], rule specS_return) (metis assms(2) option.inject L'(1))
  have gone: "specS (seen w L ms) (thenS (whenS (cc_coherent (CFG g i)) (invalidateCacheBlock g i a)) (returnS x))
      (\<lambda>_ h. \<exists>L'. moved s ?t ?m L0 L' \<and> seen w L' ms h)" for x
    unfolding whenS_def if_P [OF assms(1)] by (rule specS_then [OF invalidateCacheBlock_spec], rule specS_return) (metis L'(2))
  have quiet: "quiet w (if want then bindS (retrieveCacheBlock g i a False) (\<lambda>data. returnS (True, Some data)) else returnS r)"
    by (intro quiet_rules)
  show ?thesis unfolding change_state_def
    by (intro specS_if specS_fail specS_bind_quiet [OF quiet] gone) (use set in auto)
qed

lemma update_here_spec:
  assumes "cc_coherent (CFG g i)"
  shows "specS (seen w L ms) (update_here g i a s r want) (\<lambda>_ h. \<exists>L'. moved s (drop_bit w a) (MST g i) L L' \<and> seen w L' ms h)"
    (is "specS _ _ ?Q")
  unfolding update_here_def
proof (rule specS_bind [OF block_spec], rule specS_prop)
  fix block
  assume block: "block = L (MST g i) (drop_bit w a)"
  have refl: "specS (seen w L ms) m ?Q" if "quiet w m" for m
    using quietD [OF that] by (rule specS_post) (blast intro: moved_refl)
  show "specS (seen w L ms) (case block of None \<Rightarrow> returnS (False, None)
       | Some b \<Rightarrow> if s = m_cstate b \<and> want then bindS (retrieveCacheBlock g i a False) (\<lambda>data. returnS (True, Some data))
           else thenS (count_update i b s r)
            (bindS (if m_cstate b = MODIFIED then write_back g i a want (False, None) else returnS (False, None)) (\<lambda>r.
               change_state g i a s want r))) ?Q"
  proof (cases block)
    case (Some b)
    then have b: "L (MST g i) (drop_bit w a) = Some b" using block by simp
    let ?L1 = "if m_cstate b = MODIFIED then L(MST g i := (L (MST g i))(drop_bit w a \<mapsto> b\<lparr>m_cstate := SHARED\<rparr>)) else L"
    have wb: "specS (seen w L ms) (write_back g i a want (False, None))
        (\<lambda>_. seen w (L(MST g i := (L (MST g i))(drop_bit w a \<mapsto> b\<lparr>m_cstate := SHARED\<rparr>))) ms)"
      by (rule specS_post [OF write_back_spec]) (metis b option.inject)
    have first: "specS (seen w L ms) (if m_cstate b = MODIFIED then write_back g i a want (False, None) else returnS (False, None))
        (\<lambda>_. seen w ?L1 ms)"
      using wb by (simp add: specS_return)
    have second: "specS (seen w ?L1 ms) (change_state g i a s want x) ?Q" for x
      by (rule change_state_spec [OF assms, where ?L0.0 = L and ?b0.0 = b and ?b = "if m_cstate b = MODIFIED then b\<lparr>m_cstate := SHARED\<rparr> else b"])
        (use b in auto)
    have change: "specS (seen w L ms) (thenS (count_update i b s r)
            (bindS (if m_cstate b = MODIFIED then write_back g i a want (False, None) else returnS (False, None)) (\<lambda>r.
               change_state g i a s want r))) ?Q"
      by (rule specS_then_quiet [OF quiet_count_update], rule specS_bind [OF first second])
    have keep: "specS (seen w L ms) (bindS (retrieveCacheBlock g i a False) (\<lambda>data. returnS (True, Some data))) ?Q"
      by (intro refl quiet_rules)
    show ?thesis unfolding Some option.case by (rule specS_if [OF keep change])
  qed (simp add: refl [OF quiet_return])
qed

lemma fold_settled:
  assumes "\<And>b p L. p \<in> set ps \<Longrightarrow> specS (seen w L ms) (f b p) (\<lambda>_ h. \<exists>L'. settled s t (S p) L L' \<and> seen w L' ms h)"
  shows "specS (seen w L ms) (foldS f b ps) (\<lambda>_ h. \<exists>L'. settled s t (\<Union>p \<in> set ps. S p) L L' \<and> seen w L' ms h)"
  using assms
proof (induction ps arbitrary: b L)
  case Nil
  show ?case using settled_refl by (auto intro!: specS_return)
next
  case (Cons p ps)
  show ?case unfolding foldS.simps
  proof (rule specS_bind)
    show "specS (seen w L ms) (f b p) (\<lambda>_ h. \<exists>L'. settled s t (S p) L L' \<and> seen w L' ms h)" using Cons.prems by simp
    show "specS (\<lambda>h. \<exists>L'. settled s t (S p) L L' \<and> seen w L' ms h) (foldS f b1 ps)
        (\<lambda>_ h. \<exists>L'. settled s t (\<Union>p \<in> set (p # ps). S p) L L' \<and> seen w L' ms h)" for b1
    proof (rule specS_ex, rule specS_prop)
      fix L1
      assume "settled s t (S p) L L1"
      then have tr: "settled s t (\<Union>p \<in> set ps. S p) L1 L2 \<Longrightarrow> settled s t (\<Union>p \<in> set (p # ps). S p) L L2" for L2
        using settled_trans by fastforce
      show "specS (seen w L1 ms) (foldS f b1 ps) (\<lambda>_ h. \<exists>L'. settled s t (\<Union>p \<in> set (p # ps). S p) L L' \<and> seen w L' ms h)"
        by (rule specS_post [OF Cons.IH]) (use Cons.prems in simp, use tr in blast)
    qed
  qed
qed

lemma updateCacheBlock_spec:
  assumes "coherent g"
  shows "specS (seen w L ms) (updateCacheBlock n g i a s r want)
    (\<lambda>_ h. \<exists>L'. settled s (drop_bit w a) (above n g i) L L' \<and> seen w L' ms h)"
proof (induction n arbitrary: i r want L)
  case (Suc n)
  let ?t = "drop_bit w a" and ?P = "\<Union>p \<in> set (prevs g i). above n g p"
  let ?f = "\<lambda>hit p. bindS (updateCacheBlock n g p a s (if r = EVICT then BACK_INVAL else r) False) (\<lambda>(_, h, _). returnS (hit \<or> h))"
  have prevs: "specS (seen w L ms) (foldS ?f False (prevs g i)) (\<lambda>_ h. \<exists>L'. settled s ?t ?P L L' \<and> seen w L' ms h)"
    by (rule fold_settled, rule specS_bind [OF Suc.IH]) (auto intro: specS_return split: prod.split)
  have rest: "specS (seen w L2 ms)
      (bindS (getCacheState g i a) (\<lambda>cstate.
       thenS (assertS (cstate = INVALID \<or> cstate = s \<or> \<not> cc_coherent (CFG g i)) e)
      (thenS (assertS x e1) (returnS y))))
      (\<lambda>_ h. \<exists>L'. settled s ?t (above (Suc n) g i) L L' \<and> seen w L' ms h)"
    if L1: "settled s ?t ?P L L1" and L2: "moved s ?t (MST g i) L1 L2" for L1 L2 e x e1 and y :: "UInt64 \<times> bool \<times> UInt8 list option"
  proof -
    have "settled s ?t (above (Suc n) g i) L L2" if "state_of (L2 (MST g i) ?t) = INVALID \<or> state_of (L2 (MST g i) ?t) = s"
      using settled_trans [OF L1 moved_settled [OF L2 that]] by (simp add: Un_commute)
    then show ?thesis
      using assms by (intro specS_bind [OF state_spec] specS_prop specS_then [OF specS_assert] specS_return) (auto simp: coherent_def)
  qed
  show ?case unfolding updateCacheBlock.simps
  proof (rule specS_then_quiet [OF quiet_assert], rule specS_bind [OF prevs], rule specS_ex, rule specS_prop)
    fix hit L1
    assume L1: "settled s ?t ?P L L1"
    show "specS (seen w L1 ms)
        (bindS (update_here g i a s r want) (\<lambda>(is_writeback, data).
         bindS (getCacheState g i a) (\<lambda>cstate.
         thenS (assertS (cstate = INVALID \<or> cstate = s \<or> \<not> cc_coherent (CFG g i)) (LOG_ASSERT_ERROR ''state didn't change as we wanted''))
        (thenS (assertS (want \<longrightarrow> data \<noteq> None) (LOG_ASSERT_ERROR ''out_buf passed in but never written to''))
           (returnS (if is_writeback then cl_getLatency (cc_writeback_time (CFG g i)) else 0, hit \<or> is_writeback, data))))))
        (\<lambda>_ h. \<exists>L'. settled s ?t (above (Suc n) g i) L L' \<and> seen w L' ms h)"
    proof (rule specS_bind [OF update_here_spec])
      show "cc_coherent (CFG g i)" using assms by (simp add: coherent_def)
      fix x :: "bool \<times> UInt8 list option"
      show "specS (\<lambda>h. \<exists>L'. moved s ?t (MST g i) L1 L' \<and> seen w L' ms h) (case x of (is_writeback, data) \<Rightarrow>
         bindS (getCacheState g i a) (\<lambda>cstate.
         thenS (assertS (cstate = INVALID \<or> cstate = s \<or> \<not> cc_coherent (CFG g i)) (LOG_ASSERT_ERROR ''state didn't change as we wanted''))
        (thenS (assertS (want \<longrightarrow> data \<noteq> None) (LOG_ASSERT_ERROR ''out_buf passed in but never written to''))
           (returnS (if is_writeback then cl_getLatency (cc_writeback_time (CFG g i)) else 0, hit \<or> is_writeback, data)))))
        (\<lambda>_ h. \<exists>L'. settled s ?t (above (Suc n) g i) L L' \<and> seen w L' ms h)"
        by (cases x, simp only: prod.case, intro specS_ex specS_prop, rule rest [OF L1])
    qed
  qed
qed (simp add: specS_fail)

section \<open>Inserting a line\<close>

lemma quiet_accessDRAM [quiet_rules]: "quiet w (accessDRAM g i op a data)"
  unfolding accessDRAM_def by (intro quiet_rules quiet_master) simp

lemma quiet_qbs [quiet_rules]: "quiet w (qbsLookupCost g i)"
  unfolding qbsLookupCost_def Let_def by (intro quiet_rules)

lemma sendMsg_spec:
  "specS (seen w L ms) (cc_sendMsg g i ty requester receiver address data th) (\<lambda>_ h. \<exists>t. seen w L (ms @
     [(cc_core_id_master (CFG g i), To receiver,
       \<lparr>m_msg_type = ty, m_sender_mem_component = LAST_LEVEL_CACHE, m_receiver_mem_component = TAG_DIR,
        m_requester = requester, msg_address = address, m_data_buf = data, m_where = UNKNOWN\<rparr>, t)]) h)"
  unfolding cc_sendMsg_def
  by (rule specS_bind_quiet [OF quiet_elapsed(1)], rule specS_modify) (auto simp: seen_def caches_ok_def Lines_def fun_eq_iff)

lemma evict_previous_spec:
  assumes "coherent g"
  shows "specS (seen w L ms) (evict_previous g i a buf th) (\<lambda>_ h. \<exists>L'.
    settled INVALID (drop_bit w a) (\<Union>p \<in> set (prevs g i). above (hc_levels g) g p) L L' \<and> seen w L' ms h)"
  unfolding evict_previous_def
proof (rule specS_if)
  let ?S = "\<Union>p \<in> set (prevs g i). above (hc_levels g) g p"
  show "specS (seen w L ms) (returnS buf) (\<lambda>_ h. \<exists>L'. settled INVALID (drop_bit w a) ?S L L' \<and> seen w L' ms h)" if "prevs g i = []"
    using that by (auto intro!: specS_return settled_refl)
  have fold: "specS (seen w L ms) (foldS (\<lambda>latency p.
                 bindS (updateCacheBlock (hc_levels g) g p a INVALID BACK_INVAL False)
                   (\<lambda>(l, _, _). returnS (max latency l))) 0 (prevs g i))
      (\<lambda>_ h. \<exists>L'. settled INVALID (drop_bit w a) ?S L L' \<and> seen w L' ms h)"
    by (rule fold_settled, rule specS_bind [OF updateCacheBlock_spec [OF assms]]) (auto intro: specS_return split: prod.split)
  show "specS (seen w L ms)
       (thenS (updMaster g i (\<lambda>m. m\<lparr>m_evicting_address := a, m_evicting_buf := Some buf\<rparr>))
       (bindS (foldS (\<lambda>latency p.
                 bindS (updateCacheBlock (hc_levels g) g p a INVALID BACK_INVAL False)
                   (\<lambda>(l, _, _). returnS (max latency l))) 0 (prevs g i)) (\<lambda>latency.
        thenS (incrElapsed g i latency th)
       (thenS (addStat i SNOOP_LATENCY latency)
       (bindS (getS (\<lambda>h. m_evicting_buf (the_master g i h))) (\<lambda>b.
        thenS (updMaster g i (\<lambda>m. m\<lparr>m_evicting_address := 0, m_evicting_buf := None\<rparr>))
          (returnS (case b of Some b \<Rightarrow> b | None \<Rightarrow> buf))))))))
      (\<lambda>_ h. \<exists>L'. settled INVALID (drop_bit w a) ?S L L' \<and> seen w L' ms h)"
  proof (rule specS_then_quiet [OF quiet_master], simp, rule specS_bind [OF fold], rule specS_ex, rule specS_prop)
    fix latency L'
    assume "settled INVALID (drop_bit w a) ?S L L'"
    then show "specS (seen w L' ms)
       (thenS (incrElapsed g i latency th)
       (thenS (addStat i SNOOP_LATENCY latency)
       (bindS (getS (\<lambda>h. m_evicting_buf (the_master g i h))) (\<lambda>b.
        thenS (updMaster g i (\<lambda>m. m\<lparr>m_evicting_address := 0, m_evicting_buf := None\<rparr>))
          (returnS (case b of Some b \<Rightarrow> b | None \<Rightarrow> buf))))))
      (\<lambda>_ h. \<exists>L'. settled INVALID (drop_bit w a) ?S L L' \<and> seen w L' ms h)"
      by (intro specS_post [OF quietD] quiet_rules quiet_master) auto
  qed
qed

text \<open>Operations that leave the lines alone and may send messages.\<close>

definition calm :: "nat \<Rightarrow> 'a hop \<Rightarrow> bool" where
  "calm w m \<longleftrightarrow> (\<forall>L ms. specS (seen w L ms) m (\<lambda>_ h. \<exists>ms'. seen w L (ms @ ms') h))"

named_theorems calm_rules

lemma calm_quiet: "quiet w m \<Longrightarrow> calm w m"
  unfolding calm_def quiet_def specS_def by (metis append_Nil2)

lemma calm_bind [calm_rules]: "calm w m \<Longrightarrow> (\<And>x. calm w (f x)) \<Longrightarrow> calm w (bindS m f)"
  unfolding calm_def
proof (intro allI, rule specS_bind, blast, rule specS_ex)
  fix L ms x ms'
  assume "\<And>x. \<forall>L ms. specS (seen w L ms) (f x) (\<lambda>_ h. \<exists>ms'. seen w L (ms @ ms') h)"
  then have "specS (seen w L (ms @ ms')) (f x) (\<lambda>_ h. \<exists>ms1. seen w L ((ms @ ms') @ ms1) h)" by blast
  then show "specS (seen w L (ms @ ms')) (f x) (\<lambda>_ h. \<exists>ms'. seen w L (ms @ ms') h)"
    by (rule specS_post) (metis append_assoc)
qed

lemma calm_then [calm_rules]: "calm w m \<Longrightarrow> calm w k \<Longrightarrow> calm w (thenS m k)"
  unfolding thenS_def by (rule calm_bind)

lemma calm_split [calm_rules]:
  "calm w m \<Longrightarrow> calm w k \<Longrightarrow> calm w (if b then m else k)"
  "calm w m \<Longrightarrow> calm w (whenS b m)"
  "calm w m \<Longrightarrow> (\<And>x. calm w (f x)) \<Longrightarrow> calm w (case v of None \<Rightarrow> m | Some x \<Rightarrow> f x)"
  "(\<And>x y. calm w (f2 x y)) \<Longrightarrow> calm w (case p of (x, y) \<Rightarrow> f2 x y)"
  by (simp_all add: whenS_def calm_quiet quiet_return split: option.split prod.split)

lemma calm_send [calm_rules]: "calm w (cc_sendMsg g i ty requester receiver address data th)"
  unfolding calm_def by (intro allI specS_post [OF sendMsg_spec]) blast

lemmas calm_basic [calm_rules] = quiet_return [THEN calm_quiet] quiet_get [THEN calm_quiet] quiet_lift [THEN calm_quiet]
  quiet_assert [THEN calm_quiet] quiet_fail [THEN calm_quiet] quiet_addStat [THEN calm_quiet] quiet_elapsed [THEN calm_quiet]
  quiet_misc [THEN calm_quiet] quiet_writeCacheBlock [THEN calm_quiet] quiet_accessDRAM [THEN calm_quiet]

lemma calm_dispose [calm_rules]: "calm w (dispose g i a st buf th)"
  unfolding dispose_def Let_def by (intro calm_rules calm_quiet [OF quiet_master]) simp

definition inserted :: "cstate_t \<Rightarrow> IntPtr \<Rightarrow> nat \<Rightarrow> nat set \<Rightarrow> lines_map \<Rightarrow> lines_map \<Rightarrow> bool" where
  "inserted s t m S L L' \<longleftrightarrow>
     (\<exists>b. L' m t = Some b \<and> m_cstate b = s) \<and>
     (\<exists>E. (E = {} \<or> (\<exists>te. E = {te} \<and> te \<noteq> t \<and> L m te \<noteq> None)) \<and>
       (\<forall>te \<in> E. \<forall>k \<in> insert m S. state_of (L' k te) = INVALID) \<and>
       (\<forall>k x. k = m \<and> x = t \<or> x \<in> E \<or> L' k x = L k x))"

text \<open>The eviction that follows an insertion into \<open>L\<close> that gave \<open>L1\<close>.\<close>

lemma evict_line_spec:
  assumes "coherent g" "L1 (MST g i) t = Some b" "m_cstate b = s" "\<And>k x. k = MST g i \<and> (x = t \<or> x = te) \<or> L1 k x = L k x"
    "te \<noteq> t" "L (MST g i) te \<noteq> None" "drop_bit w ea = te"
  shows "specS (seen w L1 ms) (evict_line g i ea evicted edata th)
    (\<lambda>_ h. \<exists>L' ms'. inserted s t (MST g i) (\<Union>p \<in> set (prevs g i). above (hc_levels g) g p) L L' \<and> seen w L' (ms @ ms') h)"
  unfolding evict_line_def
proof (rule specS_then_quiet [OF quiet_addStat], rule specS_then_quiet [OF quiet_when [OF quiet_addStat]],
    rule specS_then_quiet [OF quiet_when [OF quiet_addStat]], rule specS_bind [OF evict_previous_spec [OF assms(1)]],
    rule specS_ex, rule specS_prop)
  let ?S = "\<Union>p \<in> set (prevs g i). above (hc_levels g) g p"
  fix buf1 L2
  assume L2: "settled INVALID (drop_bit w ea) ?S L1 L2"
  have ins: "inserted s t (MST g i) ?S L L2" if "state_of (L2 (MST g i) te) = INVALID"
  proof -
    have "L2 (MST g i) t = Some b" using L2 assms(2,5,7) by (auto simp: settled_def)
    moreover have "state_of (L2 k te) = INVALID" if "k \<in> insert (MST g i) ?S" for k
      using L2 \<open>state_of (L2 (MST g i) te) = INVALID\<close> that assms(7) by (auto simp: settled_def)
    moreover have "k = MST g i \<and> x = t \<or> x = te \<or> L2 k x = L k x" for k x
      using L2 assms(4) [of k x] assms(7) by (auto simp: settled_def)
    ultimately show ?thesis unfolding inserted_def using assms(3,5,6) by (intro conjI exI [of _ b] exI [of _ "{te}"]) auto
  qed
  show "specS (seen w L2 ms) (thenS (dispose g i ea (m_cstate evicted) buf1 th)
      (bindS (getCacheState g i ea) (\<lambda>s. assertS (s = INVALID) (LOG_ASSERT_ERROR ''Evicted address did not become invalid''))))
      (\<lambda>_ h. \<exists>L' ms'. inserted s t (MST g i) ?S L L' \<and> seen w L' (ms @ ms') h)"
    by (rule specS_then [OF calm_dispose [unfolded calm_def, rule_format]], rule specS_ex, rule specS_bind [OF state_spec], rule specS_assert)
      (use ins assms(7) in blast)
qed

definition placed :: "nat \<Rightarrow> cstate_t \<Rightarrow> IntPtr \<Rightarrow> nat \<Rightarrow> lines_map \<Rightarrow> (core_id_t \<times> receiver_t \<times> shmem_msg \<times> UInt64) list \<Rightarrow> hier \<Rightarrow> bool" where
  "placed w s t m L ms h \<longleftrightarrow> (\<exists>b. m_cstate b = s \<and> seen w (L(m := (L m)(t \<mapsto> b))) ms h)"

lemma updBlock_placed:
  assumes "\<And>b. m_tag (f b) = m_tag b" "\<And>b. m_cstate (f b) = m_cstate b"
  shows "specS (placed w s (drop_bit w a) (MST g i) L ms) (updBlock g i a f) (\<lambda>_. placed w s (drop_bit w a) (MST g i) L ms)"
  unfolding placed_def
  by (rule specS_ex, rule specS_prop, rule specS_post [OF updBlock_spec [OF assms(1)]]) (use assms(2) in force)

lemma annotate_placed:
  "specS (placed w s (drop_bit w a) (MST g i) L ms) (annotate_line g i a requester) (\<lambda>_. placed w s (drop_bit w a) (MST g i) L ms)"
  unfolding annotate_line_def
  by (rule specS_then [where R = "placed w s (drop_bit w a) (MST g i) L ms"])
    (auto intro!: specS_when updBlock_placed specS_return simp: setOption_def split: option.split)

lemma insertCacheBlock_spec:
  assumes "coherent g" "\<And>b. L (MST g i) (drop_bit w a) = Some b \<Longrightarrow> m_cstate b \<noteq> INVALID"
  shows "specS (seen w L ms) (insertCacheBlock g i a s data requester th) (\<lambda>_ h. \<exists>L' ms'.
    inserted s (drop_bit w a) (MST g i) (\<Union>p \<in> set (prevs g i). above (hc_levels g) g p) L L' \<and> seen w L' (ms @ ms') h)"
    (is "specS _ _ ?Q")
proof -
  let ?t = "drop_bit w a" and ?m = "MST g i"
  let ?L0 = "\<lambda>ev te. L(?m := (if ev then (L ?m)(te := None) else L ?m))"
  have rest: "specS (seen w (L(?m := (if ev then (L ?m)(te := None) else L ?m)(?t \<mapsto> b0))) ms)
      (thenS (repeatS n (qbsLookupCost g i)) (thenS (setCacheState g i a s) (thenS (annotate_line g i a requester)
        (whenS ev (evict_line g i ea evicted edata th))))) ?Q"
    if ev: "ev \<Longrightarrow> drop_bit w ea = te \<and> L ?m te \<noteq> None" and none: "L ?m ?t = None" for ev te b0 ea evicted edata n
  proof (rule specS_then_quiet [OF quiet_repeat [OF quiet_qbs]], rule specS_then [OF _ specS_then [OF annotate_placed]])
    show "specS (seen w (L(?m := (if ev then (L ?m)(te := None) else L ?m)(?t \<mapsto> b0))) ms) (setCacheState g i a s)
        (\<lambda>_. placed w s ?t ?m (?L0 ev te) ms)"
      unfolding placed_def by (rule specS_post [OF setCacheState_spec]) force
    show "specS (placed w s ?t ?m (?L0 ev te) ms) (whenS ev (evict_line g i ea evicted edata th)) ?Q"
      unfolding placed_def
    proof (rule specS_ex, rule specS_prop, rule specS_when)
      fix b :: cache_block_info
      assume b: "m_cstate b = s"
      let ?L1 = "(?L0 ev te)(?m := (?L0 ev te ?m)(?t \<mapsto> b))"
      show "specS (seen w ?L1 ms) (evict_line g i ea evicted edata th) ?Q" if ev
        by (rule evict_line_spec [OF assms(1), of _ _ _ b _ te]) (use that ev none b in auto)
      have "inserted s ?t ?m (\<Union>p \<in> set (prevs g i). above (hc_levels g) g p) L ?L1" if "\<not> ev"
        using that b unfolding inserted_def by (intro conjI exI [of _ b] exI [of _ "{}"]) auto
      then show "seen w ?L1 ms h \<Longrightarrow> \<exists>L' ms'. inserted s ?t ?m (\<Union>p \<in> set (prevs g i). above (hc_levels g) g p) L L' \<and> seen w L' (ms @ ms') h"
        if "\<not> ev" for h using that by (metis append_Nil2)
    qed
  qed
  let ?ins = "\<lambda>h c. insertSingleLine (Some (isInLowerLevelCache g i h)) c a data (CacheBlockInfo SHARED_CACHE (NOT 0) INVALID 0) True"
  let ?k = "\<lambda>(ev, ea, evicted, edata, c) qbs0. thenS (repeatS (env_qbs (m_set_info c) - qbs0) (qbsLookupCost g i))
      (thenS (setCacheState g i a s) (thenS (annotate_line g i a requester) (whenS ev (evict_line g i ea evicted edata th))))"
  have ins: "specS (seen w L ms) (bindS (liftS (\<lambda>h. ?ins h (the_cache g i h)))
      (\<lambda>r. thenS (setCache g i (snd (snd (snd (snd r))))) (?k r qbs0))) ?Q" if none: "L ?m ?t = None" for qbs0
  proof (rule lift_setCache)
    fix c h and r :: "bool \<times> IntPtr \<times> cache_block_info \<times> UInt8 list option \<times> cache"
    assume c: "cache_inv c" "m_log_blocksize (base c) = w" "lines c = L ?m" "?ins h c = Inr r"
    obtain ev ea evicted edata c' where r: "r = (ev, ea, evicted, edata, c')" by (cases r)
    show "cache_inv (snd (snd (snd (snd r)))) \<and> m_log_blocksize (base (snd (snd (snd (snd r))))) = w \<and>
        (\<exists>b0 te. (fst r \<longrightarrow> drop_bit w (fst (snd r)) = te \<and> L ?m te \<noteq> None) \<and>
          lines (snd (snd (snd (snd r)))) = (if fst r then (L ?m)(te := None) else L ?m)(?t \<mapsto> b0))"
      using cache_store.ins_view [OF c(1) _ c(4) [unfolded r]] c none unfolding r by auto
  next
    fix r :: "bool \<times> IntPtr \<times> cache_block_info \<times> UInt8 list option \<times> cache" and l
    assume "\<exists>b0 te. (fst r \<longrightarrow> drop_bit w (fst (snd r)) = te \<and> L ?m te \<noteq> None) \<and>
        l = (if fst r then (L ?m)(te := None) else L ?m)(?t \<mapsto> b0)"
    then show "specS (seen w (L(?m := l)) ms) (?k r qbs0) ?Q" using rest none by (cases r) fastforce
  qed
  have eq: "(\<lambda>(ev, ea, evicted, edata, c). thenS (setCache g i c) (thenS (repeatS (env_qbs (m_set_info c) - qbs0) (qbsLookupCost g i))
      (thenS (setCacheState g i a s) (thenS (annotate_line g i a requester) (whenS ev (evict_line g i ea evicted edata th)))))) =
      (\<lambda>r. thenS (setCache g i (snd (snd (snd (snd r))))) (?k r qbs0))" for qbs0 by (auto simp: fun_eq_iff)
  have none: "L ?m ?t = None" if "state_of (L ?m ?t) = INVALID"
    using assms(2) that by (cases "L ?m ?t") (auto simp: state_of_def)
  show ?thesis unfolding insertCacheBlock_def eq
    by (rule specS_bind [OF state_spec], rule specS_prop, rule specS_then [OF specS_assert [where Q = "\<lambda>_ h. state_of (L ?m ?t) = INVALID \<and> seen w L ms h"]],
        simp, rule specS_prop, rule specS_bind_quiet [OF quiet_get], rule ins, erule none)
qed

section \<open>Snooping and the requests of the directory\<close>

lemma snoop_previous_spec:
  assumes "coherent g"
  shows "specS (seen w L ms) (snoop_previous g i requester a s r) (\<lambda>_ h. \<exists>L'.
    settled s (drop_bit w a) (\<Union>p \<in> set (prevs g i) - {requester}. above (hc_levels g) g p) L L' \<and> seen w L' ms h)"
proof -
  let ?S = "\<lambda>p. if p = requester then {} else above (hc_levels g) g p"
  let ?f = "\<lambda>(latency, sibling_hit) p. if p = requester then returnS (latency, sibling_hit)
      else bindS (updateCacheBlock (hc_levels g) g p a s r False) (\<lambda>(l, hit, _). returnS (max latency l, sibling_hit \<or> hit))"
  have "specS (seen w L ms) (?f b p) (\<lambda>_ h. \<exists>L'. settled s (drop_bit w a) (?S p) L L' \<and> seen w L' ms h)" for b p L
  proof (cases "p = requester")
    case True
    then show ?thesis using settled_refl by (cases b) (auto intro!: specS_return)
  next
    case False
    have "specS (seen w L ms) (bindS (updateCacheBlock (hc_levels g) g p a s r False) (\<lambda>(l, hit, _). returnS (x l hit)))
        (\<lambda>_ h. \<exists>L'. settled s (drop_bit w a) (above (hc_levels g) g p) L L' \<and> seen w L' ms h)" for x :: "UInt64 \<Rightarrow> bool \<Rightarrow> UInt64 \<times> bool"
      by (rule specS_bind [OF updateCacheBlock_spec [OF assms]]) (auto intro: specS_return split: prod.split)
    then show ?thesis using False by (cases b) simp
  qed
  note fold = fold_settled [of "prevs g i" w ms ?f s "drop_bit w a" ?S, OF this]
  have S: "(\<Union>p \<in> set (prevs g i). ?S p) = (\<Union>p \<in> set (prevs g i) - {requester}. above (hc_levels g) g p)" by auto
  show ?thesis unfolding snoop_previous_def S [symmetric]
  proof (rule specS_bind [OF fold])
    fix x :: "UInt64 \<times> bool"
    obtain latency hit where x: "x = (latency, hit)" by (cases x)
    show "specS (\<lambda>h. \<exists>L'. settled s (drop_bit w a) (\<Union>p \<in> set (prevs g i). ?S p) L L' \<and> seen w L' ms h)
        (case x of (latency, sibling_hit) \<Rightarrow> thenS (incrElapsed g i latency USER_THREAD)
           (thenS (addStat i SNOOP_LATENCY latency) (returnS sibling_hit)))
        (\<lambda>_ h. \<exists>L'. settled s (drop_bit w a) (\<Union>p \<in> set (prevs g i). ?S p) L L' \<and> seen w L' ms h)"
      unfolding x prod.case by (rule specS_ex, rule specS_prop, rule specS_post [OF quietD]) (intro quiet_rules, blast)
  qed
qed

text \<open>When data was asked for, an update that succeeds has found it.\<close>

lemma update_data: "updateCacheBlock n g i a s r True h = Inr ((l, hit, data), h') \<Longrightarrow> data \<noteq> None"
  by (cases n) (auto simp: op_defs split: if_splits elim!: bindE_eq_InrE)

definition reply :: "hier_cfg \<Rightarrow> nat \<Rightarrow> core_id_t \<Rightarrow> shmem_msg \<Rightarrow> (core_id_t \<times> receiver_t \<times> shmem_msg \<times> UInt64) \<Rightarrow> msg_t \<Rightarrow> bool" where
  "reply g i sender msg m ty \<longleftrightarrow> fst m = cc_core_id_master (CFG g i) \<and> fst (snd m) = To sender \<and>
     m_msg_type (fst (snd (snd m))) = ty \<and> msg_address (fst (snd (snd m))) = msg_address msg \<and>
     m_requester (fst (snd (snd m))) = m_requester msg \<and> (ty \<noteq> INV_REP \<longrightarrow> m_data_buf (fst (snd (snd m))) \<noteq> None)"

definition answers :: "hier_cfg \<Rightarrow> nat \<Rightarrow> core_id_t \<Rightarrow> shmem_msg \<Rightarrow> cstate_t \<Rightarrow> msg_t \<Rightarrow> nat \<Rightarrow> lines_map
    \<Rightarrow> (core_id_t \<times> receiver_t \<times> shmem_msg \<times> UInt64) list \<Rightarrow> hier \<Rightarrow> bool" where
  "answers g i sender msg s ty w L ms h \<longleftrightarrow>
     (if state_of (L (MST g i) (drop_bit w (msg_address msg))) = INVALID then seen w L ms h
      else \<exists>L' m. settled s (drop_bit w (msg_address msg)) (above (hc_levels g) g i) L L' \<and>
             reply g i sender msg m ty \<and> seen w L' (ms @ [m]) h)"

lemma update_and_send_spec:
  assumes "coherent g" "state_of (L (MST g i) (drop_bit w (msg_address msg))) \<noteq> INVALID" "ty \<noteq> INV_REP \<longrightarrow> want"
  shows "specS (seen w L ms) (bindS (updateCacheBlock (hc_levels g) g i (msg_address msg) s COHERENCY want) (\<lambda>(_, _, data).
      cc_sendMsg g i ty (m_requester msg) sender (msg_address msg) (if ty = INV_REP then None else data) SIM_THREAD))
    (\<lambda>_. answers g i sender msg s ty w L ms)"
proof (rule specSI)
  let ?t = "drop_bit w (msg_address msg)"
  fix h x h'
  assume seen: "seen w L ms h" and run: "bindS (updateCacheBlock (hc_levels g) g i (msg_address msg) s COHERENCY want) (\<lambda>(_, _, data).
      cc_sendMsg g i ty (m_requester msg) sender (msg_address msg) (if ty = INV_REP then None else data) SIM_THREAD) h = Inr (x, h')"
  obtain l hit data h1 where up: "updateCacheBlock (hc_levels g) g i (msg_address msg) s COHERENCY want h = Inr ((l, hit, data), h1)"
    and send: "cc_sendMsg g i ty (m_requester msg) sender (msg_address msg) (if ty = INV_REP then None else data) SIM_THREAD h1 = Inr (x, h')"
    using run by (auto simp: bindS_def elim!: bindE_eq_InrE)
  obtain L' where L': "settled s ?t (above (hc_levels g) g i) L L'" "seen w L' ms h1"
    using specSD [OF updateCacheBlock_spec [OF assms(1)] seen up] by blast
  have data: "ty \<noteq> INV_REP \<longrightarrow> data \<noteq> None" using update_data [of _ _ _ _ _ _ h] up assms(3) by auto
  let ?m = "\<lambda>t. (cc_core_id_master (CFG g i), To sender,
       \<lparr>m_msg_type = ty, m_sender_mem_component = LAST_LEVEL_CACHE, m_receiver_mem_component = TAG_DIR,
        m_requester = m_requester msg, msg_address = msg_address msg, m_data_buf = (if ty = INV_REP then None else data), m_where = UNKNOWN\<rparr>, t)"
  obtain t where t: "seen w L' (ms @ [?m t]) h'" using specSD [OF sendMsg_spec L'(2) send] by blast
  have "reply g i sender msg (?m t) ty" using data by (simp add: reply_def)
  then show "answers g i sender msg s ty w L ms h'"
    unfolding answers_def if_not_P [OF assms(2)] using L'(1) t by blast
qed

lemma processInvReq_spec:
  assumes "coherent g"
  shows "specS (seen w L ms) (processInvReqFromDramDirectory g i sender msg) (\<lambda>_. answers g i sender msg INVALID INV_REP w L ms)"
  unfolding processInvReqFromDramDirectory_def Let_def
proof (rule specS_bind [OF state_spec], rule specS_prop, rule specS_if)
  fix cstate
  assume c: "cstate = state_of (L (MST g i) (drop_bit w (msg_address msg)))"
  show "specS (seen w L ms) (incrElapsed_access g i ACCESS_CACHE_TAGS SIM_THREAD) (\<lambda>_. answers g i sender msg INVALID INV_REP w L ms)"
    if "\<not> cstate \<noteq> INVALID"
    by (rule specS_post [OF quietD [OF quiet_elapsed(4)]]) (use c that in \<open>simp add: answers_def\<close>)
  assume "cstate \<noteq> INVALID"
  then have "specS (seen w L ms) (bindS (updateCacheBlock (hc_levels g) g i (msg_address msg) INVALID COHERENCY False) (\<lambda>(_, _, data).
      cc_sendMsg g i INV_REP (m_requester msg) sender (msg_address msg) (if INV_REP = INV_REP then None else data) SIM_THREAD))
    (\<lambda>_. answers g i sender msg INVALID INV_REP w L ms)"
    using c by (intro update_and_send_spec assms) auto
  then show "specS (seen w L ms) (thenS (incrElapsed_access g i ACCESS_CACHE_TAGS SIM_THREAD)
         (thenS (updateCacheBlock (hc_levels g) g i (msg_address msg) INVALID COHERENCY False)
            (cc_sendMsg g i INV_REP (m_requester msg) sender (msg_address msg) None SIM_THREAD)))
      (\<lambda>_. answers g i sender msg INVALID INV_REP w L ms)"
    by (intro specS_then_quiet [OF quiet_elapsed(4)]) (simp add: thenS_def split_def)
qed

lemma processFlushReq_spec:
  assumes "coherent g"
  shows "specS (seen w L ms) (processFlushReqFromDramDirectory g i sender msg) (\<lambda>_. answers g i sender msg INVALID FLUSH_REP w L ms)"
  unfolding processFlushReqFromDramDirectory_def Let_def
proof (rule specS_bind [OF state_spec], rule specS_prop, rule specS_if)
  fix cstate
  assume c: "cstate = state_of (L (MST g i) (drop_bit w (msg_address msg)))"
  show "specS (seen w L ms) (incrElapsed_access g i ACCESS_CACHE_TAGS SIM_THREAD) (\<lambda>_. answers g i sender msg INVALID FLUSH_REP w L ms)"
    if "\<not> cstate \<noteq> INVALID"
    by (rule specS_post [OF quietD [OF quiet_elapsed(4)]]) (use c that in \<open>simp add: answers_def\<close>)
  assume "cstate \<noteq> INVALID"
  then have "specS (seen w L ms) (bindS (updateCacheBlock (hc_levels g) g i (msg_address msg) INVALID COHERENCY True) (\<lambda>(_, _, data).
      cc_sendMsg g i FLUSH_REP (m_requester msg) sender (msg_address msg) (if FLUSH_REP = INV_REP then None else data) SIM_THREAD))
    (\<lambda>_. answers g i sender msg INVALID FLUSH_REP w L ms)"
    using c by (intro update_and_send_spec assms) auto
  then show "specS (seen w L ms) (thenS (incrElapsed_access g i ACCESS_CACHE_DATA_AND_TAGS SIM_THREAD)
         (bindS (updateCacheBlock (hc_levels g) g i (msg_address msg) INVALID COHERENCY True) (\<lambda>(_, _, data).
            cc_sendMsg g i FLUSH_REP (m_requester msg) sender (msg_address msg) data SIM_THREAD)))
      (\<lambda>_. answers g i sender msg INVALID FLUSH_REP w L ms)"
    by (intro specS_then_quiet [OF quiet_elapsed(4)]) simp
qed

lemma processWbReq_spec:
  assumes "coherent g" "state_of (L (MST g i) (drop_bit w (msg_address msg))) \<noteq> SHARED_UPGRADING"
  shows "specS (seen w L ms) (processWbReqFromDramDirectory g i sender msg) (\<lambda>_. answers g i sender msg SHARED WB_REP w L ms)"
  unfolding processWbReqFromDramDirectory_def Let_def
proof (rule specS_bind [OF state_spec], rule specS_prop, rule specS_if)
  fix cstate
  assume c: "cstate = state_of (L (MST g i) (drop_bit w (msg_address msg)))"
  show "specS (seen w L ms) (incrElapsed_access g i ACCESS_CACHE_TAGS SIM_THREAD) (\<lambda>_. answers g i sender msg SHARED WB_REP w L ms)"
    if "\<not> cstate \<noteq> INVALID"
    by (rule specS_post [OF quietD [OF quiet_elapsed(4)]]) (use c that in \<open>simp add: answers_def\<close>)
  assume "cstate \<noteq> INVALID"
  then have "specS (seen w L ms) (bindS (updateCacheBlock (hc_levels g) g i (msg_address msg) SHARED COHERENCY True) (\<lambda>(_, _, data).
      cc_sendMsg g i WB_REP (m_requester msg) sender (msg_address msg) (if WB_REP = INV_REP then None else data) SIM_THREAD))
    (\<lambda>_. answers g i sender msg SHARED WB_REP w L ms)"
    using c by (intro update_and_send_spec assms) auto
  moreover have "bindS (if cstate \<noteq> SHARED_UPGRADING
                 then bindS m (\<lambda>(_, _, data). returnS data) else returnS (Some (hc_uninit g))) k = bindS m (\<lambda>(_, _, data). k data)"
    for m :: "(UInt64 \<times> bool \<times> UInt8 list option) hop" and k :: "UInt8 list option \<Rightarrow> unit hop"
    using assms(2) c by (auto simp: op_defs fun_eq_iff bindE_def split: sum.split)
  ultimately show "specS (seen w L ms) (thenS (incrElapsed_access g i ACCESS_CACHE_DATA_AND_TAGS SIM_THREAD)
         (bindS (if cstate \<noteq> SHARED_UPGRADING
                 then bindS (updateCacheBlock (hc_levels g) g i (msg_address msg) SHARED COHERENCY True) (\<lambda>(_, _, data). returnS data)
                 else returnS (Some (hc_uninit g))) (\<lambda>data.
            cc_sendMsg g i WB_REP (m_requester msg) sender (msg_address msg) data SIM_THREAD)))
      (\<lambda>_. answers g i sender msg SHARED WB_REP w L ms)"
    by (intro specS_then_quiet [OF quiet_elapsed(4)]) simp
qed

end
