(* ===== verification/Cache_Cntlr_Properties.thy ===== *)
theory Cache_Cntlr_Properties
  imports Cache_Coherence
begin

text \<open>
  Properties of the cache controllers, read off the descriptions in \<open>Cache_Coherence\<close>. The example hierarchy has
  an instruction cache, a data cache, a second and a third level.
\<close>

section \<open>An example hierarchy\<close>

definition hier_latency :: component_latency where
  "hier_latency = \<lparr>cl_period = 1, m_fixed_cycle_latency = 1\<rparr>"

definition level_cfg :: "component_t \<Rightarrow> nat \<Rightarrow> nat option \<Rightarrow> cntlr_cfg" where
  "level_cfg component master j =
     \<lparr>cc_mem_component = component, cc_core_id = 0, cc_core_id_master = 0, cc_master = master, cc_next = j,
      cc_perfect = False, cc_passthrough = False, cc_coherent = True, cc_prefetch_on_prefetch_hit = False,
      cc_train_prefetcher_on_hit = False, cc_prefetch_delay = False, cc_l1_mshr = False, cc_cache_block_size = 64,
      cc_writethrough = False, cc_writeback_time = hier_latency,
      cc_next_level_read_bandwidth = \<lparr>bw_period = 1, m_bw_in_bits_per_cycle = 0\<rparr>,
      cc_perf_model = \<lparr>cpm_type = CACHE_PERF_MODEL_PARALLEL, m_cache_data_access_time = hier_latency,
        m_cache_tags_access_time = hier_latency, cpm_enabled = True\<rparr>,
      cc_logged = False\<rparr>"

definition three_levels :: hier_cfg where
  "three_levels =
     \<lparr>hc_cntlrs = (\<lambda>i. if i = 0 then level_cfg 2 0 (Some 2) else if i = 1 then level_cfg 3 1 (Some 2)
        else if i = 2 then level_cfg 4 2 (Some 3) else level_cfg 5 3 None),
      hc_prevs = (\<lambda>m. if m = 2 then [0, 1] else if m = 3 then [2] else []),
      hc_home = example_ahl, hc_cache_only = False, hc_get_owner = None, hc_dram_env = example_dram_env,
      hc_uninit = [], hc_levels = 3\<rparr>"

definition master_of :: "cache \<Rightarrow> cache_master" where
  "master_of c =
     \<lparr>m_cache = c, m_prefetcher = None, m_dram_cntlr = None, m_dram_outstanding_writebacks = None,
      m_mshr = [], m_l1_mshr = ContentionModel 1 1, m_next_level_read = ContentionModel 1 1,
      m_directory_waiters = (\<lambda>_. None), m_evicting_address = 0, m_evicting_buf = None, m_prefetch_list = [], m_prefetch_next = 0\<rparr>"

definition hier_of :: "(nat \<Rightarrow> cache) \<Rightarrow> hier" where
  "hier_of f =
     \<lparr>h_masters = (\<lambda>m. master_of (f m)), h_stats = (\<lambda>_ _. 0), h_last_remote_hit_where = (\<lambda>_. UNKNOWN), h_elapsed = (\<lambda>_ _. 0),
      h_sent = [], h_pending = (\<lambda>_. None), h_done = []\<rparr>"

text \<open>The example cache with the line at \<^verbatim>\<open>0x1000\<close> shared, and without it.\<close>

definition example_shared :: cache where
  "example_shared = (case updLine example_cache1 0x1000 (\<lambda>b. b\<lparr>m_cstate := SHARED\<rparr>) of Inr c \<Rightarrow> c)"

definition example_line :: cache_block_info where
  "example_line = (case peekSingleLine example_shared 0x1000 of Inr (Some b) \<Rightarrow> b)"

definition example_gone :: cache where
  "example_gone = (case invalidateSingleLine example_shared 0x1000 of Inr (_, c) \<Rightarrow> c)"

lemma example_shared:
  "updLine example_cache1 0x1000 (\<lambda>b. b\<lparr>m_cstate := SHARED\<rparr>) = Inr example_shared"
  "peekSingleLine example_shared 0x1000 = Inr (Some example_line)" "m_cstate example_line = SHARED" "m_options example_line = 0"
  "invalidateSingleLine example_shared 0x1000 = Inr (True, example_gone)" "peekSingleLine example_gone 0x1000 = Inr None"
  "m_log_blocksize (base example_cache1) = 6"
  by code_simp+

lemma example_cache1_inv: "cache_inv example_cache1"
  using insert_correct [OF example_cache_inv(1) example_insert(2) _ example_insert(1)] example_cache_inv(2) by simp

lemma example_shared_inv: "cache_inv example_shared" "m_log_blocksize (base example_shared) = 6"
  "lines example_shared 0x40 = Some example_line"
proof -
  have *: "cache_inv example_shared \<and> base example_shared = base example_cache1"
    using updLine_lines [OF example_cache1_inv _ example_shared(1)] by auto
  then show "cache_inv example_shared" "m_log_blocksize (base example_shared) = 6" using example_shared(7) by simp_all
  then show "lines example_shared 0x40 = Some example_line" using peek_lines [OF _ example_shared(2)] by simp
qed

lemma three_levels_sel [simp]:
  "cc_master (hc_cntlrs three_levels i) = (if i < 3 then i else 3)"
  "hc_prevs three_levels m = (if m = 2 then [0, 1] else if m = 3 then [2] else [])"
  "cc_coherent (hc_cntlrs three_levels i)" "hc_levels three_levels = 3"
  by (simp_all add: three_levels_def level_cfg_def)

lemma coherent_three_levels: "coherent three_levels"
  by (simp add: coherent_def)

lemma hier_of_sel [simp]: "h_masters (hier_of f) m = master_of (f m)" "m_cache (master_of c) = c"
  by (simp_all add: hier_of_def master_of_def)

lemma m_cache_update_master_of [simp]: "(master_of c)\<lparr>m_cache := c'\<rparr> = master_of c'"
  by (simp add: master_of_def)

lemma caches_ok_shared: "caches_ok 6 (hier_of (\<lambda>_. example_shared))" "Lines (hier_of (\<lambda>_. example_shared)) m 0x40 = Some example_line"
  by (simp_all add: caches_ok_def Lines_def example_shared_inv)

lemmas hier_eval = prevs_def op_defs the_cache_def the_master_def setCache_def updMaster_def addStat_def getCacheBlockInfo_def
  getCacheState_def hasOption_def option_index_def state_of_def

section \<open>Coherence requests\<close>

text \<open>
  C4: An update of a line to a state reaches every cache at and above the level it starts from: afterwards each of
  them has the line in that state or not at all, no other line of these caches and no line of any other cache has
  changed its state, no message has been sent, and the caches are still well formed. This holds for any tree of
  coherent caches, whether the reason is an eviction, an upgrade or a request of the directory.
\<close>

theorem update_reaches_every_copy:
  assumes "coherent g" "caches_ok w h" "updateCacheBlock n g i a s r want h = Inr (x, h')"
  shows "(\<forall>m \<in> above n g i. state_of (Lines h' m (drop_bit w a)) \<in> {INVALID, s}) \<and>
    (\<forall>m t. t \<noteq> drop_bit w a \<or> m \<notin> above n g i \<longrightarrow> Lines h' m t = Lines h m t) \<and> h_sent h' = h_sent h \<and> caches_ok w h'"
proof -
  have "seen w (Lines h) (h_sent h) h" using assms(2) by (simp add: seen_def)
  then obtain L' where "settled s (drop_bit w a) (above n g i) (Lines h) L'" "seen w L' (h_sent h) h'"
    using specSD [OF updateCacheBlock_spec [OF assms(1)] _ assms(3)] by blast
  then show ?thesis unfolding settled_def seen_def by auto
qed

theorem update_reaches_every_copy_witness:
  "\<exists>x h'. updateCacheBlock 2 three_levels 2 0x1000 INVALID COHERENCY False (hier_of (\<lambda>_. example_shared)) = Inr (x, h') \<and>
     state_of (Lines (hier_of (\<lambda>_. example_shared)) 1 0x40) = SHARED \<and> state_of (Lines h' 1 0x40) = INVALID \<and>
     state_of (Lines h' 2 0x40) = INVALID \<and> Lines h' 3 0x40 = Some example_line"
proof -
  let ?h = "hier_of (\<lambda>_. example_shared)"
  define r where "r = updateCacheBlock 2 three_levels 2 0x1000 INVALID COHERENCY False ?h"
  have "\<not> isl r" unfolding r_def
    by (simp add: numeral_2_eq_2 update_here_def change_state_def count_update_def invalidateCacheBlock_def hier_eval example_shared)
  then obtain x h' where run: "updateCacheBlock 2 three_levels 2 0x1000 INVALID COHERENCY False ?h = Inr (x, h')"
    unfolding r_def by (cases r) (auto simp: r_def)
  have t: "drop_bit 6 (0x1000 :: IntPtr) = 0x40" by simp
  have ab: "above 2 three_levels 2 = {0, 1, 2}" by (auto simp: numeral_2_eq_2 prevs_def)
  note * = update_reaches_every_copy [OF coherent_three_levels caches_ok_shared(1) run, unfolded t ab]
  show ?thesis using run * caches_ok_shared(2) example_shared(3) by (cases x) (auto simp: state_of_def)
qed

text \<open>
  C5: A last-level cache answers a request of the directory exactly when it has the line, with one message to the
  sender of the request: after an \<^verbatim>\<open>INV_REQ\<close> or a \<^verbatim>\<open>FLUSH_REQ\<close> no cache at or above this level has a valid copy, after a
  \<^verbatim>\<open>WB_REQ\<close> every remaining copy is shared, and the replies to \<^verbatim>\<open>FLUSH_REQ\<close> and \<^verbatim>\<open>WB_REQ\<close> carry data. So the directory
  never counts a cache out while a copy is left above it. The line must not be waiting for an upgrade when a
  \<^verbatim>\<open>WB_REQ\<close> arrives.
\<close>

theorem directory_requests_answered:
  assumes "coherent g" "caches_ok w h" "handleMsgFromDramDirectory g i sender msg h = Inr ((), h')"
    "m_msg_type msg \<in> {INV_REQ, FLUSH_REQ, WB_REQ}" "t = drop_bit w (msg_address msg)"
    "m_msg_type msg = WB_REQ \<longrightarrow> state_of (Lines h (cc_master (hc_cntlrs g i)) t) \<noteq> SHARED_UPGRADING"
  shows "if state_of (Lines h (cc_master (hc_cntlrs g i)) t) = INVALID then Lines h' = Lines h \<and> h_sent h' = h_sent h
    else (\<forall>m \<in> above (hc_levels g) g i. state_of (Lines h' m t) = INVALID \<or> m_msg_type msg = WB_REQ \<and> state_of (Lines h' m t) = SHARED) \<and>
      (\<forall>m x. x \<noteq> t \<or> m \<notin> above (hc_levels g) g i \<longrightarrow> Lines h' m x = Lines h m x) \<and>
      (\<exists>m. h_sent h' = h_sent h @ [m] \<and> reply g i sender msg m
        (case m_msg_type msg of INV_REQ \<Rightarrow> INV_REP | FLUSH_REQ \<Rightarrow> FLUSH_REP | _ \<Rightarrow> WB_REP))"
proof -
  let ?s = "if m_msg_type msg = WB_REQ then SHARED else INVALID"
  let ?ty = "case m_msg_type msg of INV_REQ \<Rightarrow> INV_REP | FLUSH_REQ \<Rightarrow> FLUSH_REP | _ \<Rightarrow> WB_REP"
  have seen: "seen w (Lines h) (h_sent h) h" using assms(2) by (simp add: seen_def)
  consider "m_msg_type msg = INV_REQ" "processInvReqFromDramDirectory g i sender msg h = Inr ((), h')"
    | "m_msg_type msg = FLUSH_REQ" "processFlushReqFromDramDirectory g i sender msg h = Inr ((), h')"
    | "m_msg_type msg = WB_REQ" "processWbReqFromDramDirectory g i sender msg h = Inr ((), h')"
    using assms(3,4) by (auto simp: handleMsgFromDramDirectory_def is_reply_def op_defs Let_def elim!: bindE_eq_InrE)
  then have "answers g i sender msg ?s ?ty w (Lines h) (h_sent h) h'"
  proof cases
    case 1
    then show ?thesis using specSD [OF processInvReq_spec [OF assms(1)] seen] by simp
  next
    case 2
    then show ?thesis using specSD [OF processFlushReq_spec [OF assms(1)] seen] by simp
  next
    case 3
    then show ?thesis using specSD [OF processWbReq_spec [OF assms(1)] seen] assms(5,6) by simp
  qed
  then show ?thesis using assms(4,5) unfolding answers_def settled_def seen_def
    by (auto split: if_splits)
qed

definition inv_req :: shmem_msg where
  "inv_req = \<lparr>m_msg_type = INV_REQ, m_sender_mem_component = TAG_DIR, m_receiver_mem_component = LAST_LEVEL_CACHE,
     m_requester = 7, msg_address = 0x1000, m_data_buf = None, m_where = UNKNOWN\<rparr>"

lemma three_deep: "updateCacheBlock 3 g = updateCacheBlock (Suc (Suc (Suc 0))) g" "above 3 g = above (Suc (Suc (Suc 0))) g"
  by (simp_all add: numeral_3_eq_3)

lemma three_levels_more [simp]: "cpm_getLatency (cc_perf_model (hc_cntlrs three_levels i)) x = 1"
  "cc_core_id (hc_cntlrs three_levels i) = 0" "cc_core_id_master (hc_cntlrs three_levels i) = 0"
  by (auto simp: three_levels_def level_cfg_def cpm_getLatency_def hier_latency_def cl_getLatency_def split: cache_access_t.splits)

theorem directory_requests_answered_witness:
  "\<exists>h' m. handleMsgFromDramDirectory three_levels 3 4 inv_req (hier_of (\<lambda>_. example_shared)) = Inr ((), h') \<and>
     (\<forall>k < 4. state_of (Lines h' k 0x40) = INVALID) \<and> h_sent h' = [m] \<and> fst (snd m) = To 4"
proof -
  let ?h = "hier_of (\<lambda>_. example_shared)"
  define r where "r = handleMsgFromDramDirectory three_levels 3 4 inv_req ?h"
  have "\<not> isl r" unfolding r_def
    by (simp add: three_deep update_here_def change_state_def count_update_def invalidateCacheBlock_def hier_eval example_shared
      handleMsgFromDramDirectory_def processInvReqFromDramDirectory_def inv_req_def is_reply_def incrElapsed_access_def incrElapsed_def
      getElapsed_def setElapsed_def incrElapsedTime_def cc_sendMsg_def hier_of_def)
  then obtain h' where run: "handleMsgFromDramDirectory three_levels 3 4 inv_req ?h = Inr ((), h')"
    unfolding r_def by (cases r) (auto simp: r_def)
  have ab: "above (hc_levels three_levels) three_levels 3 = {0, 1, 2, 3}" by (auto simp: three_deep prevs_def)
  have st: "state_of (Lines ?h (cc_master (hc_cntlrs three_levels 3)) 0x40) = SHARED"
    by (simp add: caches_ok_shared(2) state_of_def example_shared(3))
  have m: "m_msg_type inv_req = INV_REQ" "drop_bit 6 (msg_address inv_req) = 0x40" by (simp_all add: inv_req_def)
  have "h_sent ?h = []" by (simp add: hier_of_def)
  then show ?thesis
    using directory_requests_answered [OF coherent_three_levels caches_ok_shared(1) run _ refl] st run unfolding ab m reply_def
    by (auto simp: less_Suc_eq numeral_eq_Suc)
qed

section \<open>Insertion\<close>

text \<open>
  C7: Inserting a line leaves it in the requested state and gives up at most one other line, which disappears
  from this cache and from every cache above it; all other lines of the hierarchy stay as they were.
\<close>

theorem insert_replaces_at_most_one:
  assumes "coherent g" "caches_ok w h" "insertCacheBlock g i a s data requester th h = Inr (u, h')"
    "\<And>b. Lines h (cc_master (hc_cntlrs g i)) (drop_bit w a) = Some b \<Longrightarrow> m_cstate b \<noteq> INVALID"
  shows "(\<exists>b. Lines h' (cc_master (hc_cntlrs g i)) (drop_bit w a) = Some b \<and> m_cstate b = s) \<and> caches_ok w h' \<and>
    (\<exists>E. (E = {} \<or> (\<exists>te. E = {te} \<and> te \<noteq> drop_bit w a \<and> Lines h (cc_master (hc_cntlrs g i)) te \<noteq> None)) \<and>
      (\<forall>te \<in> E. \<forall>k \<in> insert (cc_master (hc_cntlrs g i)) (\<Union>p \<in> set (prevs g i). above (hc_levels g) g p).
         state_of (Lines h' k te) = INVALID) \<and>
      (\<forall>k x. k = cc_master (hc_cntlrs g i) \<and> x = drop_bit w a \<or> x \<in> E \<or> Lines h' k x = Lines h k x))"
proof -
  have "seen w (Lines h) (h_sent h) h" using assms(2) by (simp add: seen_def)
  then obtain L' ms' where "inserted s (drop_bit w a) (cc_master (hc_cntlrs g i)) (\<Union>p \<in> set (prevs g i). above (hc_levels g) g p) (Lines h) L'"
    "seen w L' ms' h'"
    using specSD [OF insertCacheBlock_spec [OF assms(1,4)] _ assms(3)] by blast
  then show ?thesis unfolding inserted_def seen_def by blast
qed

definition example_filled :: cache where
  "example_filled = (case insertSingleLine (Some (\<lambda>_. False)) example_cache 0x1000 None (CacheBlockInfo SHARED_CACHE (NOT 0) INVALID 0) True of
     Inr (_, _, _, _, c) \<Rightarrow> c)"

definition example_excl :: cache where
  "example_excl = (case updLine example_filled 0x1000 (\<lambda>b. b\<lparr>m_cstate := EXCLUSIVE\<rparr>) of Inr c \<Rightarrow> c)"

lemma example_filled:
  "\<exists>ea e d. insertSingleLine (Some (\<lambda>_. False)) example_cache 0x1000 None (CacheBlockInfo SHARED_CACHE (NOT 0) INVALID 0) True =
     Inr (False, ea, e, d, example_filled)"
  "updLine example_filled 0x1000 (\<lambda>b. b\<lparr>m_cstate := EXCLUSIVE\<rparr>) = Inr example_excl"
  "env_qbs (m_set_info example_filled) = env_qbs (m_set_info example_cache)"
proof -
  have "case insertSingleLine (Some (\<lambda>_. False)) example_cache 0x1000 None (CacheBlockInfo SHARED_CACHE (NOT 0) INVALID 0) True of
     Inr (ev, _, _, _, c) \<Rightarrow> \<not> ev | _ \<Rightarrow> False" by code_simp
  then show "\<exists>ea e d. insertSingleLine (Some (\<lambda>_. False)) example_cache 0x1000 None (CacheBlockInfo SHARED_CACHE (NOT 0) INVALID 0) True =
     Inr (False, ea, e, d, example_filled)"
    by (auto simp: example_filled_def split: sum.splits prod.splits)
qed code_simp+

lemma example_cache_lines [simp]: "lines example_cache t = None"
  using lines_absent [OF example_cache_inv(1)] example_cache_inv(2) by simp

lemma caches_ok_cold: "caches_ok 6 (hier_of (\<lambda>_. example_cache))"
proof -
  have "m_log_blocksize (base example_cache) = 6" by code_simp
  then show ?thesis by (simp add: caches_ok_def example_cache_inv)
qed

theorem insert_replaces_at_most_one_witness:
  "\<exists>h'. insertCacheBlock three_levels 0 0x1000 EXCLUSIVE None 0 USER_THREAD (hier_of (\<lambda>_. example_cache)) = Inr ((), h') \<and>
     state_of (Lines h' 0 0x40) = EXCLUSIVE \<and> Lines h' 0 0x41 = None"
proof -
  let ?h = "hier_of (\<lambda>_. example_cache)"
  define r where "r = insertCacheBlock three_levels 0 0x1000 EXCLUSIVE None 0 USER_THREAD ?h"
  have top: "isInLowerLevelCache three_levels 0 h = (\<lambda>_. False)" for h
    by (simp add: isInLowerLevelCache_def prevs_def fun_eq_iff)
  have none: "hc_cache_only three_levels = False" "hc_get_owner three_levels = None" by (simp_all add: three_levels_def)
  have "\<not> isl r" unfolding r_def using example_filled(1)
    by (auto simp: insertCacheBlock_def annotate_line_def none setCacheState_def updBlock_def hier_eval top example_insert(3) example_filled(2,3))
  then obtain h' where run: "insertCacheBlock three_levels 0 0x1000 EXCLUSIVE None 0 USER_THREAD ?h = Inr ((), h')"
    unfolding r_def by (cases r) (auto simp: r_def)
  have t: "drop_bit 6 (0x1000 :: IntPtr) = 0x40" "cc_master (hc_cntlrs three_levels 0) = 0" by simp_all
  have cold: "Lines ?h m x = None" for m x by (simp add: Lines_def)
  note main = insert_replaces_at_most_one [OF coherent_three_levels caches_ok_cold run, unfolded t cold, simplified]
  obtain b where "Lines h' 0 0x40 = Some b" "m_cstate b = EXCLUSIVE" using main by auto
  then have "state_of (Lines h' 0 0x40) = EXCLUSIVE" by (simp add: state_of_def)
  moreover have "Lines h' 0 0x41 = None"
    using main [THEN conjunct2, THEN conjunct2, THEN spec, THEN spec, of 0 "0x41"] by simp
  ultimately show ?thesis using run by blast
qed

section \<open>Sharing between the caches of the previous level\<close>

lemma option_hit_spec:
  "specS (seen w L ms) (option_hit g i a opt x en) (\<lambda>_ h. \<exists>b0 b. L (cc_master (hc_cntlrs g i)) (drop_bit w a) = Some b0 \<and> m_cstate b = m_cstate b0 \<and>
     seen w (L(cc_master (hc_cntlrs g i) := (L (cc_master (hc_cntlrs g i)))(drop_bit w a \<mapsto> b))) ms h)"
  unfolding option_hit_def
proof (rule specS_bind [OF block_spec], rule specS_prop)
  let ?m = "cc_master (hc_cntlrs g i)" and ?t = "drop_bit w a"
  let ?Q = "\<lambda>_ h. \<exists>b0 b. L ?m ?t = Some b0 \<and> m_cstate b = m_cstate b0 \<and> seen w (L(?m := (L ?m)(?t \<mapsto> b))) ms h"
  fix block
  assume block: "block = L ?m ?t"
  show "specS (seen w L ms) (case block of None \<Rightarrow> failS (UNDEFINED ''cache_block_info is NULL'')
       | Some b \<Rightarrow> if en \<and> hasOption b opt
           then thenS (addStat i x 1) (thenS (updBlock g i a (\<lambda>b. clearOption b opt)) (returnS True)) else returnS False) ?Q"
  proof (cases block)
    case (Some b0)
    have "specS (seen w L ms) (updBlock g i a (\<lambda>b. clearOption b opt)) ?Q"
    proof (rule specS_post [OF updBlock_spec])
      show "m_tag (clearOption b opt) = m_tag b" for b by (simp add: clearOption_def)
      have "m_cstate (clearOption b opt) = m_cstate b" for b by (simp add: clearOption_def)
      then show "\<exists>b. L ?m ?t = Some b \<and> seen w (L(?m := (L ?m)(?t \<mapsto> clearOption b opt))) ms h \<Longrightarrow>
          \<exists>b0 b. L ?m ?t = Some b0 \<and> m_cstate b = m_cstate b0 \<and> seen w (L(?m := (L ?m)(?t \<mapsto> b))) ms h" for h by blast
    qed
    then have "specS (seen w L ms) (thenS (addStat i x 1) (thenS (updBlock g i a (\<lambda>b. clearOption b opt)) (returnS True))) ?Q"
      by (intro specS_then_quiet [OF quiet_addStat]) (rule specS_then, assumption, rule specS_return)
    moreover have "specS (seen w L ms) (returnS False) ?Q"
    proof (rule specS_return)
      have "L(?m := (L ?m)(?t \<mapsto> b0)) = L" using Some block by (simp add: fun_upd_idem)
      then show "seen w L ms h \<Longrightarrow> \<exists>b0 b. L ?m ?t = Some b0 \<and> m_cstate b = m_cstate b0 \<and> seen w (L(?m := (L ?m)(?t \<mapsto> b))) ms h" for h
        using Some block by (metis (no_types, lifting))
    qed
    ultimately show ?thesis unfolding Some option.case by (intro specS_if)
  qed (simp add: specS_fail)
qed

definition relabelled :: "nat \<Rightarrow> IntPtr \<Rightarrow> lines_map \<Rightarrow> lines_map \<Rightarrow> bool" where
  "relabelled m t L L1 \<longleftrightarrow> (\<exists>b0 b. L m t = Some b0 \<and> m_cstate b = m_cstate b0 \<and> L1 = L(m := (L m)(t \<mapsto> b)))"

lemma relabelled_trans: "relabelled m t L L1 \<Longrightarrow> relabelled m t L1 L2 \<Longrightarrow> relabelled m t L L2"
  by (auto simp: relabelled_def)

lemma relabelled_state: "relabelled m t L L1 \<Longrightarrow> state_of (L1 k x) = state_of (L k x)"
  by (auto simp: relabelled_def state_of_def)

lemma relabelled_other: "relabelled m t L L1 \<Longrightarrow> x \<noteq> t \<Longrightarrow> L1 k x = L k x"
  by (auto simp: relabelled_def)

lemma option_hit_relabels:
  "specS (seen w L ms) (option_hit g i a opt x en) (\<lambda>_ h. \<exists>L1. relabelled (cc_master (hc_cntlrs g i)) (drop_bit w a) L L1 \<and> seen w L1 ms h)"
  by (rule specS_post [OF option_hit_spec]) (auto simp: relabelled_def)

lemma quiet_uncore [quiet_rules]: "quiet w (updateUncoreStatistics i x)"
  unfolding updateUncoreStatistics_def by (rule quiet_modify) auto

lemma shmem_hit_spec:
  assumes "coherent g"
  shows "specS (seen w L ms) (shmem_hit g i requester op a modeled pf) (\<lambda>_ h. \<exists>L1 L'.
    relabelled (cc_master (hc_cntlrs g i)) (drop_bit w a) L L1 \<and>
    (if op \<noteq> READ then settled INVALID (drop_bit w a) (\<Union>p \<in> set (prevs g i) - {requester}. above (hc_levels g) g p) L1 L'
     else if state_of (L (cc_master (hc_cntlrs g i)) (drop_bit w a)) \<in> {MODIFIED, EXCLUSIVE}
     then settled SHARED (drop_bit w a) (\<Union>p \<in> set (prevs g i) - {requester}. above (hc_levels g) g p) L1 L'
     else L' = L1) \<and> seen w L' ms h)"
    (is "specS _ _ (\<lambda>_ h. \<exists>L1 L'. relabelled ?m ?t L L1 \<and> ?snooped L1 L' \<and> seen w L' ms h)")
  unfolding shmem_hit_def
proof (rule specS_bind [OF option_hit_relabels], rule specS_ex, rule specS_prop, rule specS_then [OF option_hit_relabels], rule specS_ex,
    rule specS_prop, rule specS_then_quiet)
  fix prefetch_hit La L1
  assume "relabelled ?m ?t L La" "relabelled ?m ?t La L1"
  then have L1: "relabelled ?m ?t L L1" by (rule relabelled_trans)
  show "quiet w (whenS modeled
         (bindS (getElapsed g i USER_THREAD) (\<lambda>t_now.
          bindS (getS (\<lambda>h. overlap a t_now (the_master g i h))) (\<lambda>l.
            case l of
              Some latency \<Rightarrow> thenS (addStat i MSHR_LATENCY latency) (incrElapsed g i latency USER_THREAD)
            | None \<Rightarrow> incrElapsed_access g i ACCESS_CACHE_DATA_AND_TAGS USER_THREAD))))"
    by (intro quiet_rules)
  have fin: "specS (\<lambda>h. \<exists>L'. ?snooped L1 L' \<and> seen w L' ms h)
      (bindS (getS (\<lambda>h. h_last_remote_hit_where h i)) (\<lambda>remote.
       if remote \<noteq> UNKNOWN
       then thenS (updateUncoreStatistics i UNKNOWN) (returnS (prefetch_hit, remote))
       else returnS (prefetch_hit, where_of_nat (cc_mem_component (hc_cntlrs g i) + (if hit then SIBLING_OFFSET else 0)))))
      (\<lambda>_ h. \<exists>L1 L'. relabelled ?m ?t L L1 \<and> ?snooped L1 L' \<and> seen w L' ms h)" for hit
    by (rule specS_ex, rule specS_prop, rule specS_post [OF quietD]) (intro quiet_rules, use L1 in blast)
  show "specS (seen w L1 ms) (bindS (getCacheState g i a) (\<lambda>cstate.
     bindS (if op \<noteq> READ then snoop_previous g i requester a INVALID COHERENCY
            else if cstate = MODIFIED \<or> cstate = EXCLUSIVE then snoop_previous g i requester a SHARED COHERENCY
            else returnS False) (\<lambda>hit.
     bindS (getS (\<lambda>h. h_last_remote_hit_where h i)) (\<lambda>remote.
       if remote \<noteq> UNKNOWN
       then thenS (updateUncoreStatistics i UNKNOWN) (returnS (prefetch_hit, remote))
       else returnS (prefetch_hit, where_of_nat (cc_mem_component (hc_cntlrs g i) + (if hit then SIBLING_OFFSET else 0)))))))
      (\<lambda>_ h. \<exists>L1 L'. relabelled ?m ?t L L1 \<and> ?snooped L1 L' \<and> seen w L' ms h)"
  proof (rule specS_bind [OF state_spec], rule specS_prop, rule specS_bind [OF _ fin])
    fix cstate
    assume c: "cstate = state_of (L1 ?m ?t)"
    then have c': "cstate = state_of (L ?m ?t)" using relabelled_state [OF L1] by simp
    show "specS (seen w L1 ms) (if op \<noteq> READ then snoop_previous g i requester a INVALID COHERENCY
            else if cstate = MODIFIED \<or> cstate = EXCLUSIVE then snoop_previous g i requester a SHARED COHERENCY
            else returnS False) (\<lambda>_ h. \<exists>L'. ?snooped L1 L' \<and> seen w L' ms h)"
      using snoop_previous_spec [OF assms, of w L1 ms i requester a] c' by (auto intro: specS_return)
  qed
qed

text \<open>
  C6: A write that hits in a shared level leaves the requester as the only cache above it that may hold the line: every
  cache reachable through another controller of the previous level has lost it. A read that hits a modified or
  exclusive line leaves at most shared copies there. Lines of other addresses do not change.
\<close>

theorem hit_excludes_other_sharers:
  assumes "coherent g" "caches_ok w h" "shmem_hit g i requester op a modeled pf h = Inr (x, h')"
    "p \<in> set (prevs g i)" "p \<noteq> requester" "m \<in> above (hc_levels g) g p" "t \<noteq> drop_bit w a"
  shows "(op \<noteq> READ \<longrightarrow> state_of (Lines h' m (drop_bit w a)) = INVALID) \<and>
    (op = READ \<and> state_of (Lines h (cc_master (hc_cntlrs g i)) (drop_bit w a)) \<in> {MODIFIED, EXCLUSIVE} \<longrightarrow>
       state_of (Lines h' m (drop_bit w a)) \<in> {INVALID, SHARED}) \<and>
    Lines h' k t = Lines h k t"
proof -
  let ?S = "\<Union>p \<in> set (prevs g i) - {requester}. above (hc_levels g) g p"
  have "seen w (Lines h) (h_sent h) h" using assms(2) by (simp add: seen_def)
  then obtain L1 L' where L: "relabelled (cc_master (hc_cntlrs g i)) (drop_bit w a) (Lines h) L1" "seen w L' (h_sent h) h'"
    "if op \<noteq> READ then settled INVALID (drop_bit w a) ?S L1 L'
     else if state_of (Lines h (cc_master (hc_cntlrs g i)) (drop_bit w a)) \<in> {MODIFIED, EXCLUSIVE}
     then settled SHARED (drop_bit w a) ?S L1 L' else L' = L1"
    using specSD [OF shmem_hit_spec [OF assms(1)] _ assms(3)] by blast
  have "m \<in> ?S" using assms(4-6) by auto
  then show ?thesis using L relabelled_other [OF L(1) assms(7)] assms(7) unfolding seen_def settled_def
    by (auto split: if_splits)
qed

theorem hit_excludes_other_sharers_witness:
  "\<exists>x h'. shmem_hit three_levels 2 1 WRITE 0x1000 False PF_NONE (hier_of (\<lambda>_. example_shared)) = Inr (x, h') \<and>
     state_of (Lines h' 0 0x40) = INVALID \<and> Lines h' 3 0x41 = Lines (hier_of (\<lambda>_. example_shared)) 3 0x41"
proof -
  let ?h = "hier_of (\<lambda>_. example_shared)"
  define r where "r = shmem_hit three_levels 2 1 WRITE 0x1000 False PF_NONE ?h"
  have "\<not> isl r" unfolding r_def
    by (simp add: three_deep shmem_hit_def option_hit_def snoop_previous_def update_here_def change_state_def count_update_def
      invalidateCacheBlock_def hier_eval example_shared incrElapsed_def getElapsed_def setElapsed_def incrElapsedTime_def hier_of_def)
  then obtain x h' where run: "shmem_hit three_levels 2 1 WRITE 0x1000 False PF_NONE ?h = Inr (x, h')"
    unfolding r_def by (cases r) (auto simp: r_def)
  have p: "0 \<in> set (prevs three_levels 2)" "0 \<noteq> (1 :: nat)" "0 \<in> above (hc_levels three_levels) three_levels 0"
    "(0x41 :: IntPtr) \<noteq> drop_bit 6 0x1000"
    by (simp_all add: prevs_def three_deep)
  show ?thesis
    using hit_excludes_other_sharers [OF coherent_three_levels caches_ok_shared(1) run p, of 3] run by (cases x) auto
qed

section \<open>Writing to an exclusive line\<close>

definition modified_copy :: cache where
  "modified_copy = (case updLine example_excl 0x1000 (\<lambda>b. b\<lparr>m_cstate := MODIFIED\<rparr>) of Inr c \<Rightarrow> c)"

definition dropped_copy :: cache where
  "dropped_copy = (case invalidateSingleLine example_excl 0x1000 of Inr (_, c) \<Rightarrow> c)"

definition refilled_copy :: cache where
  "refilled_copy = (case insertSingleLine (Some (\<lambda>_. False)) dropped_copy 0x1000 (Some []) (CacheBlockInfo SHARED_CACHE (NOT 0) INVALID 0) True of
     Inr (_, _, _, _, c) \<Rightarrow> c)"

definition modified_again :: cache where
  "modified_again = (case updLine refilled_copy 0x1000 (\<lambda>b. b\<lparr>m_cstate := MODIFIED\<rparr>) of Inr c \<Rightarrow> c)"

definition holds :: "cache \<Rightarrow> cstate_t \<Rightarrow> bool" where
  "holds c s = (case peekSingleLine c 0x1000 of Inr (Some b) \<Rightarrow> m_cstate b = s | _ \<Rightarrow> False)"

lemma holdsD: "holds c s \<Longrightarrow> \<exists>b. peekSingleLine c 0x1000 = Inr (Some b) \<and> m_cstate b = s"
  by (auto simp: holds_def split: sum.splits option.splits)

lemma copies:
  "holds example_excl EXCLUSIVE" "holds modified_copy MODIFIED" "holds modified_again MODIFIED"
  "updLine example_excl 0x1000 (\<lambda>b. b\<lparr>m_cstate := MODIFIED\<rparr>) = Inr modified_copy"
  "invalidateSingleLine example_excl 0x1000 = Inr (True, dropped_copy)" "peekSingleLine dropped_copy 0x1000 = Inr None"
  "updLine refilled_copy 0x1000 (\<lambda>b. b\<lparr>m_cstate := MODIFIED\<rparr>) = Inr modified_again"
  "env_qbs (m_set_info refilled_copy) = env_qbs (m_set_info dropped_copy)"
  by code_simp+

lemma copies_read:
  "accessSingleLine modified_copy 0x1000 LOAD (Some []) 64 False = Inr (Some 0, Some [], modified_copy)"
  "accessSingleLine modified_again 0x1000 LOAD (Some []) 64 False = Inr (Some 0, Some [], modified_again)"
  by code_simp+

lemma refill: "\<exists>ea e d. insertSingleLine (Some q) dropped_copy 0x1000 (Some []) (CacheBlockInfo SHARED_CACHE (NOT 0) INVALID 0) True =
     Inr (False, ea, e, d, refilled_copy)"
proof -
  have "case insertSingleLine (Some q) dropped_copy 0x1000 (Some []) (CacheBlockInfo SHARED_CACHE (NOT 0) INVALID 0) True of
     Inr (ev, _, _, _, c) \<Rightarrow> \<not> ev \<and> c = refilled_copy | _ \<Rightarrow> False"
    by code_simp
  then show ?thesis by (auto split: sum.splits prod.splits)
qed


definition exclusive_hier :: hier where
  "exclusive_hier = hier_of (\<lambda>m. if m = 0 then example_shared else if m = 1 then dropped_copy else example_excl)"

lemma shmem_three: "processShmemReqFromPrevCache 3 g = processShmemReqFromPrevCache (Suc (Suc (Suc 0))) g"
  by (simp add: numeral_3_eq_3)

lemma three_levels_flags [simp]: "hc_cache_only three_levels = False" "hc_get_owner three_levels = None" "hc_uninit three_levels = []"
  "cc_next (hc_cntlrs three_levels i) = (if i < 2 then Some 2 else if i = 2 then Some 3 else None)"
  "\<not> cc_perfect (hc_cntlrs three_levels i)" "\<not> cc_passthrough (hc_cntlrs three_levels i)"
  "isInfinite (cc_next_level_read_bandwidth (hc_cntlrs three_levels i))" "cc_cache_block_size (hc_cntlrs three_levels i) = 64"
  by (simp_all add: three_levels_def level_cfg_def isInfinite_def)

lemma master_of_flags [simp]: "m_prefetcher (master_of c) = None" "m_dram_cntlr (master_of c) = None"
  by (simp_all add: master_of_def)

text \<open>
  The snoop of the previous level before a write is guarded by a test for \<^verbatim>\<open>SHARED\<close>. A level that is not the last one
  and holds the line \<^verbatim>\<open>EXCLUSIVE\<close> drops its copy and passes the request on without invalidating the other caches of the
  previous level: in a hierarchy whose second and third level hold the line exclusively the data cache writes, and the instruction cache keeps its copy.
\<close>

lemma write_to_exclusive_leaves_sibling_copy:
  "\<exists>x h'. processShmemReqFromPrevCache 3 three_levels 2 1 WRITE 0x1000 False False PF_NONE 0 exclusive_hier = Inr (x, h') \<and>
     x = L3_OWN \<and> holds (the_cache three_levels 2 h') MODIFIED \<and> holds (the_cache three_levels 0 h') SHARED"
proof -
  have sh: "holds example_shared SHARED" by (simp add: holds_def example_shared)
  have comp: "where_of_nat (cc_mem_component (hc_cntlrs three_levels 3)) = L3_OWN" by (simp add: three_levels_def level_cfg_def where_of_nat_def)
  obtain b where b: "peekSingleLine example_excl 0x1000 = Inr (Some b)" "m_cstate b = EXCLUSIVE" using holdsD [OF copies(1)] by blast
  obtain c where c: "peekSingleLine modified_copy 0x1000 = Inr (Some c)" "m_cstate c = MODIFIED" using holdsD [OF copies(2)] by blast
  obtain d where d: "peekSingleLine modified_again 0x1000 = Inr (Some d)" "m_cstate d = MODIFIED" using holdsD [OF copies(3)] by blast
  obtain ea e dt where ins: "\<And>q. insertSingleLine (Some q) dropped_copy 0x1000 (Some []) (CacheBlockInfo SHARED_CACHE (NOT 0) INVALID 0) True =
     Inr (False, ea q, e q, dt q, refilled_copy)" using refill by metis
  show ?thesis
    by (simp add: shmem_three sh comp shmem_lookup_def operationPermissibleinCache_def permissible_def readable_def writable_def
      invalidateCacheBlock_def shmem_last_level_def snoop_previous_def setCacheState_def updBlock_def
      after_hit_def retrieveCacheBlock_def copyDataFromNextLevel_def theNext_def insertCacheBlock_def annotate_line_def
      exclusive_hier_def b c d ins [simplified] copies copies_read hier_eval
      incrElapsed_def getElapsed_def setElapsed_def incrElapsedTime_def)
qed

section \<open>An upgrade reply for a line that was lost\<close>

lemma update_absent_fails:
  assumes "coherent g" "L (cc_master (hc_cntlrs g i)) (drop_bit w a) = None"
  shows "specS (seen w L ms) (updateCacheBlock n g i a s r True) (\<lambda>_ _. False)"
proof (cases n)
  case (Suc n')
  let ?f = "\<lambda>hit p. bindS (updateCacheBlock n' g p a s (if r = EVICT then BACK_INVAL else r) False) (\<lambda>(_, h, _). returnS (hit \<or> h))"
  have prevs: "specS (seen w L ms) (foldS ?f False (prevs g i))
      (\<lambda>_ h. \<exists>L'. settled s (drop_bit w a) (\<Union>p \<in> set (prevs g i). above n' g p) L L' \<and> seen w L' ms h)"
    by (rule fold_settled, rule specS_bind [OF updateCacheBlock_spec [OF assms(1)]]) (auto intro: specS_return split: prod.split)
  have here: "specS (seen w L1 ms) (update_here g i a s r True) (\<lambda>x h. x = (False, None) \<and> seen w L1 ms h)"
    if "settled s (drop_bit w a) S L L1" for S L1
  proof -
    have "L1 (cc_master (hc_cntlrs g i)) (drop_bit w a) = None" using that assms(2) unfolding settled_def by (metis option.distinct(1))
    then show ?thesis unfolding update_here_def
      by (intro specS_bind [OF block_spec] specS_prop) (simp add: specS_return)
  qed
  show ?thesis unfolding Suc updateCacheBlock.simps
  proof (rule specS_then_quiet [OF quiet_assert], rule specS_bind [OF prevs], rule specS_ex, rule specS_prop,
      rule specS_bind [OF here], assumption, rule specS_prop)
    fix L1 and x :: "bool \<times> UInt8 list option" and hit
    assume x: "x = (False, None)"
    show "specS (seen w L1 ms) (case x of (is_writeback, data) \<Rightarrow>
         bindS (getCacheState g i a) (\<lambda>cstate.
         thenS (assertS (cstate = INVALID \<or> cstate = s \<or> \<not> cc_coherent (hc_cntlrs g i)) (LOG_ASSERT_ERROR ''state didn't change as we wanted''))
        (thenS (assertS (True \<longrightarrow> data \<noteq> None) (LOG_ASSERT_ERROR ''out_buf passed in but never written to''))
           (returnS (if is_writeback then cl_getLatency (cc_writeback_time (hc_cntlrs g i)) else 0, hit \<or> is_writeback, data)))))
        (\<lambda>_ _. False)"
      unfolding x prod.case by (intro specS_bind_quiet [OF quiet_misc(4)], rule specS_then_quiet [OF quiet_assert]) (simp add: specS_def op_defs)
  qed
qed (simp add: specS_fail)

text \<open>
  C38: An upgrade reply for a line that was invalidated while the upgrade was on its way brings the data along, but the handler
  asks the caches for data instead of inserting it: it never succeeds.
\<close>

lemma upgrade_reply_for_lost_line_fails:
  assumes "coherent g" "caches_ok w h" "Lines h (cc_master (hc_cntlrs g i)) (drop_bit w (msg_address msg)) = None"
  shows "processUpgradeRepFromDramDirectory g i msg h \<noteq> Inr r"
proof
  assume run: "processUpgradeRepFromDramDirectory g i msg h = Inr r"
  let ?t = "drop_bit w (msg_address msg)" and ?m = "cc_master (hc_cntlrs g i)"
  have seen: "seen w (Lines h) (h_sent h) h" using assms(2) by (simp add: seen_def)
  have "specS (seen w (Lines h) (h_sent h)) (processUpgradeRepFromDramDirectory g i msg) (\<lambda>_ _. False)"
    unfolding processUpgradeRepFromDramDirectory_def Let_def
  proof (rule specS_bind [OF state_spec], rule specS_prop)
    fix cstate
    assume "cstate = state_of (Lines h ?m ?t)"
    then have c: "cstate = INVALID" using assms(3) by (simp add: state_of_def)
    show "specS (seen w (Lines h) (h_sent h)) (if cstate = INVALID
        then thenS (assertS (m_data_buf msg \<noteq> None) (LOG_ASSERT_ERROR ''Trying to upgrade a block that is now INV and no data in the shmem_msg''))
            (thenS (updateCacheBlock (hc_levels g) g i (msg_address msg) MODIFIED UPGRADE True) (returnS ()))
        else if cstate = SHARED_UPGRADING
        then thenS (updateCacheBlock (hc_levels g) g i (msg_address msg) MODIFIED UPGRADE False) (returnS ())
        else failS (LOG_PRINT_ERROR ''Trying to upgrade a block that is not SHARED_UPGRADING'')) (\<lambda>_ _. False)"
      unfolding if_P [OF c]
      by (rule specS_then_quiet [OF quiet_assert], rule specS_then [OF update_absent_fails [where L = "Lines h", OF assms(1,3)]]) (simp add: specS_def)
  qed
  from specSD [OF this, OF seen] show False using run by (cases r) blast
qed

definition upgrade_rep :: shmem_msg where
  "upgrade_rep = \<lparr>m_msg_type = UPGRADE_REP, m_sender_mem_component = TAG_DIR, m_receiver_mem_component = LAST_LEVEL_CACHE,
     m_requester = 0, msg_address = 0x1000, m_data_buf = Some [], m_where = UNKNOWN\<rparr>"

lemma upgrade_reply_for_lost_line_fails_witness:
  "\<exists>e. processUpgradeRepFromDramDirectory three_levels 3 upgrade_rep (hier_of (\<lambda>_. example_cache)) = Inl e"
  using upgrade_reply_for_lost_line_fails [OF coherent_three_levels caches_ok_cold, of 3 upgrade_rep]
  by (cases "processUpgradeRepFromDramDirectory three_levels 3 upgrade_rep (hier_of (\<lambda>_. example_cache))") (auto simp: Lines_def)

section \<open>The table of outstanding misses\<close>

lemma mshr_min_fold:
  fixes l :: "(IntPtr \<times> UInt64 \<times> UInt64) list"
  defines "f \<equiv> \<lambda>(a, t) (address :: IntPtr, u :: UInt64, t_complete :: UInt64). if t_complete < t then (address, t_complete) else (a, t)"
  shows "(foldl f (a0, t0) l = (a0, t0) \<or> (\<exists>u. (fst (foldl f (a0, t0) l), u, snd (foldl f (a0, t0) l)) \<in> set l)) \<and>
    (\<forall>(a, u, t) \<in> set l. snd (foldl f (a0, t0) l) \<le> t) \<and> snd (foldl f (a0, t0) l) \<le> t0"
proof (induction l arbitrary: a0 t0)
  case (Cons e l)
  obtain a u t where e: "e = (a, u, t)" by (cases e)
  show ?case
  proof (cases "t < t0")
    case True
    then have *: "f (a0, t0) (a, u, t) = (a, t)" by (simp add: f_def)
    show ?thesis using Cons [of a t] True unfolding e foldl.simps * by (auto intro: order_trans)
  next
    case False
    then have *: "f (a0, t0) (a, u, t) = (a0, t0)" by (simp add: f_def)
    show ?thesis using Cons [of a0 t0] False unfolding e foldl.simps * by (auto intro: order_trans)
  qed
qed simp

lemma mshr_min_least:
  assumes "distinct (map fst l)" "mshr_min l \<in> fst ` set l" "(a, u, t) \<in> set l" "(mshr_min l, u', t') \<in> set l"
  shows "t' \<le> t"
proof -
  define f where "f = (\<lambda>(a, t) (address :: IntPtr, u :: UInt64, t_complete :: UInt64). if t_complete < t then (address, t_complete) else (a, t))"
  let ?r = "foldl f (0, - 1 :: UInt64) l"
  have m: "mshr_min l = fst ?r" by (simp add: mshr_min_def f_def)
  note fold = mshr_min_fold [of 0 "- 1" l, folded f_def]
  have le: "snd ?r \<le> t" using fold assms(3) by auto
  show ?thesis
  proof (cases "?r = (0, - 1)")
    case True
    then show ?thesis using le by (simp add: word_order.extremum_unique)
  next
    case False
    then obtain v where "(mshr_min l, v, snd ?r) \<in> set l" using fold m by auto
    then have "t' = snd ?r" using eq_key_imp_eq_value [OF assms(1) _ assms(4)] by fastforce
    then show ?thesis using le by simp
  qed
qed

text \<open>
  The clean-up of the miss table ends with at most eight entries, all of them old ones, and it drops
  nothing while there are no more than eight; an entry it drops completed no later than any entry it keeps.
  It returns whenever no entry has the greatest representable completion time.
\<close>

theorem cleanupMshr_keeps_latest:
  assumes "distinct (map fst l)" "\<And>e. e \<in> set l \<Longrightarrow> snd (snd e) \<noteq> - 1"
  shows "\<exists>l'. cleanupMshr l = Inr l' \<and> length l' \<le> 8 \<and> set l' \<subseteq> set l \<and> (length l \<le> 8 \<longrightarrow> l' = l) \<and>
    (\<forall>e \<in> set l - set l'. \<forall>k \<in> set l'. snd (snd e) \<le> snd (snd k))"
  using assms
proof (induction l rule: cleanupMshr.induct)
  case (1 l)
  show ?case
  proof (cases "length l \<le> 8")
    case True
    then show ?thesis by (subst cleanupMshr.simps) auto
  next
    case False
    let ?l = "filter (\<lambda>e. fst e \<noteq> mshr_min l) l"
    have ne: "l \<noteq> []" using False by auto
    have mem: "mshr_min l \<in> fst ` set l"
    proof -
      define f where "f = (\<lambda>(a, t) (address :: IntPtr, u :: UInt64, t_complete :: UInt64). if t_complete < t then (address, t_complete) else (a, t))"
      let ?r = "foldl f (0, - 1 :: UInt64) l"
      note fold = mshr_min_fold [of 0 "- 1" l, folded f_def]
      obtain a u t where at: "(a, u, t) \<in> set l" using ne by (cases l) auto
      then have "snd ?r \<le> t" using fold by auto
      moreover have "t \<noteq> - 1" using 1(3) [OF at] by simp
      ultimately have "?r \<noteq> (0, - 1)" by (auto simp: word_order.extremum_unique)
      then show ?thesis using fold by (force simp: mshr_min_def f_def)
    qed
    have "distinct (map fst ?l)" using 1(2) by (simp add: distinct_map_filter)
    then obtain l' where l': "cleanupMshr ?l = Inr l'" "length l' \<le> 8" "set l' \<subseteq> set ?l"
      "\<forall>e \<in> set ?l - set l'. \<forall>k \<in> set l'. snd (snd e) \<le> snd (snd k)"
      using 1(1) False mem 1(3) by auto
    have "snd (snd e) \<le> snd (snd k)" if e: "e \<in> set l - set l'" and k: "k \<in> set l'" for e k
    proof (cases "fst e = mshr_min l")
      case True
      then show ?thesis
        using mshr_min_least [OF 1(2) mem, of "fst k" "fst (snd k)" "snd (snd k)" "fst (snd e)" "snd (snd e)"] e k l'(3) by (cases e; cases k) auto
    next
      case False
      then show ?thesis using l'(4) e k by auto
    qed
    then show ?thesis using l' False mem by (subst cleanupMshr.simps) auto
  qed
qed

theorem cleanupMshr_keeps_latest_witness:
  "\<exists>l'. cleanupMshr [(1, 0, 5), (2, 0, 3)] = Inr l' \<and> length l' \<le> 8 \<and> l' = [(1, 0, 5), (2, 0, 3)]"
  using cleanupMshr_keeps_latest [of "[(1, 0, 5), (2, 0, 3)]"] by force

lemma cleanupMshr_may_hang: "cleanupMshr (map (\<lambda>i. (of_nat i, 0, - 1)) [1..<10]) = Inl (NONTERMINATION ''cleanupMshr'')"
  by (subst cleanupMshr.simps) (simp add: upt_rec mshr_min_def)

end
