(* ===== verification/Cache_Invariant.thy ===== *)
theory Cache_Invariant
  imports Cache_Coherence
begin

text \<open>
  The invariant of a cache hierarchy: every cache is well formed and no line it holds is in state \<open>INVALID\<close>. An
  operation that maintains it whenever it succeeds is \<open>maintains\<close>; the rules follow the structure of the operations, so the
  entry points of the controllers keep it by composition.
\<close>

section \<open>Operations that keep the invariant\<close>

definition no_dead :: "lines_map \<Rightarrow> bool" where
  "no_dead L \<longleftrightarrow> (\<forall>m t b. L m t = Some b \<longrightarrow> m_cstate b \<noteq> INVALID)"

definition good :: "nat \<Rightarrow> hier \<Rightarrow> bool" where
  "good w h \<longleftrightarrow> caches_ok w h \<and> no_dead (Lines h)"

definition maintains :: "nat \<Rightarrow> 'a hop \<Rightarrow> bool" where
  "maintains w m \<longleftrightarrow> specS (good w) m (\<lambda>_. good w)"

named_theorems maintains_rules

lemma good_seen: "good w h \<longleftrightarrow> no_dead (Lines h) \<and> seen w (Lines h) (h_sent h) h"
  by (auto simp: good_def seen_def)

lemma seen_good: "no_dead L \<Longrightarrow> seen w L ms h \<Longrightarrow> good w h"
  by (auto simp: good_def seen_def)

lemma maintainsI: "(\<And>L ms. no_dead L \<Longrightarrow> specS (seen w L ms) m (\<lambda>_. good w)) \<Longrightarrow> maintains w m"
  unfolding maintains_def specS_def good_seen by blast

lemma maintains_seen: "maintains w m \<Longrightarrow> no_dead L \<Longrightarrow> specS (seen w L ms) m (\<lambda>_. good w)"
  unfolding maintains_def by (erule specS_pre) (rule seen_good)

lemma maintains_quiet: "quiet w m \<Longrightarrow> maintains w m"
  by (rule maintainsI, rule specS_post [OF quietD], assumption) (rule seen_good)

lemma maintains_bind [maintains_rules]: "maintains w m \<Longrightarrow> (\<And>x. maintains w (f x)) \<Longrightarrow> maintains w (bindS m f)"
  unfolding maintains_def by (rule specS_bind)

lemma maintains_then [maintains_rules]: "maintains w m \<Longrightarrow> maintains w k \<Longrightarrow> maintains w (thenS m k)"
  unfolding maintains_def by (rule specS_then)

lemma maintains_if [maintains_rules]: "(b \<Longrightarrow> maintains w m) \<Longrightarrow> (\<not> b \<Longrightarrow> maintains w k) \<Longrightarrow> maintains w (if b then m else k)"
  by simp

lemma maintains_when [maintains_rules]: "maintains w m \<Longrightarrow> maintains w (whenS b m)"
  unfolding maintains_def by (auto intro: specS_when)

lemma maintains_option [maintains_rules]: "maintains w m \<Longrightarrow> (\<And>x. maintains w (f x)) \<Longrightarrow> maintains w (case x of None \<Rightarrow> m | Some x \<Rightarrow> f x)"
  by (simp split: option.split)

lemma maintains_prod [maintains_rules]: "(\<And>x y. maintains w (f x y)) \<Longrightarrow> maintains w (case p of (x, y) \<Rightarrow> f x y)"
  by (simp split: prod.split)

lemma maintains_fold [maintains_rules]: "(\<And>b x. maintains w (f b x)) \<Longrightarrow> maintains w (foldS f b xs)"
  unfolding maintains_def by (rule specS_fold)

lemma maintains_basic [maintains_rules]: "maintains w (returnS x)" "maintains w (failS e)" "maintains w (getS f)" "maintains w (assertS b e)" "maintains w (liftS l)"
  by (intro maintains_quiet quiet_rules)+

lemma maintains_modify:
  "(\<And>h m. m_cache (h_masters (f h) m) = m_cache (h_masters h m)) \<Longrightarrow> maintains w (modifyS f)"
  unfolding maintains_def good_def caches_ok_def Lines_def by (auto intro!: specS_modify simp: no_dead_def)

lemma maintains_quiets [maintains_rules]:
  "maintains w (addStat i x n)" "maintains w (getElapsed g i th)" "maintains w (setElapsed g i th t)" "maintains w (incrElapsed g i l th)"
  "maintains w (incrElapsed_access g i y th)" "maintains w (theNext g i)" "maintains w (home_of g a)" "maintains w (getCacheBlockInfo g i a)"
  "maintains w (getCacheState g i a)" "maintains w (operationPermissibleinCache g i a op)" "maintains w (retrieveCacheBlock g i a repl)"
  "maintains w (writeCacheBlock k g i a off data len)" "maintains w (count_update i b s r)" "maintains w (accessDRAM g i op a buf)"
  by (intro maintains_quiet quiet_rules)+

lemma maintains_master: "(\<And>m. m_cache (f m) = m_cache m) \<Longrightarrow> maintains w (updMaster g i f)"
  by (intro maintains_quiet quiet_master)

lemma maintains_sendMsg [maintains_rules]: "maintains w (cc_sendMsg g i ty r1 r2 a data th)"
  unfolding cc_sendMsg_def by (intro maintains_rules maintains_modify) simp

section \<open>Changes of lines\<close>

lemma no_dead_set: "no_dead L \<Longrightarrow> m_cstate b \<noteq> INVALID \<Longrightarrow> no_dead (L(m := (L m)(t \<mapsto> b)))"
  by (auto simp: no_dead_def)

lemma no_dead_gone: "no_dead L \<Longrightarrow> no_dead (L(m := (L m)(t := None)))"
  by (auto simp: no_dead_def)

lemma maintains_setCacheState [maintains_rules]: "s \<noteq> INVALID \<Longrightarrow> maintains w (setCacheState g i a s)"
  by (rule maintainsI, rule specS_post [OF setCacheState_spec]) (auto intro!: seen_good [OF no_dead_set])

lemma maintains_updBlock:
  assumes "\<And>b. m_tag (f b) = m_tag b" "\<And>b. m_cstate (f b) = m_cstate b"
  shows "maintains w (updBlock g i a f)"
proof (rule maintainsI, rule specS_post [OF updBlock_spec [OF assms(1)]])
  fix L ms h
  assume no_dead: "no_dead L" and "\<exists>b. L (MST g i) (drop_bit w a) = Some b \<and> seen w (L(MST g i := (L (MST g i))(drop_bit w a \<mapsto> f b))) ms h"
  then obtain b where b: "L (MST g i) (drop_bit w a) = Some b" "seen w (L(MST g i := (L (MST g i))(drop_bit w a \<mapsto> f b))) ms h" by blast
  then have "m_cstate (f b) \<noteq> INVALID" using no_dead assms(2) by (auto simp: no_dead_def)
  then show "good w h" using b(2) no_dead by (blast intro: seen_good no_dead_set)
qed

lemma maintains_invalidate [maintains_rules]: "maintains w (invalidateCacheBlock g i a)"
  by (rule maintainsI, rule specS_post [OF invalidateCacheBlock_spec]) (blast intro: seen_good no_dead_gone)

lemma maintains_drop [maintains_rules]: "maintains w (updBlock g i a invalidate)"
proof (rule maintainsI)
  fix L ms
  assume no_dead: "no_dead L"
  have eq: "updBlock g i a invalidate = bindS (liftS (\<lambda>h. updLine (the_cache g i h) a invalidate)) (\<lambda>c. thenS (setCache g i c) (returnS ()))"
    by (auto simp: updBlock_def thenS_def bindS_def returnS_def fun_eq_iff bindE_def split: sum.split)
  have "specS (seen w L ms) (updBlock g i a invalidate) (\<lambda>_. seen w (L(MST g i := (L (MST g i))(drop_bit w a := None))) ms)"
    unfolding eq
  proof (rule lift_setCache)
    fix c r
    assume "cache_inv c" "m_log_blocksize (base c) = w" "lines c = L (MST g i)" "updLine c a invalidate = Inr r"
    then show "cache_inv r \<and> m_log_blocksize (base r) = w \<and> lines r = (L (MST g i))(drop_bit w a := None)"
      using cache_store.drop_view [of c a r] by auto
  qed (rule specS_return, simp only:)
  then show "specS (seen w L ms) (updBlock g i a invalidate) (\<lambda>_. good w)"
    by (rule specS_post) (use no_dead in \<open>blast intro: seen_good no_dead_gone\<close>)
qed

lemma maintains_update_here [maintains_rules]: "maintains w (update_here g i a s r want)"
  unfolding update_here_def write_back_def change_state_def by (intro maintains_rules) auto

lemma maintains_update [maintains_rules]: "maintains w (updateCacheBlock n g i a s r want)"
proof (induction n arbitrary: i r want)
  case (Suc n)
  show ?case unfolding updateCacheBlock.simps by (intro maintains_rules Suc)
qed (simp add: maintains_rules)

lemma maintains_snoop [maintains_rules]: "maintains w (snoop_previous g i requester a s r)"
  unfolding snoop_previous_def split_beta by (intro maintains_rules)

lemma maintains_evict [maintains_rules]: "maintains w (evict_line g i a evicted data th)"
  unfolding evict_line_def evict_previous_def dispose_def Let_def by (intro maintains_rules maintains_master) auto


section \<open>Insertions\<close>

text \<open>An insertion puts a line into the cache before it sets its state; in between one line may be dead.\<close>

definition one_dead :: "nat \<Rightarrow> IntPtr \<Rightarrow> lines_map \<Rightarrow> bool" where
  "one_dead m t L \<longleftrightarrow> (\<forall>k x b. L k x = Some b \<longrightarrow> m_cstate b \<noteq> INVALID \<or> (k, x) = (m, t))"

lemma maintains_annotate [maintains_rules]: "maintains w (annotate_line g i a requester)"
  unfolding annotate_line_def by (intro maintains_rules maintains_updBlock) (simp_all add: setOption_def)

lemma maintains_insert:
  assumes "s \<noteq> INVALID"
  shows "maintains w (insertCacheBlock g i a s data requester th)"
proof (rule maintainsI)
  fix L ms
  assume no_dead: "no_dead L"
  let ?m = "MST g i" and ?t = "drop_bit w a"
  let ?ins = "\<lambda>h c. insertSingleLine (Some (isInLowerLevelCache g i h)) c a data (CacheBlockInfo SHARED_CACHE (NOT 0) INVALID 0) True"
  let ?k = "\<lambda>(ev, ea, evicted, edata, c) qbs0. thenS (repeatS (env_qbs (m_set_info c) - qbs0) (qbsLookupCost g i))
      (thenS (setCacheState g i a s) (thenS (annotate_line g i a requester) (whenS ev (evict_line g i ea evicted edata th))))"
  have rest: "specS (seen w L1 ms) (?k r qbs0) (\<lambda>_. good w)" if L1: "one_dead ?m ?t L1" for r qbs0 L1
  proof -
    obtain ev ea evicted edata c where r: "r = (ev, ea, evicted, edata, c)" by (cases r)
    have "maintains w (thenS (annotate_line g i a requester) (whenS ev (evict_line g i ea evicted edata th)))" by (intro maintains_rules)
    then have tail: "specS (good w) (thenS (annotate_line g i a requester) (whenS ev (evict_line g i ea evicted edata th))) (\<lambda>_. good w)"
      by (simp add: maintains_def)
    have "no_dead (L1(?m := (L1 ?m)(?t \<mapsto> b\<lparr>m_cstate := s\<rparr>)))" for b
      using L1 assms by (auto simp: no_dead_def one_dead_def)
    then have set: "specS (seen w L1 ms) (setCacheState g i a s) (\<lambda>_. good w)"
      by (intro specS_post [OF setCacheState_spec]) (blast intro: seen_good)
    show ?thesis unfolding r prod.case
      by (rule specS_then_quiet [OF quiet_repeat [OF quiet_qbs]], rule specS_then [OF set tail])
  qed
  have ins: "specS (seen w L ms) (bindS (liftS (\<lambda>h. ?ins h (the_cache g i h)))
      (\<lambda>r. thenS (setCache g i (snd (snd (snd (snd r))))) (?k r qbs0))) (\<lambda>_. good w)" if none: "L ?m ?t = None" for qbs0
  proof (rule lift_setCache)
    fix c h and r :: "bool \<times> IntPtr \<times> cache_block_info \<times> UInt8 list option \<times> cache"
    assume c: "cache_inv c" "m_log_blocksize (base c) = w" "lines c = L ?m" "?ins h c = Inr r"
    obtain ev ea evicted edata c' where r: "r = (ev, ea, evicted, edata, c')" by (cases r)
    show "cache_inv (snd (snd (snd (snd r)))) \<and> m_log_blocksize (base (snd (snd (snd (snd r))))) = w \<and>
        one_dead ?m ?t (L(?m := lines (snd (snd (snd (snd r))))))"
      using cache_store.ins_view [OF c(1) _ c(4) [unfolded r]] c none no_dead unfolding r by (auto simp: no_dead_def one_dead_def split: if_splits)
  qed (rule rest)
  have eq: "(\<lambda>(ev, ea, evicted, edata, c). thenS (setCache g i c) (thenS (repeatS (env_qbs (m_set_info c) - qbs0) (qbsLookupCost g i))
      (thenS (setCacheState g i a s) (thenS (annotate_line g i a requester) (whenS ev (evict_line g i ea evicted edata th)))))) =
      (\<lambda>r. thenS (setCache g i (snd (snd (snd (snd r))))) (?k r qbs0))" for qbs0 by (auto simp: fun_eq_iff)
  have none: "L ?m ?t = None" if "state_of (L ?m ?t) = INVALID"
    using no_dead that by (cases "L ?m ?t") (auto simp: state_of_def no_dead_def)
  show "specS (seen w L ms) (insertCacheBlock g i a s data requester th) (\<lambda>_. good w)" unfolding insertCacheBlock_def eq
    by (rule specS_bind [OF state_spec], rule specS_prop, rule specS_then [OF specS_assert [where Q = "\<lambda>_ h. state_of (L ?m ?t) = INVALID \<and> seen w L ms h"]],
        simp, rule specS_prop, rule specS_bind_quiet [OF quiet_get], rule ins, erule none)
qed

lemma permissible_not_invalid: "permissible s op \<Longrightarrow> s \<noteq> INVALID"
  by (cases op) (auto simp: permissible_def readable_def writable_def)


section \<open>The flows through the hierarchy\<close>

lemma lines_counters [simp]: "lines (updateCounters c hit) = lines c"
  by (simp add: lines_def updateCounters_def Let_def fun_eq_iff)

lemma maintains_count [maintains_rules]: "maintains w (countCache g i hit)"
  unfolding countCache_def updMaster_def maintains_def
  by (rule specS_modify) (auto simp: good_def caches_ok_def Lines_def the_master_def no_dead_def split: if_splits)

lemma maintains_mshr [maintains_rules]: "maintains w (setMshr g i a t1 t2)" "maintains w (cleanMshr g i)"
  unfolding setMshr_def cleanMshr_def by (intro maintains_rules maintains_master; simp)+

lemma maintains_counters [maintains_rules]: "maintains w (cc_updateCounters g i op a hit s pf)" "maintains w (loggingLevel g i op)"
    "maintains w (updateUncoreStatistics i x)"
  unfolding cc_updateCounters_def loggingLevel_def updateUncoreStatistics_def by (intro maintains_rules maintains_modify; simp)+

lemma maintains_hits [maintains_rules]: "maintains w (cc_updateHits n g i op)"
proof (induction n)
  case (Suc n)
  show ?case unfolding cc_updateHits.simps by (intro maintains_rules Suc)
qed (simp add: maintains_rules)

lemma maintains_copy [maintains_rules]: "maintains w (copyDataFromNextLevel g i op a modeled t_now)"
  unfolding copyDataFromNextLevel_def operationPermissibleinCache_def
proof (intro maintains_bind [OF maintains_quiets(6)] maintainsI)
  fix j L ms
  assume no_dead: "no_dead L"
  let ?s = "state_of (L (MST g j) (drop_bit w a))"
  have step: "specS (seen w L ms) (thenS (assertS (permissible ?s op) e) m) Q" if "permissible ?s op \<Longrightarrow> specS (seen w L ms) m Q" for e m Q
    using that unfolding specS_def by (auto simp: op_defs elim!: bindE_eq_InrE split: if_splits)
  show "specS (seen w L ms)
     (bindS (bindS (getCacheState g j a) (\<lambda>cstate. returnS (permissible cstate op))) (\<lambda>ok.
     thenS (assertS ok (LOG_ASSERT_ERROR ''Tried to read from next-level cache, but data is already gone''))
    (bindS (retrieveCacheBlock g j a False) (\<lambda>data.
     bindS (getCacheState g j a) (\<lambda>cstate.
     thenS
       (whenS (modeled \<and> \<not> isInfinite (cc_next_level_read_bandwidth (CFG g i)))
         (bindS (liftS (\<lambda>_. bwpc_getRoundedLatency (cc_next_level_read_bandwidth (CFG g i)) (ucast (cc_cache_block_size (CFG g i) * 8)))) (\<lambda>delay.
          bindS (getS (\<lambda>h. getCompletionTime t_now delay 0 (m_next_level_read (the_master g i h)))) (\<lambda>(t_done, q).
          thenS (updMaster g i (m_next_level_read_update (\<lambda>_. q)))
         (thenS (assertS (t_done \<ge> t_now + delay) (LOG_ASSERT_ERROR ''Did not expect next-level cache to be this fast''))
            (incrElapsed g i (t_done - t_now - delay) USER_THREAD))))))
    (bindS (getCacheBlockInfo g i a) (\<lambda>block.
       if block \<noteq> None
       then thenS (updateCacheBlock (hc_levels g) g i a cstate UPGRADE False) (returnS ())
       else insertCacheBlock g i a cstate (Some data) (cc_core_id (CFG g i)) USER_THREAD)))))))
     (\<lambda>_. good w)"
    apply (rule specS_bind [OF specS_bind [OF state_spec specS_return [where Q = "\<lambda>ok h. ok = permissible ?s op \<and> seen w L ms h"]]], blast)
    apply (rule specS_prop, simp only:, rule step, rule specS_bind_quiet [OF quiet_retrieve], rule specS_bind [OF state_spec], rule specS_prop)
    apply (rule maintains_seen [OF _ no_dead])
    apply (intro maintains_rules maintains_master maintains_insert)
     apply (simp_all add: permissible_not_invalid)
    done
qed

lemma maintains_prefetch_list [maintains_rules]: "maintains w (trainPrefetcher g i a hit pf own t)" "maintains w (next_prefetch as g i)"
proof -
  show "maintains w (trainPrefetcher g i a hit pf own t)"
    unfolding trainPrefetcher_def Let_def by (intro maintains_rules maintains_master) auto
  show "maintains w (next_prefetch as g i)"
  proof (induction as)
    case (Cons x as)
    show ?case unfolding next_prefetch.simps by (intro maintains_rules maintains_master Cons) simp
  qed (simp add: maintains_rules)
qed

lemma maintains_options [maintains_rules]:
  "maintains w (updBlock g i a (\<lambda>b. setOption b opt))" "maintains w (updBlock g i a (\<lambda>b. clearOption b opt))"
  by (rule maintains_updBlock; simp add: setOption_def clearOption_def)+

lemma maintains_pieces [maintains_rules]:
  "maintains w (perfect_line g i op a present)" "maintains w (option_hit g i a opt x en)" "maintains w (shmem_hit g i r op a modeled pf)"
  unfolding perfect_line_def option_hit_def shmem_hit_def by (intro maintains_rules maintains_insert; simp)+

lemma maintains_fill [maintains_rules]: "maintains w (fill_from_dram g i op a pf)"
  unfolding fill_from_dram_def by (intro maintains_rules maintains_insert) simp_all

lemma maintains_directory [maintains_rules]:
  "maintains w (processUpgradeReqToDirectory g i a th)" "maintains w (processExReqToDirectory g i a)" "maintains w (processShReqToDirectory g i a)"
  "maintains w (initiateDirectoryAccess g i op a pf t)"
proof -
  show u: "maintains w (processUpgradeReqToDirectory g i a th)" for th
    unfolding processUpgradeReqToDirectory_def by (intro maintains_rules) simp
  show "maintains w (processExReqToDirectory g i a)" "maintains w (processShReqToDirectory g i a)" "maintains w (initiateDirectoryAccess g i op a pf t)"
    unfolding initiateDirectoryAccess_def processExReqToDirectory_def processShReqToDirectory_def Let_def
    by (intro maintains_rules maintains_master u; simp)+
qed

lemma maintains_last_level [maintains_rules]: "maintains w (shmem_last_level g i r op a block pf t)" "maintains w (shmem_lookup g i op a cnt pf)"
  "maintains w (after_hit g i a first modeled cnt t)"
  unfolding shmem_last_level_def shmem_lookup_def after_hit_def by (intro maintains_rules; simp)+

lemma maintains_shmem [maintains_rules]: "maintains w (processShmemReqFromPrevCache n g i r op a modeled cnt pf t)"
proof (induction n arbitrary: i r pf)
  case (Suc n)
  show ?case unfolding processShmemReqFromPrevCache.simps by (intro maintains_rules Suc)
qed (simp add: maintains_rules)


lemma maintains_pending [maintains_rules]: "maintains w (setPending g i p)"
  unfolding setPending_def by (rule maintains_modify) simp

lemma maintains_Prefetch [maintains_rules]: "maintains w (Prefetch n g i t)"
proof (induction n arbitrary: i)
  case (Suc n)
  show ?case unfolding Prefetch.simps by (intro maintains_rules maintains_master Suc) simp
qed (simp add: maintains_rules)

lemma maintains_resumePrefetch [maintains_rules]: "maintains w (resumePrefetch g i a t1 t2 t3)"
  unfolding resumePrefetch_def by (intro maintains_rules maintains_master) simp

lemma updateUsage_same:
  "m_tag (snd (updateUsage_mask b u)) = m_tag b" "m_cstate (snd (updateUsage_mask b u)) = m_cstate b"
  "updateUsage b off len = Inr (n, b1) \<Longrightarrow> m_tag b1 = m_tag b \<and> m_cstate b1 = m_cstate b"
  by (auto simp: updateUsage_mask_def updateUsage_def Let_def split: if_splits)

lemma maintains_usageBits [maintains_rules]: "maintains w (updateUsageBits n g i a used)"
proof (induction n arbitrary: i)
  case (Suc n)
  show ?case unfolding updateUsageBits.simps by (intro maintains_rules maintains_updBlock Suc) (simp_all add: updateUsage_same)
qed (simp add: maintains_rules)

text \<open>A line replaced by a new version of itself.\<close>

lemma updLine_same:
  assumes "peekSingleLine c a = Inr (Some b)" "f b = f' b"
  shows "updLine c a f = updLine c a f'"
  using assms by (auto simp: updLine_def peekSingleLine_def split: option.split)

lemma replace_spec:
  assumes "no_dead L" "L (MST g i) (drop_bit w a) = Some b" "m_tag b1 = m_tag b" "m_cstate b1 = m_cstate b"
  shows "specS (\<lambda>h. peekSingleLine (the_cache g i h) a = Inr (Some b) \<and> seen w L ms h) (updBlock g i a (\<lambda>_. b1)) (\<lambda>_. good w)"
proof (rule specSI)
  let ?f = "\<lambda>x. if x = b then b1 else x"
  fix h x h'
  assume h: "peekSingleLine (the_cache g i h) a = Inr (Some b) \<and> seen w L ms h" and run: "updBlock g i a (\<lambda>_. b1) h = Inr (x, h')"
  have "updBlock g i a ?f h = Inr (x, h')"
    using run updLine_same [of "the_cache g i h" a b "\<lambda>_. b1" ?f] h by (simp add: updBlock_def liftS_def bindS_def)
  moreover have "maintains w (updBlock g i a ?f)" by (rule maintains_updBlock) (use assms in auto)
  ultimately show "good w h'" using maintains_seen [OF _ assms(1)] specSD h by fastforce
qed

lemma maintains_memop_usage [maintains_rules]: "maintains w (memop_usage g mo)"
proof (cases "cc_next (CFG g (mo_cntlr mo))")
  case (Some j)
  let ?i = "mo_cntlr mo" and ?a = "mo_ca_address mo"
  have "maintains w (bindS (getCacheBlockInfo g ?i ?a) (\<lambda>block.
               case block of
                 None \<Rightarrow> failS (UNDEFINED ''cache_block_info is NULL'')
               | Some b \<Rightarrow>
                   bindS (liftS (\<lambda>_. updateUsage b (mo_offset mo) (mo_data_length mo))) (\<lambda>(new_bits, b1).
                   thenS (updBlock g ?i ?a (\<lambda>_. b1)) (whenS new_bits (updateUsageBits (hc_levels g) g j ?a (m_used b1))))))"
    (is "maintains w (bindS ?peek ?k)")
  proof (rule maintainsI)
    fix L ms
    assume no_dead: "no_dead L"
    show "specS (seen w L ms) (bindS ?peek ?k) (\<lambda>_. good w)"
    proof (rule specSI)
      fix h x h'
      assume seen: "seen w L ms h" and run: "bindS ?peek ?k h = Inr (x, h')"
      obtain b new_bits b1 h1 where b: "peekSingleLine (the_cache g ?i h) ?a = Inr (Some b)"
        and u: "updateUsage b (mo_offset mo) (mo_data_length mo) = Inr (new_bits, b1)"
        and upd: "updBlock g ?i ?a (\<lambda>_. b1) h = Inr ((), h1)"
        and rest: "whenS new_bits (updateUsageBits (hc_levels g) g j ?a (m_used b1)) h1 = Inr (x, h')"
        using run by (auto simp: bindS_def thenS_def liftS_def getCacheBlockInfo_def failS_def split: option.splits elim!: bindE_eq_InrE)
      have line: "L (MST g ?i) (drop_bit w ?a) = Some b" using specSD [OF block_spec seen] b by (fastforce simp: getCacheBlockInfo_def liftS_def)
      have "good w h1" using specSD [OF replace_spec [OF no_dead line] _ upd] updateUsage_same(3) [OF u] b seen by blast
      moreover have "maintains w (whenS new_bits (updateUsageBits (hc_levels g) g j ?a (m_used b1)))" by (intro maintains_rules)
      ultimately show "good w h'" using rest by (auto simp: maintains_def specS_def)
    qed
  qed
  then show ?thesis unfolding memop_usage_def Let_def Some option.case by (rule maintains_when)
qed (simp add: memop_usage_def maintains_rules)

lemma maintains_accessCache [maintains_rules]: "maintains w (accessCache g i op a off data len repl)"
  unfolding accessCache_def by (intro maintains_quiet quiet_accessing quiet_rules)

lemma maintains_memop [maintains_rules]:
  "maintains w (memop_finish g mo hit pf x)" "maintains w (memop_hit g mo)" "maintains w (memop_fill g mo x)" "maintains w (memop_miss g mo)"
proof -
  show f: "maintains w (memop_finish g mo hit pf x)" for mo hit pf x
    unfolding memop_finish_def Let_def by (intro maintains_rules maintains_modify) simp
  show "maintains w (memop_hit g mo)" unfolding memop_hit_def Let_def by (intro maintains_rules f)
  show fill: "maintains w (memop_fill g mo x)" for mo x unfolding memop_fill_def Let_def by (intro maintains_rules maintains_master f) simp
  show "maintains w (memop_miss g mo)" unfolding memop_miss_def Let_def by (intro maintains_rules fill)
qed

lemma maintains_core [maintains_rules]:
  "maintains w (resumeMemOp g mo)" "maintains w (processMemOpFromCore g i ls op a off data len modeled cnt)" "maintains w (resumeUserThread g i)"
proof -
  show r: "maintains w (resumeMemOp g mo)" for mo unfolding resumeMemOp_def by (intro maintains_rules)
  show "maintains w (processMemOpFromCore g i ls op a off data len modeled cnt)"
    unfolding processMemOpFromCore_def Let_def by (intro maintains_rules)
  show "maintains w (resumeUserThread g i)" unfolding resumeUserThread_def
    by (intro maintains_rules) (auto split: pending.split intro: maintains_rules r)
qed

lemma maintains_waiters [maintains_rules]: "maintains w (waiter_loop n g i a x)"
proof (induction n)
  case (Suc n)
  show ?case unfolding waiter_loop.simps Let_def by (intro maintains_rules maintains_master Suc) simp
qed (auto intro: maintains_rules)

lemma maintains_message [maintains_rules]: "maintains w (handleMsgFromDramDirectory g i sender msg)"
proof -
  have "maintains w (processExRepFromDramDirectory g i r msg)" "maintains w (processShRepFromDramDirectory g i r msg)"
    "maintains w (processUpgradeRepFromDramDirectory g i msg)" "maintains w (processInvReqFromDramDirectory g i sender msg)"
    "maintains w (processFlushReqFromDramDirectory g i sender msg)" "maintains w (processWbReqFromDramDirectory g i sender msg)" for r
    unfolding processExRepFromDramDirectory_def processShRepFromDramDirectory_def processUpgradeRepFromDramDirectory_def
      processInvReqFromDramDirectory_def processFlushReqFromDramDirectory_def processWbReqFromDramDirectory_def Let_def
    by (intro maintains_rules maintains_insert; simp)+
  then show ?thesis unfolding handleMsgFromDramDirectory_def Let_def
    by (intro maintains_rules) (auto split: msg_t.split intro: maintains_rules)
qed

end
