(* ===== verification/Tlb.thy ===== *)
theory Tlb
  imports Cache
begin

unbundle bit_operations_syntax

text \<open>
  \<^verbatim>\<open>parametric_dram_directory_msi/tlb.{h,cc}\<close>: a translation buffer is a cache of 4 KB pages with LRU replacement
  and an optional next level, which serves as its victim cache. A buffer with the levels behind it is a list, the
  empty list being the \<^verbatim>\<open>NULL\<close> pointer; \<^verbatim>\<open>now\<close> is not used by the cache.

  A page can be in one level several times: a hit in the next level leaves the page there, and its later eviction
  from the first level inserts it once more. The invariant \<open>pages_ok\<close> therefore drops from \<open>cache_inv\<close> that tags are
  distinct, and the lemmas are about the set of pages a buffer holds.
\<close>

section \<open>Model\<close>

definition SIM_PAGE_SHIFT :: nat where
  "SIM_PAGE_SHIFT = 12"

definition SIM_PAGE_SIZE :: IntPtr where
  "SIM_PAGE_SIZE = push_bit SIM_PAGE_SHIFT 1"

record tlb =
  t_size :: UInt32
  t_associativity :: UInt32
  t_cache :: cache
  t_access :: UInt64
  t_miss :: UInt64
  t_totalAccess :: UInt64
  t_name :: string
  t_objectNameDebug :: string

definition TLB :: "string \<Rightarrow> bool \<Rightarrow> set_config \<Rightarrow> UInt32 \<Rightarrow> UInt32 \<Rightarrow> tlb result" where
  "TLB name fault_injection cfg num_entries associativity =
     bindE (assertE (associativity \<noteq> 0) (UNDEFINED ''num_entries / 0'')) (\<lambda>_.
     bindE (Cache (name @ ''_cache'') fault_injection cfg (num_entries div associativity) associativity (ucast SIM_PAGE_SIZE)
              ''lru'' PR_L1_CACHE HASH_MASK None None) (\<lambda>c.
     bindE (assertE ((num_entries div associativity) * associativity = num_entries)
              (LOG_ASSERT_ERROR ''Invalid TLB configuration'')) (\<lambda>_.
       Inr \<lparr>t_size = num_entries, t_associativity = associativity, t_cache = c, t_access = 0, t_miss = 0,
            t_totalAccess = 0, t_name = name, t_objectNameDebug = []\<rparr>)))"

fun tlb_allocate :: "tlb list \<Rightarrow> IntPtr \<Rightarrow> tlb list result" where
  "tlb_allocate [] address = Inr []"
| "tlb_allocate (t # next_level) address =
     bindE (insertSingleLine None (t_cache t) address None (CacheBlockInfo PR_L1_CACHE (NOT 0) INVALID 0) False)
       (\<lambda>(eviction, evict_addr, evict_block_info, evict_buff, c).
          bindE (if eviction then tlb_allocate next_level evict_addr else Inr next_level) (\<lambda>next_level'.
            Inr (t\<lparr>t_cache := c\<rparr> # next_level')))"

fun tlb_lookup :: "tlb list \<Rightarrow> IntPtr \<Rightarrow> bool \<Rightarrow> (bool \<times> tlb list) result" where
  "tlb_lookup [] address allocate_on_miss = Inr (False, [])"
| "tlb_lookup (t # next_level) address allocate_on_miss =
     bindE (accessSingleLine (t_cache t) address LOAD None 0 True) (\<lambda>(line, buff, c).
       let t1 = t\<lparr>t_cache := c, t_access := t_access t + 1\<rparr> in
       if line \<noteq> None then Inr (True, t1 # next_level)
       else
         let t2 = t1\<lparr>t_miss := t_miss t1 + 1\<rparr> in
         bindE (tlb_lookup next_level address False) (\<lambda>(hit, next_level').
         bindE (if allocate_on_miss then tlb_allocate (t2 # next_level') address else Inr (t2 # next_level')) (\<lambda>ts.
           Inr (hit, ts))))"

text \<open>
  \<^verbatim>\<open>addRequest\<close> counts the accesses of the component selected for tracing; the record it hands to the tracing
  helper is left out.
\<close>

definition tlb_setMemLevelDebug :: "tlb \<Rightarrow> string \<Rightarrow> tlb" where
  "tlb_setMemLevelDebug t objectNameDebug = t\<lparr>t_objectNameDebug := objectNameDebug\<rparr>"

definition tlb_addRequest :: "tlb \<Rightarrow> tlb" where
  "tlb_addRequest t =
     (if (t_objectNameDebug t \<noteq> [] \<and> t_objectNameDebug t = t_name t) \<or> t_objectNameDebug t = []
      then t\<lparr>t_totalAccess := t_totalAccess t + 1\<rparr> else t)"

section \<open>The pages of a buffer\<close>

definition page_of :: "IntPtr \<Rightarrow> IntPtr" where
  "page_of address = drop_bit SIM_PAGE_SHIFT address"

definition pages :: "tlb \<Rightarrow> IntPtr set" where
  "pages t = contents (t_cache t)"

definition pages_set_ok :: "cache_base \<Rightarrow> repl_env \<Rightarrow> nat \<Rightarrow> cache_set \<times> policy \<Rightarrow> bool" where
  "pages_set_ok b e i = (\<lambda>(s, p). set_wf s \<and> m_associativity s = unat (cb_associativity b) \<and> m_blocksize s = 4096 \<and>
     (\<exists>l. p = P_LRU l \<and> lru_num_attempts l = 1 \<and> lru_inv (m_associativity s) (l, e)) \<and>
     (\<forall>t \<in> cached s. splitAddress b (tagToAddress b t) = Inr (t, of_nat i)))"

definition pages_ok :: "cache \<Rightarrow> bool" where
  "pages_ok c \<longleftrightarrow> cb_wf (base c) \<and> m_hash (base c) = HASH_MASK \<and> m_ahl (base c) = None \<and>
     m_log_blocksize (base c) = SIM_PAGE_SHIFT \<and> cb_blocksize (base c) = 4096 \<and> m_cache_type c = PR_L1_CACHE \<and>
     m_fault_injector c = None \<and> length (m_sets c) = unat (m_num_sets (base c)) \<and>
     (\<forall>i<length (m_sets c). pages_set_ok (base c) (m_set_info c) i (m_sets c ! i))"

lemma find_line_present:
  assumes "set_wf s" "t \<noteq> - 1"
  shows "find_line s t \<noteq> None \<longleftrightarrow> t \<in> cached s" "find_line s t = Some i \<Longrightarrow> i < m_associativity s"
  using assms by (auto simp: find_line_def in_cached_iff find_Some_iff find_None_iff)
    (metis atLeastLessThan_iff diff_Suc_less length_rev length_upt minus_nat.diff_0 nth_mem rev_nth set_rev set_upt)

lemma pages_set_at:
  assumes "pages_ok c"
  obtains si s l where "splitAddress (base c) a = Inr (page_of a, si)" "page_of a \<noteq> - 1"
    "get_set c si = Inr (s, P_LRU l)" "unat si < length (m_sets c)" "m_sets c ! unat si = (s, P_LRU l)"
    "pages_set_ok (base c) (m_set_info c) (unat si) (s, P_LRU l)"
proof -
  obtain si where si: "set_index_of_block (base c) (block_num_of (base c) a) = Inr si"
    using assms by (simp add: pages_ok_def set_index_of_block_def)
  then have sp: "splitAddress (base c) a = Inr (page_of a, si)"
    using assms by (simp add: splitAddress_def pages_ok_def page_of_def)
  have "si < m_num_sets (base c)" using assms by (intro set_index_in_range [OF _ _ si]) (auto simp: pages_ok_def hash_safe_def)
  then have lt: "unat si < length (m_sets c)" using assms by (simp add: pages_ok_def word_less_nat_alt)
  moreover obtain s p where at: "m_sets c ! unat si = (s, p)" by fastforce
  moreover have ok: "pages_set_ok (base c) (m_set_info c) (unat si) (s, p)" using assms lt at by (auto simp: pages_ok_def)
  moreover then obtain l where "p = P_LRU l" by (auto simp: pages_set_ok_def)
  moreover have "page_of a \<noteq> - 1"
    using split_tag_valid [OF sp] assms by (simp add: pages_ok_def SIM_PAGE_SHIFT_def)
  ultimately show ?thesis using that sp by (simp add: get_set_def)
qed

lemma pages_own:
  assumes "pages_ok c" "i < length (m_sets c)" "t \<in> cached (fst (m_sets c ! i))"
    "splitAddress (base c) (tagToAddress (base c) t) = Inr (t, si)"
  shows "i = unat si"
proof -
  have "of_nat i = si" using assms by (auto simp: pages_ok_def pages_set_ok_def split_beta)
  moreover have "i < 2 ^ 32" using assms(1,2) unsigned_less [of "m_num_sets (base c)", where ?'a = nat] by (simp add: pages_ok_def)
  ultimately show ?thesis by (auto simp: unat_of_nat)
qed

lemma pages_set_ok_shape: "pages_set_ok b e i x \<Longrightarrow> env_shape e' = env_shape e \<Longrightarrow> pages_set_ok b e' i x"
  by (auto simp: pages_set_ok_def lru_inv_def env_ok_def env_shape_def)

lemma pages_put:
  assumes "pages_ok c" "unat si < length (m_sets c)" "m_sets c ! unat si = (s, p)"
    "env_shape e' = env_shape (m_set_info c)" "pages_set_ok (base c) e' (unat si) (s', p')"
  shows "pages_ok (put_set c si s' p' e')" "contents (put_set c si s' p' e') = (contents c - cached s) \<union> cached s'"
proof -
  have "pages_set_ok (base c) e' i (m_sets c ! i)" if "i < length (m_sets c)" for i
    using assms(1,4) that by (auto simp: pages_ok_def intro: pages_set_ok_shape)
  then show "pages_ok (put_set c si s' p' e')" using assms by (auto simp: pages_ok_def put_set_def nth_list_update)
  have home: "splitAddress (base c) (tagToAddress (base c) t) = Inr (t, si)" if "t \<in> cached s" for t
  proof -
    have "pages_set_ok (base c) (m_set_info c) (unat si) (s, p)" using assms(1-3) by (auto simp: pages_ok_def)
    then show ?thesis using that by (simp add: pages_set_ok_def)
  qed
  have disj: "i = unat si" if "i < length (m_sets c)" "t \<in> cached (fst (m_sets c ! i))" "t \<in> cached s" for i t
    using pages_own [OF assms(1) that(1,2) home [OF that(3)]] .
  have "t \<in> contents (put_set c si s' p' e') \<longleftrightarrow>
      t \<in> cached s' \<or> (\<exists>i<length (m_sets c). i \<noteq> unat si \<and> t \<in> cached (fst (m_sets c ! i)))" for t
    unfolding contents_iff put_set_def using assms(2) by (auto simp: nth_list_update split: if_splits) (metis+)
  moreover have "t \<in> contents c \<longleftrightarrow>
      t \<in> cached s \<or> (\<exists>i<length (m_sets c). i \<noteq> unat si \<and> t \<in> cached (fst (m_sets c ! i)))" for t
    unfolding contents_iff using assms(2,3) by (metis fst_conv)
  ultimately show "contents (put_set c si s' p' e') = (contents c - cached s) \<union> cached s'" using disj by blast
qed


lemma pages_own_set:
  assumes "pages_ok c" "splitAddress (base c) a = Inr (page_of a, si)" "m_sets c ! unat si = (s, p)" "unat si < length (m_sets c)"
  shows "page_of a \<in> contents c \<longleftrightarrow> page_of a \<in> cached s"
proof -
  have "splitAddress (base c) (tagToAddress (base c) (page_of a)) = Inr (page_of a, si)"
    using assms(1,2) by (intro splitAddress_of_tag) (auto simp: pages_ok_def cb_ahl_ok_def)
  then show ?thesis using pages_own [OF assms(1)] assms(3,4) by (metis contents_iff fst_conv)
qed

section \<open>One level\<close>

lemma lru_touch_returns:
  assumes "lru_inv n (l, e)" "i < n" "m_associativity s = n"
  obtains l' e' where "updateReplacementIndex s i (P_LRU l, e) = Inr (P_LRU l', e')" "lru_inv n (l', e')"
    "lru_num_attempts l' = lru_num_attempts l" "env_shape e' = env_shape e"
proof -
  have perm: "lru_perm n (m_lru_bits l)" and env: "env_ok n (lru_num_attempts l) e" using assms(1) by (auto simp: lru_inv_def)
  obtain e' where e': "si_increment (m_lru_bits l ! i) e = Inr e'"
    using si_increment_returns [OF env] lru_permD(3) [OF perm assms(2)] by blast
  then have "updateReplacementIndex s i (P_LRU l, e) =
      Inr (P_LRU (l\<lparr>m_lru_bits := moveToMRU n (m_lru_bits l) i\<rparr>), e')"
    by (simp add: updateReplacementIndex_def lru_updateReplacementIndex_def assms(3))
  moreover have "env_shape e' = env_shape e" using updateReplacementIndex_shape [OF calculation] .
  ultimately show ?thesis
    using that si_increment_Inr [OF e' env] assms(1,2) by (simp add: lru_inv_def lru_perm_moveToMRU)
qed

lemma lru_pick_returns:
  assumes "lru_inv (m_associativity s) (l, e)" "set_wf s" "lru_num_attempts l = 1"
  obtains i l' e' where "getReplacementIndex cntlr s (P_LRU l, e) = Inr (i, P_LRU l', e')" "i < m_associativity s"
    "lru_inv (m_associativity s) (l', e')" "lru_num_attempts l' = 1" "env_shape e' = env_shape e"
proof -
  have env: "env_ok (m_associativity s) 1 e" using assms by (simp add: lru_inv_def)
  obtain e1 where e1: "si_incrementAttempt 0 e = Inr e1" using si_incrementAttempt_returns [OF env] by blast
  have less: "lru_scan s (m_lru_bits l) < m_associativity s" using assms(2) by (intro lru_scan_less set_wf_pos)
  obtain i l' e' where r: "lru_getReplacementIndex cntlr s (l, e) = Inr (i, l', e')" "lru_num_attempts l' = 1"
    using e1 less assms(3)
    by (cases "first_invalid s") (simp_all add: lru_getReplacementIndex_def lru_attempt.simps qbs_query_def Let_def)
  then have pick: "getReplacementIndex cntlr s (P_LRU l, e) = Inr (i, P_LRU l', e')" by (simp add: getReplacementIndex_def)
  then show ?thesis
    using that [OF pick] lru.pick_inv [OF assms(2,1) r(1)] r(2) getReplacementIndex_shape [OF pick] by blast
qed

lemma put_set_no_injector:
  assumes "m_fault_injector c = None"
  shows "put_set (c\<lparr>m_fault_injector := None\<rparr>) si s p e = put_set c si s p e"
  using assms by (cases c) (simp add: put_set_def)

lemma tlb_access:
  assumes "pages_ok c"
  obtains line c' where "accessSingleLine c a LOAD None 0 True = Inr (line, None, c')"
    "pages_ok c'" "contents c' = contents c" "line \<noteq> None \<longleftrightarrow> page_of a \<in> contents c"
proof (rule pages_set_at [OF assms, of a])
  fix si s l
  assume sp: "splitAddress (base c) a = Inr (page_of a, si)" and t: "page_of a \<noteq> - 1"
    and g: "get_set c si = Inr (s, P_LRU l)" and lt: "unat si < length (m_sets c)" and at: "m_sets c ! unat si = (s, P_LRU l)"
    and ok: "pages_set_ok (base c) (m_set_info c) (unat si) (s, P_LRU l)"
  have wf: "set_wf s" and inv: "lru_inv (m_associativity s) (l, m_set_info c)" and bs: "m_blocksize s = 4096"
    using ok by (auto simp: pages_set_ok_def)
  have nofi: "m_fault_injector c = None" using assms by (simp add: pages_ok_def)
  note own = pages_own_set [OF assms sp at lt]
  show ?thesis
  proof (cases "find_line s (page_of a)")
    case None
    then show ?thesis using that [of None c] assms own find_line_present(1) [OF wf t]
      by (simp add: accessSingleLine_def splitAddress_offset_def sp g)
  next
    case (Some i)
    have i: "i < m_associativity s" using find_line_present(2) [OF wf t Some] .
    obtain l' e' where upd: "updateReplacementIndex s i (P_LRU l, m_set_info c) = Inr (P_LRU l', e')"
      and l': "lru_inv (m_associativity s) (l', e')" "lru_num_attempts l' = lru_num_attempts l" "env_shape e' = env_shape (m_set_info c)"
      using lru_touch_returns [OF inv i refl] by metis
    let ?off = "ucast (a AND ucast (cb_blocksize (base c) - 1)) :: UInt32"
    have "unat ?off \<le> 4096"
    proof -
      have "?off = ucast a AND 4095" using assms by (simp add: pages_ok_def unsigned_and_eq)
      also have "\<dots> \<le> 4095" by (rule word_and_le1)
      finally show ?thesis by (simp add: word_le_nat_alt)
    qed
    then have acc: "accessSingleLine c a LOAD None 0 True = Inr (Some i, None, put_set c si s (P_LRU l') e')"
      using Some bs by (simp add: accessSingleLine_def splitAddress_offset_def sp g inject_def nofi read_line_def upd
          put_set_no_injector [OF nofi] split: option.split)
    have "pages_set_ok (base c) e' (unat si) (s, P_LRU l')" using ok l' by (auto simp: pages_set_ok_def)
    note put = pages_put [OF assms lt at l'(3) this]
    have "contents (put_set c si s (P_LRU l') e') = contents c" using put(2) cached_subset_contents [OF at lt] by auto
    then show ?thesis using that [OF acc] put(1) own Some find_line_present(1) [OF wf t] by simp
  qed
qed


text \<open>An insertion overwrites one way of one set: a page is gone afterwards only if it was the victim.\<close>

lemma cached_overwrite:
  assumes "set_wf s" "i < m_associativity s" "isValid b"
    "m_cache_block_info_array s' = (m_cache_block_info_array s)[i := b]" "m_associativity s' = m_associativity s"
  shows "cached s' \<subseteq> insert (m_tag b) (cached s)" "m_tag b \<in> cached s'"
    "cached s - {m_tag (m_cache_block_info_array s ! i)} \<subseteq> cached s'" "set_wf s'"
proof -
  show wf': "set_wf s'" using assms by (simp add: set_wf_def)
  have len: "length (m_cache_block_info_array s) = m_associativity s" using assms(1) by (simp add: set_wf_def)
  show "cached s' \<subseteq> insert (m_tag b) (cached s)" "m_tag b \<in> cached s'"
    "cached s - {m_tag (m_cache_block_info_array s ! i)} \<subseteq> cached s'"
    using assms(2,3) len
    by (auto simp: in_cached_iff [OF wf'] in_cached_iff [OF assms(1)] assms(4,5) nth_list_update isValid_tag_NOT split: if_splits)
qed

lemma tlb_insert:
  assumes "pages_ok c"
  obtains ev ea info c' where
    "insertSingleLine None c a None (CacheBlockInfo PR_L1_CACHE (NOT 0) INVALID 0) False = Inr (ev, ea, info, None, c')"
    "pages_ok c'" "page_of a \<in> contents c'" "contents c' \<subseteq> insert (page_of a) (contents c)"
    "contents c - (if ev then {page_of ea} else {}) \<subseteq> contents c'" "ev \<Longrightarrow> page_of ea \<in> contents c"
proof (rule pages_set_at [OF assms, of a])
  fix si s l
  let ?eb = "CacheBlockInfo PR_L1_CACHE (NOT 0) INVALID 0"
  let ?b = "?eb\<lparr>m_tag := page_of a\<rparr>"
  assume sp: "splitAddress (base c) a = Inr (page_of a, si)" and t: "page_of a \<noteq> - 1"
    and g: "get_set c si = Inr (s, P_LRU l)" and lt: "unat si < length (m_sets c)" and at: "m_sets c ! unat si = (s, P_LRU l)"
    and ok: "pages_set_ok (base c) (m_set_info c) (unat si) (s, P_LRU l)"
  have wf: "set_wf s" and inv: "lru_inv (m_associativity s) (l, m_set_info c)" and att: "lru_num_attempts l = 1"
    using ok by (auto simp: pages_set_ok_def)
  have nofi: "m_fault_injector c = None" and ty: "create (m_cache_type c) = Inr ?eb"
    using assms by (simp_all add: pages_ok_def create_def)
  obtain i l' e' where pick: "getReplacementIndex None s (P_LRU l, m_set_info c) = Inr (i, P_LRU l', e')" and i: "i < m_associativity s"
    and l': "lru_inv (m_associativity s) (l', e')" "lru_num_attempts l' = 1" "env_shape e' = env_shape (m_set_info c)"
    using lru_pick_returns [OF inv wf att] by metis
  let ?old = "m_cache_block_info_array s ! i"
  let ?s = "s\<lparr>m_cache_block_info_array := (m_cache_block_info_array s)[i := clone ?old ?b]\<rparr>"
  let ?ev = "isValid ?old" and ?info = "if isValid ?old then clone ?eb ?old else ?eb"
  let ?c = "put_set c si ?s (P_LRU l') e'" and ?ea = "tagToAddress (base c) (m_tag ?info)"
  have ins: "insertSingleLine None c a None ?eb False = Inr (?ev, ?ea, ?info, None, ?c)"
    using i by (simp add: insertSingleLine_def sp ty g set_insert_def pick nofi put_set_no_injector [OF nofi] Let_def split: option.split)
  have new: "isValid (clone ?old ?b)" "m_tag (clone ?old ?b) = page_of a" using t by (simp_all add: isValid_tag_NOT)
  have cs: "cached ?s \<subseteq> insert (page_of a) (cached s)" "page_of a \<in> cached ?s" "cached s - {m_tag ?old} \<subseteq> cached ?s" "set_wf ?s"
    using cached_overwrite [OF wf i new(1), of ?s] new(2) by auto
  have "splitAddress (base c) (tagToAddress (base c) (page_of a)) = Inr (page_of a, si)"
    using assms sp by (intro splitAddress_of_tag) (auto simp: pages_ok_def cb_ahl_ok_def)
  then have "pages_set_ok (base c) e' (unat si) (?s, P_LRU l')"
    using ok cs(1,4) l' by (auto simp: pages_set_ok_def)
  note put = pages_put [OF assms lt at l'(3) this]
  have sub: "cached s \<subseteq> contents c" by (rule cached_subset_contents [OF at lt])
  have old: "?ev \<Longrightarrow> m_tag ?old \<in> cached s" "\<not> ?ev \<Longrightarrow> m_tag ?old = - 1" "- 1 \<notin> cached s"
    using i by (auto simp: in_cached_iff [OF wf] isValid_tag_NOT)
  have victim: "page_of ?ea = m_tag ?old" if ?ev
  proof -
    have "splitAddress (base c) (tagToAddress (base c) (m_tag ?old)) = Inr (m_tag ?old, si)"
      using ok old(1) [OF that] by (simp add: pages_set_ok_def)
    from split_tag [OF this] show ?thesis using that assms by (simp add: page_of_def pages_ok_def)
  qed
  show ?thesis
  proof (rule that [OF ins put(1)])
    show "page_of a \<in> contents ?c" "contents ?c \<subseteq> insert (page_of a) (contents c)" using put(2) cs sub by auto
    show "contents c - (if ?ev then {page_of ?ea} else {}) \<subseteq> contents ?c"
      unfolding put(2) using cs(3) old victim by auto
    show "page_of ?ea \<in> contents c" if ?ev using victim [OF that] old(1) [OF that] sub by auto
  qed
qed


section \<open>All levels\<close>

definition held :: "tlb list \<Rightarrow> IntPtr set" where
  "held ts = (\<Union>t \<in> set ts. pages t)"

definition levels_ok :: "tlb list \<Rightarrow> bool" where
  "levels_ok ts \<longleftrightarrow> (\<forall>t \<in> set ts. pages_ok (t_cache t))"

lemma held_simps [simp]: "held [] = {}" "held (t # ts) = pages t \<union> held ts"
  by (simp_all add: held_def)

lemma levels_ok_simps [simp]: "levels_ok []" "levels_ok (t # ts) \<longleftrightarrow> pages_ok (t_cache t) \<and> levels_ok ts"
  by (simp_all add: levels_ok_def)

lemma hd_held: "ts \<noteq> [] \<Longrightarrow> pages (hd ts) \<subseteq> held ts"
  by (cases ts) auto

text \<open>A page that leaves a level is in the next one afterwards.\<close>

definition kept_by_next :: "tlb list \<Rightarrow> tlb list \<Rightarrow> bool" where
  "kept_by_next ts ts' \<longleftrightarrow> (\<forall>k. Suc k < length ts \<longrightarrow> pages (ts ! k) - pages (ts' ! k) \<subseteq> pages (ts' ! Suc k))"

lemma kept_by_next_same: "length ts' = length ts \<Longrightarrow> map pages ts' = map pages ts \<Longrightarrow> kept_by_next ts ts'"
  unfolding kept_by_next_def by (metis Diff_cancel Suc_lessD empty_subsetI nth_map)

lemma kept_by_next_Cons:
  assumes "kept_by_next ts ts'" and "length ts' = length ts" and "ts \<noteq> [] \<Longrightarrow> pages t - pages t' \<subseteq> pages (hd ts')"
  shows "kept_by_next (t # ts) (t' # ts')"
  unfolding kept_by_next_def
proof (intro allI impI)
  fix k assume k: "Suc k < length (t # ts)"
  show "pages ((t # ts) ! k) - pages ((t' # ts') ! k) \<subseteq> pages ((t' # ts') ! Suc k)"
  proof (cases k)
    case 0
    have ne: "ts \<noteq> []" using k 0 by auto
    then have "ts' \<noteq> []" using assms(2) by auto
    with assms(3) [OF ne] show ?thesis by (simp add: 0 hd_conv_nth)
  next
    case (Suc j)
    with k assms(1) show ?thesis by (simp add: kept_by_next_def)
  qed
qed

lemma kept_by_next_same_map:
  assumes "map pages us = map pages ts" and "kept_by_next us ts'" shows "kept_by_next ts ts'"
proof -
  have "length us = length ts" using assms(1) by (rule map_eq_imp_length_eq)
  moreover have "pages (us ! k) = pages (ts ! k)" if "k < length ts" for k
    using arg_cong [OF assms(1), of "\<lambda>xs. xs ! k"] that calculation by simp
  ultimately show ?thesis using assms(2) by (simp add: kept_by_next_def)
qed

lemma tlb_allocate_spec:
  assumes "levels_ok ts"
  obtains ts' v where "tlb_allocate ts a = Inr ts'" "levels_ok ts'" "length ts' = length ts"
    "ts \<noteq> [] \<Longrightarrow> page_of a \<in> pages (hd ts')" "held ts - {v} \<subseteq> held ts'" "held ts' \<subseteq> insert (page_of a) (held ts)"
    "kept_by_next ts ts'"
  using assms
proof (induction ts arbitrary: a thesis)
  case Nil
  then show ?case by (simp add: kept_by_next_def)
next
  case (Cons t ts)
  from Cons.prems(2) have ok: "pages_ok (t_cache t)" "levels_ok ts" by auto
  show ?case
  proof (rule tlb_insert [OF ok(1), of a])
    fix ev ea info c'
    assume ins: "insertSingleLine None (t_cache t) a None (CacheBlockInfo PR_L1_CACHE (NOT 0) INVALID 0) False = Inr (ev, ea, info, None, c')"
      and c': "pages_ok c'" "page_of a \<in> contents c'" "contents c' \<subseteq> insert (page_of a) (contents (t_cache t))"
        "contents (t_cache t) - (if ev then {page_of ea} else {}) \<subseteq> contents c'" "ev \<Longrightarrow> page_of ea \<in> contents (t_cache t)"
    obtain ts' v where ts': "(if ev then tlb_allocate ts ea else Inr ts) = Inr ts'" "levels_ok ts'" "length ts' = length ts"
        "held ts' \<subseteq> insert (page_of ea) (held ts)" "\<not> ev \<Longrightarrow> ts' = ts"
        "held ts - {v} \<subseteq> held ts'" "ev \<Longrightarrow> page_of ea = v \<or> page_of ea \<in> held ts'"
        "kept_by_next ts ts'" "ev \<Longrightarrow> ts \<noteq> [] \<Longrightarrow> page_of ea \<in> pages (hd ts')"
    proof (cases ev)
      case True
      obtain us w where us: "tlb_allocate ts ea = Inr us" "levels_ok us" "length us = length ts" "ts \<noteq> [] \<Longrightarrow> page_of ea \<in> pages (hd us)"
          "held ts - {w} \<subseteq> held us" "held us \<subseteq> insert (page_of ea) (held ts)" "kept_by_next ts us"
        using Cons.IH [OF _ ok(2)] by metis
      show ?thesis
      proof (cases "ts = []")
        case True
        then show ?thesis using that [of us "page_of ea"] us \<open>ev\<close> by auto
      next
        case False
        then have "us \<noteq> []" using us(3) by auto
        then show ?thesis using that [of us w] us \<open>ev\<close> hd_held [of us] False by auto
      qed
    next
      case False
      show ?thesis by (rule that [of ts "page_of a"]) (use False ok(2) kept_by_next_same in auto)
    qed
    show ?case
    proof (rule Cons.prems(1) [of "t\<lparr>t_cache := c'\<rparr> # ts'" v])
      show "tlb_allocate (t # ts) a = Inr (t\<lparr>t_cache := c'\<rparr> # ts')" using ins ts'(1) by simp
      show "levels_ok (t\<lparr>t_cache := c'\<rparr> # ts')" "length (t\<lparr>t_cache := c'\<rparr> # ts') = length (t # ts)"
        "page_of a \<in> pages (hd (t\<lparr>t_cache := c'\<rparr> # ts'))" using c' ts' by (simp_all add: pages_def)
      show "held (t # ts) - {v} \<subseteq> held (t\<lparr>t_cache := c'\<rparr> # ts')"
        using c'(4) ts'(6,7) by (cases ev) (auto simp: pages_def)
      show "held (t\<lparr>t_cache := c'\<rparr> # ts') \<subseteq> insert (page_of a) (held (t # ts))"
        using c'(3,5) ts'(4,5) by (cases ev) (auto simp: pages_def)
      show "kept_by_next (t # ts) (t\<lparr>t_cache := c'\<rparr> # ts')"
      proof (rule kept_by_next_Cons [OF ts'(8,3)])
        assume "ts \<noteq> []"
        with ts'(9) c'(4) show "pages t - pages (t\<lparr>t_cache := c'\<rparr>) \<subseteq> pages (hd ts')"
          by (cases ev) (auto simp: pages_def)
      qed
    qed
  qed
qed

lemma tlb_lookup_spec:
  assumes "levels_ok ts"
  obtains ts' v where "tlb_lookup ts a alloc = Inr (page_of a \<in> held ts, ts')" "levels_ok ts'" "length ts' = length ts"
    "alloc \<Longrightarrow> ts \<noteq> [] \<Longrightarrow> page_of a \<in> pages (hd ts')" "held ts - {v} \<subseteq> held ts'" "held ts' \<subseteq> insert (page_of a) (held ts)"
    "\<not> alloc \<Longrightarrow> map pages ts' = map pages ts" "kept_by_next ts ts'"
  using assms
proof (induction ts arbitrary: alloc thesis)
  case Nil
  then show ?case by (simp add: kept_by_next_def)
next
  case (Cons t ts)
  from Cons.prems(2) have ok: "pages_ok (t_cache t)" "levels_ok ts" by auto
  show ?case
  proof (rule tlb_access [OF ok(1), of a])
    fix line c'
    assume acc: "accessSingleLine (t_cache t) a LOAD None 0 True = Inr (line, None, c')"
      and c': "pages_ok c'" "contents c' = contents (t_cache t)" "line \<noteq> None \<longleftrightarrow> page_of a \<in> contents (t_cache t)"
    let ?t1 = "t\<lparr>t_cache := c', t_access := t_access t + 1\<rparr>"
    let ?t2 = "?t1\<lparr>t_miss := t_miss t + 1\<rparr>"
    have p: "pages ?t1 = pages t" "pages ?t2 = pages t" using c' by (simp_all add: pages_def)
    show ?case
    proof (cases "page_of a \<in> pages t")
      case True
      have "kept_by_next (t # ts) (?t1 # ts)" by (rule kept_by_next_same) (use p in simp_all)
      then show ?thesis using True Cons.prems(1) [of "?t1 # ts" "page_of a"] acc c' ok p by (auto simp: pages_def)
    next
      case False
      obtain us where us: "tlb_lookup ts a False = Inr (page_of a \<in> held ts, us)" "levels_ok us" "length us = length ts"
          "map pages us = map pages ts"
        using Cons.IH [OF _ ok(2)] by metis
      have held: "held us = held ts" using arg_cong [OF us(4), of set] by (simp add: held_def)
      show ?thesis
      proof (cases alloc)
        case True
        have l2: "levels_ok (?t2 # us)" using us(2) c'(1) by simp
        obtain ts' v where ts': "tlb_allocate (?t2 # us) a = Inr ts'" "levels_ok ts'" "length ts' = length (?t2 # us)"
            "page_of a \<in> pages (hd ts')" "held (?t2 # us) - {v} \<subseteq> held ts'" "held ts' \<subseteq> insert (page_of a) (held (?t2 # us))"
            "kept_by_next (?t2 # us) ts'"
          by (rule tlb_allocate_spec [OF l2, of a]) blast
        have "kept_by_next (t # ts) ts'" by (rule kept_by_next_same_map [OF _ ts'(7)]) (use p us(4) in simp)
        then show ?thesis
          using Cons.prems(1) [of ts' v] ts' acc us False True c' p held by (simp add: pages_def Let_def del: tlb_allocate.simps)
      next
        case no: False
        have "line = None" using False c'(3) by (auto simp: pages_def)
        moreover have "kept_by_next (t # ts) (?t2 # us)" by (rule kept_by_next_same) (use p us(3,4) in simp_all)
        ultimately show ?thesis
          using no Cons.prems(1) [of "?t2 # us" "page_of a"] acc us False c'(1) p held by (auto simp: Let_def)
      qed
    qed
  qed
qed


section \<open>Construction\<close>

lemma TLB_ok:
  assumes "TLB name f cfg n k = Inr t" "k \<le> 256"
  shows "pages_ok (t_cache t) \<and> pages t = {}"
proof -
  obtain c where c: "Cache (name @ ''_cache'') f cfg (n div k) k (ucast SIM_PAGE_SIZE) ''lru'' PR_L1_CACHE HASH_MASK None None = Inr c"
    and t: "t_cache t = c" and k: "k \<noteq> 0" using assms(1) by (auto simp: TLB_def split: if_splits)
  have bs: "(ucast SIM_PAGE_SIZE :: UInt32) = 4096" by code_simp
  obtain b s where b: "CacheBase (name @ ''_cache'') (n div k) k 4096 HASH_MASK None = Inr b"
    and s: "n div k \<noteq> 0 \<Longrightarrow> CacheSet f PR_L1_CACHE (unat k) 4096 = Inr s"
    and ceq: "c = \<lparr>base = b, m_enabled = False, m_num_accesses = 0, m_num_hits = 0, m_cache_type = PR_L1_CACHE,
        m_sets = replicate (unat (n div k)) (s, P_LRU (CacheSetLRU (unat k) 1)),
        m_set_info = initial_env LRU cfg (unat k), m_fault_injector = None\<rparr>"
    using c by (auto simp: Cache_def bs createCacheSet_def parsePolicyType_def createCacheSet_policy_def getNumQBSAttempts_def
        split: if_splits)
  have wf: "cb_wf b" by (rule CacheBase_wf [OF b])
  have f: "m_num_sets b = n div k" "cb_associativity b = k" "cb_blocksize b = 4096" "m_hash b = HASH_MASK" "m_ahl b = None"
    using b by (auto simp: CacheBase_def Let_def split: if_splits)
  have "floorLog2 4096 = 12" by code_simp
  then have log: "m_log_blocksize b = SIM_PAGE_SHIFT" using wf f by (simp add: cb_wf_def SIM_PAGE_SHIFT_def)
  have n: "n div k \<noteq> 0" using wf f by (simp add: cb_wf_def)
  have k': "0 < unat k" "unat k \<le> 256" using k assms(2) by (simp_all add: word_le_nat_alt unat_gt_0)
  note set = CacheSet_result [OF s [OF n] k'(1)]
  have "lru_inv (unat k) (CacheSetLRU (unat k) 1, initial_env LRU cfg (unat k))"
    using k' by (simp add: lru_inv_def CacheSetLRU_def lru_perm_init initial_env_def createCacheSetInfo_def env_ok_def
        CacheSetInfoLRU_def getNumQBSAttempts_def)
  then show ?thesis
    using wf f log set set_inv_wf [OF set(1)] n
    by (auto simp: t ceq pages_def pages_ok_def pages_set_ok_def contents_def CacheSetLRU_def)
qed

section \<open>Properties\<close>

definition example_tlbs :: "tlb list" where
  "example_tlbs = (case (TLB ''dtlb'' False example_config 1 1, TLB ''stlb'' False example_config 4 4) of
     (Inr d, Inr s) \<Rightarrow> [d, s])"

lemma example_tlbs_built:
  "map Inr example_tlbs = [TLB ''dtlb'' False example_config 1 1, TLB ''stlb'' False example_config 4 4]"
  by code_simp

lemma example_tlbs_ok: "levels_ok example_tlbs"
proof -
  have "length example_tlbs = 2" by code_simp
  then obtain d s where eq: "example_tlbs = [d, s]" by (auto simp: numeral_2_eq_2 length_Suc_conv)
  have d: "TLB ''dtlb'' False example_config 1 1 = Inr d" and s: "TLB ''stlb'' False example_config 4 4 = Inr s"
    using example_tlbs_built [unfolded eq] by simp_all
  show ?thesis using TLB_ok [OF d] TLB_ok [OF s] by (simp add: eq)
qed

text \<open>
  C13: A lookup in a translation buffer always returns, and its answer is whether any level behind it holds the page of
  the address. Afterwards the first level holds the page and no level holds a page that nobody held before. A page that
  leaves a level other than the last is in the next level afterwards, so that only one page, which the last level
  evicts, can be lost.
\<close>

theorem tlb_lookup_correct:
  assumes "levels_ok ts" "ts \<noteq> []"
  shows "\<exists>ts' v. tlb_lookup ts a True = Inr (page_of a \<in> held ts, ts') \<and> levels_ok ts' \<and> length ts' = length ts \<and>
    page_of a \<in> pages (hd ts') \<and> held ts' \<subseteq> insert (page_of a) (held ts) \<and>
    (\<forall>k. Suc k < length ts \<longrightarrow> pages (ts ! k) - pages (ts' ! k) \<subseteq> pages (ts' ! Suc k)) \<and> held ts - {v} \<subseteq> held ts'"
  unfolding kept_by_next_def [symmetric] by (rule tlb_lookup_spec [OF assms(1), of a True]) (use assms(2) in blast)

theorem tlb_lookup_correct_witness:
  "\<exists>ts' v. tlb_lookup example_tlbs 0x5678 True = Inr (5 \<in> held example_tlbs, ts') \<and> 5 \<in> pages (hd ts') \<and>
     held example_tlbs - {v} \<subseteq> held ts'"
proof -
  have "example_tlbs \<noteq> []" by code_simp
  moreover have "page_of 0x5678 = 5" by code_simp
  ultimately show ?thesis using tlb_lookup_correct [OF example_tlbs_ok, of "0x5678"] by auto
qed

text \<open>
  The victim cache does not look whether it already has a page: when both levels hold page 1, which is how a hit in the
  second level leaves them, and the first has to make room, the second level holds page 1 twice.
\<close>

lemma victim_entry_duplicated:
  "(case bindE (tlb_allocate (take 1 example_tlbs) 0x1000) (\<lambda>first. bindE (tlb_allocate (drop 1 example_tlbs) 0x1000) (\<lambda>second.
           tlb_allocate (first @ second) 0x2000)) of
     Inr ts \<Rightarrow> map m_tag (m_cache_block_info_array (fst (m_sets (t_cache (ts ! 1)) ! 0))) = [1, 1, - 1, - 1]
   | Inl e \<Rightarrow> False)"
  by code_simp

end
