(* ===== verification/Memory_System.thy ===== *)
theory Memory_System
  imports Cache_Invariant Tlb Dram_Directory_Properties Cache_Cntlr_Properties
begin

unbundle bit_operations_syntax

text \<open>
  \<^verbatim>\<open>parametric_dram_directory_msi/memory_manager.{h,cc}\<close>: the memory manager of a core starts the accesses of its
  core and hands arriving packets to the component they are for. All memory managers together, with the
  packets under way, are one system: a core starts an access, or the network delivers any packet that is under
  way, at any time; a broadcast reaches every core. What the network does to a packet besides, its delay, is
  the arrival time of the delivery step. The program counters, the access paths and the trace records of the
  requests are left out, and so is the DRAM cache, which is off by default. Every packet sets the clock of the
  network thread of its core first, so the directory and the memory controller keep that clock for themselves.
\<close>

section \<open>The state of all memory managers\<close>

datatype mem_modeled_t =
    MEM_MODELED_NONE | MEM_MODELED_COUNT | MEM_MODELED_COUNT_TLBTIME | MEM_MODELED_TIME | MEM_MODELED_FENCED | MEM_MODELED_RETURN

record mm_cfg =
  mm_cntlr :: "core_id_t \<Rightarrow> component_t \<Rightarrow> nat"
  mm_last_level_cache :: component_t
  mm_tlb_miss_penalty :: component_latency
  mm_tlb_miss_parallel :: bool

record tlbs =
  m_itlb :: "tlb option"
  m_dtlb :: "tlb option"
  m_stlb :: "tlb option"

record mem_sys =
  ms_hier :: hier
  ms_directory :: "core_id_t \<Rightarrow> cntlr option"
  ms_dram :: "core_id_t \<Rightarrow> dram_cntlr option"
  ms_tlbs :: "core_id_t \<Rightarrow> tlbs"
  ms_packets :: "(core_id_t \<times> receiver_t \<times> shmem_msg \<times> UInt64) list"
  ms_tlb_instructions :: "(core_id_t \<times> UInt64 \<times> bool) list"

type_synonym 'a mop = "(mem_sys, 'a) op"

text \<open>An operation of the cache controllers; what it sends goes to the network.\<close>

definition on_hier :: "'a hop \<Rightarrow> 'a mop" where
  "on_hier m = (\<lambda>s. bindE (m ((ms_hier s)\<lparr>h_sent := []\<rparr>)) (\<lambda>(x, h). Inr (x, s\<lparr>ms_hier := h, ms_packets := ms_packets s @ h_sent h\<rparr>)))"

section \<open>Accesses of a core\<close>

text \<open>The levels behind a first-level buffer; the second level is shared by the two.\<close>

definition tlb_chain :: "tlb option \<Rightarrow> tlb option \<Rightarrow> tlb list" where
  "tlb_chain first second = (case first of None \<Rightarrow> [] | Some t \<Rightarrow> t # (case second of None \<Rightarrow> [] | Some u \<Rightarrow> [u]))"

definition store_chain :: "bool \<Rightarrow> tlb list \<Rightarrow> tlbs \<Rightarrow> tlbs" where
  "store_chain isIfetch ts t =
     (case ts of
        [] \<Rightarrow> t
      | x # xs \<Rightarrow>
          let t1 = (if isIfetch then t\<lparr>m_itlb := Some x\<rparr> else t\<lparr>m_dtlb := Some x\<rparr>)
          in (case xs of [] \<Rightarrow> t1 | y # _ \<Rightarrow> t1\<lparr>m_stlb := Some y\<rparr>))"

definition accessTLB :: "mm_cfg \<Rightarrow> hier_cfg \<Rightarrow> core_id_t \<Rightarrow> nat \<Rightarrow> bool \<Rightarrow> IntPtr \<Rightarrow> mem_modeled_t \<Rightarrow> unit mop" where
  "accessTLB c g core i isIfetch address modeled =
     bindS (liftS (\<lambda>s. let t = ms_tlbs s core in tlb_lookup (tlb_chain (if isIfetch then m_itlb t else m_dtlb t) (m_stlb t)) address True)) (\<lambda>(hit, ts).
     thenS (modifyS (\<lambda>s. s\<lparr>ms_tlbs := (ms_tlbs s)(core := store_chain isIfetch
                                (case ts of [] \<Rightarrow> [] | x # xs \<Rightarrow> tlb_addRequest x # xs) (ms_tlbs s core))\<rparr>))
       (whenS (\<not> hit \<and> modeled \<notin> {MEM_MODELED_NONE, MEM_MODELED_COUNT} \<and> cl_getLatency (mm_tlb_miss_penalty c) \<noteq> 0)
         (if mm_tlb_miss_parallel c
          then on_hier (incrElapsed g i (cl_getLatency (mm_tlb_miss_penalty c)) USER_THREAD)
          else modifyS (\<lambda>s. s\<lparr>ms_tlb_instructions := ms_tlb_instructions s @ [(core, cl_getLatency (mm_tlb_miss_penalty c), isIfetch)]\<rparr>))))"

definition coreInitiateMemoryAccess ::
  "mm_cfg \<Rightarrow> hier_cfg \<Rightarrow> core_id_t \<Rightarrow> component_t \<Rightarrow> lock_signal_t \<Rightarrow> mem_op_t \<Rightarrow> IntPtr \<Rightarrow> UInt32 \<Rightarrow> UInt8 list option \<Rightarrow> UInt32
     \<Rightarrow> mem_modeled_t \<Rightarrow> unit mop" where
  "coreInitiateMemoryAccess c g core mem_component lock_signal mem_op_type address offset data_buf data_length modeled =
     thenS (assertS (mem_component \<le> mm_last_level_cache c) (LOG_ASSERT_ERROR ''Error: invalid mem_component''))
    (bindS (getS (\<lambda>s. ms_tlbs s core)) (\<lambda>t.
     thenS (if mem_component = L1_ICACHE \<and> m_itlb t \<noteq> None
            then accessTLB c g core (mm_cntlr c core mem_component) True address modeled
            else whenS (mem_component = L1_DCACHE \<and> m_dtlb t \<noteq> None)
                   (accessTLB c g core (mm_cntlr c core mem_component) False address modeled))
       (on_hier (processMemOpFromCore g (mm_cntlr c core mem_component) lock_signal mem_op_type address offset data_buf data_length
                   (modeled \<notin> {MEM_MODELED_NONE, MEM_MODELED_COUNT}) (modeled \<noteq> MEM_MODELED_NONE)))))"

section \<open>Packets\<close>

definition on_directory :: "core_id_t \<Rightarrow> UInt64 \<Rightarrow> (cntlr \<Rightarrow> cntlr result) \<Rightarrow> unit mop" where
  "on_directory core time handler =
     (\<lambda>s. case ms_directory s core of
            None \<Rightarrow> Inl (LOG_ASSERT_ERROR ''Tag directory NOT present'')
          | Some d \<Rightarrow>
              bindE (handler (d\<lparr>m_elapsed := time, m_sent := []\<rparr>)) (\<lambda>d1.
                Inr ((), s\<lparr>ms_directory := (ms_directory s)(core \<mapsto> d1\<lparr>m_sent := []\<rparr>),
                           ms_packets := ms_packets s @ map (\<lambda>p. (core, p)) (m_sent d1)\<rparr>)))"

definition on_dram :: "hier_cfg \<Rightarrow> core_id_t \<Rightarrow> UInt64 \<Rightarrow> core_id_t \<Rightarrow> shmem_msg \<Rightarrow> unit mop" where
  "on_dram g core time sender msg =
     (\<lambda>s. case ms_dram s core of
            None \<Rightarrow> Inl (LOG_ASSERT_ERROR ''Dram Cntlr NOT present'')
          | Some d \<Rightarrow>
              bindE (handleMsgFromTagDirectory (hc_dram_env g) (hc_uninit g) sender msg time d) (\<lambda>(elapsed, sent, d1).
                Inr ((), s\<lparr>ms_dram := (ms_dram s)(core \<mapsto> d1), ms_packets := ms_packets s @ map (\<lambda>p. (core, p)) sent\<rparr>)))"

definition handleMsgFromNetwork :: "mm_cfg \<Rightarrow> hier_cfg \<Rightarrow> core_id_t \<Rightarrow> core_id_t \<Rightarrow> shmem_msg \<Rightarrow> UInt64 \<Rightarrow> unit mop" where
  "handleMsgFromNetwork c g core sender msg time =
     (let i = mm_cntlr c core (mm_last_level_cache c);
          receiver = m_receiver_mem_component msg;
          from = m_sender_mem_component msg
      in
      thenS (on_hier (setElapsed g i SIM_THREAD time))
        (if receiver = L2_CACHE \<or> receiver = LAST_LEVEL_CACHE
         then if from = TAG_DIR then on_hier (handleMsgFromDramDirectory g i sender msg)
              else failS (LOG_PRINT_ERROR ''Unrecognized sender component'')
         else if receiver = TAG_DIR
         then if from = LAST_LEVEL_CACHE then on_directory core time (handleMsgFromL2Cache sender msg)
              else if from = DRAM_COMPONENT then on_directory core time (handleMsgFromDRAM sender msg)
              else failS (LOG_PRINT_ERROR ''Unrecognized sender component'')
         else if receiver = DRAM_COMPONENT
         then if from = TAG_DIR then on_dram g core time sender msg
              else failS (LOG_PRINT_ERROR ''Unrecognized sender component'')
         else failS (LOG_PRINT_ERROR ''Unrecognized receiver component'')))"

text \<open>Turning the models on and off: \<open>cs\<close> are the controllers of the core.\<close>

definition enable_cache :: "bool \<Rightarrow> hier_cfg \<Rightarrow> nat \<Rightarrow> unit hop" where
  "enable_cache on g i = updMaster g i (m_cache_update (if on then cache_enable else cache_disable))"

definition setModels :: "bool \<Rightarrow> mm_cfg \<Rightarrow> hier_cfg \<Rightarrow> core_id_t \<Rightarrow> hier_cfg mop" where
  "setModels on c g core =
     (let cs = map (mm_cntlr c core) [2 ..< Suc (mm_last_level_cache c)] in
      thenS (foldS (\<lambda>_ i. on_hier (enable_cache on g i)) () cs)
     (thenS (modifyS (\<lambda>s. s\<lparr>ms_dram := (ms_dram s)(core := map_option (\<lambda>d. d\<lparr>m_dram_perf_model := dram_perf_enable on (m_dram_perf_model d)\<rparr>) (ms_dram s core))\<rparr>))
        (returnS (g\<lparr>hc_cntlrs := (\<lambda>i. let k = hc_cntlrs g i
                        in if i \<in> set cs then k\<lparr>cc_perf_model := (cc_perf_model k)\<lparr>cpm_enabled := on\<rparr>\<rparr> else k)\<rparr>))))"


section \<open>Interleavings\<close>

inductive system_step :: "mm_cfg \<Rightarrow> core_id_t list \<Rightarrow> hier_cfg \<times> mem_sys \<Rightarrow> hier_cfg \<times> mem_sys \<Rightarrow> bool"
  for c :: mm_cfg and cores :: "core_id_t list" where
  access: "coreInitiateMemoryAccess c g core mc ls op a off buf len modeled s = Inr ((), s') \<Longrightarrow> system_step c cores (g, s) (g, s')"
| deliver: "ms_packets s = ps @ (sender, To core, msg, t0) # qs \<Longrightarrow> msg_address msg \<noteq> INVALID_ADDRESS \<Longrightarrow>
     handleMsgFromNetwork c g core sender msg t (s\<lparr>ms_packets := ps @ qs\<rparr>) = Inr ((), s') \<Longrightarrow> system_step c cores (g, s) (g, s')"
| broadcast: "ms_packets s = ps @ (sender, Broadcast, msg, t0) # qs \<Longrightarrow>
     system_step c cores (g, s) (g, s\<lparr>ms_packets := ps @ map (\<lambda>core. (sender, To core, msg, t0)) cores @ qs\<rparr>)"
| models: "setModels on c g core s = Inr (g', s') \<Longrightarrow> system_step c cores (g, s) (g', s')"
| clock: "system_step c cores (g, s) (g, s\<lparr>ms_hier := (ms_hier s)\<lparr>h_elapsed := e\<rparr>\<rparr>)"

definition tlbs_ok :: "tlbs \<Rightarrow> bool" where
  "tlbs_ok t \<longleftrightarrow> (\<forall>x. m_itlb t = Some x \<or> m_dtlb t = Some x \<or> m_stlb t = Some x \<longrightarrow> pages_ok (t_cache x))"

definition system_inv :: "nat \<Rightarrow> mem_sys \<Rightarrow> bool" where
  "system_inv w s \<longleftrightarrow> good w (ms_hier s) \<and> (\<forall>core d. ms_directory s core = Some d \<longrightarrow> cntlr_inv d) \<and> (\<forall>core. tlbs_ok (ms_tlbs s core))"

lemma good_frame [simp]: "good w (h\<lparr>h_sent := x\<rparr>) = good w h" "good w (h\<lparr>h_elapsed := e\<rparr>) = good w h"
  by (simp_all add: good_def caches_ok_def Lines_def no_dead_def)

lemma system_inv_frame [simp]:
  "system_inv w (s\<lparr>ms_packets := x\<rparr>) = system_inv w s" "system_inv w (s\<lparr>ms_tlb_instructions := y\<rparr>) = system_inv w s"
  "system_inv w (s\<lparr>ms_dram := z\<rparr>) = system_inv w s"
  by (simp_all add: system_inv_def)

abbreviation (input) preserves :: "nat \<Rightarrow> 'a mop \<Rightarrow> bool" where
  "preserves w m \<equiv> specS (system_inv w) m (\<lambda>_. system_inv w)"

lemma preserves_hier:
  assumes "maintains w m"
  shows "preserves w (on_hier m)"
proof (rule specSI)
  fix s x s'
  assume inv: "system_inv w s" and run: "on_hier m s = Inr (x, s')"
  obtain h where h: "m ((ms_hier s)\<lparr>h_sent := []\<rparr>) = Inr (x, h)" "s' = s\<lparr>ms_hier := h, ms_packets := ms_packets s @ h_sent h\<rparr>"
    using run by (auto simp: on_hier_def elim!: bindE_eq_InrE)
  have "good w ((ms_hier s)\<lparr>h_sent := []\<rparr>)" using inv by (simp add: system_inv_def)
  then have "good w h" using specSD [OF assms [unfolded maintains_def] _ h(1)] by simp
  then show "system_inv w s'" using inv h(2) by (simp add: system_inv_def)
qed

lemma levels_ok_chain: "tlbs_ok t \<Longrightarrow> levels_ok (tlb_chain (if b then m_itlb t else m_dtlb t) (m_stlb t))"
  by (auto simp: tlbs_ok_def tlb_chain_def split: option.split)

lemma store_chain_ok: "tlbs_ok t \<Longrightarrow> levels_ok ts \<Longrightarrow> tlbs_ok (store_chain b ts t)"
  by (auto simp: tlbs_ok_def store_chain_def levels_ok_def Let_def split: list.splits if_splits)

lemma addRequest_ok [simp]: "t_cache (tlb_addRequest t) = t_cache t"
  by (simp add: tlb_addRequest_def)

lemma preserves_accessTLB: "preserves w (accessTLB c g core i isIfetch a modeled)"
  unfolding accessTLB_def
proof (rule specS_bind [where R = "\<lambda>x s. levels_ok (snd x) \<and> system_inv w s"])
  show "specS (system_inv w) (liftS (\<lambda>s. let t = ms_tlbs s core in tlb_lookup (tlb_chain (if isIfetch then m_itlb t else m_dtlb t) (m_stlb t)) a True))
      (\<lambda>x s. levels_ok (snd x) \<and> system_inv w s)"
  proof (rule specS_lift)
    fix s x
    assume inv: "system_inv w s" and run: "(let t = ms_tlbs s core in tlb_lookup (tlb_chain (if isIfetch then m_itlb t else m_dtlb t) (m_stlb t)) a True) = Inr x"
    let ?ts = "tlb_chain (if isIfetch then m_itlb (ms_tlbs s core) else m_dtlb (ms_tlbs s core)) (m_stlb (ms_tlbs s core))"
    have "levels_ok ?ts" using inv by (intro levels_ok_chain) (simp add: system_inv_def)
    then obtain ts' where "tlb_lookup ?ts a True = Inr (page_of a \<in> held ?ts, ts')" "levels_ok ts'"
      using tlb_lookup_spec [of ?ts a True] by metis
    then show "levels_ok (snd x) \<and> system_inv w s" using run inv by (auto simp: Let_def)
  qed
  fix x
  show "specS (\<lambda>s. levels_ok (snd x) \<and> system_inv w s) ((\<lambda>(hit, ts).
     thenS (modifyS (\<lambda>s. s\<lparr>ms_tlbs := (ms_tlbs s)(core := store_chain isIfetch
                                (case ts of [] \<Rightarrow> [] | x # xs \<Rightarrow> tlb_addRequest x # xs) (ms_tlbs s core))\<rparr>))
       (whenS (\<not> hit \<and> modeled \<notin> {MEM_MODELED_NONE, MEM_MODELED_COUNT} \<and> cl_getLatency (mm_tlb_miss_penalty c) \<noteq> 0)
         (if mm_tlb_miss_parallel c
          then on_hier (incrElapsed g i (cl_getLatency (mm_tlb_miss_penalty c)) USER_THREAD)
          else modifyS (\<lambda>s. s\<lparr>ms_tlb_instructions := ms_tlb_instructions s @ [(core, cl_getLatency (mm_tlb_miss_penalty c), isIfetch)]\<rparr>)))) x) (\<lambda>_. system_inv w)"
    by (cases x, simp only: prod.case snd_conv, rule specS_then [where R = "system_inv w"], rule specS_modify)
      (auto simp: system_inv_def split: list.split intro!: store_chain_ok specS_when specS_modify preserves_hier maintains_rules)
qed


lemma preserves_access: "preserves w (coreInitiateMemoryAccess c g core mc ls op a off buf len modeled)"
  unfolding coreInitiateMemoryAccess_def
  by (rule specS_then [OF specS_assert], assumption, rule specS_bind [OF specS_get], assumption, rule specS_then)
    (auto intro: specS_when preserves_accessTLB preserves_hier maintains_rules)

lemma preserves_directory:
  assumes "\<And>d d'. cntlr_inv d \<Longrightarrow> handler d = Inr d' \<Longrightarrow> cntlr_inv d'"
  shows "preserves w (on_directory core time handler)"
proof (rule specSI)
  fix s x s'
  assume inv: "system_inv w s" and run: "on_directory core time handler s = Inr (x, s')"
  obtain d d1 where d: "ms_directory s core = Some d" "handler (d\<lparr>m_elapsed := time, m_sent := []\<rparr>) = Inr d1"
    and s': "s' = s\<lparr>ms_directory := (ms_directory s)(core \<mapsto> d1\<lparr>m_sent := []\<rparr>), ms_packets := ms_packets s @ map (\<lambda>p. (core, p)) (m_sent d1)\<rparr>"
    using run by (auto simp: on_directory_def split: option.splits elim!: bindE_eq_InrE)
  have "cntlr_inv (d\<lparr>m_elapsed := time, m_sent := []\<rparr>)"
    using inv d(1) by (simp add: system_inv_def coherent.I_elapsed coherent.I_sent)
  from assms [OF this d(2)] have "cntlr_inv (d1\<lparr>m_sent := []\<rparr>)" by (simp add: coherent.I_sent)
  then show "system_inv w s'" using inv unfolding s' by (auto simp: system_inv_def)
qed

lemma preserves_dram: "preserves w (on_dram g core time sender msg)"
  by (rule specSI) (auto simp: on_dram_def system_inv_def split: option.splits elim!: bindE_eq_InrE)

lemma preserves_network:
  assumes "msg_address msg \<noteq> INVALID_ADDRESS"
  shows "preserves w (handleMsgFromNetwork c g core sender msg time)"
proof -
  have "preserves w (on_directory core time (handleMsgFromL2Cache sender msg))" "preserves w (on_directory core time (handleMsgFromDRAM sender msg))"
    using assms coherent.handleMsgFromL2Cache_keeps coherent.handleMsgFromDRAM_keeps by (auto intro!: preserves_directory)
  then show ?thesis unfolding handleMsgFromNetwork_def Let_def
    by (intro specS_then [OF preserves_hier [OF maintains_quiets(3)]]) (auto intro: specS_fail preserves_hier maintains_rules preserves_dram)
qed

lemma enable_same [simp]: "lines (cache_enable x) = lines x" "lines (cache_disable x) = lines x"
  by (simp_all add: lines_def cache_enable_def cache_disable_def fun_eq_iff)

lemma maintains_enable: "maintains w (enable_cache on g i)"
  unfolding enable_cache_def updMaster_def maintains_def
  by (rule specS_modify) (auto simp: good_def caches_ok_def Lines_def the_master_def no_dead_def split: if_splits)

lemma preserves_models: "preserves w (setModels on c g core)"
proof -
  have fold: "preserves w (foldS (\<lambda>_ i. on_hier (enable_cache on g i)) () cs)" for cs
    by (rule specS_fold) (rule preserves_hier [OF maintains_enable])
  have rest: "preserves w (thenS (modifyS (\<lambda>s. s\<lparr>ms_dram := f s\<rparr>)) (returnS g'))" for f and g' :: hier_cfg
    by (rule specS_then [OF specS_modify specS_return, of _ "system_inv w"]) simp_all
  show ?thesis unfolding setModels_def Let_def by (rule specS_then [OF fold rest])
qed

lemma system_step_inv:
  assumes "system_step c cores (g, s) (g', s')" "system_inv w s"
  shows "system_inv w s'"
  using assms(1)
proof cases
  case (access core mc ls op a off buf len modeled)
  then show ?thesis using specSD [OF preserves_access assms(2)] by blast
next
  case (deliver ps sender core msg t0 qs t)
  have "system_inv w (s\<lparr>ms_packets := ps @ qs\<rparr>)" using assms(2) by simp
  from specSD [OF preserves_network [OF deliver(3)] this deliver(4)] show ?thesis .
next
  case (models on core)
  then show ?thesis using specSD [OF preserves_models assms(2)] by blast
qed (use assms(2) in \<open>simp_all add: system_inv_def\<close>)

lemma system_reachable_inv: "(system_step c cores)\<^sup>*\<^sup>* x y \<Longrightarrow> system_inv w (snd x) \<Longrightarrow> system_inv w (snd y)"
  by (induction rule: rtranclp_induct) (auto intro: system_step_inv)

section \<open>Properties\<close>

text \<open>
  C12: Coherence metadata is well formed in every state of the whole memory system, whatever the interleaving of accesses
  of the cores, deliveries of packets in any order, and changes of the models: a directory entry that says MODIFIED or
  EXCLUSIVE has its owner as the only sharer, every cache of every level keeps its invariant (distinct tags, each line in
  the set of its address, a well-formed replacement state), every line that a lookup finds is in a valid state, and the
  translation buffers hold pages only in the sets of their addresses.
\<close>

theorem memory_system_invariant:
  assumes "(system_step c cores)\<^sup>*\<^sup>* (g0, s0) (g, s)" "system_inv w s0"
  shows "(ms_directory s core = Some d \<and> readEntry p d = Inr e \<and> m_dstate e \<in> {D_MODIFIED, D_EXCLUSIVE} \<longrightarrow>
      snd (getSharersList e) = [m_owner_id e]) \<and>
    cache_inv (m_cache (h_masters (ms_hier s) m)) \<and>
    (peekSingleLine (m_cache (h_masters (ms_hier s) m)) a = Inr (Some b) \<longrightarrow> m_cstate b \<noteq> INVALID) \<and>
    tlbs_ok (ms_tlbs s core)"
proof -
  have inv: "system_inv w s" using system_reachable_inv [OF assms(1)] assms(2) by simp
  then have good: "good w (ms_hier s)" by (simp add: system_inv_def)
  have "m_cstate b \<noteq> INVALID" if "peekSingleLine (m_cache (h_masters (ms_hier s) m)) a = Inr (Some b)"
    using good cache_store.peek_view [OF _ that] by (auto simp: good_def caches_ok_def no_dead_def Lines_def)
  moreover have "snd (getSharersList e) = [m_owner_id e]"
    if "ms_directory s core = Some d" "readEntry p d = Inr e" "m_dstate e \<in> {D_MODIFIED, D_EXCLUSIVE}"
    using that inv entry_ok_list [of e] coherent.I_read [of d p e] by (auto simp: system_inv_def)
  ultimately show ?thesis using inv good by (auto simp: system_inv_def good_def caches_ok_def)
qed

definition example_packet :: shmem_msg where
  "example_packet = (ex_req 1 0x1000)\<lparr>m_sender_mem_component := LAST_LEVEL_CACHE\<rparr>"

definition example_system :: "cntlr \<Rightarrow> mem_sys" where
  "example_system d = \<lparr>ms_hier = hier_of (\<lambda>_. example_cache), ms_directory = [0 \<mapsto> d], ms_dram = (\<lambda>_. None),
     ms_tlbs = (\<lambda>_. \<lparr>m_itlb = None, m_dtlb = None, m_stlb = None\<rparr>), ms_packets = [(1, To 0, example_packet, 5)], ms_tlb_instructions = []\<rparr>"

definition example_mm :: mm_cfg where
  "example_mm = \<lparr>mm_cntlr = (\<lambda>_ k. 3), mm_last_level_cache = 5, mm_tlb_miss_penalty = \<lparr>cl_period = 1, m_fixed_cycle_latency = 0\<rparr>,
     mm_tlb_miss_parallel = False\<rparr>"


lemma example_delivered:
  "\<exists>d s'. handleMsgFromNetwork example_mm three_levels 0 1 example_packet 9 ((example_system example_cntlr)\<lparr>ms_packets := []\<rparr>) = Inr ((), s') \<and>
     ms_directory s' 0 = Some d \<and> (\<exists>e. readEntry (Slot 0) d = Inr e \<and> m_dstate e = D_MODIFIED \<and> m_owner_id e = 1)"
proof -
  have run: "case handleMsgFromL2Cache 1 example_packet (example_cntlr\<lparr>m_elapsed := 9, m_sent := []\<rparr>) of Inl e \<Rightarrow> False
      | Inr d \<Rightarrow> (case readEntry (Slot 0) d of Inl e \<Rightarrow> False | Inr e \<Rightarrow> m_dstate e = D_MODIFIED \<and> m_owner_id e = 1)"
    by code_simp
  then obtain d where d: "handleMsgFromL2Cache 1 example_packet (example_cntlr\<lparr>m_elapsed := 9, m_sent := []\<rparr>) = Inr d"
      "\<exists>e. readEntry (Slot 0) d = Inr e \<and> m_dstate e = D_MODIFIED \<and> m_owner_id e = 1"
    by (auto split: sum.splits)
  then show ?thesis
    by (auto simp: handleMsgFromNetwork_def Let_def example_mm_def example_packet_def ex_req_def example_system_def on_hier_def
        on_directory_def setElapsed_def op_defs readEntry_def)
qed

lemma example_system_inv: "system_inv 6 (example_system example_cntlr)"
proof -
  have "lines example_cache t = None" for t using lines_absent [OF example_cache_inv(1)] example_cache_inv(2) by simp
  then show ?thesis
    using caches_ok_cold new_cntlr_inv(1) [OF example_new_eq]
    by (auto simp: system_inv_def example_system_def good_def no_dead_def Lines_def tlbs_ok_def split: if_splits)
qed

theorem memory_system_invariant_witness:
  "\<exists>s d e. (system_step example_mm [0, 1])\<^sup>*\<^sup>* (three_levels, example_system example_cntlr) (three_levels, s) \<and>
     ms_directory s 0 = Some d \<and> readEntry (Slot 0) d = Inr e \<and> m_dstate e = D_MODIFIED \<and> snd (getSharersList e) = [1]"
proof -
  obtain s d e where run: "handleMsgFromNetwork example_mm three_levels 0 1 example_packet 9 ((example_system example_cntlr)\<lparr>ms_packets := []\<rparr>) = Inr ((), s)"
    and e: "ms_directory s 0 = Some d" "readEntry (Slot 0) d = Inr e" "m_dstate e = D_MODIFIED" "m_owner_id e = 1"
    using example_delivered by blast
  have "system_step example_mm [0, 1] (three_levels, example_system example_cntlr) (three_levels, s)"
    by (rule system_step.deliver [where ps = "[]" and qs = "[]" and sender = 1 and core = 0 and msg = example_packet and ?t0.0 = 5 and t = 9])
      (use run in \<open>simp_all add: example_system_def example_packet_def ex_req_def\<close>)
  then have steps: "(system_step example_mm [0, 1])\<^sup>*\<^sup>* (three_levels, example_system example_cntlr) (three_levels, s)" by simp
  show ?thesis using memory_system_invariant [OF steps example_system_inv, of 0 d "Slot 0" e] steps e by auto
qed

end
