(* ===== verification/Dram_Cache.thy ===== *)
theory Dram_Cache
  imports Dram_Cntlr Prefetchers Sim_Monad Cache_Cntlr
begin

unbundle bit_operations_syntax

text \<open>
  \<^verbatim>\<open>dram/dram_cache.{h,cc}\<close>: a cache in front of a memory controller, with its queue model, prefetcher and the table
  of prefetches in flight. The record of times
  of the current request is a field of the state; an operation that gets a pointer to it says whether that pointer is
  \<^verbatim>\<open>NULL\<close>, and an update through a \<^verbatim>\<open>NULL\<close> pointer is undefined. The access log and its counters are left out.
\<close>

section \<open>The cache\<close>

record dram_cache =
  dk_core_id :: core_id_t
  dk_cache_block_size :: UInt32
  dk_data_access_time :: UInt64
  dk_tags_access_time :: UInt64
  dk_data_array_bandwidth :: UInt64
  dk_dram_cntlr :: dram_cntlr
  dk_cache :: cache
  dk_queue_model :: "queue_model option"
  dk_prefetcher :: "prefetcher option"
  dk_prefetch_on_prefetch_hit :: bool
  dk_prefetch_mshr :: contention_model
  dk_reads :: UInt64
  dk_writes :: UInt64
  dk_read_misses :: UInt64
  dk_write_misses :: UInt64
  dk_hits_prefetch :: UInt64
  dk_prefetches :: UInt64
  dk_prefetch_mshr_delay :: UInt64
  dk_perf :: shmem_perf

type_synonym 'a kop = "(dram_cache, 'a) op"

definition k_KILO :: UInt32 where
  "k_KILO = 1024"

definition DramCache ::
  "bool \<Rightarrow> set_config \<Rightarrow> core_id_t \<Rightarrow> UInt32 \<Rightarrow> UInt32 \<Rightarrow> UInt32 \<Rightarrow> string \<Rightarrow> string \<Rightarrow> UInt64 \<Rightarrow> UInt64 \<Rightarrow> UInt64
     \<Rightarrow> (queue_cfg \<times> string) option \<Rightarrow> prefetch_cfg \<Rightarrow> string \<Rightarrow> bool \<Rightarrow> UInt64 \<Rightarrow> address_home_lookup \<Rightarrow> dram_cntlr \<Rightarrow> dram_cache result" where
  "DramCache fault_injection cfg core_id cache_block_size cache_size associativity policy_name hash_function data_access_time
      tags_access_time bandwidth queue pf_cfg pf_type pf_on_hit period home_lookup dram_cntlr =
     bindE (assertE (associativity * cache_block_size \<noteq> 0) (UNDEFINED ''cache_size / 0'')) (\<lambda>_.
     let num_sets = k_KILO * cache_size div (associativity * cache_block_size) in
     bindE (assertE (k_KILO * cache_size = num_sets * associativity * cache_block_size)
              (LOG_ASSERT_ERROR ''Invalid cache configuration'')) (\<lambda>_.
     bindE (parseAddressHash hash_function) (\<lambda>hash.
     bindE (Cache ''dram-cache'' fault_injection cfg num_sets associativity cache_block_size policy_name PR_L1_CACHE
              hash None (Some home_lookup)) (\<lambda>c.
     bindE (case queue of
              None \<Rightarrow> Inr None
            | Some (qcfg, qtype) \<Rightarrow>
                bindE (bw_getRoundedLatency bandwidth (ucast (8 * cache_block_size))) (\<lambda>t.
                bindE (QueueModel_create qcfg qtype t) (\<lambda>q. Inr (Some q)))) (\<lambda>q.
     bindE (createPrefetcher pf_cfg pf_type core_id 1) (\<lambda>pf.
       Inr \<lparr>dk_core_id = core_id, dk_cache_block_size = cache_block_size, dk_data_access_time = data_access_time,
            dk_tags_access_time = tags_access_time, dk_data_array_bandwidth = bandwidth, dk_dram_cntlr = dram_cntlr,
            dk_cache = c, dk_queue_model = q, dk_prefetcher = pf, dk_prefetch_on_prefetch_hit = pf_on_hit,
            dk_prefetch_mshr = ContentionModel 16 period, dk_reads = 0, dk_writes = 0, dk_read_misses = 0, dk_write_misses = 0,
            dk_hits_prefetch = 0, dk_prefetches = 0, dk_prefetch_mshr_delay = 0, dk_perf = ShmemPerf\<rparr>))))))"

text \<open>\<^verbatim>\<open>perf->updateTime\<close>; \<open>has_perf\<close> says that \<^verbatim>\<open>perf\<close> is not \<^verbatim>\<open>NULL\<close>.\<close>

definition perf_updateTime :: "bool \<Rightarrow> UInt64 \<Rightarrow> shmem_times_type_t \<Rightarrow> unit kop" where
  "perf_updateTime has_perf time reason =
     (if has_perf then modifyS (dk_perf_update (sp_updateTime time reason)) else failS (UNDEFINED ''perf is NULL''))"

definition dk_accessDataArray :: "dram_env \<Rightarrow> UInt64 \<Rightarrow> bool \<Rightarrow> UInt64 kop" where
  "dk_accessDataArray env t_start has_perf =
     bindS (liftS (\<lambda>k. bw_getRoundedLatency (dk_data_array_bandwidth k) (ucast (8 * dk_cache_block_size k)))) (\<lambda>processing_time.
     bindS (liftS (\<lambda>k. queue_delay_of env t_start processing_time (dk_queue_model k))) (\<lambda>(queue_delay, q).
     thenS (modifyS (dk_queue_model_update (\<lambda>_. q)))
    (thenS (perf_updateTime has_perf t_start T_UNKNOWN)
    (thenS (perf_updateTime has_perf (t_start + queue_delay) DRAM_CACHE_QUEUE)
    (thenS (perf_updateTime has_perf (t_start + queue_delay + processing_time) DRAM_CACHE_BUS)
    (bindS (getS dk_data_access_time) (\<lambda>data_access_time.
     thenS (perf_updateTime has_perf (t_start + queue_delay + processing_time + data_access_time) DRAM_CACHE_DATA)
       (returnS (queue_delay + processing_time + data_access_time)))))))))"

definition dk_updLine :: "IntPtr \<Rightarrow> (cache_block_info \<Rightarrow> cache_block_info) \<Rightarrow> unit kop" where
  "dk_updLine address f =
     bindS (liftS (\<lambda>k. updLine (dk_cache k) address f)) (\<lambda>c. modifyS (dk_cache_update (\<lambda>_. c)))"

definition dk_getData :: "dram_env \<Rightarrow> IntPtr \<Rightarrow> core_id_t \<Rightarrow> UInt8 list \<Rightarrow> UInt64 \<Rightarrow> bool \<Rightarrow> (UInt64 \<times> UInt8 list) kop" where
  "dk_getData env address requester data_buf now has_perf =
     bindS (liftS (\<lambda>k. getDataFromDram env data_buf address requester now (if has_perf then Some (dk_perf k) else None) (dk_dram_cntlr k)))
       (\<lambda>(latency, hit_where, data, perf, d).
     thenS (modifyS (\<lambda>k. k\<lparr>dk_dram_cntlr := d, dk_perf := case perf of Some p \<Rightarrow> p | None \<Rightarrow> dk_perf k\<rparr>)) (returnS (latency, data)))"

definition dk_insertLine :: "dram_env \<Rightarrow> access_t \<Rightarrow> IntPtr \<Rightarrow> core_id_t \<Rightarrow> UInt8 list \<Rightarrow> UInt64 \<Rightarrow> unit kop" where
  "dk_insertLine env access address requester data_buf now =
     bindS (liftS (\<lambda>k. insertSingleLine None (dk_cache k) address (Some data_buf) (CacheBlockInfo PR_L1_CACHE (NOT 0) INVALID 0) True))
       (\<lambda>(eviction, evict_address, evict_block_info, evict_buf, c).
     thenS (modifyS (dk_cache_update (\<lambda>_. c)))
    (thenS (dk_updLine address (m_cstate_update (\<lambda>_. if access = STORE then MODIFIED else SHARED)))
    (thenS (dk_accessDataArray env now False)
       (whenS (eviction \<and> m_cstate evict_block_info = MODIFIED)
         (bindS (liftS (\<lambda>k. putDataToDram env evict_address requester (Some data_buf) now (dk_dram_cntlr k))) (\<lambda>(l, w, d).
            modifyS (dk_dram_cntlr_update (\<lambda>_. d))))))))"

definition dk_prefetch_one :: "dram_env \<Rightarrow> UInt8 list \<Rightarrow> UInt64 \<Rightarrow> IntPtr \<Rightarrow> unit kop" where
  "dk_prefetch_one env uninit t_issue prefetch_address =
     bindS (liftS (\<lambda>k. peekSingleLine (dk_cache k) prefetch_address)) (\<lambda>block.
       whenS (block = None)
         (bindS (getS dk_core_id) (\<lambda>core_id.
          bindS (dk_getData env prefetch_address core_id uninit t_issue False) (\<lambda>(dram_latency, data).
          thenS (dk_insertLine env LOAD prefetch_address core_id data (t_issue + dram_latency))
         (thenS (dk_updLine prefetch_address (\<lambda>b. setOption b PREFETCH))
         (thenS (modifyS (\<lambda>k. k\<lparr>dk_prefetch_mshr := snd (getCompletionTime t_issue dram_latency prefetch_address (dk_prefetch_mshr k))\<rparr>))
            (modifyS (\<lambda>k. k\<lparr>dk_prefetches := dk_prefetches k + 1\<rparr>))))))))"

definition dk_callPrefetcher :: "dram_env \<Rightarrow> UInt8 list \<Rightarrow> IntPtr \<Rightarrow> bool \<Rightarrow> bool \<Rightarrow> UInt64 \<Rightarrow> prefetcher \<Rightarrow> unit kop" where
  "dk_callPrefetcher env uninit train_address cache_hit prefetch_hit t_issue p =
     bindS (liftS (\<lambda>_. getNextAddress train_address INVALID_CORE_ID p)) (\<lambda>(prefetchList, p1).
     thenS (modifyS (dk_prefetcher_update (\<lambda>_. Some p1)))
    (bindS (getS dk_prefetch_on_prefetch_hit) (\<lambda>on_hit.
       whenS (\<not> cache_hit \<or> (on_hit \<and> prefetch_hit))
         (foldS (\<lambda>_ a. dk_prefetch_one env uninit t_issue a) () prefetchList))))"

definition dk_hit :: "dram_env \<Rightarrow> access_t \<Rightarrow> IntPtr \<Rightarrow> UInt8 list \<Rightarrow> UInt64 \<Rightarrow> UInt64 \<Rightarrow> bool \<Rightarrow> cache_block_info \<Rightarrow> (bool \<times> UInt64) kop" where
  "dk_hit env access address data_buf now latency has_perf b =
     bindS (if hasOption b PREFETCH
            then
              thenS (modifyS (\<lambda>k. k\<lparr>dk_hits_prefetch := dk_hits_prefetch k + 1\<rparr>))
             (thenS (dk_updLine address (\<lambda>b. clearOption b PREFETCH))
             (bindS (getS (\<lambda>k. getTagCompletionTime address (dk_prefetch_mshr k))) (\<lambda>t_completed.
                if t_completed \<noteq> MaxTime \<and> t_completed > now + latency
                then thenS (modifyS (\<lambda>k. k\<lparr>dk_prefetch_mshr_delay := dk_prefetch_mshr_delay k + (t_completed - (now + latency))\<rparr>))
                       (returnS (True, t_completed - now))
                else returnS (True, latency))))
            else returnS (False, latency)) (\<lambda>(prefetch_hit, latency1).
     bindS (liftS (\<lambda>k. accessSingleLine (dk_cache k) address access (Some data_buf) (dk_cache_block_size k) True)) (\<lambda>(line, data, c).
     thenS (modifyS (dk_cache_update (\<lambda>_. c)))
    (bindS (dk_accessDataArray env (now + latency1) has_perf) (\<lambda>l.
     thenS (whenS (access = STORE) (dk_updLine address (m_cstate_update (\<lambda>_. MODIFIED))))
       (returnS (prefetch_hit, latency1 + l))))))"

definition dk_doAccess :: "dram_env \<Rightarrow> UInt8 list \<Rightarrow> access_t \<Rightarrow> IntPtr \<Rightarrow> core_id_t \<Rightarrow> UInt8 list \<Rightarrow> UInt64 \<Rightarrow> bool \<Rightarrow> (bool \<times> UInt64) kop" where
  "dk_doAccess env uninit access address requester data_buf now has_perf =
     bindS (liftS (\<lambda>k. peekSingleLine (dk_cache k) address)) (\<lambda>block_info.
     bindS (getS dk_tags_access_time) (\<lambda>latency.
     thenS (perf_updateTime has_perf now T_UNKNOWN)
    (thenS (perf_updateTime has_perf (now + latency) DRAM_CACHE_TAGS)
    (bindS (case block_info of
              Some b \<Rightarrow> dk_hit env access address data_buf now latency has_perf b
            | None \<Rightarrow>
                bindS (if access = LOAD
                       then bindS (dk_getData env address requester data_buf (now + latency) has_perf) (\<lambda>(dram_latency, data).
                              returnS (latency + dram_latency, data))
                       else returnS (latency, data_buf)) (\<lambda>(latency1, data).
                thenS (dk_insertLine env access address requester data (now + latency1)) (returnS (False, latency1)))) (\<lambda>(prefetch_hit, latency2).
     bindS (getS dk_prefetcher) (\<lambda>pf.
     thenS (case pf of None \<Rightarrow> returnS ()
                     | Some p \<Rightarrow> dk_callPrefetcher env uninit address (block_info \<noteq> None) prefetch_hit (now + latency2) p)
       (returnS (block_info \<noteq> None, latency2))))))))"

definition dk_getDataFromDram :: "dram_env \<Rightarrow> UInt8 list \<Rightarrow> IntPtr \<Rightarrow> core_id_t \<Rightarrow> UInt8 list \<Rightarrow> UInt64 \<Rightarrow> bool \<Rightarrow> (UInt64 \<times> where_t) kop" where
  "dk_getDataFromDram env uninit address requester data_buf now has_perf =
     bindS (dk_doAccess env uninit LOAD address requester data_buf now has_perf) (\<lambda>(hit, latency).
     thenS (modifyS (\<lambda>k. (if hit then k else k\<lparr>dk_read_misses := dk_read_misses k + 1\<rparr>)\<lparr>dk_reads := dk_reads k + 1\<rparr>))
       (returnS (latency, if hit then DRAM_CACHE else DRAM)))"

definition dk_putDataToDram :: "dram_env \<Rightarrow> UInt8 list \<Rightarrow> IntPtr \<Rightarrow> core_id_t \<Rightarrow> UInt8 list \<Rightarrow> UInt64 \<Rightarrow> (UInt64 \<times> where_t) kop" where
  "dk_putDataToDram env uninit address requester data_buf now =
     bindS (dk_doAccess env uninit STORE address requester data_buf now False) (\<lambda>(hit, latency).
     thenS (modifyS (\<lambda>k. (if hit then k else k\<lparr>dk_write_misses := dk_write_misses k + 1\<rparr>)\<lparr>dk_writes := dk_writes k + 1\<rparr>))
       (returnS (latency, if hit then DRAM_CACHE else DRAM)))"


section \<open>Properties\<close>

lemma accessDataArray_needs_perf: "dk_accessDataArray env t False k \<noteq> Inr r"
  by (auto simp: dk_accessDataArray_def perf_updateTime_def op_defs elim!: bindE_eq_InrE)

lemma insertLine_fails: "dk_insertLine env access a r data t k \<noteq> Inr x"
  using accessDataArray_needs_perf by (fastforce simp: dk_insertLine_def op_defs elim!: bindE_eq_InrE)

text \<open>
  C15: The DRAM cache cannot be filled. Inserting a line accounts for the data array through a \<^verbatim>\<open>NULL\<close> record of times, so
  a read of a line that is not cached never completes, and as a write passes \<^verbatim>\<open>NULL\<close> from the start, no write does.
\<close>

theorem dram_cache_miss_fails:
  assumes "peekSingleLine (dk_cache k) a = Inr None"
  shows "dk_getDataFromDram env uninit a requester data now has_perf k \<noteq> Inr r \<and>
    dk_putDataToDram env uninit b requester data now k2 \<noteq> Inr r2"
proof
  show "dk_getDataFromDram env uninit a requester data now has_perf k \<noteq> Inr r"
    using assms insertLine_fails
    by (fastforce simp: dk_getDataFromDram_def dk_doAccess_def perf_updateTime_def bindS_def thenS_def liftS_def getS_def modifyS_def failS_def
        elim!: bindE_eq_InrE split: if_splits)
  show "dk_putDataToDram env uninit b requester data now k2 \<noteq> Inr r2"
    by (auto simp: dk_putDataToDram_def dk_doAccess_def perf_updateTime_def op_defs elim!: bindE_eq_InrE)
qed


definition example_dram_cache :: dram_cache where
  "example_dram_cache =
     \<lparr>dk_core_id = 0, dk_cache_block_size = 64, dk_data_access_time = 5, dk_tags_access_time = 2, dk_data_array_bandwidth = 1000,
      dk_dram_cntlr = example_dram, dk_cache = example_cache, dk_queue_model = None, dk_prefetcher = None,
      dk_prefetch_on_prefetch_hit = False, dk_prefetch_mshr = ContentionModel 16 1, dk_reads = 0, dk_writes = 0,
      dk_read_misses = 0, dk_write_misses = 0, dk_hits_prefetch = 0, dk_prefetches = 0, dk_prefetch_mshr_delay = 0, dk_perf = ShmemPerf\<rparr>"

theorem dram_cache_miss_fails_witness:
  "isl (dk_getDataFromDram example_dram_env [] 0x1000 0 [] 5 True example_dram_cache) \<and>
   isl (dk_putDataToDram example_dram_env [] 0x1000 0 [] 5 example_dram_cache)"
proof -
  have "peekSingleLine (dk_cache example_dram_cache) 0x1000 = Inr None" using example_insert(3) by (simp add: example_dram_cache_def)
  then show ?thesis
    using dram_cache_miss_fails [of example_dram_cache "0x1000" example_dram_env "[]" 0 "[]" 5 True _ "0x1000" example_dram_cache]
    by (metis obj_sumE sum.disc(1))
qed

end
