(* ===== verification/Network_Mesh.thy ===== *)
theory Network_Mesh
  imports Queue_Models Bit_Utils Sim_Monad "HOL-Library.Signed_Division"
begin

text \<open>
  \<^verbatim>\<open>network/network_model_emesh_hop_by_hop.{h,cc}\<close>: the grid of network nodes, the coordinates of the cores, the next
  node of a packet under dimension-order routing, and the positions of the memory controllers. Division and
  remainder are those of C. Several cores share a node (the concentration); the first of them is its master and the
  others are fake nodes, which take no part in the topology. The dimensions come from floating point functions
  whose arguments are integers below \<^term>\<open>2 ^ 31\<close>, for which they are exact, so the model uses integers.
\<close>

section \<open>Nodes\<close>

datatype output_direction = UP | DOWN | LEFT | RIGHT | SELF | PEER | DESTINATION

record hop =
  final_dest :: core_id_t
  next_dest :: core_id_t
  hop_time :: UInt64

record emesh =
  m_mesh_width :: int
  m_mesh_height :: int
  m_link_queues :: "output_direction \<Rightarrow> queue_model option"
  m_injection_port_queue_model :: "queue_model option"
  m_ejection_port_queue_model :: "queue_model option"
  em_enabled :: bool
  m_total_bytes_sent :: UInt64
  m_total_packets_sent :: UInt64
  m_total_bytes_received :: UInt64
  m_total_packets_received :: UInt64
  m_total_contention_delay :: UInt64
  m_total_packet_latency :: UInt64
  m_fake_node :: bool
  em_core_id :: core_id_t
  m_concentration :: int
  m_wrap_around :: bool
  m_link_bandwidth :: component_bandwidth_per_cycle
  m_hop_latency :: component_latency
  m_broadcast_tree_enabled :: bool
  m_queue_model_enabled :: bool

text \<open>What the models read of the configuration.\<close>

record net_cfg =
  nc_total_cores :: int
  nc_application_cores :: int
  nc_concentration :: int
  nc_dimensions :: int
  nc_size :: "(int \<times> int) option option"
  nc_wrap_around :: bool
  nc_broadcast_tree :: bool
  nc_queue_model_enabled :: bool
  nc_queue_model_type :: string
  nc_queue_cfg :: queue_cfg
  nc_queue_env :: queue_env
  nc_link_bandwidth :: component_bandwidth_per_cycle
  nc_hop_latency :: component_latency

section \<open>The grid\<close>

text \<open>\<^verbatim>\<open>floor(sqrt(n))\<close>, counting up.\<close>

definition floor_sqrt :: "int \<Rightarrow> int" where
  "floor_sqrt n = int (length (takeWhile (\<lambda>k. int k * int k \<le> n) [1 ..< Suc (nat n)]))"

text \<open>\<open>nc_size\<close> is \<open>None\<close> for the empty string and \<open>Some None\<close> for a string \<^verbatim>\<open>sscanf\<close> does not read two numbers from.\<close>

definition computeMeshDimensions :: "net_cfg \<Rightarrow> (int \<times> int) result" where
  "computeMeshDimensions c =
     (let core_count = nc_application_cores c; concentration = nc_concentration c in
      case nc_size c of
        None \<Rightarrow>
          bindE (assertE (concentration \<noteq> 0) (UNDEFINED ''core_count / 0'')) (\<lambda>_.
          bindE (if nc_dimensions c = 1 then Inr (core_count sdiv concentration, 1)
                 else if nc_dimensions c = 2
                 then let w = floor_sqrt (core_count sdiv concentration) in
                      bindE (assertE (w \<noteq> 0) (UNDEFINED ''core_count / concentration / 0'')) (\<lambda>_.
                        Inr (w, - ((- core_count) div (concentration * w))))
                 else Inl (LOG_PRINT_ERROR ''Invalid value for dimensions'')) (\<lambda>(w, h).
            bindE (assertE (core_count = concentration * h * w) (LOG_ASSERT_ERROR ''Cannot build a mesh'')) (\<lambda>_. Inr (w, h))))
      | Some None \<Rightarrow> Inl (LOG_ASSERT_ERROR ''Invalid mesh size'')
      | Some (Some (w, h)) \<Rightarrow>
          bindE (assertE (core_count = concentration * h * w) (LOG_ASSERT_ERROR ''Invalid mesh size'')) (\<lambda>_. Inr (w, h)))"

definition createQueueModels :: "net_cfg \<Rightarrow> emesh \<Rightarrow> emesh result" where
  "createQueueModels c m =
     (let create = QueueModel_create (nc_queue_cfg c) (nc_queue_model_type c) (bw_period (m_link_bandwidth m)) in
      bindE create (\<lambda>down. bindE create (\<lambda>left. bindE create (\<lambda>up. bindE create (\<lambda>right.
      bindE create (\<lambda>inject. bindE create (\<lambda>eject.
        Inr (m\<lparr>m_link_queues := (m_link_queues m)(DOWN \<mapsto> down, LEFT \<mapsto> left, UP \<mapsto> up, RIGHT \<mapsto> right),
               m_injection_port_queue_model := Some inject, m_ejection_port_queue_model := Some eject\<rparr>))))))))"

definition NetworkModelEMeshHopByHop :: "net_cfg \<Rightarrow> core_id_t \<Rightarrow> emesh result" where
  "NetworkModelEMeshHopByHop c core_id =
     bindE (computeMeshDimensions c) (\<lambda>(w, h).
     let m = \<lparr>m_mesh_width = w, m_mesh_height = h, m_link_queues = (\<lambda>_. None), m_injection_port_queue_model = None,
              m_ejection_port_queue_model = None, em_enabled = False, m_total_bytes_sent = 0, m_total_packets_sent = 0,
              m_total_bytes_received = 0, m_total_packets_received = 0, m_total_contention_delay = 0,
              m_total_packet_latency = 0, m_fake_node = False, em_core_id = core_id, m_concentration = nc_concentration c,
              m_wrap_around = nc_wrap_around c, m_link_bandwidth = nc_link_bandwidth c, m_hop_latency = nc_hop_latency c,
              m_broadcast_tree_enabled = nc_broadcast_tree c, m_queue_model_enabled = nc_queue_model_enabled c\<rparr> in
     bindE (assertE (nc_concentration c \<noteq> 0) (UNDEFINED ''core_id % 0'')) (\<lambda>_.
       if core_id smod nc_concentration c \<noteq> 0 \<or> core_id \<ge> nc_concentration c * w * h
       then Inr (m\<lparr>m_fake_node := True\<rparr>)
       else createQueueModels c m))"

definition computePosition :: "emesh \<Rightarrow> core_id_t \<Rightarrow> int \<times> int" where
  "computePosition m core_id =
     ((core_id sdiv m_concentration m) smod m_mesh_width m, (core_id sdiv m_concentration m) sdiv m_mesh_width m)"

definition computeCoreId :: "emesh \<Rightarrow> int \<Rightarrow> int \<Rightarrow> core_id_t" where
  "computeCoreId m x y =
     (((y + m_mesh_height m) smod m_mesh_height m) * m_mesh_width m + (x + m_mesh_width m) smod m_mesh_width m) * m_concentration m"

definition computeDistance :: "emesh \<Rightarrow> core_id_t \<Rightarrow> core_id_t \<Rightarrow> int" where
  "computeDistance m sender receiver =
     (let (sx, sy) = computePosition m sender; (dx, dy) = computePosition m receiver in
      if m_wrap_around m
      then min \<bar>sx - dx\<bar> (m_mesh_width m - \<bar>sx - dx\<bar>) + min \<bar>sy - dy\<bar> (m_mesh_height m - \<bar>sy - dy\<bar>)
      else \<bar>sx - dx\<bar> + \<bar>sy - dy\<bar>)"

section \<open>Dimension-order routing\<close>

definition getNextDest :: "net_cfg \<Rightarrow> emesh \<Rightarrow> core_id_t \<Rightarrow> output_direction \<times> core_id_t" where
  "getNextDest c m dest =
     (if dest \<ge> nc_application_cores c then (DESTINATION, dest)
      else if em_core_id m sdiv m_concentration m = dest sdiv m_concentration m then (DESTINATION, dest)
      else if m_fake_node m then (PEER, em_core_id m - em_core_id m smod m_concentration m)
      else
        let (sx, sy) = computePosition m (em_core_id m); (dx, dy) = computePosition m dest in
        if (sx > dx) \<noteq> (m_wrap_around m \<and> \<bar>sx - dx\<bar> > (m_mesh_width m + 1) sdiv 2) then (LEFT, computeCoreId m (sx - 1) sy)
        else if sx \<noteq> dx then (RIGHT, computeCoreId m (sx + 1) sy)
        else if (sy > dy) \<noteq> (m_wrap_around m \<and> \<bar>sy - dy\<bar> > (m_mesh_height m + 1) sdiv 2) then (DOWN, computeCoreId m sx (sy - 1))
        else if sy \<noteq> dy then (UP, computeCoreId m sx (sy + 1))
        else (SELF, em_core_id m))"

section \<open>Memory controllers\<close>

definition computeCoreCountConstraints :: "net_cfg \<Rightarrow> int \<Rightarrow> (bool \<times> int) result" where
  "computeCoreCountConstraints c core_count =
     bindE (computeMeshDimensions c) (\<lambda>(w, h).
     bindE (assertE (core_count \<le> w * h) (ASSERT ''core_count <= mesh_width * mesh_height'')) (\<lambda>_.
     bindE (assertE (core_count > (w - 1) * h) (ASSERT ''core_count > (mesh_width - 1) * mesh_height'')) (\<lambda>_.
     bindE (assertE (core_count > w * (h - 1)) (ASSERT ''core_count > mesh_width * (mesh_height - 1)'')) (\<lambda>_.
       Inr (True, h * w)))))"

text \<open>The nodes along the perimeter, clockwise from the origin.\<close>

definition perimeter :: "int \<Rightarrow> int \<Rightarrow> int \<Rightarrow> core_id_t list" where
  "perimeter dimensions w h =
     [0 .. w - 1] @
     (if dimensions > 1 \<and> h > 1
      then map (\<lambda>i. i * w + w - 1) [1 .. h - 2] @ map (\<lambda>i. (h - 1) * w + i) (rev [0 .. w - 1]) @ map (\<lambda>i. i * w) (rev [1 .. h - 2])
      else [])"

definition mesh_computeMemoryControllerPositions :: "net_cfg \<Rightarrow> int \<Rightarrow> (bool \<times> core_id_t list) result" where
  "mesh_computeMemoryControllerPositions c num_memory_controllers =
     bindE (computeMeshDimensions c) (\<lambda>(w, h).
     let along = perimeter (nc_dimensions c) w h; size = int (length along) in
     bindE (assertE (nc_dimensions c > 1 \<and> h > 1 \<longrightarrow> size = 2 * (w + h - 2)) (ASSERT ''perimeter size'')) (\<lambda>_.
     bindE (assertE (num_memory_controllers \<ge> 0 \<and> size \<ge> num_memory_controllers) (LOG_ASSERT_ERROR ''num cores along perimeter'')) (\<lambda>_.
     bindE (assertE (num_memory_controllers \<noteq> 0) (UNDEFINED ''size / 0'')) (\<lambda>_.
     let spacing = size sdiv num_memory_controllers in
       Inr (True, map (\<lambda>i. nc_concentration c * along ! nat ((i * spacing + w sdiv 2) smod size)) [0 .. num_memory_controllers - 1])))))"

section \<open>Routing reaches every node\<close>

lemma sdiv_nonneg: "0 \<le> a \<Longrightarrow> 0 < b \<Longrightarrow> a sdiv b = a div (b :: int)"
  by (auto simp: signed_divide_int_def sgn_if)

lemma smod_nonneg: "0 \<le> a \<Longrightarrow> 0 < b \<Longrightarrow> a smod b = a mod (b :: int)"
  by (cases "a = 0") (simp_all add: signed_modulo_int_def)

text \<open>Steps along a line or a ring of \<open>n\<close> positions, and how many it takes.\<close>

definition line_step :: "int \<Rightarrow> bool \<Rightarrow> int \<Rightarrow> int \<Rightarrow> int" where
  "line_step n wrap s d = ((if (s > d) \<noteq> (wrap \<and> \<bar>s - d\<bar> > (n + 1) div 2) then s - 1 else s + 1) + n) mod n"

definition line_hops :: "int \<Rightarrow> bool \<Rightarrow> int \<Rightarrow> int \<Rightarrow> int" where
  "line_hops n wrap s d = (if wrap \<and> \<bar>s - d\<bar> > (n + 1) div 2 then n - \<bar>s - d\<bar> else \<bar>s - d\<bar>)"

lemma mod_around:
  assumes "- 1 \<le> x" "x \<le> n" "0 < n"
  shows "(x + n) mod n = (if x = - 1 then n - 1 else if x = n then 0 else (x :: int))"
proof -
  have "(n - 1) mod n = n - 1" using assms by (intro mod_pos_pos_trivial) auto
  then show ?thesis using assms by (cases "x = - 1") (auto simp: mod_pos_pos_trivial)
qed

lemma line_step_range: "0 < n \<Longrightarrow> 0 \<le> line_step n wrap s d \<and> line_step n wrap s d < n"
  by (simp add: line_step_def)

lemma line_step_closer:
  assumes "0 \<le> s" "s < n" "0 \<le> d" "d < n" "s \<noteq> d"
  shows "line_hops n wrap (line_step n wrap s d) d = line_hops n wrap s d - 1"
proof -
  have around: "(x + n) mod n = (if x = - 1 then n - 1 else if x = n then 0 else x)" if "- 1 \<le> x" "x \<le> n" for x
    using mod_around that assms by force
  have step: "line_step n wrap s d = (if (s > d) \<noteq> (wrap \<and> \<bar>s - d\<bar> > (n + 1) div 2) then (if s = 0 then n - 1 else s - 1) else (if s = n - 1 then 0 else s + 1))"
    unfolding line_step_def using assms by (subst around) auto
  show ?thesis
    using assms unfolding step line_hops_def by (cases wrap) (auto simp: abs_if split: if_splits)
qed

lemma line_hops_pos: "0 \<le> s \<Longrightarrow> s < n \<Longrightarrow> 0 \<le> d \<Longrightarrow> d < n \<Longrightarrow> 0 \<le> line_hops n wrap s d \<and> (line_hops n wrap s d = 0 \<longleftrightarrow> s = d)"
  by (auto simp: line_hops_def)

lemma line_hops_minimal: "\<bar>s - d\<bar> < n \<Longrightarrow> even n \<Longrightarrow> line_hops n True s d = min \<bar>s - d\<bar> (n - \<bar>s - d\<bar>)"
  by (auto simp: line_hops_def min_def elim!: evenE)


text \<open>
  A grid: every node knows the same dimensions and its own core. Where a core stands is
  \<open>column\<close> and \<open>row\<close>.
\<close>

definition grid :: "net_cfg \<Rightarrow> (core_id_t \<Rightarrow> emesh) \<Rightarrow> int \<Rightarrow> int \<Rightarrow> int \<Rightarrow> bool \<Rightarrow> bool" where
  "grid c nd w h n wrap \<longleftrightarrow>
     0 < w \<and> 0 < h \<and> 0 < n \<and> nc_application_cores c = n * h * w \<and>
     (\<forall>k. 0 \<le> k \<longrightarrow> k < nc_application_cores c \<longrightarrow>
        em_core_id (nd k) = k \<and> m_mesh_width (nd k) = w \<and> m_mesh_height (nd k) = h \<and> m_concentration (nd k) = n \<and>
        m_wrap_around (nd k) = wrap \<and> m_fake_node (nd k) = (k mod n \<noteq> 0))"

definition column :: "int \<Rightarrow> int \<Rightarrow> core_id_t \<Rightarrow> int" where
  "column w n k = k div n mod w"

definition row :: "int \<Rightarrow> int \<Rightarrow> core_id_t \<Rightarrow> int" where
  "row w n k = k div n div w"

definition distance :: "int \<Rightarrow> int \<Rightarrow> int \<Rightarrow> bool \<Rightarrow> core_id_t \<Rightarrow> core_id_t \<Rightarrow> int" where
  "distance w h n wrap a b = line_hops w wrap (column w n a) (column w n b) + line_hops h wrap (row w n a) (row w n b)"

lemma gridD:
  assumes "grid c nd w h n wrap" "0 \<le> k" "k < nc_application_cores c"
  shows "em_core_id (nd k) = k" "m_mesh_width (nd k) = w" "m_mesh_height (nd k) = h" "m_concentration (nd k) = n"
    "m_wrap_around (nd k) = wrap" "m_fake_node (nd k) = (k mod n \<noteq> 0)" "0 < w" "0 < h" "0 < n"
    "nc_application_cores c = n * h * w"
  using assms by (auto simp: grid_def)

lemma div_below: "k < m * n \<Longrightarrow> 0 < n \<Longrightarrow> k div n < (m :: int)"
proof (rule ccontr)
  assume "k < m * n" "0 < n" "\<not> k div n < m"
  then have "m * n \<le> k div n * n" by simp
  also have "\<dots> \<le> k" using \<open>0 < n\<close> pos_mod_sign [of n k] div_mult_mod_eq [of k n] by linarith
  finally show False using \<open>k < m * n\<close> by simp
qed

lemma place_range:
  assumes "0 < w" "0 < h" "0 < n" "0 \<le> k" "k < n * h * w"
  shows "0 \<le> column w n k" "column w n k < w" "0 \<le> row w n k" "row w n k < h"
proof -
  have "k < h * w * n" using assms(5) by (simp add: mult_ac)
  with assms have "k div n < h * w" by (simp add: div_below)
  then show "row w n k < h" using assms by (simp add: row_def div_below)
qed (use assms in \<open>auto simp: column_def row_def pos_imp_zdiv_nonneg_iff\<close>)

lemma same_place:
  assumes "column w n a = column w n b" "row w n a = row w n b"
  shows "a div n = b div n"
proof -
  have "a div n = row w n a * w + column w n a" by (simp only: column_def row_def div_mult_mod_eq)
  also have "\<dots> = row w n b * w + column w n b" by (simp only: assms)
  also have "\<dots> = b div n" by (simp only: column_def row_def div_mult_mod_eq)
  finally show ?thesis .
qed

lemma computePosition_grid: "0 \<le> k \<Longrightarrow> 0 < m_mesh_width m \<Longrightarrow> 0 < m_concentration m \<Longrightarrow>
  computePosition m k = (column (m_mesh_width m) (m_concentration m) k, row (m_mesh_width m) (m_concentration m) k)"
  by (simp add: computePosition_def column_def row_def sdiv_nonneg smod_nonneg pos_imp_zdiv_nonneg_iff)

lemma core_of_place:
  assumes "0 < w" "0 < h" "0 < n" "0 \<le> x" "x < w" "0 \<le> y" "y < h" "k = (y * w + x) * n"
  shows "0 \<le> k" "k < n * h * w" "k mod n = 0" "column w n k = x" "row w n k = y"
proof -
  have "y * w + x < h * w"
    using assms mult_right_mono [of "y + 1" h w] by (simp add: algebra_simps)
  moreover have "0 \<le> y * w + x" using assms by simp
  ultimately show "0 \<le> k" "k < n * h * w" using assms by (simp_all add: mult_ac)
  show "k mod n = 0" using assms by simp
  show "column w n k = x" "row w n k = y" using assms by (simp_all add: column_def row_def)
qed

text \<open>One step of the route from a master: to a neighbour that is one hop closer.\<close>

lemma getNextDest_step:
  assumes "grid c nd w h n wrap" "0 \<le> k" "k < nc_application_cores c" "k mod n = 0" "0 \<le> d" "d < nc_application_cores c"
    and "k div n \<noteq> d div n"
  obtains dir k1 where "getNextDest c (nd k) d = (dir, k1)" "dir \<in> {LEFT, RIGHT, UP, DOWN}" "0 \<le> k1" "k1 < nc_application_cores c"
    "k1 mod n = 0" "distance w h n wrap k1 d = distance w h n wrap k d - 1"
proof -
  note g = gridD [OF assms(1-3)]
  define sx sy dx dy where "sx = column w n k" and "sy = row w n k" and "dx = column w n d" and "dy = row w n d"
  have r: "0 \<le> sx" "sx < w" "0 \<le> sy" "sy < h" "0 \<le> dx" "dx < w" "0 \<le> dy" "dy < h"
    using place_range [of w h n k] place_range [of w h n d] g assms by (simp_all add: sx_def sy_def dx_def dy_def)
  have ne: "sx \<noteq> dx \<or> sy \<noteq> dy" using same_place assms(7) by (metis sx_def sy_def dx_def dy_def)
  have id: "computeCoreId (nd k) x y = (((y + h) mod h) * w + (x + w) mod w) * n" if "- 1 \<le> x" "- 1 \<le> y" for x y
    using that g by (simp add: computeCoreId_def smod_nonneg)
  have half: "(m + 1) sdiv 2 = (m + 1) div 2" if "0 < m" for m :: int using that by (simp add: sdiv_nonneg)
  define nx where "nx = (if sx \<noteq> dx then line_step w wrap sx dx else sx)"
  define ny where "ny = (if sx \<noteq> dx then sy else line_step h wrap sy dy)"
  have self: "(sy + h) mod h = sy" "(sx + w) mod w = sx" using r by simp_all
  have pos: "computePosition (nd k) k = (sx, sy)" "computePosition (nd k) d = (dx, dy)"
    using assms g by (simp_all add: computePosition_grid sx_def sy_def dx_def dy_def)
  have route: "getNextDest c (nd k) d =
      (if (sx > dx) \<noteq> (wrap \<and> \<bar>sx - dx\<bar> > (w + 1) div 2) then (LEFT, computeCoreId (nd k) (sx - 1) sy)
       else if sx \<noteq> dx then (RIGHT, computeCoreId (nd k) (sx + 1) sy)
       else if (sy > dy) \<noteq> (wrap \<and> \<bar>sy - dy\<bar> > (h + 1) div 2) then (DOWN, computeCoreId (nd k) sx (sy - 1))
       else if sy \<noteq> dy then (UP, computeCoreId (nd k) sx (sy + 1)) else (SELF, k))"
  proof -
    have "(d \<ge> nc_application_cores c) = False" "(k sdiv n = d sdiv n) = False" "(k mod n \<noteq> 0) = False"
      using assms g(9) by (simp_all add: sdiv_nonneg)
    then show ?thesis unfolding getNextDest_def g(1-6) by (simp only: pos half [OF g(7)] half [OF g(8)] if_False Let_def prod.case)
  qed
  have next_eq: "\<exists>dir. dir \<in> {LEFT, RIGHT, UP, DOWN} \<and> getNextDest c (nd k) d = (dir, (ny * w + nx) * n)"
  proof (cases "sx = dx")
    case True
    then have eq: "sy \<noteq> dy" using ne by simp
    have cid: "computeCoreId (nd k) sx (sy - 1) = ((sy - 1 + h) mod h * w + sx) * n"
      "computeCoreId (nd k) sx (sy + 1) = ((sy + 1 + h) mod h * w + sx) * n"
      using id [of "sx" "sy - 1"] id [of "sx" "sy + 1"] r self by simp_all
    have no: "((sx > dx) \<noteq> (wrap \<and> \<bar>sx - dx\<bar> > (w + 1) div 2)) = False" using True g(7) by simp
    define down where "down \<longleftrightarrow> ((sy > dy) \<noteq> (wrap \<and> \<bar>sy - dy\<bar> > (h + 1) div 2))"
    show ?thesis unfolding route no cid nx_def ny_def line_step_def down_def [symmetric] using eq True by simp
  next
    case False
    have cid: "computeCoreId (nd k) (sx - 1) sy = (sy * w + (sx - 1 + w) mod w) * n"
      "computeCoreId (nd k) (sx + 1) sy = (sy * w + (sx + 1 + w) mod w) * n"
      using id [of "sx - 1" "sy"] id [of "sx + 1" "sy"] r self by simp_all
    define left where "left \<longleftrightarrow> ((sx > dx) \<noteq> (wrap \<and> \<bar>sx - dx\<bar> > (w + 1) div 2))"
    show ?thesis unfolding route cid nx_def ny_def line_step_def left_def [symmetric] using False by simp
  qed
  have range: "0 \<le> nx" "nx < w" "0 \<le> ny" "ny < h"
    using r g line_step_range by (auto simp: nx_def ny_def)
  note p = core_of_place [OF g(7-9) range refl]
  have "distance w h n wrap ((ny * w + nx) * n) d = distance w h n wrap k d - 1"
    unfolding distance_def p(4,5) sx_def [symmetric] sy_def [symmetric] dx_def [symmetric] dy_def [symmetric]
    using r ne line_step_closer [of sx w dx wrap] line_step_closer [of sy h dy wrap] by (auto simp: nx_def ny_def)
  moreover obtain dir where "dir \<in> {LEFT, RIGHT, UP, DOWN}" "getNextDest c (nd k) d = (dir, (ny * w + nx) * n)"
    using next_eq by blast
  ultimately show ?thesis using that [of dir "(ny * w + nx) * n"] p(1-3) unfolding g(10) by blast
qed

lemma distance_zero:
  assumes "0 < w" "0 < h" "0 < n" "0 \<le> a" "a < n * h * w" "0 \<le> b" "b < n * h * w"
  shows "0 \<le> distance w h n wrap a b" "distance w h n wrap a b = 0 \<longleftrightarrow> a div n = b div n"
proof -
  note ra = place_range [OF assms(1-5)] and rb = place_range [OF assms(1-3) assms(6,7)]
  have z: "distance w h n wrap a b = 0 \<longleftrightarrow> column w n a = column w n b \<and> row w n a = row w n b"
    using line_hops_pos [OF ra(1,2) rb(1,2), of wrap] line_hops_pos [OF ra(3,4) rb(3,4), of wrap] unfolding distance_def by linarith
  show "0 \<le> distance w h n wrap a b"
    using line_hops_pos [OF ra(1,2) rb(1,2)] line_hops_pos [OF ra(3,4) rb(3,4)] unfolding distance_def by simp
  show "distance w h n wrap a b = 0 \<longleftrightarrow> a div n = b div n"
    unfolding z using same_place by (auto simp: column_def row_def)
qed

text \<open>C9: from any master core, following \<^verbatim>\<open>getNextDest\<close> leads to the node of the destination, in as many hops as
  \<open>distance\<close> says and through links only; without wrap-around, or with even dimensions, that is the number
  \<^verbatim>\<open>computeDistance\<close> charges.\<close>

theorem routing_reaches_destination:
  assumes "grid c nd w h n wrap" "0 \<le> s" "s < nc_application_cores c" "s mod n = 0" "0 \<le> d" "d < nc_application_cores c"
  shows "(let route = (\<lambda>j. ((\<lambda>k. snd (getNextDest c (nd k) d)) ^^ j) s); len = nat (distance w h n wrap s d) in
            route len div n = d div n \<and> getNextDest c (nd (route len)) d = (DESTINATION, d) \<and>
            (\<forall>j<len. fst (getNextDest c (nd (route j)) d) \<in> {LEFT, RIGHT, UP, DOWN}) \<and>
            (\<not> wrap \<or> even w \<and> even h \<longrightarrow> int len = computeDistance (nd s) s d))"
proof -
  note g = gridD [OF assms(1-3)]
  define step route len where "step = (\<lambda>k. snd (getNextDest c (nd k) d))" and "route = (\<lambda>j. (step ^^ j) s)"
    and "len = nat (distance w h n wrap s d)"
  note dz = distance_zero [OF g(7-9)]
  have d0: "0 \<le> distance w h n wrap s d" using dz(1) assms g(10) by simp
  have along: "0 \<le> route j \<and> route j < nc_application_cores c \<and> route j mod n = 0 \<and>
      distance w h n wrap (route j) d = distance w h n wrap s d - int j" if "j \<le> len" for j
    using that
  proof (induction j)
    case 0
    then show ?case using assms by (simp add: route_def)
  next
    case (Suc j)
    then have IH: "0 \<le> route j" "route j < nc_application_cores c" "route j mod n = 0"
      "distance w h n wrap (route j) d = distance w h n wrap s d - int j" by simp_all
    moreover have "distance w h n wrap (route j) d \<noteq> 0" using Suc.prems IH(4) d0 by (simp add: len_def)
    ultimately have "route j div n \<noteq> d div n" using dz(2) [of "route j" d wrap] assms g(10) by simp
    from getNextDest_step [OF assms(1) IH(1-3) assms(5,6) this] obtain dir k1 where
      k1: "getNextDest c (nd (route j)) d = (dir, k1)" "0 \<le> k1" "k1 < nc_application_cores c" "k1 mod n = 0"
        "distance w h n wrap k1 d = distance w h n wrap (route j) d - 1" by metis
    then have "route (Suc j) = k1" by (simp add: route_def step_def)
    with k1 IH show ?case by simp
  qed
  have there: "route len div n = d div n"
    using along [of len] dz(2) [of "route len" d wrap] assms g(10) d0 by (simp add: len_def)
  have "getNextDest c (nd (route len)) d = (DESTINATION, d)"
    using gridD [OF assms(1), of "route len"] along [of len] there assms by (simp add: getNextDest_def sdiv_nonneg)
  moreover have "fst (getNextDest c (nd (route j)) d) \<in> {LEFT, RIGHT, UP, DOWN}" if "j < len" for j
  proof -
    have r: "0 \<le> route j" "route j < nc_application_cores c" "route j mod n = 0" using along [of j] that by simp_all
    have "distance w h n wrap (route j) d \<noteq> 0" using along [of j] that d0 by (simp add: len_def)
    then have "route j div n \<noteq> d div n" using dz(2) [of "route j" d wrap] r assms g(10) by simp
    from getNextDest_step [OF assms(1) r assms(5,6) this] show ?thesis by (metis fst_conv)
  qed
  moreover have "int len = computeDistance (nd s) s d" if "\<not> wrap \<or> even w \<and> even h"
  proof -
    note ra = place_range [OF g(7-9) assms(2)] and rb = place_range [OF g(7-9) assms(5)]
    have "\<bar>column w n s - column w n d\<bar> < w" "\<bar>row w n s - row w n d\<bar> < h"
      using ra rb assms g(10) by simp_all
    then show ?thesis
      using that d0 assms g line_hops_minimal [of "column w n s" "column w n d" w] line_hops_minimal [of "row w n s" "row w n d" h]
      by (cases wrap) (simp_all add: len_def computeDistance_def computePosition_grid distance_def line_hops_def)
  qed
  ultimately show ?thesis using there by (simp add: Let_def route_def step_def len_def)
qed

definition example_net_cfg :: "int \<Rightarrow> int \<Rightarrow> int \<Rightarrow> bool \<Rightarrow> net_cfg" where
  "example_net_cfg w h n wrap =
     \<lparr>nc_total_cores = n * h * w, nc_application_cores = n * h * w, nc_concentration = n, nc_dimensions = 2,
      nc_size = Some (Some (w, h)), nc_wrap_around = wrap, nc_broadcast_tree = False, nc_queue_model_enabled = True,
      nc_queue_model_type = ''history_list'',
      nc_queue_cfg = \<lparr>moving_avg_enabled = False, moving_avg_window_size = 1, moving_avg_type = [], analytical_model_enabled = False,
        history_max_list_size = 100, mg1_window_ns = 1000, cfg_core_period = 500000\<rparr>,
      nc_queue_env = \<lparr>geometric_mean_of = (\<lambda>_. 0), mg1_formula = (\<lambda>_ _ _ _. 0), queue_global_time = 0\<rparr>,
      nc_link_bandwidth = \<lparr>bw_period = 500000, m_bw_in_bits_per_cycle = 64\<rparr>,
      nc_hop_latency = \<lparr>cl_period = 500000, m_fixed_cycle_latency = 2\<rparr>\<rparr>"

definition built :: "net_cfg \<Rightarrow> core_id_t \<Rightarrow> emesh" where
  "built c k = (case NetworkModelEMeshHopByHop c k of Inr m \<Rightarrow> m | Inl _ \<Rightarrow> undefined)"

text \<open>The nodes the constructor builds form a grid.\<close>

lemma constructed_grid:
  assumes "0 < w" "0 < h" "0 < n"
  shows "grid (example_net_cfg w h n wrap) (built (example_net_cfg w h n wrap)) w h n wrap"
  using assms
  by (auto simp: grid_def built_def NetworkModelEMeshHopByHop_def computeMeshDimensions_def createQueueModels_def example_net_cfg_def
      QueueModel_create_def smod_nonneg Let_def mult_ac)

theorem routing_reaches_destination_witness:
  "let c = example_net_cfg 4 2 2 False; nd = built c; route = (\<lambda>j. ((\<lambda>k. snd (getNextDest c (nd k) 15)) ^^ j) 0); len = nat (distance 4 2 2 False 0 15) in
     len = 4 \<and> route len div 2 = 7 \<and> getNextDest c (nd (route len)) 15 = (DESTINATION, 15)"
proof -
  have d: "distance 4 2 2 False 0 15 = 4" by (simp add: distance_def column_def row_def line_hops_def)
  show ?thesis
    using routing_reaches_destination [OF constructed_grid [of 4 2 2 False], of 0 15]
    unfolding d by (simp add: example_net_cfg_def Let_def)
qed

text \<open>On a ring with an odd number of nodes the long way round is taken for the middle distance, while
  \<^verbatim>\<open>computeDistance\<close> charges the short way.\<close>

lemma odd_ring_detour:
  assumes "grid c nd 5 1 1 True"
  shows "((\<lambda>k. snd (getNextDest c (nd k) 3)) ^^ 2) 0 \<noteq> 3" "computeDistance (nd 0) 0 3 = 2"
proof -
  note g = gridD [OF assms]
  have a: "nc_application_cores c = 5" using assms by (simp add: grid_def)
  have n0: "getNextDest c (nd 0) 3 = (RIGHT, 1)"
    using g [of 0] a by (simp add: getNextDest_def computePosition_grid column_def row_def computeCoreId_def sdiv_nonneg smod_nonneg)
  have n1: "getNextDest c (nd 1) 3 = (RIGHT, 2)"
    using g [of 1] a by (simp add: getNextDest_def computePosition_grid column_def row_def computeCoreId_def sdiv_nonneg smod_nonneg)
  show "((\<lambda>k. snd (getNextDest c (nd k) 3)) ^^ 2) 0 \<noteq> 3" using n0 n1 by (simp add: numeral_2_eq_2)
  show "computeDistance (nd 0) 0 3 = 2" using g [of 0] a by (simp add: computeDistance_def computePosition_grid column_def row_def)
qed

section \<open>Positions of memory controllers\<close>

definition perimeter_places :: "int \<Rightarrow> int \<Rightarrow> int \<Rightarrow> (int \<times> int) list" where
  "perimeter_places dimensions w h =
     map (\<lambda>i. (i, 0)) [0 .. w - 1] @
     (if dimensions > 1 \<and> h > 1
      then map (\<lambda>i. (w - 1, i)) [1 .. h - 2] @ map (\<lambda>i. (i, h - 1)) (rev [0 .. w - 1]) @ map (\<lambda>i. (0, i)) (rev [1 .. h - 2])
      else [])"

lemma perimeter_places: "perimeter dimensions w h = map (\<lambda>(x, y). y * w + x) (perimeter_places dimensions w h)"
  by (simp add: perimeter_def perimeter_places_def comp_def algebra_simps)

lemma perimeter_places_distinct: "2 \<le> w \<or> dimensions \<le> 1 \<or> h = 1 \<Longrightarrow> distinct (perimeter_places dimensions w h)"
  by (auto simp: perimeter_places_def distinct_map inj_on_def)

lemma perimeter_places_range: "0 < w \<Longrightarrow> 0 < h \<Longrightarrow> (x, y) \<in> set (perimeter_places dimensions w h) \<Longrightarrow>
  0 \<le> x \<and> x < w \<and> 0 \<le> y \<and> y < h \<and> (x = 0 \<or> x = w - 1 \<or> y = 0 \<or> y = h - 1)"
  by (auto simp: perimeter_places_def split: if_splits)

lemma place_inj: "0 \<le> x \<Longrightarrow> x < w \<Longrightarrow> 0 \<le> x' \<Longrightarrow> x' < w \<Longrightarrow> y * w + x = y' * w + x' \<Longrightarrow> (x, y) = (x', y' :: int)"
proof -
  assume a: "0 \<le> x" "x < w" "0 \<le> x'" "x' < w" "y * w + x = y' * w + x'"
  have "(y * w + x) div w = y" "(y' * w + x') div w = y'" using a(1-4) by simp_all
  with a(5) show ?thesis by auto
qed

lemma perimeter_distinct:
  assumes "0 < w" "0 < h" "2 \<le> w \<or> dimensions \<le> 1 \<or> h = 1"
  shows "distinct (perimeter dimensions w h)"
  unfolding perimeter_places distinct_map
proof (intro conjI inj_onI)
  show "distinct (perimeter_places dimensions w h)" by (rule perimeter_places_distinct [OF assms(3)])
  fix p q
  assume pq: "p \<in> set (perimeter_places dimensions w h)" "q \<in> set (perimeter_places dimensions w h)"
    "(case p of (x, y) \<Rightarrow> y * w + x) = (case q of (x, y) \<Rightarrow> y * w + x)"
  obtain x y x' y' where e: "p = (x, y)" "q = (x', y')" by (cases p, cases q)
  have "0 \<le> x \<and> x < w" "0 \<le> x' \<and> x' < w"
    using perimeter_places_range [OF assms(1,2) pq(1) [unfolded e]] perimeter_places_range [OF assms(1,2) pq(2) [unfolded e]] by simp_all
  then show "p = q" using pq(3) place_inj [of x w x' y y'] unfolding e by simp
qed

lemma spaced_distinct:
  assumes "0 < n" "n \<le> (len :: int)" "0 \<le> i" "i < j" "j < n"
  shows "(i * (len div n) + off) mod len \<noteq> (j * (len div n) + off) mod len"
proof
  assume "(i * (len div n) + off) mod len = (j * (len div n) + off) mod len"
  then have "len dvd (j * (len div n) + off) - (i * (len div n) + off)" by (metis mod_eq_dvd_iff)
  then have d: "len dvd (j - i) * (len div n)" by (simp add: algebra_simps)
  have sp: "1 \<le> len div n" using zdiv_mono1 [OF assms(2,1)] assms(1) by simp
  then have pos: "0 < (j - i) * (len div n)" using assms by simp
  have "(j - i) * (len div n) < n * (len div n)" using assms sp by (intro mult_strict_right_mono) auto
  also have "\<dots> \<le> len" using assms pos_mod_sign [of n len] mult_div_mod_eq [of n len] by linarith
  finally show False using d pos zdvd_imp_le by fastforce
qed

text \<open>C11: the controllers of a grid with at least two columns are as many as asked for, all different, and sit at the
  master cores of nodes on the border.\<close>

theorem controllers_distinct_on_border:
  assumes "computeMeshDimensions c = Inr (w, h)" "0 < w" "0 < h" "0 < nc_concentration c" "2 \<le> w \<or> nc_dimensions c \<le> 1 \<or> h = 1"
    and "mesh_computeMemoryControllerPositions c n = Inr (b, cores)"
  shows "length cores = nat n \<and> distinct cores \<and>
    (\<forall>k\<in>set cores. 0 \<le> k \<and> k < nc_application_cores c \<and> k mod nc_concentration c = 0 \<and>
       (let x = column w (nc_concentration c) k; y = row w (nc_concentration c) k in x = 0 \<or> x = w - 1 \<or> y = 0 \<or> y = h - 1))"
proof -
  define ps len index where "ps = perimeter (nc_dimensions c) w h" and "len = int (length ps)"
    and "index = (\<lambda>i. (i * (len div n) + w div 2) mod len)"
  have n0: "n \<noteq> 0" and n1: "0 \<le> n" "n \<le> len"
    and cores': "cores = map (\<lambda>i. nc_concentration c * ps ! nat ((i * (len sdiv n) + w sdiv 2) smod len)) [0 .. n - 1]"
    using assms(6) unfolding mesh_computeMemoryControllerPositions_def assms(1) bindE_simps prod.case Let_def ps_def len_def
    by (auto split: if_splits)
  have n: "0 < n" "n \<le> len" using n0 n1 by simp_all
  have cores: "cores = map (\<lambda>i. nc_concentration c * ps ! nat (index i)) [0 .. n - 1]"
    unfolding cores' index_def using n assms(2) by (intro map_cong refl) (simp add: sdiv_nonneg smod_nonneg pos_imp_zdiv_nonneg_iff)
  have app: "nc_application_cores c = nc_concentration c * h * w"
    using assms(1) by (auto simp: computeMeshDimensions_def Let_def split: if_splits option.splits)
  have in_range: "0 \<le> index i \<and> index i < len" for i using n by (simp add: index_def)
  have ps_in: "ps ! nat (index i) \<in> set ps" for i using in_range [of i] by (intro nth_mem) (simp add: len_def zless_nat_eq_int_zless nat_less_iff)
  have place: "\<exists>x y. p = y * w + x \<and> 0 \<le> x \<and> x < w \<and> 0 \<le> y \<and> y < h \<and> (x = 0 \<or> x = w - 1 \<or> y = 0 \<or> y = h - 1)" if "p \<in> set ps" for p
    using that perimeter_places_range [OF assms(2,3)] unfolding ps_def perimeter_places by fastforce
  have "distinct ps" unfolding ps_def using perimeter_distinct assms by blast
  have inj: "index i = index j" if "ps ! nat (index i) = ps ! nat (index j)" for i j
  proof -
    have "nat (index i) < length ps" "nat (index j) < length ps" using in_range [of i] in_range [of j] by (simp_all add: len_def nat_less_iff)
    with that \<open>distinct ps\<close> have "nat (index i) = nat (index j)" by (simp add: nth_eq_iff_index_eq)
    then show ?thesis using in_range [of i] in_range [of j] by (metis eq_nat_nat_iff)
  qed
  have "i = j" if "0 \<le> i" "i < n" "0 \<le> j" "j < n" "index i = index j" for i j
    using that spaced_distinct [OF n, of i j "w div 2"] spaced_distinct [OF n, of j i "w div 2"] unfolding index_def
    by (metis linorder_neqE_linordered_idom)
  then have "distinct cores"
    unfolding cores distinct_map using inj assms(4) by (auto intro!: inj_onI)
  moreover have "0 \<le> k \<and> k < nc_application_cores c \<and> k mod nc_concentration c = 0 \<and>
       (let x = column w (nc_concentration c) k; y = row w (nc_concentration c) k in x = 0 \<or> x = w - 1 \<or> y = 0 \<or> y = h - 1)"
    if "k \<in> set cores" for k
  proof -
    from that obtain i where k: "k = nc_concentration c * ps ! nat (index i)" by (auto simp: cores)
    obtain x y where p: "ps ! nat (index i) = y * w + x" and xy: "0 \<le> x" "x < w" "0 \<le> y" "y < h"
      "x = 0 \<or> x = w - 1 \<or> y = 0 \<or> y = h - 1" using place [OF ps_in [of i]] by blast
    have kxy: "k = (y * w + x) * nc_concentration c" unfolding k p by (rule mult.commute)
    from core_of_place [OF assms(2-4) xy(1-4) kxy] xy(5) app show ?thesis by (simp add: Let_def)
  qed
  ultimately show ?thesis by (simp add: cores)
qed

theorem controllers_distinct_on_border_witness:
  "mesh_computeMemoryControllerPositions (example_net_cfg 4 3 2 False) 4 = Inr (True, [4, 14, 20, 16]) \<and> distinct [4, 14, 20, 16 :: int]"
proof -
  have d: "computeMeshDimensions (example_net_cfg 4 3 2 False) = Inr (4, 3)" by (simp add: computeMeshDimensions_def example_net_cfg_def)
  have p: "mesh_computeMemoryControllerPositions (example_net_cfg 4 3 2 False) 4 = Inr (True, [4, 14, 20, 16])" by code_simp
  have "0 < nc_concentration (example_net_cfg 4 3 2 False)" by (simp add: example_net_cfg_def)
  from controllers_distinct_on_border [OF d _ _ this _ p] p show ?thesis by simp
qed

text \<open>In a grid of one column the right-hand and the left-hand border are the same nodes, and two controllers can land on one.\<close>

lemma one_column_duplicates:
  "mesh_computeMemoryControllerPositions (example_net_cfg 1 3 1 False) 3 = Inr (True, [0, 1, 2]) \<and>
   mesh_computeMemoryControllerPositions (example_net_cfg 1 4 1 False) 3 = Inr (True, [0, 2, 2])"
  by code_simp

end
