(* ===== verification/Network_Models.thy ===== *)
theory Network_Models
  imports Network_Mesh Dram_Directory_Cntlr
begin

text \<open>
  \<^verbatim>\<open>network/network_model*.{h,cc}\<close>: packets and the four models of a network. A model turns a packet into the hops it
  takes next, each with a time, and accounts packets that arrive. The data of a shared-memory packet is the message
  it carries. \<^verbatim>\<open>routePacket\<close> also adds to the queueing delay of the packet, which is a result of the operation.
\<close>

section \<open>Packets\<close>

datatype packet_type = INVALID_PACKET_TYPE | SHARED_MEM_1 | SIM_THREAD_TERMINATE_THREADS | CORE_THREAD_TERMINATE_THREADS

datatype static_network = STATIC_NETWORK_MEMORY_1 | STATIC_NETWORK_SYSTEM

definition g_type_to_static_network_map :: "packet_type \<Rightarrow> static_network" where
  "g_type_to_static_network_map t = (if t = SHARED_MEM_1 then STATIC_NETWORK_MEMORY_1 else STATIC_NETWORK_SYSTEM)"

record net_packet =
  pk_start_time :: UInt64
  pk_time :: UInt64
  pk_queue_delay :: UInt64
  pk_type :: packet_type
  pk_sender :: core_id_t
  pk_receiver :: core_id_t
  pk_length :: UInt32
  pk_data :: "shmem_msg option"

definition BROADCAST :: core_id_t where
  "BROADCAST = sint (0xDEADBABE :: 32 word)"

definition NetPacket :: net_packet where
  "NetPacket = \<lparr>pk_start_time = 0, pk_time = 0, pk_queue_delay = 0, pk_type = INVALID_PACKET_TYPE, pk_sender = INVALID_CORE_ID,
     pk_receiver = INVALID_CORE_ID, pk_length = 0, pk_data = None\<rparr>"

definition NetPacket_of :: "UInt64 \<Rightarrow> packet_type \<Rightarrow> core_id_t \<Rightarrow> core_id_t \<Rightarrow> UInt32 \<Rightarrow> shmem_msg option \<Rightarrow> net_packet" where
  "NetPacket_of t ty s r l d = NetPacket\<lparr>pk_time := t, pk_type := ty, pk_sender := s, pk_receiver := r, pk_length := l, pk_data := d\<rparr>"

text \<open>The size of a \<^verbatim>\<open>NetPacket\<close> with 64-bit pointers.\<close>

definition bufferSize :: "net_packet \<Rightarrow> UInt32" where
  "bufferSize p = 48 + pk_length p"

definition msg_getModeledLength :: "shmem_msg \<Rightarrow> UInt32 result" where
  "msg_getModeledLength m =
     (if m_msg_type m \<in> {EX_REQ, SH_REQ, INV_REQ, FLUSH_REQ, WB_REQ, UPGRADE_REP, UPGRADE_REQ, INV_REP, DRAM_READ_REQ} then Inr 9
      else if m_msg_type m \<in> {EX_REP, SH_REP, FLUSH_REP, WB_REP, DRAM_WRITE_REQ, DRAM_READ_REP}
      then Inr (9 + (case m_data_buf m of None \<Rightarrow> 0 | Some d \<Rightarrow> of_nat (length d)))
      else Inl (LOG_PRINT_ERROR ''Unrecognized Msg Type''))"

definition computeCoreIDLength :: "UInt32 \<Rightarrow> UInt32" where
  "computeCoreIDLength core_count =
     (let num_bits = word_of_int (ceilLog2 core_count) :: UInt32
      in if num_bits mod 8 = 0 then num_bits div 8 else num_bits div 8 + 1)"

definition getModeledLength :: "net_cfg \<Rightarrow> net_packet \<Rightarrow> UInt32 result" where
  "getModeledLength c p =
     (if pk_type p = SHARED_MEM_1
      then case pk_data p of
             None \<Rightarrow> Inl (UNDEFINED ''packet without a message'')
           | Some m \<Rightarrow> bindE (msg_getModeledLength m) (\<lambda>data_size.
                         Inr (1 + 2 * computeCoreIDLength (word_of_int (nc_total_cores c)) + 2 + data_size))
      else Inr (bufferSize p))"

text \<open>The core a packet is accounted to.\<close>

definition packet_requester :: "net_cfg \<Rightarrow> net_packet \<Rightarrow> core_id_t result" where
  "packet_requester c p =
     bindE (if pk_type p = SHARED_MEM_1
            then case pk_data p of None \<Rightarrow> Inl (UNDEFINED ''packet without a message'') | Some m \<Rightarrow> Inr (m_requester m)
            else Inr (pk_sender p)) (\<lambda>requester.
     bindE (assertE (requester \<ge> 0 \<and> requester < nc_total_cores c) (LOG_ASSERT_ERROR ''requester'')) (\<lambda>_. Inr requester))"

definition direct_hop :: "UInt64 \<Rightarrow> core_id_t \<Rightarrow> hop" where
  "direct_hop t dest = \<lparr>final_dest = dest, next_dest = dest, hop_time = t\<rparr>"

definition hops_to :: "net_cfg \<Rightarrow> net_packet \<Rightarrow> UInt64 \<Rightarrow> hop list" where
  "hops_to c p t = (if pk_receiver p = BROADCAST then map (direct_hop t) [0 .. nc_total_cores c - 1] else [direct_hop t (pk_receiver p)])"

section \<open>The hop-by-hop mesh\<close>

type_synonym 'a eop = "(emesh, 'a) op"

definition computeProcessingTime :: "UInt32 \<Rightarrow> UInt64 eop" where
  "computeProcessingTime pkt_length =
     bindS (getS m_fake_node) (\<lambda>fake.
     thenS (assertS (\<not> fake) (LOG_ASSERT_ERROR ''Cannot computeProcessingTime on a fake network node''))
       (liftS (\<lambda>m. bwpc_getRoundedLatency (m_link_bandwidth m) (ucast (pkt_length * 8)))))"

definition use_port :: "net_cfg \<Rightarrow> UInt64 \<Rightarrow> UInt64 \<Rightarrow> queue_model option \<Rightarrow> (UInt64 \<times> queue_model option) result" where
  "use_port c pkt_time processing_time q =
     (case q of
        None \<Rightarrow> Inl (UNDEFINED ''queue model not created'')
      | Some q0 \<Rightarrow> bindE (computeQueueDelay (nc_queue_env c) pkt_time processing_time q0) (\<lambda>(d, q1). Inr (d, Some q1)))"

text \<open>Latency of a link, and the queueing delay in it.\<close>

definition computeLatency :: "net_cfg \<Rightarrow> output_direction \<Rightarrow> UInt64 \<Rightarrow> UInt32 \<Rightarrow> core_id_t \<Rightarrow> (UInt64 \<times> UInt64) eop" where
  "computeLatency c direction pkt_time pkt_length requester =
     bindS (getS id) (\<lambda>m.
     thenS (assertS (\<not> m_fake_node m) (LOG_ASSERT_ERROR ''Cannot computeLatency on a fake network node''))
    (thenS (assertS (direction \<in> {UP, DOWN, LEFT, RIGHT}) (LOG_ASSERT_ERROR ''Invalid Direction''))
       (if \<not> em_enabled m \<or> requester \<ge> nc_application_cores c then returnS (0, 0)
        else
          bindS (computeProcessingTime pkt_length) (\<lambda>processing_time.
          bindS (if m_queue_model_enabled m
                 then bindS (liftS (\<lambda>m. use_port c pkt_time processing_time (m_link_queues m direction))) (\<lambda>(d, q).
                      thenS (modifyS (\<lambda>m. m\<lparr>m_link_queues := (m_link_queues m)(direction := q)\<rparr>)) (returnS d))
                 else returnS 0) (\<lambda>queue_delay.
            returnS (cl_getLatency (m_hop_latency m) + queue_delay, queue_delay))))))"

definition addHop :: "net_cfg \<Rightarrow> output_direction \<Rightarrow> core_id_t \<Rightarrow> core_id_t \<Rightarrow> UInt64 \<Rightarrow> UInt32 \<Rightarrow> core_id_t \<Rightarrow> (hop \<times> UInt64) eop" where
  "addHop c direction dest next pkt_time pkt_length requester =
     (if direction \<in> {SELF, PEER, DESTINATION} then returnS (\<lparr>final_dest = dest, next_dest = next, hop_time = pkt_time\<rparr>, 0)
      else bindS (computeLatency c direction pkt_time pkt_length requester) (\<lambda>(latency, queue_delay).
             returnS (\<lparr>final_dest = dest, next_dest = next, hop_time = pkt_time + latency\<rparr>, queue_delay)))"

definition computeInjectionPortQueueDelay :: "net_cfg \<Rightarrow> core_id_t \<Rightarrow> UInt64 \<Rightarrow> UInt32 \<Rightarrow> UInt64 eop" where
  "computeInjectionPortQueueDelay c pkt_receiver pkt_time pkt_length =
     bindS (getS id) (\<lambda>m.
     thenS (assertS (\<not> m_fake_node m) (LOG_ASSERT_ERROR ''Cannot computeInjectionPortQueueDelay on a fake network node''))
       (if \<not> m_queue_model_enabled m \<or> pkt_receiver = em_core_id m then returnS 0
        else bindS (computeProcessingTime pkt_length) (\<lambda>processing_time.
             bindS (liftS (\<lambda>m. use_port c pkt_time processing_time (m_injection_port_queue_model m))) (\<lambda>(d, q).
             thenS (modifyS (m_injection_port_queue_model_update (\<lambda>_. q))) (returnS d)))))"

definition computeEjectionPortQueueDelay :: "net_cfg \<Rightarrow> UInt64 \<Rightarrow> UInt32 \<Rightarrow> UInt64 eop" where
  "computeEjectionPortQueueDelay c pkt_time pkt_length =
     bindS (getS id) (\<lambda>m.
     thenS (assertS (\<not> m_fake_node m) (LOG_ASSERT_ERROR ''Cannot computeEjectionPortQueueDelay on a fake network node''))
       (if \<not> m_queue_model_enabled m then returnS 0
        else bindS (computeProcessingTime pkt_length) (\<lambda>processing_time.
             bindS (liftS (\<lambda>m. use_port c pkt_time processing_time (m_ejection_port_queue_model m))) (\<lambda>(d, q).
             thenS (modifyS (m_ejection_port_queue_model_update (\<lambda>_. q))) (returnS d)))))"

text \<open>The branches of \<^verbatim>\<open>routePacket\<close>: the broadcast tree, a broadcast as unicasts, and a unicast.\<close>

definition tree_hops :: "emesh \<Rightarrow> core_id_t \<Rightarrow> (output_direction \<times> core_id_t \<times> core_id_t) list" where
  "tree_hops m sender =
     (let (sx, sy) = computePosition m sender; (cx, cy) = computePosition m (em_core_id m) in
      (if cy \<ge> sy then [(UP, BROADCAST, computeCoreId m cx (cy + 1))] else []) @
      (if cy \<le> sy then [(DOWN, BROADCAST, computeCoreId m cx (cy - 1))] else []) @
      (if cy = sy
       then (if cx \<ge> sx then [(RIGHT, BROADCAST, computeCoreId m (cx + 1) cy)] else []) @
            (if cx \<le> sx then [(LEFT, BROADCAST, computeCoreId m (cx - 1) cy)] else []) @
            (if cx = sx then [(SELF, em_core_id m, em_core_id m)] else [])
       else []))"

definition route_tree :: "net_cfg \<Rightarrow> net_packet \<Rightarrow> UInt32 \<Rightarrow> core_id_t \<Rightarrow> hop list eop" where
  "route_tree c pkt pkt_length requester =
     bindS (getS em_core_id) (\<lambda>core.
     bindS (if pk_sender pkt = core then computeInjectionPortQueueDelay c (pk_receiver pkt) (pk_time pkt) pkt_length else returnS 0) (\<lambda>delay.
     bindS (getS (\<lambda>m. tree_hops m (pk_sender pkt))) (\<lambda>hops.
       foldS (\<lambda>hs (direction, dest, next).
                bindS (addHop c direction dest next (pk_time pkt + delay) pkt_length requester) (\<lambda>(h, _). returnS (hs @ [h]))) [] hops)))"

definition route_unicasts :: "net_cfg \<Rightarrow> net_packet \<Rightarrow> UInt32 \<Rightarrow> core_id_t \<Rightarrow> hop list eop" where
  "route_unicasts c pkt pkt_length requester =
     bindS (getS em_core_id) (\<lambda>core.
     thenS (assertS (pk_sender pkt = core) (LOG_ASSERT_ERROR ''BROADCAST message, Tree not enabled''))
       (foldS (\<lambda>hs i.
          bindS (computeInjectionPortQueueDelay c i (pk_time pkt) pkt_length) (\<lambda>delay.
          bindS (getS (\<lambda>m. getNextDest c m i)) (\<lambda>(direction, next).
          bindS (addHop c direction i next (pk_time pkt + delay) pkt_length requester) (\<lambda>(h, _). returnS (hs @ [h])))))
          [] [0 .. nc_total_cores c - 1]))"

definition route_unicast :: "net_cfg \<Rightarrow> net_packet \<Rightarrow> UInt32 \<Rightarrow> core_id_t \<Rightarrow> (hop list \<times> UInt64) eop" where
  "route_unicast c pkt pkt_length requester =
     bindS (getS em_core_id) (\<lambda>core.
     bindS (if pk_sender pkt = core then computeInjectionPortQueueDelay c (pk_receiver pkt) (pk_time pkt) pkt_length else returnS 0) (\<lambda>delay.
     bindS (getS (\<lambda>m. getNextDest c m (pk_receiver pkt))) (\<lambda>(direction, next).
     bindS (addHop c direction (pk_receiver pkt) next (pk_time pkt + delay) pkt_length requester) (\<lambda>(h, queue_delay).
       returnS ([h], delay + queue_delay)))))"

definition mesh_routePacket :: "net_cfg \<Rightarrow> net_packet \<Rightarrow> (hop list \<times> UInt64) eop" where
  "mesh_routePacket c pkt =
     bindS (liftS (\<lambda>_. packet_requester c pkt)) (\<lambda>requester.
     bindS (liftS (\<lambda>_. getModeledLength c pkt)) (\<lambda>pkt_length.
     thenS (modifyS (\<lambda>m. if pk_sender pkt = em_core_id m
                         then m\<lparr>m_total_packets_sent := m_total_packets_sent m + 1, m_total_bytes_sent := m_total_bytes_sent m + ucast pkt_length\<rparr>
                         else m))
    (bindS (getS id) (\<lambda>m.
       if pk_receiver pkt = BROADCAST
       then if m_fake_node m then returnS (map (direct_hop (pk_time pkt)) [0 .. nc_total_cores c - 1], 0)
            else bindS (if m_broadcast_tree_enabled m then route_tree c pkt pkt_length requester
                        else route_unicasts c pkt pkt_length requester) (\<lambda>hs. returnS (hs, 0))
       else if m_fake_node m then returnS ([direct_hop (pk_time pkt) (pk_receiver pkt)], 0)
       else route_unicast c pkt pkt_length requester))))"

definition mesh_processReceivedPacket :: "net_cfg \<Rightarrow> net_packet \<Rightarrow> net_packet eop" where
  "mesh_processReceivedPacket c pkt =
     bindS (liftS (\<lambda>_. getModeledLength c pkt)) (\<lambda>pkt_length.
     bindS (liftS (\<lambda>_. packet_requester c pkt)) (\<lambda>requester.
     bindS (getS id) (\<lambda>m.
       if \<not> em_enabled m \<or> requester \<ge> nc_application_cores c \<or> em_core_id m \<ge> nc_application_cores c then returnS pkt
       else
         let packet_latency = pk_time pkt - pk_start_time pkt;
             contention_delay = packet_latency - word_of_int (computeDistance m (pk_sender pkt) (em_core_id m)) * cl_getLatency (m_hop_latency m)
         in
         bindS (if pk_sender pkt \<noteq> em_core_id m \<and> \<not> m_fake_node m
                then bindS (computeProcessingTime pkt_length) (\<lambda>processing_time.
                     bindS (computeEjectionPortQueueDelay c (pk_time pkt) pkt_length) (\<lambda>delay. returnS (delay, processing_time)))
                else returnS (0, 0)) (\<lambda>(delay, processing_time).
         thenS (modifyS (\<lambda>m. m\<lparr>m_total_packets_received := m_total_packets_received m + 1,
                               m_total_bytes_received := m_total_bytes_received m + ucast pkt_length,
                               m_total_packet_latency := m_total_packet_latency m + (packet_latency + (delay + processing_time)),
                               m_total_contention_delay := m_total_contention_delay m + (contention_delay + delay)\<rparr>))
           (returnS (pkt\<lparr>pk_time := pk_time pkt + (delay + processing_time), pk_queue_delay := pk_queue_delay pkt + delay\<rparr>))))))"

section \<open>The hop counter, the bus and the magic network\<close>

record emesh_hop_counter =
  hc_hopLatency :: component_latency
  hc_linkBandwidth :: component_bandwidth_per_cycle
  hc_meshWidth :: int
  hc_meshHeight :: int
  hc_enabled :: bool
  hc_num_packets :: UInt64
  hc_num_bytes :: UInt64
  hc_total_latency :: UInt64

definition NetworkModelEMeshHopCounter :: "net_cfg \<Rightarrow> emesh_hop_counter result" where
  "NetworkModelEMeshHopCounter c =
     (let total_cores = nc_total_cores c; w = floor_sqrt total_cores; h = - ((- total_cores) div w) in
      bindE (assertE (total_cores \<le> w * h) (ASSERT ''total_cores <= _meshWidth * _meshHeight'')) (\<lambda>_.
      bindE (assertE (total_cores > (w - 1) * h) (ASSERT ''total_cores > (_meshWidth - 1) * _meshHeight'')) (\<lambda>_.
      bindE (assertE (total_cores > w * (h - 1)) (ASSERT ''total_cores > _meshWidth * (_meshHeight - 1)'')) (\<lambda>_.
        Inr \<lparr>hc_hopLatency = nc_hop_latency c, hc_linkBandwidth = nc_link_bandwidth c, hc_meshWidth = w, hc_meshHeight = h,
             hc_enabled = False, hc_num_packets = 0, hc_num_bytes = 0, hc_total_latency = 0\<rparr>))))"

definition counter_position :: "emesh_hop_counter \<Rightarrow> core_id_t \<Rightarrow> int \<times> int" where
  "counter_position m core = (core smod hc_meshWidth m, core sdiv hc_meshWidth m)"

definition counter_distance :: "int \<times> int \<Rightarrow> int \<times> int \<Rightarrow> int" where
  "counter_distance a b = (case a of (x1, y1) \<Rightarrow> case b of (x2, y2) \<Rightarrow> \<bar>x1 - x2\<bar> + \<bar>y1 - y2\<bar>)"

definition computeSerializationLatency :: "emesh_hop_counter \<Rightarrow> UInt32 \<Rightarrow> UInt64 result" where
  "computeSerializationLatency m pkt_length = bwpc_getRoundedLatency (hc_linkBandwidth m) (ucast (pkt_length * 8))"

definition counter_latency :: "emesh_hop_counter \<Rightarrow> UInt64 \<Rightarrow> core_id_t \<Rightarrow> core_id_t \<Rightarrow> UInt64" where
  "counter_latency m serialization sender i =
     word_of_int (counter_distance (counter_position m sender) (counter_position m i)) * cl_getLatency (hc_hopLatency m) +
     (if i \<noteq> sender then serialization else 0)"

definition counter_routePacket :: "net_cfg \<Rightarrow> net_packet \<Rightarrow> emesh_hop_counter \<Rightarrow> hop list result" where
  "counter_routePacket c pkt m =
     bindE (getModeledLength c pkt) (\<lambda>pkt_length.
     bindE (computeSerializationLatency m pkt_length) (\<lambda>serialization.
       Inr (if pk_receiver pkt = BROADCAST
            then map (\<lambda>i. direct_hop (pk_time pkt + word_of_int i * serialization + counter_latency m serialization (pk_sender pkt) i) i)
                   [0 .. nc_total_cores c - 1]
            else [direct_hop (pk_time pkt + counter_latency m serialization (pk_sender pkt) (pk_receiver pkt)) (pk_receiver pkt)])))"

definition counter_processReceivedPacket :: "net_cfg \<Rightarrow> net_packet \<Rightarrow> emesh_hop_counter \<Rightarrow> emesh_hop_counter result" where
  "counter_processReceivedPacket c pkt m =
     bindE (getModeledLength c pkt) (\<lambda>pkt_length.
     bindE (packet_requester c pkt) (\<lambda>requester.
       Inr (if \<not> hc_enabled m \<or> requester \<ge> nc_application_cores c then m
            else m\<lparr>hc_num_packets := hc_num_packets m + 1, hc_num_bytes := hc_num_bytes m + ucast pkt_length,
                   hc_total_latency := hc_total_latency m + (pk_time pkt - pk_start_time pkt)\<rparr>)))"

text \<open>All nodes of a static network share one bus.\<close>

record bus_global =
  bg_bandwidth :: UInt64
  bg_queue_model :: queue_model
  bg_num_packets :: UInt64
  bg_num_packets_delayed :: UInt64
  bg_num_bytes :: UInt64
  bg_time_used :: UInt64
  bg_total_delay :: UInt64

record network_bus =
  bus_enabled :: bool
  bus_ignore_local :: bool

definition NetworkModelBusGlobal :: "net_cfg \<Rightarrow> UInt64 \<Rightarrow> UInt64 \<Rightarrow> string \<Rightarrow> bus_global result" where
  "NetworkModelBusGlobal c bandwidth proc_period model_type =
     bindE (QueueModel_create (nc_queue_cfg c) model_type (10 * proc_period)) (\<lambda>q.
       Inr \<lparr>bg_bandwidth = bandwidth, bg_queue_model = q, bg_num_packets = 0, bg_num_packets_delayed = 0, bg_num_bytes = 0,
            bg_time_used = 0, bg_total_delay = 0\<rparr>)"

text \<open>The time the packet is through, and its queueing delay.\<close>

definition useBus :: "net_cfg \<Rightarrow> UInt64 \<Rightarrow> UInt32 \<Rightarrow> (bus_global, UInt64 \<times> UInt64) op" where
  "useBus c t_start len =
     bindS (liftS (\<lambda>g. bw_getLatency (bg_bandwidth g) (ucast (len * 8)))) (\<lambda>t_delay.
     bindS (liftS (\<lambda>g. computeQueueDelay (nc_queue_env c) t_start t_delay (bg_queue_model g))) (\<lambda>(t_queue, q).
     thenS (modifyS (\<lambda>g. g\<lparr>bg_queue_model := q, bg_time_used := bg_time_used g + t_delay, bg_total_delay := bg_total_delay g + t_queue,
                           bg_num_packets_delayed := bg_num_packets_delayed g + (if t_queue > 0 then 1 else 0)\<rparr>))
       (returnS (t_start + t_queue + t_delay, t_queue))))"

definition accountPacket :: "net_cfg \<Rightarrow> net_packet \<Rightarrow> network_bus \<Rightarrow> bool result" where
  "accountPacket c pkt b =
     bindE (packet_requester c pkt) (\<lambda>requester.
       Inr (\<not> (\<not> bus_enabled b \<or> (bus_ignore_local b \<and> pk_sender pkt = pk_receiver pkt) \<or> requester \<ge> nc_application_cores c \<or>
               pk_sender pkt \<ge> nc_application_cores c \<or> pk_receiver pkt \<ge> nc_application_cores c)))"

definition bus_routePacket :: "net_cfg \<Rightarrow> net_packet \<Rightarrow> network_bus \<Rightarrow> (bus_global, hop list \<times> UInt64) op" where
  "bus_routePacket c pkt b =
     bindS (liftS (\<lambda>_. accountPacket c pkt b)) (\<lambda>account.
     bindS (if account
            then bindS (liftS (\<lambda>_. getModeledLength c pkt)) (\<lambda>modeled.
                 thenS (modifyS (\<lambda>g. g\<lparr>bg_num_packets := bg_num_packets g + 1, bg_num_bytes := bg_num_bytes g + ucast modeled\<rparr>))
                   (useBus c (pk_time pkt) (pk_length pkt)))
            else returnS (pk_time pkt, 0)) (\<lambda>(t_recv, queue_delay).
       returnS (hops_to c pkt t_recv, queue_delay)))"

record network_magic =
  mg_enabled :: bool
  mg_num_packets :: UInt64
  mg_num_bytes :: UInt64
  mg_latency :: component_latency

definition NetworkModelMagic :: "UInt64 \<Rightarrow> network_magic" where
  "NetworkModelMagic period =
     \<lparr>mg_enabled = False, mg_num_packets = 0, mg_num_bytes = 0, mg_latency = \<lparr>cl_period = period, m_fixed_cycle_latency = 1\<rparr>\<rparr>"

definition magic_routePacket :: "net_cfg \<Rightarrow> net_packet \<Rightarrow> network_magic \<Rightarrow> hop list" where
  "magic_routePacket c pkt m = hops_to c pkt (pk_time pkt + cl_getLatency (mg_latency m))"

definition magic_processReceivedPacket :: "net_cfg \<Rightarrow> net_packet \<Rightarrow> network_magic \<Rightarrow> network_magic result" where
  "magic_processReceivedPacket c pkt m =
     bindE (packet_requester c pkt) (\<lambda>requester.
       if \<not> mg_enabled m \<or> requester \<ge> nc_application_cores c then Inr m
       else bindE (getModeledLength c pkt) (\<lambda>pkt_length.
              Inr (m\<lparr>mg_num_packets := mg_num_packets m + 1, mg_num_bytes := mg_num_bytes m + ucast pkt_length\<rparr>)))"

section \<open>The virtual calls\<close>

datatype network_type = NETWORK_MAGIC | NETWORK_EMESH_HOP_COUNTER | NETWORK_EMESH_HOP_BY_HOP | NETWORK_BUS

datatype model_kind = Magic network_magic | HopCounter emesh_hop_counter | HopByHop emesh | Bus network_bus

record network_model =
  nm_collect_traffic_matrix :: bool
  nm_matrix_packets :: "UInt64 list"
  nm_matrix_bytes :: "UInt64 list"
  nm_kind :: model_kind

definition parseNetworkType :: "string \<Rightarrow> network_type option" where
  "parseNetworkType str =
     (if str = ''magic'' then Some NETWORK_MAGIC else if str = ''emesh_hop_counter'' then Some NETWORK_EMESH_HOP_COUNTER
      else if str = ''emesh_hop_by_hop'' then Some NETWORK_EMESH_HOP_BY_HOP else if str = ''bus'' then Some NETWORK_BUS else None)"

text \<open>\<open>period\<close> is the clock period of the core, \<open>collect\<close> and \<open>ignore_local\<close> are configuration flags.\<close>

definition createModel :: "net_cfg \<Rightarrow> UInt64 \<Rightarrow> bool \<Rightarrow> bool \<Rightarrow> core_id_t \<Rightarrow> network_type option \<Rightarrow> network_model result" where
  "createModel c period collect ignore_local core_id model_type =
     bindE (case model_type of
              Some NETWORK_MAGIC \<Rightarrow> Inr (Magic (NetworkModelMagic period))
            | Some NETWORK_EMESH_HOP_COUNTER \<Rightarrow> bindE (NetworkModelEMeshHopCounter c) (\<lambda>m. Inr (HopCounter m))
            | Some NETWORK_EMESH_HOP_BY_HOP \<Rightarrow> bindE (NetworkModelEMeshHopByHop c core_id) (\<lambda>m. Inr (HopByHop m))
            | Some NETWORK_BUS \<Rightarrow> Inr (Bus \<lparr>bus_enabled = False, bus_ignore_local = ignore_local\<rparr>)
            | None \<Rightarrow> Inl (ASSERT ''false'')) (\<lambda>kind.
       let n = (if collect then nat (nc_total_cores c) + 1 else 0) in
       Inr \<lparr>nm_collect_traffic_matrix = collect, nm_matrix_packets = replicate n 0, nm_matrix_bytes = replicate n 0, nm_kind = kind\<rparr>)"

definition countPacket :: "net_cfg \<Rightarrow> net_packet \<Rightarrow> network_model \<Rightarrow> network_model result" where
  "countPacket c pkt m =
     (if nm_collect_traffic_matrix m
      then let dst = (if pk_receiver pkt = BROADCAST then int (length (nm_matrix_bytes m)) - 1 else pk_receiver pkt) in
           bindE (assertE (0 \<le> dst \<and> nat dst < length (nm_matrix_bytes m)) (UNDEFINED ''m_matrix_packets[dst]'')) (\<lambda>_.
           bindE (getModeledLength c pkt) (\<lambda>len.
             Inr (m\<lparr>nm_matrix_packets := (nm_matrix_packets m)[nat dst := nm_matrix_packets m ! nat dst + 1],
                    nm_matrix_bytes := (nm_matrix_bytes m)[nat dst := nm_matrix_bytes m ! nat dst + ucast len]\<rparr>)))
      else Inr m)"

text \<open>A model with the bus of its static network, which only a bus model touches.\<close>

type_synonym 'a nop = "(network_model \<times> bus_global, 'a) op"

definition routePacket :: "net_cfg \<Rightarrow> net_packet \<Rightarrow> (hop list \<times> UInt64) nop" where
  "routePacket c pkt =
     (\<lambda>(m, g). case nm_kind m of
        Magic k \<Rightarrow> Inr ((magic_routePacket c pkt k, 0), (m, g))
      | HopCounter k \<Rightarrow> bindE (counter_routePacket c pkt k) (\<lambda>hs. Inr ((hs, 0), (m, g)))
      | HopByHop k \<Rightarrow> bindE (mesh_routePacket c pkt k) (\<lambda>(r, k1). Inr (r, (m\<lparr>nm_kind := HopByHop k1\<rparr>, g)))
      | Bus k \<Rightarrow> bindE (bus_routePacket c pkt k g) (\<lambda>(r, g1). Inr (r, (m, g1))))"

definition processReceivedPacket :: "net_cfg \<Rightarrow> net_packet \<Rightarrow> network_model \<Rightarrow> (net_packet \<times> network_model) result" where
  "processReceivedPacket c pkt m =
     (case nm_kind m of
        Magic k \<Rightarrow> bindE (magic_processReceivedPacket c pkt k) (\<lambda>k1. Inr (pkt, m\<lparr>nm_kind := Magic k1\<rparr>))
      | HopCounter k \<Rightarrow> bindE (counter_processReceivedPacket c pkt k) (\<lambda>k1. Inr (pkt, m\<lparr>nm_kind := HopCounter k1\<rparr>))
      | HopByHop k \<Rightarrow> bindE (mesh_processReceivedPacket c pkt k) (\<lambda>(p, k1). Inr (p, m\<lparr>nm_kind := HopByHop k1\<rparr>))
      | Bus k \<Rightarrow> Inr (pkt, m))"

definition model_enable :: "bool \<Rightarrow> network_model \<Rightarrow> network_model" where
  "model_enable on m =
     m\<lparr>nm_kind := (case nm_kind m of
        Magic k \<Rightarrow> Magic (k\<lparr>mg_enabled := on\<rparr>) | HopCounter k \<Rightarrow> HopCounter (k\<lparr>hc_enabled := on\<rparr>)
      | HopByHop k \<Rightarrow> HopByHop (k\<lparr>em_enabled := on\<rparr>) | Bus k \<Rightarrow> Bus (k\<lparr>bus_enabled := on\<rparr>))\<rparr>"

definition net_computeCoreCountConstraints :: "net_cfg \<Rightarrow> network_type option \<Rightarrow> int \<Rightarrow> (bool \<times> int) result" where
  "net_computeCoreCountConstraints c t core_count =
     (case t of
        None \<Rightarrow> Inl (LOG_PRINT_ERROR ''Unrecognized network type'')
      | Some NETWORK_EMESH_HOP_BY_HOP \<Rightarrow> computeCoreCountConstraints c core_count
      | Some _ \<Rightarrow> Inr (False, core_count))"

definition computeMemoryControllerPositions :: "net_cfg \<Rightarrow> network_type option \<Rightarrow> int \<Rightarrow> int \<Rightarrow> (bool \<times> core_id_t list) result" where
  "computeMemoryControllerPositions c t num_memory_controllers core_count =
     (case t of
        None \<Rightarrow> Inl (LOG_PRINT_ERROR ''Unrecognized network type'')
      | Some NETWORK_EMESH_HOP_BY_HOP \<Rightarrow> mesh_computeMemoryControllerPositions c num_memory_controllers
      | Some _ \<Rightarrow>
          bindE (assertE (num_memory_controllers \<noteq> 0) (UNDEFINED ''core_count / 0'')) (\<lambda>_.
          let spacing = core_count sdiv num_memory_controllers; cores = map (\<lambda>i. i * spacing) [0 .. num_memory_controllers - 1] in
          bindE (assertE (\<forall>k\<in>set cores. k < core_count) (ASSERT ''i*spacing_between_memory_controllers < core_count'')) (\<lambda>_.
            Inr (False, cores))))"

section \<open>Where the memory controllers are\<close>

text \<open>\<open>positions\<close> are the numbers of \<^verbatim>\<open>controller_positions\<close>; how they are read out of the string is left out.\<close>

definition getCoreListWithMemoryControllers :: "net_cfg \<Rightarrow> network_type option \<Rightarrow> int \<Rightarrow> int \<Rightarrow> core_id_t list \<Rightarrow> core_id_t list result" where
  "getCoreListWithMemoryControllers c t num_memory_controllers interleaving positions =
     (let core_count = nc_application_cores c in
      bindE (assertE (num_memory_controllers \<le> core_count) (LOG_ASSERT_ERROR ''Num Memory Controllers'')) (\<lambda>_.
      if num_memory_controllers \<noteq> - 1
      then bindE (assertE (\<forall>k\<in>set positions. k < core_count) (LOG_ASSERT_ERROR ''core_num'')) (\<lambda>_.
           bindE (assertE (positions = [] \<or> int (length positions) = num_memory_controllers)
                    (LOG_ASSERT_ERROR ''num_controller_positions specified'')) (\<lambda>_.
             if positions \<noteq> [] then Inr positions
             else bindE (computeMemoryControllerPositions c t num_memory_controllers core_count) (\<lambda>(_, cores). Inr cores)))
      else if interleaving \<noteq> 0
      then let n = (core_count + interleaving - 1) sdiv interleaving; cores = map (\<lambda>i. i * interleaving) [0 .. n - 1] in
           bindE (assertE (\<forall>k\<in>set cores. k < core_count) (ASSERT ''i*memory_controllers_interleaving < core_count'')) (\<lambda>_. Inr cores)
      else Inr [0 .. core_count - 1]))"

end
