(* ===== verification/Network.thy ===== *)
theory Network
  imports Network_Models
begin

text \<open>
  \<^verbatim>\<open>network/network.{h,cc}\<close> and \<^verbatim>\<open>transport/smtransport.{h,cc}\<close>: the networks of all cores as one state. A core has a
  model per static network, a queue of the transport in which packets for it arrive, the packets it has received and
  nobody has fetched, and the packet types with a callback. Sending follows a packet from model to model until it has
  its destination; receiving hands it to the callback or keeps it. A core whose transport queue is empty waits, which
  is a state where its receiving step is not enabled; the lengths of messages in bytes are those of the model.
\<close>

section \<open>The state\<close>

record net_state =
  ns_models :: "core_id_t \<Rightarrow> static_network \<Rightarrow> network_model"
  ns_bus :: "static_network \<Rightarrow> bus_global"
  ns_transport :: "core_id_t \<Rightarrow> net_packet list option"
  ns_netQueue :: "core_id_t \<Rightarrow> net_packet list"
  ns_callbacks :: "core_id_t \<Rightarrow> packet_type \<Rightarrow> bool"
  ns_called :: "(core_id_t \<times> net_packet) list"

type_synonym 'a sop = "(net_state, 'a) op"

definition registerCallback :: "core_id_t \<Rightarrow> packet_type \<Rightarrow> net_state \<Rightarrow> net_state" where
  "registerCallback core t s = s\<lparr>ns_callbacks := (ns_callbacks s)(core := (ns_callbacks s core)(t := True))\<rparr>"

definition unregisterCallback :: "core_id_t \<Rightarrow> packet_type \<Rightarrow> net_state \<Rightarrow> net_state" where
  "unregisterCallback core t s = s\<lparr>ns_callbacks := (ns_callbacks s)(core := (ns_callbacks s core)(t := False))\<rparr>"

section \<open>The transport\<close>

definition createNode :: "net_cfg \<Rightarrow> core_id_t \<Rightarrow> unit sop" where
  "createNode c core =
     bindS (getS ns_transport) (\<lambda>t.
     thenS (assertS (0 \<le> core \<and> core < nc_total_cores c) (LOG_ASSERT_ERROR ''Request index out of range''))
    (thenS (assertS (t core = None) (LOG_ASSERT_ERROR ''Transport already allocated for id''))
       (modifyS (\<lambda>s. s\<lparr>ns_transport := (ns_transport s)(core \<mapsto> [])\<rparr>))))"

definition transport_send :: "net_cfg \<Rightarrow> core_id_t \<Rightarrow> net_packet \<Rightarrow> unit sop" where
  "transport_send c dest pkt =
     bindS (getS (\<lambda>s. ns_transport s dest)) (\<lambda>q.
     thenS (assertS (0 \<le> dest \<and> dest < nc_total_cores c) (LOG_ASSERT_ERROR ''Core id out of range''))
       (case q of
          None \<Rightarrow> failS (LOG_ASSERT_ERROR ''Attempt to send to non-existent node'')
        | Some ps \<Rightarrow> modifyS (\<lambda>s. s\<lparr>ns_transport := (ns_transport s)(dest \<mapsto> ps @ [pkt])\<rparr>)))"

definition query :: "core_id_t \<Rightarrow> net_state \<Rightarrow> bool" where
  "query core s \<longleftrightarrow> (case ns_transport s core of Some (p # ps) \<Rightarrow> True | _ \<Rightarrow> False)"

section \<open>Sending\<close>

definition on_model :: "core_id_t \<Rightarrow> static_network \<Rightarrow> 'a nop \<Rightarrow> 'a sop" where
  "on_model core net f =
     (\<lambda>s. bindE (f (ns_models s core net, ns_bus s net)) (\<lambda>(x, (m, g)).
        Inr (x, s\<lparr>ns_models := (ns_models s)(core := (ns_models s core)(net := m)), ns_bus := (ns_bus s)(net := g)\<rparr>)))"

text \<open>
  The loop that follows a packet through the models of the nodes on its way; it ends when the next node is the
  destination. The packet's own queueing delay keeps growing, but the bytes that are sent were copied before.
\<close>

partial_function (option) follow :: "net_cfg \<Rightarrow> net_packet \<Rightarrow> hop \<Rightarrow> net_state \<Rightarrow> (hop \<times> net_packet \<times> net_state) result option" where
  "follow c pkt h s =
     (if next_dest h = final_dest h then Some (Inr (h, pkt, s))
      else
        let pkt1 = pkt\<lparr>pk_time := hop_time h, pk_receiver := final_dest h\<rparr> in
        case on_model (next_dest h) (g_type_to_static_network_map (pk_type pkt)) (routePacket c pkt1) s of
          Inl e \<Rightarrow> Some (Inl e)
        | Inr ((hs, queue_delay), s1) \<Rightarrow>
            (case hs of
               [h1] \<Rightarrow> follow c (pkt1\<lparr>pk_queue_delay := pk_queue_delay pkt1 + queue_delay\<rparr>) h1 s1
             | _ \<Rightarrow> Some (Inl (ASSERT ''localHopVec.size() == 1''))))"

definition followS :: "net_cfg \<Rightarrow> net_packet \<Rightarrow> hop \<Rightarrow> (hop \<times> net_packet) sop" where
  "followS c pkt h =
     (\<lambda>s. case follow c pkt h s of
            None \<Rightarrow> Inl (NONTERMINATION ''netSend'')
          | Some r \<Rightarrow> bindE r (\<lambda>(h1, pkt1, s1). Inr ((h1, pkt1), s1)))"

text \<open>The body of the loop over the hops: \<open>buffer\<close> is the copy that goes out, \<open>pkt\<close> the caller's packet.\<close>

definition send_hop :: "net_cfg \<Rightarrow> core_id_t \<Rightarrow> UInt64 \<Rightarrow> net_packet \<times> net_packet \<Rightarrow> hop \<Rightarrow> (net_packet \<times> net_packet) sop" where
  "send_hop c core start_time = (\<lambda>(pkt, buffer) h.
     bindS (if final_dest h \<noteq> BROADCAST then followS c pkt h else returnS (h, pkt)) (\<lambda>(h1, pkt1).
     let buffer1 = (if core = pk_sender buffer then buffer\<lparr>pk_start_time := start_time\<rparr> else buffer)
                     \<lparr>pk_time := hop_time h1, pk_receiver := final_dest h1\<rparr> in
     thenS (transport_send c (next_dest h1) buffer1) (returnS (pkt1, buffer1))))"

definition netSend :: "net_cfg \<Rightarrow> core_id_t \<Rightarrow> net_packet \<Rightarrow> UInt32 sop" where
  "netSend c core packet =
     (let net = g_type_to_static_network_map (pk_type packet) in
      thenS (on_model core net (\<lambda>(m, g). bindE (countPacket c packet m) (\<lambda>m1. Inr ((), (m1, g)))))
     (bindS (on_model core net (routePacket c packet)) (\<lambda>(hops, queue_delay).
      let packet1 = packet\<lparr>pk_queue_delay := pk_queue_delay packet + queue_delay\<rparr> in
      thenS (foldS (send_hop c core (pk_time packet)) (packet1, packet1) hops) (returnS (pk_length packet)))))"

definition netSend_to :: "net_cfg \<Rightarrow> core_id_t \<Rightarrow> UInt64 \<Rightarrow> core_id_t \<Rightarrow> packet_type \<Rightarrow> shmem_msg option \<Rightarrow> UInt32 \<Rightarrow> UInt32 sop" where
  "netSend_to c core elapsed_time dest type buf len = netSend c core (NetPacket_of elapsed_time type core dest len buf)"

definition netBroadcast :: "net_cfg \<Rightarrow> core_id_t \<Rightarrow> UInt64 \<Rightarrow> packet_type \<Rightarrow> shmem_msg option \<Rightarrow> UInt32 \<Rightarrow> UInt32 sop" where
  "netBroadcast c core elapsed_time type buf len = netSend_to c core elapsed_time BROADCAST type buf len"

section \<open>Receiving\<close>

text \<open>One round of \<^verbatim>\<open>netPullFromTransport\<close>, enabled when a packet is there.\<close>

definition accept :: "net_cfg \<Rightarrow> core_id_t \<Rightarrow> net_packet \<Rightarrow> unit sop" where
  "accept c core packet =
     bindS (on_model core (g_type_to_static_network_map (pk_type packet))
              (\<lambda>(m, g). bindE (processReceivedPacket c packet m) (\<lambda>(p, m1). Inr (p, (m1, g))))) (\<lambda>packet1.
       modifyS (\<lambda>s. if ns_callbacks s core (pk_type packet1) then s\<lparr>ns_called := ns_called s @ [(core, packet1)]\<rparr>
                    else s\<lparr>ns_netQueue := (ns_netQueue s)(core := ns_netQueue s core @ [packet1])\<rparr>))"

definition pull_packet :: "net_cfg \<Rightarrow> core_id_t \<Rightarrow> unit sop" where
  "pull_packet c core =
     bindS (getS (\<lambda>s. ns_transport s core)) (\<lambda>q.
       case q of
         Some (packet # rest) \<Rightarrow>
           thenS (modifyS (\<lambda>s. s\<lparr>ns_transport := (ns_transport s)(core \<mapsto> rest)\<rparr>))
          (thenS (assertS (0 \<le> pk_sender packet \<and> pk_sender packet < nc_total_cores c) (ASSERT ''0 <= packet.sender && packet.sender < _numMod''))
             (if pk_receiver packet \<noteq> core
              then bindS (netSend c core packet) (\<lambda>_. whenS (pk_receiver packet = BROADCAST) (accept c core packet))
              else accept c core packet))
       | _ \<Rightarrow> failS (NONTERMINATION ''recv waits''))"

partial_function (option) netPullFromTransport :: "net_cfg \<Rightarrow> core_id_t \<Rightarrow> net_state \<Rightarrow> net_state result option" where
  "netPullFromTransport c core s =
     (case pull_packet c core s of
        Inl e \<Rightarrow> Some (Inl e)
      | Inr (_, s1) \<Rightarrow> if query core s1 then netPullFromTransport c core s1 else Some (Inr s1))"

record net_match =
  senders :: "core_id_t list"
  types :: "packet_type list"

definition matches :: "net_cfg \<Rightarrow> net_match \<Rightarrow> net_packet \<Rightarrow> bool" where
  "matches c match p \<longleftrightarrow>
     pk_sender p \<in> set (if senders match = [] then [0 .. nc_total_cores c - 1] else senders match) \<and>
     (types match = [] \<or> pk_type p \<in> set (types match))"

text \<open>The scan of the queue: the position of the earliest match, the first one among equals.\<close>

fun scan :: "net_cfg \<Rightarrow> net_match \<Rightarrow> nat \<Rightarrow> (nat \<times> net_packet) option \<Rightarrow> net_packet list \<Rightarrow> (nat \<times> net_packet) option" where
  "scan c match i best [] = best"
| "scan c match i best (p # ps) =
     scan c match (Suc i)
       (if matches c match p \<and> (case best of None \<Rightarrow> True | Some (_, b) \<Rightarrow> pk_time b > pk_time p) then Some (i, p) else best) ps"

datatype recv_outcome = Received net_packet "UInt64 option" | Waits | TimedOut net_packet

text \<open>
  \<open>last_try\<close> is set when the call has waited once with a timeout. \<^verbatim>\<open>Received p (Some d)\<close> says that a receive instruction of
  length \<open>d\<close> is queued for the core.
\<close>

definition netRecv :: "net_cfg \<Rightarrow> core_id_t \<Rightarrow> UInt64 \<Rightarrow> net_match \<Rightarrow> bool \<Rightarrow> recv_outcome sop" where
  "netRecv c core start_time match last_try =
     bindS (getS (\<lambda>s. ns_netQueue s core)) (\<lambda>q.
       case scan c match 0 None q of
         None \<Rightarrow> returnS (if last_try then TimedOut (NetPacket\<lparr>pk_length := - 1\<rparr>) else Waits)
       | Some (i, p) \<Rightarrow>
           thenS (assertS (0 \<le> pk_sender p \<and> pk_sender p < nc_total_cores c) (ASSERT ''0 <= itr->sender && itr->sender < _numMod''))
          (thenS (assertS (pk_receiver p = core \<or> pk_receiver p = BROADCAST) (ASSERT ''itr->receiver''))
          (thenS (modifyS (\<lambda>s. s\<lparr>ns_netQueue := (ns_netQueue s)(core := take i q @ drop (Suc i) q)\<rparr>))
             (if pk_time p > start_time
              then if core < nc_application_cores c
                   then if pk_time p - start_time < 100 * NS 1 then returnS (Received p None)
                        else failS (LOG_ASSERT_ERROR ''RecvInstruction being queued'')
                   else returnS (Received p (Some (pk_time p - start_time)))
              else returnS (Received p None)))))"

definition netRecvFrom :: "net_cfg \<Rightarrow> core_id_t \<Rightarrow> UInt64 \<Rightarrow> core_id_t \<Rightarrow> bool \<Rightarrow> recv_outcome sop" where
  "netRecvFrom c core start_time src last_try = netRecv c core start_time \<lparr>senders = [src], types = []\<rparr> last_try"

definition netRecvType :: "net_cfg \<Rightarrow> core_id_t \<Rightarrow> UInt64 \<Rightarrow> packet_type \<Rightarrow> bool \<Rightarrow> recv_outcome sop" where
  "netRecvType c core start_time type last_try = netRecv c core start_time \<lparr>senders = [], types = [type]\<rparr> last_try"

definition netRecv_from_type :: "net_cfg \<Rightarrow> core_id_t \<Rightarrow> UInt64 \<Rightarrow> core_id_t \<Rightarrow> packet_type \<Rightarrow> bool \<Rightarrow> recv_outcome sop" where
  "netRecv_from_type c core start_time src type last_try = netRecv c core start_time \<lparr>senders = [src], types = [type]\<rparr> last_try"

definition setNetworkModels :: "bool \<Rightarrow> core_id_t \<Rightarrow> net_state \<Rightarrow> net_state" where
  "setNetworkModels on core s =
     s\<lparr>ns_models := (ns_models s)(core := (\<lambda>net. model_enable on (ns_models s core net)))\<rparr>"

section \<open>A packet reaches its destination\<close>

text \<open>
  A mesh without queueing: every application core has a hop-by-hop model on the memory network, all with the same
  grid, the models are \<open>on\<close> or off together, a link takes \<open>l\<close>, and the traffic matrix is not collected.
\<close>

definition node :: "net_state \<Rightarrow> core_id_t \<Rightarrow> emesh" where
  "node s k = (case nm_kind (ns_models s k STATIC_NETWORK_MEMORY_1) of HopByHop m \<Rightarrow> m | _ \<Rightarrow> undefined)"

definition plain_node :: "bool \<Rightarrow> UInt64 \<Rightarrow> emesh \<Rightarrow> bool" where
  "plain_node on l m \<longleftrightarrow>
     \<not> m_queue_model_enabled m \<and> em_enabled m = on \<and> cl_getLatency (m_hop_latency m) = l \<and> m_bw_in_bits_per_cycle (m_link_bandwidth m) \<noteq> 0"

definition plain_mesh :: "net_cfg \<Rightarrow> int \<Rightarrow> int \<Rightarrow> int \<Rightarrow> bool \<Rightarrow> bool \<Rightarrow> UInt64 \<Rightarrow> net_state \<Rightarrow> bool" where
  "plain_mesh c w h n wrap on l s \<longleftrightarrow>
     grid c (node s) w h n wrap \<and>
     (\<forall>k. 0 \<le> k \<longrightarrow> k < nc_application_cores c \<longrightarrow>
        (\<exists>m. nm_kind (ns_models s k STATIC_NETWORK_MEMORY_1) = HopByHop m \<and>
             \<not> nm_collect_traffic_matrix (ns_models s k STATIC_NETWORK_MEMORY_1) \<and> plain_node on l m))"

text \<open>A shared-memory packet whose message can be sent.\<close>

definition sendable :: "net_cfg \<Rightarrow> net_packet \<Rightarrow> bool" where
  "sendable c pkt \<longleftrightarrow> pk_type pkt = SHARED_MEM_1 \<and>
     (\<exists>msg. pk_data pkt = Some msg \<and> 0 \<le> m_requester msg \<and> m_requester msg < nc_total_cores c \<and>
            m_msg_type msg \<notin> {INVALID_MSG_TYPE, NULLIFY_REQ})"

lemma sendableD:
  assumes "sendable c pkt"
  obtains len where "getModeledLength c pkt = Inr len" "packet_requester c pkt = Inr (m_requester (the (pk_data pkt)))"
    "g_type_to_static_network_map (pk_type pkt) = STATIC_NETWORK_MEMORY_1"
proof -
  obtain msg where m: "pk_type pkt = SHARED_MEM_1" "pk_data pkt = Some msg" "0 \<le> m_requester msg" "m_requester msg < nc_total_cores c"
    "m_msg_type msg \<notin> {INVALID_MSG_TYPE, NULLIFY_REQ}" using assms by (auto simp: sendable_def)
  have "\<exists>len. msg_getModeledLength msg = Inr len" using m(5) by (cases "m_msg_type msg") (simp_all add: msg_getModeledLength_def)
  then show ?thesis using that m by (auto simp: getModeledLength_def packet_requester_def g_type_to_static_network_map_def)
qed

text \<open>Routing a unicast at a node without queueing only counts the packet at its sender.\<close>

definition counted :: "net_packet \<Rightarrow> UInt32 \<Rightarrow> emesh \<Rightarrow> emesh" where
  "counted pkt len m =
     (if pk_sender pkt = em_core_id m
      then m\<lparr>m_total_packets_sent := m_total_packets_sent m + 1, m_total_bytes_sent := m_total_bytes_sent m + ucast len\<rparr> else m)"

lemma getNextDest_counters [simp]:
  "getNextDest c (m\<lparr>m_total_packets_sent := a, m_total_bytes_sent := b\<rparr>) d = getNextDest c m d"
  by (cases m) (simp only: getNextDest_def computePosition_def computeCoreId_def emesh.simps)

lemma counted_simps [simp]:
  "em_core_id (counted p len m) = em_core_id m" "m_mesh_width (counted p len m) = m_mesh_width m" "m_mesh_height (counted p len m) = m_mesh_height m"
  "m_concentration (counted p len m) = m_concentration m" "m_wrap_around (counted p len m) = m_wrap_around m"
  "m_fake_node (counted p len m) = m_fake_node m" "plain_node on l (counted p len m) = plain_node on l m"
  "getNextDest c (counted p len m) d = getNextDest c m d" "computeDistance (counted p len m) a b = computeDistance m a b"
  by (simp_all add: counted_def plain_node_def computePosition_def computeDistance_def Let_def)

definition link_time :: "net_cfg \<Rightarrow> bool \<Rightarrow> UInt64 \<Rightarrow> core_id_t \<Rightarrow> UInt64" where
  "link_time c on l requester = (if on \<and> requester < nc_application_cores c then l else 0)"

lemma computeLatency_plain:
  assumes "plain_node on l m" "\<not> m_fake_node m" "direction \<in> {UP, DOWN, LEFT, RIGHT}"
  shows "computeLatency c direction t len requester m = Inr ((link_time c on l requester, 0), m)"
  using assms by (simp add: computeLatency_def computeProcessingTime_def op_defs plain_node_def link_time_def bwpc_getRoundedLatency_def divideE_def)

lemma addHop_plain:
  assumes "plain_node on l m" "\<not> m_fake_node m"
  shows "addHop c direction d next t len requester m =
    Inr ((\<lparr>final_dest = d, next_dest = next, hop_time = t + (if direction \<in> {UP, DOWN, LEFT, RIGHT} then link_time c on l requester else 0)\<rparr>, 0), m)"
  using computeLatency_plain [OF assms] by (cases direction) (simp_all add: addHop_def op_defs)

lemma mesh_routePacket_plain:
  assumes "sendable c pkt" "getModeledLength c pkt = Inr len" "plain_node on l m" "\<not> m_fake_node m" "pk_receiver pkt \<noteq> BROADCAST"
  shows "mesh_routePacket c pkt m =
    (let (direction, next) = getNextDest c m (pk_receiver pkt) in
     Inr (([\<lparr>final_dest = pk_receiver pkt, next_dest = next,
             hop_time = pk_time pkt + (if direction \<in> {UP, DOWN, LEFT, RIGHT} then link_time c on l (m_requester (the (pk_data pkt))) else 0)\<rparr>], 0),
          counted pkt len m))"
proof -
  from sendableD [OF assms(1)] have r: "packet_requester c pkt = Inr (m_requester (the (pk_data pkt)))" by blast
  obtain direction nxt where n: "getNextDest c m (pk_receiver pkt) = (direction, nxt)" by fastforce
  have p: "plain_node on l (counted pkt len m)" "\<not> m_fake_node (counted pkt len m)" using assms by simp_all
  have inj: "computeInjectionPortQueueDelay c d t len' (counted pkt len m) = Inr (0, counted pkt len m)" for d t len'
    using p by (simp add: computeInjectionPortQueueDelay_def op_defs plain_node_def)
  have "mesh_routePacket c pkt m = route_unicast c pkt len (m_requester (the (pk_data pkt))) (counted pkt len m)"
    using assms r by (simp add: mesh_routePacket_def op_defs counted_def [symmetric])
  also have "\<dots> = Inr (([\<lparr>final_dest = pk_receiver pkt, next_dest = nxt,
             hop_time = pk_time pkt + (if direction \<in> {UP, DOWN, LEFT, RIGHT} then link_time c on l (m_requester (the (pk_data pkt))) else 0)\<rparr>], 0),
          counted pkt len m)"
    using inj addHop_plain [OF p] n by (simp add: route_unicast_def op_defs)
  finally show ?thesis by (simp add: n)
qed

text \<open>One model call on the way.\<close>

definition after_route :: "net_state \<Rightarrow> core_id_t \<Rightarrow> net_packet \<Rightarrow> UInt32 \<Rightarrow> net_state" where
  "after_route s k pkt len =
     s\<lparr>ns_models := (ns_models s)(k := (ns_models s k)(STATIC_NETWORK_MEMORY_1 :=
        (ns_models s k STATIC_NETWORK_MEMORY_1)\<lparr>nm_kind := HopByHop (counted pkt len (node s k))\<rparr>))\<rparr>"

lemma after_route_frame [simp]:
  "ns_transport (after_route s k pkt len) = ns_transport s" "ns_callbacks (after_route s k pkt len) = ns_callbacks s"
  "ns_netQueue (after_route s k pkt len) = ns_netQueue s" "ns_called (after_route s k pkt len) = ns_called s"
  by (simp_all add: after_route_def)

lemma node_after_route: "node (after_route s k pkt len) j = (if j = k then counted pkt len (node s k) else node s j)"
  by (simp add: node_def after_route_def)

lemma plain_meshD:
  assumes "plain_mesh c w h n wrap on l s" "0 \<le> k" "k < nc_application_cores c"
  shows "nm_kind (ns_models s k STATIC_NETWORK_MEMORY_1) = HopByHop (node s k)" "plain_node on l (node s k)"
    "\<not> nm_collect_traffic_matrix (ns_models s k STATIC_NETWORK_MEMORY_1)" "grid c (node s) w h n wrap"
proof -
  obtain m where "nm_kind (ns_models s k STATIC_NETWORK_MEMORY_1) = HopByHop m" "plain_node on l m"
    using assms unfolding plain_mesh_def by blast
  then show "nm_kind (ns_models s k STATIC_NETWORK_MEMORY_1) = HopByHop (node s k)" "plain_node on l (node s k)"
    by (simp_all add: node_def)
qed (use assms in \<open>auto simp: plain_mesh_def\<close>)

lemma plain_mesh_after:
  assumes "plain_mesh c w h n wrap on l s" "0 \<le> k" "k < nc_application_cores c"
  shows "plain_mesh c w h n wrap on l (after_route s k pkt len)"
proof -
  have "grid c (node (after_route s k pkt len)) w h n wrap"
    using assms(1) by (auto simp: plain_mesh_def grid_def node_after_route)
  moreover have "\<exists>m. nm_kind (ns_models (after_route s k pkt len) j STATIC_NETWORK_MEMORY_1) = HopByHop m \<and>
      \<not> nm_collect_traffic_matrix (ns_models (after_route s k pkt len) j STATIC_NETWORK_MEMORY_1) \<and> plain_node on l m"
    if "0 \<le> j" "j < nc_application_cores c" for j
    using plain_meshD [OF assms(1) that] plain_meshD [OF assms] by (simp add: after_route_def)
  ultimately show ?thesis by (simp add: plain_mesh_def)
qed

lemma route_at_node:
  assumes "plain_mesh c w h n wrap on l s" "0 \<le> k" "k < nc_application_cores c" "k mod n = 0"
    and "sendable c pkt" "getModeledLength c pkt = Inr len" "pk_receiver pkt \<noteq> BROADCAST"
    and "getNextDest c (node s k) (pk_receiver pkt) = (direction, k1)"
  shows "on_model k STATIC_NETWORK_MEMORY_1 (routePacket c pkt) s =
    Inr (([\<lparr>final_dest = pk_receiver pkt, next_dest = k1,
            hop_time = pk_time pkt + (if direction \<in> {UP, DOWN, LEFT, RIGHT} then link_time c on l (m_requester (the (pk_data pkt))) else 0)\<rparr>], 0),
         after_route s k pkt len)"
proof -
  note p = plain_meshD [OF assms(1-3)]
  have "\<not> m_fake_node (node s k)" using gridD(6) [OF p(4) assms(2,3)] assms(4) by simp
  from mesh_routePacket_plain [OF assms(5,6) p(2) this assms(7)] show ?thesis
    using assms(8) p(1) by (simp add: on_model_def routePacket_def after_route_def)
qed

lemma sendable_moved [simp]:
  "sendable c (pkt\<lparr>pk_time := t, pk_receiver := r\<rparr>) = sendable c pkt" "sendable c (pkt\<lparr>pk_queue_delay := q\<rparr>) = sendable c pkt"
  by (simp_all add: sendable_def)

lemma length_moved [simp]: "getModeledLength c (pkt\<lparr>pk_time := t, pk_receiver := r\<rparr>) = getModeledLength c pkt"
  "getModeledLength c (pkt\<lparr>pk_queue_delay := q\<rparr>) = getModeledLength c pkt"
  by (simp_all add: getModeledLength_def bufferSize_def)

lemma follow_unfold:
  "next_dest h = final_dest h \<Longrightarrow> follow c pkt h s = Some (Inr (h, pkt, s))"
  "next_dest h \<noteq> final_dest h \<Longrightarrow>
   on_model (next_dest h) (g_type_to_static_network_map (pk_type pkt)) (routePacket c (pkt\<lparr>pk_time := hop_time h, pk_receiver := final_dest h\<rparr>)) s
     = Inr (([h1], q), s1) \<Longrightarrow>
   follow c pkt h s = follow c (pkt\<lparr>pk_time := hop_time h, pk_receiver := final_dest h, pk_queue_delay := pk_queue_delay pkt + q\<rparr>) h1 s1"
  by (subst follow.simps; simp add: Let_def)+

lemma follow_arrives:
  assumes "plain_mesh c w h n wrap on l s" "0 \<le> k" "k < nc_application_cores c" "k mod n = 0"
    and "sendable c pkt" "0 \<le> d" "d < nc_application_cores c" "d \<noteq> BROADCAST"
  shows "\<exists>pkt1 s1. follow c pkt \<lparr>final_dest = d, next_dest = k, hop_time = t\<rparr> s =
      Some (Inr (\<lparr>final_dest = d, next_dest = d,
        hop_time = t + word_of_int (distance w h n wrap k d) * link_time c on l (m_requester (the (pk_data pkt)))\<rparr>, pkt1, s1)) \<and>
    plain_mesh c w h n wrap on l s1 \<and> ns_transport s1 = ns_transport s"
  using assms
proof (induction "nat (distance w h n wrap k d)" arbitrary: k t pkt s rule: less_induct)
  case less
  note p = plain_meshD [OF less.prems(1-3)]
  note g = gridD [OF p(4) less.prems(2,3)]
  obtain len where len: "getModeledLength c pkt = Inr len" "g_type_to_static_network_map (pk_type pkt) = STATIC_NETWORK_MEMORY_1"
    using sendableD [OF less.prems(5)] by blast
  define pkt1 where "pkt1 = pkt\<lparr>pk_time := t, pk_receiver := d\<rparr>"
  have p1: "sendable c pkt1" "getModeledLength c pkt1 = Inr len" "pk_receiver pkt1 \<noteq> BROADCAST" "pk_receiver pkt1 = d" "pk_time pkt1 = t"
    "pk_data pkt1 = pk_data pkt" "pk_queue_delay pkt1 = pk_queue_delay pkt"
    using less.prems len by (simp_all add: pkt1_def)
  note dz = distance_zero [OF g(7-9) less.prems(2) less.prems(3) [unfolded g(10)] less.prems(6) less.prems(7) [unfolded g(10)]]
  show ?case
  proof (cases "k div n = d div n")
    case True
    then have zero: "distance w h n wrap k d = 0" using dz by simp
    show ?thesis
    proof (cases "k = d")
      case True
      then show ?thesis using zero less.prems(1) by (simp add: follow_unfold(1))
    next
      case False
      have "getNextDest c (node s k) (pk_receiver pkt1) = (DESTINATION, d)"
        using \<open>k div n = d div n\<close> g less.prems(2,3,6,7) unfolding p1(4) getNextDest_def by (simp add: sdiv_nonneg)
      from route_at_node [OF less.prems(1-4) p1(1-3) this] have
        "on_model k STATIC_NETWORK_MEMORY_1 (routePacket c pkt1) s = Inr (([\<lparr>final_dest = d, next_dest = d, hop_time = t\<rparr>], 0), after_route s k pkt1 len)"
        using p1 by simp
      then have "follow c pkt \<lparr>final_dest = d, next_dest = k, hop_time = t\<rparr> s =
          follow c (pkt1\<lparr>pk_queue_delay := pk_queue_delay pkt\<rparr>) \<lparr>final_dest = d, next_dest = d, hop_time = t\<rparr> (after_route s k pkt1 len)"
        using follow_unfold(2) [of "\<lparr>final_dest = d, next_dest = k, hop_time = t\<rparr>" pkt c s] False len(2) by (simp add: pkt1_def)
      then show ?thesis using zero plain_mesh_after [OF less.prems(1-3)] by (simp add: follow_unfold(1))
    qed
  next
    case False
    from getNextDest_step [OF p(4) less.prems(2-4,6,7) False] obtain direction k1 where
      step: "getNextDest c (node s k) d = (direction, k1)" "direction \<in> {LEFT, RIGHT, UP, DOWN}" "0 \<le> k1" "k1 < nc_application_cores c"
        "k1 mod n = 0" "distance w h n wrap k1 d = distance w h n wrap k d - 1" by metis
    let ?lt = "link_time c on l (m_requester (the (pk_data pkt)))"
    have up: "direction \<in> {UP, DOWN, LEFT, RIGHT}" using step(2) by auto
    from route_at_node [OF less.prems(1-4) p1(1-3) step(1) [folded p1(4)]] up p1 have
      r: "on_model k STATIC_NETWORK_MEMORY_1 (routePacket c pkt1) s = Inr (([\<lparr>final_dest = d, next_dest = k1, hop_time = t + ?lt\<rparr>], 0), after_route s k pkt1 len)"
      by simp
    define pkt2 where "pkt2 = pkt1\<lparr>pk_queue_delay := pk_queue_delay pkt\<rparr>"
    have kd: "k \<noteq> d" using False by auto
    have f: "follow c pkt \<lparr>final_dest = d, next_dest = k, hop_time = t\<rparr> s = follow c pkt2 \<lparr>final_dest = d, next_dest = k1, hop_time = t + ?lt\<rparr> (after_route s k pkt1 len)"
      using follow_unfold(2) [of "\<lparr>final_dest = d, next_dest = k, hop_time = t\<rparr>" pkt c s] r kd len(2) by (simp add: pkt1_def pkt2_def)
    have "distance w h n wrap k d \<noteq> 0" using dz(2) False by blast
    then have smaller: "nat (distance w h n wrap k1 d) < nat (distance w h n wrap k d)" using step(6) dz(1) [of wrap] by simp
    have "sendable c pkt2" "pk_data pkt2 = pk_data pkt" using p1 by (simp_all add: pkt2_def)
    with less.hyps [OF smaller plain_mesh_after [OF less.prems(1-3), of pkt1 len] step(3-5) _ less.prems(6-8), of pkt2 "t + ?lt"]
    show ?thesis unfolding f step(6) by (simp add: algebra_simps)
  qed
qed

lemma transport_send_at:
  "0 \<le> d \<Longrightarrow> d < nc_total_cores c \<Longrightarrow> ns_transport s d = Some ps \<Longrightarrow>
   transport_send c d p s = Inr ((), s\<lparr>ns_transport := (ns_transport s)(d \<mapsto> ps @ [p])\<rparr>)"
  by (simp add: transport_send_def op_defs)

lemma node_frame [simp]: "node (s\<lparr>ns_transport := x\<rparr>) = node s"
  by (rule ext) (simp add: node_def)

lemma BROADCAST_negative: "BROADCAST < 0"
  by (simp add: BROADCAST_def)

text \<open>
  C8: in a mesh without queueing a packet from a master core arrives, as the only new packet of the whole transport, at
  its destination, stamped with the time it was sent and the time of as many links as the route has.
\<close>

theorem unicast_delivered:
  assumes "plain_mesh c w h n wrap on l s" "0 \<le> src" "src < nc_application_cores c" "src mod n = 0"
    and "sendable c pkt" "pk_sender pkt = src" "pk_receiver pkt = d" "0 \<le> d" "d < nc_application_cores c"
    and "nc_application_cores c \<le> nc_total_cores c" "ns_transport s d = Some ps"
  shows "\<exists>s1. netSend c src pkt s = Inr (pk_length pkt, s1) \<and> plain_mesh c w h n wrap on l s1 \<and>
    ns_transport s1 = (ns_transport s)(d \<mapsto> ps @ [pkt\<lparr>pk_start_time := pk_time pkt,
       pk_time := pk_time pkt + word_of_int (distance w h n wrap src d) * link_time c on l (m_requester (the (pk_data pkt)))\<rparr>])"
proof -
  note p = plain_meshD [OF assms(1-3)]
  note g = gridD [OF p(4) assms(2,3)]
  have dB: "d \<noteq> BROADCAST" using BROADCAST_negative assms(8) by simp
  obtain len where len: "getModeledLength c pkt = Inr len" "g_type_to_static_network_map (pk_type pkt) = STATIC_NETWORK_MEMORY_1"
    using sendableD [OF assms(5)] by blast
  let ?lt = "link_time c on l (m_requester (the (pk_data pkt)))"
  let ?s1 = "after_route s src pkt len"
  note dz = distance_zero [OF g(7-9) assms(2) assms(3) [unfolded g(10)] assms(8) assms(9) [unfolded g(10)]]
  have count: "on_model src STATIC_NETWORK_MEMORY_1 (\<lambda>(m, g). bindE (countPacket c pkt m) (\<lambda>m1. Inr ((), (m1, g)))) s = Inr ((), s)"
    using p(3) by (simp add: on_model_def countPacket_def)
  obtain direction k1 where next1: "getNextDest c (node s src) d = (direction, k1)" by fastforce
  let ?h = "\<lparr>final_dest = d, next_dest = k1, hop_time = pk_time pkt + (if direction \<in> {UP, DOWN, LEFT, RIGHT} then ?lt else 0)\<rparr>"
  have route: "on_model src STATIC_NETWORK_MEMORY_1 (routePacket c pkt) s = Inr (([?h], 0), ?s1)"
    using route_at_node [OF assms(1-5) len(1)] next1 dB assms(7) by simp
  have p1: "plain_mesh c w h n wrap on l ?s1" by (rule plain_mesh_after [OF assms(1-3)])
  have "\<exists>pkt1 s2. followS c pkt ?h ?s1 = Inr ((\<lparr>final_dest = d, next_dest = d,
      hop_time = pk_time pkt + word_of_int (distance w h n wrap src d) * ?lt\<rparr>, pkt1), s2) \<and>
      plain_mesh c w h n wrap on l s2 \<and> ns_transport s2 = ns_transport s"
  proof (cases "src div n = d div n")
    case True
    then have "direction = DESTINATION" "k1 = d" "distance w h n wrap src d = 0"
      using next1 g assms(2,3,8,9) dz(2) by (simp_all add: getNextDest_def sdiv_nonneg)
    then show ?thesis using p1 by (simp add: followS_def follow_unfold(1))
  next
    case False
    from getNextDest_step [OF p(4) assms(2-4,8,9) False] next1 have
      step: "direction \<in> {LEFT, RIGHT, UP, DOWN}" "0 \<le> k1" "k1 < nc_application_cores c" "k1 mod n = 0"
        "distance w h n wrap k1 d = distance w h n wrap src d - 1" by (metis prod.inject)+
    have hop: "?h = \<lparr>final_dest = d, next_dest = k1, hop_time = pk_time pkt + ?lt\<rparr>" using step(1) by auto
    from follow_arrives [OF p1 step(2-4) assms(5,8,9) dB, of "pk_time pkt + ?lt"]
    show ?thesis unfolding hop step(5) by (auto simp: followS_def algebra_simps)
  qed
  then obtain pkt1 s2 where f: "followS c pkt ?h ?s1 = Inr ((\<lparr>final_dest = d, next_dest = d,
      hop_time = pk_time pkt + word_of_int (distance w h n wrap src d) * ?lt\<rparr>, pkt1), s2)"
    "plain_mesh c w h n wrap on l s2" "ns_transport s2 = ns_transport s" by blast
  let ?out = "pkt\<lparr>pk_start_time := pk_time pkt, pk_time := pk_time pkt + word_of_int (distance w h n wrap src d) * ?lt, pk_receiver := d\<rparr>"
  have "transport_send c d ?out s2 = Inr ((), s2\<lparr>ns_transport := (ns_transport s2)(d \<mapsto> ps @ [?out])\<rparr>)"
    using transport_send_at [of d c s2 ps ?out] assms(8-11) f(3) by simp
  then have "send_hop c src (pk_time pkt) (pkt, pkt) ?h ?s1 = Inr ((pkt1, ?out), s2\<lparr>ns_transport := (ns_transport s2)(d \<mapsto> ps @ [?out])\<rparr>)"
    using f(1) dB assms(6) by (simp add: send_hop_def op_defs Let_def)
  then have "netSend c src pkt s = Inr (pk_length pkt, s2\<lparr>ns_transport := (ns_transport s2)(d \<mapsto> ps @ [?out])\<rparr>)"
    using count route len(2) by (simp add: netSend_def op_defs Let_def)
  moreover have "plain_mesh c w h n wrap on l (s2\<lparr>ns_transport := x\<rparr>)" for x
    using f(2) by (simp add: plain_mesh_def)
  ultimately show ?thesis using f(3) assms(7) by (auto intro!: exI)
qed

definition example_net :: "net_cfg \<Rightarrow> net_state" where
  "example_net c =
     \<lparr>ns_models = (\<lambda>k net. \<lparr>nm_collect_traffic_matrix = False, nm_matrix_packets = [], nm_matrix_bytes = [],
                             nm_kind = HopByHop ((built c k)\<lparr>em_enabled := True, m_queue_model_enabled := False\<rparr>)\<rparr>),
      ns_bus = (\<lambda>net. \<lparr>bg_bandwidth = 1, bg_queue_model = Contention (ContentionModel 1 1), bg_num_packets = 0, bg_num_packets_delayed = 0,
                        bg_num_bytes = 0, bg_time_used = 0, bg_total_delay = 0\<rparr>),
      ns_transport = (\<lambda>k. if 0 \<le> k \<and> k < nc_total_cores c then Some [] else None), ns_netQueue = (\<lambda>_. []),
      ns_callbacks = (\<lambda>_ _. False), ns_called = []\<rparr>"

lemma example_net_plain:
  assumes "0 < w" "0 < h" "0 < n"
  shows "plain_mesh (example_net_cfg w h n wrap) w h n wrap True 1000000 (example_net (example_net_cfg w h n wrap))"
proof -
  let ?c = "example_net_cfg w h n wrap"
  have g: "grid ?c (built ?c) w h n wrap" by (rule constructed_grid [OF assms])
  have b: "plain_node True 1000000 ((built ?c k)\<lparr>em_enabled := True, m_queue_model_enabled := False\<rparr>)" if "0 \<le> k" "k < nc_application_cores ?c" for k
    using assms that
    by (simp add: plain_node_def built_def NetworkModelEMeshHopByHop_def computeMeshDimensions_def createQueueModels_def example_net_cfg_def
        QueueModel_create_def cl_getLatency_def smod_nonneg Let_def mult_ac)
  have "node (example_net ?c) k = (built ?c k)\<lparr>em_enabled := True, m_queue_model_enabled := False\<rparr>" for k
    by (simp add: node_def example_net_def)
  then have "grid ?c (node (example_net ?c)) w h n wrap" using g by (simp add: grid_def)
  then show ?thesis using b by (simp add: plain_mesh_def) (simp add: example_net_def)
qed

definition example_pkt :: net_packet where
  "example_pkt = NetPacket_of 100 SHARED_MEM_1 0 15 56
     (Some \<lparr>m_msg_type = EX_REQ, m_sender_mem_component = 20, m_receiver_mem_component = TAG_DIR, m_requester = 0,
            msg_address = 64, m_data_buf = None, m_where = UNKNOWN\<rparr>)"

theorem unicast_delivered_witness:
  "\<exists>s1. netSend (example_net_cfg 4 2 2 False) 0 example_pkt (example_net (example_net_cfg 4 2 2 False)) = Inr (56, s1) \<and>
     ns_transport s1 15 = Some [example_pkt\<lparr>pk_start_time := 100, pk_time := 4000100\<rparr>]"
proof -
  have d: "distance 4 2 2 False 0 15 = 4" by (simp add: distance_def column_def row_def line_hops_def)
  have s: "sendable (example_net_cfg 4 2 2 False) example_pkt"
    by (simp add: sendable_def example_pkt_def NetPacket_of_def NetPacket_def example_net_cfg_def)
  have c: "nc_application_cores (example_net_cfg 4 2 2 False) = 16" "nc_total_cores (example_net_cfg 4 2 2 False) = 16"
    "pk_sender example_pkt = 0" "pk_receiver example_pkt = 15" "pk_time example_pkt = 100" "pk_length example_pkt = 56"
    "m_requester (the (pk_data example_pkt)) = 0" "ns_transport (example_net (example_net_cfg 4 2 2 False)) 15 = Some []"
    by (simp_all add: example_net_cfg_def example_pkt_def NetPacket_of_def NetPacket_def example_net_def)
  from unicast_delivered [OF example_net_plain [of 4 2 2 False] _ _ _ s c(3,4) _ _ _ c(8)] obtain s1 where
    "netSend (example_net_cfg 4 2 2 False) 0 example_pkt (example_net (example_net_cfg 4 2 2 False)) = Inr (pk_length example_pkt, s1)"
    "ns_transport s1 = (ns_transport (example_net (example_net_cfg 4 2 2 False)))(15 \<mapsto> [] @ [example_pkt\<lparr>pk_start_time := pk_time example_pkt,
       pk_time := pk_time example_pkt + word_of_int (distance 4 2 2 False 0 15) *
         link_time (example_net_cfg 4 2 2 False) True 1000000 (m_requester (the (pk_data example_pkt)))\<rparr>])"
    using c(1,2) by auto
  then show ?thesis using c by (auto simp: d link_time_def)
qed

section \<open>The broadcast tree\<close>

lemma foldS_collect:
  assumes "foldS (\<lambda>hs x. bindS (f x) (\<lambda>(h, _). returnS (hs @ [h]))) hs0 xs s = Inr (hs, s1)"
    and "\<And>x s h q s1. f x s = Inr ((h, q), s1) \<Longrightarrow> g h = k x"
  shows "map g hs = map g hs0 @ map k xs"
  using assms(1)
proof (induction xs arbitrary: hs0 s)
  case (Cons x xs)
  then obtain h q s2 where "f x s = Inr ((h, q), s2)"
    "foldS (\<lambda>hs x. bindS (f x) (\<lambda>(h, _). returnS (hs @ [h]))) (hs0 @ [h]) xs s2 = Inr (hs, s1)"
    by (auto simp: bindS_def returnS_def)
  with Cons.IH [OF this(2)] assms(2) show ?case by simp
qed (simp add: returnS_def)

lemma addHop_dests: "addHop c direction d nxt t len r m = Inr ((h, q), m1) \<Longrightarrow> final_dest h = d \<and> next_dest h = nxt"
  by (auto simp: addHop_def op_defs split: if_splits)

lemma injection_geometry:
  "computeInjectionPortQueueDelay c d t len m = Inr (x, m1) \<Longrightarrow> tree_hops m1 sender = tree_hops m sender"
  by (auto simp: computeInjectionPortQueueDelay_def computeProcessingTime_def op_defs tree_hops_def computePosition_def computeCoreId_def
      split: if_splits)

lemma route_tree_dests:
  assumes "route_tree c pkt len r m = Inr (hs, m1)"
  shows "map (\<lambda>h. (final_dest h, next_dest h)) hs = map snd (tree_hops m (pk_sender pkt))"
proof -
  define f where "f = (\<lambda>t x. case x of (direction, d, nxt) \<Rightarrow> addHop c direction d nxt t len r)"
  have body: "(\<lambda>hs (direction, d, nxt). bindS (addHop c direction d nxt t len r) (\<lambda>(h, _). returnS (hs @ [h]))) =
      (\<lambda>hs x. bindS (f t x) (\<lambda>(h, _). returnS (hs @ [h])))" for t
    by (auto simp: f_def fun_eq_iff)
  obtain x m2 where inj: "(if pk_sender pkt = em_core_id m then computeInjectionPortQueueDelay c (pk_receiver pkt) (pk_time pkt) len else returnS 0) m = Inr (x, m2)"
    and fold: "foldS (\<lambda>hs y. bindS (f (pk_time pkt + x) y) (\<lambda>(h, _). returnS (hs @ [h]))) [] (tree_hops m2 (pk_sender pkt)) m2 = Inr (hs, m1)"
    using assms unfolding route_tree_def body by (auto simp: bindS_def getS_def)
  have "tree_hops m2 (pk_sender pkt) = tree_hops m (pk_sender pkt)"
    using inj injection_geometry by (auto simp: returnS_def split: if_splits)
  moreover have "(final_dest h, next_dest h) = snd y" if "f t y m' = Inr ((h, q), m'')" for t y m' h q m''
    using that addHop_dests by (cases y) (auto simp: f_def)
  ultimately show ?thesis using foldS_collect [OF fold, of "\<lambda>h. (final_dest h, next_dest h)" snd] by simp
qed

lemma tree_never_stops: "\<exists>j. (BROADCAST, j) \<in> set (map snd (tree_hops m sender))"
proof -
  obtain sx sy cx cy where p: "computePosition m sender = (sx, sy)" "computePosition m (em_core_id m) = (cx, cy)" by fastforce
  then show ?thesis by (cases "cy \<ge> sy") (auto simp: tree_hops_def)
qed

lemma on_model_transport: "on_model k net f s = Inr (x, s1) \<Longrightarrow> ns_transport s1 = ns_transport s"
  by (auto simp: on_model_def)

lemmas follow_induct = follow.raw_induct [rotated, consumes 1, case_names step]

lemma follow_transport: "follow c pkt h s = Some r \<Longrightarrow> r = Inr (h1, pkt1, s1) \<Longrightarrow> ns_transport s1 = ns_transport s"
proof (induction rule: follow_induct)
  case (step loop c pkt h s r)
  show ?case
  proof (cases "next_dest h = final_dest h")
    case True
    then show ?thesis using step.hyps step.prems by simp
  next
    case False
    define m where "m = on_model (next_dest h) (g_type_to_static_network_map (pk_type pkt)) (routePacket c (pkt\<lparr>pk_time := hop_time h, pk_receiver := final_dest h\<rparr>)) s"
    from step.hyps step.prems False obtain h2 q s2 pkt2 where n: "m = Inr (([h2], q), s2)" "loop c pkt2 h2 s2 = Some r"
      unfolding m_def [symmetric] Let_def by (auto simp: m_def [symmetric] split: sum.splits list.splits)
    from step.IH [OF n(2) step.prems] on_model_transport [of _ _ _ s "([h2], q)" s2] n(1) show ?thesis unfolding m_def by simp
  qed
qed

text \<open>A transport only grows while packets are sent.\<close>

definition grown :: "net_state \<Rightarrow> net_state \<Rightarrow> bool" where
  "grown s s1 \<longleftrightarrow> (\<forall>j ps p. ns_transport s j = Some ps \<longrightarrow> p \<in> set ps \<longrightarrow> (\<exists>ps1. ns_transport s1 j = Some ps1 \<and> p \<in> set ps1))"

lemma transport_send_grown:
  assumes "transport_send c j p s = Inr (u, s1)"
  shows "grown s s1" "\<exists>ps. ns_transport s1 j = Some ps \<and> p \<in> set ps"
  using assms by (auto simp: transport_send_def op_defs grown_def split: if_splits option.splits)

lemma send_hop_grown:
  assumes "send_hop c core t b h s = Inr (b1, s1)"
  shows "grown s s1"
    and "final_dest h = BROADCAST \<Longrightarrow> \<exists>ps p. ns_transport s1 (next_dest h) = Some ps \<and> p \<in> set ps \<and> pk_receiver p = BROADCAST"
proof -
  obtain pkt buffer where b: "b = (pkt, buffer)" by (cases b)
  have a: "bindS (if final_dest h \<noteq> BROADCAST then followS c pkt h else returnS (h, pkt)) (\<lambda>(h1, pkt1).
     let buffer1 = (if core = pk_sender buffer then buffer\<lparr>pk_start_time := t\<rparr> else buffer)
                     \<lparr>pk_time := hop_time h1, pk_receiver := final_dest h1\<rparr> in
     thenS (transport_send c (next_dest h1) buffer1) (returnS (pkt1, buffer1))) s = Inr (b1, s1)"
    using assms by (simp add: send_hop_def b)
  obtain h1 pkt1 s2 p where s2: "ns_transport s2 = ns_transport s" "transport_send c (next_dest h1) p s2 = Inr ((), s1)"
    "pk_receiver p = final_dest h1" "final_dest h = BROADCAST \<longrightarrow> h1 = h"
  proof (cases "final_dest h = BROADCAST")
    case True
    with a show ?thesis by (intro that [of s h]) (auto simp: Let_def bindS_def thenS_def returnS_def)
  next
    case False
    define q where "q = (if core = pk_sender buffer then buffer\<lparr>pk_start_time := t\<rparr> else buffer)"
    from a False obtain h1 pkt1 s2 where f: "followS c pkt h s = Inr ((h1, pkt1), s2)"
      "transport_send c (next_dest h1) (q\<lparr>pk_time := hop_time h1, pk_receiver := final_dest h1\<rparr>) s2 = Inr ((), s1)"
      by (auto simp: Let_def bindS_def thenS_def returnS_def q_def [symmetric])
    from f(1) have "follow c pkt h s = Some (Inr (h1, pkt1, s2))" by (auto simp: followS_def split: option.splits)
    from that [OF follow_transport [OF this refl] f(2)] False show ?thesis by simp
  qed
  show "grown s s1" using transport_send_grown(1) [OF s2(2)] s2(1) by (simp add: grown_def)
  show "final_dest h = BROADCAST \<Longrightarrow> \<exists>ps p. ns_transport s1 (next_dest h) = Some ps \<and> p \<in> set ps \<and> pk_receiver p = BROADCAST"
    using transport_send_grown(2) [OF s2(2)] s2(3,4) by auto
qed

lemma send_hops_broadcast:
  assumes "foldS (send_hop c core t) b hs s = Inr (b1, s1)"
  shows "grown s s1 \<and> (\<forall>h\<in>set hs. final_dest h = BROADCAST \<longrightarrow>
    (\<exists>ps p. ns_transport s1 (next_dest h) = Some ps \<and> p \<in> set ps \<and> pk_receiver p = BROADCAST))"
  using assms
proof (induction hs arbitrary: b s)
  case (Cons h hs)
  then obtain b2 s2 where s2: "send_hop c core t b h s = Inr (b2, s2)" "foldS (send_hop c core t) b2 hs s2 = Inr (b1, s1)"
    by (auto simp: bindS_def)
  from Cons.IH [OF s2(2)] send_hop_grown [OF s2(1)] show ?case unfolding grown_def by (auto; blast)
qed (simp add: returnS_def grown_def)

lemma netSend_broadcast:
  assumes "nm_kind (ns_models s k (g_type_to_static_network_map (pk_type p))) = HopByHop m" "\<not> m_fake_node m" "m_broadcast_tree_enabled m"
    and "pk_receiver p = BROADCAST" "netSend c k p s = Inr (x, s1)"
  shows "\<exists>j ps q. ns_transport s1 j = Some ps \<and> q \<in> set ps \<and> pk_receiver q = BROADCAST"
proof -
  let ?net = "g_type_to_static_network_map (pk_type p)"
  have keep: "nm_kind x = HopByHop m" if "countPacket c p (ns_models s k ?net) = Inr x" for x
    using that assms(1) by (auto simp: countPacket_def Let_def split: if_splits)
  obtain s2 hs q s3 where s: "on_model k ?net (\<lambda>(m, g). bindE (countPacket c p m) (\<lambda>m1. Inr ((), (m1, g)))) s = Inr ((), s2)"
    "on_model k ?net (routePacket c p) s2 = Inr ((hs, q), s3)" "\<exists>b b1. foldS (send_hop c k (pk_time p)) b hs s3 = Inr (b1, s1)"
    using assms(5) unfolding netSend_def op_defs Let_def by fastforce
  have "nm_kind (ns_models s2 k ?net) = HopByHop m" using s(1) keep by (auto simp: on_model_def)
  with s(2) obtain m1 where "mesh_routePacket c p m = Inr ((hs, q), m1)" by (auto simp: on_model_def routePacket_def)
  then obtain len r where "route_tree c p len r (counted p len m) = Inr (hs, m1)"
    using assms(2-4) by (auto simp: mesh_routePacket_def op_defs counted_def split: if_splits)
  from route_tree_dests [OF this] tree_never_stops [of "counted p len m" "pk_sender p"] obtain h where
    "h \<in> set hs" "final_dest h = BROADCAST" by (metis (no_types, lifting) image_iff list.set_map prod.inject)
  with s(3) send_hops_broadcast show ?thesis by blast
qed

lemma accept_transport: "accept c k p s = Inr (u, s1) \<Longrightarrow> ns_transport s1 = ns_transport s"
  by (auto simp: accept_def op_defs dest!: on_model_transport split: if_splits)

text \<open>
  C10: with the broadcast tree a broadcast never ends: whenever a node takes a broadcast packet out of its transport, there is
  a broadcast packet in some transport afterwards. The edge of the grid does not stop it, since
  \<^verbatim>\<open>computeCoreId\<close> wraps around.
\<close>

theorem broadcast_tree_endless:
  assumes "ns_transport s k = Some (p # rest)" "pk_receiver p = BROADCAST" "0 \<le> k"
    and "nm_kind (ns_models s k (g_type_to_static_network_map (pk_type p))) = HopByHop m" "\<not> m_fake_node m" "m_broadcast_tree_enabled m"
    and "pull_packet c k s = Inr ((), s1)"
  shows "\<exists>j ps q. ns_transport s1 j = Some ps \<and> q \<in> set ps \<and> pk_receiver q = BROADCAST"
proof -
  let ?s = "s\<lparr>ns_transport := (ns_transport s)(k \<mapsto> rest)\<rparr>"
  have "k \<noteq> BROADCAST" using assms(3) BROADCAST_negative by simp
  then obtain x s2 where n: "netSend c k p ?s = Inr (x, s2)" "accept c k p s2 = Inr ((), s1)"
    using assms(1,2,7) by (auto simp: pull_packet_def op_defs split: if_splits)
  have "\<exists>j ps q. ns_transport s2 j = Some ps \<and> q \<in> set ps \<and> pk_receiver q = BROADCAST"
    by (rule netSend_broadcast [OF _ assms(5,6,2) n(1)]) (simp add: assms(4))
  then show ?thesis by (simp add: accept_transport [OF n(2)])
qed

definition tree_net :: net_state where
  "tree_net = (let s = example_net (example_net_cfg 2 2 1 False) in
     s\<lparr>ns_models := (\<lambda>k net. \<lparr>nm_collect_traffic_matrix = False, nm_matrix_packets = [], nm_matrix_bytes = [],
                         nm_kind = HopByHop ((node s k)\<lparr>m_broadcast_tree_enabled := True\<rparr>)\<rparr>),
       ns_transport := (ns_transport s)(3 \<mapsto> [example_pkt\<lparr>pk_receiver := BROADCAST\<rparr>])\<rparr>)"

theorem broadcast_tree_endless_witness:
  "\<exists>s1. pull_packet (example_net_cfg 2 2 1 False) 3 tree_net = Inr ((), s1) \<and>
     (\<exists>j ps q. ns_transport s1 j = Some ps \<and> q \<in> set ps \<and> pk_receiver q = BROADCAST)"
proof -
  have "case pull_packet (example_net_cfg 2 2 1 False) 3 tree_net of Inl _ \<Rightarrow> False | Inr _ \<Rightarrow> True" by code_simp
  then obtain s1 where p: "pull_packet (example_net_cfg 2 2 1 False) 3 tree_net = Inr ((), s1)" by (auto split: sum.splits)
  have t: "ns_transport tree_net 3 = Some [example_pkt\<lparr>pk_receiver := BROADCAST\<rparr>]" by (simp add: tree_net_def Let_def)
  obtain m where "nm_kind (ns_models tree_net 3 (g_type_to_static_network_map (pk_type (example_pkt\<lparr>pk_receiver := BROADCAST\<rparr>)))) = HopByHop m"
    "\<not> m_fake_node m" "m_broadcast_tree_enabled m"
    by (simp add: tree_net_def Let_def node_def example_net_def built_def NetworkModelEMeshHopByHop_def computeMeshDimensions_def
        createQueueModels_def example_net_cfg_def QueueModel_create_def smod_nonneg)
  from broadcast_tree_endless [OF t _ _ this p] p show ?thesis by simp
qed

section \<open>Fetching packets\<close>

definition earliest :: "net_cfg \<Rightarrow> net_match \<Rightarrow> net_packet list \<Rightarrow> (nat \<times> net_packet) option \<Rightarrow> bool" where
  "earliest c mt ps best \<longleftrightarrow>
     (case best of
        None \<Rightarrow> \<forall>i<length ps. \<not> matches c mt (ps ! i)
      | Some (j, b) \<Rightarrow> j < length ps \<and> ps ! j = b \<and> matches c mt b \<and>
          (\<forall>i<length ps. matches c mt (ps ! i) \<longrightarrow> pk_time b \<le> pk_time (ps ! i) \<and> (i < j \<longrightarrow> pk_time b < pk_time (ps ! i))))"

lemma earliest_step:
  assumes "earliest c mt ps best"
  shows "earliest c mt (ps @ [p])
    (if matches c mt p \<and> (case best of None \<Rightarrow> True | Some (_, b) \<Rightarrow> pk_time b > pk_time p) then Some (length ps, p) else best)"
proof (cases best)
  case None
  then show ?thesis using assms by (auto simp: earliest_def nth_append less_Suc_eq)
next
  case (Some jb)
  obtain j b where jb: "jb = (j, b)" by fastforce
  have a: "j < length ps" "ps ! j = b" "matches c mt b"
    "\<And>i. i < length ps \<Longrightarrow> matches c mt (ps ! i) \<Longrightarrow> pk_time b \<le> pk_time (ps ! i) \<and> (i < j \<longrightarrow> pk_time b < pk_time (ps ! i))"
    using assms by (auto simp: earliest_def Some jb)
  show ?thesis
  proof (cases "matches c mt p \<and> pk_time b > pk_time p")
    case True
    then have "pk_time p < pk_time (ps ! i)" if "i < length ps" "matches c mt (ps ! i)" for i using a(4) [OF that] by auto
    then show ?thesis using True by (auto simp: earliest_def Some jb nth_append less_Suc_eq intro: less_imp_le)
  next
    case False
    then show ?thesis using a by (auto simp: earliest_def Some jb nth_append less_Suc_eq)
  qed
qed

lemma scan_spec: "earliest c mt ps0 best \<Longrightarrow> earliest c mt (ps0 @ ps) (scan c mt (length ps0) best ps)"
proof (induction ps arbitrary: ps0 best)
  case (Cons p ps)
  from Cons.IH [OF earliest_step [OF Cons.prems]] show ?case by simp
qed simp

lemma scan_earliest: "earliest c mt ps (scan c mt 0 None ps)"
  using scan_spec [of c mt "[]" None ps] by (simp add: earliest_def)

text \<open>What \<^verbatim>\<open>netRecv\<close> hands out: the earliest matching packet, the first received among equals, which leaves the queue.\<close>

lemma netRecv_takes_earliest:
  assumes "netRecv c core start_time mt last_try s = Inr (Received p d, s1)"
  shows "\<exists>i<length (ns_netQueue s core). ns_netQueue s core ! i = p \<and> matches c mt p \<and>
    (\<forall>j<length (ns_netQueue s core). matches c mt (ns_netQueue s core ! j) \<longrightarrow>
       pk_time p \<le> pk_time (ns_netQueue s core ! j) \<and> (j < i \<longrightarrow> pk_time p < pk_time (ns_netQueue s core ! j))) \<and>
    ns_netQueue s1 core = take i (ns_netQueue s core) @ drop (Suc i) (ns_netQueue s core)"
proof -
  obtain i where i: "scan c mt 0 None (ns_netQueue s core) = Some (i, p)"
    "ns_netQueue s1 core = take i (ns_netQueue s core) @ drop (Suc i) (ns_netQueue s core)"
    using assms by (auto simp: netRecv_def op_defs split: option.splits if_splits)
  from scan_earliest [of c mt "ns_netQueue s core"] i show ?thesis by (auto simp: earliest_def)
qed

lemma netRecv_waits_iff:
  "netRecv c core start_time mt False s = Inr (Waits, s) \<longleftrightarrow> (\<forall>p\<in>set (ns_netQueue s core). \<not> matches c mt p)"
proof -
  have "scan c mt 0 None (ns_netQueue s core) = None \<longleftrightarrow> (\<forall>p\<in>set (ns_netQueue s core). \<not> matches c mt p)"
    using scan_earliest [of c mt "ns_netQueue s core"] by (fastforce simp: earliest_def in_set_conv_nth split: option.splits)
  then show ?thesis by (auto simp: netRecv_def op_defs split: option.splits if_splits)
qed

end
