(* ===== verification/Micro_Op.thy ===== *)
theory Micro_Op
  imports Dram_Directory_Cntlr Subsecond_Time "HOL-Library.Multiset"
begin

text \<open>
  \<^verbatim>\<open>performance_models/micro_op/\<close>: micro-operations as the decoder makes them (\<^verbatim>\<open>micro_op.{h,cc}\<close>), their dynamic
  instances with the lists of producers they wait for (\<^verbatim>\<open>dynamic_micro_op.{h,cc}\<close>), and the tables that find the
  producers of registers and of memory (\<^verbatim>\<open>register_dependencies\<close>, \<^verbatim>\<open>memory_dependencies\<close>). The decoder library
  is a parameter: what it says of an opcode is a field of \<open>decoder\<close>. Registers are numbers, opcodes are the names
  of the instruction classes, and the arrays with a length beside them are lists whose length is checked where the
  code checks it. Printing and the fields for debugging are left out.
\<close>

section \<open>Micro-operations\<close>

datatype uop_type_t = UOP_INVALID | UOP_LOAD | UOP_EXECUTE | UOP_STORE

datatype uop_subtype_t =
  UOP_SUBTYPE_FP_ADDSUB | UOP_SUBTYPE_FP_MULDIV | UOP_SUBTYPE_LOAD | UOP_SUBTYPE_STORE | UOP_SUBTYPE_GENERIC | UOP_SUBTYPE_BRANCH

record micro_op =
  uop_type :: uop_type_t
  uop_subtype :: uop_subtype_t
  m_first :: bool
  m_last :: bool
  instructionOpcode :: string
  m_instruction :: "IntPtr option"
  mo_microOpTypeOffset :: nat
  mo_intraInstructionDependencies :: nat
  sourceRegisters :: "nat list"
  addressRegisters :: "nat list"
  destinationRegisters :: "nat list"
  mo_interrupt :: bool
  mo_serializing :: bool
  mo_branch :: bool
  m_membar :: bool
  is_x87 :: bool
  operand_size :: nat
  memoryAccessSize :: nat

record decoder =
  is_branch_opcode :: "string \<Rightarrow> bool"
  is_fpvector_addsub_opcode :: "string \<Rightarrow> bool"
  is_fpvector_muldiv_opcode :: "string \<Rightarrow> bool"
  is_fpvector_ldst_opcode :: "string \<Rightarrow> bool"
  is_pause_opcode :: "string \<Rightarrow> bool"
  is_writeback :: "micro_op \<Rightarrow> bool"
  has_modifiers :: "micro_op \<Rightarrow> bool"
  last_reg :: nat
  map_register :: "nat \<Rightarrow> nat"

abbreviation (input) MAXIMUM_NUMBER_OF_SOURCE_REGISTERS :: nat where "MAXIMUM_NUMBER_OF_SOURCE_REGISTERS \<equiv> 14"
abbreviation (input) MAXIMUM_NUMBER_OF_ADDRESS_REGISTERS :: nat where "MAXIMUM_NUMBER_OF_ADDRESS_REGISTERS \<equiv> 2"
abbreviation (input) MAXIMUM_NUMBER_OF_DESTINATION_REGISTERS :: nat where "MAXIMUM_NUMBER_OF_DESTINATION_REGISTERS \<equiv> 14"
abbreviation (input) MAXIMUM_NUMBER_OF_DEPENDENCIES :: nat where "MAXIMUM_NUMBER_OF_DEPENDENCIES \<equiv> 14"
abbreviation (input) INVALID_SEQNR :: UInt64 where "INVALID_SEQNR \<equiv> - 1"

definition MicroOp :: micro_op where
  "MicroOp = \<lparr>uop_type = UOP_INVALID, uop_subtype = UOP_SUBTYPE_GENERIC, m_first = False, m_last = False, instructionOpcode = ''INVALID'',
     m_instruction = None, mo_microOpTypeOffset = 0, mo_intraInstructionDependencies = 0, sourceRegisters = [], addressRegisters = [],
     destinationRegisters = [], mo_interrupt = False, mo_serializing = False, mo_branch = False, m_membar = False, is_x87 = False,
     operand_size = 0, memoryAccessSize = 0\<rparr>"

definition isLoad :: "micro_op \<Rightarrow> bool" where
  "isLoad u \<longleftrightarrow> uop_type u = UOP_LOAD"

definition isStore :: "micro_op \<Rightarrow> bool" where
  "isStore u \<longleftrightarrow> uop_type u = UOP_STORE"

definition isExecute :: "micro_op \<Rightarrow> bool" where
  "isExecute u \<longleftrightarrow> uop_type u = UOP_EXECUTE"

definition getSubtype_Exec :: "decoder \<Rightarrow> micro_op \<Rightarrow> uop_subtype_t" where
  "getSubtype_Exec dec u =
     (if is_branch_opcode dec (instructionOpcode u) then UOP_SUBTYPE_BRANCH
      else if is_fpvector_addsub_opcode dec (instructionOpcode u) then UOP_SUBTYPE_FP_ADDSUB
      else if is_fpvector_muldiv_opcode dec (instructionOpcode u) then UOP_SUBTYPE_FP_MULDIV
      else UOP_SUBTYPE_GENERIC)"

definition getSubtype :: "decoder \<Rightarrow> micro_op \<Rightarrow> uop_subtype_t" where
  "getSubtype dec u =
     (if isLoad u then UOP_SUBTYPE_LOAD else if isStore u then UOP_SUBTYPE_STORE
      else if mo_branch u then UOP_SUBTYPE_BRANCH else if isExecute u then getSubtype_Exec dec u else UOP_SUBTYPE_GENERIC)"

definition setTypes :: "decoder \<Rightarrow> micro_op \<Rightarrow> micro_op" where
  "setTypes dec u = u\<lparr>uop_subtype := getSubtype dec u\<rparr>"

definition makeLoad :: "decoder \<Rightarrow> nat \<Rightarrow> string \<Rightarrow> nat \<Rightarrow> micro_op \<Rightarrow> micro_op" where
  "makeLoad dec offset opcode mem_size u =
     setTypes dec (u\<lparr>uop_type := UOP_LOAD, mo_microOpTypeOffset := offset, memoryAccessSize := mem_size, instructionOpcode := opcode,
                     mo_intraInstructionDependencies := 0\<rparr>)"

definition makeExecute :: "decoder \<Rightarrow> nat \<Rightarrow> nat \<Rightarrow> string \<Rightarrow> bool \<Rightarrow> micro_op \<Rightarrow> micro_op" where
  "makeExecute dec offset num_loads opcode isBranch u =
     setTypes dec (u\<lparr>uop_type := UOP_EXECUTE, mo_microOpTypeOffset := offset, mo_intraInstructionDependencies := num_loads,
                     instructionOpcode := opcode, mo_branch := isBranch\<rparr>)"

definition makeStore :: "decoder \<Rightarrow> nat \<Rightarrow> nat \<Rightarrow> string \<Rightarrow> nat \<Rightarrow> micro_op \<Rightarrow> micro_op" where
  "makeStore dec offset num_execute opcode mem_size u =
     setTypes dec (u\<lparr>uop_type := UOP_STORE, mo_microOpTypeOffset := offset, memoryAccessSize := mem_size, instructionOpcode := opcode,
                     mo_intraInstructionDependencies := num_execute\<rparr>)"

definition makeDynamic :: "decoder \<Rightarrow> micro_op \<Rightarrow> micro_op" where
  "makeDynamic dec u =
     setTypes dec (u\<lparr>uop_type := UOP_EXECUTE, mo_microOpTypeOffset := 0, mo_intraInstructionDependencies := 0,
                     instructionOpcode := ''INVALID'', mo_branch := False\<rparr>)"

definition isFpLoadStore :: "decoder \<Rightarrow> micro_op \<Rightarrow> bool" where
  "isFpLoadStore dec u \<longleftrightarrow>
     (isLoad u \<or> isStore u) \<and>
     (getSubtype_Exec dec u \<in> {UOP_SUBTYPE_FP_ADDSUB, UOP_SUBTYPE_FP_MULDIV} \<or> is_fpvector_ldst_opcode dec (instructionOpcode u))"

definition verify :: "decoder \<Rightarrow> micro_op \<Rightarrow> unit result" where
  "verify dec u =
     bindE (assertE (uop_subtype u = getSubtype dec u) (LOG_ASSERT_ERROR ''uop_subtype'')) (\<lambda>_.
     bindE (assertE (length (sourceRegisters u) < MAXIMUM_NUMBER_OF_SOURCE_REGISTERS) (LOG_ASSERT_ERROR ''sourceRegistersLength'')) (\<lambda>_.
     bindE (assertE (length (destinationRegisters u) < MAXIMUM_NUMBER_OF_DESTINATION_REGISTERS)
              (LOG_ASSERT_ERROR ''destinationRegistersLength'')) (\<lambda>_.
     bindE (assertE (\<forall>r\<in>set (sourceRegisters u). r < last_reg dec) (LOG_ASSERT_ERROR ''sourceRegisters'')) (\<lambda>_.
       assertE (\<forall>r\<in>set (destinationRegisters u). r < last_reg dec) (LOG_ASSERT_ERROR ''destinationRegisters'')))))"

definition addSourceRegister :: "nat \<Rightarrow> micro_op \<Rightarrow> micro_op result" where
  "addSourceRegister r u =
     bindE (assertE (length (sourceRegisters u) < MAXIMUM_NUMBER_OF_SOURCE_REGISTERS) (ASSERT ''sourceRegistersLength'')) (\<lambda>_.
       Inr (u\<lparr>sourceRegisters := sourceRegisters u @ [r]\<rparr>))"

definition addAddressRegister :: "nat \<Rightarrow> micro_op \<Rightarrow> micro_op result" where
  "addAddressRegister r u =
     bindE (assertE (length (addressRegisters u) < MAXIMUM_NUMBER_OF_ADDRESS_REGISTERS) (ASSERT ''addressRegistersLength'')) (\<lambda>_.
       Inr (u\<lparr>addressRegisters := addressRegisters u @ [r]\<rparr>))"

definition addDestinationRegister :: "nat \<Rightarrow> micro_op \<Rightarrow> micro_op result" where
  "addDestinationRegister r u =
     bindE (assertE (length (destinationRegisters u) < MAXIMUM_NUMBER_OF_DESTINATION_REGISTERS) (ASSERT ''destinationRegistersLength'')) (\<lambda>_.
       Inr (u\<lparr>destinationRegisters := destinationRegisters u @ [r]\<rparr>))"

section \<open>Dynamic instances\<close>

text \<open>
  The fields that the derived classes of the core models add (port, unit, bypass and issue slot) are computed from the
  micro-operation when it is made and never change: \<open>Core_Models\<close> has the functions.
\<close>

record dynamic_micro_op =
  m_uop :: micro_op
  sequenceNumber :: UInt64
  du_address :: UInt64
  squashed :: bool
  intraInstructionDependencies :: nat
  microOpTypeOffset :: nat
  squashedCount :: nat
  dependencies :: "UInt64 list"
  execLatency :: UInt32
  branchTaken :: bool
  branchMispredicted :: bool
  branchTargetAddress :: IntPtr
  dCacheHitWhere :: where_t
  iCacheHitWhere :: where_t
  iCacheLatency :: UInt32
  m_forceLongLatencyLoad :: bool
  du_first :: bool
  du_last :: bool

definition DynamicMicroOp :: "(micro_op \<Rightarrow> UInt32) \<Rightarrow> micro_op \<Rightarrow> UInt64 \<Rightarrow> dynamic_micro_op result" where
  "DynamicMicroOp getInstructionLatency uop period =
     bindE (assertE (period \<noteq> 0) (LOG_ASSERT_ERROR ''MicroOp Period is == SubsecondTime::Zero()'')) (\<lambda>_.
       Inr \<lparr>m_uop = uop, sequenceNumber = INVALID_SEQNR, du_address = 0, squashed = False,
            intraInstructionDependencies = mo_intraInstructionDependencies uop, microOpTypeOffset = mo_microOpTypeOffset uop,
            squashedCount = 0, dependencies = [], execLatency = getInstructionLatency uop, branchTaken = False,
            branchMispredicted = False, branchTargetAddress = 0, dCacheHitWhere = UNKNOWN, iCacheHitWhere = L1I, iCacheLatency = 0,
            m_forceLongLatencyLoad = False, du_first = m_first uop, du_last = m_last uop\<rparr>)"

definition mark_first :: "(dynamic_micro_op \<Rightarrow> dynamic_micro_op) \<Rightarrow> dynamic_micro_op list \<Rightarrow> dynamic_micro_op list" where
  "mark_first f us = (case List.find (\<lambda>i. \<not> squashed (us ! i)) [0 ..< length us] of None \<Rightarrow> us | Some i \<Rightarrow> us[i := f (us ! i)])"

text \<open>Squashing the micro-operation at a position of the list of its instruction: the flags of the first and the last that remain are set.\<close>

definition squash :: "nat \<Rightarrow> dynamic_micro_op list \<Rightarrow> dynamic_micro_op list" where
  "squash i us =
     (let us1 = us[i := (us ! i)\<lparr>squashed := True\<rparr>]; us2 = mark_first (du_first_update (\<lambda>_. True)) us1
      in rev (mark_first (du_last_update (\<lambda>_. True)) (rev us2)))"

definition getDependenciesLength :: "dynamic_micro_op \<Rightarrow> nat" where
  "getDependenciesLength u = intraInstructionDependencies u + length (dependencies u)"

definition getDependency :: "nat \<Rightarrow> dynamic_micro_op \<Rightarrow> UInt64 result" where
  "getDependency index u =
     (if index < intraInstructionDependencies u
      then Inr (sequenceNumber u - of_nat (microOpTypeOffset u) - of_nat (intraInstructionDependencies u) + of_nat index)
      else bindE (assertE (index - intraInstructionDependencies u < length (dependencies u)) (ASSERT ''dependenciesLength'')) (\<lambda>_.
             Inr (dependencies u ! (index - intraInstructionDependencies u))))"

definition addDependency :: "UInt64 \<Rightarrow> dynamic_micro_op \<Rightarrow> dynamic_micro_op result" where
  "addDependency n u =
     (if n \<in> set (dependencies u) then Inr u
      else bindE (assertE (length (dependencies u) < MAXIMUM_NUMBER_OF_DEPENDENCIES) (ASSERT ''dependenciesLength'')) (\<lambda>_.
             Inr (u\<lparr>dependencies := dependencies u @ [n]\<rparr>)))"

text \<open>
  The loop that takes dependencies inside the instruction until the one to remove is the first; \<open>origin\<close> is the sequence
  number without the offset. A write behind the end of the array comes before the check of the length.
\<close>

fun remove_intra :: "UInt64 \<Rightarrow> UInt64 \<Rightarrow> nat \<Rightarrow> UInt64 list \<Rightarrow> (nat \<times> UInt64 list) result" where
  "remove_intra n origin 0 ds = Inl (LOG_ASSERT_ERROR ''Something went wrong while removing an intra-instruction dependency'')"
| "remove_intra n origin (Suc k) ds =
     (if n = origin - of_nat (Suc k) then Inr (k, ds)
      else if length ds \<ge> MAXIMUM_NUMBER_OF_DEPENDENCIES then Inl (UNDEFINED ''dependencies[dependenciesLength]'')
      else if length ds + 1 \<ge> MAXIMUM_NUMBER_OF_DEPENDENCIES then Inl (LOG_ASSERT_ERROR ''dependenciesLength > MAX'')
      else remove_intra n origin k (ds @ [origin - of_nat (Suc k)]))"

definition list_index :: "UInt64 list \<Rightarrow> UInt64 \<Rightarrow> nat option" where
  "list_index ds n = List.find (\<lambda>i. ds ! i = n) [0 ..< length ds]"

definition removeDependency :: "UInt64 \<Rightarrow> dynamic_micro_op \<Rightarrow> dynamic_micro_op result" where
  "removeDependency n u =
     (let origin = sequenceNumber u - of_nat (microOpTypeOffset u); ds = dependencies u in
      if n \<ge> origin - of_nat (intraInstructionDependencies u)
      then bindE (remove_intra n origin (intraInstructionDependencies u) ds) (\<lambda>(k, ds1).
             Inr (u\<lparr>intraInstructionDependencies := k, dependencies := ds1\<rparr>))
      else bindE (assertE (ds \<noteq> []) (LOG_ASSERT_ERROR ''Cannot remove dependency when there are none'')) (\<lambda>_.
           if last ds = n then Inr (u\<lparr>dependencies := butlast ds\<rparr>)
           else case list_index ds n of
                  None \<Rightarrow> Inl (LOG_ASSERT_ERROR ''MicroOp dependency list does not contain'')
                | Some i \<Rightarrow> Inr (u\<lparr>dependencies := butlast (ds[i := last ds, length ds - 1 := ds ! i])\<rparr>)))"

definition isLongLatencyLoad :: "UInt32 \<Rightarrow> dynamic_micro_op \<Rightarrow> bool result" where
  "isLongLatencyLoad cutoff u =
     bindE (assertE (isLoad (m_uop u)) (LOG_ASSERT_ERROR ''Expected a load instruction.'')) (\<lambda>_.
       Inr (m_forceLongLatencyLoad u \<or> (cutoff > 0 \<and> execLatency u > cutoff)))"

definition isBranchMispredicted :: "dynamic_micro_op \<Rightarrow> bool result" where
  "isBranchMispredicted u =
     bindE (assertE (mo_branch (m_uop u)) (LOG_ASSERT_ERROR ''Expected a branch instruction.'')) (\<lambda>_. Inr (branchMispredicted u))"

section \<open>Producers of registers\<close>

type_synonym register_dependencies = "nat \<Rightarrow> UInt64"

definition RegisterDependencies :: register_dependencies where
  "RegisterDependencies = (\<lambda>_. INVALID_SEQNR)"

fun depend_on_registers ::
  "decoder \<Rightarrow> UInt64 \<Rightarrow> nat list \<Rightarrow> dynamic_micro_op \<times> register_dependencies \<Rightarrow> (dynamic_micro_op \<times> register_dependencies) result" where
  "depend_on_registers dec lowest [] up = Inr up"
| "depend_on_registers dec lowest (r # rs) (u, p) =
     bindE (assertE (r < last_reg dec) (LOG_ASSERT_ERROR ''Source register is invalid'')) (\<lambda>_.
     bindE (if p r \<noteq> INVALID_SEQNR
            then if p r \<ge> lowest then bindE (addDependency (p r) u) (\<lambda>u1. Inr (u1, p))
                 else Inr (u, p(map_register dec r := INVALID_SEQNR))
            else Inr (u, p)) (depend_on_registers dec lowest rs))"

definition reg_setDependencies :: "decoder \<Rightarrow> UInt64 \<Rightarrow> dynamic_micro_op \<Rightarrow> register_dependencies \<Rightarrow> (dynamic_micro_op \<times> register_dependencies) result" where
  "reg_setDependencies dec lowest u p =
     bindE (depend_on_registers dec lowest (sourceRegisters (m_uop u)) (u, p)) (\<lambda>(u1, p1).
     bindE (assertE (\<forall>r\<in>set (destinationRegisters (m_uop u)). r < last_reg dec) (LOG_ASSERT_ERROR ''Destination register is invalid'')) (\<lambda>_.
       Inr (u1, foldl (\<lambda>p r. p(r := sequenceNumber u1)) p1 (destinationRegisters (m_uop u)))))"

text \<open>\<open>None\<close> is \<^verbatim>\<open>DL_REG_INVALID\<close>.\<close>

definition peekProducer :: "nat option \<Rightarrow> UInt64 \<Rightarrow> register_dependencies \<Rightarrow> UInt64" where
  "peekProducer reg lowest p =
     (case reg of None \<Rightarrow> INVALID_SEQNR | Some r \<Rightarrow> if p r = INVALID_SEQNR \<or> p r < lowest then INVALID_SEQNR else p r)"

section \<open>Producers of memory\<close>

text \<open>The circular queue has room for 1024 producers.\<close>

record memory_dependencies =
  md_producers :: "(UInt64 \<times> UInt64) list"
  md_membar :: UInt64

definition MemoryDependencies :: memory_dependencies where
  "MemoryDependencies = \<lparr>md_producers = [], md_membar = INVALID_SEQNR\<rparr>"

definition md_add :: "UInt64 \<Rightarrow> UInt64 \<Rightarrow> memory_dependencies \<Rightarrow> memory_dependencies result" where
  "md_add n address d =
     bindE (assertE (length (md_producers d) < 1024) (ASSERT ''!full()'')) (\<lambda>_.
       Inr (d\<lparr>md_producers := md_producers d @ [(n, address)]\<rparr>))"

definition md_find :: "UInt64 \<Rightarrow> memory_dependencies \<Rightarrow> UInt64" where
  "md_find address d = (case List.find (\<lambda>(n, a). a = address) (rev (md_producers d)) of None \<Rightarrow> INVALID_SEQNR | Some (n, a) \<Rightarrow> n)"

definition md_clean :: "UInt64 \<Rightarrow> memory_dependencies \<Rightarrow> memory_dependencies" where
  "md_clean lowest d = d\<lparr>md_producers := dropWhile (\<lambda>(n, a). n < lowest) (md_producers d)\<rparr>"

definition depend_on_membar :: "UInt64 \<Rightarrow> memory_dependencies \<Rightarrow> dynamic_micro_op \<Rightarrow> dynamic_micro_op result" where
  "depend_on_membar lowest d u =
     (if md_membar d \<noteq> INVALID_SEQNR \<and> md_membar d > lowest then addDependency (md_membar d) u else Inr u)"

definition mem_setDependencies :: "UInt64 \<Rightarrow> dynamic_micro_op \<Rightarrow> memory_dependencies \<Rightarrow> (dynamic_micro_op \<times> memory_dependencies) result" where
  "mem_setDependencies lowest u d0 =
     (let d = md_clean lowest d0 in
      if isLoad (m_uop u)
      then let producer = md_find (du_address u) d in
           bindE (if producer \<noteq> INVALID_SEQNR then addDependency producer u else Inr u) (\<lambda>u1.
           bindE (depend_on_membar lowest d u1) (\<lambda>u2. Inr (u2, d)))
      else if isStore (m_uop u)
      then bindE (md_add (sequenceNumber u) (du_address u) d) (\<lambda>d1.
           bindE (depend_on_membar lowest d1 u) (\<lambda>u1. Inr (u1, d1)))
      else if m_membar (m_uop u)
      then bindE (depend_on_membar lowest d u) (\<lambda>u1. Inr (u1, d\<lparr>md_membar := sequenceNumber u\<rparr>))
      else Inr (u, d))"

section \<open>Dependencies are removed one at a time\<close>

definition all_dependencies :: "dynamic_micro_op \<Rightarrow> UInt64 list" where
  "all_dependencies u =
     map (\<lambda>k. sequenceNumber u - of_nat (microOpTypeOffset u) - of_nat k) (rev [1 ..< Suc (intraInstructionDependencies u)]) @ dependencies u"

lemma length_all_dependencies: "length (all_dependencies u) = getDependenciesLength u"
  by (simp add: all_dependencies_def getDependenciesLength_def del: upt_Suc)

lemma getDependency_nth:
  assumes "i < getDependenciesLength u" shows "getDependency i u = Inr (all_dependencies u ! i)"
proof (cases "i < intraInstructionDependencies u")
  case True
  then have "rev [1 ..< Suc (intraInstructionDependencies u)] ! i = intraInstructionDependencies u - i"
    by (simp add: rev_nth del: upt_Suc)
  with True show ?thesis
    by (simp add: getDependency_def all_dependencies_def nth_append of_nat_diff algebra_simps del: upt_Suc)
next
  case False
  with assms show ?thesis
    by (simp add: getDependency_def all_dependencies_def nth_append getDependenciesLength_def assertE_def del: upt_Suc)
qed

lemma list_index_Some: "list_index ds n = Some i \<Longrightarrow> i < length ds \<and> ds ! i = n"
  by (auto simp: list_index_def find_Some_iff)

lemma list_index_None: "list_index ds n = None \<longleftrightarrow> n \<notin> set ds"
  by (auto simp: list_index_def find_None_iff in_set_conv_nth)

lemma mset_swap_butlast:
  assumes "ds \<noteq> []" and "i < length ds"
  shows "mset ds = add_mset (ds ! i) (mset (butlast (ds[i := last ds, length ds - 1 := ds ! i])))"
proof -
  let ?s = "ds[i := last ds, length ds - 1 := ds ! i]"
  have "mset ?s = mset ds" using assms by (simp add: last_conv_nth mset_swap)
  moreover have "?s = butlast ?s @ [ds ! i]"
    using assms by (metis append_butlast_last_id last_list_update length_list_update list_update_nonempty)
  ultimately show ?thesis by (metis add_mset_add_single mset.simps mset_append)
qed

lemma remove_intra_mset:
  "remove_intra n origin k ds = Inr (k', ds') \<Longrightarrow>
   mset (map (\<lambda>k. origin - of_nat k) (rev [1 ..< Suc k]) @ ds) =
   add_mset n (mset (map (\<lambda>k. origin - of_nat k) (rev [1 ..< Suc k']) @ ds'))"
proof (induction n origin k ds rule: remove_intra.induct)
  case (2 n origin k ds)
  then show ?case by (fastforce split: if_splits)
qed simp

lemma keep_intra: "\<exists>k ds. (u :: dynamic_micro_op)\<lparr>dependencies := d\<rparr> = u\<lparr>intraInstructionDependencies := k, dependencies := ds\<rparr>"
  by (rule exI [of _ "intraInstructionDependencies u"], rule exI [of _ d]) simp

theorem removeDependency_removes_one:
  assumes "removeDependency n u = Inr u'"
  shows "mset (all_dependencies u) = add_mset n (mset (all_dependencies u'))
         \<and> (\<exists>k ds. u' = u\<lparr>intraInstructionDependencies := k, dependencies := ds\<rparr>)"
proof -
  let ?o = "sequenceNumber u - of_nat (microOpTypeOffset u)"
  show ?thesis
  proof (cases "n \<ge> ?o - of_nat (intraInstructionDependencies u)")
    case True
    then obtain k ds where r: "remove_intra n ?o (intraInstructionDependencies u) (dependencies u) = Inr (k, ds)"
      and u': "u' = u\<lparr>intraInstructionDependencies := k, dependencies := ds\<rparr>"
      using assms by (auto simp: removeDependency_def Let_def bindE_def split: sum.splits prod.splits)
    show ?thesis using remove_intra_mset [OF r] u' by (auto simp: all_dependencies_def simp del: upt_Suc)
  next
    case False
    with assms have ne: "dependencies u \<noteq> []" by (auto simp: removeDependency_def Let_def bindE_def assertE_def)
    show ?thesis
    proof (cases "last (dependencies u) = n")
      case True
      with assms False ne have u': "u' = u\<lparr>dependencies := butlast (dependencies u)\<rparr>"
        by (simp add: removeDependency_def Let_def bindE_def assertE_def)
      have "mset (dependencies u) = add_mset n (mset (butlast (dependencies u)))"
        using ne True by (metis add_mset_add_single append_butlast_last_id mset.simps mset_append)
      then show ?thesis using keep_intra [where u = u] by (simp add: u' all_dependencies_def del: upt_Suc)
    next
      case nl: False
      with assms False ne obtain i where i: "list_index (dependencies u) n = Some i"
        and u': "u' = u\<lparr>dependencies := butlast ((dependencies u)[i := last (dependencies u), length (dependencies u) - 1 := dependencies u ! i])\<rparr>"
        by (auto simp: removeDependency_def Let_def bindE_def assertE_def split: option.splits)
      have "i < length (dependencies u)" "dependencies u ! i = n" using list_index_Some [OF i] by auto
      with mset_swap_butlast [OF ne, of i] show ?thesis using u' keep_intra [where u = u]
        by (simp add: all_dependencies_def del: upt_Suc)
    qed
  qed
qed

definition example_uop :: dynamic_micro_op where
  "example_uop = (case DynamicMicroOp (\<lambda>_. 1) (MicroOp\<lparr>mo_intraInstructionDependencies := 2\<rparr>) 1 of Inr u \<Rightarrow> u\<lparr>sequenceNumber := 9, dependencies := [3, 5]\<rparr>)"

theorem removeDependency_removes_one_witness:
  "mset (all_dependencies example_uop) =
   add_mset 8 (mset (all_dependencies (example_uop\<lparr>intraInstructionDependencies := 0, dependencies := [3, 5, 7]\<rparr>)))"
proof -
  have "removeDependency 8 example_uop = Inr (example_uop\<lparr>intraInstructionDependencies := 0, dependencies := [3, 5, 7]\<rparr>)"
    by code_simp
  then show ?thesis using removeDependency_removes_one by blast
qed

text \<open>A dependency that is not the first inside the instruction can overrun the array: the write is before the check.\<close>

lemma removeDependency_overruns_array:
  "removeDependency 8 (example_uop\<lparr>dependencies := replicate 13 3\<rparr>) = Inl (LOG_ASSERT_ERROR ''dependenciesLength > MAX'')
   \<and> removeDependency 8 (example_uop\<lparr>dependencies := replicate 14 3\<rparr>) = Inl (UNDEFINED ''dependencies[dependenciesLength]'')"
  by code_simp

end
