(* ===== verification/Core_Models.thy ===== *)
theory Core_Models
  imports Micro_Op
begin

text \<open>
  \<^verbatim>\<open>performance_models/core_model/\<close>: the four core models with their latencies (\<^verbatim>\<open>core_model_*.cc\<close>) and the port, the
  unit and the bypass of a micro-operation (\<^verbatim>\<open>dynamic_micro_op_*.cc\<close>), and the table of the RISC-V instructions
  (\<^verbatim>\<open>riscv_meta.h\<close>). An opcode is the name of its constant without the prefix. A table of latencies lists the assignments
  of the constructor in their order, so a later one for the same opcode wins; the array starts with 1 everywhere.
\<close>

type_synonym latency_table = "(string \<times> UInt32) list"

definition latency_of :: "latency_table \<Rightarrow> string \<Rightarrow> UInt32" where
  "latency_of tbl op = (case map_of (rev tbl) op of None \<Rightarrow> 1 | Some l \<Rightarrow> l)"

section \<open>Nehalem\<close>

datatype nehalem_port = NEHALEM_PORT0 | NEHALEM_PORT1 | NEHALEM_PORT2 | NEHALEM_PORT34 | NEHALEM_PORT5 | NEHALEM_PORT05 | NEHALEM_PORT015

datatype nehalem_alu = NEHALEM_ALU_NONE | NEHALEM_ALU_TRIG

datatype uop_bypass_t = UOP_BYPASS_NONE | UOP_BYPASS_LOAD_FP | UOP_BYPASS_FP_STORE

definition nehalem_instructionLatencies :: "(string \<times> UInt32) list" where
  "nehalem_instructionLatencies = [(''MUL'', 3), (''IMUL'', 3), (''DIV'', 28), (''IDIV'', 28), (''ADDPS'', 3), (''ADDSS'', 3), (''ADDSUBPS'', 3),
     (''SUBPS'', 3), (''SUBSS'', 3), (''VADDPS'', 3), (''VADDSS'', 3), (''VADDSUBPS'', 3), (''VSUBPS'', 3), (''VSUBSS'', 3),
     (''ADDPD'', 3), (''ADDSD'', 3), (''ADDSUBPD'', 3), (''SUBPD'', 3), (''SUBSD'', 3), (''VADDPD'', 3), (''VADDSD'', 3),
     (''VADDSUBPD'', 3), (''VSUBPD'', 3), (''VSUBSD'', 3), (''MAXSS'', 3), (''MAXSD'', 3), (''MAXPS'', 3), (''MAXPD'', 3),
     (''MINSS'', 3), (''MINSD'', 3), (''MINPS'', 3), (''MINPD'', 3), (''MULSS'', 4), (''MULPS'', 4), (''VMULSS'', 4),
     (''VMULPS'', 4), (''MULSD'', 5), (''MULPD'', 5), (''VMULSD'', 5), (''VMULPD'', 5), (''DIVSS'', 11), (''DIVPS'', 11),
     (''VDIVSS'', 11), (''VDIVPS'', 11), (''DIVSD'', 17), (''DIVPD'', 17), (''VDIVSD'', 17), (''VDIVPD'', 17), (''SQRTSS'', 18),
     (''SQRTPS'', 18), (''VSQRTSS'', 18), (''VSQRTPS'', 18), (''SQRTSD'', 32), (''SQRTPD'', 32), (''VSQRTSD'', 32),
     (''VSQRTPD'', 32), (''RSQRTSS'', 3), (''RSQRTPS'', 3), (''VRSQRTSS'', 3), (''VRSQRTPS'', 3), (''FLDENV'', 110),
     (''FNSTENV'', 75), (''CVTPD2PS'', 4), (''CVTSD2SS'', 4), (''CVTPS2PD'', 2), (''CVTSS2SD'', 1), (''CVTDQ2PS'', 5),
     (''CVTPS2DQ'', 5), (''CVTTPS2DQ'', 5), (''CVTDQ2PD'', 6), (''CVTPD2DQ'', 6), (''CVTTPD2DQ'', 6), (''CVTPI2PS'', 5),
     (''CVTPS2PI'', 5), (''CVTTPS2PI'', 5), (''CVTPI2PD'', 6), (''CVTPD2PI'', 6), (''CVTTPD2PI'', 6), (''CVTSI2SS'', 5),
     (''CVTSS2SI'', 5), (''CVTTSS2SI'', 5), (''CVTSI2SD'', 6), (''CVTSD2SI'', 5), (''CVTTSD2SI'', 5), (''COMISS'', 3),
     (''COMISD'', 3), (''UCOMISS'', 3), (''UCOMISD'', 3)]"


definition nehalem_port0_opcodes :: "string list" where
  "nehalem_port0_opcodes = [''CVTPS2PD'', ''CVTSS2SD'', ''SQRTSS'', ''SQRTPS'', ''SQRTSD'', ''SQRTPD'', ''VSQRTSS'', ''VSQRTPS'', ''VSQRTSD'',
      ''VSQRTPD'']"

definition nehalem_port1_opcodes :: "string list" where
  "nehalem_port1_opcodes = [''COMISD'', ''COMISS'', ''UCOMISD'', ''UCOMISS'', ''MAXSS'', ''MAXSD'', ''MAXPS'', ''MAXPD'', ''MINSS'', ''MINSD'',
      ''MINPS'', ''MINPD'', ''ROUNDPS'', ''ROUNDPD'', ''CVTPD2PS'', ''CVTSD2SS'', ''CVTDQ2PS'', ''CVTPS2DQ'',
      ''CVTTPS2DQ'', ''CVTDQ2PD'', ''CVTPD2DQ'', ''CVTTPD2DQ'', ''CVTPI2PS'', ''CVTPS2PI'', ''CVTTPS2PI'', ''CVTPI2PD'',
      ''CVTPD2PI'', ''CVTTPD2PI'', ''CVTSI2SS'', ''CVTSS2SI'', ''CVTTSS2SI'', ''CVTSI2SD'', ''CVTSD2SI'', ''CVTTSD2SI'',
      ''RSQRTSS'', ''RSQRTPS'', ''VRSQRTSS'', ''VRSQRTPS'']"

definition nehalem_port5_opcodes :: "string list" where
  "nehalem_port5_opcodes = [''ANDPS'', ''ANDPD'', ''ANDNPS'', ''ANDNPD'', ''ORPS'', ''ORPD'', ''XORPS'', ''XORPD'', ''MOVAPD'', ''MOVAPS'',
      ''MOVHLPS'', ''MOVHPD'', ''MOVHPS'', ''MOVLHPS'', ''MOVLPD'', ''MOVLPS'', ''MOVMSKPD'', ''MOVMSKPS'', ''MOVSD_XMM'',
      ''MOVSHDUP'', ''MOVSLDUP'', ''MOVSS'', ''VMOVAPD'', ''VMOVAPS'', ''VMOVHLPS'', ''VMOVHPD'', ''VMOVHPS'',
      ''VMOVLHPS'', ''VMOVLPD'', ''VMOVLPS'', ''VMOVMSKPD'', ''VMOVMSKPS'', ''VMOVSD'', ''VMOVSHDUP'', ''VMOVSLDUP'',
      ''VMOVSS'', ''UNPCKHPD'', ''UNPCKHPS'', ''UNPCKLPD'', ''UNPCKLPS'']"

definition nehalem_getPort :: "micro_op \<Rightarrow> nehalem_port" where
  "nehalem_getPort u =
     (case uop_subtype u of
        UOP_SUBTYPE_FP_ADDSUB \<Rightarrow> NEHALEM_PORT1
      | UOP_SUBTYPE_FP_MULDIV \<Rightarrow> NEHALEM_PORT0
      | UOP_SUBTYPE_LOAD \<Rightarrow> NEHALEM_PORT2
      | UOP_SUBTYPE_STORE \<Rightarrow> NEHALEM_PORT34
      | UOP_SUBTYPE_GENERIC \<Rightarrow>
          (let op = instructionOpcode u in
           if op = ''IMUL'' then (if operand_size u = 64 then NEHALEM_PORT0 else NEHALEM_PORT1)
           else if op = ''LEA'' then NEHALEM_PORT1
           else if op \<in> set nehalem_port0_opcodes then NEHALEM_PORT0
           else if op \<in> set nehalem_port1_opcodes then NEHALEM_PORT1
           else if op \<in> set nehalem_port5_opcodes then NEHALEM_PORT5
           else NEHALEM_PORT015)
      | UOP_SUBTYPE_BRANCH \<Rightarrow> NEHALEM_PORT5)"

text \<open>The bypass is the same function for Nehalem and BOOM; the Cortex models have none.\<close>

definition fp_getBypassType :: "decoder \<Rightarrow> micro_op \<Rightarrow> uop_bypass_t" where
  "fp_getBypassType dec u =
     (case uop_subtype u of
        UOP_SUBTYPE_LOAD \<Rightarrow> if isFpLoadStore dec u then UOP_BYPASS_LOAD_FP else UOP_BYPASS_NONE
      | UOP_SUBTYPE_STORE \<Rightarrow> if isFpLoadStore dec u then UOP_BYPASS_FP_STORE else UOP_BYPASS_NONE
      | _ \<Rightarrow> UOP_BYPASS_NONE)"

definition nehalem_trig_opcodes :: "string list" where
  "nehalem_trig_opcodes = [''DIV'', ''IDIV'', ''FDIV'', ''FIDIV'', ''FDIVP'', ''FDIVR'', ''FDIVRP'', ''DIVSS'', ''DIVPS'', ''DIVSD'', ''DIVPD'',
      ''VDIVSS'', ''VDIVPS'', ''VDIVSD'', ''VDIVPD'', ''SQRTSS'', ''SQRTPS'', ''SQRTSD'', ''SQRTPD'', ''VSQRTSS'',
      ''VSQRTPS'', ''VSQRTSD'', ''VSQRTPD'', ''RSQRTSS'', ''RSQRTPS'', ''VRSQRTSS'', ''VRSQRTPS'']"

definition nehalem_getAlu :: "micro_op \<Rightarrow> nehalem_alu" where
  "nehalem_getAlu u =
     (if uop_type u = UOP_EXECUTE \<and> instructionOpcode u \<in> set nehalem_trig_opcodes then NEHALEM_ALU_TRIG else NEHALEM_ALU_NONE)"

definition nehalem_getInstructionLatency :: "micro_op \<Rightarrow> UInt32" where
  "nehalem_getInstructionLatency u = latency_of nehalem_instructionLatencies (instructionOpcode u)"

definition nehalem_getAluLatency :: "micro_op \<Rightarrow> UInt32" where
  "nehalem_getAluLatency u =
     (if instructionOpcode u \<in> {''DIV'', ''IDIV''} then if operand_size u > 32 then 28 else 9 else nehalem_getInstructionLatency u)"

fun nehalem_bypassLatencies :: "uop_bypass_t \<Rightarrow> UInt32" where
  "nehalem_bypassLatencies UOP_BYPASS_NONE = 0"
| "nehalem_bypassLatencies UOP_BYPASS_LOAD_FP = 2"
| "nehalem_bypassLatencies UOP_BYPASS_FP_STORE = 1"

section \<open>Cortex A53 and A72\<close>

datatype a53_port = A53_PORT0 | A53_PORT0_12 | A53_PORT1 | A53_PORT2 | A53_PORT12 | A53_PORT3 | A53_PORT4 | A53_PORT34 | A53_PORT5 | A53_PORT5_12

datatype a53_alu = A53_ALU_NONE | A53_ALU_DIV | A53_ALU_MUL | A53_ALU_FPNEON0 | A53_ALU_FPNEON1

datatype a53_slot = UOP_ISSUE_SLOT_00 | UOP_ISSUE_SLOT_01 | UOP_ISSUE_SLOT_10 | UOP_ISSUE_SLOT_11

datatype a72_port = A72_PORT0 | A72_PORT0_12 | A72_PORT12 | A72_PORT3 | A72_PORT12_3 | A72_PORT4 | A72_PORT5 | A72_PORT6 | A72_PORT7
  | A72_PORT6_12 | A72_PORT7_12

datatype a72_alu = A72_ALU_NONE | A72_ALU_MULDIV

definition a53_instructionLatencies_1 :: "(string \<times> UInt32) list" where
  "a53_instructionLatencies_1 = [(''SDIV'', 3), (''UDIV'', 3), (''MADD'', 3), (''MSUB'', 3), (''SMADDL'', 3), (''SMSUBL'', 3), (''UMADDL'', 3),
     (''UMSUBL'', 3), (''EXTR'', 3), (''BFM'', 2), (''SBFM'', 2), (''SBFX'', 2), (''UBFIZ'', 2), (''UBFM'', 2), (''FABS'', 4),
     (''FADD'', 4), (''FSUB'', 4), (''FDIV'', 18), (''FMUL'', 6), (''FNMUL'', 7), (''FMADD'', 8), (''FMSUB'', 8),
     (''FNMADD'', 8), (''FNMSUB'', 8), (''FNEG'', 4), (''FSQRT'', 17), (''FCVT'', 4), (''FMOV'', 4), (''ABS'', 4), (''ADDP'', 4),
     (''NEG'', 4), (''SADDL'', 4), (''SADDL2'', 4), (''SADDLP'', 4), (''SADDW'', 4), (''SADDW2'', 4), (''SHADD'', 4),
     (''SHSUB'', 4), (''SSUBL'', 4), (''SSUBL2'', 4), (''SSUBW'', 4), (''SSUBW2'', 4), (''UADDL'', 4), (''UADDL2'', 4),
     (''UADDLP'', 4), (''UADDW'', 4), (''UADDW2'', 4), (''UHADD'', 4), (''UHSUB'', 4), (''USUBW'', 4), (''USUBW2'', 4),
     (''ADDHN'', 4), (''ADDHN2'', 4), (''RADDHN'', 4), (''RADDHN2'', 4), (''RSUBHN'', 4), (''RSUBHN2'', 4), (''SQABS'', 4),
     (''SQADD'', 4), (''SQNEG'', 4), (''SQSUB'', 4), (''SRHADD'', 4), (''SUBHN'', 4), (''SUBHN2'', 4), (''SUQADD'', 4),
     (''UQADD'', 4), (''UQSUB'', 4), (''URHADD'', 4), (''USQADD'', 4), (''ADDV'', 3), (''MUL'', 3)]"

definition a53_instructionLatencies_2 :: "(string \<times> UInt32) list" where
  "a53_instructionLatencies_2 = [(''MLA'', 11), (''MLS'', 11), (''SMLAL'', 4), (''SMLAL2'', 4), (''SMLSL'', 4), (''SMLSL2'', 4), (''UMLAL'', 4),
     (''UMLAL2'', 4), (''UMLSL'', 4), (''UMLSL2'', 4), (''SMULL'', 4), (''SMULL2'', 4), (''UMULL'', 4), (''UMULL2'', 4),
     (''SQDMULL'', 4), (''SQDMULL2'', 4), (''FABD'', 4), (''FCVT'', 4), (''FCVTL'', 4), (''FCVTN'', 4), (''FCVTN2'', 4),
     (''FCVTAS'', 4), (''FCVTAU'', 4), (''FCVTMS'', 4), (''FCVTMU'', 4), (''FCVTNS'', 4), (''FCVTNU'', 4), (''FCVTPS'', 4),
     (''FCVTPU'', 4), (''FCVTZS'', 4), (''FCVTZU'', 4), (''SCVTF'', 4), (''UCVTF'', 4), (''FMLA'', 8), (''FMLS'', 8),
     (''FNEG'', 3), (''EXT'', 5), (''MOVI'', 1), (''TBL'', 5), (''TRN1'', 5), (''TRN2'', 5), (''UZP1'', 6), (''UZP2'', 6),
     (''ZIP1'', 6), (''ZIP2'', 6), (''LDR'', 3), (''LDP'', 3), (''LDRB'', 3)]"

definition a72_instructionLatencies_1 :: "(string \<times> UInt32) list" where
  "a72_instructionLatencies_1 = [(''SDIV'', 4), (''UDIV'', 4), (''MADD'', 3), (''MSUB'', 3), (''SMADDL'', 3), (''SMSUBL'', 3), (''UMADDL'', 3),
     (''UMSUBL'', 3), (''SMULH'', 9), (''UMULH'', 9), (''EXTR'', 3), (''BFM'', 2), (''FABS'', 3), (''FADD'', 4), (''FSUB'', 4),
     (''FCCMP'', 3), (''FCCMPE'', 3), (''FCMP'', 3), (''FCMPE'', 3), (''FDIV'', 12), (''FMIN'', 3), (''FMAX'', 3),
     (''FMINNM'', 3), (''FMAXNM'', 3), (''FMUL'', 4), (''FNMUL'', 4), (''FMADD'', 7), (''FMSUB'', 7), (''FNMADD'', 7),
     (''FNMSUB'', 7), (''FNEG'', 3), (''FRINTA'', 3), (''FRINTI'', 3), (''FRINTM'', 3), (''FRINTN'', 3), (''FRINTP'', 3),
     (''FRINTX'', 3), (''FRINTZ'', 3), (''FCSEL'', 3), (''FSQRT'', 17), (''FCVT'', 3), (''FCVTXN'', 3), (''SCVTF'', 8),
     (''UCVTF'', 8), (''FCVTAS'', 8), (''FCVTAU'', 8), (''FCVTMS'', 8), (''FCVTMU'', 8), (''FCVTNS'', 8), (''FCVTNU'', 8),
     (''FCVTPS'', 8), (''FCVTPU'', 8), (''FCVTZS'', 8), (''FCVTZU'', 8), (''FMOV'', 5), (''SABD'', 3), (''UABD'', 3),
     (''SABA'', 5), (''UABA'', 5), (''SABAL'', 4), (''SABAL2'', 4), (''UABAL'', 4), (''UABAL2'', 4), (''SABDL'', 3),
     (''UABDL'', 3), (''ABS'', 3), (''ADDP'', 3), (''NEG'', 3), (''SADDL'', 3), (''SADDL2'', 3), (''SADDLP'', 3), (''SADDW'', 3),
     (''SADDW2'', 3), (''SHADD'', 3), (''SHSUB'', 3), (''SSUBL'', 3), (''SSUBL2'', 3), (''SSUBW'', 3), (''SSUBW2'', 3),
     (''UADDL'', 3), (''UADDL2'', 3), (''UADDLP'', 3), (''UADDW'', 3), (''UADDW2'', 3), (''UHADD'', 3), (''UHSUB'', 3),
     (''USUBW'', 3), (''USUBW2'', 3)]"

definition a72_instructionLatencies_2 :: "(string \<times> UInt32) list" where
  "a72_instructionLatencies_2 = [(''ADDHN'', 3), (''ADDHN2'', 3), (''RADDHN'', 3), (''RADDHN2'', 3), (''RSUBHN'', 3), (''RSUBHN2'', 3), (''SQABS'', 3),
     (''SQADD'', 3), (''SQNEG'', 3), (''SQSUB'', 3), (''SRHADD'', 3), (''SUBHN'', 3), (''SUBHN2'', 3), (''SUQADD'', 3),
     (''UQADD'', 3), (''UQSUB'', 3), (''URHADD'', 3), (''USQADD'', 3), (''ADDV'', 6), (''SADDLV'', 6), (''UADDLV'', 6),
     (''CMEQ'', 3), (''CMGE'', 3), (''CMGT'', 3), (''CMHI'', 3), (''CMHS'', 3), (''CMLE'', 3), (''CMLT'', 3), (''CMTST'', 3),
     (''SMAX'', 3), (''SMAXP'', 3), (''SMIN'', 3), (''SMINP'', 3), (''UMAX'', 3), (''UMAXP'', 3), (''UMIN'', 3), (''UMINP'', 3),
     (''SMAXV'', 6), (''SMINV'', 6), (''UMAXV'', 6), (''UMINV'', 6), (''MUL'', 3), (''PMUL'', 4), (''SQDMULH'', 5),
     (''SQRDMULH'', 5), (''MLA'', 5), (''MLS'', 5), (''SMLAL'', 4), (''SMLAL2'', 4), (''SMLSL'', 4), (''SMLSL2'', 4),
     (''UMLAL'', 4), (''UMLAL2'', 4), (''UMLSL'', 4), (''UMLSL2'', 4), (''SQDMLAL'', 4), (''SQDMLAL2'', 4), (''SQDMLSL'', 4),
     (''SQDMLSL2'', 4), (''SMULL'', 4), (''SMULL2'', 4), (''UMULL'', 4), (''UMULL2'', 4), (''SQDMULL'', 4), (''SQDMULL2'', 4),
     (''PMULL'', 4), (''PMULL2'', 4), (''SADALP'', 4), (''UADALP'', 4), (''SRSRA'', 4), (''USRA'', 4), (''URSRA'', 4),
     (''SHL'', 3), (''SHLL'', 3), (''SHLL2'', 3), (''SHRN'', 3), (''SHRN2'', 3), (''SLI'', 4), (''SRI'', 4), (''SSHLL'', 3),
     (''SSHLL2'', 3), (''SSHR'', 3), (''USHLL'', 3), (''USHLL2'', 3), (''USHR'', 3), (''RSHRN'', 4), (''RSHRN2'', 4),
     (''SRSHR'', 4), (''SQSHL'', 4), (''SQSHLU'', 4), (''SQRSHRN'', 4), (''SQRSHRN2'', 4), (''SQRSHRUN'', 4), (''SQRSHRUN2'', 4),
     (''SQSHRN'', 4), (''SQSHRN2'', 4), (''SQSHRUN'', 4), (''SQSHRUN2'', 4), (''URSHR'', 4), (''UQSHL'', 4), (''UQRSHRN'', 4),
     (''UQRSHRN2'', 4), (''UQSHRN'', 4), (''UQSHRN2'', 4), (''SSHL'', 4), (''USHL'', 4), (''SRSHL'', 5), (''SQRSHL'', 5),
     (''SQSHL'', 5), (''URSHL'', 5)]"

definition a72_instructionLatencies_3 :: "(string \<times> UInt32) list" where
  "a72_instructionLatencies_3 = [(''UQRSHL'', 5), (''UQSHL'', 5), (''FABD'', 4), (''FADDP'', 7), (''FACGE'', 3), (''FACGT'', 3), (''FCMEQ'', 3),
     (''FCMGE'', 3), (''FCMGT'', 3), (''FCMLE'', 3), (''FCMLT'', 3), (''FCVTL'', 7), (''FCVTL2'', 7), (''FCVTN'', 7),
     (''FCVTN2'', 7), (''FCVTXN'', 7), (''FCVTXN2'', 7), (''FCVTAS'', 4), (''FCVTAU'', 4), (''FCVTMS'', 4), (''FCVTMU'', 4),
     (''FCVTNS'', 4), (''FCVTNU'', 4), (''FCVTPS'', 4), (''FCVTPU'', 4), (''FCVTZS'', 4), (''FCVTZU'', 4), (''SCVTF'', 4),
     (''UCVTF'', 4), (''FMINP'', 3), (''FMAXP'', 3), (''FMINNMP'', 3), (''FMAXNMP'', 3), (''FMINV'', 6), (''FMAXV'', 6),
     (''FMINNMV'', 6), (''FMAXNMV'', 6), (''FMULX'', 4), (''FMLA'', 7), (''FMLS'', 7), (''FNEG'', 3), (''FRINTA'', 4),
     (''FRINTI'', 4), (''FRINTM'', 4), (''FRINTN'', 4), (''FRINTP'', 4), (''FRINTX'', 4), (''FRINTZ'', 4), (''RBIT'', 3),
     (''BIF'', 3), (''BIT'', 3), (''BSL'', 3), (''CLS'', 3), (''CLZ'', 3), (''CNT'', 3), (''DUP'', 8), (''EXT'', 3),
     (''XTN'', 3), (''SQXTN'', 4), (''SQXTN2'', 4), (''SQXTUN'', 4), (''SQXTUN2'', 4), (''UQXTN'', 4), (''UQXTN2'', 4),
     (''INS'', 3), (''MOVI'', 3), (''FRECPE'', 4), (''FRECPX'', 4), (''FRSQRTE'', 4), (''URECPE'', 4), (''URSQRTE'', 4),
     (''FRECPS'', 7), (''FRSQRTS'', 7), (''REV16'', 3), (''REV32'', 3), (''REV64'', 3), (''TBL'', 15), (''TBX'', 15),
     (''UMOV'', 6), (''SMOV'', 6), (''TRN1'', 3), (''TRN2'', 3), (''UZP1'', 3), (''UZP2'', 3), (''ZIP1'', 3), (''ZIP2'', 3),
     (''AESD'', 3), (''AESE'', 3), (''AESIMC'', 3), (''AESMC'', 3), (''PMULL'', 3), (''PMULL2'', 3), (''CRC32B'', 2),
     (''CRC32CB'', 2), (''CRC32CH'', 2), (''CRC32CW'', 2), (''CRC32CX'', 2), (''CRC32H'', 2), (''CRC32W'', 2), (''CRC32X'', 2)]"


definition a53_getIssueSlot :: "micro_op \<Rightarrow> a53_slot" where
  "a53_getIssueSlot u =
     (let op = instructionOpcode u in
      if op = ''FCVT'' then UOP_ISSUE_SLOT_01
      else if op = ''LDP'' then UOP_ISSUE_SLOT_00
      else if op = ''ADD'' \<and> operand_size u > 64 then UOP_ISSUE_SLOT_01
      else UOP_ISSUE_SLOT_11)"

definition a53_getPort :: "decoder \<Rightarrow> micro_op \<Rightarrow> a53_port" where
  "a53_getPort dec u =
     (let op = instructionOpcode u in
      case uop_subtype u of
        UOP_SUBTYPE_FP_ADDSUB \<Rightarrow> A53_PORT34
      | UOP_SUBTYPE_FP_MULDIV \<Rightarrow> A53_PORT34
      | UOP_SUBTYPE_LOAD \<Rightarrow> if is_writeback dec u then A53_PORT5_12 else A53_PORT5
      | UOP_SUBTYPE_STORE \<Rightarrow> if is_writeback dec u then A53_PORT5_12 else A53_PORT5
      | UOP_SUBTYPE_GENERIC \<Rightarrow>
          (if op \<in> {''ADD'', ''SUB''} \<and> operand_size u > 64 then A53_PORT34
           else if op \<in> {''BL'', ''BLR''} then A53_PORT0_12
           else if op \<in> {''SDIV'', ''UDIV''} then A53_PORT2
           else if op \<in> {''MADD'', ''MSUB'', ''SMADDL'', ''SMSUBL'', ''UMADDL'', ''UMSUBL'', ''SMULH'', ''UMULH'', ''MUL''} then A53_PORT1
           else A53_PORT12)
      | UOP_SUBTYPE_BRANCH \<Rightarrow> if op \<in> {''BL'', ''BLR''} then A53_PORT0_12 else A53_PORT0)"

text \<open>The ports that \<^verbatim>\<open>PortTypeString\<close> knows; for another it reports an unknown port type.\<close>

definition a53_PortTypeString :: "a53_port \<Rightarrow> string result" where
  "a53_PortTypeString p =
     (case p of A53_PORT0 \<Rightarrow> Inr ''port0'' | A53_PORT0_12 \<Rightarrow> Inr ''port0_12'' | A53_PORT12 \<Rightarrow> Inr ''port12'' | A53_PORT5 \<Rightarrow> Inr ''port5''
      | A53_PORT34 \<Rightarrow> Inr ''port34'' | A53_PORT3 \<Rightarrow> Inr ''port3'' | A53_PORT4 \<Rightarrow> Inr ''port4'' | A53_PORT5_12 \<Rightarrow> Inr ''port5_12''
      | _ \<Rightarrow> Inl (LOG_PRINT_ERROR ''Unknown port type''))"

definition capstone_bug :: "string \<Rightarrow> bool" where
  "capstone_bug op \<longleftrightarrow> op = ''65535'' \<or> op = ''65534''"

definition a53_getInstructionLatency :: "micro_op \<Rightarrow> UInt32" where
  "a53_getInstructionLatency u =
     (let op = instructionOpcode u in
      if capstone_bug op then 1
      else if op \<in> {''ADD'', ''SUB''} \<and> operand_size u > 64 then 2
      else latency_of (a53_instructionLatencies_1 @ a53_instructionLatencies_2) op)"

definition a53_getAluLatency :: "micro_op \<Rightarrow> UInt32" where
  "a53_getAluLatency u =
     (let op = instructionOpcode u; size = operand_size u in
      if op \<in> {''SDIV'', ''UDIV''} then 3
      else if op \<in> {''LDR'', ''LDP''} then if size > 64 then 2 else 0
      else if op = ''FMLA'' then if size > 32 then 5 else 0
      else if op = ''FDIV'' then if size > 32 then 29 else 15
      else if op = ''FSQRT'' then if size > 32 then 28 else 14
      else if op \<in> {''MUL'', ''FADD'', ''TRN1'', ''TRN2'', ''UZP1'', ''UZP2''} then if size > 64 then 4 else if size > 32 then 2 else 0
      else if op = ''EXT'' then if size > 64 then 2 else 0
      else if op \<in> {''UADDL'', ''UADDL2'', ''SADDL'', ''SADDL2'', ''UMULL'', ''UMULL2'', ''SMULL'', ''SMULL2'', ''MLA'', ''TBL''} then 2
      else 0)"

definition a72_getPort :: "decoder \<Rightarrow> micro_op \<Rightarrow> a72_port" where
  "a72_getPort dec u =
     (let op = instructionOpcode u in
      case uop_subtype u of
        UOP_SUBTYPE_FP_ADDSUB \<Rightarrow> A72_PORT4
      | UOP_SUBTYPE_FP_MULDIV \<Rightarrow> A72_PORT5
      | UOP_SUBTYPE_LOAD \<Rightarrow> if is_writeback dec u then A72_PORT6_12 else A72_PORT6
      | UOP_SUBTYPE_STORE \<Rightarrow> if is_writeback dec u then A72_PORT7_12 else A72_PORT7
      | UOP_SUBTYPE_GENERIC \<Rightarrow>
          (if op \<in> {''ADD'', ''AND'', ''BIC'', ''EON'', ''EOR'', ''ORN'', ''ORR'', ''SUB''} then if has_modifiers dec u then A72_PORT3 else A72_PORT12
           else if op \<in> {''BL'', ''BLR''} then A72_PORT0_12
           else if op \<in> {''SDIV'', ''UDIV'', ''MADD'', ''MUL'', ''MSUB'', ''SMADDL'', ''SMSUBL'', ''UMADDL'', ''UMSUBL'', ''SMULH'',
                    ''UMULH'', ''BFM'', ''CRC32B'', ''CRC32CB'', ''CRC32CH'', ''CRC32CW'', ''CRC32CX'', ''CRC32H'', ''CRC32W'', ''CRC32X''} then A72_PORT3
           else A72_PORT12)
      | UOP_SUBTYPE_BRANCH \<Rightarrow> if op \<in> {''BL'', ''BLR''} then A72_PORT0_12 else A72_PORT0)"

definition a72_getAlu :: "micro_op \<Rightarrow> a72_alu" where
  "a72_getAlu u =
     (if uop_type u = UOP_EXECUTE \<and>
         instructionOpcode u \<in> {''SDIV'', ''UDIV'', ''MADD'', ''MSUB'', ''SMADDL'', ''SMSUBL'', ''UMADDL'', ''UMSUBL'', ''SMULH'', ''UMULH'',
            ''BFM'', ''CRC32B'', ''CRC32CB'', ''CRC32CH'', ''CRC32CW'', ''CRC32CX'', ''CRC32H'', ''CRC32W'', ''CRC32X''}
      then A72_ALU_MULDIV else A72_ALU_NONE)"

definition a72_getInstructionLatency :: "micro_op \<Rightarrow> UInt32" where
  "a72_getInstructionLatency u =
     (if capstone_bug (instructionOpcode u) then 1
      else latency_of (a72_instructionLatencies_1 @ a72_instructionLatencies_2 @ a72_instructionLatencies_3) (instructionOpcode u))"

definition a72_getAluLatency :: "micro_op \<Rightarrow> UInt32" where
  "a72_getAluLatency u =
     (if instructionOpcode u \<in> {''SDIV'', ''UDIV''} then 4
      else if instructionOpcode u \<in> {''MADD'', ''MSUB''} then if operand_size u > 32 then 5 else 3
      else a72_getInstructionLatency u)"

section \<open>BOOM and the RISC-V instructions\<close>

datatype boom_port = BOOM_PORT0 | BOOM_PORT1 | BOOM_PORT2 | BOOM_PORT012

datatype boom_alu = BOOM_ALU_NONE | BOOM_ALU_TRIG

text \<open>\<open>rv_op\<close> lists the enumeration in its order: a constant's value is its position.\<close>

record riscvinstr =
  opcode :: string
  has_alu :: bool
  has_mul :: bool
  has_div :: bool
  has_fpu :: bool
  has_fdiv :: bool
  has_ifpu :: bool
  is_memory :: bool

definition ri :: "string \<Rightarrow> nat \<Rightarrow> nat \<Rightarrow> nat \<Rightarrow> nat \<Rightarrow> nat \<Rightarrow> nat \<Rightarrow> nat \<Rightarrow> riscvinstr" where
  "ri n a m d f fd i mem =
     \<lparr>opcode = n, has_alu = (a = 1), has_mul = (m = 1), has_div = (d = 1), has_fpu = (f = 1), has_fdiv = (fd = 1), has_ifpu = (i = 1),
      is_memory = (mem = 1)\<rparr>"

definition rv_op_1 :: "string list" where
  "rv_op_1 = [''illegal'', ''lui'', ''auipc'', ''jal'', ''jalr'', ''beq'', ''bne'', ''blt'', ''bge'', ''bltu'', ''bgeu'', ''lb'', ''lh'',
     ''lw'', ''lbu'', ''lhu'', ''sb'', ''sh'', ''sw'', ''addi'', ''slti'', ''sltiu'', ''xori'', ''ori'', ''andi'', ''slli'',
     ''srli'', ''srai'', ''add'', ''sub'', ''sll'', ''slt'', ''sltu'', ''xor'', ''srl'', ''sra'', ''or'', ''and'', ''fence'',
     ''fence_i'', ''lwu'', ''ld'', ''sd'', ''addiw'', ''slliw'', ''srliw'', ''sraiw'', ''addw'', ''subw'', ''sllw'', ''srlw'',
     ''sraw'', ''ldu'', ''lq'', ''sq'', ''addid'', ''sllid'', ''srlid'', ''sraid'', ''addd'', ''subd'', ''slld'', ''srld'',
     ''srad'', ''mul'', ''mulh'', ''mulhsu'', ''mulhu'', ''div'', ''divu'', ''rem'', ''remu'', ''mulw'', ''divw'', ''divuw'',
     ''remw'', ''remuw'', ''muld'', ''divd'', ''divud'', ''remd'', ''remud'', ''lr_w'', ''sc_w'', ''amoswap_w'', ''amoadd_w'',
     ''amoxor_w'', ''amoor_w'', ''amoand_w'', ''amomin_w'', ''amomax_w'', ''amominu_w'', ''amomaxu_w'', ''lr_d'', ''sc_d'',
     ''amoswap_d'', ''amoadd_d'', ''amoxor_d'', ''amoor_d'', ''amoand_d'', ''amomin_d'', ''amomax_d'', ''amominu_d'',
     ''amomaxu_d'', ''lr_q'', ''sc_q'', ''amoswap_q'', ''amoadd_q'', ''amoxor_q'', ''amoor_q'', ''amoand_q'', ''amomin_q'',
     ''amomax_q'', ''amominu_q'', ''amomaxu_q'', ''ecall'', ''ebreak'', ''uret'', ''sret'', ''hret'', ''mret'', ''dret'',
     ''sfence_vm'', ''wfi'', ''csrrw'', ''csrrs'', ''csrrc'', ''csrrwi'', ''csrrsi'', ''csrrci'', ''flw'', ''fsw'', ''fmadd_s'',
     ''fmsub_s'', ''fnmsub_s'', ''fnmadd_s'', ''fadd_s'', ''fsub_s'', ''fmul_s'', ''fdiv_s'', ''fsgnj_s'', ''fsgnjn_s'',
     ''fsgnjx_s'', ''fmin_s'']"

definition rv_op_2 :: "string list" where
  "rv_op_2 = [''fmax_s'', ''fsqrt_s'', ''fle_s'', ''flt_s'', ''feq_s'', ''fcvt_w_s'', ''fcvt_wu_s'', ''fcvt_s_w'', ''fcvt_s_wu'',
     ''fmv_x_s'', ''fclass_s'', ''fmv_s_x'', ''fcvt_l_s'', ''fcvt_lu_s'', ''fcvt_s_l'', ''fcvt_s_lu'', ''fld'', ''fsd'',
     ''fmadd_d'', ''fmsub_d'', ''fnmsub_d'', ''fnmadd_d'', ''fadd_d'', ''fsub_d'', ''fmul_d'', ''fdiv_d'', ''fsgnj_d'',
     ''fsgnjn_d'', ''fsgnjx_d'', ''fmin_d'', ''fmax_d'', ''fcvt_s_d'', ''fcvt_d_s'', ''fsqrt_d'', ''fle_d'', ''flt_d'',
     ''feq_d'', ''fcvt_w_d'', ''fcvt_wu_d'', ''fcvt_d_w'', ''fcvt_d_wu'', ''fclass_d'', ''fcvt_l_d'', ''fcvt_lu_d'', ''fmv_x_d'',
     ''fcvt_d_l'', ''fcvt_d_lu'', ''fmv_d_x'', ''flq'', ''fsq'', ''fmadd_q'', ''fmsub_q'', ''fnmsub_q'', ''fnmadd_q'',
     ''fadd_q'', ''fsub_q'', ''fmul_q'', ''fdiv_q'', ''fsgnj_q'', ''fsgnjn_q'', ''fsgnjx_q'', ''fmin_q'', ''fmax_q'',
     ''fcvt_s_q'', ''fcvt_q_s'', ''fcvt_d_q'', ''fcvt_q_d'', ''fsqrt_q'', ''fle_q'', ''flt_q'', ''feq_q'', ''fcvt_w_q'',
     ''fcvt_wu_q'', ''fcvt_q_w'', ''fcvt_q_wu'', ''fclass_q'', ''fcvt_l_q'', ''fcvt_lu_q'', ''fcvt_q_l'', ''fcvt_q_lu'',
     ''fmv_x_q'', ''fmv_q_x'', ''c_addi4spn'', ''c_fld'', ''c_lw'', ''c_flw'', ''c_fsd'', ''c_sw'', ''c_fsw'', ''c_nop'',
     ''c_addi'', ''c_jal'', ''c_li'', ''c_addi16sp'', ''c_lui'', ''c_srli'', ''c_srai'', ''c_andi'', ''c_sub'', ''c_xor'',
     ''c_or'', ''c_and'', ''c_subw'', ''c_addw'', ''c_j'', ''c_beqz'', ''c_bnez'', ''c_slli'', ''c_fldsp'', ''c_lwsp'',
     ''c_flwsp'', ''c_jr'', ''c_mv'', ''c_ebreak'', ''c_jalr'', ''c_add'', ''c_fsdsp'', ''c_swsp'', ''c_fswsp'', ''c_ld'',
     ''c_sd'', ''c_addiw'', ''c_ldsp'', ''c_sdsp'', ''c_lq'', ''c_sq'', ''c_lqsp'', ''c_sqsp'', ''nop'', ''mv'', ''not'',
     ''neg'', ''negw'', ''sext_w'', ''seqz'', ''snez'', ''sltz'', ''sgtz'', ''fmv_s'', ''fabs_s'', ''fneg_s'', ''fmv_d'',
     ''fabs_d'', ''fneg_d'']"

definition rv_op_3 :: "string list" where
  "rv_op_3 = [''fmv_q'', ''fabs_q'', ''fneg_q'', ''beqz'', ''bnez'', ''blez'', ''bgez'', ''bltz'', ''bgtz'', ''ble'', ''bleu'', ''bgt'',
     ''bgtu'', ''j'', ''ret'', ''jr'', ''rdcycle'', ''rdtime'', ''rdinstret'', ''rdcycleh'', ''rdtimeh'', ''rdinstreth'',
     ''frcsr'', ''frrm'', ''frflags'', ''fscsr'', ''fsrm'', ''fsflags'', ''fsrmi'', ''fsflagsi'', ''last'']"

definition instrlist_1 :: "riscvinstr list" where
  "instrlist_1 = [ri ''illegal'' 0 0 0 0 0 0 0, ri ''lui'' 1 0 0 0 0 0 0, ri ''auipc'' 1 0 0 0 0 0 0, ri ''jal'' 1 0 0 0 0 0 0,
     ri ''jalr'' 1 0 0 0 0 0 0, ri ''beq'' 1 0 0 0 0 0 0, ri ''bne'' 1 0 0 0 0 0 0, ri ''blt'' 1 0 0 0 0 0 0,
     ri ''bge'' 1 0 0 0 0 0 0, ri ''bltu'' 1 0 0 0 0 0 0, ri ''bgeu'' 1 0 0 0 0 0 0, ri ''lb'' 1 0 0 0 0 0 1,
     ri ''lh'' 1 0 0 0 0 0 1, ri ''lw'' 1 0 0 0 0 0 1, ri ''lbu'' 1 0 0 0 0 0 1, ri ''lhu'' 1 0 0 0 0 0 1,
     ri ''sb'' 1 0 0 0 0 0 1, ri ''sh'' 1 0 0 0 0 0 1, ri ''sw'' 1 0 0 0 0 0 1, ri ''addi'' 1 0 0 0 0 0 0,
     ri ''slti'' 1 0 0 0 0 0 0, ri ''sltiu'' 1 0 0 0 0 0 0, ri ''xori'' 1 0 0 0 0 0 0, ri ''ori'' 1 0 0 0 0 0 0,
     ri ''andi'' 1 0 0 0 0 0 0, ri ''slli'' 1 0 0 0 0 0 0, ri ''srli'' 1 0 0 0 0 0 0, ri ''srai'' 1 0 0 0 0 0 0,
     ri ''add'' 1 0 0 0 0 0 0, ri ''sub'' 1 0 0 0 0 0 0, ri ''sll'' 1 0 0 0 0 0 0, ri ''slt'' 1 0 0 0 0 0 0,
     ri ''sltu'' 1 0 0 0 0 0 0, ri ''xor'' 1 0 0 0 0 0 0, ri ''srl'' 1 0 0 0 0 0 0, ri ''sra'' 1 0 0 0 0 0 0,
     ri ''or'' 1 0 0 0 0 0 0, ri ''and'' 1 0 0 0 0 0 0, ri ''fence'' 1 0 0 0 0 0 0, ri ''fence_i'' 1 0 0 0 0 0 0,
     ri ''lwu'' 1 0 0 0 0 0 1, ri ''ld'' 1 0 0 0 0 0 1, ri ''sd'' 1 0 0 0 0 0 1, ri ''addiw'' 1 0 0 0 0 0 0,
     ri ''slliw'' 1 0 0 0 0 0 0, ri ''srliw'' 1 0 0 0 0 0 0, ri ''sraiw'' 1 0 0 0 0 0 0, ri ''addw'' 1 0 0 0 0 0 0,
     ri ''subw'' 1 0 0 0 0 0 0, ri ''sllw'' 1 0 0 0 0 0 0, ri ''srlw'' 1 0 0 0 0 0 0, ri ''sraw'' 1 0 0 0 0 0 0,
     ri ''ldu'' 1 0 0 0 0 0 0, ri ''lq'' 1 0 0 0 0 0 0, ri ''sq'' 1 0 0 0 0 0 0, ri ''addid'' 1 0 0 0 0 0 0,
     ri ''sllid'' 1 0 0 0 0 0 0, ri ''srlid'' 1 0 0 0 0 0 0, ri ''sraid'' 1 0 0 0 0 0 0, ri ''addd'' 1 0 0 0 0 0 0,
     ri ''subd'' 1 0 0 0 0 0 0, ri ''slld'' 1 0 0 0 0 0 0, ri ''srld'' 1 0 0 0 0 0 0, ri ''srad'' 1 0 0 0 0 0 0,
     ri ''mul'' 1 1 0 0 0 0 0, ri ''mulh'' 1 1 0 0 0 0 0, ri ''mulhsu'' 1 1 0 0 0 0 0, ri ''mulhu'' 1 1 0 0 0 0 0,
     ri ''div'' 1 0 1 0 0 0 0, ri ''divu'' 1 0 1 0 0 0 0, ri ''rem'' 1 0 1 0 0 0 0, ri ''remu'' 1 0 1 0 0 0 0,
     ri ''mulw'' 1 1 0 0 0 0 0, ri ''divw'' 1 0 1 0 0 0 0, ri ''divuw'' 1 0 1 0 0 0 0, ri ''remw'' 1 0 1 0 0 0 0,
     ri ''remuw'' 1 0 1 0 0 0 0, ri ''muld'' 1 1 0 0 0 0 0, ri ''divd'' 1 0 1 0 0 0 0, ri ''divud'' 1 0 1 0 0 0 0,
     ri ''remd'' 1 0 1 0 0 0 0, ri ''remud'' 1 0 1 0 0 0 0, ri ''lr_w'' 1 0 0 0 0 0 1, ri ''sc_w'' 1 0 0 0 0 0 1,
     ri ''amoswap_w'' 1 0 0 0 0 0 1, ri ''amoadd_w'' 1 0 0 0 0 0 0, ri ''amoxor_w'' 1 0 0 0 0 0 0,
     ri ''amoor_w'' 1 0 0 0 0 0 0, ri ''amoand_w'' 1 0 0 0 0 0 0, ri ''amomin_w'' 1 0 0 0 0 0 0,
     ri ''amomax_w'' 1 0 0 0 0 0 0, ri ''amominu_w'' 1 0 0 0 0 0 0, ri ''amomaxu_w'' 1 0 0 0 0 0 0,
     ri ''lr_d'' 1 0 0 0 0 0 1, ri ''sc_d'' 1 0 0 0 0 0 1, ri ''amoswap_d'' 1 0 0 0 0 0 1, ri ''amoadd_d'' 1 0 0 0 0 0 0,
     ri ''amoxor_d'' 1 0 0 0 0 0 0, ri ''amoor_d'' 1 0 0 0 0 0 0, ri ''amoand_d'' 1 0 0 0 0 0 0,
     ri ''amomin_d'' 1 0 0 0 0 0 0, ri ''amomax_d'' 1 0 0 0 0 0 0, ri ''amominu_d'' 1 0 0 0 0 0 0,
     ri ''amomaxu_d'' 1 0 0 0 0 0 0, ri ''lr_q'' 1 0 0 0 0 0 1, ri ''sc_q'' 1 0 0 0 0 0 1, ri ''amoswap_q'' 1 0 0 0 0 0 1,
     ri ''amoadd_q'' 1 0 0 0 0 0 0, ri ''amoxor_q'' 1 0 0 0 0 0 0, ri ''amoor_q'' 1 0 0 0 0 0 0,
     ri ''amoand_q'' 1 0 0 0 0 0 0, ri ''amomin_q'' 1 0 0 0 0 0 0, ri ''amomax_q'' 1 0 0 0 0 0 0,
     ri ''amominu_q'' 1 0 0 0 0 0 0, ri ''amomaxu_q'' 1 0 0 0 0 0 0, ri ''ecall'' 1 0 0 0 0 0 0, ri ''ebreak'' 1 0 0 0 0 0 0,
     ri ''uret'' 1 0 0 0 0 0 0, ri ''sret'' 1 0 0 0 0 0 0, ri ''hret'' 1 0 0 0 0 0 0]"

definition instrlist_2 :: "riscvinstr list" where
  "instrlist_2 = [ri ''mret'' 1 0 0 0 0 0 0, ri ''dret'' 1 0 0 0 0 0 0, ri ''sfence_vm'' 1 0 0 0 0 0 0, ri ''wfi'' 1 0 0 0 0 0 0,
     ri ''csrrw'' 1 0 0 0 0 0 0, ri ''csrrs'' 1 0 0 0 0 0 0, ri ''csrrc'' 1 0 0 0 0 0 0, ri ''csrrwi'' 1 0 0 0 0 0 0,
     ri ''csrrsi'' 1 0 0 0 0 0 0, ri ''csrrci'' 1 0 0 0 0 0 0, ri ''flw'' 1 0 0 1 0 0 1, ri ''fsw'' 1 0 0 1 0 0 1,
     ri ''fmadd_s'' 1 0 0 1 0 0 0, ri ''fmsub_s'' 1 0 0 1 0 0 0, ri ''fnmsub_s'' 1 0 0 1 0 0 0,
     ri ''fnmadd_s'' 1 0 0 1 0 0 0, ri ''fadd_s'' 1 0 0 1 0 0 0, ri ''fsub_s'' 1 0 0 1 0 0 0, ri ''fmul_s'' 1 0 0 1 1 0 0,
     ri ''fdiv_s'' 1 0 0 1 1 0 0, ri ''fsgnj_s'' 1 0 0 1 0 0 0, ri ''fsgnjn_s'' 1 0 0 1 0 0 0, ri ''fsgnjx_s'' 1 0 0 1 0 0 0,
     ri ''fmin_s'' 1 0 0 1 0 0 0, ri ''fmax_s'' 1 0 0 1 0 0 0, ri ''fsqrt_s'' 1 0 0 1 0 0 0, ri ''fle_s'' 1 0 0 1 0 0 0,
     ri ''flt_s'' 1 0 0 1 0 0 0, ri ''feq_s'' 1 0 0 1 0 0 0, ri ''fcvt_w_s'' 1 0 0 1 0 1 0, ri ''fcvt_wu_s'' 1 0 0 1 0 1 0,
     ri ''fcvt_s_w'' 1 0 0 1 0 1 0, ri ''fcvt_s_wu'' 1 0 0 1 0 1 0, ri ''fmv_x_s'' 1 0 0 1 0 0 0,
     ri ''fclass_s'' 1 0 0 1 0 0 0, ri ''fmv_s_x'' 1 0 0 1 0 0 0, ri ''fcvt_l_s'' 1 0 0 1 0 1 0,
     ri ''fcvt_lu_s'' 1 0 0 1 0 1 0, ri ''fcvt_s_l'' 1 0 0 1 0 1 0, ri ''fcvt_s_lu'' 1 0 0 1 0 1 0, ri ''fld'' 1 0 0 1 0 0 1,
     ri ''fsd'' 1 0 0 1 0 0 1, ri ''fmadd_d'' 1 0 0 1 0 0 0, ri ''fmsub_d'' 1 0 0 1 0 0 0, ri ''fnmsub_d'' 1 0 0 1 0 0 0,
     ri ''fnmadd_d'' 1 0 0 1 0 0 0, ri ''fadd_d'' 1 0 0 1 0 0 0, ri ''fsub_d'' 1 0 0 1 0 0 0, ri ''fmul_d'' 1 0 0 1 1 0 0,
     ri ''fdiv_d'' 1 0 0 1 1 0 0, ri ''fsgnj_d'' 1 0 0 1 0 0 0, ri ''fsgnjn_d'' 1 0 0 1 0 0 0, ri ''fsgnjx_d'' 1 0 0 1 0 0 0,
     ri ''fmin_d'' 1 0 0 1 0 0 0, ri ''fmax_d'' 1 0 0 1 0 0 0, ri ''fcvt_s_d'' 1 0 0 1 0 1 0, ri ''fcvt_d_s'' 1 0 0 1 0 1 0,
     ri ''fsqrt_d'' 1 0 0 1 0 0 0, ri ''fle_d'' 1 0 0 1 0 0 0, ri ''flt_d'' 1 0 0 1 0 0 0, ri ''feq_d'' 1 0 0 1 0 0 0,
     ri ''fcvt_w_d'' 1 0 0 1 0 1 0, ri ''fcvt_wu_d'' 1 0 0 1 0 1 0, ri ''fcvt_d_w'' 1 0 0 1 0 1 0,
     ri ''fcvt_d_wu'' 1 0 0 1 0 1 0, ri ''fclass_d'' 1 0 0 1 0 0 0, ri ''fcvt_l_d'' 1 0 0 1 0 1 0,
     ri ''fcvt_lu_d'' 1 0 0 1 0 1 0, ri ''fmv_x_d'' 1 0 0 1 0 0 0, ri ''fcvt_d_l'' 1 0 0 1 0 1 0,
     ri ''fcvt_d_lu'' 1 0 0 1 0 1 0, ri ''fmv_d_x'' 1 0 0 1 0 0 0, ri ''flq'' 1 0 0 1 0 0 1, ri ''fsq'' 1 0 0 1 0 0 1,
     ri ''fmadd_q'' 1 0 0 1 0 0 0, ri ''fmsub_q'' 1 0 0 1 0 0 0, ri ''fnmsub_q'' 1 0 0 1 0 0 0,
     ri ''fnmadd_q'' 1 0 0 1 0 0 0, ri ''fadd_q'' 1 0 0 1 0 0 0, ri ''fsub_q'' 1 0 0 1 0 0 0, ri ''fmul_q'' 1 0 0 1 1 0 0,
     ri ''fdiv_q'' 1 0 0 1 1 0 0, ri ''fsgnj_q'' 1 0 0 1 0 0 0, ri ''fsgnjn_q'' 1 0 0 1 0 0 0, ri ''fsgnjx_q'' 1 0 0 1 0 0 0,
     ri ''fmin_q'' 1 0 0 1 0 0 0, ri ''fmax_q'' 1 0 0 1 0 0 0, ri ''fcvt_s_q'' 1 0 0 1 0 0 0, ri ''fcvt_q_s'' 1 0 0 1 0 0 0,
     ri ''fcvt_d_q'' 1 0 0 1 0 0 0, ri ''fcvt_q_d'' 1 0 0 1 0 0 0, ri ''fsqrt_q'' 1 0 0 1 0 0 0, ri ''fle_q'' 1 0 0 1 0 0 0,
     ri ''flt_q'' 1 0 0 1 0 0 0, ri ''feq_q'' 1 0 0 1 0 0 0, ri ''fcvt_w_q'' 1 0 0 1 0 0 0, ri ''fcvt_wu_q'' 1 0 0 1 0 0 0,
     ri ''fcvt_q_w'' 1 0 0 1 0 0 0, ri ''fcvt_q_wu'' 1 0 0 1 0 0 0, ri ''fclass_q'' 1 0 0 1 0 0 0,
     ri ''fcvt_l_q'' 1 0 0 1 0 0 0, ri ''fcvt_lu_q'' 1 0 0 1 0 0 0, ri ''fcvt_q_l'' 1 0 0 1 0 0 0,
     ri ''fcvt_q_lu'' 1 0 0 1 0 0 0, ri ''fmv_x_q'' 1 0 0 1 0 0 0, ri ''fmv_q_x'' 1 0 0 1 0 0 0,
     ri ''c_addi4spn'' 1 0 0 0 0 0 0, ri ''c_fld'' 1 0 0 0 0 0 1, ri ''c_lw'' 1 0 0 0 0 0 1, ri ''c_flw'' 1 0 0 0 0 0 1,
     ri ''c_fsd'' 1 0 0 0 0 0 1, ri ''c_sw'' 1 0 0 0 0 0 1, ri ''c_fsw'' 1 0 0 0 0 0 1, ri ''c_nop'' 1 0 0 0 0 0 0,
     ri ''c_addi'' 1 0 0 0 0 0 0, ri ''c_jal'' 1 0 0 0 0 0 0, ri ''c_li'' 1 0 0 0 0 0 0, ri ''c_addi16sp'' 1 0 0 0 0 0 0,
     ri ''c_lui'' 1 0 0 0 0 0 0, ri ''c_srli'' 1 0 0 0 0 0 0]"

definition instrlist_3 :: "riscvinstr list" where
  "instrlist_3 = [ri ''c_srai'' 1 0 0 0 0 0 0, ri ''c_andi'' 1 0 0 0 0 0 0, ri ''c_sub'' 1 0 0 0 0 0 0, ri ''c_xor'' 1 0 0 0 0 0 0,
     ri ''c_or'' 1 0 0 0 0 0 0, ri ''c_and'' 1 0 0 0 0 0 0, ri ''c_subw'' 1 0 0 0 0 0 0, ri ''c_addw'' 1 0 0 0 0 0 0,
     ri ''c_j'' 1 0 0 0 0 0 0, ri ''c_beqz'' 1 0 0 0 0 0 0, ri ''c_bnez'' 1 0 0 0 0 0 0, ri ''c_slli'' 1 0 0 0 0 0 0,
     ri ''c_fldsp'' 1 0 0 0 0 0 0, ri ''c_lwsp'' 1 0 0 0 0 0 0, ri ''c_flwsp'' 1 0 0 0 0 0 0, ri ''c_jr'' 1 0 0 0 0 0 0,
     ri ''c_mv'' 1 0 0 0 0 0 0, ri ''c_ebreak'' 1 0 0 0 0 0 0, ri ''c_jalr'' 1 0 0 0 0 0 0, ri ''c_add'' 1 0 0 0 0 0 0,
     ri ''c_fsdsp'' 1 0 0 0 0 0 0, ri ''c_swsp'' 1 0 0 0 0 0 0, ri ''c_fswsp'' 1 0 0 0 0 0 0, ri ''c_ld'' 1 0 0 0 0 0 1,
     ri ''c_sd'' 1 0 0 0 0 0 1, ri ''c_addiw'' 1 0 0 0 0 0 0, ri ''c_ldsp'' 1 0 0 0 0 0 1, ri ''c_sdsp'' 1 0 0 0 0 0 1,
     ri ''c_lq'' 1 0 0 0 0 0 1, ri ''c_sq'' 1 0 0 0 0 0 1, ri ''c_lqsp'' 1 0 0 0 0 0 0, ri ''c_sqsp'' 1 0 0 0 0 0 0,
     ri ''nop'' 1 0 0 0 0 0 0, ri ''mv'' 1 0 0 0 0 0 0, ri ''not'' 1 0 0 0 0 0 0, ri ''neg'' 1 0 0 0 0 0 0,
     ri ''negw'' 1 0 0 0 0 0 0, ri ''sext_w'' 1 0 0 0 0 0 0, ri ''seqz'' 1 0 0 0 0 0 0, ri ''snez'' 1 0 0 0 0 0 0,
     ri ''sltz'' 1 0 0 0 0 0 0, ri ''sgtz'' 1 0 0 0 0 0 0, ri ''fmv_s'' 1 0 0 0 0 0 0, ri ''fabs_s'' 1 0 0 0 0 0 0,
     ri ''fneg_s'' 1 0 0 0 0 0 0, ri ''fmv_d'' 1 0 0 0 0 0 0, ri ''fabs_d'' 1 0 0 0 0 0 0, ri ''fneg_d'' 1 0 0 0 0 0 0,
     ri ''fmv_q'' 1 0 0 0 0 0 0, ri ''fabs_q'' 1 0 0 0 0 0 0, ri ''fneg_q'' 1 0 0 0 0 0 0, ri ''beqz'' 1 0 0 0 0 0 0,
     ri ''bnez'' 1 0 0 0 0 0 0, ri ''blez'' 1 0 0 0 0 0 0, ri ''bgez'' 1 0 0 0 0 0 0, ri ''bltz'' 1 0 0 0 0 0 0,
     ri ''bgtz'' 1 0 0 0 0 0 0, ri ''ble'' 1 0 0 0 0 0 0, ri ''bleu'' 1 0 0 0 0 0 0, ri ''bgt'' 1 0 0 0 0 0 0,
     ri ''bgtu'' 1 0 0 0 0 0 0, ri ''j'' 1 0 0 0 0 0 0, ri ''ret'' 1 0 0 0 0 0 0, ri ''jr'' 1 0 0 0 0 0 0,
     ri ''rdcycle'' 1 0 0 0 0 0 0, ri ''rdtime'' 1 0 0 0 0 0 0, ri ''rdinstret'' 1 0 0 0 0 0 0,
     ri ''rdcycleh'' 1 0 0 0 0 0 0, ri ''rdtimeh'' 1 0 0 0 0 0 0, ri ''rdinstreth'' 1 0 0 0 0 0 0,
     ri ''frcsr'' 1 0 0 0 0 0 0, ri ''frrm'' 1 0 0 0 0 0 0, ri ''frflags'' 1 0 0 0 0 0 0, ri ''fscsr'' 1 0 0 0 0 0 0,
     ri ''fsrm'' 1 0 0 0 0 0 0, ri ''fsflags'' 1 0 0 0 0 0 0, ri ''fsrmi'' 1 0 0 0 0 0 0, ri ''fsflagsi'' 1 0 0 0 0 0 0,
     ri ''last'' 0 0 0 0 0 0 0]"

definition rv_op :: "string list" where
  "rv_op = rv_op_1 @ rv_op_2 @ rv_op_3"

definition instrlist :: "riscvinstr list" where
  "instrlist = instrlist_1 @ instrlist_2 @ instrlist_3"

text \<open>The value of a constant, and the entry of the table at it; a name that is no constant has none.\<close>

definition rv_op_value :: "string \<Rightarrow> nat option" where
  "rv_op_value op = List.find (\<lambda>i. rv_op ! i = op) [0 ..< length rv_op]"

definition instr_of :: "string \<Rightarrow> riscvinstr result" where
  "instr_of op = (case rv_op_value op of None \<Rightarrow> Inl (UNDEFINED ''instrlist'') | Some i \<Rightarrow> Inr (instrlist ! i))"

definition boom_getPort :: "micro_op \<Rightarrow> boom_port result" where
  "boom_getPort u =
     bindE (instr_of (instructionOpcode u)) (\<lambda>i.
       Inr (if has_fpu i \<or> has_fdiv i \<or> has_mul i then BOOM_PORT0 else if has_div i then BOOM_PORT1
            else if is_memory i then BOOM_PORT2 else BOOM_PORT012))"

definition boom_getAlu :: "micro_op \<Rightarrow> boom_alu" where
  "boom_getAlu u =
     (if uop_type u = UOP_EXECUTE \<and>
         instructionOpcode u \<in> {''div'', ''divu'', ''divw'', ''divuw'', ''divd'', ''divud'', ''fdiv_s'', ''fdiv_d'', ''fdiv_q'', ''fsqrt_s'',
            ''fsqrt_d'', ''fsqrt_q''}
      then BOOM_ALU_TRIG else BOOM_ALU_NONE)"

definition boom_instructionLatency :: "riscvinstr \<Rightarrow> UInt32" where
  "boom_instructionLatency i = (if has_fpu i \<and> has_alu i then 4 else if has_alu i \<and> has_mul i then 3 else 1)"

definition boom_getInstructionLatency :: "micro_op \<Rightarrow> UInt32 result" where
  "boom_getInstructionLatency u =
     bindE (assertE (instructionOpcode u \<noteq> ''illegal'' \<and> instructionOpcode u \<noteq> ''last'') (LOG_ASSERT_ERROR ''Invalid instruction type'')) (\<lambda>_.
     bindE (instr_of (instructionOpcode u)) (\<lambda>i. Inr (boom_instructionLatency i)))"

definition boom_getAluLatency :: "micro_op \<Rightarrow> UInt32 result" where
  "boom_getAluLatency u =
     (if instructionOpcode u \<in> {''div'', ''divu'', ''divw'', ''divuw'', ''divd'', ''divud'', ''fdiv_s'', ''fdiv_d'', ''fdiv_q''}
      then Inr 32 else boom_getInstructionLatency u)"

section \<open>The core model of a configuration\<close>

datatype core_model = CoreModelNehalem | CoreModelBoomV1 | CoreModelCortexA72 | CoreModelCortexA53

text \<open>The flags of the build decide which models there are.\<close>

definition getCoreModel :: "bool \<Rightarrow> bool \<Rightarrow> string \<Rightarrow> core_model result" where
  "getCoreModel SNIPER_RISCV SNIPER_ARM ty =
     (if ty = ''nehalem'' then Inr CoreModelNehalem
      else if SNIPER_RISCV \<and> ty = ''riscv'' then Inr CoreModelBoomV1
      else if SNIPER_ARM \<and> ty = ''cortex-a72'' then Inr CoreModelCortexA72
      else if SNIPER_ARM \<and> ty = ''cortex-a53'' then Inr CoreModelCortexA53
      else Inl (LOG_PRINT_ERROR ''Unknown core model''))"

fun getInstructionLatency :: "core_model \<Rightarrow> micro_op \<Rightarrow> UInt32 result" where
  "getInstructionLatency CoreModelNehalem u = Inr (nehalem_getInstructionLatency u)"
| "getInstructionLatency CoreModelBoomV1 u = boom_getInstructionLatency u"
| "getInstructionLatency CoreModelCortexA72 u = Inr (a72_getInstructionLatency u)"
| "getInstructionLatency CoreModelCortexA53 u = Inr (a53_getInstructionLatency u)"

fun getAluLatency :: "core_model \<Rightarrow> micro_op \<Rightarrow> UInt32 result" where
  "getAluLatency CoreModelNehalem u = Inr (nehalem_getAluLatency u)"
| "getAluLatency CoreModelBoomV1 u = boom_getAluLatency u"
| "getAluLatency CoreModelCortexA72 u = Inr (a72_getAluLatency u)"
| "getAluLatency CoreModelCortexA53 u = Inr (a53_getAluLatency u)"

text \<open>Only Nehalem sets its bypass latencies; the arrays of the others stay zero.\<close>

fun getBypassLatency :: "decoder \<Rightarrow> core_model \<Rightarrow> micro_op \<Rightarrow> UInt32" where
  "getBypassLatency dec CoreModelNehalem u = nehalem_bypassLatencies (fp_getBypassType dec u)"
| "getBypassLatency dec CoreModelBoomV1 u = 0"
| "getBypassLatency dec CoreModelCortexA72 u = 0"
| "getBypassLatency dec CoreModelCortexA53 u = 0"

fun getLongestLatency :: "core_model \<Rightarrow> UInt32" where
  "getLongestLatency CoreModelNehalem = 60"
| "getLongestLatency CoreModelBoomV1 = 60"
| "getLongestLatency CoreModelCortexA72 = 36"
| "getLongestLatency CoreModelCortexA53 = 32"

section \<open>The tables\<close>

text \<open>
  The code indexes the table of the RISC-V instructions with the value of an opcode: the entry there is the one of that opcode.
\<close>

lemma instrlist_opcodes: "map opcode instrlist = rv_op"
  unfolding instrlist_def rv_op_def instrlist_1_def instrlist_2_def instrlist_3_def rv_op_1_def rv_op_2_def rv_op_3_def ri_def
  by (simp only: list.map append.simps riscvinstr.select_convs)

lemma instr_of_opcode:
  assumes "instr_of op = Inr i" shows "opcode i = op" and "i \<in> set instrlist"
proof -
  from assms obtain k where k: "rv_op_value op = Some k" and i: "i = instrlist ! k"
    by (auto simp: instr_of_def split: option.splits)
  then have "k < length rv_op" and op: "rv_op ! k = op" by (auto simp: rv_op_value_def find_Some_iff)
  then have len: "k < length instrlist" by (metis instrlist_opcodes length_map)
  then have "opcode i = map opcode instrlist ! k" by (simp add: i)
  then show "opcode i = op" using op by (simp add: instrlist_opcodes)
  show "i \<in> set instrlist" using len by (simp add: i)
qed

lemma latency_of_le: "\<forall>(op, l) \<in> set tbl. l \<le> n \<Longrightarrow> 1 \<le> n \<Longrightarrow> latency_of tbl op \<le> n"
  unfolding latency_of_def by (auto split: option.split dest!: map_of_SomeD)

text \<open>
  The longest latency that the model of Nehalem gives is below two entries of its own table. The model of the A72 assigns the
  latencies of the vector forms to the same opcodes as those of the scalar forms, and the later assignment stays.
\<close>

lemma nehalem_longest_latency_exceeded:
  "\<exists>u. nehalem_getInstructionLatency u > getLongestLatency CoreModelNehalem"
proof
  show "nehalem_getInstructionLatency (MicroOp\<lparr>instructionOpcode := ''FLDENV''\<rparr>) > getLongestLatency CoreModelNehalem"
    by code_simp
qed

lemma a72_scalar_latency_overwritten:
  "(''SCVTF'', 8) \<in> set a72_instructionLatencies_1 \<and> a72_getInstructionLatency (MicroOp\<lparr>instructionOpcode := ''SCVTF''\<rparr>) = 4"
  by code_simp

end
