(* ===== verification/Rob_Contention.thy ===== *)
theory Rob_Contention
  imports Core_Models
begin

text \<open>
  \<^verbatim>\<open>performance_models/rob_performance_model/rob_contention_*.cc\<close>: which micro-operations may issue in the same cycle.
  A state per core model, and \<open>rob_contention\<close> as the interface that the reorder buffer calls. \<open>tryIssue\<close> marks the port
  before it looks at the unit, as the code does. Times are in units of the clock's resolution, \<open>m_now\<close> is a component time.
\<close>

section \<open>Nehalem\<close>

record nehalem_contention =
  nh_now :: component_time
  nh_ports :: "nehalem_port \<Rightarrow> bool"
  nh_ports_generic :: nat
  nh_ports_generic05 :: nat
  nh_alu_used_until :: "nehalem_alu \<Rightarrow> UInt64"

definition RobContentionNehalem :: "UInt64 \<Rightarrow> nehalem_contention" where
  "RobContentionNehalem period =
     \<lparr>nh_now = ComponentTime period, nh_ports = (\<lambda>_. False), nh_ports_generic = 0, nh_ports_generic05 = 0, nh_alu_used_until = (\<lambda>_. 0)\<rparr>"

definition nehalem_initCycle :: "UInt64 \<Rightarrow> nehalem_contention \<Rightarrow> nehalem_contention" where
  "nehalem_initCycle now c =
     c\<lparr>nh_now := ct_setElapsedTime now (nh_now c), nh_ports := (\<lambda>_. False), nh_ports_generic := 0, nh_ports_generic05 := 0\<rparr>"

definition nehalem_take_port :: "nehalem_port \<Rightarrow> nehalem_contention \<Rightarrow> bool \<times> nehalem_contention" where
  "nehalem_take_port p c =
     (if p = NEHALEM_PORT015
      then if nh_ports_generic c \<ge> 3 then (False, c) else (True, c\<lparr>nh_ports_generic := nh_ports_generic c + 1\<rparr>)
      else if p = NEHALEM_PORT05
      then if nh_ports_generic05 c \<ge> 2 then (False, c) else (True, c\<lparr>nh_ports_generic05 := nh_ports_generic05 c + 1\<rparr>)
      else if p = NEHALEM_PORT2 \<or> p = NEHALEM_PORT34
      then if nh_ports c p then (False, c) else (True, c\<lparr>nh_ports := (nh_ports c)(p := True)\<rparr>)
      else if nh_ports c p then (False, c)
      else if nh_ports_generic c \<ge> 3 then (False, c)
      else if p \<noteq> NEHALEM_PORT1 \<and> nh_ports_generic05 c \<ge> 2 then (False, c)
      else (True, c\<lparr>nh_ports := (nh_ports c)(p := True), nh_ports_generic := nh_ports_generic c + 1,
                    nh_ports_generic05 := (if p \<noteq> NEHALEM_PORT1 then nh_ports_generic05 c + 1 else nh_ports_generic05 c)\<rparr>))"

definition nehalem_tryIssue :: "micro_op \<Rightarrow> nehalem_contention \<Rightarrow> bool \<times> nehalem_contention" where
  "nehalem_tryIssue u c =
     (let (ok, c1) = nehalem_take_port (nehalem_getPort u) c; alu = nehalem_getAlu u in
      if \<not> ok then (False, c1)
      else if alu \<noteq> NEHALEM_ALU_NONE \<and> nh_alu_used_until c1 alu > ct_time (nh_now c1) then (False, c1)
      else (True, c1))"

definition nehalem_doIssue :: "micro_op \<Rightarrow> nehalem_contention \<Rightarrow> nehalem_contention" where
  "nehalem_doIssue u c =
     (let alu = nehalem_getAlu u in
      if alu \<noteq> NEHALEM_ALU_NONE
      then c\<lparr>nh_alu_used_until := (nh_alu_used_until c)(alu := ct_time (addCycleLatency (ucast (nehalem_getAluLatency u)) (nh_now c)))\<rparr>
      else c)"

definition nehalem_noMore :: "nehalem_contention \<Rightarrow> bool" where
  "nehalem_noMore c \<longleftrightarrow> nh_ports c NEHALEM_PORT2 \<and> nh_ports c NEHALEM_PORT34 \<and> nh_ports_generic c \<ge> 3"

section \<open>BOOM\<close>

record boom_contention =
  bm_now :: component_time
  bm_ports :: "boom_port \<Rightarrow> bool"
  bm_ports_generic012 :: nat
  bm_alu_used_until :: "boom_alu \<Rightarrow> UInt64"

definition RobContentionBoomV1 :: "UInt64 \<Rightarrow> boom_contention" where
  "RobContentionBoomV1 period =
     \<lparr>bm_now = ComponentTime period, bm_ports = (\<lambda>_. False), bm_ports_generic012 = 0, bm_alu_used_until = (\<lambda>_. 0)\<rparr>"

definition boom_initCycle :: "UInt64 \<Rightarrow> boom_contention \<Rightarrow> boom_contention" where
  "boom_initCycle now c = c\<lparr>bm_now := ct_setElapsedTime now (bm_now c), bm_ports := (\<lambda>_. False), bm_ports_generic012 := 0\<rparr>"

definition boom_take_port :: "boom_port \<Rightarrow> boom_contention \<Rightarrow> bool \<times> boom_contention" where
  "boom_take_port p c =
     (if p = BOOM_PORT012
      then if bm_ports_generic012 c \<ge> 3 then (False, c) else (True, c\<lparr>bm_ports_generic012 := bm_ports_generic012 c + 1\<rparr>)
      else if bm_ports c p then (False, c)
      else if bm_ports_generic012 c \<ge> 3 then (False, c)
      else (True, c\<lparr>bm_ports := (bm_ports c)(p := True), bm_ports_generic012 := bm_ports_generic012 c + 1\<rparr>))"

definition boom_tryIssue :: "micro_op \<Rightarrow> boom_contention \<Rightarrow> (bool \<times> boom_contention) result" where
  "boom_tryIssue u c =
     bindE (boom_getPort u) (\<lambda>p. Inr
       (let (ok, c1) = boom_take_port p c; alu = boom_getAlu u in
        if \<not> ok then (False, c1)
        else if alu \<noteq> BOOM_ALU_NONE \<and> bm_alu_used_until c1 alu > ct_time (bm_now c1) then (False, c1)
        else (True, c1)))"

definition boom_doIssue :: "micro_op \<Rightarrow> boom_contention \<Rightarrow> boom_contention result" where
  "boom_doIssue u c =
     (let alu = boom_getAlu u in
      if alu \<noteq> BOOM_ALU_NONE
      then bindE (boom_getAluLatency u) (\<lambda>l.
             Inr (c\<lparr>bm_alu_used_until := (bm_alu_used_until c)(alu := ct_time (addCycleLatency (ucast l) (bm_now c)))\<rparr>))
      else Inr c)"

definition boom_noMore :: "boom_contention \<Rightarrow> bool" where
  "boom_noMore c \<longleftrightarrow> bm_ports c BOOM_PORT2 \<and> bm_ports_generic012 c \<ge> 3"

section \<open>Cortex A72\<close>

record a72_contention =
  a72_now :: component_time
  a72_branch :: bool
  a72_simd0 :: bool
  a72_simd1 :: bool
  a72_int_multi :: bool
  a72_ld :: bool
  a72_st :: bool
  a72_ports_integer :: nat
  a72_alu_used_until :: "a72_alu \<Rightarrow> UInt64"

definition RobContentionCortexA72 :: "UInt64 \<Rightarrow> a72_contention" where
  "RobContentionCortexA72 period =
     \<lparr>a72_now = ComponentTime period, a72_branch = False, a72_simd0 = False, a72_simd1 = False, a72_int_multi = False, a72_ld = False,
      a72_st = False, a72_ports_integer = 0, a72_alu_used_until = (\<lambda>_. 0)\<rparr>"

definition a72_initCycle :: "UInt64 \<Rightarrow> a72_contention \<Rightarrow> a72_contention" where
  "a72_initCycle now c =
     c\<lparr>a72_now := ct_setElapsedTime now (a72_now c), a72_branch := False, a72_simd0 := False, a72_simd1 := False,
       a72_int_multi := False, a72_ld := False, a72_st := False, a72_ports_integer := 0\<rparr>"

definition a72_take_port :: "a72_port \<Rightarrow> a72_contention \<Rightarrow> bool \<times> a72_contention" where
  "a72_take_port p c =
     (let int_full = (a72_ports_integer c \<ge> 2); int = (\<lambda>c. c\<lparr>a72_ports_integer := a72_ports_integer c + 1\<rparr>) in
      case p of
        A72_PORT0 \<Rightarrow> if a72_branch c then (False, c) else (True, c\<lparr>a72_branch := True\<rparr>)
      | A72_PORT0_12 \<Rightarrow> if a72_branch c \<or> int_full then (False, c) else (True, int (c\<lparr>a72_branch := True\<rparr>))
      | A72_PORT12 \<Rightarrow> if int_full then (False, c) else (True, int c)
      | A72_PORT3 \<Rightarrow> if a72_int_multi c then (False, c) else (True, c\<lparr>a72_int_multi := True\<rparr>)
      | A72_PORT12_3 \<Rightarrow> if a72_int_multi c \<or> int_full then (False, c) else (True, int (c\<lparr>a72_int_multi := True\<rparr>))
      | A72_PORT4 \<Rightarrow> if a72_simd0 c \<and> a72_simd1 c then (False, c)
                     else if a72_simd0 c then (True, c\<lparr>a72_simd1 := True\<rparr>) else (True, c\<lparr>a72_simd0 := True\<rparr>)
      | A72_PORT5 \<Rightarrow> if a72_simd1 c \<and> a72_simd0 c then (False, c)
                     else if a72_simd1 c then (True, c\<lparr>a72_simd0 := True\<rparr>) else (True, c\<lparr>a72_simd1 := True\<rparr>)
      | A72_PORT6 \<Rightarrow> if a72_ld c then (False, c) else (True, c\<lparr>a72_ld := True\<rparr>)
      | A72_PORT6_12 \<Rightarrow> if a72_ld c \<or> int_full then (False, c) else (True, int (c\<lparr>a72_ld := True\<rparr>))
      | A72_PORT7 \<Rightarrow> if a72_st c then (False, c) else (True, c\<lparr>a72_st := True\<rparr>)
      | A72_PORT7_12 \<Rightarrow> if a72_st c \<or> int_full then (False, c) else (True, int (c\<lparr>a72_st := True\<rparr>)))"

definition a72_tryIssue :: "decoder \<Rightarrow> micro_op \<Rightarrow> a72_contention \<Rightarrow> bool \<times> a72_contention" where
  "a72_tryIssue dec u c =
     (let (ok, c1) = a72_take_port (a72_getPort dec u) c; alu = a72_getAlu u in
      if \<not> ok then (False, c1)
      else if alu \<noteq> A72_ALU_NONE \<and> a72_alu_used_until c1 alu > ct_time (a72_now c1) then (False, c1)
      else (True, c1))"

definition a72_doIssue :: "micro_op \<Rightarrow> a72_contention \<Rightarrow> a72_contention" where
  "a72_doIssue u c =
     (let alu = a72_getAlu u in
      if alu \<noteq> A72_ALU_NONE
      then c\<lparr>a72_alu_used_until := (a72_alu_used_until c)(alu := ct_time (addCycleLatency (ucast (a72_getAluLatency u)) (a72_now c)))\<rparr>
      else c)"

section \<open>Cortex A53\<close>

record a53_contention =
  a53_now :: component_time
  a53_branch :: bool
  a53_simd0 :: bool
  a53_simd1 :: bool
  a53_integer0 :: bool
  a53_integer1 :: bool
  a53_ldst :: bool
  a53_slot0 :: bool
  a53_slot1 :: bool
  a53_alu_used_until :: "a53_alu \<Rightarrow> UInt64"

definition RobContentionCortexA53 :: "UInt64 \<Rightarrow> a53_contention" where
  "RobContentionCortexA53 period =
     \<lparr>a53_now = ComponentTime period, a53_branch = False, a53_simd0 = False, a53_simd1 = False, a53_integer0 = False,
      a53_integer1 = False, a53_ldst = False, a53_slot0 = False, a53_slot1 = False, a53_alu_used_until = (\<lambda>_. 0)\<rparr>"

definition a53_initCycle :: "UInt64 \<Rightarrow> a53_contention \<Rightarrow> a53_contention" where
  "a53_initCycle now c =
     c\<lparr>a53_now := ct_setElapsedTime now (a53_now c), a53_branch := False, a53_simd0 := False, a53_simd1 := False,
       a53_integer0 := False, a53_integer1 := False, a53_ldst := False, a53_slot0 := False, a53_slot1 := False\<rparr>"

definition issueIntegerPorts :: "a53_contention \<Rightarrow> a53_alu \<times> a53_contention" where
  "issueIntegerPorts c =
     (if a53_integer0 c then (A53_ALU_DIV, c\<lparr>a53_integer1 := True\<rparr>)
      else if a53_integer1 c then (A53_ALU_MUL, c\<lparr>a53_integer0 := True\<rparr>)
      else (A53_ALU_MUL, c\<lparr>a53_integer0 := True\<rparr>))"

definition issueNEONPorts :: "a53_contention \<Rightarrow> a53_alu \<times> a53_contention" where
  "issueNEONPorts c =
     (if a53_simd0 c then (A53_ALU_FPNEON1, c\<lparr>a53_simd1 := True\<rparr>)
      else if a53_simd1 c then (A53_ALU_FPNEON0, c\<lparr>a53_simd0 := True\<rparr>)
      else (A53_ALU_FPNEON0, c\<lparr>a53_simd0 := True\<rparr>))"

definition a53_take_slot :: "a53_slot \<Rightarrow> a53_contention \<Rightarrow> a53_contention option" where
  "a53_take_slot s c =
     (case s of
        UOP_ISSUE_SLOT_00 \<Rightarrow> if a53_slot0 c \<or> a53_slot1 c then None else Some (c\<lparr>a53_slot0 := True, a53_slot1 := True\<rparr>)
      | UOP_ISSUE_SLOT_01 \<Rightarrow> if a53_slot0 c then None else Some (c\<lparr>a53_slot0 := True\<rparr>)
      | UOP_ISSUE_SLOT_10 \<Rightarrow> if a53_slot1 c then None else Some (c\<lparr>a53_slot1 := True\<rparr>)
      | UOP_ISSUE_SLOT_11 \<Rightarrow> if a53_slot0 c \<and> a53_slot1 c then None
                             else if a53_slot0 c then Some (c\<lparr>a53_slot1 := True\<rparr>) else Some (c\<lparr>a53_slot0 := True\<rparr>))"

text \<open>The unit that the port gives, or \<open>None\<close> when the port is taken.\<close>

definition a53_take_port :: "a53_port \<Rightarrow> a53_contention \<Rightarrow> (a53_alu \<times> a53_contention) option" where
  "a53_take_port p c =
     (let int_full = (a53_integer0 c \<and> a53_integer1 c) in
      case p of
        A53_PORT0 \<Rightarrow> if a53_branch c then None else Some (A53_ALU_NONE, c\<lparr>a53_branch := True\<rparr>)
      | A53_PORT0_12 \<Rightarrow> if a53_branch c \<or> int_full then None else Some (issueIntegerPorts (c\<lparr>a53_branch := True\<rparr>))
      | A53_PORT12 \<Rightarrow> if int_full then None else Some (issueIntegerPorts c)
      | A53_PORT3 \<Rightarrow> if a53_simd0 c then None else Some (A53_ALU_FPNEON0, c\<lparr>a53_simd0 := True\<rparr>)
      | A53_PORT4 \<Rightarrow> if a53_simd1 c then None else Some (A53_ALU_FPNEON1, c\<lparr>a53_simd1 := True\<rparr>)
      | A53_PORT34 \<Rightarrow> if a53_simd0 c \<and> a53_simd1 c then None else Some (issueNEONPorts c)
      | A53_PORT5 \<Rightarrow> if a53_ldst c then None else Some (A53_ALU_NONE, c\<lparr>a53_ldst := True\<rparr>)
      | A53_PORT1 \<Rightarrow> if a53_integer0 c then None else Some (A53_ALU_MUL, c\<lparr>a53_integer0 := True\<rparr>)
      | A53_PORT2 \<Rightarrow> if a53_integer1 c then None else Some (A53_ALU_DIV, c\<lparr>a53_integer1 := True\<rparr>)
      | A53_PORT5_12 \<Rightarrow> if a53_ldst c \<or> int_full then None else Some (issueIntegerPorts (c\<lparr>a53_ldst := True\<rparr>)))"

definition a53_tryIssue :: "decoder \<Rightarrow> micro_op \<Rightarrow> a53_contention \<Rightarrow> bool \<times> a53_contention" where
  "a53_tryIssue dec u c =
     (case a53_take_slot (a53_getIssueSlot u) c of
        None \<Rightarrow> (False, c)
      | Some c1 \<Rightarrow>
          (case a53_take_port (a53_getPort dec u) c1 of
             None \<Rightarrow> (False, c)
           | Some (alu, c2) \<Rightarrow>
               if alu \<noteq> A53_ALU_NONE
               then if a53_alu_used_until c2 alu > ct_time (a53_now c2) then (False, c2)
                    else let l = a53_getAluLatency u in
                         if l > 0
                         then (True, c2\<lparr>a53_alu_used_until := (a53_alu_used_until c2)(alu := ct_time (addCycleLatency (ucast l) (a53_now c2)))\<rparr>)
                         else (True, c2)
               else (True, c2)))"

section \<open>The interface\<close>

datatype rob_contention =
    Contention_Nehalem nehalem_contention
  | Contention_BoomV1 boom_contention
  | Contention_CortexA72 a72_contention
  | Contention_CortexA53 a53_contention

fun createRobContentionModel :: "core_model \<Rightarrow> UInt64 \<Rightarrow> rob_contention" where
  "createRobContentionModel CoreModelNehalem p = Contention_Nehalem (RobContentionNehalem p)"
| "createRobContentionModel CoreModelBoomV1 p = Contention_BoomV1 (RobContentionBoomV1 p)"
| "createRobContentionModel CoreModelCortexA72 p = Contention_CortexA72 (RobContentionCortexA72 p)"
| "createRobContentionModel CoreModelCortexA53 p = Contention_CortexA53 (RobContentionCortexA53 p)"

fun rc_initCycle :: "UInt64 \<Rightarrow> rob_contention \<Rightarrow> rob_contention" where
  "rc_initCycle now (Contention_Nehalem c) = Contention_Nehalem (nehalem_initCycle now c)"
| "rc_initCycle now (Contention_BoomV1 c) = Contention_BoomV1 (boom_initCycle now c)"
| "rc_initCycle now (Contention_CortexA72 c) = Contention_CortexA72 (a72_initCycle now c)"
| "rc_initCycle now (Contention_CortexA53 c) = Contention_CortexA53 (a53_initCycle now c)"

fun rc_tryIssue :: "decoder \<Rightarrow> micro_op \<Rightarrow> rob_contention \<Rightarrow> (bool \<times> rob_contention) result" where
  "rc_tryIssue dec u (Contention_Nehalem c) = Inr (map_prod id Contention_Nehalem (nehalem_tryIssue u c))"
| "rc_tryIssue dec u (Contention_BoomV1 c) = bindE (boom_tryIssue u c) (\<lambda>r. Inr (map_prod id Contention_BoomV1 r))"
| "rc_tryIssue dec u (Contention_CortexA72 c) = Inr (map_prod id Contention_CortexA72 (a72_tryIssue dec u c))"
| "rc_tryIssue dec u (Contention_CortexA53 c) = Inr (map_prod id Contention_CortexA53 (a53_tryIssue dec u c))"

fun rc_doIssue :: "micro_op \<Rightarrow> rob_contention \<Rightarrow> rob_contention result" where
  "rc_doIssue u (Contention_Nehalem c) = Inr (Contention_Nehalem (nehalem_doIssue u c))"
| "rc_doIssue u (Contention_BoomV1 c) = bindE (boom_doIssue u c) (\<lambda>c1. Inr (Contention_BoomV1 c1))"
| "rc_doIssue u (Contention_CortexA72 c) = Inr (Contention_CortexA72 (a72_doIssue u c))"
| "rc_doIssue u (Contention_CortexA53 c) = Inr (Contention_CortexA53 c)"

fun rc_noMore :: "rob_contention \<Rightarrow> bool" where
  "rc_noMore (Contention_Nehalem c) \<longleftrightarrow> nehalem_noMore c"
| "rc_noMore (Contention_BoomV1 c) \<longleftrightarrow> boom_noMore c"
| "rc_noMore (Contention_CortexA72 c) \<longleftrightarrow> False"
| "rc_noMore (Contention_CortexA53 c) \<longleftrightarrow> False"

section \<open>Walking the instructions of a cycle\<close>

text \<open>
  How the reorder buffer uses the interface in a cycle: each candidate is tried and, when that succeeds, issued; the walk ends
  when no port is left. \<open>walk_all\<close> is the walk without the early end.
\<close>

fun walk ::
  "('u \<Rightarrow> 's \<Rightarrow> (bool \<times> 's) result) \<Rightarrow> ('u \<Rightarrow> 's \<Rightarrow> 's result) \<Rightarrow> ('s \<Rightarrow> bool) \<Rightarrow> 'u list \<Rightarrow> 's \<Rightarrow> ('u list \<times> 's) result" where
  "walk try_issue do_issue no_more [] c = Inr ([], c)"
| "walk try_issue do_issue no_more (u # us) c =
     (if no_more c then Inr ([], c)
      else bindE (try_issue u c) (\<lambda>(ok, c1).
             if ok then bindE (do_issue u c1) (\<lambda>c2. bindE (walk try_issue do_issue no_more us c2) (\<lambda>(vs, c3). Inr (u # vs, c3)))
             else walk try_issue do_issue no_more us c1))"

abbreviation (input) walk_all where
  "walk_all try_issue do_issue \<equiv> walk try_issue do_issue (\<lambda>_. False)"

lemma walk_Cons_Inr:
  assumes "walk try_issue do_issue no_more (u # us) c = Inr (vs, c')" and "\<not> no_more c"
  obtains (issued) c1 c2 ws where "try_issue u c = Inr (True, c1)" and "do_issue u c1 = Inr c2"
      and "walk try_issue do_issue no_more us c2 = Inr (ws, c')" and "vs = u # ws"
  | (refused) c1 where "try_issue u c = Inr (False, c1)" and "walk try_issue do_issue no_more us c1 = Inr (vs, c')"
  using assms by (auto simp: bindE_def split: sum.splits prod.splits if_splits)

locale issue_ports =
  fixes try_issue :: "'u \<Rightarrow> 's \<Rightarrow> (bool \<times> 's) result"
    and do_issue :: "'u \<Rightarrow> 's \<Rightarrow> 's result"
    and no_more :: "'s \<Rightarrow> bool"
  assumes refused: "no_more c \<Longrightarrow> try_issue u c = Inr (ok, c') \<Longrightarrow> \<not> ok \<and> c' = c"
begin

lemma nothing_after_no_more:
  "no_more c \<Longrightarrow> walk_all try_issue do_issue us c = Inr (vs, c') \<Longrightarrow> vs = [] \<and> c' = c"
proof (induction us)
  case (Cons u us)
  have not_False: "\<not> (\<lambda>_. False) c" by simp
  from Cons.prems(2) not_False show ?case
  proof (cases rule: walk_Cons_Inr)
    case (issued c1 c2 ws)
    with refused [OF Cons.prems(1)] show ?thesis by blast
  next
    case (refused c1)
    with issue_ports.refused [OF issue_ports_axioms Cons.prems(1)] Cons show ?thesis by blast
  qed
qed simp

lemma early_end:
  "walk_all try_issue do_issue us c = Inr (vs, c') \<Longrightarrow> walk try_issue do_issue no_more us c = Inr (vs, c')"
proof (induction us arbitrary: c vs)
  case (Cons u us)
  show ?case
  proof (cases "no_more c")
    case True
    with nothing_after_no_more Cons.prems show ?thesis by fastforce
  next
    case False
    have not_False: "\<not> (\<lambda>_. False) c" by simp
    from Cons.prems not_False show ?thesis
      by (cases rule: walk_Cons_Inr) (use False Cons.IH in \<open>auto simp: bindE_def\<close>)
  qed
qed simp

end

lemma nehalem_never_port05: "nehalem_getPort u \<noteq> NEHALEM_PORT05"
  by (simp add: nehalem_getPort_def Let_def split: uop_subtype_t.split)

lemma nehalem_refused: "nehalem_noMore c \<Longrightarrow> nehalem_tryIssue u c = (False, c)"
  using nehalem_never_port05 [of u]
  by (cases "nehalem_getPort u") (simp_all add: nehalem_tryIssue_def nehalem_take_port_def nehalem_noMore_def)

lemma boom_refused: "boom_noMore c \<Longrightarrow> boom_tryIssue u c = Inr r \<Longrightarrow> r = (False, c)"
  by (auto simp: boom_tryIssue_def boom_take_port_def boom_noMore_def bindE_def split: sum.splits if_splits)

interpretation rc: issue_ports "rc_tryIssue dec" rc_doIssue rc_noMore
proof
  fix c u ok c'
  assume "rc_noMore c" and "rc_tryIssue dec u c = Inr (ok, c')"
  then show "\<not> ok \<and> c' = c"
    by (cases c) (auto simp: nehalem_refused bindE_def dest: boom_refused split: sum.splits)
qed

theorem early_end_loses_no_issue:
  assumes "walk_all (rc_tryIssue dec) rc_doIssue us c = Inr r"
  shows "walk (rc_tryIssue dec) rc_doIssue rc_noMore us c = Inr r"
  using rc.early_end [of dec us c "fst r" "snd r"] assms by simp

section \<open>No port of Nehalem is used twice in a cycle\<close>

definition on_port :: "micro_op list \<Rightarrow> nehalem_port \<Rightarrow> nat" where
  "on_port us p = length (filter (\<lambda>u. nehalem_getPort u = p) us)"

definition shared_use :: "(nehalem_port \<Rightarrow> nat) \<Rightarrow> nat" where
  "shared_use n = n NEHALEM_PORT0 + n NEHALEM_PORT1 + n NEHALEM_PORT5 + n NEHALEM_PORT015"

definition ports_fit :: "(nehalem_port \<Rightarrow> nat) \<Rightarrow> nehalem_contention \<Rightarrow> bool" where
  "ports_fit n c \<longleftrightarrow>
     (\<forall>p. p \<notin> {NEHALEM_PORT05, NEHALEM_PORT015} \<longrightarrow> n p + of_bool (nh_ports c p) \<le> 1) \<and> shared_use n + nh_ports_generic c \<le> 3"

lemma on_port_Cons: "on_port (u # us) = (on_port us)(nehalem_getPort u := on_port us (nehalem_getPort u) + 1)"
  by (rule ext) (simp add: on_port_def)

lemma shared_use_add:
  "shared_use (n(p := n p + 1)) = shared_use n + of_bool (p \<in> {NEHALEM_PORT0, NEHALEM_PORT1, NEHALEM_PORT5, NEHALEM_PORT015})"
  by (cases p) (simp_all add: shared_use_def)

lemma take_port_effect:
  assumes "nehalem_take_port p c = (True, c1)" and "p \<noteq> NEHALEM_PORT05"
  shows "nh_ports c1 = (if p = NEHALEM_PORT015 then nh_ports c else (nh_ports c)(p := True))"
    and "p = NEHALEM_PORT015 \<or> \<not> nh_ports c p"
    and "nh_ports_generic c1 = nh_ports_generic c + of_bool (p \<in> {NEHALEM_PORT0, NEHALEM_PORT1, NEHALEM_PORT5, NEHALEM_PORT015})"
  using assms by (cases p; auto simp: nehalem_take_port_def split: if_splits)+

lemma take_port_fit:
  assumes "nehalem_take_port p c = (True, c1)" and "p \<noteq> NEHALEM_PORT05" and "ports_fit n c1"
  shows "ports_fit (n(p := n p + 1)) c"
  unfolding ports_fit_def
proof (intro conjI allI impI)
  fix q assume "q \<notin> {NEHALEM_PORT05, NEHALEM_PORT015}"
  with assms(3) have n: "n q + of_bool (nh_ports c1 q) \<le> 1" and q: "q \<noteq> NEHALEM_PORT015" unfolding ports_fit_def by blast+
  then show "(n(p := n p + 1)) q + of_bool (nh_ports c q) \<le> 1"
    using take_port_effect(1,2) [OF assms(1,2)] by (cases "q = p"; cases "p = NEHALEM_PORT015"; simp)
next
  show "shared_use (n(p := n p + 1)) + nh_ports_generic c \<le> 3"
    using assms(3) by (simp only: shared_use_add ports_fit_def take_port_effect(3) [OF assms(1,2)]) simp
qed

lemma take_port_refused: "nehalem_take_port p c = (False, c1) \<Longrightarrow> c1 = c"
  by (simp add: nehalem_take_port_def split: if_splits)

lemma take_port_shrinks:
  assumes "nehalem_take_port p c = (ok, c1)" and "p \<noteq> NEHALEM_PORT05" and "ports_fit n c1"
  shows "ports_fit n c"
proof (cases ok)
  case True
  with assms(1) have t: "nehalem_take_port p c = (True, c1)" by simp
  have "nh_ports c q \<longrightarrow> nh_ports c1 q" for q using take_port_effect(1) [OF t assms(2)] by simp
  then have le: "of_bool (nh_ports c q) \<le> (of_bool (nh_ports c1 q) :: nat)" for q by simp
  show ?thesis
    unfolding ports_fit_def
  proof (intro conjI allI impI)
    fix q assume "q \<notin> {NEHALEM_PORT05, NEHALEM_PORT015}"
    with assms(3) have "n q + of_bool (nh_ports c1 q) \<le> 1" unfolding ports_fit_def by blast
    with le [of q] show "n q + of_bool (nh_ports c q) \<le> 1" by linarith
  next
    have "shared_use n + nh_ports_generic c1 \<le> 3" using assms(3) unfolding ports_fit_def by blast
    then show "shared_use n + nh_ports_generic c \<le> 3" unfolding take_port_effect(3) [OF t assms(2)] by linarith
  qed
next
  case False
  with assms take_port_refused [of p c c1] show ?thesis by simp
qed

lemma doIssue_fit: "ports_fit n (nehalem_doIssue u c) = ports_fit n c"
  by (simp add: nehalem_doIssue_def ports_fit_def Let_def)

lemma tryIssue_take_port:
  assumes "nehalem_tryIssue u c = (ok, c1)"
  obtains taken where "nehalem_take_port (nehalem_getPort u) c = (taken, c1)" and "ok \<longrightarrow> taken"
  using assms by (auto simp: nehalem_tryIssue_def Let_def split: prod.splits if_splits)

lemma take_port_bounded: "nehalem_take_port p c = (ok, c1) \<Longrightarrow> nh_ports_generic c \<le> 3 \<Longrightarrow> nh_ports_generic c1 \<le> 3"
  by (auto simp: nehalem_take_port_def split: if_splits)

lemma doIssue_bounded: "nh_ports_generic (nehalem_doIssue u c) = nh_ports_generic c"
  by (simp add: nehalem_doIssue_def Let_def)

lemma walk_fits:
  "walk (rc_tryIssue dec) rc_doIssue no_more us (Contention_Nehalem c) = Inr (vs, c') \<Longrightarrow> nh_ports_generic c \<le> 3 \<Longrightarrow>
   ports_fit (on_port vs) c"
proof (induction us arbitrary: c vs)
  case Nil
  then show ?case by (simp add: ports_fit_def on_port_def shared_use_def)
next
  case (Cons u us)
  obtain ok c1 where t: "nehalem_tryIssue u c = (ok, c1)" by force
  then obtain taken where p: "nehalem_take_port (nehalem_getPort u) c = (taken, c1)" and ot: "ok \<longrightarrow> taken"
    by (rule tryIssue_take_port)
  note bounded = take_port_bounded [OF p Cons.prems(2)]
  show ?case
  proof (cases "no_more (Contention_Nehalem c)")
    case True
    with Cons.prems show ?thesis by (auto simp: ports_fit_def on_port_def shared_use_def)
  next
    case False
    with Cons.prems(1) show ?thesis
    proof (cases rule: walk_Cons_Inr)
      case (issued d1 d2 ws)
      with t have ok: ok "d2 = Contention_Nehalem (nehalem_doIssue u c1)" by auto
      with issued(3) bounded Cons.IH have "ports_fit (on_port ws) c1" by (metis doIssue_bounded doIssue_fit)
      moreover have "nehalem_take_port (nehalem_getPort u) c = (True, c1)" using p ot ok(1) by simp
      ultimately show ?thesis
        unfolding issued(4) on_port_Cons by (intro take_port_fit [OF _ nehalem_never_port05])
    next
      case (refused d1)
      with t bounded Cons.IH have "ports_fit (on_port vs) c1" by auto
      with take_port_shrinks [OF p nehalem_never_port05] show ?thesis by blast
    qed
  qed
qed

theorem nehalem_ports_not_overbooked:
  assumes "walk (rc_tryIssue dec) rc_doIssue rc_noMore us (rc_initCycle now (Contention_Nehalem c)) = Inr (vs, c')"
  shows "on_port vs NEHALEM_PORT2 \<le> 1 \<and> on_port vs NEHALEM_PORT34 \<le> 1 \<and> on_port vs NEHALEM_PORT0 \<le> 1 \<and>
         on_port vs NEHALEM_PORT1 \<le> 1 \<and> on_port vs NEHALEM_PORT5 \<le> 1 \<and>
         on_port vs NEHALEM_PORT0 + on_port vs NEHALEM_PORT1 + on_port vs NEHALEM_PORT5 + on_port vs NEHALEM_PORT015 \<le> 3"
proof -
  have "ports_fit (on_port vs) (nehalem_initCycle now c)"
    by (rule walk_fits [where us = us and no_more = rc_noMore]) (use assms in \<open>simp_all add: nehalem_initCycle_def\<close>)
  then show ?thesis by (simp add: ports_fit_def shared_use_def nehalem_initCycle_def)
qed

definition some_decoder :: decoder where
  "some_decoder = \<lparr>is_branch_opcode = (\<lambda>_. False), is_fpvector_addsub_opcode = (\<lambda>_. False), is_fpvector_muldiv_opcode = (\<lambda>_. False),
     is_fpvector_ldst_opcode = (\<lambda>_. False), is_pause_opcode = (\<lambda>_. False), is_writeback = (\<lambda>_. False), has_modifiers = (\<lambda>_. False),
     last_reg = 100, map_register = id\<rparr>"

definition generic_uop :: micro_op where
  "generic_uop = makeExecute some_decoder 0 0 ''ADD'' False MicroOp"

definition branch_uop :: micro_op where
  "branch_uop = makeExecute some_decoder 0 0 ''JMP'' True MicroOp"

lemma busy_cycle:
  "(case walk (rc_tryIssue some_decoder) rc_doIssue rc_noMore [generic_uop, branch_uop, branch_uop, generic_uop, generic_uop]
           (rc_initCycle 5 (Contention_Nehalem (RobContentionNehalem 1))) of Inl e \<Rightarrow> False | Inr (vs, _) \<Rightarrow> vs = [generic_uop, branch_uop, generic_uop])"
  by code_simp

theorem nehalem_ports_not_overbooked_witness:
  "on_port [generic_uop, branch_uop, generic_uop] NEHALEM_PORT5 \<le> 1"
proof -
  obtain c' where "walk (rc_tryIssue some_decoder) rc_doIssue rc_noMore [generic_uop, branch_uop, branch_uop, generic_uop, generic_uop]
           (rc_initCycle 5 (Contention_Nehalem (RobContentionNehalem 1))) = Inr ([generic_uop, branch_uop, generic_uop], c')"
    using busy_cycle by (auto split: sum.splits prod.splits)
  from nehalem_ports_not_overbooked [OF this] show ?thesis by blast
qed

text \<open>A division that is refused because the divider is busy keeps port 0, so nothing else can issue there in the cycle.\<close>

definition div_uop :: micro_op where
  "div_uop = makeExecute some_decoder 0 0 ''SQRTSS'' False MicroOp"

lemma refused_uop_keeps_port:
  "let c = nehalem_initCycle 5 ((RobContentionNehalem 1)\<lparr>nh_alu_used_until := (\<lambda>_. 9)\<rparr>) in
   nh_ports c NEHALEM_PORT0 = False \<and> fst (nehalem_tryIssue div_uop c) = False \<and> nh_ports (snd (nehalem_tryIssue div_uop c)) NEHALEM_PORT0"
  by code_simp

end
