(* ===== verification/Rob_Timer.thy ===== *)
theory Rob_Timer
  imports Rob_Contention Contention_Model
begin

text \<open>
  \<^verbatim>\<open>performance_models/rob_performance_model/rob_timer.{h,cc}\<close>: the timing model of an out-of-order core. Micro-operations
  wait in the reorder buffer; each simulated cycle dispatches some, issues those that are ready and commits from the head, and
  the time until the next event is charged to one component of the CPI stack.

  The ring buffer of entries is a list with the head first. A pointer to an entry is its sequence number, which stays valid
  because an entry leaves the buffer only after the entries it was linked from. The memory system is a parameter \<open>access\<close> on a
  state \<open>'m\<close>. \<open>SubsecondTime::MaxTime()\<close> is \<open>- 1\<close>. Counters that the code declares and never uses are left out, and so are
  the debugging output, the instruction tracer and the warning for x87 code.
\<close>

section \<open>State\<close>

record rob_entry =
  re_uop :: dynamic_micro_op
  re_dispatched :: UInt64
  re_ready :: UInt64
  re_readyMax :: UInt64
  re_addressReady :: UInt64
  re_addressReadyMax :: UInt64
  re_issued :: UInt64
  re_done :: UInt64
  re_dependants :: "UInt64 list"
  re_addressProducers :: "UInt64 list"

datatype cpi_component =
    CpiBase
  | CpiBranchPredictor
  | CpiSerialization
  | CpiRSFull
  | CpiInstructionCache where_t
  | CpiDataCache where_t

record rob_config =
  dispatchWidth :: nat
  commitWidth :: nat
  windowSize :: nat
  rsEntries :: UInt64
  misprediction_penalty :: UInt64
  store_to_load_forwarding :: bool
  no_address_disambiguation :: bool
  inorder :: bool
  mlp_histogram :: bool
  lll_cutoff :: UInt32

record 'm rob_timer =
  rob :: "rob_entry list"
  num_in_rob :: UInt64
  rs_entries_used :: UInt64
  rt_contention :: "rob_contention option"
  rt_now :: component_time
  frontend_stalled_until :: UInt64
  in_icache_miss :: bool
  last_store_done :: UInt64
  load_queue :: contention_model
  store_queue :: contention_model
  nextSequenceNumber :: UInt64
  will_skip :: bool
  time_skipped :: UInt64
  registerDependencies :: register_dependencies
  memoryDependencies :: memory_dependencies
  cpi :: "cpi_component \<Rightarrow> UInt64"
  cpiCurrentFrontEndStall :: "cpi_component option"
  uop_type_count :: "uop_subtype_t \<Rightarrow> UInt64"
  uops_total :: UInt64
  uops_x87 :: UInt64
  uops_pause :: UInt64
  loads_count :: UInt64
  loads_latency :: UInt64
  stores_count :: UInt64
  stores_latency :: UInt64
  outstandingLongLatencyInsns :: UInt64
  outstandingLongLatencyCycles :: UInt64
  lastAccountedMemoryCycle :: UInt64
  totalProducerInsDistance :: UInt64
  totalConsumers :: UInt64
  producerInsDistance :: "UInt64 list"
  outstandingLoads :: "where_t \<Rightarrow> nat \<Rightarrow> UInt64"
  outstandingLoadsAll :: "nat \<Rightarrow> UInt64"
  rt_memory :: 'm

text \<open>An access: the memory state, whether it is a load, address, size, instruction and time, to the latency and the hit location.\<close>

type_synonym 'm memory_access = "'m \<Rightarrow> bool \<Rightarrow> UInt64 \<Rightarrow> nat \<Rightarrow> UInt64 \<Rightarrow> UInt64 \<Rightarrow> UInt64 \<times> where_t \<times> 'm"

definition RobTimer ::
  "rob_config \<Rightarrow> rob_contention option \<Rightarrow> UInt64 \<Rightarrow> nat \<Rightarrow> nat \<Rightarrow> 'm \<Rightarrow> 'm rob_timer" where
  "RobTimer cfg contention period outstanding_loads outstanding_stores m =
     \<lparr>rob = [], num_in_rob = 0, rs_entries_used = 0, rt_contention = contention, rt_now = ComponentTime period,
      frontend_stalled_until = 0, in_icache_miss = False, last_store_done = 0,
      load_queue = ContentionModel outstanding_loads period, store_queue = ContentionModel outstanding_stores period,
      nextSequenceNumber = 0, will_skip = False, time_skipped = 0, registerDependencies = RegisterDependencies,
      memoryDependencies = MemoryDependencies, cpi = (\<lambda>_. 0), cpiCurrentFrontEndStall = None, uop_type_count = (\<lambda>_. 0),
      uops_total = 0, uops_x87 = 0, uops_pause = 0, loads_count = 0, loads_latency = 0, stores_count = 0, stores_latency = 0,
      outstandingLongLatencyInsns = 0, outstandingLongLatencyCycles = 0, lastAccountedMemoryCycle = 0,
      totalProducerInsDistance = 0, totalConsumers = 0, producerInsDistance = replicate (windowSize cfg) 0,
      outstandingLoads = (\<lambda>_ _. 0), outstandingLoadsAll = (\<lambda>_. 0), rt_memory = m\<rparr>"

definition entry_init :: "dynamic_micro_op \<Rightarrow> UInt64 \<Rightarrow> rob_entry" where
  "entry_init u n =
     \<lparr>re_uop = u\<lparr>sequenceNumber := n\<rparr>, re_dispatched = 0, re_ready = MaxTime, re_readyMax = 0, re_addressReady = MaxTime, re_addressReadyMax = 0,
      re_issued = MaxTime, re_done = MaxTime, re_dependants = [], re_addressProducers = []\<rparr>"

definition seq_of :: "rob_entry \<Rightarrow> UInt64" where
  "seq_of e = sequenceNumber (re_uop e)"

definition mop_of :: "rob_entry \<Rightarrow> micro_op" where
  "mop_of e = m_uop (re_uop e)"

definition time_of :: "'m rob_timer \<Rightarrow> UInt64" where
  "time_of t = ct_time (rt_now t)"

definition later :: "UInt64 \<Rightarrow> 'm rob_timer \<Rightarrow> UInt64" where
  "later cycles t = ct_time (addCycleLatency cycles (rt_now t))"

definition upd_entry :: "nat \<Rightarrow> (rob_entry \<Rightarrow> rob_entry) \<Rightarrow> 'm rob_timer \<Rightarrow> 'm rob_timer" where
  "upd_entry i f t = t\<lparr>rob := (rob t)[i := f (rob t ! i)]\<rparr>"

definition uop_ready :: "rob_entry \<Rightarrow> rob_entry" where
  "uop_ready e = e\<lparr>re_ready := re_readyMax e\<rparr>"

section \<open>Entering the buffer\<close>

text \<open>The position of the entry; reading the head of an empty buffer fails the assertion of the queue.\<close>

definition findEntryBySequenceNumber :: "UInt64 \<Rightarrow> 'm rob_timer \<Rightarrow> nat result" where
  "findEntryBySequenceNumber n t =
     bindE (assertE (rob t \<noteq> []) (ASSERT ''idx < size()'')) (\<lambda>_.
     let position = unat (n - seq_of (hd (rob t))) in
     bindE (assertE (position < length (rob t)) (LOG_ASSERT_ERROR ''Sequence number outside of ROB'')) (\<lambda>_.
     bindE (assertE (seq_of (rob t ! position) = n) (LOG_ASSERT_ERROR ''Sequence number unexpectedly not at ROB position'')) (\<lambda>_.
       Inr position)))"

definition entry_of :: "UInt64 \<Rightarrow> 'm rob_timer \<Rightarrow> rob_entry result" where
  "entry_of n t = bindE (findEntryBySequenceNumber n t) (\<lambda>i. Inr (rob t ! i))"

fun find_address_producers :: "nat \<Rightarrow> UInt64 \<Rightarrow> nat list \<Rightarrow> 'm rob_timer \<Rightarrow> 'm rob_timer result" where
  "find_address_producers i lowest [] t = Inr t"
| "find_address_producers i lowest (r # rs) t =
     (let producer = peekProducer (Some r) lowest (registerDependencies t) in
      if producer = INVALID_SEQNR then find_address_producers i lowest rs t
      else bindE (entry_of producer t) (\<lambda>p.
             find_address_producers i lowest rs
               (upd_entry i (if re_done p \<noteq> MaxTime then (\<lambda>e. e\<lparr>re_addressReadyMax := max (re_addressReadyMax e) (re_done p)\<rparr>)
                             else (\<lambda>e. e\<lparr>re_addressProducers := re_addressProducers e @ [producer]\<rparr>)) t)))"

definition enter_store_address :: "nat \<Rightarrow> UInt64 \<Rightarrow> 'm rob_timer \<Rightarrow> 'm rob_timer result" where
  "enter_store_address i lowest t =
     (if isStore (mop_of (rob t ! i))
      then bindE (find_address_producers i lowest (addressRegisters (mop_of (rob t ! i))) t) (\<lambda>t1.
             Inr (if re_addressProducers (rob t1 ! i) = []
                  then upd_entry i (\<lambda>e. e\<lparr>re_addressReady := re_addressReadyMax e\<rparr>) t1 else t1))
      else Inr t)"

definition enter_dependencies :: "decoder \<Rightarrow> nat \<Rightarrow> UInt64 \<Rightarrow> 'm rob_timer \<Rightarrow> 'm rob_timer result" where
  "enter_dependencies dec i lowest t =
     bindE (reg_setDependencies dec lowest (re_uop (rob t ! i)) (registerDependencies t)) (\<lambda>(u1, rd).
     bindE (mem_setDependencies lowest u1 (memoryDependencies t)) (\<lambda>(u2, md).
       Inr (upd_entry i (\<lambda>e. e\<lparr>re_uop := u2\<rparr>) (t\<lparr>registerDependencies := rd, memoryDependencies := md\<rparr>))))"

fun add_dependencies :: "UInt64 list \<Rightarrow> dynamic_micro_op \<Rightarrow> dynamic_micro_op result" where
  "add_dependencies [] u = Inr u"
| "add_dependencies (d # ds) u = bindE (addDependency d u) (add_dependencies ds)"

text \<open>The search for a store among the dependencies \<open>ds\<close> of a load; its dependencies replace it.\<close>

fun forward_store :: "nat \<Rightarrow> UInt64 list \<Rightarrow> 'm rob_timer \<Rightarrow> 'm rob_timer result" where
  "forward_store i [] t = Inr t"
| "forward_store i (d # ds) t =
     bindE (entry_of d t) (\<lambda>p.
       if isStore (mop_of p)
       then bindE (removeDependency d (re_uop (rob t ! i))) (\<lambda>u1.
            bindE (add_dependencies (all_dependencies (re_uop p)) u1) (\<lambda>u2.
              Inr (upd_entry i (\<lambda>e. e\<lparr>re_uop := u2\<rparr>) t)))
       else forward_store i ds t)"

text \<open>
  The entry becomes a dependant of the producers that have not issued; those that have are remembered in an array of eight
  elements, whose bound is checked only afterwards (and against 16).
\<close>

fun link_producers ::
  "nat \<Rightarrow> UInt64 list \<Rightarrow> UInt64 option \<times> UInt64 list \<Rightarrow> 'm rob_timer \<Rightarrow> ((UInt64 option \<times> UInt64 list) \<times> 'm rob_timer) result" where
  "link_producers i [] acc t = Inr (acc, t)"
| "link_producers i (d # ds) (min_dist, remove) t =
     bindE (findEntryBySequenceNumber d t) (\<lambda>k.
       let p = rob t ! k; dist = seq_of (rob t ! i) - seq_of p;
           min_dist' = Some (case min_dist of None \<Rightarrow> dist | Some m \<Rightarrow> min m dist)
       in if re_done p \<noteq> MaxTime
          then bindE (assertE (length remove < 8) (UNDEFINED ''deps_to_remove'')) (\<lambda>_.
                 link_producers i ds (min_dist', remove @ [d])
                   (upd_entry i (\<lambda>e. e\<lparr>re_readyMax := max (re_readyMax e) (re_done p)\<rparr>) t))
          else link_producers i ds (min_dist', remove) (upd_entry k (\<lambda>e. e\<lparr>re_dependants := re_dependants e @ [seq_of (rob t ! i)]\<rparr>) t))"

definition count_distance :: "UInt64 option \<Rightarrow> 'm rob_timer \<Rightarrow> 'm rob_timer result" where
  "count_distance min_dist t =
     bindE (assertE (producerInsDistance t \<noteq> []) (UNDEFINED ''m_producerInsDistance'')) (\<lambda>_.
       let d = (case min_dist of None \<Rightarrow> 0 | Some m \<Rightarrow> min (unat m) (length (producerInsDistance t) - 1)) in
       Inr (t\<lparr>totalProducerInsDistance := totalProducerInsDistance t + (case min_dist of None \<Rightarrow> 0 | Some m \<Rightarrow> m),
              producerInsDistance := (producerInsDistance t)[d := producerInsDistance t ! d + 1]\<rparr>))"

fun remove_dependencies :: "UInt64 list \<Rightarrow> dynamic_micro_op \<Rightarrow> dynamic_micro_op result" where
  "remove_dependencies [] u = Inr u"
| "remove_dependencies (d # ds) u = bindE (removeDependency d u) (remove_dependencies ds)"

definition count_uop :: "decoder \<Rightarrow> micro_op \<Rightarrow> 'm rob_timer \<Rightarrow> 'm rob_timer" where
  "count_uop dec u t =
     t\<lparr>uop_type_count := (uop_type_count t)(uop_subtype u := uop_type_count t (uop_subtype u) + 1), uops_total := uops_total t + 1,
       uops_x87 := (if is_x87 u then uops_x87 t + 1 else uops_x87 t),
       uops_pause := (if is_pause_opcode dec (instructionOpcode u) then uops_pause t + 1 else uops_pause t)\<rparr>"

text \<open>The body of the first loop of \<^verbatim>\<open>simulate\<close> for a micro-operation that is not squashed; the buffer has room for \<open>windowSize + 255\<close>.\<close>

definition enter_uop :: "decoder \<Rightarrow> rob_config \<Rightarrow> dynamic_micro_op \<Rightarrow> 'm rob_timer \<Rightarrow> 'm rob_timer result" where
  "enter_uop dec cfg u t =
     bindE (assertE (length (rob t) < windowSize cfg + 255) (ASSERT ''!full()'')) (\<lambda>_.
     let i = length (rob t);
         t1 = t\<lparr>rob := rob t @ [entry_init u (nextSequenceNumber t)], nextSequenceNumber := nextSequenceNumber t + 1\<rparr>;
         lowest = seq_of (hd (rob t1)) in
     bindE (enter_store_address i lowest t1) (\<lambda>t2.
     bindE (enter_dependencies dec i lowest t2) (\<lambda>t3.
     bindE (if store_to_load_forwarding cfg \<and> isLoad (mop_of (rob t3 ! i))
            then forward_store i (all_dependencies (re_uop (rob t3 ! i))) t3 else Inr t3) (\<lambda>t4.
     bindE (link_producers i (all_dependencies (re_uop (rob t4 ! i))) (None, []) (t4\<lparr>totalConsumers := totalConsumers t4 + 1\<rparr>))
       (\<lambda>((min_dist, remove), t5).
     bindE (count_distance min_dist t5) (\<lambda>t6.
     bindE (remove_dependencies remove (re_uop (rob t6 ! i))) (\<lambda>u1.
       let t7 = upd_entry i (\<lambda>e. e\<lparr>re_uop := u1\<rparr>) t6;
           t8 = (if getDependenciesLength u1 = 0 then upd_entry i uop_ready t7 else t7)
       in Inr (count_uop dec (m_uop u) t8))))))))"

fun enter_all :: "decoder \<Rightarrow> rob_config \<Rightarrow> dynamic_micro_op list \<Rightarrow> 'm rob_timer \<Rightarrow> 'm rob_timer result" where
  "enter_all dec cfg [] t = Inr t"
| "enter_all dec cfg (u # us) t =
     (if squashed u then enter_all dec cfg us t else bindE (enter_uop dec cfg u t) (enter_all dec cfg us))"

definition rt_synchronize :: "UInt64 \<Rightarrow> 'm rob_timer \<Rightarrow> 'm rob_timer" where
  "rt_synchronize time t = t\<lparr>rt_now := ct_setElapsedTime time (rt_now t)\<rparr>"

section \<open>Dispatch\<close>

fun head_component :: "UInt64 \<Rightarrow> rob_entry list \<Rightarrow> cpi_component option" where
  "head_component now [] = None"
| "head_component now (e # es) =
     (if re_done e < now then head_component now es
      else if mo_serializing (mop_of e) \<or> m_membar (mop_of e) then Some CpiSerialization
      else if isLoad (mop_of e) \<or> isStore (mop_of e) then Some (CpiDataCache (dCacheHitWhere (re_uop e)))
      else None)"

definition findCpiComponent :: "'m rob_timer \<Rightarrow> cpi_component option" where
  "findCpiComponent t = head_component (time_of t) (take (unat (num_in_rob t)) (rob t))"

definition dispatch_entry :: "'m rob_timer \<Rightarrow> nat \<Rightarrow> 'm rob_timer" where
  "dispatch_entry t i =
     (upd_entry i (\<lambda>e. e\<lparr>re_dispatched := time_of t, re_ready := max (re_ready e) (later 1 t)\<rparr>) t)
       \<lparr>num_in_rob := num_in_rob t + 1, rs_entries_used := rs_entries_used t + 1\<rparr>"

text \<open>
  The loop over the entries that are not in the buffer's window yet; \<open>n\<close> counts the micro-operations of the cycle. It takes
  at most one step for each free place of the window, which the first argument counts.
\<close>

fun dispatch_loop ::
  "nat \<Rightarrow> rob_config \<Rightarrow> nat \<Rightarrow> UInt64 \<Rightarrow> 'm rob_timer \<Rightarrow> (UInt64 \<times> cpi_component option \<times> 'm rob_timer) result" where
  "dispatch_loop 0 cfg n next_event t = Inr (next_event, None, t)"
| "dispatch_loop (Suc k) cfg n next_event t =
     (let i = unat (num_in_rob t) in
      bindE (assertE (i < length (rob t)) (LOG_ASSERT_ERROR ''Expected sufficient uops for dispatching in pre-ROB buffer'')) (\<lambda>_.
      let u = re_uop (rob t ! i); icache_miss = (iCacheHitWhere u \<noteq> L1I) in
      if n = dispatchWidth cfg then Inr (next_event, None, t)
      else if icache_miss \<and> \<not> in_icache_miss t
      then Inr (next_event, Some (CpiInstructionCache (iCacheHitWhere u)),
                t\<lparr>frontend_stalled_until := later (ucast (iCacheLatency u)) t, in_icache_miss := True\<rparr>)
      else
        let t1 = (if icache_miss then t\<lparr>in_icache_miss := False\<rparr> else t) in
        if rs_entries_used t1 = rsEntries cfg then Inr (next_event, Some CpiRSFull, t1)
        else
          let t2 = dispatch_entry t1 i; next_event' = min next_event (re_ready (rob t2 ! i)) in
          if mo_branch (m_uop u) \<and> branchMispredicted u
          then Inr (next_event', Some CpiBranchPredictor, t2\<lparr>frontend_stalled_until := MaxTime\<rparr>)
          else dispatch_loop k cfg (n + 1) next_event' t2))"

definition choose_component :: "rob_config \<Rightarrow> cpi_component option \<Rightarrow> 'm rob_timer \<Rightarrow> cpi_component" where
  "choose_component cfg front_end t =
     (let rob_head = findCpiComponent t in
      case front_end of
        Some f \<Rightarrow> (case rob_head of Some h \<Rightarrow> h | None \<Rightarrow> f)
      | None \<Rightarrow>
          if unat (num_in_rob t) = windowSize cfg then (case rob_head of Some h \<Rightarrow> h | None \<Rightarrow> CpiBase) else CpiBase)"

definition doDispatch :: "rob_config \<Rightarrow> 'm rob_timer \<Rightarrow> (UInt64 \<times> cpi_component \<times> 'm rob_timer) result" where
  "doDispatch cfg t =
     bindE (if frontend_stalled_until t \<le> time_of t
            then bindE (dispatch_loop (windowSize cfg - unat (num_in_rob t)) cfg 0 MaxTime t) (\<lambda>(next_event, c, t1).
                   Inr (next_event, c, t1\<lparr>cpiCurrentFrontEndStall := c\<rparr>))
            else Inr (MaxTime, cpiCurrentFrontEndStall t, t)) (\<lambda>(next_event, c, t1).
       Inr (if unat (num_in_rob t1) = windowSize cfg then next_event else min (frontend_stalled_until t1) next_event,
            choose_component cfg c t1, t1))"

section \<open>Issue\<close>

text \<open>The access to the memory system of a load or a store that has not made it yet.\<close>

definition access_memory :: "'m memory_access \<Rightarrow> nat \<Rightarrow> 'm rob_timer \<Rightarrow> 'm rob_timer result" where
  "access_memory access i t =
     (let u = re_uop (rob t ! i); m = m_uop u in
      if (isLoad m \<or> isStore m) \<and> dCacheHitWhere u = UNKNOWN
      then let (latency, hit, mem) =
                 access (rt_memory t) (isLoad m) (du_address u) (memoryAccessSize m) (case m_instruction m of None \<Rightarrow> 0 | Some a \<Rightarrow> a) (time_of t)
           in bindE (divideRounded latency (ct_period (rt_now t))) (\<lambda>cycles.
                Inr (upd_entry i (\<lambda>e. e\<lparr>re_uop := u\<lparr>execLatency := ucast (ucast (execLatency u) + cycles :: UInt64), dCacheHitWhere := hit\<rparr>\<rparr>)
                       (t\<lparr>rt_memory := mem\<rparr>)))
      else Inr t)"

definition use_queue :: "nat \<Rightarrow> 'm rob_timer \<Rightarrow> 'm rob_timer" where
  "use_queue i t =
     (let u = re_uop (rob t ! i); delay = ct_period (rt_now t) * ucast (execLatency u) in
      if isLoad (m_uop u)
      then t\<lparr>load_queue := snd (getCompletionTime (time_of t) delay (du_address u) (load_queue t)),
             loads_count := loads_count t + 1, loads_latency := loads_latency t + delay\<rparr>
      else if isStore (m_uop u)
      then t\<lparr>store_queue := snd (getCompletionTime (time_of t) delay (du_address u) (store_queue t)),
             stores_count := stores_count t + 1, stores_latency := stores_latency t + delay\<rparr>
      else t)"

text \<open>The producers of a store's address: whether the one at \<open>i\<close> is among them and whether all have been issued.\<close>

fun check_address_producers :: "nat \<Rightarrow> UInt64 list \<Rightarrow> 'm rob_timer \<Rightarrow> (bool \<times> bool) result" where
  "check_address_producers i [] t = Inr (False, True)"
| "check_address_producers i (p # ps) t =
     bindE (if p \<ge> seq_of (hd (rob t)) then bindE (findEntryBySequenceNumber p t) (\<lambda>k. Inr (Some k)) else Inr None) (\<lambda>k.
     bindE (check_address_producers i ps t) (\<lambda>(found, ready).
       Inr (found \<or> k = Some i, ready \<and> \<not> (case k of Some j \<Rightarrow> re_done (rob t ! j) = MaxTime | None \<Rightarrow> False))))"

definition wake_dependant :: "nat \<Rightarrow> UInt64 \<Rightarrow> UInt64 \<Rightarrow> UInt64 \<Rightarrow> 'm rob_timer \<Rightarrow> 'm rob_timer result" where
  "wake_dependant i seq cycle_depend d t =
     bindE (findEntryBySequenceNumber d t) (\<lambda>k.
     bindE (assertE (getDependenciesLength (re_uop (rob t ! k)) > 0) (LOG_ASSERT_ERROR ''??'')) (\<lambda>_.
     bindE (removeDependency seq (re_uop (rob t ! k))) (\<lambda>u.
     let t1 = upd_entry k (\<lambda>e. e\<lparr>re_readyMax := max (re_readyMax e) cycle_depend, re_uop := u\<rparr>) t;
         t2 = (if getDependenciesLength u = 0 then upd_entry k uop_ready t1 else t1);
         e = rob t2 ! k
     in if isStore (mop_of e) \<and> re_addressReady e = MaxTime
        then bindE (check_address_producers i (re_addressProducers e) t2) (\<lambda>(found, ready).
               let t3 = (if found then upd_entry k (\<lambda>e. e\<lparr>re_addressReadyMax := max (re_addressReadyMax e) cycle_depend\<rparr>) t2 else t2)
               in Inr (if ready then upd_entry k (\<lambda>e. e\<lparr>re_addressReady := re_addressReadyMax e\<rparr>) t3 else t3))
        else Inr t2)))"

fun wake_dependants :: "nat \<Rightarrow> UInt64 \<Rightarrow> UInt64 \<Rightarrow> UInt64 list \<Rightarrow> 'm rob_timer \<Rightarrow> 'm rob_timer result" where
  "wake_dependants i seq cycle_depend [] t = Inr t"
| "wake_dependants i seq cycle_depend (d # ds) t =
     bindE (wake_dependant i seq cycle_depend d t) (wake_dependants i seq cycle_depend ds)"

definition issue_contention :: "micro_op \<Rightarrow> 'm rob_timer \<Rightarrow> 'm rob_timer result" where
  "issue_contention u t =
     (case rt_contention t of None \<Rightarrow> Inr t | Some c \<Rightarrow> bindE (rc_doIssue u c) (\<lambda>c1. Inr (t\<lparr>rt_contention := Some c1\<rparr>)))"

text \<open>The times are those of the source: when dependants may use the result, and when the entry may commit.\<close>

definition issueInstruction :: "'m memory_access \<Rightarrow> rob_config \<Rightarrow> nat \<Rightarrow> UInt64 \<Rightarrow> 'm rob_timer \<Rightarrow> (UInt64 \<times> 'm rob_timer) result" where
  "issueInstruction access cfg i next_event t =
     bindE (access_memory access i t) (\<lambda>t1.
     let t2 = use_queue i t1; e = rob t2 ! i; u = re_uop e; store = isStore (m_uop u);
         cycle_depend0 = later (ucast (execLatency u)) t2;
         cycle_done0 = cycle_depend0 + ct_period (rt_now t2);
         cycle_depend = (if store then later 1 t2 else cycle_depend0);
         cycle_done = (if store then later 1 t2 else cycle_done0) in
     bindE (assertE (\<not> store \<or> re_addressReady e \<le> re_ready e) (LOG_ASSERT_ERROR ''Store address cannot be ready later than the whole uop is'')) (\<lambda>_.
     bindE (issue_contention (m_uop u) (if store then t2\<lparr>last_store_done := max (last_store_done t2) cycle_done0\<rparr> else t2)) (\<lambda>t3.
     let t4 = (upd_entry i (\<lambda>e. e\<lparr>re_issued := time_of t, re_done := cycle_done\<rparr>) t3)\<lparr>rs_entries_used := rs_entries_used t3 - 1\<rparr> in
     bindE (wake_dependants i (sequenceNumber u) cycle_depend (re_dependants e) t4) (\<lambda>t5.
       Inr (min next_event cycle_done,
            if mo_branch (m_uop u) \<and> branchMispredicted u
            then t5\<lparr>frontend_stalled_until := later (misprediction_penalty cfg - 2) t5\<rparr> else t5)))))"

record issue_flags =
  num_issued :: nat
  head_of_queue :: bool
  no_more_load :: bool
  no_more_store :: bool
  have_unresolved_store :: bool

datatype decision = Issue | Blocked | Stop

text \<open>The chain of conditions that decides about an entry; the queues count the requests that found no slot.\<close>

definition decide_issue :: "rob_config \<Rightarrow> rob_entry \<Rightarrow> issue_flags \<Rightarrow> 'm rob_timer \<Rightarrow> decision \<times> issue_flags \<times> 'm rob_timer" where
  "decide_issue cfg e f t =
     (let m = mop_of e; now = time_of t; drained = (head_of_queue f \<and> last_store_done t \<le> now) in
      if re_ready e > now then (Blocked, f, t)
      else if no_more_load f \<and> isLoad m \<or> no_more_store f \<and> isStore m then (Blocked, f, t)
      else if mo_serializing m then (if drained then Issue else Stop, f, t)
      else if m_membar m
      then if drained then (Issue, f, t) else (Blocked, f\<lparr>no_more_load := True, no_more_store := True\<rparr>, t)
      else if rt_contention t = None \<and> num_issued f = dispatchWidth cfg then (Blocked, f, t)
      else if isLoad m
      then let (free, q) = hasFreeSlot now (- 1) (load_queue t); t1 = t\<lparr>load_queue := q\<rparr> in
           (if \<not> free \<or> no_address_disambiguation cfg \<and> have_unresolved_store f then Blocked else Issue, f, t1)
      else if isStore m
      then if \<not> head_of_queue f then (Blocked, f, t)
           else let (free, q) = hasFreeSlot now (- 1) (store_queue t) in (if free then Issue else Blocked, f, t\<lparr>store_queue := q\<rparr>)
      else (Issue, f, t))"

definition try_contention :: "decoder \<Rightarrow> decision \<Rightarrow> micro_op \<Rightarrow> 'm rob_timer \<Rightarrow> (decision \<times> 'm rob_timer) result" where
  "try_contention dec d u t =
     (case rt_contention t of
        Some c \<Rightarrow>
          if d = Issue then bindE (rc_tryIssue dec u c) (\<lambda>(ok, c1). Inr (if ok then Issue else Blocked, t\<lparr>rt_contention := Some c1\<rparr>))
          else Inr (d, t)
      | None \<Rightarrow> Inr (d, t))"

definition count_mlp :: "rob_config \<Rightarrow> nat \<Rightarrow> 'm rob_timer \<Rightarrow> 'm rob_timer result" where
  "count_mlp cfg i t =
     (let e = rob t ! i; u = re_uop e in
      if \<not> isLoad (m_uop u) then Inr t
      else bindE (isLongLatencyLoad (lll_cutoff cfg) u) (\<lambda>long.
        if \<not> (long \<and> dCacheHitWhere u \<noteq> L1_OWN) then Inr t
        else let now = time_of t; last = max (lastAccountedMemoryCycle t) now; until = max now (re_done e)
             in Inr (t\<lparr>outstandingLongLatencyInsns := outstandingLongLatencyInsns t + (until - now),
                       outstandingLongLatencyCycles := (if until > last then outstandingLongLatencyCycles t + (until - last)
                                                        else outstandingLongLatencyCycles t),
                       lastAccountedMemoryCycle := (if until > last then until else last)\<rparr>)))"

definition issue_exhausted :: "rob_config \<Rightarrow> nat \<Rightarrow> 'm rob_timer \<Rightarrow> bool" where
  "issue_exhausted cfg n t \<longleftrightarrow> (case rt_contention t of Some c \<Rightarrow> rc_noMore c | None \<Rightarrow> n = dispatchWidth cfg)"

fun issue_loop ::
  "decoder \<Rightarrow> 'm memory_access \<Rightarrow> rob_config \<Rightarrow> nat list \<Rightarrow> issue_flags \<Rightarrow> UInt64 \<Rightarrow> 'm rob_timer \<Rightarrow> (UInt64 \<times> 'm rob_timer) result" where
  "issue_loop dec access cfg [] f next_event t = Inr (next_event, t)"
| "issue_loop dec access cfg (i # is) f next_event t =
     (let e = rob t ! i in
      if re_done e \<noteq> MaxTime then issue_loop dec access cfg is f (min next_event (re_done e)) t
      else
        let next_event1 = min next_event (re_ready e); (d, f1, t1) = decide_issue cfg e f t in
        if d = Stop then Inr (next_event1, t1)
        else bindE (try_contention dec d (mop_of e) t1) (\<lambda>(d2, t2).
          if d2 = Issue
          then bindE (issueInstruction access cfg i next_event1 t2) (\<lambda>(next_event2, t3).
               bindE (count_mlp cfg i t3) (\<lambda>t4.
               let f2 = f1\<lparr>num_issued := num_issued f1 + 1\<rparr> in
               if issue_exhausted cfg (num_issued f2) t4 then Inr (next_event2, t4)
               else issue_loop dec access cfg is f2 next_event2 t4))
          else let f2 = f1\<lparr>head_of_queue := False,
                          have_unresolved_store := have_unresolved_store f1 \<or> isStore (mop_of e) \<and> re_addressReady e > time_of t2\<rparr> in
               if inorder cfg \<or> issue_exhausted cfg (num_issued f2) t2 then Inr (next_event1, t2)
               else issue_loop dec access cfg is f2 next_event1 t2))"

definition doIssue :: "decoder \<Rightarrow> 'm memory_access \<Rightarrow> rob_config \<Rightarrow> 'm rob_timer \<Rightarrow> (UInt64 \<times> 'm rob_timer) result" where
  "doIssue dec access cfg t =
     issue_loop dec access cfg [0 ..< unat (num_in_rob t)]
       \<lparr>num_issued = 0, head_of_queue = True, no_more_load = False, no_more_store = False, have_unresolved_store = False\<rparr> MaxTime
       (t\<lparr>rt_contention := map_option (rc_initCycle (time_of t)) (rt_contention t)\<rparr>)"

section \<open>Commit\<close>

fun commit_loop :: "rob_config \<Rightarrow> nat \<Rightarrow> UInt64 \<Rightarrow> rob_entry list \<Rightarrow> UInt64 \<Rightarrow> nat \<times> UInt64" where
  "commit_loop cfg n now [] executed = (n, executed)"
| "commit_loop cfg n now (e # es) executed =
     (if re_done e \<le> now
      then let executed1 = (if du_last (re_uop e) then executed + 1 else executed) in
           if n + 1 = commitWidth cfg then (n + 1, executed1) else commit_loop cfg (n + 1) now es executed1
      else (n, executed))"

definition doCommit :: "rob_config \<Rightarrow> 'm rob_timer \<Rightarrow> UInt64 \<times> UInt64 \<times> 'm rob_timer" where
  "doCommit cfg t =
     (let (n, executed) = commit_loop cfg 0 (time_of t) (rob t) 0; es = drop n (rob t)
      in (executed, if es = [] then MaxTime else re_done (hd es), t\<lparr>rob := es, num_in_rob := num_in_rob t - of_nat n\<rparr>))"

section \<open>A cycle\<close>

abbreviation (input) MAX_OUTSTANDING :: nat where "MAX_OUTSTANDING \<equiv> 32"

definition outstanding_counts :: "'m rob_timer \<Rightarrow> where_t list" where
  "outstanding_counts t =
     map (\<lambda>e. dCacheHitWhere (re_uop e))
       (filter (\<lambda>e. re_done e \<noteq> MaxTime \<and> re_done e > time_of t \<and> isLoad (mop_of e)) (take (unat (num_in_rob t)) (rob t)))"

definition countOutstandingMemop :: "UInt64 \<Rightarrow> 'm rob_timer \<Rightarrow> 'm rob_timer" where
  "countOutstandingMemop time t =
     (let hits = outstanding_counts t; total = length hits in
      t\<lparr>outstandingLoads := (\<lambda>h n. let c = length (filter (\<lambda>x. x = h) hits) in
          if c > 0 \<and> n = min c (MAX_OUTSTANDING - 1) then outstandingLoads t h n + time else outstandingLoads t h n),
        outstandingLoadsAll := (if total > 0
          then (outstandingLoadsAll t)(min total (MAX_OUTSTANDING - 1) := outstandingLoadsAll t (min total (MAX_OUTSTANDING - 1)) + time)
          else outstandingLoadsAll t)\<rparr>)"

definition rt_advance :: "rob_config \<Rightarrow> UInt64 \<Rightarrow> 'm rob_timer \<Rightarrow> UInt64 \<times> 'm rob_timer" where
  "rt_advance cfg next_event t =
     (let period = ct_period (rt_now t); skips = (next_event \<noteq> MaxTime \<and> next_event > later 1 t);
          skip = (if skips then next_event - time_of t else period);
          t1 = t\<lparr>will_skip := skips, rt_now := addLatency skip (rt_now t),
                 time_skipped := (if skip > period then time_skipped t + (skip - period) else time_skipped t)\<rparr>
      in (skip, if mlp_histogram cfg then countOutstandingMemop skip t1 else t1))"

text \<open>\<open>executed\<close> and \<open>latency\<close> are the results that the code returns through its parameters.\<close>

definition execute ::
  "decoder \<Rightarrow> 'm memory_access \<Rightarrow> rob_config \<Rightarrow> 'm rob_timer \<Rightarrow> (UInt64 \<times> UInt64 \<times> 'm rob_timer) result" where
  "execute dec access cfg t =
     (if frontend_stalled_until t \<le> time_of t \<and> length (rob t) < unat (num_in_rob t) + 2 * dispatchWidth cfg
      then Inr (0, 0, t)
      else bindE (doDispatch cfg t) (\<lambda>(next_dispatch, component, t1).
           bindE (doIssue dec access cfg t1) (\<lambda>(next_issue, t2).
           let (executed, next_commit, t3) = doCommit cfg t2;
               (skip, t4) = rt_advance cfg (min next_dispatch (min next_issue next_commit)) t3
           in Inr (executed, skip, t4\<lparr>cpi := (cpi t4)(component := cpi t4 component + skip)\<rparr>))))"

text \<open>The loop of \<^verbatim>\<open>simulate\<close> ends at a cycle that takes no time, and only then.\<close>

partial_function (option) execute_all ::
  "decoder \<Rightarrow> 'm memory_access \<Rightarrow> rob_config \<Rightarrow> UInt64 \<Rightarrow> UInt64 \<Rightarrow> 'm rob_timer \<Rightarrow> (UInt64 \<times> UInt64 \<times> 'm rob_timer) result option" where
  "execute_all dec access cfg insns lat t =
     (case execute dec access cfg t of
        Inl e \<Rightarrow> Some (Inl e)
      | Inr (executed, latency, t1) \<Rightarrow>
          if latency = 0 then Some (Inr (insns + executed, lat + latency, t1))
          else execute_all dec access cfg (insns + executed) (lat + latency) t1)"

definition simulate ::
  "decoder \<Rightarrow> 'm memory_access \<Rightarrow> rob_config \<Rightarrow> dynamic_micro_op list \<Rightarrow> 'm rob_timer \<Rightarrow> (UInt64 \<times> UInt64 \<times> 'm rob_timer) result option" where
  "simulate dec access cfg insts t =
     (case enter_all dec cfg insts t of Inl e \<Rightarrow> Some (Inl e) | Inr t1 \<Rightarrow> execute_all dec access cfg 0 0 t1)"

end
