(* ===== verification/Rob_Timer_Properties.thy ===== *)
theory Rob_Timer_Properties
  imports Rob_Timer
begin

text \<open>
  Properties of the reorder buffer: its bookkeeping (\<open>rob_inv\<close>: consecutive sequence numbers, the window, the entries of the
  reservation stations) is kept by every cycle and by new micro-operations, entries leave in order and once they are done,
  only ready entries issue, and every cycle's time goes to one component of the CPI stack. The proofs look at the buffer
  through \<open>lane\<close>, the sequence number and the completion time of each entry, which most steps leave alone (\<open>frame\<close>).
\<close>

section \<open>What most steps leave alone\<close>

definition lane :: "'m rob_timer \<Rightarrow> (UInt64 \<times> UInt64) list" where
  "lane t = map (\<lambda>e. (seq_of e, re_done e)) (rob t)"

definition frame :: "'m rob_timer \<Rightarrow> 'm rob_timer \<Rightarrow> bool" where
  "frame t t' \<longleftrightarrow> lane t' = lane t \<and> num_in_rob t' = num_in_rob t \<and> rs_entries_used t' = rs_entries_used t \<and>
     nextSequenceNumber t' = nextSequenceNumber t \<and> rt_now t' = rt_now t \<and> cpi t' = cpi t"

lemma frame_refl [simp]: "frame t t"
  by (simp add: frame_def)

lemma frame_trans: "frame t t1 \<Longrightarrow> frame t1 t2 \<Longrightarrow> frame t t2"
  by (simp add: frame_def)

lemma frame_length: "frame t t' \<Longrightarrow> length (rob t') = length (rob t)"
proof -
  assume "frame t t'"
  then have "length (lane t') = length (lane t)" by (simp add: frame_def)
  then show ?thesis by (simp add: lane_def)
qed

lemma lane_nth: "i < length (rob t) \<Longrightarrow> lane t ! i = (seq_of (rob t ! i), re_done (rob t ! i))"
  by (simp add: lane_def)

lemma lane_upd:
  assumes "seq_of (f (rob t ! i)) = seq_of (rob t ! i)"
  shows "lane (upd_entry i f t) = (lane t)[i := (seq_of (rob t ! i), re_done (f (rob t ! i)))]"
  using assms by (simp add: lane_def upd_entry_def map_update)

lemma frame_upd:
  assumes "seq_of (f (rob t ! i)) = seq_of (rob t ! i)" and "re_done (f (rob t ! i)) = re_done (rob t ! i)"
  shows "frame t (upd_entry i f t)"
proof -
  have "lane (upd_entry i f t) = lane t"
    unfolding lane_upd [where f = f and t = t and i = i, OF assms(1)] assms(2)
    by (cases "i < length (rob t)") (simp_all add: lane_nth [symmetric], simp add: list_update_beyond lane_def)
  then show ?thesis by (simp add: frame_def upd_entry_def)
qed

lemma frame_access_memory: "access_memory access i t = Inr t' \<Longrightarrow> frame t t'"
proof -
  assume a: "access_memory access i t = Inr t'"
  have m: "frame t (t\<lparr>rt_memory := m\<rparr>)" for m by (simp add: frame_def lane_def)
  have f: "frame (t\<lparr>rt_memory := m\<rparr>) (upd_entry i (\<lambda>e. e\<lparr>re_uop := (re_uop (rob t ! i))\<lparr>execLatency := l, dCacheHitWhere := h\<rparr>\<rparr>) (t\<lparr>rt_memory := m\<rparr>))" for m l h
    by (rule frame_upd) (simp_all add: seq_of_def)
  show ?thesis
    using a frame_trans [OF m f] by (auto simp: access_memory_def Let_def bindE_def split: prod.splits sum.splits if_splits)
qed

lemma frame_use_queue: "frame t (use_queue i t)"
  by (simp add: use_queue_def frame_def lane_def Let_def)

lemma frame_issue_contention: "issue_contention u t = Inr t' \<Longrightarrow> frame t t'"
  by (auto simp: issue_contention_def frame_def lane_def bindE_def split: option.splits sum.splits)

lemma removeDependency_seq: "removeDependency n u = Inr u' \<Longrightarrow> sequenceNumber u' = sequenceNumber u"
  using removeDependency_removes_one by fastforce

lemma frame_wake_dependant:
  assumes "wake_dependant i seq cd d t = Inr t'" shows "frame t t'"
proof -
  obtain k u where u: "removeDependency seq (re_uop (rob t ! k)) = Inr u"
    and t': "(let t1 = upd_entry k (\<lambda>e. e\<lparr>re_readyMax := max (re_readyMax e) cd, re_uop := u\<rparr>) t;
         t2 = (if getDependenciesLength u = 0 then upd_entry k uop_ready t1 else t1);
         e = rob t2 ! k
     in if isStore (mop_of e) \<and> re_addressReady e = MaxTime
        then bindE (check_address_producers i (re_addressProducers e) t2) (\<lambda>(found, ready).
               let t3 = (if found then upd_entry k (\<lambda>e. e\<lparr>re_addressReadyMax := max (re_addressReadyMax e) cd\<rparr>) t2 else t2)
               in Inr (if ready then upd_entry k (\<lambda>e. e\<lparr>re_addressReady := re_addressReadyMax e\<rparr>) t3 else t3))
        else Inr t2) = Inr t'"
    using assms by (auto simp: wake_dependant_def bindE_def assertE_def split: sum.splits if_splits)
  define t1 where "t1 = upd_entry k (\<lambda>e. e\<lparr>re_readyMax := max (re_readyMax e) cd, re_uop := u\<rparr>) t"
  define t2 where "t2 = (if getDependenciesLength u = 0 then upd_entry k uop_ready t1 else t1)"
  have f1: "frame t t1" unfolding t1_def by (rule frame_upd) (simp_all add: seq_of_def removeDependency_seq [OF u])
  have f2: "frame t1 t2" unfolding t2_def by (simp add: frame_upd uop_ready_def seq_of_def)
  have f3: "frame t2 (if b then upd_entry k (\<lambda>e. e\<lparr>re_addressReadyMax := max (re_addressReadyMax e) cd\<rparr>) t2 else t2)" for b
    by (simp add: frame_upd seq_of_def)
  have f4: "frame s (if b then upd_entry k (\<lambda>e. e\<lparr>re_addressReady := re_addressReadyMax e\<rparr>) s else s)" for s :: "'a rob_timer" and b
    by (simp add: frame_upd seq_of_def)
  note f34 = frame_trans [OF frame_trans [OF f1 f2] frame_trans [OF f3 f4]] and f12 = frame_trans [OF f1 f2]
  show ?thesis
    using t' unfolding t1_def [symmetric] Let_def t2_def [symmetric]
    using f34 f12 by (auto simp: bindE_def split: if_splits sum.splits)
qed

lemma frame_wake_dependants: "wake_dependants i seq cd ds t = Inr t' \<Longrightarrow> frame t t'"
proof (induction ds arbitrary: t)
  case (Cons d ds)
  from Cons.prems obtain t1 where t1: "wake_dependant i seq cd d t = Inr t1" and r: "wake_dependants i seq cd ds t1 = Inr t'"
    by (auto simp: bindE_def split: sum.splits)
  from frame_trans [OF frame_wake_dependant [OF t1] Cons.IH [OF r]] show ?case .
qed simp

lemma frame_decide_issue: "decide_issue cfg e f t = (d, f', t') \<Longrightarrow> frame t t'"
  by (auto simp: decide_issue_def Let_def frame_def lane_def split: if_splits prod.splits)

lemma frame_try_contention: "try_contention dec d u t = Inr (d', t') \<Longrightarrow> frame t t'"
  by (auto simp: try_contention_def frame_def lane_def bindE_def split: option.splits sum.splits if_splits)

lemma frame_count_mlp: "count_mlp cfg i t = Inr t' \<Longrightarrow> frame t t'"
  by (auto simp: count_mlp_def Let_def frame_def lane_def bindE_def split: sum.splits if_splits)

section \<open>The bookkeeping of the buffer\<close>

text \<open>The entries among the first \<open>n\<close> that have not issued.\<close>

definition waiting :: "(UInt64 \<times> UInt64) list \<Rightarrow> nat \<Rightarrow> nat" where
  "waiting ls n = length (filter (\<lambda>(s, d). d = MaxTime) (take n ls))"

definition lane_inv :: "rob_config \<Rightarrow> (UInt64 \<times> UInt64) list \<Rightarrow> nat \<Rightarrow> UInt64 \<Rightarrow> UInt64 \<Rightarrow> bool" where
  "lane_inv cfg ls n rs nxt \<longleftrightarrow>
     n \<le> length ls \<and> n \<le> windowSize cfg \<and> length ls \<le> windowSize cfg + 255 \<and>
     (\<forall>i < length ls. fst (ls ! i) = nxt - of_nat (length ls) + of_nat i) \<and>
     (\<forall>i < length ls. n \<le> i \<longrightarrow> snd (ls ! i) = MaxTime) \<and>
     unat rs = waiting ls n \<and> rs \<le> rsEntries cfg"

definition rob_inv :: "rob_config \<Rightarrow> 'm rob_timer \<Rightarrow> bool" where
  "rob_inv cfg t \<longleftrightarrow> lane_inv cfg (lane t) (unat (num_in_rob t)) (rs_entries_used t) (nextSequenceNumber t)"

lemma rob_inv_frame: "frame t t' \<Longrightarrow> rob_inv cfg t' = rob_inv cfg t"
  by (simp add: frame_def rob_inv_def)

lemma rob_inv_initial: "rob_inv cfg (RobTimer cfg c period l s m)"
  by (simp add: rob_inv_def lane_inv_def lane_def RobTimer_def waiting_def)

lemma waiting_issue:
  assumes "i < n" and "n \<le> length ls" and "snd (ls ! i) = MaxTime" and "d \<noteq> MaxTime"
  shows "waiting ls n = Suc (waiting (ls[i := (s, d)]) n)"
proof -
  let ?xs = "take n ls"
  have i: "i < length ?xs" "snd (?xs ! i) = MaxTime" using assms by simp_all
  obtain a y b where x: "?xs = a @ y # b" and y: "y = ?xs ! i" and a: "length a = i"
    using id_take_nth_drop [OF i(1)] i(1) by (metis length_take min.absorb4)
  have "take n (ls[i := (s, d)]) = a @ (s, d) # b"
    unfolding take_update_swap x a [symmetric] by simp
  moreover have "snd y = MaxTime" using y i(2) by simp
  ultimately show ?thesis using assms(4) by (simp add: waiting_def case_prod_beta x)
qed

lemma waiting_dispatch: "n < length ls \<Longrightarrow> snd (ls ! n) = MaxTime \<Longrightarrow> waiting ls (Suc n) = Suc (waiting ls n)"
  by (simp add: waiting_def take_Suc_conv_app_nth case_prod_beta)

lemma waiting_commit:
  assumes "c \<le> n" and "\<forall>i < c. snd (ls ! i) \<noteq> MaxTime" and "n \<le> length ls"
  shows "waiting (drop c ls) (n - c) = waiting ls n"
proof -
  have "take n ls = take c ls @ take (n - c) (drop c ls)" using assms(1) by (metis le_add_diff_inverse take_add)
  moreover have "filter (\<lambda>(s, d). d = MaxTime) (take c ls) = []"
    using assms by (force simp: filter_empty_conv in_set_conv_nth case_prod_beta)
  ultimately show ?thesis by (simp add: waiting_def)
qed

lemma lane_inv_issue:
  assumes "lane_inv cfg ls n rs nxt" and "i < n" and "snd (ls ! i) = MaxTime" and "d \<noteq> MaxTime" and "s = fst (ls ! i)"
  shows "lane_inv cfg (ls[i := (s, d)]) n (rs - 1) nxt"
proof -
  have w: "waiting ls n = Suc (waiting (ls[i := (s, d)]) n)"
    using assms by (intro waiting_issue) (auto simp: lane_inv_def)
  then have "rs \<noteq> 0" using assms(1) by (auto simp: lane_inv_def)
  then have "unat (rs - 1) = unat rs - 1" and "rs - 1 \<le> rs" by (simp_all add: unat_minus_one word_le_nat_alt)
  then show ?thesis using assms w by (auto simp: lane_inv_def nth_list_update)
qed

lemma lane_inv_dispatch:
  assumes "lane_inv cfg ls n rs nxt" and "n < length ls" and "n < windowSize cfg" and "rs \<noteq> rsEntries cfg"
  shows "lane_inv cfg ls (Suc n) (rs + 1) nxt"
proof -
  have "rs < rsEntries cfg" using assms by (auto simp: lane_inv_def)
  then have "unat rs + 1 < 2 ^ 64" using unsigned_less [where w = "rsEntries cfg" and 'a = nat] by (simp add: word_less_nat_alt)
  then have "unat (rs + 1) = unat rs + 1" by (simp add: unat_word_ariths)
  moreover have "rs + 1 \<le> rsEntries cfg" using \<open>rs < rsEntries cfg\<close> by (rule inc_le)
  ultimately have "unat (rs + 1) = unat rs + 1" and "rs + 1 \<le> rsEntries cfg" by simp_all
  then show ?thesis using assms by (auto simp: lane_inv_def waiting_dispatch)
qed

lemma lane_inv_commit:
  assumes "lane_inv cfg ls n rs nxt" and "c \<le> length ls" and "\<forall>i < c. snd (ls ! i) \<noteq> MaxTime"
  shows "c \<le> n" and "lane_inv cfg (drop c ls) (n - c) rs nxt"
proof -
  show c: "c \<le> n"
  proof (rule ccontr)
    assume "\<not> c \<le> n"
    then have "n < c" "n < length ls" using assms(2) by auto
    with assms show False by (auto simp: lane_inv_def)
  qed
  then show "lane_inv cfg (drop c ls) (n - c) rs nxt"
    using assms waiting_commit [of c n ls] by (auto simp: lane_inv_def of_nat_diff algebra_simps)
qed

lemma lane_inv_enter:
  assumes "lane_inv cfg ls n rs nxt" and "length ls < windowSize cfg + 255"
  shows "lane_inv cfg (ls @ [(nxt, MaxTime)]) n rs (nxt + 1)"
proof -
  have "\<not> i < length ls \<Longrightarrow> i < Suc (length ls) \<longleftrightarrow> i = length ls" for i by auto
  then show ?thesis using assms by (auto simp: lane_inv_def nth_append waiting_def less_Suc_eq)
qed

section \<open>Every cycle keeps it\<close>

text \<open>
  Times stay clear of \<open>MaxTime\<close>: the latency of a micro-operation has 32 bits, so a clock period below \<open>2 ^ 30\<close> units and a
  time below \<open>2 ^ 62\<close> are enough. The unit is ten femtoseconds, so the bounds allow clocks from 100 kHz and runs of twelve hours.
\<close>

definition times_fit :: "'m rob_timer \<Rightarrow> bool" where
  "times_fit t \<longleftrightarrow> 0 < ct_period (rt_now t) \<and> ct_period (rt_now t) < 2 ^ 30 \<and> time_of t < 2 ^ 62"

lemma later_fits:
  assumes "times_fit t" and "n < 2 ^ 32"
  shows "later n t \<noteq> MaxTime" and "later n t + ct_period (rt_now t) \<noteq> MaxTime"
proof -
  let ?p = "ct_period (rt_now t)"
  have p: "unat ?p < 2 ^ 30" and now: "unat (time_of t) < 2 ^ 62" using assms(1) by (simp_all add: times_fit_def word_less_nat_alt)
  have n: "unat n < 2 ^ 32" using assms(2) by (simp add: word_less_nat_alt)
  have le: "unat ?p * unat n \<le> 2 ^ 30 * 2 ^ 32" by (rule mult_le_mono) (use p n in simp_all)
  then have m: "unat (?p * n) = unat ?p * unat n" by (intro unat_mult_small) simp
  have l: "unat (later n t) = unat (time_of t) + unat ?p * unat n"
    using now le m by (simp add: later_def addCycleLatency_def time_of_def unat_word_ariths)
  have l2: "unat (later n t + ?p) = unat (time_of t) + unat ?p * unat n + unat ?p"
    using now le l p by (simp add: unat_word_ariths)
  have top: "x \<noteq> MaxTime" if "unat x < 2 ^ 64 - 1" for x
    using that by (auto simp: unsigned_minus_1_eq_mask mask_eq_exp_minus_1)
  have sum: "a + k + b < 2 ^ 64 - 1" if "a < 2 ^ 62" "k \<le> 2 ^ 30 * 2 ^ 32" "b < 2 ^ 30" for a k b :: nat using that by simp
  show "later n t \<noteq> MaxTime" by (rule top) (use sum [OF now le, of 0] l in simp)
  show "later n t + ?p \<noteq> MaxTime" by (rule top) (use sum [OF now le p] l2 in simp)
qed

definition issued_at :: "nat \<Rightarrow> 'm rob_timer \<Rightarrow> 'm rob_timer \<Rightarrow> bool" where
  "issued_at i t t' \<longleftrightarrow>
     (\<exists>d. d \<noteq> MaxTime \<and> lane t' = (lane t)[i := (seq_of (rob t ! i), d)]) \<and> num_in_rob t' = num_in_rob t \<and>
     rs_entries_used t' = rs_entries_used t - 1 \<and> nextSequenceNumber t' = nextSequenceNumber t \<and> rt_now t' = rt_now t \<and> cpi t' = cpi t"

lemma frame_seq: "frame t t' \<Longrightarrow> i < length (rob t) \<Longrightarrow> seq_of (rob t' ! i) = seq_of (rob t ! i)"
  using lane_nth [of i t] lane_nth [of i t'] frame_length [of t t'] by (simp add: frame_def)

lemma frame_issued_at: "frame t t1 \<Longrightarrow> i < length (rob t) \<Longrightarrow> issued_at i t1 t2 \<Longrightarrow> issued_at i t t2"
  unfolding issued_at_def using frame_seq [of t t1 i] by (simp add: frame_def)

lemma issued_at_frame: "issued_at i t t1 \<Longrightarrow> frame t1 t2 \<Longrightarrow> issued_at i t t2"
  unfolding issued_at_def by (simp add: frame_def)

lemma frame_stalled [simp]: "frame t (t\<lparr>frontend_stalled_until := x\<rparr>)"
  by (simp add: frame_def lane_def)

lemma frame_store_done [simp]: "frame t (t\<lparr>last_store_done := x\<rparr>)"
  by (simp add: frame_def lane_def)

lemma ucast_32_less: "(ucast (x :: UInt32) :: UInt64) < 2 ^ 32"
proof -
  have "unat (ucast x :: UInt64) = unat x" by (simp add: unsigned_ucast_eq take_bit_nat_eq_self unsigned_less [THEN order.strict_trans])
  then show ?thesis using unsigned_less [of x, where 'a = nat] by (simp add: word_less_nat_alt)
qed

lemma issueInstruction_issued:
  assumes "issueInstruction access cfg i next_event t = Inr (next_event', t')" and "times_fit t" and "i < length (rob t)"
  shows "issued_at i t t'"
proof -
  obtain t1 where a: "access_memory access i t = Inr t1" using assms(1) unfolding issueInstruction_def by blast
  define t2 where "t2 = use_queue i t1"
  define u where "u = re_uop (rob t2 ! i)"
  define done0 where "done0 = later (ucast (execLatency u)) t2 + ct_period (rt_now t2)"
  define td where "td = (if isStore (m_uop u) then later 1 t2 else done0)"
  define ts where "ts = (if isStore (m_uop u) then t2\<lparr>last_store_done := max (last_store_done t2) done0\<rparr> else t2)"
  have ft2: "frame t t2" unfolding t2_def by (rule frame_trans [OF frame_access_memory [OF a] frame_use_queue])
  have fts: "frame t2 ts" by (simp add: ts_def)
  note rest = assms(1) [unfolded issueInstruction_def a bindE_simps Let_def, folded t2_def, folded u_def, folded done0_def, folded ts_def td_def]
  have ok: "\<not> isStore (m_uop u) \<or> re_addressReady (rob t2 ! i) \<le> re_ready (rob t2 ! i)"
    by (rule ccontr) (use rest in auto)
  note rest = rest [unfolded bindE_assertE if_P [OF ok]]
  from rest obtain t3 where c: "issue_contention (m_uop u) ts = Inr t3" by blast
  define t4 where "t4 = (upd_entry i (\<lambda>e. e\<lparr>re_issued := time_of t, re_done := td\<rparr>) t3)\<lparr>rs_entries_used := rs_entries_used t3 - 1\<rparr>"
  note rest = rest [unfolded c bindE_simps, folded t4_def]
  from rest obtain cd t5 where w: "wake_dependants i (sequenceNumber u) cd (re_dependants (rob t2 ! i)) t4 = Inr t5"
    and t': "t' = (if mo_branch (m_uop u) \<and> branchMispredicted u then t5\<lparr>frontend_stalled_until := later (misprediction_penalty cfg - 2) t5\<rparr> else t5)"
    by (auto simp only: sum.inject prod.inject elim!: bindE_eq_InrE)
  have ft3: "frame t t3" by (rule frame_trans [OF frame_trans [OF ft2 fts] frame_issue_contention [OF c]])
  have fits: "times_fit t2" using assms(2) ft2 by (simp add: times_fit_def frame_def time_of_def)
  have "td \<noteq> MaxTime" unfolding td_def done0_def using later_fits(1) [OF fits, of 1] later_fits(2) [OF fits ucast_32_less, of "execLatency u"]
    by simp
  then have "issued_at i t3 t4"
    by (auto simp: issued_at_def t4_def lane_upd seq_of_def lane_def upd_entry_def map_update)
  then have "issued_at i t t4" using frame_issued_at [OF ft3 assms(3)] by blast
  moreover have "frame t4 t'" using frame_wake_dependants [OF w] unfolding t' by (simp add: frame_def lane_def)
  ultimately show ?thesis by (rule issued_at_frame)
qed

lemma frame_invs:
  assumes "frame t t'"
  shows "rob_inv cfg t' = rob_inv cfg t" and "times_fit t' = times_fit t" and "num_in_rob t' = num_in_rob t" and "rt_now t' = rt_now t \<and> cpi t' = cpi t"
  using assms by (simp_all add: rob_inv_frame times_fit_def time_of_def) (auto simp: frame_def)

lemma issued_at_inv:
  assumes "issued_at i t t'" and "rob_inv cfg t" and "i < unat (num_in_rob t)" and "re_done (rob t ! i) = MaxTime"
  shows "rob_inv cfg t'" and "times_fit t' = times_fit t" and "num_in_rob t' = num_in_rob t" and "rt_now t' = rt_now t \<and> cpi t' = cpi t"
proof -
  have len: "i < length (rob t)" using assms(2,3) by (simp add: rob_inv_def lane_inv_def lane_def)
  from assms(1) obtain d where d: "d \<noteq> MaxTime" "lane t' = (lane t)[i := (seq_of (rob t ! i), d)]" unfolding issued_at_def by blast
  have "lane_inv cfg ((lane t)[i := (seq_of (rob t ! i), d)]) (unat (num_in_rob t)) (rs_entries_used t - 1) (nextSequenceNumber t)"
    by (rule lane_inv_issue) (use assms d len in \<open>simp_all add: rob_inv_def lane_nth\<close>)
  then show "rob_inv cfg t'" using assms(1) d by (simp add: rob_inv_def issued_at_def)
qed (use assms(1) in \<open>simp_all add: issued_at_def times_fit_def time_of_def\<close>)

definition step_ok :: "rob_config \<Rightarrow> 'm rob_timer \<Rightarrow> 'm rob_timer \<Rightarrow> bool" where
  "step_ok cfg t t' \<longleftrightarrow> (rob_inv cfg t \<and> times_fit t \<longrightarrow> rob_inv cfg t' \<and> num_in_rob t' = num_in_rob t \<and> rt_now t' = rt_now t \<and> cpi t' = cpi t)"

lemma step_ok_frame: "frame t t1 \<Longrightarrow> step_ok cfg t1 t' \<Longrightarrow> step_ok cfg t t'"
  using frame_invs(1) [of t t1 cfg] frame_invs(2-4) [of t t1] by (simp add: step_ok_def)

lemma issue_loop_ok:
  "issue_loop dec access cfg is f next_event t = Inr (next_event', t') \<Longrightarrow> (\<forall>i \<in> set is. i < unat (num_in_rob t)) \<Longrightarrow> step_ok cfg t t'"
proof (induction dec access cfg "is" f next_event t arbitrary: next_event' t' rule: issue_loop.induct)
  case (1 dec access cfg f next_event t)
  then show ?case by (simp add: step_ok_def)
next
  case (2 dec access cfg i "is" f next_event t)
  let ?e = "rob t ! i"
  show ?case
  proof (cases "re_done ?e \<noteq> MaxTime")
    case True
    with 2 show ?thesis by (auto simp: Let_def)
  next
    case nd: False
    obtain d f1 t1 where dec: "decide_issue cfg ?e f t = (d, f1, t1)" by (metis prod_cases3)
    note f1 = frame_decide_issue [OF dec]
    show ?thesis
    proof (cases "d = Stop")
      case True
      with "2.prems"(1) nd dec have "t' = t1" by (simp add: Let_def)
      with step_ok_frame [OF f1, of cfg t1] show ?thesis by (simp add: step_ok_def)
    next
      case ns: False
      note run = "2.prems"(1) [unfolded issue_loop.simps Let_def dec prod.case if_not_P [OF nd] if_not_P [OF ns]]
      from run obtain d2 t2 where c: "try_contention dec d (mop_of ?e) t1 = Inr (d2, t2)" by (auto elim!: bindE_eq_InrE)
      note f2 = frame_trans [OF f1 frame_try_contention [OF c]]
      show ?thesis
      proof (cases "d2 = Issue")
        case False
        let ?f2 = "f1\<lparr>head_of_queue := False, have_unresolved_store := have_unresolved_store f1 \<or> isStore (mop_of ?e) \<and> re_addressReady ?e > time_of t2\<rparr>"
        have "step_ok cfg t2 t'"
        proof (cases "inorder cfg \<or> issue_exhausted cfg (num_issued ?f2) t2")
          case True
          with run c False show ?thesis by (simp add: Let_def step_ok_def)
        next
          case go: False
          with run c False have "issue_loop dec access cfg is ?f2 (min next_event (re_ready ?e)) t2 = Inr (next_event', t')" by (simp add: Let_def)
          moreover have "\<forall>j \<in> set is. j < unat (num_in_rob t2)" using "2.prems"(2) f2 by (simp add: frame_def)
          ultimately show ?thesis
            using "2.IH"(3) [OF refl nd refl refl dec [symmetric] refl ns False refl go] by blast
        qed
        with step_ok_frame [OF f2] show ?thesis by blast
      next
        case True
        let ?f2 = "f1\<lparr>num_issued := num_issued f1 + 1\<rparr>"
        from run c True obtain ne2 t3 where iss: "issueInstruction access cfg i (min next_event (re_ready ?e)) t2 = Inr (ne2, t3)"
          by (auto simp: Let_def elim!: bindE_eq_InrE)
        with run c True obtain t4 where mlp: "count_mlp cfg i t3 = Inr t4"
          and rest: "(if issue_exhausted cfg (num_issued ?f2) t4 then Inr (ne2, t4) else issue_loop dec access cfg is ?f2 ne2 t4) = Inr (next_event', t')"
          by (auto simp: Let_def elim!: bindE_eq_InrE)
        note f4 = frame_count_mlp [OF mlp]
        have "step_ok cfg t2 t'"
          unfolding step_ok_def
        proof (intro impI, elim conjE)
          assume inv: "rob_inv cfg t2" and fit: "times_fit t2"
          have i: "i < unat (num_in_rob t2)" using "2.prems"(2) f2 by (simp add: frame_def)
          then have len: "i < length (rob t2)" using inv by (simp add: rob_inv_def lane_inv_def lane_def)
          have nd2: "re_done (rob t2 ! i) = MaxTime"
            using nd len frame_length [OF f2] f2 lane_nth [of i t] lane_nth [of i t2] by (simp add: frame_def)
          note is3 = issueInstruction_issued [OF iss fit len]
          note inv3 = issued_at_inv [OF is3 inv i nd2]
          have inv4: "rob_inv cfg t4" "times_fit t4" "num_in_rob t4 = num_in_rob t2" "rt_now t4 = rt_now t2 \<and> cpi t4 = cpi t2"
            using inv3 fit frame_invs(1) [OF f4, of cfg] frame_invs(2-4) [OF f4] by simp_all
          show "rob_inv cfg t' \<and> num_in_rob t' = num_in_rob t2 \<and> rt_now t' = rt_now t2 \<and> cpi t' = cpi t2"
          proof (cases "issue_exhausted cfg (num_issued ?f2) t4")
            case True
            with rest inv4 show ?thesis by simp
          next
            case go: False
            have "step_ok cfg t4 t'"
              by (rule "2.IH"(2) [OF refl nd refl refl dec [symmetric] refl ns True refl go])
                 (use rest go "2.prems"(2) f2 inv4(3) in \<open>simp_all add: frame_def\<close>)
            with inv4 show ?thesis by (simp add: step_ok_def)
          qed
        qed
        with step_ok_frame [OF f2] show ?thesis by blast
      qed
    qed
  qed
qed

lemma dispatch_entry_inv:
  assumes "rob_inv cfg t" and "unat (num_in_rob t) < length (rob t)" and "unat (num_in_rob t) < windowSize cfg"
    and "windowSize cfg < 2 ^ 64" and "rs_entries_used t \<noteq> rsEntries cfg"
  shows "rob_inv cfg (dispatch_entry t (unat (num_in_rob t)))" and "rt_now (dispatch_entry t (unat (num_in_rob t))) = rt_now t \<and> cpi (dispatch_entry t (unat (num_in_rob t))) = cpi t"
    and "unat (num_in_rob (dispatch_entry t (unat (num_in_rob t)))) = Suc (unat (num_in_rob t))"
proof -
  let ?n = "unat (num_in_rob t)" and ?t = "dispatch_entry t (unat (num_in_rob t))"
  have "unat (num_in_rob t + 1) = Suc ?n" using assms(3,4) by (simp add: unat_word_ariths)
  then show n: "unat (num_in_rob ?t) = Suc ?n" by (simp add: dispatch_entry_def upd_entry_def)
  have "frame t (upd_entry ?n (\<lambda>e. e\<lparr>re_dispatched := time_of t, re_ready := max (re_ready e) (later 1 t)\<rparr>) t)"
    by (rule frame_upd) (simp_all add: seq_of_def)
  then have "lane ?t = lane t" by (simp add: dispatch_entry_def frame_def lane_def)
  moreover have "lane_inv cfg (lane t) (Suc ?n) (rs_entries_used t + 1) (nextSequenceNumber t)"
    by (rule lane_inv_dispatch) (use assms in \<open>simp_all add: rob_inv_def lane_def\<close>)
  ultimately show "rob_inv cfg ?t" unfolding rob_inv_def n by (simp add: dispatch_entry_def upd_entry_def)
qed (simp add: dispatch_entry_def upd_entry_def)

lemma frame_icache [simp]: "frame t (t\<lparr>in_icache_miss := x\<rparr>)" "frame t (t\<lparr>frontend_stalled_until := y, in_icache_miss := x\<rparr>)"
  by (simp_all add: frame_def lane_def)

lemma dispatch_loop_ok:
  "dispatch_loop k cfg n next_event t = Inr (next_event', c, t') \<Longrightarrow> rob_inv cfg t \<Longrightarrow> windowSize cfg < 2 ^ 64 \<Longrightarrow>
   k = windowSize cfg - unat (num_in_rob t) \<Longrightarrow> rob_inv cfg t' \<and> rt_now t' = rt_now t \<and> cpi t' = cpi t"
proof (induction k arbitrary: n next_event t)
  case (Suc k)
  let ?i = "unat (num_in_rob t)"
  define t1 where "t1 = (if iCacheHitWhere (re_uop (rob t ! ?i)) \<noteq> L1I then t\<lparr>in_icache_miss := False\<rparr> else t)"
  have f: "frame t t1" by (simp add: t1_def)

  have k: "k = windowSize cfg - Suc ?i" "?i < windowSize cfg" using Suc.prems(4) by auto
  have len: "?i < length (rob t)" using Suc.prems(1) by (auto simp: Let_def split: if_splits)
  show ?case
  proof (cases "n = dispatchWidth cfg \<or> iCacheHitWhere (re_uop (rob t ! ?i)) \<noteq> L1I \<and> \<not> in_icache_miss t \<or> rs_entries_used t1 = rsEntries cfg")
    case True
    with Suc.prems(1) len have "frame t t'"
      unfolding dispatch_loop.simps Let_def by (auto simp: t1_def split: if_split_asm)
    with Suc.prems(2) show ?thesis using frame_invs(1) [of t t' cfg] frame_invs(4) [of t t'] by simp
  next
    case False
    define t2 where "t2 = dispatch_entry t1 ?i"
    have d: "rob_inv cfg t2" "rt_now t2 = rt_now t \<and> cpi t2 = cpi t" "unat (num_in_rob t2) = Suc ?i"
      using dispatch_entry_inv [of cfg t1] False Suc.prems(2,3) f k(2) len frame_length [OF f] frame_invs(1) [OF f, of cfg]
      by (simp_all add: t2_def frame_def)
    from False have nA: "\<not> n = dispatchWidth cfg" and nB: "\<not> (iCacheHitWhere (re_uop (rob t ! ?i)) \<noteq> L1I \<and> \<not> in_icache_miss t)"
      and nC: "\<not> rs_entries_used t1 = rsEntries cfg" by blast+
    note run = Suc.prems(1) [unfolded dispatch_loop.simps Let_def bindE_assertE if_P [OF len] if_not_P [OF nA] if_not_P [OF nB],
        folded t1_def, unfolded if_not_P [OF nC], folded t2_def]
    show ?thesis
    proof (cases "mo_branch (m_uop (re_uop (rob t ! ?i))) \<and> branchMispredicted (re_uop (rob t ! ?i))")
      case True
      have "t' = t2\<lparr>frontend_stalled_until := MaxTime\<rparr>" using run [unfolded if_P [OF True]] by simp
      with d show ?thesis using frame_invs(1) [OF frame_stalled [of t2 MaxTime], of cfg] by simp
    next
      case go: False
      from run [unfolded if_not_P [OF go]] obtain ne where "dispatch_loop k cfg (n + 1) ne t2 = Inr (next_event', c, t')" by blast
      from Suc.IH [OF this d(1) Suc.prems(3)] d k show ?thesis by simp
    qed
  qed
qed simp

lemma doDispatch_ok:
  assumes "doDispatch cfg t = Inr (next_event, c, t')" and "rob_inv cfg t" and "windowSize cfg < 2 ^ 64"
  shows "rob_inv cfg t' \<and> rt_now t' = rt_now t \<and> cpi t' = cpi t"
proof (cases "frontend_stalled_until t \<le> time_of t")
  case True
  with assms(1) obtain ne c1 t1 where l: "dispatch_loop (windowSize cfg - unat (num_in_rob t)) cfg 0 MaxTime t = Inr (ne, c1, t1)"
    and t': "t' = t1\<lparr>cpiCurrentFrontEndStall := c1\<rparr>"
    by (auto simp: doDispatch_def)
  have "frame t1 t'" by (simp add: t' frame_def lane_def)
  with dispatch_loop_ok [OF l assms(2,3) refl] show ?thesis using frame_invs(1) [of t1 t' cfg] frame_invs(4) [of t1 t'] by simp
next
  case False
  with assms(1,2) show ?thesis by (auto simp: doDispatch_def)
qed

section \<open>Commit\<close>

lemma commit_loop_prefix:
  "commit_loop cfg n now es ex = (n', ex') \<Longrightarrow>
   n \<le> n' \<and> n' - n \<le> length es \<and> (\<forall>e \<in> set (take (n' - n) es). re_done e \<le> now) \<and>
   ex' = ex + of_nat (length (filter (\<lambda>e. du_last (re_uop e)) (take (n' - n) es))) \<and>
   (n < commitWidth cfg \<longrightarrow> n' \<le> commitWidth cfg) \<and>
   (n' - n < length es \<longrightarrow> n' = commitWidth cfg \<or> re_done (es ! (n' - n)) > now)"
proof (induction cfg n now es ex arbitrary: n' ex' rule: commit_loop.induct)
  case (2 cfg n now e es executed)
  show ?case
  proof (cases "re_done e \<le> now \<and> n + 1 \<noteq> commitWidth cfg")
    case True
    with "2.prems" have r: "commit_loop cfg (n + 1) now es (if du_last (re_uop e) then executed + 1 else executed) = (n', ex')"
      by (simp add: Let_def)
    have ih: "n + 1 \<le> n' \<and> n' - (n + 1) \<le> length es \<and> (\<forall>e \<in> set (take (n' - (n + 1)) es). re_done e \<le> now) \<and>
      ex' = (if du_last (re_uop e) then executed + 1 else executed) + of_nat (length (filter (\<lambda>e. du_last (re_uop e)) (take (n' - (n + 1)) es))) \<and>
      (n + 1 < commitWidth cfg \<longrightarrow> n' \<le> commitWidth cfg) \<and>
      (n' - (n + 1) < length es \<longrightarrow> n' = commitWidth cfg \<or> re_done (es ! (n' - (n + 1))) > now)"
      by (rule "2.IH") (use True r in simp_all)
    then have "n + 1 \<le> n'" by blast
    then have "n' - n = Suc (n' - (n + 1))" by arith
    with ih True show ?thesis by auto
  next
    case False
    with "2.prems" show ?thesis by (auto simp: Let_def split: if_splits)
  qed
qed simp

text \<open>
  Commit takes entries from the head, in order and no more than the commit width, each of them done; it stops at the width, at an
  entry that is not done or at the end. It counts the entries that end an instruction.
\<close>

theorem commit_in_order:
  assumes "doCommit cfg t = (executed, next_commit, t')"
  shows "\<exists>es. rob t = es @ rob t' \<and> (\<forall>e \<in> set es. re_done e \<le> time_of t) \<and> (0 < commitWidth cfg \<longrightarrow> length es \<le> commitWidth cfg)
     \<and> executed = of_nat (length (filter (\<lambda>e. du_last (re_uop e)) es))
     \<and> (rob t' = [] \<or> length es = commitWidth cfg \<or> re_done (hd (rob t')) > time_of t)
     \<and> num_in_rob t' = num_in_rob t - of_nat (length es)"
proof -
  obtain n where l: "commit_loop cfg 0 (time_of t) (rob t) 0 = (n, executed)" and t': "t' = t\<lparr>rob := drop n (rob t), num_in_rob := num_in_rob t - of_nat n\<rparr>"
    using assms by (auto simp: doCommit_def Let_def split: prod.splits)
  note p = commit_loop_prefix [OF l]
  have "rob t' \<noteq> [] \<Longrightarrow> hd (rob t') = rob t ! n" by (simp add: t' hd_drop_conv_nth)
  with p show ?thesis by (intro exI [of _ "take n (rob t)"]) (auto simp: t')
qed

lemma doCommit_ok:
  assumes "doCommit cfg t = (executed, next_commit, t')" and "rob_inv cfg t" and "times_fit t"
  shows "rob_inv cfg t'" and "rt_now t' = rt_now t \<and> cpi t' = cpi t"
proof -
  obtain n where l: "commit_loop cfg 0 (time_of t) (rob t) 0 = (n, executed)" and t': "t' = t\<lparr>rob := drop n (rob t), num_in_rob := num_in_rob t - of_nat n\<rparr>"
    using assms(1) by (auto simp: doCommit_def Let_def split: prod.splits)
  note p = commit_loop_prefix [OF l]
  have max: "\<not> MaxTime \<le> time_of t" using assms(3) by (auto simp: times_fit_def word_le_nat_alt word_less_nat_alt unsigned_minus_1_eq_mask mask_eq_exp_minus_1)
  have "re_done (rob t ! i) \<le> time_of t" if "i < n" for i
  proof -
    have "take n (rob t) ! i \<in> set (take n (rob t))" using p that by (intro nth_mem) simp
    with p that show ?thesis by simp
  qed
  then have "re_done (rob t ! i) \<noteq> MaxTime" if "i < n" for i using that max by metis
  then have nd: "\<forall>i < n. snd (lane t ! i) \<noteq> MaxTime" using p by (simp add: lane_nth)
  have nl: "n \<le> length (lane t)" using p by (simp add: lane_def)
  note c = lane_inv_commit [OF assms(2) [unfolded rob_inv_def] nl nd]
  have "of_nat n \<le> num_in_rob t" using c(1) by (simp add: word_le_nat_alt of_nat_inverse le_unat_uoi)
  moreover have "unat (of_nat n :: UInt64) = n" using c(1) unsigned_less [of "num_in_rob t", where 'a = nat] by (simp add: unat_of_nat)
  ultimately have "unat (num_in_rob t - of_nat n) = unat (num_in_rob t) - n" by (simp add: unat_sub)
  then show "rob_inv cfg t'" using c(2) by (simp add: rob_inv_def t' lane_def drop_map)
qed (use assms(1) in \<open>auto simp: doCommit_def Let_def split: prod.splits\<close>)

section \<open>A cycle\<close>

lemma doIssue_ok:
  assumes "doIssue dec access cfg t = Inr (next_issue, t')" and "rob_inv cfg t" and "times_fit t"
  shows "rob_inv cfg t' \<and> rt_now t' = rt_now t \<and> cpi t' = cpi t"
proof -
  let ?t = "t\<lparr>rt_contention := map_option (rc_initCycle (time_of t)) (rt_contention t)\<rparr>"
  have f: "frame t ?t" by (simp add: frame_def lane_def)
  have "step_ok cfg ?t t'"
    by (rule issue_loop_ok [OF assms(1) [unfolded doIssue_def]]) simp
  from step_ok_frame [OF f this] assms(2,3) show ?thesis by (simp add: step_ok_def)
qed

lemma rt_advance_ok:
  assumes "rt_advance cfg next_event t = (skip, t')"
  shows "rob_inv cfg t' = rob_inv cfg t" and "time_of t' = time_of t + skip" and "cpi t' = cpi t" and "ct_period (rt_now t') = ct_period (rt_now t)"
  using assms by (auto simp: rt_advance_def Let_def countOutstandingMemop_def rob_inv_def lane_def time_of_def addLatency_def split: if_splits)

text \<open>
  C21: A cycle of the out-of-order core keeps the bookkeeping of its reorder buffer: the sequence numbers of the entries are
  consecutive and end before the next one to be given out, at most \<^verbatim>\<open>windowSize\<close> entries are in the window, those
  behind it have not issued, and the counter of occupied reservation stations is the number of entries in the window that have
  not issued and stays within \<^verbatim>\<open>rsEntries\<close>. The clock moves by just the latency the cycle returns, and just this time is
  charged to a single component of the CPI stack, so nothing is lost or counted twice. The conditions are that the times are
  far from the end of their range (a period below 2^30 fs, a clock below 2^62 fs, \<open>times_fit\<close>) and that the cycle
  runs into no assertion.
\<close>

theorem cycle_keeps_rob_inv:
  assumes "execute dec access cfg t = Inr (executed, latency, t')"
    and "rob_inv cfg t" and "times_fit t" and "windowSize cfg < 2 ^ 64"
  shows "rob_inv cfg t' \<and> time_of t' = time_of t + latency \<and> (\<exists>c. cpi t' = (cpi t)(c := cpi t c + latency))"
proof (cases "frontend_stalled_until t \<le> time_of t \<and> length (rob t) < unat (num_in_rob t) + 2 * dispatchWidth cfg")
  case True
  with assms(1,2) show ?thesis by (auto simp: execute_def intro: exI [of _ CpiBase])
next
  case False
  note run = assms(1) [unfolded execute_def if_not_P [OF False]]
  from run obtain nd c t1 where d: "doDispatch cfg t = Inr (nd, c, t1)" by auto
  note run = run [unfolded d bindE_simps prod.case]
  from run obtain ni t2 where i: "doIssue dec access cfg t1 = Inr (ni, t2)" by auto
  obtain ex nc t3 where cm: "doCommit cfg t2 = (ex, nc, t3)" by (metis prod_cases3)
  obtain skip t4 where a: "rt_advance cfg (min nd (min ni nc)) t3 = (skip, t4)" by force
  note run = run [unfolded i bindE_simps prod.case Let_def cm a]
  from run have t': "t' = t4\<lparr>cpi := (cpi t4)(c := cpi t4 c + skip)\<rparr>" and lat: "latency = skip" by blast+
  have 1: "rob_inv cfg t1" "rt_now t1 = rt_now t" "cpi t1 = cpi t" using doDispatch_ok [OF d assms(2,4)] by simp_all
  then have f1: "times_fit t1" using assms(3) by (simp add: times_fit_def time_of_def)
  have 2: "rob_inv cfg t2" "rt_now t2 = rt_now t" "cpi t2 = cpi t" using doIssue_ok [OF i 1(1) f1] 1 by simp_all
  then have f2: "times_fit t2" using assms(3) by (simp add: times_fit_def time_of_def)
  have 3: "rob_inv cfg t3" "rt_now t3 = rt_now t" "cpi t3 = cpi t" using doCommit_ok [OF cm 2(1) f2] 2 by simp_all
  have "rob_inv cfg t'" using rt_advance_ok(1) [OF a] 3(1) by (simp add: t' rob_inv_def lane_def)
  moreover have "time_of t' = time_of t + latency" using rt_advance_ok(2) [OF a] 3(2) by (simp add: t' lat time_of_def)
  moreover have "cpi t' = (cpi t)(c := cpi t c + latency)" using rt_advance_ok(3) [OF a] 3(3) by (simp add: t' lat)
  ultimately show ?thesis by blast
qed

section \<open>New micro-operations\<close>

lemma frame_upd_uop: "sequenceNumber u = seq_of (rob t ! i) \<Longrightarrow> frame t (upd_entry i (\<lambda>e. e\<lparr>re_uop := u\<rparr>) t)"
  by (rule frame_upd) (simp_all add: seq_of_def)

lemma frame_find_address_producers: "find_address_producers i lowest rs t = Inr t' \<Longrightarrow> frame t t'"
proof (induction rs arbitrary: t)
  case (Cons r rs)
  show ?case
  proof (cases "peekProducer (Some r) lowest (registerDependencies t) = INVALID_SEQNR")
    case True
    with Cons show ?thesis by (simp add: Let_def)
  next
    case False
    note run = Cons.prems [unfolded find_address_producers.simps Let_def if_not_P [OF False]]
    from run obtain p :: rob_entry where
      r: "find_address_producers i lowest rs
               (upd_entry i (if re_done p \<noteq> MaxTime then (\<lambda>e. e\<lparr>re_addressReadyMax := max (re_addressReadyMax e) (re_done p)\<rparr>)
                             else (\<lambda>e. e\<lparr>re_addressProducers := re_addressProducers e @ [peekProducer (Some r) lowest (registerDependencies t)]\<rparr>)) t) = Inr t'"
      by blast
    show ?thesis by (rule frame_trans [OF frame_upd Cons.IH [OF r]]) (simp_all add: seq_of_def)
  qed
qed simp

lemma frame_enter_store_address: "enter_store_address i lowest t = Inr t' \<Longrightarrow> frame t t'"
proof (cases "isStore (mop_of (rob t ! i))")
  case True
  assume "enter_store_address i lowest t = Inr t'"
  with True obtain t1 where 1: "find_address_producers i lowest (addressRegisters (mop_of (rob t ! i))) t = Inr t1"
    and t': "t' = (if re_addressProducers (rob t1 ! i) = [] then upd_entry i (\<lambda>e. e\<lparr>re_addressReady := re_addressReadyMax e\<rparr>) t1 else t1)"
    by (auto simp: enter_store_address_def)
  have "frame t1 t'" by (simp add: t' frame_upd seq_of_def)
  with frame_find_address_producers [OF 1] show ?thesis by (rule frame_trans)
qed (simp add: enter_store_address_def)

lemma addDependency_seq: "addDependency d u = Inr u' \<Longrightarrow> sequenceNumber u' = sequenceNumber u"
  by (auto simp: addDependency_def split: if_splits)

lemma add_dependencies_seq: "add_dependencies ds u = Inr u' \<Longrightarrow> sequenceNumber u' = sequenceNumber u"
  by (induction ds arbitrary: u) (auto dest: addDependency_seq)

lemma depend_on_registers_seq: "depend_on_registers dec lowest rs up = Inr (u', p') \<Longrightarrow> sequenceNumber u' = sequenceNumber (fst up)"
  by (induction dec lowest rs up rule: depend_on_registers.induct) (fastforce dest: addDependency_seq split: if_splits)+

lemma reg_setDependencies_seq: "reg_setDependencies dec lowest u p = Inr (u', p') \<Longrightarrow> sequenceNumber u' = sequenceNumber u"
  by (auto simp: reg_setDependencies_def dest!: depend_on_registers_seq split: if_splits)

lemma mem_setDependencies_seq: "mem_setDependencies lowest u d = Inr (u', d') \<Longrightarrow> sequenceNumber u' = sequenceNumber u"
  by (auto simp: mem_setDependencies_def depend_on_membar_def Let_def dest!: addDependency_seq split: if_splits)

lemma frame_enter_dependencies: "enter_dependencies dec i lowest t = Inr t' \<Longrightarrow> frame t t'"
proof -
  assume "enter_dependencies dec i lowest t = Inr t'"
  then obtain u1 rd u2 md where 1: "reg_setDependencies dec lowest (re_uop (rob t ! i)) (registerDependencies t) = Inr (u1, rd)"
    and 2: "mem_setDependencies lowest u1 (memoryDependencies t) = Inr (u2, md)"
    and t': "t' = upd_entry i (\<lambda>e. e\<lparr>re_uop := u2\<rparr>) (t\<lparr>registerDependencies := rd, memoryDependencies := md\<rparr>)"
    by (auto simp: enter_dependencies_def)
  have "frame t (t\<lparr>registerDependencies := rd, memoryDependencies := md\<rparr>)" by (simp add: frame_def lane_def)
  moreover have "frame (t\<lparr>registerDependencies := rd, memoryDependencies := md\<rparr>) t'"
    unfolding t' by (rule frame_upd_uop) (simp add: mem_setDependencies_seq [OF 2] reg_setDependencies_seq [OF 1] seq_of_def)
  ultimately show ?thesis by (rule frame_trans)
qed

lemma frame_forward_store: "forward_store i ds t = Inr t' \<Longrightarrow> frame t t'"
proof (induction i ds t rule: forward_store.induct)
  case (2 i d ds t)
  note run = "2.prems" [unfolded forward_store.simps]
  from run obtain p where p: "entry_of d t = Inr p" by blast
  note run = run [unfolded p bindE_simps]
  show ?case
  proof (cases "isStore (mop_of p)")
    case True
    note run = run [unfolded if_P [OF True]]
    from run obtain u1 where 1: "removeDependency d (re_uop (rob t ! i)) = Inr u1" by blast
    from run [unfolded 1 bindE_simps] obtain u2 where 2: "add_dependencies (all_dependencies (re_uop p)) u1 = Inr u2"
      and t': "t' = upd_entry i (\<lambda>e. e\<lparr>re_uop := u2\<rparr>) t" by blast
    show ?thesis unfolding t' by (rule frame_upd_uop) (simp add: add_dependencies_seq [OF 2] removeDependency_seq [OF 1] seq_of_def)
  next
    case False
    with "2.IH" run show ?thesis by simp
  qed
qed simp

lemma frame_link_producers: "link_producers i ds acc t = Inr (acc', t') \<Longrightarrow> frame t t'"
proof (induction i ds acc t rule: link_producers.induct)
  case (2 i d ds min_dist remove t)
  note run = "2.prems" [unfolded link_producers.simps Let_def]
  from run obtain k where k: "findEntryBySequenceNumber d t = Inr k" by blast
  note run = run [unfolded k bindE_simps]
  show ?case
  proof (cases "re_done (rob t ! k) \<noteq> MaxTime")
    case True
    note run = run [unfolded if_P [OF True]]
    have rm: "length remove < 8" by (rule ccontr) (use run in simp)
    show ?thesis
      by (rule frame_trans [OF frame_upd "2.IH"(1) [where x = k, OF refl refl refl True run [unfolded bindE_assertE if_P [OF rm]]]]) (simp_all add: seq_of_def)
  next
    case False
    show ?thesis
      by (rule frame_trans [OF frame_upd "2.IH"(2) [where x = k, OF refl refl refl False run [unfolded if_not_P [OF False]]]]) (simp_all add: seq_of_def)
  qed
qed simp

lemma remove_dependencies_seq: "remove_dependencies ds u = Inr u' \<Longrightarrow> sequenceNumber u' = sequenceNumber u"
  by (induction ds arbitrary: u) (auto dest: removeDependency_seq)

lemma frame_count_distance: "count_distance d t = Inr t' \<Longrightarrow> frame t t'"
  by (auto simp: count_distance_def Let_def frame_def lane_def split: if_splits)

text \<open>A micro-operation that enters gets the next sequence number, and keeps the bookkeeping.\<close>

theorem enter_keeps_rob_inv:
  assumes "enter_uop dec cfg u t = Inr t'" and "rob_inv cfg t"
  shows "rob_inv cfg t' \<and> lane t' = lane t @ [(nextSequenceNumber t, MaxTime)]"
proof -
  let ?i = "length (rob t)"
  define t1 where "t1 = t\<lparr>rob := rob t @ [entry_init u (nextSequenceNumber t)], nextSequenceNumber := nextSequenceNumber t + 1\<rparr>"
  note run = assms(1) [unfolded enter_uop_def Let_def, folded t1_def]
  have len: "?i < windowSize cfg + 255" by (rule ccontr) (use run in simp)
  note run = run [unfolded bindE_assertE if_P [OF len]]
  from run obtain t2 where 2: "enter_store_address ?i (seq_of (hd (rob t1))) t1 = Inr t2" by blast
  note run = run [unfolded 2 bindE_simps]
  from run obtain t3 where 3: "enter_dependencies dec ?i (seq_of (hd (rob t1))) t2 = Inr t3" by blast
  note run = run [unfolded 3 bindE_simps]
  from run obtain t4 where 4: "(if store_to_load_forwarding cfg \<and> isLoad (mop_of (rob t3 ! ?i))
            then forward_store ?i (all_dependencies (re_uop (rob t3 ! ?i))) t3 else Inr t3) = Inr t4" by blast
  note run = run [unfolded 4 bindE_simps]
  from run obtain md rm t5 where 5: "link_producers ?i (all_dependencies (re_uop (rob t4 ! ?i))) (None, []) (t4\<lparr>totalConsumers := totalConsumers t4 + 1\<rparr>) = Inr ((md, rm), t5)"
    by (auto elim!: bindE_eq_InrE)
  note run = run [unfolded 5 bindE_simps prod.case]
  from run obtain t6 where 6: "count_distance md t5 = Inr t6" by blast
  note run = run [unfolded 6 bindE_simps]
  from run obtain u1 where 7: "remove_dependencies rm (re_uop (rob t6 ! ?i)) = Inr u1" by blast
  define t7 where "t7 = upd_entry ?i (\<lambda>e. e\<lparr>re_uop := u1\<rparr>) t6"
  from run [unfolded 7 bindE_simps] have t': "t' = count_uop dec (m_uop u) (if getDependenciesLength u1 = 0 then upd_entry ?i uop_ready t7 else t7)"
    by (auto simp: t7_def)
  have "frame t3 t4" using 4 frame_forward_store [of ?i _ t3 t4] by (auto split: if_splits)
  moreover have "frame t4 (t4\<lparr>totalConsumers := totalConsumers t4 + 1\<rparr>)" by (simp add: frame_def lane_def)
  moreover have "frame t6 t7" unfolding t7_def by (rule frame_upd_uop) (simp add: remove_dependencies_seq [OF 7] seq_of_def)
  moreover have "frame t7 (if getDependenciesLength u1 = 0 then upd_entry ?i uop_ready t7 else t7)"
    by (simp add: frame_upd uop_ready_def seq_of_def)
  moreover have "frame s (count_uop dec (m_uop u) s)" for s :: "'a rob_timer" by (simp add: count_uop_def frame_def lane_def)
  ultimately have f: "frame t1 t'"
    unfolding t' using frame_enter_store_address [OF 2] frame_enter_dependencies [OF 3] frame_link_producers [OF 5] frame_count_distance [OF 6]
    by (meson frame_trans)
  have lane1: "lane t1 = lane t @ [(nextSequenceNumber t, MaxTime)]" by (simp add: t1_def lane_def entry_init_def seq_of_def)
  have "lane_inv cfg (lane t @ [(nextSequenceNumber t, MaxTime)]) (unat (num_in_rob t)) (rs_entries_used t) (nextSequenceNumber t + 1)"
    by (rule lane_inv_enter) (use assms(2) len in \<open>simp_all add: rob_inv_def lane_def\<close>)
  then have "rob_inv cfg t1" by (simp add: rob_inv_def lane1) (simp add: t1_def)
  with f lane1 show ?thesis by (simp add: rob_inv_frame) (simp add: frame_def)
qed

lemma enter_all_keeps_rob_inv: "enter_all dec cfg us t = Inr t' \<Longrightarrow> rob_inv cfg t \<Longrightarrow> rob_inv cfg t'"
proof (induction dec cfg us t rule: enter_all.induct)
  case (2 dec cfg u us t)
  show ?case
  proof (cases "squashed u")
    case False
    with "2.prems"(1) obtain t1 where t1: "enter_uop dec cfg u t = Inr t1" and r: "enter_all dec cfg us t1 = Inr t'" by auto
    show ?thesis using "2.IH"(2) [OF False r] enter_keeps_rob_inv [OF t1 "2.prems"(2)] by blast
  qed (use 2 in simp)
qed simp

text \<open>Under the invariant the search by sequence number finds every entry of the buffer.\<close>

lemma findEntry_finds:
  assumes "rob_inv cfg t" and "i < length (rob t)" and "windowSize cfg < 2 ^ 63"
  shows "findEntryBySequenceNumber (seq_of (rob t ! i)) t = Inr i"
proof -
  have ne: "rob t \<noteq> []" using assms(2) by auto
  have sq: "seq_of (rob t ! j) = nextSequenceNumber t - of_nat (length (rob t)) + of_nat j" if "j < length (rob t)" for j
    using assms(1) that by (simp add: rob_inv_def lane_inv_def lane_nth) (simp add: lane_def)
  have "seq_of (rob t ! i) - seq_of (hd (rob t)) = of_nat i"
    using sq [OF assms(2)] sq [of 0] ne by (simp add: hd_conv_nth)
  moreover have "i < 2 ^ 64" using assms by (simp add: rob_inv_def lane_inv_def lane_def)
  ultimately show ?thesis using ne assms(2) by (simp add: findEntryBySequenceNumber_def unat_of_nat)
qed

text \<open>
  A miss of the instruction cache is taken twice when the reservation stations are full as the line arrives: the flag that the
  latency was taken is cleared before the entry is found not to fit, so the next cycle stalls the front end again.
\<close>

lemma icache_miss_taken_twice:
  assumes "unat (num_in_rob t) < length (rob t)" "in_icache_miss t" "rs_entries_used t = rsEntries cfg" "dispatchWidth cfg \<noteq> 0"
    and "iCacheHitWhere (re_uop (rob t ! unat (num_in_rob t))) = h" "h \<noteq> L1I"
  shows "dispatch_loop (Suc k) cfg 0 nx t = Inr (nx, Some CpiRSFull, t\<lparr>in_icache_miss := False\<rparr>) \<and>
    dispatch_loop (Suc k) cfg 0 nx (t\<lparr>in_icache_miss := False\<rparr>) =
      Inr (nx, Some (CpiInstructionCache h),
           t\<lparr>frontend_stalled_until := later (ucast (iCacheLatency (re_uop (rob t ! unat (num_in_rob t))))) t, in_icache_miss := True\<rparr>)"
  using assms by (simp add: Let_def later_def)

section \<open>An example\<close>

definition small_rob :: rob_config where
  "small_rob = \<lparr>dispatchWidth = 1, commitWidth = 1, windowSize = 4, rsEntries = 2, misprediction_penalty = 8,
     store_to_load_forwarding = False, no_address_disambiguation = False, inorder = False, mlp_histogram = False, lll_cutoff = 30\<rparr>"

definition an_add :: dynamic_micro_op where
  "an_add = (case DynamicMicroOp (\<lambda>_. 1) generic_uop 1000 of Inr u \<Rightarrow> u\<lparr>du_last := True\<rparr>)"

definition two_adds :: "unit rob_timer" where
  "two_adds = (case enter_all some_decoder small_rob [an_add, an_add] (RobTimer small_rob None 1000 4 4 ()) of Inr t \<Rightarrow> t)"

lemma two_adds_entered: "enter_all some_decoder small_rob [an_add, an_add] (RobTimer small_rob None 1000 4 4 ()) = Inr two_adds"
proof -
  have "case enter_all some_decoder small_rob [an_add, an_add] (RobTimer small_rob None 1000 4 4 ()) of Inl e \<Rightarrow> False | Inr t \<Rightarrow> True" by code_simp
  then show ?thesis
    by (cases "enter_all some_decoder small_rob [an_add, an_add] (RobTimer small_rob None 1000 4 4 ())") (simp_all add: two_adds_def del: enter_all.simps)
qed

definition after_cycle :: "unit rob_timer" where
  "after_cycle = (case execute some_decoder (\<lambda>m _ _ _ _ _. (1000, L1_OWN, m)) small_rob two_adds of Inr (e, l, t) \<Rightarrow> t)"

lemma one_cycle: "execute some_decoder (\<lambda>m _ _ _ _ _. (1000, L1_OWN, m)) small_rob two_adds = Inr (0, 1000, after_cycle)"
proof -
  have "case execute some_decoder (\<lambda>m _ _ _ _ _. (1000, L1_OWN, m)) small_rob two_adds of Inl e \<Rightarrow> False | Inr (e, l, t) \<Rightarrow> e = 0 \<and> l = 1000"
    by code_simp
  then show ?thesis by (auto simp: after_cycle_def split: sum.splits prod.splits)
qed

lemma two_adds_inv: "rob_inv small_rob two_adds"
  by (rule enter_all_keeps_rob_inv [OF two_adds_entered rob_inv_initial])

theorem cycle_keeps_rob_inv_witness: "rob_inv small_rob after_cycle \<and> time_of after_cycle = time_of two_adds + 1000"
proof -
  have "times_fit two_adds" by code_simp
  moreover have "windowSize small_rob < 2 ^ 64" by (simp add: small_rob_def)
  ultimately show ?thesis using cycle_keeps_rob_inv [OF one_cycle two_adds_inv] by blast
qed

end
