(* ===== verification/Interval_Contention.thy ===== *)
theory Interval_Contention
  imports Core_Models
begin

text \<open>
  \<^verbatim>\<open>performance_models/interval_performance_model/interval_contention_*.cc\<close>: the interval model counts the
  micro-operations of its window for each port and lengthens the critical path when a port, or a group of ports, needs more
  cycles than that. For the Cortex models the code that would do so is commented out. The counts and the lengths are 64-bit
  words.
\<close>

section \<open>State\<close>

record 'p interval_contention =
  count_byport :: "'p \<Rightarrow> UInt64"
  cpContrByPort :: "'p \<Rightarrow> UInt64"

definition IntervalContention :: "'p interval_contention" where
  "IntervalContention = \<lparr>count_byport = (\<lambda>_. 0), cpContrByPort = (\<lambda>_. 0)\<rparr>"

text \<open>The constructor for the A53 names every port of the enumeration for the statistics.\<close>

definition a53_ports :: "a53_port list" where
  "a53_ports = [A53_PORT0, A53_PORT0_12, A53_PORT1, A53_PORT2, A53_PORT12, A53_PORT3, A53_PORT4, A53_PORT34, A53_PORT5, A53_PORT5_12]"

definition IntervalContentionCortexA53 :: "a53_port interval_contention result" where
  "IntervalContentionCortexA53 =
     foldr (\<lambda>p r. bindE (a53_PortTypeString p) (\<lambda>_. r)) a53_ports (Inr IntervalContention)"

definition clearFunctionalUnitStats :: "'p interval_contention \<Rightarrow> 'p interval_contention" where
  "clearFunctionalUnitStats c = c\<lparr>count_byport := (\<lambda>_. 0)\<rparr>"

definition addFunctionalUnitStats :: "'p \<Rightarrow> 'p interval_contention \<Rightarrow> 'p interval_contention" where
  "addFunctionalUnitStats p c = c\<lparr>count_byport := (count_byport c)(p := count_byport c p + 1)\<rparr>"

definition removeFunctionalUnitStats :: "'p \<Rightarrow> 'p interval_contention \<Rightarrow> 'p interval_contention" where
  "removeFunctionalUnitStats p c = c\<lparr>count_byport := (count_byport c)(p := count_byport c p - 1)\<rparr>"

section \<open>The effective length of the critical path\<close>

text \<open>A single port that is used more often than the path is long, and a group of ports: the length with its reason.\<close>

definition check_port :: "('p \<Rightarrow> UInt64) \<Rightarrow> 'p \<Rightarrow> UInt64 \<times> 'p option \<Rightarrow> UInt64 \<times> 'p option" where
  "check_port n p er = (if fst er < n p then (n p, Some p) else er)"

definition check_group :: "UInt64 \<Rightarrow> UInt64 \<Rightarrow> 'p \<Rightarrow> UInt64 \<times> 'p option \<Rightarrow> UInt64 \<times> 'p option" where
  "check_group width use p er = (if use > width * fst er then ((use + (width - 1)) div width, Some p) else er)"

definition record_reason :: "UInt64 \<Rightarrow> bool \<Rightarrow> UInt64 \<times> 'p option \<Rightarrow> 'p interval_contention \<Rightarrow> (UInt64 \<times> 'p interval_contention) result" where
  "record_reason cp update_reason er c =
     (let (eff, reason) = er in
      if update_reason \<and> eff > cp
      then case reason of
             None \<Rightarrow> Inl (LOG_ASSERT_ERROR ''There should be a reason for the cp extention, but there isnt'')
           | Some p \<Rightarrow> Inr (eff, c\<lparr>cpContrByPort := (cpContrByPort c)(p := cpContrByPort c p + 1000000 * (eff - cp) div eff)\<rparr>)
      else Inr (eff, c))"

definition nehalem_path :: "(nehalem_port \<Rightarrow> UInt64) \<Rightarrow> UInt64 \<Rightarrow> UInt64 \<times> nehalem_port option" where
  "nehalem_path n cp =
     (let er = foldl (\<lambda>er p. check_port n p er) (cp, None) [NEHALEM_PORT0, NEHALEM_PORT1, NEHALEM_PORT2, NEHALEM_PORT34, NEHALEM_PORT5];
          er1 = check_group 2 (n NEHALEM_PORT0 + n NEHALEM_PORT5 + n NEHALEM_PORT05) NEHALEM_PORT05 er
      in check_group 3 (n NEHALEM_PORT0 + n NEHALEM_PORT1 + n NEHALEM_PORT5 + n NEHALEM_PORT015) NEHALEM_PORT015 er1)"

definition nehalem_getEffectiveCriticalPathLength ::
  "UInt64 \<Rightarrow> bool \<Rightarrow> nehalem_port interval_contention \<Rightarrow> (UInt64 \<times> nehalem_port interval_contention) result" where
  "nehalem_getEffectiveCriticalPathLength cp update_reason c = record_reason cp update_reason (nehalem_path (count_byport c) cp) c"

definition boom_path :: "(boom_port \<Rightarrow> UInt64) \<Rightarrow> UInt64 \<Rightarrow> UInt64 \<times> boom_port option" where
  "boom_path n cp =
     (let er = foldl (\<lambda>er p. check_port n p er) (cp, None) [BOOM_PORT0, BOOM_PORT1, BOOM_PORT2]
      in check_group 3 (n BOOM_PORT0 + n BOOM_PORT1 + n BOOM_PORT2 + n BOOM_PORT012) BOOM_PORT012 er)"

definition boom_getEffectiveCriticalPathLength ::
  "UInt64 \<Rightarrow> bool \<Rightarrow> boom_port interval_contention \<Rightarrow> (UInt64 \<times> boom_port interval_contention) result" where
  "boom_getEffectiveCriticalPathLength cp update_reason c = record_reason cp update_reason (boom_path (count_byport c) cp) c"

definition a72_getEffectiveCriticalPathLength ::
  "UInt64 \<Rightarrow> bool \<Rightarrow> a72_port interval_contention \<Rightarrow> (UInt64 \<times> a72_port interval_contention) result" where
  "a72_getEffectiveCriticalPathLength cp update_reason c = Inr (cp, c)"

definition a53_getEffectiveCriticalPathLength ::
  "UInt64 \<Rightarrow> bool \<Rightarrow> a53_port interval_contention \<Rightarrow> (UInt64 \<times> a53_port interval_contention) result" where
  "a53_getEffectiveCriticalPathLength cp update_reason c = Inr (cp, c)"

section \<open>It is the least length that the ports allow\<close>

lemma check_port_le: "unat (fst (check_port n p er)) \<le> L \<longleftrightarrow> unat (fst er) \<le> L \<and> unat (n p) \<le> L"
  by (auto simp: check_port_def word_less_nat_alt)

lemma check_group_le:
  assumes "unat use < 2 ^ 62" and "unat (fst er) < 2 ^ 60" and "width = 2 \<or> width = 3"
  shows "unat (fst (check_group width use p er)) \<le> L \<longleftrightarrow> unat (fst er) \<le> L \<and> unat use \<le> unat width * L"
proof -
  have mult: "unat (width * fst er) = unat width * unat (fst er)"
    by (rule unat_mult_small) (use assms in auto)
  have "unat (use + (width - 1)) = unat use + (unat width - 1)"
    using assms by (auto simp: unat_word_ariths)
  then have "unat ((use + (width - 1)) div width) = (unat use + (unat width - 1)) div unat width"
    by (simp add: unat_div_distrib)
  moreover have "unat width = 2 \<or> unat width = 3" using assms(3) by auto
  ultimately show ?thesis using mult by (auto simp: check_group_def word_less_nat_alt)
qed

definition reason_known :: "UInt64 \<Rightarrow> UInt64 \<times> 'p option \<Rightarrow> bool" where
  "reason_known cp er \<longleftrightarrow> cp \<le> fst er \<and> (snd er = None \<longrightarrow> fst er = cp)"

lemma record_reason_Inr: "reason_known cp er \<Longrightarrow> \<exists>c'. record_reason cp upd er c = Inr (fst er, c')"
  by (auto simp: record_reason_def reason_known_def split: prod.splits option.splits)

lemma check_port_reason: "reason_known cp er \<Longrightarrow> reason_known cp (check_port n p er)"
  by (auto simp: check_port_def reason_known_def)

lemma check_group_reason:
  assumes "unat use < 2 ^ 62" and "unat (fst er) < 2 ^ 60" and "width = 2 \<or> width = 3" and "reason_known cp er"
  shows "reason_known cp (check_group width use p er)"
proof -
  have "unat (fst er) \<le> unat (fst (check_group width use p er))"
    using check_group_le [OF assms(1-3), of p "unat (fst (check_group width use p er))"] by simp
  then have "fst er \<le> fst (check_group width use p er)" by (simp add: word_le_nat_alt)
  then show ?thesis using assms(4) by (auto simp: reason_known_def check_group_def split: if_splits)
qed

definition nehalem_fits :: "(nehalem_port \<Rightarrow> UInt64) \<Rightarrow> nat \<Rightarrow> bool" where
  "nehalem_fits n L \<longleftrightarrow>
     (\<forall>p \<in> {NEHALEM_PORT0, NEHALEM_PORT1, NEHALEM_PORT2, NEHALEM_PORT34, NEHALEM_PORT5}. unat (n p) \<le> L) \<and>
     unat (n NEHALEM_PORT0) + unat (n NEHALEM_PORT5) + unat (n NEHALEM_PORT05) \<le> 2 * L \<and>
     unat (n NEHALEM_PORT0) + unat (n NEHALEM_PORT1) + unat (n NEHALEM_PORT5) + unat (n NEHALEM_PORT015) \<le> 3 * L"

lemma unat_sum3: "unat a + unat b + unat c < 2 ^ 64 \<Longrightarrow> unat (a + b + c) = unat a + unat b + unat (c :: UInt64)"
  by (simp add: unat_word_ariths)

lemma unat_sum4: "unat a + unat b + unat c + unat d < 2 ^ 64 \<Longrightarrow> unat (a + b + c + d) = unat a + unat b + unat c + unat (d :: UInt64)"
  by (simp add: unat_word_ariths)

lemma nehalem_path_spec:
  assumes "\<forall>p. unat (n p) < 2 ^ 58" and "unat cp < 2 ^ 58"
  shows "unat (fst (nehalem_path n cp)) \<le> L \<longleftrightarrow> unat cp \<le> L \<and> nehalem_fits n L"
    and "reason_known cp (nehalem_path n cp)"
proof -
  define er where "er = foldl (\<lambda>er p. check_port n p er) (cp, None) [NEHALEM_PORT0, NEHALEM_PORT1, NEHALEM_PORT2, NEHALEM_PORT34, NEHALEM_PORT5]"
  define u2 where "u2 = n NEHALEM_PORT0 + n NEHALEM_PORT5 + n NEHALEM_PORT05"
  define u3 where "u3 = n NEHALEM_PORT0 + n NEHALEM_PORT1 + n NEHALEM_PORT5 + n NEHALEM_PORT015"
  define er1 where "er1 = check_group 2 u2 NEHALEM_PORT05 er"
  note small = assms(1) [rule_format, of NEHALEM_PORT0] assms(1) [rule_format, of NEHALEM_PORT1] assms(1) [rule_format, of NEHALEM_PORT5]
    assms(1) [rule_format, of NEHALEM_PORT05] assms(1) [rule_format, of NEHALEM_PORT015]
    assms(1) [rule_format, of NEHALEM_PORT2] assms(1) [rule_format, of NEHALEM_PORT34]
  have er: "unat (fst er) \<le> L \<longleftrightarrow> unat cp \<le> L \<and> (\<forall>p \<in> {NEHALEM_PORT0, NEHALEM_PORT1, NEHALEM_PORT2, NEHALEM_PORT34, NEHALEM_PORT5}. unat (n p) \<le> L)" for L
    by (simp add: er_def check_port_le conj_assoc)
  have u2: "unat u2 = unat (n NEHALEM_PORT0) + unat (n NEHALEM_PORT5) + unat (n NEHALEM_PORT05)"
    unfolding u2_def by (rule unat_sum3) (use small in simp)
  have u3: "unat u3 = unat (n NEHALEM_PORT0) + unat (n NEHALEM_PORT1) + unat (n NEHALEM_PORT5) + unat (n NEHALEM_PORT015)"
    unfolding u3_def by (rule unat_sum4) (use small in simp)
  have u2s: "unat u2 < 2 ^ 60" and u3s: "unat u3 < 2 ^ 62" using u2 u3 small by auto
  have "unat (fst er) \<le> 2 ^ 58" using er [of "2 ^ 58"] small assms(2) by simp
  then have ers: "unat (fst er) < 2 ^ 60" by simp
  have g2: "unat (fst er1) \<le> L \<longleftrightarrow> unat (fst er) \<le> L \<and> unat u2 \<le> 2 * L" for L
    unfolding er1_def by (subst check_group_le) (use u2s ers in auto)
  have "unat (fst er1) \<le> 2 ^ 59" using g2 [of "2 ^ 59"] u2s \<open>unat (fst er) \<le> 2 ^ 58\<close> by simp
  then have er1s: "unat (fst er1) < 2 ^ 60" by simp
  have path: "nehalem_path n cp = check_group 3 u3 NEHALEM_PORT015 er1"
    by (simp add: nehalem_path_def Let_def er_def er1_def u2_def u3_def)
  have g3: "unat (fst (nehalem_path n cp)) \<le> L \<longleftrightarrow> unat (fst er1) \<le> L \<and> unat u3 \<le> 3 * L"
    unfolding path by (subst check_group_le) (use u3s er1s in auto)
  then show "unat (fst (nehalem_path n cp)) \<le> L \<longleftrightarrow> unat cp \<le> L \<and> nehalem_fits n L"
    unfolding g3 g2 er u2 u3 nehalem_fits_def by (simp only: conj_assoc)
  have "reason_known cp (cp, None)" by (simp add: reason_known_def)
  then have "reason_known cp er" unfolding er_def foldl.simps by (intro check_port_reason)
  then have "reason_known cp er1" unfolding er1_def using u2s ers by (intro check_group_reason) auto
  then show "reason_known cp (nehalem_path n cp)" unfolding path using u3s er1s by (intro check_group_reason) auto
qed

text \<open>
  C37: The effective length of the critical path of the interval model for Nehalem is exact: it is the least number of cycles
  that is not below the critical path and in which the counted micro-operations fit their ports, one per cycle on each of ports
  0, 1, 2, 34 and 5, two per cycle on ports 0 and 5 together with those that can use either, three per cycle on ports 0, 1 and 5
  together with those that can use any (\<open>nehalem_fits\<close>). The operation always returns, so its assertion that a
  longer path has a reason never fails. The critical path and the counts are taken to be below 2^58.
\<close>

theorem effective_length_is_least:
  assumes "\<forall>p. unat (count_byport c p) < 2 ^ 58" and "unat cp < 2 ^ 58"
  shows "\<exists>eff c'. nehalem_getEffectiveCriticalPathLength cp update_reason c = Inr (eff, c') \<and>
           unat eff = (LEAST L. unat cp \<le> L \<and> nehalem_fits (count_byport c) L)"
proof -
  note spec = nehalem_path_spec [OF assms]
  let ?eff = "fst (nehalem_path (count_byport c) cp)"
  have "unat ?eff = (LEAST L. unat cp \<le> L \<and> nehalem_fits (count_byport c) L)"
    by (rule sym, rule Least_equality) (use spec(1) in blast)+
  moreover obtain c' where "nehalem_getEffectiveCriticalPathLength cp update_reason c = Inr (?eff, c')"
    using record_reason_Inr [OF spec(2)] unfolding nehalem_getEffectiveCriticalPathLength_def by blast
  ultimately show ?thesis by blast
qed

definition busy_window :: "nehalem_port interval_contention" where
  "busy_window = \<lparr>count_byport = (\<lambda>_. 0)(NEHALEM_PORT0 := 7, NEHALEM_PORT5 := 9), cpContrByPort = (\<lambda>_. 0)\<rparr>"

theorem effective_length_is_least_witness:
  "\<exists>eff c'. nehalem_getEffectiveCriticalPathLength 4 True busy_window = Inr (eff, c') \<and>
     unat eff = (LEAST L. unat (4 :: UInt64) \<le> L \<and> nehalem_fits (count_byport busy_window) L)"
  by (rule effective_length_is_least) (simp_all add: busy_window_def)

lemma busy_window_length: "fst (nehalem_path (count_byport busy_window) 4) = 9"
  by code_simp

text \<open>The statistics of the A53 ask for a name of port 1, which \<^verbatim>\<open>PortTypeString\<close> does not know: the model cannot be made.\<close>

lemma a53_interval_contention_aborts: "IntervalContentionCortexA53 = Inl (LOG_PRINT_ERROR ''Unknown port type'')"
  by (simp add: IntervalContentionCortexA53_def a53_ports_def a53_PortTypeString_def bindE_def)

end
