(* ===== verification/Spec2Isabelle.thy ===== *)
theory Spec2Isabelle
  imports Replacement_Properties Nuca_Cache Dram_Directory_Properties Sync_Server Barrier_Futex Queue_Properties
    Cache_Cntlr_Properties Memory_System Dram_Cache Network Rob_Timer_Properties Interval_Contention
begin

text \<open>
  A verification of the core of the Sniper multi-core simulator (the sources under \<^verbatim>\<open>src/\<close>).

  \<^bold>\<open>The program.\<close> Sniper runs an application on simulated cores. Each core's loads and stores go through
  a hierarchy of caches to a distributed directory, which keeps the caches coherent and sits in front of an
  optional NUCA slice and of DRAM. The threads of the application synchronise through the simulator, which
  emulates mutexes, condition variables, barriers and futexes, and the clocks of the cores are kept together
  by a barrier that releases everybody once per quantum. The development follows this structure; each theory
  opens with a description of the files it models and of what it leaves out.

  \<^bold>\<open>Conventions.\<close> C++ integers are words of their width where a bit operation or a wrap-around is
  possible, and natural numbers or integers where the code bounds them; times (\<^verbatim>\<open>SubsecondTime\<close>) are 64-bit
  words of femtoseconds. A failed assertion, a reported error, undefined behaviour and a loop that never
  ends are values of \<open>sim_error\<close>, and an operation that can end so returns a \<open>result\<close>. Loops are structural
  recursion where the code bounds them and \<open>partial_function (option)\<close> otherwise, in which case the
  theorems prove that they return. Randomness (\<^verbatim>\<open>rand\<close>, \<^verbatim>\<open>random_shuffle\<close>), address translation, hooks and the
  contents of application memory are parameters. Locks are not modelled: an operation that holds the lock of
  its component runs atomically, and interleavings are sequences of such operations.

  \<^bold>\<open>The memory hierarchy.\<close>
  \<^item> \<open>Prelude\<close>, \<open>Bit_Utils\<close>: errors and shared lemmas; \<^verbatim>\<open>misc/utils.cc\<close> and its neighbours (powers of two,
    logarithms, modulo counters, the random generator).
  \<^item> \<open>Cache_Base\<close>: home nodes of addresses and the split of an address into set and tag
    (\<^verbatim>\<open>address_home_lookup.cc\<close>, \<^verbatim>\<open>cache_base.cc\<close>); different blocks never share set and tag.
  \<^item> \<open>Cache_Block_Info\<close>, \<open>Replacement\<close>, \<open>Replacement_Properties\<close>, \<open>Cache_Set\<close>, \<open>Cache\<close>: one cache, from the
    state of a line over the eight replacement policies to the operations of \<^verbatim>\<open>cache.cc\<close>. An invariant holds
    in every reachable cache, insertion and invalidation refine operations on a finite map, LRU is
    move-to-front on a recency list, and every policy chooses an existing way.
  \<^item> \<open>Fault_Injection\<close>: the fault manager and the random injector.
  \<^item> \<open>Circular_Queue\<close>: the ring buffer and the per-address request queues, as refinements of lists.
  \<^item> \<open>Nuca_Cache\<close>: a slice of shared cache beside the directory.
  \<^item> \<open>Directory\<close>, \<open>Dram_Directory_Cache\<close>, \<open>Directory_Uniqueness\<close>: directory entries with their sharer sets, the
    directory and its set-associative cache; an address has at most one entry.
  \<^item> \<open>Dram_Directory_Cntlr\<close> models every message handler of \<^verbatim>\<open>dram_directory_cntlr.cc\<close> for the MSI, MESI and MESIF
    protocols. \<open>Dram_Directory_Invariants\<close> has the interface of an invariant that all handlers keep as the
    locale \<open>cntlr_invariant\<close>; \<open>Dram_Directory_Progress\<close> shows that the mutually calling handlers end;
    \<open>Dram_Directory_Properties\<close> states the single-writer property, the uniqueness of entries and termination
    for every sequence of messages.

  \<^bold>\<open>Threads and time.\<close>
  \<^item> \<open>Thread_Manager\<close> holds the states of threads, \<open>Wait_Queues\<close> the relation between queues of sleepers and those
    states that both servers keep.
  \<^item> \<open>Sync_Server\<close>: \<^verbatim>\<open>sync_server.cc\<close>; no sleeper is lost, mutexes are handed over in order, barriers
    release everybody together.
  \<^item> \<open>Futex\<close>, \<open>Futex_Properties\<close>: \<^verbatim>\<open>syscall_server.cc\<close>; which waiters a wake-up takes, requeueing, timeouts.
  \<^item> \<open>Barrier_Sync\<close>, \<open>Barrier_Properties\<close>, \<open>Barrier_Futex\<close>: \<^verbatim>\<open>barrier_sync_server.cc\<close>. What the barrier relies on of
    the rest of the simulator is the locale \<open>barrier_environment\<close>, interpreted on the system call server; the
    release loop ends, no waiting thread is forgotten, and advancing the clock wakes a timed waiter.

  \<^bold>\<open>The private caches and the memory behind them.\<close>
  \<^item> \<open>Subsecond_Time\<close>, \<open>Contention_Model\<close>, \<open>Queue_Models\<close>, \<open>Queue_Properties\<close>: times, periods and bandwidths; the models of
    contended resources. A contended resource is never given to more requests than it has units, and the history list books no
    time twice as long as it does not prune its list.
  \<^item> \<open>Sim_Monad\<close>: operations on a state that may fail, with the partial-correctness rules the cache controllers use.
  \<^item> \<open>Prefetchers\<close>: the three prefetchers.
  \<^item> \<open>Shmem_Perf\<close>: the breakdown of a request's latency; every moment is charged to the first report later than it.
  \<^item> \<open>Dram_Cntlr\<close>, \<open>Dram_Cache\<close>: the memory controller with its latency models, and the cache in front of it. Memory returns what
    was written; the DRAM cache cannot be filled, because it accounts through a null pointer.
  \<^item> \<open>Cache_Hierarchy\<close> has the state of the cache controllers of a node, \<open>Cache_Cntlr\<close> their operations on lines,
    \<open>Cache_Requests\<close> the requests of the core and of the level above, \<open>Cache_Messages\<close> the messages of the directory.
    \<open>Cache_Lines\<close> and \<open>Cache_Coherence\<close> describe what these operations do to the copies of a line,
    \<open>Cache_Cntlr_Properties\<close> states that updates reach every copy, that the directory's requests are answered and that
    insertion replaces at most one line, \<open>Cache_Invariant\<close> that every operation keeps the caches well formed.
  \<^item> \<open>Tlb\<close>: the levels of translation buffers. \<open>Memory_System\<close> composes the node: accesses of the core, address translation and
    the dispatch of packets to caches, directory and memory, with the invariant of the composition.
  \<^item> \<open>Network_Mesh\<close>, \<open>Network_Models\<close>, \<open>Network\<close>: the mesh with its routing and placement of memory controllers, the four network
    models, and sending, forwarding and receiving. A packet to one core is delivered; the broadcast tree never ends.

  \<^bold>\<open>The cores.\<close>
  \<^item> \<open>Micro_Op\<close>: micro-operations and the tables of the producers of registers and memory.
  \<^item> \<open>Core_Models\<close>: latencies, ports and units of the four core models. \<open>Rob_Contention\<close>: which micro-operations may issue in
    the same cycle, with the interface of the issue stage as the locale \<open>issue_ports\<close>. \<open>Interval_Contention\<close>: the effective length
    of the critical path, which is the least number of cycles the ports allow.
  \<^item> \<open>Rob_Timer\<close>, \<open>Rob_Timer_Properties\<close>: the reorder buffer of the out-of-order model. Every cycle keeps its bookkeeping and
    charges its time to one component of the CPI stack; entries commit in order and once they are done.

  \<^bold>\<open>Bounds and fuel.\<close> Loops that the code bounds are structural recursion on lists or on a count that the code gives (the free
  places of the reorder buffer's window, the attempts of query-based selection, the levels of the cache hierarchy). The loops
  of the barrier and of requeueing are partial functions, and so are the loop over the cycles of the reorder buffer, about whose
  end nothing is claimed, and the forwarding of broadcasts, which has no end. Theorems about times assume that they stay
  away from the end of the 64-bit range; each says by how much.

  \<^bold>\<open>Not modelled.\<close> The interval timer and the timers for hardware threads, the schedulers and the branch predictors; the
  process shell (configuration files, logging, statistics databases, Python scripting), the trace reader and the instruction
  decoders, which are input and output or libraries outside the tree. Most statistics counters are left out, and the breakdown of
  latencies is followed through memory and the DRAM cache only. The constructors that read the configuration get its values as
  arguments.
\<close>

end
